(* ===== verification/Prelude.thy ===== *)
theory Prelude
  imports Main "HOL-Library.Word" "HOL-Library.AList" "HOL-Library.Multiset"
    "HOL-Library.List_Lexorder" "HOL-Library.Char_ord"
begin

text \<open>
  Shared vocabulary of the development.

  \<^item> Rust's \<open>HashMap\<close> is an association list. \<open>get\<close> is \<open>map_of\<close>, \<open>insert\<close> is
    \<open>AList.update\<close> (in place for a present key), \<open>remove\<close> is \<open>AList.delete\<close>, and
    iteration follows the list. The iteration order of a \<open>HashMap\<close> is not specified, so
    theorems quantify over all association lists: every order is an instance.
  \<^item> \<open>u64\<close> values are \<open>64 word\<close>; \<open>usize\<close> counters are \<open>nat\<close> with the saturation at
    \<open>usize_max\<close> written out.
  \<^item> \<open>latch\<close>, \<open>token_guarded\<close>, \<open>event_machine\<close> and \<open>transition_system\<close> are the
    contracts that several components share; each component interprets them on its own
    operations.
\<close>

named_theorems keymap \<open>laws of the association-list operations\<close>

type_synonym u64 = "64 word"
type_synonym ident = string

subsection \<open>Fallible steps\<close>

text \<open>The \<open>?\<close> of a fallible step.\<close>

definition and_then :: "'e + 'a \<Rightarrow> ('a \<Rightarrow> 'e + 'b) \<Rightarrow> 'e + 'b" where
  "and_then r f = (case r of Inl e \<Rightarrow> Inl e | Inr x \<Rightarrow> f x)"

definition ensure :: "bool \<Rightarrow> 'e \<Rightarrow> 'e + unit" where
  "ensure ok e = (if ok then Inr () else Inl e)"

lemma and_then_Inr: "and_then r f = Inr y \<longleftrightarrow> (\<exists>x. r = Inr x \<and> f x = Inr y)"
  by (auto simp: and_then_def split: sum.splits)

lemma ensure_Inr: "ensure ok e = Inr u \<longleftrightarrow> ok"
  by (simp add: ensure_def)

subsection \<open>Machine integers\<close>

definition usize_max :: nat where
  "usize_max = 18446744073709551615"

definition sat_add :: "nat \<Rightarrow> nat \<Rightarrow> nat" where
  "sat_add a b = min usize_max (a + b)"

definition u64_saturating_succ :: "u64 \<Rightarrow> u64" where
  "u64_saturating_succ w = (if w = - 1 then w else w + 1)"

lemma sat_add_exact: "a + b \<le> usize_max \<Longrightarrow> sat_add a b = a + b"
  by (simp add: sat_add_def)

text \<open>Evaluation compares binary numerals, so that the limit is never counted out.\<close>

lemma sat_add_code [code]:
  "sat_add a b = (let s = a + b in if int s \<le> 18446744073709551615 then s else nat 18446744073709551615)"
  by (simp add: sat_add_def usize_max_def Let_def min_def)

declare usize_max_def [code del]

lemma sat_add_bound: "sat_add a b \<le> usize_max"
  by (simp add: sat_add_def)

lemma unat_u64_max: "unat (- 1 :: u64) = usize_max"
  by (simp add: usize_max_def unsigned_minus_1_eq_mask mask_eq_exp_minus_1)

lemma unat_saturating_succ:
  "unat (u64_saturating_succ w) = min usize_max (Suc (unat w))"
proof (cases "w = - 1")
  case True
  then show ?thesis by (simp add: u64_saturating_succ_def unat_u64_max)
next
  case False
  then have "unat w \<noteq> usize_max" by (metis unat_u64_max word_unat_eq_iff)
  moreover have "unat w < 2 ^ 64" using unsigned_less[of w] by simp
  ultimately have lt: "Suc (unat w) < 2 ^ 64" by (simp add: usize_max_def)
  then have "unat (w + 1) = Suc (unat w)" by (simp add: unat_word_ariths)
  with False lt show ?thesis by (simp add: u64_saturating_succ_def usize_max_def)
qed

subsection \<open>Association lists as hash maps\<close>

declare map_of_eq_Some_iff [simp del] and Some_eq_map_of_iff [simp del]

abbreviation keys :: "('k \<times> 'v) list \<Rightarrow> 'k set" where
  "keys m \<equiv> fst ` set m"

abbreviation wf_map :: "('k \<times> 'v) list \<Rightarrow> bool" where
  "wf_map m \<equiv> distinct (map fst m)"

text \<open>\<open>entry(k).or_default()\<close> and \<open>get_mut\<close> as value transformers.\<close>

definition or_default :: "'v \<Rightarrow> 'v option \<Rightarrow> 'v" where
  "or_default d x = (case x of None \<Rightarrow> d | Some v \<Rightarrow> v)"

definition map_modify :: "'k \<Rightarrow> ('v \<Rightarrow> 'v) \<Rightarrow> ('k \<times> 'v) list \<Rightarrow> ('k \<times> 'v) list" where
  "map_modify k f m = map (\<lambda>(k', v). (k', if k' = k then f v else v)) m"

definition map_values :: "('v \<Rightarrow> 'w) \<Rightarrow> ('k \<times> 'v) list \<Rightarrow> ('k \<times> 'w) list" where
  "map_values f m = map (\<lambda>(k, v). (k, f v)) m"

lemma or_default_simps [simp]:
  "or_default d None = d" "or_default d (Some v) = v"
  by (simp_all add: or_default_def)

lemma map_of_update [simp, keymap]:
  "map_of (AList.update k v m) = (map_of m)(k \<mapsto> v)"
  by (simp add: update_conv')

lemma map_of_remove [simp, keymap]:
  "map_of (AList.delete k m) = (map_of m)(k := None)"
  by (simp add: delete_conv')

lemma keys_update [simp, keymap]: "keys (AList.update k v m) = insert k (keys m)"
  by (simp add: dom_update)

lemma keys_delete [simp, keymap]: "keys (AList.delete k m) = keys m - {k}"
  by (auto simp: AList.delete_eq image_iff)

lemma wf_map_update [simp, keymap]: "wf_map m \<Longrightarrow> wf_map (AList.update k v m)"
  by (rule distinct_update)

lemma wf_map_delete [simp, keymap]: "wf_map m \<Longrightarrow> wf_map (AList.delete k m)"
  by (rule distinct_delete)

lemma map_of_modify [simp, keymap]:
  "map_of (map_modify k f m) = (map_of m)(k := map_option f (map_of m k))"
  by (induction m) (auto simp: map_modify_def fun_eq_iff)

lemma map_fst_modify [simp, keymap]: "map fst (map_modify k f m) = map fst m"
  by (auto simp: map_modify_def)

lemma keys_modify [simp, keymap]: "keys (map_modify k f m) = keys m"
  by (metis list.set_map map_fst_modify)

lemma length_modify [simp]: "length (map_modify k f m) = length m"
  by (simp add: map_modify_def)

lemma map_of_map_values [simp, keymap]:
  "map_of (map_values f m) = (\<lambda>k. map_option f (map_of m k))"
  by (induction m) (auto simp: map_values_def fun_eq_iff)

lemma map_fst_map_values [simp, keymap]: "map fst (map_values f m) = map fst m"
  by (auto simp: map_values_def)

lemma keys_map_values [simp, keymap]: "keys (map_values f m) = keys m"
  by (metis list.set_map map_fst_map_values)

lemma keys_iff_map_of: "k \<in> keys m \<longleftrightarrow> (\<exists>v. map_of m k = Some v)"
  by (metis domD domI dom_map_of_conv_image_fst)

lemma map_of_in_keys: "map_of m k = Some v \<Longrightarrow> k \<in> keys m"
  by (auto simp: keys_iff_map_of)

lemma not_in_keys_iff: "k \<notin> keys m \<longleftrightarrow> map_of m k = None"
  by (auto simp: keys_iff_map_of)

lemma wf_map_filter [simp]: "wf_map m \<Longrightarrow> wf_map (filter P m)"
  by (simp add: distinct_map_filter)

lemma map_of_filter_wf:
  "wf_map m \<Longrightarrow> map_of (filter (\<lambda>(k, v). P k v) m) k
     = (case map_of m k of None \<Rightarrow> None | Some v \<Rightarrow> if P k v then Some v else None)"
proof (induction m)
  case Nil
  then show ?case by simp
next
  case (Cons kv m)
  obtain k' v' where kv: "kv = (k', v')" by (cases kv)
  have "map_of m k' = None" using Cons.prems kv by (simp add: map_of_eq_None_iff)
  with Cons kv show ?case by (auto split: option.splits)
qed

lemma set_update_within: "set (AList.update k v m) \<subseteq> insert (k, v) (set m)"
  by (induction m) auto

lemma length_delete_less: "k \<in> keys m \<Longrightarrow> length (AList.delete k m) < length m"
  by (auto simp: AList.delete_eq intro: length_filter_less)

lemma wf_map_length: "wf_map m \<Longrightarrow> length m = card (keys m)"
  by (metis distinct_card length_map list.set_map)

text \<open>Totals over the values of a map, for counters and multisets alike.\<close>

definition map_total :: "('v \<Rightarrow> 'm::comm_monoid_add) \<Rightarrow> ('k \<times> 'v) list \<Rightarrow> 'm" where
  "map_total f m = (\<Sum>(k, v) \<leftarrow> m. f v)"

lemma map_total_simps [simp]:
  "map_total f [] = 0"
  "map_total f ((k, v) # m) = f v + map_total f m"
  "map_total f (m @ m') = map_total f m + map_total f m'"
  by (simp_all add: map_total_def)

lemma map_total_delete:
  "wf_map m \<Longrightarrow>
   map_total f m = (case map_of m k of None \<Rightarrow> 0 | Some v \<Rightarrow> f v) + map_total f (AList.delete k m)"
proof (induction m)
  case Nil
  then show ?case by simp
next
  case (Cons kv m)
  obtain k' v' where kv: "kv = (k', v')" by (cases kv)
  show ?case
  proof (cases "k' = k")
    case True
    with Cons.prems kv have "k \<notin> keys m" by auto
    then have "AList.delete k m = m" by (rule delete_id)
    with True kv show ?thesis by (simp add: AList.delete_eq)
  next
    case False
    with Cons kv show ?thesis by (simp add: add.left_commute)
  qed
qed

lemma delete_update_other [simp]: "AList.delete k (AList.update k v m) = AList.delete k m"
  by (rule delete_update_same)

lemma map_total_update:
  "wf_map m \<Longrightarrow> map_total f (AList.update k v m) = f v + map_total f (AList.delete k m)"
  using map_total_delete[of "AList.update k v m" f k] by simp

lemma map_total_modify:
  "wf_map m \<Longrightarrow>
   map_total f (map_modify k g m)
     = (case map_of m k of None \<Rightarrow> 0 | Some v \<Rightarrow> f (g v)) + map_total f (AList.delete k m)"
proof (induction m)
  case Nil
  then show ?case by (simp add: map_modify_def)
next
  case (Cons kv m)
  obtain k' v' where kv: "kv = (k', v')" by (cases kv)
  show ?case
  proof (cases "k' = k")
    case True
    with Cons.prems kv have k: "k \<notin> keys m" by auto
    then have "AList.delete k m = m" "map_modify k g m = m"
      by (auto simp: map_modify_def image_iff intro!: map_idI)
    with True kv show ?thesis by (simp add: AList.delete_eq map_modify_def)
  next
    case False
    with Cons kv show ?thesis by (simp add: map_modify_def add.left_commute)
  qed
qed

lemma map_total_cong:
  "(\<And>k v. (k, v) \<in> set m \<Longrightarrow> f v = g v) \<Longrightarrow> map_total f m = map_total g m"
  by (auto simp: map_total_def intro!: arg_cong[where f = sum_list])

subsection \<open>First-writer-wins cells\<close>

text \<open>
  A cell that keeps the first value written to it: the terminal of an event hub, the
  terminal of a download, the shared report of a close, the route failure of an error.
\<close>

locale latch =
  fixes peek :: "'s \<Rightarrow> 'v option" and put :: "'v \<Rightarrow> 's \<Rightarrow> 's"
  assumes put_kept: "peek s = Some v \<Longrightarrow> peek (put w s) = Some v"
    and put_first: "peek s = None \<Longrightarrow> peek (put v s) = Some v"
begin

lemma fold_kept: "peek s = Some v \<Longrightarrow> peek (fold put vs s) = Some v"
  by (induction vs arbitrary: s) (auto simp: put_kept)

lemma first_wins: "peek s = None \<Longrightarrow> peek (fold put (v # vs) s) = Some v"
  by (simp add: fold_kept put_first)

lemma settled_agree:
  "peek (fold put us s) = Some u \<Longrightarrow> peek (fold put (us @ vs) s) = Some u"
  by (simp add: fold_kept)

end

subsection \<open>Token-guarded operations\<close>

text \<open>
  An operation of a registry that acts only for the holder of the current token of a key;
  a caller with a stale token must not disturb the entry that replaced its own.
\<close>

locale token_guarded =
  fixes token_of :: "'s \<Rightarrow> 'k \<Rightarrow> 't option" and act :: "'k \<Rightarrow> 't \<Rightarrow> 's \<Rightarrow> 's"
  assumes stale_noop: "token_of s k \<noteq> Some t \<Longrightarrow> act k t s = s"
    and act_local: "k' \<noteq> k \<Longrightarrow> token_of (act k t s) k' = token_of s k'"
begin

lemma stale_sequence:
  "\<forall>t \<in> set ts. token_of s k \<noteq> Some t \<Longrightarrow> fold (act k) ts s = s"
  by (induction ts) (auto simp: stale_noop)

lemma other_keys_kept:
  "k' \<notin> fst ` set kts \<Longrightarrow> token_of (fold (\<lambda>(k, t). act k t) kts s) k' = token_of s k'"
  by (induction kts arbitrary: s) (auto simp: act_local)

end

subsection \<open>Machines, runs and reachable states\<close>

locale transition_system =
  fixes init :: "'s \<Rightarrow> bool" and step :: "'s \<Rightarrow> 's \<Rightarrow> bool" and inv :: "'s \<Rightarrow> bool"
  assumes init_inv: "init s \<Longrightarrow> inv s"
    and step_inv: "inv s \<Longrightarrow> step s t \<Longrightarrow> inv t"
begin

lemma steps_inv: "step\<^sup>*\<^sup>* s t \<Longrightarrow> inv s \<Longrightarrow> inv t"
  by (induction rule: rtranclp_induct) (auto intro: step_inv)

lemma reachable_inv: "init s \<Longrightarrow> step\<^sup>*\<^sup>* s t \<Longrightarrow> inv t"
  by (blast intro: init_inv steps_inv)

end

locale event_machine =
  fixes apply_event :: "'e \<Rightarrow> 's \<Rightarrow> 's" and inv :: "'s \<Rightarrow> bool"
  assumes event_inv: "inv s \<Longrightarrow> inv (apply_event e s)"
begin

lemma run_inv: "inv s \<Longrightarrow> inv (fold apply_event es s)"
  by (induction es arbitrary: s) (auto simp: event_inv)

end

sublocale event_machine \<subseteq> transition_system inv "\<lambda>s t. \<exists>e. t = apply_event e s" inv
  by unfold_locales (auto simp: event_inv)

end
