(* ===== verification/Rust_Strings.thy ===== *)
theory Rust_Strings
  imports Prelude
begin

text \<open>
  The operations of Rust's \<open>str\<close> that the modelled code calls, on byte strings
  (\<open>char list\<close>): splitting, ASCII case folding, decimal printing (\<open>Display\<close>) and
  \<open>str::parse::<u32>\<close>.
\<close>

subsection \<open>Splitting\<close>

text \<open>\<open>str::split(char)\<close>: always at least one component.\<close>

fun split_on :: "char \<Rightarrow> string \<Rightarrow> string list" where
  "split_on c [] = [[]]"
| "split_on c (x # xs) =
     (if x = c then [] # split_on c xs
      else (case split_on c xs of [] \<Rightarrow> [[x]] | y # ys \<Rightarrow> (x # y) # ys))"

text \<open>\<open>str::rsplit_once(char)\<close>: the text before and after the last separator.\<close>

definition rsplit_once :: "char \<Rightarrow> string \<Rightarrow> (string \<times> string) option" where
  "rsplit_once c s =
     (if c \<in> set s
      then Some (rev (tl (dropWhile (\<lambda>x. x \<noteq> c) (rev s))), rev (takeWhile (\<lambda>x. x \<noteq> c) (rev s)))
      else None)"

lemma split_on_nonempty [simp]: "split_on c s \<noteq> []"
  by (induction s) (auto split: list.splits)

lemma split_on_free: "c \<notin> set s \<Longrightarrow> split_on c s = [s]"
  by (induction s) auto

lemma split_on_append:
  "c \<notin> set s \<Longrightarrow> split_on c (s @ c # t) = s # split_on c t"
  by (induction s) auto

lemma rsplit_once_append:
  assumes "c \<notin> set t"
  shows "rsplit_once c (s @ c # t) = Some (s, t)"
proof -
  have "takeWhile (\<lambda>x. x \<noteq> c) (rev t @ c # rev s) = rev t"
    using assms by (subst takeWhile_append2) auto
  moreover have "dropWhile (\<lambda>x. x \<noteq> c) (rev t @ c # rev s) = c # rev s"
    using assms by (subst dropWhile_append2) auto
  ultimately show ?thesis by (simp add: rsplit_once_def)
qed

subsection \<open>ASCII case folding\<close>

definition ascii_lower :: "char \<Rightarrow> char" where
  "ascii_lower c =
     (let n = of_char c :: nat in if 65 \<le> n \<and> n \<le> 90 then char_of (n + 32) else c)"

definition eq_ignore_ascii_case :: "string \<Rightarrow> string \<Rightarrow> bool" where
  "eq_ignore_ascii_case a b \<longleftrightarrow> map ascii_lower a = map ascii_lower b"

lemma eq_ignore_ascii_case_refl [simp]: "eq_ignore_ascii_case a a"
  by (simp add: eq_ignore_ascii_case_def)

subsection \<open>Decimal numbers\<close>

definition digit_of :: "char \<Rightarrow> nat option" where
  "digit_of c =
     (let n = of_char c :: nat in if 48 \<le> n \<and> n \<le> 57 then Some (n - 48) else None)"

definition char_of_digit :: "nat \<Rightarrow> char" where
  "char_of_digit d = char_of (48 + d)"

fun show_nat :: "nat \<Rightarrow> string" where
  "show_nat n =
     (if n < 10 then [char_of_digit n] else show_nat (n div 10) @ [char_of_digit (n mod 10)])"

declare show_nat.simps [simp del]

definition show_int :: "int \<Rightarrow> string" where
  "show_int i = (if i < 0 then CHR ''-'' # show_nat (nat (- i)) else show_nat (nat i))"

text \<open>The accumulator of \<open>parse::<u32>\<close>: a bad digit or an overflow is an error.\<close>

fun digits_u32 :: "string \<Rightarrow> nat \<Rightarrow> nat option" where
  "digits_u32 [] acc = Some acc"
| "digits_u32 (c # cs) acc =
     (case digit_of c of
        None \<Rightarrow> None
      | Some d \<Rightarrow> if acc * 10 + d < 2 ^ 32 then digits_u32 cs (acc * 10 + d) else None)"

definition parse_u32 :: "string \<Rightarrow> 32 word option" where
  "parse_u32 s =
     map_option of_nat
       (case s of
          [] \<Rightarrow> None
        | c # cs \<Rightarrow>
            if c = CHR ''+'' then (if cs = [] then None else digits_u32 cs 0) else digits_u32 s 0)"

lemma digit_of_char: "d < 10 \<Longrightarrow> digit_of (char_of_digit d) = Some d"
  by (simp add: digit_of_def char_of_digit_def)

lemma char_of_digit_neq:
  assumes "d < 10" and "(of_char c :: nat) < 48 \<or> (of_char c :: nat) > 57"
  shows "char_of_digit d \<noteq> c"
proof
  assume "char_of_digit d = c"
  then have "(of_char c :: nat) = 48 + d" using assms(1) by (auto simp: char_of_digit_def)
  with assms show False by auto
qed

lemma digits_u32_append:
  "digits_u32 (s @ t) acc = Option.bind (digits_u32 s acc) (digits_u32 t)"
  by (induction s acc rule: digits_u32.induct) (auto split: option.splits)

lemma show_nat_nonempty: "show_nat n \<noteq> []"
  by (subst show_nat.simps) simp

lemma set_show_nat: "set (show_nat n) \<subseteq> char_of_digit ` {..<10}"
proof (induction n rule: show_nat.induct)
  case (1 n)
  then show ?case
    by (cases "n < 10") (auto simp: show_nat.simps[of n])
qed

lemma show_nat_avoids:
  "(of_char c :: nat) < 48 \<or> (of_char c :: nat) > 57 \<Longrightarrow> c \<notin> set (show_nat n)"
  using set_show_nat[of n] char_of_digit_neq by fastforce

lemma digits_u32_show: "n < 2 ^ 32 \<Longrightarrow> digits_u32 (show_nat n) 0 = Some n"
proof (induction n rule: show_nat.induct)
  case (1 n)
  show ?case
  proof (cases "n < 10")
    case True
    then show ?thesis by (simp add: show_nat.simps[of n] digit_of_char)
  next
    case False
    with 1 have "digits_u32 (show_nat (n div 10)) 0 = Some (n div 10)" by simp
    with False "1.prems" show ?thesis
      by (simp add: show_nat.simps[of n] digits_u32_append digit_of_char)
  qed
qed

lemma parse_u32_show:
  assumes "n < 2 ^ 32"
  shows "parse_u32 (show_nat n) = Some (of_nat n)"
proof (cases "show_nat n")
  case Nil
  then show ?thesis using show_nat_nonempty by blast
next
  case (Cons c cs)
  have "CHR ''+'' \<notin> set (show_nat n)" by (rule show_nat_avoids) simp
  then have "c \<noteq> CHR ''+''" using Cons by auto
  then show ?thesis
    using Cons digits_u32_show[OF assms] by (auto simp: parse_u32_def)
qed

subsection \<open>\<open>str::trim\<close>\<close>

text \<open>The encodings of the characters with the Unicode property \<open>White_Space\<close>.\<close>

definition whitespace_encodings :: "string list" where
  "whitespace_encodings =
     [[CHR 0x09], [CHR 0x0A], [CHR 0x0B], [CHR 0x0C], [CHR 0x0D], [CHR 0x20], [CHR 0xC2, CHR 0x85], [CHR 0xC2, CHR 0xA0],
      [CHR 0xE1, CHR 0x9A, CHR 0x80]]
     @ map (\<lambda>c. [CHR 0xE2, CHR 0x80, c])
         [CHR 0x80, CHR 0x81, CHR 0x82, CHR 0x83, CHR 0x84, CHR 0x85, CHR 0x86, CHR 0x87, CHR 0x88, CHR 0x89, CHR 0x8A,
          CHR 0xA8, CHR 0xA9, CHR 0xAF]
     @ [[CHR 0xE2, CHR 0x81, CHR 0x9F], [CHR 0xE3, CHR 0x80, CHR 0x80]]"

definition leading :: "string list \<Rightarrow> string \<Rightarrow> string option" where
  "leading ws s = find (\<lambda>w. take (length w) s = w) ws"

text \<open>Dropping encodings from the front, at most one per byte.\<close>

primrec strip_leading :: "nat \<Rightarrow> string list \<Rightarrow> string \<Rightarrow> string" where
  "strip_leading 0 ws s = s"
| "strip_leading (Suc n) ws s =
     (case leading ws s of None \<Rightarrow> s | Some w \<Rightarrow> strip_leading n ws (drop (length w) s))"

definition str_trim_start :: "string \<Rightarrow> string" where
  "str_trim_start s = strip_leading (length s) whitespace_encodings s"

definition str_trim_end :: "string \<Rightarrow> string" where
  "str_trim_end s = rev (strip_leading (length s) (map rev whitespace_encodings) (rev s))"

definition str_trim :: "string \<Rightarrow> string" where
  "str_trim s = str_trim_end (str_trim_start s)"

subsection \<open>Characters of UTF-8 strings\<close>

text \<open>
  UTF-8 is self-synchronising: a character occurs in a string exactly when its encoding occurs
  among the bytes.
\<close>

definition str_contains :: "string \<Rightarrow> string \<Rightarrow> bool" where
  "str_contains needle s \<longleftrightarrow> list_ex (\<lambda>n. take (length needle) (drop n s) = needle) [0..<Suc (length s)]"

definition str_starts_with :: "string \<Rightarrow> string \<Rightarrow> bool" where
  "str_starts_with p s \<longleftrightarrow> take (length p) s = p"

definition str_ends_with :: "string \<Rightarrow> string \<Rightarrow> bool" where
  "str_ends_with p s \<longleftrightarrow> str_starts_with (rev p) (rev s)"

definition str_strip_prefix :: "string \<Rightarrow> string \<Rightarrow> string option" where
  "str_strip_prefix p s = (if str_starts_with p s then Some (drop (length p) s) else None)"

text \<open>\<open>char::is_whitespace\<close> and \<open>char::is_control\<close> (U+0000 to U+001F and U+007F to U+009F).\<close>

definition has_whitespace :: "string \<Rightarrow> bool" where
  "has_whitespace s \<longleftrightarrow> list_ex (\<lambda>w. str_contains w s) whitespace_encodings"

fun has_control :: "string \<Rightarrow> bool" where
  "has_control [] = False"
| "has_control (c # s) =
     (let n = of_char c :: nat
      in n < 32 \<or> n = 127
         \<or> n = 194 \<and> (case s of [] \<Rightarrow> False | d # _ \<Rightarrow> 128 \<le> (of_char d :: nat) \<and> (of_char d :: nat) < 160)
         \<or> has_control s)"

definition trim_end_matches :: "char \<Rightarrow> string \<Rightarrow> string" where
  "trim_end_matches c s = rev (dropWhile (\<lambda>d. d = c) (rev s))"

lemma str_starts_with_iff: "str_starts_with p s \<longleftrightarrow> (\<exists>t. s = p @ t)"
  unfolding str_starts_with_def by (metis append_eq_conv_conj append_take_drop_id)

lemma str_ends_with_iff: "str_ends_with p s \<longleftrightarrow> (\<exists>t. s = t @ p)"
  unfolding str_ends_with_def str_starts_with_iff by (metis rev_append rev_rev_ident)

lemma str_strip_prefix_Some: "str_strip_prefix p s = Some t \<longleftrightarrow> s = p @ t"
  unfolding str_strip_prefix_def str_starts_with_def
  by (auto simp: append_eq_conv_conj) (metis append_take_drop_id)

lemma str_contains_iff: "str_contains p s \<longleftrightarrow> (\<exists>u v. s = u @ p @ v)"
proof
  assume "str_contains p s"
  then obtain n where "take (length p) (drop n s) = p" by (auto simp: str_contains_def list_ex_iff)
  then show "\<exists>u v. s = u @ p @ v" by (metis append_take_drop_id)
next
  assume "\<exists>u v. s = u @ p @ v"
  then obtain u v where "s = u @ p @ v" by blast
  then show "str_contains p s"
    by (auto simp: str_contains_def list_ex_iff intro!: bexI[of _ "length u"])
qed

end
