(* ===== verification/Capability.thy ===== *)
theory Capability
  imports Rust_Strings
begin

text \<open>
  Browser capabilities (\<open>src/src/runtime/capability.rs\<close>): the per-scope status table
  derived once at connection time from the browser's ownership, its headless mode and the
  launch configuration, and the product-version parser.
\<close>

subsection \<open>Data\<close>

datatype capability =
  RequestRouting | PermissionOverrides | IgnoreHttpsErrors | Proxy
| DownloadObservation | ManagedDownloadPath | Pdf | PartitionedCookies

datatype capability_availability = Available | Conditional | Unavailable

datatype capability_reason =
  AttachedDefaultContextIsImmutable | RequiresBrowserLaunchConfiguration
| IsolatedContextRequired | BrowserHeadlessModeUnknown | HeadlessBrowserRequired
| BrowserVersionDependent

datatype capability_scope = DefaultContext | IsolatedContext | BrowserLaunch | BrowserContextCreation

datatype browser_ownership = Attached | Launched

datatype headless_mode = Headless | Headed | HeadlessUnknown

datatype version_knowledge =
  Known "32 word" "32 word" "32 word" "32 word" | VersionUnknown

record capability_status =
  cs_capability :: capability
  cs_availability :: capability_availability
  cs_reason :: "capability_reason option"
  cs_scope :: capability_scope

record capability_set =
  set_scope :: capability_scope
  set_statuses :: "capability_status list"

record browser_metadata =
  bm_protocol_version :: string
  bm_product :: string
  bm_revision :: string
  bm_user_agent :: string
  bm_js_version :: string
  bm_version :: version_knowledge
  bm_headless_mode :: headless_mode

record runtime_capabilities =
  rc_metadata :: browser_metadata
  rc_default_context :: capability_set
  rc_isolated_context :: capability_set

definition capability_all :: "capability list" where
  "capability_all =
     [RequestRouting, PermissionOverrides, IgnoreHttpsErrors, Proxy,
      DownloadObservation, ManagedDownloadPath, Pdf, PartitionedCookies]"

fun capability_index :: "capability \<Rightarrow> nat" where
  "capability_index RequestRouting = 0"
| "capability_index PermissionOverrides = 1"
| "capability_index IgnoreHttpsErrors = 2"
| "capability_index Proxy = 3"
| "capability_index DownloadObservation = 4"
| "capability_index ManagedDownloadPath = 5"
| "capability_index Pdf = 6"
| "capability_index PartitionedCookies = 7"

subsection \<open>Operations\<close>

definition status_available :: "capability \<Rightarrow> capability_scope \<Rightarrow> capability_status" where
  "status_available c sc =
     \<lparr>cs_capability = c, cs_availability = Available, cs_reason = None, cs_scope = sc\<rparr>"

definition status_conditional ::
  "capability \<Rightarrow> capability_reason \<Rightarrow> capability_scope \<Rightarrow> capability_status" where
  "status_conditional c r sc =
     \<lparr>cs_capability = c, cs_availability = Conditional, cs_reason = Some r, cs_scope = sc\<rparr>"

definition status_unavailable ::
  "capability \<Rightarrow> capability_reason \<Rightarrow> capability_scope \<Rightarrow> capability_status" where
  "status_unavailable c r sc =
     \<lparr>cs_capability = c, cs_availability = Unavailable, cs_reason = Some r, cs_scope = sc\<rparr>"

definition new_set :: "capability_scope \<Rightarrow> capability_set" where
  "new_set sc =
     \<lparr>set_scope = sc, set_statuses = map (\<lambda>c. status_available c sc) capability_all\<rparr>"

definition set_status :: "capability_status \<Rightarrow> capability_set \<Rightarrow> capability_set" where
  "set_status st s =
     s\<lparr>set_statuses := (set_statuses s)[capability_index (cs_capability st) := st]\<rparr>"

text \<open>The array has eight entries, so the index is always in range.\<close>

definition status_in :: "capability_set \<Rightarrow> capability \<Rightarrow> capability_status" where
  "status_in s c = set_statuses s ! capability_index c"

definition proxy_status :: "browser_ownership \<Rightarrow> bool \<Rightarrow> capability_status" where
  "proxy_status own launch_proxy =
     (case (own, launch_proxy) of
        (Attached, _) \<Rightarrow> status_unavailable Proxy RequiresBrowserLaunchConfiguration BrowserLaunch
      | (Launched, True) \<Rightarrow> status_available Proxy BrowserLaunch
      | (Launched, False) \<Rightarrow>
          status_conditional Proxy RequiresBrowserLaunchConfiguration BrowserLaunch)"

definition pdf_status ::
  "capability_scope \<Rightarrow> browser_ownership \<Rightarrow> headless_mode \<Rightarrow> capability_status" where
  "pdf_status sc own mode =
     (case (own, mode) of
        (Attached, _) \<Rightarrow> status_conditional Pdf BrowserHeadlessModeUnknown sc
      | (Launched, Headless) \<Rightarrow> status_available Pdf sc
      | (Launched, _) \<Rightarrow> status_unavailable Pdf HeadlessBrowserRequired sc)"

definition capability_set_for ::
  "capability_scope \<Rightarrow> browser_ownership \<Rightarrow> headless_mode \<Rightarrow> bool \<Rightarrow> capability_set" where
  "capability_set_for sc own mode launch_proxy =
     (let s0 = new_set sc;
          s1 = (if sc = DefaultContext \<and> own = Attached
                then fold (\<lambda>c. set_status
                             (status_unavailable c AttachedDefaultContextIsImmutable sc))
                       [RequestRouting, PermissionOverrides, IgnoreHttpsErrors] s0
                else s0);
          s2 = (if sc = DefaultContext
                then set_status (status_unavailable ManagedDownloadPath IsolatedContextRequired sc)
                       (set_status (proxy_status own launch_proxy) s1)
                else set_status (status_available Proxy BrowserContextCreation) s1);
          s3 = set_status (pdf_status sc own mode) s2
      in set_status (status_conditional PartitionedCookies BrowserVersionDependent sc) s3)"

definition derive_capabilities ::
  "browser_metadata \<Rightarrow> browser_ownership \<Rightarrow> bool \<Rightarrow> runtime_capabilities" where
  "derive_capabilities meta own launch_proxy =
     \<lparr>rc_metadata = meta,
      rc_default_context =
        capability_set_for DefaultContext own (bm_headless_mode meta) launch_proxy,
      rc_isolated_context =
        capability_set_for IsolatedContext own (bm_headless_mode meta) launch_proxy\<rparr>"

fun for_scope :: "runtime_capabilities \<Rightarrow> capability_scope \<Rightarrow> capability_set" where
  "for_scope rc DefaultContext = rc_default_context rc"
| "for_scope rc BrowserLaunch = rc_default_context rc"
| "for_scope rc IsolatedContext = rc_isolated_context rc"
| "for_scope rc BrowserContextCreation = rc_isolated_context rc"

definition capability_status_of ::
  "runtime_capabilities \<Rightarrow> capability_scope \<Rightarrow> capability \<Rightarrow> capability_status" where
  "capability_status_of rc sc c = status_in (for_scope rc sc) c"

definition parse_product :: "string \<Rightarrow> version_knowledge" where
  "parse_product product =
     (case rsplit_once (CHR ''/'') product of
        None \<Rightarrow> VersionUnknown
      | Some (_, version) \<Rightarrow>
          let components = split_on (CHR ''.'') version;
              component = (\<lambda>i. if i < length components then parse_u32 (components ! i) else None)
          in if 4 < length components then VersionUnknown
             else (case (component 0, component 1, component 2, component 3) of
                     (Some a, Some b, Some c, Some d) \<Rightarrow> Known a b c d
                   | _ \<Rightarrow> VersionUnknown))"

definition new_metadata ::
  "string \<Rightarrow> string \<Rightarrow> string \<Rightarrow> string \<Rightarrow> string \<Rightarrow> headless_mode \<Rightarrow> browser_metadata" where
  "new_metadata protocol product revision agent js mode =
     \<lparr>bm_protocol_version = protocol, bm_product = product, bm_revision = revision,
      bm_user_agent = agent, bm_js_version = js, bm_version = parse_product product,
      bm_headless_mode = mode\<rparr>"

subsection \<open>The table\<close>

definition wf_set :: "capability_set \<Rightarrow> bool" where
  "wf_set s \<longleftrightarrow>
     length (set_statuses s) = 8 \<and> (\<forall>c. cs_capability (status_in s c) = c)"

lemma capability_index_less: "capability_index c < 8"
  by (cases c) auto

lemma capability_index_inj: "capability_index a = capability_index b \<longleftrightarrow> a = b"
  by (cases a; cases b) auto

lemma status_in_set_status:
  "length (set_statuses s) = 8 \<Longrightarrow>
   status_in (set_status st s) c = (if cs_capability st = c then st else status_in s c)"
  using capability_index_less[of c]
  by (auto simp: status_in_def set_status_def capability_index_inj nth_list_update)

lemma length_set_status [simp]: "length (set_statuses (set_status st s)) = length (set_statuses s)"
  by (simp add: set_status_def)

lemma length_new_set [simp]: "length (set_statuses (new_set sc)) = 8"
  by (simp add: new_set_def capability_all_def)

lemma status_in_new_set [simp]: "status_in (new_set sc) c = status_available c sc"
  by (cases c) (simp_all add: status_in_def new_set_def capability_all_def)

lemma cs_capability_simps [simp]:
  "cs_capability (status_available c sc) = c"
  "cs_capability (status_conditional c r sc) = c"
  "cs_capability (status_unavailable c r sc) = c"
  "cs_capability (proxy_status own lp) = Proxy"
  "cs_capability (pdf_status sc own mode) = Pdf"
  by (auto simp: status_available_def status_conditional_def status_unavailable_def
      proxy_status_def pdf_status_def split: browser_ownership.splits headless_mode.splits bool.splits)

lemmas table_simps = capability_set_for_def Let_def status_in_set_status

lemma length_capability_set_for [simp]:
  "length (set_statuses (capability_set_for sc own mode lp)) = 8"
  by (simp add: table_simps)

lemma status_in_set_for:
  "status_in (capability_set_for sc own mode lp) c =
     (if c = PartitionedCookies then status_conditional c BrowserVersionDependent sc
      else if c = Pdf then pdf_status sc own mode
      else if c = Proxy then
        (if sc = DefaultContext then proxy_status own lp else status_available c BrowserContextCreation)
      else if c = ManagedDownloadPath \<and> sc = DefaultContext then
        status_unavailable c IsolatedContextRequired sc
      else if c \<in> {RequestRouting, PermissionOverrides, IgnoreHttpsErrors}
              \<and> sc = DefaultContext \<and> own = Attached
        then status_unavailable c AttachedDefaultContextIsImmutable sc
      else status_available c sc)"
  by (cases c) (simp_all add: table_simps)

lemma wf_capability_set_for: "wf_set (capability_set_for sc own mode lp)"
  unfolding wf_set_def by (simp add: status_in_set_for)

subsection \<open>Properties\<close>

text \<open>
  The version parser inverts the product string Chrome reports: for every product name
  (slashes included) and all four-component versions of 32-bit numbers, parsing
  \<open>name/a.b.c.d\<close> gives exactly these numbers.
\<close>

theorem parse_product_roundtrip:
  assumes "a < 2 ^ 32" "b < 2 ^ 32" "c < 2 ^ 32" "d < 2 ^ 32"
  shows "parse_product
           (name @ ''/'' @ show_nat a @ ''.'' @ show_nat b @ ''.'' @ show_nat c @ ''.'' @ show_nat d)
         = Known (of_nat a) (of_nat b) (of_nat c) (of_nat d)"
proof -
  have dots: "CHR ''.'' \<notin> set (show_nat n)" for n by (rule show_nat_avoids) simp
  have slashes: "CHR ''/'' \<notin> set (show_nat n)" for n by (rule show_nat_avoids) simp
  let ?v = "show_nat a @ CHR ''.'' # show_nat b @ CHR ''.'' # show_nat c @ CHR ''.'' # show_nat d"
  have "rsplit_once (CHR ''/'') (name @ CHR ''/'' # ?v) = Some (name, ?v)"
    by (rule rsplit_once_append) (auto simp: slashes)
  moreover have "split_on (CHR ''.'') ?v = [show_nat a, show_nat b, show_nat c, show_nat d]"
    by (simp add: split_on_append split_on_free dots)
  ultimately show ?thesis
    using assms by (simp add: parse_product_def parse_u32_show)
qed

theorem parse_product_roundtrip_witness:
  "parse_product (''Chrome'' @ ''/'' @ show_nat 123 @ ''.'' @ show_nat 0 @ ''.'' @ show_nat 6312 @ ''.'' @ show_nat 86)
     = Known 123 0 6312 86"
  using parse_product_roundtrip [of 123 0 6312 86 "''Chrome''"] by simp

text \<open>
  In the capability table derived at connection time, every query returns the status of
  the capability asked for; a status carries a reason exactly when it is not available; and
  a capability is unavailable exactly when the default context of an attached browser would
  have to be mutated, a managed download path is asked of the default context, or a launched
  browser is not known to be headless and a PDF is asked for.
\<close>

theorem derived_status_table:
  fixes meta :: browser_metadata
  defines "status \<equiv> \<lambda>own lp sc c. capability_status_of (derive_capabilities meta own lp) sc c"
  shows "cs_capability (status own lp sc c) = c \<and>
     (cs_reason (status own lp sc c) = None \<longleftrightarrow> cs_availability (status own lp sc c) = Available) \<and>
     (cs_availability (status own lp sc c) = Unavailable \<longleftrightarrow>
        sc \<in> {DefaultContext, BrowserLaunch} \<and> own = Attached \<and>
          c \<in> {RequestRouting, PermissionOverrides, IgnoreHttpsErrors, Proxy}
      \<or> sc \<in> {DefaultContext, BrowserLaunch} \<and> c = ManagedDownloadPath
      \<or> own = Launched \<and> bm_headless_mode meta \<noteq> Headless \<and> c = Pdf)"
  unfolding status_def capability_status_of_def derive_capabilities_def
  by (cases sc; cases c)
    (auto simp: status_in_set_for proxy_status_def pdf_status_def status_available_def
      status_conditional_def status_unavailable_def
      split: browser_ownership.splits headless_mode.splits bool.splits)

end
