(* ===== verification/Errors.thy ===== *)
theory Errors
  imports Capability
begin

text \<open>
  Structured browser errors and close reports (\<open>src/src/runtime/error.rs\<close>). The payload
  \<open>source\<close> of an error holds a \<open>cdpkit\<close> or I/O error; those types are code outside the
  repository, so they are the type parameters of \<open>error_source\<close>, and their printed form is
  an argument of the constructors that use it.
\<close>

subsection \<open>Data\<close>

datatype operation_phase = Preparation | Observation | Dispatch | Confirmation | Cleanup

datatype action_completion = NotStarted | Completed | Unknown

datatype configuration_failure =
  InvalidViewport | InvalidGeolocation | InvalidLocale | InvalidTimezone | InvalidUserAgent
| InvalidAcceptLanguage | InvalidHeaderName string | InvalidHeaderValue string
| DuplicateHeaderName string | ConfigInvalidOrigin | InvalidProxyServer
| ProxyUserInfoNotAllowed | InvalidProxyBypassEntry | ConflictingTypedLaunchArgument
| UnsupportedCapability capability capability_reason | ImmutableDefaultSessionOptions

datatype storage_failure =
  OpaqueOrigin | StorageInvalidOrigin | QuotaExceeded | AccessDenied | InvalidInput
| StorageUnsupported

datatype artifact_failure =
  InvalidOptions | InvalidPath | EmptyRegion | RegionTooLarge | InvalidData
| TooLarge nat nat | ArtifactUnsupported

datatype locator_failure =
  NotFound | Ambiguous nat | NotVisible | Disabled | Unstable | Obscured | NotEditable
| NotCheckable | NotUncheckable | NotSelectable | NotFileInput

record cleanup_failure =
  cf_resource :: string
  cf_message :: string

record route_failure =
  rf_frame_id :: ident
  rf_target_id :: ident
  rf_session_id :: ident

record target_field_error =
  tfe_field :: string
  tfe_message :: string

record target_failure =
  tf_target_id :: "ident option"
  tf_session_id :: "ident option"
  tf_target_type :: "string option"
  tf_target_url :: "string option"
  tf_event_error :: "string option"
  tf_field_errors :: "target_field_error list"

text \<open>Elapsed times are \<open>std::time::Duration\<close>, in nanoseconds.\<close>

record wait_failure =
  wf_condition :: string
  wf_scope :: string
  wf_elapsed :: nat
  wf_last_observation :: "string option"

record stack_frame =
  sf_function_name :: string
  sf_url :: string
  sf_line_number :: int
  sf_column_number :: int

record javascript_exception =
  je_text :: string
  je_line :: int
  je_column :: int
  je_url :: "string option"
  je_preview :: "string option"
  je_stack :: "stack_frame list"

datatype browser_error_details =
  CapabilityDetail capability_status
| ConfigurationDetail configuration_failure
| LocatorDetail locator_failure
| WaitDetail wait_failure
| JavaScriptDetail javascript_exception
| StorageDetail storage_failure
| ArtifactDetail artifact_failure

datatype ('cdp, 'io) error_source = SourceNone | SourceCdp 'cdp | SourceIo 'io

record browser_error_snapshot =
  be_message :: string
  be_operation :: "string option"
  be_phase :: operation_phase
  be_action_completed :: action_completion
  be_cleanup_failures :: "cleanup_failure list"
  be_details :: "browser_error_details option"
  be_route_failure :: "route_failure option"
  be_target_failure :: "target_failure option"

text \<open>A \<open>BrowserError\<close> has the fields of its snapshot and the source.\<close>

record ('cdp, 'io) browser_error = browser_error_snapshot +
  be_source :: "('cdp, 'io) error_source"

text \<open>
  The other components build their errors at this instance: the source is represented by the
  text it prints.
\<close>

type_synonym rt_error = "(string, string) browser_error"

record close_report =
  cr_scope :: string
  cr_closed_resources :: "string list"
  cr_failures :: "cleanup_failure list"

subsection \<open>Constructors\<close>

definition show_phase :: "operation_phase \<Rightarrow> string" where
  "show_phase p = (case p of
      Preparation \<Rightarrow> ''Preparation'' | Observation \<Rightarrow> ''Observation'' | Dispatch \<Rightarrow> ''Dispatch''
    | Confirmation \<Rightarrow> ''Confirmation'' | Cleanup \<Rightarrow> ''Cleanup'')"

definition operation_error :: "string \<Rightarrow> operation_phase \<Rightarrow> ('cdp, 'io) browser_error" where
  "operation_error op ph =
     \<lparr>be_message = ''browser operation '' @ [CHR 0x27] @ op @ [CHR 0x27] @ '' failed during '' @ show_phase ph,
      be_operation = Some op, be_phase = ph, be_action_completed = NotStarted,
      be_cleanup_failures = [], be_details = None, be_route_failure = None,
      be_target_failure = None, be_source = SourceNone\<rparr>"

definition with_message :: "string \<Rightarrow> ('cdp, 'io) browser_error \<Rightarrow> ('cdp, 'io) browser_error" where
  "with_message m e = e\<lparr>be_message := m\<rparr>"

definition with_action_completion ::
  "action_completion \<Rightarrow> ('cdp, 'io) browser_error \<Rightarrow> ('cdp, 'io) browser_error" where
  "with_action_completion c e = e\<lparr>be_action_completed := c\<rparr>"

definition with_details ::
  "browser_error_details \<Rightarrow> ('cdp, 'io) browser_error \<Rightarrow> ('cdp, 'io) browser_error" where
  "with_details d e = e\<lparr>be_details := Some d\<rparr>"

definition with_cleanup_failure ::
  "cleanup_failure \<Rightarrow> ('cdp, 'io) browser_error \<Rightarrow> ('cdp, 'io) browser_error" where
  "with_cleanup_failure f e = e\<lparr>be_cleanup_failures := be_cleanup_failures e @ [f]\<rparr>"

definition with_cleanup_failures_from ::
  "('cdp, 'io) browser_error \<Rightarrow> ('cdp, 'io) browser_error \<Rightarrow> ('cdp, 'io) browser_error" where
  "with_cleanup_failures_from other e =
     e\<lparr>be_cleanup_failures := be_cleanup_failures e @ be_cleanup_failures other\<rparr>"

definition with_route_failure ::
  "route_failure \<Rightarrow> ('cdp, 'io) browser_error \<Rightarrow> ('cdp, 'io) browser_error" where
  "with_route_failure f e =
     (if be_route_failure e = None then e\<lparr>be_route_failure := Some f\<rparr> else e)"

definition with_target_failure ::
  "target_failure \<Rightarrow> ('cdp, 'io) browser_error \<Rightarrow> ('cdp, 'io) browser_error" where
  "with_target_failure f e =
     (if be_target_failure e = None then e\<lparr>be_target_failure := Some f\<rparr> else e)"

definition with_storage_failure :: "storage_failure \<Rightarrow> ('cdp, 'io) browser_error \<Rightarrow> ('cdp, 'io) browser_error" where
  "with_storage_failure f e = with_details (StorageDetail f) e"

definition with_artifact_failure :: "artifact_failure \<Rightarrow> ('cdp, 'io) browser_error \<Rightarrow> ('cdp, 'io) browser_error" where
  "with_artifact_failure f e = with_details (ArtifactDetail f) e"

definition with_locator_failure :: "locator_failure \<Rightarrow> ('cdp, 'io) browser_error \<Rightarrow> ('cdp, 'io) browser_error" where
  "with_locator_failure f e = with_details (LocatorDetail f) e"

definition with_javascript_exception ::
  "javascript_exception \<Rightarrow> ('cdp, 'io) browser_error \<Rightarrow> ('cdp, 'io) browser_error" where
  "with_javascript_exception x e = with_details (JavaScriptDetail x) e"

definition configuration_error ::
  "string \<Rightarrow> configuration_failure \<Rightarrow> ('cdp, 'io) browser_error" where
  "configuration_error op f =
     with_details (ConfigurationDetail f) (operation_error op Preparation)"

text \<open>The derived \<open>Debug\<close> form of a capability, as the message prints it.\<close>

definition show_capability :: "capability \<Rightarrow> string" where
  "show_capability c = (case c of
      RequestRouting \<Rightarrow> ''RequestRouting'' | PermissionOverrides \<Rightarrow> ''PermissionOverrides''
    | IgnoreHttpsErrors \<Rightarrow> ''IgnoreHttpsErrors'' | Proxy \<Rightarrow> ''Proxy''
    | DownloadObservation \<Rightarrow> ''DownloadObservation''
    | ManagedDownloadPath \<Rightarrow> ''ManagedDownloadPath'' | Pdf \<Rightarrow> ''Pdf''
    | PartitionedCookies \<Rightarrow> ''PartitionedCookies'')"

definition unsupported_capability ::
  "string \<Rightarrow> capability_status \<Rightarrow> ('cdp, 'io) browser_error" where
  "unsupported_capability op st =
     with_details (CapabilityDetail st)
       (with_message (''capability '' @ show_capability (cs_capability st)
                      @ '' is unavailable for this session'')
          (operation_error op Preparation))"

definition cdp_operation ::
  "('cdp \<Rightarrow> string) \<Rightarrow> string \<Rightarrow> operation_phase \<Rightarrow> 'cdp \<Rightarrow> ('cdp, 'io) browser_error" where
  "cdp_operation show_cdp op ph err =
     (operation_error op ph)
       \<lparr>be_message := be_message (operation_error op ph :: ('cdp, 'io) browser_error)
                      @ '': '' @ show_cdp err,
        be_source := SourceCdp err\<rparr>"

definition io_operation ::
  "('io \<Rightarrow> string) \<Rightarrow> string \<Rightarrow> operation_phase \<Rightarrow> 'io \<Rightarrow> ('cdp, 'io) browser_error" where
  "io_operation show_io op ph err =
     (operation_error op ph)
       \<lparr>be_message := be_message (operation_error op ph :: ('cdp, 'io) browser_error)
                      @ '': '' @ show_io err,
        be_source := SourceIo err\<rparr>"

definition from_cdp_error :: "('cdp \<Rightarrow> string) \<Rightarrow> 'cdp \<Rightarrow> ('cdp, 'io) browser_error" where
  "from_cdp_error show_cdp err =
     \<lparr>be_message = ''CDP operation failed: '' @ show_cdp err, be_operation = None,
      be_phase = Dispatch, be_action_completed = Unknown, be_cleanup_failures = [],
      be_details = None, be_route_failure = None, be_target_failure = None,
      be_source = SourceCdp err\<rparr>"

definition from_io_error :: "('io \<Rightarrow> string) \<Rightarrow> 'io \<Rightarrow> ('cdp, 'io) browser_error" where
  "from_io_error show_io err =
     \<lparr>be_message = ''browser runtime I/O failed: '' @ show_io err, be_operation = None,
      be_phase = Preparation, be_action_completed = NotStarted, be_cleanup_failures = [],
      be_details = None, be_route_failure = None, be_target_failure = None,
      be_source = SourceIo err\<rparr>"

text \<open>
  The redacted form of a protocol failure: \<open>cdp_kind\<close> is the variant of the \<open>CdpError\<close>,
  without its texts.
\<close>

datatype cdp_kind = KProtocol int | KConnectionClosed | KChannelClosed | KTimeout | KOther

definition sensitive_category :: "cdp_kind \<Rightarrow> string" where
  "sensitive_category k = (case k of
      KProtocol code \<Rightarrow> ''protocol error '' @ show_int code
    | KConnectionClosed \<Rightarrow> ''connection closed''
    | KChannelClosed \<Rightarrow> ''response channel closed''
    | KTimeout \<Rightarrow> ''command timed out''
    | KOther \<Rightarrow> ''redacted CDP failure'')"

definition sensitive_cdp_operation ::
  "('cdp \<Rightarrow> cdp_kind) \<Rightarrow> string \<Rightarrow> operation_phase \<Rightarrow> action_completion \<Rightarrow> 'cdp
   \<Rightarrow> ('cdp, 'io) browser_error" where
  "sensitive_cdp_operation kind op ph completion err =
     (operation_error op ph)
       \<lparr>be_message := be_message (operation_error op ph :: ('cdp, 'io) browser_error)
                      @ '': '' @ sensitive_category (kind err),
        be_action_completed := completion\<rparr>"

subsection \<open>Snapshots\<close>

definition capture :: "('cdp, 'io) browser_error \<Rightarrow> browser_error_snapshot" where
  "capture e =
     \<lparr>be_message = be_message e, be_operation = be_operation e, be_phase = be_phase e,
      be_action_completed = be_action_completed e, be_cleanup_failures = be_cleanup_failures e,
      be_details = be_details e, be_route_failure = be_route_failure e,
      be_target_failure = be_target_failure e\<rparr>"

definition restore :: "browser_error_snapshot \<Rightarrow> ('cdp, 'io) browser_error" where
  "restore s =
     \<lparr>be_message = be_message s, be_operation = be_operation s, be_phase = be_phase s,
      be_action_completed = be_action_completed s, be_cleanup_failures = be_cleanup_failures s,
      be_details = be_details s, be_route_failure = be_route_failure s,
      be_target_failure = be_target_failure s, be_source = SourceNone\<rparr>"

definition outcome_unknown :: "('cdp, 'io) browser_error \<Rightarrow> bool" where
  "outcome_unknown e \<longleftrightarrow> be_action_completed e = Unknown"

subsection \<open>Close reports\<close>

definition new_report :: "string \<Rightarrow> close_report" where
  "new_report sc = \<lparr>cr_scope = sc, cr_closed_resources = [], cr_failures = []\<rparr>"

definition report_closed :: "string \<Rightarrow> close_report \<Rightarrow> close_report" where
  "report_closed res r = r\<lparr>cr_closed_resources := cr_closed_resources r @ [res]\<rparr>"

definition report_failed :: "string \<Rightarrow> string \<Rightarrow> close_report \<Rightarrow> close_report" where
  "report_failed res msg r =
     r\<lparr>cr_failures := cr_failures r @ [\<lparr>cf_resource = res, cf_message = msg\<rparr>]\<rparr>"

definition report_merge :: "close_report \<Rightarrow> close_report \<Rightarrow> close_report" where
  "report_merge r other =
     r\<lparr>cr_closed_resources := cr_closed_resources r @ cr_closed_resources other,
       cr_failures := cr_failures r @ cr_failures other\<rparr>"

definition is_complete :: "close_report \<Rightarrow> bool" where
  "is_complete r \<longleftrightarrow> cr_failures r = []"

definition attempted_count :: "close_report \<Rightarrow> nat" where
  "attempted_count r = length (cr_closed_resources r) + length (cr_failures r)"

lemma report_simps [simp]:
  "is_complete (new_report sc)"
  "attempted_count (new_report sc) = 0"
  "attempted_count (report_closed x r) = Suc (attempted_count r)"
  "attempted_count (report_failed x m r) = Suc (attempted_count r)"
  "attempted_count (report_merge r s) = attempted_count r + attempted_count s"
  "is_complete (report_closed x r) = is_complete r"
  "\<not> is_complete (report_failed x m r)"
  "is_complete (report_merge r s) = (is_complete r \<and> is_complete s)"
  "cr_scope (report_merge r s) = cr_scope r"
  "cr_closed_resources (report_merge r s) = cr_closed_resources r @ cr_closed_resources s"
  "cr_failures (report_merge r s) = cr_failures r @ cr_failures s"
  by (simp_all add: is_complete_def attempted_count_def new_report_def report_closed_def
      report_failed_def report_merge_def)

subsection \<open>The first route and target failure of an error are kept\<close>

interpretation route_latch: latch be_route_failure with_route_failure
  by unfold_locales (auto simp: with_route_failure_def)

interpretation target_latch: latch be_target_failure with_target_failure
  by unfold_locales (auto simp: with_target_failure_def)

subsection \<open>Properties\<close>

text \<open>
  A stable snapshot loses nothing but the source: restoring the capture of an error gives
  the same error with its \<open>cdpkit\<close> or I/O source erased, and capturing a restored snapshot
  gives the snapshot back, so a terminal error handed to many event streams is the same for
  all of them.
\<close>

theorem snapshot_roundtrip:
  "restore (capture e) = e\<lparr>be_source := SourceNone\<rparr> \<and>
   capture (restore s :: ('cdp, 'io) browser_error) = s \<and>
   restore (capture (restore s)) = (restore s :: ('cdp, 'io) browser_error)"
  by (simp add: capture_def restore_def)

text \<open>
  Redaction: the error built for a sensitive operation depends on the protocol error only
  through its variant (and a numeric code). Two failures of the same variant that differ in
  any text they carry give identical errors, and no source is attached.
\<close>

theorem sensitive_error_redacts:
  fixes e1 e2 :: 'cdp
  assumes "kind e1 = kind e2"
  shows "sensitive_cdp_operation kind op ph c e1
           = (sensitive_cdp_operation kind op ph c e2 :: ('cdp, 'io) browser_error) \<and>
         be_source (sensitive_cdp_operation kind op ph c e1 :: ('cdp, 'io) browser_error) = SourceNone"
  using assms by (simp add: sensitive_cdp_operation_def operation_error_def)

theorem sensitive_error_redacts_witness:
  "(sensitive_cdp_operation (\<lambda>_::string. KProtocol (-32000)) ''set cookies'' Dispatch Unknown ''secret a''
      :: (string, string) browser_error)
   = sensitive_cdp_operation (\<lambda>_. KProtocol (-32000)) ''set cookies'' Dispatch Unknown ''secret b''"
  using sensitive_error_redacts [of "\<lambda>_::string. KProtocol (-32000)" "''secret a''" "''secret b''"]
  by blast

text \<open>
  Merging close reports is lossless and order preserving: the merged report is complete
  exactly when every part is, it counts every attempted resource, and it lists the closed
  resources and the failures of the parts in the order they were merged.
\<close>

theorem merge_reports_lossless:
  fixes r :: close_report and rs :: "close_report list"
  defines "m \<equiv> foldl report_merge r rs"
  shows "(is_complete m \<longleftrightarrow> list_all is_complete (r # rs)) \<and>
         attempted_count m = sum_list (map attempted_count (r # rs)) \<and>
         cr_closed_resources m = concat (map cr_closed_resources (r # rs)) \<and>
         cr_failures m = concat (map cr_failures (r # rs)) \<and>
         cr_scope m = cr_scope r"
  unfolding m_def
proof (induction rs arbitrary: r)
  case Nil
  then show ?case by simp
next
  case (Cons x xs)
  show ?case using Cons.IH[of "report_merge r x"] by simp
qed

end
