(* ===== verification/Lifecycle.thy ===== *)
theory Lifecycle
  imports Errors
begin

text \<open>
  Handle lifecycles (\<open>src/src/runtime/lifecycle.rs\<close>): page generations and document
  epochs, the operation gate that coordinates admission with close, the admission of an
  operation through the gates of its runtime, session and page (\<open>page.rs\<close>, \<open>session.rs\<close>,
  \<open>browser.rs\<close>), and the coordinator that runs one close for all callers.
\<close>

subsection \<open>Page generations and document epochs\<close>

record lifecycle_snapshot =
  ls_page_generation :: u64
  ls_document_epoch :: u64

datatype invalidation_reason = PageReplaced | DocumentChanged

definition new_lifecycle :: "u64 \<Rightarrow> lifecycle_snapshot" where
  "new_lifecycle gen = \<lparr>ls_page_generation = gen, ls_document_epoch = 0\<rparr>"

definition commit_new_document :: "lifecycle_snapshot \<Rightarrow> lifecycle_snapshot" where
  "commit_new_document v =
     v\<lparr>ls_document_epoch := u64_saturating_succ (ls_document_epoch v)\<rparr>"

definition replace_target :: "lifecycle_snapshot \<Rightarrow> lifecycle_snapshot" where
  "replace_target v =
     v\<lparr>ls_page_generation := u64_saturating_succ (ls_page_generation v), ls_document_epoch := 0\<rparr>"

definition validate_page :: "u64 \<Rightarrow> lifecycle_snapshot \<Rightarrow> invalidation_reason option" where
  "validate_page expected v =
     (if ls_page_generation v = expected then None else Some PageReplaced)"

definition validate_document ::
  "lifecycle_snapshot \<Rightarrow> lifecycle_snapshot \<Rightarrow> invalidation_reason option" where
  "validate_document expected current =
     (if ls_page_generation current \<noteq> ls_page_generation expected then Some PageReplaced
      else if ls_document_epoch current \<noteq> ls_document_epoch expected then Some DocumentChanged
      else None)"

datatype lifecycle_event = NewDocument | TargetReplaced

fun lifecycle_step :: "lifecycle_event \<Rightarrow> lifecycle_snapshot \<Rightarrow> lifecycle_snapshot" where
  "lifecycle_step NewDocument v = commit_new_document v"
| "lifecycle_step TargetReplaced v = replace_target v"

text \<open>
  As long as neither counter saturates, the generation counts the replacements exactly, and
  within a generation the epoch counts the documents since the last replacement.
\<close>

lemma generation_counts:
  "unat (ls_page_generation v) + length es < usize_max \<Longrightarrow>
   unat (ls_page_generation (fold lifecycle_step es v))
     = unat (ls_page_generation v) + count_list es TargetReplaced"
proof (induction es arbitrary: v)
  case Nil
  then show ?case by simp
next
  case (Cons e es)
  then show ?case
    by (cases e)
      (auto simp: commit_new_document_def replace_target_def unat_saturating_succ)
qed

lemma epoch_counts:
  "TargetReplaced \<notin> set es \<Longrightarrow> unat (ls_document_epoch v) + length es < usize_max \<Longrightarrow>
   unat (ls_document_epoch (fold lifecycle_step es v)) = unat (ls_document_epoch v) + length es"
proof (induction es arbitrary: v)
  case Nil
  then show ?case by simp
next
  case (Cons e es)
  then show ?case
    by (cases e) (auto simp: commit_new_document_def unat_saturating_succ)
qed

subsection \<open>The operation gate\<close>

datatype handle_state = HOpen | HClosing | HClosed

record operation_gate =
  og_scope :: string
  og_handle :: handle_state
  og_active :: nat

definition show_handle :: "handle_state \<Rightarrow> string" where
  "show_handle h =
     (case h of HOpen \<Rightarrow> ''Open'' | HClosing \<Rightarrow> ''Closing'' | HClosed \<Rightarrow> ''Closed'')"

definition new_gate :: "string \<Rightarrow> operation_gate" where
  "new_gate sc = \<lparr>og_scope = sc, og_handle = HOpen, og_active = 0\<rparr>"

text \<open>A successful entry is a permit; the permit is the counted unit of \<open>og_active\<close>.\<close>

definition gate_enter ::
  "string \<Rightarrow> operation_gate \<Rightarrow> rt_error + operation_gate" where
  "gate_enter op g =
     (if og_handle g \<noteq> HOpen
      then Inl (with_message
                  (og_scope g @ '' is '' @ show_handle (og_handle g)
                   @ ''; new operations are not accepted'')
                  (operation_error op Preparation))
      else Inr (g\<lparr>og_active := og_active g + 1\<rparr>))"

definition gate_start_close :: "operation_gate \<Rightarrow> bool \<times> operation_gate" where
  "gate_start_close g =
     (case og_handle g of
        HOpen \<Rightarrow> (True, g\<lparr>og_handle := HClosing\<rparr>)
      | _ \<Rightarrow> (False, g))"

text \<open>The condition under which the loop of \<open>wait_for_drain\<close> returns.\<close>

definition gate_drained :: "operation_gate \<Rightarrow> bool" where
  "gate_drained g \<longleftrightarrow> og_active g = 0"

definition gate_finish_close :: "operation_gate \<Rightarrow> operation_gate" where
  "gate_finish_close g = g\<lparr>og_handle := HClosed\<rparr>"

definition permit_is_current :: "operation_gate \<Rightarrow> bool" where
  "permit_is_current g \<longleftrightarrow> og_handle g = HOpen"

text \<open>Dropping a permit: \<open>saturating_sub\<close> is subtraction on \<open>nat\<close>.\<close>

definition gate_release :: "operation_gate \<Rightarrow> operation_gate" where
  "gate_release g = g\<lparr>og_active := og_active g - 1\<rparr>"

subsection \<open>Admission through a chain of gates\<close>

text \<open>
  A page operation enters the gate of its runtime, of its owner session (if the session
  handle is still alive) and of the page, in this order; a session operation the first two; a
  runtime operation the first. The question mark operator of the code returns at the first
  refusal and drops the permits obtained so far, the latest first. Gates are shared objects,
  so the store is a total map from their names.
\<close>

type_synonym gates = "ident \<Rightarrow> operation_gate"

fun admit_path ::
  "string \<Rightarrow> ident list \<Rightarrow> gates \<Rightarrow> rt_error option \<times> gates" where
  "admit_path op [] gs = (None, gs)"
| "admit_path op (i # path) gs =
     (case gate_enter op (gs i) of
        Inl e \<Rightarrow> (Some e, gs)
      | Inr g \<Rightarrow>
          (case admit_path op path (gs(i := g)) of
             (None, gs') \<Rightarrow> (None, gs')
           | (Some e, gs') \<Rightarrow> (Some e, gs'(i := gate_release (gs' i)))))"

definition admit_page_operation ::
  "string \<Rightarrow> ident \<Rightarrow> ident option \<Rightarrow> ident \<Rightarrow> gates \<Rightarrow>
   rt_error option \<times> gates" where
  "admit_page_operation op runtime owner page gs =
     admit_path op (runtime # (case owner of None \<Rightarrow> [] | Some s \<Rightarrow> [s]) @ [page]) gs"

definition admit_session_operation ::
  "string \<Rightarrow> ident \<Rightarrow> ident \<Rightarrow> gates \<Rightarrow> rt_error option \<times> gates" where
  "admit_session_operation op runtime session gs = admit_path op [runtime, session] gs"

definition release_path :: "ident list \<Rightarrow> gates \<Rightarrow> gates" where
  "release_path path gs = fold (\<lambda>i gs. gs(i := gate_release (gs i))) path gs"

text \<open>
  The gates together with the operations that hold permits on them. Closing threads and
  operations interleave freely; every event is one critical section of the code.
\<close>

record gate_system =
  sys_gates :: gates
  sys_live :: "ident list list"

datatype gate_event =
  Admit string "ident list"
| Complete nat
| StartClose ident
| FinishClose ident

fun gate_apply :: "gate_event \<Rightarrow> gate_system \<Rightarrow> gate_system" where
  "gate_apply (Admit op path) s =
     (case admit_path op path (sys_gates s) of
        (None, gs) \<Rightarrow> s\<lparr>sys_gates := gs, sys_live := path # sys_live s\<rparr>
      | (Some e, gs) \<Rightarrow> s\<lparr>sys_gates := gs\<rparr>)"
| "gate_apply (Complete n) s =
     (if n < length (sys_live s)
      then s\<lparr>sys_gates := release_path (sys_live s ! n) (sys_gates s),
             sys_live := take n (sys_live s) @ drop (Suc n) (sys_live s)\<rparr>
      else s)"
| "gate_apply (StartClose i) s =
     s\<lparr>sys_gates := (sys_gates s)(i := snd (gate_start_close (sys_gates s i)))\<rparr>"
| "gate_apply (FinishClose i) s =
     s\<lparr>sys_gates := (sys_gates s)(i := gate_finish_close (sys_gates s i))\<rparr>"

definition init_system :: gate_system where
  "init_system = \<lparr>sys_gates = new_gate, sys_live = []\<rparr>"

definition permits_held :: "gate_system \<Rightarrow> ident \<Rightarrow> nat" where
  "permits_held s i = (\<Sum>path \<leftarrow> sys_live s. count_list path i)"

definition gates_inv :: "gate_system \<Rightarrow> bool" where
  "gates_inv s \<longleftrightarrow> (\<forall>i. og_active (sys_gates s i) = permits_held s i)"

subsection \<open>Admission and release\<close>

lemma gate_enter_Inr:
  "gate_enter op g = Inr g' \<longleftrightarrow> og_handle g = HOpen \<and> g' = g\<lparr>og_active := og_active g + 1\<rparr>"
  by (auto simp: gate_enter_def)

lemma gate_enter_Inl: "gate_enter op g = Inl e \<Longrightarrow> og_handle g \<noteq> HOpen"
  by (auto simp: gate_enter_def split: if_splits)

lemma gate_release_simps [simp]:
  "og_handle (gate_release g) = og_handle g"
  "og_scope (gate_release g) = og_scope g"
  "og_active (gate_release g) = og_active g - 1"
  by (simp_all add: gate_release_def)

lemma admit_path_refused: "admit_path op path gs = (Some e, gs') \<Longrightarrow> gs' = gs"
proof (induction path arbitrary: gs gs')
  case Nil
  then show ?case by simp
next
  case (Cons i path)
  show ?case
  proof (cases "gate_enter op (gs i)")
    case (Inl e')
    with Cons.prems show ?thesis by simp
  next
    case (Inr g)
    then obtain gs1 where rec: "admit_path op path (gs(i := g)) = (Some e, gs1)"
        and gs': "gs' = gs1(i := gate_release (gs1 i))"
      using Cons.prems by (auto split: prod.splits option.splits)
    from Cons.IH[OF rec] have "gs1 = gs(i := g)" .
    moreover have "gate_release g = gs i" using Inr by (auto simp: gate_enter_Inr gate_release_def)
    ultimately show ?thesis using gs' by auto
  qed
qed

lemma admit_path_admitted:
  "admit_path op path gs = (None, gs') \<Longrightarrow>
   gs' = (\<lambda>i. (gs i)\<lparr>og_active := og_active (gs i) + count_list path i\<rparr>)"
proof (induction path arbitrary: gs gs')
  case Nil
  then show ?case by auto
next
  case (Cons i path)
  show ?case
  proof (cases "gate_enter op (gs i)")
    case (Inl e')
    with Cons.prems show ?thesis by simp
  next
    case (Inr g)
    then have "admit_path op path (gs(i := g)) = (None, gs')"
      using Cons.prems by (auto split: prod.splits option.splits)
    with Cons.IH have "gs' = (\<lambda>j. ((gs(i := g)) j)\<lparr>og_active := og_active ((gs(i := g)) j) + count_list path j\<rparr>)"
      by blast
    with Inr show ?thesis by (auto simp: gate_enter_Inr fun_eq_iff)
  qed
qed

lemma admit_path_iff_open:
  "fst (admit_path op path gs) = None \<longleftrightarrow> (\<forall>i \<in> set path. og_handle (gs i) = HOpen)"
proof (induction path arbitrary: gs)
  case Nil
  then show ?case by simp
next
  case (Cons i path)
  show ?case
  proof (cases "gate_enter op (gs i)")
    case (Inl e')
    then show ?thesis by (auto dest: gate_enter_Inl)
  next
    case (Inr g)
    have "fst (admit_path op (i # path) gs) = None \<longleftrightarrow> fst (admit_path op path (gs(i := g))) = None"
      using Inr by (auto split: prod.splits option.splits)
    with Cons.IH Inr show ?thesis by (auto simp: gate_enter_Inr)
  qed
qed

lemma release_path_active [simp]:
  "og_active (release_path path gs i) = og_active (gs i) - count_list path i"
  by (induction path arbitrary: gs) (auto simp: release_path_def)

lemma release_path_handle [simp]: "og_handle (release_path path gs i) = og_handle (gs i)"
  by (induction path arbitrary: gs) (auto simp: release_path_def)

lemma gate_start_close_simps [simp]:
  "og_active (snd (gate_start_close g)) = og_active g"
  "og_handle (snd (gate_start_close g)) = (if og_handle g = HOpen then HClosing else og_handle g)"
  "fst (gate_start_close g) \<longleftrightarrow> og_handle g = HOpen"
  by (auto simp: gate_start_close_def split: handle_state.splits)

lemma gate_finish_close_simps [simp]:
  "og_active (gate_finish_close g) = og_active g" "og_handle (gate_finish_close g) = HClosed"
  by (simp_all add: gate_finish_close_def)

subsection \<open>Runs of the gate system\<close>

lemma permits_held_complete:
  assumes "n < length (sys_live s)"
  shows "permits_held s i
           = (\<Sum>p \<leftarrow> take n (sys_live s) @ drop (Suc n) (sys_live s). count_list p i)
             + count_list (sys_live s ! n) i"
  unfolding permits_held_def by (subst id_take_nth_drop[OF assms]) simp

lemma gates_inv_init: "gates_inv init_system"
  by (simp add: gates_inv_def init_system_def permits_held_def new_gate_def)

lemma gates_inv_apply: "gates_inv s \<Longrightarrow> gates_inv (gate_apply e s)"
proof (cases e)
  case (Admit op path)
  assume inv: "gates_inv s"
  obtain r gs' where a: "admit_path op path (sys_gates s)
      = (r, gs')"
    by (cases "admit_path op path (sys_gates s)") auto
  show ?thesis
  proof (cases r)
    case None
    with a have "gs' = (\<lambda>i. (sys_gates s i)\<lparr>og_active := og_active (sys_gates s i) + count_list path i\<rparr>)"
      using admit_path_admitted by blast
    with a None inv Admit show ?thesis by (simp add: gates_inv_def permits_held_def)
  next
    case (Some err)
    with a have "gs' = sys_gates s" using admit_path_refused by blast
    with a Some inv Admit show ?thesis by (simp add: gates_inv_def permits_held_def)
  qed
next
  case (Complete n)
  assume inv: "gates_inv s"
  show ?thesis
  proof (cases "n < length (sys_live s)")
    case True
    have "og_active (sys_gates s i) - count_list (sys_live s ! n) i
        = (\<Sum>p \<leftarrow> take n (sys_live s) @ drop (Suc n) (sys_live s). count_list p i)" for i
      using inv permits_held_complete[OF True, of i] by (simp add: gates_inv_def)
    with True Complete show ?thesis by (simp add: gates_inv_def permits_held_def)
  next
    case False
    with inv Complete show ?thesis by simp
  qed
next
  case (StartClose i)
  assume "gates_inv s"
  with StartClose show ?thesis by (simp add: gates_inv_def permits_held_def)
next
  case (FinishClose i)
  assume "gates_inv s"
  with FinishClose show ?thesis by (simp add: gates_inv_def permits_held_def)
qed

interpretation gate_runs: event_machine gate_apply gates_inv
  by unfold_locales (rule gates_inv_apply)

lemma admit_path_cases:
  obtains (admitted) "admit_path op path gs
      = (None, \<lambda>i. (gs i)\<lparr>og_active := og_active (gs i) + count_list path i\<rparr>)"
      "\<forall>i \<in> set path. og_handle (gs i) = HOpen"
  | (refused) e where "admit_path op path gs = (Some e, gs)"
proof (cases "fst (admit_path op path gs)")
  case None
  then have eq: "admit_path op path gs = (None, snd (admit_path op path gs))"
    by (metis prod.collapse)
  show thesis
    using admit_path_admitted[OF eq] eq iffD1[OF admit_path_iff_open None] admitted by metis
next
  case (Some e)
  then have eq: "admit_path op path gs = (Some e, snd (admit_path op path gs))"
    by (metis prod.collapse)
  show thesis using admit_path_refused[OF eq] eq by (intro refused[of e]) simp
qed

lemma count_zero_not_open: "\<forall>j \<in> set path. og_handle (gs j) = HOpen \<Longrightarrow> og_handle (gs i) \<noteq> HOpen \<Longrightarrow> count_list path i = 0"
  by (metis count_notin)

text \<open>Once its close has started, a gate stays shut and its count only falls.\<close>

lemma shut_step:
  assumes "og_handle (sys_gates s i) \<noteq> HOpen"
  shows "og_handle (sys_gates (gate_apply e s) i) \<noteq> HOpen \<and>
         og_active (sys_gates (gate_apply e s) i) \<le> og_active (sys_gates s i)"
proof (cases e)
  case (Admit op path)
  then show ?thesis
    using assms by (cases rule: admit_path_cases[of op path "sys_gates s"])
      (auto simp: count_zero_not_open)
qed (use assms in auto)

lemma shut_run:
  "og_handle (sys_gates s i) \<noteq> HOpen \<Longrightarrow>
   og_handle (sys_gates (fold gate_apply es s) i) \<noteq> HOpen \<and>
   og_active (sys_gates (fold gate_apply es s) i) \<le> og_active (sys_gates s i)"
proof (induction es arbitrary: s)
  case Nil
  then show ?case by simp
next
  case (Cons e es)
  then show ?case using shut_step[of s i e] Cons.IH[of "gate_apply e s"]
    by (auto intro: order.trans)
qed

lemma permits_held_zero:
  "permits_held s i = 0 \<Longrightarrow> p \<in> set (sys_live s) \<Longrightarrow> i \<notin> set p"
  by (auto simp: permits_held_def count_list_0_iff)

subsection \<open>One close for all callers\<close>

text \<open>
  The coordinator holds at most one shared future. A call that finds none spawns the close
  task (it needs a Tokio runtime to do so) and every later call awaits the same future. The
  task ends with its report or with a join error, whose text is given.
\<close>

datatype close_future = Running | Ready close_report

datatype run_outcome = SpawnAndAwait | AwaitShared | ReturnNow close_report

definition coordinator_run ::
  "bool \<Rightarrow> close_future option \<Rightarrow> run_outcome \<times> close_future option" where
  "coordinator_run has_runtime c =
     (case c of
        Some f \<Rightarrow> (AwaitShared, c)
      | None \<Rightarrow>
          if \<not> has_runtime
          then (ReturnNow (report_failed ''close task'' ''no active Tokio runtime''
                             (new_report ''close task'')), None)
          else (SpawnAndAwait, Some Running))"

definition coordinator_task_end ::
  "string + close_report \<Rightarrow> close_future option \<Rightarrow> close_future option" where
  "coordinator_task_end r c =
     (case c of
        Some Running \<Rightarrow>
          Some (Ready (case r of
                         Inr report \<Rightarrow> report
                       | Inl message \<Rightarrow>
                           report_failed ''close task'' message (new_report ''close task'')))
      | _ \<Rightarrow> c)"

definition coordinator_is_finished :: "close_future option \<Rightarrow> bool" where
  "coordinator_is_finished c = (case c of Some (Ready _) \<Rightarrow> True | _ \<Rightarrow> False)"

text \<open>Callers, the close task and the wake-ups of waiting callers, interleaved.\<close>

record close_system =
  cl_future :: "close_future option"
  cl_spawned :: nat
  cl_waiting :: "nat list"
  cl_returned :: "(nat \<times> close_report) list"

datatype close_event = CallClose nat bool | TaskEnd "string + close_report" | Wake nat

fun close_apply :: "close_event \<Rightarrow> close_system \<Rightarrow> close_system" where
  "close_apply (CallClose caller rt) s =
     (case coordinator_run rt (cl_future s) of
        (ReturnNow r, f) \<Rightarrow> s
      | (SpawnAndAwait, f) \<Rightarrow>
          s\<lparr>cl_future := f, cl_spawned := cl_spawned s + 1, cl_waiting := caller # cl_waiting s\<rparr>
      | (AwaitShared, f) \<Rightarrow> s\<lparr>cl_waiting := caller # cl_waiting s\<rparr>)"
| "close_apply (TaskEnd r) s = s\<lparr>cl_future := coordinator_task_end r (cl_future s)\<rparr>"
| "close_apply (Wake caller) s =
     (case cl_future s of
        Some (Ready r) \<Rightarrow>
          if caller \<in> set (cl_waiting s)
          then s\<lparr>cl_waiting := removeAll caller (cl_waiting s),
                 cl_returned := (caller, r) # cl_returned s\<rparr>
          else s
      | _ \<Rightarrow> s)"

definition init_close :: close_system where
  "init_close = \<lparr>cl_future = None, cl_spawned = 0, cl_waiting = [], cl_returned = []\<rparr>"

definition close_inv :: "close_system \<Rightarrow> bool" where
  "close_inv s \<longleftrightarrow>
     cl_spawned s = (if cl_future s = None then 0 else 1) \<and>
     (\<forall>(c, r) \<in> set (cl_returned s). cl_future s = Some (Ready r))"

interpretation close_runs: event_machine close_apply close_inv
proof
  fix s e
  assume "close_inv s"
  then show "close_inv (close_apply e s)"
    by (cases e)
      (auto simp: close_inv_def coordinator_run_def coordinator_task_end_def
        split: option.splits close_future.splits)
qed

subsection \<open>Properties\<close>

text \<open>
  Stale document handles stay stale. From any version whose counters are not about to
  saturate, after one or more navigations and target replacements a snapshot taken before
  them no longer validates, and the reason says whether the target was replaced in between.
\<close>

theorem stale_snapshot_rejected:
  assumes "es \<noteq> []"
    and "unat (ls_page_generation v) + length es < usize_max"
    and "unat (ls_document_epoch v) + length es < usize_max"
  shows "validate_document v (fold lifecycle_step es v)
           = Some (if TargetReplaced \<in> set es then PageReplaced else DocumentChanged)"
proof (cases "TargetReplaced \<in> set es")
  case True
  then have "count_list es TargetReplaced > 0" by (metis count_list_0_iff gr0I)
  with generation_counts[OF assms(2)]
  have "ls_page_generation (fold lifecycle_step es v) \<noteq> ls_page_generation v" by auto
  with True show ?thesis by (simp add: validate_document_def)
next
  case False
  then have "count_list es TargetReplaced = 0" by (simp add: count_list_0_iff)
  with generation_counts[OF assms(2)]
  have "ls_page_generation (fold lifecycle_step es v) = ls_page_generation v"
    by (simp add: word_unat_eq_iff)
  moreover have "ls_document_epoch (fold lifecycle_step es v) \<noteq> ls_document_epoch v"
    using epoch_counts[OF False assms(3)] assms(1) by auto
  ultimately show ?thesis using False by (simp add: validate_document_def)
qed

theorem stale_snapshot_rejected_witness:
  "validate_document (new_lifecycle 3)
     (fold lifecycle_step [NewDocument, NewDocument] (new_lifecycle 3)) = Some DocumentChanged"
  using stale_snapshot_rejected [of "[NewDocument, NewDocument]" "new_lifecycle 3"]
  by (simp add: new_lifecycle_def usize_max_def)

text \<open>
  Admission is all or nothing: a page operation is admitted exactly when the gates of the
  runtime, of the owner session (if alive) and of the page are all open, and then each of them
  counts one more permit per entry; a refused operation leaves every gate as it was, including
  the gates it had entered before the refusal.
\<close>

theorem page_admission_atomic:
  fixes op :: string and gs :: gates and runtime page :: ident and owner :: "ident option"
  defines "path \<equiv> runtime # (case owner of None \<Rightarrow> [] | Some s \<Rightarrow> [s]) @ [page]"
  shows "admit_page_operation op runtime owner page gs =
           (if \<forall>i \<in> set path. og_handle (gs i) = HOpen
            then (None, \<lambda>i. (gs i)\<lparr>og_active := og_active (gs i) + count_list path i\<rparr>)
            else (fst (admit_page_operation op runtime owner page gs), gs)) \<and>
         (fst (admit_page_operation op runtime owner page gs) = None
            \<longleftrightarrow> (\<forall>i \<in> set path. og_handle (gs i) = HOpen))"
  using admit_path_iff_open[of op path gs]
  by (cases rule: admit_path_cases[of op path gs])
    (auto simp: admit_page_operation_def path_def)

theorem page_admission_atomic_witness:
  "fst (admit_page_operation ''click'' ''rt'' (Some ''session'') ''page'' new_gate) = None \<and>
   og_active (snd (admit_page_operation ''click'' ''rt'' (Some ''session'') ''page'' new_gate) ''page'') = 1"
  using page_admission_atomic[of "''click''" "''rt''" "Some ''session''" "''page''" new_gate]
  by (simp add: new_gate_def)

text \<open>
  C15: Close waits for admitted work. In every run of the gate system, once a gate has left
  the open state and its drain condition has been observed, then whatever happens afterwards
  the gate never opens again, it stays drained, and no live operation holds a permit on it, so
  the clean-up that follows the drain takes its snapshot undisturbed.
\<close>

theorem drained_gate_stays_drained:
  assumes "s = fold gate_apply es init_system"
    and "og_handle (sys_gates s i) \<noteq> HOpen" and "gate_drained (sys_gates s i)"
  shows "og_handle (sys_gates (fold gate_apply es' s) i) \<noteq> HOpen \<and>
         gate_drained (sys_gates (fold gate_apply es' s) i) \<and>
         (\<forall>path \<in> set (sys_live (fold gate_apply es' s)). i \<notin> set path)"
proof -
  let ?t = "fold gate_apply es' s"
  from shut_run[OF assms(2), of es'] assms(3)
  have shut: "og_handle (sys_gates ?t i) \<noteq> HOpen" "og_active (sys_gates ?t i) = 0"
    by (auto simp: gate_drained_def)
  have "gates_inv ?t"
    unfolding assms(1) by (intro gate_runs.run_inv gates_inv_init)
  with shut(2) have "permits_held ?t i = 0" by (simp add: gates_inv_def)
  with shut show ?thesis by (auto simp: gate_drained_def dest: permits_held_zero)
qed

theorem drained_gate_stays_drained_witness:
  "gate_drained (sys_gates (fold gate_apply [Admit ''goto'' [''rt'', ''page'']]
      (fold gate_apply [Admit ''click'' [''rt'', ''page''], StartClose ''page'', Complete 0] init_system)) ''page'')"
  using drained_gate_stays_drained
    [of "fold gate_apply [Admit ''click'' [''rt'', ''page''], StartClose ''page'', Complete 0] init_system"
        "[Admit ''click'' [''rt'', ''page''], StartClose ''page'', Complete 0]" "''page''"
        "[Admit ''goto'' [''rt'', ''page'']]"]
  by (simp add: init_system_def new_gate_def gate_enter_def gate_start_close_def release_path_def
      gate_release_def gate_drained_def)

text \<open>
  However many callers close a resource and however their calls interleave with the close
  task, at most one close task is spawned, and all callers that get the shared result get the
  same report.
\<close>

theorem close_runs_once:
  fixes es :: "close_event list"
  defines "s \<equiv> fold close_apply es init_close"
  shows "cl_spawned s \<le> 1 \<and>
         ((c1, r1) \<in> set (cl_returned s) \<and> (c2, r2) \<in> set (cl_returned s) \<longrightarrow>
            r1 = r2 \<and> coordinator_is_finished (cl_future s))"
proof -
  have inv: "close_inv s"
    unfolding s_def by (rule close_runs.run_inv) (simp add: close_inv_def init_close_def)
  have "cl_future s = Some (Ready r)" if "(c, r) \<in> set (cl_returned s)" for c r
    using inv that by (auto simp: close_inv_def)
  from this[of c1 r1] this[of c2 r2] inv show ?thesis
    by (auto simp: close_inv_def coordinator_is_finished_def)
qed

theorem close_runs_once_witness:
  "let s = fold close_apply [CallClose 1 True, CallClose 2 True, TaskEnd (Inr (new_report ''page'')), Wake 1, Wake 2] init_close
   in cl_returned s = [(2, new_report ''page''), (1, new_report ''page'')] \<and> cl_spawned s \<le> 1"
  using close_runs_once [of "[CallClose 1 True, CallClose 2 True, TaskEnd (Inr (new_report ''page'')), Wake 1, Wake 2]"]
  by (simp add: init_close_def coordinator_run_def coordinator_task_end_def)

end
