(* ===== verification/Ownership.thy ===== *)
theory Ownership
  imports Lifecycle
begin

text \<open>
  The registry of pending remote ownership (\<open>src/src/runtime/lifecycle.rs\<close>): every remote
  resource that must be cleaned up is registered with its clean-up until it is disarmed or the
  clean-up has run. The clean-up itself is a closure of the caller; it is the type parameter
  \<open>'c\<close>, and \<open>run\<close> gives the result of running it.
\<close>

subsection \<open>Clean-up errors\<close>

datatype ownership_cleanup_error =
  OProtocol int string
| OTargetStillPresent ident
| ODeadlineExceeded string
| OOther string

definition is_missing_target :: "ownership_cleanup_error \<Rightarrow> bool" where
  "is_missing_target e =
     (case e of
        OProtocol code message \<Rightarrow>
          code = - 32000 \<and>
          message \<in> {''No target with given id'', ''No target with given id found''}
      | _ \<Rightarrow> False)"

definition is_missing_session :: "ownership_cleanup_error \<Rightarrow> bool" where
  "is_missing_session e =
     (case e of
        OProtocol code message \<Rightarrow>
          code \<in> {- 32000, - 32001} \<and>
          message \<in> {''No session with given id'', ''Session with given id not found'',
                      ''Session with given id not found.''}
      | _ \<Rightarrow> False)"

definition show_cleanup_error :: "ownership_cleanup_error \<Rightarrow> string" where
  "show_cleanup_error e =
     (case e of
        OProtocol code message \<Rightarrow> ''Protocol error '' @ show_int code @ '': '' @ message
      | OTargetStillPresent target \<Rightarrow>
          ''target '' @ target @ '' is still present after close confirmation''
      | ODeadlineExceeded stage \<Rightarrow> ''target close deadline exceeded during '' @ stage
      | OOther message \<Rightarrow> message)"

text \<open>\<open>Result<(), OwnershipCleanupError>\<close>: \<open>None\<close> is \<open>Ok(())\<close>.\<close>

type_synonym cleanup_result = "ownership_cleanup_error option"

subsection \<open>The registry\<close>

datatype pending_state = PsPending | PsCleaning

record 'c pending_entry =
  pe_token :: u64
  pe_state :: pending_state
  pe_cleanup :: "'c option"

record 'c ownership_registry =
  rg_next_token :: u64
  rg_entries :: "(string \<times> 'c pending_entry) list"
  rg_completed :: "(string \<times> u64 \<times> cleanup_result) list"

definition new_registry :: "'c ownership_registry" where
  "new_registry = \<lparr>rg_next_token = 1, rg_entries = [], rg_completed = []\<rparr>"

text \<open>\<open>fetch_add\<close> returns the old value and wraps.\<close>

definition registry_register ::
  "string \<Rightarrow> 'c \<Rightarrow> 'c ownership_registry \<Rightarrow> u64 \<times> 'c ownership_registry" where
  "registry_register resource cleanup r =
     (let token = rg_next_token r in
      (token,
       r\<lparr>rg_next_token := token + 1,
         rg_entries := AList.update resource
           \<lparr>pe_token = token, pe_state = PsPending, pe_cleanup = Some cleanup\<rparr> (rg_entries r)\<rparr>))"

definition pending_count :: "'c ownership_registry \<Rightarrow> nat" where
  "pending_count r = length (rg_entries r)"

definition registry_claim ::
  "string \<Rightarrow> u64 \<Rightarrow> 'c ownership_registry \<Rightarrow> 'c option \<times> 'c ownership_registry" where
  "registry_claim resource token r =
     (case map_of (rg_entries r) resource of
        None \<Rightarrow> (None, r)
      | Some e \<Rightarrow>
          if pe_token e \<noteq> token \<or> pe_state e \<noteq> PsPending then (None, r)
          else (pe_cleanup e,
                r\<lparr>rg_entries := AList.update resource
                    (e\<lparr>pe_state := PsCleaning, pe_cleanup := None\<rparr>) (rg_entries r)\<rparr>))"

fun claim_next_in ::
  "(string \<times> 'c pending_entry) list \<Rightarrow>
   (string \<times> u64 \<times> 'c) option \<times> (string \<times> 'c pending_entry) list" where
  "claim_next_in [] = (None, [])"
| "claim_next_in ((resource, e) # rest) =
     (if pe_state e = PsPending
      then (case pe_cleanup e of
              Some cleanup \<Rightarrow>
                (Some (resource, pe_token e, cleanup),
                 (resource, e\<lparr>pe_state := PsCleaning, pe_cleanup := None\<rparr>) # rest)
            | None \<Rightarrow>
                (case claim_next_in rest of (found, rest') \<Rightarrow>
                   (found, (resource, e\<lparr>pe_state := PsCleaning\<rparr>) # rest')))
      else (case claim_next_in rest of (found, rest') \<Rightarrow> (found, (resource, e) # rest')))"

definition registry_claim_next ::
  "'c ownership_registry \<Rightarrow> (string \<times> u64 \<times> 'c) option \<times> 'c ownership_registry" where
  "registry_claim_next r =
     (case claim_next_in (rg_entries r) of (found, es) \<Rightarrow> (found, r\<lparr>rg_entries := es\<rparr>))"

definition holds_token :: "string \<Rightarrow> u64 \<Rightarrow> 'c ownership_registry \<Rightarrow> bool" where
  "holds_token resource token r \<longleftrightarrow>
     (case map_of (rg_entries r) resource of None \<Rightarrow> False | Some e \<Rightarrow> pe_token e = token)"

definition registry_finish ::
  "string \<Rightarrow> u64 \<Rightarrow> cleanup_result \<Rightarrow> 'c ownership_registry \<Rightarrow> 'c ownership_registry" where
  "registry_finish resource token result r =
     (if holds_token resource token r
      then r\<lparr>rg_entries := AList.delete resource (rg_entries r),
             rg_completed := rg_completed r @ [(resource, token, result)]\<rparr>
      else r)"

definition registry_restore_claim ::
  "string \<Rightarrow> u64 \<Rightarrow> 'c \<Rightarrow> 'c ownership_registry \<Rightarrow> 'c ownership_registry" where
  "registry_restore_claim resource token future r =
     (case map_of (rg_entries r) resource of
        None \<Rightarrow> r
      | Some e \<Rightarrow>
          if pe_token e = token \<and> pe_state e = PsCleaning
          then r\<lparr>rg_entries := AList.update resource
                   (e\<lparr>pe_state := PsPending, pe_cleanup := Some future\<rparr>) (rg_entries r)\<rparr>
          else r)"

definition registry_disarm ::
  "string \<Rightarrow> u64 \<Rightarrow> 'c ownership_registry \<Rightarrow> 'c ownership_registry" where
  "registry_disarm resource token r =
     (if holds_token resource token r
      then r\<lparr>rg_entries := AList.delete resource (rg_entries r)\<rparr> else r)"

definition registry_forget_completion ::
  "string \<Rightarrow> u64 \<Rightarrow> 'c ownership_registry \<Rightarrow> 'c ownership_registry" where
  "registry_forget_completion resource token r =
     r\<lparr>rg_completed :=
         filter (\<lambda>(completed, completed_token, _). completed \<noteq> resource \<or> completed_token \<noteq> token)
           (rg_completed r)\<rparr>"

text \<open>
  One pass of the waiting loop of \<open>cleanup_one\<close>: \<open>None\<close> goes back to sleep; otherwise the
  last recorded result of this token, and success when there is none.
\<close>

definition cleanup_one_poll ::
  "string \<Rightarrow> u64 \<Rightarrow> 'c ownership_registry \<Rightarrow> cleanup_result option" where
  "cleanup_one_poll resource token r =
     (if holds_token resource token r then None
      else (case List.find (\<lambda>(completed, completed_token, _).
                              completed = resource \<and> completed_token = token)
                   (rev (rg_completed r)) of
              Some (_, _, result) \<Rightarrow> Some result
            | None \<Rightarrow> Some None))"

definition registry_cleanup_one ::
  "('c \<Rightarrow> cleanup_result) \<Rightarrow> string \<Rightarrow> u64 \<Rightarrow> 'c ownership_registry \<Rightarrow>
   cleanup_result option \<times> 'c ownership_registry" where
  "registry_cleanup_one run resource token r =
     (case registry_claim resource token r of
        (Some cleanup, r') \<Rightarrow>
          (Some (run cleanup), registry_finish resource token (run cleanup) r')
      | (None, r') \<Rightarrow> (cleanup_one_poll resource token r', r'))"

text \<open>\<open>PendingOwnershipGuard::cleanup\<close> and \<open>RetainedOwnership::cleanup\<close>.\<close>

definition guard_cleanup ::
  "('c \<Rightarrow> cleanup_result) \<Rightarrow> string \<Rightarrow> u64 \<Rightarrow> 'c ownership_registry \<Rightarrow>
   cleanup_result option \<times> 'c ownership_registry" where
  "guard_cleanup run resource token r =
     (case registry_cleanup_one run resource token r of
        (None, r') \<Rightarrow> (None, r')
      | (Some result, r') \<Rightarrow> (Some result, registry_forget_completion resource token r'))"

definition sorted_completions ::
  "(string \<times> u64 \<times> cleanup_result) list \<Rightarrow> (string \<times> cleanup_result) list" where
  "sorted_completions completed =
     sort_key fst (map (\<lambda>(resource, _, result). (resource, result)) completed)"

definition registry_abandon_all ::
  "'c ownership_registry \<Rightarrow> (string \<times> cleanup_result) list \<times> 'c ownership_registry" where
  "registry_abandon_all r =
     (sorted_completions (rg_completed r), r\<lparr>rg_entries := [], rg_completed := []\<rparr>)"

definition unclaimed :: "'c ownership_registry \<Rightarrow> nat" where
  "unclaimed r = length (filter (\<lambda>(_, e). pe_state e = PsPending) (rg_entries r))"

lemma claim_next_in_Some:
  "claim_next_in es = (Some (k, t, c), es') \<Longrightarrow>
   length (filter (\<lambda>(_, e). pe_state e = PsPending) es')
     < length (filter (\<lambda>(_, e). pe_state e = PsPending) es)"
proof (induction es arbitrary: es' rule: claim_next_in.induct)
  case 1
  then show ?case by simp
next
  case (2 resource e rest)
  then show ?case by (auto split: if_splits option.splits prod.splits)
qed

lemma unclaimed_finish: "unclaimed (registry_finish k t x r) \<le> unclaimed r"
proof -
  have "length (filter P (AList.delete k es)) \<le> length (filter P es)" for P and es :: "(string \<times> 'a pending_entry) list"
    by (induction es) (auto simp: AList.delete_eq)
  then show ?thesis by (simp add: unclaimed_def registry_finish_def)
qed

lemma claim_next_decreases:
  assumes "registry_claim_next r = (Some (k, t, c), r')"
  shows "unclaimed (registry_finish k t x r') < unclaimed r"
proof -
  have "unclaimed r' < unclaimed r"
    using assms by (auto simp: registry_claim_next_def unclaimed_def split: prod.splits dest!: claim_next_in_Some)
  then show ?thesis using unclaimed_finish[of k t x r'] by simp
qed

text \<open>
  \<open>cleanup_all\<close> with no other task interfering: claim and run every pending clean-up, then
  hand out all recorded completions sorted by resource. \<open>None\<close>: some entry is being cleaned
  by another task, and the loop waits for it.
\<close>

function registry_cleanup_all ::
  "('c \<Rightarrow> cleanup_result) \<Rightarrow> 'c ownership_registry \<Rightarrow>
   (string \<times> cleanup_result) list option \<times> 'c ownership_registry" where
  "registry_cleanup_all run r =
     (case registry_claim_next r of
        (Some (resource, token, cleanup), r') \<Rightarrow>
          registry_cleanup_all run (registry_finish resource token (run cleanup) r')
      | (None, r') \<Rightarrow>
          if pending_count r' = 0
          then (Some (sorted_completions (rg_completed r')), r'\<lparr>rg_completed := []\<rparr>)
          else (None, r'))"
  by pat_completeness auto
termination
  by (relation "measure (\<lambda>(run, r). unclaimed r)") (auto dest: claim_next_decreases[OF sym])

declare registry_cleanup_all.simps [simp del]

subsection \<open>Registry invariant\<close>

definition registry_inv :: "'c ownership_registry \<Rightarrow> bool" where
  "registry_inv r \<longleftrightarrow>
     wf_map (rg_entries r) \<and>
     (list_all (\<lambda>(_, e). pe_state e = PsCleaning \<longleftrightarrow> pe_cleanup e = None) (rg_entries r))"

definition token_of :: "'c ownership_registry \<Rightarrow> string \<Rightarrow> u64 option" where
  "token_of r k = map_option pe_token (map_of (rg_entries r) k)"

lemma holds_token_iff: "holds_token k t r \<longleftrightarrow> token_of r k = Some t"
  by (auto simp: holds_token_def token_of_def split: option.splits)

lemma registry_inv_entry:
  "registry_inv r \<Longrightarrow> map_of (rg_entries r) k = Some e \<Longrightarrow>
   pe_state e = PsCleaning \<longleftrightarrow> pe_cleanup e = None"
  by (auto simp: registry_inv_def list_all_iff dest!: map_of_SomeD)

lemma set_update_subset: "set (AList.update k v m) \<subseteq> insert (k, v) (set m)"
  by (induction m) auto

lemma registry_inv_update:
  "registry_inv r \<Longrightarrow> (pe_state e = PsCleaning \<longleftrightarrow> pe_cleanup e = None) \<Longrightarrow>
   registry_inv (r\<lparr>rg_entries := AList.update k e (rg_entries r)\<rparr>)"
  using set_update_subset[of k e "rg_entries r"] by (auto simp: registry_inv_def list_all_iff)

lemma registry_inv_delete:
  "registry_inv r \<Longrightarrow> registry_inv (r\<lparr>rg_entries := AList.delete k (rg_entries r)\<rparr>)"
  by (auto simp: registry_inv_def AList.delete_eq list_all_iff)

lemma registry_inv_more [simp]:
  "registry_inv (rg_next_token_update f r) = registry_inv r"
  "registry_inv (rg_completed_update g r) = registry_inv r"
  by (simp_all add: registry_inv_def)

lemma registry_inv_new: "registry_inv new_registry"
  by (simp add: registry_inv_def new_registry_def)

lemma registry_inv_register: "registry_inv r \<Longrightarrow> registry_inv (snd (registry_register k c r))"
  using registry_inv_update[of r "\<lparr>pe_token = rg_next_token r, pe_state = PsPending, pe_cleanup = Some c\<rparr>" k]
  by (auto simp: registry_register_def Let_def registry_inv_def)

lemma registry_inv_claim: "registry_inv r \<Longrightarrow> registry_inv (snd (registry_claim k t r))"
  by (auto simp: registry_claim_def split: option.splits intro!: registry_inv_update)

lemma registry_inv_finish: "registry_inv r \<Longrightarrow> registry_inv (registry_finish k t x r)"
  using registry_inv_delete[of r k] by (auto simp: registry_finish_def registry_inv_def)

lemma registry_inv_restore: "registry_inv r \<Longrightarrow> registry_inv (registry_restore_claim k t c r)"
  by (auto simp: registry_restore_claim_def split: option.splits intro!: registry_inv_update)

lemma registry_inv_disarm: "registry_inv r \<Longrightarrow> registry_inv (registry_disarm k t r)"
  by (auto simp: registry_disarm_def intro: registry_inv_delete)

lemma claim_next_in_spec:
  assumes "claim_next_in es = (found, es')"
    and "list_all (\<lambda>(_, e). pe_state e = PsCleaning \<longleftrightarrow> pe_cleanup e = None) es"
  shows "case found of
           None \<Rightarrow> es' = es \<and> (list_all (\<lambda>(_, e). pe_state e = PsCleaning) es)
         | Some (k, t, c) \<Rightarrow>
             \<exists>pre e post. es = pre @ (k, e) # post \<and> pe_state e = PsPending \<and> pe_token e = t \<and>
               pe_cleanup e = Some c \<and> (list_all (\<lambda>(_, e). pe_state e = PsCleaning) pre) \<and>
               es' = pre @ (k, e\<lparr>pe_state := PsCleaning, pe_cleanup := None\<rparr>) # post"
  using assms
proof (induction es arbitrary: found es' rule: claim_next_in.induct)
  case 1
  then show ?case by simp
next
  case (2 resource e rest)
  show ?case
  proof (cases "pe_state e = PsPending")
    case True
    then have "pe_cleanup e \<noteq> None" using "2.prems"(2) by auto
    then obtain c where c: "pe_cleanup e = Some c" by blast
    with True "2.prems"(1)
    have eq: "found = Some (resource, pe_token e, c)"
      "es' = (resource, e\<lparr>pe_state := PsCleaning, pe_cleanup := None\<rparr>) # rest" by auto
    show ?thesis unfolding eq
      by (simp, rule exI[of _ "[]"], rule exI[of _ e], rule exI[of _ rest]) (simp add: True c)
  next
    case False
    then have cl: "pe_state e = PsCleaning" by (cases "pe_state e") auto
    obtain f rest' where rec: "claim_next_in rest = (f, rest')" by (cases "claim_next_in rest")
    with False "2.prems"(1) have eq: "found = f" "es' = (resource, e) # rest'" by auto
    from 2(2)[OF False rec] "2.prems"(2) have IH:
      "case f of
         None \<Rightarrow> rest' = rest \<and> (list_all (\<lambda>(_, e). pe_state e = PsCleaning) rest)
       | Some (k, t, c) \<Rightarrow>
           \<exists>pre e post. rest = pre @ (k, e) # post \<and> pe_state e = PsPending \<and> pe_token e = t \<and>
             pe_cleanup e = Some c \<and> (list_all (\<lambda>(_, e). pe_state e = PsCleaning) pre) \<and>
             rest' = pre @ (k, e\<lparr>pe_state := PsCleaning, pe_cleanup := None\<rparr>) # post" by simp
    show ?thesis
    proof (cases f)
      case None
      with IH eq cl show ?thesis by simp
    next
      case (Some ktc)
      obtain k t c where ktc: "ktc = (k, t, c)" by (cases ktc)
      with IH Some obtain pre e' post where
        "rest = pre @ (k, e') # post" "pe_state e' = PsPending" "pe_token e' = t"
        "pe_cleanup e' = Some c" "list_all (\<lambda>(_, e). pe_state e = PsCleaning) pre"
        "rest' = pre @ (k, e'\<lparr>pe_state := PsCleaning, pe_cleanup := None\<rparr>) # post" by auto
      with Some ktc eq cl show ?thesis
        by (auto intro!: exI[of _ "(resource, e) # pre"])
    qed
  qed
qed

lemma registry_inv_claim_next:
  "registry_inv r \<Longrightarrow> registry_inv (snd (registry_claim_next r))"
proof -
  assume inv: "registry_inv r"
  obtain found es' where c: "claim_next_in (rg_entries r) = (found, es')"
    by (cases "claim_next_in (rg_entries r)")
  from claim_next_in_spec[OF c] inv show ?thesis
    by (cases found) (auto simp: registry_claim_next_def registry_inv_def c)
qed

lemma registry_stale_noop:
  assumes "token_of r k \<noteq> Some t"
  shows "registry_finish k t x r = r" "registry_disarm k t r = r"
    "registry_claim k t r = (None, r)" "registry_restore_claim k t c r = r"
  using assms
  by (auto simp: registry_finish_def registry_disarm_def registry_claim_def
      registry_restore_claim_def holds_token_iff token_of_def split: option.splits)

lemma token_of_other:
  assumes "k' \<noteq> k"
  shows "token_of (registry_finish k t x r) k' = token_of r k'"
    "token_of (registry_disarm k t r) k' = token_of r k'"
    "token_of (snd (registry_claim k t r)) k' = token_of r k'"
    "token_of (registry_restore_claim k t c r) k' = token_of r k'"
  using assms
  by (auto simp: registry_finish_def registry_disarm_def registry_claim_def
      registry_restore_claim_def token_of_def split: option.splits)

interpretation finish_guarded: token_guarded token_of "\<lambda>k t. registry_finish k t x"
  by unfold_locales (simp_all add: registry_stale_noop token_of_other)

interpretation disarm_guarded: token_guarded token_of registry_disarm
  by unfold_locales (simp_all add: registry_stale_noop token_of_other)

interpretation restore_guarded: token_guarded token_of "\<lambda>k t. registry_restore_claim k t c"
  by unfold_locales (simp_all add: registry_stale_noop token_of_other)

subsection \<open>Cleaning everything up\<close>

abbreviation is_pending :: "string \<times> 'c pending_entry \<Rightarrow> bool" where
  "is_pending \<equiv> \<lambda>(_, e). pe_state e = PsPending"

definition run_entry ::
  "('c \<Rightarrow> cleanup_result) \<Rightarrow> string \<times> 'c pending_entry \<Rightarrow> string \<times> u64 \<times> cleanup_result" where
  "run_entry run ke = (case ke of (k, e) \<Rightarrow> (k, pe_token e, run (the (pe_cleanup e))))"

lemma claim_next_spec:
  assumes inv: "registry_inv r" and c: "registry_claim_next r = (Some (k, t, c), r')"
  obtains pre e post where
    "rg_entries r = pre @ (k, e) # post" "list_all (\<lambda>ke. \<not> is_pending ke) pre"
    "pe_state e = PsPending" "pe_token e = t" "pe_cleanup e = Some c"
    "registry_finish k t x r'
       = r\<lparr>rg_entries := pre @ post, rg_completed := rg_completed r @ [(k, t, x)]\<rparr>"
proof -
  obtain es' where ci: "claim_next_in (rg_entries r) = (Some (k, t, c), es')" and r': "r' = r\<lparr>rg_entries := es'\<rparr>"
    using c by (auto simp: registry_claim_next_def split: prod.splits)
  from claim_next_in_spec[OF ci] inv obtain pre e post where
    d: "rg_entries r = pre @ (k, e) # post" "pe_state e = PsPending" "pe_token e = t"
      "pe_cleanup e = Some c" "list_all (\<lambda>(_, e). pe_state e = PsCleaning) pre"
      "es' = pre @ (k, e\<lparr>pe_state := PsCleaning, pe_cleanup := None\<rparr>) # post"
    by (auto simp: registry_inv_def)
  have "k \<notin> keys pre" "k \<notin> keys post" using inv d(1) by (auto simp: registry_inv_def)
  then have "AList.delete k pre = pre" "AList.delete k post = post" "map_of pre k = None"
    by (simp_all only: delete_id not_in_keys_iff)
  then have "AList.delete k es' = pre @ post" "map_of es' k = Some (e\<lparr>pe_state := PsCleaning, pe_cleanup := None\<rparr>)"
    using d(6) by (simp_all add: AList.delete_eq map_add_def)
  then have "registry_finish k t x r'
       = r\<lparr>rg_entries := pre @ post, rg_completed := rg_completed r @ [(k, t, x)]\<rparr>"
    using d(3) by (simp add: registry_finish_def holds_token_def r')
  moreover have "list_all (\<lambda>ke. \<not> is_pending ke) pre"
    using d(5) by (auto simp: list_all_iff)
  ultimately show thesis using that d by blast
qed

lemma claim_next_None:
  assumes "registry_inv r" "registry_claim_next r = (None, r')"
  shows "r' = r" "list_all (\<lambda>ke. \<not> is_pending ke) (rg_entries r)"
proof -
  obtain es' where ci: "claim_next_in (rg_entries r) = (None, es')" and r': "r' = r\<lparr>rg_entries := es'\<rparr>"
    using assms by (auto simp: registry_claim_next_def split: prod.splits)
  from claim_next_in_spec[OF ci] assms(1) have "es' = rg_entries r" "list_all (\<lambda>(_, e). pe_state e = PsCleaning) (rg_entries r)"
    by (auto simp: registry_inv_def)
  then show "r' = r" "list_all (\<lambda>ke. \<not> is_pending ke) (rg_entries r)"
    using r' by (auto simp: list_all_iff)
qed

lemma cleanup_all_spec:
  assumes "registry_inv r"
  shows "registry_cleanup_all run r =
     (let found = rg_completed r @ map (run_entry run) (filter is_pending (rg_entries r));
          left = filter (\<lambda>ke. \<not> is_pending ke) (rg_entries r)
      in if left = []
         then (Some (sorted_completions found), r\<lparr>rg_entries := [], rg_completed := []\<rparr>)
         else (None, r\<lparr>rg_entries := left, rg_completed := found\<rparr>))"
  using assms
proof (induction "unclaimed r" arbitrary: r rule: less_induct)
  case less
  show ?case
  proof (cases "registry_claim_next r")
    case (Pair found r')
    show ?thesis
    proof (cases found)
      case None
      from claim_next_None[OF less.prems] Pair None
      have "r' = r" and np: "list_all (\<lambda>ke. \<not> is_pending ke) (rg_entries r)" by auto
      moreover from np have "filter is_pending (rg_entries r) = []"
        "filter (\<lambda>ke. \<not> is_pending ke) (rg_entries r) = rg_entries r"
        by (auto simp: list_all_iff filter_empty_conv filter_id_conv)
      ultimately show ?thesis using Pair None
        by (subst registry_cleanup_all.simps) (simp add: pending_count_def)
    next
      case (Some ktc)
      obtain k t c where ktc: "ktc = (k, t, c)" by (cases ktc)
      let ?r2 = "registry_finish k t (run c) r'"
      from claim_next_spec[OF less.prems, of k t c r' "run c"] Pair Some ktc
      obtain pre e post where d: "rg_entries r = pre @ (k, e) # post"
        "list_all (\<lambda>ke. \<not> is_pending ke) pre" "pe_state e = PsPending" "pe_token e = t"
        "pe_cleanup e = Some c"
        "?r2 = r\<lparr>rg_entries := pre @ post, rg_completed := rg_completed r @ [(k, t, run c)]\<rparr>"
        by blast
      have "registry_inv ?r2"
        using less.prems registry_inv_claim_next[of r] Pair by (auto intro: registry_inv_finish)
      with less.hyps[of ?r2] claim_next_decreases[of r k t c r' "run c"] Pair Some ktc
      have IH: "registry_cleanup_all run ?r2 =
        (let found = rg_completed ?r2 @ map (run_entry run) (filter is_pending (rg_entries ?r2));
             left = filter (\<lambda>ke. \<not> is_pending ke) (rg_entries ?r2)
         in if left = []
            then (Some (sorted_completions found), ?r2\<lparr>rg_entries := [], rg_completed := []\<rparr>)
            else (None, ?r2\<lparr>rg_entries := left, rg_completed := found\<rparr>))" by simp
      have "filter is_pending pre = []" using d(2) by (auto simp: list_all_iff filter_empty_conv)
      with d IH Pair Some ktc show ?thesis
        by (subst registry_cleanup_all.simps) (simp add: Let_def run_entry_def)
    qed
  qed
qed

subsection \<open>Guards, schedulers and clean-up tasks interleaved\<close>

text \<open>
  The registry with the tasks that are running a clean-up. A claim (by a dropped guard that is
  scheduled, by \<open>cleanup_one\<close> or by \<open>cleanup_all\<close>) moves the closure into a task; the task
  finishes with a result, or it is dropped where no runtime can continue it and gives its
  claim back. A closure that is discarded without being run to the end is recorded by the reason:
  a disarm, an abandoning close, a second registration of its resource (which the code checks with a
  debug assertion only), or a dropped task whose entry is no longer the one it claimed.
\<close>

record 'c ownership_system =
  os_registry :: "'c ownership_registry"
  os_running :: "(string \<times> u64 \<times> 'c) list"
  os_finished :: "'c list"
  os_disarmed :: "'c list"
  os_abandoned :: "'c list"
  os_replaced :: "'c list"
  os_lost :: "'c list"

datatype 'c ownership_event =
  OwnRegister string 'c
| OwnClaim string u64
| OwnClaimNext
| OwnFinish nat cleanup_result
| OwnTaskDropped nat
| OwnDisarm string u64
| OwnAbandon

definition waiting_of :: "'c pending_entry \<Rightarrow> 'c multiset" where
  "waiting_of e = (case pe_cleanup e of None \<Rightarrow> {#} | Some c \<Rightarrow> {#c#})"

definition waiting :: "'c ownership_registry \<Rightarrow> 'c multiset" where
  "waiting r = map_total waiting_of (rg_entries r)"

definition closure_at :: "string \<Rightarrow> 'c ownership_registry \<Rightarrow> 'c list" where
  "closure_at k r =
     (case map_of (rg_entries r) k of
        None \<Rightarrow> []
      | Some e \<Rightarrow> (case pe_cleanup e of None \<Rightarrow> [] | Some c \<Rightarrow> [c]))"

definition restorable :: "string \<Rightarrow> u64 \<Rightarrow> 'c ownership_registry \<Rightarrow> bool" where
  "restorable k t r \<longleftrightarrow>
     (case map_of (rg_entries r) k of
        None \<Rightarrow> False
      | Some e \<Rightarrow> pe_token e = t \<and> pe_state e = PsCleaning)"

definition closures :: "(string \<times> 'c pending_entry) list \<Rightarrow> 'c list" where
  "closures es = concat (map (\<lambda>(_, e). case pe_cleanup e of None \<Rightarrow> [] | Some c \<Rightarrow> [c]) es)"

fun own_apply :: "'c ownership_event \<Rightarrow> 'c ownership_system \<Rightarrow> 'c ownership_system" where
  "own_apply (OwnRegister k c) s =
     s\<lparr>os_registry := snd (registry_register k c (os_registry s)),
       os_replaced := closure_at k (os_registry s) @ os_replaced s\<rparr>"
| "own_apply (OwnClaim k t) s =
     (case registry_claim k t (os_registry s) of
        (None, r) \<Rightarrow> s\<lparr>os_registry := r\<rparr>
      | (Some c, r) \<Rightarrow> s\<lparr>os_registry := r, os_running := (k, t, c) # os_running s\<rparr>)"
| "own_apply OwnClaimNext s =
     (case registry_claim_next (os_registry s) of
        (None, r) \<Rightarrow> s\<lparr>os_registry := r\<rparr>
      | (Some ktc, r) \<Rightarrow> s\<lparr>os_registry := r, os_running := ktc # os_running s\<rparr>)"
| "own_apply (OwnFinish i x) s =
     (if i < length (os_running s)
      then (case os_running s ! i of (k, t, c) \<Rightarrow>
              s\<lparr>os_registry := registry_finish k t x (os_registry s),
                os_running := take i (os_running s) @ drop (Suc i) (os_running s),
                os_finished := c # os_finished s\<rparr>)
      else s)"
| "own_apply (OwnTaskDropped i) s =
     (if i < length (os_running s)
      then (case os_running s ! i of (k, t, c) \<Rightarrow>
              s\<lparr>os_registry := registry_restore_claim k t c (os_registry s),
                os_running := take i (os_running s) @ drop (Suc i) (os_running s),
                os_lost := (if restorable k t (os_registry s) then [] else [c]) @ os_lost s\<rparr>)
      else s)"
| "own_apply (OwnDisarm k t) s =
     s\<lparr>os_registry := registry_disarm k t (os_registry s),
       os_disarmed := (if holds_token k t (os_registry s) then closure_at k (os_registry s) else [])
                      @ os_disarmed s\<rparr>"
| "own_apply OwnAbandon s =
     s\<lparr>os_registry := snd (registry_abandon_all (os_registry s)),
       os_abandoned := closures (rg_entries (os_registry s)) @ os_abandoned s\<rparr>"

text \<open>Every closure the registry accounts for, wherever it is.\<close>

definition accounted :: "'c ownership_system \<Rightarrow> 'c multiset" where
  "accounted s = waiting (os_registry s) + mset (map (snd \<circ> snd) (os_running s))
                 + mset (os_finished s) + mset (os_disarmed s) + mset (os_abandoned s)
                 + mset (os_replaced s) + mset (os_lost s)"

definition registered_by :: "'c ownership_event list \<Rightarrow> 'c multiset" where
  "registered_by es = mset (concat (map (\<lambda>e. case e of OwnRegister _ c \<Rightarrow> [c] | _ \<Rightarrow> []) es))"

text \<open>The debug assertion of \<open>register\<close>: a resource is registered while it has no entry.\<close>

fun fresh_registrations :: "'c ownership_event list \<Rightarrow> 'c ownership_system \<Rightarrow> bool" where
  "fresh_registrations [] s = True"
| "fresh_registrations (e # es) s =
     ((case e of OwnRegister k _ \<Rightarrow> k \<notin> keys (rg_entries (os_registry s)) | _ \<Rightarrow> True) \<and>
      fresh_registrations es (own_apply e s))"

definition init_ownership :: "'c ownership_system" where
  "init_ownership =
     \<lparr>os_registry = new_registry, os_running = [], os_finished = [], os_disarmed = [], os_abandoned = [],
      os_replaced = [], os_lost = []\<rparr>"

text \<open>
  The invariant of the interleaved system, with \<open>n\<close> events still to come: tokens do not run
  out, every token in use is older than the next one, no claim is held by two tasks, and an
  entry whose claim is held is marked as being cleaned.
\<close>

definition claim_key :: "string \<times> u64 \<times> 'c \<Rightarrow> string \<times> u64" where
  "claim_key ktc = (case ktc of (k, t, _) \<Rightarrow> (k, t))"

definition claims :: "(string \<times> u64 \<times> 'c) list \<Rightarrow> (string \<times> u64) set" where
  "claims ts = claim_key ` set ts"

lemma claim_key_triple [simp]: "claim_key (k, t, c) = (k, t)"
  by (simp add: claim_key_def)

lemma claims_simps [simp]:
  "claims [] = {}" "claims (x # ts) = insert (claim_key x) (claims ts)"
  "claims (ts @ us) = claims ts \<union> claims us"
  by (auto simp: claims_def image_Un)

lemma claims_fold [simp]:
  "claim_key ` set ts = claims ts" "claim_key ` (set ts \<union> set us) = claims ts \<union> claims us"
  unfolding claims_def by (rule refl, rule image_Un)

definition own_inv :: "nat \<Rightarrow> 'c ownership_system \<Rightarrow> bool" where
  "own_inv n s \<longleftrightarrow>
     registry_inv (os_registry s) \<and>
     unat (rg_next_token (os_registry s)) + n < 2 ^ 64 \<and>
     (\<forall>k e. map_of (rg_entries (os_registry s)) k = Some e \<longrightarrow>
              unat (pe_token e) < unat (rg_next_token (os_registry s))) \<and>
     (\<forall>k t. (k, t) \<in> claims (os_running s) \<longrightarrow>
              unat t < unat (rg_next_token (os_registry s)) \<and>
              (\<forall>e. map_of (rg_entries (os_registry s)) k = Some e \<and> pe_token e = t \<longrightarrow>
                     pe_state e = PsCleaning)) \<and>
     distinct (map claim_key (os_running s))"

lemma waiting_split:
  "registry_inv r \<Longrightarrow>
   waiting r = (case map_of (rg_entries r) k of None \<Rightarrow> {#} | Some e \<Rightarrow> waiting_of e)
               + map_total waiting_of (AList.delete k (rg_entries r))"
  unfolding waiting_def registry_inv_def
  using map_total_delete[of "rg_entries r" waiting_of k] by (auto split: option.splits)

lemma waiting_update:
  "registry_inv r \<Longrightarrow>
   waiting (r\<lparr>rg_entries := AList.update k e (rg_entries r)\<rparr>)
     = waiting_of e + map_total waiting_of (AList.delete k (rg_entries r))"
  by (simp add: waiting_def registry_inv_def map_total_update)

lemma waiting_delete:
  "waiting (r\<lparr>rg_entries := AList.delete k (rg_entries r), rg_completed := x\<rparr>)
     = map_total waiting_of (AList.delete k (rg_entries r))"
  "waiting (r\<lparr>rg_entries := AList.delete k (rg_entries r)\<rparr>)
     = map_total waiting_of (AList.delete k (rg_entries r))"
  by (simp_all add: waiting_def)

lemma closure_at_waiting: "mset (closure_at k r) = (case map_of (rg_entries r) k of None \<Rightarrow> {#} | Some e \<Rightarrow> waiting_of e)"
  by (auto simp: closure_at_def waiting_of_def split: option.splits)

lemma own_register:
  assumes inv: "own_inv (Suc n) s"
  shows "own_inv n (own_apply (OwnRegister k c) s) \<and>
         accounted (own_apply (OwnRegister k c) s) = accounted s + {#c#}"
proof -
  let ?r = "os_registry s"
  let ?e = "\<lparr>pe_token = rg_next_token ?r, pe_state = PsPending, pe_cleanup = Some c\<rparr>"
  have ri: "registry_inv ?r" and bound: "unat (rg_next_token ?r) + Suc n < 2 ^ 64"
    using inv by (auto simp: own_inv_def)
  have next': "unat (rg_next_token ?r + 1) = Suc (unat (rg_next_token ?r))"
    using bound by (simp add: unat_word_ariths)
  have "own_inv n (own_apply (OwnRegister k c) s)"
    using inv next' registry_inv_register[OF ri, of k c]
    by (auto simp: own_inv_def registry_register_def Let_def less_Suc_eq split: if_splits)
  moreover have "accounted (own_apply (OwnRegister k c) s) = accounted s + {#c#}"
    using waiting_split[OF ri, of k] waiting_update[OF ri, of k ?e]
    by (simp add: accounted_def registry_register_def Let_def waiting_of_def [of ?e] waiting_def closure_at_waiting)
  ultimately show ?thesis by blast
qed

lemma own_claim:
  assumes inv: "own_inv (Suc n) s"
  shows "own_inv n (own_apply (OwnClaim k t) s) \<and>
         accounted (own_apply (OwnClaim k t) s) = accounted s"
proof (cases "map_of (rg_entries (os_registry s)) k")
  case None
  with inv show ?thesis by (auto simp: registry_claim_def own_inv_def)
next
  case (Some e)
  let ?r = "os_registry s"
  have ri: "registry_inv ?r" using inv by (simp add: own_inv_def)
  show ?thesis
  proof (cases "pe_token e = t \<and> pe_state e = PsPending")
    case False
    with inv Some show ?thesis by (auto simp: registry_claim_def own_inv_def)
  next
    case True
    then obtain c where c: "pe_cleanup e = Some c"
      using registry_inv_entry[OF ri Some] by (cases "pe_cleanup e") auto
    let ?e = "e\<lparr>pe_state := PsCleaning, pe_cleanup := None\<rparr>"
    have claim: "registry_claim k t ?r = (Some c, ?r\<lparr>rg_entries := AList.update k ?e (rg_entries ?r)\<rparr>)"
      using Some True c by (simp add: registry_claim_def)
    have "(k, t) \<notin> claims (os_running s)"
      using inv Some True by (auto simp: own_inv_def)
    moreover have "registry_inv (?r\<lparr>rg_entries := AList.update k ?e (rg_entries ?r)\<rparr>)"
      using ri by (rule registry_inv_update) simp
    moreover have "unat t < unat (rg_next_token ?r)" using inv Some True by (auto simp: own_inv_def)
    ultimately have "own_inv n (own_apply (OwnClaim k t) s)"
      using inv True by (auto simp: own_inv_def claim)
    moreover have "accounted (own_apply (OwnClaim k t) s) = accounted s"
      using waiting_split[OF ri, of k] waiting_update[OF ri, of k ?e] Some c
      by (simp add: accounted_def claim waiting_of_def)
    ultimately show ?thesis by blast
  qed
qed

lemma nth_split:
  assumes "i < length xs"
  obtains pre post where "xs = pre @ xs ! i # post" "take i xs = pre" "drop (Suc i) xs = post"
  using id_take_nth_drop[OF assms] by blast

lemma own_finish:
  assumes inv: "own_inv (Suc n) s"
  shows "own_inv n (own_apply (OwnFinish i x) s) \<and>
         accounted (own_apply (OwnFinish i x) s) = accounted s"
proof (cases "i < length (os_running s)")
  case False
  with inv show ?thesis by (auto simp: own_inv_def)
next
  case True
  let ?r = "os_registry s"
  obtain k t c where ktc: "os_running s ! i = (k, t, c)" by (cases "os_running s ! i")
  obtain pre post where run: "os_running s = pre @ (k, t, c) # post"
    "take i (os_running s) = pre" "drop (Suc i) (os_running s) = post"
    using nth_split[OF True] ktc by metis
  have ri: "registry_inv ?r" using inv by (simp add: own_inv_def)
  have "own_inv n (own_apply (OwnFinish i x) s)"
    using inv True ktc run registry_inv_finish[OF ri, of k t x]
    by (auto simp: own_inv_def registry_finish_def split: if_splits)
  moreover have "waiting (registry_finish k t x ?r) = waiting ?r"
  proof (cases "holds_token k t ?r")
    case False
    then show ?thesis by (simp add: registry_finish_def)
  next
    case held: True
    then obtain e where e: "map_of (rg_entries ?r) k = Some e" "pe_token e = t"
      by (auto simp: holds_token_def split: option.splits)
    then have "pe_state e = PsCleaning" using inv run(1) by (auto simp: own_inv_def)
    then have "waiting_of e = {#}" using registry_inv_entry[OF ri e(1)] by (simp add: waiting_of_def)
    with held e waiting_split[OF ri, of k] show ?thesis
      by (simp add: registry_finish_def waiting_delete)
  qed
  ultimately show ?thesis using True ktc run by (simp add: accounted_def)
qed

lemma own_task_dropped:
  assumes inv: "own_inv (Suc n) s"
  shows "own_inv n (own_apply (OwnTaskDropped i) s) \<and>
         accounted (own_apply (OwnTaskDropped i) s) = accounted s"
proof (cases "i < length (os_running s)")
  case False
  with inv show ?thesis by (auto simp: own_inv_def)
next
  case True
  let ?r = "os_registry s"
  obtain k t c where ktc: "os_running s ! i = (k, t, c)" by (cases "os_running s ! i")
  obtain pre post where run: "os_running s = pre @ (k, t, c) # post"
    "take i (os_running s) = pre" "drop (Suc i) (os_running s) = post"
    using nth_split[OF True] ktc by metis
  have ri: "registry_inv ?r" using inv by (simp add: own_inv_def)
  show ?thesis
  proof (cases "restorable k t ?r")
    case False
    then have "registry_restore_claim k t c ?r = ?r"
      by (auto simp: restorable_def registry_restore_claim_def split: option.splits)
    with inv True ktc run False show ?thesis by (auto simp: own_inv_def accounted_def)
  next
    case rs: True
    then obtain e where e: "map_of (rg_entries ?r) k = Some e" "pe_token e = t" "pe_state e = PsCleaning"
      by (auto simp: restorable_def split: option.splits)
    let ?e = "e\<lparr>pe_state := PsPending, pe_cleanup := Some c\<rparr>"
    have res: "registry_restore_claim k t c ?r = ?r\<lparr>rg_entries := AList.update k ?e (rg_entries ?r)\<rparr>"
      using e by (simp add: registry_restore_claim_def)
    have "registry_inv (registry_restore_claim k t c ?r)" by (rule registry_inv_restore[OF ri])
    moreover have "(k, t) \<notin> claims (pre @ post)"
      using inv run(1) by (auto simp: own_inv_def)
    ultimately have "own_inv n (own_apply (OwnTaskDropped i) s)"
      using inv True ktc run e by (auto simp: own_inv_def res)
    moreover have "waiting_of e = {#}"
      using registry_inv_entry[OF ri e(1)] e(3) by (simp add: waiting_of_def)
    ultimately show ?thesis
      using waiting_split[OF ri, of k] waiting_update[OF ri, of k ?e] True ktc run rs e(1)
      by (simp add: accounted_def res waiting_of_def)
  qed
qed

lemma own_claim_next:
  assumes inv: "own_inv (Suc n) s"
  shows "own_inv n (own_apply OwnClaimNext s) \<and>
         accounted (own_apply OwnClaimNext s) = accounted s"
proof -
  let ?r = "os_registry s"
  have ri: "registry_inv ?r" using inv by (simp add: own_inv_def)
  obtain found es' where ci: "claim_next_in (rg_entries ?r) = (found, es')"
    by (cases "claim_next_in (rg_entries ?r)")
  show ?thesis
  proof (cases found)
    case None
    with claim_next_in_spec[OF ci] ri have "es' = rg_entries ?r" by (simp add: registry_inv_def)
    with None ci inv show ?thesis by (simp add: registry_claim_next_def own_inv_def)
  next
    case (Some ktc)
    obtain k t c where ktc: "ktc = (k, t, c)" by (cases ktc)
    from claim_next_in_spec[OF ci] ri Some ktc obtain pre e post where
      d: "rg_entries ?r = pre @ (k, e) # post" "pe_state e = PsPending" "pe_token e = t"
        "pe_cleanup e = Some c"
        "es' = pre @ (k, e\<lparr>pe_state := PsCleaning, pe_cleanup := None\<rparr>) # post"
      by (auto simp: registry_inv_def)
    have "k \<notin> keys pre" using ri d(1) by (auto simp: registry_inv_def)
    then have none: "map_of pre k = None" by (simp only: not_in_keys_iff)
    then have e: "map_of (rg_entries ?r) k = Some e" by (simp add: d(1) map_add_def)
    have "AList.update k x (pre @ (k, e) # post) = pre @ (k, x) # post" for x
      using \<open>k \<notin> keys pre\<close> by (induction pre) auto
    then have same: "os_registry (own_apply OwnClaimNext s) = os_registry (own_apply (OwnClaim k t) s)"
        "os_running (own_apply OwnClaimNext s) = os_running (own_apply (OwnClaim k t) s)"
        "os_finished (own_apply OwnClaimNext s) = os_finished (own_apply (OwnClaim k t) s)"
        "os_disarmed (own_apply OwnClaimNext s) = os_disarmed (own_apply (OwnClaim k t) s)"
        "os_abandoned (own_apply OwnClaimNext s) = os_abandoned (own_apply (OwnClaim k t) s)"
        "os_replaced (own_apply OwnClaimNext s) = os_replaced (own_apply (OwnClaim k t) s)"
        "os_lost (own_apply OwnClaimNext s) = os_lost (own_apply (OwnClaim k t) s)"
      using Some ktc ci d e by (simp_all add: registry_claim_next_def registry_claim_def)
    then have "own_apply OwnClaimNext s = own_apply (OwnClaim k t) s" by simp
    with own_claim[OF inv] show ?thesis by simp
  qed
qed

lemma closures_waiting: "mset (closures es) = map_total waiting_of es"
  by (induction es) (auto simp: closures_def map_total_def waiting_of_def split: option.splits)

lemma own_disarm:
  assumes inv: "own_inv (Suc n) s"
  shows "own_inv n (own_apply (OwnDisarm k t) s) \<and>
         accounted (own_apply (OwnDisarm k t) s) = accounted s"
proof -
  have ri: "registry_inv (os_registry s)" using inv by (simp add: own_inv_def)
  have "own_inv n (own_apply (OwnDisarm k t) s)"
    using inv registry_inv_disarm[OF ri, of k t] by (auto simp: own_inv_def registry_disarm_def)
  moreover have "accounted (own_apply (OwnDisarm k t) s) = accounted s"
    using waiting_split[OF ri, of k]
    by (simp add: accounted_def registry_disarm_def closure_at_waiting waiting_delete)
  ultimately show ?thesis by blast
qed

lemma own_abandon:
  assumes inv: "own_inv (Suc n) s"
  shows "own_inv n (own_apply OwnAbandon s) \<and>
         accounted (own_apply OwnAbandon s) = accounted s"
proof -
  have "own_inv n (own_apply OwnAbandon s)"
    using inv by (auto simp: own_inv_def registry_abandon_all_def registry_inv_def)
  moreover have "accounted (own_apply OwnAbandon s) = accounted s"
    by (simp add: accounted_def registry_abandon_all_def waiting_def closures_waiting)
  ultimately show ?thesis by blast
qed

lemma own_event:
  assumes "own_inv (Suc n) s"
  shows "own_inv n (own_apply e s) \<and>
         accounted (own_apply e s) = accounted s + registered_by [e]"
proof (cases e)
  case (OwnRegister k c)
  with own_register[OF assms, of k c] show ?thesis by (simp add: registered_by_def)
next
  case (OwnClaim k t)
  with own_claim[OF assms] show ?thesis by (simp add: registered_by_def)
next
  case OwnClaimNext
  with own_claim_next[OF assms] show ?thesis by (simp add: registered_by_def)
next
  case (OwnFinish i x)
  with own_finish[OF assms] show ?thesis by (simp add: registered_by_def)
next
  case (OwnTaskDropped i)
  with own_task_dropped[OF assms] show ?thesis by (simp add: registered_by_def)
next
  case (OwnDisarm k t)
  with own_disarm[OF assms] show ?thesis by (simp add: registered_by_def)
next
  case OwnAbandon
  with own_abandon[OF assms] show ?thesis by (simp add: registered_by_def)
qed

lemma own_run:
  "own_inv (length es + n) s \<Longrightarrow>
   own_inv n (fold own_apply es s) \<and>
   accounted (fold own_apply es s) = accounted s + registered_by es"
proof (induction es arbitrary: s)
  case Nil
  then show ?case by (simp add: registered_by_def)
next
  case (Cons e es)
  have "own_inv (length es + n) (own_apply e s) \<and> accounted (own_apply e s) = accounted s + registered_by [e]"
    using own_event[of "length es + n" s e] Cons.prems by simp
  with Cons.IH[of "own_apply e s"] show ?case
    by (simp add: registered_by_def add.assoc)
qed

text \<open>Where the debug assertion of \<open>register\<close> holds, no closure is replaced.\<close>

lemma fresh_replaces_nothing:
  "fresh_registrations es s \<Longrightarrow> os_replaced (fold own_apply es s) = os_replaced s"
proof (induction es arbitrary: s)
  case Nil
  then show ?case by simp
next
  case (Cons e es)
  have "os_replaced (own_apply e s) = os_replaced s"
    using Cons.prems by (cases e) (auto simp: closure_at_def not_in_keys_iff split: prod.splits option.splits)
  with Cons show ?case by simp
qed

lemma own_inv_init: "n + 1 < 2 ^ 64 \<Longrightarrow> own_inv n init_ownership"
  by (simp add: own_inv_def init_ownership_def new_registry_def registry_inv_def)

subsection \<open>Properties\<close>

text \<open>
  C2: No registered clean-up is ever lost unaccounted or run twice. In every interleaving of fewer than
  \<open>2^64 - 1\<close> registrations, claims, task completions, dropped tasks, disarms and abandons, every registered
  closure is counted in exactly one place: waiting in its entry, held by the one task that runs it, run to
  the end, or discarded by a disarm, by an abandoning close, by a second registration of its resource or with
  a dropped task that lost its entry. If every resource is registered while it is free, as the debug
  assertion of \<open>register\<close> demands, none is replaced.
\<close>

theorem cleanups_conserved:
  fixes es :: "'c ownership_event list"
  assumes "length es + 1 < 2 ^ 64" and "s = fold own_apply es init_ownership"
  shows "registered_by es
           = waiting (os_registry s) + mset (map (snd \<circ> snd) (os_running s)) + mset (os_finished s)
             + mset (os_disarmed s) + mset (os_abandoned s) + mset (os_replaced s) + mset (os_lost s)
         \<and> (fresh_registrations es init_ownership \<longrightarrow> os_replaced s = [])"
proof -
  have "accounted s = accounted init_ownership + registered_by es"
    using own_run[of es 0 init_ownership] own_inv_init[of "length es", where ?'a = 'c] assms by simp
  then show ?thesis
    using fresh_replaces_nothing [of es init_ownership] assms(2)
    by (simp add: accounted_def init_ownership_def new_registry_def waiting_def)
qed

theorem cleanups_conserved_witness:
  "os_finished (fold own_apply
     [OwnRegister ''page'' (7::nat), OwnClaim ''page'' 1, OwnClaim ''page'' 1, OwnFinish 0 None]
     init_ownership) = [7] \<and>
   registered_by [OwnRegister ''page'' (7::nat), OwnClaim ''page'' 1, OwnClaim ''page'' 1, OwnFinish 0 None] = {#7#}"
  using cleanups_conserved
    [of "[OwnRegister ''page'' (7::nat), OwnClaim ''page'' 1, OwnClaim ''page'' 1, OwnFinish 0 None]", OF _ refl]
  by (simp add: init_ownership_def new_registry_def registry_register_def registry_claim_def
      registry_finish_def holds_token_def waiting_def closure_at_def)

text \<open>
  C12: Closing reports everything. When no other task is in the middle of a clean-up,
  \<open>cleanup_all\<close> terminates with the registry empty and returns, sorted by resource, the
  completions recorded earlier (for detached clean-ups that ran in the background) and the
  result of every clean-up still pending, each exactly once.
\<close>

theorem cleanup_all_reports_everything:
  assumes "registry_inv r" and "list_all is_pending (rg_entries r)"
  shows "\<exists>report. registry_cleanup_all run r
           = (Some report, r\<lparr>rg_entries := [], rg_completed := []\<rparr>) \<and>
         sorted (map fst report) \<and>
         mset report = mset (map (\<lambda>(k, _, x). (k, x)) (rg_completed r))
           + mset (map (\<lambda>(k, e). (k, run (the (pe_cleanup e)))) (rg_entries r))"
proof -
  have "filter is_pending (rg_entries r) = rg_entries r"
    "filter (\<lambda>ke. \<not> is_pending ke) (rg_entries r) = []"
    using assms(2) by (auto simp: list_all_iff filter_empty_conv filter_id_conv)
  with cleanup_all_spec[OF assms(1), of run] show ?thesis
    by (auto simp: sorted_completions_def run_entry_def Let_def comp_def case_prod_unfold)
qed

theorem cleanup_all_reports_everything_witness:
  "\<exists>report. fst (registry_cleanup_all (\<lambda>c::nat. if c = 1 then None else Some (OOther ''busy''))
       (snd (registry_register ''b'' 1 (snd (registry_register ''a'' 2 new_registry))))) = Some report \<and>
     sorted (map fst report) \<and> mset report = {#(''a'', Some (OOther ''busy'')), (''b'', None)#}"
proof -
  let ?r = "snd (registry_register ''b'' 1 (snd (registry_register ''a'' (2::nat) new_registry)))"
  have "registry_inv ?r" by (intro registry_inv_register registry_inv_new)
  moreover have "list_all is_pending (rg_entries ?r)"
    by (simp add: registry_register_def new_registry_def)
  ultimately show ?thesis
    using cleanup_all_reports_everything
      [of ?r "\<lambda>c::nat. if c = 1 then None else Some (OOther ''busy'')"]
    by (auto simp: registry_register_def new_registry_def)
qed

text \<open>
  A stale token is powerless. A guard or task whose token is no longer the one of its
  resource (its ownership was disarmed, finished or abandoned, and the resource possibly
  registered again) cannot claim, finish, disarm or restore anything: the registry is left
  unchanged, so a late completion never removes the entry of a newer owner.
\<close>

theorem stale_token_powerless:
  assumes "token_of r k \<noteq> Some t"
  shows "registry_claim k t r = (None, r) \<and> registry_finish k t x r = r \<and>
         registry_disarm k t r = r \<and> registry_restore_claim k t c r = r \<and>
         fold (\<lambda>x. registry_finish k t x) xs r = r"
proof -
  have "fold (\<lambda>x. registry_finish k t x) xs r = r"
    by (induction xs) (simp_all add: finish_guarded.stale_noop[OF assms])
  with registry_stale_noop[OF assms] show ?thesis by simp
qed

theorem stale_token_powerless_witness:
  "let r = snd (registry_register ''page'' (2::nat)
             (registry_disarm ''page'' 1 (snd (registry_register ''page'' 1 new_registry))))
   in token_of r ''page'' = Some 2 \<and> registry_finish ''page'' 1 None r = r"
  using stale_token_powerless
    [of "snd (registry_register ''page'' (2::nat)
             (registry_disarm ''page'' 1 (snd (registry_register ''page'' 1 new_registry))))" "''page''" 1]
  by (simp add: registry_register_def new_registry_def registry_disarm_def holds_token_def token_of_def)

end
