(* ===== verification/FrameGraph.thy ===== *)
theory FrameGraph
  imports Lifecycle
begin

text \<open>
  The frame graph of a page (\<open>FrameGraph\<close> in \<open>src/src/runtime/frame.rs\<close>): the logical frame
  tree, its documents (loader and epoch) and the CDP session each frame is routed to. Frame
  events arrive from several sessions, so a child may be seen before its parent.
\<close>

subsection \<open>Ordered sets\<close>

text \<open>A \<open>BTreeSet\<close> is its sorted list of elements.\<close>

definition bt_insert :: "'a::linorder \<Rightarrow> 'a list \<Rightarrow> 'a list" where
  "bt_insert x xs = (if x \<in> set xs then xs else insort x xs)"

definition bt_remove :: "'a \<Rightarrow> 'a list \<Rightarrow> 'a list" where
  "bt_remove x xs = removeAll x xs"

definition bt_wf :: "'a::linorder list \<Rightarrow> bool" where
  "bt_wf xs \<longleftrightarrow> sorted xs \<and> distinct xs"

lemma set_bt_insert [simp]: "set (bt_insert x xs) = insert x (set xs)"
  by (auto simp: bt_insert_def set_insort_key)

lemma set_bt_remove [simp]: "set (bt_remove x xs) = set xs - {x}"
  by (auto simp: bt_remove_def)

lemma bt_wf_insert [simp]: "bt_wf xs \<Longrightarrow> bt_wf (bt_insert x xs)"
  by (auto simp: bt_wf_def bt_insert_def sorted_insort distinct_insort)

lemma bt_wf_remove [simp]: "bt_wf xs \<Longrightarrow> bt_wf (bt_remove x xs)"
  by (auto simp: bt_wf_def bt_remove_def removeAll_filter_not_eq sorted_wrt_filter)

lemma bt_wf_Nil [simp]: "bt_wf []"
  by (simp add: bt_wf_def)

lemma set_fold_bt_insert [simp]: "set (fold bt_insert ys xs) = set ys \<union> set xs"
  by (induction ys arbitrary: xs) auto

lemma bt_wf_fold_insert [simp]: "bt_wf xs \<Longrightarrow> bt_wf (fold bt_insert ys xs)"
  by (induction ys arbitrary: xs) auto

subsection \<open>State\<close>

record frame_record =
  fr_parent :: "ident option"
  fr_children :: "ident list"
  fr_loader_id :: "ident option"
  fr_document_epoch :: u64
  fr_route_session_id :: ident
  fr_route_target_id :: "ident option"
  fr_route_active :: bool

record frame_graph =
  fg_main_session_id :: ident
  fg_main_frame_id :: "ident option"
  fg_frames :: "(ident \<times> frame_record) list"

record frame_snapshot =
  fs_page_generation :: u64
  fs_document_epoch :: u64

definition new_graph :: "ident \<Rightarrow> frame_graph" where
  "new_graph main_session =
     \<lparr>fg_main_session_id = main_session, fg_main_frame_id = None, fg_frames = []\<rparr>"

abbreviation frame_at :: "frame_graph \<Rightarrow> ident \<Rightarrow> frame_record option" where
  "frame_at g \<equiv> map_of (fg_frames g)"

abbreviation frame_keys :: "frame_graph \<Rightarrow> ident set" where
  "frame_keys g \<equiv> keys (fg_frames g)"

subsection \<open>Attach and navigate\<close>

definition new_frame_record :: "ident option \<Rightarrow> ident \<Rightarrow> frame_record" where
  "new_frame_record parent main_session =
     \<lparr>fr_parent = parent, fr_children = [], fr_loader_id = None, fr_document_epoch = 0,
      fr_route_session_id = main_session, fr_route_target_id = None, fr_route_active = True\<rparr>"

definition waiting_children :: "ident \<Rightarrow> frame_graph \<Rightarrow> ident list" where
  "waiting_children frame g =
     map fst (filter (\<lambda>(_, child). fr_parent child = Some frame) (fg_frames g))"

definition attached_record :: "ident \<Rightarrow> ident option \<Rightarrow> frame_graph \<Rightarrow> frame_record" where
  "attached_record frame parent g =
     (let r = or_default (new_frame_record parent (fg_main_session_id g)) (frame_at g frame);
          r1 = (if fr_parent r = None then r\<lparr>fr_parent := parent\<rparr> else r)
      in r1\<lparr>fr_children := fold bt_insert (waiting_children frame g) (fr_children r1)\<rparr>)"

definition graph_attach :: "ident \<Rightarrow> ident option \<Rightarrow> frame_graph \<Rightarrow> frame_graph" where
  "graph_attach frame parent g =
     (let is_new = (frame_at g frame = None);
          frames1 = AList.update frame (attached_record frame parent g) (fg_frames g)
      in case parent of
           Some p \<Rightarrow>
             g\<lparr>fg_frames :=
                 map_modify p (\<lambda>pr. pr\<lparr>fr_children := bt_insert frame (fr_children pr)\<rparr>) frames1\<rparr>
         | None \<Rightarrow>
             g\<lparr>fg_frames := frames1,
               fg_main_frame_id :=
                 (if is_new \<or> fg_main_frame_id g = None then Some frame else fg_main_frame_id g)\<rparr>)"

text \<open>
  The epoch is incremented without saturation (\<open>DocumentEpoch::new(get() + 1)\<close>): a release
  build wraps, as \<open>+\<close> on words does.
\<close>

definition graph_navigate ::
  "ident \<Rightarrow> ident option \<Rightarrow> ident \<Rightarrow> frame_graph \<Rightarrow> bool \<times> frame_graph" where
  "graph_navigate frame parent loader g =
     (let g1 = graph_attach frame parent g in
      case frame_at g1 frame of
        None \<Rightarrow> (False, g1)
      | Some r \<Rightarrow>
          let cross = (case fr_loader_id r of None \<Rightarrow> False | Some previous \<Rightarrow> previous \<noteq> loader);
              r1 = (if cross then r\<lparr>fr_document_epoch := fr_document_epoch r + 1\<rparr> else r)
          in (cross, g1\<lparr>fg_frames := AList.update frame (r1\<lparr>fr_loader_id := Some loader\<rparr>) (fg_frames g1)\<rparr>))"

subsection \<open>Detach\<close>

definition unlink :: "ident \<Rightarrow> frame_record \<Rightarrow> frame_graph \<Rightarrow> frame_graph" where
  "unlink frame r g =
     (let g1 = (case fr_parent r of
                  None \<Rightarrow> g
                | Some p \<Rightarrow>
                    g\<lparr>fg_frames :=
                        map_modify p (\<lambda>pr. pr\<lparr>fr_children := bt_remove frame (fr_children pr)\<rparr>)
                          (fg_frames g)\<rparr>)
      in if fg_main_frame_id g1 = Some frame then g1\<lparr>fg_main_frame_id := None\<rparr> else g1)"

text \<open>
  The code recurses into the children of a frame it has just removed. The recursion depth is
  the fuel; every level removes a frame, so one more than the number of frames is enough
  (\<open>detach_enough_fuel\<close>).
\<close>

primrec detach_fuel :: "nat \<Rightarrow> ident \<Rightarrow> frame_graph \<Rightarrow> frame_graph option" where
  "detach_fuel 0 = (\<lambda>frame g. None)"
| "detach_fuel (Suc n) = (\<lambda>frame g.
     case frame_at g frame of
       None \<Rightarrow> Some g
     | Some r \<Rightarrow>
         map_option (unlink frame r)
           (fold (\<lambda>child acc. Option.bind acc (detach_fuel n child)) (fr_children r)
              (Some (g\<lparr>fg_frames := AList.delete frame (fg_frames g)\<rparr>))))"

definition graph_detach :: "ident \<Rightarrow> frame_graph \<Rightarrow> frame_graph" where
  "graph_detach frame g =
     (case detach_fuel (Suc (length (fg_frames g))) frame g of None \<Rightarrow> g | Some g' \<Rightarrow> g')"

subsection \<open>Routing\<close>

definition route_to_session ::
  "ident \<Rightarrow> ident \<Rightarrow> ident option \<Rightarrow> frame_graph \<Rightarrow> ident option \<times> frame_graph" where
  "route_to_session frame session target g =
     (let g1 = graph_attach frame None g in
      case frame_at g1 frame of
        None \<Rightarrow> (None, g1)
      | Some r \<Rightarrow>
          (Some (fr_route_session_id r),
           g1\<lparr>fg_frames :=
                AList.update frame
                  (r\<lparr>fr_route_session_id := session, fr_route_target_id := target\<rparr>) (fg_frames g1)\<rparr>))"

definition can_route_oopif :: "ident \<Rightarrow> ident option \<Rightarrow> ident option \<Rightarrow> frame_graph \<Rightarrow> bool" where
  "can_route_oopif frame parent_frame parent_session g =
     (case parent_frame of
        None \<Rightarrow> False
      | Some pf \<Rightarrow>
          (case frame_at g pf of
             None \<Rightarrow> False
           | Some parent \<Rightarrow>
               if parent_session \<noteq> Some (fr_route_session_id parent) then False
               else if (case Option.bind (frame_at g frame) fr_parent of
                          None \<Rightarrow> False | Some existing \<Rightarrow> existing \<noteq> pf) then False
               else if (case frame_at g frame of
                          None \<Rightarrow> False
                        | Some fr \<Rightarrow> fr_route_session_id fr \<noteq> fr_route_session_id parent) then False
               else True))"

definition route_oopif ::
  "ident \<Rightarrow> ident option \<Rightarrow> ident option \<Rightarrow> ident \<Rightarrow> ident \<Rightarrow> frame_graph \<Rightarrow> bool \<times> frame_graph" where
  "route_oopif frame parent_frame parent_session session target g =
     (if \<not> can_route_oopif frame parent_frame parent_session g then (False, g)
      else (True, snd (route_to_session frame session (Some target)
                         (graph_attach frame parent_frame g))))"

definition graph_snapshot :: "ident \<Rightarrow> u64 \<Rightarrow> frame_graph \<Rightarrow> frame_snapshot option" where
  "graph_snapshot frame gen g =
     map_option (\<lambda>r. \<lparr>fs_page_generation = gen, fs_document_epoch = fr_document_epoch r\<rparr>)
       (frame_at g frame)"

definition graph_children :: "ident \<Rightarrow> frame_graph \<Rightarrow> ident list" where
  "graph_children frame g = (case frame_at g frame of None \<Rightarrow> [] | Some r \<Rightarrow> fr_children r)"

definition graph_parent :: "ident \<Rightarrow> frame_graph \<Rightarrow> ident option" where
  "graph_parent frame g = Option.bind (frame_at g frame) fr_parent"

definition graph_route_session :: "ident \<Rightarrow> frame_graph \<Rightarrow> ident option" where
  "graph_route_session frame g = map_option fr_route_session_id (frame_at g frame)"

definition set_route_active :: "ident \<Rightarrow> bool \<Rightarrow> frame_graph \<Rightarrow> frame_graph" where
  "set_route_active frame active g =
     g\<lparr>fg_frames := map_modify frame (\<lambda>r. r\<lparr>fr_route_active := active\<rparr>) (fg_frames g)\<rparr>"

definition is_route_active :: "ident \<Rightarrow> frame_graph \<Rightarrow> bool" where
  "is_route_active frame g =
     (case frame_at g frame of None \<Rightarrow> False | Some r \<Rightarrow> fr_route_active r)"

definition active_ids :: "frame_graph \<Rightarrow> ident list" where
  "active_ids g = sort (map fst (filter (\<lambda>(_, r). fr_route_active r) (fg_frames g)))"

definition graph_loader_id :: "ident \<Rightarrow> frame_graph \<Rightarrow> ident option" where
  "graph_loader_id frame g = Option.bind (frame_at g frame) fr_loader_id"

definition reroute_session :: "ident \<Rightarrow> ident \<Rightarrow> frame_graph \<Rightarrow> frame_graph" where
  "reroute_session session fallback g =
     g\<lparr>fg_frames :=
         map_values (\<lambda>r. if fr_route_session_id r = session
                        then r\<lparr>fr_route_session_id := fallback, fr_route_target_id := None\<rparr> else r)
           (fg_frames g)\<rparr>"

subsection \<open>Frame trees of the protocol\<close>

text \<open>
  The fields of \<open>cdpkit\<close>'s \<open>FrameTree\<close> that the code reads: frame id, parent id, loader id and
  the child frames (absent is empty for both traversals).
\<close>

datatype frame_tree = FrameTree (ft_id: ident) (ft_parent: "ident option") (ft_loader: ident)
  (ft_children: "frame_tree list")

fun merge_tree :: "frame_tree \<Rightarrow> ident \<Rightarrow> ident list \<Rightarrow> bool \<Rightarrow> frame_graph \<Rightarrow> frame_graph" where
  "merge_tree (FrameTree f parent loader children) session provisional_roots provisional_ancestor g =
     (let provisional = provisional_ancestor \<or> f \<in> set provisional_roots;
          g1 = snd (graph_navigate f parent loader g);
          g2 = snd (route_to_session f session None g1);
          g3 = set_route_active f (\<not> provisional) g2
      in fold (\<lambda>child g. merge_tree child session provisional_roots provisional g) children g3)"

fun index_frame_tree ::
  "frame_tree \<Rightarrow> (ident \<times> frame_tree) list \<times> ident list \<Rightarrow> nat \<times> (ident \<times> frame_tree) list \<times> ident list" where
  "index_frame_tree (FrameTree f parent loader children) (index, ids) =
     fold (\<lambda>child (n, acc). case index_frame_tree child acc of (m, acc') \<Rightarrow> (n + m, acc'))
       children
       (1, AList.update f (FrameTree f parent loader children) index, bt_insert f ids)"

subsection \<open>Effects of the operations on one frame\<close>

lemma keys_graph_attach [simp]: "frame_keys (graph_attach f p g) = insert f (frame_keys g)"
  by (simp add: graph_attach_def Let_def split: option.splits)

lemma frame_at_attach:
  "frame_at (graph_attach f p g) k =
     (if k = f then
        Some ((attached_record f p g)
          \<lparr>fr_children := (if p = Some f then bt_insert f else id) (fr_children (attached_record f p g))\<rparr>)
      else
        map_option (\<lambda>r. if p = Some k then r\<lparr>fr_children := bt_insert f (fr_children r)\<rparr> else r)
          (frame_at g k))"
  by (auto simp: graph_attach_def Let_def option.map_ident split: option.splits)

lemma wf_graph_attach [simp]: "wf_map (fg_frames g) \<Longrightarrow> wf_map (fg_frames (graph_attach f p g))"
  by (simp add: graph_attach_def Let_def split: option.splits)

lemma main_session_attach [simp]: "fg_main_session_id (graph_attach f p g) = fg_main_session_id g"
  by (simp add: graph_attach_def Let_def split: option.splits)

lemma frame_at_navigate:
  "frame_at (snd (graph_navigate f p l g)) k =
     (if k = f
      then map_option
             (\<lambda>r. (if fr_loader_id r \<noteq> None \<and> fr_loader_id r \<noteq> Some l
                   then r\<lparr>fr_document_epoch := fr_document_epoch r + 1\<rparr> else r)\<lparr>fr_loader_id := Some l\<rparr>)
             (frame_at (graph_attach f p g) f)
      else frame_at (graph_attach f p g) k)"
  by (auto simp: graph_navigate_def Let_def frame_at_attach split: option.splits)

lemma keys_navigate [simp]: "frame_keys (snd (graph_navigate f p l g)) = insert f (frame_keys g)"
  by (auto simp: graph_navigate_def Let_def split: option.splits)

lemma wf_navigate [simp]: "wf_map (fg_frames g) \<Longrightarrow> wf_map (fg_frames (snd (graph_navigate f p l g)))"
  by (auto simp: graph_navigate_def Let_def split: option.splits)

lemma main_navigate [simp]:
  "fg_main_frame_id (snd (graph_navigate f p l g)) = fg_main_frame_id (graph_attach f p g)"
  "fg_main_session_id (snd (graph_navigate f p l g)) = fg_main_session_id g"
  by (auto simp: graph_navigate_def Let_def split: option.splits)

lemma frame_at_route:
  "frame_at (snd (route_to_session f s t g)) k =
     (if k = f
      then map_option (\<lambda>r. r\<lparr>fr_route_session_id := s, fr_route_target_id := t\<rparr>)
             (frame_at (graph_attach f None g) f)
      else frame_at (graph_attach f None g) k)"
  by (auto simp: route_to_session_def Let_def frame_at_attach split: option.splits)

lemma keys_route [simp]: "frame_keys (snd (route_to_session f s t g)) = insert f (frame_keys g)"
  by (auto simp: route_to_session_def Let_def split: option.splits)

lemma wf_route [simp]: "wf_map (fg_frames g) \<Longrightarrow> wf_map (fg_frames (snd (route_to_session f s t g)))"
  by (auto simp: route_to_session_def Let_def split: option.splits)

lemma main_route [simp]:
  "fg_main_frame_id (snd (route_to_session f s t g)) = fg_main_frame_id (graph_attach f None g)"
  "fg_main_session_id (snd (route_to_session f s t g)) = fg_main_session_id g"
  by (auto simp: route_to_session_def Let_def split: option.splits)

lemma set_route_active_simps [simp]:
  "frame_keys (set_route_active f a g) = frame_keys g"
  "wf_map (fg_frames (set_route_active f a g)) = wf_map (fg_frames g)"
  "fg_main_frame_id (set_route_active f a g) = fg_main_frame_id g"
  "frame_at (set_route_active f a g) k =
     (if k = f then map_option (\<lambda>r. r\<lparr>fr_route_active := a\<rparr>) (frame_at g f) else frame_at g k)"
  by (auto simp: set_route_active_def simp del: map_fst_modify) (simp_all)

lemma reroute_session_simps [simp]:
  "frame_keys (reroute_session s t g) = frame_keys g"
  "wf_map (fg_frames (reroute_session s t g)) = wf_map (fg_frames g)"
  "fg_main_frame_id (reroute_session s t g) = fg_main_frame_id g"
  "fg_main_session_id (reroute_session s t g) = fg_main_session_id g"
  "frame_at (reroute_session s t g) k =
     map_option (\<lambda>r. if fr_route_session_id r = s
                    then r\<lparr>fr_route_session_id := t, fr_route_target_id := None\<rparr> else r) (frame_at g k)"
  by (simp_all add: reroute_session_def)

subsection \<open>The graph invariant\<close>

text \<open>
  Parents know their children: a frame whose parent is present is in the parent's child set;
  the main frame is present; child sets are sorted sets.
\<close>

definition graph_inv :: "frame_graph \<Rightarrow> bool" where
  "graph_inv g \<longleftrightarrow>
     wf_map (fg_frames g) \<and>
     (\<forall>c rc p rp. frame_at g c = Some rc \<and> fr_parent rc = Some p \<and> frame_at g p = Some rp
        \<longrightarrow> c \<in> set (fr_children rp)) \<and>
     (\<forall>m. fg_main_frame_id g = Some m \<longrightarrow> m \<in> frame_keys g) \<and>
     (\<forall>k r. frame_at g k = Some r \<longrightarrow> bt_wf (fr_children r))"

lemma graph_inv_link:
  "graph_inv g \<Longrightarrow> frame_at g c = Some rc \<Longrightarrow> fr_parent rc = Some p \<Longrightarrow> frame_at g p = Some rp \<Longrightarrow>
   c \<in> set (fr_children rp)"
  by (auto simp: graph_inv_def)

lemma set_waiting_children:
  "wf_map (fg_frames g) \<Longrightarrow>
   set (waiting_children f g) = {c. \<exists>r. frame_at g c = Some r \<and> fr_parent r = Some f}"
  by (force simp: waiting_children_def image_iff map_of_eq_Some_iff)

lemma attached_record_children:
  "wf_map (fg_frames g) \<Longrightarrow>
   set (fr_children (attached_record f p g)) =
     {c. \<exists>r. frame_at g c = Some r \<and> fr_parent r = Some f}
     \<union> set (case frame_at g f of None \<Rightarrow> [] | Some r \<Rightarrow> fr_children r)"
  by (cases "frame_at g f") (auto simp: attached_record_def Let_def set_waiting_children new_frame_record_def)

lemma attached_record_parent:
  "fr_parent (attached_record f p g) =
     (case Option.bind (frame_at g f) fr_parent of None \<Rightarrow> p | Some q \<Rightarrow> Some q)"
  by (cases "frame_at g f") (auto simp: attached_record_def Let_def new_frame_record_def split: option.splits)

lemma attached_record_bt_wf:
  "graph_inv g \<Longrightarrow> bt_wf (fr_children (attached_record f p g))"
  by (cases "frame_at g f") (auto simp: attached_record_def Let_def graph_inv_def new_frame_record_def)

lemma graph_inv_new: "graph_inv (new_graph s)"
  by (simp add: graph_inv_def new_graph_def)

lemma graph_inv_attach:
  assumes inv: "graph_inv g"
  shows "graph_inv (graph_attach f p g)"
proof -
  let ?g = "graph_attach f p g"
  have wf: "wf_map (fg_frames g)" using inv by (simp add: graph_inv_def)
  have links: "c \<in> set (fr_children rp)"
    if c: "frame_at ?g c = Some rc" and pc: "fr_parent rc = Some q" and q: "frame_at ?g q = Some rp" for c rc q rp
  proof (cases "c = f")
    case True
    then have fp: "(case Option.bind (frame_at g f) fr_parent of None \<Rightarrow> p | Some q \<Rightarrow> Some q) = Some q"
      using c pc by (auto simp: frame_at_attach attached_record_parent split: if_splits)
    show ?thesis
    proof (cases "Option.bind (frame_at g f) fr_parent")
      case None
      with fp have "p = Some q" by simp
      with q True show ?thesis by (auto simp: frame_at_attach split: if_splits)
    next
      case (Some q')
      then obtain r where r: "frame_at g f = Some r" "fr_parent r = Some q" using fp by (auto simp: bind_eq_Some_conv)
      show ?thesis
      proof (cases "q = f")
        case True
        with r q \<open>c = f\<close> show ?thesis
          by (auto simp: frame_at_attach attached_record_children[OF wf] split: if_splits)
      next
        case False
        then obtain rq where "frame_at g q = Some rq" using q by (auto simp: frame_at_attach)
        moreover from this have "f \<in> set (fr_children rq)" using inv r by (auto simp: graph_inv_def)
        ultimately show ?thesis using q False True by (auto simp: frame_at_attach split: if_splits)
      qed
    qed
  next
    case False
    then obtain rc0 where rc0: "frame_at g c = Some rc0" "fr_parent rc0 = Some q"
      using c pc by (auto simp: frame_at_attach split: if_splits)
    show ?thesis
    proof (cases "q = f")
      case True
      with rc0 q show ?thesis
        by (auto simp: frame_at_attach attached_record_children[OF wf] split: if_splits)
    next
      case False
      then obtain rq where "frame_at g q = Some rq" using q by (auto simp: frame_at_attach)
      moreover from this have "c \<in> set (fr_children rq)" using inv rc0 by (auto simp: graph_inv_def)
      ultimately show ?thesis using q False by (auto simp: frame_at_attach split: if_splits)
    qed
  qed
  have "fg_main_frame_id ?g = Some m \<Longrightarrow> m \<in> frame_keys ?g" for m
    using inv by (auto simp: graph_attach_def Let_def graph_inv_def split: option.splits if_splits)
  moreover have "frame_at ?g k = Some r \<Longrightarrow> bt_wf (fr_children r)" for k r
    using inv attached_record_bt_wf[OF inv, of f p]
    by (auto simp: frame_at_attach graph_inv_def split: if_splits)
  ultimately show ?thesis using wf links unfolding graph_inv_def by (metis wf_graph_attach)
qed

text \<open>Updates that keep parents, children and the main frame keep the invariant.\<close>

lemma graph_inv_same_shape:
  assumes "graph_inv g" "wf_map (fg_frames g')" "fg_main_frame_id g' = fg_main_frame_id g"
    and "\<And>k. map_option (\<lambda>r. (fr_parent r, fr_children r)) (frame_at g' k)
           = map_option (\<lambda>r. (fr_parent r, fr_children r)) (frame_at g k)"
  shows "graph_inv g'"
proof -
  have orig: "\<exists>r0. frame_at g k = Some r0 \<and> fr_parent r0 = fr_parent r \<and> fr_children r0 = fr_children r"
    if "frame_at g' k = Some r" for k r
    using assms(4)[of k] that by (cases "frame_at g k") auto
  have some: "(\<exists>r. frame_at g' k = Some r) = (\<exists>r. frame_at g k = Some r)" for k
    using assms(4)[of k] by (cases "frame_at g k"; cases "frame_at g' k") auto
  have keys: "k \<in> frame_keys g' \<longleftrightarrow> k \<in> frame_keys g" for k
    by (simp only: keys_iff_map_of some)
  have "c \<in> set (fr_children rp)"
    if "frame_at g' c = Some rc" "fr_parent rc = Some p" "frame_at g' p = Some rp" for c rc p rp
    using orig[OF that(1)] orig[OF that(3)] that(2) graph_inv_link[OF assms(1)] by metis
  moreover have "m \<in> frame_keys g'" if "fg_main_frame_id g' = Some m" for m
    using that assms(1,3) unfolding keys by (simp only: graph_inv_def)
  moreover have "bt_wf (fr_children r)" if "frame_at g' k = Some r" for k r
    using orig[OF that] assms(1) unfolding graph_inv_def by metis
  ultimately show ?thesis using assms(2) unfolding graph_inv_def by blast
qed

lemma graph_inv_navigate: "graph_inv g \<Longrightarrow> graph_inv (snd (graph_navigate f p l g))"
  by (rule graph_inv_same_shape[OF graph_inv_attach[of g f p]])
    (auto simp: graph_inv_def frame_at_navigate option.map_comp comp_def intro!: map_option_cong)

lemma graph_inv_route: "graph_inv g \<Longrightarrow> graph_inv (snd (route_to_session f s t g))"
  by (rule graph_inv_same_shape[OF graph_inv_attach[of g f None]])
    (auto simp: graph_inv_def frame_at_route option.map_comp comp_def)

lemma graph_inv_active: "graph_inv g \<Longrightarrow> graph_inv (set_route_active f a g)"
  by (rule graph_inv_same_shape) (auto simp: graph_inv_def option.map_comp comp_def)

lemma graph_inv_reroute: "graph_inv g \<Longrightarrow> graph_inv (reroute_session s t g)"
  by (rule graph_inv_same_shape) (auto simp: graph_inv_def option.map_comp comp_def intro!: map_option_cong)

subsection \<open>Detach removes the reachable subtree\<close>

definition child_rel :: "frame_graph \<Rightarrow> (ident \<times> ident) set" where
  "child_rel g = {(a, b). \<exists>r. frame_at g a = Some r \<and> b \<in> set (fr_children r)}"

definition subtree :: "frame_graph \<Rightarrow> ident \<Rightarrow> ident set" where
  "subtree g f = {d. (f, d) \<in> (child_rel g)\<^sup>*}"

text \<open>
  \<open>shrinks R g g'\<close>: the frames in \<open>R\<close> were removed, with every present child of a removed
  frame; the other frames lost at most removed ids from their child sets.
\<close>

definition frame_rest ::
  "frame_record \<Rightarrow> ident option \<times> ident option \<times> u64 \<times> ident \<times> ident option \<times> bool" where
  "frame_rest r =
     (fr_parent r, fr_loader_id r, fr_document_epoch r, fr_route_session_id r,
      fr_route_target_id r, fr_route_active r)"

definition lost_children :: "ident set \<Rightarrow> frame_record \<Rightarrow> frame_record \<Rightarrow> bool" where
  "lost_children R r r' \<longleftrightarrow>
     frame_rest r' = frame_rest r \<and> set (fr_children r') \<subseteq> set (fr_children r) \<and>
     set (fr_children r) - R \<subseteq> set (fr_children r') \<and>
     (bt_wf (fr_children r) \<longrightarrow> bt_wf (fr_children r'))"

definition shrinks :: "ident set \<Rightarrow> frame_graph \<Rightarrow> frame_graph \<Rightarrow> bool" where
  "shrinks R g g' \<longleftrightarrow>
     R \<subseteq> frame_keys g \<and> frame_keys g' = frame_keys g - R \<and>
     (\<forall>k r'. frame_at g' k = Some r' \<longrightarrow> (\<exists>r. frame_at g k = Some r \<and> lost_children R r r')) \<and>
     (\<forall>k r. k \<in> R \<longrightarrow> frame_at g k = Some r \<longrightarrow> set (fr_children r) \<inter> frame_keys g \<subseteq> R) \<and>
     fg_main_frame_id g' =
       (case fg_main_frame_id g of None \<Rightarrow> None | Some m \<Rightarrow> if m \<in> R then None else Some m) \<and>
     fg_main_session_id g' = fg_main_session_id g \<and>
     (wf_map (fg_frames g) \<longrightarrow> wf_map (fg_frames g'))"

lemma lost_children_refl: "lost_children R r r"
  by (simp add: lost_children_def)

lemma lost_children_trans:
  "lost_children R r r1 \<Longrightarrow> lost_children S r1 r2 \<Longrightarrow> lost_children (R \<union> S) r r2"
  by (auto simp: lost_children_def)

lemma lost_children_mono: "lost_children R r r' \<Longrightarrow> R \<subseteq> S \<Longrightarrow> lost_children S r r'"
  by (auto simp: lost_children_def)

lemma shrinksI:
  assumes "R \<subseteq> frame_keys g" "frame_keys g' = frame_keys g - R"
    and "\<And>k r'. frame_at g' k = Some r' \<Longrightarrow> \<exists>r. frame_at g k = Some r \<and> lost_children R r r'"
    and "\<And>k r. k \<in> R \<Longrightarrow> frame_at g k = Some r \<Longrightarrow> set (fr_children r) \<inter> frame_keys g \<subseteq> R"
    and "fg_main_frame_id g' =
       (case fg_main_frame_id g of None \<Rightarrow> None | Some m \<Rightarrow> if m \<in> R then None else Some m)"
    and "fg_main_session_id g' = fg_main_session_id g"
    and "wf_map (fg_frames g) \<Longrightarrow> wf_map (fg_frames g')"
  shows "shrinks R g g'"
  unfolding shrinks_def using assms(1,2,5,6) by (intro conjI allI impI assms(3,4,7)) assumption+

lemma shrinksD:
  assumes "shrinks R g g'"
  shows "R \<subseteq> frame_keys g" "frame_keys g' = frame_keys g - R"
    and "\<forall>k r'. frame_at g' k = Some r' \<longrightarrow> (\<exists>r. frame_at g k = Some r \<and> lost_children R r r')"
    and "\<forall>k r. k \<in> R \<longrightarrow> frame_at g k = Some r \<longrightarrow> set (fr_children r) \<inter> frame_keys g \<subseteq> R"
    and "fg_main_frame_id g' =
       (case fg_main_frame_id g of None \<Rightarrow> None | Some m \<Rightarrow> if m \<in> R then None else Some m)"
    and "fg_main_session_id g' = fg_main_session_id g"
    and "wf_map (fg_frames g) \<longrightarrow> wf_map (fg_frames g')"
  using assms[unfolded shrinks_def] by - (elim conjE, assumption)+

lemma shrinks_refl: "shrinks {} g g"
  by (rule shrinksI) (auto intro: lost_children_refl split: option.splits)

lemmas shrinks_keys = shrinksD(1,2)

lemma shrinks_frame:
  assumes "shrinks R g g'" "frame_at g' k = Some r'"
  obtains r where "frame_at g k = Some r" "lost_children R r r'"
  using shrinksD(3)[OF assms(1)] assms(2) by metis

lemma shrinks_closed:
  "shrinks R g g' \<Longrightarrow> k \<in> R \<Longrightarrow> frame_at g k = Some r \<Longrightarrow> set (fr_children r) \<inter> frame_keys g \<subseteq> R"
  using shrinksD(4) by metis

lemma shrinks_survivor:
  assumes "shrinks R g g'" "frame_at g k = Some r" "k \<notin> R"
  obtains r' where "frame_at g' k = Some r'" "lost_children R r r'"
proof -
  have "k \<in> frame_keys g - R" using map_of_in_keys[OF assms(2)] assms(3) by (rule DiffI)
  then have "k \<in> frame_keys g'" by (simp only: shrinks_keys(2)[OF assms(1)])
  then obtain r' where r': "frame_at g' k = Some r'" unfolding keys_iff_map_of by (rule exE)
  obtain r0 where "frame_at g k = Some r0" "lost_children R r0 r'" using shrinks_frame[OF assms(1) r'] .
  with assms(2) r' show thesis by (intro that[of r']) simp_all
qed

lemma shrinks_trans:
  assumes a: "shrinks R g g1" and b: "shrinks S g1 g2"
  shows "shrinks (R \<union> S) g g2"
proof -
  have R: "R \<subseteq> frame_keys g" and keys1: "frame_keys g1 = frame_keys g - R"
    by (rule shrinks_keys[OF a])+
  have S: "S \<subseteq> frame_keys g - R" and keys2: "frame_keys g2 = (frame_keys g - R) - S"
    using shrinks_keys[OF b] by (simp_all only: keys1)
  show ?thesis
  proof (rule shrinksI)
    show "R \<union> S \<subseteq> frame_keys g" using R S by blast
    show "frame_keys g2 = frame_keys g - (R \<union> S)" unfolding keys2 by blast
    show "\<exists>r. frame_at g k = Some r \<and> lost_children (R \<union> S) r r2"
      if k: "frame_at g2 k = Some r2" for k r2
      using shrinks_frame[OF b k] shrinks_frame[OF a] lost_children_trans by metis
    show "set (fr_children r) \<inter> frame_keys g \<subseteq> R \<union> S"
      if k: "k \<in> R \<union> S" "frame_at g k = Some r" for k r
    proof (cases "k \<in> R")
      case True
      with shrinks_closed[OF a _ k(2)] show ?thesis by blast
    next
      case False
      with k have kS: "k \<in> S" by simp
      obtain r1 where r1: "frame_at g1 k = Some r1" "lost_children R r r1"
        using shrinks_survivor[OF a k(2) False] .
      have "set (fr_children r1) \<inter> (frame_keys g - R) \<subseteq> S"
        using shrinks_closed[OF b kS r1(1)] by (simp only: keys1)
      moreover have "set (fr_children r) - R \<subseteq> set (fr_children r1)"
        using r1(2) by (simp add: lost_children_def)
      ultimately show ?thesis by blast
    qed
    show "fg_main_frame_id g2 =
        (case fg_main_frame_id g of None \<Rightarrow> None | Some m \<Rightarrow> if m \<in> R \<union> S then None else Some m)"
      using shrinksD(5)[OF a] shrinksD(5)[OF b] by (cases "fg_main_frame_id g") (auto split: if_splits)
    show "fg_main_session_id g2 = fg_main_session_id g"
      using shrinksD(6)[OF a] shrinksD(6)[OF b] by simp
    show "wf_map (fg_frames g) \<Longrightarrow> wf_map (fg_frames g2)"
      using shrinksD(7)[OF a] shrinksD(7)[OF b] by simp
  qed
qed

lemma shrinks_subtree_mono:
  assumes "shrinks R g g'"
  shows "subtree g' f \<subseteq> subtree g f"
proof -
  have "child_rel g' \<subseteq> child_rel g"
  proof
    fix ab assume "ab \<in> child_rel g'"
    then obtain a b r' where ab: "ab = (a, b)" "frame_at g' a = Some r'" "b \<in> set (fr_children r')"
      unfolding child_rel_def by blast
    obtain r where "frame_at g a = Some r" "lost_children R r r'" using shrinks_frame[OF assms ab(2)] .
    with ab show "ab \<in> child_rel g" unfolding child_rel_def lost_children_def by blast
  qed
  then show ?thesis unfolding subtree_def using rtrancl_mono by blast
qed

lemma shrinks_length:
  assumes "shrinks R g g'" "wf_map (fg_frames g)"
  shows "length (fg_frames g') \<le> length (fg_frames g)"
proof -
  have "wf_map (fg_frames g')" using shrinksD(7)[OF assms(1)] assms(2) by simp
  then have "length (fg_frames g') = card (frame_keys g')" by (rule wf_map_length)
  also have "\<dots> \<le> card (frame_keys g)" using shrinks_keys[OF assms(1)] by (intro card_mono) auto
  finally show ?thesis using wf_map_length[OF assms(2)] by simp
qed

lemma subtree_refl: "f \<in> subtree g f"
  by (simp add: subtree_def)

lemma subtree_child:
  assumes "frame_at g f = Some r" "c \<in> set (fr_children r)"
  shows "subtree g c \<subseteq> subtree g f"
proof
  fix d assume "d \<in> subtree g c"
  moreover have "(f, c) \<in> child_rel g" unfolding child_rel_def using assms by simp
  ultimately show "d \<in> subtree g f" unfolding subtree_def by (simp add: converse_rtrancl_into_rtrancl)
qed

lemma subtree_delete_mono:
  "subtree (g\<lparr>fg_frames := AList.delete f (fg_frames g)\<rparr>) c \<subseteq> subtree g c"
proof -
  have "child_rel (g\<lparr>fg_frames := AList.delete f (fg_frames g)\<rparr>) \<subseteq> child_rel g"
    by (auto simp: child_rel_def split: if_splits)
  then show ?thesis unfolding subtree_def using rtrancl_mono by blast
qed

definition detaches :: "nat \<Rightarrow> ident \<Rightarrow> frame_graph \<Rightarrow> bool" where
  "detaches n f g \<longleftrightarrow>
     (\<exists>g' R. detach_fuel n f g = Some g' \<and> shrinks R g g' \<and> R \<subseteq> subtree g f \<and>
             (f \<in> frame_keys g \<longrightarrow> f \<in> R))"

lemma detach_children:
  assumes "\<forall>c h. wf_map (fg_frames h) \<longrightarrow> length (fg_frames h) < n \<longrightarrow> detaches n c h"
    and "wf_map (fg_frames h)" "length (fg_frames h) < n"
  shows "\<exists>h' R. fold (\<lambda>child acc. Option.bind acc (detach_fuel n child)) cs (Some h) = Some h' \<and>
           shrinks R h h' \<and> R \<subseteq> (\<Union>c\<in>set cs. subtree h c) \<and> set cs \<inter> frame_keys h \<subseteq> R"
  using assms(2,3)
proof (induction cs arbitrary: h)
  case Nil
  then show ?case using shrinks_refl by auto
next
  case (Cons c cs)
  obtain h1 R where 1: "detach_fuel n c h = Some h1" "shrinks R h h1" "R \<subseteq> subtree h c"
    "c \<in> frame_keys h \<longrightarrow> c \<in> R"
    using assms(1)[rule_format, OF Cons.prems, of c] unfolding detaches_def by (elim exE conjE)
  have wf: "wf_map (fg_frames h1)" using shrinksD(7)[OF 1(2)] Cons.prems(1) by (rule mp)
  have len: "length (fg_frames h1) < n" using shrinks_length[OF 1(2) Cons.prems(1)] Cons.prems(2) by simp
  obtain h2 S where 2: "fold (\<lambda>child acc. Option.bind acc (detach_fuel n child)) cs (Some h1) = Some h2"
    "shrinks S h1 h2" "S \<subseteq> (\<Union>c\<in>set cs. subtree h1 c)" "set cs \<inter> frame_keys h1 \<subseteq> S"
    using Cons.IH[OF wf len] by (elim exE conjE)
  have k1: "frame_keys h1 = frame_keys h - R" by (rule shrinks_keys[OF 1(2)])
  have "S \<subseteq> (\<Union>c\<in>set cs. subtree h c)" using 2(3) shrinks_subtree_mono[OF 1(2)] by fastforce
  with 1(3) have sub: "R \<union> S \<subseteq> (\<Union>d\<in>set (c # cs). subtree h d)" by auto
  have "set cs \<inter> (frame_keys h - R) \<subseteq> S" using 2(4) by (simp only: k1)
  with 1(4) have cov: "set (c # cs) \<inter> frame_keys h \<subseteq> R \<union> S" by auto
  have "fold (\<lambda>child acc. Option.bind acc (detach_fuel n child)) (c # cs) (Some h) = Some h2"
    using 1(1) 2(1) by simp
  with shrinks_trans[OF 1(2) 2(2)] sub cov show ?case by (intro exI[of _ h2] exI[of _ "R \<union> S"] conjI)
qed

lemma keys_unlink [simp]: "frame_keys (unlink f r g) = frame_keys g"
  by (simp add: unlink_def Let_def split: option.splits)

lemma unlink_simps [simp]:
  "wf_map (fg_frames g) \<Longrightarrow> wf_map (fg_frames (unlink f r g))"
  "fg_main_session_id (unlink f r g) = fg_main_session_id g"
  "fg_main_frame_id (unlink f r g) = (if fg_main_frame_id g = Some f then None else fg_main_frame_id g)"
  "frame_at (unlink f r g) k =
     map_option (\<lambda>q. if fr_parent r = Some k then q\<lparr>fr_children := bt_remove f (fr_children q)\<rparr> else q)
       (frame_at g k)"
  by (auto simp: unlink_def Let_def option.map_ident split: option.splits)

lemma lost_children_unlink:
  "lost_children {f} q (if b then q\<lparr>fr_children := bt_remove f (fr_children q)\<rparr> else q)"
  by (auto simp: lost_children_def frame_rest_def)

lemma unlink_shrinks:
  assumes f: "frame_at g f = Some r"
    and sh: "shrinks R (g\<lparr>fg_frames := AList.delete f (fg_frames g)\<rparr>) g1"
    and cov: "set (fr_children r) \<inter> (frame_keys g - {f}) \<subseteq> R"
  shows "shrinks (insert f R) g (unlink f r g1)"
proof -
  let ?d = "g\<lparr>fg_frames := AList.delete f (fg_frames g)\<rparr>"
  have kd: "frame_keys ?d = frame_keys g - {f}" by simp
  have R: "R \<subseteq> frame_keys g - {f}" and k1: "frame_keys g1 = (frame_keys g - {f}) - R"
    using shrinks_keys[OF sh] by (simp_all only: kd)
  have atd: "frame_at ?d k = (if k = f then None else frame_at g k)" for k by simp
  show ?thesis
  proof (rule shrinksI)
    show "insert f R \<subseteq> frame_keys g" using R map_of_in_keys[OF f] by blast
    show "frame_keys (unlink f r g1) = frame_keys g - insert f R" unfolding keys_unlink k1 by blast
    show "\<exists>q. frame_at g k = Some q \<and> lost_children (insert f R) q q2"
      if k: "frame_at (unlink f r g1) k = Some q2" for k q2
    proof -
      obtain q1 where q1: "frame_at g1 k = Some q1" "lost_children {f} q1 q2"
        using k lost_children_unlink by (auto simp only: unlink_simps(4) map_option_eq_Some)
      obtain q where q: "frame_at ?d k = Some q" "lost_children R q q1" using shrinks_frame[OF sh q1(1)] .
      have "frame_at g k = Some q" using q(1) unfolding atd by (simp split: if_splits)
      then show ?thesis using lost_children_trans[OF q(2) q1(2)] by simp
    qed
    show "set (fr_children q) \<inter> frame_keys g \<subseteq> insert f R"
      if k: "k \<in> insert f R" "frame_at g k = Some q" for k q
    proof (cases "k = f")
      case True
      with k(2) f cov show ?thesis by auto
    next
      case False
      with k have kR: "k \<in> R" and kd': "frame_at ?d k = Some q" unfolding atd by simp_all
      have "set (fr_children q) \<inter> (frame_keys g - {f}) \<subseteq> R"
        using shrinks_closed[OF sh kR kd'] by (simp only: kd)
      then show ?thesis by blast
    qed
    show "fg_main_frame_id (unlink f r g1) =
        (case fg_main_frame_id g of None \<Rightarrow> None | Some m \<Rightarrow> if m \<in> insert f R then None else Some m)"
      using shrinksD(5)[OF sh] by (cases "fg_main_frame_id g") auto
    show "fg_main_session_id (unlink f r g1) = fg_main_session_id g" using shrinksD(6)[OF sh] by simp
    show "wf_map (fg_frames g) \<Longrightarrow> wf_map (fg_frames (unlink f r g1))" using shrinksD(7)[OF sh] by simp
  qed
qed

lemma detach_enough_fuel:
  "wf_map (fg_frames g) \<Longrightarrow> length (fg_frames g) < n \<Longrightarrow> detaches n f g"
proof (induction n arbitrary: f g)
  case (Suc n)
  show ?case
  proof (cases "frame_at g f")
    case None
    then have "f \<notin> frame_keys g" by (simp only: not_in_keys_iff)
    with None show ?thesis unfolding detaches_def
      by (intro exI[of _ g] exI[of _ "{}"]) (simp add: shrinks_refl)
  next
    case (Some r)
    let ?d = "g\<lparr>fg_frames := AList.delete f (fg_frames g)\<rparr>"
    have wfd: "wf_map (fg_frames ?d)" using Suc.prems(1) by simp
    have len: "length (fg_frames ?d) < n"
      using length_delete_less[OF map_of_in_keys[OF Some]] Suc.prems(2) by simp
    have IH: "\<forall>c h. wf_map (fg_frames h) \<longrightarrow> length (fg_frames h) < n \<longrightarrow> detaches n c h"
      using Suc.IH by simp
    note children = detach_children[OF IH wfd len, of "fr_children r"]
    obtain g1 R where g1: "fold (\<lambda>child acc. Option.bind acc (detach_fuel n child)) (fr_children r) (Some ?d) = Some g1"
      "shrinks R ?d g1" "R \<subseteq> (\<Union>c\<in>set (fr_children r). subtree ?d c)" "set (fr_children r) \<inter> frame_keys ?d \<subseteq> R"
      using children by (elim exE conjE)
    have cov: "set (fr_children r) \<inter> (frame_keys g - {f}) \<subseteq> R" using g1(4) by simp
    have "(\<Union>c\<in>set (fr_children r). subtree ?d c) \<subseteq> subtree g f"
      using subtree_delete_mono subtree_child[OF Some] by blast
    with g1(3) have sub: "insert f R \<subseteq> subtree g f" using subtree_refl by blast
    have "detach_fuel (Suc n) f g = Some (unlink f r g1)" using Some g1(1) by simp
    with unlink_shrinks[OF Some g1(2) cov] sub show ?thesis
      unfolding detaches_def by (intro exI[of _ "unlink f r g1"] exI[of _ "insert f R"]) simp
  qed
qed simp

lemma graph_detach_shrinks:
  assumes "wf_map (fg_frames g)"
  shows "shrinks (subtree g f \<inter> frame_keys g) g (graph_detach f g)"
proof -
  obtain g' R where R: "detach_fuel (Suc (length (fg_frames g))) f g = Some g'" "shrinks R g g'"
    "R \<subseteq> subtree g f" "f \<in> frame_keys g \<longrightarrow> f \<in> R"
    using detach_enough_fuel[OF assms lessI, of f] unfolding detaches_def by (elim exE conjE)
  have keys: "R \<subseteq> frame_keys g" by (rule shrinks_keys[OF R(2)])
  have "d \<in> R" if "(f, d) \<in> (child_rel g)\<^sup>*" "d \<in> frame_keys g" for d
    using that
  proof (induction rule: rtrancl_induct)
    case base
    then show ?case using R(4) by simp
  next
    case (step c d)
    then obtain r where r: "frame_at g c = Some r" "d \<in> set (fr_children r)" by (auto simp: child_rel_def)
    have "c \<in> R" using step.IH map_of_in_keys[OF r(1)] .
    from shrinks_closed[OF R(2) this r(1)] r(2) step.prems show ?case by auto
  qed
  then have "subtree g f \<inter> frame_keys g = R" using R(3) keys unfolding subtree_def by auto
  then show ?thesis using R(1,2) by (simp add: graph_detach_def)
qed

lemma graph_inv_detach:
  assumes inv: "graph_inv g"
  shows "graph_inv (graph_detach f g)"
proof -
  let ?R = "subtree g f \<inter> frame_keys g" and ?g = "graph_detach f g"
  have wf: "wf_map (fg_frames g)" using inv by (simp add: graph_inv_def)
  note sh = graph_detach_shrinks[OF wf, of f]
  have "c \<in> set (fr_children rp)"
    if c: "frame_at ?g c = Some rc" "fr_parent rc = Some p" "frame_at ?g p = Some rp" for c rc p rp
  proof -
    obtain rc0 where rc0: "frame_at g c = Some rc0" "lost_children ?R rc0 rc" using shrinks_frame[OF sh c(1)] .
    obtain rp0 where rp0: "frame_at g p = Some rp0" "lost_children ?R rp0 rp" using shrinks_frame[OF sh c(3)] .
    have "fr_parent rc0 = Some p" using rc0(2) c(2) by (simp add: lost_children_def frame_rest_def)
    then have "c \<in> set (fr_children rp0)" using graph_inv_link[OF inv rc0(1) _ rp0(1)] by simp
    moreover have "c \<notin> ?R" using map_of_in_keys[OF c(1)] shrinks_keys(2)[OF sh] by blast
    ultimately show ?thesis using rp0(2) by (auto simp: lost_children_def)
  qed
  moreover have "m \<in> frame_keys ?g" if "fg_main_frame_id ?g = Some m" for m
    using that shrinksD(5)[OF sh] shrinks_keys(2)[OF sh] inv
    by (auto simp: graph_inv_def simp del: keys_iff_map_of split: option.splits if_splits)
  moreover have "bt_wf (fr_children r)" if k: "frame_at ?g k = Some r" for k r
    using shrinks_frame[OF sh k] inv by (metis graph_inv_def lost_children_def)
  moreover have "wf_map (fg_frames ?g)" using shrinksD(7)[OF sh] wf by simp
  ultimately show ?thesis unfolding graph_inv_def by blast
qed

text \<open>
  C16: detaching a frame, from a graph whose keys are distinct, removes exactly the frames
  reachable from it through child sets; every other frame stays with its parent, loader, epoch
  and route, and loses at most removed frames from its child set; the main frame is forgotten
  exactly when it is removed.
\<close>

theorem detach_removes_subtree:
  assumes "wf_map (fg_frames g)"
  shows "frame_keys (graph_detach f g) = frame_keys g - subtree g f \<and>
    (\<forall>k. k \<notin> subtree g f \<longrightarrow>
       map_option frame_rest (frame_at (graph_detach f g) k) = map_option frame_rest (frame_at g k) \<and>
       set (graph_children k g) - subtree g f \<subseteq> set (graph_children k (graph_detach f g)) \<and>
       set (graph_children k (graph_detach f g)) \<subseteq> set (graph_children k g)) \<and>
    (fg_main_frame_id (graph_detach f g) = None \<longleftrightarrow>
       (\<forall>m. fg_main_frame_id g = Some m \<longrightarrow> m \<in> subtree g f \<inter> frame_keys g))"
proof (intro conjI allI impI)
  let ?R = "subtree g f \<inter> frame_keys g"
  note sh = graph_detach_shrinks[OF assms, of f]
  show "frame_keys (graph_detach f g) = frame_keys g - subtree g f" using shrinks_keys(2)[OF sh] by blast
  show "fg_main_frame_id (graph_detach f g) = None \<longleftrightarrow>
       (\<forall>m. fg_main_frame_id g = Some m \<longrightarrow> m \<in> ?R)"
    using shrinksD(5)[OF sh] by (cases "fg_main_frame_id g") simp_all
  fix k assume k: "k \<notin> subtree g f"
  have "map_option frame_rest (frame_at (graph_detach f g) k) = map_option frame_rest (frame_at g k) \<and>
    set (graph_children k g) - ?R \<subseteq> set (graph_children k (graph_detach f g)) \<and>
    set (graph_children k (graph_detach f g)) \<subseteq> set (graph_children k g)"
  proof (cases "frame_at g k")
    case None
    then have "frame_at (graph_detach f g) k = None"
      using shrinks_keys(2)[OF sh] unfolding not_in_keys_iff[symmetric] by blast
    with None show ?thesis by (simp add: graph_children_def)
  next
    case (Some r)
    obtain r' where "frame_at (graph_detach f g) k = Some r'" "lost_children ?R r r'"
      using shrinks_survivor[OF sh Some] k by blast
    with Some show ?thesis by (simp add: lost_children_def graph_children_def)
  qed
  then show "map_option frame_rest (frame_at (graph_detach f g) k) = map_option frame_rest (frame_at g k)"
    "set (graph_children k g) - subtree g f \<subseteq> set (graph_children k (graph_detach f g))"
    "set (graph_children k (graph_detach f g)) \<subseteq> set (graph_children k g)"
    by blast+
qed

subsection \<open>Event sequences\<close>

datatype graph_event =
    Attach ident "ident option"
  | Navigate ident "ident option" ident
  | Detach ident
  | RouteTo ident ident "ident option"
  | RouteOopif ident "ident option" "ident option" ident ident
  | SetActive ident bool
  | Reroute ident ident
  | Merge frame_tree ident "ident list" bool

primrec graph_apply :: "graph_event \<Rightarrow> frame_graph \<Rightarrow> frame_graph" where
  "graph_apply (Attach f p) = graph_attach f p"
| "graph_apply (Navigate f p l) = (\<lambda>g. snd (graph_navigate f p l g))"
| "graph_apply (Detach f) = graph_detach f"
| "graph_apply (RouteTo f s t) = (\<lambda>g. snd (route_to_session f s t g))"
| "graph_apply (RouteOopif f pf ps s t) = (\<lambda>g. snd (route_oopif f pf ps s t g))"
| "graph_apply (SetActive f a) = set_route_active f a"
| "graph_apply (Reroute s t) = reroute_session s t"
| "graph_apply (Merge t s roots anc) = merge_tree t s roots anc"

lemma fold_invariant_set:
  "P g \<Longrightarrow> (\<And>x h. x \<in> set xs \<Longrightarrow> P h \<Longrightarrow> P (f x h)) \<Longrightarrow> P (fold f xs g)"
  by (induction xs arbitrary: g) auto

lemma graph_inv_merge: "graph_inv g \<Longrightarrow> graph_inv (merge_tree t s roots anc g)"
proof (induction t arbitrary: anc g)
  case (FrameTree f p l cs)
  show ?case
    unfolding merge_tree.simps Let_def
    by (intro fold_invariant_set[where P = graph_inv] graph_inv_active graph_inv_route graph_inv_navigate
        FrameTree.IH FrameTree.prems)
qed

lemma graph_inv_apply: "graph_inv g \<Longrightarrow> graph_inv (graph_apply e g)"
  by (cases e; simp only: graph_apply.simps route_oopif_def split: if_split)
    (simp_all only: graph_inv_attach graph_inv_navigate graph_inv_detach graph_inv_route
      graph_inv_active graph_inv_reroute graph_inv_merge snd_conv simp_thms)

interpretation graph_runs: event_machine graph_apply graph_inv
  by unfold_locales (rule graph_inv_apply)

lemma reachable_graph_inv: "graph_inv (fold graph_apply es (new_graph s))"
  by (rule graph_runs.run_inv[OF graph_inv_new])

text \<open>
  C17: in every graph the event handlers can build, each frame whose parent is known is in the
  parent's child set, whatever the order the frames were announced in; and detaching any frame
  leaves no frame behind whose parent was removed by it. A child set may hold more than that: see
  \<open>child_set_of_second_parent\<close>.
\<close>

theorem parents_know_children_no_orphans:
  assumes "g = fold graph_apply es (new_graph main_session)"
    and "graph_parent c g = Some p" "p \<in> frame_keys g"
  shows "c \<in> set (graph_children p g) \<and>
    (c \<in> frame_keys (graph_detach f g) \<longrightarrow> p \<in> frame_keys (graph_detach f g))"
proof -
  have inv: "graph_inv g" unfolding assms(1) by (rule reachable_graph_inv)
  obtain rc where rc: "frame_at g c = Some rc" "fr_parent rc = Some p"
    using assms(2) by (auto simp: graph_parent_def bind_eq_Some_conv)
  obtain rp where rp: "frame_at g p = Some rp" using assms(3) keys_iff_map_of by metis
  have link: "c \<in> set (fr_children rp)" by (rule graph_inv_link[OF inv rc rp])
  have wf: "wf_map (fg_frames g)" using inv by (simp add: graph_inv_def)
  note sh = graph_detach_shrinks[OF wf, of f]
  have "p \<in> frame_keys (graph_detach f g)" if c: "c \<in> frame_keys (graph_detach f g)"
  proof (rule ccontr)
    assume "\<not> ?thesis"
    then have "p \<in> subtree g f" using shrinks_keys(2)[OF sh] assms(3) by blast
    moreover have "(p, c) \<in> child_rel g" using rp link by (simp add: child_rel_def)
    ultimately have "c \<in> subtree g f" unfolding subtree_def by simp
    with c show False using shrinks_keys(2)[OF sh] by blast
  qed
  with link rp show ?thesis by (simp add: graph_children_def)
qed

text \<open>
  The converse does not hold: a frame announced under a second parent keeps its first one and is entered in
  the child set of the second as well, so that a detach of the second parent takes it along.
\<close>

lemma child_set_of_second_parent:
  "let g = fold graph_apply [Attach ''p'' None, Attach ''q'' None, Attach ''c'' (Some ''p''), Attach ''c'' (Some ''q'')]
             (new_graph ''S'') in
   graph_parent ''c'' g = Some ''p'' \<and> ''c'' \<in> set (graph_children ''q'' g) \<and> ''c'' \<notin> frame_keys (graph_detach ''q'' g)"
  by code_simp

theorem parents_know_children_no_orphans_witness:
  "let g = fold graph_apply [Attach ''c'' (Some ''p''), Attach ''p'' None] (new_graph ''S'') in
   ''c'' \<in> set (graph_children ''p'' g) \<and>
   (''c'' \<in> frame_keys (graph_detach ''x'' g) \<longrightarrow> ''p'' \<in> frame_keys (graph_detach ''x'' g))"
  unfolding Let_def
  by (rule parents_know_children_no_orphans[OF refl])
    (simp_all add: graph_attach_def graph_parent_def new_graph_def attached_record_def
      new_frame_record_def waiting_children_def Let_def bt_insert_def)

theorem detach_removes_subtree_witness:
  "frame_keys (graph_detach ''p'' (graph_attach ''c'' (Some ''p'') (graph_attach ''p'' None (new_graph ''S''))))
     = frame_keys (graph_attach ''c'' (Some ''p'') (graph_attach ''p'' None (new_graph ''S'')))
         - subtree (graph_attach ''c'' (Some ''p'') (graph_attach ''p'' None (new_graph ''S''))) ''p''"
  using detach_removes_subtree[of "graph_attach ''c'' (Some ''p'') (graph_attach ''p'' None (new_graph ''S''))" "''p''"]
  by (simp only: wf_graph_attach new_graph_def) simp

subsection \<open>Documents\<close>

text \<open>The document of a frame: its loader and epoch; a frame not seen yet has no loader and epoch 0.\<close>

definition doc :: "frame_graph \<Rightarrow> ident \<Rightarrow> ident option \<times> u64" where
  "doc g f = (case frame_at g f of None \<Rightarrow> (None, 0) | Some r \<Rightarrow> (fr_loader_id r, fr_document_epoch r))"

definition nav_doc :: "ident \<Rightarrow> ident option \<times> u64 \<Rightarrow> ident option \<times> u64" where
  "nav_doc l d = (Some l, if fst d \<noteq> None \<and> fst d \<noteq> Some l then snd d + 1 else snd d)"

fun loader_changes :: "ident option \<Rightarrow> ident list \<Rightarrow> nat" where
  "loader_changes current [] = 0"
| "loader_changes current (l # ls) =
     (if current \<noteq> None \<and> current \<noteq> Some l then 1 else 0) + loader_changes (Some l) ls"

fun tree_loaders :: "ident \<Rightarrow> frame_tree \<Rightarrow> ident list" where
  "tree_loaders f (FrameTree k p l cs) = (if k = f then [l] else []) @ concat (map (tree_loaders f) cs)"

primrec event_loaders :: "ident \<Rightarrow> graph_event \<Rightarrow> ident list" where
  "event_loaders f (Attach k p) = []"
| "event_loaders f (Navigate k p l) = (if k = f then [l] else [])"
| "event_loaders f (Detach k) = []"
| "event_loaders f (RouteTo k s t) = []"
| "event_loaders f (RouteOopif k pf ps s t) = []"
| "event_loaders f (SetActive k a) = []"
| "event_loaders f (Reroute s t) = []"
| "event_loaders f (Merge t s roots anc) = tree_loaders f t"

lemma doc_attach [simp]: "doc (graph_attach f p g) k = doc g k"
  by (auto simp: doc_def frame_at_attach attached_record_def Let_def new_frame_record_def
      split: option.splits)

lemma doc_navigate [simp]:
  "doc (snd (graph_navigate f p l g)) k = (if k = f then nav_doc l (doc g k) else doc g k)"
proof (cases "k = f")
  case True
  obtain r where r: "frame_at (graph_attach f p g) f = Some r" by (simp add: frame_at_attach)
  then have "doc g f = (fr_loader_id r, fr_document_epoch r)"
    using doc_attach[of f p g f] by (simp add: doc_def)
  with True r show ?thesis by (simp add: doc_def frame_at_navigate nav_doc_def)
next
  case False
  then have "doc (snd (graph_navigate f p l g)) k = doc (graph_attach f p g) k"
    by (simp add: doc_def frame_at_navigate)
  with False show ?thesis by simp
qed

lemma doc_route [simp]: "doc (snd (route_to_session f s t g)) k = doc g k"
proof -
  have "doc (snd (route_to_session f s t g)) k = doc (graph_attach f None g) k"
    by (auto simp: doc_def frame_at_route split: option.splits)
  then show ?thesis by simp
qed

lemma doc_active [simp]: "doc (set_route_active f a g) k = doc g k"
  by (auto simp: doc_def split: option.splits)

lemma doc_reroute [simp]: "doc (reroute_session s t g) k = doc g k"
  by (auto simp: doc_def split: option.splits)

lemma doc_merge: "doc (merge_tree t s roots anc g) f = fold nav_doc (tree_loaders f t) (doc g f)"
proof (induction t arbitrary: anc g)
  case (FrameTree k p l cs)
  have children: "doc (fold (\<lambda>c. merge_tree c s roots b) ds h) f
      = fold nav_doc (concat (map (tree_loaders f) ds)) (doc h f)" if "set ds \<subseteq> set cs" for b ds h
    using that FrameTree.IH by (induction ds arbitrary: h) auto
  show ?case by (simp add: Let_def children)
qed

lemma doc_apply:
  "\<forall>k. e \<noteq> Detach k \<Longrightarrow> doc (graph_apply e g) f = fold nav_doc (event_loaders f e) (doc g f)"
  by (cases e) (auto simp: doc_merge route_oopif_def)

lemma doc_run:
  "list_all (\<lambda>e. \<forall>k. e \<noteq> Detach k) es \<Longrightarrow>
   doc (fold graph_apply es g) f = fold nav_doc (concat (map (event_loaders f) es)) (doc g f)"
  by (induction es arbitrary: g) (auto simp: doc_apply)

lemma nav_doc_run:
  "snd (fold nav_doc ls d) = snd d + of_nat (loader_changes (fst d) ls)"
  by (induction ls arbitrary: d) (auto simp: nav_doc_def)

text \<open>
  Over every sequence of events without a detach (frames attached in any order, merged
  trees, routes and reroutes in between), the document epoch of a frame advances by exactly the
  number of times a navigation of that frame brought a loader different from the one before,
  modulo the word size.
\<close>

theorem epoch_counts_loader_changes:
  assumes "list_all (\<lambda>e. \<forall>k. e \<noteq> Detach k) es"
  shows "snd (doc (fold graph_apply es g) f) =
    snd (doc g f) + of_nat (loader_changes (fst (doc g f)) (concat (map (event_loaders f) es)))"
  by (simp add: doc_run[OF assms] nav_doc_run)

theorem epoch_counts_loader_changes_witness:
  "snd (doc (fold graph_apply
      [Navigate ''f'' None ''l1'', Navigate ''f'' None ''l1'', Attach ''c'' (Some ''f''),
       Navigate ''f'' None ''l2''] (new_graph ''S'')) ''f'') = 1"
  using epoch_counts_loader_changes[of "[Navigate ''f'' None ''l1'', Navigate ''f'' None ''l1'',
    Attach ''c'' (Some ''f''), Navigate ''f'' None ''l2'']" "new_graph ''S''" "''f''"]
  by (simp add: doc_def new_graph_def)

subsection \<open>OOPIF routes\<close>

lemma graph_parent_attach:
  "graph_parent k (graph_attach f p g) =
     (if k = f then (case graph_parent f g of None \<Rightarrow> p | Some q \<Rightarrow> Some q) else graph_parent k g)"
  by (cases "frame_at g k") (auto simp: graph_parent_def frame_at_attach attached_record_parent)

lemma graph_parent_route [simp]:
  "graph_parent k (snd (route_to_session f s t g)) = graph_parent k (graph_attach f None g)"
  by (cases "frame_at (graph_attach f None g) f") (auto simp: graph_parent_def frame_at_route)

lemma graph_route_attach:
  "graph_route_session k (graph_attach f p g) =
     (if k = f then Some (case graph_route_session f g of None \<Rightarrow> fg_main_session_id g | Some s \<Rightarrow> s)
      else graph_route_session k g)"
  by (cases "frame_at g k"; cases "frame_at g f")
    (auto simp: graph_route_session_def frame_at_attach attached_record_def new_frame_record_def Let_def)

lemma graph_route_route:
  "graph_route_session k (snd (route_to_session f s t g)) =
     (if k = f then Some s else graph_route_session k g)"
  by (cases "frame_at g k") (auto simp: graph_route_session_def frame_at_route frame_at_attach)

text \<open>
  An OOPIF is routed only when its parent frame is known and routed to the session that
  announced it, the frame has no other parent and still shares its parent's route; on success
  its route is the new session, its parent link is the announced parent, its document is kept
  and no other frame is rerouted; otherwise the graph is unchanged.
\<close>

theorem route_oopif_checked:
  "route_oopif f pf ps s t g =
     (if can_route_oopif f pf ps g then (True, snd (route_oopif f pf ps s t g)) else (False, g)) \<and>
   (can_route_oopif f pf ps g \<longrightarrow>
     (\<exists>p. pf = Some p \<and> ps \<noteq> None \<and> graph_route_session p g = ps \<and>
        (graph_parent f g = None \<or> graph_parent f g = Some p) \<and>
        (f \<in> frame_keys g \<longrightarrow> graph_route_session f g = ps) \<and>
        graph_parent f (snd (route_oopif f pf ps s t g)) = Some p) \<and>
     (\<forall>k. doc (snd (route_oopif f pf ps s t g)) k = doc g k \<and>
        graph_route_session k (snd (route_oopif f pf ps s t g)) =
          (if k = f then Some s else graph_route_session k g)))"
proof (cases "can_route_oopif f pf ps g")
  case True
  then obtain p r where p: "pf = Some p" "frame_at g p = Some r" "ps = Some (fr_route_session_id r)"
    "graph_parent f g = None \<or> graph_parent f g = Some p"
    "f \<in> frame_keys g \<longrightarrow> graph_route_session f g = ps"
    unfolding can_route_oopif_def graph_parent_def graph_route_session_def keys_iff_map_of
    by (fastforce split: option.splits if_splits)
  have "graph_parent f (snd (route_oopif f pf ps s t g)) = Some p"
    using True p(1,4) by (auto simp: route_oopif_def graph_parent_attach)
  moreover have "graph_route_session p g = ps" using p by (simp add: graph_route_session_def)
  ultimately show ?thesis using True p
    by (simp add: route_oopif_def graph_route_route graph_route_attach)
qed (simp add: route_oopif_def)

theorem route_oopif_checked_witness:
  "route_oopif ''x'' (Some ''f'') (Some ''S'') ''T'' ''t'' (graph_attach ''f'' None (new_graph ''S''))
     = (True, snd (route_oopif ''x'' (Some ''f'') (Some ''S'') ''T'' ''t'' (graph_attach ''f'' None (new_graph ''S'')))) \<and>
   graph_parent ''x'' (snd (route_oopif ''x'' (Some ''f'') (Some ''S'') ''T'' ''t''
     (graph_attach ''f'' None (new_graph ''S'')))) = Some ''f''"
  using route_oopif_checked[of "''x''" "Some ''f''" "Some ''S''" "''T''" "''t''" "graph_attach ''f'' None (new_graph ''S'')"]
  by (simp add: can_route_oopif_def frame_at_attach attached_record_def new_frame_record_def new_graph_def Let_def)

end
