(* ===== verification/Json.thy ===== *)
theory Json
  imports Prelude Complex_Main
begin

text \<open>
  JSON values as \<open>serde_json\<close> hands them to the reducers, with the accessors they use. A number
  is the rational value that \<open>Number::as_f64\<close> returns; objects keep their entries in order and
  the first entry of a key is the one that \<open>get\<close> finds (keys of an object are distinct).
\<close>

datatype json =
    JNull
  | JBool bool
  | JNum rat
  | JStr string
  | JArr "json list"
  | JObj "(string \<times> json) list"

fun json_get :: "string \<Rightarrow> json \<Rightarrow> json option" where
  "json_get key (JObj fields) = map_of fields key"
| "json_get key _ = None"

fun json_as_str :: "json \<Rightarrow> string option" where
  "json_as_str (JStr s) = Some s"
| "json_as_str _ = None"

fun json_as_bool :: "json \<Rightarrow> bool option" where
  "json_as_bool (JBool b) = Some b"
| "json_as_bool _ = None"

fun json_as_f64 :: "json \<Rightarrow> rat option" where
  "json_as_f64 (JNum x) = Some x"
| "json_as_f64 _ = None"

fun json_as_object :: "json \<Rightarrow> (string \<times> json) list option" where
  "json_as_object (JObj fields) = Some fields"
| "json_as_object _ = None"

fun json_value_kind :: "json \<Rightarrow> string" where
  "json_value_kind JNull = ''null''"
| "json_value_kind (JBool _) = ''boolean''"
| "json_value_kind (JNum _) = ''number''"
| "json_value_kind (JStr _) = ''string''"
| "json_value_kind (JArr _) = ''array''"
| "json_value_kind (JObj _) = ''object''"

text \<open>\<open>string\<close>, \<open>number\<close> and \<open>boolean\<close> of \<open>network.rs\<close>: a field of an object at its type.\<close>

definition string_field :: "json \<Rightarrow> string \<Rightarrow> string option" where
  "string_field v key = Option.bind (json_get key v) json_as_str"

definition number_field :: "json \<Rightarrow> string \<Rightarrow> rat option" where
  "number_field v key = Option.bind (json_get key v) json_as_f64"

definition boolean_field :: "json \<Rightarrow> string \<Rightarrow> bool option" where
  "boolean_field v key = Option.bind (json_get key v) json_as_bool"

lemma json_as_str_Some: "json_as_str v = Some s \<longleftrightarrow> v = JStr s"
  by (cases v) auto

lemma json_as_bool_Some: "json_as_bool v = Some b \<longleftrightarrow> v = JBool b"
  by (cases v) auto

lemma string_field_Some: "string_field v k = Some s \<longleftrightarrow> json_get k v = Some (JStr s)"
  by (auto simp: string_field_def bind_eq_Some_conv json_as_str_Some)

end
