(* ===== verification/FrameSessions.thy ===== *)
theory FrameSessions
  imports FrameGraph Json Errors
begin

text \<open>
  The session state of a page's frame store (\<open>FrameState\<close> in \<open>src/src/runtime/frame.rs\<close>): the
  frame graph, the CDP sessions that carry it, the child sessions of out-of-process iframes with
  their attach tokens and cancellation tokens, and the main-world execution contexts. A
  \<open>cdpkit\<close> session handle is known by its session id; a cancellation token is a number, and
  cancelling one adds it to the set of cancelled tokens, which every holder of a clone sees.
\<close>

subsection \<open>Session subtrees\<close>

definition collect_step :: "ident \<times> ident \<Rightarrow> ident list \<Rightarrow> ident list" where
  "collect_step entry found =
     (case entry of (session, parent) \<Rightarrow>
        if parent \<in> set found then bt_insert session found else found)"

definition collect_pass :: "(ident \<times> ident) list \<Rightarrow> ident list \<Rightarrow> ident list" where
  "collect_pass parents found = fold collect_step parents found"

lemma collect_pass_Nil [simp]: "collect_pass [] found = found"
  by (simp add: collect_pass_def)

lemma collect_pass_Cons [simp]:
  "collect_pass ((k, p) # parents) found =
     collect_pass parents (if p \<in> set found then bt_insert k found else found)"
  by (simp add: collect_pass_def collect_step_def)

lemma collect_pass_mono: "s \<in> set found \<Longrightarrow> s \<in> set (collect_pass parents found)"
  by (induction parents arbitrary: found) auto

lemma collect_pass_length:
  "length found \<le> length (collect_pass parents found) \<and>
   (length (collect_pass parents found) = length found \<longrightarrow> collect_pass parents found = found)"
proof (induction parents arbitrary: found)
  case (Cons kp parents)
  obtain k p where [simp]: "kp = (k, p)" by (cases kp)
  show ?case
    using Cons.IH[of "bt_insert k found"] Cons.IH[of found] by (auto simp: bt_insert_def)
qed simp

lemma collect_pass_changes:
  "length (collect_pass parents found) \<noteq> length found \<Longrightarrow>
   \<exists>k \<in> keys parents. k \<notin> set found \<and> k \<in> set (collect_pass parents found)"
proof (induction parents arbitrary: found)
  case (Cons kp parents)
  obtain k p where [simp]: "kp = (k, p)" by (cases kp)
  show ?case
  proof (cases "p \<in> set found \<and> k \<notin> set found")
    case True
    then have "k \<in> set (collect_pass parents (bt_insert k found))" by (simp add: collect_pass_mono)
    with True show ?thesis by auto
  next
    case False
    then have "collect_pass (kp # parents) found = collect_pass parents found" by (auto simp: bt_insert_def)
    with Cons.IH[of found] Cons.prems show ?thesis by auto
  qed
qed simp

text \<open>The loop of the code: passes over the map until one adds nothing.\<close>

function collect_loop :: "(ident \<times> ident) list \<Rightarrow> ident list \<Rightarrow> ident list" where
  "collect_loop parents found =
     (let next_found = collect_pass parents found
      in if length next_found = length found then next_found
         else collect_loop parents next_found)"
  by pat_completeness auto
termination
proof (relation "measure (\<lambda>(parents, found). card (keys parents - set found))", goal_cases)
  case (2 parents found next_found)
  then obtain k where "k \<in> keys parents" "k \<notin> set found" "k \<in> set next_found"
    using collect_pass_changes[of parents found] by auto
  moreover have "set found \<subseteq> set next_found" using 2 by (simp add: collect_pass_mono subsetI)
  ultimately have "keys parents - set next_found \<subset> keys parents - set found" by blast
  then show ?case by (simp add: psubset_card_mono)
qed simp

declare collect_loop.simps [simp del]

definition collect_session_subtree :: "(ident \<times> ident) list \<Rightarrow> ident \<Rightarrow> ident list" where
  "collect_session_subtree parents root_session = collect_loop parents [root_session]"

definition session_children :: "(ident \<times> ident) list \<Rightarrow> (ident \<times> ident) set" where
  "session_children parents = {(p, c). (c, p) \<in> set parents}"

lemma collect_pass_step:
  "(c, p) \<in> set parents \<Longrightarrow> p \<in> set found \<Longrightarrow> c \<in> set (collect_pass parents found)"
proof (induction parents arbitrary: found)
  case (Cons kp parents)
  then show ?case by (cases kp) (auto intro: collect_pass_mono)
qed simp

lemma collect_pass_sound:
  "set parents \<subseteq> set all \<Longrightarrow> \<forall>s \<in> set found. (r, s) \<in> (session_children all)\<^sup>* \<Longrightarrow>
   \<forall>s \<in> set (collect_pass parents found). (r, s) \<in> (session_children all)\<^sup>*"
proof (induction parents arbitrary: found)
  case (Cons kp parents)
  obtain k q where [simp]: "kp = (k, q)" by (cases kp)
  have "(r, k) \<in> (session_children all)\<^sup>*" if "q \<in> set found"
  proof -
    have "(q, k) \<in> session_children all" using Cons.prems(1) by (simp add: session_children_def)
    then show ?thesis using Cons.prems(2) that rtrancl_into_rtrancl by metis
  qed
  then have "\<forall>s \<in> set (if q \<in> set found then bt_insert k found else found).
      (r, s) \<in> (session_children all)\<^sup>*"
    using Cons.prems(2) by simp
  then show ?case using Cons.IH Cons.prems(1) by simp
qed simp

lemma bt_wf_collect_pass: "bt_wf found \<Longrightarrow> bt_wf (collect_pass parents found)"
proof (induction parents arbitrary: found)
  case (Cons kp parents)
  then show ?case by (cases kp) simp
qed simp

lemma collect_loop_properties:
  "(\<forall>s \<in> set found. (r, s) \<in> (session_children parents)\<^sup>*) \<Longrightarrow> bt_wf found \<Longrightarrow>
   (\<forall>s \<in> set (collect_loop parents found). (r, s) \<in> (session_children parents)\<^sup>*) \<and>
   bt_wf (collect_loop parents found) \<and> set found \<subseteq> set (collect_loop parents found) \<and>
   (\<forall>(c, p) \<in> set parents. p \<in> set (collect_loop parents found) \<longrightarrow> c \<in> set (collect_loop parents found))"
proof (induction parents found rule: collect_loop.induct)
  case (1 parents found)
  let ?next = "collect_pass parents found"
  show ?case
  proof (cases "length ?next = length found")
    case True
    then have same: "?next = found" using collect_pass_length by blast
    have "collect_loop parents found = found" using same by (subst collect_loop.simps) simp
    moreover have "\<forall>(c, p) \<in> set parents. p \<in> set found \<longrightarrow> c \<in> set found"
      using collect_pass_step[of _ _ parents found] same by auto
    ultimately show ?thesis using 1 by simp
  next
    case False
    then have "collect_loop parents found = collect_loop parents ?next"
      by (subst collect_loop.simps) (simp add: Let_def)
    moreover note 1(1)[OF refl False collect_pass_sound[OF order_refl 1(2)] bt_wf_collect_pass[OF 1(3)]]
    moreover have "set found \<subseteq> set ?next" by (simp add: collect_pass_mono subsetI)
    ultimately show ?thesis by (simp only:) blast
  qed
qed

text \<open>
  C21: the session subtree collected by repeated passes over the parent map is exactly the
  reflexive and transitive closure of the child relation, as an ordered set, whatever order the
  hash map is iterated in and however deep the chain of nested sessions is.
\<close>

theorem collect_subtree_closure:
  "set (collect_session_subtree parents r) = {s. (r, s) \<in> (session_children parents)\<^sup>*} \<and>
   bt_wf (collect_session_subtree parents r)"
proof -
  have start: "\<forall>s \<in> set [r]. (r, s) \<in> (session_children parents)\<^sup>*" "bt_wf [r]" by (simp_all add: bt_wf_def)
  note props = collect_loop_properties[OF start, folded collect_session_subtree_def]
  have "s \<in> set (collect_session_subtree parents r)" if "(r, s) \<in> (session_children parents)\<^sup>*" for s
    using that
  proof (induction rule: rtrancl_induct)
    case base
    then show ?case using props by simp
  next
    case (step p c)
    then have "(c, p) \<in> set parents" by (simp add: session_children_def)
    with props step.IH show ?case by fast
  qed
  with props show ?thesis by blast
qed

subsection \<open>The nearest live parent\<close>

function resolve_loop ::
  "(ident \<times> ident) list \<Rightarrow> ident list \<Rightarrow> ident list \<Rightarrow> ident \<Rightarrow> ident list \<Rightarrow> ident option \<Rightarrow> ident" where
  "resolve_loop parents live removing main visited None = main"
| "resolve_loop parents live removing main visited (Some s) =
     (if s \<in> set visited then main
      else if s \<notin> set removing \<and> s \<in> set live then s
      else resolve_loop parents live removing main (s # visited) (map_of parents s))"
  by pat_completeness auto
termination
proof (relation "measures [\<lambda>(parents, live, removing, main, visited, candidate).
      card (keys parents - set visited), \<lambda>(parents, live, removing, main, visited, candidate).
      if candidate = None then 0 else 1]", goal_cases)
  case (2 parents live removing main visited s)
  show ?case
  proof (cases "s \<in> keys parents")
    case True
    with 2(1) have "keys parents - set (s # visited) \<subset> keys parents - set visited" by auto
    then show ?thesis by (simp add: psubset_card_mono)
  next
    case False
    then have "map_of parents s = None" and "keys parents - set (s # visited) = keys parents - set visited"
      by (auto simp: not_in_keys_iff)
    then show ?thesis by simp
  qed
qed simp

definition resolve_live_parent ::
  "(ident \<times> ident) list \<Rightarrow> ident list \<Rightarrow> ident list \<Rightarrow> ident \<Rightarrow> ident \<Rightarrow> ident" where
  "resolve_live_parent parents live removing session main =
     resolve_loop parents live removing main [session] (map_of parents session)"

text \<open>The \<open>n\<close>-th ancestor of a session along the parent map.\<close>

primrec ancestor :: "(ident \<times> ident) list \<Rightarrow> nat \<Rightarrow> ident \<Rightarrow> ident option" where
  "ancestor parents 0 s = Some s"
| "ancestor parents (Suc n) s = Option.bind (ancestor parents n s) (map_of parents)"

definition usable :: "ident list \<Rightarrow> ident list \<Rightarrow> ident \<Rightarrow> bool" where
  "usable live removing s \<longleftrightarrow> s \<notin> set removing \<and> s \<in> set live"

definition nearest_usable ::
  "(ident \<times> ident) list \<Rightarrow> ident list \<Rightarrow> ident list \<Rightarrow> ident \<Rightarrow> ident \<Rightarrow> bool" where
  "nearest_usable parents live removing s r \<longleftrightarrow>
     (\<exists>n > 0. ancestor parents n s = Some r \<and> usable live removing r \<and>
        (\<forall>m x. 0 < m \<longrightarrow> m < n \<longrightarrow> ancestor parents m s = Some x \<longrightarrow> \<not> usable live removing x))"

definition no_usable ::
  "(ident \<times> ident) list \<Rightarrow> ident list \<Rightarrow> ident list \<Rightarrow> ident \<Rightarrow> bool" where
  "no_usable parents live removing s \<longleftrightarrow>
     (\<forall>n x. ancestor parents n s = Some x \<longrightarrow> \<not> usable live removing x)"

lemma ancestor_closed:
  assumes "\<forall>x \<in> V. case map_of parents x of None \<Rightarrow> True | Some y \<Rightarrow> y \<in> V" "s \<in> V"
  shows "ancestor parents n s = Some x \<Longrightarrow> x \<in> V"
  using assms by (induction n arbitrary: x) (fastforce simp: bind_eq_Some_conv split: option.splits)+

lemma resolve_loop_nearest:
  assumes "\<forall>x \<in> set visited. \<not> usable live removing x"
    and "\<forall>x \<in> set visited. \<forall>y. map_of parents x = Some y \<longrightarrow> y \<in> set visited \<or> candidate = Some y"
    and "\<forall>m. m < n \<longrightarrow> (\<exists>x \<in> set visited. ancestor parents m s = Some x)"
    and "ancestor parents n s = candidate" "s \<in> set visited" "0 < n"
  shows "nearest_usable parents live removing s (resolve_loop parents live removing main visited candidate) \<or>
    resolve_loop parents live removing main visited candidate = main \<and> no_usable parents live removing s"
  using assms
proof (induction parents live removing main visited candidate arbitrary: n rule: resolve_loop.induct)
  case (1 parents live removing main visited)
  have "x \<in> set visited" if "ancestor parents k s = Some x" for k x
    by (rule ancestor_closed[OF _ 1(5) that]) (use 1(2) in \<open>auto split: option.splits\<close>)
  with 1(1) show ?case by (auto simp: no_usable_def)
next
  case (2 parents live removing main visited c)
  show ?case
  proof (cases "c \<in> set visited")
    case True
    have "x \<in> set visited" if "ancestor parents k s = Some x" for k x
      by (rule ancestor_closed[OF _ 2(6) that]) (use 2(3) True in \<open>auto split: option.splits\<close>)
    with 2(2) True show ?thesis by (auto simp: no_usable_def)
  next
    case False
    note fresh = this
    show ?thesis
    proof (cases "usable live removing c")
      case True
      then have "resolve_loop parents live removing main visited (Some c) = c"
        using fresh by (simp add: usable_def)
      moreover have "nearest_usable parents live removing s c"
        unfolding nearest_usable_def
        by (rule exI[of _ n]) (use 2(2,4,5,7) True in \<open>fastforce\<close>)
      ultimately show ?thesis by simp
    next
      case False
      then have eq: "resolve_loop parents live removing main visited (Some c) =
          resolve_loop parents live removing main (c # visited) (map_of parents c)"
        using fresh by (auto simp: usable_def)
      have "m < Suc n \<Longrightarrow> \<exists>x \<in> set (c # visited). ancestor parents m s = Some x" for m
        using 2(4,5) by (cases "m = n") auto
      moreover have "\<forall>x \<in> set (c # visited). \<forall>y. map_of parents x = Some y \<longrightarrow>
          y \<in> set (c # visited) \<or> map_of parents c = Some y"
        using 2(3) by auto
      moreover have "ancestor parents (Suc n) s = map_of parents c" using 2(5) by simp
      ultimately show ?thesis
        unfolding eq using fresh False 2(2,6)
        by (intro 2(1)[of "Suc n"]) (auto simp: usable_def)
    qed
  qed
qed

text \<open>
  rerouting terminates and goes to the nearest ancestor session that is live and not being
  removed; only when the chain of parents has no such session, or runs into a cycle before one,
  does it fall back to the main session. The session itself is among the removed ones, as at the
  call site.
\<close>

theorem resolve_nearest_live:
  assumes "session \<in> set removing"
  shows "nearest_usable parents live removing session (resolve_live_parent parents live removing session main) \<or>
    resolve_live_parent parents live removing session main = main \<and> no_usable parents live removing session"
  unfolding resolve_live_parent_def
  by (rule resolve_loop_nearest[of _ _ _ _ _ 1]) (use assms in \<open>auto simp: usable_def\<close>)

theorem resolve_nearest_live_witness:
  "nearest_usable [(''c'', ''b''), (''b'', ''a''), (''a'', ''main'')] [''a'', ''main''] [''b'', ''c''] ''c'' ''a''"
proof -
  have "nearest_usable [(''c'', ''b''), (''b'', ''a''), (''a'', ''main'')] [''a'', ''main''] [''b'', ''c''] ''c''
      (resolve_live_parent [(''c'', ''b''), (''b'', ''a''), (''a'', ''main'')] [''a'', ''main''] [''b'', ''c''] ''c'' ''main'') \<or>
    resolve_live_parent [(''c'', ''b''), (''b'', ''a''), (''a'', ''main'')] [''a'', ''main''] [''b'', ''c''] ''c'' ''main'' = ''main'' \<and>
    no_usable [(''c'', ''b''), (''b'', ''a''), (''a'', ''main'')] [''a'', ''main''] [''b'', ''c''] ''c''"
    by (rule resolve_nearest_live) simp
  then show ?thesis by (simp add: resolve_live_parent_def)
qed

subsection \<open>Attach dispositions\<close>

datatype session_attach_disposition = AttachNew | AttachIdempotent | AttachConflict

definition classify_session_attach ::
  "(ident \<times> ident) option \<Rightarrow> ident \<Rightarrow> ident \<Rightarrow> ident option \<Rightarrow> session_attach_disposition" where
  "classify_session_attach existing session root_frame parent_session =
     (if parent_session = Some session then AttachConflict
      else (case (existing, parent_session) of
              (None, Some _) \<Rightarrow> AttachNew
            | (None, None) \<Rightarrow> AttachConflict
            | (Some (existing_root, existing_parent), Some parent) \<Rightarrow>
                if existing_root = root_frame \<and> existing_parent = parent then AttachIdempotent
                else AttachConflict
            | (Some _, None) \<Rightarrow> AttachConflict))"

subsection \<open>State\<close>

record main_world_context =
  mw_id :: int
  mw_unique_id :: string

record execution_context =
  ec_frame_id :: ident
  ec_session_id :: ident
  ec_context :: main_world_context

datatype child_session_phase = SpInitializing u64 | SpActive u64 | SpDetached u64

record child_session =
  cs_root_frame_id :: ident
  cs_parent_session_id :: ident
  cs_reducer_cancel :: nat
  cs_phase :: child_session_phase

record frame_state =
  st_graph :: frame_graph
  st_sessions :: "(ident \<times> ident) list"
  st_children :: "(ident \<times> child_session) list"
  st_next_token :: u64
  st_contexts :: "execution_context list"
  st_cancelled :: "nat set"

record frame_route_change =
  rc_frame_id :: ident
  rc_previous_session_id :: ident
  rc_session_id :: ident

record detached_child_sessions =
  dc_route_changes :: "frame_route_change list"
  dc_session_ids :: "ident list"

datatype oopif_attach_start =
    AttachInitialize u64 nat
  | StartIdempotent bool
  | StartConflict
  | ForeignParent
  | RouteUnavailable

abbreviation child_at :: "frame_state \<Rightarrow> ident \<Rightarrow> child_session option" where
  "child_at st \<equiv> map_of (st_children st)"

definition phase_at :: "frame_state \<Rightarrow> ident \<Rightarrow> child_session_phase option" where
  "phase_at st s = map_option cs_phase (child_at st s)"

fun phase_token :: "child_session_phase \<Rightarrow> u64" where
  "phase_token (SpInitializing t) = t"
| "phase_token (SpActive t) = t"
| "phase_token (SpDetached t) = t"

fun is_detached :: "child_session_phase \<Rightarrow> bool" where
  "is_detached (SpDetached _) = True"
| "is_detached _ = False"

fun is_active :: "child_session_phase \<Rightarrow> bool" where
  "is_active (SpActive _) = True"
| "is_active _ = False"

definition routed_session :: "ident \<Rightarrow> frame_state \<Rightarrow> ident option" where
  "routed_session f st = Option.bind (graph_route_session f (st_graph st)) (map_of (st_sessions st))"

subsection \<open>Execution contexts\<close>

definition set_default_context :: "ident \<Rightarrow> ident \<Rightarrow> int \<Rightarrow> string \<Rightarrow> frame_state \<Rightarrow> frame_state" where
  "set_default_context session f i unique st =
     st\<lparr>st_contexts :=
          filter (\<lambda>r. ec_session_id r \<noteq> session \<or> ec_frame_id r \<noteq> f) (st_contexts st)
          @ [\<lparr>ec_frame_id = f, ec_session_id = session,
              ec_context = \<lparr>mw_id = i, mw_unique_id = unique\<rparr>\<rparr>]\<rparr>"

definition default_context :: "ident \<Rightarrow> ident \<Rightarrow> frame_state \<Rightarrow> main_world_context option" where
  "default_context session f st =
     map_option ec_context
       (find (\<lambda>r. ec_session_id r = session \<and> ec_frame_id r = f) (st_contexts st))"

definition remove_context :: "ident \<Rightarrow> int \<Rightarrow> string \<Rightarrow> frame_state \<Rightarrow> frame_state" where
  "remove_context session i unique st =
     st\<lparr>st_contexts :=
          filter (\<lambda>r. ec_session_id r \<noteq> session \<or>
                      (if unique = [] then mw_id (ec_context r) \<noteq> i
                       else mw_unique_id (ec_context r) \<noteq> unique))
            (st_contexts st)\<rparr>"

definition clear_contexts :: "ident \<Rightarrow> frame_state \<Rightarrow> frame_state" where
  "clear_contexts session st =
     st\<lparr>st_contexts := filter (\<lambda>r. ec_session_id r \<noteq> session) (st_contexts st)\<rparr>"

text \<open>
  The deserialisers of the three protocol events belong to \<open>cdpkit\<close> and \<open>serde\<close>; each is a
  parameter that gives the error or the fields the code uses.
\<close>

definition apply_runtime_context_event ::
  "(json \<Rightarrow> string + int \<times> string \<times> json option) \<Rightarrow> (json \<Rightarrow> string + int \<times> string) \<Rightarrow>
   (json \<Rightarrow> string + unit) \<Rightarrow> ident \<Rightarrow> string \<Rightarrow> json \<Rightarrow> frame_state \<Rightarrow>
   (string + bool) \<times> frame_state" where
  "apply_runtime_context_event de_created de_destroyed de_cleared session method params st =
     (if method = ''Runtime.executionContextCreated'' then
        (case de_created params of
           Inl e \<Rightarrow> (Inl e, st)
         | Inr (i, unique, aux) \<Rightarrow>
             let is_default = (Option.bind (Option.bind aux (json_get ''isDefault'')) json_as_bool = Some True);
                 frame = Option.bind (Option.bind aux (json_get ''frameId'')) json_as_str
             in case (is_default, frame) of
                  (True, Some f) \<Rightarrow> (Inr True, set_default_context session f i unique st)
                | _ \<Rightarrow> (Inr False, st))
      else if method = ''Runtime.executionContextDestroyed'' then
        (case de_destroyed params of
           Inl e \<Rightarrow> (Inl e, st)
         | Inr (i, unique) \<Rightarrow> (Inr True, remove_context session i unique st))
      else if method = ''Runtime.executionContextsCleared'' then
        (case de_cleared params of
           Inl e \<Rightarrow> (Inl e, st)
         | Inr _ \<Rightarrow> (Inr True, clear_contexts session st))
      else (Inr False, st))"

subsection \<open>Contexts as a map\<close>

datatype context_event =
    SetContext ident ident int string
  | RemoveContext ident int string
  | ClearContexts ident

primrec context_apply :: "context_event \<Rightarrow> frame_state \<Rightarrow> frame_state" where
  "context_apply (SetContext s f i u) = set_default_context s f i u"
| "context_apply (RemoveContext s i u) = remove_context s i u"
| "context_apply (ClearContexts s) = clear_contexts s"

text \<open>The specification: a partial map from session and frame to the context.\<close>

primrec context_spec ::
  "context_event \<Rightarrow> (ident \<times> ident \<Rightarrow> main_world_context option) \<Rightarrow> ident \<times> ident \<Rightarrow> main_world_context option" where
  "context_spec (SetContext s f i u) m = m((s, f) \<mapsto> \<lparr>mw_id = i, mw_unique_id = u\<rparr>)"
| "context_spec (RemoveContext s i u) m =
     (\<lambda>(s', f). case m (s', f) of
        None \<Rightarrow> None
      | Some c \<Rightarrow>
          if s' = s \<and> (if u = [] then mw_id c = i else mw_unique_id c = u) then None else Some c)"
| "context_spec (ClearContexts s) m = (\<lambda>(s', f). if s' = s then None else m (s', f))"

definition context_abs :: "frame_state \<Rightarrow> ident \<times> ident \<Rightarrow> main_world_context option" where
  "context_abs st = (\<lambda>(s, f). default_context s f st)"

abbreviation keyed :: "execution_context list \<Rightarrow> ((ident \<times> ident) \<times> execution_context) list" where
  "keyed \<equiv> map (\<lambda>r. ((ec_session_id r, ec_frame_id r), r))"

definition contexts_wf :: "frame_state \<Rightarrow> bool" where
  "contexts_wf st \<longleftrightarrow> wf_map (keyed (st_contexts st))"

lemma find_keyed:
  "find (\<lambda>r. ec_session_id r = s \<and> ec_frame_id r = f) rs = map_of (keyed rs) (s, f)"
  by (induction rs) auto

lemma context_abs_keyed:
  "context_abs st (s, f) = map_option ec_context (map_of (keyed (st_contexts st)) (s, f))"
  by (simp add: context_abs_def default_context_def find_keyed)

lemma keyed_filter: "keyed (filter P rs) = filter (\<lambda>(k, r). P r) (keyed rs)"
  by (induction rs) auto

lemma contexts_wf_apply: "contexts_wf st \<Longrightarrow> contexts_wf (context_apply e st)"
  by (cases e)
    (auto simp: contexts_wf_def set_default_context_def remove_context_def clear_contexts_def
      comp_def distinct_map_filter)

lemma context_refines_step:
  assumes "contexts_wf st"
  shows "context_abs (context_apply e st) = context_spec e (context_abs st)"
proof (rule ext, clarify)
  fix s f
  note wf = assms[unfolded contexts_wf_def]
  show "context_abs (context_apply e st) (s, f) = context_spec e (context_abs st) (s, f)"
    by (cases e; cases "map_of (keyed (st_contexts st)) (s, f)")
      (auto simp: context_abs_keyed set_default_context_def remove_context_def clear_contexts_def
        keyed_filter map_of_filter_wf[OF wf] map_add_def dest!: map_of_SomeD)
qed

interpretation context_runs: event_machine context_apply contexts_wf
  by unfold_locales (rule contexts_wf_apply)

text \<open>
  The list of execution contexts refines a partial map from session and frame to the
  main-world context: over every sequence of context events, the context found for a frame is the
  one of the map in which a created context overrides, a destroyed one (matched by its unique id,
  or by its id when the unique id is empty) is removed, and a cleared session loses all.
\<close>

theorem contexts_refine_map:
  assumes "contexts_wf st"
  shows "context_abs (fold context_apply es st) = fold context_spec es (context_abs st)"
  using assms
proof (induction es arbitrary: st)
  case (Cons e es)
  then show ?case using Cons.IH[OF contexts_wf_apply[OF Cons.prems]] by (simp add: context_refines_step)
qed simp

subsection \<open>Attaching a child session\<close>

text \<open>
  A new disposition needs a parent session, so the \<open>expect\<close> of the code on it cannot fail: the
  \<open>None\<close> branch below is unreachable. The token counter wraps (\<open>wrapping_add\<close>).
\<close>

definition begin_oopif_attach ::
  "ident \<Rightarrow> ident \<Rightarrow> ident option \<Rightarrow> ident option \<Rightarrow> nat \<Rightarrow> frame_state \<Rightarrow>
   oopif_attach_start \<times> frame_state" where
  "begin_oopif_attach session root_frame parent_frame parent_session cancel st =
     (let existing = map_option (\<lambda>c. (cs_root_frame_id c, cs_parent_session_id c)) (child_at st session)
      in case classify_session_attach existing session root_frame parent_session of
           AttachIdempotent \<Rightarrow>
             (StartIdempotent (case child_at st session of None \<Rightarrow> False | Some c \<Rightarrow> is_active (cs_phase c)), st)
         | AttachConflict \<Rightarrow> (StartConflict, st)
         | AttachNew \<Rightarrow>
             if \<not> (case Option.bind parent_frame (frame_at (st_graph st)) of
                     None \<Rightarrow> False
                   | Some parent \<Rightarrow> parent_session = Some (fr_route_session_id parent))
             then (ForeignParent, st)
             else if \<not> can_route_oopif root_frame parent_frame parent_session (st_graph st)
             then (RouteUnavailable, st)
             else
               let token = st_next_token st + 1
               in (AttachInitialize token cancel,
                   st\<lparr>st_next_token := token,
                      st_children :=
                        AList.update session
                          \<lparr>cs_root_frame_id = root_frame,
                           cs_parent_session_id = (case parent_session of None \<Rightarrow> [] | Some p \<Rightarrow> p),
                           cs_reducer_cancel = cancel, cs_phase = SpInitializing token\<rparr>
                          (st_children st)\<rparr>))"

definition is_initializing :: "ident \<Rightarrow> u64 \<Rightarrow> frame_state \<Rightarrow> bool" where
  "is_initializing session token st \<longleftrightarrow> phase_at st session = Some (SpInitializing token)"

definition set_phase :: "ident \<Rightarrow> child_session_phase \<Rightarrow> frame_state \<Rightarrow> frame_state" where
  "set_phase session ph st =
     st\<lparr>st_children := map_modify session (\<lambda>c. c\<lparr>cs_phase := ph\<rparr>) (st_children st)\<rparr>"

definition cancel_child :: "ident \<Rightarrow> frame_state \<Rightarrow> frame_state" where
  "cancel_child session st =
     (case child_at st session of
        None \<Rightarrow> st
      | Some c \<Rightarrow> st\<lparr>st_cancelled := insert (cs_reducer_cancel c) (st_cancelled st)\<rparr>)"

definition activate_oopif_attach :: "ident \<Rightarrow> u64 \<Rightarrow> frame_state \<Rightarrow> bool \<times> frame_state" where
  "activate_oopif_attach session token st =
     (case child_at st session of
        None \<Rightarrow> (False, st)
      | Some c \<Rightarrow>
          if cs_phase c \<noteq> SpInitializing token then (False, st)
          else (True, set_phase session (SpActive token) st))"

definition abandon_oopif_attach :: "ident \<Rightarrow> u64 \<Rightarrow> frame_state \<Rightarrow> bool \<times> frame_state" where
  "abandon_oopif_attach session token st =
     (case child_at st session of
        None \<Rightarrow> (False, st)
      | Some c \<Rightarrow>
          if cs_phase c \<noteq> SpInitializing token then (False, st)
          else (True, set_phase session (SpDetached token) (cancel_child session st)))"

definition acknowledge_detached :: "ident \<Rightarrow> u64 \<Rightarrow> frame_state \<Rightarrow> bool \<times> frame_state" where
  "acknowledge_detached session token st =
     (if phase_at st session \<noteq> Some (SpDetached token) then (False, st)
      else (True, st\<lparr>st_children := AList.delete session (st_children st)\<rparr>))"

definition acknowledge_oopif_initialization :: "ident \<Rightarrow> u64 \<Rightarrow> frame_state \<Rightarrow> frame_state" where
  "acknowledge_oopif_initialization session token st =
     snd (acknowledge_detached session token (snd (abandon_oopif_attach session token st)))"

text \<open>
  The commit of a prepared route: the critical section of \<open>initialize_oopif\<close>. The activation
  stands in a \<open>debug_assert!\<close>, whose argument is evaluated only when debug assertions are
  compiled in; \<open>debug\<close> says whether they are. The frame tree comes from the new session.
\<close>

definition commit_oopif ::
  "bool \<Rightarrow> ident \<Rightarrow> ident option \<Rightarrow> ident option \<Rightarrow> ident \<Rightarrow> ident \<Rightarrow> u64 \<Rightarrow> frame_tree \<Rightarrow> ident list \<Rightarrow>
   frame_state \<Rightarrow> ident option option \<times> frame_state" where
  "commit_oopif debug f parent_frame parent_session session target token tree provisional_roots st =
     (let previous_route = graph_route_session f (st_graph st)
      in case route_oopif f parent_frame parent_session session target (st_graph st) of
           (True, g1) \<Rightarrow>
             let g2 = merge_tree tree session provisional_roots False g1;
                 g3 = snd (route_to_session f session (Some target) g2);
                 st1 = st\<lparr>st_graph := g3, st_sessions := AList.update session session (st_sessions st)\<rparr>
             in (Some previous_route,
                 if debug then snd (activate_oopif_attach session token st1) else st1)
         | (False, g1) \<Rightarrow> (None, snd (abandon_oopif_attach session token (st\<lparr>st_graph := g1\<rparr>))))"

subsection \<open>Detaching a child session\<close>

definition live_parents :: "frame_state \<Rightarrow> (ident \<times> ident) list" where
  "live_parents st =
     map (\<lambda>(s, c). (s, cs_parent_session_id c))
       (filter (\<lambda>(s, c). \<not> is_detached (cs_phase c)) (st_children st))"

definition reroute_removed ::
  "(ident \<times> ident) list \<Rightarrow> ident list \<Rightarrow> ident list \<Rightarrow> ident \<Rightarrow> frame_graph \<Rightarrow> frame_graph" where
  "reroute_removed parents live removing session g =
     reroute_session session
       (resolve_live_parent parents live removing session (fg_main_session_id g)) g"

definition drop_session :: "ident \<Rightarrow> frame_state \<Rightarrow> frame_state" where
  "drop_session session st =
     (let st1 = clear_contexts session (st\<lparr>st_sessions := AList.delete session (st_sessions st)\<rparr>)
      in case phase_at st1 session of
           Some (SpInitializing token) \<Rightarrow>
             set_phase session (SpDetached token) (cancel_child session st1)
         | Some (SpActive _) \<Rightarrow>
             (cancel_child session st1)\<lparr>st_children := AList.delete session (st_children st1)\<rparr>
         | _ \<Rightarrow> st1)"

definition detach_child_session :: "ident \<Rightarrow> frame_state \<Rightarrow> detached_child_sessions \<times> frame_state" where
  "detach_child_session session st =
     (if \<not> (case phase_at st session of None \<Rightarrow> False | Some ph \<Rightarrow> \<not> is_detached ph)
      then (\<lparr>dc_route_changes = [], dc_session_ids = []\<rparr>, st)
      else
        let routes_before = map (\<lambda>(f, r). (f, fr_route_session_id r)) (fg_frames (st_graph st));
            parents = live_parents st;
            removing = collect_session_subtree parents session;
            live = fold bt_insert (map fst (st_sessions st)) [fg_main_session_id (st_graph st)];
            g = fold (reroute_removed parents live removing) removing (st_graph st);
            st1 = fold drop_session removing (st\<lparr>st_graph := g\<rparr>);
            changes =
              List.map_filter
                (\<lambda>(f, r). case map_of routes_before f of
                   None \<Rightarrow> None
                 | Some previous \<Rightarrow>
                     if previous \<noteq> fr_route_session_id r
                     then Some \<lparr>rc_frame_id = f, rc_previous_session_id = previous,
                                rc_session_id = fr_route_session_id r\<rparr>
                     else None)
                (fg_frames (st_graph st1))
        in (\<lparr>dc_route_changes = changes, dc_session_ids = removing\<rparr>, st1))"

subsection \<open>Single operations\<close>

lemma phase_at_None [simp]: "phase_at st s = None \<longleftrightarrow> child_at st s = None"
  by (simp add: phase_at_def)

lemma child_at_set_phase [simp]:
  "child_at (set_phase s ph st) k = (if k = s then map_option (\<lambda>c. c\<lparr>cs_phase := ph\<rparr>) (child_at st s) else child_at st k)"
  by (simp add: set_phase_def)

lemma set_phase_simps [simp]:
  "st_graph (set_phase s ph st) = st_graph st" "st_sessions (set_phase s ph st) = st_sessions st"
  "st_contexts (set_phase s ph st) = st_contexts st" "st_cancelled (set_phase s ph st) = st_cancelled st"
  "st_next_token (set_phase s ph st) = st_next_token st"
  "wf_map (st_children (set_phase s ph st)) = wf_map (st_children st)"
  by (simp_all add: set_phase_def)

lemma cancel_child_simps [simp]:
  "st_graph (cancel_child s st) = st_graph st" "st_sessions (cancel_child s st) = st_sessions st"
  "st_contexts (cancel_child s st) = st_contexts st" "st_children (cancel_child s st) = st_children st"
  "st_next_token (cancel_child s st) = st_next_token st"
  by (simp_all add: cancel_child_def split: option.splits)

lemma clear_contexts_simps [simp]:
  "st_graph (clear_contexts s st) = st_graph st" "st_sessions (clear_contexts s st) = st_sessions st"
  "st_children (clear_contexts s st) = st_children st" "st_cancelled (clear_contexts s st) = st_cancelled st"
  "st_next_token (clear_contexts s st) = st_next_token st"
  by (simp_all add: clear_contexts_def)

definition token_at :: "frame_state \<Rightarrow> ident \<Rightarrow> u64 option" where
  "token_at st s = map_option phase_token (phase_at st s)"

lemma token_at_child: "token_at st s = map_option (phase_token \<circ> cs_phase) (child_at st s)"
  by (simp add: token_at_def phase_at_def option.map_comp)

interpretation activate_guarded: token_guarded token_at "\<lambda>s t st. snd (activate_oopif_attach s t st)"
  by unfold_locales
    (auto simp: activate_oopif_attach_def token_at_child split: option.splits)

interpretation abandon_guarded: token_guarded token_at "\<lambda>s t st. snd (abandon_oopif_attach s t st)"
  by unfold_locales
    (auto simp: abandon_oopif_attach_def token_at_child split: option.splits)

interpretation acknowledge_guarded: token_guarded token_at "\<lambda>s t st. snd (acknowledge_detached s t st)"
  by unfold_locales
    (auto simp: acknowledge_detached_def token_at_child phase_at_def split: option.splits)

subsection \<open>Dropping a set of sessions\<close>

definition dropped :: "child_session \<Rightarrow> child_session option" where
  "dropped c =
     (case cs_phase c of
        SpInitializing t \<Rightarrow> Some (c\<lparr>cs_phase := SpDetached t\<rparr>)
      | SpActive t \<Rightarrow> None
      | SpDetached t \<Rightarrow> Some c)"

definition live_cancel :: "frame_state \<Rightarrow> ident \<Rightarrow> nat set" where
  "live_cancel st s =
     {cs_reducer_cancel c |c. child_at st s = Some c \<and> \<not> is_detached (cs_phase c)}"

lemma dropped_idem [simp]: "Option.bind (dropped c) dropped = dropped c"
  by (auto simp: dropped_def split: child_session_phase.splits)

lemma child_at_drop:
  "child_at (drop_session s st) k = (if k = s then Option.bind (child_at st s) dropped else child_at st k)"
  by (auto simp: drop_session_def Let_def phase_at_def dropped_def
      split: option.splits child_session_phase.splits)

lemma drop_session_simps [simp]:
  "st_graph (drop_session s st) = st_graph st" "st_sessions (drop_session s st) = AList.delete s (st_sessions st)"
  "st_contexts (drop_session s st) = filter (\<lambda>r. ec_session_id r \<noteq> s) (st_contexts st)"
  "st_next_token (drop_session s st) = st_next_token st"
  "wf_map (st_children st) \<Longrightarrow> wf_map (st_children (drop_session s st))"
  by (auto simp: drop_session_def clear_contexts_def Let_def split: option.splits child_session_phase.splits)

lemma cancelled_drop: "st_cancelled (drop_session s st) = st_cancelled st \<union> live_cancel st s"
  by (auto simp: drop_session_def Let_def phase_at_def live_cancel_def cancel_child_def
      split: option.splits child_session_phase.splits)

lemma drop_sessions:
  "child_at (fold drop_session xs st) k =
     (if k \<in> set xs then Option.bind (child_at st k) dropped else child_at st k)"
  by (induction xs arbitrary: st) (auto simp: child_at_drop)

lemma drop_sessions_simps [simp]:
  "st_graph (fold drop_session xs st) = st_graph st"
  "keys (st_sessions (fold drop_session xs st)) = keys (st_sessions st) - set xs"
  "st_contexts (fold drop_session xs st) = filter (\<lambda>r. ec_session_id r \<notin> set xs) (st_contexts st)"
  "st_next_token (fold drop_session xs st) = st_next_token st"
  "wf_map (st_children st) \<Longrightarrow> wf_map (st_children (fold drop_session xs st))"
  by (induction xs arbitrary: st) (auto simp: conj_commute)

lemma cancelled_drops:
  "st_cancelled (fold drop_session xs st) \<supseteq> st_cancelled st \<union> (\<Union>s \<in> set xs. live_cancel st s)"
proof (induction xs arbitrary: st)
  case (Cons x xs)
  have same: "live_cancel (drop_session x st) s = live_cancel st s" if "s \<noteq> x" for s
    using that by (simp add: live_cancel_def child_at_drop)
  have "live_cancel st s \<subseteq> (\<Union>s \<in> set xs. live_cancel (drop_session x st) s) \<union> live_cancel st x"
    if "s \<in> set xs" for s
  proof (cases "s = x")
    case False
    then have "live_cancel st s = live_cancel (drop_session x st) s" by (rule same[symmetric])
    also have "\<dots> \<subseteq> (\<Union>s \<in> set xs. live_cancel (drop_session x st) s)" using that by (rule UN_upper)
    finally show ?thesis by (rule le_supI1)
  qed simp
  then have "(\<Union>s \<in> set xs. live_cancel st s) \<subseteq>
      (\<Union>s \<in> set xs. live_cancel (drop_session x st) s) \<union> live_cancel st x"
    by (rule UN_least)
  with Cons.IH[of "drop_session x st"] show ?case
    unfolding cancelled_drop fold_Cons list.set UN_insert o_apply by blast
qed simp

lemma cancelled_drops_mono: "c \<in> st_cancelled st \<Longrightarrow> c \<in> st_cancelled (fold drop_session xs st)"
  using cancelled_drops by blast

subsection \<open>Rerouting a set of sessions\<close>

lemma resolve_not_removed:
  "x \<in> set removing \<Longrightarrow> main \<notin> set removing \<Longrightarrow> resolve_live_parent parents live removing x main \<notin> set removing"
  using resolve_loop_nearest[of "[x]" live removing parents "map_of parents x" 1 x main]
  by (auto simp: usable_def nearest_usable_def resolve_live_parent_def)

lemma main_session_reroutes [simp]:
  "fg_main_session_id (fold (reroute_removed ps live rm) xs g) = fg_main_session_id g"
  by (induction xs arbitrary: g) (auto simp: reroute_removed_def)

lemma reroute_removed_all:
  assumes "fg_main_session_id g \<notin> set rm" "set xs \<subseteq> set rm"
  shows "frame_at (fold (reroute_removed ps live rm) xs g) k =
    map_option (\<lambda>r. if fr_route_session_id r \<in> set xs
                   then r\<lparr>fr_route_session_id := resolve_live_parent ps live rm (fr_route_session_id r) (fg_main_session_id g),
                          fr_route_target_id := None\<rparr> else r) (frame_at g k)"
  using assms
proof (induction xs arbitrary: g)
  case (Cons x xs)
  let ?g = "reroute_removed ps live rm x g"
  have main: "fg_main_session_id ?g = fg_main_session_id g" by (simp add: reroute_removed_def)
  have "resolve_live_parent ps live rm x (fg_main_session_id g) \<notin> set rm"
    using Cons.prems by (intro resolve_not_removed) auto
  then have fresh: "resolve_live_parent ps live rm x (fg_main_session_id g) \<notin> set xs" using Cons.prems by auto
  show ?case using Cons.IH[of ?g] Cons.prems fresh
    by (cases "frame_at g k") (auto simp: main, auto simp: reroute_removed_def)
qed (simp add: option.map_ident)

lemma keys_reroute_removed [simp]:
  "frame_keys (fold (reroute_removed ps live rm) xs g) = frame_keys g"
  "wf_map (fg_frames (fold (reroute_removed ps live rm) xs g)) = wf_map (fg_frames g)"
  by (induction xs arbitrary: g) (simp_all add: reroute_removed_def)

definition removed_sessions :: "ident \<Rightarrow> frame_state \<Rightarrow> ident list" where
  "removed_sessions s st = collect_session_subtree (live_parents st) s"

definition fallback_session :: "ident \<Rightarrow> frame_state \<Rightarrow> ident \<Rightarrow> ident" where
  "fallback_session s st x =
     resolve_live_parent (live_parents st)
       (fold bt_insert (map fst (st_sessions st)) [fg_main_session_id (st_graph st)])
       (removed_sessions s st) x (fg_main_session_id (st_graph st))"

definition attached_child :: "ident \<Rightarrow> frame_state \<Rightarrow> bool" where
  "attached_child s st \<longleftrightarrow> (case phase_at st s of None \<Rightarrow> False | Some ph \<Rightarrow> \<not> is_detached ph)"

lemma detach_child_session_eq:
  assumes "attached_child s st"
  shows "dc_session_ids (fst (detach_child_session s st)) = removed_sessions s st"
    and "snd (detach_child_session s st) =
      fold drop_session (removed_sessions s st)
        (st\<lparr>st_graph := fold (reroute_removed (live_parents st)
             (fold bt_insert (map fst (st_sessions st)) [fg_main_session_id (st_graph st)])
             (removed_sessions s st)) (removed_sessions s st) (st_graph st)\<rparr>)"
  using assms by (auto simp: detach_child_session_def attached_child_def removed_sessions_def Let_def)

lemma detach_child_session_noop:
  "\<not> attached_child s st \<Longrightarrow> snd (detach_child_session s st) = st"
  by (simp add: detach_child_session_def attached_child_def)

lemma removed_sessions_root: "s \<in> set (removed_sessions s st)"
  using collect_subtree_closure[of "live_parents st" s] by (simp add: removed_sessions_def)

lemma fallback_not_removed:
  "x \<in> set (removed_sessions s st) \<Longrightarrow> fg_main_session_id (st_graph st) \<notin> set (removed_sessions s st) \<Longrightarrow>
   fallback_session s st x \<notin> set (removed_sessions s st)"
  unfolding fallback_session_def by (rule resolve_not_removed)

text \<open>
  when a child session goes away, its whole subtree of live child sessions goes with it: no
  frame stays routed to a removed session, and each such frame is routed to the nearest live
  session above the one that carried it; no handle and no execution context of a removed session
  is left, none of them is still initializing or active, and the reducers of those that were are
  cancelled; frames, sessions, contexts and children outside the subtree are untouched.
\<close>

theorem detach_child_session_clean:
  assumes "attached_child s st" "fg_main_session_id (st_graph st) \<notin> set (removed_sessions s st)"
    and "st' = snd (detach_child_session s st)" and "R = set (removed_sessions s st)"
  shows "s \<in> R \<and>
    (\<forall>f. graph_route_session f (st_graph st') =
       map_option (\<lambda>x. if x \<in> R then fallback_session s st x else x) (graph_route_session f (st_graph st)) \<and>
       (\<forall>x \<in> R. graph_route_session f (st_graph st') \<noteq> Some x)) \<and>
    keys (st_sessions st') = keys (st_sessions st) - R \<and>
    st_contexts st' = filter (\<lambda>r. ec_session_id r \<notin> R) (st_contexts st) \<and>
    (\<forall>x. if x \<in> R then \<not> attached_child x st' \<and> live_cancel st x \<subseteq> st_cancelled st'
         else child_at st' x = child_at st x)"
proof (intro conjI allI)
  let ?g = "fold (reroute_removed (live_parents st)
             (fold bt_insert (map fst (st_sessions st)) [fg_main_session_id (st_graph st)])
             (removed_sessions s st)) (removed_sessions s st) (st_graph st)"
  have st': "st' = fold drop_session (removed_sessions s st) (st\<lparr>st_graph := ?g\<rparr>)"
    unfolding assms(3) by (rule detach_child_session_eq(2)[OF assms(1)])
  show "s \<in> R" unfolding assms(4) by (rule removed_sessions_root)
  fix f
  show routes: "graph_route_session f (st_graph st') =
       map_option (\<lambda>x. if x \<in> R then fallback_session s st x else x) (graph_route_session f (st_graph st))"
    unfolding st' assms(4)
    by (cases "frame_at (st_graph st) f")
      (simp_all add: graph_route_session_def reroute_removed_all[OF assms(2) order_refl] fallback_session_def)
  show "\<forall>x \<in> R. graph_route_session f (st_graph st') \<noteq> Some x"
    using fallback_not_removed[OF _ assms(2)] unfolding routes assms(4) by auto
next
  let ?st = "st\<lparr>st_graph := fold (reroute_removed (live_parents st)
             (fold bt_insert (map fst (st_sessions st)) [fg_main_session_id (st_graph st)])
             (removed_sessions s st)) (removed_sessions s st) (st_graph st)\<rparr>"
  have st': "st' = fold drop_session (removed_sessions s st) ?st"
    unfolding assms(3) by (rule detach_child_session_eq(2)[OF assms(1)])
  show "keys (st_sessions st') = keys (st_sessions st) - R"
    "st_contexts st' = filter (\<lambda>r. ec_session_id r \<notin> R) (st_contexts st)"
    unfolding st' assms(4) by simp_all
  fix x
  show "if x \<in> R then \<not> attached_child x st' \<and> live_cancel st x \<subseteq> st_cancelled st'
        else child_at st' x = child_at st x"
  proof (cases "x \<in> R")
    case True
    have "live_cancel ?st x \<subseteq> st_cancelled st'"
      using cancelled_drops[of ?st "removed_sessions s st"] True unfolding st' assms(4) by blast
    moreover have "\<not> attached_child x st'"
      using True unfolding st' assms(4)
      by (cases "child_at st x")
        (auto simp: attached_child_def phase_at_def drop_sessions dropped_def split: child_session_phase.splits)
    ultimately show ?thesis using True by (simp add: live_cancel_def)
  next
    case False
    then show ?thesis unfolding st' assms(4) by (simp add: drop_sessions)
  qed
qed

subsection \<open>Claims and cancellation over event sequences\<close>

datatype session_event =
    BeginAttach ident ident "ident option" "ident option" nat
  | CommitAttach bool ident "ident option" "ident option" ident ident u64 frame_tree "ident list"
  | AbandonAttach ident u64
  | AcknowledgeAttach ident u64
  | AcknowledgeInit ident u64
  | DetachSession ident
  | GraphEvent graph_event

record session_system =
  ss_state :: frame_state
  ss_claims :: "(ident \<times> u64 \<times> nat) list"

fun session_apply :: "session_event \<Rightarrow> session_system \<Rightarrow> session_system" where
  "session_apply (BeginAttach s root_frame pf ps cancel) y =
     (case begin_oopif_attach s root_frame pf ps cancel (ss_state y) of
        (AttachInitialize token c, st) \<Rightarrow> y\<lparr>ss_state := st, ss_claims := (s, token, c) # ss_claims y\<rparr>
      | (_, st) \<Rightarrow> y\<lparr>ss_state := st\<rparr>)"
| "session_apply (CommitAttach debug f pf ps s target token tree roots) y =
     y\<lparr>ss_state := snd (commit_oopif debug f pf ps s target token tree roots (ss_state y))\<rparr>"
| "session_apply (AbandonAttach s token) y = y\<lparr>ss_state := snd (abandon_oopif_attach s token (ss_state y))\<rparr>"
| "session_apply (AcknowledgeAttach s token) y = y\<lparr>ss_state := snd (acknowledge_detached s token (ss_state y))\<rparr>"
| "session_apply (AcknowledgeInit s token) y =
     y\<lparr>ss_state := acknowledge_oopif_initialization s token (ss_state y)\<rparr>"
| "session_apply (DetachSession s) y = y\<lparr>ss_state := snd (detach_child_session s (ss_state y))\<rparr>"
| "session_apply (GraphEvent e) y = y\<lparr>ss_state := (ss_state y)\<lparr>st_graph := graph_apply e (st_graph (ss_state y))\<rparr>\<rparr>"

definition init_sessions :: "ident \<Rightarrow> session_system" where
  "init_sessions main =
     \<lparr>ss_state = \<lparr>st_graph = new_graph main, st_sessions = [(main, main)], st_children = [],
        st_next_token = 0, st_contexts = [], st_cancelled = {}\<rparr>, ss_claims = []\<rparr>"

theorem contexts_refine_map_witness:
  "default_context ''S'' ''f''
     (fold context_apply [SetContext ''S'' ''f'' 1 ''u1'', SetContext ''S'' ''f'' 2 ''u2'', RemoveContext ''S'' 1 ''u1'']
       (ss_state (init_sessions ''S''))) = Some \<lparr>mw_id = 2, mw_unique_id = ''u2''\<rparr>"
proof -
  have "context_abs (fold context_apply [SetContext ''S'' ''f'' 1 ''u1'', SetContext ''S'' ''f'' 2 ''u2'', RemoveContext ''S'' 1 ''u1'']
      (ss_state (init_sessions ''S''))) =
    fold context_spec [SetContext ''S'' ''f'' 1 ''u1'', SetContext ''S'' ''f'' 2 ''u2'', RemoveContext ''S'' 1 ''u1'']
      (context_abs (ss_state (init_sessions ''S'')))"
    by (rule contexts_refine_map) (simp add: contexts_wf_def init_sessions_def)
  then show ?thesis by (auto simp: context_abs_def fun_eq_iff dest: spec[of _ "''S''"])
qed

text \<open>A claim holds its entry while the entry carries its token and has not been detached.\<close>

definition holds_entry :: "frame_state \<Rightarrow> ident \<times> u64 \<times> nat \<Rightarrow> bool" where
  "holds_entry st claim =
     (case claim of (s, token, cancel) \<Rightarrow>
        (case child_at st s of
           None \<Rightarrow> False
         | Some c \<Rightarrow> cs_reducer_cancel c = cancel \<and> cs_phase c \<in> {SpInitializing token, SpActive token}))"

definition claim_settled :: "frame_state \<Rightarrow> ident \<times> u64 \<times> nat \<Rightarrow> bool" where
  "claim_settled st claim \<longleftrightarrow> snd (snd claim) \<in> st_cancelled st \<or> holds_entry st claim"

definition sessions_inv :: "session_system \<Rightarrow> bool" where
  "sessions_inv y \<longleftrightarrow> list_all (claim_settled (ss_state y)) (ss_claims y)"

text \<open>What an operation may do to the entries: keep the claims settled.\<close>

definition settles :: "frame_state \<Rightarrow> frame_state \<Rightarrow> bool" where
  "settles st st' \<longleftrightarrow> (\<forall>claim. claim_settled st claim \<longrightarrow> claim_settled st' claim)"

lemma settles_refl [simp]: "settles st st"
  by (simp add: settles_def)

lemma settles_trans: "settles st st1 \<Longrightarrow> settles st1 st2 \<Longrightarrow> settles st st2"
  by (simp add: settles_def)

lemma settles_same:
  "st_children st' = st_children st \<Longrightarrow> st_cancelled st' = st_cancelled st \<Longrightarrow> settles st st'"
  by (simp add: settles_def claim_settled_def holds_entry_def)

lemma settles_activate: "settles st (snd (activate_oopif_attach s t st))"
  by (auto simp: settles_def claim_settled_def holds_entry_def activate_oopif_attach_def split: option.splits)

lemma settles_abandon: "settles st (snd (abandon_oopif_attach s t st))"
  by (auto simp: settles_def claim_settled_def holds_entry_def abandon_oopif_attach_def cancel_child_def
      split: option.splits)

lemma settles_acknowledge: "settles st (snd (acknowledge_detached s t st))"
  by (auto simp: settles_def claim_settled_def holds_entry_def acknowledge_detached_def phase_at_def
      split: option.splits)

lemma settles_begin: "settles st (snd (begin_oopif_attach s f pf ps c st))"
  by (auto simp: settles_def claim_settled_def holds_entry_def begin_oopif_attach_def
      classify_session_attach_def Let_def split: option.splits session_attach_disposition.splits if_splits)

lemma settles_drop: "settles st (drop_session s st)"
  by (auto simp: settles_def claim_settled_def holds_entry_def child_at_drop cancelled_drop dropped_def
      live_cancel_def split: option.splits child_session_phase.splits)

lemma settles_drops: "settles st (fold drop_session xs st)"
  by (induction xs arbitrary: st) (auto intro: settles_trans settles_drop)

lemma settles_detach: "settles st (snd (detach_child_session s st))"
proof (cases "attached_child s st")
  case True
  show ?thesis
    unfolding detach_child_session_eq(2)[OF True]
    by (rule settles_trans[OF settles_same settles_drops]) simp_all
qed (simp add: detach_child_session_noop)

lemma settles_commit: "settles st (snd (commit_oopif d f pf ps s tg t tree roots st))"
proof (cases "route_oopif f pf ps s tg (st_graph st)")
  case (Pair ok g1)
  show ?thesis
  proof (cases ok)
    case True
    with Pair show ?thesis
      by (cases d)
        (auto simp: commit_oopif_def Let_def intro: settles_same settles_trans[OF settles_same settles_activate])
  next
    case False
    with Pair show ?thesis
      by (auto simp: commit_oopif_def Let_def intro: settles_trans[OF settles_same settles_abandon])
  qed
qed

lemma begin_claim_settled:
  "begin_oopif_attach s f pf ps c st = (AttachInitialize t c', st') \<Longrightarrow> claim_settled st' (s, t, c')"
  by (auto simp: begin_oopif_attach_def Let_def claim_settled_def holds_entry_def
      split: session_attach_disposition.splits if_splits option.splits)

lemma sessions_inv_settles:
  "sessions_inv y \<Longrightarrow> settles (ss_state y) st' \<Longrightarrow> sessions_inv (y\<lparr>ss_state := st'\<rparr>)"
  by (auto simp: sessions_inv_def settles_def list_all_iff)

lemma sessions_inv_apply: "sessions_inv y \<Longrightarrow> sessions_inv (session_apply e y)"
proof (cases e)
  case (BeginAttach s f pf ps c)
  assume inv: "sessions_inv y"
  obtain r st where b: "begin_oopif_attach s f pf ps c (ss_state y) = (r, st)" by fastforce
  have "settles (ss_state y) st" using settles_begin[of "ss_state y" s f pf ps c] b by simp
  note kept = sessions_inv_settles[OF inv this]
  show ?thesis
  proof (cases r)
    case (AttachInitialize t c')
    with b begin_claim_settled[of s f pf ps c "ss_state y" t c' st] kept BeginAttach
    show ?thesis by (simp add: sessions_inv_def)
  qed (use b kept BeginAttach in simp_all)
next
  case (AcknowledgeInit s t)
  assume inv: "sessions_inv y"
  have "settles (ss_state y) (acknowledge_oopif_initialization s t (ss_state y))"
    unfolding acknowledge_oopif_initialization_def
    by (rule settles_trans[OF settles_abandon settles_acknowledge])
  with AcknowledgeInit sessions_inv_settles[OF inv] show ?thesis by simp
next
  case (GraphEvent ev)
  assume "sessions_inv y"
  with GraphEvent show ?thesis by (simp add: sessions_inv_settles[OF _ settles_same])
qed (auto intro!: sessions_inv_settles settles_commit settles_abandon settles_acknowledge settles_detach)

interpretation session_runs: event_machine session_apply sessions_inv
  by unfold_locales (rule sessions_inv_apply)

text \<open>
  C20: no reducer outlives the ownership of its session: in every interleaving of attaches,
  commits, abandonments, acknowledgements and detaches, each attach that was ever started either
  still holds its entry, initializing or active, or its cancellation token has been cancelled.
\<close>

theorem claims_hold_or_cancelled:
  "list_all (claim_settled (ss_state (fold session_apply es (init_sessions main))))
     (ss_claims (fold session_apply es (init_sessions main)))"
proof -
  have "sessions_inv (fold session_apply es (init_sessions main))"
    by (rule session_runs.run_inv) (simp add: sessions_inv_def init_sessions_def)
  then show ?thesis by (simp add: sessions_inv_def)
qed

subsection \<open>Late activation\<close>

text \<open>The entry of a session is past a token: the token is issued, but neither initializing nor active.\<close>

definition past_token :: "ident \<Rightarrow> u64 \<Rightarrow> frame_state \<Rightarrow> bool" where
  "past_token s t st \<longleftrightarrow>
     t \<le> st_next_token st \<and> phase_at st s \<notin> {Some (SpInitializing t), Some (SpActive t)}"

primrec begins :: "session_event \<Rightarrow> nat" where
  "begins (BeginAttach s f pf ps c) = 1"
| "begins (CommitAttach d f pf ps s tg t tree roots) = 0"
| "begins (AbandonAttach s t) = 0"
| "begins (AcknowledgeAttach s t) = 0"
| "begins (AcknowledgeInit s t) = 0"
| "begins (DetachSession s) = 0"
| "begins (GraphEvent e) = 0"

lemma next_token_simps [simp]:
  "st_next_token (snd (activate_oopif_attach s t st)) = st_next_token st"
  "st_next_token (snd (abandon_oopif_attach s t st)) = st_next_token st"
  "st_next_token (snd (acknowledge_detached s t st)) = st_next_token st"
  "st_next_token (snd (detach_child_session s st)) = st_next_token st"
  by (auto simp: activate_oopif_attach_def abandon_oopif_attach_def acknowledge_detached_def
      detach_child_session_def Let_def split: option.splits)

lemma next_token_commit [simp]:
  "st_next_token (snd (commit_oopif d f pf ps s tg t tree roots st)) = st_next_token st"
  by (auto simp: commit_oopif_def Let_def split: prod.splits bool.splits)

lemma past_same: "past_token s t st \<Longrightarrow> st_children st' = st_children st \<Longrightarrow>
   st_next_token st' = st_next_token st \<Longrightarrow> past_token s t st'"
  by (simp add: past_token_def phase_at_def)

lemma past_activate: "past_token s t st \<Longrightarrow> past_token s t (snd (activate_oopif_attach s' t' st))"
  by (auto simp: past_token_def phase_at_def activate_oopif_attach_def split: option.splits)

lemma past_abandon: "past_token s t st \<Longrightarrow> past_token s t (snd (abandon_oopif_attach s' t' st))"
  by (auto simp: past_token_def phase_at_def abandon_oopif_attach_def split: option.splits)

lemma past_acknowledge: "past_token s t st \<Longrightarrow> past_token s t (snd (acknowledge_detached s' t' st))"
  by (auto simp: past_token_def phase_at_def acknowledge_detached_def split: option.splits)

lemma past_drops: "past_token s t st \<Longrightarrow> past_token s t (fold drop_session xs st)"
  by (cases "child_at st s")
    (auto simp: past_token_def phase_at_def drop_sessions dropped_def split: child_session_phase.splits)

lemma past_detach: "past_token s t st \<Longrightarrow> past_token s t (snd (detach_child_session s' st))"
proof (cases "attached_child s' st")
  case True
  assume "past_token s t st"
  then show ?thesis unfolding detach_child_session_eq(2)[OF True]
    by (intro past_drops) (auto intro: past_same)
qed (simp add: detach_child_session_noop)

lemma past_commit: "past_token s t st \<Longrightarrow> past_token s t (snd (commit_oopif d f pf ps s' tg t' tree roots st))"
  by (auto simp: commit_oopif_def Let_def split: prod.splits bool.splits
      intro!: past_activate past_abandon intro: past_same)

lemma past_begin:
  assumes "past_token s t st" "unat (st_next_token st) + 1 < 2 ^ 64"
  shows "past_token s t (snd (begin_oopif_attach s' f pf ps c st)) \<and>
    unat (st_next_token (snd (begin_oopif_attach s' f pf ps c st))) \<le> unat (st_next_token st) + 1"
proof -
  have un: "unat (st_next_token st + 1) = unat (st_next_token st) + 1"
    using assms(2) by (simp add: unat_word_ariths)
  then have "t \<le> st_next_token st + 1" "t \<noteq> st_next_token st + 1"
    using assms(1) by (auto simp: past_token_def word_le_nat_alt)
  with assms(1) un show ?thesis
    by (auto simp: past_token_def phase_at_def begin_oopif_attach_def Let_def
        split: session_attach_disposition.splits)
qed

lemma past_apply:
  assumes "past_token s t (ss_state y)" "unat (st_next_token (ss_state y)) + begins e < 2 ^ 64"
  shows "past_token s t (ss_state (session_apply e y)) \<and>
    unat (st_next_token (ss_state (session_apply e y))) \<le> unat (st_next_token (ss_state y)) + begins e"
proof (cases e)
  case (BeginAttach s' f pf ps c)
  have "ss_state (session_apply e y) = snd (begin_oopif_attach s' f pf ps c (ss_state y))"
    unfolding BeginAttach by (auto split: prod.splits oopif_attach_start.splits)
  with past_begin[OF assms(1)] assms(2) BeginAttach show ?thesis by simp
next
  case (AcknowledgeInit s' t')
  with assms show ?thesis
    by (auto simp: acknowledge_oopif_initialization_def intro: past_abandon past_acknowledge)
next
  case (GraphEvent ev)
  with assms show ?thesis by (auto intro: past_same)
qed (use assms in \<open>auto intro: past_commit past_abandon past_acknowledge past_detach\<close>)

lemma past_run:
  "past_token s t (ss_state y) \<Longrightarrow>
   unat (st_next_token (ss_state y)) + (\<Sum>e \<leftarrow> es. begins e) < 2 ^ 64 \<Longrightarrow>
   past_token s t (ss_state (fold session_apply es y))"
proof (induction es arbitrary: y)
  case (Cons e es)
  note step = past_apply[OF Cons.prems(1), of e]
  show ?case using Cons.IH[of "session_apply e y"] step Cons.prems(2) by simp
qed simp

text \<open>
  An attach that was detached or abandoned never comes back: once the entry of a session is
  past a token, no later sequence of events (stale commits with that token included) makes it
  initializing or active under that token, as long as the 64-bit token counter does not wrap.
\<close>

theorem detached_attach_stays_detached:
  assumes "past_token s t (ss_state y)"
    and "unat (st_next_token (ss_state y)) + (\<Sum>e \<leftarrow> es. begins e) < 2 ^ 64"
  shows "phase_at (ss_state (fold session_apply es y)) s \<notin> {Some (SpInitializing t), Some (SpActive t)}"
  using past_run[OF assms] by (simp add: past_token_def)

theorem detached_attach_stays_detached_witness:
  "phase_at (ss_state (fold session_apply
      [BeginAttach ''T'' ''x'' (Some ''f'') (Some ''S'') 7, CommitAttach True ''x'' (Some ''f'') (Some ''S'') ''T'' ''x'' 1
         (FrameTree ''x'' None ''l'' []) []]
      (fold session_apply [GraphEvent (Attach ''f'' None), BeginAttach ''T'' ''x'' (Some ''f'') (Some ''S'') 7,
         AbandonAttach ''T'' 1] (init_sessions ''S'')))) ''T''
     \<notin> {Some (SpInitializing 1), Some (SpActive 1)}"
  by (rule detached_attach_stays_detached)
    (simp_all add: past_token_def phase_at_def init_sessions_def begin_oopif_attach_def new_graph_def
      classify_session_attach_def frame_at_attach attached_record_def new_frame_record_def Let_def
      can_route_oopif_def abandon_oopif_attach_def cancel_child_def set_phase_def)

theorem detach_child_session_clean_witness:
  "\<not> attached_child ''T'' (snd (detach_child_session ''T''
     (ss_state (fold session_apply [GraphEvent (Attach ''f'' None),
        BeginAttach ''T'' ''x'' (Some ''f'') (Some ''S'') 7] (init_sessions ''S'')))))"
proof -
  let ?st = "ss_state (fold session_apply [GraphEvent (Attach ''f'' None),
        BeginAttach ''T'' ''x'' (Some ''f'') (Some ''S'') 7] (init_sessions ''S''))"
  have st: "st_children ?st = [(''T'', \<lparr>cs_root_frame_id = ''x'', cs_parent_session_id = ''S'',
      cs_reducer_cancel = 7, cs_phase = SpInitializing 1\<rparr>)]" "fg_main_session_id (st_graph ?st) = ''S''"
    by (simp_all add: init_sessions_def begin_oopif_attach_def new_graph_def
        classify_session_attach_def frame_at_attach attached_record_def new_frame_record_def Let_def
        can_route_oopif_def)
  have attached: "attached_child ''T'' ?st" unfolding attached_child_def phase_at_def st(1) by simp
  have "collect_loop [(''T'', ''S'')] [''T''] = [''T'']"
    by (subst collect_loop.simps) simp
  then have removed: "removed_sessions ''T'' ?st = [''T'']"
    unfolding removed_sessions_def live_parents_def st(1) by (simp add: collect_session_subtree_def)
  have main: "fg_main_session_id (st_graph ?st) \<notin> set (removed_sessions ''T'' ?st)"
    unfolding removed st(2) by simp
  have "''T'' \<in> set (removed_sessions ''T'' ?st)" unfolding removed by simp
  then show ?thesis
    using detach_child_session_clean[OF attached main refl refl] by presburger
qed

subsection \<open>Activation and debug assertions\<close>

fun release_event :: "session_event \<Rightarrow> bool" where
  "release_event (CommitAttach debug _ _ _ _ _ _ _ _) = (\<not> debug)"
| "release_event _ = True"

definition no_active :: "frame_state \<Rightarrow> bool" where
  "no_active st \<longleftrightarrow> (\<forall>s c. child_at st s = Some c \<longrightarrow> \<not> is_active (cs_phase c))"

lemma no_active_same: "no_active st \<Longrightarrow> st_children st' = st_children st \<Longrightarrow> no_active st'"
  by (simp add: no_active_def)

lemma no_active_abandon: "no_active st \<Longrightarrow> no_active (snd (abandon_oopif_attach s t st))"
  by (auto simp: no_active_def abandon_oopif_attach_def split: option.splits)

lemma no_active_acknowledge: "no_active st \<Longrightarrow> no_active (snd (acknowledge_detached s t st))"
  by (auto simp: no_active_def acknowledge_detached_def)

lemma no_active_begin: "no_active st \<Longrightarrow> no_active (snd (begin_oopif_attach s f pf ps c st))"
  by (auto simp: no_active_def begin_oopif_attach_def Let_def split: session_attach_disposition.splits)

lemma no_active_drops: "no_active st \<Longrightarrow> no_active (fold drop_session xs st)"
proof (unfold no_active_def, intro allI impI)
  fix s c
  assume none: "\<forall>s c. child_at st s = Some c \<longrightarrow> \<not> is_active (cs_phase c)"
    and c: "child_at (fold drop_session xs st) s = Some c"
  show "\<not> is_active (cs_phase c)"
    using c none unfolding drop_sessions
    by (cases "child_at st s") (auto simp: dropped_def split: if_splits child_session_phase.splits)
qed

lemma no_active_apply: "no_active (ss_state y) \<Longrightarrow> release_event e \<Longrightarrow> no_active (ss_state (session_apply e y))"
proof (cases e)
  case (BeginAttach s f pf ps c)
  assume "no_active (ss_state y)"
  moreover have "ss_state (session_apply e y) = snd (begin_oopif_attach s f pf ps c (ss_state y))"
    unfolding BeginAttach by (auto split: prod.splits oopif_attach_start.splits)
  ultimately show ?thesis by (simp add: no_active_begin)
next
  case (CommitAttach d f pf ps s tg t tree roots)
  assume "no_active (ss_state y)" "release_event e"
  with CommitAttach show ?thesis
    by (auto simp: commit_oopif_def Let_def split: prod.splits bool.splits intro: no_active_same no_active_abandon[OF no_active_same])
next
  case (DetachSession s)
  assume na: "no_active (ss_state y)"
  show ?thesis
  proof (cases "attached_child s (ss_state y)")
    case True
    with na DetachSession show ?thesis
      by (simp add: detach_child_session_eq(2)) (intro no_active_drops, auto intro: no_active_same)
  qed (use na DetachSession in \<open>simp add: detach_child_session_noop\<close>)
qed (auto simp: acknowledge_oopif_initialization_def intro: no_active_abandon no_active_acknowledge no_active_same)

lemma commit_phase:
  assumes "is_initializing s t st" "can_route_oopif f pf ps (st_graph st)"
  shows "phase_at (snd (commit_oopif d f pf ps s tg t tree roots st)) s =
    Some (if d then SpActive t else SpInitializing t)"
  using assms
  by (auto simp: commit_oopif_def route_oopif_def Let_def is_initializing_def phase_at_def
      activate_oopif_attach_def split: option.splits)

lemma detach_phase:
  "attached_child s st \<Longrightarrow> phase_at (snd (detach_child_session s st)) s =
     (case phase_at st s of Some (SpInitializing t) \<Rightarrow> Some (SpDetached t) | _ \<Rightarrow> None)"
  using removed_sessions_root[of s st]
  by (auto simp: detach_child_session_eq(2) phase_at_def drop_sessions dropped_def attached_child_def
      split: option.splits child_session_phase.splits)

lemma begin_needs_absent:
  "fst (begin_oopif_attach s f pf ps c st) = AttachInitialize t c' \<Longrightarrow> child_at st s = None"
  by (auto simp: begin_oopif_attach_def classify_session_attach_def Let_def
      split: session_attach_disposition.splits if_splits option.splits)

text \<open>
  C18: a committed route is active only in builds with debug assertions, because the activation
  is the argument of a \<open>debug_assert!\<close>: without them no sequence of events ever makes a child
  session active, a committed session is still initializing, its detach leaves a detached entry
  behind instead of removing it, and no later attach of that session is then accepted.
\<close>

theorem activation_needs_debug_assertions:
  assumes "list_all release_event es"
    and "is_initializing s t st" "can_route_oopif f pf ps (st_graph st)"
    and "st' = snd (detach_child_session s (snd (commit_oopif d f pf ps s tg t tree roots st)))"
  shows "no_active (ss_state (fold session_apply es (init_sessions main))) \<and>
    phase_at (snd (commit_oopif d f pf ps s tg t tree roots st)) s = Some (if d then SpActive t else SpInitializing t) \<and>
    phase_at st' s = (if d then None else Some (SpDetached t)) \<and>
    (\<not> d \<longrightarrow> (\<forall>f' pf' ps' c t' c'. fst (begin_oopif_attach s f' pf' ps' c st') \<noteq> AttachInitialize t' c'))"
proof -
  have "no_active (ss_state (fold session_apply es y))" if "no_active (ss_state y)" for y
    using that assms(1) by (induction es arbitrary: y) (simp_all add: no_active_apply)
  moreover have "no_active (ss_state (init_sessions main))" by (simp add: no_active_def init_sessions_def)
  moreover note commit = commit_phase[OF assms(2,3), of d tg tree roots]
  moreover have detached: "phase_at st' s = (if d then None else Some (SpDetached t))"
    unfolding assms(4) by (subst detach_phase) (simp_all add: attached_child_def commit)
  moreover have "fst (begin_oopif_attach s f' pf' ps' c st') \<noteq> AttachInitialize t' c'" if "\<not> d" for f' pf' ps' c t' c'
  proof -
    have "child_at st' s \<noteq> None" using detached that by (auto simp del: phase_at_None simp: phase_at_None[symmetric])
    then show ?thesis using begin_needs_absent[of s f' pf' ps' c st' t' c'] by (rule contrapos_nn)
  qed
  ultimately show ?thesis by simp
qed

theorem activation_needs_debug_assertions_witness:
  "no_active (ss_state (fold session_apply [DetachSession ''T''] (init_sessions ''S''))) \<and>
   phase_at (snd (commit_oopif False ''x'' (Some ''f'') (Some ''S'') ''T'' ''x'' 1 (FrameTree ''x'' None ''l'' []) []
     (ss_state (fold session_apply [GraphEvent (Attach ''f'' None),
        BeginAttach ''T'' ''x'' (Some ''f'') (Some ''S'') 7] (init_sessions ''S''))))) ''T'' = Some (SpInitializing 1)"
  using activation_needs_debug_assertions[of "[DetachSession ''T'']" "''T''" 1
      "ss_state (fold session_apply [GraphEvent (Attach ''f'' None),
        BeginAttach ''T'' ''x'' (Some ''f'') (Some ''S'') 7] (init_sessions ''S''))"
      "''x''" "Some ''f''" "Some ''S''" _ False "''x''" "FrameTree ''x'' None ''l'' []" "[]" "''S''", OF _ _ _ refl]
  by (simp add: is_initializing_def phase_at_def init_sessions_def begin_oopif_attach_def new_graph_def
      classify_session_attach_def frame_at_attach attached_record_def new_frame_record_def Let_def
      can_route_oopif_def)

end
