(* ===== verification/AuxTargets.thy ===== *)
theory AuxTargets
  imports Ownership Json
begin

text \<open>
  Targets that attach to a page without becoming frames (\<open>src/src/runtime/frame.rs\<close>): the
  decoding of \<open>Target.attachedToTarget\<close>, and the registry of auxiliary attachments (workers) with
  the remote ownership each of them holds.
\<close>

subsection \<open>Attached targets\<close>

text \<open>The fields of \<open>cdpkit\<close>'s \<open>AttachedToTarget\<close> that the code reads.\<close>

record attached_to_target =
  at_session_id :: ident
  at_target_id :: ident
  at_type :: string
  at_url :: string
  at_parent_frame_id :: "ident option"
  at_waiting_for_debugger :: bool

record malformed_attached_target =
  ma_parent_session_id :: "ident option"
  ma_session_id :: "ident option"
  ma_target_id :: "ident option"
  ma_target_type :: "string option"
  ma_target_url :: "string option"
  ma_waiting_for_debugger :: "bool option"
  ma_parse_error :: string
  ma_field_errors :: "target_field_error list"

datatype attached_target_result =
    TypedTarget "ident option" attached_to_target
  | MalformedTarget malformed_attached_target

definition extract_attached_string_field ::
  "json option \<Rightarrow> string \<Rightarrow> target_field_error list \<Rightarrow> string option \<times> target_field_error list" where
  "extract_attached_string_field v field errors =
     (case v of
        Some (JStr s) \<Rightarrow> (Some s, errors)
      | Some other \<Rightarrow>
          (None, errors @ [\<lparr>tfe_field = field, tfe_message = ''expected string, found '' @ json_value_kind other\<rparr>])
      | None \<Rightarrow> (None, errors @ [\<lparr>tfe_field = field, tfe_message = ''field is missing''\<rparr>]))"

definition extract_attached_bool_field ::
  "json option \<Rightarrow> string \<Rightarrow> target_field_error list \<Rightarrow> bool option \<times> target_field_error list" where
  "extract_attached_bool_field v field errors =
     (case v of
        Some (JBool b) \<Rightarrow> (Some b, errors)
      | Some other \<Rightarrow>
          (None, errors @ [\<lparr>tfe_field = field, tfe_message = ''expected boolean, found '' @ json_value_kind other\<rparr>])
      | None \<Rightarrow> (None, errors @ [\<lparr>tfe_field = field, tfe_message = ''field is missing''\<rparr>]))"

definition extract_target_info :: "json option \<Rightarrow> target_field_error list \<Rightarrow> json option \<times> target_field_error list" where
  "extract_target_info v errors =
     (case v of
        Some (JObj obj) \<Rightarrow> (Some (JObj obj), errors)
      | Some other \<Rightarrow>
          (None, errors @ [\<lparr>tfe_field = ''targetInfo'',
                            tfe_message = ''expected object, found '' @ json_value_kind other\<rparr>])
      | None \<Rightarrow> (None, errors @ [\<lparr>tfe_field = ''targetInfo'', tfe_message = ''field is missing''\<rparr>]))"

text \<open>The typed deserialiser belongs to \<open>cdpkit\<close>; it is the parameter \<open>typed\<close>.\<close>

definition from_raw ::
  "(json \<Rightarrow> string + attached_to_target) \<Rightarrow> ident option \<Rightarrow> json \<Rightarrow> attached_target_result" where
  "from_raw typed parent params =
     (case typed params of
        Inr event \<Rightarrow> TypedTarget parent event
      | Inl parse_error \<Rightarrow>
          let (session, e1) = extract_attached_string_field (json_get ''sessionId'' params) ''sessionId'' [];
              (info, e2) = extract_target_info (json_get ''targetInfo'' params) e1;
              (target_id, e3) = extract_attached_string_field
                 (Option.bind info (json_get ''targetId'')) ''targetInfo.targetId'' e2;
              (target_type, e4) = extract_attached_string_field
                 (Option.bind info (json_get ''type'')) ''targetInfo.type'' e3;
              (url, e5) = extract_attached_string_field
                 (Option.bind info (json_get ''url'')) ''targetInfo.url'' e4;
              (waiting, e6) = extract_attached_bool_field
                 (json_get ''waitingForDebugger'' params) ''waitingForDebugger'' e5
          in MalformedTarget
               \<lparr>ma_parent_session_id = parent, ma_session_id = session, ma_target_id = target_id,
                ma_target_type = target_type, ma_target_url = url, ma_waiting_for_debugger = waiting,
                ma_parse_error = parse_error, ma_field_errors = e6\<rparr>)"

definition result_target_id :: "attached_target_result \<Rightarrow> ident option" where
  "result_target_id r =
     (case r of TypedTarget _ e \<Rightarrow> Some (at_target_id e) | MalformedTarget m \<Rightarrow> ma_target_id m)"

definition is_iframe :: "attached_target_result \<Rightarrow> bool" where
  "is_iframe r = (case r of TypedTarget _ e \<Rightarrow> at_type e = ''iframe'' | MalformedTarget _ \<Rightarrow> False)"

definition is_auxiliary_worker_target :: "string \<Rightarrow> bool" where
  "is_auxiliary_worker_target t \<longleftrightarrow>
     t \<in> {''worker'', ''shared_worker'', ''service_worker'', ''worklet'', ''shared_storage_worklet'',
          ''auction_worklet''}"

lemma string_field_result:
  "extract_attached_string_field v field errors =
     (Option.bind v json_as_str,
      errors @ (if Option.bind v json_as_str = None
        then [\<lparr>tfe_field = field, tfe_message = (case v of None \<Rightarrow> ''field is missing''
                 | Some other \<Rightarrow> ''expected string, found '' @ json_value_kind other)\<rparr>] else []))"
  by (auto simp: extract_attached_string_field_def split: option.splits json.splits)

lemma bool_field_result:
  "extract_attached_bool_field v field errors =
     (Option.bind v json_as_bool,
      errors @ (if Option.bind v json_as_bool = None
        then [\<lparr>tfe_field = field, tfe_message = (case v of None \<Rightarrow> ''field is missing''
                 | Some other \<Rightarrow> ''expected boolean, found '' @ json_value_kind other)\<rparr>] else []))"
  by (auto simp: extract_attached_bool_field_def split: option.splits json.splits)

definition object_at :: "json option \<Rightarrow> json option" where
  "object_at v = Option.bind v (\<lambda>j. map_option JObj (json_as_object j))"

lemma target_info_result:
  "fst (extract_target_info v errors) = object_at v"
  "map tfe_field (snd (extract_target_info v errors)) =
     map tfe_field errors @ (if object_at v = None then [''targetInfo''] else [])"
  by (auto simp: extract_target_info_def object_at_def split: option.splits json.splits)

text \<open>
  A payload the typed deserialiser refuses still yields every identity field that is present
  at its type, and the field errors name, in order and once each, exactly the fields that are not
  (the target info and its three fields when it is not an object).
\<close>

theorem malformed_target_salvage:
  assumes "typed params = Inl e"
  shows "\<exists>m. from_raw typed parent params = MalformedTarget m \<and> ma_parse_error m = e \<and>
    ma_session_id m = string_field params ''sessionId'' \<and>
    ma_target_id m = Option.bind (object_at (json_get ''targetInfo'' params)) (\<lambda>i. string_field i ''targetId'') \<and>
    ma_waiting_for_debugger m = boolean_field params ''waitingForDebugger'' \<and>
    map tfe_field (ma_field_errors m) =
      (if string_field params ''sessionId'' = None then [''sessionId''] else [])
      @ (if object_at (json_get ''targetInfo'' params) = None then [''targetInfo''] else [])
      @ (if ma_target_id m = None then [''targetInfo.targetId''] else [])
      @ (if ma_target_type m = None then [''targetInfo.type''] else [])
      @ (if ma_target_url m = None then [''targetInfo.url''] else [])
      @ (if ma_waiting_for_debugger m = None then [''waitingForDebugger''] else [])"
  using assms
  by (simp add: from_raw_def case_prod_beta Let_def string_field_result bool_field_result
      target_info_result string_field_def boolean_field_def)

theorem malformed_target_salvage_witness:
  "\<exists>m. from_raw (\<lambda>_. Inl ''missing field'') None
        (JObj [(''sessionId'', JStr ''T''), (''targetInfo'', JObj [(''targetId'', JStr ''x'')])]) = MalformedTarget m \<and>
     ma_session_id m = Some ''T'' \<and> ma_target_id m = Some ''x'' \<and>
     map tfe_field (ma_field_errors m) = [''targetInfo.type'', ''targetInfo.url'', ''waitingForDebugger'']"
  using malformed_target_salvage[of "\<lambda>_. Inl ''missing field''"
      "JObj [(''sessionId'', JStr ''T''), (''targetInfo'', JObj [(''targetId'', JStr ''x'')])]" "''missing field''" None]
  by (simp add: from_raw_def string_field_def boolean_field_def object_at_def case_prod_beta Let_def
      string_field_result bool_field_result target_info_result)

subsection \<open>The auxiliary target registry\<close>

text \<open>
  The clean-up closure of an attachment detaches its session through the direct parent session,
  or through the browser connection when there is none. The ownership is held by a guard until
  it is retained; both carry the resource and the token of the pending registry.
\<close>

record detach_command =
  dt_session_id :: ident
  dt_parent_session_id :: "ident option"

datatype aux_ownership = OwnPending string u64 | OwnRetained string u64

record aux_record =
  ax_token :: u64
  ax_target_id :: ident
  ax_target_type :: string
  ax_direct_parent :: "ident option"
  ax_network_route :: bool
  ax_ownership :: aux_ownership

record aux_registry =
  ag_next_token :: u64
  ag_pending :: "detach_command ownership_registry"
  ag_records :: "(ident \<times> aux_record) list"

definition new_aux :: aux_registry where
  "new_aux = \<lparr>ag_next_token = 1, ag_pending = new_registry, ag_records = []\<rparr>"

definition detach_resource :: "ident \<Rightarrow> string" where
  "detach_resource session = ''auxiliary-target-detach:'' @ session"

definition aux_begin ::
  "ident option \<Rightarrow> ident \<Rightarrow> ident \<Rightarrow> string \<Rightarrow> aux_registry \<Rightarrow> (ident \<times> u64) option \<times> aux_registry" where
  "aux_begin parent session target target_type a =
     (if map_of (ag_records a) session \<noteq> None then (None, a)
      else
        let token = ag_next_token a;
            resource = detach_resource session;
            (own, reg) = registry_register resource
              \<lparr>dt_session_id = session, dt_parent_session_id = parent\<rparr> (ag_pending a)
        in (Some (session, token),
            a\<lparr>ag_next_token := token + 1, ag_pending := reg,
              ag_records := AList.update session
                \<lparr>ax_token = token, ax_target_id = target, ax_target_type = target_type,
                 ax_direct_parent = parent, ax_network_route = False,
                 ax_ownership = OwnPending resource own\<rparr> (ag_records a)\<rparr>))"

definition aux_mark_network_route :: "ident \<Rightarrow> u64 \<Rightarrow> aux_registry \<Rightarrow> bool \<times> aux_registry" where
  "aux_mark_network_route session token a =
     (case map_of (ag_records a) session of
        None \<Rightarrow> (False, a)
      | Some r \<Rightarrow>
          if ax_token r \<noteq> token then (False, a)
          else (True, a\<lparr>ag_records := AList.update session (r\<lparr>ax_network_route := True\<rparr>) (ag_records a)\<rparr>))"

fun retained :: "aux_ownership \<Rightarrow> aux_ownership" where
  "retained (OwnPending resource token) = OwnRetained resource token"
| "retained (OwnRetained resource token) = OwnRetained resource token"

definition aux_retain :: "ident \<Rightarrow> u64 \<Rightarrow> aux_registry \<Rightarrow> bool \<times> aux_registry" where
  "aux_retain session token a =
     (case map_of (ag_records a) session of
        None \<Rightarrow> (False, a)
      | Some r \<Rightarrow>
          if ax_token r \<noteq> token then (False, a)
          else (True, a\<lparr>ag_records :=
                  AList.update session (r\<lparr>ax_ownership := retained (ax_ownership r)\<rparr>) (ag_records a)\<rparr>))"

definition aux_take :: "ident \<Rightarrow> aux_registry \<Rightarrow> (bool \<times> aux_ownership) option \<times> aux_registry" where
  "aux_take session a =
     (map_option (\<lambda>r. (ax_network_route r, ax_ownership r)) (map_of (ag_records a) session),
      a\<lparr>ag_records := AList.delete session (ag_records a)\<rparr>)"

definition aux_has_network_route :: "ident \<Rightarrow> aux_registry \<Rightarrow> bool" where
  "aux_has_network_route session a =
     (case map_of (ag_records a) session of None \<Rightarrow> False | Some r \<Rightarrow> ax_network_route r)"

definition aux_take_all :: "aux_registry \<Rightarrow> (ident \<times> bool \<times> aux_ownership) list \<times> aux_registry" where
  "aux_take_all a =
     (map (\<lambda>(s, r). (s, ax_network_route r, ax_ownership r)) (ag_records a), a\<lparr>ag_records := []\<rparr>)"

text \<open>\<open>DetachedAuxiliaryTarget::disarm\<close> and \<open>cleanup\<close>: the same for a guard and for retained ownership.\<close>

fun own_key :: "aux_ownership \<Rightarrow> string \<times> u64" where
  "own_key (OwnPending resource token) = (resource, token)"
| "own_key (OwnRetained resource token) = (resource, token)"

definition ownership_disarm :: "aux_ownership \<Rightarrow> 'c ownership_registry \<Rightarrow> 'c ownership_registry" where
  "ownership_disarm own reg = (case own_key own of (resource, token) \<Rightarrow> registry_disarm resource token reg)"

definition ownership_cleanup ::
  "('c \<Rightarrow> cleanup_result) \<Rightarrow> aux_ownership \<Rightarrow> 'c ownership_registry \<Rightarrow>
   cleanup_result option \<times> 'c ownership_registry" where
  "ownership_cleanup run own reg = (case own_key own of (resource, token) \<Rightarrow> guard_cleanup run resource token reg)"

definition parent_destroyed_step ::
  "(detach_command \<Rightarrow> cleanup_result) \<Rightarrow> ident \<times> aux_record \<Rightarrow> detach_command ownership_registry \<Rightarrow>
   detach_command ownership_registry" where
  "parent_destroyed_step run entry reg =
     (case entry of (session, r) \<Rightarrow>
        if ax_direct_parent r \<noteq> None then ownership_disarm (ax_ownership r) reg
        else snd (ownership_cleanup run (ax_ownership r) reg))"

definition cleanup_after_parent_destroyed ::
  "(detach_command \<Rightarrow> cleanup_result) \<Rightarrow> aux_registry \<Rightarrow>
   (string \<times> cleanup_result) list option \<times> aux_registry" where
  "cleanup_after_parent_destroyed run a =
     (let reg = fold (parent_destroyed_step run) (ag_records a) (ag_pending a)
      in case registry_cleanup_all run reg of
           (report, reg') \<Rightarrow> (report, a\<lparr>ag_records := [], ag_pending := reg'\<rparr>))"

subsection \<open>Every record owns a pending detach\<close>

definition owns_detach :: "detach_command ownership_registry \<Rightarrow> ident \<times> aux_record \<Rightarrow> bool" where
  "owns_detach reg entry =
     (case entry of (s, r) \<Rightarrow>
        fst (own_key (ax_ownership r)) = detach_resource s \<and>
        map_of (rg_entries reg) (detach_resource s) =
          Some \<lparr>pe_token = snd (own_key (ax_ownership r)), pe_state = PsPending,
                pe_cleanup = Some \<lparr>dt_session_id = s, dt_parent_session_id = ax_direct_parent r\<rparr>\<rparr>)"

definition aux_inv :: "aux_registry \<Rightarrow> bool" where
  "aux_inv a \<longleftrightarrow>
     registry_inv (ag_pending a) \<and> wf_map (ag_records a) \<and>
     list_all (owns_detach (ag_pending a)) (ag_records a)"

lemma detach_resource_inj [simp]: "detach_resource s = detach_resource t \<longleftrightarrow> s = t"
  by (simp add: detach_resource_def)

lemma own_key_retained [simp]: "own_key (retained own) = own_key own"
  by (cases own) simp_all

lemma list_all_update: "list_all P m \<Longrightarrow> P (k, v) \<Longrightarrow> list_all P (AList.update k v m)"
  by (induction m) auto

lemma list_all_delete: "list_all P m \<Longrightarrow> list_all P (AList.delete k m)"
  by (auto simp: AList.delete_eq list_all_iff)

lemma aux_inv_new: "aux_inv new_aux"
  by (simp add: aux_inv_def new_aux_def registry_inv_new)

lemma owns_detach_other:
  "owns_detach reg (s, r) \<Longrightarrow>
   map_of (rg_entries reg') (detach_resource s) = map_of (rg_entries reg) (detach_resource s) \<Longrightarrow>
   owns_detach reg' (s, r)"
  by (simp add: owns_detach_def)

lemma aux_inv_begin:
  assumes "aux_inv a"
  shows "aux_inv (snd (aux_begin p s t ty a))"
proof (cases "map_of (ag_records a) s")
  case None
  let ?reg = "snd (registry_register (detach_resource s) \<lparr>dt_session_id = s, dt_parent_session_id = p\<rparr> (ag_pending a))"
  have entry: "map_of (rg_entries ?reg) k = (if k = detach_resource s then
      Some \<lparr>pe_token = rg_next_token (ag_pending a), pe_state = PsPending,
            pe_cleanup = Some \<lparr>dt_session_id = s, dt_parent_session_id = p\<rparr>\<rparr>
      else map_of (rg_entries (ag_pending a)) k)" for k
    by (simp add: registry_register_def Let_def)
  have "s \<notin> keys (ag_records a)" using None by (simp only: not_in_keys_iff)
  have "owns_detach ?reg (s', r')" if m: "(s', r') \<in> set (ag_records a)" for s' r'
  proof (rule owns_detach_other)
    show "owns_detach (ag_pending a) (s', r')" using assms m by (auto simp: aux_inv_def list_all_iff)
    have "s' \<in> keys (ag_records a)" using m by force
    then have "s' \<noteq> s" using \<open>s \<notin> keys (ag_records a)\<close> by blast
    then show "map_of (rg_entries ?reg) (detach_resource s') = map_of (rg_entries (ag_pending a)) (detach_resource s')"
      unfolding entry by simp
  qed
  then have "list_all (owns_detach ?reg) (ag_records a)" by (auto simp: list_all_iff)
  moreover have "registry_inv ?reg" using assms by (simp add: aux_inv_def registry_inv_register)
  ultimately show ?thesis using None assms
    by (auto simp: aux_begin_def aux_inv_def registry_register_def Let_def owns_detach_def
        intro!: list_all_update split: prod.splits)
qed (use assms in \<open>simp add: aux_begin_def\<close>)

lemma aux_inv_modify:
  assumes "aux_inv a" "map_of (ag_records a) s = Some r" "own_key (ax_ownership r') = own_key (ax_ownership r)"
    "ax_direct_parent r' = ax_direct_parent r"
  shows "aux_inv (a\<lparr>ag_records := AList.update s r' (ag_records a)\<rparr>)"
proof -
  have "owns_detach (ag_pending a) (s, r)"
    using assms(1,2) by (auto simp: aux_inv_def list_all_iff dest: map_of_SomeD)
  then have "owns_detach (ag_pending a) (s, r')" using assms(3,4) by (simp add: owns_detach_def)
  with assms(1) show ?thesis by (simp add: aux_inv_def list_all_update)
qed

lemma aux_inv_mark: "aux_inv a \<Longrightarrow> aux_inv (snd (aux_mark_network_route s t a))"
  by (auto simp: aux_mark_network_route_def intro: aux_inv_modify split: option.splits)

lemma aux_inv_retain: "aux_inv a \<Longrightarrow> aux_inv (snd (aux_retain s t a))"
  by (auto simp: aux_retain_def intro: aux_inv_modify split: option.splits)

lemma aux_inv_take: "aux_inv a \<Longrightarrow> aux_inv (snd (aux_take s a))"
  by (simp add: aux_inv_def aux_take_def list_all_delete)

definition aux_token :: "aux_registry \<Rightarrow> ident \<Rightarrow> u64 option" where
  "aux_token a s = map_option ax_token (map_of (ag_records a) s)"

interpretation mark_guarded: token_guarded aux_token "\<lambda>s t a. snd (aux_mark_network_route s t a)"
  by unfold_locales (auto simp: aux_mark_network_route_def aux_token_def split: option.splits)

interpretation retain_guarded: token_guarded aux_token "\<lambda>s t a. snd (aux_retain s t a)"
  by unfold_locales (auto simp: aux_retain_def aux_token_def split: option.splits)

subsection \<open>The parent target is gone\<close>

lemma registry_inv_guard_cleanup: "registry_inv r \<Longrightarrow> registry_inv (snd (guard_cleanup run k t r))"
proof -
  assume inv: "registry_inv r"
  obtain c r' where cl: "registry_claim k t r = (c, r')" by fastforce
  with registry_inv_claim[OF inv, of k t] have inv': "registry_inv r'" by simp
  then have "registry_inv (snd (registry_cleanup_one run k t r))"
    using cl by (cases c) (simp_all add: registry_cleanup_one_def registry_inv_finish)
  then show ?thesis
    by (auto simp: guard_cleanup_def registry_forget_completion_def split: prod.splits option.splits)
qed

lemma parent_destroyed_step_effect:
  assumes "owns_detach reg (s, r)" "registry_inv reg"
  shows "rg_entries (parent_destroyed_step run (s, r) reg) = AList.delete (detach_resource s) (rg_entries reg)"
    and "rg_completed (parent_destroyed_step run (s, r) reg) =
      (if ax_direct_parent r = None
       then filter (\<lambda>(k, t, _). (k, t) \<noteq> own_key (ax_ownership r)) (rg_completed reg) else rg_completed reg)"
    and "registry_inv (parent_destroyed_step run (s, r) reg)"
proof -
  obtain t where own: "own_key (ax_ownership r) = (detach_resource s, t)"
    using assms(1) by (cases "own_key (ax_ownership r)") (auto simp: owns_detach_def)
  have at: "map_of (rg_entries reg) (detach_resource s) =
      Some \<lparr>pe_token = t, pe_state = PsPending,
            pe_cleanup = Some \<lparr>dt_session_id = s, dt_parent_session_id = ax_direct_parent r\<rparr>\<rparr>"
    using assms(1) own by (simp add: owns_detach_def)
  have wf: "wf_map (rg_entries reg)" using assms(2) by (simp add: registry_inv_def)
  show "rg_entries (parent_destroyed_step run (s, r) reg) = AList.delete (detach_resource s) (rg_entries reg)"
    "rg_completed (parent_destroyed_step run (s, r) reg) =
      (if ax_direct_parent r = None
       then filter (\<lambda>(k, t, _). (k, t) \<noteq> own_key (ax_ownership r)) (rg_completed reg) else rg_completed reg)"
    using at own
    by (auto simp: parent_destroyed_step_def ownership_disarm_def ownership_cleanup_def registry_disarm_def
        holds_token_def guard_cleanup_def registry_cleanup_one_def registry_claim_def registry_finish_def
        registry_forget_completion_def delete_update_same intro!: filter_cong)
  show "registry_inv (parent_destroyed_step run (s, r) reg)"
    using assms(2)
    by (simp add: parent_destroyed_step_def ownership_disarm_def ownership_cleanup_def case_prod_beta
        registry_inv_disarm registry_inv_guard_cleanup)
qed

definition browser_level_keys :: "(ident \<times> aux_record) list \<Rightarrow> (string \<times> u64) set" where
  "browser_level_keys recs = {own_key (ax_ownership r) |s r. (s, r) \<in> set recs \<and> ax_direct_parent r = None}"

lemma parent_destroyed_fold:
  assumes "list_all (owns_detach reg) recs" "wf_map recs" "registry_inv reg"
  shows "rg_entries (fold (parent_destroyed_step run) recs reg) =
      filter (\<lambda>(k, e). k \<notin> detach_resource ` keys recs) (rg_entries reg) \<and>
    rg_completed (fold (parent_destroyed_step run) recs reg) =
      filter (\<lambda>(k, t, _). (k, t) \<notin> browser_level_keys recs) (rg_completed reg) \<and>
    registry_inv (fold (parent_destroyed_step run) recs reg)"
  using assms
proof (induction recs arbitrary: reg)
  case Nil
  then show ?case by (simp add: browser_level_keys_def case_prod_unfold)
next
  case (Cons sr recs)
  obtain s r where [simp]: "sr = (s, r)" by (cases sr)
  have own: "owns_detach reg (s, r)" using Cons.prems(1) by simp
  note step = parent_destroyed_step_effect[OF own Cons.prems(3), of run]
  have "owns_detach (parent_destroyed_step run (s, r) reg) (s', r')" if m: "(s', r') \<in> set recs" for s' r'
  proof (rule owns_detach_other)
    show "owns_detach reg (s', r')" using Cons.prems(1) m by (auto simp: list_all_iff)
    have "s' \<in> keys recs" using m by force
    then have "s' \<noteq> s" using Cons.prems(2) by auto
    then show "map_of (rg_entries (parent_destroyed_step run (s, r) reg)) (detach_resource s')
        = map_of (rg_entries reg) (detach_resource s')"
      unfolding step(1) by simp
  qed
  then have "list_all (owns_detach (parent_destroyed_step run (s, r) reg)) recs" by (auto simp: list_all_iff)
  note IH = Cons.IH[OF this _ step(3)]
  have keys: "browser_level_keys (sr # recs) = browser_level_keys recs \<union>
      (if ax_direct_parent r = None then {own_key (ax_ownership r)} else {})"
    by (auto simp: browser_level_keys_def)
  have IH': "rg_entries (fold (parent_destroyed_step run) (sr # recs) reg) =
      filter (\<lambda>(k, e). k \<notin> detach_resource ` keys recs) (AList.delete (detach_resource s) (rg_entries reg))"
    "rg_completed (fold (parent_destroyed_step run) (sr # recs) reg) =
      filter (\<lambda>(k, t, _). (k, t) \<notin> browser_level_keys recs)
        (rg_completed (parent_destroyed_step run (s, r) reg))"
    "registry_inv (fold (parent_destroyed_step run) (sr # recs) reg)"
    using IH Cons.prems(2) unfolding step(1) by simp_all
  have "filter (\<lambda>(k, e). k \<notin> detach_resource ` keys recs) (AList.delete (detach_resource s) es) =
      filter (\<lambda>(k, e). k \<notin> detach_resource ` keys (sr # recs)) es"
    for es :: "(string \<times> detach_command pending_entry) list"
    by (induction es) auto
  moreover have "filter (\<lambda>(k, t, _). (k, t) \<notin> browser_level_keys recs)
        (if ax_direct_parent r = None
         then filter (\<lambda>(k, t, _). (k, t) \<noteq> own_key (ax_ownership r)) cs else cs) =
      filter (\<lambda>(k, t, _). (k, t) \<notin> browser_level_keys (sr # recs)) cs"
    for cs :: "(string \<times> u64 \<times> cleanup_result) list"
    unfolding keys by (induction cs) auto
  ultimately show ?case using IH' unfolding step(2) by simp
qed

text \<open>
  When the page target is destroyed, the attachments below a parent session are disarmed
  and only the browser-level ones are detached; the registry is then drained: no record and no
  pending ownership is left, and the report holds exactly the results of the ownerships that no
  record held any more and the completions recorded before, sorted by resource. No task is in
  the middle of another clean-up.
\<close>

theorem parent_destroyed_drains:
  assumes "aux_inv a"
    and "list_all (\<lambda>(k, e). k \<notin> detach_resource ` keys (ag_records a) \<longrightarrow> pe_state e = PsPending)
           (rg_entries (ag_pending a))"
  shows "\<exists>report. fst (cleanup_after_parent_destroyed run a) = Some report \<and>
    ag_records (snd (cleanup_after_parent_destroyed run a)) = [] \<and>
    rg_entries (ag_pending (snd (cleanup_after_parent_destroyed run a))) = [] \<and>
    report = sorted_completions
      (filter (\<lambda>(k, t, _). (k, t) \<notin> browser_level_keys (ag_records a)) (rg_completed (ag_pending a))
       @ map (run_entry run) (filter (\<lambda>(k, e). k \<notin> detach_resource ` keys (ag_records a)) (rg_entries (ag_pending a))))"
proof -
  let ?reg = "fold (parent_destroyed_step run) (ag_records a) (ag_pending a)"
  have f: "rg_entries ?reg = filter (\<lambda>(k, e). k \<notin> detach_resource ` keys (ag_records a)) (rg_entries (ag_pending a))"
    "rg_completed ?reg = filter (\<lambda>(k, t, _). (k, t) \<notin> browser_level_keys (ag_records a)) (rg_completed (ag_pending a))"
    "registry_inv ?reg"
    using parent_destroyed_fold[of "ag_pending a" "ag_records a" run] assms(1) by (simp_all add: aux_inv_def)
  have "filter is_pending (rg_entries ?reg) = rg_entries ?reg" "filter (\<lambda>ke. \<not> is_pending ke) (rg_entries ?reg) = []"
    using assms(2) unfolding f(1) filter_id_conv filter_empty_conv by (auto simp: list_all_iff)
  then show ?thesis
    using cleanup_all_spec[OF f(3), of run]
    by (simp add: cleanup_after_parent_destroyed_def Let_def f(1,2))
qed

theorem parent_destroyed_drains_witness:
  "fst (cleanup_after_parent_destroyed (\<lambda>_. Some (OOther ''lost''))
     (snd (aux_begin (Some ''P'') ''w1'' ''t1'' ''worker'' (snd (aux_begin None ''w2'' ''t2'' ''worker'' new_aux))))) = Some []"
proof -
  let ?a = "snd (aux_begin (Some ''P'') ''w1'' ''t1'' ''worker'' (snd (aux_begin None ''w2'' ''t2'' ''worker'' new_aux)))"
  have inv: "aux_inv ?a" by (intro aux_inv_begin aux_inv_new)
  have entries: "map fst (rg_entries (ag_pending ?a)) = [detach_resource ''w2'', detach_resource ''w1'']"
    "map fst (ag_records ?a) = [''w2'', ''w1'']" "rg_completed (ag_pending ?a) = []"
    by (simp_all add: aux_begin_def new_aux_def registry_register_def new_registry_def Let_def)
  have owned: "k \<in> detach_resource ` keys (ag_records ?a)" if "(k, e) \<in> set (rg_entries (ag_pending ?a))" for k e
  proof -
    have "k \<in> set (map fst (rg_entries (ag_pending ?a)))" using that by force
    then show ?thesis unfolding entries(1) using entries(2) by (metis image_set list.simps(8,9))
  qed
  have "list_all (\<lambda>(k, e). k \<notin> detach_resource ` keys (ag_records ?a) \<longrightarrow> pe_state e = PsPending)
      (rg_entries (ag_pending ?a))"
    using owned by (auto simp: list_all_iff)
  from parent_destroyed_drains[OF inv this] obtain report where
    r: "fst (cleanup_after_parent_destroyed (\<lambda>_. Some (OOther ''lost'')) ?a) = Some report"
      "report = sorted_completions
        (filter (\<lambda>(k, t, _). (k, t) \<notin> browser_level_keys (ag_records ?a)) (rg_completed (ag_pending ?a))
         @ map (run_entry (\<lambda>_. Some (OOther ''lost''))) (filter (\<lambda>(k, e). k \<notin> detach_resource ` keys (ag_records ?a)) (rg_entries (ag_pending ?a))))"
    by blast
  have "filter (\<lambda>(k, e). k \<notin> detach_resource ` keys (ag_records ?a)) (rg_entries (ag_pending ?a)) = []"
    using owned by (auto simp: filter_empty_conv)
  with r entries(3) show ?thesis by (simp add: sorted_completions_def)
qed

end
