(* ===== verification/EventHub.thy ===== *)
theory EventHub
  imports Errors Json "HOL-Library.Sublist"
begin

text \<open>
  Typed event hubs (\<open>src/src/runtime/event.rs\<close>): one per runtime, session and page. A hub
  numbers the events its reducer publishes, hands each to every subscribed stream, and ends all
  streams once with a terminal error. The channels belong to Tokio: an unbounded queue that keeps
  everything sent in order and refuses a send once its receiver has been dropped.
\<close>

subsection \<open>Identities, envelopes and terminals\<close>

record event_identity =
  id_runtime :: ident
  id_browser_session :: "ident option"
  id_page :: "ident option"
  id_target :: "ident option"
  id_page_generation :: "u64 option"
  id_frame :: "ident option"
  id_routed_session :: "ident option"

definition runtime_identity :: "ident \<Rightarrow> event_identity" where
  "runtime_identity runtime =
     \<lparr>id_runtime = runtime, id_browser_session = None, id_page = None, id_target = None,
      id_page_generation = None, id_frame = None, id_routed_session = None\<rparr>"

definition for_session :: "ident \<Rightarrow> event_identity \<Rightarrow> event_identity" where
  "for_session session i = i\<lparr>id_browser_session := Some session\<rparr>"

definition for_page :: "ident \<Rightarrow> ident \<Rightarrow> u64 \<Rightarrow> event_identity \<Rightarrow> event_identity" where
  "for_page page target gen i =
     i\<lparr>id_page := Some page, id_target := Some target, id_page_generation := Some gen\<rparr>"

definition for_frame :: "ident \<Rightarrow> ident option \<Rightarrow> event_identity \<Rightarrow> event_identity" where
  "for_frame f routed i = i\<lparr>id_frame := Some f, id_routed_session := routed\<rparr>"

definition for_route :: "ident \<Rightarrow> event_identity \<Rightarrow> event_identity" where
  "for_route routed i = i\<lparr>id_routed_session := Some routed\<rparr>"

record event_metadata =
  em_sequence :: u64
  em_observed_at :: nat
  em_identity :: event_identity

record 'e event_envelope =
  ee_metadata :: event_metadata
  ee_event :: 'e

datatype close_reason = ScopeClosed | TargetReplaced | Disconnected | SourceClosed | RouteFailed

record stream_terminal =
  tm_reason :: close_reason
  tm_browser_error :: "browser_error_snapshot option"

text \<open>The stream error has the fields of the terminal it is made from.\<close>

datatype 'e stream_item = Item "'e event_envelope" | Ended stream_terminal

definition stream_browser_error :: "stream_terminal \<Rightarrow> rt_error option" where
  "stream_browser_error t = map_option restore (tm_browser_error t)"

subsection \<open>Facts of the protocol\<close>

text \<open>The protocol types of \<open>cdpkit\<close>: the fields the conversions read.\<close>

record cdp_call_frame =
  cf_function_name :: string
  cf_url :: string
  cf_line_number :: int
  cf_column_number :: int

datatype cdp_stack_trace = StackTrace (tr_frames: "cdp_call_frame list") (tr_parent: "cdp_stack_trace option")

definition stack_frame_of :: "cdp_call_frame \<Rightarrow> stack_frame" where
  "stack_frame_of f =
     \<lparr>sf_function_name = cf_function_name f, sf_url = cf_url f, sf_line_number = cf_line_number f,
      sf_column_number = cf_column_number f\<rparr>"

fun stack_frames :: "cdp_stack_trace \<Rightarrow> stack_frame list" where
  "stack_frames (StackTrace frames None) = map stack_frame_of frames"
| "stack_frames (StackTrace frames (Some parent)) = map stack_frame_of frames @ stack_frames parent"

record cdp_remote_object =
  ro_type :: string
  ro_subtype :: "string option"
  ro_value :: "json option"
  ro_unserializable :: "string option"
  ro_description :: "string option"

record console_argument =
  ca_type_name :: string
  ca_subtype :: "string option"
  ca_value :: "json option"
  ca_unserializable :: "string option"
  ca_description :: "string option"

record cdp_console_called =
  cc_type :: string
  cc_args :: "cdp_remote_object list"
  cc_context :: int
  cc_timestamp :: rat
  cc_stack :: "cdp_stack_trace option"

record console_message =
  cm_kind :: string
  cm_arguments :: "console_argument list"
  cm_execution_context_id :: int
  cm_protocol_timestamp :: rat
  cm_stack :: "stack_frame list"

definition console_message_of :: "cdp_console_called \<Rightarrow> console_message" where
  "console_message_of e =
     \<lparr>cm_kind = cc_type e,
      cm_arguments =
        map (\<lambda>a. \<lparr>ca_type_name = ro_type a, ca_subtype = ro_subtype a, ca_value = ro_value a,
                   ca_unserializable = ro_unserializable a, ca_description = ro_description a\<rparr>) (cc_args e),
      cm_execution_context_id = cc_context e, cm_protocol_timestamp = cc_timestamp e,
      cm_stack = or_default [] (map_option stack_frames (cc_stack e))\<rparr>"

record cdp_exception_thrown =
  et_timestamp :: rat
  et_exception_id :: int
  et_text :: string
  et_url :: "string option"
  et_line_number :: int
  et_column_number :: int
  et_context :: "int option"
  et_exception :: "cdp_remote_object option"
  et_stack :: "cdp_stack_trace option"

record javascript_error =
  jx_exception_id :: int
  jx_text :: string
  jx_url :: "string option"
  jx_line_number :: int
  jx_column_number :: int
  jx_execution_context_id :: "int option"
  jx_protocol_timestamp :: rat
  jx_exception_description :: "string option"
  jx_stack :: "stack_frame list"

definition javascript_error_of :: "cdp_exception_thrown \<Rightarrow> javascript_error" where
  "javascript_error_of e =
     \<lparr>jx_exception_id = et_exception_id e, jx_text = et_text e, jx_url = et_url e,
      jx_line_number = et_line_number e, jx_column_number = et_column_number e,
      jx_execution_context_id = et_context e, jx_protocol_timestamp = et_timestamp e,
      jx_exception_description = Option.bind (et_exception e) ro_description,
      jx_stack = or_default [] (map_option stack_frames (et_stack e))\<rparr>"

subsection \<open>The hub\<close>

text \<open>
  A stream is the index of its channel. The channel keeps what was sent and whether the receiver
  still exists; the subscriber map gives the channel of each subscriber id.
\<close>

record 'e event_channel =
  ch_items :: "'e stream_item list"
  ch_receiver :: bool
  ch_subscriber :: u64

record 'e event_hub =
  hb_subscribers :: "(u64 \<times> nat) list"
  hb_next_subscriber :: u64
  hb_next_sequence :: u64
  hb_closed :: "stream_terminal option"
  hb_identity :: event_identity
  hb_channels :: "'e event_channel list"

definition new_hub :: "event_identity \<Rightarrow> 'e event_hub" where
  "new_hub i =
     \<lparr>hb_subscribers = [], hb_next_subscriber = 1, hb_next_sequence = 1, hb_closed = None,
      hb_identity = i, hb_channels = []\<rparr>"

definition can_send :: "'e event_channel list \<Rightarrow> nat \<Rightarrow> bool" where
  "can_send cs n \<longleftrightarrow> n < length cs \<and> ch_receiver (cs ! n)"

definition send :: "'e stream_item \<Rightarrow> nat \<Rightarrow> 'e event_channel list \<Rightarrow> 'e event_channel list" where
  "send x n cs = (if can_send cs n then cs[n := (cs ! n)\<lparr>ch_items := ch_items (cs ! n) @ [x]\<rparr>] else cs)"

definition hub_subscribe :: "'e event_hub \<Rightarrow> nat \<times> 'e event_hub" where
  "hub_subscribe h =
     (let n = length (hb_channels h);
          sid = hb_next_subscriber h;
          cs = hb_channels h @ [\<lparr>ch_items = [], ch_receiver = True, ch_subscriber = sid\<rparr>];
          h1 = h\<lparr>hb_next_subscriber := u64_saturating_succ sid, hb_channels := cs\<rparr>
      in (n, case hb_closed h of
               Some t \<Rightarrow> h1\<lparr>hb_channels := send (Ended t) n cs\<rparr>
             | None \<Rightarrow> h1\<lparr>hb_subscribers := AList.update sid n (hb_subscribers h)\<rparr>))"

text \<open>Dropping a stream removes its subscriber under the lock, then drops the receiver.\<close>

definition hub_drop_stream :: "nat \<Rightarrow> 'e event_hub \<Rightarrow> 'e event_hub" where
  "hub_drop_stream n h =
     (if can_send (hb_channels h) n
      then h\<lparr>hb_subscribers := AList.delete (ch_subscriber (hb_channels h ! n)) (hb_subscribers h),
             hb_channels := (hb_channels h)[n := (hb_channels h ! n)\<lparr>ch_receiver := False\<rparr>]\<rparr>
      else h)"

definition hub_publish_with_identity ::
  "nat \<Rightarrow> 'e \<Rightarrow> event_identity \<Rightarrow> 'e event_hub \<Rightarrow> 'e event_hub" where
  "hub_publish_with_identity now event i h =
     (if hb_closed h \<noteq> None then h
      else
        let sequence = hb_next_sequence h;
            envelope = \<lparr>ee_metadata = \<lparr>em_sequence = sequence, em_observed_at = now, em_identity = i\<rparr>,
                        ee_event = event\<rparr>
        in h\<lparr>hb_next_sequence := u64_saturating_succ sequence,
             hb_subscribers := filter (\<lambda>(_, n). can_send (hb_channels h) n) (hb_subscribers h),
             hb_channels := fold (\<lambda>(_, n). send (Item envelope) n) (hb_subscribers h) (hb_channels h)\<rparr>)"

definition hub_publish :: "nat \<Rightarrow> 'e \<Rightarrow> 'e event_hub \<Rightarrow> 'e event_hub" where
  "hub_publish now event h = hub_publish_with_identity now event (hb_identity h) h"

definition hub_close_terminal :: "stream_terminal \<Rightarrow> 'e event_hub \<Rightarrow> 'e event_hub" where
  "hub_close_terminal t h =
     (if hb_closed h \<noteq> None then h
      else h\<lparr>hb_closed := Some t, hb_subscribers := [],
             hb_channels := fold (\<lambda>(_, n). send (Ended t) n) (hb_subscribers h) (hb_channels h)\<rparr>)"

definition hub_close :: "close_reason \<Rightarrow> 'e event_hub \<Rightarrow> 'e event_hub" where
  "hub_close reason = hub_close_terminal \<lparr>tm_reason = reason, tm_browser_error = None\<rparr>"

definition hub_close_with_error :: "close_reason \<Rightarrow> rt_error \<Rightarrow> 'e event_hub \<Rightarrow> 'e event_hub" where
  "hub_close_with_error reason e =
     hub_close_terminal \<lparr>tm_reason = reason, tm_browser_error = Some (capture e)\<rparr>"

text \<open>Dropping the hub.\<close>

definition hub_drop :: "'e event_hub \<Rightarrow> 'e event_hub" where
  "hub_drop h =
     (if hb_closed h \<noteq> None then h
      else let t = \<lparr>tm_reason = SourceClosed, tm_browser_error = None\<rparr>
           in h\<lparr>hb_closed := Some t, hb_subscribers := [],
                hb_channels := fold (\<lambda>(_, n). send (Ended t) n) (hb_subscribers h) (hb_channels h)\<rparr>)"

lemma hub_drop_close: "hub_drop h = hub_close SourceClosed h"
  by (simp add: hub_drop_def hub_close_def hub_close_terminal_def Let_def)

interpretation terminal_latch: latch hb_closed hub_close_terminal
  by unfold_locales (simp_all add: hub_close_terminal_def)

subsection \<open>The hub with its history\<close>

text \<open>
  The log collects the envelopes accepted so far, and for each stream the length of the log at
  its subscription.
\<close>

datatype 'e hub_event =
    Subscribe
  | DropStream nat
  | PublishAs nat 'e event_identity
  | Publish nat 'e
  | CloseHub stream_terminal
  | DropHub

fun hub_apply :: "'e hub_event \<Rightarrow> 'e event_hub \<Rightarrow> 'e event_hub" where
  "hub_apply Subscribe h = snd (hub_subscribe h)"
| "hub_apply (DropStream n) h = hub_drop_stream n h"
| "hub_apply (PublishAs now e i) h = hub_publish_with_identity now e i h"
| "hub_apply (Publish now e) h = hub_publish now e h"
| "hub_apply (CloseHub t) h = hub_close_terminal t h"
| "hub_apply DropHub h = hub_drop h"

record 'e hub_system =
  hx_hub :: "'e event_hub"
  hx_log :: "'e event_envelope list"
  hx_from :: "nat list"

definition accepted :: "nat \<Rightarrow> 'e \<Rightarrow> event_identity \<Rightarrow> 'e event_hub \<Rightarrow> 'e event_envelope list" where
  "accepted now e i h =
     (if hb_closed h = None
      then [\<lparr>ee_metadata = \<lparr>em_sequence = hb_next_sequence h, em_observed_at = now, em_identity = i\<rparr>,
             ee_event = e\<rparr>]
      else [])"

fun logged :: "'e hub_event \<Rightarrow> 'e event_hub \<Rightarrow> 'e event_envelope list" where
  "logged (PublishAs now e i) h = accepted now e i h"
| "logged (Publish now e) h = accepted now e (hb_identity h) h"
| "logged _ h = []"

fun is_subscribe :: "'e hub_event \<Rightarrow> bool" where
  "is_subscribe Subscribe = True"
| "is_subscribe _ = False"

definition hub_step :: "'e hub_event \<Rightarrow> 'e hub_system \<Rightarrow> 'e hub_system" where
  "hub_step e s =
     \<lparr>hx_hub = hub_apply e (hx_hub s), hx_log = hx_log s @ logged e (hx_hub s),
      hx_from = hx_from s @ (if is_subscribe e then [length (hx_log s)] else [])\<rparr>"

definition init_hub :: "event_identity \<Rightarrow> 'e hub_system" where
  "init_hub i = \<lparr>hx_hub = new_hub i, hx_log = [], hx_from = []\<rparr>"

definition terminal_items :: "'e event_hub \<Rightarrow> 'e stream_item list" where
  "terminal_items h = (case hb_closed h of None \<Rightarrow> [] | Some t \<Rightarrow> [Ended t])"

text \<open>What the stream should see: the log from its subscription on, then the terminal.\<close>

definition view :: "'e hub_system \<Rightarrow> nat \<Rightarrow> 'e stream_item list" where
  "view s n = map Item (drop (hx_from s ! n) (hx_log s)) @ terminal_items (hx_hub s)"

abbreviation channel :: "'e hub_system \<Rightarrow> nat \<Rightarrow> 'e event_channel" where
  "channel s n \<equiv> hb_channels (hx_hub s) ! n"

abbreviation streams :: "'e hub_system \<Rightarrow> nat" where
  "streams s \<equiv> length (hb_channels (hx_hub s))"

definition stream_ok :: "'e hub_system \<Rightarrow> nat \<Rightarrow> bool" where
  "stream_ok s n \<longleftrightarrow>
     hx_from s ! n \<le> length (hx_log s) \<and> unat (ch_subscriber (channel s n)) = n + 1 \<and>
     prefix (ch_items (channel s n)) (view s n) \<and>
     (ch_receiver (channel s n) \<longrightarrow> ch_items (channel s n) = view s n)"

definition subscribed :: "'e event_hub \<Rightarrow> bool" where
  "subscribed h \<longleftrightarrow>
     wf_map (hb_subscribers h) \<and> distinct (map snd (hb_subscribers h)) \<and>
     (if hb_closed h = None
      then set (hb_subscribers h) =
        {(ch_subscriber (hb_channels h ! n), n) |n. n < length (hb_channels h) \<and> ch_receiver (hb_channels h ! n)}
      else hb_subscribers h = [])"

definition hub_ok :: "'e hub_system \<Rightarrow> bool" where
  "hub_ok s \<longleftrightarrow>
     length (hx_from s) = streams s \<and> unat (hb_next_subscriber (hx_hub s)) = streams s + 1 \<and>
     subscribed (hx_hub s) \<and> (\<forall>n < streams s. stream_ok s n)"

subsection \<open>Sending to every subscriber\<close>

lemma length_send [simp]: "length (send x n cs) = length cs"
  by (simp add: send_def)

lemma send_nth:
  "k < length cs \<Longrightarrow> send x n cs ! k =
     (if k = n \<and> ch_receiver (cs ! k) then (cs ! k)\<lparr>ch_items := ch_items (cs ! k) @ [x]\<rparr> else cs ! k)"
  by (auto simp: send_def can_send_def nth_list_update)

lemma length_sends [simp]: "length (fold (\<lambda>(_, n). send x n) subs cs) = length cs"
  by (induction subs arbitrary: cs) auto

lemma sends_nth:
  "distinct (map snd subs) \<Longrightarrow> k < length cs \<Longrightarrow>
   fold (\<lambda>(_, n). send x n) subs cs ! k =
     (if k \<in> snd ` set subs \<and> ch_receiver (cs ! k)
      then (cs ! k)\<lparr>ch_items := ch_items (cs ! k) @ [x]\<rparr> else cs ! k)"
proof (induction subs arbitrary: cs)
  case (Cons sn subs)
  obtain i n where [simp]: "sn = (i, n)" by (cases sn)
  show ?case using Cons.IH[of "send x n cs"] Cons.prems by (auto simp: send_nth)
qed simp

lemma subscribed_member:
  "subscribed h \<Longrightarrow> hb_closed h = None \<Longrightarrow> k < length (hb_channels h) \<Longrightarrow>
   k \<in> snd ` set (hb_subscribers h) \<longleftrightarrow> ch_receiver (hb_channels h ! k)"
  by (force simp: subscribed_def image_iff)

text \<open>Sending \<open>x\<close> to all subscribers of an open hub appends it to every stream whose receiver exists.\<close>

lemma broadcast_nth:
  assumes "subscribed h" "hb_closed h = None" "k < length (hb_channels h)"
  shows "fold (\<lambda>(_, n). send x n) (hb_subscribers h) (hb_channels h) ! k =
    (if ch_receiver (hb_channels h ! k)
     then (hb_channels h ! k)\<lparr>ch_items := ch_items (hb_channels h ! k) @ [x]\<rparr> else hb_channels h ! k)"
  using sends_nth[of "hb_subscribers h" k "hb_channels h" x] subscribed_member[OF assms] assms
  by (simp add: subscribed_def)

lemma subscribers_all_send:
  assumes "subscribed h" "hb_closed h = None"
  shows "filter (\<lambda>(_, n). can_send (hb_channels h) n) (hb_subscribers h) = hb_subscribers h"
  using assms by (force simp: filter_id_conv subscribed_def can_send_def)

subsection \<open>Every event keeps the streams in step\<close>

lemma alist_update_fresh: "k \<notin> keys m \<Longrightarrow> AList.update k v m = m @ [(k, v)]"
  by (induction m) auto

lemma hub_ok_subscribe:
  assumes ok: "hub_ok s" and bound: "streams s + 2 < 2 ^ 64"
  shows "hub_ok (hub_step Subscribe s)"
proof -
  let ?h = "hx_hub s" and ?s = "hub_step Subscribe s"
  let ?n = "streams s" and ?sid = "hb_next_subscriber (hx_hub s)"
  have len: "length (hx_from s) = ?n" and nx: "unat ?sid = ?n + 1" and sub: "subscribed ?h"
    and streams: "\<And>k. k < ?n \<Longrightarrow> stream_ok s k"
    using ok by (simp_all add: hub_ok_def)
  have hub: "hx_hub ?s = snd (hub_subscribe ?h)" "hx_log ?s = hx_log s" "hx_from ?s = hx_from s @ [length (hx_log s)]"
    by (simp_all add: hub_step_def)
  have closed: "hb_closed (hx_hub ?s) = hb_closed ?h"
    unfolding hub by (simp add: hub_subscribe_def Let_def split: option.splits)
  have old: "channel ?s k = channel s k" if "k < ?n" for k
    unfolding hub using that by (auto simp: hub_subscribe_def Let_def send_def nth_append split: option.splits)
  have new: "channel ?s ?n = \<lparr>ch_items = terminal_items ?h, ch_receiver = True, ch_subscriber = ?sid\<rparr>"
    unfolding hub
    by (auto simp: hub_subscribe_def Let_def send_def can_send_def nth_append terminal_items_def split: option.splits)
  have view: "view ?s k = view s k" if "k < ?n" for k
    using that len closed by (simp add: view_def hub(2,3) nth_append terminal_items_def)
  have sok: "stream_ok ?s k" if k: "k < Suc ?n" for k
  proof (cases "k < ?n")
    case True
    with streams[OF True] len show ?thesis by (simp add: stream_ok_def old view hub(2,3) nth_append)
  next
    case False
    with k have "k = ?n" by simp
    with len new closed nx show ?thesis
      by (simp add: stream_ok_def view_def hub(2,3) nth_append terminal_items_def)
  qed
  have chans: "streams ?s = Suc ?n"
    unfolding hub by (simp add: hub_subscribe_def Let_def split: option.splits)
  have nxt: "unat (hb_next_subscriber (hx_hub ?s)) = Suc ?n + 1"
    unfolding hub using nx bound
    by (simp add: hub_subscribe_def Let_def unat_saturating_succ usize_max_def split: option.splits)
  have sub': "subscribed (hx_hub ?s)"
  proof (cases "hb_closed ?h")
    case None
    have set: "set (hb_subscribers ?h) = {(ch_subscriber (channel s k), k) |k. k < ?n \<and> ch_receiver (channel s k)}"
      using sub None by (simp add: subscribed_def)
    have neq: "?sid \<noteq> ch_subscriber (channel s k)" if "k < ?n" for k
      using streams[OF that] nx that by (auto simp: stream_ok_def)
    have fresh: "?sid \<notin> keys (hb_subscribers ?h)" "?n \<notin> snd ` set (hb_subscribers ?h)"
      unfolding set_map set by (auto dest: neq)
    have subs': "hb_subscribers (hx_hub ?s) = hb_subscribers ?h @ [(?sid, ?n)]"
      unfolding hub using None alist_update_fresh[OF fresh(1)] by (simp add: hub_subscribe_def Let_def)
    have "set (hb_subscribers (hx_hub ?s)) =
        {(ch_subscriber (channel ?s k), k) |k. k < Suc ?n \<and> ch_receiver (channel ?s k)}"
      unfolding subs' set_append set by (auto simp: less_Suc_eq old new)
    with sub fresh None show ?thesis
      unfolding subscribed_def closed chans by (simp add: subs' image_iff)
  next
    case (Some t)
    then show ?thesis using sub closed unfolding subscribed_def hub
      by (simp add: hub_subscribe_def Let_def)
  qed
  show ?thesis
    using len nxt sub' sok by (simp add: hub_ok_def chans hub(3))
qed

text \<open>Events that open no stream: the channels change one by one, keeping receivers and subscribers.\<close>

lemma hub_ok_step:
  assumes ok: "hub_ok s"
    and len: "streams s' = streams s" and from': "hx_from s' = hx_from s"
    and nx: "hb_next_subscriber (hx_hub s') = hb_next_subscriber (hx_hub s)"
    and sub: "subscribed (hx_hub s')"
    and each: "\<And>k. k < streams s \<Longrightarrow> stream_ok s k \<Longrightarrow> stream_ok s' k"
  shows "hub_ok s'"
  using assms by (simp add: hub_ok_def)

lemma hub_ok_drop_stream:
  assumes ok: "hub_ok s"
  shows "hub_ok (hub_step (DropStream n) s)"
proof (cases "can_send (hb_channels (hx_hub s)) n")
  case True
  let ?h = "hx_hub s" and ?s = "hub_step (DropStream n) s"
  have n: "n < streams s" "ch_receiver (channel s n)" using True by (simp_all add: can_send_def)
  have hub: "hx_hub ?s = ?h\<lparr>hb_subscribers := AList.delete (ch_subscriber (channel s n)) (hb_subscribers ?h),
      hb_channels := (hb_channels ?h)[n := (channel s n)\<lparr>ch_receiver := False\<rparr>]\<rparr>"
    "hx_log ?s = hx_log s" "hx_from ?s = hx_from s"
    using True by (simp_all add: hub_step_def hub_drop_stream_def)
  have view: "view ?s k = view s k" for k by (simp add: view_def hub terminal_items_def)
  have su: "unat (ch_subscriber (channel s k)) = k + 1" if "k < streams s" for k
    using ok that by (simp add: hub_ok_def stream_ok_def)
  have inj: "ch_subscriber (channel s k) = ch_subscriber (channel s n) \<longleftrightarrow> k = n" if "k < streams s" for k
  proof
    assume "ch_subscriber (channel s k) = ch_subscriber (channel s n)"
    then have "unat (ch_subscriber (channel s k)) = unat (ch_subscriber (channel s n))" by (rule arg_cong)
    then show "k = n" unfolding su[OF that] su[OF n(1)] by (rule add_right_imp_eq)
  qed simp
  have sub: "subscribed ?h" using ok by (simp add: hub_ok_def)
  have sub': "subscribed (hx_hub ?s)"
  proof (cases "hb_closed ?h")
    case None
    have set: "set (hb_subscribers ?h) = {(ch_subscriber (channel s k), k) |k. k < streams s \<and> ch_receiver (channel s k)}"
      using sub None by (simp add: subscribed_def)
    have chan: "channel ?s k = (if k = n then (channel s n)\<lparr>ch_receiver := False\<rparr> else channel s k)"
      if "k < streams s" for k
      using that by (simp add: hub(1) nth_list_update)
    have len: "streams ?s = streams s" by (simp add: hub(1))
    have "ik \<in> set (AList.delete (ch_subscriber (channel s n)) (hb_subscribers ?h)) \<longleftrightarrow>
        ik \<in> {(ch_subscriber (channel ?s k), k) |k. k < streams ?s \<and> ch_receiver (channel ?s k)}" for ik
    proof -
      obtain i k where ik: "ik = (i, k)" by (cases ik)
      have "ik \<in> set (AList.delete (ch_subscriber (channel s n)) (hb_subscribers ?h)) \<longleftrightarrow>
          i \<noteq> ch_subscriber (channel s n) \<and> ik \<in> set (hb_subscribers ?h)"
        unfolding ik AList.delete_eq set_filter mem_Collect_eq prod.case by blast
      also have "\<dots> \<longleftrightarrow> k < streams s \<and> k \<noteq> n \<and> ch_receiver (channel s k) \<and> i = ch_subscriber (channel s k)"
      proof -
        have "ik \<in> set (hb_subscribers ?h) \<longleftrightarrow>
            i = ch_subscriber (channel s k) \<and> k < streams s \<and> ch_receiver (channel s k)"
          unfolding ik set by blast
        with inj[of k] show ?thesis
          by (cases "k < streams s"; cases "i = ch_subscriber (channel s k)") simp_all
      qed
      also have "\<dots> \<longleftrightarrow> ik \<in> {(ch_subscriber (channel ?s k), k) |k. k < streams ?s \<and> ch_receiver (channel ?s k)}"
      proof -
        have "ik \<in> {(ch_subscriber (channel ?s k), k) |k. k < streams ?s \<and> ch_receiver (channel ?s k)} \<longleftrightarrow>
            i = ch_subscriber (channel ?s k) \<and> k < streams s \<and> ch_receiver (channel ?s k)"
          unfolding ik len by blast
        with chan[of k] show ?thesis by (cases "k = n") auto
      qed
      finally show ?thesis .
    qed
    then have "set (AList.delete (ch_subscriber (channel s n)) (hb_subscribers ?h)) =
        {(ch_subscriber (channel ?s k), k) |k. k < streams ?s \<and> ch_receiver (channel ?s k)}" by (rule set_eqI)
    with sub None show ?thesis
      by (simp add: subscribed_def hub(1) AList.delete_eq distinct_map_filter)
  next
    case (Some t)
    with sub show ?thesis by (simp add: subscribed_def hub(1))
  qed
  have "stream_ok ?s k" if "k < streams s" "stream_ok s k" for k
    using that unfolding stream_ok_def view by (cases "k = n") (simp_all add: hub)
  with sub' show ?thesis by (intro hub_ok_step[OF ok]) (simp_all add: hub)
next
  case False
  then have "hub_step (DropStream n) s = s" by (simp add: hub_step_def hub_drop_stream_def)
  with ok show ?thesis by simp
qed

text \<open>A broadcast to an open hub that records \<open>extra\<close> as the new part of every stream's view.\<close>

lemma hub_ok_broadcast:
  assumes ok: "hub_ok s" and op: "hb_closed (hx_hub s) = None"
    and chans: "hb_channels (hx_hub s') = fold (\<lambda>(_, n). send x n) (hb_subscribers (hx_hub s)) (hb_channels (hx_hub s))"
    and subs: "hb_subscribers (hx_hub s') =
      (if hb_closed (hx_hub s') = None then hb_subscribers (hx_hub s) else [])"
    and nx: "hb_next_subscriber (hx_hub s') = hb_next_subscriber (hx_hub s)"
    and from': "hx_from s' = hx_from s" and log: "length (hx_log s) \<le> length (hx_log s')"
    and view: "\<And>k. k < streams s \<Longrightarrow> hx_from s ! k \<le> length (hx_log s) \<Longrightarrow> view s' k = view s k @ [x]"
  shows "hub_ok s'"
proof -
  have sub: "subscribed (hx_hub s)" using ok by (simp add: hub_ok_def)
  have len: "streams s' = streams s" by (simp add: chans)
  have nth: "channel s' k = (if ch_receiver (channel s k)
      then (channel s k)\<lparr>ch_items := ch_items (channel s k) @ [x]\<rparr> else channel s k)"
    if "k < streams s" for k
    unfolding chans by (rule broadcast_nth[OF sub op that])
  have same: "ch_receiver (channel s' k) = ch_receiver (channel s k)"
    "ch_subscriber (channel s' k) = ch_subscriber (channel s k)" if "k < streams s" for k
    by (simp_all add: nth[OF that])
  have "subscribed (hx_hub s')"
  proof (cases "hb_closed (hx_hub s')")
    case None
    have "{(ch_subscriber (channel s' k), k) |k. k < streams s' \<and> ch_receiver (channel s' k)} =
        {(ch_subscriber (channel s k), k) |k. k < streams s \<and> ch_receiver (channel s k)}"
      unfolding len using same by auto
    with sub op None subs show ?thesis by (simp add: subscribed_def)
  qed (simp add: subscribed_def subs)
  then show ?thesis
  proof (rule hub_ok_step[OF ok len from' nx])
    fix k assume k: "k < streams s" and sk: "stream_ok s k"
    have v: "view s' k = view s k @ [x]" using view[OF k] sk by (simp add: stream_ok_def)
    show "stream_ok s' k"
      using sk log unfolding stream_ok_def v same[OF k] from'
      by (auto simp: nth[OF k])
  qed
qed

lemma hub_ok_publish_as:
  assumes ok: "hub_ok s"
  shows "hub_ok (hub_step (PublishAs now e i) s)"
proof (cases "hb_closed (hx_hub s)")
  case None
  have sub: "subscribed (hx_hub s)" using ok by (simp add: hub_ok_def)
  show ?thesis
    by (rule hub_ok_broadcast[OF ok None, where x = "Item \<lparr>ee_metadata = \<lparr>em_sequence = hb_next_sequence (hx_hub s),
          em_observed_at = now, em_identity = i\<rparr>, ee_event = e\<rparr>"])
      (use None subscribers_all_send[OF sub None] in
        \<open>simp_all add: hub_step_def hub_publish_with_identity_def Let_def accepted_def view_def terminal_items_def\<close>)
next
  case (Some t)
  then have "hub_step (PublishAs now e i) s = s"
    by (simp add: hub_step_def hub_publish_with_identity_def accepted_def)
  with ok show ?thesis by simp
qed

lemma hub_step_publish: "hub_step (Publish now e) s = hub_step (PublishAs now e (hb_identity (hx_hub s))) s"
  by (simp add: hub_step_def hub_publish_def)

lemma hub_ok_close:
  assumes ok: "hub_ok s"
  shows "hub_ok (hub_step (CloseHub t) s)"
proof (cases "hb_closed (hx_hub s)")
  case None
  show ?thesis
    by (rule hub_ok_broadcast[OF ok None, where x = "Ended t"])
      (use None in \<open>simp_all add: hub_step_def hub_close_terminal_def view_def terminal_items_def\<close>)
next
  case (Some t')
  then have "hub_step (CloseHub t) s = s" by (simp add: hub_step_def hub_close_terminal_def)
  with ok show ?thesis by simp
qed

lemma hub_step_drop: "hub_step DropHub s = hub_step (CloseHub \<lparr>tm_reason = SourceClosed, tm_browser_error = None\<rparr>) s"
  by (simp add: hub_step_def hub_drop_close hub_close_def)

text \<open>The subscriber ids stay distinct as long as the id counter does not saturate.\<close>

definition hub_inv :: "'e hub_system \<Rightarrow> bool" where
  "hub_inv s \<longleftrightarrow> streams s + 1 < 2 ^ 64 \<longrightarrow> hub_ok s"

lemma streams_step: "streams (hub_step e s) = streams s + (if is_subscribe e then 1 else 0)"
  by (cases e)
    (auto simp: hub_step_def hub_subscribe_def hub_drop_stream_def hub_publish_def hub_publish_with_identity_def
      hub_close_terminal_def hub_drop_def Let_def split: option.splits)

lemma hub_inv_step: "hub_inv s \<Longrightarrow> hub_inv (hub_step e s)"
  unfolding hub_inv_def streams_step
  by (cases e)
    (auto simp: hub_step_publish hub_step_drop hub_ok_publish_as hub_ok_close hub_ok_drop_stream
      intro: hub_ok_subscribe)

interpretation hub_runs: event_machine hub_step hub_inv
  by unfold_locales (rule hub_inv_step)

lemma hub_inv_init: "hub_inv (init_hub i)"
  by (simp add: hub_inv_def hub_ok_def init_hub_def new_hub_def subscribed_def)

text \<open>
  C19: over every sequence of subscriptions, drops, publications and closes of a hub, a stream
  whose receiver exists has received exactly the envelopes published since its subscription, in
  order and none twice, followed by the one terminal error when the hub is closed (at once for a
  late subscriber); a dropped stream received a prefix of that.
\<close>

theorem streams_see_history:
  assumes "s = fold hub_step es (init_hub i)" "streams s + 1 < 2 ^ 64" "n < streams s"
  shows "prefix (ch_items (channel s n)) (view s n) \<and>
    (ch_receiver (channel s n) \<longrightarrow> ch_items (channel s n) = view s n)"
proof -
  have "hub_inv s" unfolding assms(1) by (rule hub_runs.run_inv[OF hub_inv_init])
  with assms(2,3) show ?thesis by (simp add: hub_inv_def hub_ok_def stream_ok_def)
qed

theorem streams_see_history_witness:
  "ch_items (channel (fold hub_step
       [Subscribe, PublishAs 0 (7::nat) (runtime_identity ''rt''), Subscribe, PublishAs 1 8 (runtime_identity ''rt''),
        CloseHub \<lparr>tm_reason = ScopeClosed, tm_browser_error = None\<rparr>] (init_hub (runtime_identity ''rt''))) 1)
   = view (fold hub_step
       [Subscribe, PublishAs 0 (7::nat) (runtime_identity ''rt''), Subscribe, PublishAs 1 8 (runtime_identity ''rt''),
        CloseHub \<lparr>tm_reason = ScopeClosed, tm_browser_error = None\<rparr>] (init_hub (runtime_identity ''rt''))) 1"
  (is "ch_items (channel ?s 1) = _")
proof -
  have "streams ?s + 1 < 2 ^ 64" "1 < streams ?s" and alive: "ch_receiver (channel ?s 1)"
    by (simp_all add: hub_step_def init_hub_def new_hub_def hub_subscribe_def hub_publish_with_identity_def
        hub_close_terminal_def Let_def send_def can_send_def u64_saturating_succ_def)
  from streams_see_history[OF refl this(1,2)] alive show ?thesis by (simp only: simp_thms)
qed

text \<open>
  the envelopes of a hub are numbered from one without gaps, in the order of publication, as
  long as the 64-bit sequence does not saturate.
\<close>

theorem sequence_numbers_consecutive:
  assumes "length (hx_log (fold hub_step es (init_hub i))) + 1 < 2 ^ 64"
  shows "map (unat \<circ> em_sequence \<circ> ee_metadata) (hx_log (fold hub_step es (init_hub i))) =
    [1 ..< length (hx_log (fold hub_step es (init_hub i))) + 1]"
proof -
  have step: "length (hx_log (hub_step e s)) + 1 < 2 ^ 64 \<longrightarrow>
      map (unat \<circ> em_sequence \<circ> ee_metadata) (hx_log (hub_step e s)) = [1 ..< length (hx_log (hub_step e s)) + 1] \<and>
      unat (hb_next_sequence (hx_hub (hub_step e s))) = length (hx_log (hub_step e s)) + 1"
    if "length (hx_log s) + 1 < 2 ^ 64 \<longrightarrow>
      map (unat \<circ> em_sequence \<circ> ee_metadata) (hx_log s) = [1 ..< length (hx_log s) + 1] \<and>
      unat (hb_next_sequence (hx_hub s)) = length (hx_log s) + 1" for e and s :: "'a hub_system"
    using that
    by (cases e)
      (auto simp: hub_step_def hub_subscribe_def hub_drop_stream_def hub_publish_def hub_publish_with_identity_def
        hub_close_terminal_def hub_drop_def accepted_def unat_saturating_succ usize_max_def Let_def
        split: option.splits)
  have "length (hx_log (fold hub_step es s)) + 1 < 2 ^ 64 \<longrightarrow>
      map (unat \<circ> em_sequence \<circ> ee_metadata) (hx_log (fold hub_step es s)) = [1 ..< length (hx_log (fold hub_step es s)) + 1]"
    if "length (hx_log s) + 1 < 2 ^ 64 \<longrightarrow>
      map (unat \<circ> em_sequence \<circ> ee_metadata) (hx_log s) = [1 ..< length (hx_log s) + 1] \<and>
      unat (hb_next_sequence (hx_hub s)) = length (hx_log s) + 1" for s
    using that
  proof (induction es arbitrary: s)
    case (Cons e es)
    show ?case using Cons.IH[OF step[OF Cons.prems]] by simp
  qed simp
  from this[of "init_hub i"] assms show ?thesis by (simp add: init_hub_def new_hub_def)
qed

theorem sequence_numbers_consecutive_witness:
  "map (unat \<circ> em_sequence \<circ> ee_metadata) (hx_log (fold hub_step
     [PublishAs 0 (7::nat) (runtime_identity ''rt''), Subscribe, Publish 1 8] (init_hub (runtime_identity ''rt'')))) = [1, 2]"
  using sequence_numbers_consecutive[of
     "[PublishAs 0 (7::nat) (runtime_identity ''rt''), Subscribe, Publish 1 8]" "runtime_identity ''rt''"]
  by (simp add: hub_step_def init_hub_def new_hub_def hub_subscribe_def hub_publish_def hub_publish_with_identity_def
      accepted_def Let_def upt_rec)

end
