(* ===== verification/NetworkFacts.thy ===== *)
theory NetworkFacts
  imports Json Rust_Strings Errors Lifecycle
begin

text \<open>
  The facts of network observation (\<open>src/src/runtime/network.rs\<close>): request identities, the facts
  built from protocol payloads, predicates over request snapshots, and the reduction of events to
  snapshots in the waiting loops. Strings are their bytes. Payload numbers are rational; the casts
  \<open>as u16\<close> and \<open>as u8\<close> truncate and saturate.
\<close>

subsection \<open>Identities and facts\<close>

record request_identity =
  ri_routed_session_id :: ident
  ri_request_id :: ident
  ri_redirect_ordinal :: nat

type_synonym header_map = "(string \<times> json) list"

record request_fact =
  rq_identity :: request_identity
  rq_url :: string
  rq_method :: string
  rq_resource_type :: string
  rq_headers :: header_map
  rq_frame_id :: "ident option"
  rq_loader_id :: "ident option"
  rq_document_url :: "string option"
  rq_initiator :: "json option"
  rq_timestamp :: "rat option"
  rq_wall_time :: "rat option"
  rq_has_post_data :: bool
  rq_event_post_data :: "string option"
  rq_post_data_may_be_truncated :: bool

record response_fact =
  rs_identity :: request_identity
  rs_url :: string
  rs_method :: "string option"
  rs_resource_type :: "string option"
  rs_frame_id :: "ident option"
  rs_status :: nat
  rs_status_text :: string
  rs_headers :: header_map
  rs_mime_type :: string
  rs_protocol :: "string option"
  rs_remote_ip_address :: "string option"
  rs_remote_port :: "nat option"
  rs_from_disk_cache :: bool
  rs_from_service_worker :: bool
  rs_from_prefetch_cache :: bool
  rs_encoded_data_length :: "rat option"
  rs_timing :: "json option"
  rs_security_details :: "json option"

record request_extra_fact =
  qx_identity :: request_identity
  qx_headers :: header_map
  qx_associated_cookies :: "json option"
  qx_connect_timing :: "json option"
  qx_client_security_state :: "json option"

record response_extra_fact =
  sx_identity :: request_identity
  sx_status :: "nat option"
  sx_headers :: header_map
  sx_headers_text :: "string option"
  sx_blocked_cookies :: "json option"
  sx_resource_ip_address_space :: "string option"

record loading_finished_fact =
  lf_identity :: request_identity
  lf_timestamp :: "rat option"
  lf_encoded_data_length :: "rat option"

record loading_failed_fact =
  lx_identity :: request_identity
  lx_timestamp :: "rat option"
  lx_resource_type :: "string option"
  lx_error_text :: string
  lx_canceled :: bool
  lx_blocked_reason :: "string option"
  lx_cors_error_status :: "json option"
  lx_route_detached :: bool

record web_socket_fact =
  ws_request_id :: ident
  ws_url :: "string option"
  ws_timestamp :: "rat option"
  ws_headers :: header_map
  ws_status :: "nat option"
  ws_opcode :: "nat option"
  ws_masked :: "bool option"
  ws_payload_length :: "nat option"
  ws_error_message :: "string option"

record event_source_message_fact =
  es_identity :: request_identity
  es_timestamp :: "rat option"
  es_event_name :: string
  es_event_id :: string
  es_data_length :: nat

datatype route_close_reason = RouteDetached | RouteSourceClosed

record network_frame_scope =
  ns_frame_id :: ident
  ns_page_generation :: u64
  ns_document_epoch :: u64

datatype network_event =
    RequestStarted request_fact
  | RequestExtraInfo request_extra_fact
  | ResponseReceived response_fact
  | ResponseExtraInfo response_extra_fact
  | LoadingFinished loading_finished_fact
  | LoadingFailed loading_failed_fact
  | Redirected request_identity request_identity response_fact
  | RequestServedFromCache request_identity
  | WebSocketCreated web_socket_fact
  | WebSocketHandshakeRequest web_socket_fact
  | WebSocketHandshakeResponse web_socket_fact
  | WebSocketFrameSent web_socket_fact
  | WebSocketFrameReceived web_socket_fact
  | WebSocketFrameError web_socket_fact
  | WebSocketClosed web_socket_fact
  | EventSourceMessage event_source_message_fact
  | RouteClosed ident route_close_reason "network_frame_scope list"
  | StateEvicted nat nat nat

fun request_identity_of :: "network_event \<Rightarrow> request_identity option" where
  "request_identity_of (RequestStarted v) = Some (rq_identity v)"
| "request_identity_of (RequestExtraInfo v) = Some (qx_identity v)"
| "request_identity_of (ResponseReceived v) = Some (rs_identity v)"
| "request_identity_of (ResponseExtraInfo v) = Some (sx_identity v)"
| "request_identity_of (LoadingFinished v) = Some (lf_identity v)"
| "request_identity_of (LoadingFailed v) = Some (lx_identity v)"
| "request_identity_of (Redirected from to response) = Some from"
| "request_identity_of (RequestServedFromCache i) = Some i"
| "request_identity_of (EventSourceMessage v) = Some (es_identity v)"
| "request_identity_of _ = None"

fun event_frame_id :: "network_event \<Rightarrow> ident option" where
  "event_frame_id (RequestStarted v) = rq_frame_id v"
| "event_frame_id _ = None"

subsection \<open>Facts from payloads\<close>

definition cast_unsigned :: "nat \<Rightarrow> rat \<Rightarrow> nat" where
  "cast_unsigned limit x = (if x \<le> 0 then 0 else min limit (nat \<lfloor>x\<rfloor>))"

definition as_u16 :: "rat \<Rightarrow> nat" where
  "as_u16 = cast_unsigned 65535"

lemma as_u16_code [code]:
  "as_u16 x = (if x \<le> 0 then 0 else if \<lfloor>x\<rfloor> \<le> 65535 then nat \<lfloor>x\<rfloor> else nat 65535)"
proof -
  have "min 65535 (nat z) = (if z \<le> 65535 then nat z else nat 65535)" for z
    unfolding min_def by (auto simp: le_nat_iff nat_le_iff)
  then show ?thesis by (simp only: as_u16_def cast_unsigned_def)
qed

definition as_u8 :: "rat \<Rightarrow> nat" where
  "as_u8 = cast_unsigned 255"

text \<open>A \<open>BTreeMap\<close> collected from the entries of an object, whose keys are distinct.\<close>

definition headers_of :: "json option \<Rightarrow> header_map" where
  "headers_of v = (case Option.bind v json_as_object of None \<Rightarrow> [] | Some obj \<Rightarrow> sort_key fst obj)"

definition request_fact_of :: "request_identity \<Rightarrow> json \<Rightarrow> request_fact" where
  "request_fact_of i p =
     (let r = or_default JNull (json_get ''request'' p);
          post = string_field r ''postData''
      in \<lparr>rq_identity = i,
          rq_url = or_default [] (string_field r ''url''),
          rq_method = or_default [] (string_field r ''method''),
          rq_resource_type = or_default ''Other'' (string_field p ''type''),
          rq_headers = headers_of (json_get ''headers'' r),
          rq_frame_id = string_field p ''frameId'',
          rq_loader_id = string_field p ''loaderId'',
          rq_document_url = string_field p ''documentURL'',
          rq_initiator = json_get ''initiator'' p,
          rq_timestamp = number_field p ''timestamp'',
          rq_wall_time = number_field p ''wallTime'',
          rq_has_post_data = or_default (post \<noteq> None) (boolean_field r ''hasPostData''),
          rq_event_post_data = post,
          rq_post_data_may_be_truncated = (post \<noteq> None)\<rparr>)"

definition response_fact_of :: "request_identity \<Rightarrow> json \<Rightarrow> response_fact" where
  "response_fact_of i r =
     \<lparr>rs_identity = i,
      rs_url = or_default [] (string_field r ''url''),
      rs_method = None,
      rs_resource_type = None,
      rs_frame_id = None,
      rs_status = as_u16 (or_default 0 (number_field r ''status'')),
      rs_status_text = or_default [] (string_field r ''statusText''),
      rs_headers = headers_of (json_get ''headers'' r),
      rs_mime_type = or_default [] (string_field r ''mimeType''),
      rs_protocol = string_field r ''protocol'',
      rs_remote_ip_address = string_field r ''remoteIPAddress'',
      rs_remote_port = map_option as_u16 (number_field r ''remotePort''),
      rs_from_disk_cache = or_default False (boolean_field r ''fromDiskCache''),
      rs_from_service_worker = or_default False (boolean_field r ''fromServiceWorker''),
      rs_from_prefetch_cache = or_default False (boolean_field r ''fromPrefetchCache''),
      rs_encoded_data_length = number_field r ''encodedDataLength'',
      rs_timing = json_get ''timing'' r,
      rs_security_details = json_get ''securityDetails'' r\<rparr>"

definition enrich_response :: "request_fact option \<Rightarrow> response_fact \<Rightarrow> response_fact" where
  "enrich_response request response =
     (case request of
        None \<Rightarrow> response
      | Some q \<Rightarrow> response\<lparr>rs_method := Some (rq_method q), rs_resource_type := Some (rq_resource_type q),
                         rs_frame_id := rq_frame_id q\<rparr>)"

definition request_extra_of :: "request_identity \<Rightarrow> json \<Rightarrow> request_extra_fact" where
  "request_extra_of i p =
     \<lparr>qx_identity = i, qx_headers = headers_of (json_get ''headers'' p),
      qx_associated_cookies = json_get ''associatedCookies'' p,
      qx_connect_timing = json_get ''connectTiming'' p,
      qx_client_security_state = json_get ''clientSecurityState'' p\<rparr>"

definition response_extra_of :: "request_identity \<Rightarrow> json \<Rightarrow> response_extra_fact" where
  "response_extra_of i p =
     \<lparr>sx_identity = i, sx_status = map_option as_u16 (number_field p ''statusCode''),
      sx_headers = headers_of (json_get ''headers'' p),
      sx_headers_text = string_field p ''headersText'',
      sx_blocked_cookies = json_get ''blockedCookies'' p,
      sx_resource_ip_address_space = string_field p ''resourceIPAddressSpace''\<rparr>"

definition web_socket_fact_of :: "ident \<Rightarrow> json \<Rightarrow> web_socket_fact" where
  "web_socket_fact_of request_id p =
     (let response = json_get ''response'' p;
          request = json_get ''request'' p;
          frame = json_get ''response'' p
      in \<lparr>ws_request_id = request_id,
          ws_url = string_field p ''url'',
          ws_timestamp = number_field p ''timestamp'',
          ws_headers = headers_of
            (case Option.bind request (json_get ''headers'') of
               Some h \<Rightarrow> Some h | None \<Rightarrow> Option.bind response (json_get ''headers'')),
          ws_status = map_option as_u16 (Option.bind response (\<lambda>v. number_field v ''status'')),
          ws_opcode = map_option as_u8 (Option.bind frame (\<lambda>v. number_field v ''opcode'')),
          ws_masked = Option.bind frame (\<lambda>v. boolean_field v ''mask''),
          ws_payload_length = map_option length (Option.bind frame (\<lambda>v. string_field v ''payloadData'')),
          ws_error_message = string_field p ''errorMessage''\<rparr>)"

subsection \<open>Snapshots\<close>

datatype request_terminal = TermFinished | TermFailed | TermRedirected request_identity

record network_request_snapshot =
  sn_identity :: request_identity
  sn_request :: "request_fact option"
  sn_request_extra_info :: "request_extra_fact option"
  sn_response :: "response_fact option"
  sn_response_extra_info :: "response_extra_fact option"
  sn_terminal :: "request_terminal option"
  sn_served_from_cache :: bool

definition empty_snapshot :: "request_identity \<Rightarrow> network_request_snapshot" where
  "empty_snapshot i =
     \<lparr>sn_identity = i, sn_request = None, sn_request_extra_info = None, sn_response = None,
      sn_response_extra_info = None, sn_terminal = None, sn_served_from_cache = False\<rparr>"

definition is_partial :: "network_request_snapshot \<Rightarrow> bool" where
  "is_partial s \<longleftrightarrow> sn_request s = None \<or> sn_terminal s = None"

definition lifecycle_description :: "network_request_snapshot \<Rightarrow> string" where
  "lifecycle_description s =
     ''request='' @ (if sn_request s \<noteq> None then ''started'' else ''pending'') @ '' ''
     @ (case sn_response s of None \<Rightarrow> ''response=pending'' | Some r \<Rightarrow> ''response='' @ show_nat (rs_status r))
     @ '' ''
     @ (case sn_terminal s of
          None \<Rightarrow> ''terminal=pending''
        | Some TermFinished \<Rightarrow> ''terminal=finished''
        | Some TermFailed \<Rightarrow> ''terminal=failed''
        | Some (TermRedirected n) \<Rightarrow> ''terminal=redirected-to-hop-'' @ show_nat (ri_redirect_ordinal n))"

fun apply_event :: "network_event \<Rightarrow> network_request_snapshot \<Rightarrow> network_request_snapshot" where
  "apply_event (RequestStarted v) s = s\<lparr>sn_request := Some v\<rparr>"
| "apply_event (RequestExtraInfo v) s = s\<lparr>sn_request_extra_info := Some v\<rparr>"
| "apply_event (ResponseReceived v) s = s\<lparr>sn_response := Some v\<rparr>"
| "apply_event (ResponseExtraInfo v) s = s\<lparr>sn_response_extra_info := Some v\<rparr>"
| "apply_event (LoadingFinished v) s =
     (case (sn_response s, lf_encoded_data_length v) of
        (Some response, Some encoded) \<Rightarrow>
          s\<lparr>sn_response := Some (response\<lparr>rs_encoded_data_length := Some encoded\<rparr>),
            sn_terminal := Some TermFinished\<rparr>
      | _ \<Rightarrow> s\<lparr>sn_terminal := Some TermFinished\<rparr>)"
| "apply_event (LoadingFailed v) s = s\<lparr>sn_terminal := Some TermFailed\<rparr>"
| "apply_event (Redirected from to response) s =
     s\<lparr>sn_response := Some response, sn_terminal := Some (TermRedirected to)\<rparr>"
| "apply_event (RequestServedFromCache i) s = s\<lparr>sn_served_from_cache := True\<rparr>"
| "apply_event _ s = s"

type_synonym snapshots = "(request_identity \<times> network_request_snapshot) list"

definition reduce_wait_snapshot :: "network_event \<Rightarrow> snapshots \<Rightarrow> request_identity option \<times> snapshots" where
  "reduce_wait_snapshot event m =
     (case request_identity_of event of
        None \<Rightarrow> (None, m)
      | Some i \<Rightarrow>
          (Some i, AList.update i (apply_event event (or_default (empty_snapshot i) (map_of m i))) m))"

subsection \<open>Predicates\<close>

datatype text_matcher = ExactText string bool | ContainsText string bool | RegexText string bool

text \<open>
  What the matchers use of the standard library and of other crates: Unicode lower-casing, the
  regular expression engine (pattern, case sensitivity, text), and the rendering of a JSON value.
\<close>

record text_library =
  tl_lowercase :: "string \<Rightarrow> string"
  tl_regex :: "string \<Rightarrow> bool \<Rightarrow> string \<Rightarrow> bool"
  tl_render :: "json \<Rightarrow> string"

fun is_infix :: "string \<Rightarrow> string \<Rightarrow> bool" where
  "is_infix needle [] = (needle = [])"
| "is_infix needle (c # text) = (take (length needle) (c # text) = needle \<or> is_infix needle text)"

fun text_matches :: "text_library \<Rightarrow> text_matcher \<Rightarrow> string \<Rightarrow> bool" where
  "text_matches lib (ExactText v case_sensitive) actual =
     (if case_sensitive then actual = v else eq_ignore_ascii_case actual v)"
| "text_matches lib (ContainsText v case_sensitive) actual =
     (if case_sensitive then is_infix v actual
      else is_infix (tl_lowercase lib v) (tl_lowercase lib actual))"
| "text_matches lib (RegexText pattern case_sensitive) actual = tl_regex lib pattern case_sensitive actual"

definition header_matches :: "text_library \<Rightarrow> header_map \<Rightarrow> string \<Rightarrow> text_matcher \<Rightarrow> bool" where
  "header_matches lib h name m =
     (case find (\<lambda>(k, _). eq_ignore_ascii_case k name) h of
        None \<Rightarrow> False
      | Some (_, v) \<Rightarrow>
          (case json_as_str v of
             Some s \<Rightarrow> text_matches lib m s
           | None \<Rightarrow> text_matches lib m (tl_render lib v)))"

definition effective_header_matches ::
  "text_library \<Rightarrow> header_map option \<Rightarrow> header_map option \<Rightarrow> string \<Rightarrow> text_matcher \<Rightarrow> bool" where
  "effective_header_matches lib base extra name m =
     (let extra_has_name =
            (case extra of None \<Rightarrow> False | Some h \<Rightarrow> list_ex (\<lambda>(k, _). eq_ignore_ascii_case k name) h)
      in if extra_has_name
         then (case extra of None \<Rightarrow> False | Some h \<Rightarrow> header_matches lib h name m)
         else (case base of None \<Rightarrow> False | Some h \<Rightarrow> header_matches lib h name m))"

record network_predicate =
  np_url :: "text_matcher option"
  np_method :: "string option"
  np_resource_type :: "string option"
  np_status :: "nat option"
  np_request_header :: "(string \<times> text_matcher) option"
  np_response_header :: "(string \<times> text_matcher) option"
  np_custom :: "(network_request_snapshot \<Rightarrow> bool) option"

record event_fields =
  ef_url :: "string option"
  ef_method :: "string option"
  ef_resource_type :: "string option"
  ef_status :: "nat option"

definition snapshot_fields :: "network_request_snapshot \<Rightarrow> event_fields" where
  "snapshot_fields s =
     \<lparr>ef_url = (case map_option rq_url (sn_request s) of
                 Some u \<Rightarrow> Some u | None \<Rightarrow> map_option rs_url (sn_response s)),
      ef_method = map_option rq_method (sn_request s),
      ef_resource_type = map_option rq_resource_type (sn_request s),
      ef_status = map_option rs_status (sn_response s)\<rparr>"

text \<open>\<open>is_none_or\<close> and \<open>is_some_and\<close>.\<close>

definition none_or :: "('a \<Rightarrow> bool) \<Rightarrow> 'a option \<Rightarrow> bool" where
  "none_or P v = (case v of None \<Rightarrow> True | Some x \<Rightarrow> P x)"

definition some_and :: "('a \<Rightarrow> bool) \<Rightarrow> 'a option \<Rightarrow> bool" where
  "some_and P v = (case v of None \<Rightarrow> False | Some x \<Rightarrow> P x)"

definition predicate_matches :: "text_library \<Rightarrow> network_predicate \<Rightarrow> network_request_snapshot \<Rightarrow> bool" where
  "predicate_matches lib p s =
     (let f = snapshot_fields s in
      none_or (\<lambda>m. some_and (text_matches lib m) (ef_url f)) (np_url p) \<and>
      none_or (\<lambda>m. some_and (\<lambda>v. eq_ignore_ascii_case v m) (ef_method f)) (np_method p) \<and>
      none_or (\<lambda>m. some_and (\<lambda>v. eq_ignore_ascii_case v m) (ef_resource_type f)) (np_resource_type p) \<and>
      none_or (\<lambda>st. ef_status f = Some st) (np_status p) \<and>
      none_or (\<lambda>(name, m). effective_header_matches lib (map_option rq_headers (sn_request s))
                 (map_option qx_headers (sn_request_extra_info s)) name m) (np_request_header p) \<and>
      none_or (\<lambda>(name, m). effective_header_matches lib (map_option rs_headers (sn_response s))
                 (map_option sx_headers (sn_response_extra_info s)) name m) (np_response_header p) \<and>
      none_or (\<lambda>c. c s) (np_custom p))"

subsection \<open>Waiting for a request\<close>

text \<open>
  An item of the event stream: an event, a stream error (its text) or the end. The deadline is
  not modelled: a run whose items end without a result is still waiting.
\<close>

datatype net_item = NetOk network_event | NetErr string | NetEnd

fun show_close_reason :: "route_close_reason \<Rightarrow> string" where
  "show_close_reason RouteDetached = ''Detached''"
| "show_close_reason RouteSourceClosed = ''SourceClosed''"

definition route_closed_error :: "ident \<Rightarrow> route_close_reason \<Rightarrow> rt_error" where
  "route_closed_error route reason =
     with_message (''network route '' @ route @ '' closed: '' @ show_close_reason reason)
       (operation_error ''observe network route'' Observation)"

definition stream_error :: "string \<Rightarrow> string \<Rightarrow> rt_error" where
  "stream_error op e = with_message e (operation_error op Observation)"

record wait_state =
  wt_starts :: "request_identity set"
  wt_snapshots :: snapshots
  wt_last :: "string option"

definition init_wait :: wait_state where
  "init_wait = \<lparr>wt_starts = {}, wt_snapshots = [], wt_last = None\<rparr>"

text \<open>The part of one iteration that \<open>wait_for\<close> and \<open>expect\<close> share: the matching snapshot, if any.\<close>

definition wait_observe ::
  "text_library \<Rightarrow> network_predicate \<Rightarrow> network_event \<Rightarrow> wait_state \<Rightarrow>
   network_request_snapshot option \<times> wait_state" where
  "wait_observe lib p ev st =
     (let starts = (case ev of RequestStarted q \<Rightarrow> insert (rq_identity q) (wt_starts st) | _ \<Rightarrow> wt_starts st);
          (found, m) = reduce_wait_snapshot ev (wt_snapshots st);
          st1 = st\<lparr>wt_starts := starts, wt_snapshots := m\<rparr>
      in case found of
           None \<Rightarrow> (None, st1)
         | Some i \<Rightarrow>
             if i \<notin> starts then (None, st1)
             else (case map_of m i of
                     None \<Rightarrow> (None, st1)
                   | Some s \<Rightarrow>
                       (if predicate_matches lib p s then Some s else None,
                        st1\<lparr>wt_last := Some (lifecycle_description s)\<rparr>)))"

fun source_closed :: "network_event \<Rightarrow> rt_error option" where
  "source_closed (RouteClosed route RouteSourceClosed _) = Some (route_closed_error route RouteSourceClosed)"
| "source_closed _ = None"

fun wait_for_loop ::
  "text_library \<Rightarrow> network_predicate \<Rightarrow> net_item list \<Rightarrow> wait_state \<Rightarrow>
   (rt_error + network_request_snapshot) option" where
  "wait_for_loop lib p [] st = None"
| "wait_for_loop lib p (NetOk ev # items) st =
     (case source_closed ev of
        Some e \<Rightarrow> Some (Inl e)
      | None \<Rightarrow>
          (case wait_observe lib p ev st of
             (Some s, st') \<Rightarrow> Some (Inr s)
           | (None, st') \<Rightarrow> wait_for_loop lib p items st'))"
| "wait_for_loop lib p (NetErr e # items) st = Some (Inl (stream_error ''wait for network event'' e))"
| "wait_for_loop lib p (NetEnd # items) st =
     Some (Inl (with_message ''network event stream ended'' (operation_error ''wait for network event'' Observation)))"

text \<open>
  \<open>expect\<close> runs an action beside the stream: the result is handed out once the action has
  succeeded, and it is the latest match seen so far. The inputs are the completions the biased
  selection took, in order.
\<close>

datatype expect_input = ActionDone "rt_error option" | StreamItem net_item

fun expect_loop ::
  "text_library \<Rightarrow> network_predicate \<Rightarrow> expect_input list \<Rightarrow> bool \<Rightarrow> network_request_snapshot option \<Rightarrow>
   wait_state \<Rightarrow> (rt_error + network_request_snapshot) option" where
  "expect_loop lib p [] action_done matched st = (if action_done then map_option Inr matched else None)"
| "expect_loop lib p (x # inputs) action_done matched st =
     (if action_done \<and> matched \<noteq> None then map_option Inr matched
      else (case x of
              ActionDone r \<Rightarrow>
                if action_done then expect_loop lib p inputs action_done matched st
                else (case r of
                        Some e \<Rightarrow> Some (Inl e)
                      | None \<Rightarrow> expect_loop lib p inputs True matched st)
            | StreamItem (NetOk ev) \<Rightarrow>
                (case source_closed ev of
                   Some e \<Rightarrow> Some (Inl e)
                 | None \<Rightarrow>
                     (case wait_observe lib p ev st of
                        (Some s, st') \<Rightarrow> expect_loop lib p inputs action_done (Some s) st'
                      | (None, st') \<Rightarrow> expect_loop lib p inputs action_done matched st'))
            | StreamItem (NetErr e) \<Rightarrow> Some (Inl (stream_error ''expect network event'' e))
            | StreamItem NetEnd \<Rightarrow>
                Some (Inl (with_message ''network event stream ended''
                             (operation_error ''expect network event'' Observation)))))"

subsection \<open>What a wait returns\<close>

definition hop_events :: "request_identity \<Rightarrow> network_event list \<Rightarrow> network_event list" where
  "hop_events i evs = filter (\<lambda>e. request_identity_of e = Some i) evs"

definition reduced :: "request_identity \<Rightarrow> network_event list \<Rightarrow> network_request_snapshot" where
  "reduced i evs = fold apply_event (hop_events i evs) (empty_snapshot i)"

definition started :: "network_event list \<Rightarrow> request_identity set" where
  "started evs = {rq_identity q |q. RequestStarted q \<in> set evs}"

text \<open>The last event of the prefix belongs to a started hop whose reduction matches.\<close>

definition hit :: "text_library \<Rightarrow> network_predicate \<Rightarrow> network_event list \<Rightarrow> network_request_snapshot option" where
  "hit lib p evs =
     (case request_identity_of (last evs) of
        None \<Rightarrow> None
      | Some i \<Rightarrow>
          if i \<in> started evs \<and> predicate_matches lib p (reduced i evs) then Some (reduced i evs) else None)"

fun first_hit :: "text_library \<Rightarrow> network_predicate \<Rightarrow> network_event list \<Rightarrow> network_event list \<Rightarrow>
    network_request_snapshot option" where
  "first_hit lib p seen [] = None"
| "first_hit lib p seen (ev # evs) =
     (case hit lib p (seen @ [ev]) of Some s \<Rightarrow> Some s | None \<Rightarrow> first_hit lib p (seen @ [ev]) evs)"

definition wait_inv :: "network_event list \<Rightarrow> wait_state \<Rightarrow> bool" where
  "wait_inv seen st \<longleftrightarrow>
     wt_starts st = started seen \<and>
     (\<forall>i. or_default (empty_snapshot i) (map_of (wt_snapshots st) i) = reduced i seen)"

lemma reduced_snoc:
  "reduced i (seen @ [ev]) =
     (if request_identity_of ev = Some i then apply_event ev (reduced i seen) else reduced i seen)"
  by (simp add: reduced_def hop_events_def)

lemma started_snoc:
  "started (seen @ [ev]) = (case ev of RequestStarted q \<Rightarrow> insert (rq_identity q) (started seen) | _ \<Rightarrow> started seen)"
  by (auto simp: started_def split: network_event.splits)

lemma wait_inv_init: "wait_inv [] init_wait"
  by (simp add: wait_inv_def init_wait_def started_def reduced_def hop_events_def or_default_def)

lemma reduce_snapshot_step:
  assumes "\<forall>i. or_default (empty_snapshot i) (map_of m i) = reduced i seen"
    and "reduce_wait_snapshot ev m = (found, m')"
  shows "found = request_identity_of ev"
    and "\<forall>i. or_default (empty_snapshot i) (map_of m' i) = reduced i (seen @ [ev])"
    and "found = Some j \<Longrightarrow> map_of m' j = Some (reduced j (seen @ [ev]))"
proof -
  show f: "found = request_identity_of ev"
    using assms(2) by (auto simp: reduce_wait_snapshot_def split: option.splits)
  show "\<forall>i. or_default (empty_snapshot i) (map_of m' i) = reduced i (seen @ [ev])"
    using assms by (cases "request_identity_of ev") (auto simp: reduce_wait_snapshot_def reduced_snoc or_default_def)
  show "map_of m' j = Some (reduced j (seen @ [ev]))" if "found = Some j"
    using assms that f by (auto simp: reduce_wait_snapshot_def reduced_snoc)
qed

lemma wait_observe_step:
  assumes "wait_inv seen st" "wait_observe lib p ev st = (r, st')"
  shows "r = hit lib p (seen @ [ev])" and "wait_inv (seen @ [ev]) st'"
proof -
  obtain found m' where red: "reduce_wait_snapshot ev (wt_snapshots st) = (found, m')" by fastforce
  have starts: "(case ev of RequestStarted q \<Rightarrow> insert (rq_identity q) (wt_starts st) | _ \<Rightarrow> wt_starts st)
      = started (seen @ [ev])"
    using assms(1) unfolding started_snoc by (simp add: wait_inv_def cong: network_event.case_cong)
  have inv: "\<forall>i. or_default (empty_snapshot i) (map_of (wt_snapshots st) i) = reduced i seen"
    using assms(1) by (simp add: wait_inv_def)
  note step = reduce_snapshot_step[OF inv red]
  have "r = hit lib p (seen @ [ev]) \<and> wait_inv (seen @ [ev]) st'"
  proof (cases found)
    case None
    then have id: "request_identity_of ev = None" using step(1) by simp
    show ?thesis
      using assms(2) step(2) by (auto simp: wait_observe_def red starts None id hit_def wait_inv_def Let_def)
  next
    case (Some i)
    then have id: "request_identity_of ev = Some i" using step(1) by simp
    show ?thesis
      using assms(2) step(2) step(3)[OF Some]
      by (auto simp: wait_observe_def red starts Some id hit_def wait_inv_def Let_def split: if_splits)
  qed
  then show "r = hit lib p (seen @ [ev])" "wait_inv (seen @ [ev]) st'" by simp_all
qed

lemma wait_for_first_hit:
  "wait_inv seen st \<Longrightarrow> list_all (\<lambda>ev. source_closed ev = None) evs \<Longrightarrow>
   wait_for_loop lib p (map NetOk evs) st = map_option Inr (first_hit lib p seen evs)"
proof (induction evs arbitrary: seen st)
  case (Cons ev evs)
  obtain r st' where o: "wait_observe lib p ev st = (r, st')" by fastforce
  note step = wait_observe_step[OF Cons.prems(1) o]
  show ?case using Cons.IH[OF step(2)] Cons.prems(2) o step(1)
    by (cases "hit lib p (seen @ [ev])") simp_all
qed simp

text \<open>
  Waiting for a request returns the first snapshot, in stream order, that the predicate
  accepts among the hops whose start has been observed; and that snapshot is the reduction of
  exactly the events of its own hop up to then, independent of all other requests.
\<close>

theorem wait_for_returns_first_match:
  assumes "list_all (\<lambda>ev. source_closed ev = None) evs"
  shows "wait_for_loop lib p (map NetOk evs) init_wait = map_option Inr (first_hit lib p [] evs)"
  by (rule wait_for_first_hit[OF wait_inv_init assms])

theorem wait_for_returns_first_match_witness:
  "\<exists>s. wait_for_loop \<lparr>tl_lowercase = id, tl_regex = \<lambda>_ _ _. False, tl_render = \<lambda>_. []\<rparr>
     \<lparr>np_url = Some (ContainsText ''/api'' True), np_method = None, np_resource_type = None, np_status = None,
      np_request_header = None, np_response_header = None, np_custom = None\<rparr>
     (map NetOk
       [RequestServedFromCache \<lparr>ri_routed_session_id = ''S'', ri_request_id = ''r'', ri_redirect_ordinal = 0\<rparr>,
        RequestStarted (request_fact_of \<lparr>ri_routed_session_id = ''S'', ri_request_id = ''r'', ri_redirect_ordinal = 0\<rparr>
          (JObj [(''request'', JObj [(''url'', JStr ''http://x/api'')])]))]) init_wait = Some (Inr s) \<and>
     sn_served_from_cache s"
  by (subst wait_for_returns_first_match)
    (simp_all add: hit_def started_def reduced_def hop_events_def request_fact_of_def predicate_matches_def
      snapshot_fields_def none_or_def some_and_def empty_snapshot_def string_field_def or_default_def
      boolean_field_def Let_def)

end
