(* ===== verification/NetworkReducer.thy ===== *)
theory NetworkReducer
  imports NetworkFacts FrameGraph
begin

text \<open>
  The reducer of network observation (\<open>NetworkManager\<close> in \<open>src/src/runtime/network.rs\<close>). It keeps,
  per routed session, the request hops whose first fact came from that session, the aliases that
  let a related session report on them, pending extra-info payloads, web sockets, the number of
  requests in flight and an estimate of the bytes it retains. Every event of a session is one
  step; instants are numbers.
\<close>

subsection \<open>State\<close>

record frame_scope =
  sc_frame_id :: ident
  sc_snapshot :: frame_snapshot

record request_record =
  rr_request :: "request_fact option"
  rr_request_extra :: "request_extra_fact option"
  rr_response :: "response_fact option"
  rr_response_extra :: "response_extra_fact option"
  rr_terminal :: "request_terminal option"
  rr_expects_extra :: bool
  rr_served_from_cache :: bool
  rr_frame_lineage :: "frame_scope list option"
  rr_observed_routes :: "ident set"
  rr_request_route_id :: "ident option"
  rr_response_route_id :: "ident option"
  rr_contributes_inflight :: bool
  rr_completed_at :: "nat option"
  rr_retained_bytes :: nat

record pending_extra =
  px_value :: json
  px_observed_at :: nat
  px_retained_bytes :: nat

record route_state =
  rt_current :: "(ident \<times> request_identity) list"
  rt_canonical_aliases :: "(ident \<times> request_identity) list"
  rt_requests :: "(request_identity \<times> request_record) list"
  rt_websockets :: "(ident \<times> bool) list"
  rt_pending_request_extra :: "(ident \<times> pending_extra list) list"
  rt_pending_response_extra :: "(ident \<times> pending_extra list) list"
  rt_inflight :: nat
  rt_closed_reason :: "route_close_reason option"
  rt_closed_at :: "nat option"
  rt_retained_bytes :: nat
  rt_route_scopes :: "frame_scope list"
  rt_direct_parent :: "ident option"
  rt_auxiliary_target_url :: "string option"

type_synonym reducer = "(ident \<times> route_state) list"

definition empty_record :: request_record where
  "empty_record =
     \<lparr>rr_request = None, rr_request_extra = None, rr_response = None, rr_response_extra = None,
      rr_terminal = None, rr_expects_extra = False, rr_served_from_cache = False,
      rr_frame_lineage = None, rr_observed_routes = {}, rr_request_route_id = None,
      rr_response_route_id = None, rr_contributes_inflight = False, rr_completed_at = None,
      rr_retained_bytes = 0\<rparr>"

definition empty_route :: route_state where
  "empty_route =
     \<lparr>rt_current = [], rt_canonical_aliases = [], rt_requests = [], rt_websockets = [],
      rt_pending_request_extra = [], rt_pending_response_extra = [], rt_inflight = 0,
      rt_closed_reason = None, rt_closed_at = None, rt_retained_bytes = 0, rt_route_scopes = [],
      rt_direct_parent = None, rt_auxiliary_target_url = None\<rparr>"

text \<open>
  The length of the debug rendering of a record and the size of a JSON value are parameters: they
  come from derived formatting code and from the layout of \<open>serde_json\<close>.
\<close>

record sizes =
  sz_debug :: "request_record \<Rightarrow> nat"
  sz_value :: "json \<Rightarrow> nat"

text \<open>\<open>routes.entry(r).or_default()\<close> and \<open>routes.get_mut(r)\<close>.\<close>

definition on_route :: "ident \<Rightarrow> (route_state \<Rightarrow> route_state) \<Rightarrow> reducer \<Rightarrow> reducer" where
  "on_route r f st = AList.update r (f (or_default empty_route (map_of st r))) st"

definition if_route :: "ident \<Rightarrow> (route_state \<Rightarrow> route_state) \<Rightarrow> reducer \<Rightarrow> reducer" where
  "if_route r f st = map_modify r f st"

definition local_identity :: "ident \<Rightarrow> ident \<Rightarrow> request_identity" where
  "local_identity route request_id =
     \<lparr>ri_routed_session_id = route, ri_request_id = request_id, ri_redirect_ordinal = 0\<rparr>"

definition record_of :: "reducer \<Rightarrow> request_identity \<Rightarrow> request_record option" where
  "record_of st i =
     Option.bind (map_of st (ri_routed_session_id i)) (\<lambda>rs. map_of (rt_requests rs) i)"

subsection \<open>Relating sessions\<close>

definition parent_of :: "reducer \<Rightarrow> ident \<Rightarrow> ident option" where
  "parent_of st r = Option.bind (map_of st r) rt_direct_parent"

definition routes_are_direct_family :: "reducer \<Rightarrow> ident \<Rightarrow> ident \<Rightarrow> bool" where
  "routes_are_direct_family st left right \<longleftrightarrow>
     left = right \<or> parent_of st left = Some right \<or> parent_of st right = Some left"

definition route_alias :: "reducer \<Rightarrow> ident \<Rightarrow> ident \<Rightarrow> request_identity option" where
  "route_alias st route request_id =
     Option.bind (map_of st route) (\<lambda>rs. map_of (rt_canonical_aliases rs) request_id)"

definition agree :: "'a option \<Rightarrow> 'a option \<Rightarrow> bool" where
  "agree a b = (case (a, b) of (Some x, Some y) \<Rightarrow> x = y | _ \<Rightarrow> True)"

definition request_facts_prove_handoff :: "request_fact \<Rightarrow> request_fact \<Rightarrow> bool" where
  "request_facts_prove_handoff existing incoming \<longleftrightarrow>
     rq_url existing = rq_url incoming \<and> rq_method existing = rq_method incoming \<and>
     agree (rq_loader_id existing) (rq_loader_id incoming) \<and>
     agree (rq_frame_id existing) (rq_frame_id incoming)"

definition the_unique :: "'a list \<Rightarrow> 'a option" where
  "the_unique xs = (case remdups xs of [x] \<Rightarrow> Some x | _ \<Rightarrow> None)"

definition auxiliary_url :: "reducer \<Rightarrow> ident \<Rightarrow> string option" where
  "auxiliary_url st route =
     (case Option.bind (map_of st route) rt_auxiliary_target_url of
        Some (c # u) \<Rightarrow> Some (c # u)
      | _ \<Rightarrow> None)"

definition handoff_candidates ::
  "reducer \<Rightarrow> ident \<Rightarrow> ident \<Rightarrow> (request_fact \<Rightarrow> bool) \<Rightarrow> request_identity list" where
  "handoff_candidates st observed request_id proves =
     concat (map (\<lambda>(r, rs).
        if routes_are_direct_family st r observed
        then map fst (filter (\<lambda>(i, rec). ri_request_id i = request_id \<and> rr_terminal rec = None \<and>
               some_and proves (rr_request rec)) (rt_requests rs))
        else []) st)"

definition unique_request_handoff ::
  "reducer \<Rightarrow> ident \<Rightarrow> ident \<Rightarrow> request_fact \<Rightarrow> request_identity option" where
  "unique_request_handoff st observed request_id incoming =
     the_unique (handoff_candidates st observed request_id
       (\<lambda>existing. request_facts_prove_handoff existing incoming \<and>
                   none_or (\<lambda>url. url = rq_url incoming) (auxiliary_url st observed)))"

definition unique_response_handoff ::
  "reducer \<Rightarrow> ident \<Rightarrow> ident \<Rightarrow> string \<Rightarrow> request_identity option" where
  "unique_response_handoff st observed request_id response_url =
     (if response_url = [] then None
      else if some_and (\<lambda>url. url \<noteq> response_url) (auxiliary_url st observed) then None
      else the_unique (handoff_candidates st observed request_id (\<lambda>q. rq_url q = response_url)))"

definition clear_current_identity :: "request_identity \<Rightarrow> reducer \<Rightarrow> reducer" where
  "clear_current_identity i st =
     map_values (\<lambda>rs. rs\<lparr>rt_current := filter (\<lambda>(_, current). current \<noteq> i) (rt_current rs)\<rparr>) st"

definition advance_alias_identity :: "request_identity \<Rightarrow> request_identity \<Rightarrow> reducer \<Rightarrow> reducer" where
  "advance_alias_identity from to st =
     map_values (\<lambda>rs. rs\<lparr>rt_canonical_aliases :=
        map_values (\<lambda>alias. if alias = from then to else alias) (rt_canonical_aliases rs)\<rparr>) st"

definition add_route ::
  "bool \<Rightarrow> ident \<Rightarrow> frame_scope list \<Rightarrow> ident option \<Rightarrow> string option \<Rightarrow> reducer \<Rightarrow> reducer" where
  "add_route known r scopes parent url st =
     (if known
      then on_route r (\<lambda>rs.
             rs\<lparr>rt_route_scopes :=
                  fold (\<lambda>s acc. if s \<in> set acc then acc else acc @ [s]) scopes (rt_route_scopes rs),
                rt_direct_parent := (if parent \<noteq> None then parent else rt_direct_parent rs),
                rt_auxiliary_target_url := (if url \<noteq> None then url else rt_auxiliary_target_url rs)\<rparr>) st
      else on_route r (\<lambda>rs.
             rs\<lparr>rt_route_scopes := scopes, rt_direct_parent := parent, rt_auxiliary_target_url := url\<rparr>) st)"

subsection \<open>Records\<close>

definition refresh_record_retained :: "sizes \<Rightarrow> request_identity \<Rightarrow> route_state \<Rightarrow> route_state" where
  "refresh_record_retained sz i rs =
     (case map_of (rt_requests rs) i of
        None \<Rightarrow> rs
      | Some rec \<Rightarrow>
          if rr_completed_at rec = None then rs
          else rs\<lparr>rt_requests := AList.update i (rec\<lparr>rr_retained_bytes := sz_debug sz rec\<rparr>) (rt_requests rs),
                  rt_retained_bytes :=
                    sat_add (rt_retained_bytes rs - rr_retained_bytes rec) (sz_debug sz rec)\<rparr>)"

text \<open>Closing a record: its size is estimated before it stops counting as in flight.\<close>

definition finish_record :: "sizes \<Rightarrow> nat \<Rightarrow> request_terminal \<Rightarrow> request_record \<Rightarrow> request_record" where
  "finish_record sz now t rec =
     (let r1 = rec\<lparr>rr_terminal := Some t, rr_completed_at := Some now\<rparr>;
          r2 = r1\<lparr>rr_retained_bytes := sz_debug sz r1\<rparr>
      in r2\<lparr>rr_contributes_inflight := False\<rparr>)"

definition settle :: "request_identity \<Rightarrow> bool \<Rightarrow> request_record \<Rightarrow> route_state \<Rightarrow> route_state" where
  "settle i decrement rec rs =
     rs\<lparr>rt_requests := AList.update i rec (rt_requests rs),
        rt_inflight := (if decrement then rt_inflight rs - 1 else rt_inflight rs),
        rt_retained_bytes := sat_add (rt_retained_bytes rs) (rr_retained_bytes rec)\<rparr>"

definition set_alias :: "ident \<Rightarrow> request_identity \<Rightarrow> route_state \<Rightarrow> route_state" where
  "set_alias key i rs = rs\<lparr>rt_canonical_aliases := AList.update key i (rt_canonical_aliases rs)\<rparr>"

definition set_current :: "ident \<Rightarrow> request_identity \<Rightarrow> route_state \<Rightarrow> route_state" where
  "set_current key i rs = rs\<lparr>rt_current := AList.update key i (rt_current rs)\<rparr>"

subsection \<open>Publications\<close>

text \<open>The route, the frame of the envelope and the event; the frame is the first of the frozen lineage.\<close>

type_synonym publication = "ident \<times> ident option \<times> network_event"

definition event_lineage :: "reducer \<Rightarrow> network_event \<Rightarrow> frame_scope list option" where
  "event_lineage st ev =
     Option.bind (request_identity_of ev) (\<lambda>i. Option.bind (record_of st i) rr_frame_lineage)"

definition publish :: "reducer \<Rightarrow> ident \<Rightarrow> ident option \<Rightarrow> network_event \<Rightarrow> publication" where
  "publish st route f ev =
     (route,
      (case event_lineage st ev of Some (s # _) \<Rightarrow> Some (sc_frame_id s) | _ \<Rightarrow> f), ev)"

definition event_belongs_to_frame :: "reducer \<Rightarrow> network_event \<Rightarrow> frame_scope \<Rightarrow> bool" where
  "event_belongs_to_frame st ev f =
     (case ev of
        RouteClosed _ _ affected \<Rightarrow>
          list_ex (\<lambda>s. ns_frame_id s = sc_frame_id f \<and>
                       ns_page_generation s = fs_page_generation (sc_snapshot f) \<and>
                       ns_document_epoch s = fs_document_epoch (sc_snapshot f)) affected
      | _ \<Rightarrow> some_and (\<lambda>lineage. f \<in> set lineage) (event_lineage st ev))"

subsection \<open>Extra-info payloads\<close>

datatype extra_update = RequestUpdate request_extra_fact | ResponseUpdate response_extra_fact

definition extra_candidate_identity :: "reducer \<Rightarrow> ident \<Rightarrow> ident \<Rightarrow> bool \<Rightarrow> request_identity option" where
  "extra_candidate_identity st observed key request_extra =
     Option.bind (route_alias st observed key) (\<lambda>alias.
       Option.bind (map_of st (ri_routed_session_id alias)) (\<lambda>rs.
         case sort_key ri_redirect_ordinal (map fst (filter (\<lambda>(i, rec).
                ri_request_id i = key \<and> ri_routed_session_id i = ri_routed_session_id alias \<and>
                rr_expects_extra rec \<and>
                (if request_extra then rr_request_extra rec = None else rr_response_extra rec = None))
              (rt_requests rs))) of
           [] \<Rightarrow> None
         | i # _ \<Rightarrow> Some i))"

definition assign_extra ::
  "sizes \<Rightarrow> bool \<Rightarrow> ident \<Rightarrow> ident \<Rightarrow> json \<Rightarrow> reducer \<Rightarrow> (extra_update \<times> reducer) option" where
  "assign_extra sz request_extra observed key payload st =
     (case extra_candidate_identity st observed key request_extra of
        None \<Rightarrow> None
      | Some i \<Rightarrow>
          (case record_of st i of
             None \<Rightarrow> None
           | Some rec \<Rightarrow>
               let rec1 = rec\<lparr>rr_observed_routes := insert observed (rr_observed_routes rec)\<rparr>;
                   (update, rec2) =
                     (if request_extra
                      then (RequestUpdate (request_extra_of i payload),
                            rec1\<lparr>rr_request_extra := Some (request_extra_of i payload)\<rparr>)
                      else (ResponseUpdate (response_extra_of i payload),
                            rec1\<lparr>rr_response_extra := Some (response_extra_of i payload)\<rparr>))
               in Some (update,
                    if_route (ri_routed_session_id i)
                      (\<lambda>rs. refresh_record_retained sz i
                              (rs\<lparr>rt_requests := AList.update i rec2 (rt_requests rs)\<rparr>)) st)))"

definition pending_of :: "bool \<Rightarrow> route_state \<Rightarrow> (ident \<times> pending_extra list) list" where
  "pending_of request_extra rs =
     (if request_extra then rt_pending_request_extra rs else rt_pending_response_extra rs)"

definition set_pending :: "bool \<Rightarrow> (ident \<times> pending_extra list) list \<Rightarrow> route_state \<Rightarrow> route_state" where
  "set_pending request_extra m rs =
     (if request_extra then rs\<lparr>rt_pending_request_extra := m\<rparr> else rs\<lparr>rt_pending_response_extra := m\<rparr>)"

text \<open>
  Handing the queued payloads of one session to the hops that now expect them; what no hop wants
  stays queued, in order.
\<close>

fun drain_queue ::
  "sizes \<Rightarrow> bool \<Rightarrow> ident \<Rightarrow> ident \<Rightarrow> pending_extra list \<Rightarrow> reducer \<Rightarrow>
   extra_update list \<times> pending_extra list \<times> reducer" where
  "drain_queue sz request_extra observed key [] st = ([], [], st)"
| "drain_queue sz request_extra observed key (px # queue) st =
     (case assign_extra sz request_extra observed key (px_value px) st of
        Some (update, st1) \<Rightarrow>
          let st2 = if_route observed
                (\<lambda>rs. rs\<lparr>rt_retained_bytes := rt_retained_bytes rs - px_retained_bytes px\<rparr>) st1
          in (case drain_queue sz request_extra observed key queue st2 of
                (updates, left, st3) \<Rightarrow> (update # updates, left, st3))
      | None \<Rightarrow>
          (case drain_queue sz request_extra observed key queue st of
             (updates, left, st1) \<Rightarrow> (updates, px # left, st1)))"

definition drain_kind ::
  "sizes \<Rightarrow> bool \<Rightarrow> ident \<Rightarrow> ident \<Rightarrow> reducer \<Rightarrow> extra_update list \<times> reducer" where
  "drain_kind sz request_extra key observed st =
     (let queue = or_default [] (Option.bind (map_of st observed) (\<lambda>rs. map_of (pending_of request_extra rs) key));
          st1 = if_route observed
            (\<lambda>rs. set_pending request_extra (AList.delete key (pending_of request_extra rs)) rs) st
      in case drain_queue sz request_extra observed key queue st1 of
           (updates, left, st2) \<Rightarrow>
             (updates,
              if left = [] then st2
              else on_route observed
                (\<lambda>rs. set_pending request_extra (AList.update key left (pending_of request_extra rs)) rs) st2))"

definition drain_route :: "sizes \<Rightarrow> ident \<Rightarrow> ident \<Rightarrow> reducer \<Rightarrow> extra_update list \<times> reducer" where
  "drain_route sz key observed st =
     (case drain_kind sz True key observed st of
        (u1, st1) \<Rightarrow> (case drain_kind sz False key observed st1 of (u2, st2) \<Rightarrow> (u1 @ u2, st2)))"

definition drain_pending_extra :: "sizes \<Rightarrow> ident \<Rightarrow> reducer \<Rightarrow> extra_update list \<times> reducer" where
  "drain_pending_extra sz key st =
     fold (\<lambda>observed (updates, st). case drain_route sz key observed st of (u, st') \<Rightarrow> (updates @ u, st'))
       (map fst st) ([], st)"

fun extra_event :: "extra_update \<Rightarrow> network_event" where
  "extra_event (RequestUpdate v) = RequestExtraInfo v"
| "extra_event (ResponseUpdate v) = ResponseExtraInfo v"

definition publish_extra_updates :: "reducer \<Rightarrow> ident \<Rightarrow> extra_update list \<Rightarrow> publication list" where
  "publish_extra_updates st route updates = map (\<lambda>u. publish st route None (extra_event u)) updates"

subsection \<open>Request start and redirect\<close>

text \<open>\<open>u32::saturating_add(1)\<close>.\<close>

definition next_ordinal :: "nat \<Rightarrow> nat" where
  "next_ordinal n = min 4294967295 (n + 1)"

lemma next_ordinal_code [code]:
  "next_ordinal n = (let s = Suc n in if int s \<le> 4294967295 then s else nat 4294967295)"
  by (simp add: next_ordinal_def Let_def min_def)

definition usable_alias :: "reducer \<Rightarrow> ident \<Rightarrow> request_fact \<Rightarrow> request_identity \<Rightarrow> bool" where
  "usable_alias st route incoming i =
     (case record_of st i of
        None \<Rightarrow> False
      | Some rec \<Rightarrow>
          (case rr_request rec of
             None \<Rightarrow> rr_terminal rec \<noteq> None \<and> ri_routed_session_id i = route
           | Some q \<Rightarrow> rr_terminal rec = None \<and> request_facts_prove_handoff q incoming))"

definition current_hop :: "reducer \<Rightarrow> ident \<Rightarrow> ident \<Rightarrow> request_fact \<Rightarrow> request_identity option" where
  "current_hop st route key incoming =
     (case Option.bind (map_of st route) (\<lambda>rs. map_of (rt_current rs) key) of
        Some i \<Rightarrow> Some i
      | None \<Rightarrow>
          (case Option.bind (route_alias st route key)
                  (\<lambda>i. if usable_alias st route incoming i then Some i else None) of
             Some i \<Rightarrow> Some i
           | None \<Rightarrow> unique_request_handoff st route key incoming))"

definition redirect_hop ::
  "sizes \<Rightarrow> nat \<Rightarrow> ident \<Rightarrow> bool \<Rightarrow> response_fact \<Rightarrow> request_identity \<Rightarrow> request_identity \<Rightarrow>
   route_state \<Rightarrow> route_state" where
  "redirect_hop sz now route has_extra response from to rs =
     (case map_of (rt_requests rs) from of
        None \<Rightarrow> rs
      | Some rec \<Rightarrow>
          let r1 = rec\<lparr>rr_response := Some response, rr_response_route_id := Some route,
                       rr_observed_routes := insert route (rr_observed_routes rec),
                       rr_expects_extra := (rr_expects_extra rec \<or> has_extra),
                       rr_terminal := Some (TermRedirected to), rr_contributes_inflight := False,
                       rr_completed_at := Some now\<rparr>;
              r2 = r1\<lparr>rr_retained_bytes := sz_debug sz r1\<rparr>
          in settle from (rr_contributes_inflight rec) r2 rs)"

definition start_hop ::
  "sizes \<Rightarrow> ident \<Rightarrow> ident \<Rightarrow> request_fact \<Rightarrow> frame_scope list option \<Rightarrow> request_identity \<Rightarrow>
   route_state \<Rightarrow> route_state" where
  "start_hop sz route key request lineage i rs =
     (let rs1 = set_alias key i (set_current key i rs);
          rec = or_default empty_record (map_of (rt_requests rs1) i);
          counts = (\<not> rr_contributes_inflight rec \<and> rr_terminal rec = None);
          rec1 = rec\<lparr>rr_request := Some request,
                     rr_request_route_id := (case rr_request_route_id rec of None \<Rightarrow> Some route | Some r \<Rightarrow> Some r),
                     rr_observed_routes := insert route (rr_observed_routes rec),
                     rr_frame_lineage := (if lineage \<noteq> None then lineage else rr_frame_lineage rec),
                     rr_contributes_inflight := (rr_contributes_inflight rec \<or> counts)\<rparr>
      in refresh_record_retained sz i
           (rs1\<lparr>rt_requests := AList.update i rec1 (rt_requests rs1),
                rt_inflight := (if counts then sat_add (rt_inflight rs1) 1 else rt_inflight rs1)\<rparr>))"

text \<open>A redirect closes the hop \<open>from\<close> and moves every session that follows it to the next one.\<close>

definition redirect_phase ::
  "sizes \<Rightarrow> nat \<Rightarrow> ident \<Rightarrow> ident \<Rightarrow> json \<Rightarrow> json \<Rightarrow> request_identity \<Rightarrow> reducer \<Rightarrow>
   (request_identity \<times> request_identity \<times> response_fact) \<times> reducer" where
  "redirect_phase sz now route key p response_value from st =
     (let to = \<lparr>ri_routed_session_id = ri_routed_session_id from, ri_request_id = key,
                ri_redirect_ordinal = next_ordinal (ri_redirect_ordinal from)\<rparr>;
          response = enrich_response (Option.bind (record_of st from) rr_request)
                       (response_fact_of from response_value);
          has_extra = or_default False (boolean_field p ''redirectHasExtraInfo'')
      in ((from, to, response),
          advance_alias_identity from to
            (clear_current_identity from
              (on_route (ri_routed_session_id from)
                 (redirect_hop sz now route has_extra response from to) st))))"

text \<open>The hop becomes current for the session that saw it and for its own.\<close>

definition start_phase ::
  "sizes \<Rightarrow> ident \<Rightarrow> ident \<Rightarrow> request_fact \<Rightarrow> frame_scope list option \<Rightarrow> request_identity \<Rightarrow>
   reducer \<Rightarrow> reducer" where
  "start_phase sz route key request lineage i st =
     (let st1 = on_route route (\<lambda>rs. set_alias key i (set_current key i rs)) st;
          already_terminal = some_and (\<lambda>rec. rr_terminal rec \<noteq> None) (record_of st1 i);
          st2 = on_route (ri_routed_session_id i) (start_hop sz route key request lineage i) st1
      in if already_terminal then clear_current_identity i st2 else st2)"

definition redirect_value :: "json \<Rightarrow> json option" where
  "redirect_value p =
     (case json_get ''redirectResponse'' p of
        Some v \<Rightarrow> if v = JNull then None else Some v
      | None \<Rightarrow> None)"

definition request_will_be_sent ::
  "sizes \<Rightarrow> nat \<Rightarrow> (ident \<Rightarrow> frame_scope list option) \<Rightarrow> ident \<Rightarrow> json \<Rightarrow> reducer \<Rightarrow>
   publication list \<times> reducer" where
  "request_will_be_sent sz now freeze route p st =
     (case string_field p ''requestId'' of
        None \<Rightarrow> ([], st)
      | Some key \<Rightarrow>
          let f = string_field p ''frameId'';
              lineage = Option.bind f freeze;
              local = local_identity route key;
              current = current_hop st route key (request_fact_of local p);
              (redirected, st1) =
                (case redirect_value p of
                   None \<Rightarrow> (None, st)
                 | Some v \<Rightarrow>
                     (case redirect_phase sz now route key p v (or_default local current) st of
                        (r, st') \<Rightarrow> (Some r, st')));
              i = (case redirected of Some (_, to, _) \<Rightarrow> to | None \<Rightarrow> or_default local current);
              st2 = start_phase sz route key (request_fact_of i p) lineage i st1;
              (updates, st3) = drain_pending_extra sz key st2
          in ((case redirected of
                 None \<Rightarrow> []
               | Some (from, to, response) \<Rightarrow> [publish st3 route f (Redirected from to response)])
              @ publish_extra_updates st3 route updates
              @ [publish st3 route f (RequestStarted (request_fact_of i p))],
              st3))"

subsection \<open>Responses and extra info\<close>

definition queue_extra :: "sizes \<Rightarrow> bool \<Rightarrow> nat \<Rightarrow> ident \<Rightarrow> json \<Rightarrow> route_state \<Rightarrow> route_state" where
  "queue_extra sz request_extra now key p rs =
     (set_pending request_extra
        (AList.update key
           (or_default [] (map_of (pending_of request_extra rs) key)
            @ [\<lparr>px_value = p, px_observed_at = now, px_retained_bytes = sz_value sz p\<rparr>])
           (pending_of request_extra rs)) rs)
     \<lparr>rt_retained_bytes := sat_add (rt_retained_bytes rs) (sz_value sz p)\<rparr>"

text \<open>\<open>request_extra\<close> and \<open>response_extra\<close>: the same for the two kinds.\<close>

definition receive_extra ::
  "sizes \<Rightarrow> bool \<Rightarrow> nat \<Rightarrow> ident \<Rightarrow> json \<Rightarrow> reducer \<Rightarrow> publication list \<times> reducer" where
  "receive_extra sz request_extra now route p st =
     (case string_field p ''requestId'' of
        None \<Rightarrow> ([], st)
      | Some key \<Rightarrow>
          (case assign_extra sz request_extra route key p st of
             Some (update, st1) \<Rightarrow> ([publish st1 route None (extra_event update)], st1)
           | None \<Rightarrow> ([], on_route route (queue_extra sz request_extra now key p) st)))"

definition response_hop ::
  "sizes \<Rightarrow> ident \<Rightarrow> ident \<Rightarrow> bool \<Rightarrow> response_fact \<Rightarrow> request_identity \<Rightarrow> route_state \<Rightarrow> route_state" where
  "response_hop sz route key has_extra response i rs =
     (let rs1 = set_alias key i rs;
          rec = or_default empty_record (map_of (rt_requests rs1) i);
          rec1 = rec\<lparr>rr_response := Some response, rr_response_route_id := Some route,
                     rr_observed_routes := insert route (rr_observed_routes rec),
                     rr_expects_extra := (rr_expects_extra rec \<or> has_extra)\<rparr>
      in refresh_record_retained sz i (rs1\<lparr>rt_requests := AList.update i rec1 (rt_requests rs1)\<rparr>))"

definition response_received ::
  "sizes \<Rightarrow> ident \<Rightarrow> json \<Rightarrow> reducer \<Rightarrow> publication list \<times> reducer" where
  "response_received sz route p st =
     (case string_field p ''requestId'' of
        None \<Rightarrow> ([], st)
      | Some key \<Rightarrow>
          let response_value = or_default JNull (json_get ''response'' p);
              url = or_default [] (string_field response_value ''url'');
              i = (case route_alias st route key of
                     Some i \<Rightarrow> i
                   | None \<Rightarrow> or_default (local_identity route key) (unique_response_handoff st route key url));
              st1 = on_route route (set_alias key i) st;
              response = enrich_response (Option.bind (record_of st1 i) rr_request)
                           (response_fact_of i response_value);
              has_extra = or_default False (boolean_field p ''hasExtraInfo'');
              st2 = on_route (ri_routed_session_id i) (response_hop sz route key has_extra response i) st1;
              (updates, st3) = drain_pending_extra sz key st2
          in (publish st3 route (string_field p ''frameId'') (ResponseReceived response)
              # publish_extra_updates st3 route updates, st3))"

subsection \<open>Completion\<close>

text \<open>
  The common part of \<open>loading_finished\<close> and \<open>loading_failed\<close>: only a finished load carries an
  encoded length for the response.
\<close>

definition finish_hop ::
  "sizes \<Rightarrow> nat \<Rightarrow> request_terminal \<Rightarrow> ident \<Rightarrow> rat option \<Rightarrow> request_identity \<Rightarrow> route_state \<Rightarrow> route_state" where
  "finish_hop sz now t route encoded i rs =
     (let rec = or_default empty_record (map_of (rt_requests rs) i);
          rec1 = rec\<lparr>rr_observed_routes := insert route (rr_observed_routes rec)\<rparr>
      in if rr_terminal rec1 \<noteq> None
         then rs\<lparr>rt_requests := AList.update i rec1 (rt_requests rs)\<rparr>
         else
           let rec2 = (case (rr_response rec1, encoded) of
                         (Some response, Some n) \<Rightarrow>
                           rec1\<lparr>rr_response := Some (response\<lparr>rs_encoded_data_length := Some n\<rparr>)\<rparr>
                       | _ \<Rightarrow> rec1)
           in settle i (rr_contributes_inflight rec2) (finish_record sz now t rec2) rs)"

definition finish_loading ::
  "sizes \<Rightarrow> nat \<Rightarrow> request_terminal \<Rightarrow> ident \<Rightarrow> ident \<Rightarrow> rat option \<Rightarrow> reducer \<Rightarrow>
   bool \<times> request_identity \<times> reducer" where
  "finish_loading sz now t route key encoded st =
     (let i = or_default (local_identity route key) (route_alias st route key);
          st1 = on_route route (set_alias key i) st;
          open_hop = (Option.bind (record_of st1 i) rr_terminal = None);
          st2 = on_route (ri_routed_session_id i) (finish_hop sz now t route encoded i) st1
      in (open_hop, i, if open_hop then clear_current_identity i st2 else st2))"

definition loading_finished ::
  "sizes \<Rightarrow> nat \<Rightarrow> ident \<Rightarrow> json \<Rightarrow> reducer \<Rightarrow> publication list \<times> reducer" where
  "loading_finished sz now route p st =
     (case string_field p ''requestId'' of
        None \<Rightarrow> ([], st)
      | Some key \<Rightarrow>
          (case finish_loading sz now TermFinished route key (number_field p ''encodedDataLength'') st of
             (published, i, st') \<Rightarrow>
               (if published
                then [publish st' route None (LoadingFinished
                        \<lparr>lf_identity = i, lf_timestamp = number_field p ''timestamp'',
                         lf_encoded_data_length = number_field p ''encodedDataLength''\<rparr>)]
                else [], st')))"

definition loading_failed ::
  "sizes \<Rightarrow> nat \<Rightarrow> ident \<Rightarrow> json \<Rightarrow> reducer \<Rightarrow> publication list \<times> reducer" where
  "loading_failed sz now route p st =
     (case string_field p ''requestId'' of
        None \<Rightarrow> ([], st)
      | Some key \<Rightarrow>
          (case finish_loading sz now TermFailed route key None st of
             (published, i, st') \<Rightarrow>
               (if published
                then [publish st' route None (LoadingFailed
                        \<lparr>lx_identity = i, lx_timestamp = number_field p ''timestamp'',
                         lx_resource_type = string_field p ''type'',
                         lx_error_text = or_default ''request failed'' (string_field p ''errorText''),
                         lx_canceled = or_default False (boolean_field p ''canceled''),
                         lx_blocked_reason = string_field p ''blockedReason'',
                         lx_cors_error_status = json_get ''corsErrorStatus'' p,
                         lx_route_detached = False\<rparr>)]
                else [], st')))"

subsection \<open>The other events\<close>

text \<open>\<open>identity\<close>: the alias first, then the current hop, then a fresh local name.\<close>

definition network_identity :: "reducer \<Rightarrow> ident \<Rightarrow> ident \<Rightarrow> request_identity" where
  "network_identity st route key =
     (case route_alias st route key of
        Some i \<Rightarrow> i
      | None \<Rightarrow> or_default (local_identity route key)
                  (Option.bind (map_of st route) (\<lambda>rs. map_of (rt_current rs) key)))"

definition cache_hop :: "sizes \<Rightarrow> ident \<Rightarrow> request_identity \<Rightarrow> route_state \<Rightarrow> route_state" where
  "cache_hop sz route i rs =
     refresh_record_retained sz i
       (rs\<lparr>rt_requests := map_modify i
             (\<lambda>rec. rec\<lparr>rr_served_from_cache := True,
                        rr_observed_routes := insert route (rr_observed_routes rec)\<rparr>)
             (rt_requests rs)\<rparr>)"

definition served_from_cache ::
  "sizes \<Rightarrow> ident \<Rightarrow> json \<Rightarrow> reducer \<Rightarrow> publication list \<times> reducer" where
  "served_from_cache sz route p st =
     (case string_field p ''requestId'' of
        None \<Rightarrow> ([], st)
      | Some key \<Rightarrow>
          let i = network_identity st route key;
              st1 = if_route (ri_routed_session_id i) (cache_hop sz route i) st
          in ([publish st1 route None (RequestServedFromCache i)], st1))"

text \<open>
  A web socket counts as in flight from its creation to its handshake response or its close.
\<close>

definition socket_created :: "ident \<Rightarrow> route_state \<Rightarrow> route_state" where
  "socket_created key rs =
     rs\<lparr>rt_websockets := AList.update key False (rt_websockets rs),
        rt_inflight := (if map_of (rt_websockets rs) key = None then sat_add (rt_inflight rs) 1
                        else rt_inflight rs)\<rparr>"

definition socket_handshaken :: "ident \<Rightarrow> route_state \<Rightarrow> route_state" where
  "socket_handshaken key rs =
     rs\<lparr>rt_websockets := AList.update key True (rt_websockets rs),
        rt_inflight := (if map_of (rt_websockets rs) key = Some False then rt_inflight rs - 1
                        else rt_inflight rs)\<rparr>"

definition socket_closed :: "ident \<Rightarrow> route_state \<Rightarrow> route_state" where
  "socket_closed key rs =
     rs\<lparr>rt_websockets := AList.delete key (rt_websockets rs),
        rt_inflight := (if map_of (rt_websockets rs) key = Some False then rt_inflight rs - 1
                        else rt_inflight rs)\<rparr>"

definition web_socket :: "ident \<Rightarrow> string \<Rightarrow> json \<Rightarrow> reducer \<Rightarrow> publication list \<times> reducer" where
  "web_socket route method p st =
     (case string_field p ''requestId'' of
        None \<Rightarrow> ([], st)
      | Some key \<Rightarrow>
          let v = web_socket_fact_of key p;
              (ev, st1) =
                (if method = ''Network.webSocketCreated''
                 then (WebSocketCreated v, on_route route (socket_created key) st)
                 else if method = ''Network.webSocketWillSendHandshakeRequest''
                 then (WebSocketHandshakeRequest v, st)
                 else if method = ''Network.webSocketHandshakeResponseReceived''
                 then (WebSocketHandshakeResponse v, on_route route (socket_handshaken key) st)
                 else if method = ''Network.webSocketFrameSent'' then (WebSocketFrameSent v, st)
                 else if method = ''Network.webSocketFrameReceived'' then (WebSocketFrameReceived v, st)
                 else if method = ''Network.webSocketFrameError'' then (WebSocketFrameError v, st)
                 else (WebSocketClosed v, on_route route (socket_closed key) st))
          in ([publish st1 route None ev], st1))"

definition event_source :: "ident \<Rightarrow> json \<Rightarrow> reducer \<Rightarrow> publication list \<times> reducer" where
  "event_source route p st =
     (case string_field p ''requestId'' of
        None \<Rightarrow> ([], st)
      | Some key \<Rightarrow>
          ([publish st route None (EventSourceMessage
              \<lparr>es_identity = network_identity st route key, es_timestamp = number_field p ''timestamp'',
               es_event_name = or_default [] (string_field p ''eventName''),
               es_event_id = or_default [] (string_field p ''eventId''),
               es_data_length = (case string_field p ''data'' of None \<Rightarrow> 0 | Some d \<Rightarrow> length d)\<rparr>)], st))"

subsection \<open>Closing a session's route\<close>

definition mark_closed ::
  "nat \<Rightarrow> route_close_reason \<Rightarrow> frame_scope list \<Rightarrow> route_state \<Rightarrow> route_state" where
  "mark_closed now reason live rs =
     rs\<lparr>rt_closed_reason := Some reason, rt_closed_at := Some now,
        rt_route_scopes :=
          fold (\<lambda>s acc. if s \<in> set acc then acc else acc @ [s]) live (rt_route_scopes rs)\<rparr>"

definition open_hops_seen_by :: "ident \<Rightarrow> reducer \<Rightarrow> request_identity list" where
  "open_hops_seen_by route st =
     concat (map (\<lambda>(_, rs).
        map fst (filter (\<lambda>(i, rec). rr_terminal rec = None \<and> route \<in> rr_observed_routes rec)
          (rt_requests rs))) st)"

definition fail_hop_in :: "sizes \<Rightarrow> nat \<Rightarrow> request_identity \<Rightarrow> route_state \<Rightarrow> route_state" where
  "fail_hop_in sz now i rs =
     (case map_of (rt_requests rs) i of
        None \<Rightarrow> rs
      | Some rec \<Rightarrow> settle i (rr_contributes_inflight rec) (finish_record sz now TermFailed rec) rs)"

definition fail_hop :: "sizes \<Rightarrow> nat \<Rightarrow> request_identity \<Rightarrow> reducer \<Rightarrow> reducer" where
  "fail_hop sz now i st =
     (if map_of st (ri_routed_session_id i) = None then st
      else clear_current_identity i (if_route (ri_routed_session_id i) (fail_hop_in sz now i) st))"

definition reset_route :: "route_state \<Rightarrow> route_state" where
  "reset_route rs = rs\<lparr>rt_current := [], rt_websockets := [], rt_inflight := 0\<rparr>"

definition scope_snapshot :: "frame_scope \<Rightarrow> network_frame_scope" where
  "scope_snapshot s =
     \<lparr>ns_frame_id = sc_frame_id s, ns_page_generation = fs_page_generation (sc_snapshot s),
      ns_document_epoch = fs_document_epoch (sc_snapshot s)\<rparr>"

definition detached_failure :: "string \<Rightarrow> route_close_reason \<Rightarrow> request_identity \<Rightarrow> network_event" where
  "detached_failure message reason i = LoadingFailed
     \<lparr>lx_identity = i, lx_timestamp = None, lx_resource_type = None, lx_error_text = message,
      lx_canceled = True, lx_blocked_reason = None, lx_cors_error_status = None,
      lx_route_detached = (reason = RouteDetached)\<rparr>"

text \<open>\<open>fail_route\<close> up to its final prune; \<open>live\<close> are the scopes the page freezes for the session.\<close>

definition fail_route ::
  "sizes \<Rightarrow> nat \<Rightarrow> string \<Rightarrow> route_close_reason \<Rightarrow> frame_scope list \<Rightarrow> ident \<Rightarrow> reducer \<Rightarrow>
   publication list \<times> reducer" where
  "fail_route sz now message reason live route st =
     (let st1 = on_route route (mark_closed now reason live) st;
          ids = open_hops_seen_by route st1;
          st2 = fold (fail_hop sz now) ids st1;
          st3 = on_route route reset_route st2;
          affected = map scope_snapshot (rt_route_scopes (or_default empty_route (map_of st3 route)))
      in (map (\<lambda>i. publish st3 route None (detached_failure message reason i)) ids
          @ [publish st3 route None (RouteClosed route reason affected)], st3))"

subsection \<open>Pruning what is retained\<close>

record observation_options =
  ob_ttl :: nat
  ob_max_bytes :: nat

datatype prune_candidate =
    RequestCandidate ident request_identity nat nat
  | ExtraCandidate bool ident ident nat nat

fun candidate_at :: "prune_candidate \<Rightarrow> nat" where
  "candidate_at (RequestCandidate _ _ seen _) = seen"
| "candidate_at (ExtraCandidate _ _ _ seen _) = seen"

fun candidate_bytes :: "prune_candidate \<Rightarrow> nat" where
  "candidate_bytes (RequestCandidate _ _ _ b) = b"
| "candidate_bytes (ExtraCandidate _ _ _ _ b) = b"

definition extra_candidates :: "bool \<Rightarrow> ident \<Rightarrow> route_state \<Rightarrow> prune_candidate list" where
  "extra_candidates request_extra r rs =
     concat (map (\<lambda>(key, queue).
        map (\<lambda>px. ExtraCandidate request_extra r key (px_observed_at px) (px_retained_bytes px)) queue)
       (pending_of request_extra rs))"

definition prune_candidates :: "reducer \<Rightarrow> prune_candidate list" where
  "prune_candidates st =
     concat (map (\<lambda>(r, rs).
        concat (map (\<lambda>(i, rec). case rr_completed_at rec of
            None \<Rightarrow> [] | Some seen \<Rightarrow> [RequestCandidate r i seen (rr_retained_bytes rec)]) (rt_requests rs))
        @ extra_candidates True r rs @ extra_candidates False r rs) st)"

text \<open>\<open>remove_pending\<close>: the first item observed at that instant.\<close>

fun remove_pending :: "pending_extra list \<Rightarrow> nat \<Rightarrow> (pending_extra \<times> pending_extra list) option" where
  "remove_pending [] seen = None"
| "remove_pending (px # queue) seen =
     (if px_observed_at px = seen then Some (px, queue)
      else map_option (\<lambda>(found, rest). (found, px # rest)) (remove_pending queue seen))"

definition evict_request :: "request_identity \<Rightarrow> route_state \<Rightarrow> route_state option" where
  "evict_request i rs =
     (case map_of (rt_requests rs) i of
        None \<Rightarrow> None
      | Some rec \<Rightarrow> Some (rs\<lparr>rt_requests := AList.delete i (rt_requests rs),
                            rt_retained_bytes := rt_retained_bytes rs - rr_retained_bytes rec\<rparr>))"

definition evict_extra :: "bool \<Rightarrow> ident \<Rightarrow> nat \<Rightarrow> route_state \<Rightarrow> route_state option" where
  "evict_extra request_extra key seen rs =
     Option.bind (map_of (pending_of request_extra rs) key) (\<lambda>queue.
       case remove_pending queue seen of
         None \<Rightarrow> None
       | Some (px, rest) \<Rightarrow>
           Some ((set_pending request_extra (AList.update key rest (pending_of request_extra rs)) rs)
                 \<lparr>rt_retained_bytes := rt_retained_bytes rs - px_retained_bytes px\<rparr>))"

fun evict :: "prune_candidate \<Rightarrow> reducer \<Rightarrow> reducer option" where
  "evict (RequestCandidate r i _ _) st =
     Option.bind (map_of st r) (\<lambda>rs. map_option (\<lambda>rs'. AList.update r rs' st) (evict_request i rs))"
| "evict (ExtraCandidate request_extra r key seen _) st =
     Option.bind (map_of st r) (\<lambda>rs.
       map_option (\<lambda>rs'. AList.update r rs' st) (evict_extra request_extra key seen rs))"

record pruning =
  pr_state :: reducer
  pr_retained :: nat
  pr_requests :: nat
  pr_extra :: nat
  pr_bytes :: nat
  pr_aliases :: "request_identity set"

definition prune_step ::
  "observation_options \<Rightarrow> nat \<Rightarrow> prune_candidate \<Rightarrow> pruning \<Rightarrow> pruning" where
  "prune_step opts now c pr =
     (if now - candidate_at c < ob_ttl opts \<and> pr_retained pr \<le> ob_max_bytes opts then pr
      else case evict c (pr_state pr) of
        None \<Rightarrow> pr
      | Some st \<Rightarrow>
          pr\<lparr>pr_state := st, pr_retained := pr_retained pr - candidate_bytes c,
             pr_requests := (case c of RequestCandidate _ _ _ _ \<Rightarrow> pr_requests pr + 1 | _ \<Rightarrow> pr_requests pr),
             pr_extra := (case c of ExtraCandidate _ _ _ _ _ \<Rightarrow> pr_extra pr + 1 | _ \<Rightarrow> pr_extra pr),
             pr_bytes := sat_add (pr_bytes pr) (candidate_bytes c),
             pr_aliases := (case c of RequestCandidate _ i _ _ \<Rightarrow> insert i (pr_aliases pr)
                            | _ \<Rightarrow> pr_aliases pr)\<rparr>)"

definition tidy_route :: "request_identity set \<Rightarrow> route_state \<Rightarrow> route_state" where
  "tidy_route evicted rs =
     rs\<lparr>rt_canonical_aliases := filter (\<lambda>(_, alias). alias \<notin> evicted) (rt_canonical_aliases rs),
        rt_pending_request_extra := filter (\<lambda>(_, queue). queue \<noteq> []) (rt_pending_request_extra rs),
        rt_pending_response_extra := filter (\<lambda>(_, queue). queue \<noteq> []) (rt_pending_response_extra rs)\<rparr>"

definition route_spent :: "observation_options \<Rightarrow> nat \<Rightarrow> route_state \<Rightarrow> bool" where
  "route_spent opts now rs \<longleftrightarrow>
     some_and (\<lambda>seen. ob_ttl opts \<le> now - seen) (rt_closed_at rs) \<and>
     rt_requests rs = [] \<and> rt_pending_request_extra rs = [] \<and> rt_pending_response_extra rs = []"

record network_manager =
  nm_state :: reducer
  nm_last_prune :: nat

definition retained_total :: "reducer \<Rightarrow> nat" where
  "retained_total st = map_total rt_retained_bytes st"

definition prune_retained_state ::
  "observation_options \<Rightarrow> nat \<Rightarrow> ident \<Rightarrow> network_manager \<Rightarrow> publication list \<times> network_manager" where
  "prune_retained_state opts now route nm =
     (if retained_total (nm_state nm) \<le> ob_max_bytes opts \<and> now - nm_last_prune nm < ob_ttl opts
      then ([], nm)
      else
        let pr = fold (prune_step opts now) (sort_key candidate_at (prune_candidates (nm_state nm)))
                   \<lparr>pr_state = nm_state nm, pr_retained = retained_total (nm_state nm), pr_requests = 0,
                    pr_extra = 0, pr_bytes = 0, pr_aliases = {}\<rparr>;
            st = filter (\<lambda>(_, rs). \<not> route_spent opts now rs)
                   (map_values (tidy_route (pr_aliases pr)) (pr_state pr))
        in ((if pr_requests pr \<noteq> 0 \<or> pr_extra pr \<noteq> 0
             then [publish st route None (StateEvicted (pr_requests pr) (pr_extra pr) (pr_bytes pr))]
             else []),
            \<lparr>nm_state = st, nm_last_prune = now\<rparr>))"

subsection \<open>Dispatch\<close>

definition handle ::
  "sizes \<Rightarrow> nat \<Rightarrow> (ident \<Rightarrow> frame_scope list option) \<Rightarrow> ident \<Rightarrow> string \<Rightarrow> json \<Rightarrow> reducer \<Rightarrow>
   publication list \<times> reducer" where
  "handle sz now freeze route method p st =
     (if method = ''Network.requestWillBeSent'' then request_will_be_sent sz now freeze route p st
      else if method = ''Network.requestWillBeSentExtraInfo'' then receive_extra sz True now route p st
      else if method = ''Network.responseReceived'' then response_received sz route p st
      else if method = ''Network.responseReceivedExtraInfo'' then receive_extra sz False now route p st
      else if method = ''Network.loadingFinished'' then loading_finished sz now route p st
      else if method = ''Network.loadingFailed'' then loading_failed sz now route p st
      else if method = ''Network.requestServedFromCache'' then served_from_cache sz route p st
      else if method \<in> {''Network.webSocketCreated'', ''Network.webSocketWillSendHandshakeRequest'',
                ''Network.webSocketHandshakeResponseReceived'', ''Network.webSocketFrameSent'',
                ''Network.webSocketFrameReceived'', ''Network.webSocketFrameError'',
                ''Network.webSocketClosed''}
      then web_socket route method p st
      else if method = ''Network.eventSourceMessageReceived'' then event_source route p st
      else ([], st))"

definition with_prune ::
  "observation_options \<Rightarrow> nat \<Rightarrow> ident \<Rightarrow> (reducer \<Rightarrow> publication list \<times> reducer) \<Rightarrow>
   network_manager \<Rightarrow> publication list \<times> network_manager" where
  "with_prune opts now route f nm =
     (case f (nm_state nm) of
        (pubs, st) \<Rightarrow>
          (case prune_retained_state opts now route (nm\<lparr>nm_state := st\<rparr>) of
             (evictions, nm') \<Rightarrow> (pubs @ evictions, nm')))"

text \<open>What happens to the manager: routes come and go, events arrive.\<close>

datatype network_input =
    AddRoute bool ident "frame_scope list" "ident option" "string option"
  | EnableFailed ident
  | NetworkMessage ident string json
  | FailRoute string route_close_reason "frame_scope list" ident

fun network_step ::
  "sizes \<Rightarrow> observation_options \<Rightarrow> (ident \<Rightarrow> frame_scope list option) \<Rightarrow> nat \<times> network_input \<Rightarrow>
   network_manager \<Rightarrow> publication list \<times> network_manager" where
  "network_step sz opts freeze (now, AddRoute known r scopes parent url) nm =
     ([], nm\<lparr>nm_state := add_route known r scopes parent url (nm_state nm)\<rparr>)"
| "network_step sz opts freeze (now, EnableFailed r) nm =
     ([], nm\<lparr>nm_state := AList.delete r (nm_state nm)\<rparr>)"
| "network_step sz opts freeze (now, NetworkMessage route method p) nm =
     with_prune opts now route (handle sz now freeze route method p) nm"
| "network_step sz opts freeze (now, FailRoute message reason live route) nm =
     with_prune opts now route (fail_route sz now message reason live route) nm"

definition inflight_total :: "reducer \<Rightarrow> nat" where
  "inflight_total st = map_total rt_inflight st"

definition fatal_route_close :: "reducer \<Rightarrow> ident option" where
  "fatal_route_close st =
     map_option fst (find (\<lambda>(_, rs). rt_closed_reason rs = Some RouteSourceClosed) st)"

definition record_route :: "reducer \<Rightarrow> request_identity \<Rightarrow> bool \<Rightarrow> ident option" where
  "record_route st i response =
     map_option (\<lambda>rec. or_default (ri_routed_session_id i)
        (if response then rr_response_route_id rec else rr_request_route_id rec)) (record_of st i)"

subsection \<open>Network idle\<close>

text \<open>
  One pass of the loop of \<open>wait_idle\<close>: what it samples, and the three instants it reads, the one
  that starts the quiet period, the one the period is measured at and the one compared with the
  deadline.
\<close>

record idle_poll =
  ip_fatal :: "(ident \<times> route_close_reason) option"
  ip_inflight :: nat
  ip_started :: nat
  ip_measured :: nat
  ip_now :: nat

datatype idle_outcome = NetworkIdle | IdleRouteClosed ident route_close_reason | IdleTimeout nat

definition idle_pass ::
  "nat \<Rightarrow> nat \<Rightarrow> idle_poll \<Rightarrow> nat option \<Rightarrow> idle_outcome option \<times> nat option" where
  "idle_pass quiet_window deadline ip quiet_since =
     (case ip_fatal ip of
        Some (route, reason) \<Rightarrow> (Some (IdleRouteClosed route reason), quiet_since)
      | None \<Rightarrow>
          let since = (if ip_inflight ip = 0 then Some (or_default (ip_started ip) quiet_since) else None)
          in (case since of
                Some s \<Rightarrow>
                  (if quiet_window \<le> ip_measured ip - s then (Some NetworkIdle, since)
                   else if deadline \<le> ip_now ip then (Some (IdleTimeout (ip_inflight ip)), since)
                   else (None, since))
              | None \<Rightarrow>
                  (if deadline \<le> ip_now ip then (Some (IdleTimeout (ip_inflight ip)), since)
                   else (None, since))))"

fun wait_idle :: "nat \<Rightarrow> nat \<Rightarrow> idle_poll list \<Rightarrow> nat option \<Rightarrow> idle_outcome option" where
  "wait_idle quiet_window deadline [] quiet_since = None"
| "wait_idle quiet_window deadline (ip # polls) quiet_since =
     (case idle_pass quiet_window deadline ip quiet_since of
        (Some outcome, _) \<Rightarrow> Some outcome
      | (None, quiet_since') \<Rightarrow> wait_idle quiet_window deadline polls quiet_since')"

text \<open>How long the loop sleeps unless the reducer notifies it.\<close>

definition idle_sleep :: "nat \<Rightarrow> nat \<Rightarrow> nat \<Rightarrow> nat option \<Rightarrow> nat" where
  "idle_sleep quiet_window deadline now quiet_since =
     (case quiet_since of
        None \<Rightarrow> deadline - now
      | Some s \<Rightarrow> min (quiet_window - (now - s)) (deadline - now))"

end
