(* ===== verification/NetworkLaws.thy ===== *)
theory NetworkLaws
  imports NetworkReducer
begin

text \<open>
  Laws of the network reducer: the invariant of its maps, what the in-flight counter of each route
  counts, which completion of a hop wins, and what closing a route and pruning may remove.
\<close>

declare map_of_eq_Some_iff [simp del] and Some_eq_map_of_iff [simp del]

named_theorems route_frame \<open>updates of a route that the invariant does not see\<close>

subsection \<open>The invariant\<close>

definition hop_ok :: "request_record \<Rightarrow> bool" where
  "hop_ok rec \<longleftrightarrow>
     (rr_contributes_inflight rec \<longleftrightarrow> rr_request rec \<noteq> None \<and> rr_terminal rec = None) \<and>
     (rr_completed_at rec = None \<longleftrightarrow> rr_terminal rec = None)"

definition hop_count :: "request_record \<Rightarrow> nat" where
  "hop_count rec = (if rr_request rec \<noteq> None \<and> rr_terminal rec = None then 1 else 0)"

definition socket_count :: "bool \<Rightarrow> nat" where
  "socket_count handshaken = (if handshaken then 0 else 1)"

text \<open>The hops of a route that have started and not ended, and its sockets without a handshake.\<close>

definition open_count :: "route_state \<Rightarrow> nat" where
  "open_count rs = map_total hop_count (rt_requests rs) + map_total socket_count (rt_websockets rs)"

definition count_agrees :: "bool \<Rightarrow> nat \<Rightarrow> nat \<Rightarrow> nat \<Rightarrow> bool" where
  "count_agrees exact n inflight opened \<longleftrightarrow>
     (if exact then inflight = opened \<and> inflight \<le> n else inflight \<le> opened)"

definition route_inv :: "bool \<Rightarrow> nat \<Rightarrow> ident \<Rightarrow> route_state \<Rightarrow> bool" where
  "route_inv exact n r rs \<longleftrightarrow>
     wf_map (rt_requests rs) \<and> wf_map (rt_websockets rs) \<and>
     list_all (\<lambda>(i, rec). ri_routed_session_id i = r \<and> hop_ok rec) (rt_requests rs) \<and>
     count_agrees exact n (rt_inflight rs) (open_count rs)"

definition reducer_inv :: "bool \<Rightarrow> nat \<Rightarrow> reducer \<Rightarrow> bool" where
  "reducer_inv exact n st \<longleftrightarrow>
     wf_map st \<and> list_all (\<lambda>(r, rs). route_inv exact n r rs) st"

lemma route_frame_updates [route_frame]:
  "route_inv x n r (rs\<lparr>rt_current := c\<rparr>) = route_inv x n r rs"
  "route_inv x n r (rs\<lparr>rt_canonical_aliases := c\<rparr>) = route_inv x n r rs"
  "route_inv x n r (rs\<lparr>rt_pending_request_extra := e\<rparr>) = route_inv x n r rs"
  "route_inv x n r (rs\<lparr>rt_pending_response_extra := e\<rparr>) = route_inv x n r rs"
  "route_inv x n r (rs\<lparr>rt_retained_bytes := b\<rparr>) = route_inv x n r rs"
  "route_inv x n r (rs\<lparr>rt_closed_reason := cr\<rparr>) = route_inv x n r rs"
  "route_inv x n r (rs\<lparr>rt_closed_at := ca\<rparr>) = route_inv x n r rs"
  "route_inv x n r (rs\<lparr>rt_route_scopes := sc\<rparr>) = route_inv x n r rs"
  "route_inv x n r (rs\<lparr>rt_direct_parent := dp\<rparr>) = route_inv x n r rs"
  "route_inv x n r (rs\<lparr>rt_auxiliary_target_url := u\<rparr>) = route_inv x n r rs"
  by (simp_all add: route_inv_def open_count_def)

lemma route_frame_pending [route_frame]:
  "route_inv x n r (set_pending q m rs) = route_inv x n r rs"
  by (simp add: set_pending_def route_frame_updates)

lemma route_frame_keys [route_frame]:
  "route_inv x n r (set_alias key i rs) = route_inv x n r rs"
  "route_inv x n r (set_current key i rs) = route_inv x n r rs"
  by (simp_all add: set_alias_def set_current_def route_frame_updates)

lemma count_agrees_mono: "count_agrees x n a b \<Longrightarrow> n \<le> m \<Longrightarrow> count_agrees x m a b"
  by (auto simp: count_agrees_def split: if_splits)

lemma route_inv_mono: "route_inv x n r rs \<Longrightarrow> n \<le> m \<Longrightarrow> route_inv x m r rs"
  by (auto simp: route_inv_def intro: count_agrees_mono)

lemma route_inv_empty [simp]: "route_inv x n r empty_route"
  by (simp add: route_inv_def empty_route_def open_count_def count_agrees_def)

lemma hop_ok_empty [simp]: "hop_ok empty_record" "hop_count empty_record = 0"
  by (simp_all add: hop_ok_def hop_count_def empty_record_def)

lemma reducer_inv_empty [simp]: "reducer_inv x n []"
  by (simp add: reducer_inv_def)

lemma reducer_inv_mono: "reducer_inv x n st \<Longrightarrow> n \<le> m \<Longrightarrow> reducer_inv x m st"
  by (auto simp: reducer_inv_def list_all_iff intro: route_inv_mono)

lemma reducer_inv_route: "reducer_inv x n st \<Longrightarrow> map_of st r = Some rs \<Longrightarrow> route_inv x n r rs"
  by (auto simp: reducer_inv_def list_all_iff dest: map_of_SomeD)

lemma reducer_inv_lookup:
  "reducer_inv x n st \<longleftrightarrow> wf_map st \<and> (\<forall>r rs. map_of st r = Some rs \<longrightarrow> route_inv x n r rs)"
  by (fastforce simp: reducer_inv_def list_all_iff dest: map_of_SomeD)

lemma reducer_inv_update:
  assumes "reducer_inv x n st" "route_inv x m r rs" "n \<le> m"
  shows "reducer_inv x m (AList.update r rs st)"
  using assms by (auto simp: reducer_inv_lookup intro: route_inv_mono)

lemma reducer_inv_on_route:
  assumes "reducer_inv x n st" "n \<le> m" "\<And>rs. route_inv x n r rs \<Longrightarrow> route_inv x m r (f rs)"
  shows "reducer_inv x m (on_route r f st)"
  unfolding on_route_def
  using assms by (intro reducer_inv_update[OF assms(1)] assms(3))
    (cases "map_of st r"; simp add: reducer_inv_route)

lemma reducer_inv_if_route:
  assumes "reducer_inv x n st" "\<And>rs. route_inv x n r rs \<Longrightarrow> route_inv x n r (f rs)"
  shows "reducer_inv x n (if_route r f st)"
  using assms by (auto simp: reducer_inv_lookup if_route_def)

lemma reducer_inv_map_values:
  assumes "reducer_inv x n st" "\<And>r rs. route_inv x n r rs \<Longrightarrow> route_inv x n r (f rs)"
  shows "reducer_inv x n (map_values f st)"
  using assms by (auto simp: reducer_inv_lookup)

lemma reducer_inv_filter: "reducer_inv x n st \<Longrightarrow> reducer_inv x n (filter P st)"
  by (auto simp: reducer_inv_def list_all_iff)

lemma reducer_inv_delete: "reducer_inv x n st \<Longrightarrow> reducer_inv x n (AList.delete r st)"
  by (auto simp: reducer_inv_lookup split: if_splits)

subsection \<open>Counting\<close>

lemma map_total_replace:
  assumes "wf_map m"
  shows "map_total f (AList.update k v m) + (case map_of m k of None \<Rightarrow> 0 | Some w \<Rightarrow> f w)
       = map_total f m + (f v :: nat)"
  using map_total_delete[OF assms, of f k] map_total_update[OF assms, of f k v] by simp

lemma count_down:
  assumes "count_agrees x n a b" "b' + 1 = (b :: nat)"
  shows "count_agrees x n (a - 1) b'"
  using assms by (auto simp: count_agrees_def split: if_splits)

lemma count_up:
  assumes "count_agrees x n a b" "b' = b + 1" "n < usize_max"
  shows "count_agrees x (Suc n) (sat_add a 1) b'"
  using assms by (auto simp: count_agrees_def sat_add_def split: if_splits)

lemma hop_inv_old:
  assumes "route_inv x n r rs"
  shows "hop_ok (or_default empty_record (map_of (rt_requests rs) i))"
  using assms by (cases "map_of (rt_requests rs) i")
    (auto simp: route_inv_def list_all_iff dest: map_of_SomeD)

lemma hops_replaced:
  assumes "route_inv x n r rs" "hop_ok rec" "ri_routed_session_id i = r"
  shows "wf_map (AList.update i rec (rt_requests rs))"
    and "list_all (\<lambda>(i, rec). ri_routed_session_id i = r \<and> hop_ok rec)
           (AList.update i rec (rt_requests rs))"
    and "map_total hop_count (AList.update i rec (rt_requests rs))
           + hop_count (or_default empty_record (map_of (rt_requests rs) i))
         = map_total hop_count (rt_requests rs) + hop_count rec"
proof -
  show "wf_map (AList.update i rec (rt_requests rs))" using assms by (simp add: route_inv_def)
  show "list_all (\<lambda>(i, rec). ri_routed_session_id i = r \<and> hop_ok rec)
           (AList.update i rec (rt_requests rs))"
    using assms set_update_within[of i rec "rt_requests rs"]
    by (auto simp: route_inv_def list_all_iff)
  show "map_total hop_count (AList.update i rec (rt_requests rs))
           + hop_count (or_default empty_record (map_of (rt_requests rs) i))
         = map_total hop_count (rt_requests rs) + hop_count rec"
    using assms map_total_replace[of "rt_requests rs" hop_count i rec]
    by (cases "map_of (rt_requests rs) i") (simp_all add: route_inv_def)
qed

subsection \<open>Hops\<close>

text \<open>Three ways a hop's record changes: as open as before, closed, or opened.\<close>

lemma hop_kept:
  assumes "route_inv x n r rs" "hop_ok rec" "ri_routed_session_id i = r"
    and "hop_count rec = hop_count (or_default empty_record (map_of (rt_requests rs) i))"
  shows "route_inv x n r (rs\<lparr>rt_requests := AList.update i rec (rt_requests rs)\<rparr>)"
  using assms(1) assms(4) hops_replaced[OF assms(1-3)]
  by (simp add: route_inv_def open_count_def)

lemma hop_settled:
  assumes "route_inv x n r rs" "hop_ok rec" "ri_routed_session_id i = r" "rr_terminal rec \<noteq> None"
    and "decrement \<longleftrightarrow> rr_contributes_inflight (or_default empty_record (map_of (rt_requests rs) i))"
  shows "route_inv x n r (settle i decrement rec rs)"
proof -
  let ?old = "or_default empty_record (map_of (rt_requests rs) i)"
  have old: "hop_count ?old = (if decrement then 1 else 0)"
    using hop_inv_old[OF assms(1), of i] assms(5) by (simp add: hop_ok_def hop_count_def)
  have new: "hop_count rec = 0" using assms(4) by (simp add: hop_count_def)
  note h = hops_replaced[OF assms(1-3)]
  have agrees: "count_agrees x n (rt_inflight rs) (open_count rs)" using assms(1) by (simp add: route_inv_def)
  show ?thesis
  proof (cases decrement)
    case True
    then have "open_count (rs\<lparr>rt_requests := AList.update i rec (rt_requests rs)\<rparr>) + 1 = open_count rs"
      using h(3) old new by (simp add: open_count_def)
    then show ?thesis using True h(1,2) assms(1) count_down[OF agrees]
      by (simp add: settle_def route_inv_def open_count_def)
  next
    case False
    then show ?thesis using h old new assms(1) by (simp add: settle_def route_inv_def open_count_def)
  qed
qed

lemma hop_opened:
  assumes "route_inv x n r rs" "hop_ok rec" "ri_routed_session_id i = r" "n < usize_max"
    and "hop_count (or_default empty_record (map_of (rt_requests rs) i)) = 0" "hop_count rec = 1"
  shows "route_inv x (Suc n) r
    (rs\<lparr>rt_requests := AList.update i rec (rt_requests rs), rt_inflight := sat_add (rt_inflight rs) 1\<rparr>)"
proof -
  note h = hops_replaced[OF assms(1-3)]
  have agrees: "count_agrees x n (rt_inflight rs) (open_count rs)" using assms(1) by (simp add: route_inv_def)
  have "open_count (rs\<lparr>rt_requests := AList.update i rec (rt_requests rs)\<rparr>) = open_count rs + 1"
    using h(3) assms(5,6) by (simp add: open_count_def)
  then show ?thesis using h(1,2) assms(1) count_up[OF agrees _ assms(4)]
    by (simp add: route_inv_def open_count_def)
qed

lemma route_inv_refresh:
  assumes "route_inv x n r rs" "ri_routed_session_id i = r"
  shows "route_inv x n r (refresh_record_retained sz i rs)"
proof (cases "map_of (rt_requests rs) i")
  case None
  then show ?thesis using assms by (simp add: refresh_record_retained_def)
next
  case (Some rec)
  have "hop_ok rec" using hop_inv_old[OF assms(1), of i] Some by simp
  then have "route_inv x n r (rs\<lparr>rt_requests :=
      AList.update i (rec\<lparr>rr_retained_bytes := sz_debug sz rec\<rparr>) (rt_requests rs)\<rparr>)"
    by (intro hop_kept assms) (auto simp: hop_ok_def hop_count_def Some)
  then show ?thesis
    using assms Some by (simp add: refresh_record_retained_def route_frame)
qed

lemma finish_record_ok [simp]:
  "hop_ok (finish_record sz now t rec)" "rr_terminal (finish_record sz now t rec) = Some t"
  by (simp_all add: finish_record_def hop_ok_def Let_def)

lemma redirect_hop_inv:
  assumes "route_inv x n r rs" "ri_routed_session_id from = r"
  shows "route_inv x n r (redirect_hop sz now route has_extra response from to rs)"
proof (cases "map_of (rt_requests rs) from")
  case None
  then show ?thesis using assms by (simp add: redirect_hop_def)
next
  case (Some rec)
  have "hop_ok rec" using hop_inv_old[OF assms(1), of "from"] Some by simp
  then show ?thesis
    unfolding redirect_hop_def Some option.case Let_def
    by (intro hop_settled assms) (auto simp: hop_ok_def Some)
qed

lemma start_hop_inv:
  assumes "route_inv x n r rs" "ri_routed_session_id i = r" "n < usize_max"
  shows "route_inv x (Suc n) r (start_hop sz route key request lineage i rs)"
proof -
  define rs1 where "rs1 = set_alias key i (set_current key i rs)"
  define rec where "rec = or_default empty_record (map_of (rt_requests rs1) i)"
  define counts where "counts = (\<not> rr_contributes_inflight rec \<and> rr_terminal rec = None)"
  define rec1 where "rec1 = rec\<lparr>rr_request := Some request,
     rr_request_route_id := (case rr_request_route_id rec of None \<Rightarrow> Some route | Some r \<Rightarrow> Some r),
     rr_observed_routes := insert route (rr_observed_routes rec),
     rr_frame_lineage := (if lineage \<noteq> None then lineage else rr_frame_lineage rec),
     rr_contributes_inflight := (rr_contributes_inflight rec \<or> counts)\<rparr>"
  have inv1: "route_inv x n r rs1" using assms(1) by (simp add: rs1_def route_frame)
  have old: "hop_ok rec" unfolding rec_def by (rule hop_inv_old[OF inv1])
  then have new: "hop_ok rec1" by (auto simp: hop_ok_def rec1_def counts_def)
  have inv2: "route_inv x (Suc n) r (rs1\<lparr>rt_requests := AList.update i rec1 (rt_requests rs1),
      rt_inflight := (if counts then sat_add (rt_inflight rs1) 1 else rt_inflight rs1)\<rparr>)"
  proof (cases counts)
    case True
    have "hop_count rec = 0" "hop_count rec1 = 1"
      using True old new by (auto simp: hop_count_def hop_ok_def counts_def rec1_def)
    then show ?thesis
      using True hop_opened[OF inv1 new assms(2,3)] by (simp add: rec_def)
  next
    case False
    have "hop_count rec1 = hop_count rec"
      using False old new by (auto simp: hop_count_def hop_ok_def counts_def rec1_def)
    then have "route_inv x n r (rs1\<lparr>rt_requests := AList.update i rec1 (rt_requests rs1)\<rparr>)"
      using hop_kept[OF inv1 new assms(2)] by (simp add: rec_def)
    then show ?thesis using False route_inv_mono[of x n r _ "Suc n"] by simp
  qed
  show ?thesis
    unfolding start_hop_def Let_def
    unfolding rs1_def[symmetric] rec_def[symmetric] counts_def[symmetric] rec1_def[symmetric]
    by (rule route_inv_refresh[OF inv2 assms(2)])
qed

lemma response_hop_inv:
  assumes "route_inv x n r rs" "ri_routed_session_id i = r"
  shows "route_inv x n r (response_hop sz route key has_extra response i rs)"
proof -
  have inv1: "route_inv x n r (set_alias key i rs)" using assms(1) by (simp add: route_frame)
  note old = hop_inv_old[OF inv1, of i]
  show ?thesis
    unfolding response_hop_def Let_def
    by (intro route_inv_refresh hop_kept inv1 assms(2)) (use old in \<open>auto simp: hop_ok_def hop_count_def\<close>)
qed

lemma finish_hop_inv:
  assumes "route_inv x n r rs" "ri_routed_session_id i = r"
  shows "route_inv x n r (finish_hop sz now t route encoded i rs)"
proof -
  define rec where "rec = or_default empty_record (map_of (rt_requests rs) i)"
  define rec1 where "rec1 = rec\<lparr>rr_observed_routes := insert route (rr_observed_routes rec)\<rparr>"
  have old: "hop_ok rec" unfolding rec_def by (rule hop_inv_old[OF assms(1)])
  show ?thesis
  proof (cases "rr_terminal rec1")
    case None
    then show ?thesis
      unfolding finish_hop_def Let_def
      unfolding rec_def[symmetric] rec1_def[symmetric]
      by (simp, intro hop_settled assms)
        (simp_all add: rec1_def rec_def[symmetric] split: option.splits)
  next
    case (Some u)
    have "route_inv x n r (rs\<lparr>rt_requests := AList.update i rec1 (rt_requests rs)\<rparr>)"
      using old by (intro hop_kept assms) (auto simp: rec1_def rec_def[symmetric] hop_ok_def hop_count_def)
    then show ?thesis
      unfolding finish_hop_def Let_def
      unfolding rec_def[symmetric] rec1_def[symmetric] using Some by simp
  qed
qed

lemma fail_hop_in_inv:
  assumes "route_inv x n r rs" "ri_routed_session_id i = r"
  shows "route_inv x n r (fail_hop_in sz now i rs)"
  using assms hop_settled[OF assms(1) finish_record_ok(1) assms(2)]
  by (auto simp: fail_hop_in_def split: option.splits)

lemma cache_hop_inv:
  assumes "route_inv x n r rs" "ri_routed_session_id i = r"
  shows "route_inv x n r (cache_hop sz route i rs)"
proof -
  let ?f = "\<lambda>rec. rec\<lparr>rr_served_from_cache := True,
      rr_observed_routes := insert route (rr_observed_routes rec)\<rparr>"
  have same: "hop_count (?f rec) = hop_count rec" "hop_ok (?f rec) = hop_ok rec" for rec
    by (simp_all add: hop_count_def hop_ok_def)
  have total: "map_total hop_count (map_modify i ?f m) = map_total hop_count m" for m
    by (induction m) (auto simp: map_modify_def same(1))
  have all: "list_all (\<lambda>(i, rec). ri_routed_session_id i = r \<and> hop_ok rec) (map_modify i ?f m)
       = list_all (\<lambda>(i, rec). ri_routed_session_id i = r \<and> hop_ok rec) m" for m
    by (induction m) (auto simp: map_modify_def same(2) split: if_splits)
  have "route_inv x n r (rs\<lparr>rt_requests := map_modify i ?f (rt_requests rs)\<rparr>)"
    using assms(1) by (simp add: route_inv_def open_count_def total all)
  then show ?thesis unfolding cache_hop_def by (rule route_inv_refresh[OF _ assms(2)])
qed

subsection \<open>Sockets\<close>

lemma socket_created_inv:
  assumes "route_inv x n r rs" "n < usize_max" "x \<Longrightarrow> map_of (rt_websockets rs) key \<noteq> Some True"
  shows "route_inv x (Suc n) r (socket_created key rs)"
proof -
  have wf: "wf_map (rt_websockets rs)"
    and agrees: "count_agrees x n (rt_inflight rs) (open_count rs)"
    using assms(1) by (simp_all add: route_inv_def)
  let ?m = "AList.update key False (rt_websockets rs)"
  note total = map_total_replace[OF wf, of socket_count key False]
  show ?thesis
  proof (cases "map_of (rt_websockets rs) key")
    case None
    have "open_count (rs\<lparr>rt_websockets := ?m\<rparr>) = open_count rs + 1"
      using total None by (simp add: open_count_def socket_count_def)
    then show ?thesis using None assms(1) count_up[OF agrees _ assms(2)]
      by (simp add: socket_created_def route_inv_def open_count_def)
  next
    case (Some h)
    have "map_total socket_count (rt_websockets rs) \<le> map_total socket_count ?m"
      "x \<Longrightarrow> map_total socket_count ?m = map_total socket_count (rt_websockets rs)"
      using total Some assms(3) by (auto simp: socket_count_def split: if_splits)
    then have "count_agrees x (Suc n) (rt_inflight rs)
        (map_total hop_count (rt_requests rs) + map_total socket_count ?m)"
      using agrees by (auto simp: count_agrees_def open_count_def split: if_splits)
    then show ?thesis using Some assms(1) by (simp add: socket_created_def route_inv_def open_count_def)
  qed
qed

lemma socket_gone:
  assumes "route_inv x n r rs" "wf_map m"
    and "map_total socket_count m + (if map_of (rt_websockets rs) key = Some False then 1 else 0)
         = map_total socket_count (rt_websockets rs)"
  shows "route_inv x n r (rs\<lparr>rt_websockets := m,
    rt_inflight := (if map_of (rt_websockets rs) key = Some False then rt_inflight rs - 1 else rt_inflight rs)\<rparr>)"
proof -
  have agrees: "count_agrees x n (rt_inflight rs) (open_count rs)"
    using assms(1) by (simp add: route_inv_def)
  show ?thesis
    using assms count_down[OF agrees, of "map_total hop_count (rt_requests rs) + map_total socket_count m"] agrees
    by (cases "map_of (rt_websockets rs) key = Some False") (simp_all add: route_inv_def open_count_def)
qed

lemma socket_handshaken_inv:
  assumes "route_inv x n r rs"
  shows "route_inv x n r (socket_handshaken key rs)"
proof -
  have wf: "wf_map (rt_websockets rs)" using assms(1) by (simp add: route_inv_def)
  show ?thesis
    unfolding socket_handshaken_def
    by (rule socket_gone[OF assms(1)]) (use wf map_total_replace[OF wf, of socket_count key True] in
      \<open>auto simp: socket_count_def split: option.splits if_splits\<close>)
qed

lemma socket_closed_inv:
  assumes "route_inv x n r rs"
  shows "route_inv x n r (socket_closed key rs)"
proof -
  have wf: "wf_map (rt_websockets rs)" using assms(1) by (simp add: route_inv_def)
  show ?thesis
    unfolding socket_closed_def
    by (rule socket_gone[OF assms(1)]) (use wf map_total_delete[OF wf, of socket_count key] in
      \<open>auto simp: socket_count_def split: option.splits if_splits\<close>)
qed

subsection \<open>Draining extra info\<close>

text \<open>
  What a drain keeps: a predicate that neither the queues nor the byte estimate can break and
  that handing one payload to a hop keeps.
\<close>

locale drain_closed =
  fixes sz :: sizes and P :: "reducer \<Rightarrow> bool"
  assumes assign_kept: "P st \<Longrightarrow> assign_extra sz q observed key p st = Some (u, st') \<Longrightarrow> P st'"
    and queue_kept: "P st \<Longrightarrow> P (if_route r (\<lambda>rs. set_pending q (m rs) rs) st)"
    and bytes_kept: "P st \<Longrightarrow> P (if_route r (\<lambda>rs. rs\<lparr>rt_retained_bytes := b rs\<rparr>) st)"
    and requeue_kept: "P st \<Longrightarrow> P (on_route r (\<lambda>rs. set_pending q (m rs) rs) st)"
begin

lemma drain_queue_kept:
  "P st \<Longrightarrow> P (snd (snd (drain_queue sz q observed key queue st)))"
proof (induction queue arbitrary: st)
  case Nil
  then show ?case by simp
next
  case (Cons px queue)
  show ?case
  proof (cases "assign_extra sz q observed key (px_value px) st")
    case None
    then show ?thesis using Cons.IH[OF Cons.prems] by (simp add: case_prod_beta)
  next
    case (Some a)
    obtain u st1 where a: "a = (u, st1)" by (cases a)
    have "P (if_route observed
        (\<lambda>rs. rs\<lparr>rt_retained_bytes := rt_retained_bytes rs - px_retained_bytes px\<rparr>) st1)"
      by (rule bytes_kept[OF assign_kept[OF Cons.prems Some[unfolded a]]])
    from Cons.IH[OF this] show ?thesis using Some a by (simp add: case_prod_beta Let_def)
  qed
qed

lemma drain_kind_kept: "P st \<Longrightarrow> P (snd (drain_kind sz q key observed st))"
  unfolding drain_kind_def Let_def case_prod_beta snd_conv
  by (simp add: drain_queue_kept queue_kept requeue_kept)

lemma drain_route_kept: "P st \<Longrightarrow> P (snd (drain_route sz key observed st))"
  unfolding drain_route_def case_prod_beta snd_conv by (intro drain_kind_kept)

lemma drain_fold_kept:
  "P (snd acc) \<Longrightarrow> P (snd (fold (\<lambda>observed (updates, st).
     case drain_route sz key observed st of (u, st') \<Rightarrow> (updates @ u, st')) rs acc))"
  by (induction rs arbitrary: acc) (simp_all add: case_prod_beta drain_route_kept)

lemma drain_pending_kept: "P st \<Longrightarrow> P (snd (drain_pending_extra sz key st))"
  unfolding drain_pending_extra_def by (rule drain_fold_kept) simp

end

text \<open>Handing over a payload changes one record that is already there, and not how open it is.\<close>

lemma assign_extra_SomeE:
  assumes "assign_extra sz q observed key p st = Some (u, st')"
  obtains i rs rec rec' where
    "map_of st (ri_routed_session_id i) = Some rs" "map_of (rt_requests rs) i = Some rec"
    "st' = if_route (ri_routed_session_id i)
       (\<lambda>rs. refresh_record_retained sz i (rs\<lparr>rt_requests := AList.update i rec' (rt_requests rs)\<rparr>)) st"
    "rr_request rec' = rr_request rec" "rr_terminal rec' = rr_terminal rec"
    "rr_completed_at rec' = rr_completed_at rec"
    "rr_contributes_inflight rec' = rr_contributes_inflight rec"
    "rr_observed_routes rec' = insert observed (rr_observed_routes rec)"
proof -
  obtain i where i: "extra_candidate_identity st observed key q = Some i"
    using assms by (cases "extra_candidate_identity st observed key q") (simp_all add: assign_extra_def)
  obtain rec where rec: "record_of st i = Some rec"
    using assms i by (cases "record_of st i") (simp_all add: assign_extra_def)
  obtain rs where rs: "map_of st (ri_routed_session_id i) = Some rs" "map_of (rt_requests rs) i = Some rec"
    using rec by (auto simp: record_of_def bind_eq_Some_conv)
  let ?seen = "rec\<lparr>rr_observed_routes := insert observed (rr_observed_routes rec)\<rparr>"
  let ?rec' = "if q then ?seen\<lparr>rr_request_extra := Some (request_extra_of i p)\<rparr>
    else ?seen\<lparr>rr_response_extra := Some (response_extra_of i p)\<rparr>"
  have st': "st' = if_route (ri_routed_session_id i)
     (\<lambda>rs. refresh_record_retained sz i (rs\<lparr>rt_requests := AList.update i ?rec' (rt_requests rs)\<rparr>)) st"
    using assms i rec by (cases q) (simp_all add: assign_extra_def)
  show thesis by (rule that[OF rs st']) simp_all
qed

subsection \<open>Handlers\<close>

lemma clear_current_inv: "reducer_inv x n st \<Longrightarrow> reducer_inv x n (clear_current_identity i st)"
  unfolding clear_current_identity_def by (erule reducer_inv_map_values) (simp add: route_frame)

lemma advance_alias_inv: "reducer_inv x n st \<Longrightarrow> reducer_inv x n (advance_alias_identity i j st)"
  unfolding advance_alias_identity_def by (erule reducer_inv_map_values) (simp add: route_frame)

lemma add_route_inv: "reducer_inv x n st \<Longrightarrow> reducer_inv x n (add_route known r scopes parent url st)"
  unfolding add_route_def by (auto intro!: reducer_inv_on_route simp: route_frame)

lemma assign_extra_inv:
  assumes "reducer_inv x n st" "assign_extra sz q observed key p st = Some (u, st')"
  shows "reducer_inv x n st'"
  using assms(2)
proof (rule assign_extra_SomeE)
  fix i rs rec rec'
  assume rs: "map_of st (ri_routed_session_id i) = Some rs" "map_of (rt_requests rs) i = Some rec"
    and st': "st' = if_route (ri_routed_session_id i)
       (\<lambda>rs. refresh_record_retained sz i (rs\<lparr>rt_requests := AList.update i rec' (rt_requests rs)\<rparr>)) st"
    and same: "rr_request rec' = rr_request rec" "rr_terminal rec' = rr_terminal rec"
    "rr_completed_at rec' = rr_completed_at rec"
    "rr_contributes_inflight rec' = rr_contributes_inflight rec"
  have inv: "route_inv x n (ri_routed_session_id i) rs" using reducer_inv_route[OF assms(1) rs(1)] .
  have "hop_ok rec" using hop_inv_old[OF inv, of i] rs(2) by simp
  then have "route_inv x n (ri_routed_session_id i)
      (refresh_record_retained sz i (rs\<lparr>rt_requests := AList.update i rec' (rt_requests rs)\<rparr>))"
    by (intro route_inv_refresh hop_kept inv) (simp_all add: hop_ok_def hop_count_def same rs(2))
  then show ?thesis
    using assms(1) rs(1) by (auto simp: st' if_route_def reducer_inv_lookup)
qed

interpretation inv_drain: drain_closed sz "reducer_inv x n" for sz x n
proof unfold_locales
  fix st q observed key p u st'
  assume "reducer_inv x n st" "assign_extra sz q observed key p st = Some (u, st')"
  then show "reducer_inv x n st'" by (rule assign_extra_inv)
qed (auto intro: reducer_inv_if_route reducer_inv_on_route simp: route_frame)

lemmas reducer_closure =
  clear_current_inv advance_alias_inv inv_drain.drain_pending_kept

lemma redirect_phase_inv:
  assumes "reducer_inv x n st"
  shows "reducer_inv x n (snd (redirect_phase sz now route key p v i st))"
proof -
  have "reducer_inv x n (on_route (ri_routed_session_id i)
      (redirect_hop sz now route has_extra response i to) st)" for has_extra response to
    using assms by (rule reducer_inv_on_route) (simp_all add: redirect_hop_inv)
  then show ?thesis by (simp add: redirect_phase_def Let_def clear_current_inv advance_alias_inv)
qed

lemma start_phase_inv:
  assumes "reducer_inv x n st" "n < usize_max"
  shows "reducer_inv x (Suc n) (start_phase sz route key request lineage i st)"
proof -
  have "reducer_inv x n (on_route route (\<lambda>rs. set_alias key i (set_current key i rs)) st)"
    using assms(1) by (rule reducer_inv_on_route) (simp_all add: route_frame)
  then have "reducer_inv x (Suc n) (on_route (ri_routed_session_id i)
      (start_hop sz route key request lineage i)
      (on_route route (\<lambda>rs. set_alias key i (set_current key i rs)) st))"
    by (rule reducer_inv_on_route) (simp_all add: start_hop_inv assms(2))
  then show ?thesis by (simp add: start_phase_def Let_def clear_current_inv)
qed

lemma request_will_be_sent_inv:
  assumes "reducer_inv x n st" "n < usize_max"
  shows "reducer_inv x (Suc n) (snd (request_will_be_sent sz now freeze route p st))"
proof (cases "string_field p ''requestId''")
  case None
  then show ?thesis using assms reducer_inv_mono[OF assms(1), of "Suc n"]
    by (simp add: request_will_be_sent_def)
next
  case (Some key)
  show ?thesis
    unfolding request_will_be_sent_def Some option.case Let_def case_prod_beta snd_conv
    by (intro inv_drain.drain_pending_kept start_phase_inv assms(2))
      (auto simp: assms(1) redirect_phase_inv split: option.split)
qed

lemma receive_extra_inv:
  assumes "reducer_inv x n st"
  shows "reducer_inv x n (snd (receive_extra sz q now route p st))"
  using assms assign_extra_inv[OF assms]
  by (auto simp: receive_extra_def queue_extra_def route_frame split: option.split
      intro!: reducer_inv_on_route)

lemma response_received_inv:
  assumes "reducer_inv x n st"
  shows "reducer_inv x n (snd (response_received sz route p st))"
proof (cases "string_field p ''requestId''")
  case None
  then show ?thesis using assms by (simp add: response_received_def)
next
  case (Some key)
  have aliased: "reducer_inv x n (on_route route (set_alias key i) st)" for i
    using assms by (rule reducer_inv_on_route) (simp_all add: route_frame)
  have responded: "reducer_inv x n (on_route (ri_routed_session_id i)
      (response_hop sz route key has_extra response i) st')"
    if "reducer_inv x n st'" for i has_extra response st'
    using that by (rule reducer_inv_on_route) (simp_all add: response_hop_inv)
  show ?thesis
    unfolding response_received_def Some option.case Let_def case_prod_beta snd_conv
    by (intro inv_drain.drain_pending_kept responded aliased)
qed

lemma finish_loading_inv:
  assumes "reducer_inv x n st"
  shows "reducer_inv x n (snd (snd (finish_loading sz now t route key encoded st)))"
proof -
  have aliased: "reducer_inv x n (on_route route (set_alias key i) st)" for i
    using assms by (rule reducer_inv_on_route) (simp_all add: route_frame)
  have finished: "reducer_inv x n (on_route (ri_routed_session_id i)
      (finish_hop sz now t route encoded i) (on_route route (set_alias key i) st))" for i
    using aliased by (rule reducer_inv_on_route) (simp_all add: finish_hop_inv)
  show ?thesis by (simp add: finish_loading_def Let_def finished clear_current_inv)
qed

lemma loading_inv:
  assumes "reducer_inv x n st"
  shows "reducer_inv x n (snd (loading_finished sz now route p st))"
    and "reducer_inv x n (snd (loading_failed sz now route p st))"
  using assms finish_loading_inv[OF assms]
  by (simp_all add: loading_finished_def loading_failed_def case_prod_beta split: option.split)

lemma served_from_cache_inv:
  assumes "reducer_inv x n st"
  shows "reducer_inv x n (snd (served_from_cache sz route p st))"
  using assms
  by (auto simp: served_from_cache_def Let_def cache_hop_inv split: option.split
      intro!: reducer_inv_if_route)

definition socket_renewed :: "ident \<Rightarrow> string \<Rightarrow> json \<Rightarrow> reducer \<Rightarrow> bool" where
  "socket_renewed route method p st \<longleftrightarrow>
     method = ''Network.webSocketCreated'' \<and>
     some_and (\<lambda>key. some_and (\<lambda>rs. map_of (rt_websockets rs) key = Some True) (map_of st route))
       (string_field p ''requestId'')"

lemma web_socket_inv:
  assumes "reducer_inv x n st" "n < usize_max" "x \<Longrightarrow> \<not> socket_renewed route method p st"
  shows "reducer_inv x (Suc n) (snd (web_socket route method p st))"
proof (cases "string_field p ''requestId''")
  case None
  then show ?thesis using reducer_inv_mono[OF assms(1), of "Suc n"] by (simp add: web_socket_def)
next
  case (Some key)
  have up: "reducer_inv x (Suc n) st" using reducer_inv_mono[OF assms(1), of "Suc n"] by simp
  have created: "reducer_inv x (Suc n) (on_route route (socket_created key) st)"
    if "method = ''Network.webSocketCreated''"
  proof -
    let ?rs = "or_default empty_route (map_of st route)"
    have "x \<Longrightarrow> map_of (rt_websockets ?rs) key \<noteq> Some True"
      using assms(3) that Some
      by (cases "map_of st route") (auto simp: socket_renewed_def some_and_def empty_route_def)
    moreover have "route_inv x n route ?rs"
      using assms(1) by (cases "map_of st route") (simp_all add: reducer_inv_route)
    ultimately have "route_inv x (Suc n) route (socket_created key ?rs)"
      by (intro socket_created_inv assms(2))
    then show ?thesis unfolding on_route_def by (rule reducer_inv_update[OF up]) simp
  qed
  have gone: "reducer_inv x (Suc n) (on_route route (socket_handshaken key) st)"
    "reducer_inv x (Suc n) (on_route route (socket_closed key) st)"
    using up by (auto intro!: reducer_inv_on_route simp: socket_handshaken_inv socket_closed_inv)
  show ?thesis using created gone up by (simp add: web_socket_def Some Let_def)
qed

lemma event_source_inv [simp]: "snd (event_source route p st) = st"
  by (simp add: event_source_def split: option.split)

lemma handle_inv:
  assumes "reducer_inv x n st" "n < usize_max" "x \<Longrightarrow> \<not> socket_renewed route method p st"
  shows "reducer_inv x (Suc n) (snd (handle sz now freeze route method p st))"
proof -
  have up: "reducer_inv x (Suc n) st" using reducer_inv_mono[OF assms(1), of "Suc n"] by simp
  show ?thesis
    unfolding handle_def
    by (auto simp: up request_will_be_sent_inv[OF assms(1,2)] receive_extra_inv[OF up]
        response_received_inv[OF up] loading_inv[OF up] served_from_cache_inv[OF up]
        web_socket_inv[OF assms])
qed

subsection \<open>Closing a route\<close>

lemma record_of_on_route:
  "record_of (on_route r f st) i =
     (if ri_routed_session_id i = r
      then map_of (rt_requests (f (or_default empty_route (map_of st r)))) i
      else record_of st i)"
  by (simp add: record_of_def on_route_def)

lemma record_of_if_route:
  "record_of (if_route r f st) i =
     (if ri_routed_session_id i = r
      then Option.bind (map_of st r) (\<lambda>rs. map_of (rt_requests (f rs)) i) else record_of st i)"
  by (cases "map_of st r") (simp_all add: record_of_def if_route_def)

lemma record_of_map_values:
  assumes "\<And>rs. rt_requests (f rs) = rt_requests rs"
  shows "record_of (map_values f st) = record_of st"
  by (rule ext, rename_tac i, case_tac "map_of st (ri_routed_session_id i)") (simp_all add: record_of_def assms)

lemma record_of_clear_current [simp]: "record_of (clear_current_identity i st) = record_of st"
  unfolding clear_current_identity_def by (rule record_of_map_values) simp

lemma record_of_advance_alias [simp]: "record_of (advance_alias_identity i j st) = record_of st"
  unfolding advance_alias_identity_def by (rule record_of_map_values) simp

lemma record_of_fail_hop:
  "record_of (fail_hop sz now j st) i =
     (if i = j then map_option (finish_record sz now TermFailed) (record_of st i) else record_of st i)"
proof (cases "map_of st (ri_routed_session_id j)")
  case None
  then show ?thesis by (simp add: fail_hop_def record_of_def)
next
  case (Some rs)
  then show ?thesis
    by (cases "map_of (rt_requests rs) j")
      (auto simp: fail_hop_def if_route_def fail_hop_in_def settle_def record_of_def)
qed

lemma record_of_fail_hops_other:
  "i \<notin> set ids \<Longrightarrow> record_of (fold (fail_hop sz now) ids st) i = record_of st i"
  by (induction ids arbitrary: st) (simp_all add: record_of_fail_hop)

lemma record_of_fail_hops:
  "distinct ids \<Longrightarrow> i \<in> set ids \<Longrightarrow> record_of (fold (fail_hop sz now) ids st) i
     = map_option (finish_record sz now TermFailed) (record_of st i)"
  by (induction ids arbitrary: st) (auto simp: record_of_fail_hop record_of_fail_hops_other)

lemma open_hops_iff:
  assumes "reducer_inv x n st"
  shows "i \<in> set (open_hops_seen_by route st) \<longleftrightarrow>
    (\<exists>rec. record_of st i = Some rec \<and> rr_terminal rec = None \<and> route \<in> rr_observed_routes rec)"
proof
  assume "i \<in> set (open_hops_seen_by route st)"
  then obtain r rs rec where in_st: "(r, rs) \<in> set st" "(i, rec) \<in> set (rt_requests rs)"
    "rr_terminal rec = None" "route \<in> rr_observed_routes rec"
    by (auto simp: open_hops_seen_by_def)
  have rs: "map_of st r = Some rs" using in_st(1) assms by (simp add: reducer_inv_def)
  have inv: "route_inv x n r rs" by (rule reducer_inv_route[OF assms rs])
  then have "map_of (rt_requests rs) i = Some rec" "ri_routed_session_id i = r"
    using in_st(2) by (auto simp: route_inv_def list_all_iff)
  then show "\<exists>rec. record_of st i = Some rec \<and> rr_terminal rec = None \<and> route \<in> rr_observed_routes rec"
    using rs in_st by (simp add: record_of_def)
next
  assume "\<exists>rec. record_of st i = Some rec \<and> rr_terminal rec = None \<and> route \<in> rr_observed_routes rec"
  then obtain rec where rec: "record_of st i = Some rec" "rr_terminal rec = None"
    "route \<in> rr_observed_routes rec" by (elim exE conjE)
  then obtain rs where rs: "map_of st (ri_routed_session_id i) = Some rs"
    "map_of (rt_requests rs) i = Some rec" by (auto simp: record_of_def bind_eq_Some_conv)
  let ?P = "\<lambda>(i, rec). rr_terminal rec = None \<and> route \<in> rr_observed_routes rec"
  have "(i, rec) \<in> set (filter ?P (rt_requests rs))" using map_of_SomeD[OF rs(2)] rec by simp
  then have "i \<in> set (map fst (filter ?P (rt_requests rs)))" by force
  then show "i \<in> set (open_hops_seen_by route st)"
    unfolding open_hops_seen_by_def set_concat set_map
    by (intro UN_I[OF imageI[OF map_of_SomeD[OF rs(1)]]]) simp
qed

lemma open_hops_distinct:
  assumes "reducer_inv x n st"
  shows "distinct (open_hops_seen_by route st)"
  using assms
proof (induction st)
  case Nil
  then show ?case by (simp add: open_hops_seen_by_def)
next
  case (Cons e st)
  obtain r rs where e: "e = (r, rs)" by (cases e)
  have rs: "route_inv x n r rs" and st: "reducer_inv x n st" and fresh: "r \<notin> keys st"
    using Cons.prems by (simp_all add: reducer_inv_def e)
  let ?own = "map fst (filter (\<lambda>(i, rec). rr_terminal rec = None \<and> route \<in> rr_observed_routes rec) (rt_requests rs))"
  have own: "ri_routed_session_id i = r" if i: "i \<in> set ?own" for i
  proof -
    obtain rec where "(i, rec) \<in> set (rt_requests rs)" using i by auto
    with rs show ?thesis by (auto simp: route_inv_def list_all_iff)
  qed
  have others: "ri_routed_session_id i \<in> keys st" if i: "i \<in> set (open_hops_seen_by route st)" for i
  proof -
    obtain rec where "record_of st i = Some rec" using i unfolding open_hops_iff[OF st] by (elim exE conjE)
    then obtain rs' where "map_of st (ri_routed_session_id i) = Some rs'"
      unfolding record_of_def bind_eq_Some_conv by (elim exE conjE)
    then show ?thesis by (rule map_of_in_keys)
  qed
  have disjoint: "i \<notin> set (open_hops_seen_by route st)" if i: "i \<in> set ?own" for i
    using own[OF i] others fresh by metis
  have split: "open_hops_seen_by route (e # st) = ?own @ open_hops_seen_by route st"
    by (simp add: e open_hops_seen_by_def)
  have "distinct ?own" using rs by (simp add: route_inv_def distinct_map_filter)
  then have "distinct (?own @ open_hops_seen_by route st)"
    using Cons.IH[OF st] disjoint unfolding distinct_append by blast
  then show ?case unfolding split .
qed

text \<open>An open hop of a route that the route itself has not seen: only another session reports on it.\<close>

definition hop_seen_elsewhere :: "ident \<Rightarrow> reducer \<Rightarrow> bool" where
  "hop_seen_elsewhere route st \<longleftrightarrow>
     some_and (\<lambda>rs. list_ex (\<lambda>(i, rec). hop_count rec = 1 \<and> route \<notin> rr_observed_routes rec)
       (rt_requests rs)) (map_of st route)"

lemma fail_hop_inv: "reducer_inv x n st \<Longrightarrow> reducer_inv x n (fail_hop sz now i st)"
  by (auto simp: fail_hop_def fail_hop_in_inv intro!: clear_current_inv reducer_inv_if_route)

lemma fail_hops_inv: "reducer_inv x n st \<Longrightarrow> reducer_inv x n (fold (fail_hop sz now) ids st)"
  by (induction ids arbitrary: st) (simp_all add: fail_hop_inv)

lemma mark_closed_inv:
  "reducer_inv x n st \<Longrightarrow> reducer_inv x n (on_route route (mark_closed now reason live) st)"
  by (auto simp: mark_closed_def route_frame intro!: reducer_inv_on_route)

lemma record_of_mark_closed [simp]:
  "record_of (on_route route (mark_closed now reason live) st) = record_of st"
  by (rule ext, rename_tac i, case_tac "map_of st (ri_routed_session_id i)")
    (auto simp: on_route_def mark_closed_def record_of_def empty_route_def)

lemma record_of_reset [simp]: "record_of (on_route route reset_route st) = record_of st"
  by (rule ext, rename_tac i, case_tac "map_of st (ri_routed_session_id i)")
    (auto simp: on_route_def reset_route_def record_of_def empty_route_def)

lemma record_of_fail_route:
  assumes "reducer_inv x n st"
  shows "record_of (snd (fail_route sz now message reason live route st)) i =
    map_option (\<lambda>rec. if rr_terminal rec = None \<and> route \<in> rr_observed_routes rec
                      then finish_record sz now TermFailed rec else rec) (record_of st i)"
proof -
  let ?st1 = "on_route route (mark_closed now reason live) st"
  let ?ids = "open_hops_seen_by route ?st1"
  have inv: "reducer_inv x n ?st1" using assms by (rule mark_closed_inv)
  note ids = open_hops_iff[OF inv, of i route] and dist = open_hops_distinct[OF inv, of route]
  have "record_of (snd (fail_route sz now message reason live route st)) i
      = record_of (fold (fail_hop sz now) ?ids ?st1) i"
    by (simp add: fail_route_def Let_def)
  also have "\<dots> = map_option (\<lambda>rec. if rr_terminal rec = None \<and> route \<in> rr_observed_routes rec
                      then finish_record sz now TermFailed rec else rec) (record_of st i)"
  proof (cases "i \<in> set ?ids")
    case True
    then show ?thesis using record_of_fail_hops[OF dist True] ids by auto
  next
    case False
    then show ?thesis using record_of_fail_hops_other[OF False] ids by (cases "record_of st i") auto
  qed
  finally show ?thesis .
qed

lemma map_total_zero:
  assumes "\<And>k v. (k, v) \<in> set m \<Longrightarrow> f v = (0 :: nat)"
  shows "map_total f m = 0"
  using assms by (induction m) (auto simp: map_total_def)

lemma route_inv_reset:
  assumes "route_inv x n r rs" "x \<Longrightarrow> map_total hop_count (rt_requests rs) = 0"
  shows "route_inv x n r (reset_route rs)"
  using assms by (simp add: route_inv_def reset_route_def open_count_def count_agrees_def)

lemma fail_route_inv:
  assumes inv: "reducer_inv x n st" and seen: "x \<Longrightarrow> \<not> hop_seen_elsewhere route st"
  shows "reducer_inv x n (snd (fail_route sz now message reason live route st))"
proof -
  let ?st1 = "on_route route (mark_closed now reason live) st"
  define st2 where "st2 = fold (fail_hop sz now) (open_hops_seen_by route ?st1) ?st1"
  define rs2 where "rs2 = or_default empty_route (map_of st2 route)"
  have st': "snd (fail_route sz now message reason live route st) = on_route route reset_route st2"
    by (simp add: fail_route_def Let_def st2_def)
  have inv2: "reducer_inv x n st2" unfolding st2_def by (intro fail_hops_inv mark_closed_inv inv)
  have route2: "route_inv x n route rs2"
    unfolding rs2_def by (cases "map_of st2 route") (simp_all add: reducer_inv_route[OF inv2])
  have closed: "hop_count rec = 0" if x: x and rec: "(i, rec) \<in> set (rt_requests rs2)" for i rec
  proof -
    have here: "map_of (rt_requests rs2) i = Some rec" "ri_routed_session_id i = route"
      using route2 rec by (auto simp: route_inv_def list_all_iff)
    have "record_of st2 i = Some rec"
      using here by (cases "map_of st2 route") (auto simp: record_of_def rs2_def empty_route_def)
    then have "record_of (snd (fail_route sz now message reason live route st)) i = Some rec"
      by (simp add: st')
    then obtain old where old: "record_of st i = Some old"
      "rec = (if rr_terminal old = None \<and> route \<in> rr_observed_routes old
              then finish_record sz now TermFailed old else old)"
      unfolding record_of_fail_route[OF inv] by (cases "record_of st i") simp_all
    then obtain rs where rs: "map_of st route = Some rs" "(i, old) \<in> set (rt_requests rs)"
      using here(2) by (auto simp: record_of_def bind_eq_Some_conv dest: map_of_SomeD)
    have "hop_count old = 1 \<Longrightarrow> route \<in> rr_observed_routes old"
      using seen[OF x] rs by (auto simp: hop_seen_elsewhere_def some_and_def list_ex_iff)
    then show ?thesis using old(2)
      by (cases "rr_terminal old = None"; cases "rr_request old") (auto simp: hop_count_def split: if_splits)
  qed
  have "route_inv x n route (reset_route rs2)"
    by (rule route_inv_reset[OF route2]) (simp add: map_total_zero closed)
  then show ?thesis
    unfolding st' on_route_def rs2_def by (rule reducer_inv_update[OF inv2]) simp
qed

subsection \<open>Pruning\<close>

text \<open>Only a hop that has ended is a candidate, and no eviction makes an open hop one.\<close>

definition evictable :: "reducer \<Rightarrow> prune_candidate \<Rightarrow> bool" where
  "evictable st c \<longleftrightarrow>
     (case c of
        RequestCandidate r i _ _ \<Rightarrow>
          (\<forall>rs rec. map_of st r = Some rs \<longrightarrow> map_of (rt_requests rs) i = Some rec \<longrightarrow> rr_completed_at rec \<noteq> None)
      | ExtraCandidate _ _ _ _ _ \<Rightarrow> True)"

lemma evict_SomeE:
  assumes "evict c st = Some st'"
  obtains r i rs rec b where "c = RequestCandidate r i (candidate_at c) (candidate_bytes c)"
      "map_of st r = Some rs" "map_of (rt_requests rs) i = Some rec"
      "st' = AList.update r (rs\<lparr>rt_requests := AList.delete i (rt_requests rs), rt_retained_bytes := b\<rparr>) st"
  | r q rs m b where "map_of st r = Some rs"
      "st' = AList.update r ((set_pending q m rs)\<lparr>rt_retained_bytes := b\<rparr>) st"
proof (cases c)
  case (RequestCandidate r i seen bytes)
  then show ?thesis using assms that(1)
    by (auto simp: bind_eq_Some_conv evict_request_def split: option.splits)
next
  case (ExtraCandidate q r key seen bytes)
  then show ?thesis using assms that(2)
    by (auto simp: bind_eq_Some_conv evict_extra_def split: option.splits)
qed

lemma rt_requests_set_pending [simp]: "rt_requests (set_pending q m rs) = rt_requests rs"
  by (simp add: set_pending_def)

lemma evict_record:
  assumes "evict c st = Some st'" "evictable st c"
  shows "map_of st' r = Some rs' \<Longrightarrow> map_of (rt_requests rs') i = Some rec \<Longrightarrow>
           \<exists>rs. map_of st r = Some rs \<and> map_of (rt_requests rs) i = Some rec"
    and "record_of st i = Some rec \<Longrightarrow> rr_completed_at rec = None \<Longrightarrow> record_of st' i = Some rec"
  using assms(1)
proof (atomize(full), cases rule: evict_SomeE)
  case (1 r' i' rs rec' b)
  then have "rr_completed_at rec' \<noteq> None"
    using assms(2) unfolding evictable_def by (cases c) auto
  then show "(map_of st' r = Some rs' \<longrightarrow> map_of (rt_requests rs') i = Some rec \<longrightarrow>
      (\<exists>rs. map_of st r = Some rs \<and> map_of (rt_requests rs) i = Some rec)) \<and>
    (record_of st i = Some rec \<longrightarrow> rr_completed_at rec = None \<longrightarrow> record_of st' i = Some rec)"
    using 1 by (auto simp: record_of_def bind_eq_Some_conv split: if_splits)
next
  case (2 r' q rs m b)
  then show "(map_of st' r = Some rs' \<longrightarrow> map_of (rt_requests rs') i = Some rec \<longrightarrow>
      (\<exists>rs. map_of st r = Some rs \<and> map_of (rt_requests rs) i = Some rec)) \<and>
    (record_of st i = Some rec \<longrightarrow> rr_completed_at rec = None \<longrightarrow> record_of st' i = Some rec)"
    by (auto simp: record_of_def bind_eq_Some_conv split: if_splits)
qed

lemma evict_inv:
  assumes inv: "reducer_inv x n st" and evicted: "evict c st = Some st'" and ok: "evictable st c"
  shows "reducer_inv x n st'"
  using evicted
proof (cases rule: evict_SomeE)
  case (1 r i rs rec b)
  have "rr_completed_at rec \<noteq> None"
    using ok 1 unfolding evictable_def by (cases c) auto
  moreover have rs: "route_inv x n r rs" by (rule reducer_inv_route[OF inv 1(2)])
  ultimately have "hop_count rec = 0"
    using hop_inv_old[OF rs, of i] 1(3) by (auto simp: hop_ok_def hop_count_def)
  then have "map_total hop_count (AList.delete i (rt_requests rs)) = map_total hop_count (rt_requests rs)"
    using map_total_delete[of "rt_requests rs" hop_count i] 1(3) rs by (simp add: route_inv_def)
  moreover have "set (AList.delete i (rt_requests rs)) \<subseteq> set (rt_requests rs)"
    by (auto simp: AList.delete_eq)
  ultimately have "route_inv x n r
      (rs\<lparr>rt_requests := AList.delete i (rt_requests rs), rt_retained_bytes := b\<rparr>)"
    using rs by (auto simp: route_inv_def open_count_def list_all_iff)
  then show ?thesis unfolding 1(4) by (rule reducer_inv_update[OF inv]) simp
next
  case (2 r q rs m b)
  have "route_inv x n r ((set_pending q m rs)\<lparr>rt_retained_bytes := b\<rparr>)"
    using reducer_inv_route[OF inv 2(1)] by (simp add: route_frame)
  then show ?thesis unfolding 2(2) by (rule reducer_inv_update[OF inv]) simp
qed

lemma evictable_kept:
  assumes "evict c st = Some st'" "evictable st c" "evictable st d"
  shows "evictable st' d"
proof (cases d)
  case (RequestCandidate r i seen bytes)
  have "rr_completed_at rec \<noteq> None"
    if "map_of st' r = Some rs'" "map_of (rt_requests rs') i = Some rec" for rs' rec
    using evict_record(1)[OF assms(1,2) that] assms(3)[unfolded evictable_def RequestCandidate]
    by (elim exE conjE) simp
  then show ?thesis unfolding evictable_def RequestCandidate by simp
qed (simp add: evictable_def)

definition pruning_inv :: "bool \<Rightarrow> nat \<Rightarrow> reducer \<Rightarrow> prune_candidate list \<Rightarrow> pruning \<Rightarrow> bool" where
  "pruning_inv x n st cs pr \<longleftrightarrow>
     reducer_inv x n (pr_state pr) \<and> (\<forall>c \<in> set cs. evictable (pr_state pr) c) \<and>
     (\<forall>i rec. record_of st i = Some rec \<longrightarrow> rr_completed_at rec = None \<longrightarrow>
        record_of (pr_state pr) i = Some rec) \<and>
     (\<forall>i \<in> pr_aliases pr. \<forall>rec. record_of st i = Some rec \<longrightarrow> rr_completed_at rec \<noteq> None)"

lemma prune_step_state:
  "pr_state (prune_step opts now c pr) = pr_state pr \<and> prune_step opts now c pr = pr \<or>
   (\<exists>st'. evict c (pr_state pr) = Some st' \<and> pr_state (prune_step opts now c pr) = st' \<and>
      pr_aliases (prune_step opts now c pr) =
        (case c of RequestCandidate _ i _ _ \<Rightarrow> insert i (pr_aliases pr) | _ \<Rightarrow> pr_aliases pr))"
  by (auto simp: prune_step_def split: option.split)

lemma pruning_step:
  assumes "pruning_inv x n st (c # cs) pr" and keyed: "reducer_inv x n st"
    and own: "\<And>r i s b. c = RequestCandidate r i s b \<Longrightarrow> ri_routed_session_id i = r"
  shows "pruning_inv x n st cs (prune_step opts now c pr)"
  using prune_step_state[of opts now c pr]
proof (elim disjE exE conjE)
  assume "prune_step opts now c pr = pr"
  then show ?thesis using assms(1) by (simp add: pruning_inv_def)
next
  fix st' assume st': "evict c (pr_state pr) = Some st'" "pr_state (prune_step opts now c pr) = st'"
    and aliases: "pr_aliases (prune_step opts now c pr) =
        (case c of RequestCandidate _ i _ _ \<Rightarrow> insert i (pr_aliases pr) | _ \<Rightarrow> pr_aliases pr)"
  have ok: "evictable (pr_state pr) c" "\<forall>d \<in> set cs. evictable (pr_state pr) d"
    and inv: "reducer_inv x n (pr_state pr)"
    and kept: "\<And>i rec. record_of st i = Some rec \<Longrightarrow> rr_completed_at rec = None \<Longrightarrow>
      record_of (pr_state pr) i = Some rec"
    and old: "\<forall>i \<in> pr_aliases pr. \<forall>rec. record_of st i = Some rec \<longrightarrow> rr_completed_at rec \<noteq> None"
    using assms(1) by (simp_all add: pruning_inv_def)
  have "\<forall>d \<in> set cs. evictable st' d" using ok evictable_kept[OF st'(1) ok(1)] by simp
  moreover have "\<forall>i \<in> pr_aliases (prune_step opts now c pr). \<forall>rec. record_of st i = Some rec \<longrightarrow> rr_completed_at rec \<noteq> None"
  proof (cases c)
    case (RequestCandidate r i s b)
    have "rr_completed_at rec \<noteq> None" if "record_of st i = Some rec" for rec
    proof
      assume "rr_completed_at rec = None"
      from kept[OF that this] have "record_of (pr_state pr) i = Some rec" .
      then show False using ok(1) own[OF RequestCandidate] \<open>rr_completed_at rec = None\<close>
        unfolding evictable_def RequestCandidate record_of_def by (auto simp: bind_eq_Some_conv)
    qed
    then show ?thesis using old aliases RequestCandidate by simp
  next
    case ExtraCandidate
    then show ?thesis using old aliases by simp
  qed
  ultimately show ?thesis
    using evict_inv[OF inv st'(1) ok(1)] evict_record(2)[OF st'(1) ok(1)] kept st'(2)
    unfolding pruning_inv_def by blast
qed

lemma pruning_fold:
  assumes "reducer_inv x n st"
  shows "pruning_inv x n st cs pr \<Longrightarrow>
    (\<And>r i s b. RequestCandidate r i s b \<in> set cs \<Longrightarrow> ri_routed_session_id i = r) \<Longrightarrow>
    pruning_inv x n st [] (fold (prune_step opts now) cs pr)"
proof (induction cs arbitrary: pr)
  case Nil
  then show ?case by simp
next
  case (Cons c cs)
  have "pruning_inv x n st cs (prune_step opts now c pr)"
    by (rule pruning_step[OF Cons.prems(1) assms]) (use Cons.prems(2) in auto)
  then have "pruning_inv x n st [] (fold (prune_step opts now) cs (prune_step opts now c pr))"
    by (rule Cons.IH) (erule Cons.prems(2)[OF list.set_intros(2)])
  then show ?case by simp
qed

lemma prune_candidates_ok:
  assumes "reducer_inv x n st" "RequestCandidate r i s b \<in> set (prune_candidates st)"
  shows "evictable st (RequestCandidate r i s b)" "ri_routed_session_id i = r"
proof -
  obtain rs rec where rs: "(r, rs) \<in> set st" "(i, rec) \<in> set (rt_requests rs)" "Some s = rr_completed_at rec"
    using assms(2) by (auto simp: prune_candidates_def extra_candidates_def split: option.splits)
  have here: "map_of st r = Some rs" using rs(1) assms(1) by (simp add: reducer_inv_def)
  then have inv: "route_inv x n r rs" by (rule reducer_inv_route[OF assms(1)])
  then have "map_of (rt_requests rs) i = Some rec" using rs(2) by (simp add: route_inv_def)
  then show "evictable st (RequestCandidate r i s b)" using here rs(3)[symmetric] by (simp add: evictable_def)
  show "ri_routed_session_id i = r" using inv rs(2) by (auto simp: route_inv_def list_all_iff)
qed

lemma pruning_start:
  assumes "reducer_inv x n st" "pr_state pr = st" "pr_aliases pr = {}" "set cs \<subseteq> set (prune_candidates st)"
  shows "pruning_inv x n st cs pr"
proof -
  have "evictable st c" if "c \<in> set cs" for c
    using prune_candidates_ok(1)[OF assms(1)] that assms(4) by (cases c) (auto simp: evictable_def)
  then show ?thesis using assms by (simp add: pruning_inv_def)
qed

lemma tidy_inv: "route_inv x n r (tidy_route evicted rs) = route_inv x n r rs"
  by (simp add: tidy_route_def route_frame)

lemma prune_inv:
  assumes "reducer_inv x n (nm_state nm)"
  shows "reducer_inv x n (nm_state (snd (prune_retained_state opts now route nm)))"
    and "record_of (nm_state nm) i = Some rec \<Longrightarrow> rr_completed_at rec = None \<Longrightarrow>
         record_of (nm_state (snd (prune_retained_state opts now route nm))) i = Some rec"
proof (atomize(full), cases "retained_total (nm_state nm) \<le> ob_max_bytes opts \<and> now - nm_last_prune nm < ob_ttl opts")
  case True
  then show "reducer_inv x n (nm_state (snd (prune_retained_state opts now route nm))) \<and>
    (record_of (nm_state nm) i = Some rec \<longrightarrow> rr_completed_at rec = None \<longrightarrow>
     record_of (nm_state (snd (prune_retained_state opts now route nm))) i = Some rec)"
    using assms by (simp add: prune_retained_state_def)
next
  case False
  let ?st = "nm_state nm"
  let ?cs = "sort_key candidate_at (prune_candidates ?st)"
  define pr where "pr = fold (prune_step opts now) ?cs
     \<lparr>pr_state = ?st, pr_retained = retained_total ?st, pr_requests = 0, pr_extra = 0, pr_bytes = 0, pr_aliases = {}\<rparr>"
  define st' where "st' = filter (\<lambda>(_, rs). \<not> route_spent opts now rs) (map_values (tidy_route (pr_aliases pr)) (pr_state pr))"
  have result: "nm_state (snd (prune_retained_state opts now route nm)) = st'"
    unfolding prune_retained_state_def if_not_P[OF False] Let_def snd_conv network_manager.simps
      st'_def pr_def ..
  have "pruning_inv x n ?st [] pr"
    unfolding pr_def
  proof (rule pruning_fold[OF assms])
    show "pruning_inv x n ?st ?cs
      \<lparr>pr_state = ?st, pr_retained = retained_total ?st, pr_requests = 0, pr_extra = 0, pr_bytes = 0, pr_aliases = {}\<rparr>"
      by (rule pruning_start[OF assms]) simp_all
    show "ri_routed_session_id i = r" if "RequestCandidate r i s b \<in> set ?cs" for r i s b
      by (rule prune_candidates_ok(2)[OF assms]) (use that in simp)
  qed
  then have inv: "reducer_inv x n (pr_state pr)"
    and kept: "record_of ?st i = Some rec \<Longrightarrow> rr_completed_at rec = None \<Longrightarrow> record_of (pr_state pr) i = Some rec"
    by (simp_all add: pruning_inv_def)
  have tidied: "reducer_inv x n (map_values (tidy_route (pr_aliases pr)) (pr_state pr))"
    by (rule reducer_inv_map_values[OF inv]) (simp add: tidy_inv)
  have "record_of st' i = Some rec" if "record_of (pr_state pr) i = Some rec"
  proof -
    let ?m = "map_values (tidy_route (pr_aliases pr)) (pr_state pr)"
    have "record_of ?m i = Some rec"
      using that record_of_map_values[of "tidy_route (pr_aliases pr)" "pr_state pr"] by (simp add: tidy_route_def)
    then obtain rs where rs: "map_of ?m (ri_routed_session_id i) = Some rs" "map_of (rt_requests rs) i = Some rec"
      unfolding record_of_def bind_eq_Some_conv by (elim exE conjE)
    have "\<not> route_spent opts now rs" using rs(2) by (auto simp: route_spent_def)
    then have "map_of st' (ri_routed_session_id i) = Some rs"
      unfolding st'_def using tidied rs(1)
      by (subst map_of_filter_wf) (simp_all add: reducer_inv_def del: map_of_map_values map_fst_map_values)
    then show ?thesis using rs(2) by (simp add: record_of_def)
  qed
  then show "reducer_inv x n (nm_state (snd (prune_retained_state opts now route nm))) \<and>
    (record_of (nm_state nm) i = Some rec \<longrightarrow> rr_completed_at rec = None \<longrightarrow>
     record_of (nm_state (snd (prune_retained_state opts now route nm))) i = Some rec)"
    unfolding result using kept tidied by (simp add: st'_def reducer_inv_filter)
qed

subsection \<open>Runs\<close>

definition network_apply ::
  "sizes \<Rightarrow> observation_options \<Rightarrow> (ident \<Rightarrow> frame_scope list option) \<Rightarrow> nat \<times> network_input \<Rightarrow>
   network_manager \<Rightarrow> network_manager" where
  "network_apply sz opts freeze e nm = snd (network_step sz opts freeze e nm)"

text \<open>The two events after which a route counts fewer hops than are open on it.\<close>

fun miscounted :: "nat \<times> network_input \<Rightarrow> reducer \<Rightarrow> bool" where
  "miscounted (_, NetworkMessage route method p) st = socket_renewed route method p st"
| "miscounted (_, FailRoute _ _ _ route) st = hop_seen_elsewhere route st"
| "miscounted _ st = False"

lemma with_prune_inv:
  assumes "reducer_inv x n (snd (f (nm_state nm)))"
  shows "reducer_inv x n (nm_state (snd (with_prune opts now route f nm)))"
  using prune_inv(1)[of x n "nm\<lparr>nm_state := snd (f (nm_state nm))\<rparr>" opts now route] assms
  by (simp add: with_prune_def case_prod_beta)

lemma network_apply_inv:
  assumes "reducer_inv x n (nm_state nm)" "n < usize_max" "x \<Longrightarrow> \<not> miscounted e (nm_state nm)"
  shows "reducer_inv x (Suc n) (nm_state (network_apply sz opts freeze e nm))"
proof -
  have up: "reducer_inv x (Suc n) (nm_state nm)" using reducer_inv_mono[OF assms(1), of "Suc n"] by simp
  obtain now i where e: "e = (now, i)" by (cases e)
  show ?thesis
    using assms(3) unfolding network_apply_def e
    by (cases i) (auto simp: add_route_inv[OF up] reducer_inv_delete[OF up]
        intro!: with_prune_inv handle_inv[OF assms(1,2)] fail_route_inv[OF up])
qed

lemma reducer_inv_inexact: "reducer_inv False n st = reducer_inv False m st"
  by (simp add: reducer_inv_def route_inv_def count_agrees_def)

interpretation network_runs: event_machine "network_apply sz opts freeze" "\<lambda>nm :: network_manager. reducer_inv False 0 (nm_state nm)"
  for sz opts freeze
proof unfold_locales
  fix nm :: network_manager and e assume "reducer_inv False 0 (nm_state nm)"
  then show "reducer_inv False 0 (nm_state (network_apply sz opts freeze e nm))"
    using network_apply_inv[of False 0] reducer_inv_inexact[of "Suc 0" _ 0] by (simp add: usize_max_def)
qed

definition new_network :: "nat \<Rightarrow> network_manager" where
  "new_network now = \<lparr>nm_state = [], nm_last_prune = now\<rparr>"

definition network_run ::
  "sizes \<Rightarrow> observation_options \<Rightarrow> (ident \<Rightarrow> frame_scope list option) \<Rightarrow> nat \<Rightarrow>
   (nat \<times> network_input) list \<Rightarrow> network_manager" where
  "network_run sz opts freeze start es = fold (network_apply sz opts freeze) es (new_network start)"

lemma network_run_inv: "reducer_inv False 0 (nm_state (network_run sz opts freeze start es))"
  unfolding network_run_def by (rule network_runs.run_inv) (simp add: new_network_def)

fun well_counted ::
  "sizes \<Rightarrow> observation_options \<Rightarrow> (ident \<Rightarrow> frame_scope list option) \<Rightarrow> (nat \<times> network_input) list \<Rightarrow>
   network_manager \<Rightarrow> bool" where
  "well_counted sz opts freeze [] nm = True"
| "well_counted sz opts freeze (e # es) nm \<longleftrightarrow>
     \<not> miscounted e (nm_state nm) \<and> well_counted sz opts freeze es (network_apply sz opts freeze e nm)"

lemma network_run_exact:
  "reducer_inv True n (nm_state nm) \<Longrightarrow> n + length es \<le> usize_max \<Longrightarrow> well_counted sz opts freeze es nm \<Longrightarrow>
   reducer_inv True (n + length es) (nm_state (fold (network_apply sz opts freeze) es nm))"
proof (induction es arbitrary: n nm)
  case Nil
  then show ?case by simp
next
  case (Cons e es)
  have "reducer_inv True (Suc n) (nm_state (network_apply sz opts freeze e nm))"
    by (rule network_apply_inv) (use Cons.prems in auto)
  from Cons.IH[OF this] show ?case using Cons.prems by simp
qed

definition open_total :: "reducer \<Rightarrow> nat" where
  "open_total st = map_total open_count st"

lemma map_total_mono:
  "(\<And>k v. (k, v) \<in> set m \<Longrightarrow> f v \<le> (g v :: nat)) \<Longrightarrow> map_total f m \<le> map_total g m"
  by (induction m) (auto simp: map_total_def intro!: add_mono)

lemma inflight_of_inv:
  assumes "reducer_inv x n st"
  shows "inflight_total st \<le> open_total st" "x \<Longrightarrow> inflight_total st = open_total st"
proof -
  have each: "count_agrees x n (rt_inflight rs) (open_count rs)" if "(r, rs) \<in> set st" for r rs
    using assms that by (auto simp: reducer_inv_def list_all_iff route_inv_def)
  show "inflight_total st \<le> open_total st"
    unfolding inflight_total_def open_total_def
  proof (rule map_total_mono)
    fix r rs assume "(r, rs) \<in> set st"
    then show "rt_inflight rs \<le> open_count rs" using each[of r rs] by (simp add: count_agrees_def split: if_splits)
  qed
  show "inflight_total st = open_total st" if x
    unfolding inflight_total_def open_total_def
    by (rule map_total_cong) (use each that in \<open>auto simp: count_agrees_def\<close>)
qed

text \<open>
  C1: over every sequence of route registrations, protocol messages and route closings the number
  of requests the manager reports in flight never exceeds the number of hops that have started and
  not ended plus the sockets still waiting for a handshake, so a page with nothing open is idle;
  and the two numbers agree as long as no route closes while another session alone reports on one
  of its open hops and no socket is announced again after its handshake.
\<close>

theorem inflight_counts_open_hops:
  assumes "nm = network_run sz opts freeze start es"
  shows "inflight_total (nm_state nm) \<le> open_total (nm_state nm) \<and>
    (length es \<le> usize_max \<and> well_counted sz opts freeze es (new_network start) \<longrightarrow>
     inflight_total (nm_state nm) = open_total (nm_state nm))"
proof (intro conjI impI, goal_cases)
  case 1
  show ?case unfolding assms by (rule inflight_of_inv(1)[OF network_run_inv])
next
  case 2
  have "reducer_inv True (0 + length es) (nm_state nm)"
    unfolding assms network_run_def by (rule network_run_exact) (use 2 in \<open>simp_all add: new_network_def\<close>)
  then show ?case using inflight_of_inv(2) by blast
qed

subsection \<open>Examples\<close>

text \<open>A child session starts a request, its parent reports the same request and then its redirect.\<close>

definition quiet_sizes :: sizes where
  "quiet_sizes = \<lparr>sz_debug = \<lambda>_. 0, sz_value = \<lambda>_. 0\<rparr>"

definition wide_options :: observation_options where
  "wide_options = \<lparr>ob_ttl = 100, ob_max_bytes = 100\<rparr>"

definition request_payload :: "string \<Rightarrow> (string \<times> json) list \<Rightarrow> json" where
  "request_payload url extra =
     JObj ([(''requestId'', JStr ''r''), (''request'', JObj [(''url'', JStr url), (''method'', JStr ''GET'')])] @ extra)"

definition handoff_run :: "(nat \<times> network_input) list" where
  "handoff_run =
     [(0, AddRoute False ''P'' [] None None),
      (0, AddRoute False ''C'' [] (Some ''P'') None),
      (1, NetworkMessage ''C'' ''Network.requestWillBeSent'' (request_payload ''a'' [])),
      (2, NetworkMessage ''P'' ''Network.requestWillBeSent'' (request_payload ''a'' []))]"

definition detached_run :: "(nat \<times> network_input) list" where
  "detached_run = handoff_run @
     [(3, NetworkMessage ''P'' ''Network.requestWillBeSent''
        (request_payload ''b'' [(''redirectResponse'', JObj [])])),
      (4, FailRoute ''routed session detached'' RouteDetached [] ''C'')]"

theorem inflight_counts_open_hops_witness:
  "inflight_total (nm_state (network_run quiet_sizes wide_options (\<lambda>_. None) 0 handoff_run))
   = open_total (nm_state (network_run quiet_sizes wide_options (\<lambda>_. None) 0 handoff_run))"
proof -
  have "well_counted quiet_sizes wide_options (\<lambda>_. None) handoff_run (new_network 0)" by code_simp
  moreover have "length handoff_run \<le> usize_max" by (simp add: handoff_run_def usize_max_def)
  ultimately show ?thesis using inflight_counts_open_hops[OF refl] by blast
qed

text \<open>
  the number of requests in flight can fall short: a hop whose redirect only the parent
  session saw stays open when the child session that owns its record closes, yet the manager then
  reports nothing in flight, because closing a route resets its counter to zero.
\<close>

theorem closing_a_route_forgets_an_open_hop:
  "let st = nm_state (network_run quiet_sizes wide_options (\<lambda>_. None) 0 detached_run) in
   inflight_total st = 0 \<and> open_total st = 1"
proof -
  have "inflight_total (nm_state (network_run quiet_sizes wide_options (\<lambda>_. None) 0 detached_run)) = 0"
    by code_simp
  moreover have "open_total (nm_state (network_run quiet_sizes wide_options (\<lambda>_. None) 0 detached_run)) = 1"
    by code_simp
  ultimately show ?thesis by (simp add: Let_def)
qed

subsection \<open>Closing, pruning and completing\<close>

text \<open>
  in every reachable state, closing a route fails exactly the open hops the route has seen,
  on whichever route their record lives, and changes no other record; each failed hop is reported
  once, all of them before the route itself is reported closed.
\<close>

theorem closing_a_route_settles_seen_hops:
  assumes "st = nm_state (network_run sz opts freeze start es)"
    and "fail_route sz now message reason live route st = (pubs, st')"
  shows "record_of st' i = map_option (\<lambda>rec.
           if rr_terminal rec = None \<and> route \<in> rr_observed_routes rec
           then finish_record sz now TermFailed rec else rec) (record_of st i) \<and>
    (\<exists>ids affected. distinct ids \<and>
       set ids = {i. \<exists>rec. record_of st i = Some rec \<and> rr_terminal rec = None \<and> route \<in> rr_observed_routes rec} \<and>
       map (snd \<circ> snd) pubs = map (detached_failure message reason) ids @ [RouteClosed route reason affected])"
proof
  have inv: "reducer_inv False 0 st" unfolding assms(1) by (rule network_run_inv)
  have closed: "st' = snd (fail_route sz now message reason live route st)" using assms(2) by simp
  show "record_of st' i = map_option (\<lambda>rec.
           if rr_terminal rec = None \<and> route \<in> rr_observed_routes rec
           then finish_record sz now TermFailed rec else rec) (record_of st i)"
    unfolding closed by (rule record_of_fail_route[OF inv])
  let ?st1 = "on_route route (mark_closed now reason live) st"
  let ?ids = "open_hops_seen_by route ?st1"
  have inv1: "reducer_inv False 0 ?st1" by (rule mark_closed_inv[OF inv])
  have ids: "set ?ids = {i. \<exists>rec. record_of st i = Some rec \<and> rr_terminal rec = None \<and> route \<in> rr_observed_routes rec}"
    using open_hops_iff[OF inv1, of _ route] by (intro set_eqI) simp
  have sent: "snd (snd (publish st2 r f ev)) = ev" for st2 r f ev by (simp add: publish_def)
  have "pubs = fst (fail_route sz now message reason live route st)" using assms(2) by simp
  then have "\<exists>affected. map (snd \<circ> snd) pubs
      = map (detached_failure message reason) ?ids @ [RouteClosed route reason affected]"
    by (simp add: fail_route_def Let_def sent comp_def)
  then obtain affected where "map (snd \<circ> snd) pubs
      = map (detached_failure message reason) ?ids @ [RouteClosed route reason affected]" ..
  then show "\<exists>ids affected. distinct ids \<and>
       set ids = {i. \<exists>rec. record_of st i = Some rec \<and> rr_terminal rec = None \<and> route \<in> rr_observed_routes rec} \<and>
       map (snd \<circ> snd) pubs = map (detached_failure message reason) ids @ [RouteClosed route reason affected]"
    using open_hops_distinct[OF inv1] ids by (intro exI[of _ ?ids] exI[of _ affected]) simp
qed

theorem closing_a_route_settles_seen_hops_witness:
  "let st = nm_state (network_run quiet_sizes wide_options (\<lambda>_. None) 0 handoff_run);
       i = local_identity ''C'' ''r'';
       st' = snd (fail_route quiet_sizes 4 ''gone'' RouteDetached [] ''P'' st)
   in Option.bind (record_of st' i) rr_terminal = Some TermFailed"
proof -
  let ?st = "nm_state (network_run quiet_sizes wide_options (\<lambda>_. None) 0 handoff_run)"
  let ?i = "local_identity ''C'' ''r''"
  obtain pubs st' where closed: "fail_route quiet_sizes 4 ''gone'' RouteDetached [] ''P'' ?st = (pubs, st')"
    by fastforce
  have "some_and (\<lambda>rec. rr_terminal rec = None \<and> ''P'' \<in> rr_observed_routes rec) (record_of ?st ?i)"
    by code_simp
  then show ?thesis
    using closing_a_route_settles_seen_hops[OF refl closed, of ?i] closed
    by (cases "record_of ?st ?i") (simp_all add: some_and_def Let_def)
qed

text \<open>
  pruning only ever removes what has ended: in every reachable state each hop still open
  survives a prune with its record unchanged, whatever the limits and however late it runs.
\<close>

theorem prune_keeps_open_hops:
  assumes "nm = network_run sz opts freeze start es"
    and "record_of (nm_state nm) i = Some rec" "rr_terminal rec = None"
  shows "record_of (nm_state (snd (prune_retained_state opts' now route nm))) i = Some rec"
proof (rule prune_inv(2)[OF _ assms(2)])
  show inv: "reducer_inv False 0 (nm_state nm)" unfolding assms(1) by (rule network_run_inv)
  obtain rs where rs: "map_of (nm_state nm) (ri_routed_session_id i) = Some rs" "map_of (rt_requests rs) i = Some rec"
    using assms(2) unfolding record_of_def bind_eq_Some_conv by (elim exE conjE)
  have "hop_ok rec" using hop_inv_old[OF reducer_inv_route[OF inv rs(1)], of i] rs(2) by simp
  then show "rr_completed_at rec = None" using assms(3) by (simp add: hop_ok_def)
qed

theorem prune_keeps_open_hops_witness:
  "let nm = network_run quiet_sizes wide_options (\<lambda>_. None) 0 handoff_run;
       i = local_identity ''C'' ''r''
   in record_of (nm_state (snd (prune_retained_state \<lparr>ob_ttl = 0, ob_max_bytes = 0\<rparr> 1000 ''C'' nm))) i
      = record_of (nm_state nm) i"
proof -
  let ?nm = "network_run quiet_sizes wide_options (\<lambda>_. None) 0 handoff_run"
  let ?i = "local_identity ''C'' ''r''"
  have "some_and (\<lambda>rec. rr_terminal rec = None) (record_of (nm_state ?nm) ?i)" by code_simp
  then obtain rec where rec: "record_of (nm_state ?nm) ?i = Some rec" "rr_terminal rec = None"
    by (cases "record_of (nm_state ?nm) ?i") (auto simp: some_and_def)
  show ?thesis using prune_keeps_open_hops[OF refl rec] rec(1) by (simp add: Let_def)
qed

subsection \<open>The first completion\<close>

definition hop_terminal :: "request_identity \<Rightarrow> reducer \<Rightarrow> request_terminal option" where
  "hop_terminal i st = Option.bind (record_of st i) rr_terminal"

lemma route_alias_on_route:
  "route_alias (on_route r f st) route key =
     (if r = route then map_of (rt_canonical_aliases (f (or_default empty_route (map_of st r)))) key
      else route_alias st route key)"
  by (simp add: route_alias_def on_route_def)

lemma route_alias_clear_current [simp]: "route_alias (clear_current_identity i st) = route_alias st"
  unfolding clear_current_identity_def route_alias_def
  by (intro ext, rename_tac route key, case_tac "map_of st route") simp_all

lemma finish_hop_aliases [simp]:
  "rt_canonical_aliases (finish_hop sz now t route encoded i rs) = rt_canonical_aliases rs"
  by (simp add: finish_hop_def settle_def Let_def)

lemma route_alias_finish_hop [simp]:
  "route_alias (on_route r (finish_hop sz now t route' encoded i) st) = route_alias st"
  by (intro ext, rename_tac route key, case_tac "map_of st route")
    (simp_all add: route_alias_on_route, simp_all add: route_alias_def empty_route_def)

text \<open>Completions of one hop as a cell that keeps the first terminal written to it.\<close>

interpretation hop_latch: latch "hop_terminal i"
  "\<lambda>t. on_route (ri_routed_session_id i) (finish_hop sz now t route encoded i)"
  for i sz now route encoded
  by unfold_locales
    (auto simp: hop_terminal_def on_route_def finish_hop_def settle_def Let_def or_default_def
      record_of_def bind_eq_Some_conv empty_route_def empty_record_def finish_record_def
      split: option.splits)

lemma finish_loading_alias:
  assumes "route_alias st route key = Some i"
  shows "finish_loading sz now t route key encoded st =
    (let st1 = on_route route (set_alias key i) st;
         st2 = on_route (ri_routed_session_id i) (finish_hop sz now t route encoded i) st1
     in (hop_terminal i st = None, i, if hop_terminal i st = None then clear_current_identity i st2 else st2))"
proof -
  have "record_of (on_route route (set_alias key i) st) = record_of st"
    by (rule ext, rename_tac j, case_tac "map_of st (ri_routed_session_id j)")
      (auto simp: on_route_def set_alias_def record_of_def empty_route_def)
  then show ?thesis by (simp add: finish_loading_def assms hop_terminal_def Let_def)
qed

text \<open>The message of one completion, as the dispatcher hands it on.\<close>

definition completion ::
  "sizes \<Rightarrow> ident \<Rightarrow> bool \<times> nat \<times> json \<Rightarrow> publication list \<times> reducer \<Rightarrow> publication list \<times> reducer" where
  "completion sz route c acc =
     (case (c, acc) of ((failed, now, p), (pubs, st)) \<Rightarrow>
        case (if failed then loading_failed sz now route p st else loading_finished sz now route p st) of
          (ps, st') \<Rightarrow> (pubs @ ps, st'))"

definition terminal_of :: "bool \<Rightarrow> request_terminal" where
  "terminal_of failed = (if failed then TermFailed else TermFinished)"

lemma completion_step:
  assumes "string_field p ''requestId'' = Some key" "route_alias st route key = Some i"
  shows "\<exists>ps st'. completion sz route (failed, now, p) (pubs, st) = (pubs @ ps, st') \<and>
    length ps = (if hop_terminal i st = None then 1 else 0) \<and> route_alias st' route key = Some i \<and>
    hop_terminal i st' = Some (or_default (terminal_of failed) (hop_terminal i st))"
proof -
  define enc where "enc = (if failed then None else number_field p ''encodedDataLength'')"
  define st1 where "st1 = on_route route (set_alias key i) st"
  define st2 where "st2 = on_route (ri_routed_session_id i) (finish_hop sz now (terminal_of failed) route enc i) st1"
  define st' where "st' = (if hop_terminal i st = None then clear_current_identity i st2 else st2)"
  have fin: "finish_loading sz now (terminal_of failed) route key enc st = (hop_terminal i st = None, i, st')"
    by (simp add: finish_loading_alias[OF assms(2)] Let_def st1_def st2_def st'_def)
  have "record_of st1 = record_of st"
    by (rule ext, rename_tac j, case_tac "map_of st (ri_routed_session_id j)")
      (auto simp: st1_def on_route_def set_alias_def record_of_def empty_route_def)
  then have "hop_terminal i st1 = hop_terminal i st" by (simp add: hop_terminal_def)
  then have "hop_terminal i st2 = Some (or_default (terminal_of failed) (hop_terminal i st))"
    unfolding st2_def by (cases "hop_terminal i st") (simp_all add: hop_latch.put_first hop_latch.put_kept)
  then have ended: "hop_terminal i st' = Some (or_default (terminal_of failed) (hop_terminal i st))"
    by (simp add: st'_def hop_terminal_def)
  have aliased: "route_alias st' route key = Some i"
    by (simp add: st'_def st2_def st1_def route_alias_on_route set_alias_def)
  show ?thesis
    using fin ended aliased
    by (cases failed) (simp_all add: completion_def loading_failed_def loading_finished_def assms(1)
        terminal_of_def enc_def)
qed

lemma completions_kept:
  "list_all (\<lambda>(failed, now, p). string_field p ''requestId'' = Some key) cs \<Longrightarrow>
   route_alias st route key = Some i \<Longrightarrow> hop_terminal i st = Some t \<Longrightarrow>
   \<exists>st'. fold (completion sz route) cs (pubs, st) = (pubs, st') \<and> hop_terminal i st' = Some t"
proof (induction cs arbitrary: st)
  case Nil
  then show ?case by simp
next
  case (Cons c cs)
  obtain failed now p where c: "c = (failed, now, p)" by (cases c)
  obtain ps st1 where "completion sz route c (pubs, st) = (pubs @ ps, st1)" "length ps = 0"
    "route_alias st1 route key = Some i" "hop_terminal i st1 = Some t"
    using completion_step[of p key st route i sz failed now pubs] Cons.prems c by auto
  then show ?case using Cons.IH[of st1] Cons.prems(1) by simp
qed

text \<open>
  the first completion of a hop wins: of any sequence of finished and failed messages for one
  request, in whatever order, only the first is reported and it alone determines how the hop
  ended; the later ones publish nothing.
\<close>

theorem first_completion_wins:
  assumes "route_alias st route key = Some i" "hop_terminal i st = None"
    and "list_all (\<lambda>(failed, now, p). string_field p ''requestId'' = Some key) ((failed, now, p) # cs)"
  shows "\<exists>pub st'. fold (completion sz route) ((failed, now, p) # cs) ([], st) = ([pub], st') \<and>
    hop_terminal i st' = Some (terminal_of failed)"
proof -
  obtain ps st1 where step: "completion sz route (failed, now, p) ([], st) = (ps, st1)" "length ps = 1"
    "route_alias st1 route key = Some i" "hop_terminal i st1 = Some (terminal_of failed)"
    using completion_step[of p key st route i sz failed now "[]"] assms by auto
  obtain pub where "ps = [pub]" using step(2) by (cases ps) auto
  have later: "list_all (\<lambda>(failed, now, p). string_field p ''requestId'' = Some key) cs"
    using assms(3) by simp
  obtain st' where "fold (completion sz route) cs ([pub], st1) = ([pub], st')"
    "hop_terminal i st' = Some (terminal_of failed)"
    using completions_kept[OF later step(3,4), of sz "[pub]"] by (elim exE conjE)
  then show ?thesis using step(1) \<open>ps = [pub]\<close>
    by (intro exI[of _ pub] exI[of _ st']) simp
qed

theorem first_completion_wins_witness:
  "let st = nm_state (network_run quiet_sizes wide_options (\<lambda>_. None) 0 handoff_run);
       p = JObj [(''requestId'', JStr ''r'')]
   in \<exists>pub st'. fold (completion quiet_sizes ''P'') [(True, 5, p), (False, 6, p)] ([], st) = ([pub], st') \<and>
        hop_terminal (local_identity ''C'' ''r'') st' = Some TermFailed"
proof -
  let ?st = "nm_state (network_run quiet_sizes wide_options (\<lambda>_. None) 0 handoff_run)"
  let ?i = "local_identity ''C'' ''r''" and ?p = "JObj [(''requestId'', JStr ''r'')]"
  have "route_alias ?st ''P'' ''r'' = Some ?i" by code_simp
  moreover have "hop_terminal ?i ?st = None" by code_simp
  moreover have "list_all (\<lambda>(failed, now, p). string_field p ''requestId'' = Some ''r'')
      [(True, 5 :: nat, ?p), (False, 6, ?p)]"
    by (simp add: string_field_def)
  ultimately show ?thesis
    using first_completion_wins[of ?st "''P''" "''r''" ?i True 5 ?p "[(False, 6, ?p)]" quiet_sizes]
    by (simp only: terminal_of_def Let_def if_True)
qed

subsection \<open>Idle means quiet\<close>

lemma wait_idle_quiet:
  "wait_idle quiet deadline polls since = Some NetworkIdle \<Longrightarrow>
   \<exists>before run last after. polls = before @ run @ [last] @ after \<and>
     list_all (\<lambda>ip. ip_inflight ip = 0 \<and> ip_fatal ip = None) (run @ [last]) \<and>
     (quiet \<le> ip_measured last - ip_started (hd (run @ [last])) \<or>
      (before = [] \<and> (\<exists>s. since = Some s \<and> quiet \<le> ip_measured last - s)))"
proof (induction polls arbitrary: since)
  case Nil
  then show ?case by simp
next
  case (Cons ip polls)
  show ?case
  proof (cases "idle_pass quiet deadline ip since")
    case (Pair outcome since')
    have quiet_pass: "outcome = Some NetworkIdle \<Longrightarrow> ip_inflight ip = 0 \<and> ip_fatal ip = None \<and>
        quiet \<le> ip_measured ip - or_default (ip_started ip) since"
      and more_pass: "outcome = None \<Longrightarrow> ip_fatal ip = None \<and>
        since' = (if ip_inflight ip = 0 then Some (or_default (ip_started ip) since) else None)"
      using Pair by (auto simp: idle_pass_def Let_def split: option.splits if_splits)
    show ?thesis
    proof (cases outcome)
      case (Some r)
      then have "r = NetworkIdle" using Cons.prems Pair by simp
      then have "ip_inflight ip = 0 \<and> ip_fatal ip = None \<and> quiet \<le> ip_measured ip - or_default (ip_started ip) since"
        using quiet_pass Some by simp
      then show ?thesis
        by (intro exI[of _ "[]"] exI[of _ "[] :: idle_poll list"] exI[of _ ip] exI[of _ polls])
          (cases since; simp)
    next
      case None
      then have rest: "wait_idle quiet deadline polls since' = Some NetworkIdle" using Cons.prems Pair by simp
      obtain before run last after where split: "polls = before @ run @ [last] @ after"
        and calm: "list_all (\<lambda>ip. ip_inflight ip = 0 \<and> ip_fatal ip = None) (run @ [last])"
        and span: "quiet \<le> ip_measured last - ip_started (hd (run @ [last])) \<or>
          (before = [] \<and> (\<exists>s. since' = Some s \<and> quiet \<le> ip_measured last - s))"
        using Cons.IH[OF rest] by blast
      show ?thesis
      proof (cases "quiet \<le> ip_measured last - ip_started (hd (run @ [last]))")
        case True
        then show ?thesis using split calm
          by (intro exI[of _ "ip # before"] exI[of _ run] exI[of _ last] exI[of _ after]) simp
      next
        case False
        then obtain s where s: "before = []" "since' = Some s" "quiet \<le> ip_measured last - s" using span by blast
        then have "ip_inflight ip = 0" "ip_fatal ip = None" "s = or_default (ip_started ip) since"
          using more_pass[OF None] by (auto split: if_splits)
        then show ?thesis using split calm s
          by (intro exI[of _ "[] :: idle_poll list"] exI[of _ "ip # run"] exI[of _ last] exI[of _ after])
            (cases since; simp)
      qed
    qed
  qed
qed

text \<open>
  C23: \<open>wait_idle\<close> reports an idle network only after a quiet window: it ends on a run of
  consecutive passes, none of them failing and each with nothing in flight, that starts at the
  first of them and spans at least the window.
\<close>

theorem idle_means_quiet_window:
  assumes "wait_idle quiet deadline polls None = Some NetworkIdle"
  shows "\<exists>before run last after. polls = before @ run @ [last] @ after \<and>
     list_all (\<lambda>ip. ip_inflight ip = 0 \<and> ip_fatal ip = None) (run @ [last]) \<and>
     quiet \<le> ip_measured last - ip_started (hd (run @ [last]))"
  using wait_idle_quiet[OF assms] by blast

theorem idle_means_quiet_window_witness:
  "\<exists>before run last after.
     [\<lparr>ip_fatal = None, ip_inflight = 1, ip_started = 0, ip_measured = 0, ip_now = 0\<rparr>,
      \<lparr>ip_fatal = None, ip_inflight = 0, ip_started = 3, ip_measured = 3, ip_now = 3\<rparr>,
      \<lparr>ip_fatal = None, ip_inflight = 0, ip_started = 9, ip_measured = 9, ip_now = 9\<rparr>]
       = before @ run @ [last] @ after \<and>
     list_all (\<lambda>ip. ip_inflight ip = 0 \<and> ip_fatal ip = None) (run @ [last]) \<and>
     5 \<le> ip_measured last - ip_started (hd (run @ [last]))"
  by (rule idle_means_quiet_window[of 5 100]) (simp add: idle_pass_def or_default_def)

end
