(* ===== verification/Waits.thy ===== *)
theory Waits
  imports NetworkReducer
begin

text \<open>
  Waiting for a condition of a page (\<open>src/src/runtime/wait.rs\<close>): load states, URL and title
  polls, locator conditions and DOM stability. A wait is a loop over what its passes observe; the
  model takes the list of passes, each with the elapsed times the loop reads in it, in nanoseconds.
  The result \<open>None\<close> means that the loop is still running at the end of the list.
\<close>

subsection \<open>Durations and matchers\<close>

text \<open>The \<open>Debug\<close> form of a \<open>Duration\<close>; the micro sign is its UTF-8 encoding.\<close>

definition pad_digits :: "nat \<Rightarrow> nat \<Rightarrow> string" where
  "pad_digits w n = replicate (w - length (show_nat n)) (CHR ''0'') @ show_nat n"

definition show_decimal :: "nat \<Rightarrow> nat \<Rightarrow> nat \<Rightarrow> string \<Rightarrow> string" where
  "show_decimal whole part w suffix =
     (let digits = rev (dropWhile (\<lambda>c. c = CHR ''0'') (rev (pad_digits w part)))
      in show_nat whole @ (if digits = [] then [] else CHR ''.'' # digits) @ suffix)"

definition show_duration :: "nat \<Rightarrow> string" where
  "show_duration d =
     (if 1000000000 \<le> d then show_decimal (d div 1000000000) (d mod 1000000000) 9 ''s''
      else if 1000000 \<le> d then show_decimal (d div 1000000) (d mod 1000000) 6 ''ms''
      else if 1000 \<le> d then show_decimal (d div 1000) (d mod 1000) 3 [CHR 0xC2, CHR 0xB5, CHR ''s'']
      else show_decimal d 0 1 ''ns'')"

record wait_options =
  wo_timeout :: nat
  wo_poll_interval :: nat
  wo_stability :: nat

definition default_wait_options :: wait_options where
  "default_wait_options =
     \<lparr>wo_timeout = 30000000000, wo_poll_interval = 50000000, wo_stability = 200000000\<rparr>"

datatype load_state = DomContentLoaded | LoadComplete | NetworkIdleState

text \<open>
  The compiled form of a matcher. Compiling and running a regular expression belongs to the
  \<open>regex\<close> crate: \<open>rx_new\<close> yields the printed error of an invalid pattern or a handle that
  \<open>rx_match\<close> runs. Lower-casing is the text library's.
\<close>

record 'r regex_library =
  rx_new :: "string \<Rightarrow> string + 'r"
  rx_match :: "'r \<Rightarrow> string \<Rightarrow> bool"

datatype 'r prepared_matcher =
    PreparedExact string bool
  | PreparedContains string bool
  | PreparedRegex 'r

definition prepare_matcher :: "'r regex_library \<Rightarrow> text_matcher \<Rightarrow> rt_error + 'r prepared_matcher" where
  "prepare_matcher rx m =
     (case m of
        ExactText v cs \<Rightarrow> Inr (PreparedExact v cs)
      | ContainsText v cs \<Rightarrow> Inr (PreparedContains v cs)
      | RegexText pattern cs \<Rightarrow>
          (case rx_new rx (if cs then pattern else ''(?i:'' @ pattern @ '')'') of
             Inl error \<Rightarrow> Inl (with_message (''invalid regular expression: '' @ error)
                                (operation_error ''prepare text matcher'' Preparation))
           | Inr r \<Rightarrow> Inr (PreparedRegex r)))"

definition compare_text ::
  "text_library \<Rightarrow> string \<Rightarrow> string \<Rightarrow> bool \<Rightarrow> (string \<Rightarrow> string \<Rightarrow> bool) \<Rightarrow> bool" where
  "compare_text lib expected actual cs p =
     (if cs then p expected actual else p (tl_lowercase lib expected) (tl_lowercase lib actual))"

fun matcher_accepts :: "text_library \<Rightarrow> 'r regex_library \<Rightarrow> 'r prepared_matcher \<Rightarrow> string \<Rightarrow> bool" where
  "matcher_accepts lib rx (PreparedExact v cs) actual = compare_text lib v actual cs (\<lambda>a b. a = b)"
| "matcher_accepts lib rx (PreparedContains v cs) actual =
     compare_text lib v actual cs (\<lambda>needle haystack. is_infix needle haystack)"
| "matcher_accepts lib rx (PreparedRegex r) actual = rx_match rx r actual"

subsection \<open>Time-outs\<close>

definition wait_timeout :: "string \<Rightarrow> string \<Rightarrow> nat \<Rightarrow> string option \<Rightarrow> rt_error" where
  "wait_timeout condition scope elapsed latest =
     with_details (WaitDetail \<lparr>wf_condition = condition, wf_scope = scope, wf_elapsed = elapsed,
                               wf_last_observation = latest\<rparr>)
       (with_message (''timed out waiting for '' @ condition @ '' in '' @ scope @ '' after '' @ show_duration elapsed)
          (with_action_completion NotStarted (operation_error ''wait for condition'' Confirmation)))"

subsection \<open>Values of the page\<close>

text \<open>
  What one evaluation returns before its deadline: nothing, a protocol failure (its printed form), an
  exception, or a value, which is a string only for some.
\<close>

datatype evaluation = EvalTimedOut nat | EvalFailed string | EvalThrew string | EvalValue "string option"

record value_pass =
  vp_top :: nat
  vp_top_reported :: nat
  vp_evaluation :: evaluation
  vp_checked :: nat
  vp_reported :: nat

definition observation_failed :: "string \<Rightarrow> string \<Rightarrow> rt_error" where
  "observation_failed op message = with_message message (operation_error op Observation)"

fun wait_page_value ::
  "string \<Rightarrow> string \<Rightarrow> nat \<Rightarrow> (string \<Rightarrow> bool) \<Rightarrow> value_pass list \<Rightarrow> string option \<Rightarrow>
   (rt_error + unit) option" where
  "wait_page_value condition scope timeout accepts [] latest = None"
| "wait_page_value condition scope timeout accepts (vp # passes) latest =
     (if timeout \<le> vp_top vp then Some (Inl (wait_timeout condition scope (vp_top_reported vp) latest))
      else case vp_evaluation vp of
        EvalTimedOut elapsed \<Rightarrow> Some (Inl (wait_timeout condition scope elapsed latest))
      | EvalFailed error \<Rightarrow> Some (Inl (cdp_operation id ''observe page wait condition'' Observation error))
      | EvalThrew message \<Rightarrow>
          Some (Inl (observation_failed ''observe page wait condition'' (''wait observation failed: '' @ message)))
      | EvalValue v \<Rightarrow>
          let value = or_default [] v
          in if accepts value then Some (Inr ())
             else if timeout \<le> vp_checked vp
             then Some (Inl (wait_timeout condition scope (vp_reported vp) (Some value)))
             else wait_page_value condition scope timeout accepts passes (Some value))"

definition page_value_sleep :: "wait_options \<Rightarrow> nat \<Rightarrow> nat" where
  "page_value_sleep opts elapsed = min (wo_poll_interval opts) (wo_timeout opts - elapsed)"

definition show_load_state :: "load_state \<Rightarrow> string" where
  "show_load_state s =
     (case s of DomContentLoaded \<Rightarrow> ''DomContentLoaded'' | LoadComplete \<Rightarrow> ''Load''
      | NetworkIdleState \<Rightarrow> ''NetworkIdle'')"

definition ready_state_reached :: "load_state \<Rightarrow> string \<Rightarrow> bool" where
  "ready_state_reached s ready =
     (case s of
        DomContentLoaded \<Rightarrow> ready \<in> {''interactive'', ''complete''}
      | LoadComplete \<Rightarrow> ready = ''complete''
      | NetworkIdleState \<Rightarrow> False)"

text \<open>
  The idle branch hands over to \<open>wait_idle\<close>: the deadline is what remains of the time-out when it
  starts, and the outcome carries the errors of \<open>network.rs\<close>.
\<close>

definition idle_result :: "nat \<Rightarrow> idle_outcome \<Rightarrow> rt_error + unit" where
  "idle_result timeout outcome =
     (case outcome of
        NetworkIdle \<Rightarrow> Inr ()
      | IdleRouteClosed route reason \<Rightarrow> Inl (route_closed_error route reason)
      | IdleTimeout n \<Rightarrow>
          Inl (with_details (WaitDetail
                 \<lparr>wf_condition = ''network idle'', wf_scope = ''page network'', wf_elapsed = timeout,
                  wf_last_observation = Some (show_nat n @ '' requests still in flight'')\<rparr>)
                (with_message (''timed out waiting for network idle after '' @ show_duration timeout)
                  (with_action_completion NotStarted (operation_error ''wait for network'' Confirmation)))))"

definition wait_load_state ::
  "string \<Rightarrow> load_state \<Rightarrow> wait_options \<Rightarrow> nat \<Rightarrow> idle_poll list \<Rightarrow> value_pass list \<Rightarrow>
   (rt_error + unit) option" where
  "wait_load_state target state opts elapsed polls passes =
     (if state = NetworkIdleState
      then map_option (idle_result (wo_timeout opts - elapsed))
             (wait_idle (wo_stability opts) (wo_timeout opts - elapsed) polls None)
      else wait_page_value (''load state '' @ show_load_state state) (''page:'' @ target) (wo_timeout opts)
             (ready_state_reached state) passes None)"

text \<open>\<open>wait_url\<close> and \<open>wait_title\<close>: the matcher is compiled before anything is observed.\<close>

definition wait_matched ::
  "text_library \<Rightarrow> 'r regex_library \<Rightarrow> string \<Rightarrow> string \<Rightarrow> text_matcher \<Rightarrow> wait_options \<Rightarrow> value_pass list \<Rightarrow>
   (rt_error + unit) option" where
  "wait_matched lib rx condition target m opts passes =
     (case prepare_matcher rx m of
        Inl e \<Rightarrow> Some (Inl e)
      | Inr pm \<Rightarrow> wait_page_value condition (''page:'' @ target) (wo_timeout opts)
                    (matcher_accepts lib rx pm) passes None)"

subsection \<open>Locator conditions\<close>

datatype locator_condition =
    CondAttached | CondDetached | CondVisible | CondHidden | CondEnabled | CondDisabled | CondEditable
  | CondText text_matcher
  | CondAttribute string "text_matcher option"
  | CondCount nat

record element_facts =
  ef_attached :: bool
  ef_visible :: bool
  ef_enabled :: bool
  ef_editable :: bool

definition basic_condition :: "locator_condition \<Rightarrow> element_facts \<Rightarrow> bool option" where
  "basic_condition c facts =
     (case c of
        CondAttached \<Rightarrow> Some (ef_attached facts)
      | CondDetached \<Rightarrow> Some (\<not> ef_attached facts)
      | CondVisible \<Rightarrow> Some (ef_visible facts)
      | CondHidden \<Rightarrow> Some (\<not> ef_visible facts)
      | CondEnabled \<Rightarrow> Some (ef_enabled facts)
      | CondDisabled \<Rightarrow> Some (\<not> ef_enabled facts)
      | CondEditable \<Rightarrow> Some (ef_editable facts)
      | _ \<Rightarrow> None)"

definition condition_matcher :: "locator_condition \<Rightarrow> text_matcher option" where
  "condition_matcher c =
     (case c of CondText m \<Rightarrow> Some m | CondAttribute _ (Some m) \<Rightarrow> Some m | _ \<Rightarrow> None)"

definition locator_failure_of :: "rt_error \<Rightarrow> locator_failure option" where
  "locator_failure_of e = (case be_details e of Some (LocatorDetail f) \<Rightarrow> Some f | _ \<Rightarrow> None)"

definition missing_satisfies :: "locator_condition \<Rightarrow> rt_error \<Rightarrow> bool" where
  "missing_satisfies c e \<longleftrightarrow>
     be_cleanup_failures e = [] \<and> locator_failure_of e = Some NotFound \<and>
     c \<in> {CondDetached, CondHidden, CondCount 0}"

definition retryable_locator_error :: "rt_error \<Rightarrow> bool" where
  "retryable_locator_error e \<longleftrightarrow>
     be_cleanup_failures e = [] \<and>
     (case locator_failure_of e of Some NotFound \<Rightarrow> True | Some (Ambiguous _) \<Rightarrow> True | _ \<Rightarrow> False)"

text \<open>One pass: the observation, and the elapsed times read after it and for the report.\<close>

record locator_pass =
  lp_observation :: "rt_error + (bool \<times> string)"
  lp_elapsed :: nat
  lp_reported :: nat

fun wait_locator ::
  "locator_condition \<Rightarrow> string \<Rightarrow> string \<Rightarrow> nat \<Rightarrow> locator_pass list \<Rightarrow> (rt_error + unit) option" where
  "wait_locator c description scope timeout [] = None"
| "wait_locator c description scope timeout (lp # passes) =
     (let verdict = (case lp_observation lp of
            Inr (satisfied, facts) \<Rightarrow> (if satisfied then Inl (Inr ()) else Inr facts)
          | Inl e \<Rightarrow>
              (if missing_satisfies c e then Inl (Inr ())
               else if retryable_locator_error e then Inr (be_message e)
               else Inl (Inl e)))
      in case verdict of
           Inl r \<Rightarrow> Some r
         | Inr facts \<Rightarrow>
             (if timeout \<le> lp_elapsed lp
              then Some (Inl (wait_timeout description scope (lp_reported lp) (Some facts)))
              else wait_locator c description scope timeout passes))"

text \<open>What an observation of a text or an attribute concludes from the value it reads.\<close>

definition text_observation ::
  "text_library \<Rightarrow> 'r regex_library \<Rightarrow> 'r prepared_matcher \<Rightarrow> string option \<Rightarrow> bool" where
  "text_observation lib rx pm v = matcher_accepts lib rx pm (or_default [] v)"

definition attribute_observation ::
  "text_library \<Rightarrow> 'r regex_library \<Rightarrow> 'r prepared_matcher option \<Rightarrow> string option \<Rightarrow> bool" where
  "attribute_observation lib rx pm v =
     (case pm of
        None \<Rightarrow> v \<noteq> None
      | Some m \<Rightarrow> some_and (matcher_accepts lib rx m) v)"

definition merge_wait_cleanup ::
  "rt_error + 'a \<Rightarrow> string option \<Rightarrow> string \<Rightarrow> rt_error + 'a" where
  "merge_wait_cleanup primary cleanup object_group =
     (case (primary, cleanup) of
        (Inr v, None) \<Rightarrow> Inr v
      | (Inr _, Some error) \<Rightarrow>
          Inl (with_cleanup_failure \<lparr>cf_resource = object_group, cf_message = error\<rparr>
                (with_message (''failed to release locator wait object group: '' @ error)
                  (operation_error ''release locator wait object group'' Cleanup)))
      | (Inl e, None) \<Rightarrow> Inl e
      | (Inl e, Some error) \<Rightarrow>
          Inl (with_cleanup_failure \<lparr>cf_resource = object_group, cf_message = error\<rparr> e))"

text \<open>
  With a deadline: \<open>None\<close> for the clean-up means that it did not end within what remains of the
  time-out, or that nothing remained and it was dropped.
\<close>

definition merge_before_deadline ::
  "rt_error + 'a \<Rightarrow> string option option \<Rightarrow> string \<Rightarrow> nat \<Rightarrow> nat \<Rightarrow> rt_error \<Rightarrow> rt_error + 'a" where
  "merge_before_deadline primary cleanup resource elapsed timeout timed_out =
     (if timeout \<le> elapsed \<or> cleanup = None
      then (case primary of Inr _ \<Rightarrow> Inl timed_out | Inl e \<Rightarrow> Inl e)
      else merge_wait_cleanup primary (the cleanup) resource)"

subsection \<open>DOM stability\<close>

datatype generation_read =
    GenTimedOut nat | GenFailed string | GenThrew string | GenUnavailable | GenValue nat

record stability_pass =
  sp_route :: "rt_error option"
  sp_top :: nat
  sp_top_reported :: nat
  sp_read :: generation_read
  sp_settled :: nat
  sp_measured :: nat
  sp_checked :: nat
  sp_reported :: nat

definition stability_timeout :: "string \<Rightarrow> nat \<Rightarrow> string \<Rightarrow> rt_error" where
  "stability_timeout frame elapsed latest = wait_timeout ''DOM stability'' (''frame:'' @ frame) elapsed (Some latest)"

text \<open>Instants are elapsed times since the start; \<open>sp_settled\<close> is the instant a quiet period may start at.\<close>

fun wait_stability ::
  "string \<Rightarrow> wait_options \<Rightarrow> stability_pass list \<Rightarrow> nat option \<Rightarrow> nat option \<Rightarrow> (rt_error + unit) option" where
  "wait_stability frame opts [] previous since = None"
| "wait_stability frame opts (sp # passes) previous since =
     (case sp_route sp of
        Some e \<Rightarrow> Some (Inl e)
      | None \<Rightarrow>
          if wo_timeout opts \<le> sp_top sp
          then Some (Inl (stability_timeout frame (sp_top_reported sp) ''DOM stability observation did not complete''))
          else case sp_read sp of
            GenTimedOut elapsed \<Rightarrow>
              Some (Inl (stability_timeout frame elapsed ''DOM stability observation did not complete''))
          | GenFailed error \<Rightarrow> Some (Inl (cdp_operation id ''observe DOM stability'' Observation error))
          | GenThrew message \<Rightarrow>
              Some (Inl (observation_failed ''observe DOM stability'' (''DOM stability observation failed: '' @ message)))
          | GenUnavailable \<Rightarrow>
              Some (Inl (observation_failed ''observe DOM stability'' ''DOM stability observer became unavailable''))
          | GenValue current \<Rightarrow>
              let same = (previous = Some current);
                  since' = (if same then Some (or_default (sp_settled sp) since) else None)
              in if some_and (\<lambda>quiet. wo_stability opts \<le> sp_measured sp - quiet) since'
                 then Some (Inr ())
                 else if wo_timeout opts \<le> sp_checked sp
                 then Some (Inl (stability_timeout frame (sp_reported sp) ''DOM continued changing''))
                 else wait_stability frame opts passes (Some current) since')"

subsection \<open>Stable means unchanged\<close>

definition reads_generation :: "nat \<Rightarrow> stability_pass \<Rightarrow> bool" where
  "reads_generation g sp \<longleftrightarrow> sp_route sp = None \<and> sp_read sp = GenValue g"

text \<open>A run of passes that all read generation \<open>g\<close> and that lasts, from \<open>quiet\<close>, for the window.\<close>

definition quiet_run :: "wait_options \<Rightarrow> nat \<Rightarrow> nat \<Rightarrow> stability_pass list \<Rightarrow> bool" where
  "quiet_run opts g quiet run \<longleftrightarrow>
     run \<noteq> [] \<and> list_all (reads_generation g) run \<and> wo_stability opts \<le> sp_measured (last run) - quiet"

lemma quiet_run_Cons:
  "reads_generation g sp \<Longrightarrow> quiet_run opts g quiet run \<Longrightarrow> quiet_run opts g quiet (sp # run)"
  by (simp add: quiet_run_def)

text \<open>One pass that does not end the loop, and one that ends it well.\<close>

lemma wait_stability_okE:
  assumes "wait_stability frame opts (sp # passes) previous since = Some (Inr ())"
  obtains g where "reads_generation g sp" "previous = Some g"
      "wo_stability opts \<le> sp_measured sp - or_default (sp_settled sp) since"
  | g where "reads_generation g sp" "previous = Some g"
      "wait_stability frame opts passes (Some g) (Some (or_default (sp_settled sp) since)) = Some (Inr ())"
  | g where "reads_generation g sp" "previous \<noteq> Some g"
      "wait_stability frame opts passes (Some g) None = Some (Inr ())"
  using assms
  by (auto simp: reads_generation_def some_and_def Let_def split: option.splits if_splits generation_read.splits)

lemma wait_stability_run:
  "wait_stability frame opts passes previous since = Some (Inr ()) \<Longrightarrow>
   (\<exists>before p0 run after g. passes = before @ p0 # run @ after \<and> reads_generation g p0 \<and>
      quiet_run opts g (sp_settled (hd run)) run) \<or>
   (\<exists>run after g. passes = run @ after \<and> previous = Some g \<and>
      quiet_run opts g (or_default (sp_settled (hd run)) since) run)"
proof (induction passes arbitrary: previous since)
  case Nil
  then show ?case by simp
next
  case (Cons sp passes)
  have extend: "\<exists>before p0 run after g. sp # passes = before @ p0 # run @ after \<and> reads_generation g p0 \<and>
      quiet_run opts g (sp_settled (hd run)) run"
    if ex: "\<exists>before p0 run after g. passes = before @ p0 # run @ after \<and> reads_generation g p0 \<and>
      quiet_run opts g (sp_settled (hd run)) run"
  proof -
    obtain before p0 run after g where "passes = before @ p0 # run @ after" "reads_generation g p0"
      "quiet_run opts g (sp_settled (hd run)) run" using ex by (elim exE conjE)
    then show ?thesis
      by (intro exI[of _ "sp # before"] exI[of _ p0] exI[of _ run] exI[of _ after] exI[of _ g]) simp
  qed
  show ?case
    using Cons.prems
  proof (cases rule: wait_stability_okE)
    case (1 g)
    then have "quiet_run opts g (or_default (sp_settled (hd [sp])) since) [sp]"
      by (simp add: quiet_run_def)
    then show ?thesis using 1(2)
      by (intro disjI2 exI[of _ "[sp]"] exI[of _ passes] exI[of _ g]) simp
  next
    case (2 g)
    from Cons.IH[OF 2(3)] show ?thesis
    proof
      assume "\<exists>run after g'. passes = run @ after \<and> Some g = Some g' \<and>
        quiet_run opts g' (or_default (sp_settled (hd run)) (Some (or_default (sp_settled sp) since))) run"
      then obtain run after where run: "passes = run @ after"
        "quiet_run opts g (or_default (sp_settled sp) since) run" by auto
      from quiet_run_Cons[OF 2(1) run(2)] show ?thesis using 2(2) run(1)
        by (intro disjI2 exI[of _ "sp # run"] exI[of _ after] exI[of _ g]) simp
    qed (use extend in blast)
  next
    case (3 g)
    from Cons.IH[OF 3(3)] show ?thesis
    proof
      assume "\<exists>run after g'. passes = run @ after \<and> Some g = Some g' \<and>
        quiet_run opts g' (or_default (sp_settled (hd run)) None) run"
      then obtain run after where "passes = run @ after" "quiet_run opts g (sp_settled (hd run)) run" by auto
      then show ?thesis using 3(1)
        by (intro disjI1 exI[of _ "[]"] exI[of _ sp] exI[of _ run] exI[of _ after] exI[of _ g]) simp
    qed (use extend in blast)
  qed
qed

text \<open>
  a DOM is reported stable only after a run of consecutive passes that all read the same
  mutation generation as the pass before them, the last of them at least the stability window
  after the first.
\<close>

theorem stable_means_unchanged:
  assumes "wait_stability frame opts passes None None = Some (Inr ())"
  shows "\<exists>before p0 run after g. passes = before @ p0 # run @ after \<and> reads_generation g p0 \<and>
    quiet_run opts g (sp_settled (hd run)) run"
  using wait_stability_run[OF assms] by blast

definition stability_sample :: "nat \<Rightarrow> nat \<Rightarrow> stability_pass" where
  "stability_sample g now =
     \<lparr>sp_route = None, sp_top = now, sp_top_reported = now, sp_read = GenValue g, sp_settled = now,
      sp_measured = now, sp_checked = now, sp_reported = now\<rparr>"

theorem stable_means_unchanged_witness:
  "\<exists>before p0 run after g.
     [stability_sample 1 0, stability_sample 2 5, stability_sample 2 6, stability_sample 2 300000000]
       = before @ p0 # run @ after \<and> reads_generation g p0 \<and>
     quiet_run default_wait_options g (sp_settled (hd run)) run"
  by (rule stable_means_unchanged[of "''F''"])
    (simp add: stability_sample_def default_wait_options_def some_and_def)

end
