(* ===== verification/Navigation.thy ===== *)
theory Navigation
  imports Waits
begin

text \<open>
  Navigation of a page (\<open>src/src/runtime/navigation.rs\<close>): the commit expectation, the loop that
  waits for the main-frame commit, the final confirmation against the frame tree, and the
  operations \<open>goto\<close>, \<open>reload\<close>, \<open>history\<close>, \<open>expect_navigation\<close> and the navigation of a created page.
  Replies of the browser and of the frame store are inputs; each operation also says whether its
  command was sent.
\<close>

subsection \<open>Data\<close>

datatype navigation_kind = SameDocument | CrossDocumentKind

datatype navigation_cause = CauseGoto | CauseReload | CauseHistory | CauseAction

record navigation_result =
  nr_requested_url :: "string option"
  nr_final_url :: string
  nr_kind :: navigation_kind
  nr_cause :: navigation_cause
  nr_loader_id :: "ident option"
  nr_redirect_observed :: bool

datatype commit_expectation =
    ExpectLoader ident
  | ExpectSameDocumentUrl string
  | ExpectCrossDocument ident
  | ExpectUrl string
  | ExpectAny

datatype navigation_stage =
    StageInitialIdentity | StageUrlResolution | StageHistoryObservation | StageSubscription
  | StageDispatch | StageCommit | StageFinalIdentity

definition stage_phase :: "navigation_stage \<Rightarrow> operation_phase" where
  "stage_phase s =
     (case s of
        StageInitialIdentity \<Rightarrow> Preparation | StageUrlResolution \<Rightarrow> Preparation
      | StageHistoryObservation \<Rightarrow> Observation | StageSubscription \<Rightarrow> Observation
      | StageDispatch \<Rightarrow> Dispatch
      | StageCommit \<Rightarrow> Confirmation | StageFinalIdentity \<Rightarrow> Confirmation)"

definition stage_condition :: "navigation_stage \<Rightarrow> string" where
  "stage_condition s =
     (case s of
        StageInitialIdentity \<Rightarrow> ''initial main-frame document identity''
      | StageUrlResolution \<Rightarrow> ''browser URL resolution''
      | StageHistoryObservation \<Rightarrow> ''navigation history observation''
      | StageSubscription \<Rightarrow> ''navigation event subscription''
      | StageDispatch \<Rightarrow> ''navigation command or action dispatch''
      | StageCommit \<Rightarrow> ''main-frame navigation commit''
      | StageFinalIdentity \<Rightarrow> ''final navigation document identity'')"

definition accepts_cross :: "commit_expectation \<Rightarrow> ident option \<Rightarrow> string \<Rightarrow> bool" where
  "accepts_cross ex loader url =
     (case ex of
        ExpectLoader expected \<Rightarrow> loader = Some expected
      | ExpectCrossDocument previous \<Rightarrow> some_and (\<lambda>l. l \<noteq> previous) loader
      | ExpectAny \<Rightarrow> True
      | ExpectUrl expected \<Rightarrow> expected = url
      | ExpectSameDocumentUrl _ \<Rightarrow> False)"

definition accepts_same :: "commit_expectation \<Rightarrow> string \<Rightarrow> bool" where
  "accepts_same ex url =
     (case ex of
        ExpectAny \<Rightarrow> True
      | ExpectSameDocumentUrl expected \<Rightarrow> expected = url
      | ExpectUrl expected \<Rightarrow> expected = url
      | ExpectLoader _ \<Rightarrow> False
      | ExpectCrossDocument _ \<Rightarrow> False)"

definition normalize_fragment :: "string \<Rightarrow> string" where
  "normalize_fragment url = takeWhile (\<lambda>c. c \<noteq> CHR ''#'') url"

subsection \<open>Errors\<close>

text \<open>The derived \<open>Debug\<close> form of an expectation; quoting of its strings is a parameter.\<close>

definition show_expectation :: "(string \<Rightarrow> string) \<Rightarrow> commit_expectation \<Rightarrow> string" where
  "show_expectation quote ex =
     (case ex of
        ExpectLoader l \<Rightarrow> ''Loader('' @ quote l @ '')''
      | ExpectSameDocumentUrl u \<Rightarrow> ''SameDocumentUrl('' @ quote u @ '')''
      | ExpectCrossDocument l \<Rightarrow> ''CrossDocument { previous_loader: '' @ quote l @ '' }''
      | ExpectUrl u \<Rightarrow> ''Url('' @ quote u @ '')''
      | ExpectAny \<Rightarrow> ''Any'')"

definition superseded ::
  "(string \<Rightarrow> string) \<Rightarrow> commit_expectation \<Rightarrow> string \<Rightarrow> action_completion \<Rightarrow> rt_error" where
  "superseded quote expected observed completion =
     with_message (''navigation was superseded or ambiguous: expected '' @ show_expectation quote expected
                   @ '', observed '' @ observed)
       (with_action_completion completion (operation_error ''wait for navigation'' Confirmation))"

definition navigation_timeout ::
  "nat \<Rightarrow> string option \<Rightarrow> action_completion \<Rightarrow> navigation_stage \<Rightarrow> rt_error" where
  "navigation_timeout elapsed latest completion stage =
     with_details (WaitDetail \<lparr>wf_condition = stage_condition stage, wf_scope = ''page'', wf_elapsed = elapsed,
                               wf_last_observation = latest\<rparr>)
       (with_message (''timed out waiting for '' @ stage_condition stage @ '' after '' @ show_duration elapsed)
         (with_action_completion completion (operation_error ''wait for navigation'' (stage_phase stage))))"

definition validate_navigation_response ::
  "string option \<Rightarrow> bool \<Rightarrow> action_completion \<Rightarrow> rt_error + unit" where
  "validate_navigation_response error_text is_download completion =
     (case error_text of
        Some (c # text) \<Rightarrow>
          Inl (with_message (''navigation failed: '' @ (c # text))
                (with_action_completion completion (operation_error ''navigate page'' Confirmation)))
      | _ \<Rightarrow>
          if is_download
          then Inl (with_message ''navigation produced a download instead of a page document''
                 (with_action_completion completion (operation_error ''navigate page'' Confirmation)))
          else Inr ())"

definition preflight_load_state :: "load_state \<Rightarrow> rt_error + unit" where
  "preflight_load_state s =
     (if s = NetworkIdleState
      then Inl (with_message (''network-idle observation is unavailable until generic network tracking is ''
              @ ''enabled; it is never a default navigation completion signal'')
              (operation_error ''prepare navigation'' Preparation))
      else Inr ())"

subsection \<open>Steps with a deadline\<close>

text \<open>
  A step that awaits the browser: the elapsed time read for \<open>remaining\<close>, the one its error
  reports, and how the awaited operation ends. \<open>OutTimedOut\<close> is the expiry of what remained.
\<close>

datatype ('e, 'a) reply = OutTimedOut nat | OutFailed 'e | OutDone 'a

record ('e, 'a) timed_step =
  ts_elapsed :: nat
  ts_reported :: nat
  ts_reply :: "('e, 'a) reply"

definition step_started :: "nat \<Rightarrow> ('e, 'a) timed_step \<Rightarrow> bool" where
  "step_started timeout ts \<longleftrightarrow> ts_elapsed ts < timeout"

definition run_step ::
  "nat \<Rightarrow> action_completion \<Rightarrow> navigation_stage \<Rightarrow> ('e \<Rightarrow> rt_error) \<Rightarrow> ('e, 'a) timed_step \<Rightarrow> rt_error + 'a" where
  "run_step timeout completion stage on_error ts =
     (if \<not> step_started timeout ts then Inl (navigation_timeout (ts_reported ts) None completion stage)
      else case ts_reply ts of
        OutTimedOut elapsed \<Rightarrow> Inl (navigation_timeout elapsed None completion stage)
      | OutFailed e \<Rightarrow> Inl (on_error e)
      | OutDone v \<Rightarrow> Inr v)"

definition dispatch_error :: "string \<Rightarrow> string \<Rightarrow> rt_error" where
  "dispatch_error op e = with_action_completion Unknown (cdp_operation id op Dispatch e)"

subsection \<open>Waiting for the commit\<close>

record main_document =
  md_frame_id :: ident
  md_loader_id :: ident

record frame_document =
  fd_frame_id :: ident
  fd_url :: string
  fd_url_fragment :: "string option"
  fd_loader_id :: ident

definition document_url :: "frame_document \<Rightarrow> string" where
  "document_url d = fd_url d @ or_default [] (fd_url_fragment d)"

datatype commit_event =
    CommitTimedOut nat
  | CrossEvent frame_document
  | SameEvent ident string
  | CommitStreamFailed string
  | CommitStreamEnded

text \<open>One pass: the elapsed time at its top, the one a report reads, and the event.\<close>

type_synonym commit_pass = "nat \<times> nat \<times> commit_event"

definition stream_failed :: "action_completion \<Rightarrow> string \<Rightarrow> rt_error" where
  "stream_failed completion error =
     with_action_completion completion (cdp_operation id ''read navigation event'' Confirmation error)"

definition stream_ended :: "action_completion \<Rightarrow> rt_error" where
  "stream_ended completion =
     with_message ''navigation event stream closed before a main-frame commit''
       (with_action_completion completion (operation_error ''wait for navigation'' Confirmation))"

fun is_strict :: "commit_expectation \<Rightarrow> bool" where
  "is_strict (ExpectLoader _) = True"
| "is_strict (ExpectSameDocumentUrl _) = True"
| "is_strict _ = False"

fun wait_commit ::
  "(string \<Rightarrow> string) \<Rightarrow> main_document \<Rightarrow> nat \<Rightarrow> action_completion \<Rightarrow> commit_expectation \<Rightarrow>
   commit_pass list \<Rightarrow> (rt_error + (string \<times> navigation_kind \<times> ident option)) option" where
  "wait_commit quote main timeout completion ex [] = None"
| "wait_commit quote main timeout completion ex ((elapsed, reported, ev) # passes) =
     (if timeout \<le> elapsed then Some (Inl (navigation_timeout reported None completion StageCommit))
      else case ev of
        CommitTimedOut later \<Rightarrow> Some (Inl (navigation_timeout later None completion StageCommit))
      | CrossEvent d \<Rightarrow>
          if fd_frame_id d \<noteq> md_frame_id main then wait_commit quote main timeout completion ex passes
          else if accepts_cross ex (Some (fd_loader_id d)) (document_url d)
          then Some (Inr (document_url d, CrossDocumentKind, Some (fd_loader_id d)))
          else if is_strict ex
          then Some (Inl (superseded quote ex
                 (''cross-document loader '' @ fd_loader_id d @ '' at '' @ document_url d) completion))
          else wait_commit quote main timeout completion ex passes
      | SameEvent f url \<Rightarrow>
          if f = md_frame_id main \<and> accepts_same ex url
          then Some (Inr (url, SameDocument, Some (md_loader_id main)))
          else wait_commit quote main timeout completion ex passes
      | CommitStreamFailed error \<Rightarrow> Some (Inl (stream_failed completion error))
      | CommitStreamEnded \<Rightarrow> Some (Inl (stream_ended completion)))"

subsection \<open>Confirmation\<close>

text \<open>The commit is confirmed against the frame tree the browser reports afterwards.\<close>

definition confirm_commit_identity ::
  "(string \<Rightarrow> string) \<Rightarrow> string \<Rightarrow> ident option \<Rightarrow> action_completion \<Rightarrow> nat \<Rightarrow>
   (string, frame_document) timed_step \<Rightarrow> rt_error + unit" where
  "confirm_commit_identity quote accepted_url accepted_loader completion timeout ts =
     (case run_step timeout completion StageFinalIdentity
             (\<lambda>e. with_action_completion completion
                    (cdp_operation id ''confirm navigation document'' Confirmation e)) ts of
        Inl e \<Rightarrow> Inl e
      | Inr d \<Rightarrow>
          if accepted_loader \<noteq> Some (fd_loader_id d) \<or> accepted_url \<noteq> document_url d
          then Inl (superseded quote (ExpectUrl accepted_url)
                 (''document loader '' @ fd_loader_id d @ '' at '' @ document_url d) completion)
          else Inr ())"

text \<open>
  \<open>wait_main_document_applied\<close> of the frame store: the acknowledgements of its reducer until the
  document is the one of the main frame.
\<close>

datatype applied_event =
    StoreCancelled | AppliedDocument ident ident | AppliedLagged nat | AppliedClosed

definition not_confirmed :: "string \<Rightarrow> rt_error" where
  "not_confirmed message =
     with_message message (operation_error ''confirm local navigation document'' Confirmation)"

fun wait_applied :: "ident \<Rightarrow> ident \<Rightarrow> applied_event list \<Rightarrow> (rt_error + unit) option" where
  "wait_applied f loader [] = None"
| "wait_applied f loader (ev # evs) =
     (case ev of
        StoreCancelled \<Rightarrow> Some (Inl (not_confirmed ''frame store closed before the main document was applied''))
      | AppliedDocument f' loader' \<Rightarrow>
          if f' = f \<and> loader' = loader then Some (Inr ()) else wait_applied f loader evs
      | AppliedLagged skipped \<Rightarrow>
          Some (Inl (not_confirmed (''main-document reducer acknowledgement lagged by '' @ show_nat skipped @ '' events'')))
      | AppliedClosed \<Rightarrow> Some (Inl (not_confirmed ''main-document reducer acknowledgement closed'')))"

definition wait_main_document_applied ::
  "ident option \<Rightarrow> (ident \<Rightarrow> ident option) \<Rightarrow> ident \<Rightarrow> ident \<Rightarrow> applied_event list \<Rightarrow> (rt_error + unit) option" where
  "wait_main_document_applied main_frame loader_of f loader evs =
     (if main_frame = Some f \<and> loader_of f = Some loader then Some (Inr ()) else wait_applied f loader evs)"

subsection \<open>Completing a navigation\<close>

record completion_plan =
  cp_requested_url :: "string option"
  cp_expectation :: commit_expectation
  cp_cause :: navigation_cause
  cp_timeout :: nat
  cp_completion :: action_completion

text \<open>
  What follows the command: the commit events, the result of the load-state wait, and the frame tree.
\<close>

record aftermath =
  af_commits :: "commit_pass list"
  af_load :: "(rt_error + unit) option"
  af_tree :: "(string, frame_document) timed_step"

definition complete ::
  "(string \<Rightarrow> string) \<Rightarrow> main_document \<Rightarrow> completion_plan \<Rightarrow> aftermath \<Rightarrow>
   (rt_error + navigation_result) option" where
  "complete quote main cp af =
     (case wait_commit quote main (cp_timeout cp) (cp_completion cp) (cp_expectation cp) (af_commits af) of
        None \<Rightarrow> None
      | Some (Inl e) \<Rightarrow> Some (Inl e)
      | Some (Inr (final_url, kind, loader)) \<Rightarrow>
          (case af_load af of
             None \<Rightarrow> None
           | Some (Inl e) \<Rightarrow> Some (Inl (with_action_completion (cp_completion cp) e))
           | Some (Inr _) \<Rightarrow>
               (case confirm_commit_identity quote final_url loader (cp_completion cp) (cp_timeout cp) (af_tree af) of
                  Inl e \<Rightarrow> Some (Inl e)
                | Inr _ \<Rightarrow>
                    Some (Inr \<lparr>nr_requested_url = cp_requested_url cp, nr_final_url = final_url,
                               nr_kind = kind, nr_cause = cp_cause cp, nr_loader_id = loader,
                               nr_redirect_observed =
                                 some_and (\<lambda>requested. normalize_fragment requested \<noteq> normalize_fragment final_url)
                                   (cp_requested_url cp)\<rparr>))))"

subsection \<open>Operations\<close>

text \<open>
  The result of an operation: whether its command was sent, and what it returns, \<open>None\<close> while it
  still runs.
\<close>

type_synonym 'a navigation = "bool \<times> (rt_error + 'a) option"

record navigate_response =
  rp_error_text :: "string option"
  rp_is_download :: "bool option"
  rp_loader_id :: "ident option"

record goto_world =
  gw_admission :: "rt_error + unit"
  gw_resolve :: "(rt_error, string) timed_step"
  gw_subscribe :: "(rt_error, main_document) timed_step"
  gw_navigate :: "(string, navigate_response) timed_step"
  gw_after :: aftermath

definition goto ::
  "(string \<Rightarrow> string) \<Rightarrow> load_state \<Rightarrow> nat \<Rightarrow> goto_world \<Rightarrow> navigation_result navigation" where
  "goto quote wait_until timeout w =
     (case preflight_load_state wait_until of
        Inl e \<Rightarrow> (False, Some (Inl e))
      | Inr _ \<Rightarrow>
     (case gw_admission w of
        Inl e \<Rightarrow> (False, Some (Inl e))
      | Inr _ \<Rightarrow>
     (case run_step timeout NotStarted StageUrlResolution id (gw_resolve w) of
        Inl e \<Rightarrow> (False, Some (Inl e))
      | Inr target \<Rightarrow>
     (case run_step timeout NotStarted StageSubscription id (gw_subscribe w) of
        Inl e \<Rightarrow> (False, Some (Inl e))
      | Inr main \<Rightarrow>
          (step_started timeout (gw_navigate w),
           (case run_step timeout Unknown StageDispatch (dispatch_error ''navigate page'') (gw_navigate w) of
              Inl e \<Rightarrow> Some (Inl e)
            | Inr response \<Rightarrow>
                (case validate_navigation_response (rp_error_text response)
                        (or_default False (rp_is_download response)) Completed of
                   Inl e \<Rightarrow> Some (Inl e)
                 | Inr _ \<Rightarrow>
                     complete quote main
                       \<lparr>cp_requested_url = Some target,
                        cp_expectation = (case rp_loader_id response of
                            None \<Rightarrow> ExpectSameDocumentUrl target | Some l \<Rightarrow> ExpectLoader l),
                        cp_cause = CauseGoto, cp_timeout = timeout, cp_completion = Completed\<rparr>
                       (gw_after w))))))))"

record reload_world =
  rw_admission :: "rt_error + unit"
  rw_subscribe :: "(rt_error, main_document) timed_step"
  rw_reload :: "(string, unit) timed_step"
  rw_after :: aftermath

definition reload :: "(string \<Rightarrow> string) \<Rightarrow> reload_world \<Rightarrow> navigation_result navigation" where
  "reload quote w =
     (let timeout = wo_timeout default_wait_options in
      case rw_admission w of
        Inl e \<Rightarrow> (False, Some (Inl e))
      | Inr _ \<Rightarrow>
     (case run_step timeout NotStarted StageSubscription id (rw_subscribe w) of
        Inl e \<Rightarrow> (False, Some (Inl e))
      | Inr main \<Rightarrow>
          (step_started timeout (rw_reload w),
           (case run_step timeout Unknown StageDispatch (dispatch_error ''reload page'') (rw_reload w) of
              Inl e \<Rightarrow> Some (Inl e)
            | Inr _ \<Rightarrow>
                complete quote main
                  \<lparr>cp_requested_url = None, cp_expectation = ExpectCrossDocument (md_loader_id main),
                   cp_cause = CauseReload, cp_timeout = timeout, cp_completion = Completed\<rparr>
                  (rw_after w)))))"

text \<open>
  \<open>history\<close>: the entry at the current index plus \<open>delta\<close>. Both are \<open>i64\<close>; their sum is taken not to
  overflow, as the index of a real history and the steps of the callers are small.
\<close>

record history_world =
  hw_admission :: "rt_error + unit"
  hw_history :: "(string, int \<times> (int \<times> string) list) timed_step"
  hw_subscribe :: "(rt_error, main_document) timed_step"
  hw_navigate :: "(string, unit) timed_step"
  hw_after :: aftermath

definition history ::
  "(string \<Rightarrow> string) \<Rightarrow> int \<Rightarrow> history_world \<Rightarrow> navigation_result option navigation" where
  "history quote delta w =
     (let timeout = wo_timeout default_wait_options in
      case hw_admission w of
        Inl e \<Rightarrow> (False, Some (Inl e))
      | Inr _ \<Rightarrow>
     (case run_step timeout NotStarted StageHistoryObservation
             (cdp_operation id ''read navigation history'' Observation) (hw_history w) of
        Inl e \<Rightarrow> (False, Some (Inl e))
      | Inr (current, entries) \<Rightarrow>
          let target = current + delta in
          if target < 0 \<or> int (length entries) \<le> target then (False, Some (Inr None))
          else
            let requested = snd (entries ! nat target) in
            (case run_step timeout NotStarted StageSubscription id (hw_subscribe w) of
               Inl e \<Rightarrow> (False, Some (Inl e))
             | Inr main \<Rightarrow>
                 (step_started timeout (hw_navigate w),
                  (case run_step timeout Unknown StageDispatch (dispatch_error ''navigate history'') (hw_navigate w) of
                     Inl e \<Rightarrow> Some (Inl e)
                   | Inr _ \<Rightarrow>
                       map_option (map_sum id Some)
                         (complete quote main
                           \<lparr>cp_requested_url = Some requested, cp_expectation = ExpectUrl requested,
                            cp_cause = CauseHistory, cp_timeout = timeout, cp_completion = Completed\<rparr>
                           (hw_after w)))))))"

text \<open>\<open>expect_navigation\<close>: the command is the caller's action, whose own error is passed on.\<close>

record expect_world =
  ew_admission :: "rt_error + unit"
  ew_subscribe :: "(rt_error, main_document) timed_step"
  ew_action :: "(rt_error, unit) timed_step"
  ew_after :: aftermath

definition expect_navigation ::
  "(string \<Rightarrow> string) \<Rightarrow> load_state \<Rightarrow> nat \<Rightarrow> expect_world \<Rightarrow> navigation_result navigation" where
  "expect_navigation quote wait_until timeout w =
     (case preflight_load_state wait_until of
        Inl e \<Rightarrow> (False, Some (Inl e))
      | Inr _ \<Rightarrow>
     (case ew_admission w of
        Inl e \<Rightarrow> (False, Some (Inl e))
      | Inr _ \<Rightarrow>
     (case run_step timeout NotStarted StageSubscription id (ew_subscribe w) of
        Inl e \<Rightarrow> (False, Some (Inl e))
      | Inr main \<Rightarrow>
          (step_started timeout (ew_action w),
           (case run_step timeout Unknown StageDispatch id (ew_action w) of
              Inl e \<Rightarrow> Some (Inl e)
            | Inr _ \<Rightarrow>
                complete quote main
                  \<lparr>cp_requested_url = None, cp_expectation = ExpectAny, cp_cause = CauseAction,
                   cp_timeout = timeout, cp_completion = Completed\<rparr>
                  (ew_after w))))))"

text \<open>
  The navigation of a created page. For \<open>about:blank\<close> nothing is sent; otherwise the local frame
  graph must have applied the committed document before it is confirmed.
\<close>

record create_world =
  cw_identity :: "(rt_error, main_document) timed_step"
  cw_subscribe :: "(rt_error, main_document) timed_step"
  cw_navigate :: "(string, navigate_response) timed_step"
  cw_commits :: "commit_pass list"
  cw_applied :: "(rt_error, unit) timed_step"
  cw_tree :: "(string, frame_document) timed_step"

definition commit_page_creation_navigation ::
  "(string \<Rightarrow> string) \<Rightarrow> string \<Rightarrow> create_world \<Rightarrow> unit navigation" where
  "commit_page_creation_navigation quote requested_url w =
     (let timeout = wo_timeout default_wait_options in
      if requested_url = ''about:blank''
      then (case run_step timeout NotStarted StageInitialIdentity id (cw_identity w) of
              Inl e \<Rightarrow> (False, Some (Inl e))
            | Inr main \<Rightarrow>
                (False, Some (confirm_commit_identity quote requested_url (Some (md_loader_id main))
                                NotStarted timeout (cw_tree w))))
      else
        (case run_step timeout NotStarted StageSubscription id (cw_subscribe w) of
           Inl e \<Rightarrow> (False, Some (Inl e))
         | Inr main \<Rightarrow>
             (step_started timeout (cw_navigate w),
              (case run_step timeout Unknown StageDispatch (dispatch_error ''navigate page'') (cw_navigate w) of
                 Inl e \<Rightarrow> Some (Inl e)
               | Inr response \<Rightarrow>
                   (case validate_navigation_response (rp_error_text response)
                           (or_default False (rp_is_download response)) Completed of
                      Inl e \<Rightarrow> Some (Inl e)
                    | Inr _ \<Rightarrow>
                        (case wait_commit quote main timeout Completed
                                (case rp_loader_id response of
                                   None \<Rightarrow> ExpectSameDocumentUrl requested_url | Some l \<Rightarrow> ExpectLoader l)
                                (cw_commits w) of
                           None \<Rightarrow> None
                         | Some (Inl e) \<Rightarrow> Some (Inl e)
                         | Some (Inr (url, kind, loader)) \<Rightarrow>
                             (case (if loader = None then Inr ()
                                    else run_step timeout Completed StageFinalIdentity id (cw_applied w)) of
                                Inl e \<Rightarrow> Some (Inl e)
                              | Inr _ \<Rightarrow>
                                  Some (confirm_commit_identity quote url loader Completed timeout (cw_tree w)))))))))"

subsection \<open>What a successful navigation means\<close>

lemma run_step_Inr:
  "run_step timeout c stage on_error ts = Inr v \<longleftrightarrow> step_started timeout ts \<and> ts_reply ts = OutDone v"
  by (auto simp: run_step_def split: reply.splits)

lemma confirm_Inr:
  "confirm_commit_identity quote url loader c timeout ts = Inr u \<longleftrightarrow>
   (\<exists>d. step_started timeout ts \<and> ts_reply ts = OutDone d \<and> loader = Some (fd_loader_id d) \<and> url = document_url d)"
  by (auto simp: confirm_commit_identity_def run_step_def split: reply.splits if_splits)

text \<open>The first event that the expectation accepts, with everything before it passed over.\<close>

definition passed_over :: "main_document \<Rightarrow> commit_expectation \<Rightarrow> commit_event \<Rightarrow> bool" where
  "passed_over main ex ev \<longleftrightarrow>
     (case ev of
        CrossEvent d \<Rightarrow>
          fd_frame_id d \<noteq> md_frame_id main \<or>
          (\<not> accepts_cross ex (Some (fd_loader_id d)) (document_url d) \<and> \<not> is_strict ex)
      | SameEvent f url \<Rightarrow> f \<noteq> md_frame_id main \<or> \<not> accepts_same ex url
      | _ \<Rightarrow> False)"

lemma wait_commit_Inr:
  "wait_commit quote main timeout c ex passes = Some (Inr (url, kind, loader)) \<Longrightarrow>
   \<exists>before t r ev after. passes = before @ (t, r, ev) # after \<and>
     list_all (\<lambda>(t, r, ev). t < timeout \<and> passed_over main ex ev) before \<and> t < timeout \<and>
     (case ev of
        CrossEvent d \<Rightarrow> fd_frame_id d = md_frame_id main \<and> accepts_cross ex loader url \<and>
          url = document_url d \<and> kind = CrossDocumentKind \<and> loader = Some (fd_loader_id d)
      | SameEvent f u \<Rightarrow> f = md_frame_id main \<and> accepts_same ex url \<and> url = u \<and>
          kind = SameDocument \<and> loader = Some (md_loader_id main)
      | _ \<Rightarrow> False)"
proof (induction passes)
  case Nil
  then show ?case by simp
next
  case (Cons pass passes)
  obtain t r ev where pass: "pass = (t, r, ev)" by (cases pass)
  have t: "t < timeout" using Cons.prems pass by (auto split: if_splits)
  show ?case
  proof (cases "passed_over main ex ev")
    case True
    then have "wait_commit quote main timeout c ex passes = Some (Inr (url, kind, loader))"
      using Cons.prems pass t by (auto simp: passed_over_def split: commit_event.splits if_splits)
    from Cons.IH[OF this] obtain before t' r' ev' after where
      rest: "passes = before @ (t', r', ev') # after"
        "list_all (\<lambda>(t, r, ev). t < timeout \<and> passed_over main ex ev) before \<and> t' < timeout \<and>
         (case ev' of
            CrossEvent d \<Rightarrow> fd_frame_id d = md_frame_id main \<and> accepts_cross ex loader url \<and>
              url = document_url d \<and> kind = CrossDocumentKind \<and> loader = Some (fd_loader_id d)
          | SameEvent f u \<Rightarrow> f = md_frame_id main \<and> accepts_same ex url \<and> url = u \<and>
              kind = SameDocument \<and> loader = Some (md_loader_id main)
          | _ \<Rightarrow> False)" by (elim exE conjE) blast
    show ?thesis using rest pass t True
      by (intro exI[of _ "pass # before"] exI[of _ t'] exI[of _ r'] exI[of _ ev'] exI[of _ after]) simp
  next
    case False
    show ?thesis using Cons.prems pass t False
      by (intro exI[of _ "[]"] exI[of _ t] exI[of _ r] exI[of _ ev] exI[of _ passes])
        (auto simp: passed_over_def split: commit_event.splits if_splits)
  qed
qed

lemma complete_Inr:
  assumes "complete quote main cp af = Some (Inr r)"
  shows "wait_commit quote main (cp_timeout cp) (cp_completion cp) (cp_expectation cp) (af_commits af)
           = Some (Inr (nr_final_url r, nr_kind r, nr_loader_id r)) \<and>
    af_load af = Some (Inr ()) \<and>
    (\<exists>d. ts_reply (af_tree af) = OutDone d \<and> nr_loader_id r = Some (fd_loader_id d) \<and> nr_final_url r = document_url d) \<and>
    nr_cause r = cp_cause cp \<and> nr_requested_url r = cp_requested_url cp \<and>
    (nr_redirect_observed r \<longleftrightarrow>
      some_and (\<lambda>u. normalize_fragment u \<noteq> normalize_fragment (nr_final_url r)) (cp_requested_url cp))"
proof -
  obtain url kind loader where wc: "wait_commit quote main (cp_timeout cp) (cp_completion cp) (cp_expectation cp) (af_commits af)
           = Some (Inr (url, kind, loader))"
    using assms by (auto simp: complete_def split: option.splits sum.splits prod.splits)
  have load: "af_load af = Some (Inr ())"
    using assms wc by (auto simp: complete_def split: option.splits sum.splits)
  obtain u where conf: "confirm_commit_identity quote url loader (cp_completion cp) (cp_timeout cp) (af_tree af) = Inr u"
    using assms wc load by (auto simp: complete_def split: sum.splits)
  show ?thesis using assms wc load conf conf[unfolded confirm_Inr]
    by (auto simp: complete_def)
qed

text \<open>
  C24: a navigation that \<open>goto\<close> reports as successful is the one its command started, and the document the
  page shows at the end. The browser answered the command without an error text and not with a download.
  Before the timeout the main frame committed exactly what that answer announced: when it named a loader, a
  new document of that loader, otherwise the resolved URL within the same document. Every event before that
  commit was one to pass over (of another frame, or a change within the document that the answer did not
  announce). The result carries the loader and URL of the commit, the frame tree read afterwards has exactly
  both, and a redirect is reported exactly when the requested and the final URL differ up to their fragments.
\<close>

theorem goto_reports_the_shown_document:
  assumes "goto quote wait_until timeout w = (sent, Some (Inr r))"
  shows "sent \<and> nr_cause r = CauseGoto \<and>
    (\<exists>target response main d before t reported ev after.
       ts_reply (gw_resolve w) = OutDone target \<and> nr_requested_url r = Some target \<and>
       ts_reply (gw_navigate w) = OutDone response \<and> ts_reply (gw_subscribe w) = OutDone main \<and>
       rp_error_text response \<in> {None, Some []} \<and> rp_is_download response \<noteq> Some True \<and>
       af_commits (gw_after w) = before @ (t, reported, ev) # after \<and> t < timeout \<and>
       list_all (\<lambda>(t, _, ev). t < timeout \<and> passed_over main
         (case rp_loader_id response of None \<Rightarrow> ExpectSameDocumentUrl target | Some l \<Rightarrow> ExpectLoader l) ev) before \<and>
       (case rp_loader_id response of
          Some l \<Rightarrow> \<exists>c. ev = CrossEvent c \<and> fd_frame_id c = md_frame_id main \<and> fd_loader_id c = l \<and>
                       document_url c = nr_final_url r
        | None \<Rightarrow> ev = SameEvent (md_frame_id main) target) \<and>
       ts_reply (af_tree (gw_after w)) = OutDone d \<and>
       nr_loader_id r = Some (fd_loader_id d) \<and> nr_final_url r = document_url d \<and>
       (case rp_loader_id response of
          Some l \<Rightarrow> nr_loader_id r = Some l \<and> nr_kind r = CrossDocumentKind
        | None \<Rightarrow> nr_final_url r = target \<and> nr_kind r = SameDocument \<and> nr_loader_id r = Some (md_loader_id main)) \<and>
       (nr_redirect_observed r \<longleftrightarrow> normalize_fragment target \<noteq> normalize_fragment (nr_final_url r)))"
proof -
  obtain target where target: "run_step timeout NotStarted StageUrlResolution id (gw_resolve w) = Inr target"
    using assms by (auto simp: goto_def split: sum.splits)
  obtain main where main: "run_step timeout NotStarted StageSubscription id (gw_subscribe w) = Inr main"
    using assms target by (auto simp: goto_def split: sum.splits)
  obtain response where response:
    "run_step timeout Unknown StageDispatch (dispatch_error ''navigate page'') (gw_navigate w) = Inr response"
    using assms target main by (auto simp: goto_def split: sum.splits)
  let ?ex = "case rp_loader_id response of None \<Rightarrow> ExpectSameDocumentUrl target | Some l \<Rightarrow> ExpectLoader l"
  let ?cp = "\<lparr>cp_requested_url = Some target, cp_expectation = ?ex, cp_cause = CauseGoto,
              cp_timeout = timeout, cp_completion = Completed\<rparr>"
  have done': "complete quote main ?cp (gw_after w) = Some (Inr r)" and sent: sent
    and valid: "validate_navigation_response (rp_error_text response) (or_default False (rp_is_download response)) Completed = Inr ()"
    using assms target main response by (auto simp: goto_def run_step_Inr split: sum.splits)
  have answer: "rp_error_text response \<in> {None, Some []} \<and> rp_is_download response \<noteq> Some True"
    using valid by (auto simp: validate_navigation_response_def split: option.splits list.splits if_splits)
  note c = complete_Inr[OF done', simplified]
  have commit: "wait_commit quote main timeout Completed ?ex (af_commits (gw_after w))
      = Some (Inr (nr_final_url r, nr_kind r, nr_loader_id r))" using c by blast
  from wait_commit_Inr[OF commit] obtain before t reported ev after where
    split: "af_commits (gw_after w) = before @ (t, reported, ev) # after" "t < timeout"
      "list_all (\<lambda>(t, r, ev). t < timeout \<and> passed_over main ?ex ev) before"
    and accepted: "case ev of
        CrossEvent d \<Rightarrow> fd_frame_id d = md_frame_id main \<and> accepts_cross ?ex (nr_loader_id r) (nr_final_url r) \<and>
          nr_final_url r = document_url d \<and> nr_kind r = CrossDocumentKind \<and> nr_loader_id r = Some (fd_loader_id d)
      | SameEvent f u \<Rightarrow> f = md_frame_id main \<and> accepts_same ?ex (nr_final_url r) \<and> nr_final_url r = u \<and>
          nr_kind r = SameDocument \<and> nr_loader_id r = Some (md_loader_id main)
      | _ \<Rightarrow> False"
    by (elim exE conjE) blast
  have event: "case rp_loader_id response of
      Some l \<Rightarrow> \<exists>c. ev = CrossEvent c \<and> fd_frame_id c = md_frame_id main \<and> fd_loader_id c = l \<and> document_url c = nr_final_url r
    | None \<Rightarrow> ev = SameEvent (md_frame_id main) target"
    and kind: "case rp_loader_id response of
      Some l \<Rightarrow> nr_loader_id r = Some l \<and> nr_kind r = CrossDocumentKind
    | None \<Rightarrow> nr_final_url r = target \<and> nr_kind r = SameDocument \<and> nr_loader_id r = Some (md_loader_id main)"
    using accepted by (cases ev; cases "rp_loader_id response"; auto simp: accepts_cross_def accepts_same_def)+
  have replies: "ts_reply (gw_resolve w) = OutDone target" "ts_reply (gw_navigate w) = OutDone response"
    "ts_reply (gw_subscribe w) = OutDone main"
    using target main response by (simp_all add: run_step_Inr)
  obtain d where d: "ts_reply (af_tree (gw_after w)) = OutDone d" "nr_loader_id r = Some (fd_loader_id d)"
    "nr_final_url r = document_url d" using c by blast
  have "nr_cause r = CauseGoto" "nr_requested_url r = Some target"
    "nr_redirect_observed r \<longleftrightarrow> normalize_fragment target \<noteq> normalize_fragment (nr_final_url r)"
    using c by (simp_all add: some_and_def)
  then show ?thesis using sent replies d kind event split answer by blast
qed

definition plain_world :: goto_world where
  "plain_world =
     \<lparr>gw_admission = Inr (),
      gw_resolve = \<lparr>ts_elapsed = 0, ts_reported = 0, ts_reply = OutDone ''http://a/''\<rparr>,
      gw_subscribe = \<lparr>ts_elapsed = 1, ts_reported = 1,
        ts_reply = OutDone \<lparr>md_frame_id = ''F'', md_loader_id = ''L0''\<rparr>\<rparr>,
      gw_navigate = \<lparr>ts_elapsed = 2, ts_reported = 2,
        ts_reply = OutDone \<lparr>rp_error_text = None, rp_is_download = None, rp_loader_id = Some ''L1''\<rparr>\<rparr>,
      gw_after =
        \<lparr>af_commits =
           [(3, 3, SameEvent ''F'' ''http://a/#x''),
            (4, 4, CrossEvent \<lparr>fd_frame_id = ''C'', fd_url = ''http://c/'', fd_url_fragment = None, fd_loader_id = ''L9''\<rparr>),
            (5, 5, CrossEvent \<lparr>fd_frame_id = ''F'', fd_url = ''http://b/'', fd_url_fragment = None, fd_loader_id = ''L1''\<rparr>)],
         af_load = Some (Inr ()),
         af_tree = \<lparr>ts_elapsed = 6, ts_reported = 6,
           ts_reply = OutDone \<lparr>fd_frame_id = ''F'', fd_url = ''http://b/'', fd_url_fragment = None, fd_loader_id = ''L1''\<rparr>\<rparr>\<rparr>\<rparr>"

theorem goto_reports_the_shown_document_witness:
  "\<exists>r. goto id LoadComplete 100 plain_world = (True, Some (Inr r)) \<and> nr_loader_id r = Some ''L1'' \<and>
     nr_redirect_observed r"
proof -
  obtain r where r: "goto id LoadComplete 100 plain_world = (True, Some (Inr r))"
    by (simp add: goto_def plain_world_def preflight_load_state_def run_step_def step_started_def
        validate_navigation_response_def complete_def accepts_same_def accepts_cross_def
        document_url_def confirm_commit_identity_def some_and_def)
  from goto_reports_the_shown_document[OF r] r show ?thesis
    by (auto simp: plain_world_def document_url_def normalize_fragment_def)
qed

subsection \<open>What an error says of the command\<close>

lemma completion_of_errors [simp]:
  "be_action_completed (with_action_completion c e) = c"
  "be_action_completed (with_message m e) = be_action_completed e"
  "be_action_completed (with_details d e) = be_action_completed e"
  "be_action_completed (navigation_timeout t l c stage) = c"
  "be_action_completed (superseded quote ex ob c) = c"
  "be_action_completed (stream_failed c er) = c" "be_action_completed (stream_ended c) = c"
  "be_action_completed (dispatch_error op er) = Unknown"
  by (simp_all add: with_action_completion_def with_message_def with_details_def navigation_timeout_def
      superseded_def stream_failed_def stream_ended_def dispatch_error_def)

lemma wait_commit_Inl:
  "wait_commit quote main timeout c ex passes = Some (Inl e) \<Longrightarrow> be_action_completed e = c"
  by (induction passes) (auto split: if_splits commit_event.splits)

lemma run_step_Inl:
  "run_step timeout c stage on_error ts = Inl e \<Longrightarrow>
   be_action_completed e = c \<or> (\<exists>er. ts_reply ts = OutFailed er \<and> e = on_error er)"
  by (auto simp: run_step_def split: if_splits reply.splits)

lemma confirm_Inl:
  "confirm_commit_identity quote url loader c timeout ts = Inl e \<Longrightarrow> be_action_completed e = c"
  by (auto simp: confirm_commit_identity_def split: sum.splits if_splits dest!: run_step_Inl)

lemma complete_Inl:
  "complete quote main cp af = Some (Inl e) \<Longrightarrow> be_action_completed e = cp_completion cp"
  by (auto simp: complete_def split: option.splits sum.splits dest!: wait_commit_Inl confirm_Inl)

lemma dispatched_Inl:
  "run_step timeout Unknown stage (dispatch_error op) ts = Inl e \<Longrightarrow> be_action_completed e = Unknown"
  by (auto dest!: run_step_Inl)

lemma validate_Inl:
  "validate_navigation_response text download c = Inl e \<Longrightarrow> be_action_completed e = c"
  by (auto simp: validate_navigation_response_def split: option.splits list.splits if_splits)

text \<open>What follows a sent command, for any reply to it.\<close>

lemma after_dispatch:
  assumes "(case run_step timeout Unknown StageDispatch (dispatch_error op) ts of
      Inl e \<Rightarrow> Some (Inl e) | Inr v \<Rightarrow> rest v) = Some (Inl e)"
    and "\<And>v. rest v = Some (Inl e) \<Longrightarrow> be_action_completed e = Completed"
  shows "be_action_completed e = (case ts_reply ts of OutDone _ \<Rightarrow> if step_started timeout ts then Completed else Unknown | _ \<Rightarrow> Unknown)"
proof (cases "run_step timeout Unknown StageDispatch (dispatch_error op) ts")
  case (Inl e')
  then have "e' = e" using assms(1) by simp
  then have "be_action_completed e = Unknown" using dispatched_Inl Inl by metis
  moreover have "step_started timeout ts \<longrightarrow> (\<forall>v. ts_reply ts \<noteq> OutDone v)"
    using Inl by (auto simp: run_step_def)
  ultimately show ?thesis by (cases "ts_reply ts") auto
next
  case (Inr v)
  then have "be_action_completed e = Completed" using assms by simp
  then show ?thesis using Inr by (simp add: run_step_Inr)
qed

lemma goto_error:
  assumes "goto quote wait_until timeout w = (True, Some (Inl e))"
  shows "be_action_completed e = (case ts_reply (gw_navigate w) of OutDone _ \<Rightarrow> Completed | _ \<Rightarrow> Unknown)"
proof -
  obtain target where target: "run_step timeout NotStarted StageUrlResolution id (gw_resolve w) = Inr target"
    using assms by (auto simp: goto_def split: sum.splits)
  obtain main where main: "run_step timeout NotStarted StageSubscription id (gw_subscribe w) = Inr main"
    using assms target by (auto simp: goto_def split: sum.splits)
  have sent: "step_started timeout (gw_navigate w)"
    using assms target main by (auto simp: goto_def split: sum.splits)
  define rest where "rest = (\<lambda>response :: navigate_response. case validate_navigation_response (rp_error_text response)
        (or_default False (rp_is_download response)) Completed of
      Inl e \<Rightarrow> Some (Inl e)
    | Inr _ \<Rightarrow> complete quote main
        \<lparr>cp_requested_url = Some target,
         cp_expectation = (case rp_loader_id response of
             None \<Rightarrow> ExpectSameDocumentUrl target | Some l \<Rightarrow> ExpectLoader l),
         cp_cause = CauseGoto, cp_timeout = timeout, cp_completion = Completed\<rparr> (gw_after w))"
  have "(case run_step timeout Unknown StageDispatch (dispatch_error ''navigate page'') (gw_navigate w) of
      Inl e \<Rightarrow> Some (Inl e) | Inr v \<Rightarrow> rest v) = Some (Inl e)"
    using assms target main unfolding rest_def by (auto simp: goto_def split: sum.splits)
  moreover have "be_action_completed e = Completed" if "rest v = Some (Inl e)" for v
    using that by (auto simp: rest_def split: sum.splits dest!: validate_Inl complete_Inl)
  ultimately show ?thesis using after_dispatch[where rest = rest and e = e] sent by simp
qed

lemma reload_error:
  assumes "reload quote w = (True, Some (Inl e))"
  shows "be_action_completed e = (case ts_reply (rw_reload w) of OutDone _ \<Rightarrow> Completed | _ \<Rightarrow> Unknown)"
proof -
  let ?t = "wo_timeout default_wait_options"
  obtain main where main: "run_step ?t NotStarted StageSubscription id (rw_subscribe w) = Inr main"
    using assms by (auto simp: reload_def Let_def split: sum.splits)
  have sent: "step_started ?t (rw_reload w)"
    using assms main by (auto simp: reload_def Let_def split: sum.splits)
  define rest where "rest = (\<lambda>u :: unit. complete quote main
     \<lparr>cp_requested_url = None, cp_expectation = ExpectCrossDocument (md_loader_id main),
      cp_cause = CauseReload, cp_timeout = ?t, cp_completion = Completed\<rparr> (rw_after w))"
  have "(case run_step ?t Unknown StageDispatch (dispatch_error ''reload page'') (rw_reload w) of
      Inl e \<Rightarrow> Some (Inl e) | Inr v \<Rightarrow> rest v) = Some (Inl e)"
    using assms main unfolding rest_def by (auto simp: reload_def Let_def split: sum.splits)
  moreover have "be_action_completed e = Completed" if "rest v = Some (Inl e)" for v
    using complete_Inl[OF that[unfolded rest_def]] by simp
  ultimately show ?thesis using after_dispatch[where rest = rest and e = e] sent by simp
qed

lemma history_error:
  assumes "history quote delta w = (True, Some (Inl e))"
  shows "be_action_completed e = (case ts_reply (hw_navigate w) of OutDone _ \<Rightarrow> Completed | _ \<Rightarrow> Unknown)"
proof -
  let ?t = "wo_timeout default_wait_options"
  obtain current entries where entry: "run_step ?t NotStarted StageHistoryObservation
      (cdp_operation id ''read navigation history'' Observation) (hw_history w) = Inr (current, entries)"
    using assms by (auto simp: history_def Let_def split: sum.splits)
  have range: "\<not> (current + delta < 0 \<or> int (length entries) \<le> current + delta)"
    using assms entry by (auto simp: history_def Let_def split: sum.splits if_splits)
  obtain main where main: "run_step ?t NotStarted StageSubscription id (hw_subscribe w) = Inr main"
    using assms entry range by (auto simp: history_def Let_def split: sum.splits)
  have sent: "step_started ?t (hw_navigate w)"
    using assms entry range main by (auto simp: history_def Let_def split: sum.splits)
  define requested where "requested = snd (entries ! nat (current + delta))"
  define rest where "rest = (\<lambda>u :: unit. map_option (map_sum id Some) (complete quote main
     \<lparr>cp_requested_url = Some requested, cp_expectation = ExpectUrl requested,
      cp_cause = CauseHistory, cp_timeout = ?t, cp_completion = Completed\<rparr> (hw_after w)))"
  have "(case run_step ?t Unknown StageDispatch (dispatch_error ''navigate history'') (hw_navigate w) of
      Inl e \<Rightarrow> Some (Inl e) | Inr v \<Rightarrow> rest v) = Some (Inl e)"
    using assms entry range main unfolding rest_def requested_def
    by (auto simp: history_def Let_def split: sum.splits)
  moreover have "be_action_completed e = Completed" if v: "rest v = Some (Inl e)" for v
  proof -
    obtain x where x: "complete quote main
     \<lparr>cp_requested_url = Some requested, cp_expectation = ExpectUrl requested,
      cp_cause = CauseHistory, cp_timeout = ?t, cp_completion = Completed\<rparr> (hw_after w) = Some x"
      "map_sum id Some x = Inl e" using v by (auto simp: rest_def)
    from x(2) have "x = Inl e" by (cases x) auto
    with x(1) show ?thesis using complete_Inl by fastforce
  qed
  ultimately show ?thesis using after_dispatch[where rest = rest and e = e] sent by simp
qed

text \<open>
  C25: once the command of \<open>goto\<close>, \<open>reload\<close> or \<open>history\<close> was sent, no error of that call claims that the
  action was not started: it says completed when the browser answered the command, and unknown otherwise.
  The navigation of a created page is not among them: it can break the rule, as shown below.
\<close>

theorem dispatched_errors_admit_it:
  "(goto quote wait_until timeout gw = (True, Some (Inl e)) \<longrightarrow>
      be_action_completed e = (case ts_reply (gw_navigate gw) of OutDone _ \<Rightarrow> Completed | _ \<Rightarrow> Unknown)) \<and>
   (reload quote rw = (True, Some (Inl e)) \<longrightarrow>
      be_action_completed e = (case ts_reply (rw_reload rw) of OutDone _ \<Rightarrow> Completed | _ \<Rightarrow> Unknown)) \<and>
   (history quote delta hw = (True, Some (Inl e)) \<longrightarrow>
      be_action_completed e = (case ts_reply (hw_navigate hw) of OutDone _ \<Rightarrow> Completed | _ \<Rightarrow> Unknown))"
  using goto_error reload_error history_error by blast

theorem dispatched_errors_admit_it_witness:
  "\<exists>e. goto id LoadComplete 5 plain_world = (True, Some (Inl e)) \<and> be_action_completed e = Completed"
proof -
  obtain e where e: "goto id LoadComplete 5 plain_world = (True, Some (Inl e))"
    by (simp add: goto_def plain_world_def preflight_load_state_def run_step_def step_started_def
        validate_navigation_response_def complete_def accepts_same_def)
  have "be_action_completed e = Completed"
    using conjunct1[OF dispatched_errors_admit_it] e by (auto simp: plain_world_def)
  with e show ?thesis by blast
qed

definition lagging_creation :: create_world where
  "lagging_creation =
     \<lparr>cw_identity = \<lparr>ts_elapsed = 0, ts_reported = 0, ts_reply = OutTimedOut 0\<rparr>,
      cw_subscribe = \<lparr>ts_elapsed = 1, ts_reported = 1,
        ts_reply = OutDone \<lparr>md_frame_id = ''F'', md_loader_id = ''L0''\<rparr>\<rparr>,
      cw_navigate = \<lparr>ts_elapsed = 2, ts_reported = 2,
        ts_reply = OutDone \<lparr>rp_error_text = None, rp_is_download = None, rp_loader_id = Some ''L1''\<rparr>\<rparr>,
      cw_commits =
        [(3, 3, CrossEvent \<lparr>fd_frame_id = ''F'', fd_url = ''http://a/'', fd_url_fragment = None, fd_loader_id = ''L1''\<rparr>)],
      cw_applied = \<lparr>ts_elapsed = 4, ts_reported = 4,
        ts_reply = (case wait_main_document_applied (Some ''F'') (\<lambda>_. Some ''L0'') ''F'' ''L1'' [AppliedLagged 3] of
                      Some (Inl e) \<Rightarrow> OutFailed e | Some (Inr _) \<Rightarrow> OutDone () | None \<Rightarrow> OutTimedOut 4)\<rparr>,
      cw_tree = \<lparr>ts_elapsed = 5, ts_reported = 5, ts_reply = OutTimedOut 5\<rparr>\<rparr>"

text \<open>
  the navigation of a created page can break that rule: when the frame store closes, or its
  acknowledgements lag, after the browser has committed the document, the error says that the
  action was not started although the command was sent and answered.
\<close>

theorem created_page_error_denies_dispatch:
  "\<exists>e. commit_page_creation_navigation id ''http://a/'' lagging_creation = (True, Some (Inl e)) \<and>
     be_action_completed e = NotStarted \<and>
     ts_reply (cw_navigate lagging_creation) =
       OutDone \<lparr>rp_error_text = None, rp_is_download = None, rp_loader_id = Some ''L1''\<rparr>"
  by (simp add: commit_page_creation_navigation_def lagging_creation_def run_step_def step_started_def
      default_wait_options_def Let_def validate_navigation_response_def accepts_cross_def document_url_def
      wait_main_document_applied_def not_confirmed_def with_message_def operation_error_def)

end
