(* ===== verification/Downloads.thy ===== *)
theory Downloads
  imports Waits
begin

text \<open>
  Downloads (\<open>src/src/runtime/download.rs\<close>): the retained status of a download, the manager that
  reduces begin and progress events for an isolated session or for a page of the default one, the
  slot that creates a session's manager once and closes it, and the operations of a download.
\<close>

subsection \<open>The status of a download\<close>

datatype download_terminal =
    DownloadCompleted rat rat "string option"
  | DownloadCanceled rat rat

record download_status =
  ds_terminal :: "download_terminal option"
  ds_closed :: "string option"

definition empty_status :: download_status where
  "empty_status = \<lparr>ds_terminal = None, ds_closed = None\<rparr>"

definition status_finish :: "download_terminal \<Rightarrow> download_status \<Rightarrow> download_terminal option \<times> download_status" where
  "status_finish t s =
     (if ds_closed s \<noteq> None then (None, s)
      else
        let canonical = or_default t (ds_terminal s)
        in (Some canonical, s\<lparr>ds_terminal := Some canonical\<rparr>))"

definition status_close :: "string \<Rightarrow> download_status \<Rightarrow> download_status" where
  "status_close message s =
     (if ds_terminal s = None then s\<lparr>ds_closed := Some (or_default message (ds_closed s))\<rparr> else s)"

text \<open>One pass of \<open>wait\<close>: the terminal, the failure of a closed source, or still waiting.\<close>

definition status_wait :: "download_status \<Rightarrow> (rt_error + download_terminal) option" where
  "status_wait s =
     (case ds_terminal s of
        Some t \<Rightarrow> Some (Inr t)
      | None \<Rightarrow>
          map_option (\<lambda>message. Inl (with_message message (operation_error ''wait for download'' Confirmation)))
            (ds_closed s))"

subsection \<open>The manager\<close>

record download_update =
  du_guid :: ident
  du_frame_id :: ident
  du_url :: string
  du_name :: string

record download_manager =
  dm_statuses :: "(ident \<times> download_status) list"
  dm_subscribers :: "(u64 \<times> nat) list"
  dm_next_subscriber :: u64
  dm_channels :: "(nat \<times> download_update list) list"
  dm_cancelled :: bool
  dm_reducing :: bool

definition new_manager :: download_manager where
  "new_manager =
     \<lparr>dm_statuses = [], dm_subscribers = [], dm_next_subscriber = 1, dm_channels = [],
      dm_cancelled = False, dm_reducing = True\<rparr>"

text \<open>
  A subscriber is the sending end of a channel; the receiving ends are the entries of
  \<open>dm_channels\<close> and hold what was sent and not yet received. A dropped receiver loses its entry.
\<close>

definition manager_subscribe :: "nat \<Rightarrow> download_manager \<Rightarrow> download_manager" where
  "manager_subscribe receiver m =
     m\<lparr>dm_subscribers := AList.update (dm_next_subscriber m) receiver (dm_subscribers m),
       dm_next_subscriber := dm_next_subscriber m + 1,
       dm_channels := AList.update receiver [] (dm_channels m)\<rparr>"

definition manager_publish :: "download_update \<Rightarrow> download_manager \<Rightarrow> download_manager" where
  "manager_publish u m =
     m\<lparr>dm_subscribers := filter (\<lambda>(_, n). map_of (dm_channels m) n \<noteq> None) (dm_subscribers m),
       dm_channels := fold (\<lambda>(_, n). map_modify n (\<lambda>queue. queue @ [u])) (dm_subscribers m) (dm_channels m)\<rparr>"

definition manager_status :: "ident \<Rightarrow> download_manager \<Rightarrow> download_status \<times> download_manager" where
  "manager_status guid m =
     (let s = or_default empty_status (map_of (dm_statuses m) guid)
      in (s, m\<lparr>dm_statuses := AList.update guid s (dm_statuses m)\<rparr>))"

definition finish_guid :: "ident \<Rightarrow> download_terminal \<Rightarrow> download_manager \<Rightarrow> download_manager" where
  "finish_guid guid t m =
     (case manager_status guid m of
        (s, m') \<Rightarrow> m'\<lparr>dm_statuses := AList.update guid (snd (status_finish t s)) (dm_statuses m')\<rparr>)"

definition close_waiters :: "string \<Rightarrow> download_manager \<Rightarrow> download_manager" where
  "close_waiters message m =
     m\<lparr>dm_statuses := map_values (status_close message) (dm_statuses m), dm_subscribers := []\<rparr>"

text \<open>
  What the reducer of a manager sees. Where the isolated manager says the same for a failed and
  for an ended source, the page's manager reports the error itself.
\<close>

record progress_event =
  pe_guid :: ident
  pe_progress :: string
  pe_received :: rat
  pe_total :: rat
  pe_file_path :: "string option"

datatype download_event =
    DownloadBegin download_update
  | DownloadProgress progress_event
  | BeginSourceFailed string
  | BeginSourceEnded
  | ProgressSourceFailed string
  | ProgressSourceEnded

datatype manager_kind = IsolatedManager "string option" | PageManager

text \<open>\<open>Path::join\<close> for a relative component.\<close>

definition path_join :: "string \<Rightarrow> string \<Rightarrow> string" where
  "path_join base part =
     (if base = [] \<or> last base = CHR ''/'' then base @ part else base @ ''/'' @ part)"

fun terminal_path :: "manager_kind \<Rightarrow> progress_event \<Rightarrow> string option" where
  "terminal_path (IsolatedManager dir) pe =
     (case pe_file_path pe of
        Some p \<Rightarrow> Some p
      | None \<Rightarrow> map_option (\<lambda>d. path_join d (pe_guid pe)) dir)"
| "terminal_path PageManager pe = None"

definition progress_terminal :: "manager_kind \<Rightarrow> progress_event \<Rightarrow> download_terminal option" where
  "progress_terminal kind pe =
     (if pe_progress pe = ''completed''
      then Some (DownloadCompleted (pe_received pe) (pe_total pe) (terminal_path kind pe))
      else if pe_progress pe = ''canceled''
      then Some (DownloadCanceled (pe_received pe) (pe_total pe))
      else None)"

definition source_message :: "manager_kind \<Rightarrow> download_event \<Rightarrow> string" where
  "source_message kind ev =
     (case (kind, ev) of
        (IsolatedManager _, BeginSourceFailed _) \<Rightarrow> ''download begin event source closed''
      | (IsolatedManager _, BeginSourceEnded) \<Rightarrow> ''download begin event source closed''
      | (IsolatedManager _, _) \<Rightarrow> ''download progress event source closed''
      | (PageManager, BeginSourceFailed error) \<Rightarrow> error
      | (PageManager, ProgressSourceFailed error) \<Rightarrow> error
      | (PageManager, BeginSourceEnded) \<Rightarrow> ''page download begin event source closed''
      | (PageManager, _) \<Rightarrow> ''page download progress event source closed'')"

definition reduce_download :: "manager_kind \<Rightarrow> download_event \<Rightarrow> download_manager \<Rightarrow> download_manager" where
  "reduce_download kind ev m =
     (case ev of
        DownloadBegin u \<Rightarrow> manager_publish u (snd (manager_status (du_guid u) m))
      | DownloadProgress pe \<Rightarrow>
          (case progress_terminal kind pe of
             None \<Rightarrow> m
           | Some t \<Rightarrow> finish_guid (pe_guid pe) t m)
      | _ \<Rightarrow> (close_waiters (source_message kind ev) m)\<lparr>dm_reducing := False\<rparr>)"

fun manager_close_message :: "manager_kind \<Rightarrow> string" where
  "manager_close_message (IsolatedManager _) = ''browser session closed''"
| "manager_close_message PageManager = ''page closed''"

definition manager_begin_close :: "manager_kind \<Rightarrow> download_manager \<Rightarrow> download_manager" where
  "manager_begin_close kind m =
     close_waiters (manager_close_message kind) (m\<lparr>dm_cancelled := True\<rparr>)"

definition download_close_report :: "manager_kind \<Rightarrow> string \<Rightarrow> close_report" where
  "download_close_report kind session =
     (case kind of
        IsolatedManager _ \<Rightarrow> report_closed ''download-observer'' (new_report (''downloads:'' @ session))
      | PageManager \<Rightarrow> report_closed ''default-download-observer'' (new_report ''default-downloads''))"

text \<open>
  The inputs of a manager. A cancelled reducer stops at its next turn, which may come after one more
  event: an event is reduced whenever the reducer has not stopped yet.
\<close>

datatype manager_input =
    SourceEvent download_event
  | ReducerStops
  | SubscribeAs nat
  | ReceiverDropped nat
  | ReceiverTook nat
  | StatusAsked ident
  | BeginClose

fun manager_step :: "manager_kind \<Rightarrow> manager_input \<Rightarrow> download_manager \<Rightarrow> download_manager" where
  "manager_step kind (SourceEvent ev) m = (if dm_reducing m then reduce_download kind ev m else m)"
| "manager_step kind ReducerStops m = (if dm_cancelled m then m\<lparr>dm_reducing := False\<rparr> else m)"
| "manager_step kind (SubscribeAs n) m = manager_subscribe n m"
| "manager_step kind (ReceiverDropped n) m = m\<lparr>dm_channels := AList.delete n (dm_channels m)\<rparr>"
| "manager_step kind (ReceiverTook n) m = m\<lparr>dm_channels := map_modify n tl (dm_channels m)\<rparr>"
| "manager_step kind (StatusAsked guid) m = snd (manager_status guid m)"
| "manager_step kind BeginClose m = manager_begin_close kind m"

subsection \<open>The slot of a session\<close>

datatype manager_slot =
    SlotEmpty
  | SlotInitializing bool
  | SlotReady nat bool
  | SlotFailed string
  | SlotClosed

datatype slot_answer = SlotManager nat | SlotError rt_error | SlotStarts | SlotWaits

definition slot_error :: "string \<Rightarrow> rt_error" where
  "slot_error message = with_message message (operation_error ''initialize download policy'' Preparation)"

text \<open>One pass of \<open>get\<close>.\<close>

definition slot_get :: "manager_slot \<Rightarrow> slot_answer \<times> manager_slot" where
  "slot_get s =
     (case s of
        SlotReady m closing \<Rightarrow>
          (if closing then SlotError (slot_error ''browser session is closing'') else SlotManager m, s)
      | SlotClosed \<Rightarrow> (SlotError (slot_error ''browser session is closing''), s)
      | SlotFailed message \<Rightarrow> (SlotError (slot_error message), s)
      | SlotInitializing _ \<Rightarrow> (SlotWaits, s)
      | SlotEmpty \<Rightarrow> (SlotStarts, SlotInitializing False))"

text \<open>The end of the initialisation task; the second component is the manager it has to close.\<close>

definition slot_initialized :: "rt_error + nat \<Rightarrow> manager_slot \<Rightarrow> manager_slot \<times> nat option" where
  "slot_initialized result s =
     (let closing = (s = SlotInitializing True)
      in case result of
           Inr m \<Rightarrow> (SlotReady m closing, if closing then Some m else None)
         | Inl e \<Rightarrow> (SlotFailed (be_message e), None))"

definition slot_begin_close :: "manager_slot \<Rightarrow> manager_slot \<times> nat option" where
  "slot_begin_close s =
     (case s of
        SlotEmpty \<Rightarrow> (SlotClosed, None)
      | SlotFailed _ \<Rightarrow> (SlotClosed, None)
      | SlotInitializing _ \<Rightarrow> (SlotInitializing True, None)
      | SlotReady m _ \<Rightarrow> (SlotReady m True, Some m)
      | SlotClosed \<Rightarrow> (SlotClosed, None))"

definition slot_ready :: "manager_slot \<Rightarrow> nat option" where
  "slot_ready s = (case s of SlotReady m _ \<Rightarrow> Some m | _ \<Rightarrow> None)"

subsection \<open>Operations of a download\<close>

datatype path_capability = PathAvailable | PathConditional | PathUnavailable

definition path_capability_of :: "manager_kind \<Rightarrow> path_capability" where
  "path_capability_of kind = (case kind of IsolatedManager _ \<Rightarrow> PathAvailable | PageManager \<Rightarrow> PathUnavailable)"

text \<open>
  Cancelling sends one command, and only for a download of an isolated session. Whether it was sent
  is the first component; \<open>reply\<close> is its reply.
\<close>

definition cancel_download ::
  "manager_kind \<Rightarrow> rt_error + unit \<Rightarrow> string + unit \<Rightarrow> bool \<times> (rt_error + unit)" where
  "cancel_download kind admission reply =
     (case admission of
        Inl e \<Rightarrow> (False, Inl e)
      | Inr _ \<Rightarrow>
          (case kind of
             PageManager \<Rightarrow>
               (False, Inl (with_message ''default-session downloads cannot be canceled without changing user policy''
                             (operation_error ''cancel download'' Preparation)))
           | IsolatedManager _ \<Rightarrow> (True, map_sum (from_cdp_error id) id reply)))"

text \<open>
  Saving waits for the download and copies its file; \<open>copy\<close> is the result of the copy. The first
  component is the path that was copied.
\<close>

definition save_download ::
  "rt_error + unit \<Rightarrow> download_status \<Rightarrow> (string \<Rightarrow> string + unit) \<Rightarrow> string option \<times> (rt_error + unit) option" where
  "save_download admission s copy =
     (case admission of
        Inl e \<Rightarrow> (None, Some (Inl e))
      | Inr _ \<Rightarrow>
          (case status_wait s of
             None \<Rightarrow> (None, None)
           | Some (Inl e) \<Rightarrow> (None, Some (Inl e))
           | Some (Inr (DownloadCompleted _ _ (Some path))) \<Rightarrow>
               (Some path,
                Some (map_sum (\<lambda>message. with_message message
                        (with_action_completion Unknown (operation_error ''save download'' Dispatch))) id (copy path)))
           | Some (Inr _) \<Rightarrow>
               (None, Some (Inl (with_message ''Chrome did not expose a stable download path''
                                  (operation_error ''save download'' Preparation))))))"

subsection \<open>One result per download\<close>

text \<open>A status as a cell that keeps the first result, a terminal or the message of a closed source.\<close>

definition status_result :: "download_status \<Rightarrow> (string + download_terminal) option" where
  "status_result s =
     (case ds_terminal s of Some t \<Rightarrow> Some (Inr t) | None \<Rightarrow> map_option Inl (ds_closed s))"

definition status_put :: "string + download_terminal \<Rightarrow> download_status \<Rightarrow> download_status" where
  "status_put v s = (case v of Inr t \<Rightarrow> snd (status_finish t s) | Inl message \<Rightarrow> status_close message s)"

interpretation status_latch: latch status_result status_put
  by unfold_locales
    (auto simp: status_result_def status_put_def status_finish_def status_close_def Let_def
      split: sum.splits option.splits)

lemma status_wait_result:
  "status_wait s = map_option (map_sum (\<lambda>message.
     with_message message (operation_error ''wait for download'' Confirmation)) id) (status_result s)"
  by (cases "ds_terminal s"; cases "ds_closed s") (simp_all add: status_wait_def status_result_def)

lemma status_result_close [simp]: "status_result (status_close message s) \<noteq> None"
  by (auto simp: status_result_def status_close_def split: option.splits)

definition guid_result :: "ident \<Rightarrow> download_manager \<Rightarrow> (string + download_terminal) option" where
  "guid_result g m = Option.bind (map_of (dm_statuses m) g) status_result"

lemma guid_result_put:
  assumes "guid_result g m = Some r" "dm_statuses m' = AList.update guid s (dm_statuses m)"
    and "s = or_default empty_status (map_of (dm_statuses m) guid) \<or>
         (\<exists>v. s = status_put v (or_default empty_status (map_of (dm_statuses m) guid)))"
  shows "guid_result g m' = Some r"
proof (cases "g = guid")
  case True
  then obtain old where old: "map_of (dm_statuses m) guid = Some old" "status_result old = Some r"
    using assms(1) by (auto simp: guid_result_def bind_eq_Some_conv)
  have "status_result s = Some r" using assms(3) old status_latch.put_kept[OF old(2)] by auto
  then show ?thesis using True assms(2) by (simp add: guid_result_def)
next
  case False
  then show ?thesis using assms(1,2) by (simp add: guid_result_def)
qed

lemma guid_result_finish:
  assumes "guid_result g m = Some r"
  shows "guid_result g (finish_guid guid t m) = Some r"
proof (rule guid_result_put[OF assms])
  let ?old = "or_default empty_status (map_of (dm_statuses m) guid)"
  show "dm_statuses (finish_guid guid t m) = AList.update guid (snd (status_finish t ?old)) (dm_statuses m)"
    by (simp add: finish_guid_def manager_status_def Let_def)
  show "snd (status_finish t ?old) = ?old \<or> (\<exists>v. snd (status_finish t ?old) = status_put v ?old)"
    by (rule disjI2, rule exI[of _ "Inr t"]) (simp add: status_put_def)
qed

lemma guid_result_asked:
  assumes "guid_result g m = Some r"
  shows "guid_result g (snd (manager_status guid m)) = Some r"
proof (rule guid_result_put[OF assms])
  show "dm_statuses (snd (manager_status guid m))
      = AList.update guid (or_default empty_status (map_of (dm_statuses m) guid)) (dm_statuses m)"
    by (simp add: manager_status_def Let_def)
qed simp

lemma guid_result_close: "guid_result g m = Some r \<Longrightarrow> guid_result g (close_waiters message m) = Some r"
  using status_latch.put_kept[of _ r "Inl message"]
  by (auto simp: guid_result_def close_waiters_def bind_eq_Some_conv status_put_def)

lemma guid_result_same:
  "dm_statuses m' = dm_statuses m \<Longrightarrow> guid_result g m' = guid_result g m"
  by (simp add: guid_result_def)

lemma dm_statuses_publish [simp]: "dm_statuses (manager_publish u m) = dm_statuses m"
  by (simp add: manager_publish_def)

lemma guid_result_step:
  assumes "guid_result g m = Some r"
  shows "guid_result g (manager_step kind i m) = Some r"
proof -
  have reduce: "guid_result g (reduce_download kind ev m) = Some r" for ev
  proof (cases ev)
    case (DownloadBegin u)
    have "guid_result g (manager_publish u (snd (manager_status (du_guid u) m)))
        = guid_result g (snd (manager_status (du_guid u) m))" by (rule guid_result_same) simp
    then show ?thesis using DownloadBegin guid_result_asked[OF assms] by (simp add: reduce_download_def)
  next
    case (DownloadProgress pe)
    then show ?thesis using assms guid_result_finish
      by (simp add: reduce_download_def split: option.split)
  qed (use guid_result_close[OF assms] in \<open>simp_all add: reduce_download_def guid_result_def\<close>)
  show ?thesis
  proof (cases i)
    case BeginClose
    have "guid_result g (m\<lparr>dm_cancelled := True\<rparr>) = Some r" using assms by (simp add: guid_result_def)
    then show ?thesis using BeginClose by (simp add: manager_begin_close_def guid_result_close)
  qed (use assms reduce guid_result_asked[OF assms] in
      \<open>simp_all add: guid_result_def manager_subscribe_def\<close>)
qed

lemma guid_result_run: "guid_result g m = Some r \<Longrightarrow> guid_result g (fold (manager_step kind) es m) = Some r"
  by (induction es arbitrary: m) (simp_all add: guid_result_step)

text \<open>Whatever a subscriber can still receive has a status.\<close>

definition queued :: "download_update \<Rightarrow> download_manager \<Rightarrow> bool" where
  "queued u m \<longleftrightarrow> list_ex (\<lambda>(_, queue). u \<in> set queue) (dm_channels m)"

definition queues_tracked :: "download_manager \<Rightarrow> bool" where
  "queues_tracked m \<longleftrightarrow> (\<forall>u. queued u m \<longrightarrow> du_guid u \<in> keys (dm_statuses m))"

lemma statuses_grow:
  "keys (dm_statuses m) \<subseteq> keys (dm_statuses (manager_step kind i m))"
proof -
  have finish: "keys (dm_statuses m) \<subseteq> keys (dm_statuses (finish_guid g t m))" for g t
    by (auto simp: finish_guid_def manager_status_def Let_def)
  have asked: "keys (dm_statuses (snd (manager_status g m))) = insert g (keys (dm_statuses m))" for g
    by (simp add: manager_status_def Let_def)
  have close: "keys (dm_statuses (close_waiters message m')) = keys (dm_statuses m')" for message m'
    by (simp add: close_waiters_def)
  show ?thesis
    using finish
    by (cases i) (auto simp: reduce_download_def asked close manager_begin_close_def manager_subscribe_def
        split: download_event.split option.split)
qed

lemma queued_fold:
  "list_ex (\<lambda>(_, queue). u \<in> set queue) (fold (\<lambda>(_, n). map_modify n (\<lambda>queue. queue @ [v])) subs ch) \<Longrightarrow>
   u = v \<or> list_ex (\<lambda>(_, queue). u \<in> set queue) ch"
proof (induction subs arbitrary: ch)
  case Nil
  then show ?case by simp
next
  case (Cons sub subs)
  obtain k n where sub: "sub = (k, n)" by (cases sub)
  have "u = v \<or> list_ex (\<lambda>(_, queue). u \<in> set queue) (map_modify n (\<lambda>queue. queue @ [v]) ch)"
    using Cons.IH[of "map_modify n (\<lambda>queue. queue @ [v]) ch"] Cons.prems sub by simp
  then show ?case by (auto simp: list_ex_iff map_modify_def split: if_splits)
qed

lemma queued_step: "queued u (manager_step kind i m) \<Longrightarrow>
  queued u m \<or> (\<exists>v. i = SourceEvent (DownloadBegin v) \<and> u = v \<and> dm_reducing m)"
proof (cases i)
  case (SourceEvent ev)
  assume q: "queued u (manager_step kind i m)"
  show ?thesis
  proof (cases "dm_reducing m")
    case True
    show ?thesis
    proof (cases ev)
      case (DownloadBegin v)
      then have "u = v \<or> queued u m"
        using q SourceEvent True queued_fold[of u v "dm_subscribers m" "dm_channels m"]
        by (simp add: queued_def reduce_download_def manager_publish_def manager_status_def Let_def)
      then show ?thesis using SourceEvent DownloadBegin True by blast
    qed (use q SourceEvent True in \<open>simp_all add: queued_def reduce_download_def close_waiters_def
        finish_guid_def manager_status_def Let_def split: option.splits\<close>)
  qed (use q SourceEvent in simp)
next
  case (SubscribeAs n)
  assume "queued u (manager_step kind i m)"
  then obtain k queue where "(k, queue) \<in> set (AList.update n [] (dm_channels m))" "u \<in> set queue"
    using SubscribeAs by (auto simp: queued_def manager_subscribe_def list_ex_iff)
  moreover from this have "(k, queue) \<in> set (dm_channels m)"
    using set_update_within[of n "[]" "dm_channels m"] by auto
  ultimately show ?thesis by (auto simp: queued_def list_ex_iff)
next
  case (ReceiverDropped n)
  assume "queued u (manager_step kind i m)"
  then show ?thesis using ReceiverDropped by (auto simp: queued_def list_ex_iff AList.delete_eq)
next
  case (ReceiverTook n)
  assume "queued u (manager_step kind i m)"
  then obtain k queue where q: "(k, queue) \<in> set (dm_channels m)" "u \<in> set queue \<or> u \<in> set (tl queue)"
    using ReceiverTook by (auto simp: queued_def list_ex_iff map_modify_def split: if_splits)
  have "u \<in> set queue" using q(2) by (cases queue) auto
  then have "queued u m" unfolding queued_def list_ex_iff using q(1) by (intro bexI[of _ "(k, queue)"]) auto
  then show ?thesis ..
qed (simp_all add: queued_def manager_status_def Let_def manager_begin_close_def close_waiters_def
    split: if_splits)

interpretation manager_runs: event_machine "manager_step kind" queues_tracked for kind
proof unfold_locales
  fix m i assume inv: "queues_tracked m"
  show "queues_tracked (manager_step kind i m)"
    unfolding queues_tracked_def
  proof (intro allI impI)
    fix u assume "queued u (manager_step kind i m)"
    from queued_step[OF this] show "du_guid u \<in> keys (dm_statuses (manager_step kind i m))"
    proof (elim disjE exE conjE)
      assume "queued u m"
      then show ?thesis using inv statuses_grow[of m kind i] by (auto simp: queues_tracked_def)
    next
      fix v assume "i = SourceEvent (DownloadBegin v)" "u = v" "dm_reducing m"
      then show ?thesis by (simp add: reduce_download_def manager_status_def Let_def)
    qed
  qed
qed

lemma guid_result_begin_close:
  assumes "g \<in> keys (dm_statuses m)"
  shows "guid_result g (manager_begin_close kind m) \<noteq> None"
proof -
  obtain s where "map_of (dm_statuses m) g = Some s" using assms by (auto simp: keys_iff_map_of simp del: not_None_eq)
  then show ?thesis by (simp add: guid_result_def manager_begin_close_def close_waiters_def)
qed

text \<open>
  C26: A download has at most one result. In a manager that has seen any inputs, a result that a
  download has, the terminal Chrome reported first or the message of the closed source, is its
  result after all further inputs. Once the manager has begun to close, every download that it knew
  or that a subscriber could still receive has a result, so that no wait for it hangs.
\<close>

theorem download_result_settles:
  "(guid_result g (fold (manager_step kind) es new_manager) = Some r \<longrightarrow>
      guid_result g (fold (manager_step kind) (es @ later) new_manager) = Some r) \<and>
   (g \<in> keys (dm_statuses (fold (manager_step kind) es new_manager)) \<or>
    (\<exists>u. queued u (fold (manager_step kind) es new_manager) \<and> du_guid u = g) \<longrightarrow>
      guid_result g (fold (manager_step kind) (es @ BeginClose # later) new_manager) \<noteq> None)"
proof -
  let ?m = "fold (manager_step kind) es new_manager"
  have tracked: "queues_tracked ?m"
    by (rule manager_runs.run_inv) (simp add: queues_tracked_def queued_def new_manager_def)
  have known: "g \<in> keys (dm_statuses ?m)"
    if "g \<in> keys (dm_statuses ?m) \<or> (\<exists>u. queued u ?m \<and> du_guid u = g)"
    using that tracked by (auto simp: queues_tracked_def)
  have closed: "guid_result g (fold (manager_step kind) later (manager_begin_close kind ?m)) \<noteq> None"
    if "g \<in> keys (dm_statuses ?m)"
    using guid_result_begin_close[OF that, of kind] guid_result_run by fastforce
  show ?thesis
    unfolding fold_append comp_def fold_Cons manager_step.simps
    using known closed guid_result_run[of g ?m r kind later] by blast
qed

text \<open>A frame begins a download, it completes, and the page closes: the terminal stays.\<close>

definition sample_update :: download_update where
  "sample_update = \<lparr>du_guid = ''g1'', du_frame_id = ''F'', du_url = ''https://a.test/f'', du_name = ''f''\<rparr>"

definition sample_events :: "manager_input list" where
  "sample_events =
     [SubscribeAs 0, SourceEvent (DownloadBegin sample_update),
      SourceEvent (DownloadProgress \<lparr>pe_guid = ''g1'', pe_progress = ''completed'', pe_received = 3,
        pe_total = 3, pe_file_path = None\<rparr>)]"

theorem download_result_settles_witness:
  "guid_result ''g1'' (fold (manager_step (IsolatedManager (Some ''/tmp/d''))) (sample_events @ [BeginClose]) new_manager)
     = Some (Inr (DownloadCompleted 3 3 (Some ''/tmp/d/g1''))) \<and>
   guid_result ''g1'' (fold (manager_step PageManager) ([SubscribeAs 0, SourceEvent (DownloadBegin sample_update)] @ BeginClose # []) new_manager)
     \<noteq> None"
proof
  have "guid_result ''g1'' (fold (manager_step (IsolatedManager (Some ''/tmp/d''))) sample_events new_manager)
     = Some (Inr (DownloadCompleted 3 3 (Some ''/tmp/d/g1'')))"
    by (simp add: sample_events_def sample_update_def new_manager_def manager_subscribe_def reduce_download_def
        manager_publish_def manager_status_def finish_guid_def progress_terminal_def path_join_def empty_status_def
        status_finish_def guid_result_def status_result_def map_modify_def Let_def)
  then show "guid_result ''g1'' (fold (manager_step (IsolatedManager (Some ''/tmp/d''))) (sample_events @ [BeginClose]) new_manager)
     = Some (Inr (DownloadCompleted 3 3 (Some ''/tmp/d/g1'')))"
    using download_result_settles[of "''g1''" "IsolatedManager (Some ''/tmp/d'')" sample_events _ "[BeginClose]"] by blast
  have "''g1'' \<in> keys (dm_statuses (fold (manager_step PageManager)
      [SubscribeAs 0, SourceEvent (DownloadBegin sample_update)] new_manager))"
    by (simp add: sample_update_def new_manager_def manager_subscribe_def reduce_download_def
        manager_publish_def manager_status_def map_modify_def Let_def)
  then show "guid_result ''g1'' (fold (manager_step PageManager)
      ([SubscribeAs 0, SourceEvent (DownloadBegin sample_update)] @ BeginClose # []) new_manager) \<noteq> None"
    using download_result_settles by blast
qed

subsection \<open>One manager per session\<close>

text \<open>
  A session's slot with what the session did around it: the initialisation tasks that run, the
  number of managers they have built, the managers told to close, and whether the session closed.
\<close>

record slot_world =
  sw_slot :: manager_slot
  sw_tasks :: nat
  sw_built :: nat
  sw_told :: "nat list"
  sw_closing :: bool

definition fresh_slot :: slot_world where
  "fresh_slot = \<lparr>sw_slot = SlotEmpty, sw_tasks = 0, sw_built = 0, sw_told = [], sw_closing = False\<rparr>"

definition told :: "nat option \<Rightarrow> nat list" where
  "told m = (case m of Some n \<Rightarrow> [n] | None \<Rightarrow> [])"

inductive slot_step :: "slot_world \<Rightarrow> slot_world \<Rightarrow> bool" where
  asked: "slot_get (sw_slot w) = (answer, s) \<Longrightarrow>
    slot_step w (w\<lparr>sw_slot := s, sw_tasks := sw_tasks w + (if answer = SlotStarts then 1 else 0)\<rparr>)"
| built: "0 < sw_tasks w \<Longrightarrow> slot_initialized (Inr (sw_built w)) (sw_slot w) = (s, close) \<Longrightarrow>
    slot_step w (w\<lparr>sw_slot := s, sw_tasks := sw_tasks w - 1, sw_built := Suc (sw_built w),
                   sw_told := sw_told w @ told close\<rparr>)"
| failed: "0 < sw_tasks w \<Longrightarrow> slot_initialized (Inl e) (sw_slot w) = (s, close) \<Longrightarrow>
    slot_step w (w\<lparr>sw_slot := s, sw_tasks := sw_tasks w - 1, sw_told := sw_told w @ told close\<rparr>)"
| closed: "slot_begin_close (sw_slot w) = (s, close) \<Longrightarrow>
    slot_step w (w\<lparr>sw_slot := s, sw_told := sw_told w @ told close, sw_closing := True\<rparr>)"

inductive_cases slot_step_cases: "slot_step w w'"

fun slot_ok :: "manager_slot \<Rightarrow> nat \<Rightarrow> nat \<Rightarrow> nat list \<Rightarrow> bool \<Rightarrow> bool" where
  "slot_ok SlotEmpty tasks built ts closing \<longleftrightarrow> tasks = 0 \<and> built = 0 \<and> \<not> closing"
| "slot_ok (SlotInitializing flag) tasks built ts closing \<longleftrightarrow> tasks = 1 \<and> built = 0 \<and> flag = closing"
| "slot_ok (SlotReady m flag) tasks built ts closing \<longleftrightarrow>
     tasks = 0 \<and> built = 1 \<and> m = 0 \<and> flag = closing \<and> (closing \<longrightarrow> 0 \<in> set ts)"
| "slot_ok (SlotFailed message) tasks built ts closing \<longleftrightarrow> tasks = 0 \<and> built = 0"
| "slot_ok SlotClosed tasks built ts closing \<longleftrightarrow> tasks = 0 \<and> built = 0 \<and> closing"

definition slot_inv :: "slot_world \<Rightarrow> bool" where
  "slot_inv w \<longleftrightarrow> slot_ok (sw_slot w) (sw_tasks w) (sw_built w) (sw_told w) (sw_closing w)"

lemma slot_inv_step: "slot_inv w \<Longrightarrow> slot_step w w' \<Longrightarrow> slot_inv w'"
  by (erule slot_step_cases; cases "sw_slot w")
    (auto simp: slot_inv_def slot_get_def slot_initialized_def slot_begin_close_def told_def Let_def
      split: if_splits)

interpretation slot_runs: transition_system "\<lambda>w. w = fresh_slot" slot_step slot_inv
  by unfold_locales (simp_all add: slot_inv_step, simp add: slot_inv_def fresh_slot_def)

text \<open>
  A session has one download manager and never a live one after its close. However requests for
  the manager, the end of its initialisation and the close of the session interleave, at most one
  manager is built; once the session closes no request is answered with a manager; and as soon as no
  initialisation runs any more, every manager that was built has been told to close, also one whose
  initialisation ended after the close.
\<close>

theorem one_manager_and_none_after_close:
  "slot_step\<^sup>*\<^sup>* fresh_slot w \<Longrightarrow>
     sw_built w \<le> 1 \<and>
     (sw_closing w \<longrightarrow> (\<forall>m. fst (slot_get (sw_slot w)) \<noteq> SlotManager m)) \<and>
     (sw_closing w \<and> sw_tasks w = 0 \<longrightarrow> (\<forall>m < sw_built w. m \<in> set (sw_told w)))"
proof -
  assume "slot_step\<^sup>*\<^sup>* fresh_slot w"
  then have "slot_inv w" by (rule slot_runs.reachable_inv[OF refl])
  then show ?thesis by (cases "sw_slot w") (auto simp: slot_inv_def slot_get_def)
qed

text \<open>A request starts the initialisation, the session closes, then the manager is ready.\<close>

definition late_manager :: slot_world where
  "late_manager = \<lparr>sw_slot = SlotReady 0 True, sw_tasks = 0, sw_built = 1, sw_told = [0], sw_closing = True\<rparr>"

theorem one_manager_and_none_after_close_witness:
  "fst (slot_get (sw_slot late_manager)) \<noteq> SlotManager 0 \<and> 0 \<in> set (sw_told late_manager)"
proof -
  let ?w1 = "fresh_slot\<lparr>sw_slot := SlotInitializing False, sw_tasks := 1\<rparr>"
  let ?w2 = "?w1\<lparr>sw_slot := SlotInitializing True, sw_closing := True\<rparr>"
  have "slot_step fresh_slot ?w1"
    using asked[of fresh_slot SlotStarts "SlotInitializing False"] by (simp add: fresh_slot_def slot_get_def)
  moreover have "slot_step ?w1 ?w2"
    using closed[of ?w1 "SlotInitializing True" None] by (simp add: fresh_slot_def slot_begin_close_def told_def)
  moreover have "slot_step ?w2 late_manager"
    using built[of ?w2 "SlotReady 0 True" "Some 0"]
    by (simp add: fresh_slot_def slot_initialized_def told_def late_manager_def)
  ultimately have "slot_step\<^sup>*\<^sup>* fresh_slot late_manager"
    by (meson converse_rtranclp_into_rtranclp rtranclp.rtrancl_refl)
  from one_manager_and_none_after_close[OF this] show ?thesis by (simp add: late_manager_def)
qed

end
