(* ===== verification/Dialogs.thy ===== *)
theory Dialogs
  imports Waits
begin

text \<open>
  JavaScript dialogs (\<open>src/src/runtime/dialog.rs\<close>): the coordinator that numbers the dialogs of a
  page and lets each be answered once, the registry that cancels the actions of a closing page, and
  the handle of a dialog with its answer. What an expectation of a dialog does is in the theory of
  expectations.
\<close>

declare map_of_eq_Some_iff [simp del] and Some_eq_map_of_iff [simp del]

subsection \<open>Dialogs and their coordinator\<close>

datatype dialog_type = AlertDialog | ConfirmDialog | PromptDialog | BeforeUnloadDialog | UnknownDialog string

definition dialog_type_from_protocol :: "string \<Rightarrow> dialog_type" where
  "dialog_type_from_protocol v =
     (if v = ''alert'' then AlertDialog
      else if v = ''confirm'' then ConfirmDialog
      else if v = ''prompt'' then PromptDialog
      else if v = ''beforeunload'' then BeforeUnloadDialog
      else UnknownDialog v)"

record dialog_opened_fact =
  df_epoch :: u64
  df_routed_session :: ident
  df_frame_id :: ident
  df_message :: string
  df_type :: dialog_type
  df_default_prompt :: "string option"

record current_dialog =
  cd_epoch :: u64
  cd_claimed :: bool

record dialog_coordinator =
  dc_next_epoch :: u64
  dc_current :: "(ident \<times> current_dialog) list"

definition new_coordinator :: dialog_coordinator where
  "new_coordinator = \<lparr>dc_next_epoch = 1, dc_current = []\<rparr>"

definition open_epoch :: "ident \<Rightarrow> dialog_coordinator \<Rightarrow> u64 \<times> dialog_coordinator" where
  "open_epoch route c =
     (dc_next_epoch c,
      c\<lparr>dc_next_epoch := dc_next_epoch c + 1,
        dc_current := AList.update route \<lparr>cd_epoch = dc_next_epoch c, cd_claimed = False\<rparr> (dc_current c)\<rparr>)"

text \<open>The fact that \<open>open\<close> broadcasts and returns.\<close>

definition open_dialog :: "dialog_opened_fact \<Rightarrow> dialog_coordinator \<Rightarrow> dialog_opened_fact \<times> dialog_coordinator" where
  "open_dialog f c = (case open_epoch (df_routed_session f) c of (epoch, c') \<Rightarrow> (f\<lparr>df_epoch := epoch\<rparr>, c'))"

definition claim_epoch :: "u64 \<Rightarrow> dialog_coordinator \<Rightarrow> bool \<times> dialog_coordinator" where
  "claim_epoch epoch c =
     (case find (\<lambda>(_, d). cd_epoch d = epoch) (dc_current c) of
        None \<Rightarrow> (False, c)
      | Some (route, d) \<Rightarrow>
          if cd_claimed d then (False, c)
          else (True, c\<lparr>dc_current := AList.update route (d\<lparr>cd_claimed := True\<rparr>) (dc_current c)\<rparr>))"

definition close_current :: "dialog_coordinator \<Rightarrow> dialog_coordinator" where
  "close_current c = c\<lparr>dc_current := []\<rparr>"

definition close_dialog_route :: "ident \<Rightarrow> dialog_coordinator \<Rightarrow> dialog_coordinator" where
  "close_dialog_route route c = c\<lparr>dc_current := AList.delete route (dc_current c)\<rparr>"

subsection \<open>The registry of side-effect actions\<close>

text \<open>A cancellation token is named by the id it is registered with; the cancelled ones are listed.\<close>

record action_registry =
  ar_next_id :: u64
  ar_closing :: bool
  ar_active :: "u64 list"
  ar_cancelled :: "u64 list"

definition new_action_registry :: action_registry where
  "new_action_registry = \<lparr>ar_next_id = 1, ar_closing = False, ar_active = [], ar_cancelled = []\<rparr>"

definition register_action :: "action_registry \<Rightarrow> u64 \<times> action_registry" where
  "register_action a =
     (let i = ar_next_id a
      in (i, a\<lparr>ar_next_id := i + 1,
               ar_active := List.insert i (ar_active a),
               ar_cancelled := (if ar_closing a then i # ar_cancelled a else filter (\<lambda>j. j \<noteq> i) (ar_cancelled a))\<rparr>))"

definition cancel_all_actions :: "action_registry \<Rightarrow> action_registry" where
  "cancel_all_actions a = a\<lparr>ar_closing := True, ar_cancelled := ar_active a @ ar_cancelled a\<rparr>"

definition drop_lease :: "u64 \<Rightarrow> action_registry \<Rightarrow> action_registry" where
  "drop_lease i a = a\<lparr>ar_active := removeAll i (ar_active a)\<rparr>"

text \<open>The select of a registered action is biased towards its cancellation.\<close>

definition action_outcome :: "rt_error \<Rightarrow> u64 \<Rightarrow> action_registry \<Rightarrow> rt_error + unit \<Rightarrow> rt_error + unit" where
  "action_outcome cancelled i a ended = (if i \<in> set (ar_cancelled a) then Inl cancelled else ended)"

subsection \<open>The handle of a dialog\<close>

text \<open>
  The one-shot receiver of the action: nothing sent yet, its result, or its task gone without one.
\<close>

datatype receiver = NotSent | Sent "rt_error + unit" | SenderGone

definition no_result :: "string \<Rightarrow> string \<Rightarrow> rt_error" where
  "no_result operation message =
     with_message message (with_action_completion Unknown (operation_error operation Confirmation))"

definition no_dialog_result :: rt_error where
  "no_dialog_result = no_result ''complete dialog action'' ''dialog action task ended without a result''"

record dialog_handle =
  dh_epoch :: u64
  dh_handled :: bool
  dh_awaits :: bool

text \<open>The second component is whether the handle still holds the receiver.\<close>

definition completed_action_result :: "receiver \<Rightarrow> bool \<Rightarrow> (rt_error + unit option) \<times> bool" where
  "completed_action_result r awaits =
     (if \<not> awaits then (Inr (Some ()), False)
      else case r of
        Sent (Inr u) \<Rightarrow> (Inr (Some u), False)
      | Sent (Inl e) \<Rightarrow> (Inl e, False)
      | NotSent \<Rightarrow> (Inr None, True)
      | SenderGone \<Rightarrow> (Inl no_dialog_result, False))"

text \<open>Awaiting the receiver ends with what is sent in the end; \<open>NotSent\<close> never ends.\<close>

definition await_action_result :: "receiver \<Rightarrow> bool \<Rightarrow> (rt_error + unit) option" where
  "await_action_result r awaits =
     (if \<not> awaits then Some (Inr ())
      else case r of
        NotSent \<Rightarrow> None
      | Sent result \<Rightarrow> Some result
      | SenderGone \<Rightarrow> Some (Inl no_dialog_result))"

definition stale_dialog :: rt_error where
  "stale_dialog =
     with_message ''dialog handle was already used or is no longer current''
       (operation_error ''handle JavaScript dialog'' Preparation)"

definition answer_failed :: "string \<Rightarrow> rt_error" where
  "answer_failed e =
     with_message ''dialog is already closed, replaced, or its target is unavailable''
       (with_action_completion Unknown (cdp_operation id ''handle JavaScript dialog'' Dispatch e))"

text \<open>
  What one answer meets: the receiver when it starts and in the end, the admission of the page, and
  the reply to its command. The answer returns the command it sent, if any, its result, the handle
  and the coordinator. The result is \<open>None\<close> where it waits for ever.
\<close>

record answer_world =
  aw_receiver :: receiver
  aw_receiver_at_end :: receiver
  aw_admission :: "rt_error + unit"
  aw_reply :: "string + unit"

definition handle_dialog ::
  "bool \<Rightarrow> string option \<Rightarrow> answer_world \<Rightarrow> dialog_handle \<Rightarrow> dialog_coordinator \<Rightarrow>
   (bool \<times> string option) option \<times> (rt_error + unit) option \<times> dialog_handle \<times> dialog_coordinator" where
  "handle_dialog accept prompt w h c =
     (case completed_action_result (aw_receiver w) (dh_awaits h) of
        (Inl e, awaits) \<Rightarrow> (None, Some (Inl e), h\<lparr>dh_awaits := awaits\<rparr>, c)
      | (Inr _, awaits) \<Rightarrow>
          let h1 = h\<lparr>dh_awaits := awaits\<rparr>
          in if dh_handled h then (None, Some (Inl stale_dialog), h1, c)
             else
               let h2 = h1\<lparr>dh_handled := True\<rparr>;
                   h3 = h2\<lparr>dh_awaits := False\<rparr>;
                   ending = await_action_result (aw_receiver_at_end w) awaits
               in case claim_epoch (dh_epoch h) c of
                    (False, c') \<Rightarrow>
                      (None, map_option (\<lambda>r. case r of Inl e \<Rightarrow> Inl e | Inr _ \<Rightarrow> Inl stale_dialog) ending, h3, c')
                  | (True, c') \<Rightarrow>
                      (case aw_admission w of
                         Inl e \<Rightarrow> (None, Some (Inl e), h2, c')
                       | Inr _ \<Rightarrow>
                           (case aw_reply w of
                              Inl e \<Rightarrow> (Some (accept, prompt), Some (Inl (answer_failed e)), h2, c')
                            | Inr _ \<Rightarrow> (Some (accept, prompt), ending, h3, c'))))"

subsection \<open>Each dialog is answered once\<close>

text \<open>
  The inputs of a page's coordinator. The log keeps the epochs whose claim was granted: only a
  granted claim lets an answer send its command.
\<close>

datatype dialog_input = DialogOpens ident | DialogClaim u64 | RouteCloses ident | AllClose

fun dialog_step :: "dialog_input \<Rightarrow> dialog_coordinator \<times> u64 list \<Rightarrow> dialog_coordinator \<times> u64 list" where
  "dialog_step (DialogOpens route) (c, granted) = (snd (open_epoch route c), granted)"
| "dialog_step (DialogClaim epoch) (c, granted) =
     (case claim_epoch epoch c of (ok, c') \<Rightarrow> (c', if ok then epoch # granted else granted))"
| "dialog_step (RouteCloses route) (c, granted) = (close_dialog_route route c, granted)"
| "dialog_step AllClose (c, granted) = (close_current c, granted)"

definition dialog_run :: "dialog_input list \<Rightarrow> dialog_coordinator \<times> u64 list" where
  "dialog_run es = fold dialog_step es (new_coordinator, [])"

text \<open>What the browser shows: how many dialogs opened and which of them each route shows now.\<close>

fun shown_step :: "dialog_input \<Rightarrow> nat \<times> (ident \<rightharpoonup> nat) \<Rightarrow> nat \<times> (ident \<rightharpoonup> nat)" where
  "shown_step (DialogOpens route) (n, shown) = (Suc n, shown(route \<mapsto> Suc n))"
| "shown_step (DialogClaim epoch) (n, shown) = (n, shown)"
| "shown_step (RouteCloses route) (n, shown) = (n, shown(route := None))"
| "shown_step AllClose (n, shown) = (n, Map.empty)"

definition shown_dialogs :: "dialog_input list \<Rightarrow> nat \<times> (ident \<rightharpoonup> nat)" where
  "shown_dialogs es = fold shown_step es (0, Map.empty)"

definition tracks :: "dialog_coordinator \<times> u64 list \<Rightarrow> nat \<times> (ident \<rightharpoonup> nat) \<Rightarrow> bool" where
  "tracks s t \<longleftrightarrow>
     wf_map (dc_current (fst s)) \<and> unat (dc_next_epoch (fst s)) = Suc (fst t) \<and>
     (\<forall>route. map_option (\<lambda>d. unat (cd_epoch d)) (map_of (dc_current (fst s)) route) = snd t route) \<and>
     (\<forall>route d. map_of (dc_current (fst s)) route = Some d \<longrightarrow> (cd_claimed d \<longleftrightarrow> cd_epoch d \<in> set (snd s))) \<and>
     (\<forall>route n. snd t route = Some n \<longrightarrow> n \<le> fst t) \<and>
     (\<forall>route route' n. snd t route = Some n \<and> snd t route' = Some n \<longrightarrow> route = route') \<and>
     (\<forall>e \<in> set (snd s). unat e \<le> fst t) \<and> distinct (snd s)"

lemma tracked_epoch:
  assumes t: "tracks (c, granted) (n, shown)"
  shows "(\<exists>route d. find (\<lambda>(_, d). cd_epoch d = e) (dc_current c) = Some (route, d) \<and>
            map_of (dc_current c) route = Some d \<and> cd_epoch d = e \<and> shown route = Some (unat e)) \<or>
         find (\<lambda>(_, d). cd_epoch d = e) (dc_current c) = None \<and> (\<forall>route. shown route \<noteq> Some (unat e))"
proof (cases "find (\<lambda>(_, d). cd_epoch d = e) (dc_current c)")
  case None
  have "shown route \<noteq> Some (unat e)" for route
  proof
    assume "shown route = Some (unat e)"
    with t obtain d where d: "map_of (dc_current c) route = Some d" "unat (cd_epoch d) = unat e"
      by (auto simp: tracks_def) (metis (no_types, lifting) map_option_eq_Some)
    from d(1) have "(route, d) \<in> set (dc_current c)" by (rule map_of_SomeD)
    with None have "cd_epoch d \<noteq> e" by (auto simp: find_None_iff)
    with d(2) show False by (simp add: word_unat_eq_iff)
  qed
  with None show ?thesis by blast
next
  case (Some p)
  obtain route d where p: "p = (route, d)" by (cases p)
  have "(route, d) \<in> set (dc_current c)" "cd_epoch d = e"
    using Some p by (auto simp: find_Some_iff in_set_conv_nth)
  moreover from this(1) have m: "map_of (dc_current c) route = Some d"
    using t by (simp add: tracks_def)
  moreover have "shown route = Some (unat e)"
    using t m \<open>cd_epoch d = e\<close> by (auto simp: tracks_def dest: spec[of _ route])
  ultimately show ?thesis using Some p by blast
qed

lemma claim_granted_iff:
  assumes t: "tracks (c, granted) (n, shown)"
  shows "fst (claim_epoch e c) \<longleftrightarrow> e \<notin> set granted \<and> (\<exists>route. shown route = Some (unat e))"
  using tracked_epoch[OF t, of e]
proof (elim disjE exE conjE)
  fix route d assume f: "find (\<lambda>(_, d). cd_epoch d = e) (dc_current c) = Some (route, d)"
    "map_of (dc_current c) route = Some d" "cd_epoch d = e" "shown route = Some (unat e)"
  have "cd_claimed d \<longleftrightarrow> e \<in> set granted" using t f(2,3) by (auto simp: tracks_def)
  then show ?thesis using f by (auto simp: claim_epoch_def)
qed (simp add: claim_epoch_def)

lemma tracks_new: "tracks (new_coordinator, []) (0, Map.empty)"
  by (simp add: tracks_def new_coordinator_def)

lemma tracks_open:
  assumes t: "tracks (c, granted) (n, shown)" and bound: "n < 2 ^ 64 - 2"
  shows "tracks (snd (open_epoch route c), granted) (Suc n, shown(route \<mapsto> Suc n))"
proof -
  let ?e = "dc_next_epoch c"
  have e: "unat ?e = Suc n" using t by (simp add: tracks_def)
  have succ: "unat (?e + 1) = Suc (Suc n)" using e bound by (simp add: unat_word_ariths)
  have fresh: "?e \<notin> set granted" using t e by (auto simp: tracks_def)
  show ?thesis
    unfolding tracks_def
  proof (intro conjI)
    show "\<forall>r r' k. snd (Suc n, shown(route \<mapsto> Suc n)) r = Some k \<and> snd (Suc n, shown(route \<mapsto> Suc n)) r' = Some k \<longrightarrow> r = r'"
    proof (intro allI impI, elim conjE)
      fix r r' k
      assume k: "snd (Suc n, shown(route \<mapsto> Suc n)) r = Some k" "snd (Suc n, shown(route \<mapsto> Suc n)) r' = Some k"
      have old: "q = q'" if "shown q = Some k" "shown q' = Some k" for q q' using t that by (simp add: tracks_def)
      have "shown q \<noteq> Some (Suc n)" for q
      proof
        assume "shown q = Some (Suc n)"
        moreover have "\<forall>q k. shown q = Some k \<longrightarrow> k \<le> n" using t by (simp add: tracks_def)
        ultimately show False by force
      qed
      then show "r = r'" using k old[of r r'] by (auto split: if_splits)
    qed
  next
    show "\<forall>r d. map_of (dc_current (fst (snd (open_epoch route c), granted))) r = Some d \<longrightarrow>
        cd_claimed d = (cd_epoch d \<in> set (snd (snd (open_epoch route c), granted)))"
      using t fresh by (simp add: tracks_def open_epoch_def)
  qed (use t e succ in \<open>simp_all add: tracks_def open_epoch_def le_Suc_eq\<close>)
qed

lemma tracks_claim:
  assumes t: "tracks (c, granted) (n, shown)"
  shows "tracks (dialog_step (DialogClaim e) (c, granted)) (n, shown)"
  using tracked_epoch[OF t, of e]
proof (elim disjE exE conjE)
  fix route d assume f: "find (\<lambda>(_, d). cd_epoch d = e) (dc_current c) = Some (route, d)"
    "map_of (dc_current c) route = Some d" "cd_epoch d = e" "shown route = Some (unat e)"
  have cl: "cd_claimed d \<longleftrightarrow> e \<in> set granted" using t f(2,3) by (auto simp: tracks_def)
  show ?thesis
  proof (cases "cd_claimed d")
    case True
    then show ?thesis using t f by (simp add: claim_epoch_def)
  next
    case False
    have unique: "r = route" if "map_of (dc_current c) r = Some d'" "cd_epoch d' = e" for r d'
    proof -
      have "shown r = Some (unat e)" using t that by (auto simp: tracks_def dest: spec[of _ r])
      then show ?thesis using t f(4) by (auto simp: tracks_def)
    qed
    let ?c = "c\<lparr>dc_current := AList.update route (d\<lparr>cd_claimed := True\<rparr>) (dc_current c)\<rparr>"
    have step: "dialog_step (DialogClaim e) (c, granted) = (?c, e # granted)"
      using f False by (simp add: claim_epoch_def)
    show ?thesis
      unfolding step tracks_def fst_conv snd_conv
    proof (intro conjI)
      show "\<forall>r. map_option (\<lambda>d. unat (cd_epoch d)) (map_of (dc_current ?c) r) = shown r"
        using t f(2) by (auto simp: tracks_def dest: spec[of _ route])
      show "\<forall>r d'. map_of (dc_current ?c) r = Some d' \<longrightarrow> cd_claimed d' = (cd_epoch d' \<in> set (e # granted))"
      proof (intro allI impI)
        fix r d' assume m: "map_of (dc_current ?c) r = Some d'"
        show "cd_claimed d' = (cd_epoch d' \<in> set (e # granted))"
        proof (cases "r = route")
          case True
          then have "d' = d\<lparr>cd_claimed := True\<rparr>" using m by simp
          then show ?thesis using f(3) by simp
        next
          case False
          then have m': "map_of (dc_current c) r = Some d'" using m by simp
          then show ?thesis using t unique[OF m'] False by (simp add: tracks_def) blast
        qed
      qed
      show "\<forall>e' \<in> set (e # granted). unat e' \<le> n" using t f(4) by (simp add: tracks_def)
    qed (use t False cl in \<open>simp_all add: tracks_def\<close>)
  qed
next
  assume "find (\<lambda>(_, d). cd_epoch d = e) (dc_current c) = None"
  then show ?thesis using t by (simp add: claim_epoch_def)
qed

lemma tracks_close: "tracks (c, granted) (n, shown) \<Longrightarrow>
  tracks (close_dialog_route route c, granted) (n, shown(route := None))"
  by (auto simp: tracks_def close_dialog_route_def)

lemma tracks_step:
  assumes "tracks s t" "fst t < 2 ^ 64 - 2"
  shows "tracks (dialog_step i s) (shown_step i t)"
proof -
  obtain c granted n shown where st: "s = (c, granted)" "t = (n, shown)" by (cases s, cases t)
  have t: "tracks (c, granted) (n, shown)" and b: "n < 2 ^ 64 - 2" using assms st by simp_all
  show ?thesis
  proof (cases i)
    case (DialogOpens route)
    then show ?thesis using tracks_open[OF t b] st by simp
  next
    case (DialogClaim e)
    then show ?thesis using tracks_claim[OF t, of e] st by simp
  next
    case (RouteCloses route)
    then show ?thesis using tracks_close[OF t] st by simp
  next
    case AllClose
    then show ?thesis using t st by (simp add: tracks_def close_current_def)
  qed
qed

lemma shown_grows: "fst t \<le> fst (shown_step i t)" "fst (shown_step i t) \<le> Suc (fst t)"
  by (cases t; cases i; simp)+

lemma shown_le_length: "fst (fold shown_step es t) \<le> fst t + length es"
proof (induction es arbitrary: t)
  case (Cons e es)
  show ?case using Cons.IH[of "shown_step e t"] shown_grows(2)[where i = e and t = t] by simp
qed simp

lemma tracks_run:
  "tracks s t \<Longrightarrow> fst t + length es < 2 ^ 64 - 1 \<Longrightarrow> tracks (fold dialog_step es s) (fold shown_step es t)"
proof (induction es arbitrary: s t)
  case (Cons e es)
  have "tracks (dialog_step e s) (shown_step e t)" using Cons.prems by (intro tracks_step) simp_all
  then show ?case using Cons.IH[of "dialog_step e s" "shown_step e t"] Cons.prems(2)
      shown_grows(2)[where i = e and t = t] by simp
qed simp

text \<open>
  C27: A dialog can be answered exactly while it is shown, and once. Over any sequence of fewer than
  2^64 - 1 openings, answers and closings, on whatever routes, no epoch is granted to two answers, and
  the next answer for an epoch is granted exactly when the dialog with that number is the one its
  route shows now, neither replaced nor closed, and nobody was granted it before.
\<close>

theorem dialog_answered_once:
  "length es < 2 ^ 64 - 1 \<Longrightarrow>
     distinct (snd (dialog_run es)) \<and>
     (fst (claim_epoch e (fst (dialog_run es))) \<longleftrightarrow>
        e \<notin> set (snd (dialog_run es)) \<and> (\<exists>route. snd (shown_dialogs es) route = Some (unat e)))"
proof -
  assume b: "length es < 2 ^ 64 - 1"
  have t: "tracks (dialog_run es) (shown_dialogs es)"
    unfolding dialog_run_def shown_dialogs_def by (rule tracks_run[OF tracks_new]) (use b in simp)
  obtain c granted n shown where st: "dialog_run es = (c, granted)" "shown_dialogs es = (n, shown)"
    by (cases "dialog_run es", cases "shown_dialogs es")
  show ?thesis using t claim_granted_iff[of c granted n shown e] by (simp add: st tracks_def)
qed

text \<open>The dialog of a route is replaced: only the second one can be answered, and only once.\<close>

theorem dialog_answered_once_witness:
  "\<not> fst (claim_epoch 1 (fst (dialog_run [DialogOpens ''R'', DialogOpens ''R'']))) \<and>
   fst (claim_epoch 2 (fst (dialog_run [DialogOpens ''R'', DialogOpens ''R'']))) \<and>
   \<not> fst (claim_epoch 2 (fst (dialog_run [DialogOpens ''R'', DialogOpens ''R'', DialogClaim 2])))"
  using dialog_answered_once[of "[DialogOpens ''R'', DialogOpens ''R'']" 1]
    dialog_answered_once[of "[DialogOpens ''R'', DialogOpens ''R'']" 2]
    dialog_answered_once[of "[DialogOpens ''R'', DialogOpens ''R'', DialogClaim 2]" 2]
  by (simp add: shown_dialogs_def dialog_run_def new_coordinator_def open_epoch_def claim_epoch_def)

subsection \<open>No action outlives the closing of its page\<close>

datatype registry_input = Registers | LeaseDrops u64 | PageCloses

fun action_step :: "registry_input \<Rightarrow> action_registry \<Rightarrow> action_registry" where
  "action_step Registers a = snd (register_action a)"
| "action_step (LeaseDrops i) a = drop_lease i a"
| "action_step PageCloses a = cancel_all_actions a"

definition closing_cancels :: "action_registry \<Rightarrow> bool" where
  "closing_cancels a \<longleftrightarrow> (ar_closing a \<longrightarrow> set (ar_active a) \<subseteq> set (ar_cancelled a))"

lemma closing_cancels_step: "closing_cancels a \<Longrightarrow> closing_cancels (action_step i a)"
  by (cases i) (auto simp: closing_cancels_def register_action_def drop_lease_def cancel_all_actions_def Let_def)

interpretation registry_runs: event_machine action_step closing_cancels
  by unfold_locales (rule closing_cancels_step)

lemma ar_closing_step [simp]: "ar_closing (action_step i a) \<longleftrightarrow> ar_closing a \<or> i = PageCloses"
  by (cases i) (auto simp: register_action_def drop_lease_def cancel_all_actions_def Let_def)

lemma ar_closing_run: "ar_closing (fold action_step is a) \<longleftrightarrow> ar_closing a \<or> PageCloses \<in> set is"
  by (induction "is" arbitrary: a) auto

text \<open>
  A closing page cancels every side-effect action. After any sequence of registrations, ends of
  actions and closings that contains the closing of the page, every action that is still registered
  has been cancelled, whether it was registered before the closing or after it; its outcome is then
  the cancellation, whatever the action itself would return.
\<close>

theorem closing_page_cancels_actions:
  "PageCloses \<in> set is \<and> i \<in> set (ar_active (fold action_step is new_action_registry)) \<longrightarrow>
     action_outcome cancelled i (fold action_step is new_action_registry) ended = Inl cancelled"
proof -
  have "closing_cancels (fold action_step is new_action_registry)"
    by (rule registry_runs.run_inv) (simp add: closing_cancels_def new_action_registry_def)
  then show ?thesis
    using ar_closing_run[of "is" new_action_registry] by (auto simp: closing_cancels_def action_outcome_def)
qed

theorem closing_page_cancels_actions_witness:
  "action_outcome stale_dialog 2 (fold action_step [Registers, PageCloses, Registers] new_action_registry) (Inr ())
     = Inl stale_dialog"
  using closing_page_cancels_actions[of "[Registers, PageCloses, Registers]" 2 stale_dialog "Inr ()"]
  by (simp add: register_action_def cancel_all_actions_def new_action_registry_def Let_def)

end
