(* ===== verification/Choosers.thy ===== *)
theory Choosers
  imports Waits
begin

text \<open>
  File choosers: the interception state (\<open>src/src/runtime/file_chooser.rs\<close>), the operations of the
  frame store that switch the interception of the routed sessions on and off
  (\<open>src/src/runtime/frame.rs\<close>), and \<open>set_files\<close>. A command is one send to a session; whether it
  succeeds is an input, a function of its session.
\<close>

declare map_of_eq_Some_iff [simp del] and Some_eq_map_of_iff [simp del]

subsection \<open>The interception state\<close>

text \<open>\<open>enabled_sessions\<close> maps the id of a session to the session, which the model names by its id.\<close>

record interception =
  ic_next_generation :: u64
  ic_active :: "u64 option"
  ic_enabled :: "ident list"

definition no_interception :: interception where
  "no_interception = \<lparr>ic_next_generation = 0, ic_active = None, ic_enabled = []\<rparr>"

definition interception_begin :: "interception \<Rightarrow> u64 option \<times> interception" where
  "interception_begin s =
     (if ic_active s \<noteq> None then (None, s)
      else
        let g = u64_saturating_succ (ic_next_generation s)
        in (Some g, s\<lparr>ic_next_generation := g, ic_active := Some g\<rparr>))"

definition interception_finish :: "u64 \<Rightarrow> interception \<Rightarrow> bool \<times> interception" where
  "interception_finish g s =
     (if ic_active s = Some g then (True, s\<lparr>ic_active := None, ic_enabled := []\<rparr>) else (False, s))"

definition track_enabled :: "ident \<Rightarrow> interception \<Rightarrow> interception" where
  "track_enabled x s = s\<lparr>ic_enabled := List.insert x (ic_enabled s)\<rparr>"

definition remove_enabled :: "ident \<Rightarrow> interception \<Rightarrow> interception" where
  "remove_enabled x s = s\<lparr>ic_enabled := removeAll x (ic_enabled s)\<rparr>"

definition close_locally :: "interception \<Rightarrow> interception" where
  "close_locally s = s\<lparr>ic_active := None, ic_enabled := []\<rparr>"

subsection \<open>Switching the interception of a page\<close>

text \<open>
  The state with what the browser has acknowledged: the sessions whose last acknowledged command
  switched the interception on.
\<close>

record chooser_world =
  cw_state :: interception
  cw_intercepting :: "ident set"

text \<open>One \<open>SetInterceptFileChooserDialog\<close>: the reply is an error or the acknowledgement.\<close>

definition set_intercept :: "bool \<Rightarrow> (ident \<Rightarrow> string + unit) \<Rightarrow> ident \<Rightarrow> chooser_world \<Rightarrow> (string + unit) \<times> chooser_world" where
  "set_intercept on reply x w =
     (reply x,
      case reply x of
        Inl _ \<Rightarrow> w
      | Inr _ \<Rightarrow> w\<lparr>cw_intercepting := (if on then insert x (cw_intercepting w) else cw_intercepting w - {x})\<rparr>)"

abbreviation with_state :: "(interception \<Rightarrow> interception) \<Rightarrow> chooser_world \<Rightarrow> chooser_world" where
  "with_state f w \<equiv> w\<lparr>cw_state := f (cw_state w)\<rparr>"

text \<open>The body of both loops that switch it off: a session stays tracked when its command fails.\<close>

definition disable_one :: "(ident \<Rightarrow> string + unit) \<Rightarrow> ident \<Rightarrow> string option \<times> chooser_world \<Rightarrow> string option \<times> chooser_world" where
  "disable_one reply x acc =
     (case acc of (first, w) \<Rightarrow>
       (case set_intercept False reply x w of
          (Inl e, w') \<Rightarrow> (Some (or_default e first), w')
        | (Inr _, w') \<Rightarrow> (first, with_state (remove_enabled x) w')))"

definition enable_failed :: "string \<Rightarrow> rt_error" where
  "enable_failed e = cdp_operation id ''enable file chooser interception'' Preparation e"

fun enable_all ::
  "(ident \<Rightarrow> string + unit) \<Rightarrow> (ident \<Rightarrow> string + unit) \<Rightarrow> u64 \<Rightarrow> ident list \<Rightarrow> ident list \<Rightarrow>
   chooser_world \<Rightarrow> (rt_error + u64) \<times> chooser_world" where
  "enable_all on off g [] enabled w = (Inr g, w)"
| "enable_all on off g (x # sessions) enabled w =
     (case set_intercept True on x w of
        (Inl e, w1) \<Rightarrow>
          (case fold (disable_one off) enabled (None, w1) of
             (failed, w2) \<Rightarrow>
               (Inl (enable_failed e),
                if failed = None then with_state (\<lambda>s. snd (interception_finish g s)) w2 else w2))
      | (Inr _, w1) \<Rightarrow>
          enable_all on off g sessions (enabled @ [x]) (with_state (track_enabled x) w1))"

definition begin_file_chooser_interception ::
  "ident list \<Rightarrow> (ident \<Rightarrow> string + unit) \<Rightarrow> (ident \<Rightarrow> string + unit) \<Rightarrow> chooser_world \<Rightarrow>
   (rt_error + u64) \<times> chooser_world" where
  "begin_file_chooser_interception sessions on off w =
     (case interception_begin (cw_state w) of
        (None, _) \<Rightarrow>
          (Inl (with_message ''another file chooser expectation is active''
                 (operation_error ''expect file chooser'' Preparation)), w)
      | (Some g, s) \<Rightarrow> enable_all on off g sessions [] (w\<lparr>cw_state := s\<rparr>))"

definition end_file_chooser_interception ::
  "u64 \<Rightarrow> (ident \<Rightarrow> string + unit) \<Rightarrow> chooser_world \<Rightarrow> (rt_error + unit) \<times> chooser_world" where
  "end_file_chooser_interception g off w =
     (if ic_active (cw_state w) \<noteq> Some g then (Inr (), w)
      else case fold (disable_one off) (ic_enabled (cw_state w)) (None, w) of
        (Some e, w') \<Rightarrow>
          (Inl (with_action_completion Completed
                 (cdp_operation id ''disable file chooser interception'' Cleanup e)), w')
      | (None, w') \<Rightarrow> (Inr (), with_state (\<lambda>s. snd (interception_finish g s)) w'))"

definition close_file_chooser_interception ::
  "(ident \<Rightarrow> string + unit) \<Rightarrow> chooser_world \<Rightarrow> (rt_error + unit) \<times> chooser_world" where
  "close_file_chooser_interception off w =
     (case ic_active (cw_state w) of
        Some g \<Rightarrow> end_file_chooser_interception g off w
      | None \<Rightarrow> (Inr (), w))"

text \<open>
  A new routed session joins an active interception in two parts: the lock is released between them.
  The first returns whether the second follows.
\<close>

definition join_first :: "(ident \<Rightarrow> string + unit) \<Rightarrow> ident \<Rightarrow> chooser_world \<Rightarrow> (rt_error + bool) \<times> chooser_world" where
  "join_first on x w =
     (if ic_active (cw_state w) = None then (Inr False, w)
      else case set_intercept True on x w of
        (Inl e, w') \<Rightarrow>
          (Inl (cdp_operation id ''enable file chooser interception for OOPIF'' Preparation e), w')
      | (Inr _, w') \<Rightarrow> (Inr True, w'))"

definition join_second :: "(ident \<Rightarrow> string + unit) \<Rightarrow> ident \<Rightarrow> chooser_world \<Rightarrow> (rt_error + unit) \<times> chooser_world" where
  "join_second off x w =
     (if ic_active (cw_state w) \<noteq> None then (Inr (), with_state (track_enabled x) w)
      else case set_intercept False off x w of
        (Inl e, w') \<Rightarrow>
          (Inl (cdp_operation id ''disable stale file chooser interception for OOPIF'' Cleanup e), w')
      | (Inr _, w') \<Rightarrow> (Inr (), w'))"

subsection \<open>Files\<close>

definition selection_refused :: "bool \<Rightarrow> string list \<Rightarrow> bool" where
  "selection_refused multiple files \<longleftrightarrow> files = [] \<or> (\<not> multiple \<and> 1 < length files)"

datatype chooser_outcome = ChooserCompleted | ChooserAborted | ChooserFailed rt_error

definition chooser_gone :: rt_error where
  "chooser_gone =
     with_message ''file chooser action task ended without a result''
       (with_action_completion Unknown (operation_error ''complete file chooser action'' Confirmation))"

definition chooser_aborted :: rt_error where
  "chooser_aborted =
     with_message ''file chooser action was aborted by its expectation''
       (with_action_completion Unknown (operation_error ''complete file chooser action'' Confirmation))"

definition chooser_result :: "chooser_outcome option \<Rightarrow> rt_error + unit" where
  "chooser_result r =
     (case r of
        None \<Rightarrow> Inl chooser_gone
      | Some ChooserCompleted \<Rightarrow> Inr ()
      | Some (ChooserFailed e) \<Rightarrow> Inl e
      | Some ChooserAborted \<Rightarrow> Inl chooser_aborted)"

text \<open>
  The world of \<open>set_files\<close>: the admission, the reply to the command, and what the receiver of the
  action yields (\<open>None\<close> for a task that is gone). The first component is the selection that was sent;
  the last says whether the handle still holds the receiver.
\<close>

definition set_files ::
  "bool \<Rightarrow> string list \<Rightarrow> rt_error + unit \<Rightarrow> string + unit \<Rightarrow> chooser_outcome option \<Rightarrow> bool \<Rightarrow>
   string list option \<times> (rt_error + unit) \<times> bool" where
  "set_files multiple files admission reply outcome awaits =
     (if selection_refused multiple files
      then (None, Inl (with_message ''invalid file selection''
                        (operation_error ''set file chooser files'' Preparation)), awaits)
      else case admission of
        Inl e \<Rightarrow> (None, Inl e, awaits)
      | Inr _ \<Rightarrow>
          (case reply of
             Inl e \<Rightarrow>
               (Some files, Inl (with_action_completion Unknown
                                  (cdp_operation id ''set file chooser files'' Dispatch e)), awaits)
           | Inr _ \<Rightarrow> (Some files, if awaits then chooser_result outcome else Inr (), False)))"

definition complete_or_cancel_action :: "bool \<Rightarrow> chooser_outcome option \<Rightarrow> bool \<times> (rt_error + action_completion)" where
  "complete_or_cancel_action already outcome =
     (if already then (False, Inr Completed)
      else
        (True,
         case outcome of
           None \<Rightarrow> Inl chooser_gone
         | Some ChooserCompleted \<Rightarrow> Inr Completed
         | Some ChooserAborted \<Rightarrow> Inr Unknown
         | Some (ChooserFailed e) \<Rightarrow> Inl e))"

subsection \<open>Interception never leaks\<close>

text \<open>
  The steps of a page: expectations begin and end (an ending may come late or twice), routed sessions
  join, a session goes away, and the target may be destroyed. The first set holds the sessions between the
  two parts of their join. When the second part fails to switch a session off, nothing repairs it: the
  session goes on intercepting until it is gone, since the initialization of its route fails and detaches
  it. The second set holds these sessions.
\<close>

datatype chooser_input =
    Begins "ident list" "ident \<Rightarrow> string + unit" "ident \<Rightarrow> string + unit"
  | Ends u64 "ident \<Rightarrow> string + unit"
  | PageEnds "ident \<Rightarrow> string + unit"
  | JoinStarts ident "ident \<Rightarrow> string + unit"
  | JoinEnds ident "ident \<Rightarrow> string + unit"
  | SessionGone ident
  | TargetDestroyed

type_synonym chooser_run = "chooser_world \<times> ident set \<times> ident set"

fun chooser_step :: "chooser_input \<Rightarrow> chooser_run \<Rightarrow> chooser_run" where
  "chooser_step (Begins sessions on off) (w, joining, stuck) =
     (snd (begin_file_chooser_interception sessions on off w), joining, stuck)"
| "chooser_step (Ends g off) (w, joining, stuck) = (snd (end_file_chooser_interception g off w), joining, stuck)"
| "chooser_step (PageEnds off) (w, joining, stuck) = (snd (close_file_chooser_interception off w), joining, stuck)"
| "chooser_step (JoinStarts x on) (w, joining, stuck) =
     (case join_first on x w of
        (Inr True, w') \<Rightarrow> (w', insert x joining, stuck)
      | (_, w') \<Rightarrow> (w', joining, stuck))"
| "chooser_step (JoinEnds x off) (w, joining, stuck) =
     (if x \<in> joining
      then case join_second off x w of
        (Inr _, w') \<Rightarrow> (w', joining - {x}, stuck)
      | (Inl _, w') \<Rightarrow> (w', joining - {x}, insert x stuck)
      else (w, joining, stuck))"
| "chooser_step (SessionGone x) (w, joining, stuck) =
     (w\<lparr>cw_intercepting := cw_intercepting w - {x}\<rparr>, joining - {x}, stuck - {x})"
| "chooser_step TargetDestroyed (w, joining, stuck) =
     (w\<lparr>cw_state := close_locally (cw_state w), cw_intercepting := {}\<rparr>, joining, {})"

definition no_choosers :: chooser_run where
  "no_choosers = (\<lparr>cw_state = no_interception, cw_intercepting = {}\<rparr>, {}, {})"

text \<open>Every intercepting session is tracked by the active interception, still joining, or stuck.\<close>

definition accounted :: "chooser_run \<Rightarrow> bool" where
  "accounted s \<longleftrightarrow>
     cw_intercepting (fst s) \<subseteq> set (ic_enabled (cw_state (fst s))) \<union> fst (snd s) \<union> snd (snd s) \<and>
     (ic_active (cw_state (fst s)) = None \<longrightarrow> ic_enabled (cw_state (fst s)) = [])"

lemma disable_one_simps:
  "disable_one off x (first, w) =
     (case off x of
        Inl e \<Rightarrow> (Some (or_default e first), w)
      | Inr _ \<Rightarrow> (first, w\<lparr>cw_state := remove_enabled x (cw_state w),
                          cw_intercepting := cw_intercepting w - {x}\<rparr>))"
  by (simp add: disable_one_def set_intercept_def split: sum.split)

text \<open>Both loops keep the generation and a failure, and clear exactly the sessions that answer.\<close>

lemma disable_keeps:
  assumes "fold (disable_one off) xs (first, w) = (failed, w')"
  shows "ic_active (cw_state w') = ic_active (cw_state w) \<and>
    ic_next_generation (cw_state w') = ic_next_generation (cw_state w) \<and>
    set (ic_enabled (cw_state w')) = set (ic_enabled (cw_state w)) - {x \<in> set xs. \<exists>u. off x = Inr u} \<and>
    cw_intercepting w' = cw_intercepting w - {x \<in> set xs. \<exists>u. off x = Inr u} \<and>
    (failed = None \<longleftrightarrow> first = None \<and> (\<forall>x \<in> set xs. \<exists>u. off x = Inr u))"
  using assms
proof (induction xs arbitrary: first w)
  case Nil
  then show ?case by simp
next
  case (Cons x xs)
  show ?case
  proof (cases "off x")
    case (Inl e)
    then have "fold (disable_one off) xs (Some (or_default e first), w) = (failed, w')"
      using Cons.prems by (simp add: disable_one_simps)
    from Cons.IH[OF this] show ?thesis using Inl by auto
  next
    case (Inr u)
    then have "fold (disable_one off) xs (first, w\<lparr>cw_state := remove_enabled x (cw_state w),
        cw_intercepting := cw_intercepting w - {x}\<rparr>) = (failed, w')"
      using Cons.prems by (simp add: disable_one_simps)
    from Cons.IH[OF this] show ?thesis using Inr by (auto simp: remove_enabled_def)
  qed
qed

lemma accounted_enable_all:
  assumes "accounted (w, joining, stuck)" "ic_active (cw_state w) = Some g" "set enabled \<subseteq> set (ic_enabled (cw_state w))"
    and "set (ic_enabled (cw_state w)) \<subseteq> set enabled"
  shows "accounted (snd (enable_all on off g sessions enabled w), joining, stuck)"
  using assms
proof (induction sessions arbitrary: enabled w)
  case Nil
  then show ?case by simp
next
  case (Cons x sessions)
  show ?case
  proof (cases "on x")
    case (Inl e)
    obtain failed w2 where run: "fold (disable_one off) enabled (None, w) = (failed, w2)"
      by (cases "fold (disable_one off) enabled (None, w)")
    note k = disable_keeps[OF run]
    show ?thesis
      using Inl run k Cons.prems
      by (auto simp: set_intercept_def accounted_def interception_finish_def)
  next
    case (Inr u)
    let ?w = "w\<lparr>cw_intercepting := insert x (cw_intercepting w), cw_state := track_enabled x (cw_state w)\<rparr>"
    have "accounted (snd (enable_all on off g sessions (enabled @ [x]) ?w), joining, stuck)"
      using Cons.prems by (intro Cons.IH) (auto simp: accounted_def track_enabled_def)
    then show ?thesis using Inr by (simp add: set_intercept_def)
  qed
qed

lemma accounted_begin:
  assumes "accounted (w, joining, stuck)"
  shows "accounted (snd (begin_file_chooser_interception sessions on off w), joining, stuck)"
proof (cases "ic_active (cw_state w)")
  case None
  let ?g = "u64_saturating_succ (ic_next_generation (cw_state w))"
  let ?w = "w\<lparr>cw_state := (cw_state w)\<lparr>ic_next_generation := ?g, ic_active := Some ?g\<rparr>\<rparr>"
  have "accounted (snd (enable_all on off ?g sessions [] ?w), joining, stuck)"
    using assms None by (intro accounted_enable_all) (auto simp: accounted_def)
  then show ?thesis
    using None by (simp add: begin_file_chooser_interception_def interception_begin_def Let_def)
next
  case (Some g)
  then show ?thesis using assms by (simp add: begin_file_chooser_interception_def interception_begin_def)
qed

lemma accounted_end:
  assumes "accounted (w, joining, stuck)"
  shows "accounted (snd (end_file_chooser_interception g off w), joining, stuck)"
proof -
  obtain failed w' where run: "fold (disable_one off) (ic_enabled (cw_state w)) (None, w) = (failed, w')"
    by (cases "fold (disable_one off) (ic_enabled (cw_state w)) (None, w)")
  note k = disable_keeps[OF run]
  show ?thesis
  proof (cases failed)
    case None
    then show ?thesis using assms run k
      by (auto simp: end_file_chooser_interception_def accounted_def interception_finish_def)
  next
    case (Some e)
    then show ?thesis using assms run k
      by (auto simp: end_file_chooser_interception_def accounted_def)
  qed
qed

lemma accounted_join:
  assumes "accounted (w, joining, stuck)"
  shows "accounted (chooser_step (JoinStarts x on) (w, joining, stuck))"
    "accounted (chooser_step (JoinEnds x off) (w, joining, stuck))"
  using assms
  by (auto simp: accounted_def join_first_def join_second_def set_intercept_def track_enabled_def
      split: sum.split)

lemma accounted_step: "accounted s \<Longrightarrow> accounted (chooser_step i s)"
proof -
  assume a: "accounted s"
  obtain w joining stuck where s: "s = (w, joining, stuck)" by (cases s)
  show ?thesis
  proof (cases i)
    case (Begins sessions on off)
    then show ?thesis using accounted_begin[of w joining stuck] a s by simp
  next
    case (Ends g off)
    then show ?thesis using accounted_end[of w joining stuck] a s by simp
  next
    case (PageEnds off)
    then show ?thesis using accounted_end[of w joining stuck] a s
      by (simp add: close_file_chooser_interception_def split: option.split)
  next
    case (JoinStarts x on)
    then show ?thesis using accounted_join(1)[of w joining stuck] a s by metis
  next
    case (JoinEnds x off)
    then show ?thesis using accounted_join(2)[of w joining stuck] a s by metis
  next
    case (SessionGone x)
    then show ?thesis using a s by (auto simp: accounted_def)
  next
    case TargetDestroyed
    then show ?thesis using s by (simp add: accounted_def close_locally_def)
  qed
qed

interpretation chooser_runs: event_machine chooser_step accounted
  by unfold_locales (rule accounted_step)

interpretation finish_guarded: token_guarded "\<lambda>s _. ic_active s" "\<lambda>(_ :: unit) g s. snd (interception_finish g s)"
  by unfold_locales (auto simp: interception_finish_def)

lemma stuck_step:
  "snd (snd (chooser_step i s)) \<subseteq> snd (snd s) \<union> {x. \<exists>off e. i = JoinEnds x off \<and> off x = Inl e}"
  by (cases s; cases i)
    (auto simp: join_first_def join_second_def set_intercept_def split: sum.splits if_splits bool.splits)

lemma stuck_run:
  "snd (snd (fold chooser_step is s)) \<subseteq> snd (snd s) \<union> {x. \<exists>off e. JoinEnds x off \<in> set is \<and> off x = Inl e}"
proof (induction "is" arbitrary: s)
  case (Cons i "is")
  show ?case
  proof
    fix x
    assume "x \<in> snd (snd (fold chooser_step (i # is) s))"
    with Cons[of "chooser_step i s"]
    have "x \<in> snd (snd (chooser_step i s)) \<or> (\<exists>off e. JoinEnds x off \<in> set is \<and> off x = Inl e)" by auto
    with stuck_step[of i s] have "x \<in> snd (snd s) \<or> (\<exists>off e. JoinEnds x off \<in> set (i # is) \<and> off x = Inl e)" by auto
    then show "x \<in> snd (snd s) \<union> {x. \<exists>off e. JoinEnds x off \<in> set (i # is) \<and> off x = Inl e}" by simp
  qed
qed simp


text \<open>
  Two sessions join while the expectation ends: the second part switches one off again and fails for the
  other, which intercepts until it is gone.
\<close>

definition example_choosers :: "chooser_input list" where
  "example_choosers =
     [Begins [''M''] (\<lambda>_. Inr ()) (\<lambda>_. Inr ()), JoinStarts ''O'' (\<lambda>_. Inr ()), JoinStarts ''P'' (\<lambda>_. Inr ()),
      Ends 1 (\<lambda>_. Inr ()), JoinEnds ''O'' (\<lambda>_. Inr ()), JoinEnds ''P'' (\<lambda>_. Inl ''busy'')]"

lemma example_choosers_run:
  "fold chooser_step example_choosers no_choosers =
     (\<lparr>cw_state = \<lparr>ic_next_generation = 1, ic_active = None, ic_enabled = []\<rparr>, cw_intercepting = {''P''}\<rparr>, {}, {''P''})"
  by (auto simp: example_choosers_def no_choosers_def begin_file_chooser_interception_def interception_begin_def
      no_interception_def set_intercept_def track_enabled_def u64_saturating_succ_def join_first_def join_second_def
      end_file_chooser_interception_def disable_one_def remove_enabled_def interception_finish_def Let_def)


text \<open>
  A session that goes away during an expectation blocks all later ones. The tracked sessions are
  not told when their target is gone, and the command that should switch a dead session off fails; as
  long as it does, every ending of the expectation, and the closing of the page, reports an error,
  keeps the generation active, and the next expectation is refused.
\<close>

theorem gone_session_blocks_choosers:
  "ic_active (cw_state w) = Some g \<and> x \<in> set (ic_enabled (cw_state w)) \<and> off x = Inl e \<longrightarrow>
     (\<exists>error. fst (end_file_chooser_interception g off w) = Inl error \<and>
              fst (close_file_chooser_interception off w) = Inl error) \<and>
     (\<exists>error. fst (begin_file_chooser_interception sessions on off'
                (snd (end_file_chooser_interception g off w))) = Inl error) \<and>
     x \<in> set (ic_enabled (cw_state (snd (end_file_chooser_interception g off w))))"
proof (intro impI, elim conjE)
  assume a: "ic_active (cw_state w) = Some g" and x: "x \<in> set (ic_enabled (cw_state w))" and off: "off x = Inl e"
  obtain failed w' where run: "fold (disable_one off) (ic_enabled (cw_state w)) (None, w) = (failed, w')"
    by (cases "fold (disable_one off) (ic_enabled (cw_state w)) (None, w)")
  note k = disable_keeps[OF run]
  have "failed \<noteq> None" using k x off by force
  then obtain e' where f: "failed = Some e'" by blast
  have still: "ic_active (cw_state w') = Some g" "x \<in> set (ic_enabled (cw_state w'))" using k a x off by auto
  show "(\<exists>error. fst (end_file_chooser_interception g off w) = Inl error \<and>
              fst (close_file_chooser_interception off w) = Inl error) \<and>
     (\<exists>error. fst (begin_file_chooser_interception sessions on off'
                (snd (end_file_chooser_interception g off w))) = Inl error) \<and>
     x \<in> set (ic_enabled (cw_state (snd (end_file_chooser_interception g off w))))"
    using a run f still
    by (simp add: end_file_chooser_interception_def close_file_chooser_interception_def
        begin_file_chooser_interception_def interception_begin_def)
qed

theorem gone_session_blocks_choosers_witness:
  "fst (begin_file_chooser_interception [''M''] (\<lambda>_. Inr ()) (\<lambda>_. Inr ())
     (snd (end_file_chooser_interception 1 (\<lambda>x. if x = ''O'' then Inl ''gone'' else Inr ())
       \<lparr>cw_state = \<lparr>ic_next_generation = 1, ic_active = Some 1, ic_enabled = [''O'', ''M'']\<rparr>,
        cw_intercepting = {''M''}\<rparr>))) \<noteq> Inr 2"
  using gone_session_blocks_choosers[of
      "\<lparr>cw_state = \<lparr>ic_next_generation = 1, ic_active = Some 1, ic_enabled = [''O'', ''M'']\<rparr>,
        cw_intercepting = {''M''}\<rparr>" 1 "''O''" "\<lambda>x. if x = ''O'' then Inl ''gone'' else Inr ()" "''gone''"
      "[''M'']" "\<lambda>_. Inr ()" "\<lambda>_. Inr ()"]
  by auto

end
