(* ===== verification/Expectations.thy ===== *)
theory Expectations
  imports Downloads Dialogs Choosers
begin

text \<open>
  The expectations of a page, which subscribe to a source, run the caller's action and wait for what
  it causes: \<open>expect_dialog\<close> (\<open>src/src/runtime/dialog.rs\<close>), \<open>expect_file_chooser\<close>
  (\<open>src/src/runtime/file_chooser.rs\<close>), \<open>expect_popup\<close> (\<open>src/src/runtime/popup.rs\<close>) and
  \<open>expect_download\<close> (\<open>src/src/runtime/download.rs\<close>), with what each says of the action when it fails.
\<close>

declare map_of_eq_Some_iff [simp del] and Some_eq_map_of_iff [simp del]

subsection \<open>The race of an event and the action\<close>

text \<open>
  What ends first: the event (or the failure of its source), the action, after which the event is
  awaited alone, or the time-out. Elapsed times are those the reports read.
\<close>

datatype 'e late_event = LateEvent "string + 'e" | LateTimeout nat

datatype ('o, 'e) race =
    EventFirst "string + 'e"
  | ActionFirst 'o "'e late_event"
  | RaceTimedOut nat

definition source_closed_error :: "string \<Rightarrow> string \<Rightarrow> action_completion \<Rightarrow> string \<Rightarrow> rt_error" where
  "source_closed_error operation source completion error =
     with_message (source @ '' event source closed: '' @ error)
       (with_action_completion completion (operation_error operation Confirmation))"

definition expectation_timeout :: "string \<Rightarrow> string \<Rightarrow> string \<Rightarrow> action_completion \<Rightarrow> nat \<Rightarrow> rt_error" where
  "expectation_timeout operation condition target completion elapsed =
     with_details (WaitDetail \<lparr>wf_condition = condition, wf_scope = target, wf_elapsed = elapsed,
                               wf_last_observation = None\<rparr>)
       (with_action_completion completion (operation_error operation Confirmation))"

text \<open>
  The race returns whether it timed out, whether the action completed, and the event or the error.
\<close>

definition run_race ::
  "string \<Rightarrow> string \<Rightarrow> string \<Rightarrow> string \<Rightarrow> ('o \<Rightarrow> rt_error + unit) \<Rightarrow> ('o, 'e) race \<Rightarrow>
   bool \<times> bool \<times> (rt_error + 'e)" where
  "run_race operation source condition target conclude r =
     (case r of
        EventFirst (Inl error) \<Rightarrow> (False, False, Inl (source_closed_error operation source Unknown error))
      | EventFirst (Inr event) \<Rightarrow> (False, False, Inr event)
      | RaceTimedOut elapsed \<Rightarrow> (True, False, Inl (expectation_timeout operation condition target Unknown elapsed))
      | ActionFirst outcome late \<Rightarrow>
          (case conclude outcome of
             Inl e \<Rightarrow> (False, False, Inl e)
           | Inr _ \<Rightarrow>
               (case late of
                  LateEvent (Inl error) \<Rightarrow>
                    (False, True, Inl (source_closed_error operation source Completed error))
                | LateEvent (Inr event) \<Rightarrow> (False, True, Inr event)
                | LateTimeout elapsed \<Rightarrow>
                    (True, True, Inl (expectation_timeout operation condition target Completed elapsed)))))"

subsection \<open>Dialogs\<close>

text \<open>The race sees a task that ended without a result with the default message.\<close>

definition dialog_conclude :: "(rt_error + unit) option \<Rightarrow> rt_error + unit" where
  "dialog_conclude outcome =
     (case outcome of
        None \<Rightarrow> Inl (with_action_completion Unknown (operation_error ''complete dialog action'' Confirmation))
      | Some result \<Rightarrow> result)"

definition dialog_action_cancelled :: rt_error where
  "dialog_action_cancelled =
     with_message ''dialog action was cancelled because its page or expectation closed''
       (with_action_completion Unknown (operation_error ''complete dialog action'' Cleanup))"

text \<open>
  A run of an expectation: whether the action was started, whether the expectation cancelled it, and
  the result.
\<close>

record 'a expectation_run =
  er_started :: bool
  er_cancelled :: bool
  er_result :: "rt_error + 'a"

abbreviation not_started :: "rt_error \<Rightarrow> 'a expectation_run" where
  "not_started e \<equiv> \<lparr>er_started = False, er_cancelled = False, er_result = Inl e\<rparr>"

text \<open>The dialog's fact, and the handle that holds the receiver unless the action is known complete.\<close>

definition expect_dialog ::
  "string \<Rightarrow> rt_error + unit \<Rightarrow> rt_error + unit \<Rightarrow> ((rt_error + unit) option, dialog_opened_fact) race \<Rightarrow>
   (dialog_opened_fact \<times> dialog_handle) expectation_run" where
  "expect_dialog target admission store r =
     (case admission of
        Inl e \<Rightarrow> not_started e
      | Inr _ \<Rightarrow>
          (case store of
             Inl e \<Rightarrow> not_started (with_action_completion NotStarted e)
           | Inr _ \<Rightarrow>
               (case run_race ''expect JavaScript dialog'' ''dialog'' ''JavaScript dialog opening'' target dialog_conclude r of
                  (timed_out, completed, result) \<Rightarrow>
                    \<lparr>er_started = True, er_cancelled = timed_out,
                     er_result = map_sum id (\<lambda>f. (f, \<lparr>dh_epoch = df_epoch f, dh_handled = False,
                                                      dh_awaits = \<not> completed\<rparr>)) result\<rparr>)))"

subsection \<open>File choosers\<close>

record chooser_opened_fact =
  cf_routed_session :: ident
  cf_frame_id :: ident
  cf_backend_node_id :: "int option"
  cf_multiple :: bool

record file_chooser =
  fc_routed_session :: ident
  fc_frame_id :: ident
  fc_backend_node_id :: int
  fc_multiple :: bool
  fc_awaits :: bool

definition chooser_conclude :: "chooser_outcome option \<Rightarrow> rt_error + unit" where
  "chooser_conclude outcome =
     (case outcome of
        None \<Rightarrow> Inl (with_action_completion Unknown (operation_error ''complete file chooser action'' Confirmation))
      | Some ChooserCompleted \<Rightarrow> Inr ()
      | Some (ChooserFailed e) \<Rightarrow> Inl e
      | Some ChooserAborted \<Rightarrow> Inl chooser_aborted)"

definition not_a_file_input :: "action_completion \<Rightarrow> rt_error" where
  "not_a_file_input completion =
     with_message ''chooser is not a page file input''
       (with_action_completion completion (operation_error ''expect file chooser'' Confirmation))"

definition disable_failed :: "string \<Rightarrow> rt_error" where
  "disable_failed message =
     with_message message
       (with_action_completion Completed (operation_error ''disable file chooser interception'' Cleanup))"

text \<open>
  The ending of a chooser that the race produced: \<open>drained\<close> is what the aborted action still yields,
  \<open>disabled\<close> the clean-up of the interception.
\<close>

definition finish_chooser ::
  "bool \<Rightarrow> chooser_outcome option \<Rightarrow> string + unit \<Rightarrow> chooser_opened_fact \<Rightarrow> file_chooser expectation_run" where
  "finish_chooser completed drained disabled f =
     (case cf_backend_node_id f of
        None \<Rightarrow>
          (case complete_or_cancel_action completed drained of
             (aborted, Inl e) \<Rightarrow> \<lparr>er_started = True, er_cancelled = aborted, er_result = Inl e\<rparr>
           | (aborted, Inr completion) \<Rightarrow>
               \<lparr>er_started = True, er_cancelled = aborted, er_result = Inl (not_a_file_input completion)\<rparr>)
      | Some node \<Rightarrow>
          (case disabled of
             Inl message \<Rightarrow>
               (case complete_or_cancel_action completed drained of
                  (aborted, Inl e) \<Rightarrow> \<lparr>er_started = True, er_cancelled = aborted, er_result = Inl e\<rparr>
                | (aborted, Inr completion) \<Rightarrow>
                    \<lparr>er_started = True, er_cancelled = aborted,
                     er_result = Inl (with_action_completion completion (disable_failed message))\<rparr>)
           | Inr _ \<Rightarrow>
               \<lparr>er_started = True, er_cancelled = False,
                er_result = Inr \<lparr>fc_routed_session = cf_routed_session f, fc_frame_id = cf_frame_id f,
                                 fc_backend_node_id = node, fc_multiple = cf_multiple f,
                                 fc_awaits = \<not> completed\<rparr>\<rparr>))"

definition expect_file_chooser ::
  "string \<Rightarrow> rt_error + unit \<Rightarrow> rt_error + unit \<Rightarrow> rt_error + u64 \<Rightarrow>
   (chooser_outcome option, chooser_opened_fact) race \<Rightarrow> chooser_outcome option \<Rightarrow> string + unit \<Rightarrow>
   file_chooser expectation_run" where
  "expect_file_chooser target admission store begun r drained disabled =
     (case admission of
        Inl e \<Rightarrow> not_started (with_action_completion NotStarted e)
      | Inr _ \<Rightarrow>
     (case store of
        Inl e \<Rightarrow> not_started (with_action_completion NotStarted e)
      | Inr _ \<Rightarrow>
     (case begun of
        Inl e \<Rightarrow> not_started (with_action_completion NotStarted e)
      | Inr _ \<Rightarrow>
          (case run_race ''expect file chooser'' ''file chooser'' ''file chooser opened'' target chooser_conclude r of
             (timed_out, completed, Inl e) \<Rightarrow> \<lparr>er_started = True, er_cancelled = timed_out, er_result = Inl e\<rparr>
           | (_, completed, Inr f) \<Rightarrow> finish_chooser completed drained disabled f))))"

subsection \<open>Popups\<close>

record target_fact =
  tf_target_id :: ident
  tf_context_id :: "ident option"
  tf_opener_target_id :: "ident option"
  tf_opener_frame_id :: "ident option"
  tf_url :: string
  tf_title :: string

definition popup_belongs_to :: "target_fact \<Rightarrow> ident \<Rightarrow> bool" where
  "popup_belongs_to f opener \<longleftrightarrow> tf_opener_target_id f = Some opener"

definition popup_cancelled :: rt_error where
  "popup_cancelled =
     with_message ''popup expectation was cancelled because its opener page closed''
       (with_action_completion Unknown (operation_error ''expect popup'' Cleanup))"

definition popup_error :: "string \<Rightarrow> rt_error" where
  "popup_error message =
     with_message message (with_action_completion Completed (operation_error ''expect popup'' Confirmation))"

text \<open>
  The events after the action: a created target, another event of the session, the failure or the
  end of the stream, the cancellation or the time-out.
\<close>

datatype popup_event =
    PopupCancelled
  | TargetCreated target_fact
  | OtherSessionEvent
  | PopupStreamFailed string
  | PopupStreamEnded
  | PopupTimedOut nat

fun await_popup :: "ident \<Rightarrow> popup_event list \<Rightarrow> (rt_error + ident) option" where
  "await_popup opener [] = None"
| "await_popup opener (ev # evs) =
     (case ev of
        PopupCancelled \<Rightarrow> Some (Inl popup_cancelled)
      | TargetCreated f \<Rightarrow>
          if popup_belongs_to f opener then Some (Inr (tf_target_id f)) else await_popup opener evs
      | OtherSessionEvent \<Rightarrow> await_popup opener evs
      | PopupStreamFailed error \<Rightarrow> Some (Inl (popup_error error))
      | PopupStreamEnded \<Rightarrow> Some (Inl (popup_error ''popup event source closed''))
      | PopupTimedOut elapsed \<Rightarrow>
          Some (Inl (expectation_timeout ''expect popup'' ''popup opened by page'' opener Completed elapsed)))"

text \<open>
  The task of the expectation: the action or its cancellation (\<open>None\<close>), the events, and the attach
  of the popup or its cancellation. The target it has taken is tracked as pending, whatever follows.
\<close>

record popup_run =
  pr_tracked :: "ident option"
  pr_result :: "(rt_error + ident) option"

definition popup_task ::
  "ident \<Rightarrow> (rt_error + unit) option \<Rightarrow> popup_event list \<Rightarrow> (rt_error + unit) option \<Rightarrow> popup_run" where
  "popup_task opener action evs attached =
     (case action of
        None \<Rightarrow> \<lparr>pr_tracked = None, pr_result = Some (Inl popup_cancelled)\<rparr>
      | Some (Inl e) \<Rightarrow> \<lparr>pr_tracked = None, pr_result = Some (Inl e)\<rparr>
      | Some (Inr _) \<Rightarrow>
          (case await_popup opener evs of
             None \<Rightarrow> \<lparr>pr_tracked = None, pr_result = None\<rparr>
           | Some (Inl e) \<Rightarrow> \<lparr>pr_tracked = None, pr_result = Some (Inl e)\<rparr>
           | Some (Inr target) \<Rightarrow>
               \<lparr>pr_tracked = Some target,
                pr_result = Some (case attached of
                    None \<Rightarrow> Inl popup_cancelled
                  | Some (Inl e) \<Rightarrow> Inl (with_action_completion Completed e)
                  | Some (Inr _) \<Rightarrow> Inr target)\<rparr>))"

text \<open>
  The expectation itself: its task starts only with an admission, the opener's session and its event
  stream. Dropping the opener's registration cancels nothing; a task that is gone leaves no result.
\<close>

definition expect_popup ::
  "ident \<Rightarrow> rt_error + unit \<Rightarrow> rt_error + unit \<Rightarrow> popup_run option \<Rightarrow> (rt_error + ident) option" where
  "expect_popup opener admission subscription task =
     (case admission of
        Inl e \<Rightarrow> Some (Inl e)
      | Inr _ \<Rightarrow>
          (case subscription of
             Inl e \<Rightarrow> Some (Inl e)
           | Inr _ \<Rightarrow>
               (case task of
                  None \<Rightarrow>
                    Some (Inl (with_message ''popup expectation task ended without a result''
                                (with_action_completion Unknown (operation_error ''expect popup'' Confirmation))))
                | Some run \<Rightarrow> pr_result run)))"

subsection \<open>Downloads\<close>

datatype update_source = UpdateArrives download_update | UpdateTimeout nat | UpdateSourceEnds

fun await_update :: "(download_update \<Rightarrow> bool) \<Rightarrow> update_source list \<Rightarrow> (nat + download_update option) option" where
  "await_update wanted [] = None"
| "await_update wanted (UpdateArrives u # rest) =
     (if wanted u then Some (Inr (Some u)) else await_update wanted rest)"
| "await_update wanted (UpdateTimeout elapsed # rest) = Some (Inl elapsed)"
| "await_update wanted (UpdateSourceEnds # rest) = Some (Inr None)"

text \<open>
  The download that is expected: for an isolated session the first from one of the page's frames,
  for the default one the first that its page reports. \<open>manager\<close> is the result of getting the
  manager and, for an isolated session, the frames.
\<close>

definition download_operation :: "manager_kind \<Rightarrow> string" where
  "download_operation kind =
     (case kind of IsolatedManager _ \<Rightarrow> ''expect download'' | PageManager \<Rightarrow> ''expect default-session download'')"

definition download_condition :: "manager_kind \<Rightarrow> string" where
  "download_condition kind =
     (case kind of IsolatedManager _ \<Rightarrow> ''download started by page'' | PageManager \<Rightarrow> ''non-invasive page download event'')"

definition download_source_ended :: "manager_kind \<Rightarrow> string" where
  "download_source_ended kind =
     (case kind of IsolatedManager _ \<Rightarrow> ''download event source closed'' | PageManager \<Rightarrow> ''page download event source closed'')"

definition wanted_update :: "manager_kind \<Rightarrow> ident list \<Rightarrow> download_update \<Rightarrow> bool" where
  "wanted_update kind frames u \<longleftrightarrow>
     (case kind of IsolatedManager _ \<Rightarrow> du_frame_id u \<in> set frames | PageManager \<Rightarrow> True)"

definition expect_download ::
  "manager_kind \<Rightarrow> string \<Rightarrow> rt_error + unit \<Rightarrow> rt_error + ident list \<Rightarrow> rt_error + unit \<Rightarrow>
   update_source list \<Rightarrow> download_update expectation_run option" where
  "expect_download kind target admission manager action updates =
     (case admission of
        Inl e \<Rightarrow> Some (not_started e)
      | Inr _ \<Rightarrow>
     (case manager of
        Inl e \<Rightarrow> Some (not_started (with_action_completion NotStarted e))
      | Inr frames \<Rightarrow>
     (case action of
        Inl e \<Rightarrow> Some \<lparr>er_started = True, er_cancelled = False, er_result = Inl e\<rparr>
      | Inr _ \<Rightarrow>
          map_option (\<lambda>taken. \<lparr>er_started = True, er_cancelled = False,
              er_result = (case taken of
                  Inl elapsed \<Rightarrow>
                    Inl (expectation_timeout (download_operation kind) (download_condition kind) target Completed elapsed)
                | Inr None \<Rightarrow>
                    Inl (with_message (download_source_ended kind)
                          (with_action_completion Completed (operation_error (download_operation kind) Confirmation)))
                | Inr (Some u) \<Rightarrow> Inr u)\<rparr>)
            (await_update (wanted_update kind frames) updates))))"

subsection \<open>What an error says of the action\<close>

lemma expectation_completions [simp]:
  "be_action_completed (source_closed_error operation source c error) = c"
  "be_action_completed (expectation_timeout operation condition target c elapsed) = c"
  by (simp_all add: source_closed_error_def expectation_timeout_def with_message_def with_details_def
      with_action_completion_def)

lemma completion_set [simp]:
  "be_action_completed (with_action_completion c e) = c"
  "be_action_completed (with_message message e) = be_action_completed e"
  by (simp_all add: with_message_def with_action_completion_def)

text \<open>
  A verdict on a race: a completed action is reported only when it ended without an error, no
  error claims that it was not started, unless the conclusion of the action says so itself, and a
  time-out before the action's end is always marked.
\<close>

lemma race_blame:
  assumes "run_race operation source condition target conclude r = (timed_out, completed, result)"
  shows "completed \<longrightarrow> (\<exists>outcome late u. r = ActionFirst outcome late \<and> conclude outcome = Inr u)"
    and "result = Inl e \<Longrightarrow>
      (\<exists>outcome late. r = ActionFirst outcome late \<and> conclude outcome = Inl e) \<or>
      be_action_completed e = (if completed then Completed else Unknown)"
    and "result = Inl e \<Longrightarrow>
      timed_out \<or> completed \<or> (\<exists>outcome late. r = ActionFirst outcome late) \<or> (\<exists>error. r = EventFirst (Inl error))"
  using assms by (auto simp: run_race_def split: race.splits sum.splits late_event.splits)

text \<open>What an action that ended says itself.\<close>

definition own_verdict :: "('o \<Rightarrow> rt_error + unit) \<Rightarrow> ('o, 'e) race \<Rightarrow> rt_error + unit \<Rightarrow> bool" where
  "own_verdict conclude r v \<longleftrightarrow> (\<exists>outcome late. r = ActionFirst outcome late \<and> conclude outcome = v)"

text \<open>
  An expectation never misreports its action. Once the action of a dialog or file chooser
  expectation has been started, an error of the expectation is either the error the action itself
  ended with, or it never claims that the action was not started, and claims that it completed only
  if the action did end without an error. A chooser expectation that fails after its event has
  arrived has aborted an action that was not known to have ended.
\<close>

theorem expectation_reports_action:
  "(er_started (expect_dialog target admission store rd) \<and> er_result (expect_dialog target admission store rd) = Inl e \<longrightarrow>
      own_verdict dialog_conclude rd (Inl e) \<or>
      be_action_completed e \<noteq> NotStarted \<and>
      (be_action_completed e = Completed \<longrightarrow> own_verdict dialog_conclude rd (Inr ()))) \<and>
   (er_started (expect_file_chooser target admission store begun rc drained disabled) \<and>
    er_result (expect_file_chooser target admission store begun rc drained disabled) = Inl e \<longrightarrow>
      own_verdict chooser_conclude rc (Inl e) \<or> drained = Some (ChooserFailed e) \<or>
      be_action_completed e \<noteq> NotStarted \<and>
      (be_action_completed e = Completed \<longrightarrow>
         own_verdict chooser_conclude rc (Inr ()) \<or> drained = Some ChooserCompleted)) \<and>
   (\<forall>f. rc = EventFirst (Inr f) \<longrightarrow>
      er_result (expect_file_chooser target admission store begun rc drained disabled) = Inl e \<longrightarrow>
      er_started (expect_file_chooser target admission store begun rc drained disabled) \<longrightarrow>
      er_cancelled (expect_file_chooser target admission store begun rc drained disabled))"
proof (intro conjI impI allI, goal_cases)
  case 1
  obtain t c result where run: "run_race ''expect JavaScript dialog'' ''dialog'' ''JavaScript dialog opening''
      target dialog_conclude rd = (t, c, result)" by (metis prod_cases3)
  have "result = Inl e"
    using 1 run by (cases admission; cases store; cases result) (simp_all add: expect_dialog_def)
  then show ?case using race_blame(1)[OF run] race_blame(2)[OF run, of e] by (auto simp: own_verdict_def split: if_splits)
next
  case 2
  obtain t c result where run: "run_race ''expect file chooser'' ''file chooser'' ''file chooser opened''
      target chooser_conclude rc = (t, c, result)" by (metis prod_cases3)
  show ?case
  proof (cases result)
    case (Inl e')
    then have "e' = e"
      using 2 run by (cases admission; cases store; cases begun) (simp_all add: expect_file_chooser_def)
    then show ?thesis using race_blame(1)[OF run] race_blame(2)[OF run, of e] Inl by (auto simp: own_verdict_def split: if_splits)
  next
    case (Inr f)
    then have fin: "er_result (finish_chooser c drained disabled f) = Inl e"
      using 2 run by (cases admission; cases store; cases begun) (simp_all add: expect_file_chooser_def)
    have c: "c \<longrightarrow> own_verdict chooser_conclude rc (Inr ())"
      using race_blame(1)[OF run] by (auto simp: own_verdict_def)
    show ?thesis using fin c
      by (cases drained; cases "the drained")
        (auto simp: finish_chooser_def complete_or_cancel_action_def not_a_file_input_def disable_failed_def
          chooser_gone_def split: option.splits sum.splits if_splits)
  qed
next
  case (3 f)
  then show ?case
    by (cases admission; cases store; cases begun)
      (auto simp: expect_file_chooser_def run_race_def finish_chooser_def complete_or_cancel_action_def
        split: option.splits sum.splits chooser_outcome.splits)
qed

text \<open>The chooser belongs to no file input, and the aborted action had just completed.\<close>

theorem expectation_reports_action_witness:
  "be_action_completed (not_a_file_input Completed) \<noteq> NotStarted \<and>
   er_result (expect_file_chooser ''T'' (Inr ()) (Inr ()) (Inr 1)
       (EventFirst (Inr \<lparr>cf_routed_session = ''S'', cf_frame_id = ''F'', cf_backend_node_id = None, cf_multiple = False\<rparr>))
       (Some ChooserCompleted) (Inr ())) = Inl (not_a_file_input Completed)"
proof -
  let ?r = "EventFirst (Inr \<lparr>cf_routed_session = ''S'', cf_frame_id = ''F'', cf_backend_node_id = None, cf_multiple = False\<rparr>)"
  have run: "er_result (expect_file_chooser ''T'' (Inr ()) (Inr ()) (Inr 1) ?r (Some ChooserCompleted) (Inr ()))
      = Inl (not_a_file_input Completed)"
    "er_started (expect_file_chooser ''T'' (Inr ()) (Inr ()) (Inr 1) ?r (Some ChooserCompleted) (Inr ()))"
    by (simp_all add: expect_file_chooser_def run_race_def finish_chooser_def complete_or_cancel_action_def)
  then show ?thesis
    using expectation_reports_action[where target = "''T''" and admission = "Inr ()" and store = "Inr ()"
        and e = "not_a_file_input Completed" and begun = "Inr 1" and rc = ?r
        and drained = "Some ChooserCompleted" and disabled = "Inr ()"]
    by (simp add: own_verdict_def)
qed

end
