(* ===== verification/DaemonProtocol.thy ===== *)
theory DaemonProtocol
  imports Json Rust_Strings
begin

text \<open>
  The protocol of the daemon (\<open>src/src/daemon/protocol.rs\<close>, \<open>src/src/error.rs\<close>): error codes,
  responses, and the reading of one newline-delimited request from a buffered stream, whose chunks
  are decoded one by one with \<open>String::from_utf8_lossy\<close>.
\<close>

declare map_of_eq_Some_iff [simp del] and Some_eq_map_of_iff [simp del]

subsection \<open>Error codes and responses\<close>

datatype error_code =
    NotConnected | RefNotFound | RemoteDebugNotEnabled | ConnectionRefused | BrowserNotRunning
  | BrowserNotInstalled | ChromeDisconnected | SessionNotFound | SessionNoTab | NavigateFailed
  | CodeTimeout | TargetNotFound | TargetAlreadyAttached | JsError | InvalidArgument | DaemonError
  | FileNotFound | FileWriteFailed | DownloadFailed | SelectorNotFound | SessionLimitExceeded
  | TabLimitExceeded

definition suggestion :: "error_code \<Rightarrow> string" where
  "suggestion code =
     (case code of
        NotConnected \<Rightarrow> ''run 'bk connect' first to establish a browser connection''
      | RefNotFound \<Rightarrow> ''call snapshot to refresh refs -- page may have changed since last snapshot''
      | RemoteDebugNotEnabled \<Rightarrow> ''open chrome://inspect/#remote-debugging and enable, then retry bk connect''
      | ConnectionRefused \<Rightarrow> ''check if Chrome showed an authorization dialog and click Allow, then retry''
      | BrowserNotRunning \<Rightarrow> ''manually open Chrome/Edge, then retry bk connect''
      | BrowserNotInstalled \<Rightarrow> ''install Google Chrome from https://www.google.com/chrome''
      | ChromeDisconnected \<Rightarrow> ''Chrome may have closed; run bk connect to reconnect''
      | SessionNotFound \<Rightarrow> ''session may have expired or been closed; create a new one''
      | SessionNoTab \<Rightarrow> ''use bk open to create a tab first''
      | NavigateFailed \<Rightarrow> ''check URL is valid and accessible''
      | CodeTimeout \<Rightarrow> ''increase --timeout or check if page is responsive''
      | TargetNotFound \<Rightarrow> ''tab may have been closed; run bk tabs to see available tabs''
      | TargetAlreadyAttached \<Rightarrow> ''detach the target from its current session first''
      | JsError \<Rightarrow> ''check expression syntax''
      | InvalidArgument \<Rightarrow> ''check command syntax''
      | DaemonError \<Rightarrow> ''restart daemon: bk daemon stop && bk daemon start''
      | FileNotFound \<Rightarrow> ''check file path exists and is absolute''
      | FileWriteFailed \<Rightarrow> ''check the destination path and write permissions''
      | DownloadFailed \<Rightarrow> ''retry the download or choose a different output directory''
      | SelectorNotFound \<Rightarrow> ''selector matched no elements; check page state''
      | SessionLimitExceeded \<Rightarrow> ''close unused sessions with 'bk session close --session <name>'' @ [CHR 0x27]
      | TabLimitExceeded \<Rightarrow> ''close unused tabs with 'bk close --target <tid>'' @ [CHR 0x27])"

definition recoverable :: "error_code \<Rightarrow> bool" where
  "recoverable code \<longleftrightarrow> code \<noteq> BrowserNotInstalled \<and> code \<noteq> DaemonError"

record error_body =
  eb_code :: error_code
  eb_message :: string
  eb_suggestion :: string
  eb_recoverable :: bool

datatype response = ResponseOk json | ResponseError error_body

definition error_detail :: "error_code \<Rightarrow> string \<Rightarrow> string option \<Rightarrow> response" where
  "error_detail code message hint =
     ResponseError \<lparr>eb_code = code, eb_message = message, eb_suggestion = or_default (suggestion code) hint,
                    eb_recoverable = recoverable code\<rparr>"

definition response_err :: "string \<Rightarrow> response" where
  "response_err message = error_detail DaemonError message None"

subsection \<open>Lossy UTF-8\<close>

text \<open>
  \<open>String::from_utf8_lossy\<close> on bytes: a maximal prefix of an invalid sequence becomes one
  replacement character. For a leading byte: the number of continuation bytes and the range of the
  first of them; \<open>None\<close> for a byte that cannot lead.
\<close>

abbreviation code :: "char \<Rightarrow> nat" where
  "code c \<equiv> of_char c"

definition utf8_lead :: "nat \<Rightarrow> (nat \<times> nat \<times> nat) option" where
  "utf8_lead b =
     (if b < 128 then Some (0, 0, 0)
      else if b < 194 then None
      else if b < 224 then Some (1, 128, 191)
      else if b = 224 then Some (2, 160, 191)
      else if b = 237 then Some (2, 128, 159)
      else if b < 240 then Some (2, 128, 191)
      else if b = 240 then Some (3, 144, 191)
      else if b < 244 then Some (3, 128, 191)
      else if b = 244 then Some (3, 128, 143)
      else None)"

text \<open>How many of the next \<open>n\<close> bytes continue the sequence.\<close>

fun continuations :: "nat \<Rightarrow> nat \<Rightarrow> nat \<Rightarrow> string \<Rightarrow> nat" where
  "continuations 0 lo hi bs = 0"
| "continuations (Suc n) lo hi [] = 0"
| "continuations (Suc n) lo hi (c # cs) =
     (if lo \<le> code c \<and> code c \<le> hi then Suc (continuations n 128 191 cs) else 0)"

definition replacement_character :: string where
  "replacement_character = [CHR 0xEF, CHR 0xBF, CHR 0xBD]"

fun utf8_lossy :: "string \<Rightarrow> string" where
  "utf8_lossy [] = []"
| "utf8_lossy (c # cs) =
     (case utf8_lead (code c) of
        None \<Rightarrow> replacement_character @ utf8_lossy cs
      | Some (n, lo, hi) \<Rightarrow>
          let k = continuations n lo hi cs
          in (if k = n then c # take k cs else replacement_character) @ utf8_lossy (drop k cs))"

lemma utf8_lossy_ascii_append: "\<forall>c \<in> set p. code c < 128 \<Longrightarrow> utf8_lossy (p @ q) = p @ utf8_lossy q"
  by (induction p) (simp_all add: utf8_lead_def)

lemma utf8_lossy_ascii: "\<forall>c \<in> set p. code c < 128 \<Longrightarrow> utf8_lossy p = p"
  using utf8_lossy_ascii_append[of p "[]"] by simp

subsection \<open>Reading a request\<close>

text \<open>
  The chunks are what \<open>fill_buf\<close> returns: an I/O error, or the buffered bytes, empty at the end of the
  stream. \<open>None\<close> is a request that is still incomplete.
\<close>

definition max_request_line_bytes :: nat where
  "max_request_line_bytes = 1048576"

definition request_too_large :: response where
  "request_too_large =
     response_err (''request too large (>'' @ show_nat max_request_line_bytes @ '' bytes, max ''
                   @ show_nat max_request_line_bytes @ '')'')"

definition up_to_newline :: "string \<Rightarrow> string" where
  "up_to_newline chunk = takeWhile (\<lambda>c. c \<noteq> CHR 0x0A) chunk @ [CHR 0x0A]"

fun read_line :: "string \<Rightarrow> nat \<Rightarrow> (string + string) list \<Rightarrow> (response + string option) option" where
  "read_line line seen [] = None"
| "read_line line seen (Inl error # chunks) = Some (Inl (response_err (''IO error: '' @ error)))"
| "read_line line seen (Inr chunk # chunks) =
     (if chunk = [] then Some (Inr (if seen = 0 then None else Some line))
      else if CHR 0x0A \<in> set chunk
      then if seen + length (up_to_newline chunk) > max_request_line_bytes then Some (Inl request_too_large)
           else Some (Inr (Some (line @ utf8_lossy (up_to_newline chunk))))
      else if seen + length chunk > max_request_line_bytes then Some (Inl request_too_large)
      else read_line (line @ utf8_lossy chunk) (seen + length chunk) chunks)"

text \<open>\<open>parse\<close> is \<open>serde_json::from_str\<close>, and \<open>trim\<close> that of \<open>str\<close>.\<close>

definition read_request ::
  "(string \<Rightarrow> string) \<Rightarrow> (string \<Rightarrow> string + 'r) \<Rightarrow> (string + string) list \<Rightarrow> (response + 'r option) option" where
  "read_request trim parse chunks =
     (case read_line [] 0 chunks of
        None \<Rightarrow> None
      | Some (Inl r) \<Rightarrow> Some (Inl r)
      | Some (Inr None) \<Rightarrow> Some (Inr None)
      | Some (Inr (Some line)) \<Rightarrow>
          (case parse (trim line) of
             Inl e \<Rightarrow> Some (Inl (error_detail InvalidArgument (''invalid request: '' @ e) None))
           | Inr req \<Rightarrow> Some (Inr (Some req))))"

lemma read_line_chunks:
  assumes "\<forall>c \<in> set chunks. c \<noteq> [] \<and> CHR 0x0A \<notin> set c \<and> utf8_lossy c = c"
    and "CHR 0x0A \<in> set final" "utf8_lossy (up_to_newline final) = up_to_newline final"
    and "seen + length (concat chunks) + length (up_to_newline final) \<le> max_request_line_bytes"
  shows "read_line line seen (map Inr chunks @ Inr final # later)
    = Some (Inr (Some (line @ concat chunks @ up_to_newline final)))"
  using assms(1,4)
proof (induction chunks arbitrary: line seen)
  case Nil
  have "final \<noteq> []" using assms(2) by auto
  then show ?case using assms(2,3) Nil by auto
next
  case (Cons c chunks)
  have "\<not> max_request_line_bytes < seen + length c" using Cons.prems(2) by simp
  then show ?case
    using Cons.prems Cons.IH[of "seen + length c" "line @ c"] by simp
qed

text \<open>
  A request does not depend on how the stream was buffered, as long as no buffer ends inside a
  character. However the bytes of a request line within the limit are cut into buffers, each of which is
  valid UTF-8 by itself, the line that is parsed is exactly the bytes that were sent up to the newline.
\<close>

theorem request_line_intact:
  "(\<forall>c \<in> set chunks. c \<noteq> [] \<and> CHR 0x0A \<notin> set c \<and> utf8_lossy c = c) \<Longrightarrow>
   CHR 0x0A \<in> set final \<Longrightarrow> utf8_lossy (up_to_newline final) = up_to_newline final \<Longrightarrow>
   length (concat chunks) + length (up_to_newline final) \<le> max_request_line_bytes \<Longrightarrow>
     read_line [] 0 (map Inr chunks @ Inr final # later)
       = Some (Inr (Some (concat chunks @ up_to_newline final)))"
  using read_line_chunks[of chunks final 0 "[]" later] by simp

text \<open>Two buffers with a complete two-byte character in the first.\<close>

theorem request_line_intact_witness:
  "read_line [] 0 (map Inr [[CHR 0xC3, CHR 0xA9]] @ Inr [CHR 0x61, CHR 0x0A] # [])
     = Some (Inr (Some [CHR 0xC3, CHR 0xA9, CHR 0x61, CHR 0x0A]))"
  using request_line_intact[of "[[CHR 0xC3, CHR 0xA9]]" "[CHR 0x61, CHR 0x0A]" "[]"]
  by (simp add: utf8_lead_def up_to_newline_def max_request_line_bytes_def numeral_2_eq_2)

text \<open>
  A character on a buffer boundary is corrupted. When a request of ASCII text with one two-byte
  character is buffered so that the first buffer ends inside that character, the line that is parsed has
  two replacement characters in place of it, although the bytes that were sent are valid UTF-8.
\<close>

theorem split_character_corrupted:
  "(\<forall>c \<in> set p \<union> set q. code c < 128 \<and> c \<noteq> CHR 0x0A) \<and> length p + length q + 3 \<le> max_request_line_bytes \<longrightarrow>
     utf8_lossy (p @ [CHR 0xC3, CHR 0xA9] @ q @ [CHR 0x0A]) = p @ [CHR 0xC3, CHR 0xA9] @ q @ [CHR 0x0A] \<and>
     read_line [] 0 [Inr (p @ [CHR 0xC3]), Inr (CHR 0xA9 # q @ [CHR 0x0A])]
       = Some (Inr (Some (p @ replacement_character @ replacement_character @ q @ [CHR 0x0A])))"
proof (intro impI, elim conjE)
  assume pq: "\<forall>c \<in> set p \<union> set q. code c < 128 \<and> c \<noteq> CHR 0x0A"
    and len: "length p + length q + 3 \<le> max_request_line_bytes"
  have q: "utf8_lossy (q @ [CHR 0x0A]) = q @ [CHR 0x0A]" using pq by (intro utf8_lossy_ascii) auto
  have p: "utf8_lossy (p @ x) = p @ utf8_lossy x" for x using pq by (intro utf8_lossy_ascii_append) auto
  have up: "up_to_newline (CHR 0xA9 # q @ [CHR 0x0A]) = CHR 0xA9 # q @ [CHR 0x0A]"
    using pq by (simp add: up_to_newline_def takeWhile_append)
  have c: "utf8_lossy (CHR 0xC3 # CHR 0xA9 # q @ [CHR 0x0A]) = CHR 0xC3 # CHR 0xA9 # q @ [CHR 0x0A]"
    "utf8_lossy (CHR 0xA9 # q @ [CHR 0x0A]) = replacement_character @ q @ [CHR 0x0A]"
    "utf8_lossy [CHR 0xC3] = replacement_character"
    using q by (simp_all add: utf8_lead_def)
  have n: "CHR 0x0A \<notin> set p" using pq by auto
  have small: "\<not> max_request_line_bytes < Suc (length p)"
    "\<not> max_request_line_bytes < Suc (length p) + length (CHR 0xA9 # q @ [CHR 0x0A])" using len by simp_all
  show "utf8_lossy (p @ [CHR 0xC3, CHR 0xA9] @ q @ [CHR 0x0A]) = p @ [CHR 0xC3, CHR 0xA9] @ q @ [CHR 0x0A] \<and>
     read_line [] 0 [Inr (p @ [CHR 0xC3]), Inr (CHR 0xA9 # q @ [CHR 0x0A])]
       = Some (Inr (Some (p @ replacement_character @ replacement_character @ q @ [CHR 0x0A])))"
    using n small by (simp add: p c up del: utf8_lossy.simps)
qed

theorem split_character_corrupted_witness:
  "read_line [] 0 [Inr ([CHR 0x61] @ [CHR 0xC3]), Inr (CHR 0xA9 # [] @ [CHR 0x0A])]
     = Some (Inr (Some ([CHR 0x61] @ replacement_character @ replacement_character @ [] @ [CHR 0x0A])))"
  using split_character_corrupted[of "[CHR 0x61]" "[]"] by (simp add: max_request_line_bytes_def)

end
