(* ===== verification/DaemonDialogs.thy ===== *)
theory DaemonDialogs
  imports Prelude Complex_Main Rust_Strings
begin

text \<open>
  Dialogs and console logs of the daemon (\<open>src/src/daemon/dialog.rs\<close>, \<open>src/src/daemon/console.rs\<close>):
  the pending dialogs, policies and subscriptions per tab, the subscription task with its automatic
  answers, and the bounded console log.
\<close>

declare map_of_eq_Some_iff [simp del] and Some_eq_map_of_iff [simp del]

subsection \<open>Dialog state\<close>

record pending_dialog =
  pd_type :: string
  pd_message :: string
  pd_default_prompt :: "string option"
  pd_url :: string
  pd_opened_at :: u64

datatype dialog_policy = ManualPolicy | AcceptPolicy | DismissPolicy

text \<open>\<open>to_lowercase\<close> of the source is a parameter: it is the identity on the names below.\<close>

definition policy_from_str :: "(string \<Rightarrow> string) \<Rightarrow> string \<Rightarrow> dialog_policy option" where
  "policy_from_str lowercase s =
     (if lowercase s = ''manual'' then Some ManualPolicy
      else if lowercase s = ''accept'' then Some AcceptPolicy
      else if lowercase s = ''dismiss'' then Some DismissPolicy
      else None)"

definition policy_as_str :: "dialog_policy \<Rightarrow> string" where
  "policy_as_str p = (case p of ManualPolicy \<Rightarrow> ''manual'' | AcceptPolicy \<Rightarrow> ''accept'' | DismissPolicy \<Rightarrow> ''dismiss'')"

text \<open>A key is a session name and a target id. A cancellation token is named by a number.\<close>

type_synonym dialog_key = "string \<times> ident"

record dialog_state =
  dg_pending :: "(dialog_key \<times> pending_dialog) list"
  dg_policies :: "(string \<times> dialog_policy) list"
  dg_tokens :: "(dialog_key \<times> nat) list"

definition new_dialog_state :: dialog_state where
  "new_dialog_state = \<lparr>dg_pending = [], dg_policies = [], dg_tokens = []\<rparr>"

definition get_policy :: "string \<Rightarrow> dialog_state \<Rightarrow> dialog_policy" where
  "get_policy name d = or_default ManualPolicy (map_of (dg_policies d) name)"

definition set_policy :: "string \<Rightarrow> dialog_policy \<Rightarrow> dialog_state \<Rightarrow> dialog_state" where
  "set_policy name p d = d\<lparr>dg_policies := AList.update name p (dg_policies d)\<rparr>"

definition set_pending :: "dialog_key \<Rightarrow> pending_dialog \<Rightarrow> dialog_state \<Rightarrow> dialog_state" where
  "set_pending k p d = d\<lparr>dg_pending := AList.update k p (dg_pending d)\<rparr>"

definition take_pending :: "dialog_key \<Rightarrow> dialog_state \<Rightarrow> pending_dialog option \<times> dialog_state" where
  "take_pending k d = (map_of (dg_pending d) k, d\<lparr>dg_pending := AList.delete k (dg_pending d)\<rparr>)"

definition get_pending :: "dialog_key \<Rightarrow> dialog_state \<Rightarrow> pending_dialog option" where
  "get_pending k d = map_of (dg_pending d) k"

definition list_pending_for_session :: "string \<Rightarrow> dialog_state \<Rightarrow> (ident \<times> pending_dialog) list" where
  "list_pending_for_session name d = map (\<lambda>(k, p). (snd k, p)) (filter (\<lambda>(k, _). fst k = name) (dg_pending d))"

text \<open>The second component lists the tokens that an operation cancels.\<close>

definition cancel_subscription :: "dialog_key \<Rightarrow> dialog_state \<Rightarrow> dialog_state \<times> nat list" where
  "cancel_subscription k d =
     (d\<lparr>dg_tokens := AList.delete k (dg_tokens d), dg_pending := AList.delete k (dg_pending d)\<rparr>,
      case map_of (dg_tokens d) k of Some t \<Rightarrow> [t] | None \<Rightarrow> [])"

definition cancel_all_for_session :: "string \<Rightarrow> dialog_state \<Rightarrow> dialog_state \<times> nat list" where
  "cancel_all_for_session name d =
     (let ks = map fst (filter (\<lambda>(k, _). fst k = name) (dg_tokens d));
          (d', ts) = fold (\<lambda>k (acc, ts). case cancel_subscription k acc of (acc', t) \<Rightarrow> (acc', ts @ t)) ks (d, [])
      in (d'\<lparr>dg_policies := AList.delete name (dg_policies d')\<rparr>, ts))"

subsection \<open>The subscription task\<close>

text \<open>
  A running task is a key with its token. While an automatic answer is under way the task handles no
  other event; the answer keeps the dialog it would record if it fails.
\<close>

record dialog_runtime =
  dr_state :: dialog_state
  dr_cancelled :: "nat list"
  dr_next :: nat
  dr_running :: "(dialog_key \<times> nat) list"
  dr_answering :: "((dialog_key \<times> nat) \<times> pending_dialog) list"

definition new_runtime :: dialog_runtime where
  "new_runtime =
     \<lparr>dr_state = new_dialog_state, dr_cancelled = [], dr_next = 0, dr_running = [], dr_answering = []\<rparr>"

definition spawn_subscription :: "dialog_key \<Rightarrow> dialog_runtime \<Rightarrow> dialog_runtime" where
  "spawn_subscription k r =
     (let d = dr_state r;
          old = (case map_of (dg_tokens d) k of Some t \<Rightarrow> [t] | None \<Rightarrow> []);
          t = dr_next r
      in r\<lparr>dr_state := d\<lparr>dg_tokens := AList.update k t (AList.delete k (dg_tokens d))\<rparr>,
           dr_cancelled := old @ dr_cancelled r,
           dr_next := Suc t,
           dr_running := (k, t) # dr_running r\<rparr>)"

text \<open>
  An event of a task that is awaiting events. A cancelled task stops at its next turn, which may come
  after one more event, so that an event is handled whenever the task still runs.
\<close>

definition awaiting :: "dialog_key \<times> nat \<Rightarrow> dialog_runtime \<Rightarrow> bool" where
  "awaiting task r \<longleftrightarrow> task \<in> set (dr_running r) \<and> task \<notin> keys (dr_answering r)"

definition on_opening :: "dialog_key \<times> nat \<Rightarrow> pending_dialog \<Rightarrow> dialog_runtime \<Rightarrow> dialog_runtime" where
  "on_opening task p r =
     (if \<not> awaiting task r then r
      else case get_policy (fst (fst task)) (dr_state r) of
        ManualPolicy \<Rightarrow> r\<lparr>dr_state := set_pending (fst task) p (dr_state r)\<rparr>
      | _ \<Rightarrow> r\<lparr>dr_answering := (task, p) # dr_answering r\<rparr>)"

definition on_answered :: "dialog_key \<times> nat \<Rightarrow> bool \<Rightarrow> dialog_runtime \<Rightarrow> dialog_runtime" where
  "on_answered task ok r =
     (case map_of (dr_answering r) task of
        None \<Rightarrow> r
      | Some p \<Rightarrow>
          r\<lparr>dr_answering := AList.delete task (dr_answering r),
            dr_state := (if ok then dr_state r else set_pending (fst task) p (dr_state r))\<rparr>)"

definition on_closed :: "dialog_key \<times> nat \<Rightarrow> dialog_runtime \<Rightarrow> dialog_runtime" where
  "on_closed task r =
     (if \<not> awaiting task r then r else r\<lparr>dr_state := snd (take_pending (fst task) (dr_state r))\<rparr>)"

text \<open>The loop is left when the token is cancelled or a stream fails or ends; the task cancels its token.\<close>

definition on_task_end :: "dialog_key \<times> nat \<Rightarrow> dialog_runtime \<Rightarrow> dialog_runtime" where
  "on_task_end task r =
     (if \<not> awaiting task r then r
      else r\<lparr>dr_running := filter (\<lambda>x. x \<noteq> task) (dr_running r), dr_cancelled := snd task # dr_cancelled r\<rparr>)"

definition with_dialogs :: "(dialog_state \<Rightarrow> dialog_state \<times> nat list) \<Rightarrow> dialog_runtime \<Rightarrow> dialog_runtime" where
  "with_dialogs f r =
     (case f (dr_state r) of (d, ts) \<Rightarrow> r\<lparr>dr_state := d, dr_cancelled := ts @ dr_cancelled r\<rparr>)"

datatype dialog_event =
    TaskSpawned dialog_key
  | DialogOpening "dialog_key \<times> nat" pending_dialog
  | AnswerReturned "dialog_key \<times> nat" bool
  | DialogClosed "dialog_key \<times> nat"
  | MalformedEvent "dialog_key \<times> nat"
  | TaskEnded "dialog_key \<times> nat"
  | PolicySet string dialog_policy
  | TabCancelled dialog_key
  | SessionCancelled string

fun dialog_apply :: "dialog_event \<Rightarrow> dialog_runtime \<Rightarrow> dialog_runtime" where
  "dialog_apply (TaskSpawned k) r = spawn_subscription k r"
| "dialog_apply (DialogOpening task p) r = on_opening task p r"
| "dialog_apply (AnswerReturned task ok) r = on_answered task ok r"
| "dialog_apply (DialogClosed task) r = on_closed task r"
| "dialog_apply (MalformedEvent task) r = r"
| "dialog_apply (TaskEnded task) r = on_task_end task r"
| "dialog_apply (PolicySet name p) r = r\<lparr>dr_state := set_policy name p (dr_state r)\<rparr>"
| "dialog_apply (TabCancelled k) r = with_dialogs (cancel_subscription k) r"
| "dialog_apply (SessionCancelled name) r = with_dialogs (cancel_all_for_session name) r"

text \<open>Every running task whose token is live is the one registered for its tab.\<close>

definition one_live :: "dialog_runtime \<Rightarrow> bool" where
  "one_live r \<longleftrightarrow>
     (\<forall>(k, t) \<in> set (dr_running r). t \<in> set (dr_cancelled r) \<or> map_of (dg_tokens (dr_state r)) k = Some t)"

lemma set_pending_tokens [simp]: "dg_tokens (set_pending k p d) = dg_tokens d"
  by (simp add: set_pending_def)

lemma cancel_subscription_tokens:
  assumes "cancel_subscription k d = (d', ts)"
  shows "map_of (dg_tokens d) k' = Some t \<Longrightarrow> t \<in> set ts \<or> map_of (dg_tokens d') k' = Some t"
    and "dg_policies d' = dg_policies d"
  using assms by (auto simp: cancel_subscription_def split: if_splits)

lemma cancel_many_tokens:
  assumes "fold (\<lambda>k (acc, ts). case cancel_subscription k acc of (acc', t) \<Rightarrow> (acc', ts @ t)) ks (d, ts0) = (d', ts)"
  shows "set ts0 \<subseteq> set ts \<and> (\<forall>k' t. map_of (dg_tokens d) k' = Some t \<longrightarrow> t \<in> set ts \<or> map_of (dg_tokens d') k' = Some t)"
  using assms
proof (induction ks arbitrary: d ts0)
  case (Cons k ks)
  obtain d1 t1 where c: "cancel_subscription k d = (d1, t1)" by (cases "cancel_subscription k d")
  have "fold (\<lambda>k (acc, ts). case cancel_subscription k acc of (acc', t) \<Rightarrow> (acc', ts @ t)) ks (d1, ts0 @ t1) = (d', ts)"
    using Cons.prems c by simp
  note later = Cons.IH[OF this]
  have "t \<in> set ts \<or> map_of (dg_tokens d') k' = Some t" if "map_of (dg_tokens d) k' = Some t" for k' t
    using later cancel_subscription_tokens(1)[OF c that] by (auto simp del: split_paired_All)
  then show ?case using later by auto
qed simp

lemma one_live_with:
  assumes "one_live r" "f (dr_state r) = (d, ts)"
    and "\<And>k t. map_of (dg_tokens (dr_state r)) k = Some t \<Longrightarrow> t \<in> set ts \<or> map_of (dg_tokens d) k = Some t"
  shows "one_live (with_dialogs f r)"
  using assms by (fastforce simp: one_live_def with_dialogs_def)

lemma one_live_session:
  assumes "one_live r"
  shows "one_live (with_dialogs (cancel_all_for_session name) r)"
proof -
  let ?ks = "map fst (filter (\<lambda>(k, _). fst k = name) (dg_tokens (dr_state r)))"
  obtain d ts where run: "fold (\<lambda>k (acc, ts). case cancel_subscription k acc of (acc', t) \<Rightarrow> (acc', ts @ t)) ?ks
      (dr_state r, []) = (d, ts)"
    by (cases "fold (\<lambda>k (acc, ts). case cancel_subscription k acc of (acc', t) \<Rightarrow> (acc', ts @ t)) ?ks (dr_state r, [])")
  have "cancel_all_for_session name (dr_state r) = (d\<lparr>dg_policies := AList.delete name (dg_policies d)\<rparr>, ts)"
    using run by (simp add: cancel_all_for_session_def Let_def)
  then show ?thesis
    by (rule one_live_with[OF assms]) (use cancel_many_tokens[OF run] in \<open>simp del: split_paired_All\<close>)
qed

lemma one_live_spawn:
  assumes "one_live r"
  shows "one_live (spawn_subscription k r)"
  unfolding one_live_def
proof (intro ballI, clarify)
  fix s x t
  assume "((s, x), t) \<in> set (dr_running (spawn_subscription k r))"
    "map_of (dg_tokens (dr_state (spawn_subscription k r))) (s, x) \<noteq> Some t"
  moreover from this have "((s, x), t) \<in> set (dr_running r)"
    by (auto simp: spawn_subscription_def Let_def split: if_splits)
  ultimately show "t \<in> set (dr_cancelled (spawn_subscription k r))"
    using assms by (auto simp: one_live_def spawn_subscription_def Let_def split: if_splits)
qed

lemma one_live_step: "one_live r \<Longrightarrow> one_live (dialog_apply e r)"
proof (cases e)
  case (TaskSpawned k)
  then show "one_live r \<Longrightarrow> ?thesis" by (simp add: one_live_spawn)
next
  case (DialogOpening task p)
  then show "one_live r \<Longrightarrow> ?thesis"
    by (auto simp: one_live_def on_opening_def split: dialog_policy.split)
next
  case (AnswerReturned task ok)
  then show "one_live r \<Longrightarrow> ?thesis" by (auto simp: one_live_def on_answered_def split: option.split)
next
  case (DialogClosed task)
  then show "one_live r \<Longrightarrow> ?thesis" by (auto simp: one_live_def on_closed_def take_pending_def)
next
  case (TaskEnded task)
  then show "one_live r \<Longrightarrow> ?thesis" by (auto simp: one_live_def on_task_end_def)
next
  case (PolicySet name p)
  then show "one_live r \<Longrightarrow> ?thesis" by (simp add: one_live_def set_policy_def)
next
  case (TabCancelled k)
  assume a: "one_live r"
  obtain d ts where c: "cancel_subscription k (dr_state r) = (d, ts)" by (cases "cancel_subscription k (dr_state r)")
  show ?thesis unfolding TabCancelled dialog_apply.simps
    by (rule one_live_with[where f = "cancel_subscription k", OF a c]) (rule cancel_subscription_tokens(1)[OF c])
next
  case (SessionCancelled name)
  then show "one_live r \<Longrightarrow> ?thesis" by (simp add: one_live_session)
qed simp

interpretation dialog_runs: event_machine dialog_apply one_live
  by unfold_locales (rule one_live_step)

text \<open>
  A tab has at most one live dialog subscription. After any sequence of spawns, dialog events,
  answers, ends of tasks and cancellations, two running tasks of one tab with different tokens are
  never both live: the token of one of them has been cancelled.
\<close>

theorem one_live_subscription:
  assumes "(k, t) \<in> set (dr_running (fold dialog_apply es new_runtime))"
    and "(k, t') \<in> set (dr_running (fold dialog_apply es new_runtime))" and "t \<noteq> t'"
  shows "t \<in> set (dr_cancelled (fold dialog_apply es new_runtime)) \<or>
     t' \<in> set (dr_cancelled (fold dialog_apply es new_runtime))"
proof -
  have inv: "one_live (fold dialog_apply es new_runtime)"
    by (rule dialog_runs.run_inv) (simp add: one_live_def new_runtime_def)
  have "x \<in> set (dr_cancelled (fold dialog_apply es new_runtime)) \<or>
      map_of (dg_tokens (dr_state (fold dialog_apply es new_runtime))) k = Some x"
    if "(k, x) \<in> set (dr_running (fold dialog_apply es new_runtime))" for x
    using inv that unfolding one_live_def by blast
  from this[OF assms(1)] this[OF assms(2)] assms(3) show ?thesis by auto
qed

theorem one_live_subscription_witness:
  "0 \<in> set (dr_cancelled (fold dialog_apply [TaskSpawned (''s'', ''T''), TaskSpawned (''s'', ''T'')] new_runtime)) \<or>
   1 \<in> set (dr_cancelled (fold dialog_apply [TaskSpawned (''s'', ''T''), TaskSpawned (''s'', ''T'')] new_runtime))"
  by (rule one_live_subscription[where k = "(''s'', ''T'')"])
    (simp_all add: new_runtime_def new_dialog_state_def spawn_subscription_def)

text \<open>
  A removed tab can keep a pending dialog for ever. When the automatic answer of a tab is under way
  while the tab is removed, its failure records the dialog again after the removal has cleared it; the
  tab has no subscription any more, so that even cancelling the whole session leaves the dialog listed.
\<close>

theorem removed_tab_keeps_pending_dialog:
  "get_pending (name, target)
     (dr_state (fold dialog_apply
        [PolicySet name AcceptPolicy, TaskSpawned (name, target), DialogOpening ((name, target), 0) p,
         TabCancelled (name, target), AnswerReturned ((name, target), 0) False, TaskEnded ((name, target), 0),
         SessionCancelled name] new_runtime)) = Some p"
  by (simp add: new_runtime_def new_dialog_state_def set_policy_def spawn_subscription_def on_opening_def
      awaiting_def get_policy_def with_dialogs_def cancel_subscription_def on_answered_def set_pending_def
      on_task_end_def cancel_all_for_session_def get_pending_def Let_def)

subsection \<open>Console logs\<close>

record console_entry =
  ce_level :: string
  ce_text :: string
  ce_timestamp :: rat

definition console_log_max :: nat where
  "console_log_max = 200"

definition push_console_entry :: "'a \<Rightarrow> 'a list \<Rightarrow> 'a list" where
  "push_console_entry e entries = (if console_log_max \<le> length entries then tl entries else entries) @ [e]"

text \<open>
  The console log of a tab is the end of its history: after any number of entries it holds exactly
  the last 200 of them, in order.
\<close>

theorem console_log_keeps_last:
  "fold push_console_entry es [] = drop (length es - console_log_max) es"
proof (induction es rule: rev_induct)
  case (snoc e es)
  show ?case
  proof (cases "console_log_max \<le> length es")
    case True
    have "length es - 199 = Suc (length es - 200)" using True by (simp add: console_log_max_def)
    then have "tl (drop (length es - 200) es) = drop (length es - 199) es" by (simp add: drop_Suc tl_drop)
    then show ?thesis using snoc True by (simp add: push_console_entry_def console_log_max_def)
  next
    case False
    then show ?thesis using snoc by (simp add: push_console_entry_def)
  qed
qed simp

end
