(* ===== verification/DaemonSessions.thy ===== *)
theory DaemonSessions
  imports DaemonProtocol DaemonDialogs "HOL-Library.List_Lexorder" "HOL-Library.Char_ord"
begin

text \<open>
  The sessions of the daemon: sessions and tabs (\<open>src/src/daemon/session.rs\<close>), the registration of
  targets (\<open>src/src/daemon/target_lifecycle.rs\<close>), the disconnection of a browser
  (\<open>src/src/daemon/state.rs\<close>), the closing of tabs and sessions
  (\<open>src/src/daemon/target_close.rs\<close>, \<open>src/src/daemon/handler/session.rs\<close>,
  \<open>src/src/daemon/server.rs\<close>) and the binding of a session to a browser
  (\<open>src/src/daemon/handler/connect.rs\<close>). Times are inputs.
\<close>

declare map_of_eq_Some_iff [simp del] and Some_eq_map_of_iff [simp del]

subsection \<open>Sessions and tabs\<close>

datatype session_mode = DefaultMode | IsolatedMode

datatype tab_ownership = OwnedTab | AttachedTab

record session_tab =
  tb_target_id :: ident
  tb_url :: string
  tb_title :: string
  tb_cdp_session_id :: ident
  tb_ownership :: tab_ownership
  tb_console_log :: "console_entry list"

definition new_owned_tab :: "ident \<Rightarrow> string \<Rightarrow> string \<Rightarrow> session_tab" where
  "new_owned_tab target url title =
     \<lparr>tb_target_id = target, tb_url = url, tb_title = title, tb_cdp_session_id = [], tb_ownership = OwnedTab,
      tb_console_log = []\<rparr>"

definition new_attached_tab :: "ident \<Rightarrow> string \<Rightarrow> string \<Rightarrow> ident \<Rightarrow> session_tab" where
  "new_attached_tab target url title session =
     \<lparr>tb_target_id = target, tb_url = url, tb_title = title, tb_cdp_session_id = session,
      tb_ownership = AttachedTab, tb_console_log = []\<rparr>"

record session =
  ss_name :: string
  ss_mode :: session_mode
  ss_browser_host :: string
  ss_context_id :: "ident option"
  ss_tabs :: "(ident \<times> session_tab) list"
  ss_active_target :: "ident option"
  ss_created_at :: u64
  ss_last_active :: u64
  ss_disconnected :: bool
  ss_reservations :: nat

definition new_default_session :: "u64 \<Rightarrow> string \<Rightarrow> session" where
  "new_default_session now host =
     \<lparr>ss_name = ''default'', ss_mode = DefaultMode, ss_browser_host = host, ss_context_id = None, ss_tabs = [],
      ss_active_target = None, ss_created_at = now, ss_last_active = now, ss_disconnected = False,
      ss_reservations = 0\<rparr>"

definition new_isolated_session :: "u64 \<Rightarrow> string \<Rightarrow> string \<Rightarrow> ident \<Rightarrow> session" where
  "new_isolated_session now name host ctx =
     \<lparr>ss_name = name, ss_mode = IsolatedMode, ss_browser_host = host, ss_context_id = Some ctx, ss_tabs = [],
      ss_active_target = None, ss_created_at = now, ss_last_active = now, ss_disconnected = False,
      ss_reservations = 0\<rparr>"

definition touch :: "u64 \<Rightarrow> session \<Rightarrow> session" where
  "touch now s = s\<lparr>ss_last_active := now\<rparr>"

text \<open>\<open>keys().next()\<close> of a hash map: some key, the first of the list that represents it.\<close>

definition any_tab :: "(ident \<times> session_tab) list \<Rightarrow> ident option" where
  "any_tab tabs = (case tabs of [] \<Rightarrow> None | (k, _) # _ \<Rightarrow> Some k)"

definition can_add_tab :: "nat \<Rightarrow> session \<Rightarrow> bool" where
  "can_add_tab limit s \<longleftrightarrow> limit = 0 \<or> sat_add (length (ss_tabs s)) (ss_reservations s) < limit"

definition check_connected :: "session \<Rightarrow> response + unit" where
  "check_connected s =
     (if ss_disconnected s
      then Inl (error_detail ChromeDisconnected
                  (''browser for session '' @ [CHR 0x27] @ ss_name s @ [CHR 0x27] @ '' has disconnected'') None)
      else Inr ())"

subsection \<open>The state of the daemon\<close>

datatype lifecycle_event =
    TabCreated string ident "ident option"
  | TabDestroyed string ident
  | TabUpdated string ident string string

text \<open>
  A connection is named by a number, and so is a cancellation token. \<open>dn_persists\<close> counts the
  requests to persist.
\<close>

record daemon_state =
  dn_sessions :: "(string \<times> session) list"
  dn_browsers :: "(string \<times> nat) list"
  dn_watchers :: "(string \<times> nat) list"
  dn_console_tokens :: "(dialog_key \<times> nat) list"
  dn_dialogs :: dialog_state
  dn_cancelled :: "nat list"
  dn_events :: "lifecycle_event list"
  dn_persists :: nat

abbreviation the_session :: "daemon_state \<Rightarrow> string \<Rightarrow> session option" where
  "the_session d name \<equiv> map_of (dn_sessions d) name"

definition put_session :: "string \<Rightarrow> session \<Rightarrow> daemon_state \<Rightarrow> daemon_state" where
  "put_session name s d = d\<lparr>dn_sessions := AList.update name s (dn_sessions d)\<rparr>"

definition request_persist :: "daemon_state \<Rightarrow> daemon_state" where
  "request_persist d = d\<lparr>dn_persists := Suc (dn_persists d)\<rparr>"

definition emit :: "lifecycle_event \<Rightarrow> daemon_state \<Rightarrow> daemon_state" where
  "emit ev d = d\<lparr>dn_events := dn_events d @ [ev]\<rparr>"

subsection \<open>Registration of targets\<close>

definition find_target_owner :: "ident \<Rightarrow> daemon_state \<Rightarrow> string option" where
  "find_target_owner target d =
     map_option fst (find (\<lambda>(_, s). target \<in> keys (ss_tabs s)) (dn_sessions d))"

text \<open>A context id selects a session only if it is the id of exactly one.\<close>

definition session_for_created_target ::
  "string \<Rightarrow> ident option \<Rightarrow> ident option \<Rightarrow> daemon_state \<Rightarrow> string option" where
  "session_for_created_target host opener ctx d =
     (let by_opener = Option.bind opener (\<lambda>opener_id. Option.bind (find_target_owner opener_id d) (\<lambda>name.
            case the_session d name of
              Some s \<Rightarrow> if ss_browser_host s = host then Some name else None
            | None \<Rightarrow> None))
      in case by_opener of
           Some name \<Rightarrow> Some name
         | None \<Rightarrow>
             Option.bind ctx (\<lambda>c.
               case filter (\<lambda>(_, s). ss_mode s = IsolatedMode \<and> ss_browser_host s = host \<and> ss_context_id s = Some c)
                      (dn_sessions d) of
                 [(name, _)] \<Rightarrow> Some name
               | _ \<Rightarrow> None))"

datatype registration = Registered | AlreadyTracked

text \<open>The tab is inserted, becomes the active one, and the state is persisted.\<close>

definition insert_tab :: "u64 \<Rightarrow> string \<Rightarrow> session_tab \<Rightarrow> session \<Rightarrow> daemon_state \<Rightarrow> daemon_state" where
  "insert_tab now name tab s d =
     request_persist (put_session name
       (touch now (s\<lparr>ss_tabs := AList.update (tb_target_id tab) tab (ss_tabs s),
                     ss_active_target := Some (tb_target_id tab)\<rparr>)) d)"

definition register_initialized_session_tab ::
  "u64 \<Rightarrow> string \<Rightarrow> session_tab \<Rightarrow> daemon_state \<Rightarrow> (error_code + registration) \<times> daemon_state" where
  "register_initialized_session_tab now name tab d =
     (case find_target_owner (tb_target_id tab) d of
        Some owner \<Rightarrow> (if owner = name then Inr AlreadyTracked else Inl TargetAlreadyAttached, d)
      | None \<Rightarrow>
          (case the_session d name of
             None \<Rightarrow> (Inl SessionNotFound, d)
           | Some s \<Rightarrow> (Inr Registered, insert_tab now name tab s d)))"

definition register_session_tab ::
  "u64 \<Rightarrow> string \<Rightarrow> session_tab \<Rightarrow> daemon_state \<Rightarrow> (error_code + unit) \<times> daemon_state" where
  "register_session_tab now name tab d =
     (case register_initialized_session_tab now name tab d of
        (Inl e, d') \<Rightarrow> (Inl e, d')
      | (Inr Registered, d') \<Rightarrow> (Inr (), d')
      | (Inr AlreadyTracked, d') \<Rightarrow> (Inl TargetAlreadyAttached, d'))"

definition reserve_session_tab :: "string \<Rightarrow> nat \<Rightarrow> daemon_state \<Rightarrow> (error_code + unit) \<times> daemon_state" where
  "reserve_session_tab name limit d =
     (case the_session d name of
        None \<Rightarrow> (Inl SessionNotFound, d)
      | Some s \<Rightarrow>
          if \<not> can_add_tab limit s then (Inl TabLimitExceeded, d)
          else (Inr (), put_session name (s\<lparr>ss_reservations := sat_add (ss_reservations s) 1\<rparr>) d))"

definition release_session_tab_reservation :: "string \<Rightarrow> daemon_state \<Rightarrow> daemon_state" where
  "release_session_tab_reservation name d =
     (case the_session d name of
        None \<Rightarrow> d
      | Some s \<Rightarrow> put_session name (s\<lparr>ss_reservations := ss_reservations s - 1\<rparr>) d)"

definition register_reserved_session_tab ::
  "u64 \<Rightarrow> string \<Rightarrow> session_tab \<Rightarrow> daemon_state \<Rightarrow> (error_code + registration) \<times> daemon_state" where
  "register_reserved_session_tab now name tab d =
     (case the_session d name of
        None \<Rightarrow> (Inl SessionNotFound, d)
      | Some s \<Rightarrow>
          let s1 = s\<lparr>ss_reservations := ss_reservations s - 1\<rparr>
          in case find_target_owner (tb_target_id tab) d of
               Some owner \<Rightarrow>
                 (if owner = name then Inr AlreadyTracked else Inl TargetAlreadyAttached, put_session name s1 d)
             | None \<Rightarrow> (Inr Registered, insert_tab now name tab s1 d))"

definition remove_session_tab :: "u64 \<Rightarrow> ident \<Rightarrow> daemon_state \<Rightarrow> (string \<times> session_tab) option \<times> daemon_state" where
  "remove_session_tab now target d =
     (case find_target_owner target d of
        None \<Rightarrow> (None, d)
      | Some name \<Rightarrow>
          (case the_session d name of
             None \<Rightarrow> (None, d)
           | Some s \<Rightarrow>
               (case map_of (ss_tabs s) target of
                  None \<Rightarrow> (None, d)
                | Some tab \<Rightarrow>
                    let tabs = AList.delete target (ss_tabs s);
                        s1 = touch now (s\<lparr>ss_tabs := tabs,
                               ss_active_target := (if ss_active_target s = Some target then any_tab tabs
                                                    else ss_active_target s)\<rparr>);
                        k = (name, target);
                        console = (case map_of (dn_console_tokens d) k of Some t \<Rightarrow> [t] | None \<Rightarrow> []);
                        (dialogs, cancelled) = cancel_subscription k (dn_dialogs d)
                    in (Some (name, tab),
                        request_persist (emit (TabDestroyed name target)
                          (put_session name s1
                            (d\<lparr>dn_console_tokens := AList.delete k (dn_console_tokens d), dn_dialogs := dialogs,
                               dn_cancelled := console @ cancelled @ dn_cancelled d\<rparr>)))))))"

definition update_session_tab_info :: "u64 \<Rightarrow> ident \<Rightarrow> string \<Rightarrow> string \<Rightarrow> daemon_state \<Rightarrow> bool \<times> daemon_state" where
  "update_session_tab_info now target url title d =
     (case find_target_owner target d of
        None \<Rightarrow> (False, d)
      | Some name \<Rightarrow>
          (case the_session d name of
             None \<Rightarrow> (False, d)
           | Some s \<Rightarrow>
               (case map_of (ss_tabs s) target of
                  None \<Rightarrow> (False, d)
                | Some tab \<Rightarrow>
                    if tb_url tab = url \<and> tb_title tab = title then (False, d)
                    else
                      (True, request_persist (emit (TabUpdated name target url title)
                         (put_session name
                            (touch now (s\<lparr>ss_tabs := AList.update target (tab\<lparr>tb_url := url, tb_title := title\<rparr>)
                                                           (ss_tabs s)\<rparr>)) d))))))"

definition record_console_entry :: "string \<Rightarrow> ident \<Rightarrow> console_entry \<Rightarrow> daemon_state \<Rightarrow> bool \<times> daemon_state" where
  "record_console_entry name target e d =
     (case the_session d name of
        None \<Rightarrow> (False, d)
      | Some s \<Rightarrow>
          (case map_of (ss_tabs s) target of
             None \<Rightarrow> (False, d)
           | Some tab \<Rightarrow>
               (True, put_session name
                  (s\<lparr>ss_tabs := AList.update target
                       (tab\<lparr>tb_console_log := push_console_entry e (tb_console_log tab)\<rparr>) (ss_tabs s)\<rparr>) d)))"

subsection \<open>Watching the targets of a browser\<close>

text \<open>
  The token of the watcher of a host and whether a task has to be spawned for it; \<open>fresh\<close> is a new token.
\<close>

definition ensure_target_watcher :: "string \<Rightarrow> nat \<Rightarrow> daemon_state \<Rightarrow> (nat \<times> bool) \<times> daemon_state" where
  "ensure_target_watcher host fresh d =
     (case map_of (dn_watchers d) host of
        Some t \<Rightarrow>
          if t \<notin> set (dn_cancelled d) then ((t, False), d)
          else ((fresh, True), d\<lparr>dn_watchers := AList.update host fresh (dn_watchers d)\<rparr>)
      | None \<Rightarrow> ((fresh, True), d\<lparr>dn_watchers := AList.update host fresh (dn_watchers d)\<rparr>))"

text \<open>
  The start of the task: the three subscriptions in order and the command that enables discovery. The
  result is whether the watcher runs.
\<close>

definition start_target_watcher ::
  "nat \<Rightarrow> (string + unit) list \<Rightarrow> string + unit \<Rightarrow> daemon_state \<Rightarrow> bool \<times> daemon_state" where
  "start_target_watcher t subscriptions discover d =
     (if \<exists>r \<in> set subscriptions. \<exists>e. r = Inl e then (False, d)
      else case discover of
        Inl e \<Rightarrow> (False, d\<lparr>dn_cancelled := t # dn_cancelled d\<rparr>)
      | Inr _ \<Rightarrow> (True, d))"

definition end_target_watcher :: "nat \<Rightarrow> daemon_state \<Rightarrow> daemon_state" where
  "end_target_watcher t d = d\<lparr>dn_cancelled := t # dn_cancelled d\<rparr>"

record daemon_target_info =
  ti_target_id :: ident
  ti_type :: string
  ti_url :: string
  ti_title :: string
  ti_opener_id :: "ident option"
  ti_context_id :: "ident option"

definition is_trackable_page_target :: "string \<Rightarrow> bool" where
  "is_trackable_page_target kind \<longleftrightarrow> kind = ''page''"

text \<open>
  A created target: \<open>before\<close> is the state when its session is first selected and \<open>d\<close> the state once
  the lock of that session is held; \<open>attach\<close> and \<open>prepare\<close> are the replies of the browser. Returns the
  sessions that were detached again and whether the tab's subscriptions were spawned.
\<close>

definition handle_target_created ::
  "u64 \<Rightarrow> string \<Rightarrow> daemon_target_info \<Rightarrow> string + ident \<Rightarrow> string + unit \<Rightarrow> daemon_state \<Rightarrow> daemon_state \<Rightarrow>
   (ident list \<times> bool) \<times> daemon_state" where
  "handle_target_created now host info attach prepare before d =
     (if \<not> is_trackable_page_target (ti_type info) then (([], False), d)
      else case session_for_created_target host (ti_opener_id info) (ti_context_id info) before of
        None \<Rightarrow> (([], False), d)
      | Some name \<Rightarrow>
          if session_for_created_target host (ti_opener_id info) (ti_context_id info) d \<noteq> Some name then (([], False), d)
          else if find_target_owner (ti_target_id info) d \<noteq> None then (([], False), d)
          else (case attach of
            Inl e \<Rightarrow> (([], False), d)
          | Inr cdp_session \<Rightarrow>
              (case prepare of
                 Inl e \<Rightarrow> (([cdp_session], False), d)
               | Inr _ \<Rightarrow>
                   let tab = (new_owned_tab (ti_target_id info) (ti_url info) (ti_title info))\<lparr>tb_cdp_session_id := cdp_session\<rparr>
                   in case register_initialized_session_tab now name tab d of
                        (Inr Registered, d') \<Rightarrow>
                          (([], True), emit (TabCreated name (ti_target_id info) (ti_opener_id info)) d')
                      | (_, d') \<Rightarrow> (([cdp_session], False), d'))))"

subsection \<open>Disconnection of a browser\<close>

definition cancel_console_for_session :: "string \<Rightarrow> daemon_state \<Rightarrow> daemon_state" where
  "cancel_console_for_session name d =
     d\<lparr>dn_cancelled := map snd (filter (\<lambda>(k, _). fst k = name) (dn_console_tokens d)) @ dn_cancelled d,
       dn_console_tokens := filter (\<lambda>(k, _). fst k \<noteq> name) (dn_console_tokens d)\<rparr>"

definition cancel_dialogs_for_session :: "string \<Rightarrow> daemon_state \<Rightarrow> daemon_state" where
  "cancel_dialogs_for_session name d =
     (case cancel_all_for_session name (dn_dialogs d) of
        (dialogs, ts) \<Rightarrow> d\<lparr>dn_dialogs := dialogs, dn_cancelled := ts @ dn_cancelled d\<rparr>)"

definition mark_disconnected :: "session \<Rightarrow> session" where
  "mark_disconnected s = s\<lparr>ss_disconnected := True\<rparr>"

definition disconnect_session :: "string \<Rightarrow> string \<Rightarrow> daemon_state \<Rightarrow> daemon_state" where
  "disconnect_session host name d =
     (case the_session d name of
        None \<Rightarrow> d
      | Some s \<Rightarrow>
          if ss_browser_host s \<noteq> host then d
          else cancel_dialogs_for_session name (cancel_console_for_session name (put_session name (mark_disconnected s) d)))"

definition disconnect_sessions_for_host :: "string \<Rightarrow> daemon_state \<Rightarrow> daemon_state" where
  "disconnect_sessions_for_host host d =
     fold (disconnect_session host) (map fst (filter (\<lambda>(_, s). ss_browser_host s = host) (dn_sessions d))) d"

definition cancel_browser_background_tasks :: "string \<Rightarrow> daemon_state \<Rightarrow> daemon_state" where
  "cancel_browser_background_tasks host d =
     d\<lparr>dn_watchers := AList.delete host (dn_watchers d),
       dn_cancelled := (case map_of (dn_watchers d) host of Some t \<Rightarrow> [t] | None \<Rightarrow> []) @ dn_cancelled d\<rparr>"

definition handle_browser_disconnect :: "string \<Rightarrow> nat \<Rightarrow> daemon_state \<Rightarrow> daemon_state" where
  "handle_browser_disconnect host cdp d =
     (if map_of (dn_browsers d) host \<noteq> Some cdp then d
      else request_persist (disconnect_sessions_for_host host
             (cancel_browser_background_tasks host (d\<lparr>dn_browsers := AList.delete host (dn_browsers d)\<rparr>))))"

subsection \<open>Closing tabs and sessions\<close>

record close_request =
  cr_target_id :: ident
  cr_cdp_session_id :: ident
  cr_ownership :: tab_ownership

definition close_request_of :: "session_tab \<Rightarrow> close_request" where
  "close_request_of tab =
     \<lparr>cr_target_id = tb_target_id tab, cr_cdp_session_id = tb_cdp_session_id tab, cr_ownership = tb_ownership tab\<rparr>"

datatype close_action = CloseTargetAction ident | DetachAction ident | AlreadyDetached

definition close_action_of :: "close_request \<Rightarrow> close_action" where
  "close_action_of r =
     (case cr_ownership r of
        OwnedTab \<Rightarrow> CloseTargetAction (cr_target_id r)
      | AttachedTab \<Rightarrow>
          if cr_cdp_session_id r = [] then AlreadyDetached else DetachAction (cr_cdp_session_id r))"

datatype close_error =
    CloseDisconnected ident string
  | CloseFailed ident string string

text \<open>\<open>cdp\<close> is whether the browser is connected and \<open>reply\<close> its reply to the command of a target.\<close>

definition close_session_target ::
  "bool \<Rightarrow> (ident \<Rightarrow> string + unit) \<Rightarrow> close_request \<Rightarrow> close_error + close_action" where
  "close_session_target cdp reply r =
     (case close_action_of r of
        AlreadyDetached \<Rightarrow> Inr AlreadyDetached
      | action \<Rightarrow>
          let name = (case action of CloseTargetAction _ \<Rightarrow> ''close target'' | _ \<Rightarrow> ''detach target session'')
          in if \<not> cdp then Inl (CloseDisconnected (cr_target_id r) name)
             else case reply (cr_target_id r) of
               Inl e \<Rightarrow> Inl (CloseFailed (cr_target_id r) name e)
             | Inr _ \<Rightarrow> Inr action)"

definition show_close_error :: "close_error \<Rightarrow> string" where
  "show_close_error e =
     (case e of
        CloseDisconnected target action \<Rightarrow>
          ''cannot '' @ action @ '' for target '' @ [CHR 0x27] @ target @ [CHR 0x27] @ '': browser disconnected''
      | CloseFailed target action source \<Rightarrow>
          ''failed to '' @ action @ '' for target '' @ [CHR 0x27] @ target @ [CHR 0x27] @ '': '' @ source)"

text \<open>The loop over the targets of a plan: a closed one is removed, an error leaves it.\<close>

definition close_one ::
  "u64 \<Rightarrow> bool \<Rightarrow> (ident \<Rightarrow> string + unit) \<Rightarrow> close_request \<Rightarrow> close_error list \<times> daemon_state \<Rightarrow>
   close_error list \<times> daemon_state" where
  "close_one now cdp reply r acc =
     (case acc of (errors, d) \<Rightarrow>
        (case close_session_target cdp reply r of
           Inr _ \<Rightarrow> (errors, snd (remove_session_tab now (cr_target_id r) d))
         | Inl e \<Rightarrow> (errors @ [e], d)))"

definition close_targets ::
  "u64 \<Rightarrow> bool \<Rightarrow> (ident \<Rightarrow> string + unit) \<Rightarrow> session \<Rightarrow> daemon_state \<Rightarrow> close_error list \<times> daemon_state" where
  "close_targets now cdp reply s d = fold (close_one now cdp reply) (map (close_request_of \<circ> snd) (ss_tabs s)) ([], d)"

datatype dispose_error = DisposeDisconnected string | DisposeFailed string string

definition dispose_session_browser_context ::
  "bool \<Rightarrow> string + unit \<Rightarrow> string \<Rightarrow> session \<Rightarrow> dispose_error + bool" where
  "dispose_session_browser_context cdp reply name s =
     (if ss_mode s \<noteq> IsolatedMode \<or> ss_context_id s = None then Inr False
      else if \<not> cdp then Inl (DisposeDisconnected name)
      else case reply of Inl e \<Rightarrow> Inl (DisposeFailed name e) | Inr _ \<Rightarrow> Inr True)"

definition show_dispose_error :: "dispose_error \<Rightarrow> string" where
  "show_dispose_error e =
     (case e of
        DisposeDisconnected name \<Rightarrow>
          ''browser for session '' @ [CHR 0x27] @ name @ [CHR 0x27] @ '' disconnected before disposing BrowserContext''
      | DisposeFailed name source \<Rightarrow>
          ''failed to dispose BrowserContext for session '' @ [CHR 0x27] @ name @ [CHR 0x27] @ '': '' @ source)"

definition closed_response :: "string \<Rightarrow> nat \<Rightarrow> response" where
  "closed_response name n = ResponseOk (JObj [(''closed'', JStr name), (''tabs_closed'', JNum (of_nat n))])"

definition handle_session_close ::
  "u64 \<Rightarrow> string \<Rightarrow> (ident \<Rightarrow> string + unit) \<Rightarrow> string + unit \<Rightarrow> daemon_state \<Rightarrow> response \<times> daemon_state" where
  "handle_session_close now name reply dispose d =
     (case the_session d name of
        None \<Rightarrow>
          (if name = ''default'' then closed_response ''default'' 0
           else error_detail SessionNotFound (''session '' @ [CHR 0x27] @ name @ [CHR 0x27] @ '' not found'') None, d)
      | Some s \<Rightarrow>
          let cdp = map_of (dn_browsers d) (ss_browser_host s) \<noteq> None
          in case close_targets now cdp reply s d of
               (e # _, d1) \<Rightarrow> (error_detail DaemonError (show_close_error e) None, d1)
             | ([], d1) \<Rightarrow>
                 (case dispose_session_browser_context cdp dispose name s of
                    Inl e \<Rightarrow>
                      (error_detail (case e of DisposeDisconnected _ \<Rightarrow> ChromeDisconnected | DisposeFailed _ _ \<Rightarrow> DaemonError)
                         (show_dispose_error e) None, d1)
                  | Inr _ \<Rightarrow>
                      let d2 = (if ss_mode s = IsolatedMode
                                then (\<lambda>d'. d'\<lparr>dn_sessions := AList.delete name (dn_sessions d')\<rparr>)
                                       (cancel_dialogs_for_session name d1)
                                else d1)
                      in (closed_response name (length (ss_tabs s)), request_persist d2)))"

text \<open>The clean-up of one idle session; \<open>now\<close> is the time of the pass, \<open>at_end\<close> that of its last touch.\<close>

definition session_idle :: "u64 \<Rightarrow> u64 \<Rightarrow> session \<Rightarrow> bool" where
  "session_idle now timeout s \<longleftrightarrow> unat timeout < unat now - unat (ss_last_active s)"

definition cleanup_idle_session ::
  "u64 \<Rightarrow> u64 \<Rightarrow> u64 \<Rightarrow> string \<Rightarrow> (ident \<Rightarrow> string + unit) \<Rightarrow> string + unit \<Rightarrow> daemon_state \<Rightarrow> bool \<times> daemon_state" where
  "cleanup_idle_session now at_end timeout name reply dispose d =
     (case the_session d name of
        None \<Rightarrow> (False, d)
      | Some s \<Rightarrow>
          if \<not> session_idle now timeout s then (False, d)
          else
            let cdp = map_of (dn_browsers d) (ss_browser_host s) \<noteq> None
            in case close_targets at_end cdp reply s d of
                 (_ # _, d1) \<Rightarrow> (False, d1)
               | ([], d1) \<Rightarrow>
                   (case dispose_session_browser_context cdp dispose name s of
                      Inl _ \<Rightarrow> (False, d1)
                    | Inr _ \<Rightarrow>
                        (True,
                         if ss_mode s = DefaultMode
                         then (case the_session d1 name of
                                 None \<Rightarrow> d1
                               | Some s1 \<Rightarrow> put_session name (touch at_end s1) d1)
                         else (\<lambda>d'. d'\<lparr>dn_sessions := AList.delete name (dn_sessions d')\<rparr>)
                                (cancel_dialogs_for_session name d1))))"

subsection \<open>Binding a session to a browser\<close>

text \<open>
  Attaching again to the tabs of a session, in the order of their ids: \<open>reattach\<close> gives the new session of
  a target, or nothing when attaching or preparing it failed, which drops the tab.
\<close>

definition reattach_session_tabs :: "(ident \<Rightarrow> ident option) \<Rightarrow> session \<Rightarrow> session \<times> ident list" where
  "reattach_session_tabs reattach s =
     (let tabs = map (\<lambda>(k, tab). (k, case reattach (tb_target_id tab) of
                        Some x \<Rightarrow> tab\<lparr>tb_cdp_session_id := x\<rparr> | None \<Rightarrow> tab))
                   (filter (\<lambda>(k, tab). reattach (tb_target_id tab) \<noteq> None) (ss_tabs s));
          active = (case ss_active_target s of
                      Some a \<Rightarrow> if a \<in> keys tabs then Some a
                               else (case sort (map fst tabs) of [] \<Rightarrow> None | k # _ \<Rightarrow> Some k)
                    | None \<Rightarrow> (case sort (map fst tabs) of [] \<Rightarrow> None | k # _ \<Rightarrow> Some k))
      in (s\<lparr>ss_tabs := tabs, ss_active_target := active\<rparr>, sort (map fst tabs)))"

datatype bind_status = BindConnected | BindReconnected | BindAlreadyConnected

text \<open>
  What binding asks the browser: whether the session's context is available, the context it creates, and
  the sessions of its targets.
\<close>

record reconnect_backend =
  rb_context_available :: bool
  rb_create_context :: "response + ident"
  rb_reattach :: "ident \<Rightarrow> ident option"

definition reconnect_existing_session ::
  "u64 \<Rightarrow> string \<Rightarrow> string \<Rightarrow> reconnect_backend \<Rightarrow> daemon_state \<Rightarrow> (response + nat \<times> ident list) \<times> daemon_state" where
  "reconnect_existing_session now name host b d =
     (case the_session d name of
        None \<Rightarrow> (Inl (error_detail SessionNotFound (''session not found: '' @ name) None), d)
      | Some s \<Rightarrow>
          let rebound =
            (if ss_mode s = DefaultMode \<or> (ss_browser_host s = host \<and> rb_context_available b)
             then Inr (reattach_session_tabs (rb_reattach b) s)
             else map_sum id (\<lambda>ctx. (s\<lparr>ss_context_id := Some ctx, ss_tabs := [], ss_active_target := None\<rparr>, []))
                    (rb_create_context b))
          in case rebound of
               Inl e \<Rightarrow> (Inl e, d)
             | Inr (s1, subscriptions) \<Rightarrow>
                 (Inr (length (ss_tabs s1), subscriptions),
                  put_session name (touch now (s1\<lparr>ss_browser_host := host, ss_disconnected := False\<rparr>)) d))"

definition check_session_limit :: "nat \<Rightarrow> daemon_state \<Rightarrow> response + unit" where
  "check_session_limit limit d =
     (let count = length (filter (\<lambda>(_, s). ss_mode s = IsolatedMode) (dn_sessions d))
      in if limit \<noteq> 0 \<and> limit \<le> count
         then Inl (error_detail SessionLimitExceeded
                     (''already have '' @ show_nat count @ '' isolated sessions (limit: '' @ show_nat limit @ '')'') None)
         else Inr ())"

definition check_new_session_limit_for_connect :: "nat \<Rightarrow> string \<Rightarrow> daemon_state \<Rightarrow> response + unit" where
  "check_new_session_limit_for_connect limit name d =
     (if name = ''default'' \<or> the_session d name \<noteq> None then Inr () else check_session_limit limit d)"

definition bind_session ::
  "u64 \<Rightarrow> nat \<Rightarrow> string \<Rightarrow> string \<Rightarrow> reconnect_backend \<Rightarrow> daemon_state \<Rightarrow>
   (response + bind_status \<times> nat \<times> ident list) \<times> daemon_state" where
  "bind_session now limit name host b d =
     (case check_new_session_limit_for_connect limit name d of
        Inl e \<Rightarrow> (Inl e, d)
      | Inr _ \<Rightarrow>
          (case the_session d name of
             Some s \<Rightarrow>
               if \<not> ss_disconnected s
               then if ss_browser_host s = host then (Inr (BindAlreadyConnected, length (ss_tabs s), []), d)
                    else (Inl (error_detail InvalidArgument
                                (''session '' @ [CHR 0x27] @ name @ [CHR 0x27] @ '' is already connected to ''
                                 @ ss_browser_host s @ ''; disconnect it before binding '' @ host) None), d)
               else (case reconnect_existing_session now name host b d of
                       (Inl e, d') \<Rightarrow> (Inl e, d')
                     | (Inr (n, subscriptions), d') \<Rightarrow> (Inr (BindReconnected, n, subscriptions), d'))
           | None \<Rightarrow>
               if name = ''default''
               then (Inr (BindConnected, 0, []), put_session name (new_default_session now host) d)
               else (case rb_create_context b of
                       Inl e \<Rightarrow> (Inl e, d)
                     | Inr ctx \<Rightarrow>
                         (Inr (BindConnected, 0, []), put_session name (new_isolated_session now name host ctx) d))))"

text \<open>
  \<open>bind_session_to_browser\<close>: the connection is checked first, and the state is persisted on success. The
  tokens of the respawned subscriptions are not of interest here.
\<close>

definition bind_session_to_browser ::
  "u64 \<Rightarrow> nat \<Rightarrow> string \<Rightarrow> string \<Rightarrow> nat \<Rightarrow> bool \<Rightarrow> reconnect_backend \<Rightarrow> daemon_state \<Rightarrow>
   (response + bind_status \<times> nat \<times> ident list) \<times> daemon_state" where
  "bind_session_to_browser now limit name host cdp gone b d =
     (case map_of (dn_browsers d) host of
        None \<Rightarrow> (Inl (error_detail ChromeDisconnected (''browser is no longer connected: '' @ host) None), d)
      | Some current \<Rightarrow>
          if current \<noteq> cdp \<or> gone
          then (Inl (error_detail ChromeDisconnected (''browser connection was replaced or closed: '' @ host) None), d)
          else (case bind_session now limit name host b d of
                  (Inl e, d') \<Rightarrow> (Inl e, d')
                | (Inr result, d') \<Rightarrow> (Inr result, request_persist d')))"

end
