(* ===== verification/DaemonRequests.thy ===== *)
theory DaemonRequests
  imports DaemonSessions
begin

text \<open>
  The dispatcher of requests (\<open>src/src/daemon/handler/mod.rs\<close>) and what the handlers share
  (\<open>src/src/daemon/handler/common.rs\<close>): the fields a command accepts, the session whose lock a command
  takes, and the resolution of the session and the target of a command. \<open>as_u64\<close> and \<open>as_i64\<close> are the
  accessors of JSON numbers of \<open>serde_json\<close>, and \<open>dispatch\<close> is the handler of the command.
\<close>

declare map_of_eq_Some_iff [simp del] and Some_eq_map_of_iff [simp del]

subsection \<open>The fields of a request\<close>

record request =
  rq_cmd :: string
  rq_params :: json

datatype request_field_type =
    FieldString | FieldBool | FieldU64 | FieldI64 | FieldObject | FieldArray | FieldStringArray

fun field_accepts ::
  "(json \<Rightarrow> u64 option) \<Rightarrow> (json \<Rightarrow> 64 word option) \<Rightarrow> request_field_type \<Rightarrow> json \<Rightarrow> bool" where
  "field_accepts as_u64 as_i64 FieldString v \<longleftrightarrow> json_as_str v \<noteq> None"
| "field_accepts as_u64 as_i64 FieldBool v \<longleftrightarrow> json_as_bool v \<noteq> None"
| "field_accepts as_u64 as_i64 FieldU64 v \<longleftrightarrow> as_u64 v \<noteq> None"
| "field_accepts as_u64 as_i64 FieldI64 v \<longleftrightarrow> as_i64 v \<noteq> None"
| "field_accepts as_u64 as_i64 FieldObject v \<longleftrightarrow> json_as_object v \<noteq> None"
| "field_accepts as_u64 as_i64 FieldArray v \<longleftrightarrow> (case v of JArr _ \<Rightarrow> True | _ \<Rightarrow> False)"
| "field_accepts as_u64 as_i64 FieldStringArray v \<longleftrightarrow>
     (case v of JArr vs \<Rightarrow> list_all (\<lambda>x. json_as_str x \<noteq> None) vs | _ \<Rightarrow> False)"

definition field_description :: "request_field_type \<Rightarrow> string" where
  "field_description t =
     (case t of
        FieldString \<Rightarrow> ''a string''
      | FieldBool \<Rightarrow> ''a boolean''
      | FieldU64 \<Rightarrow> ''an unsigned integer''
      | FieldI64 \<Rightarrow> ''an integer''
      | FieldObject \<Rightarrow> ''an object''
      | FieldArray \<Rightarrow> ''an array''
      | FieldStringArray \<Rightarrow> ''an array of strings'')"

text \<open>The commands of each arm of \<open>allowed_request_fields\<close> and their fields.\<close>

definition request_field_table :: "(string list \<times> (string \<times> request_field_type) list) list" where
  "request_field_table =
     [([''ping'', ''session.list'', ''daemon.status'', ''daemon.stop'', ''browser.list''], []),
      ([''connect'', ''tabs'', ''session.close'', ''session.cookies.get'', ''session.cookies.clear'',
        ''dialog.list''], [(''session'', FieldString)]),
      ([''open''], [(''url'', FieldString), (''session'', FieldString)]),
      ([''snapshot''], [(''session'', FieldString), (''target'', FieldString), (''wait'', FieldString),
        (''full'', FieldBool), (''no_page_text'', FieldBool), (''timeout'', FieldU64),
        (''max_tokens'', FieldU64)]),
      ([''navigate''], [(''url'', FieldString), (''back'', FieldBool), (''forward'', FieldBool),
        (''reload'', FieldBool), (''session'', FieldString), (''target'', FieldString), (''timeout'', FieldU64)]),
      ([''attach''], [(''session'', FieldString), (''target'', FieldString), (''pattern'', FieldString)]),
      ([''close''], [(''session'', FieldString), (''target'', FieldString)]),
      ([''session.cookies.set''], [(''session'', FieldString), (''cookies'', FieldArray)]),
      ([''session.storage.local.get''], [(''session'', FieldString), (''target'', FieldString),
        (''key'', FieldString)]),
      ([''session.storage.local.set''], [(''session'', FieldString), (''target'', FieldString),
        (''key'', FieldString), (''value'', FieldString)]),
      ([''session.storage.export''], [(''session'', FieldString), (''target'', FieldString)]),
      ([''session.storage.import''], [(''session'', FieldString), (''target'', FieldString),
        (''state'', FieldObject)]),
      ([''evaluate''], [(''session'', FieldString), (''target'', FieldString), (''expression'', FieldString),
        (''timeout'', FieldU64)]),
      ([''screenshot''], [(''session'', FieldString), (''target'', FieldString), (''full_page'', FieldBool),
        (''output'', FieldString), (''selector'', FieldString), (''labels'', FieldBool)]),
      ([''wait''], [(''session'', FieldString), (''target'', FieldString), (''time'', FieldU64),
        (''selector'', FieldString), (''text'', FieldString), (''text_gone'', FieldString),
        (''url'', FieldString), (''load_state'', FieldString), (''fn'', FieldString), (''timeout'', FieldU64)]),
      ([''find''], [(''session'', FieldString), (''target'', FieldString), (''selector'', FieldString),
        (''attributes'', FieldStringArray), (''max'', FieldU64), (''include_text'', FieldBool)]),
      ([''search''], [(''session'', FieldString), (''target'', FieldString), (''text'', FieldString),
        (''regex'', FieldBool), (''scope'', FieldString), (''context'', FieldU64), (''max'', FieldU64)]),
      ([''html''], [(''session'', FieldString), (''target'', FieldString), (''selector'', FieldString)]),
      ([''console''], [(''session'', FieldString), (''target'', FieldString), (''level'', FieldString),
        (''limit'', FieldU64)]),
      ([''pdf''], [(''session'', FieldString), (''target'', FieldString), (''output'', FieldString),
        (''landscape'', FieldBool), (''background'', FieldBool)]),
      ([''browser.connect''], [(''host'', FieldString), (''session'', FieldString)]),
      ([''browser.discover''], [(''path'', FieldString), (''session'', FieldString)]),
      ([''browser.disconnect''], [(''host'', FieldString)]),
      ([''debug.block''], [(''session'', FieldString), (''target'', FieldString), (''pattern'', FieldString)]),
      ([''debug.unblock''], [(''session'', FieldString), (''target'', FieldString)]),
      ([''network.watch''], [(''session'', FieldString), (''target'', FieldString), (''pattern'', FieldString),
        (''count'', FieldU64), (''timeout'', FieldU64)]),
      ([''download''], [(''session'', FieldString), (''target'', FieldString), (''ref'', FieldI64),
        (''output_dir'', FieldString), (''timeout'', FieldU64)]),
      ([''debug.cdp''], [(''session'', FieldString), (''target'', FieldString), (''method'', FieldString),
        (''params'', FieldObject)]),
      ([''dialog.accept''], [(''session'', FieldString), (''target'', FieldString), (''text'', FieldString)]),
      ([''dialog.dismiss''], [(''session'', FieldString), (''target'', FieldString)]),
      ([''dialog.policy''], [(''session'', FieldString), (''policy'', FieldString)])]"

definition allowed_request_fields :: "string \<Rightarrow> (string \<times> request_field_type) list option" where
  "allowed_request_fields command = map_option snd (find (\<lambda>(cs, _). command \<in> set cs) request_field_table)"

definition quoted :: "string \<Rightarrow> string" where
  "quoted s = CHR 0x27 # s @ [CHR 0x27]"

fun check_fields ::
  "(json \<Rightarrow> u64 option) \<Rightarrow> (json \<Rightarrow> 64 word option) \<Rightarrow> string \<Rightarrow> (string \<times> request_field_type) list \<Rightarrow>
   (string \<times> json) list \<Rightarrow> response + unit" where
  "check_fields as_u64 as_i64 cmd allowed [] = Inr ()"
| "check_fields as_u64 as_i64 cmd allowed ((field, v) # entries) =
     (case map_of allowed field of
        None \<Rightarrow> Inl (error_detail InvalidArgument (''unexpected field '' @ quoted field @ '' for command '' @ quoted cmd) None)
      | Some t \<Rightarrow>
          if \<not> field_accepts as_u64 as_i64 t v
          then Inl (error_detail InvalidArgument
                      (''field '' @ quoted field @ '' for command '' @ quoted cmd @ '' must be '' @ field_description t) None)
          else check_fields as_u64 as_i64 cmd allowed entries)"

definition validate_request_fields ::
  "(json \<Rightarrow> u64 option) \<Rightarrow> (json \<Rightarrow> 64 word option) \<Rightarrow> request \<Rightarrow> response + unit" where
  "validate_request_fields as_u64 as_i64 req =
     (let allowed = allowed_request_fields (rq_cmd req)
      in if rq_cmd req \<noteq> ''act'' \<and> allowed = None then Inr ()
         else case json_as_object (rq_params req) of
           None \<Rightarrow> Inl (error_detail InvalidArgument (rq_cmd req @ '' params must be an object'') None)
         | Some entries \<Rightarrow>
             (case allowed of
                None \<Rightarrow> Inr ()
              | Some fs \<Rightarrow> check_fields as_u64 as_i64 (rq_cmd req) fs entries))"

subsection \<open>The session of a request\<close>

definition session_bound_commands :: "string list" where
  "session_bound_commands =
     [''open'', ''snapshot'', ''navigate'', ''act'', ''attach'', ''tabs'', ''close'', ''session.close'',
      ''session.cookies.get'', ''session.cookies.set'', ''session.cookies.clear'',
      ''session.storage.local.get'', ''session.storage.local.set'', ''session.storage.export'',
      ''session.storage.import'', ''evaluate'', ''screenshot'', ''wait'', ''find'', ''search'', ''html'',
      ''console'', ''pdf'', ''debug.block'', ''debug.unblock'', ''network.watch'', ''download'', ''debug.cdp'',
      ''dialog.list'', ''dialog.accept'', ''dialog.dismiss'', ''dialog.policy'']"

definition request_session_name :: "request \<Rightarrow> string option" where
  "request_session_name req =
     (if rq_cmd req \<notin> set session_bound_commands then None
      else case json_get ''session'' (rq_params req) of
        None \<Rightarrow> Some ''default''
      | Some (JStr name) \<Rightarrow> Some name
      | Some _ \<Rightarrow> None)"

datatype lock_mode = NoLock | ReadLock string | WriteLock string

definition touch_session :: "u64 \<Rightarrow> string \<Rightarrow> daemon_state \<Rightarrow> daemon_state" where
  "touch_session now name d =
     (case the_session d name of
        None \<Rightarrow> d
      | Some s \<Rightarrow> request_persist (put_session name (touch now s) d))"

text \<open>
  The lock held while the command runs, its response, the state it leaves and the counter of requests,
  which wraps.
\<close>

definition handle_request ::
  "u64 \<Rightarrow> (json \<Rightarrow> u64 option) \<Rightarrow> (json \<Rightarrow> 64 word option) \<Rightarrow> (request \<Rightarrow> daemon_state \<Rightarrow> response \<times> daemon_state) \<Rightarrow>
   request \<Rightarrow> u64 \<times> daemon_state \<Rightarrow> (lock_mode \<times> response) \<times> u64 \<times> daemon_state" where
  "handle_request now as_u64 as_i64 dispatch req nd =
     (case nd of (requests, d) \<Rightarrow>
        (case validate_request_fields as_u64 as_i64 req of
           Inl e \<Rightarrow> ((NoLock, e), requests + 1, d)
         | Inr _ \<Rightarrow>
             (case request_session_name req of
                Some name \<Rightarrow>
                  (case dispatch req (touch_session now name d) of
                     (r, d') \<Rightarrow>
                       ((if rq_cmd req = ''session.close'' then WriteLock name else ReadLock name, r), requests + 1, d'))
              | None \<Rightarrow> (case dispatch req d of (r, d') \<Rightarrow> ((NoLock, r), requests + 1, d')))))"

subsection \<open>Resolution of the session and the target\<close>

definition optional_string_param :: "json \<Rightarrow> string \<Rightarrow> response + string option" where
  "optional_string_param params field =
     (case json_get field params of
        None \<Rightarrow> Inr None
      | Some (JStr v) \<Rightarrow> Inr (Some v)
      | Some _ \<Rightarrow> Inl (error_detail InvalidArgument (quoted field @ '' must be a string when provided'') None))"

definition session_name_param :: "json \<Rightarrow> response + string" where
  "session_name_param params = map_sum id (or_default ''default'') (optional_string_param params ''session'')"

definition session_missing :: "string \<Rightarrow> response" where
  "session_missing name = error_detail SessionNotFound (''session not found: '' @ name) None"

definition resolve_session_selection :: "daemon_state \<Rightarrow> string option \<Rightarrow> response + string" where
  "resolve_session_selection d session_param =
     (let name = or_default ''default'' session_param
      in if the_session d name \<noteq> None then Inr name else Inl (session_missing name))"

definition resolve_target_selection :: "daemon_state \<Rightarrow> string \<Rightarrow> string option \<Rightarrow> response + ident" where
  "resolve_target_selection d name target_param =
     (case the_session d name of
        None \<Rightarrow> Inl (session_missing name)
      | Some s \<Rightarrow>
          (case target_param of
             Some t \<Rightarrow>
               if t \<in> keys (ss_tabs s) then Inr t
               else Inl (error_detail TargetNotFound (''target not found in session '' @ quoted name @ '': '' @ t) None)
           | None \<Rightarrow>
               (case ss_active_target s of
                  Some a \<Rightarrow> Inr a
                | None \<Rightarrow> Inl (error_detail SessionNoTab (''session '' @ quoted name @ '' has no active target'') None))))"

record session_target_context =
  tc_session_name :: string
  tc_target_id :: ident
  tc_browser_host :: string
  tc_context_id :: "ident option"
  tc_cdp :: nat
  tc_cdp_session_id :: ident

definition resolve_session_target :: "daemon_state \<Rightarrow> json \<Rightarrow> response + session_target_context" where
  "resolve_session_target d params =
     (case optional_string_param params ''session'' of
        Inl e \<Rightarrow> Inl e
      | Inr session_param \<Rightarrow>
     (case optional_string_param params ''target'' of
        Inl e \<Rightarrow> Inl e
      | Inr target_param \<Rightarrow>
     (case resolve_session_selection d session_param of
        Inl e \<Rightarrow> Inl e
      | Inr name \<Rightarrow>
     (case resolve_target_selection d name target_param of
        Inl e \<Rightarrow> Inl e
      | Inr target \<Rightarrow>
     (case the_session d name of
        None \<Rightarrow> Inl (session_missing name)
      | Some s \<Rightarrow>
     (case check_connected s of
        Inl e \<Rightarrow> Inl e
      | Inr _ \<Rightarrow>
     (case map_of (ss_tabs s) target of
        None \<Rightarrow> Inl (error_detail TargetNotFound (''target not found in session '' @ quoted name @ '': '' @ target) None)
      | Some tab \<Rightarrow>
     (case map_of (dn_browsers d) (ss_browser_host s) of
        None \<Rightarrow> Inl (error_detail ChromeDisconnected
                       (''browser for session '' @ quoted name @ '' is not connected: '' @ ss_browser_host s) None)
      | Some cdp \<Rightarrow>
          Inr \<lparr>tc_session_name = name, tc_target_id = target, tc_browser_host = ss_browser_host s,
               tc_context_id = ss_context_id s, tc_cdp = cdp, tc_cdp_session_id = tb_cdp_session_id tab\<rparr>))))))))"

end
