(* ===== verification/DaemonHandlers.thy ===== *)
theory DaemonHandlers
  imports DaemonRequests
begin

text \<open>
  The handlers that open, attach, list and close tabs (\<open>src/src/daemon/handler/open.rs\<close>, \<open>attach.rs\<close>,
  \<open>tabs.rs\<close>), and the clean-up of a browser's sessions (\<open>browser.rs\<close>). The replies of the browser are
  inputs, and the commands a handler sends beyond the ones whose replies it takes are outputs. A
  handler that waits for the browser is split where it waits, so that the state may change there.
\<close>

declare map_of_eq_Some_iff [simp del] and Some_eq_map_of_iff [simp del]

subsection \<open>Opening a tab\<close>

datatype browser_command = SendDetach ident | SendCloseTarget ident

definition open_missing :: "string \<Rightarrow> response" where
  "open_missing name =
     error_detail SessionNotFound (''session '' @ quoted name @ '' not found'')
       (Some ''run 'bk connect' first or specify --session'')"

text \<open>
  \<open>OpenTabReservation::acquire\<close> and the checks of the session. Returning drops the reservation, which
  releases it; otherwise the connection and the context to create the target with.
\<close>

definition open_begin ::
  "string \<Rightarrow> nat \<Rightarrow> daemon_state \<Rightarrow> (response + nat \<times> ident option) \<times> daemon_state" where
  "open_begin name limit d =
     (case reserve_session_tab name limit d of
        (Inl ecode, d1) \<Rightarrow> (Inl (error_detail ecode (''session '' @ quoted name @ '' cannot reserve another tab'') None), d1)
      | (Inr _, d1) \<Rightarrow>
          (case the_session d1 name of
             None \<Rightarrow> (Inl (open_missing name), release_session_tab_reservation name d1)
           | Some s \<Rightarrow>
               (case check_connected s of
                  Inl e \<Rightarrow> (Inl e, release_session_tab_reservation name d1)
                | Inr _ \<Rightarrow>
                    (case map_of (dn_browsers d1) (ss_browser_host s) of
                       None \<Rightarrow> (Inl (error_detail ChromeDisconnected ''no browser connection for this session'' None),
                                release_session_tab_reservation name d1)
                     | Some cdp \<Rightarrow> (Inr (cdp, ss_context_id s), d1)))))"

text \<open>\<open>rollback_opened_target\<close>: the commands it sends and the error it reports from their replies.\<close>

definition rollback_commands :: "ident \<Rightarrow> ident option \<Rightarrow> browser_command list" where
  "rollback_commands target cdp_session =
     (case cdp_session of None \<Rightarrow> [] | Some sid \<Rightarrow> [SendDetach sid]) @ [SendCloseTarget target]"

fun join_errors :: "string list \<Rightarrow> string" where
  "join_errors [] = []"
| "join_errors [e] = e"
| "join_errors (e # es) = e @ ''; '' @ join_errors es"

definition rollback_error :: "ident option \<Rightarrow> string + unit \<Rightarrow> string + unit \<Rightarrow> string option" where
  "rollback_error cdp_session detach close =
     (let errors = (case (cdp_session, detach) of (Some _, Inl e) \<Rightarrow> [''detach failed: '' @ e] | _ \<Rightarrow> [])
                   @ (case close of Inl e \<Rightarrow> [''close target failed: '' @ e] | Inr _ \<Rightarrow> [])
      in if errors = [] then None else Some (join_errors errors))"

definition append_cleanup_error :: "string \<Rightarrow> string option \<Rightarrow> string" where
  "append_cleanup_error message e =
     (case e of Some error \<Rightarrow> message @ ''; rollback also failed: '' @ error | None \<Rightarrow> message)"

text \<open>How far creating, attaching and preparing the target went.\<close>

datatype open_outcome =
    CreateFailed string
  | OpenAttachFailed ident string
  | OpenPrepareFailed ident ident string
  | OpenPrepared ident ident

definition open_finish ::
  "u64 \<Rightarrow> string \<Rightarrow> string \<Rightarrow> open_outcome \<Rightarrow> string + unit \<Rightarrow> string + unit \<Rightarrow> daemon_state \<Rightarrow>
   (response \<times> browser_command list) \<times> daemon_state" where
  "open_finish now name url outcome detach close d =
     (case outcome of
        CreateFailed e \<Rightarrow>
          ((error_detail NavigateFailed (''failed to create tab: '' @ e) None, []), release_session_tab_reservation name d)
      | OpenAttachFailed target e \<Rightarrow>
          ((error_detail DaemonError
              (append_cleanup_error (''failed to attach to new tab: '' @ e) (rollback_error None detach close)) None,
            rollback_commands target None),
           release_session_tab_reservation name d)
      | OpenPrepareFailed target sid e \<Rightarrow>
          ((error_detail DaemonError
              (append_cleanup_error (''failed to initialize new tab session: '' @ e) (rollback_error (Some sid) detach close))
              None,
            rollback_commands target (Some sid)),
           release_session_tab_reservation name d)
      | OpenPrepared target sid \<Rightarrow>
          (case register_reserved_session_tab now name ((new_owned_tab target url [])\<lparr>tb_cdp_session_id := sid\<rparr>) d of
             (Inl ecode, d1) \<Rightarrow>
               ((error_detail ecode
                   (append_cleanup_error (''failed to register opened target '' @ quoted target)
                     (rollback_error (Some sid) detach close)) None,
                 rollback_commands target (Some sid)), d1)
           | (Inr registration, d1) \<Rightarrow>
               ((ResponseOk (JObj [(''target'', JStr target), (''url'', JStr url), (''session'', JStr name)]),
                 if registration = AlreadyTracked then [SendDetach sid] else []),
                if registration = AlreadyTracked then d1 else emit (TabCreated name target None) d1)))"

subsection \<open>Attaching to a target\<close>

definition str_contains :: "string \<Rightarrow> string \<Rightarrow> bool" where
  "str_contains s pattern \<longleftrightarrow> list_ex (\<lambda>n. take (length pattern) (drop n s) = pattern) [0..<Suc (length s)]"

definition str_starts_with :: "string \<Rightarrow> string \<Rightarrow> bool" where
  "str_starts_with s pattern \<longleftrightarrow> take (length pattern) s = pattern"

record attach_candidate =
  ac_target_id :: ident
  ac_url :: string
  ac_title :: string
  ac_context_id :: "ident option"

definition attach_candidate_of :: "daemon_target_info \<Rightarrow> attach_candidate" where
  "attach_candidate_of t =
     \<lparr>ac_target_id = ti_target_id t, ac_url = ti_url t, ac_title = ti_title t, ac_context_id = ti_context_id t\<rparr>"

definition select_attach_target ::
  "attach_candidate list \<Rightarrow> ident option \<Rightarrow> string option \<Rightarrow> error_code + attach_candidate" where
  "select_attach_target candidates target pattern =
     (if target \<noteq> None \<and> pattern \<noteq> None then Inl InvalidArgument
      else
        let matching = filter (\<lambda>c. case target of
                Some t \<Rightarrow> ac_target_id c = t
              | None \<Rightarrow> (case pattern of
                    Some p \<Rightarrow> str_contains (ac_url c) p \<or> str_contains (ac_title c) p
                              \<or> str_starts_with (ac_target_id c) p
                  | None \<Rightarrow> True)) candidates
        in case matching of [c] \<Rightarrow> Inr c | _ \<Rightarrow> Inl InvalidArgument)"

definition validate_attach_context ::
  "session \<Rightarrow> attach_candidate \<Rightarrow> ident list \<Rightarrow> ident option \<Rightarrow> error_code + unit" where
  "validate_attach_context s c non_default default_context =
     (if ss_mode s = DefaultMode
      then case ac_context_id c of
             None \<Rightarrow> Inr ()
           | Some ctx \<Rightarrow>
               (case default_context of
                  Some default_id \<Rightarrow> if ctx = default_id then Inr () else Inl InvalidArgument
                | None \<Rightarrow> if ctx \<in> set non_default then Inl InvalidArgument else Inr ())
      else if ss_context_id s = ac_context_id c then Inr () else Inl InvalidArgument)"

definition validate_attach_session_mode :: "session \<Rightarrow> error_code + unit" where
  "validate_attach_session_mode s = (if ss_mode s = DefaultMode then Inr () else Inl InvalidArgument)"

definition validate_attach_ownership :: "daemon_state \<Rightarrow> ident \<Rightarrow> error_code + unit" where
  "validate_attach_ownership d target = (if find_target_owner target d \<noteq> None then Inl TargetAlreadyAttached else Inr ())"

text \<open>
  Up to the request of the targets, in the state \<open>d\<close>: the session as it was and the connection.
\<close>

definition attach_begin :: "string \<Rightarrow> daemon_state \<Rightarrow> response + session \<times> nat" where
  "attach_begin name d =
     (case the_session d name of
        None \<Rightarrow> Inl (error_detail SessionNotFound (''session '' @ quoted name @ '' not found'') None)
      | Some s \<Rightarrow>
     (case check_connected s of
        Inl e \<Rightarrow> Inl e
      | Inr _ \<Rightarrow>
     (case validate_attach_session_mode s of
        Inl ecode \<Rightarrow> Inl (error_detail ecode
          (''attach requires the default session; isolated session '' @ quoted name @ '' must use bk open'') None)
      | Inr _ \<Rightarrow>
     (case map_of (dn_browsers d) (ss_browser_host s) of
        None \<Rightarrow> Inl (error_detail ChromeDisconnected
          (''browser for session '' @ quoted name @ '' is not connected: '' @ ss_browser_host s) None)
      | Some cdp \<Rightarrow> Inr (s, cdp)))))"

text \<open>
  The choice of the target from the reply to the listing: \<open>contexts\<close> is the reply to the listing of the
  browser contexts, which is asked for only if the target has one.
\<close>

definition attach_choose ::
  "session \<Rightarrow> string \<Rightarrow> ident option \<Rightarrow> string option \<Rightarrow> string + daemon_target_info list \<Rightarrow>
   string + ident list \<times> ident option \<Rightarrow> response + attach_candidate" where
  "attach_choose s name target pattern targets contexts =
     (case targets of
        Inl e \<Rightarrow> Inl (error_detail DaemonError (''failed to list browser targets: '' @ e) None)
      | Inr infos \<Rightarrow>
     (case select_attach_target (map attach_candidate_of (filter (is_trackable_page_target \<circ> ti_type) infos)) target pattern of
        Inl ecode \<Rightarrow> Inl (error_detail ecode ''attach requires exactly one matching page target'' None)
      | Inr c \<Rightarrow>
     (case (if ac_context_id c = None then Inr ([], None) else contexts) of
        Inl e \<Rightarrow> Inl (error_detail DaemonError (''failed to list browser contexts: '' @ e) None)
      | Inr (non_default, default_context) \<Rightarrow>
     (case validate_attach_context s c non_default default_context of
        Inl ecode \<Rightarrow> Inl (error_detail ecode
          (''target '' @ quoted (ac_target_id c) @ '' is outside session '' @ quoted name @ '' BrowserContext'') None)
      | Inr _ \<Rightarrow> Inr c))))"

definition already_attached :: "error_code \<Rightarrow> ident \<Rightarrow> response" where
  "already_attached ecode target = error_detail ecode (''target '' @ quoted target @ '' is already attached'') None"

text \<open>After the browser attached to the target: \<open>d\<close> is the state then.\<close>

definition attach_finish ::
  "u64 \<Rightarrow> string \<Rightarrow> attach_candidate \<Rightarrow> string + ident \<Rightarrow> string + unit \<Rightarrow> daemon_state \<Rightarrow>
   (response \<times> browser_command list) \<times> daemon_state" where
  "attach_finish now name c attach prepare d =
     (case attach of
        Inl e \<Rightarrow>
          ((error_detail DaemonError (''failed to attach target '' @ quoted (ac_target_id c) @ '': '' @ e) None, []), d)
      | Inr sid \<Rightarrow>
     (case prepare of
        Inl e \<Rightarrow> ((error_detail DaemonError (''failed to initialize target session: '' @ e) None, [SendDetach sid]), d)
      | Inr _ \<Rightarrow>
     (case register_session_tab now name (new_attached_tab (ac_target_id c) (ac_url c) (ac_title c) sid) d of
        (Inl ecode, d1) \<Rightarrow> ((already_attached ecode (ac_target_id c), [SendDetach sid]), d1)
      | (Inr _, d1) \<Rightarrow>
          ((ResponseOk (JObj [(''session'', JStr name), (''target'', JStr (ac_target_id c)), (''ownership'', JStr ''attached'')]),
            []), d1))))"

text \<open>The handler: \<open>d0\<close> is the state it starts in, \<open>d1\<close> the one in which it checks the ownership.\<close>

definition handle_attach ::
  "u64 \<Rightarrow> string \<Rightarrow> ident option \<Rightarrow> string option \<Rightarrow> string + daemon_target_info list \<Rightarrow>
   string + ident list \<times> ident option \<Rightarrow> string + ident \<Rightarrow> string + unit \<Rightarrow>
   daemon_state \<Rightarrow> daemon_state \<Rightarrow> daemon_state \<Rightarrow> (response \<times> browser_command list) \<times> daemon_state" where
  "handle_attach now name target pattern targets contexts attach prepare d0 d1 d =
     (case attach_begin name d0 of
        Inl e \<Rightarrow> ((e, []), d)
      | Inr (s, cdp) \<Rightarrow>
     (case attach_choose s name target pattern targets contexts of
        Inl e \<Rightarrow> ((e, []), d)
      | Inr c \<Rightarrow>
     (case validate_attach_ownership d1 (ac_target_id c) of
        Inl ecode \<Rightarrow> ((already_attached ecode (ac_target_id c), []), d)
      | Inr _ \<Rightarrow> attach_finish now name c attach prepare d)))"

subsection \<open>Listing and closing tabs\<close>

definition tab_entry :: "ident option \<Rightarrow> session_tab \<Rightarrow> json" where
  "tab_entry active tab =
     JObj [(''target'', JStr (tb_target_id tab)), (''url'', JStr (tb_url tab)), (''title'', JStr (tb_title tab)),
           (''active'', JBool (active = Some (tb_target_id tab)))]"

definition build_tabs_response :: "daemon_state \<Rightarrow> string \<Rightarrow> response + response" where
  "build_tabs_response d name =
     (case the_session d name of
        None \<Rightarrow> Inl (error_detail SessionNotFound (''session '' @ quoted name @ '' not found'') None)
      | Some s \<Rightarrow>
          (case check_connected s of
             Inl e \<Rightarrow> Inl e
           | Inr _ \<Rightarrow>
               Inr (ResponseOk (JObj
                 [(''session'', JStr name),
                  (''active_target'', case ss_active_target s of None \<Rightarrow> JNull | Some a \<Rightarrow> JStr a),
                  (''tabs'', JArr (map (tab_entry (ss_active_target s)) (sort_key tb_target_id (map snd (ss_tabs s)))))]))))"

definition session_entry :: "session \<Rightarrow> json" where
  "session_entry s =
     JObj [(''name'', JStr (ss_name s)),
           (''mode'', JStr (case ss_mode s of DefaultMode \<Rightarrow> ''default'' | IsolatedMode \<Rightarrow> ''isolated'')),
           (''tabs'', JNum (of_nat (length (ss_tabs s)))), (''browser_host'', JStr (ss_browser_host s)),
           (''last_active'', JNum (of_nat (unat (ss_last_active s)))), (''disconnected'', JBool (ss_disconnected s))]"

definition build_session_list :: "daemon_state \<Rightarrow> response" where
  "build_session_list d =
     ResponseOk (JObj [(''sessions'', JArr (map session_entry (sort_key ss_name (map snd (dn_sessions d)))))])"

text \<open>
  The handler of \<open>close\<close>: \<open>reply\<close> is the browser's answer to the closing of a target, and \<open>d\<close> the state
  after the wait for it; the request is prepared in \<open>before\<close>.
\<close>

definition handle_close ::
  "u64 \<Rightarrow> string \<Rightarrow> ident option \<Rightarrow> (ident \<Rightarrow> string + unit) \<Rightarrow> daemon_state \<Rightarrow> daemon_state \<Rightarrow> response \<times> daemon_state" where
  "handle_close now name requested reply before d =
     (case the_session before name of
        None \<Rightarrow> (error_detail SessionNotFound (''session '' @ quoted name @ '' not found'') None, d)
      | Some s \<Rightarrow>
     (case check_connected s of
        Inl e \<Rightarrow> (e, d)
      | Inr _ \<Rightarrow>
     (case (case requested of Some t \<Rightarrow> Some t | None \<Rightarrow> ss_active_target s) of
        None \<Rightarrow> (error_detail SessionNoTab ''no tab to close (session has no active tab)''
                   (Some (''open a tab first with 'bk open <url>'' @ [CHR 0x27])), d)
      | Some target \<Rightarrow>
     (case map_of (ss_tabs s) target of
        None \<Rightarrow> (error_detail TargetNotFound (''target '' @ quoted target @ '' not found in session '' @ quoted name)
                   (Some ''run 'bk tabs' to see available tabs''), d)
      | Some tab \<Rightarrow>
     (case close_session_target (map_of (dn_browsers before) (ss_browser_host s) \<noteq> None) reply (close_request_of tab) of
        Inl e \<Rightarrow> (error_detail DaemonError (show_close_error e) None, d)
      | Inr _ \<Rightarrow>
          (ResponseOk (JObj [(''closed'', JStr target), (''session'', JStr name)]), snd (remove_session_tab now target d)))))))"

subsection \<open>Disconnecting from a browser\<close>

record cleanup_error =
  ce_session :: string
  ce_target_id :: "ident option"
  ce_action :: string
  ce_message :: string

record cleanup_report =
  rp_sessions :: "string list"
  rp_targets :: "ident list"
  rp_errors :: "cleanup_error list"

definition cleanup_error_from_target :: "string \<Rightarrow> close_error \<Rightarrow> cleanup_error" where
  "cleanup_error_from_target name e =
     (case e of
        CloseDisconnected target action \<Rightarrow>
          \<lparr>ce_session = name, ce_target_id = Some target, ce_action = action, ce_message = show_close_error e\<rparr>
      | CloseFailed target action _ \<Rightarrow>
          \<lparr>ce_session = name, ce_target_id = Some target, ce_action = action, ce_message = show_close_error e\<rparr>)"

definition cleanup_error_for_context :: "string \<Rightarrow> string \<Rightarrow> cleanup_error" where
  "cleanup_error_for_context name message =
     \<lparr>ce_session = name, ce_target_id = None, ce_action = ''dispose BrowserContext'', ce_message = message\<rparr>"

text \<open>The loop over the targets of one session.\<close>

definition cleanup_target ::
  "u64 \<Rightarrow> bool \<Rightarrow> (ident \<Rightarrow> string + unit) \<Rightarrow> string \<Rightarrow> close_request \<Rightarrow>
   bool \<times> cleanup_report \<times> daemon_state \<Rightarrow> bool \<times> cleanup_report \<times> daemon_state" where
  "cleanup_target now cdp reply name r acc =
     (case acc of (ok, report, d) \<Rightarrow>
        (case close_session_target cdp reply r of
           Inr _ \<Rightarrow>
             (ok, report\<lparr>rp_targets := rp_targets report @ [cr_target_id r]\<rparr>, snd (remove_session_tab now (cr_target_id r) d))
         | Inl e \<Rightarrow> (False, report\<lparr>rp_errors := rp_errors report @ [cleanup_error_from_target name e]\<rparr>, d)))"

definition cleanup_session ::
  "u64 \<Rightarrow> string \<Rightarrow> bool \<Rightarrow> (ident \<Rightarrow> string + unit) \<Rightarrow> (string \<Rightarrow> string + unit) \<Rightarrow> string \<Rightarrow>
   cleanup_report \<times> daemon_state \<Rightarrow> cleanup_report \<times> daemon_state" where
  "cleanup_session now host cdp reply dispose name acc =
     (case acc of (report, d) \<Rightarrow>
        (case the_session d name of
           None \<Rightarrow> (report, d)
         | Some s \<Rightarrow>
             if ss_browser_host s \<noteq> host then (report, d)
             else
               let (ok, report1, d1) =
                     fold (cleanup_target now cdp reply name) (map (close_request_of \<circ> snd) (ss_tabs s)) (True, report, d);
                   (ok2, report2) =
                     (if ok
                      then case dispose_session_browser_context cdp (dispose name) name s of
                             Inl e \<Rightarrow>
                               (False, report1\<lparr>rp_errors := rp_errors report1
                                                 @ [cleanup_error_for_context name (show_dispose_error e)]\<rparr>)
                           | Inr _ \<Rightarrow> (True, report1)
                      else (False, report1));
                   d2 = cancel_console_for_session name (cancel_dialogs_for_session name d1);
                   d3 = (case the_session d2 name of
                           None \<Rightarrow> d2
                         | Some s2 \<Rightarrow> put_session name (mark_disconnected s2) d2)
               in (if ok2 then report2\<lparr>rp_sessions := rp_sessions report2 @ [name]\<rparr> else report2, d3)))"

definition cleanup_browser_sessions_for_host ::
  "u64 \<Rightarrow> string \<Rightarrow> (ident \<Rightarrow> string + unit) \<Rightarrow> (string \<Rightarrow> string + unit) \<Rightarrow> daemon_state \<Rightarrow>
   cleanup_report \<times> daemon_state" where
  "cleanup_browser_sessions_for_host now host reply dispose d =
     (let d1 = cancel_browser_background_tasks host d;
          names = map fst (filter (\<lambda>(_, s). ss_browser_host s = host) (dn_sessions d1));
          cdp = map_of (dn_browsers d1) host \<noteq> None;
          (report, d2) = fold (cleanup_session now host cdp reply dispose) names
                           (\<lparr>rp_sessions = [], rp_targets = [], rp_errors = []\<rparr>, d1)
      in (report, if names \<noteq> [] then request_persist d2 else d2))"

text \<open>\<open>do_browser_disconnect\<close> for a host given as a string: \<open>None\<close> is the error of an unknown host.\<close>

definition do_browser_disconnect ::
  "u64 \<Rightarrow> string \<Rightarrow> (ident \<Rightarrow> string + unit) \<Rightarrow> (string \<Rightarrow> string + unit) \<Rightarrow> daemon_state \<Rightarrow>
   cleanup_report option \<times> daemon_state" where
  "do_browser_disconnect now host reply dispose d =
     (if map_of (dn_browsers d) host = None then (None, d)
      else case cleanup_browser_sessions_for_host now host reply dispose d of
        (report, d1) \<Rightarrow> (Some report, request_persist (d1\<lparr>dn_browsers := AList.delete host (dn_browsers d1)\<rparr>)))"

end
