(* ===== verification/DaemonLaws.thy ===== *)
theory DaemonLaws
  imports DaemonHandlers
begin

text \<open>
  The invariant of the daemon's sessions and that every operation keeps it: sessions under their own
  names, tabs under their own ids, a target in at most one session, an active target that is a tab,
  no active target only without tabs, modes and contexts that agree, and attached tabs only in the
  default session.
\<close>

declare map_of_eq_Some_iff [simp del] and Some_eq_map_of_iff [simp del]

named_theorems daemon_intros \<open>operations that keep the invariant of the daemon\<close>

subsection \<open>The invariant\<close>

definition tabs_inv :: "session_mode \<Rightarrow> (ident \<times> session_tab) list \<Rightarrow> bool" where
  "tabs_inv mode tabs \<longleftrightarrow>
     wf_map tabs \<and>
     (\<forall>k tab. map_of tabs k = Some tab \<longrightarrow>
        tb_target_id tab = k \<and> (mode = IsolatedMode \<longrightarrow> tb_ownership tab = OwnedTab))"

definition active_inv :: "ident option \<Rightarrow> (ident \<times> session_tab) list \<Rightarrow> bool" where
  "active_inv active tabs \<longleftrightarrow> (case active of None \<Rightarrow> tabs = [] | Some a \<Rightarrow> a \<in> keys tabs)"

definition session_inv :: "string \<Rightarrow> session \<Rightarrow> bool" where
  "session_inv name s \<longleftrightarrow>
     ss_name s = name \<and> tabs_inv (ss_mode s) (ss_tabs s) \<and>
     active_inv (ss_active_target s) (ss_tabs s) \<and>
     (ss_mode s = DefaultMode \<longleftrightarrow> name = ''default'') \<and>
     (ss_mode s = DefaultMode \<longleftrightarrow> ss_context_id s = None)"

definition daemon_inv :: "daemon_state \<Rightarrow> bool" where
  "daemon_inv d \<longleftrightarrow>
     wf_map (dn_sessions d) \<and>
     (\<forall>name s. the_session d name = Some s \<longrightarrow> session_inv name s) \<and>
     (\<forall>n s n' s' t. the_session d n = Some s \<longrightarrow> the_session d n' = Some s' \<longrightarrow>
        t \<in> keys (ss_tabs s) \<longrightarrow> t \<in> keys (ss_tabs s') \<longrightarrow> n = n')"

lemma daemon_inv_wf: "daemon_inv d \<Longrightarrow> wf_map (dn_sessions d)"
  by (simp add: daemon_inv_def)

lemma daemon_inv_session: "daemon_inv d \<Longrightarrow> the_session d name = Some s \<Longrightarrow> session_inv name s"
  by (simp add: daemon_inv_def)

lemma daemon_inv_owner:
  "daemon_inv d \<Longrightarrow> the_session d n = Some s \<Longrightarrow> the_session d n' = Some s' \<Longrightarrow>
   t \<in> keys (ss_tabs s) \<Longrightarrow> t \<in> keys (ss_tabs s') \<Longrightarrow> n = n'"
  unfolding daemon_inv_def by blast

lemma session_inv_tab:
  "session_inv name s \<Longrightarrow> map_of (ss_tabs s) t = Some tab \<Longrightarrow>
   tb_target_id tab = t \<and> (ss_mode s = IsolatedMode \<longrightarrow> tb_ownership tab = OwnedTab)"
  by (simp add: session_inv_def tabs_inv_def)

text \<open>The invariant reads only the sessions.\<close>

lemma daemon_inv_cong: "dn_sessions d' = dn_sessions d \<Longrightarrow> daemon_inv d' \<longleftrightarrow> daemon_inv d"
  by (simp add: daemon_inv_def)

lemma sessions_frame [simp]:
  "dn_sessions (request_persist d) = dn_sessions d"
  "dn_sessions (emit ev d) = dn_sessions d"
  "dn_sessions (cancel_console_for_session name d) = dn_sessions d"
  "dn_sessions (cancel_dialogs_for_session name d) = dn_sessions d"
  "dn_sessions (cancel_browser_background_tasks host d) = dn_sessions d"
  "dn_sessions (put_session name s d) = AList.update name s (dn_sessions d)"
  by (simp_all add: request_persist_def emit_def cancel_console_for_session_def cancel_dialogs_for_session_def
      cancel_browser_background_tasks_def put_session_def split: prod.splits)

lemma daemon_inv_frame [simp]:
  "daemon_inv (request_persist d) = daemon_inv d"
  "daemon_inv (emit ev d) = daemon_inv d"
  "daemon_inv (cancel_console_for_session name d) = daemon_inv d"
  "daemon_inv (cancel_dialogs_for_session name d) = daemon_inv d"
  "daemon_inv (cancel_browser_background_tasks host d) = daemon_inv d"
  by (rule daemon_inv_cong, simp)+

lemma find_SomeD: "find P xs = Some x \<Longrightarrow> x \<in> set xs \<and> P x"
  by (induction xs) (auto split: if_splits)

lemma find_target_owner_Some:
  assumes "wf_map (dn_sessions d)" and "find_target_owner t d = Some name"
  obtains s where "the_session d name = Some s" and "t \<in> keys (ss_tabs s)"
proof -
  obtain n s where "find (\<lambda>(_, s). t \<in> keys (ss_tabs s)) (dn_sessions d) = Some (n, s)" "n = name"
    using assms(2) by (auto simp: find_target_owner_def)
  from find_SomeD[OF this(1)] this(2) have "(n, s) \<in> set (dn_sessions d)" "t \<in> keys (ss_tabs s)" "n = name"
    by simp_all
  then show thesis using that assms(1) by (simp add: map_of_is_SomeI)
qed

lemma find_target_owner_None:
  "find_target_owner t d = None \<Longrightarrow> the_session d name = Some s \<Longrightarrow> t \<notin> keys (ss_tabs s)"
  using map_of_SomeD[of "dn_sessions d" name s]
  by (auto simp: find_target_owner_def find_None_iff)

lemma find_target_owner_iff:
  assumes "daemon_inv d"
  shows "find_target_owner t d = Some name \<longleftrightarrow> (\<exists>s. the_session d name = Some s \<and> t \<in> keys (ss_tabs s))"
proof
  assume "find_target_owner t d = Some name"
  then show "\<exists>s. the_session d name = Some s \<and> t \<in> keys (ss_tabs s)"
    by (rule find_target_owner_Some[OF daemon_inv_wf[OF assms]]) blast
next
  assume "\<exists>s. the_session d name = Some s \<and> t \<in> keys (ss_tabs s)"
  then obtain s where s: "the_session d name = Some s" "t \<in> keys (ss_tabs s)" by blast
  then obtain n where n: "find_target_owner t d = Some n"
    using find_target_owner_None[OF _ s(1)] by (cases "find_target_owner t d") auto
  obtain s' where "the_session d n = Some s'" "t \<in> keys (ss_tabs s')"
    by (rule find_target_owner_Some[OF daemon_inv_wf[OF assms] n])
  then have "n = name" using daemon_inv_owner[OF assms _ s(1) _ s(2)] by simp
  with n show "find_target_owner t d = Some name" by simp
qed

text \<open>Writing a session keeps the invariant if the session is well-formed and its targets are its own or new.\<close>

lemma daemon_inv_put:
  assumes inv: "daemon_inv d" and s: "session_inv name s"
    and own: "\<And>t. t \<in> keys (ss_tabs s) \<Longrightarrow>
      (\<exists>s0. the_session d name = Some s0 \<and> t \<in> keys (ss_tabs s0)) \<or> find_target_owner t d = None"
  shows "daemon_inv (put_session name s d)"
proof -
  have apart: False if "the_session d n = Some s'" "t \<in> keys (ss_tabs s')" "t \<in> keys (ss_tabs s)" "n \<noteq> name" for n s' t
    using own[OF that(3)] find_target_owner_None[OF _ that(1)] daemon_inv_owner[OF inv that(1) _ that(2)] that(2,4)
    by blast
  show ?thesis
    unfolding daemon_inv_def
  proof (intro conjI allI impI)
    show "wf_map (dn_sessions (put_session name s d))" using daemon_inv_wf[OF inv] by simp
    show "session_inv n s'" if "the_session (put_session name s d) n = Some s'" for n s'
      using that s daemon_inv_session[OF inv] by (auto split: if_splits)
    show "n = n'" if "the_session (put_session name s d) n = Some a" "the_session (put_session name s d) n' = Some b"
      "t \<in> keys (ss_tabs a)" "t \<in> keys (ss_tabs b)" for n n' a b t
      using that apart daemon_inv_owner[OF inv, of n a n' b t]
      by (auto simp del: keys_iff_map_of split: if_splits)
  qed
qed

text \<open>In particular if it keeps the tabs of the session or drops some.\<close>

lemma daemon_inv_put_sub:
  assumes "daemon_inv d" and "the_session d name = Some s0" and "session_inv name s"
    and "keys (ss_tabs s) \<subseteq> keys (ss_tabs s0)"
  shows "daemon_inv (put_session name s d)"
  using assms by (intro daemon_inv_put) auto

lemma daemon_inv_delete:
  assumes "daemon_inv d"
  shows "daemon_inv (d\<lparr>dn_sessions := AList.delete name (dn_sessions d)\<rparr>)"
  using assms unfolding daemon_inv_def by (auto split: if_splits)

subsection \<open>Sessions\<close>

lemma session_inv_touch [simp]: "session_inv name (touch now s) = session_inv name s"
  by (simp add: session_inv_def touch_def)

lemma session_inv_update [simp]:
  "session_inv name (s\<lparr>ss_reservations := n\<rparr>) = session_inv name s"
  "session_inv name (s\<lparr>ss_disconnected := b\<rparr>) = session_inv name s"
  "session_inv name (s\<lparr>ss_browser_host := host\<rparr>) = session_inv name s"
  "session_inv name (mark_disconnected s) = session_inv name s"
  by (simp_all add: session_inv_def mark_disconnected_def)

lemma touch_tabs [simp]: "ss_tabs (touch now s) = ss_tabs s" "ss_mode (touch now s) = ss_mode s"
  "ss_reservations (touch now s) = ss_reservations s" "ss_context_id (touch now s) = ss_context_id s"
  by (simp_all add: touch_def)

lemma session_inv_new:
  "name = ''default'' \<Longrightarrow> session_inv name (new_default_session now host)"
  "name \<noteq> ''default'' \<Longrightarrow> session_inv name (new_isolated_session now name host ctx)"
  by (simp_all add: session_inv_def tabs_inv_def active_inv_def new_default_session_def new_isolated_session_def)

lemma session_inv_with:
  "session_inv name s \<Longrightarrow> tabs_inv (ss_mode s) tabs \<Longrightarrow> active_inv active tabs \<Longrightarrow>
   session_inv name (s\<lparr>ss_tabs := tabs, ss_active_target := active\<rparr>)"
  by (auto simp: session_inv_def)

lemma session_inv_insert:
  assumes "session_inv name s" and "ss_mode s = DefaultMode \<or> tb_ownership tab = OwnedTab"
  shows "session_inv name
           (s\<lparr>ss_tabs := AList.update (tb_target_id tab) tab (ss_tabs s), ss_active_target := Some (tb_target_id tab)\<rparr>)"
  using assms by (auto simp: session_inv_def tabs_inv_def active_inv_def split: if_splits)

text \<open>Changing a tab of a session in place.\<close>

lemma session_inv_change:
  assumes "session_inv name s" and "map_of (ss_tabs s) t = Some tab"
    and "tb_target_id tab' = tb_target_id tab" and "tb_ownership tab' = tb_ownership tab"
  shows "session_inv name (s\<lparr>ss_tabs := AList.update t tab' (ss_tabs s)\<rparr>)"
proof -
  have "ss_tabs s \<noteq> []" using assms(2) by auto
  then show ?thesis
    using assms(1,3,4) session_inv_tab[OF assms(1,2)]
    by (auto simp: session_inv_def tabs_inv_def active_inv_def split: if_splits option.splits)
qed

lemma any_tab_cases:
  "active_inv (any_tab m) m"
  by (auto simp: active_inv_def any_tab_def split: list.splits)

lemma session_inv_remove:
  assumes "session_inv name s"
  shows "session_inv name
           (s\<lparr>ss_tabs := AList.delete t (ss_tabs s),
              ss_active_target := (if ss_active_target s = Some t then any_tab (AList.delete t (ss_tabs s))
                                   else ss_active_target s)\<rparr>)"
proof -
  have tabs: "tabs_inv (ss_mode s) (AList.delete t (ss_tabs s))"
    using assms by (auto simp: session_inv_def tabs_inv_def split: if_splits)
  show ?thesis
  proof (cases "ss_active_target s = Some t")
    case True
    then show ?thesis
      using assms tabs any_tab_cases[of "AList.delete t (ss_tabs s)"] by (auto simp: session_inv_def)
  next
    case False
    then have "active_inv (ss_active_target s) (AList.delete t (ss_tabs s))"
      using assms by (auto simp: session_inv_def active_inv_def split: option.splits)
    with False show ?thesis using assms tabs by (auto simp: session_inv_def)
  qed
qed

text \<open>Keeping some of the tabs under a new CDP session, with another active one.\<close>

lemma session_inv_reattach:
  assumes "session_inv name s"
  shows "session_inv name (fst (reattach_session_tabs reattach s))"
proof -
  let ?f = "\<lambda>tab. case reattach (tb_target_id tab) of Some x \<Rightarrow> tab\<lparr>tb_cdp_session_id := x\<rparr> | None \<Rightarrow> tab"
  let ?kept = "filter (\<lambda>(k, tab). reattach (tb_target_id tab) \<noteq> None) (ss_tabs s)"
  let ?tabs = "map (\<lambda>(k, tab). (k, ?f tab)) ?kept"
  let ?active = "case ss_active_target s of
      Some a \<Rightarrow> if a \<in> keys ?tabs then Some a else (case sort (map fst ?tabs) of [] \<Rightarrow> None | k # _ \<Rightarrow> Some k)
    | None \<Rightarrow> (case sort (map fst ?tabs) of [] \<Rightarrow> None | k # _ \<Rightarrow> Some k)"
  have wf: "wf_map (ss_tabs s)" using assms by (simp add: session_inv_def tabs_inv_def)
  have tabs: "tabs_inv (ss_mode s) ?tabs"
  proof -
    have "wf_map ?tabs" using wf_map_filter[OF wf] by (simp add: comp_def case_prod_unfold)
    moreover have "tb_target_id tab = k \<and> (ss_mode s = IsolatedMode \<longrightarrow> tb_ownership tab = OwnedTab)"
      if h: "map_of ?tabs k = Some tab" for k tab
    proof -
      obtain p where p: "p \<in> set ?kept" "(k, tab) = (\<lambda>(k, tab). (k, ?f tab)) p"
        using map_of_SomeD[OF h] unfolding set_map by (elim imageE)
      obtain k0 tab0 where pair: "p = (k0, tab0)" by (cases p)
      have "(k0, tab0) \<in> set (ss_tabs s)" using p(1) unfolding pair set_filter by blast
      moreover have "k = k0" "tab = ?f tab0" using p(2) unfolding pair prod.case prod.inject by blast+
      ultimately have t0: "(k, tab0) \<in> set (ss_tabs s)" and t: "tab = ?f tab0" by blast+
      have "map_of (ss_tabs s) k = Some tab0" by (rule map_of_is_SomeI[OF wf t0])
      note tab0 = session_inv_tab[OF assms this]
      have "tb_target_id (?f tab0) = tb_target_id tab0" "tb_ownership (?f tab0) = tb_ownership tab0"
        by (simp_all split: option.split)
      with tab0 show ?thesis unfolding t by metis
    qed
    ultimately show ?thesis unfolding tabs_inv_def by blast
  qed
  have first: "active_inv (case sort (map fst m) of [] \<Rightarrow> None | k # _ \<Rightarrow> Some k) m"
    for m :: "(ident \<times> session_tab) list"
  proof (cases "sort (map fst m)")
    case Nil
    then have "length (map fst m) = 0" by (metis length_sort list.size(3))
    with Nil show ?thesis by (simp add: active_inv_def)
  next
    case (Cons k ks)
    then have "k \<in> set (map fst m)" by (metis list.set_intros(1) set_sort)
    with Cons show ?thesis by (simp add: active_inv_def)
  qed
  have active: "active_inv ?active ?tabs"
    using first[of ?tabs] by (cases "ss_active_target s") (simp_all add: active_inv_def)
  show ?thesis
    unfolding reattach_session_tabs_def Let_def fst_conv by (rule session_inv_with[OF assms tabs active])
qed

lemma keys_reattach: "keys (ss_tabs (fst (reattach_session_tabs reattach s))) \<subseteq> keys (ss_tabs s)"
proof -
  have "keys (map (\<lambda>(k, tab). (k, f tab)) (filter P m)) \<subseteq> keys m" for f P and m :: "(ident \<times> session_tab) list"
    by (induction m) auto
  then show ?thesis by (simp add: reattach_session_tabs_def Let_def)
qed

lemma reattach_keeps [simp]:
  "ss_mode (fst (reattach_session_tabs reattach s)) = ss_mode s"
  by (simp add: reattach_session_tabs_def Let_def)

subsection \<open>The operations keep the invariant\<close>

lemma daemon_inv_insert_tab:
  assumes "daemon_inv d" and "the_session d name = Some s0" and "ss_tabs s = ss_tabs s0"
    and "session_inv name s" and "find_target_owner (tb_target_id tab) d = None"
    and "ss_mode s = DefaultMode \<or> tb_ownership tab = OwnedTab"
  shows "daemon_inv (insert_tab now name tab s d)"
proof -
  have "session_inv name (touch now (s\<lparr>ss_tabs := AList.update (tb_target_id tab) tab (ss_tabs s),
                                        ss_active_target := Some (tb_target_id tab)\<rparr>))"
    using session_inv_insert[OF assms(4,6)] by simp
  then show ?thesis
    unfolding insert_tab_def daemon_inv_frame
    by (rule daemon_inv_put[OF assms(1)]) (use assms(2,3,5) in auto)
qed

lemma register_initialized_inv [daemon_intros]:
  assumes "daemon_inv d" and "tb_ownership tab = OwnedTab \<or> name = ''default''"
  shows "daemon_inv (snd (register_initialized_session_tab now name tab d))"
proof (cases "find_target_owner (tb_target_id tab) d")
  case (Some n)
  then show ?thesis using assms(1) by (simp add: register_initialized_session_tab_def)
next
  case None
  show ?thesis
  proof (cases "the_session d name")
    case None
    with \<open>find_target_owner (tb_target_id tab) d = None\<close> show ?thesis
      using assms(1) by (simp add: register_initialized_session_tab_def)
  next
    case (Some s)
    have inv: "session_inv name s" by (rule daemon_inv_session[OF assms(1) Some])
    then have "ss_mode s = DefaultMode \<or> tb_ownership tab = OwnedTab"
      using assms(2) by (auto simp: session_inv_def)
    with daemon_inv_insert_tab[OF assms(1) Some refl inv None]
    show ?thesis using None Some by (simp add: register_initialized_session_tab_def)
  qed
qed

lemma register_session_tab_state:
  "snd (register_session_tab now name tab d) = snd (register_initialized_session_tab now name tab d)"
  by (auto simp: register_session_tab_def split: prod.splits sum.splits registration.splits)

lemma daemon_inv_reservations:
  assumes "daemon_inv d" and "the_session d name = Some s"
  shows "daemon_inv (put_session name (s\<lparr>ss_reservations := n\<rparr>) d)"
  using assms by (intro daemon_inv_put_sub) (auto intro: daemon_inv_session)

lemma reserve_inv [daemon_intros]: "daemon_inv d \<Longrightarrow> daemon_inv (snd (reserve_session_tab name limit d))"
  by (auto simp: reserve_session_tab_def daemon_inv_reservations split: option.splits)

lemma release_inv [daemon_intros]: "daemon_inv d \<Longrightarrow> daemon_inv (release_session_tab_reservation name d)"
  by (auto simp: release_session_tab_reservation_def daemon_inv_reservations split: option.splits)

lemma register_reserved_inv [daemon_intros]:
  assumes "daemon_inv d" and "tb_ownership tab = OwnedTab"
  shows "daemon_inv (snd (register_reserved_session_tab now name tab d))"
proof (cases "the_session d name")
  case None
  then show ?thesis using assms(1) by (simp add: register_reserved_session_tab_def)
next
  case (Some s)
  have inv: "session_inv name (s\<lparr>ss_reservations := ss_reservations s - 1\<rparr>)"
    using daemon_inv_session[OF assms(1) Some] by simp
  show ?thesis
  proof (cases "find_target_owner (tb_target_id tab) d")
    case None
    with daemon_inv_insert_tab[OF assms(1) Some _ inv None] assms(2) Some show ?thesis
      by (simp add: register_reserved_session_tab_def Let_def)
  next
    case owner: (Some n)
    with Some daemon_inv_reservations[OF assms(1) Some] show ?thesis
      by (simp add: register_reserved_session_tab_def Let_def)
  qed
qed

lemma remove_session_tab_inv [daemon_intros]:
  assumes "daemon_inv d"
  shows "daemon_inv (snd (remove_session_tab now target d))"
proof -
  have "daemon_inv (snd (remove_session_tab now target d))"
    if s: "find_target_owner target d = Some name" "the_session d name = Some s" "map_of (ss_tabs s) target = Some tab"
    for name s tab
  proof -
    let ?s = "s\<lparr>ss_tabs := AList.delete target (ss_tabs s),
                ss_active_target := (if ss_active_target s = Some target then any_tab (AList.delete target (ss_tabs s))
                                     else ss_active_target s)\<rparr>"
    have "session_inv name (touch now ?s)"
      using session_inv_remove[OF daemon_inv_session[OF assms s(2)]] by simp
    moreover have "keys (ss_tabs (touch now ?s)) \<subseteq> keys (ss_tabs s)" by auto
    ultimately have inv: "daemon_inv (put_session name (touch now ?s) d)"
      by (rule daemon_inv_put_sub[OF assms s(2)])
    have "dn_sessions (snd (remove_session_tab now target d)) = dn_sessions (put_session name (touch now ?s) d)"
      using s by (simp add: remove_session_tab_def Let_def split: prod.split)
    then show ?thesis using inv daemon_inv_cong by blast
  qed
  then show ?thesis
    using assms by (auto simp: remove_session_tab_def split: option.split)
qed

text \<open>Changing a tab of a session in place.\<close>

lemma daemon_inv_change:
  assumes "daemon_inv d" and "the_session d name = Some s" and "map_of (ss_tabs s) t = Some tab"
    and "tb_target_id tab' = tb_target_id tab" and "tb_ownership tab' = tb_ownership tab"
  shows "daemon_inv (put_session name (s\<lparr>ss_tabs := AList.update t tab' (ss_tabs s)\<rparr>) d)"
    and "daemon_inv (put_session name (touch now (s\<lparr>ss_tabs := AList.update t tab' (ss_tabs s)\<rparr>)) d)"
proof -
  have "session_inv name (s\<lparr>ss_tabs := AList.update t tab' (ss_tabs s)\<rparr>)"
    using session_inv_change[OF daemon_inv_session[OF assms(1,2)] assms(3-5)] .
  moreover have "keys (AList.update t tab' (ss_tabs s)) = keys (ss_tabs s)"
    using map_of_in_keys[OF assms(3)] by (simp only: keys_update insert_absorb)
  ultimately show "daemon_inv (put_session name (s\<lparr>ss_tabs := AList.update t tab' (ss_tabs s)\<rparr>) d)"
    and "daemon_inv (put_session name (touch now (s\<lparr>ss_tabs := AList.update t tab' (ss_tabs s)\<rparr>)) d)"
    by (simp_all add: daemon_inv_put_sub[OF assms(1,2)])
qed

lemma update_session_tab_info_inv [daemon_intros]:
  "daemon_inv d \<Longrightarrow> daemon_inv (snd (update_session_tab_info now target url title d))"
  by (auto simp: update_session_tab_info_def daemon_inv_change split: option.split)

lemma record_console_entry_inv [daemon_intros]:
  "daemon_inv d \<Longrightarrow> daemon_inv (snd (record_console_entry name target e d))"
  by (auto simp: record_console_entry_def daemon_inv_change split: option.split)

text \<open>Sequences of removals.\<close>

lemma close_targets_inv [daemon_intros]:
  assumes "daemon_inv d"
  shows "daemon_inv (snd (close_targets now cdp reply s d))"
proof -
  have "daemon_inv (snd (fold (close_one now cdp reply) rs acc))" if "daemon_inv (snd acc)" for rs acc
    using that
  proof (induction rs arbitrary: acc)
    case (Cons r rs)
    have "daemon_inv (snd (close_one now cdp reply r acc))"
      using Cons.prems by (auto simp: close_one_def remove_session_tab_inv split: prod.splits sum.splits)
    then show ?case using Cons.IH by simp
  qed simp
  then show ?thesis using assms by (simp add: close_targets_def)
qed

lemma handle_session_close_inv [daemon_intros]:
  assumes "daemon_inv d"
  shows "daemon_inv (snd (handle_session_close now name reply dispose d))"
proof -
  have gone: "daemon_inv ((cancel_dialogs_for_session name d')\<lparr>dn_sessions := AList.delete name (dn_sessions d')\<rparr>)"
    if "daemon_inv d'" for d'
    using daemon_inv_delete[of "cancel_dialogs_for_session name d'"] that by simp
  have "daemon_inv (snd (handle_session_close now name reply dispose d))" if s: "the_session d name = Some s" for s
  proof (cases "close_targets now (map_of (dn_browsers d) (ss_browser_host s) \<noteq> None) reply s d")
    case (Pair errors d1)
    have d1: "daemon_inv d1"
      using close_targets_inv[OF assms, of now "map_of (dn_browsers d) (ss_browser_host s) \<noteq> None" reply s] Pair by simp
    show ?thesis
      using s Pair d1 gone[OF d1]
      by (auto simp: handle_session_close_def Let_def split: list.split sum.split)
  qed
  then show ?thesis
    using assms by (cases "the_session d name") (auto simp: handle_session_close_def)
qed

lemma cleanup_idle_session_inv [daemon_intros]:
  assumes "daemon_inv d"
  shows "daemon_inv (snd (cleanup_idle_session now at_end timeout name reply dispose d))"
proof -
  have gone: "daemon_inv ((cancel_dialogs_for_session name d')\<lparr>dn_sessions := AList.delete name (dn_sessions d')\<rparr>)"
    if "daemon_inv d'" for d'
    using daemon_inv_delete[of "cancel_dialogs_for_session name d'"] that by simp
  have touched: "daemon_inv (put_session name (touch at_end s1) d')"
    if "daemon_inv d'" "the_session d' name = Some s1" for d' s1
    using that by (intro daemon_inv_put_sub) (auto intro: daemon_inv_session)
  have "daemon_inv (snd (cleanup_idle_session now at_end timeout name reply dispose d))"
    if s: "the_session d name = Some s" for s
  proof (cases "close_targets at_end (map_of (dn_browsers d) (ss_browser_host s) \<noteq> None) reply s d")
    case (Pair errors d1)
    have d1: "daemon_inv d1"
      using close_targets_inv[OF assms, of at_end "map_of (dn_browsers d) (ss_browser_host s) \<noteq> None" reply s] Pair by simp
    show ?thesis
      using s Pair d1 gone[OF d1] touched[OF d1] assms
      by (auto simp: cleanup_idle_session_def Let_def split: list.split sum.split option.split)
  qed
  then show ?thesis
    using assms by (cases "the_session d name") (auto simp: cleanup_idle_session_def)
qed

text \<open>Disconnection.\<close>

lemma daemon_inv_mark:
  assumes "daemon_inv d" and "the_session d name = Some s"
  shows "daemon_inv (put_session name (mark_disconnected s) d)"
  by (rule daemon_inv_put_sub[OF assms]) (use daemon_inv_session[OF assms] in \<open>simp_all add: mark_disconnected_def\<close>)

lemma disconnect_session_inv [daemon_intros]: "daemon_inv d \<Longrightarrow> daemon_inv (disconnect_session host name d)"
  by (auto simp: disconnect_session_def daemon_inv_mark split: option.split)

lemma handle_browser_disconnect_inv [daemon_intros]:
  assumes "daemon_inv d"
  shows "daemon_inv (handle_browser_disconnect host cdp d)"
proof -
  have "daemon_inv (fold (disconnect_session host) names d')" if "daemon_inv d'" for names d'
    using that by (induction names arbitrary: d') (simp_all add: disconnect_session_inv)
  moreover have "daemon_inv (cancel_browser_background_tasks host (d\<lparr>dn_browsers := AList.delete host (dn_browsers d)\<rparr>))"
    using assms by (simp add: daemon_inv_def)
  ultimately show ?thesis
    using assms by (simp add: handle_browser_disconnect_def disconnect_sessions_for_host_def)
qed

text \<open>Binding.\<close>

lemma reconnect_inv [daemon_intros]:
  assumes "daemon_inv d"
  shows "daemon_inv (snd (reconnect_existing_session now name host b d))"
proof (cases "the_session d name")
  case None
  then show ?thesis using assms by (simp add: reconnect_existing_session_def)
next
  case (Some s)
  have s: "session_inv name s" by (rule daemon_inv_session[OF assms Some])
  have bound: "daemon_inv (put_session name (touch now (s1\<lparr>ss_browser_host := host, ss_disconnected := False\<rparr>)) d)"
    if "session_inv name s1" "keys (ss_tabs s1) \<subseteq> keys (ss_tabs s)" for s1
    using that by (intro daemon_inv_put_sub[OF assms Some]) simp_all
  have fresh: "session_inv name (s\<lparr>ss_context_id := Some ctx, ss_tabs := [], ss_active_target := None\<rparr>)"
    if "ss_mode s \<noteq> DefaultMode" for ctx
    using s that by (auto simp: session_inv_def tabs_inv_def active_inv_def)
  show ?thesis
    using Some assms bound[OF session_inv_reattach[OF s] keys_reattach] bound[OF fresh]
    by (auto simp: reconnect_existing_session_def Let_def case_prod_unfold map_sum_def split: sum.splits)
qed

lemma bind_session_inv:
  assumes "daemon_inv d"
  shows "daemon_inv (snd (bind_session now limit name host b d))"
proof -
  have new: "daemon_inv (put_session name s d)" if "session_inv name s" "ss_tabs s = []" for s
    using that by (intro daemon_inv_put[OF assms]) simp_all
  have "daemon_inv (put_session ''default'' (new_default_session now host) d)" if "name = ''default''"
    using new[of "new_default_session now host"] session_inv_new(1)[OF that] that by (simp add: new_default_session_def)
  moreover have "daemon_inv (put_session name (new_isolated_session now name host ctx) d)" if "name \<noteq> ''default''" for ctx
    using new[OF session_inv_new(2)[OF that]] by (simp add: new_isolated_session_def)
  moreover note reconnect_inv[OF assms, of now name host b]
  ultimately show ?thesis
    using assms unfolding bind_session_def by (auto split: sum.split option.split prod.split)
qed

lemma bind_session_to_browser_inv [daemon_intros]:
  assumes "daemon_inv d"
  shows "daemon_inv (snd (bind_session_to_browser now limit name host cdp gone b d))"
  using bind_session_inv[OF assms, of now limit name host b] assms
  unfolding bind_session_to_browser_def by (auto split: sum.split option.split prod.split)

end
