(* ===== verification/DaemonSafety.thy ===== *)
theory DaemonSafety
  imports DaemonLaws
begin

text \<open>
  The runs of the daemon: an inductive step relation over the operations, with the opens and the
  attaches that wait for the browser and the lock of a session as a guard, its invariant, and the
  properties of opening, resolving, disconnecting and watching.
\<close>

declare map_of_eq_Some_iff [simp del] and Some_eq_map_of_iff [simp del]

subsection \<open>The handlers keep the invariant\<close>

lemma handle_target_created_inv [daemon_intros]:
  assumes "daemon_inv d"
  shows "daemon_inv (snd (handle_target_created now host info attach prepare before d))"
proof -
  have "daemon_inv (snd (register_initialized_session_tab now name
          ((new_owned_tab (ti_target_id info) (ti_url info) (ti_title info))\<lparr>tb_cdp_session_id := sid\<rparr>) d))" for name sid
    by (rule register_initialized_inv[OF assms]) (simp add: new_owned_tab_def)
  then show ?thesis
    using assms unfolding handle_target_created_def
    by (auto simp: Let_def case_prod_unfold split: option.split sum.split registration.split)
qed

lemma open_begin_inv [daemon_intros]:
  assumes "daemon_inv d"
  shows "daemon_inv (snd (open_begin name limit d))"
  using reserve_inv[OF assms, of name limit] release_inv
  unfolding open_begin_def by (auto simp: case_prod_unfold split: option.split sum.split)

lemma open_finish_inv [daemon_intros]:
  assumes "daemon_inv d"
  shows "daemon_inv (snd (open_finish now name url outcome detach close d))"
proof -
  have "daemon_inv (snd (register_reserved_session_tab now name ((new_owned_tab target url [])\<lparr>tb_cdp_session_id := sid\<rparr>) d))"
    for target sid
    by (rule register_reserved_inv[OF assms]) (simp add: new_owned_tab_def)
  then show ?thesis
    using release_inv[OF assms] unfolding open_finish_def
    by (auto simp: case_prod_unfold split: open_outcome.split sum.split)
qed

lemma attach_begin_default:
  assumes "daemon_inv d" and "attach_begin name d = Inr x"
  shows "name = ''default''"
proof -
  obtain s where "the_session d name = Some s" "ss_mode s = DefaultMode"
    using assms(2) by (auto simp: attach_begin_def validate_attach_session_mode_def split: option.splits sum.splits if_splits)
  then show ?thesis using daemon_inv_session[OF assms(1)] by (auto simp: session_inv_def)
qed

lemma attach_finish_inv [daemon_intros]:
  assumes "daemon_inv d"
  shows "daemon_inv (snd (attach_finish now ''default'' c attach prepare d))"
proof -
  have "daemon_inv (snd (register_session_tab now ''default'' tab d))" for tab
    unfolding register_session_tab_state by (rule register_initialized_inv[OF assms]) simp
  then show ?thesis
    using assms unfolding attach_finish_def by (auto simp: case_prod_unfold split: sum.split)
qed

lemma handle_close_inv [daemon_intros]:
  "daemon_inv d \<Longrightarrow> daemon_inv (snd (handle_close now name requested reply before d))"
  unfolding handle_close_def by (auto simp: remove_session_tab_inv split: option.split sum.split)

lemma cleanup_session_inv [daemon_intros]:
  assumes "daemon_inv (snd acc)"
  shows "daemon_inv (snd (cleanup_session now host cdp reply dispose name acc))"
proof -
  obtain report d where acc: "acc = (report, d)" by (cases acc)
  have targets: "daemon_inv (snd (snd (fold (cleanup_target now cdp reply name) rs a)))" if "daemon_inv (snd (snd a))" for rs a
    using that
  proof (induction rs arbitrary: a)
    case (Cons r rs)
    have "daemon_inv (snd (snd (cleanup_target now cdp reply name r a)))"
      using Cons.prems by (auto simp: cleanup_target_def remove_session_tab_inv split: prod.splits sum.splits)
    then show ?case using Cons.IH by simp
  qed simp
  have "daemon_inv (snd (cleanup_session now host cdp reply dispose name (report, d)))"
    if s: "the_session d name = Some s" for s
  proof -
    obtain ok report1 d1 where f:
      "fold (cleanup_target now cdp reply name) (map (close_request_of \<circ> snd) (ss_tabs s)) (True, report, d) = (ok, report1, d1)"
      by (metis prod_cases3)
    have "daemon_inv d1"
      using targets[of "(True, report, d)" "map (close_request_of \<circ> snd) (ss_tabs s)"] assms f acc by simp
    then have "daemon_inv (cancel_console_for_session name (cancel_dialogs_for_session name d1))" by simp
    from this daemon_inv_mark[OF this] show ?thesis
      using s f assms acc by (auto simp: cleanup_session_def Let_def split: option.split sum.split if_split)
  qed
  then show ?thesis using assms acc by (cases "the_session d name") (auto simp: cleanup_session_def)
qed

lemma do_browser_disconnect_inv [daemon_intros]:
  assumes "daemon_inv d"
  shows "daemon_inv (snd (do_browser_disconnect now host reply dispose d))"
proof -
  have loop: "daemon_inv (snd (fold (cleanup_session now host cdp reply dispose) names acc))" if "daemon_inv (snd acc)"
    for cdp names acc
    using that by (induction names arbitrary: acc) (simp_all add: cleanup_session_inv)
  have "daemon_inv (snd (cleanup_browser_sessions_for_host now host reply dispose d))"
    using loop assms by (simp add: cleanup_browser_sessions_for_host_def Let_def case_prod_unfold)
  then have "daemon_inv ((snd (cleanup_browser_sessions_for_host now host reply dispose d))\<lparr>dn_browsers := m\<rparr>)" for m
    by (simp add: daemon_inv_def)
  then show ?thesis
    using assms by (simp add: do_browser_disconnect_def case_prod_unfold)
qed

subsection \<open>Reservations\<close>

text \<open>The reserved tabs of a session, none for a session that is not there.\<close>

definition reserved :: "daemon_state \<Rightarrow> string \<Rightarrow> nat" where
  "reserved d name = (case the_session d name of None \<Rightarrow> 0 | Some s \<Rightarrow> ss_reservations s)"

named_theorems reserved_simps \<open>the reservations after an operation\<close>

lemma reserved_cong: "dn_sessions d' = dn_sessions d \<Longrightarrow> reserved d' = reserved d"
  by (simp add: reserved_def fun_eq_iff)

lemma reserved_frame [reserved_simps, simp]:
  "reserved (request_persist d) = reserved d"
  "reserved (emit ev d) = reserved d"
  "reserved (cancel_console_for_session name d) = reserved d"
  "reserved (cancel_dialogs_for_session name d) = reserved d"
  "reserved (cancel_browser_background_tasks host d) = reserved d"
  by (rule reserved_cong, simp)+

lemma reserved_put [reserved_simps]: "reserved (put_session name s d) = (reserved d)(name := ss_reservations s)"
  by (auto simp: reserved_def fun_eq_iff)

lemma reserved_put_same: "the_session d name = Some s0 \<Longrightarrow> ss_reservations s = ss_reservations s0 \<Longrightarrow>
   reserved (put_session name s d) = reserved d"
  by (auto simp: reserved_def fun_eq_iff)

lemma reserved_same: "the_session d name = Some s \<Longrightarrow> (reserved d)(name := ss_reservations s) = reserved d"
  by (auto simp: reserved_def fun_eq_iff)

lemma reserved_delete [reserved_simps]:
  "reserved (d\<lparr>dn_sessions := AList.delete name (dn_sessions d)\<rparr>) = (reserved d)(name := 0)"
  by (auto simp: reserved_def fun_eq_iff)

lemma reserved_insert_tab [reserved_simps]:
  "reserved (insert_tab now name tab s d) = (reserved d)(name := ss_reservations s)"
  by (simp add: insert_tab_def reserved_put touch_def)

lemma reserved_register [reserved_simps]:
  "reserved (snd (register_initialized_session_tab now name tab d)) = reserved d"
  by (auto simp: register_initialized_session_tab_def reserved_insert_tab reserved_same split: option.split)

lemma reserved_reserve [reserved_simps]:
  "reserved (snd (reserve_session_tab name limit d)) =
     (if \<exists>x. fst (reserve_session_tab name limit d) = Inr x
      then (reserved d)(name := sat_add (reserved d name) 1) else reserved d)"
  by (auto simp: reserve_session_tab_def reserved_put split: option.split) (simp add: reserved_def)

lemma reserved_release [reserved_simps]:
  "reserved (release_session_tab_reservation name d) = (reserved d)(name := reserved d name - 1)"
  by (auto simp: release_session_tab_reservation_def reserved_put fun_eq_iff split: option.split)
     (simp_all add: reserved_def)

lemma reserved_register_reserved [reserved_simps]:
  "reserved (snd (register_reserved_session_tab now name tab d)) = (reserved d)(name := reserved d name - 1)"
  by (auto simp: register_reserved_session_tab_def Let_def reserved_put reserved_insert_tab fun_eq_iff split: option.split)
     (simp_all add: reserved_def)

lemma reserved_remove [reserved_simps]: "reserved (snd (remove_session_tab now target d)) = reserved d"
proof -
  have "reserved (put_session name s' d') = reserved d"
    if "the_session d name = Some s" "dn_sessions d' = dn_sessions d" "ss_reservations s' = ss_reservations s"
    for name s s' d'
    using that by (auto simp: reserved_def fun_eq_iff)
  then show ?thesis by (auto simp: remove_session_tab_def Let_def split: option.split prod.split)
qed

lemma reserved_update [reserved_simps]: "reserved (snd (update_session_tab_info now target url title d)) = reserved d"
  by (auto simp: update_session_tab_info_def touch_def intro!: reserved_put_same split: option.split)

lemma reserved_console [reserved_simps]: "reserved (snd (record_console_entry name target e d)) = reserved d"
  by (auto simp: record_console_entry_def intro!: reserved_put_same split: option.split)

lemma reserved_close_targets [reserved_simps]: "reserved (snd (close_targets now cdp reply s d)) = reserved d"
proof -
  have "reserved (snd (fold (close_one now cdp reply) rs acc)) = reserved (snd acc)" for rs acc
  proof (induction rs arbitrary: acc)
    case (Cons r rs)
    have "reserved (snd (close_one now cdp reply r acc)) = reserved (snd acc)"
      by (auto simp: close_one_def reserved_remove split: prod.splits sum.splits)
    then show ?case using Cons.IH by simp
  qed simp
  then show ?thesis by (simp add: close_targets_def)
qed

lemma reserved_session_close:
  assumes "reserved d name = 0"
  shows "reserved (snd (handle_session_close now name reply dispose d)) = reserved d"
proof (cases "the_session d name")
  case None
  then show ?thesis by (simp add: handle_session_close_def)
next
  case (Some s)
  obtain errors d1 where c: "close_targets now (map_of (dn_browsers d) (ss_browser_host s) \<noteq> None) reply s d = (errors, d1)"
    by (cases "close_targets now (map_of (dn_browsers d) (ss_browser_host s) \<noteq> None) reply s d")
  then have r: "reserved d1 = reserved d"
    using reserved_close_targets[of now "map_of (dn_browsers d) (ss_browser_host s) \<noteq> None" reply s d] by simp
  have "reserved ((cancel_dialogs_for_session name d1)\<lparr>dn_sessions := AList.delete name (dn_sessions d1)\<rparr>) = reserved d"
    using reserved_delete[where d = "cancel_dialogs_for_session name d1" and name = name] r assms by (simp add: fun_eq_iff)
  then show ?thesis
    using Some c r by (auto simp: handle_session_close_def Let_def split: list.split sum.split)
qed

lemma reserved_cleanup_idle:
  assumes "reserved d name = 0"
  shows "reserved (snd (cleanup_idle_session now at_end timeout name reply dispose d)) = reserved d"
proof (cases "the_session d name")
  case None
  then show ?thesis by (simp add: cleanup_idle_session_def)
next
  case (Some s)
  obtain errors d1 where c: "close_targets at_end (map_of (dn_browsers d) (ss_browser_host s) \<noteq> None) reply s d = (errors, d1)"
    by (cases "close_targets at_end (map_of (dn_browsers d) (ss_browser_host s) \<noteq> None) reply s d")
  then have r: "reserved d1 = reserved d"
    using reserved_close_targets[of at_end "map_of (dn_browsers d) (ss_browser_host s) \<noteq> None" reply s d] by simp
  have gone: "reserved ((cancel_dialogs_for_session name d1)\<lparr>dn_sessions := AList.delete name (dn_sessions d1)\<rparr>) = reserved d"
    using reserved_delete[where d = "cancel_dialogs_for_session name d1" and name = name] r assms by (simp add: fun_eq_iff)
  have touched: "reserved (put_session name (touch at_end s1) d1) = reserved d" if "the_session d1 name = Some s1" for s1
    using reserved_put_same[OF that, of "touch at_end s1"] r by simp
  show ?thesis
    using Some c r gone touched by (auto simp: cleanup_idle_session_def Let_def split: list.split sum.split option.split)
qed

lemma reserved_mark: "the_session d name = Some s \<Longrightarrow> reserved (put_session name (mark_disconnected s) d) = reserved d"
  by (rule reserved_put_same) (simp_all add: mark_disconnected_def)

lemma reserved_disconnect [reserved_simps]: "reserved (handle_browser_disconnect host cdp d) = reserved d"
proof -
  have "reserved (disconnect_session host name d') = reserved d'" for name d'
    by (auto simp: disconnect_session_def reserved_mark split: option.split)
  then have "reserved (fold (disconnect_session host) names d') = reserved d'" for names d'
    by (induction names arbitrary: d') simp_all
  moreover have "reserved (d\<lparr>dn_browsers := m\<rparr>) = reserved d" for m
    by (rule reserved_cong) simp
  ultimately show ?thesis
    by (simp add: handle_browser_disconnect_def disconnect_sessions_for_host_def)
qed

lemma reserved_cleanup_session:
  "reserved (snd (cleanup_session now host cdp reply dispose name acc)) = reserved (snd acc)"
proof -
  obtain report d where acc: "acc = (report, d)" by (cases acc)
  have targets: "reserved (snd (snd (fold (cleanup_target now cdp reply name) rs a))) = reserved (snd (snd a))" for rs a
  proof (induction rs arbitrary: a)
    case (Cons r rs)
    have "reserved (snd (snd (cleanup_target now cdp reply name r a))) = reserved (snd (snd a))"
      by (auto simp: cleanup_target_def reserved_remove split: prod.splits sum.splits)
    then show ?case using Cons.IH by simp
  qed simp
  have "reserved (snd (cleanup_session now host cdp reply dispose name (report, d))) = reserved d"
    if s: "the_session d name = Some s" for s
  proof -
    obtain ok report1 d1 where f:
      "fold (cleanup_target now cdp reply name) (map (close_request_of \<circ> snd) (ss_tabs s)) (True, report, d) = (ok, report1, d1)"
      by (metis prod_cases3)
    have d1: "reserved d1 = reserved d"
      using targets[of "map (close_request_of \<circ> snd) (ss_tabs s)" "(True, report, d)"] f by simp
    let ?d2 = "cancel_console_for_session name (cancel_dialogs_for_session name d1)"
    have "reserved ?d2 = reserved d" using d1 by simp
    from this reserved_mark[of ?d2 name] show ?thesis
      using s f by (auto simp: cleanup_session_def Let_def split: option.split sum.split if_split)
  qed
  then show ?thesis using acc by (cases "the_session d name") (auto simp: cleanup_session_def)
qed

lemma reserved_do_disconnect [reserved_simps]:
  "reserved (snd (do_browser_disconnect now host reply dispose d)) = reserved d"
proof -
  have loop: "reserved (snd (fold (cleanup_session now host cdp reply dispose) names acc)) = reserved (snd acc)"
    for cdp names acc
    by (induction names arbitrary: acc) (simp_all add: reserved_cleanup_session)
  have "reserved (snd (cleanup_browser_sessions_for_host now host reply dispose d)) = reserved d"
    by (simp add: cleanup_browser_sessions_for_host_def Let_def case_prod_unfold loop)
  moreover have "reserved (d'\<lparr>dn_browsers := m\<rparr>) = reserved d'" for d' m
    by (rule reserved_cong) simp
  ultimately show ?thesis
    by (simp add: do_browser_disconnect_def case_prod_unfold)
qed

lemma reserved_bind [reserved_simps]:
  "reserved (snd (bind_session_to_browser now limit name host cdp gone b d)) = reserved d"
proof -
  have "ss_reservations (fst (reattach_session_tabs f s)) = ss_reservations s" for f s
    by (simp add: reattach_session_tabs_def Let_def)
  then have re: "reserved (snd (reconnect_existing_session now name host b d)) = reserved d"
    by (auto simp: reconnect_existing_session_def Let_def case_prod_unfold map_sum_def reserved_put_same
        split: option.split sum.splits)
  have "reserved (put_session name s d) = reserved d" if "the_session d name = None" "ss_reservations s = 0" for s
    using that by (auto simp: reserved_def fun_eq_iff)
  then have "reserved (snd (bind_session now limit name host b d)) = reserved d"
    using re unfolding bind_session_def
    by (auto simp: new_default_session_def new_isolated_session_def split: sum.split option.split prod.split)
  then show ?thesis
    unfolding bind_session_to_browser_def by (auto split: sum.split option.split prod.split)
qed

end
