(* ===== verification/DaemonRuns.thy ===== *)
theory DaemonRuns
  imports DaemonSafety
begin

text \<open>
  The runs of the daemon as an inductive step relation, their invariant, and what it gives the handlers.
\<close>

declare map_of_eq_Some_iff [simp del] and Some_eq_map_of_iff [simp del]

subsection \<open>Runs\<close>

text \<open>
  A run is the state of the daemon with the opens and the attaches that wait for the browser, by the
  session they hold the read lock of. Closing a session and the clean-up of an idle one take its write
  lock, so no open of it is in flight then. Fewer than \<open>usize::MAX\<close> opens are in flight.
\<close>

record daemon_run =
  dr_state :: daemon_state
  dr_opening :: "string list"
  dr_attaching :: "string list"

definition new_run :: "daemon_state \<Rightarrow> daemon_run" where
  "new_run d = \<lparr>dr_state = d, dr_opening = [], dr_attaching = []\<rparr>"

definition new_daemon :: "(string \<times> nat) list \<Rightarrow> daemon_state" where
  "new_daemon browsers =
     \<lparr>dn_sessions = [], dn_browsers = browsers, dn_watchers = [], dn_console_tokens = [], dn_dialogs = new_dialog_state,
      dn_cancelled = [], dn_events = [], dn_persists = 0\<rparr>"

inductive daemon_step :: "daemon_run \<Rightarrow> daemon_run \<Rightarrow> bool" where
  step_touch: "daemon_step r (r\<lparr>dr_state := touch_session now name (dr_state r)\<rparr>)"
| step_target_created:
    "daemon_step r (r\<lparr>dr_state := snd (handle_target_created now host info attach prepare before (dr_state r))\<rparr>)"
| step_target_destroyed: "daemon_step r (r\<lparr>dr_state := snd (remove_session_tab now target (dr_state r))\<rparr>)"
| step_target_updated: "daemon_step r (r\<lparr>dr_state := snd (update_session_tab_info now target url title (dr_state r))\<rparr>)"
| step_console: "daemon_step r (r\<lparr>dr_state := snd (record_console_entry name target e (dr_state r))\<rparr>)"
| step_open_begin:
    "length (dr_opening r) < usize_max \<Longrightarrow> open_begin name limit (dr_state r) = (Inr x, d) \<Longrightarrow>
     daemon_step r (r\<lparr>dr_state := d, dr_opening := name # dr_opening r\<rparr>)"
| step_open_refused:
    "length (dr_opening r) < usize_max \<Longrightarrow> open_begin name limit (dr_state r) = (Inl e, d) \<Longrightarrow>
     daemon_step r (r\<lparr>dr_state := d\<rparr>)"
| step_open_finish:
    "name \<in> set (dr_opening r) \<Longrightarrow>
     daemon_step r (r\<lparr>dr_state := snd (open_finish now name url outcome detach close (dr_state r)),
                      dr_opening := remove1 name (dr_opening r)\<rparr>)"
| step_attach_begin:
    "attach_begin name (dr_state r) = Inr x \<Longrightarrow> daemon_step r (r\<lparr>dr_attaching := name # dr_attaching r\<rparr>)"
| step_attach_finish:
    "name \<in> set (dr_attaching r) \<Longrightarrow>
     daemon_step r (r\<lparr>dr_state := snd (attach_finish now name c attach prepare (dr_state r)),
                      dr_attaching := remove1 name (dr_attaching r)\<rparr>)"
| step_attach_abort:
    "daemon_step r (r\<lparr>dr_attaching := remove1 name (dr_attaching r)\<rparr>)"
| step_close: "daemon_step r (r\<lparr>dr_state := snd (handle_close now name requested reply before (dr_state r))\<rparr>)"
| step_session_close:
    "name \<notin> set (dr_opening r) \<Longrightarrow>
     daemon_step r (r\<lparr>dr_state := snd (handle_session_close now name reply dispose (dr_state r))\<rparr>)"
| step_idle:
    "name \<notin> set (dr_opening r) \<Longrightarrow>
     daemon_step r (r\<lparr>dr_state := snd (cleanup_idle_session now at_end timeout name reply dispose (dr_state r))\<rparr>)"
| step_browser_lost: "daemon_step r (r\<lparr>dr_state := handle_browser_disconnect host cdp (dr_state r)\<rparr>)"
| step_browser_disconnect:
    "daemon_step r (r\<lparr>dr_state := snd (do_browser_disconnect now host reply dispose2 (dr_state r))\<rparr>)"
| step_connected: "daemon_step r (r\<lparr>dr_state := (dr_state r)\<lparr>dn_browsers := AList.update host cdp (dn_browsers (dr_state r))\<rparr>\<rparr>)"
| step_bind:
    "daemon_step r (r\<lparr>dr_state := snd (bind_session_to_browser now limit name host cdp gone b (dr_state r))\<rparr>)"

inductive_cases daemon_stepE: "daemon_step r r'"

definition run_inv :: "daemon_run \<Rightarrow> bool" where
  "run_inv r \<longleftrightarrow>
     daemon_inv (dr_state r) \<and>
     (\<forall>name. reserved (dr_state r) name = count_list (dr_opening r) name) \<and>
     set (dr_attaching r) \<subseteq> {''default''}"

lemma run_invI:
  "daemon_inv d \<Longrightarrow> (\<And>name. reserved d name = count_list opening name) \<Longrightarrow> set attaching \<subseteq> {''default''} \<Longrightarrow>
   run_inv \<lparr>dr_state = d, dr_opening = opening, dr_attaching = attaching\<rparr>"
  by (simp add: run_inv_def)

text \<open>A step that keeps the invariant of the state and the reservations.\<close>

lemma run_inv_state:
  "run_inv r \<Longrightarrow> daemon_inv d \<Longrightarrow> reserved d = reserved (dr_state r) \<Longrightarrow> run_inv (r\<lparr>dr_state := d\<rparr>)"
  by (simp add: run_inv_def)

lemma count_list_remove1: "x \<in> set xs \<Longrightarrow> count_list (remove1 x xs) y = count_list xs y - (if y = x then 1 else 0)"
  by (induction xs) (auto simp: count_list_0_iff)

lemma count_list_le: "count_list xs x \<le> length xs"
  by (induction xs) auto

lemma reserved_open_begin_Inl:
  assumes "open_begin name limit d = (Inl e, d')" and "reserved d name < usize_max"
  shows "reserved d' = reserved d"
proof -
  have "sat_add (reserved d name) 1 - 1 = reserved d name"
    using assms(2) by (simp add: sat_add_exact)
  then have "reserved (release_session_tab_reservation name (snd (reserve_session_tab name limit d))) = reserved d"
    if "fst (reserve_session_tab name limit d) = Inr x" for x
    using that by (simp add: reserved_simps fun_eq_iff)
  moreover have "reserved (snd (reserve_session_tab name limit d)) = reserved d"
    if "fst (reserve_session_tab name limit d) = Inl x" for x
    using that by (simp add: reserved_simps)
  ultimately show ?thesis
    using assms(1) unfolding open_begin_def
    by (auto simp: case_prod_unfold split: sum.splits option.splits)
qed

lemma reserved_open_begin_Inr:
  assumes "open_begin name limit d = (Inr x, d')" and "reserved d name < usize_max"
  shows "reserved d' = (reserved d)(name := Suc (reserved d name))"
proof -
  obtain u where u: "fst (reserve_session_tab name limit d) = Inr u" and d': "d' = snd (reserve_session_tab name limit d)"
    using assms(1) unfolding open_begin_def by (auto simp: case_prod_unfold split: sum.splits option.splits)
  then show ?thesis using assms(2) by (simp add: reserved_simps sat_add_exact)
qed

lemma reserved_open_finish:
  "reserved (snd (open_finish now name url outcome detach close d)) = (reserved d)(name := reserved d name - 1)"
proof -
  have "reserved d1 = (reserved d)(name := reserved d name - 1)"
    if "register_reserved_session_tab now name tab d = (res, d1)" for tab res d1
    using reserved_register_reserved[of now name tab d] that by simp
  then show ?thesis
    unfolding open_finish_def by (auto simp: reserved_release split: open_outcome.split sum.split prod.split)
qed

lemma daemon_step_inv:
  assumes "daemon_step r r'" and "run_inv r"
  shows "run_inv r'"
proof -
  have inv: "daemon_inv (dr_state r)" and res: "\<And>name. reserved (dr_state r) name = count_list (dr_opening r) name"
    and att: "set (dr_attaching r) \<subseteq> {''default''}"
    using assms(2) by (simp_all add: run_inv_def)
  show ?thesis
    using assms(1)
  proof cases
    case (step_touch now name)
    have "daemon_inv (touch_session now name (dr_state r)) \<and> reserved (touch_session now name (dr_state r)) = reserved (dr_state r)"
      using inv daemon_inv_session[OF inv]
      by (auto simp: touch_session_def intro!: daemon_inv_put_sub reserved_put_same split: option.split)
    with step_touch show ?thesis using run_inv_state[OF assms(2)] by simp
  next
    case (step_target_created now host info attach prepare before)
    have "reserved (snd (handle_target_created now host info attach prepare before (dr_state r))) = reserved (dr_state r)"
      unfolding handle_target_created_def
      by (auto simp: Let_def case_prod_unfold reserved_register split: option.split sum.split registration.split)
    with step_target_created show ?thesis
      using run_inv_state[OF assms(2) handle_target_created_inv[OF inv]] by simp
  next
    case (step_target_destroyed now target)
    then show ?thesis using run_inv_state[OF assms(2) remove_session_tab_inv[OF inv] reserved_remove] by simp
  next
    case (step_target_updated now target url title)
    then show ?thesis using run_inv_state[OF assms(2) update_session_tab_info_inv[OF inv] reserved_update] by simp
  next
    case (step_console name target e)
    then show ?thesis using run_inv_state[OF assms(2) record_console_entry_inv[OF inv] reserved_console] by simp
  next
    case (step_open_begin name limit x d)
    have "daemon_inv d" using open_begin_inv[OF inv, of name limit] step_open_begin(3) by simp
    moreover have "reserved (dr_state r) name < usize_max"
      using step_open_begin(2) count_list_le[of "dr_opening r" name] by (simp add: res)
    note reserved_open_begin_Inr[OF step_open_begin(3) this]
    ultimately show ?thesis using step_open_begin(1) att res by (simp add: run_inv_def)
  next
    case (step_open_refused name limit e d)
    have "daemon_inv d" using open_begin_inv[OF inv, of name limit] step_open_refused(3) by simp
    moreover have "reserved (dr_state r) name < usize_max"
      using step_open_refused(2) count_list_le[of "dr_opening r" name] by (simp add: res)
    note reserved_open_begin_Inl[OF step_open_refused(3) this]
    ultimately show ?thesis using step_open_refused(1) run_inv_state[OF assms(2)] by simp
  next
    case (step_open_finish name now url outcome detach close)
    then show ?thesis
      using open_finish_inv[OF inv] att res by (simp add: run_inv_def reserved_open_finish count_list_remove1)
  next
    case (step_attach_begin name x)
    then show ?thesis using inv res att attach_begin_default[OF inv step_attach_begin(2)] by (simp add: run_inv_def)
  next
    case (step_attach_finish name now c attach prepare)
    have name: "name = ''default''" using step_attach_finish(2) att by auto
    have "reserved (snd (attach_finish now name c attach prepare (dr_state r))) = reserved (dr_state r)"
      unfolding attach_finish_def
      by (auto simp: case_prod_unfold register_session_tab_state reserved_register split: sum.split)
    with step_attach_finish name att res show ?thesis
      using attach_finish_inv[OF inv, of now c attach prepare] set_remove1_subset[of name "dr_attaching r"]
      by (auto simp: run_inv_def)
  next
    case (step_attach_abort name)
    then show ?thesis
      using inv res att set_remove1_subset[of name "dr_attaching r"] by (auto simp: run_inv_def)
  next
    case (step_close now name requested reply before)
    have "reserved (snd (handle_close now name requested reply before (dr_state r))) = reserved (dr_state r)"
      unfolding handle_close_def by (auto simp: reserved_remove split: option.split sum.split)
    with step_close show ?thesis using run_inv_state[OF assms(2) handle_close_inv[OF inv]] by simp
  next
    case (step_session_close name now reply dispose)
    then have "reserved (dr_state r) name = 0" by (simp add: res count_list_0_iff)
    from step_session_close(1) show ?thesis
      using run_inv_state[OF assms(2) handle_session_close_inv[OF inv] reserved_session_close[of "dr_state r" name, OF \<open>_ = 0\<close>]]
      by simp
  next
    case (step_idle name now at_end timeout reply dispose)
    then have "reserved (dr_state r) name = 0" by (simp add: res count_list_0_iff)
    from step_idle(1) show ?thesis
      using run_inv_state[OF assms(2) cleanup_idle_session_inv[OF inv] reserved_cleanup_idle[of "dr_state r" name, OF \<open>_ = 0\<close>]]
      by simp
  next
    case (step_browser_lost host cdp)
    then show ?thesis using run_inv_state[OF assms(2) handle_browser_disconnect_inv[OF inv] reserved_disconnect] by simp
  next
    case (step_browser_disconnect now host reply dispose2)
    then show ?thesis using run_inv_state[OF assms(2) do_browser_disconnect_inv[OF inv] reserved_do_disconnect] by simp
  next
    case (step_connected host cdp)
    have "daemon_inv ((dr_state r)\<lparr>dn_browsers := m\<rparr>)" "reserved ((dr_state r)\<lparr>dn_browsers := m\<rparr>) = reserved (dr_state r)" for m
      using inv by (simp_all add: daemon_inv_def reserved_def fun_eq_iff)
    with step_connected show ?thesis using run_inv_state[OF assms(2)] by simp
  next
    case (step_bind now limit name host cdp gone b)
    then show ?thesis using run_inv_state[OF assms(2) bind_session_to_browser_inv[OF inv] reserved_bind] by simp
  qed
qed

lemma run_inv_new: "run_inv (new_run (new_daemon browsers))"
  by (simp add: run_inv_def new_run_def new_daemon_def daemon_inv_def reserved_def)

interpretation daemon: transition_system "\<lambda>r. \<exists>browsers. r = new_run (new_daemon browsers)" daemon_step run_inv
  by unfold_locales (auto intro: run_inv_new daemon_step_inv)

subsection \<open>What a run guarantees\<close>

text \<open>
  C28: in every run of the daemon, in any order of openings, attachments, events of the browser, closings,
  clean-ups, disconnections and bindings, a target is a tab of at most one session, the active target of
  a session is one of its tabs and is missing only without tabs, and a tab that was attached (whose
  target the daemon must not close) is in the default session only.
\<close>

theorem daemon_sessions_sound:
  assumes "daemon_step\<^sup>*\<^sup>* (new_run (new_daemon browsers)) r" and "the_session (dr_state r) name = Some s"
  shows "(\<forall>other s'. the_session (dr_state r) other = Some s' \<longrightarrow> other \<noteq> name \<longrightarrow>
            keys (ss_tabs s) \<inter> keys (ss_tabs s') = {}) \<and>
         (case ss_active_target s of None \<Rightarrow> ss_tabs s = [] | Some a \<Rightarrow> a \<in> keys (ss_tabs s)) \<and>
         (\<forall>t tab. map_of (ss_tabs s) t = Some tab \<longrightarrow>
            tb_target_id tab = t \<and> (tb_ownership tab = AttachedTab \<longrightarrow> name = ''default''))"
proof -
  have "run_inv r" using daemon.reachable_inv assms(1) by blast
  then have inv: "daemon_inv (dr_state r)" by (simp add: run_inv_def)
  have s: "session_inv name s" by (rule daemon_inv_session[OF inv assms(2)])
  have "tb_target_id tab = t \<and> (tb_ownership tab = AttachedTab \<longrightarrow> name = ''default'')"
    if "map_of (ss_tabs s) t = Some tab" for t tab
    using session_inv_tab[OF s that] s by (cases "ss_mode s") (auto simp: session_inv_def)
  moreover have "keys (ss_tabs s) \<inter> keys (ss_tabs s') = {}"
    if "the_session (dr_state r) other = Some s'" "other \<noteq> name" for other s'
    using daemon_inv_owner[OF inv assms(2) that(1)] that(2) by blast
  ultimately show ?thesis using s by (simp add: session_inv_def active_inv_def)
qed

definition sample_info :: daemon_target_info where
  "sample_info = \<lparr>ti_target_id = ''T2'', ti_type = ''page'', ti_url = ''https://b/'', ti_title = ''B'',
                  ti_opener_id = Some ''T1'', ti_context_id = None\<rparr>"

definition sample_backend :: reconnect_backend where
  "sample_backend = \<lparr>rb_context_available = True, rb_create_context = Inr ''CTX'', rb_reattach = (\<lambda>_. None)\<rparr>"

text \<open>A run: the default session is bound, a tab is opened and its popup tracked.\<close>

definition sample_bound :: daemon_state where
  "sample_bound = snd (bind_session_to_browser 1 0 ''default'' ''h'' 7 False sample_backend (new_daemon [(''h'', 7)]))"

definition sample_open :: daemon_state where
  "sample_open = snd (open_begin ''default'' 5 sample_bound)"

definition sample_done :: daemon_state where
  "sample_done = snd (open_finish 2 ''default'' ''https://a/'' (OpenPrepared ''T1'' ''S1'') (Inr ()) (Inr ()) sample_open)"

definition sample_popup :: daemon_state where
  "sample_popup = snd (handle_target_created 3 ''h'' sample_info (Inr ''S2'') (Inr ()) sample_done sample_done)"

lemma sample_run: "daemon_step\<^sup>*\<^sup>* (new_run (new_daemon [(''h'', 7)])) (new_run sample_popup)"
proof -
  have 1: "daemon_step (new_run (new_daemon [(''h'', 7)])) (new_run sample_bound)"
    using step_bind[of "new_run (new_daemon [(''h'', 7)])" 1 0 "''default''" "''h''" 7 False sample_backend]
    by (simp add: new_run_def sample_bound_def)
  have 2: "daemon_step (new_run sample_bound) ((new_run sample_open)\<lparr>dr_opening := [''default'']\<rparr>)"
  proof -
    have "\<not> isl (fst (open_begin ''default'' 5 sample_bound))" by code_simp
    then obtain x where "open_begin ''default'' 5 sample_bound = (Inr x, sample_open)"
      unfolding sample_open_def by (metis prod.collapse sum.collapse(2))
    then show ?thesis
      using step_open_begin[of "new_run sample_bound" "''default''" 5 x sample_open]
      by (simp add: new_run_def usize_max_def)
  qed
  have 3: "daemon_step ((new_run sample_open)\<lparr>dr_opening := [''default'']\<rparr>) (new_run sample_done)"
    using step_open_finish[of "''default''" "(new_run sample_open)\<lparr>dr_opening := [''default'']\<rparr>" 2 "''https://a/''"
        "OpenPrepared ''T1'' ''S1''" "Inr ()" "Inr ()"]
    by (simp add: new_run_def sample_done_def)
  have 4: "daemon_step (new_run sample_done) (new_run sample_popup)"
    using step_target_created[of "new_run sample_done" 3 "''h''" sample_info "Inr ''S2''" "Inr ()" sample_done]
    by (simp add: new_run_def sample_popup_def)
  show ?thesis using 1 2 3 4 by (meson rtranclp.rtrancl_refl rtranclp.rtrancl_into_rtrancl)
qed

theorem daemon_sessions_sound_witness:
  "\<exists>s. the_session sample_popup ''default'' = Some s \<and> map fst (ss_tabs s) = [''T1'', ''T2''] \<and>
     (case ss_active_target s of None \<Rightarrow> ss_tabs s = [] | Some a \<Rightarrow> a \<in> keys (ss_tabs s))"
proof -
  have "map_option (\<lambda>s. map fst (ss_tabs s)) (the_session sample_popup ''default'') = Some [''T1'', ''T2'']" by code_simp
  then obtain s where s: "the_session sample_popup ''default'' = Some s" "map fst (ss_tabs s) = [''T1'', ''T2'']" by auto
  have "the_session (dr_state (new_run sample_popup)) ''default'' = Some s" using s(1) by (simp add: new_run_def)
  from daemon_sessions_sound[OF sample_run this] s show ?thesis by (intro exI[of _ s] conjI) simp_all
qed

text \<open>
  C29: no reservation leaks. In every run, the tabs reserved in a session are the opens of it that still
  wait for the browser, whether they succeed, fail at any point or race with other operations; when none
  waits, no session has a reserved tab.
\<close>

theorem reservations_never_leak:
  assumes "daemon_step\<^sup>*\<^sup>* (new_run (new_daemon browsers)) r" and "the_session (dr_state r) name = Some s"
  shows "ss_reservations s = count_list (dr_opening r) name"
proof -
  have "run_inv r" using daemon.reachable_inv assms(1) by blast
  then have "reserved (dr_state r) name = count_list (dr_opening r) name" by (simp add: run_inv_def)
  then show ?thesis using assms(2) by (simp add: reserved_def)
qed

theorem reservations_never_leak_witness:
  "\<exists>s. the_session sample_popup ''default'' = Some s \<and> ss_reservations s = 0"
proof -
  have "the_session sample_popup ''default'' \<noteq> None" by code_simp
  then obtain s where s: "the_session (dr_state (new_run sample_popup)) ''default'' = Some s" by (auto simp: new_run_def)
  from reservations_never_leak[OF sample_run s] s show ?thesis by (simp add: new_run_def)
qed

end
