(* ===== verification/DaemonProps.thy ===== *)
theory DaemonProps
  imports DaemonSafety
begin

text \<open>
  Properties of single handlers of the daemon: the limit of tabs, the rollback of a failed open, the
  resolution of a target, the disconnection of a browser, the watching of targets and the locks of
  requests.
\<close>

declare map_of_eq_Some_iff [simp del] and Some_eq_map_of_iff [simp del]

subsection \<open>The limit of tabs\<close>

definition committed :: "daemon_state \<Rightarrow> string \<Rightarrow> nat" where
  "committed d name = (case the_session d name of None \<Rightarrow> 0 | Some s \<Rightarrow> length (ss_tabs s) + ss_reservations s)"

lemma committed_insert_tab:
  assumes "the_session d name = Some s0" and "ss_tabs s = ss_tabs s0"
    and "Suc (ss_reservations s) \<le> ss_reservations s0"
  shows "committed (insert_tab now name tab s d) name \<le> committed d name"
proof -
  have "length (AList.update k v m) \<le> Suc (length m)" for k v and m :: "(ident \<times> session_tab) list"
    by (induction m) auto
  from this[of "tb_target_id tab" tab "ss_tabs s0"] show ?thesis
    using assms by (simp add: committed_def insert_tab_def touch_def)
qed

lemma committed_other:
  "name' \<noteq> name \<Longrightarrow> committed (insert_tab now name tab s d) name' = committed d name'"
  "name' \<noteq> name \<Longrightarrow> committed (put_session name s d) name' = committed d name'"
  by (simp_all add: committed_def insert_tab_def)

lemma committed_frame [simp]:
  "committed (emit ev d) name = committed d name"
  "committed (request_persist d) name = committed d name"
  by (simp_all add: committed_def)

lemma committed_release: "committed (release_session_tab_reservation name d) name' \<le> committed d name'"
  by (cases "name' = name")
     (auto simp: release_session_tab_reservation_def committed_other committed_def split: option.split)

lemma committed_register_reserved:
  assumes "0 < reserved d name"
  shows "committed (snd (register_reserved_session_tab now name tab d)) name' \<le> committed d name'"
proof (cases "name' = name")
  case False
  then show ?thesis
    by (auto simp: register_reserved_session_tab_def Let_def committed_other split: option.split)
next
  case True
  obtain s where s: "the_session d name = Some s" "0 < ss_reservations s"
    using assms by (auto simp: reserved_def split: option.splits)
  let ?s = "s\<lparr>ss_reservations := ss_reservations s - 1\<rparr>"
  have "committed (insert_tab now name tab ?s d) name \<le> committed d name"
    by (rule committed_insert_tab[OF s(1)]) (use s(2) in simp_all)
  moreover have "committed (put_session name ?s d) name \<le> committed d name"
    using s by (simp add: committed_def)
  ultimately show ?thesis
    using s True by (simp add: register_reserved_session_tab_def Let_def split: option.split)
qed

lemma committed_open_finish:
  assumes "0 < reserved d name"
  shows "committed (snd (open_finish now name url outcome detach close d)) name' \<le> committed d name'"
proof -
  have "committed d1 name' \<le> committed d name'" if "register_reserved_session_tab now name tab d = (res, d1)" for tab res d1
    using committed_register_reserved[OF assms, of now tab name'] that by simp
  then show ?thesis
    unfolding open_finish_def
    by (auto simp: committed_release split: open_outcome.split sum.split prod.split)
qed

text \<open>
  C30: opening a tab respects the limit of tabs of a session even when opens run concurrently: when an open
  is admitted, the tabs and the reservations of the session are together within the limit, and the end of
  an open, successful or not, does not increase them for any session.
\<close>

theorem open_respects_limit:
  assumes "open_begin name limit d = (Inr x, d1)" and "limit \<noteq> 0" and "limit \<le> usize_max" and "0 < reserved later name"
  shows "committed d1 name \<le> limit \<and>
         committed (snd (open_finish now name url outcome detach close later)) other \<le> committed later other"
proof -
  obtain u where u: "reserve_session_tab name limit d = (Inr u, d1)"
    using assms(1) unfolding open_begin_def by (auto split: sum.splits option.splits prod.splits)
  then obtain s where s: "the_session d name = Some s" "can_add_tab limit s"
    "d1 = put_session name (s\<lparr>ss_reservations := sat_add (ss_reservations s) 1\<rparr>) d"
    by (auto simp: reserve_session_tab_def split: option.splits if_splits)
  have lt: "length (ss_tabs s) + ss_reservations s < limit"
    using s(2) assms(2,3) by (auto simp: can_add_tab_def sat_add_def min_def split: if_splits)
  then have "sat_add (ss_reservations s) 1 = Suc (ss_reservations s)" using assms(3) by (simp add: sat_add_exact)
  with lt s have "committed d1 name \<le> limit" by (simp add: committed_def)
  with committed_open_finish[OF assms(4)] show ?thesis by blast
qed

definition sample_daemon :: daemon_state where
  "sample_daemon =
     \<lparr>dn_sessions = [(''default'', new_default_session 1 ''h''), (''agent'', new_isolated_session 1 ''agent'' ''h2'' ''C1'')],
      dn_browsers = [(''h'', 7), (''h2'', 8)], dn_watchers = [], dn_console_tokens = [], dn_dialogs = new_dialog_state,
      dn_cancelled = [], dn_events = [], dn_persists = 0\<rparr>"

lemma sample_daemon_inv: "daemon_inv sample_daemon"
proof -
  have "session_inv ''default'' (new_default_session 1 ''h'')" by (rule session_inv_new) simp
  moreover have "session_inv ''agent'' (new_isolated_session 1 ''agent'' ''h2'' ''C1'')" by (rule session_inv_new) simp
  ultimately show ?thesis
    by (auto simp: daemon_inv_def sample_daemon_def new_default_session_def new_isolated_session_def split: if_splits)
qed

theorem open_respects_limit_witness:
  "committed (snd (open_begin ''default'' 1 sample_daemon)) ''default'' \<le> 1 \<and>
   committed (snd (open_finish 2 ''default'' ''u'' (OpenPrepared ''T'' ''S'') (Inr ()) (Inr ())
     (snd (open_begin ''default'' 1 sample_daemon)))) ''default''
     \<le> committed (snd (open_begin ''default'' 1 sample_daemon)) ''default''"
proof -
  have "\<not> isl (fst (open_begin ''default'' 1 sample_daemon))" by code_simp
  then obtain x where x: "open_begin ''default'' 1 sample_daemon = (Inr x, snd (open_begin ''default'' 1 sample_daemon))"
    by (metis prod.collapse sum.collapse(2))
  have "reserved (snd (open_begin ''default'' 1 sample_daemon)) ''default'' = 1" by code_simp
  then show ?thesis
    using open_respects_limit[OF x, where later = "snd (open_begin ''default'' 1 sample_daemon)"]
    by (simp add: usize_max_def)
qed

subsection \<open>The rollback of a failed open\<close>

fun created_target :: "open_outcome \<Rightarrow> ident option" where
  "created_target (CreateFailed e) = None"
| "created_target (OpenAttachFailed t e) = Some t"
| "created_target (OpenPrepareFailed t s e) = Some t"
| "created_target (OpenPrepared t s) = Some t"

fun_cases created_target_SomeE: "created_target outcome = Some t"

lemma register_reserved_owner:
  assumes "daemon_inv d" and "tb_ownership tab = OwnedTab"
    and "register_reserved_session_tab now name tab d = (Inr reg, d')"
  shows "find_target_owner (tb_target_id tab) d' = Some name"
proof -
  have inv: "daemon_inv d'" using register_reserved_inv[OF assms(1,2), of now name] assms(3) by simp
  obtain s where s: "the_session d name = Some s"
    using assms(3) by (auto simp: register_reserved_session_tab_def split: option.splits)
  have "\<exists>s'. the_session d' name = Some s' \<and> tb_target_id tab \<in> keys (ss_tabs s')"
  proof (cases "find_target_owner (tb_target_id tab) d")
    case None
    with s assms(3) have "d' = insert_tab now name tab (s\<lparr>ss_reservations := ss_reservations s - 1\<rparr>) d"
      by (simp add: register_reserved_session_tab_def Let_def)
    then show ?thesis by (simp add: insert_tab_def touch_def)
  next
    case (Some owner)
    with s assms(3) have "owner = name" "d' = put_session name (s\<lparr>ss_reservations := ss_reservations s - 1\<rparr>) d"
      by (auto simp: register_reserved_session_tab_def Let_def split: if_splits)
    moreover obtain s2 where "the_session d owner = Some s2" "tb_target_id tab \<in> keys (ss_tabs s2)"
      by (rule find_target_owner_Some[OF daemon_inv_wf[OF assms(1)] Some])
    ultimately show ?thesis using s by simp
  qed
  then show ?thesis using find_target_owner_iff[OF inv] by blast
qed

text \<open>
  C31: an open never leaves a stray page: once the browser has created the target, either the open
  succeeds and the target is a tab of the session, or it fails and the closing of that target is sent.
\<close>

theorem open_tracks_or_closes:
  assumes "daemon_inv d" and "created_target outcome = Some target"
    and "open_finish now name url outcome detach close d = ((resp, commands), d')"
  shows "(\<exists>data. resp = ResponseOk data) \<and> find_target_owner target d' = Some name \<or>
         (\<exists>body. resp = ResponseError body) \<and> SendCloseTarget target \<in> set commands"
proof (rule created_target_SomeE[OF assms(2)])
  fix sid
  assume prepared: "outcome = OpenPrepared target sid"
  let ?tab = "(new_owned_tab target url [])\<lparr>tb_cdp_session_id := sid\<rparr>"
  obtain res d1 where r: "register_reserved_session_tab now name ?tab d = (res, d1)" by fastforce
  show ?thesis
  proof (cases res)
    case (Inl code)
    then show ?thesis using assms(3) prepared r by (auto simp: open_finish_def error_detail_def rollback_commands_def)
  next
    case (Inr reg)
    have "find_target_owner (tb_target_id ?tab) d1 = Some name"
      by (rule register_reserved_owner[OF assms(1) _ r[unfolded Inr]]) (simp add: new_owned_tab_def)
    moreover have "find_target_owner t (emit ev d1) = find_target_owner t d1" for t ev
      by (simp add: find_target_owner_def)
    ultimately show ?thesis
      using assms(3) prepared r Inr by (auto simp: open_finish_def new_owned_tab_def split: if_splits)
  qed
qed (use assms(3) in \<open>auto simp: open_finish_def error_detail_def rollback_commands_def\<close>)

theorem open_tracks_or_closes_witness:
  "find_target_owner ''T'' (snd (open_finish 2 ''agent'' ''u'' (OpenPrepared ''T'' ''S'') (Inr ()) (Inr ()) sample_daemon))
     = Some ''agent''"
proof -
  obtain resp commands d' where f:
    "open_finish 2 ''agent'' ''u'' (OpenPrepared ''T'' ''S'') (Inr ()) (Inr ()) sample_daemon = ((resp, commands), d')"
    by (metis prod_cases3 prod.collapse)
  have "(case fst (fst (open_finish 2 ''agent'' ''u'' (OpenPrepared ''T'' ''S'') (Inr ()) (Inr ()) sample_daemon)) of
           ResponseOk _ \<Rightarrow> True | ResponseError _ \<Rightarrow> False)"
    by code_simp
  then show ?thesis
    using open_tracks_or_closes[OF sample_daemon_inv _ f, of "''T''"] f by auto
qed

subsection \<open>Closing a session\<close>

definition tab_keys :: "daemon_state \<Rightarrow> string \<Rightarrow> ident set" where
  "tab_keys d name = (case the_session d name of None \<Rightarrow> {} | Some s \<Rightarrow> keys (ss_tabs s))"

lemma tab_keys_frame [simp]:
  "tab_keys (request_persist d) = tab_keys d"
  "tab_keys (emit ev d) = tab_keys d"
  "tab_keys (cancel_dialogs_for_session name d) = tab_keys d"
  by (simp_all add: tab_keys_def fun_eq_iff)

lemma remove_session_tab_sessions:
  assumes "daemon_inv d"
  shows "tab_keys (snd (remove_session_tab now t d)) n = tab_keys d n - {t}"
    and "(the_session (snd (remove_session_tab now t d)) n = None) = (the_session d n = None)"
proof -
  have both: "tab_keys (snd (remove_session_tab now t d)) n = tab_keys d n - {t} \<and>
        (the_session (snd (remove_session_tab now t d)) n = None) = (the_session d n = None)"
  proof (cases "find_target_owner t d")
    case None
    then have "t \<notin> tab_keys d n"
      using find_target_owner_None[OF None, of n] by (auto simp: tab_keys_def split: option.splits)
    with None show ?thesis by (simp add: remove_session_tab_def)
  next
    case (Some name)
    obtain s where s: "the_session d name = Some s" "t \<in> keys (ss_tabs s)"
      by (rule find_target_owner_Some[OF daemon_inv_wf[OF assms] Some])
    then obtain tab where tab: "map_of (ss_tabs s) t = Some tab" by (auto simp: keys_iff_map_of)
    have "t \<notin> tab_keys d n" if "n \<noteq> name"
      using daemon_inv_owner[OF assms s(1) _ s(2)] that by (auto simp: tab_keys_def split: option.splits)
    with Some s tab show ?thesis
      by (auto simp: remove_session_tab_def Let_def tab_keys_def split: prod.split option.split)
  qed
  then show "tab_keys (snd (remove_session_tab now t d)) n = tab_keys d n - {t}"
    and "(the_session (snd (remove_session_tab now t d)) n = None) = (the_session d n = None)" by blast+
qed

definition close_fails :: "bool \<Rightarrow> (ident \<Rightarrow> string + unit) \<Rightarrow> close_request \<Rightarrow> bool" where
  "close_fails cdp reply r \<longleftrightarrow> isl (close_session_target cdp reply r)"

lemma close_one_effect:
  assumes "daemon_inv (snd acc)"
  shows "daemon_inv (snd (close_one now cdp reply r acc))"
    and "tab_keys (snd (close_one now cdp reply r acc)) n
           = tab_keys (snd acc) n - (if close_fails cdp reply r then {} else {cr_target_id r})"
    and "(the_session (snd (close_one now cdp reply r acc)) n = None) = (the_session (snd acc) n = None)"
    and "fst (close_one now cdp reply r acc) = [] \<longleftrightarrow> fst acc = [] \<and> \<not> close_fails cdp reply r"
proof -
  obtain errors d where acc: "acc = (errors, d)" by (cases acc)
  have d: "daemon_inv d" using assms acc by simp
  note eff = remove_session_tab_inv[OF d, of now "cr_target_id r"]
    remove_session_tab_sessions[OF d, of now "cr_target_id r" n]
  show "daemon_inv (snd (close_one now cdp reply r acc))"
    and "tab_keys (snd (close_one now cdp reply r acc)) n
           = tab_keys (snd acc) n - (if close_fails cdp reply r then {} else {cr_target_id r})"
    and "(the_session (snd (close_one now cdp reply r acc)) n = None) = (the_session (snd acc) n = None)"
    and "fst (close_one now cdp reply r acc) = [] \<longleftrightarrow> fst acc = [] \<and> \<not> close_fails cdp reply r"
    using acc d eff by (cases "close_session_target cdp reply r"; simp add: close_one_def close_fails_def)+
qed

lemma close_loop_effect:
  assumes "daemon_inv (snd acc)"
  shows "tab_keys (snd (fold (close_one now cdp reply) rs acc)) n
           = tab_keys (snd acc) n - cr_target_id ` {r \<in> set rs. \<not> close_fails cdp reply r} \<and>
         (the_session (snd (fold (close_one now cdp reply) rs acc)) n = None) = (the_session (snd acc) n = None) \<and>
         (fst (fold (close_one now cdp reply) rs acc) = [] \<longleftrightarrow> fst acc = [] \<and> (\<forall>r \<in> set rs. \<not> close_fails cdp reply r))"
  using assms
proof (induction rs arbitrary: acc)
  case (Cons r rs)
  let ?a = "close_one now cdp reply r acc"
  note one = close_one_effect[OF Cons.prems, of now cdp reply r]
  have "fold (close_one now cdp reply) (r # rs) acc = fold (close_one now cdp reply) rs ?a" by simp
  note eq = this
  have set: "cr_target_id ` {r' \<in> set (r # rs). \<not> close_fails cdp reply r'}
      = (if close_fails cdp reply r then {} else {cr_target_id r})
        \<union> cr_target_id ` {r' \<in> set rs. \<not> close_fails cdp reply r'}"
    by auto
  show ?case
    unfolding eq set using Cons.IH[OF one(1)] one(2)[of n] one(3)[of n] one(4) by (simp add: Diff_Un Un_Diff Int_Diff) blast
qed simp

text \<open>The targets of a session whose closing fails.\<close>

definition failing_targets :: "bool \<Rightarrow> (ident \<Rightarrow> string + unit) \<Rightarrow> session \<Rightarrow> ident set" where
  "failing_targets cdp reply s = {t. \<exists>tab. map_of (ss_tabs s) t = Some tab \<and> close_fails cdp reply (close_request_of tab)}"

lemma close_targets_effect:
  assumes "daemon_inv d" and "the_session d name = Some s" and "close_targets now cdp reply s d = (errors, d1)"
  shows "daemon_inv d1" and "the_session d1 name \<noteq> None" and "tab_keys d1 name = failing_targets cdp reply s"
    and "errors = [] \<longleftrightarrow> failing_targets cdp reply s = {}"
proof -
  have s: "session_inv name s" by (rule daemon_inv_session[OF assms(1,2)])
  then have wf: "wf_map (ss_tabs s)" by (simp add: session_inv_def tabs_inv_def)
  have id: "cr_target_id (close_request_of tab) = t" if "map_of (ss_tabs s) t = Some tab" for t tab
    using session_inv_tab[OF s that] by (simp add: close_request_of_def)
  let ?rs = "map (close_request_of \<circ> snd) (ss_tabs s)"
  have mem: "r \<in> set ?rs \<longleftrightarrow> (\<exists>t tab. map_of (ss_tabs s) t = Some tab \<and> r = close_request_of tab)" for r
  proof -
    have "r \<in> set ?rs \<longleftrightarrow> (\<exists>p \<in> set (ss_tabs s). r = close_request_of (snd p))" by auto
    also have "\<dots> \<longleftrightarrow> (\<exists>t tab. (t, tab) \<in> set (ss_tabs s) \<and> r = close_request_of tab)"
      by (simp only: Bex_def split_paired_Ex snd_conv)
    finally show ?thesis using wf by (simp add: map_of_eq_Some_iff)
  qed
  have loop: "fold (close_one now cdp reply) ?rs ([], d) = (errors, d1)" using assms(3) by (simp add: close_targets_def)
  note eff = close_loop_effect[of "([], d)" now cdp reply ?rs name, unfolded loop snd_conv fst_conv, OF assms(1)]
  show "daemon_inv d1" using close_targets_inv[OF assms(1), of now cdp reply s] assms(3) by simp
  show "the_session d1 name \<noteq> None" using eff assms(2) by simp
  have "cr_target_id ` {r \<in> set ?rs. \<not> close_fails cdp reply r}
      = {t. \<exists>tab. map_of (ss_tabs s) t = Some tab \<and> \<not> close_fails cdp reply (close_request_of tab)}"
    using id unfolding mem by (auto simp: image_iff)
  moreover have "tab_keys d name = {t. \<exists>tab. map_of (ss_tabs s) t = Some tab}"
    using assms(2) keys_iff_map_of[of _ "ss_tabs s"] by (simp add: tab_keys_def) blast
  ultimately show "tab_keys d1 name = failing_targets cdp reply s"
    using eff by (auto simp: failing_targets_def)
  show "errors = [] \<longleftrightarrow> failing_targets cdp reply s = {}"
  proof -
    have "errors = [] \<longleftrightarrow> (\<forall>r \<in> set ?rs. \<not> close_fails cdp reply r)" using eff by simp
    then show ?thesis unfolding Ball_def mem failing_targets_def by blast
  qed
qed

text \<open>
  C32: closing a session is complete or leaves exactly what could not be closed: a success removes an
  isolated session, and empties the default one; after a failure the session is still there and its tabs
  are those whose closing the browser refused, so that the close can be retried.
\<close>

theorem session_close_complete_or_retryable:
  assumes "daemon_inv d" and "the_session d name = Some s"
    and "handle_session_close now name reply dispose d = (resp, d')"
  shows "(\<exists>data. resp = ResponseOk data) \<and>
           (if ss_mode s = IsolatedMode then the_session d' name = None else tab_keys d' name = {}) \<or>
         (\<exists>body. resp = ResponseError body) \<and> the_session d' name \<noteq> None \<and>
           tab_keys d' name = failing_targets (map_of (dn_browsers d) (ss_browser_host s) \<noteq> None) reply s"
proof -
  let ?cdp = "map_of (dn_browsers d) (ss_browser_host s) \<noteq> None"
  obtain errors d1 where c: "close_targets now ?cdp reply s d = (errors, d1)" by fastforce
  note eff = close_targets_effect[OF assms(1,2) c]
  show ?thesis
  proof (cases errors)
    case (Cons e es)
    with assms(2,3) c have "resp = error_detail DaemonError (show_close_error e) None" "d' = d1"
      by (simp_all add: handle_session_close_def Let_def)
    with eff show ?thesis by (simp add: error_detail_def)
  next
    case Nil
    show ?thesis
    proof (cases "dispose_session_browser_context ?cdp dispose name s")
      case (Inl e)
      with Nil assms(2,3) c have "\<exists>body. resp = ResponseError body" "d' = d1"
        by (auto simp: handle_session_close_def Let_def error_detail_def)
      with eff show ?thesis by simp
    next
      case (Inr b)
      with Nil assms(2,3) c have "resp = closed_response name (length (ss_tabs s))"
        "d' = request_persist (if ss_mode s = IsolatedMode
               then (cancel_dialogs_for_session name d1)\<lparr>dn_sessions := AList.delete name (dn_sessions d1)\<rparr> else d1)"
        by (auto simp: handle_session_close_def Let_def)
      with eff Nil show ?thesis by (simp add: closed_response_def)
    qed
  qed
qed

definition sample_tabs :: daemon_state where
  "sample_tabs = snd (register_session_tab 2 ''agent'' (new_owned_tab ''T2'' ''u'' [])
     (snd (register_session_tab 2 ''agent'' (new_owned_tab ''T1'' ''u'' []) sample_daemon)))"

lemma sample_tabs_inv: "daemon_inv sample_tabs"
  unfolding sample_tabs_def register_session_tab_state
  by (intro register_initialized_inv sample_daemon_inv) (simp_all add: new_owned_tab_def)

theorem session_close_complete_or_retryable_witness:
  "let reply = (\<lambda>t. if t = ''T1'' then Inl ''busy'' else Inr ()) in
   \<exists>s. the_session sample_tabs ''agent'' = Some s \<and>
     tab_keys (snd (handle_session_close 3 ''agent'' reply (Inr ()) sample_tabs)) ''agent'' = failing_targets True reply s"
proof -
  let ?reply = "\<lambda>t. if t = ''T1'' then Inl ''busy'' else Inr () :: string + unit"
  obtain s where s: "the_session sample_tabs ''agent'' = Some s" "ss_browser_host s = ''h2''"
  proof -
    have "map_option ss_browser_host (the_session sample_tabs ''agent'') = Some ''h2''" by code_simp
    then show thesis using that by auto
  qed
  have cdp: "map_of (dn_browsers sample_tabs) ''h2'' \<noteq> None" by code_simp
  obtain resp d' where h: "handle_session_close 3 ''agent'' ?reply (Inr ()) sample_tabs = (resp, d')" by fastforce
  have "\<not> (case fst (handle_session_close 3 ''agent'' ?reply (Inr ()) sample_tabs) of
           ResponseOk _ \<Rightarrow> True | ResponseError _ \<Rightarrow> False)"
    by code_simp
  then show ?thesis
    using session_close_complete_or_retryable[OF sample_tabs_inv s(1) h] s cdp h by (auto simp: Let_def)
qed

subsection \<open>The locks of requests\<close>

lemma check_fields_field:
  "check_fields as_u64 as_i64 cmd allowed entries = Inr () \<Longrightarrow> map_of entries field = Some v \<Longrightarrow>
   \<exists>t. map_of allowed field = Some t \<and> field_accepts as_u64 as_i64 t v"
  by (induction entries) (auto split: option.splits if_splits)

lemma session_field_of_bound_commands:
  "list_all (\<lambda>cmd. cmd = ''act'' \<or>
     (case allowed_request_fields cmd of None \<Rightarrow> False | Some fs \<Rightarrow> map_of fs ''session'' = Some FieldString))
   session_bound_commands"
  by code_simp

text \<open>
  C29: a validated request of a command that works on a session runs under the lock of that session: once
  the fields are accepted, the session is the given name, or the default one, and the handler runs
  with the session's lock, in write mode for the closing of a session and in read mode otherwise. (The
  fields of \<open>act\<close> are checked by its handler.)
\<close>

theorem validated_request_holds_lock:
  assumes "rq_cmd req \<in> set session_bound_commands" and "rq_cmd req \<noteq> ''act''"
    and "validate_request_fields as_u64 as_i64 req = Inr ()"
    and "handle_request now as_u64 as_i64 dispatch req (n, d) = ((lock, resp), n', d')"
  shows "\<exists>name. (json_get ''session'' (rq_params req) = Some (JStr name) \<or>
                 json_get ''session'' (rq_params req) = None \<and> name = ''default'') \<and>
           lock = (if rq_cmd req = ''session.close'' then WriteLock name else ReadLock name) \<and>
           (resp, d') = dispatch req (touch_session now name d)"
proof -
  obtain fs where fs: "allowed_request_fields (rq_cmd req) = Some fs" "map_of fs ''session'' = Some FieldString"
    using session_field_of_bound_commands assms(1,2) by (auto simp: list_all_iff split: option.splits)
  then obtain entries where params: "json_as_object (rq_params req) = Some entries"
      "check_fields as_u64 as_i64 (rq_cmd req) fs entries = Inr ()"
    using assms(3) by (auto simp: validate_request_fields_def Let_def split: option.splits)
  then have obj: "rq_params req = JObj entries" by (cases "rq_params req") auto
  have string: "\<exists>name. v = JStr name" if "map_of entries ''session'' = Some v" for v
    using check_fields_field[OF params(2) that] fs(2) by (auto simp: json_as_str_Some)
  define name where "name = (case map_of entries ''session'' of Some (JStr x) \<Rightarrow> x | _ \<Rightarrow> ''default'')"
  have "request_session_name req = Some name"
    using assms(1) string by (auto simp: request_session_name_def obj name_def split: option.splits json.splits)
  then have "lock = (if rq_cmd req = ''session.close'' then WriteLock name else ReadLock name)"
    "(resp, d') = dispatch req (touch_session now name d)"
    using assms(3,4) by (auto simp: handle_request_def split: prod.splits)
  moreover have "json_get ''session'' (rq_params req) = Some (JStr name) \<or>
      json_get ''session'' (rq_params req) = None \<and> name = ''default''"
    using string by (auto simp: obj name_def split: option.splits json.splits)
  ultimately show ?thesis by blast
qed

theorem validated_request_holds_lock_witness:
  "\<exists>name. name = ''agent'' \<and>
     fst (fst (handle_request 1 (\<lambda>_. None) (\<lambda>_. None) (\<lambda>_ d. (ResponseOk JNull, d))
       \<lparr>rq_cmd = ''close'', rq_params = JObj [(''session'', JStr ''agent'')]\<rparr> (0, sample_daemon))) = ReadLock name"
proof -
  let ?req = "\<lparr>rq_cmd = ''close'', rq_params = JObj [(''session'', JStr ''agent'')]\<rparr>"
  obtain lock resp n' d' where h: "handle_request 1 (\<lambda>_. None) (\<lambda>_. None) (\<lambda>_ d. (ResponseOk JNull, d)) ?req (0, sample_daemon)
      = ((lock, resp), n', d')"
    by (metis prod.collapse)
  have "rq_cmd ?req \<in> set session_bound_commands" "validate_request_fields (\<lambda>_. None) (\<lambda>_. None) ?req = Inr ()"
    by code_simp+
  from validated_request_holds_lock[OF this(1) _ this(2) h] h show ?thesis by auto
qed

subsection \<open>The resolution of a target\<close>

text \<open>
  a command without an explicit target never fails because its target is missing: under the invariant
  of the daemon it resolves to the active tab of its session, with the connection and the CDP session of
  that tab, and the only failures are a missing session, a session without tabs, a disconnected one and a
  malformed field.
\<close>

theorem default_target_resolves:
  assumes "daemon_inv d" and "json_get ''target'' params = None"
  shows "case resolve_session_target d params of
           Inr c \<Rightarrow> (\<exists>s tab. the_session d (tc_session_name c) = Some s \<and> ss_active_target s = Some (tc_target_id c) \<and>
             map_of (ss_tabs s) (tc_target_id c) = Some tab \<and> tb_cdp_session_id tab = tc_cdp_session_id c \<and>
             \<not> ss_disconnected s \<and> map_of (dn_browsers d) (ss_browser_host s) = Some (tc_cdp c))
         | Inl (ResponseError body) \<Rightarrow>
             eb_code body \<in> {InvalidArgument, SessionNotFound, SessionNoTab, ChromeDisconnected} \<and>
             (eb_code body = SessionNoTab \<longrightarrow> (\<exists>name s. the_session d name = Some s \<and> ss_tabs s = []))
         | Inl (ResponseOk data) \<Rightarrow> False"
proof (cases "optional_string_param params ''session''")
  case (Inl e)
  then show ?thesis
    by (auto simp: resolve_session_target_def optional_string_param_def error_detail_def split: option.splits json.splits)
next
  case (Inr session_param)
  define name where "name = or_default ''default'' session_param"
  have target: "optional_string_param params ''target'' = Inr None"
    using assms(2) by (simp add: optional_string_param_def)
  show ?thesis
  proof (cases "the_session d name")
    case None
    then show ?thesis
      using Inr target by (simp add: resolve_session_target_def resolve_session_selection_def name_def Let_def
          session_missing_def error_detail_def)
  next
    case (Some s)
    have active: "active_inv (ss_active_target s) (ss_tabs s)"
      using daemon_inv_session[OF assms(1) Some] by (simp add: session_inv_def)
    have sel: "resolve_session_selection d session_param = Inr name"
      using Some by (simp add: resolve_session_selection_def name_def Let_def)
    show ?thesis
    proof (cases "ss_active_target s")
      case None
      with active Some Inr target sel show ?thesis
        by (auto simp: resolve_session_target_def resolve_target_selection_def error_detail_def active_inv_def)
    next
      case a: (Some a)
      obtain tab where tab: "map_of (ss_tabs s) a = Some tab"
        using active a by (auto simp: active_inv_def keys_iff_map_of)
      show ?thesis
        using Some Inr target sel a tab
        by (auto simp: resolve_session_target_def resolve_target_selection_def check_connected_def error_detail_def
            split: option.splits)
    qed
  qed
qed

theorem default_target_resolves_witness:
  "map_sum (\<lambda>_. ()) tc_target_id (resolve_session_target sample_tabs (JObj [(''session'', JStr ''agent'')])) = Inr ''T2'' \<and>
   (\<exists>s. the_session sample_tabs ''agent'' = Some s \<and> ss_active_target s = Some ''T2'')"
proof -
  have r: "map_sum (\<lambda>_. ()) (\<lambda>c. (tc_session_name c, tc_target_id c))
      (resolve_session_target sample_tabs (JObj [(''session'', JStr ''agent'')])) = Inr (''agent'', ''T2'')"
    by code_simp
  have "json_get ''target'' (JObj [(''session'', JStr ''agent'')]) = None" by code_simp
  note default_target_resolves[OF sample_tabs_inv this]
  with r show ?thesis by (auto simp: map_sum_def split: sum.splits)
qed

subsection \<open>The disconnection of a browser\<close>

lemma disconnect_session_lookup:
  assumes "wf_map (dn_sessions d)"
  shows "the_session (disconnect_session host n d) name =
     map_option (\<lambda>s. if name = n \<and> ss_browser_host s = host then mark_disconnected s else s) (the_session d name)"
  by (cases "the_session d name"; cases "the_session d n"; cases "name = n") (auto simp: disconnect_session_def)

lemma disconnect_session_wf: "wf_map (dn_sessions d) \<Longrightarrow> wf_map (dn_sessions (disconnect_session host n d))"
  by (auto simp: disconnect_session_def split: option.split)

lemma disconnect_fold_lookup:
  "wf_map (dn_sessions d) \<Longrightarrow>
   the_session (fold (disconnect_session host) ns d) name =
     map_option (\<lambda>s. if name \<in> set ns \<and> ss_browser_host s = host then mark_disconnected s else s) (the_session d name)"
proof (induction ns arbitrary: d)
  case Nil
  then show ?case by (simp add: option.map_ident)
next
  case (Cons n ns)
  show ?case
    using Cons.IH[OF disconnect_session_wf[OF Cons.prems], of host n]
    by (cases "the_session d name") (auto simp: disconnect_session_lookup[OF Cons.prems] mark_disconnected_def)
qed

text \<open>
  the loss of a connection disconnects exactly the sessions of its host, and only if the connection is
  the one the host has now: a stale notification of a connection that was replaced changes nothing.
\<close>

theorem connection_loss_is_exact:
  assumes "daemon_inv d"
  shows "(map_of (dn_browsers d) host \<noteq> Some cdp \<longrightarrow> handle_browser_disconnect host cdp d = d) \<and>
         (map_of (dn_browsers d) host = Some cdp \<longrightarrow>
            map_of (dn_browsers (handle_browser_disconnect host cdp d)) = (map_of (dn_browsers d))(host := None) \<and>
            the_session (handle_browser_disconnect host cdp d) name =
              map_option (\<lambda>s. if ss_browser_host s = host then mark_disconnected s else s) (the_session d name))"
proof (intro conjI impI)
  assume lost: "map_of (dn_browsers d) host = Some cdp"
  let ?d = "cancel_browser_background_tasks host (d\<lparr>dn_browsers := AList.delete host (dn_browsers d)\<rparr>)"
  let ?ns = "map fst (filter (\<lambda>(_, s). ss_browser_host s = host) (dn_sessions d))"
  have wf: "wf_map (dn_sessions d)" by (rule daemon_inv_wf[OF assms])
  have ns: "dn_sessions ?d = dn_sessions d" by simp
  have mem: "name \<in> set ?ns" if "the_session d name = Some s" "ss_browser_host s = host" for s
    using map_of_SomeD[OF that(1)] that(2) by force
  have eq: "handle_browser_disconnect host cdp d = request_persist (fold (disconnect_session host) ?ns ?d)"
    using lost ns by (simp add: handle_browser_disconnect_def disconnect_sessions_for_host_def del: sessions_frame)
  have "wf_map (dn_sessions ?d)" using wf by simp
  from disconnect_fold_lookup[OF this, of host ?ns name]
  show "the_session (handle_browser_disconnect host cdp d) name =
          map_option (\<lambda>s. if ss_browser_host s = host then mark_disconnected s else s) (the_session d name)"
    unfolding eq using mem by (cases "the_session d name") auto
  have "dn_browsers (disconnect_session host n d') = dn_browsers d'" for n d'
    by (auto simp: disconnect_session_def cancel_dialogs_for_session_def cancel_console_for_session_def put_session_def
        split: option.split prod.split)
  then have "dn_browsers (fold (disconnect_session host) ns d') = dn_browsers d'" for ns d'
    by (induction ns arbitrary: d') simp_all
  then show "map_of (dn_browsers (handle_browser_disconnect host cdp d)) = (map_of (dn_browsers d))(host := None)"
    unfolding eq by (simp add: request_persist_def cancel_browser_background_tasks_def)
qed (simp add: handle_browser_disconnect_def)

theorem connection_loss_is_exact_witness:
  "handle_browser_disconnect ''h'' 9 sample_daemon = sample_daemon \<and>
   map_option ss_disconnected (the_session (handle_browser_disconnect ''h'' 7 sample_daemon) ''agent'') = Some False"
proof -
  have b: "map_of (dn_browsers sample_daemon) ''h'' = Some 7" by code_simp
  have a: "map_option (\<lambda>s. (ss_browser_host s, ss_disconnected s)) (the_session sample_daemon ''agent'') = Some (''h2'', False)"
    by code_simp
  show ?thesis
    using connection_loss_is_exact[OF sample_daemon_inv, of "''h''" 9 "''agent''"]
      connection_loss_is_exact[OF sample_daemon_inv, of "''h''" 7 "''agent''"] a b
    by (cases "the_session sample_daemon ''agent''") auto
qed

subsection \<open>Watching targets\<close>

text \<open>
  A watcher of targets that cannot subscribe to the events of its browser ends, but its token stays
  registered and is not cancelled, so that every later \<open>ensure_target_watcher\<close> of the host returns it
  and spawns nothing: the host has no watcher until its browser is disconnected.
\<close>

theorem failed_watcher_never_respawned:
  assumes "ensure_target_watcher host fresh d = ((t, True), d1)" and "fresh \<notin> set (dn_cancelled d)"
    and "Inl e \<in> set subscriptions"
  shows "start_target_watcher t subscriptions discover d1 = (False, d1) \<and>
         ensure_target_watcher host later d1 = ((t, False), d1)"
proof -
  have t: "t = fresh" and d1: "d1 = d\<lparr>dn_watchers := AList.update host fresh (dn_watchers d)\<rparr>"
    using assms(1) by (auto simp: ensure_target_watcher_def split: option.splits if_splits)
  have "start_target_watcher t subscriptions discover d1 = (False, d1)"
    using assms(3) by (auto simp: start_target_watcher_def)
  then show ?thesis using t d1 assms(2) by (simp add: ensure_target_watcher_def)
qed

theorem failed_watcher_never_respawned_witness:
  "ensure_target_watcher ''h'' 21 (snd (start_target_watcher 20 [Inr (), Inl ''closed'', Inr ()] (Inr ())
     (snd (ensure_target_watcher ''h'' 20 sample_daemon))))
   = ((20, False), snd (ensure_target_watcher ''h'' 20 sample_daemon))"
proof -
  have "ensure_target_watcher ''h'' 20 sample_daemon = ((20, True), snd (ensure_target_watcher ''h'' 20 sample_daemon))"
    by (simp add: ensure_target_watcher_def sample_daemon_def)
  moreover have "(20 :: nat) \<notin> set (dn_cancelled sample_daemon)" by (simp add: sample_daemon_def)
  moreover have "Inl ''closed'' \<in> set [Inr (), Inl ''closed'', Inr ()]" by simp
  ultimately show ?thesis
    using failed_watcher_never_respawned[of "''h''" 20 sample_daemon 20 _ "''closed''" "[Inr (), Inl ''closed'', Inr ()]" "Inr ()" 21]
    by simp
qed

end
