(* ===== verification/DaemonPersist.thy ===== *)
theory DaemonPersist
  imports DaemonLaws
begin

text \<open>
  The persistence of the daemon's sessions (\<open>src/src/daemon/persist.rs\<close>): the schema of \<open>state.json\<close>,
  its validation, loading it and building it. The text of the file is parsed by \<open>serde_json\<close>, so
  loading starts from the parsed value; \<open>num\<close> and \<open>as_u64\<close> are its number constructor and accessor,
  \<open>serde_message\<close> is the message of its schema errors, and strings are the UTF-8 bytes.
\<close>

declare map_of_eq_Some_iff [simp del] and Some_eq_map_of_iff [simp del]

subsection \<open>The schema\<close>

record persisted_tab =
  pt_target_id :: ident
  pt_url :: string
  pt_title :: string
  pt_ownership :: tab_ownership

record persisted_session =
  ps_name :: string
  ps_mode :: session_mode
  ps_browser_host :: string
  ps_context_id :: "ident option"
  ps_tabs :: "persisted_tab list"
  ps_active_target :: "ident option"
  ps_created_at :: u64
  ps_last_active :: u64
  ps_disconnected :: bool

definition persisted_tab_of :: "session_tab \<Rightarrow> persisted_tab" where
  "persisted_tab_of tab =
     \<lparr>pt_target_id = tb_target_id tab, pt_url = tb_url tab, pt_title = tb_title tab, pt_ownership = tb_ownership tab\<rparr>"

definition from_session :: "session \<Rightarrow> persisted_session" where
  "from_session s =
     \<lparr>ps_name = ss_name s, ps_mode = ss_mode s, ps_browser_host = ss_browser_host s, ps_context_id = ss_context_id s,
      ps_tabs = sort_key pt_target_id (map (persisted_tab_of \<circ> snd) (ss_tabs s)),
      ps_active_target = ss_active_target s, ps_created_at = ss_created_at s, ps_last_active = ss_last_active s,
      ps_disconnected = ss_disconnected s\<rparr>"

definition restored_tab :: "persisted_tab \<Rightarrow> session_tab" where
  "restored_tab t =
     (case pt_ownership t of
        OwnedTab \<Rightarrow> new_owned_tab (pt_target_id t) (pt_url t) (pt_title t)
      | AttachedTab \<Rightarrow> new_attached_tab (pt_target_id t) (pt_url t) (pt_title t) [])"

definition into_session :: "persisted_session \<Rightarrow> session" where
  "into_session p =
     \<lparr>ss_name = ps_name p, ss_mode = ps_mode p, ss_browser_host = ps_browser_host p, ss_context_id = ps_context_id p,
      ss_tabs = fold (\<lambda>t. AList.update (pt_target_id t) (restored_tab t)) (ps_tabs p) [],
      ss_active_target = ps_active_target p, ss_created_at = ps_created_at p, ss_last_active = ps_last_active p,
      ss_disconnected = ps_disconnected p, ss_reservations = 0\<rparr>"

record persisted_state =
  pe_version :: "32 word"
  pe_sessions :: "persisted_session list"

definition current_version :: "32 word" where
  "current_version = 1"

definition empty_state :: persisted_state where
  "empty_state = \<lparr>pe_version = current_version, pe_sessions = []\<rparr>"

record load_result =
  lr_state :: persisted_state
  lr_disabled :: bool
  lr_reason :: "string option"

definition disabled_empty_result :: "string \<Rightarrow> load_result" where
  "disabled_empty_result reason = \<lparr>lr_state = empty_state, lr_disabled = True, lr_reason = Some reason\<rparr>"

subsection \<open>Validation\<close>

definition in_session :: "string \<Rightarrow> string \<Rightarrow> string" where
  "in_session name rest = ''session '' @ [CHR 0x27] @ name @ [CHR 0x27] @ '' '' @ rest"

definition validate_names :: "persisted_session \<Rightarrow> string set \<Rightarrow> string + unit" where
  "validate_names p names =
     and_then (ensure (str_trim (ps_name p) \<noteq> []) ''session name must not be empty'') (\<lambda>_.
     and_then (ensure (str_trim (ps_name p) = ps_name p)
       (''session name '' @ [CHR 0x27] @ ps_name p @ [CHR 0x27] @ '' must not contain surrounding whitespace'')) (\<lambda>_.
     and_then (ensure (ps_name p \<notin> names) (''duplicate session name: '' @ ps_name p)) (\<lambda>_.
     and_then (ensure (str_trim (ps_browser_host p) \<noteq> []) (in_session (ps_name p) ''browser_host must not be empty'')) (\<lambda>_.
     ensure (str_trim (ps_browser_host p) = ps_browser_host p)
       (in_session (ps_name p) ''browser_host must not contain surrounding whitespace'')))))"

definition validate_mode :: "persisted_session \<Rightarrow> string + unit" where
  "validate_mode p =
     (if ps_name p = ''default''
      then case ps_mode p of
        DefaultMode \<Rightarrow> ensure (ps_context_id p = None) ''default session must not have a browser_context_id''
      | IsolatedMode \<Rightarrow> Inl ''default session must use default mode''
      else case ps_mode p of
        DefaultMode \<Rightarrow> Inl (''named '' @ in_session (ps_name p) ''must use isolated mode'')
      | IsolatedMode \<Rightarrow>
          (case ps_context_id p of
             None \<Rightarrow> Inl (''isolated '' @ in_session (ps_name p) ''requires browser_context_id'')
           | Some ctx \<Rightarrow>
               and_then (ensure (str_trim ctx \<noteq> []) (''isolated '' @ in_session (ps_name p) ''requires browser_context_id'')) (\<lambda>_.
               ensure (str_trim ctx = ctx)
                 (''isolated '' @ in_session (ps_name p) ''browser_context_id must not contain surrounding whitespace''))))"

text \<open>The loop over the tabs of a session, with the targets of the session and those of all sessions.\<close>

fun validate_tabs ::
  "string \<Rightarrow> session_mode \<Rightarrow> persisted_tab list \<Rightarrow> ident set \<times> ident set \<Rightarrow> string + ident set \<times> ident set" where
  "validate_tabs name mode [] acc = Inr acc"
| "validate_tabs name mode (t # ts) (here, owned) =
     and_then (ensure (str_trim (pt_target_id t) \<noteq> []) (in_session name ''tab target_id must not be empty'')) (\<lambda>_.
     and_then (ensure (str_trim (pt_target_id t) = pt_target_id t)
       (in_session name ''tab target_id must not contain surrounding whitespace'')) (\<lambda>_.
     and_then (ensure (pt_target_id t \<notin> here)
       (''duplicate tab target_id '' @ [CHR 0x27] @ pt_target_id t @ [CHR 0x27] @ '' in session ''
        @ [CHR 0x27] @ name @ [CHR 0x27])) (\<lambda>_.
     and_then (ensure (pt_target_id t \<notin> owned)
       (''target_id '' @ [CHR 0x27] @ pt_target_id t @ [CHR 0x27] @ '' belongs to multiple sessions'')) (\<lambda>_.
     and_then (ensure (\<not> (mode = IsolatedMode \<and> pt_ownership t = AttachedTab))
       (''isolated '' @ in_session name (''contains attached tab '' @ [CHR 0x27] @ pt_target_id t @ [CHR 0x27]))) (\<lambda>_.
     validate_tabs name mode ts (insert (pt_target_id t) here, insert (pt_target_id t) owned))))))"

definition validate_active :: "persisted_session \<Rightarrow> ident set \<Rightarrow> string + unit" where
  "validate_active p here =
     (case ps_active_target p of
        Some active \<Rightarrow>
          and_then (ensure (str_trim active \<noteq> []) (in_session (ps_name p) ''active_target must not be empty'')) (\<lambda>_.
          and_then (ensure (str_trim active = active)
            (in_session (ps_name p) ''active_target must not contain surrounding whitespace'')) (\<lambda>_.
          ensure (active \<in> here)
            (in_session (ps_name p) (''active_target '' @ [CHR 0x27] @ active @ [CHR 0x27] @ '' is not in tabs''))))
      | None \<Rightarrow>
          ensure (ps_tabs p = []) (in_session (ps_name p) ''active_target is required when tabs are present''))"

fun validate_sessions :: "persisted_session list \<Rightarrow> string set \<Rightarrow> ident set \<Rightarrow> string + unit" where
  "validate_sessions [] names owned = Inr ()"
| "validate_sessions (p # ps) names owned =
     and_then (validate_names p names) (\<lambda>_.
     and_then (validate_mode p) (\<lambda>_.
     and_then (validate_tabs (ps_name p) (ps_mode p) (ps_tabs p) ({}, owned)) (\<lambda>(here, owned').
     and_then (validate_active p here) (\<lambda>_.
     validate_sessions ps (insert (ps_name p) names) owned'))))"

definition validate_persisted_state :: "persisted_state \<Rightarrow> string + unit" where
  "validate_persisted_state st = validate_sessions (pe_sessions st) {} {}"

subsection \<open>The JSON of the schema\<close>

definition json_opt :: "ident option \<Rightarrow> json" where
  "json_opt x = (case x of None \<Rightarrow> JNull | Some v \<Rightarrow> JStr v)"

definition mode_json :: "session_mode \<Rightarrow> json" where
  "mode_json m = JStr (case m of DefaultMode \<Rightarrow> ''default'' | IsolatedMode \<Rightarrow> ''isolated'')"

definition ownership_json :: "tab_ownership \<Rightarrow> json" where
  "ownership_json w = JStr (case w of OwnedTab \<Rightarrow> ''owned'' | AttachedTab \<Rightarrow> ''attached'')"

definition tab_json :: "persisted_tab \<Rightarrow> json" where
  "tab_json t =
     JObj [(''target_id'', JStr (pt_target_id t)), (''url'', JStr (pt_url t)), (''title'', JStr (pt_title t)),
           (''ownership'', ownership_json (pt_ownership t))]"

definition session_json :: "(u64 \<Rightarrow> json) \<Rightarrow> persisted_session \<Rightarrow> json" where
  "session_json num p =
     JObj [(''name'', JStr (ps_name p)), (''mode'', mode_json (ps_mode p)), (''browser_host'', JStr (ps_browser_host p)),
           (''browser_context_id'', json_opt (ps_context_id p)), (''tabs'', JArr (map tab_json (ps_tabs p))),
           (''active_target'', json_opt (ps_active_target p)), (''created_at'', num (ps_created_at p)),
           (''last_active'', num (ps_last_active p)), (''disconnected'', JBool (ps_disconnected p))]"

definition state_json :: "(u64 \<Rightarrow> json) \<Rightarrow> persisted_state \<Rightarrow> json" where
  "state_json num st =
     JObj [(''version'', num (ucast (pe_version st))), (''sessions'', JArr (map (session_json num) (pe_sessions st)))]"

text \<open>
  Reading an object of a schema: unknown fields are refused, a missing optional field is \<open>None\<close>, and a
  missing field with a default takes it.
\<close>

definition known_fields :: "string list \<Rightarrow> json \<Rightarrow> (string \<times> json) list option" where
  "known_fields known v =
     (case v of JObj fs \<Rightarrow> if list_all (\<lambda>(k, _). k \<in> set known) fs then Some fs else None | _ \<Rightarrow> None)"

definition read_str :: "(string \<times> json) list \<Rightarrow> string \<Rightarrow> string option" where
  "read_str fs key = Option.bind (map_of fs key) json_as_str"

definition read_opt :: "(string \<times> json) list \<Rightarrow> string \<Rightarrow> ident option option" where
  "read_opt fs key =
     (case map_of fs key of
        None \<Rightarrow> Some None
      | Some JNull \<Rightarrow> Some None
      | Some (JStr v) \<Rightarrow> Some (Some v)
      | Some _ \<Rightarrow> None)"

definition read_mode :: "(string \<times> json) list \<Rightarrow> session_mode option" where
  "read_mode fs =
     Option.bind (read_str fs ''mode'')
       (\<lambda>m. if m = ''default'' then Some DefaultMode else if m = ''isolated'' then Some IsolatedMode else None)"

definition read_ownership :: "(string \<times> json) list \<Rightarrow> tab_ownership option" where
  "read_ownership fs =
     (case map_of fs ''ownership'' of
        None \<Rightarrow> Some OwnedTab
      | Some v \<Rightarrow>
          Option.bind (json_as_str v)
            (\<lambda>w. if w = ''owned'' then Some OwnedTab else if w = ''attached'' then Some AttachedTab else None))"

definition tab_of_json :: "json \<Rightarrow> persisted_tab option" where
  "tab_of_json v =
     Option.bind (known_fields [''target_id'', ''url'', ''title'', ''ownership''] v) (\<lambda>fs.
     Option.bind (read_str fs ''target_id'') (\<lambda>target.
     Option.bind (read_str fs ''url'') (\<lambda>url.
     Option.bind (read_str fs ''title'') (\<lambda>title.
     Option.bind (read_ownership fs) (\<lambda>ownership.
       Some \<lparr>pt_target_id = target, pt_url = url, pt_title = title, pt_ownership = ownership\<rparr>)))))"

fun all_some :: "'a option list \<Rightarrow> 'a list option" where
  "all_some [] = Some []"
| "all_some (None # xs) = None"
| "all_some (Some x # xs) = map_option ((#) x) (all_some xs)"

definition read_list :: "(json \<Rightarrow> 'a option) \<Rightarrow> (string \<times> json) list \<Rightarrow> string \<Rightarrow> 'a list option" where
  "read_list f fs key = (case map_of fs key of Some (JArr vs) \<Rightarrow> all_some (map f vs) | _ \<Rightarrow> None)"

definition session_of_json :: "(json \<Rightarrow> u64 option) \<Rightarrow> json \<Rightarrow> persisted_session option" where
  "session_of_json as_u64 v =
     Option.bind (known_fields [''name'', ''mode'', ''browser_host'', ''browser_context_id'', ''tabs'', ''active_target'',
                                ''created_at'', ''last_active'', ''disconnected''] v) (\<lambda>fs.
     Option.bind (read_str fs ''name'') (\<lambda>name.
     Option.bind (read_mode fs) (\<lambda>mode.
     Option.bind (read_str fs ''browser_host'') (\<lambda>host.
     Option.bind (read_opt fs ''browser_context_id'') (\<lambda>ctx.
     Option.bind (read_list tab_of_json fs ''tabs'') (\<lambda>tabs.
     Option.bind (read_opt fs ''active_target'') (\<lambda>active.
     Option.bind (Option.bind (map_of fs ''created_at'') as_u64) (\<lambda>created.
     Option.bind (Option.bind (map_of fs ''last_active'') as_u64) (\<lambda>active_at.
     Option.bind (case map_of fs ''disconnected'' of None \<Rightarrow> Some False | Some b \<Rightarrow> json_as_bool b) (\<lambda>disconnected.
       Some \<lparr>ps_name = name, ps_mode = mode, ps_browser_host = host, ps_context_id = ctx, ps_tabs = tabs,
             ps_active_target = active, ps_created_at = created, ps_last_active = active_at,
             ps_disconnected = disconnected\<rparr>))))))))))"

definition state_of_json :: "(json \<Rightarrow> u64 option) \<Rightarrow> json \<Rightarrow> persisted_state option" where
  "state_of_json as_u64 v =
     Option.bind (known_fields [''version'', ''sessions''] v) (\<lambda>fs.
     Option.bind (Option.bind (map_of fs ''version'') as_u64) (\<lambda>version.
     Option.bind (read_list (session_of_json as_u64) fs ''sessions'') (\<lambda>sessions.
       if unat version < 2 ^ 32 then Some \<lparr>pe_version = ucast version, pe_sessions = sessions\<rparr> else None)))"

subsection \<open>Loading and building\<close>

text \<open>What reading the file gives: no file, an error, text that is not JSON, or its value.\<close>

datatype file_content = FileMissing | FileError string | FileNotJson string | FileValue json

definition load_state_from_path ::
  "(json \<Rightarrow> u64 option) \<Rightarrow> (u64 \<Rightarrow> string) \<Rightarrow> (json \<Rightarrow> string) \<Rightarrow> file_content \<Rightarrow> load_result" where
  "load_state_from_path as_u64 show_u64 serde_message content =
     (case content of
        FileMissing \<Rightarrow> \<lparr>lr_state = empty_state, lr_disabled = False, lr_reason = None\<rparr>
      | FileError e \<Rightarrow> disabled_empty_result (''failed to read state.json: '' @ e)
      | FileNotJson e \<Rightarrow> disabled_empty_result (''state.json is not valid JSON: '' @ e)
      | FileValue v \<Rightarrow>
          (case Option.bind (json_get ''version'' v) as_u64 of
             None \<Rightarrow> disabled_empty_result ''state.json is missing a numeric version''
           | Some version \<Rightarrow>
               if version \<noteq> ucast current_version
               then disabled_empty_result (''unsupported state version '' @ show_u64 version)
               else (case state_of_json as_u64 v of
                       None \<Rightarrow> disabled_empty_result (''state.json is not valid schema v1: '' @ serde_message v)
                     | Some st \<Rightarrow>
                         (case validate_persisted_state st of
                            Inr _ \<Rightarrow> \<lparr>lr_state = st, lr_disabled = False, lr_reason = None\<rparr>
                          | Inl e \<Rightarrow> disabled_empty_result (''state.json is not valid schema v1: '' @ e)))))"

text \<open>The flags of persistence in the daemon.\<close>

record persist_flags =
  pf_disabled :: bool
  pf_disabled_reason :: "string option"
  pf_last_error :: "string option"

definition new_flags :: persist_flags where
  "new_flags = \<lparr>pf_disabled = False, pf_disabled_reason = None, pf_last_error = None\<rparr>"

definition prepare_loaded_state :: "load_result \<Rightarrow> persist_flags \<times> daemon_state \<Rightarrow> persist_flags \<times> daemon_state" where
  "prepare_loaded_state loaded fd =
     (case fd of (f, d) \<Rightarrow>
        (f\<lparr>pf_disabled := lr_disabled loaded \<or> pf_disabled f, pf_disabled_reason := lr_reason loaded\<rparr>,
         fold (\<lambda>p. put_session (ps_name p) (mark_disconnected (into_session p))) (pe_sessions (lr_state loaded)) d))"

definition build_persisted_state :: "daemon_state \<Rightarrow> persisted_state" where
  "build_persisted_state d =
     \<lparr>pe_version = current_version, pe_sessions = sort_key ps_name (map (from_session \<circ> snd) (dn_sessions d))\<rparr>"

definition record_runtime_persist_result :: "string + unit \<Rightarrow> persist_flags \<Rightarrow> (string + unit) \<times> persist_flags" where
  "record_runtime_persist_result result f =
     (case result of
        Inr _ \<Rightarrow> (Inr (), f\<lparr>pf_last_error := None\<rparr>)
      | Inl e \<Rightarrow> (Inl e, f\<lparr>pf_last_error := Some e\<rparr>))"

text \<open>
  \<open>do_persist\<close>: nothing is written while persistence is disabled; otherwise \<open>write\<close> is the outcome of
  writing the state. Returns the result and what was written.
\<close>

definition do_persist ::
  "(u64 \<Rightarrow> json) \<Rightarrow> string + unit \<Rightarrow> persist_flags \<Rightarrow> daemon_state \<Rightarrow> ((string + unit) \<times> json option) \<times> persist_flags" where
  "do_persist num write f d =
     (if pf_disabled f then ((Inl (or_default ''persistence is disabled'' (pf_disabled_reason f)), None), f)
      else case record_runtime_persist_result write f of
        (result, f') \<Rightarrow>
          ((result, if write = Inr () then Some (state_json num (build_persisted_state d)) else None), f'))"

subsection \<open>The JSON round trip\<close>

lemma all_some_map: "(\<And>x. x \<in> set xs \<Longrightarrow> f (g x) = Some x) \<Longrightarrow> all_some (map f (map g xs)) = Some xs"
  by (induction xs) auto

lemma tab_json_roundtrip: "tab_of_json (tab_json t) = Some t"
  by (cases t; cases "pt_ownership t")
     (simp_all add: tab_of_json_def tab_json_def known_fields_def read_str_def read_ownership_def ownership_json_def)

lemma read_opt_json [simp]: "map_of fs key = Some (json_opt x) \<Longrightarrow> read_opt fs key = Some x"
  by (cases x) (simp_all add: read_opt_def json_opt_def)

lemma session_json_roundtrip:
  assumes "\<And>w. as_u64 (num w) = Some w"
  shows "session_of_json as_u64 (session_json num p) = Some p"
proof -
  have tabs: "read_list tab_of_json fs ''tabs'' = Some (ps_tabs p)"
    if "map_of fs ''tabs'' = Some (JArr (map tab_json (ps_tabs p)))" for fs
    using that all_some_map[of "ps_tabs p" tab_of_json tab_json] tab_json_roundtrip by (simp add: read_list_def)
  have mode: "read_mode fs = Some (ps_mode p)" if "map_of fs ''mode'' = Some (mode_json (ps_mode p))" for fs
    using that by (cases "ps_mode p") (simp_all add: read_mode_def read_str_def mode_json_def)
  show ?thesis
    by (simp add: session_of_json_def session_json_def known_fields_def read_str_def assms tabs mode)
qed

lemma state_json_roundtrip:
  assumes "\<And>w. as_u64 (num w) = Some w"
  shows "state_of_json as_u64 (state_json num st) = Some st"
proof -
  have "read_list (session_of_json as_u64) fs ''sessions'' = Some (pe_sessions st)"
    if "map_of fs ''sessions'' = Some (JArr (map (session_json num) (pe_sessions st)))" for fs
    using that all_some_map[of "pe_sessions st" "session_of_json as_u64" "session_json num"]
      session_json_roundtrip[of as_u64 num, OF assms] by (simp add: read_list_def)
  moreover have up: "unat (ucast (pe_version st) :: u64) = unat (pe_version st)"
    using unsigned_less[of "pe_version st", where 'a = nat] by (simp add: unsigned_ucast_eq take_bit_nat_eq_self_iff)
  moreover have "unat (pe_version st) < 2 ^ 32"
    using unsigned_less[of "pe_version st", where 'a = nat] by simp
  moreover have "ucast (ucast (pe_version st) :: u64) = pe_version st"
    using unsigned_less[of "pe_version st", where 'a = nat] up
    by (simp add: word_unat_eq_iff unsigned_ucast_eq[where 'c = 32] take_bit_nat_eq_self_iff)
  ultimately show ?thesis
    by (simp add: state_of_json_def state_json_def known_fields_def assms)
qed

subsection \<open>What validation accepts\<close>

definition clean :: "string \<Rightarrow> bool" where
  "clean s \<longleftrightarrow> s \<noteq> [] \<and> str_trim s = s"

definition target_ids :: "persisted_session \<Rightarrow> ident set" where
  "target_ids p = pt_target_id ` set (ps_tabs p)"

definition persisted_ok :: "persisted_session \<Rightarrow> bool" where
  "persisted_ok p \<longleftrightarrow>
     clean (ps_name p) \<and> clean (ps_browser_host p) \<and> validate_mode p = Inr () \<and>
     distinct (map pt_target_id (ps_tabs p)) \<and> (\<forall>t \<in> target_ids p. clean t) \<and>
     (\<forall>t \<in> set (ps_tabs p). ps_mode p = IsolatedMode \<longrightarrow> pt_ownership t = OwnedTab) \<and>
     (case ps_active_target p of None \<Rightarrow> ps_tabs p = [] | Some a \<Rightarrow> a \<in> target_ids p)"

lemma validate_tabs_accepts:
  assumes "distinct (map pt_target_id ts)" and "\<forall>t \<in> set ts. clean (pt_target_id t)"
    and "pt_target_id ` set ts \<inter> (here \<union> owned) = {}"
    and "\<forall>t \<in> set ts. mode = IsolatedMode \<longrightarrow> pt_ownership t = OwnedTab"
  shows "validate_tabs name mode ts (here, owned) = Inr (here \<union> pt_target_id ` set ts, owned \<union> pt_target_id ` set ts)"
  using assms
proof (induction ts arbitrary: here owned)
  case (Cons t ts)
  have "validate_tabs name mode ts (insert (pt_target_id t) here, insert (pt_target_id t) owned)
      = Inr (insert (pt_target_id t) here \<union> pt_target_id ` set ts, insert (pt_target_id t) owned \<union> pt_target_id ` set ts)"
    by (rule Cons.IH) (use Cons.prems in auto)
  then show ?case
    using Cons.prems by (simp add: and_then_def ensure_def clean_def)
qed simp

lemma validate_active_accepts:
  assumes "persisted_ok p"
  shows "validate_active p (target_ids p) = Inr ()"
  using assms
  by (auto simp: persisted_ok_def validate_active_def and_then_def ensure_def clean_def split: option.splits)

lemma validate_sessions_accepts:
  assumes "\<forall>p \<in> set ps. persisted_ok p" and "distinct (map ps_name ps)"
    and "\<forall>p \<in> set ps. \<forall>q \<in> set ps. ps_name p \<noteq> ps_name q \<longrightarrow> target_ids p \<inter> target_ids q = {}"
    and "ps_name ` set ps \<inter> names = {}" and "\<forall>p \<in> set ps. target_ids p \<inter> owned = {}"
  shows "validate_sessions ps names owned = Inr ()"
  using assms
proof (induction ps arbitrary: names owned)
  case (Cons p ps)
  have ok: "persisted_ok p" using Cons.prems(1) by simp
  have names: "validate_names p names = Inr ()"
    using ok Cons.prems(4) by (simp add: validate_names_def and_then_def ensure_def persisted_ok_def clean_def)
  have tabs: "validate_tabs (ps_name p) (ps_mode p) (ps_tabs p) ({}, owned) = Inr (target_ids p, owned \<union> target_ids p)"
    using validate_tabs_accepts[of "ps_tabs p" "{}" owned "ps_mode p" "ps_name p"] ok Cons.prems(5)
    by (simp add: persisted_ok_def target_ids_def)
  have "validate_sessions ps (insert (ps_name p) names) (owned \<union> target_ids p) = Inr ()"
  proof (rule Cons.IH)
    show "\<forall>q \<in> set ps. target_ids q \<inter> (owned \<union> target_ids p) = {}"
    proof
      fix q assume q: "q \<in> set ps"
      then have "ps_name p \<noteq> ps_name q" using Cons.prems(2) by auto
      then have "target_ids p \<inter> target_ids q = {}" using Cons.prems(3) q by simp
      with Cons.prems(5) q show "target_ids q \<inter> (owned \<union> target_ids p) = {}" by auto
    qed
  qed (use Cons.prems(1-4) in auto)
  with ok names tabs validate_active_accepts[OF ok] show ?case
    by (simp add: and_then_def persisted_ok_def)
qed simp

lemma validate_sessions_names:
  "validate_sessions ps names owned = Inr () \<Longrightarrow> p \<in> set ps \<Longrightarrow> clean (ps_name p)"
proof (induction ps arbitrary: names owned)
  case (Cons q ps)
  then obtain here owned' where "validate_names q names = Inr ()"
    "validate_sessions ps (insert (ps_name q) names) owned' = Inr ()"
    by (auto simp: and_then_Inr)
  moreover from this(1) have "clean (ps_name q)"
    by (auto simp: validate_names_def and_then_Inr ensure_Inr clean_def)
  ultimately show ?case using Cons.IH Cons.prems(2) by auto
qed simp

subsection \<open>The sessions that are built\<close>

text \<open>The identifiers of a session are not empty and not padded.\<close>

definition clean_session :: "string \<Rightarrow> session \<Rightarrow> bool" where
  "clean_session name s \<longleftrightarrow>
     clean name \<and> clean (ss_browser_host s) \<and> (\<forall>ctx. ss_context_id s = Some ctx \<longrightarrow> clean ctx) \<and>
     (\<forall>t \<in> keys (ss_tabs s). clean t)"

lemma set_sort_key: "set (sort_key f xs) = set xs"
  by simp

lemma distinct_map_sort_key: "distinct (map f (sort_key g xs)) = distinct (map f xs)"
  by (metis mset_eq_imp_distinct_iff mset_map mset_sort)

lemma tab_ids:
  assumes "session_inv name s"
  shows "map pt_target_id (map (persisted_tab_of \<circ> snd) (ss_tabs s)) = map fst (ss_tabs s)"
proof -
  have wf: "wf_map (ss_tabs s)" using assms by (simp add: session_inv_def tabs_inv_def)
  have "pt_target_id (persisted_tab_of tab) = k" if "(k, tab) \<in> set (ss_tabs s)" for k tab
    using session_inv_tab[OF assms map_of_is_SomeI[OF wf that]] by (simp add: persisted_tab_of_def)
  then show ?thesis by auto
qed

lemma from_session_facts:
  assumes "session_inv name s"
  shows "ps_name (from_session s) = name" and "target_ids (from_session s) = keys (ss_tabs s)"
    and "distinct (map pt_target_id (ps_tabs (from_session s)))"
proof -
  have wf: "wf_map (ss_tabs s)" using assms by (simp add: session_inv_def tabs_inv_def)
  show "ps_name (from_session s) = name" using assms by (simp add: from_session_def session_inv_def)
  have "target_ids (from_session s) = set (map pt_target_id (map (persisted_tab_of \<circ> snd) (ss_tabs s)))"
    by (simp add: target_ids_def from_session_def image_image)
  then show "target_ids (from_session s) = keys (ss_tabs s)" unfolding tab_ids[OF assms] by simp
  have "distinct (map pt_target_id (ps_tabs (from_session s)))
      = distinct (map pt_target_id (map (persisted_tab_of \<circ> snd) (ss_tabs s)))"
    by (simp only: from_session_def persisted_session.select_convs distinct_map_sort_key)
  then show "distinct (map pt_target_id (ps_tabs (from_session s)))" unfolding tab_ids[OF assms] using wf by simp
qed

lemma from_session_ok:
  assumes "session_inv name s" and "clean_session name s"
  shows "persisted_ok (from_session s)"
proof -
  note facts = from_session_facts[OF assms(1)]
  have wf: "wf_map (ss_tabs s)" using assms(1) by (simp add: session_inv_def tabs_inv_def)
  have owned: "pt_ownership t = OwnedTab" if h: "t \<in> set (ps_tabs (from_session s))" "ss_mode s = IsolatedMode" for t
  proof -
    have "t \<in> (persisted_tab_of \<circ> snd) ` set (ss_tabs s)" using h(1) by (simp add: from_session_def)
    then obtain kv where kv: "kv \<in> set (ss_tabs s)" "t = persisted_tab_of (snd kv)" by auto
    then have "map_of (ss_tabs s) (fst kv) = Some (snd kv)" using wf by (simp add: map_of_is_SomeI)
    from session_inv_tab[OF assms(1) this] h(2) kv(2) show ?thesis by (simp add: persisted_tab_of_def)
  qed
  have mode: "validate_mode (from_session s) = Inr ()"
    using assms by (cases "ss_mode s"; cases "ss_context_id s")
      (simp_all add: validate_mode_def from_session_def session_inv_def clean_session_def and_then_def ensure_def clean_def)
  have active: "case ps_active_target (from_session s) of None \<Rightarrow> ps_tabs (from_session s) = []
      | Some a \<Rightarrow> a \<in> target_ids (from_session s)"
    using assms(1) facts(2) by (cases "ss_active_target s") (simp_all add: session_inv_def active_inv_def from_session_def)
  show ?thesis
    unfolding persisted_ok_def
    using facts owned mode active assms(2) by (simp add: clean_session_def from_session_def)
qed

lemma build_sessions_set:
  "set (pe_sessions (build_persisted_state d)) = from_session ` snd ` set (dn_sessions d)"
  by (simp add: build_persisted_state_def image_image)

lemma build_sessions_of:
  assumes "daemon_inv d" and "p \<in> set (pe_sessions (build_persisted_state d))"
  obtains name s where "the_session d name = Some s" and "session_inv name s" and "p = from_session s" and "ps_name p = name"
proof -
  obtain kv where kv: "kv \<in> set (dn_sessions d)" "p = from_session (snd kv)"
    using assms(2) unfolding build_sessions_set by blast
  then have s: "the_session d (fst kv) = Some (snd kv)"
    using daemon_inv_wf[OF assms(1)] by (simp add: map_of_is_SomeI)
  note inv = daemon_inv_session[OF assms(1) s]
  show thesis by (rule that[OF s inv kv(2)]) (simp add: kv(2) from_session_facts(1)[OF inv])
qed

lemma build_sessions_mem:
  "the_session d name = Some s \<Longrightarrow> from_session s \<in> set (pe_sessions (build_persisted_state d))"
  using map_of_SomeD[of "dn_sessions d" name s] unfolding build_sessions_set by force

lemma build_names_distinct:
  assumes "daemon_inv d"
  shows "distinct (map ps_name (pe_sessions (build_persisted_state d)))"
proof -
  have wf: "wf_map (dn_sessions d)" by (rule daemon_inv_wf[OF assms])
  have "ps_name (from_session s) = k" if "(k, s) \<in> set (dn_sessions d)" for k s
    by (rule from_session_facts(1)[OF daemon_inv_session[OF assms map_of_is_SomeI[OF wf that]]])
  then have "map ps_name (map (from_session \<circ> snd) (dn_sessions d)) = map fst (dn_sessions d)" by auto
  with wf show ?thesis
    by (simp only: build_persisted_state_def persisted_state.select_convs distinct_map_sort_key)
qed

lemma build_validates:
  assumes "daemon_inv d" and "\<And>name s. the_session d name = Some s \<Longrightarrow> clean_session name s"
  shows "validate_persisted_state (build_persisted_state d) = Inr ()"
  unfolding validate_persisted_state_def
proof (rule validate_sessions_accepts)
  let ?ps = "pe_sessions (build_persisted_state d)"
  show "\<forall>p \<in> set ?ps. persisted_ok p"
  proof
    fix p assume "p \<in> set ?ps"
    then obtain name s where "the_session d name = Some s" "session_inv name s" "p = from_session s"
      by (rule build_sessions_of[OF assms(1)])
    with assms(2) show "persisted_ok p" by (simp add: from_session_ok)
  qed
  show "distinct (map ps_name ?ps)" by (rule build_names_distinct[OF assms(1)])
  show "\<forall>p \<in> set ?ps. \<forall>q \<in> set ?ps. ps_name p \<noteq> ps_name q \<longrightarrow> target_ids p \<inter> target_ids q = {}"
  proof (intro ballI impI)
    fix p q assume pq: "p \<in> set ?ps" "q \<in> set ?ps" "ps_name p \<noteq> ps_name q"
    obtain n s where p: "the_session d n = Some s" "session_inv n s" "p = from_session s" "ps_name p = n"
      using pq(1) by (rule build_sessions_of[OF assms(1)])
    obtain m r where q: "the_session d m = Some r" "session_inv m r" "q = from_session r" "ps_name q = m"
      using pq(2) by (rule build_sessions_of[OF assms(1)])
    have "n \<noteq> m" using pq(3) p(4) q(4) by simp
    then show "target_ids p \<inter> target_ids q = {}"
      using daemon_inv_owner[OF assms(1) p(1) q(1)] p(3) q(3) from_session_facts(2)[OF p(2)] from_session_facts(2)[OF q(2)]
      by auto
  qed
qed simp_all

subsection \<open>Restoring sessions\<close>

lemma fold_put_lookup:
  "distinct (map ps_name ps) \<Longrightarrow>
   (\<forall>p \<in> set ps. the_session (fold (\<lambda>p. put_session (ps_name p) (g p)) ps d) (ps_name p) = Some (g p)) \<and>
   (\<forall>name. name \<notin> ps_name ` set ps \<longrightarrow>
      the_session (fold (\<lambda>p. put_session (ps_name p) (g p)) ps d) name = the_session d name)"
  by (induction ps arbitrary: d) auto

lemma fold_update_lookup:
  "distinct (map pt_target_id ts) \<Longrightarrow>
   (\<forall>t \<in> set ts. map_of (fold (\<lambda>t. AList.update (pt_target_id t) (f t)) ts m) (pt_target_id t) = Some (f t)) \<and>
   (\<forall>k. k \<notin> pt_target_id ` set ts \<longrightarrow>
      map_of (fold (\<lambda>t. AList.update (pt_target_id t) (f t)) ts m) k = map_of m k)"
  by (induction ts arbitrary: m) auto

text \<open>A session as it is after a restart: disconnected, its tabs without CDP session and console.\<close>

definition restored_from :: "session \<Rightarrow> session \<Rightarrow> bool" where
  "restored_from s s' \<longleftrightarrow>
     ss_name s' = ss_name s \<and> ss_mode s' = ss_mode s \<and> ss_browser_host s' = ss_browser_host s \<and>
     ss_context_id s' = ss_context_id s \<and> ss_active_target s' = ss_active_target s \<and>
     ss_created_at s' = ss_created_at s \<and> ss_last_active s' = ss_last_active s \<and> ss_disconnected s' \<and>
     ss_reservations s' = 0 \<and>
     (\<forall>t. map_of (ss_tabs s') t
            = map_option (\<lambda>tab. tab\<lparr>tb_cdp_session_id := [], tb_console_log := []\<rparr>) (map_of (ss_tabs s) t))"

lemma restored_tab_of: "restored_tab (persisted_tab_of tab) = tab\<lparr>tb_cdp_session_id := [], tb_console_log := []\<rparr>"
  by (cases "tb_ownership tab") (simp_all add: restored_tab_def persisted_tab_of_def new_owned_tab_def new_attached_tab_def)

lemma restored_from_persisted:
  assumes "session_inv name s"
  shows "restored_from s (mark_disconnected (into_session (from_session s)))"
proof -
  let ?ts = "ps_tabs (from_session s)"
  let ?m = "fold (\<lambda>t. AList.update (pt_target_id t) (restored_tab t)) ?ts []"
  note facts = from_session_facts[OF assms]
  note lookup = fold_update_lookup[OF facts(3), of restored_tab "[]"]
  have wf: "wf_map (ss_tabs s)" using assms by (simp add: session_inv_def tabs_inv_def)
  have "map_of ?m t = map_option (\<lambda>tab. tab\<lparr>tb_cdp_session_id := [], tb_console_log := []\<rparr>) (map_of (ss_tabs s) t)" for t
  proof (cases "map_of (ss_tabs s) t")
    case None
    then have "t \<notin> pt_target_id ` set ?ts" using facts(2) by (simp add: target_ids_def not_in_keys_iff)
    with lookup None show ?thesis by simp
  next
    case (Some tab)
    have "persisted_tab_of tab \<in> set ?ts"
      using map_of_SomeD[OF Some] by (force simp: from_session_def)
    moreover have "pt_target_id (persisted_tab_of tab) = t"
      using session_inv_tab[OF assms Some] by (simp add: persisted_tab_of_def)
    ultimately show ?thesis using lookup Some restored_tab_of by fastforce
  qed
  then show ?thesis
    by (simp add: restored_from_def into_session_def mark_disconnected_def from_session_def)
qed

text \<open>
  C33: sessions survive a restart. For a daemon whose identifiers are not empty and not padded, the state
  that is written is valid, loading it keeps persistence enabled, and the restarted daemon has the same
  sessions with the same tabs, disconnected, without the CDP sessions, reservations and consoles that do
  not outlive the process.
\<close>

theorem sessions_survive_restart:
  assumes "daemon_inv d" and "\<forall>name s. the_session d name = Some s \<longrightarrow> clean_session name s"
    and "\<forall>w. as_u64 (num w) = Some w" and "dn_sessions d0 = []"
  shows "case load_state_from_path as_u64 show_u64 message (FileValue (state_json num (build_persisted_state d))) of loaded \<Rightarrow>
           \<not> lr_disabled loaded \<and> lr_reason loaded = None \<and>
           (case the_session d name of
              None \<Rightarrow> the_session (snd (prepare_loaded_state loaded (new_flags, d0))) name = None
            | Some s \<Rightarrow> \<exists>s'. the_session (snd (prepare_loaded_state loaded (new_flags, d0))) name = Some s' \<and>
                             restored_from s s')"
proof -
  let ?st = "build_persisted_state d"
  let ?ps = "pe_sessions ?st"
  have valid: "validate_persisted_state ?st = Inr ()" using build_validates assms(1,2) by blast
  have parsed: "state_of_json as_u64 (state_json num ?st) = Some ?st" by (rule state_json_roundtrip) (simp add: assms(3))
  have version: "Option.bind (json_get ''version'' (state_json num ?st)) as_u64 = Some (ucast current_version)"
    by (simp add: state_json_def assms(3) build_persisted_state_def)
  have loaded: "load_state_from_path as_u64 show_u64 message (FileValue (state_json num ?st))
      = \<lparr>lr_state = ?st, lr_disabled = False, lr_reason = None\<rparr>"
    by (simp add: load_state_from_path_def version parsed valid)
  let ?g = "\<lambda>p. mark_disconnected (into_session p)"
  note lookup = fold_put_lookup[OF build_names_distinct[OF assms(1)], of ?g d0]
  have d': "snd (prepare_loaded_state \<lparr>lr_state = ?st, lr_disabled = False, lr_reason = None\<rparr> (new_flags, d0))
      = fold (\<lambda>p. put_session (ps_name p) (?g p)) ?ps d0"
    by (simp add: prepare_loaded_state_def)
  show ?thesis
  proof (cases "the_session d name")
    case None
    have "name \<notin> ps_name ` set ?ps"
    proof
      assume "name \<in> ps_name ` set ?ps"
      then obtain p where "p \<in> set ?ps" "name = ps_name p" by blast
      then show False using None by (metis build_sessions_of[OF assms(1)] option.distinct(1))
    qed
    with lookup have "the_session (fold (\<lambda>p. put_session (ps_name p) (?g p)) ?ps d0) name = None"
      by (simp add: assms(4))
    with None loaded d' show ?thesis by simp
  next
    case (Some s)
    have inv: "session_inv name s" by (rule daemon_inv_session[OF assms(1) Some])
    have "the_session (fold (\<lambda>p. put_session (ps_name p) (?g p)) ?ps d0) name = Some (?g (from_session s))"
      using lookup build_sessions_mem[OF Some] from_session_facts(1)[OF inv] by fastforce
    with restored_from_persisted[OF inv] Some loaded d' show ?thesis by simp
  qed
qed

text \<open>A concrete number representation, for the witnesses.\<close>

definition sample_num :: "u64 \<Rightarrow> json" where
  "sample_num w = JNum (of_nat (unat w))"

definition sample_as_u64 :: "json \<Rightarrow> u64 option" where
  "sample_as_u64 v = map_option (\<lambda>r. of_nat (nat \<lfloor>r\<rfloor>)) (json_as_f64 v)"

lemma sample_number: "sample_as_u64 (sample_num w) = Some w"
  unfolding sample_as_u64_def sample_num_def json_as_f64.simps option.map floor_of_nat nat_int by simp

definition saved_daemon :: daemon_state where
  "saved_daemon = snd (register_session_tab 2 ''default'' (new_attached_tab ''T1'' ''https://a/'' ''A'' ''S1'')
     \<lparr>dn_sessions = [(''default'', new_default_session 1 ''h:1'')], dn_browsers = [], dn_watchers = [], dn_console_tokens = [],
      dn_dialogs = new_dialog_state, dn_cancelled = [], dn_events = [], dn_persists = 0\<rparr>)"

definition blank_daemon :: daemon_state where
  "blank_daemon = \<lparr>dn_sessions = [], dn_browsers = [], dn_watchers = [], dn_console_tokens = [],
      dn_dialogs = new_dialog_state, dn_cancelled = [], dn_events = [], dn_persists = 0\<rparr>"

lemma saved_daemon_facts:
  "daemon_inv saved_daemon" "\<forall>name s. the_session saved_daemon name = Some s \<longrightarrow> clean_session name s"
proof -
  have s: "session_inv ''default'' (new_default_session 1 ''h:1'')" by (rule session_inv_new) simp
  show "daemon_inv saved_daemon"
    unfolding saved_daemon_def register_session_tab_state
    by (rule register_initialized_inv) (use s in \<open>simp_all add: daemon_inv_def split: if_splits\<close>)
  have "list_all (\<lambda>(name, s). clean name \<and> clean (ss_browser_host s) \<and> ss_context_id s = None \<and> list_all clean (map fst (ss_tabs s)))
      (dn_sessions saved_daemon)" by code_simp
  then show "\<forall>name s. the_session saved_daemon name = Some s \<longrightarrow> clean_session name s"
    by (auto simp: clean_session_def list_all_iff dest!: map_of_SomeD)
qed

theorem sessions_survive_restart_witness:
  "\<exists>s s'. the_session saved_daemon ''default'' = Some s \<and> map fst (ss_tabs s) = [''T1''] \<and>
     the_session (snd (prepare_loaded_state (load_state_from_path sample_as_u64 (\<lambda>_. []) (\<lambda>_. [])
       (FileValue (state_json sample_num (build_persisted_state saved_daemon)))) (new_flags, blank_daemon))) ''default'' = Some s' \<and>
     restored_from s s'"
proof -
  have "map_option (\<lambda>s. map fst (ss_tabs s)) (the_session saved_daemon ''default'') = Some [''T1'']" by code_simp
  then obtain s where s: "the_session saved_daemon ''default'' = Some s" "map fst (ss_tabs s) = [''T1'']" by auto
  have "dn_sessions blank_daemon = []" by (simp add: blank_daemon_def)
  from sessions_survive_restart[OF saved_daemon_facts _ this, of sample_as_u64 sample_num, where name = "''default''"] s
  show ?thesis by (simp add: sample_number Let_def)
qed

text \<open>
  a session whose name is empty or padded with white space makes the daemon lose every session at its
  next start: binding accepts any name, but the state that is written with it is rejected when it is
  loaded, all sessions are dropped, and persistence stays disabled.
\<close>

theorem padded_session_name_loses_state:
  assumes "daemon_inv d" and "the_session d name = Some s" and "\<not> clean name" and "\<forall>w. as_u64 (num w) = Some w"
  shows "case load_state_from_path as_u64 show_u64 message (FileValue (state_json num (build_persisted_state d))) of loaded \<Rightarrow>
           pe_sessions (lr_state loaded) = [] \<and>
           pf_disabled (fst (prepare_loaded_state loaded (new_flags, d0))) \<and>
           snd (prepare_loaded_state loaded (new_flags, d0)) = d0 \<and>
           snd (fst (do_persist num write (fst (prepare_loaded_state loaded (new_flags, d0))) d')) = None"
proof -
  let ?st = "build_persisted_state d"
  obtain e where e: "validate_persisted_state ?st = Inl e"
  proof (cases "validate_persisted_state ?st")
    case (Inr u)
    then have "validate_sessions (pe_sessions ?st) {} {} = Inr ()" by (simp add: validate_persisted_state_def)
    from validate_sessions_names[OF this build_sessions_mem[OF assms(2)]]
    have "clean name" using from_session_facts(1)[OF daemon_inv_session[OF assms(1,2)]] by simp
    with assms(3) show thesis by simp
  qed (rule that)
  have parsed: "state_of_json as_u64 (state_json num ?st) = Some ?st" by (rule state_json_roundtrip) (simp add: assms(4))
  have "Option.bind (json_get ''version'' (state_json num ?st)) as_u64 = Some (ucast current_version)"
    by (simp add: state_json_def assms(4) build_persisted_state_def)
  then have "load_state_from_path as_u64 show_u64 message (FileValue (state_json num ?st))
      = disabled_empty_result (''state.json is not valid schema v1: '' @ e)"
    by (simp add: load_state_from_path_def parsed e)
  then show ?thesis
    by (simp add: disabled_empty_result_def empty_state_def prepare_loaded_state_def do_persist_def)
qed

definition padded_daemon :: daemon_state where
  "padded_daemon =
     snd (bind_session_to_browser 2 0 ''agent '' ''h:1'' 7 False
            \<lparr>rb_context_available = True, rb_create_context = Inr ''CTX'', rb_reattach = (\<lambda>_. None)\<rparr>
            (saved_daemon\<lparr>dn_browsers := [(''h:1'', 7)]\<rparr>))"

theorem padded_session_name_loses_state_witness:
  "pe_sessions (lr_state (load_state_from_path sample_as_u64 (\<lambda>_. []) (\<lambda>_. [])
     (FileValue (state_json sample_num (build_persisted_state padded_daemon))))) = []"
proof -
  have inv: "daemon_inv padded_daemon"
    unfolding padded_daemon_def
    by (rule bind_session_to_browser_inv) (use saved_daemon_facts(1) in \<open>simp add: daemon_inv_def\<close>)
  have "the_session padded_daemon ''agent '' \<noteq> None" by code_simp
  then obtain s where s: "the_session padded_daemon ''agent '' = Some s" by blast
  have dirty: "\<not> clean ''agent ''" by code_simp
  show ?thesis
    using padded_session_name_loses_state[OF inv s dirty, of sample_as_u64 sample_num] by (simp add: sample_number Let_def)
qed

end
