(* ===== verification/FrameRoutes.thy ===== *)
theory FrameRoutes
  imports FrameSessions Lifecycle
begin

text \<open>
  How the frame store (\<open>FrameStore\<close> in \<open>src/src/runtime/frame.rs\<close>) hands out frames and routes and
  validates them: frame handles, locator routes, the lineage of a frame up to the main frame, the
  confirmation of routes against fresh frame trees of the browser, and the wait for the main-world
  execution context. A method reads the store at one instant or, around a CDP call, at several: each
  instant is a \<open>store_view\<close>, and the views after a call are arguments, so that anything may happen to the
  store in between.
\<close>

declare map_of_eq_Some_iff [simp del] and Some_eq_map_of_iff [simp del]

subsection \<open>Views, handles and routes\<close>

text \<open>
  \<open>sv_page_alive\<close> tells whether the weak page reference upgrades; \<open>sv_terminal_route\<close> is
  \<open>Page::terminal_route_error\<close> and \<open>sv_generation\<close> the generation in \<open>FrameStoreIdentity\<close>.
\<close>

record store_view =
  sv_page_alive :: bool
  sv_terminal_route :: "rt_error option"
  sv_lifecycle :: lifecycle_snapshot
  sv_generation :: u64
  sv_state :: frame_state

record frame_handle =
  fh_id :: ident
  fh_snapshot :: frame_snapshot

record locator_route =
  lo_page_generation :: u64
  lo_document_epoch :: u64
  lo_frame_id :: ident
  lo_session_id :: ident
  lo_loader_id :: ident

abbreviation graph_of :: "store_view \<Rightarrow> frame_graph" where
  "graph_of v \<equiv> st_graph (sv_state v)"

text \<open>The derived \<open>Debug\<close> form.\<close>

definition show_invalidation :: "invalidation_reason \<Rightarrow> string" where
  "show_invalidation r = (case r of PageReplaced \<Rightarrow> ''PageReplaced'' | DocumentChanged \<Rightarrow> ''DocumentChanged'')"

definition frame_error :: "string \<Rightarrow> operation_phase \<Rightarrow> ident \<Rightarrow> string \<Rightarrow> rt_error" where
  "frame_error op ph f rest = with_message (''frame '' @ f @ '' '' @ rest) (operation_error op ph)"

definition identity_snapshot :: "store_view \<Rightarrow> ident \<Rightarrow> frame_snapshot option" where
  "identity_snapshot v f = graph_snapshot f (sv_generation v) (graph_of v)"

definition store_handle :: "store_view \<Rightarrow> ident \<Rightarrow> frame_handle option" where
  "store_handle v f =
     (if \<not> sv_page_alive v then None
      else if \<not> is_route_active f (graph_of v) then None
      else map_option (\<lambda>s. \<lparr>fh_id = f, fh_snapshot = s\<rparr>) (identity_snapshot v f))"

definition store_frame_ids :: "store_view \<Rightarrow> ident list" where
  "store_frame_ids v = active_ids (graph_of v)"

definition invalidation_error :: "frame_handle \<Rightarrow> invalidation_reason \<Rightarrow> rt_error" where
  "invalidation_error h r = frame_error ''use frame'' Preparation (fh_id h) (''is stale: '' @ show_invalidation r)"

definition validate_frame :: "store_view \<Rightarrow> frame_handle \<Rightarrow> rt_error + unit" where
  "validate_frame v h =
     (if \<not> sv_page_alive v then Inl (with_message ''page was dropped'' (operation_error ''use frame'' Preparation))
      else case sv_terminal_route v of
        Some e \<Rightarrow> Inl e
      | None \<Rightarrow>
          (case validate_page (fs_page_generation (fh_snapshot h)) (sv_lifecycle v) of
             Some r \<Rightarrow> Inl (invalidation_error h r)
           | None \<Rightarrow>
               (case graph_snapshot (fh_id h) (fs_page_generation (fh_snapshot h)) (graph_of v) of
                  None \<Rightarrow> Inl (frame_error ''use frame'' Preparation (fh_id h) ''is detached'')
                | Some current \<Rightarrow>
                    if \<not> is_route_active (fh_id h) (graph_of v)
                    then Inl (frame_error ''use frame'' Preparation (fh_id h) ''route is not active'')
                    else if fs_document_epoch current \<noteq> fs_document_epoch (fh_snapshot h)
                    then Inl (invalidation_error h DocumentChanged)
                    else Inr ())))"

definition frame_parent :: "store_view \<Rightarrow> frame_handle \<Rightarrow> rt_error + frame_handle option" where
  "frame_parent v h =
     and_then (validate_frame v h) (\<lambda>_. Inr (Option.bind (graph_parent (fh_id h) (graph_of v)) (store_handle v)))"

definition frame_children :: "store_view \<Rightarrow> frame_handle \<Rightarrow> rt_error + frame_handle list" where
  "frame_children v h =
     and_then (validate_frame v h) (\<lambda>_. Inr (List.map_filter (store_handle v) (graph_children (fh_id h) (graph_of v))))"

definition frame_cdp_session :: "store_view \<Rightarrow> frame_handle \<Rightarrow> rt_error + ident" where
  "frame_cdp_session v h =
     and_then (validate_frame v h) (\<lambda>_.
       case routed_session (fh_id h) (sv_state v) of
         None \<Rightarrow> Inl (frame_error ''resolve frame session'' Preparation (fh_id h) ''is detached'')
       | Some s \<Rightarrow> Inr s)"

definition locator_route_of :: "store_view \<Rightarrow> frame_handle \<Rightarrow> rt_error + locator_route" where
  "locator_route_of v h =
     and_then (validate_frame v h) (\<lambda>_.
       case routed_session (fh_id h) (sv_state v) of
         None \<Rightarrow> Inl (frame_error ''resolve locator frame route'' Preparation (fh_id h) ''is detached'')
       | Some session \<Rightarrow>
           (case graph_loader_id (fh_id h) (graph_of v) of
              None \<Rightarrow> Inl (frame_error ''resolve locator frame route'' Preparation (fh_id h) ''has no document identity'')
            | Some loader \<Rightarrow>
                Inr \<lparr>lo_page_generation = fs_page_generation (fh_snapshot h),
                     lo_document_epoch = fs_document_epoch (fh_snapshot h), lo_frame_id = fh_id h,
                     lo_session_id = session, lo_loader_id = loader\<rparr>))"

definition route_refused :: "ident \<Rightarrow> string \<Rightarrow> rt_error" where
  "route_refused f rest = frame_error ''validate locator frame route'' Confirmation f rest"

definition validate_locator_route :: "store_view \<Rightarrow> locator_route \<Rightarrow> rt_error + unit" where
  "validate_locator_route v r =
     (if \<not> sv_page_alive v
      then Inl (with_message ''page was dropped'' (operation_error ''validate locator frame route'' Confirmation))
      else case sv_terminal_route v of
        Some e \<Rightarrow> Inl e
      | None \<Rightarrow>
          (case validate_page (lo_page_generation r) (sv_lifecycle v) of
             Some reason \<Rightarrow> Inl (route_refused (lo_frame_id r) (''is stale: '' @ show_invalidation reason))
           | None \<Rightarrow>
               (case graph_snapshot (lo_frame_id r) (lo_page_generation r) (graph_of v) of
                  None \<Rightarrow> Inl (route_refused (lo_frame_id r) ''is detached'')
                | Some current \<Rightarrow>
                    if \<not> is_route_active (lo_frame_id r) (graph_of v)
                    then Inl (route_refused (lo_frame_id r) ''route is not active'')
                    else if fs_document_epoch current \<noteq> lo_document_epoch r
                    then Inl (route_refused (lo_frame_id r) (''is stale: '' @ show_invalidation DocumentChanged))
                    else
                      (case routed_session (lo_frame_id r) (sv_state v) of
                         None \<Rightarrow> Inl (route_refused (lo_frame_id r) ''is detached'')
                       | Some s \<Rightarrow>
                           if s \<noteq> lo_session_id r
                           then Inl (route_refused (lo_frame_id r) ''route changed during locator resolution'')
                           else Inr ()))))"

subsection \<open>Lineages\<close>

text \<open>
  \<open>freeze_frame_lineage\<close>: the \<open>while\<close> loop may not end, so not returning is \<open>None\<close>; the value inside is
  the optional lineage.
\<close>

partial_function (option) frame_lineage_loop ::
  "store_view \<Rightarrow> ident \<Rightarrow> frame_handle list \<Rightarrow> frame_handle list option option" where
  "frame_lineage_loop v f lineage =
     (if \<not> is_route_active f (graph_of v) then Some None
      else case identity_snapshot v f of
        None \<Rightarrow> Some None
      | Some s \<Rightarrow>
          (case graph_parent f (graph_of v) of
             None \<Rightarrow> Some (Some (lineage @ [\<lparr>fh_id = f, fh_snapshot = s\<rparr>]))
           | Some p \<Rightarrow> frame_lineage_loop v p (lineage @ [\<lparr>fh_id = f, fh_snapshot = s\<rparr>])))"

definition freeze_frame_lineage :: "store_view \<Rightarrow> ident \<Rightarrow> frame_handle list option option" where
  "freeze_frame_lineage v f = frame_lineage_loop v f []"

text \<open>
  \<open>freeze_route_scopes\<close>: the lineages of the active frames of a session, without repetitions, in the
  order of the frame map. The lock is released in between; \<open>w\<close> is the store during the second part.
\<close>

definition add_scopes :: "frame_handle list \<Rightarrow> frame_handle list \<Rightarrow> frame_handle list" where
  "add_scopes lineage scopes = fold (\<lambda>s acc. if s \<in> set acc then acc else acc @ [s]) lineage scopes"

primrec scopes_of :: "store_view \<Rightarrow> ident list \<Rightarrow> frame_handle list \<Rightarrow> frame_handle list option" where
  "scopes_of w [] scopes = Some scopes"
| "scopes_of w (f # fs) scopes =
     Option.bind (freeze_frame_lineage w f) (\<lambda>res.
       scopes_of w fs (case res of None \<Rightarrow> scopes | Some lineage \<Rightarrow> add_scopes lineage scopes))"

definition freeze_route_scopes :: "store_view \<Rightarrow> store_view \<Rightarrow> ident \<Rightarrow> frame_handle list option" where
  "freeze_route_scopes v w session =
     scopes_of w (map fst (filter (\<lambda>(_, r). fr_route_active r \<and> fr_route_session_id r = session) (fg_frames (graph_of v)))) []"

definition lineage_error :: "string \<Rightarrow> rt_error" where
  "lineage_error m = with_message m (operation_error ''freeze locator frame lineage'' Observation)"

definition lineage_route :: "u64 \<Rightarrow> ident \<Rightarrow> frame_record \<Rightarrow> ident \<Rightarrow> locator_route" where
  "lineage_route gen f r loader =
     \<lparr>lo_page_generation = gen, lo_document_epoch = fr_document_epoch r, lo_frame_id = f,
      lo_session_id = fr_route_session_id r, lo_loader_id = loader\<rparr>"

text \<open>\<open>freeze_locator_lineage\<close> keeps the set of visited frames, so its loop always ends.\<close>

function locator_lineage_loop ::
  "frame_state \<Rightarrow> u64 \<Rightarrow> ident \<Rightarrow> ident list \<Rightarrow> ident \<Rightarrow> locator_route list \<Rightarrow> rt_error + locator_route list" where
  "locator_lineage_loop st gen main visited current routes =
     (if current \<in> set visited then Inl (lineage_error ''frame lineage contains a cycle'')
      else case frame_at (st_graph st) current of
        None \<Rightarrow> Inl (lineage_error (''frame '' @ current @ '' is detached''))
      | Some r \<Rightarrow>
          if \<not> fr_route_active r then Inl (lineage_error (''frame '' @ current @ '' route is not active''))
          else case fr_loader_id r of
            None \<Rightarrow> Inl (lineage_error (''frame '' @ current @ '' has no document identity''))
          | Some loader \<Rightarrow>
              (case map_of (st_sessions st) (fr_route_session_id r) of
                 None \<Rightarrow> Inl (lineage_error (''frame '' @ current @ '' route is unavailable''))
               | Some _ \<Rightarrow>
                   let routes' = routes @ [lineage_route gen current r loader]
                   in if current = main then Inr routes'
                      else case fr_parent r of
                        None \<Rightarrow> Inl (lineage_error (''frame '' @ current @ '' lineage does not reach the main frame''))
                      | Some p \<Rightarrow> locator_lineage_loop st gen main (current # visited) p routes'))"
  by pat_completeness auto
termination
  by (relation "measure (\<lambda>(st, gen, main, visited, current, routes). card (frame_keys (st_graph st) - set visited))")
    (auto intro!: psubset_card_mono dest: map_of_in_keys)

declare locator_lineage_loop.simps [simp del]

definition freeze_locator_lineage :: "store_view \<Rightarrow> locator_route \<Rightarrow> rt_error + locator_route list" where
  "freeze_locator_lineage v resolved =
     (if \<not> sv_page_alive v then Inl (lineage_error ''page was dropped'')
      else case validate_page (lo_page_generation resolved) (sv_lifecycle v) of
        Some reason \<Rightarrow> Inl (lineage_error (''frame '' @ lo_frame_id resolved @ '' is stale: '' @ show_invalidation reason))
      | None \<Rightarrow>
          (case fg_main_frame_id (graph_of v) of
             None \<Rightarrow> Inl (lineage_error ''page has no main frame'')
           | Some main \<Rightarrow>
               and_then (locator_lineage_loop (sv_state v) (lo_page_generation resolved) main [] (lo_frame_id resolved) [])
                 (\<lambda>routes.
                    let frozen = hd routes
                    in if lo_document_epoch frozen \<noteq> lo_document_epoch resolved
                          \<or> lo_loader_id frozen \<noteq> lo_loader_id resolved
                          \<or> lo_session_id frozen \<noteq> lo_session_id resolved
                       then Inl (lineage_error (''frame '' @ lo_frame_id resolved @ '' changed during locator resolution''))
                       else Inr routes)))"

subsection \<open>Confirmation against the browser's frame trees\<close>

record frame_identity =
  fi_parent_id :: "ident option"
  fi_child_ids :: "ident list"

record frame_batch =
  fb_frame_ids :: "ident list"
  fb_identities :: "(ident \<times> frame_identity) list"

definition confirm_error :: "string \<Rightarrow> rt_error" where
  "confirm_error m = with_message m (operation_error ''confirm frame document identity'' Confirmation)"

definition document_absent :: "ident \<Rightarrow> rt_error" where
  "document_absent f = confirm_error (''frame '' @ f @ '' is stale: document is absent'')"

definition validate_route_in_tree :: "store_view \<Rightarrow> locator_route \<Rightarrow> frame_tree \<Rightarrow> rt_error + frame_identity" where
  "validate_route_in_tree v r t =
     (if ft_loader t \<noteq> lo_loader_id r
      then Inl (confirm_error (''frame '' @ lo_frame_id r @ '' is stale: '' @ show_invalidation DocumentChanged))
      else and_then (validate_locator_route v r) (\<lambda>_.
        Inr \<lparr>fi_parent_id = ft_parent t, fi_child_ids = map ft_id (ft_children t)\<rparr>))"

primrec confirm_routes ::
  "store_view \<Rightarrow> (ident \<times> frame_tree) list \<Rightarrow> locator_route list \<Rightarrow> (ident \<times> frame_identity) list
   \<Rightarrow> rt_error + (ident \<times> frame_identity) list" where
  "confirm_routes v index [] identities = Inr identities"
| "confirm_routes v index (r # rs) identities =
     (case map_of index (lo_frame_id r) of
        None \<Rightarrow> Inl (document_absent (lo_frame_id r))
      | Some t \<Rightarrow>
          and_then (validate_route_in_tree v r t) (\<lambda>i.
            confirm_routes v index rs (AList.update (lo_frame_id r) i identities)))"

text \<open>
  The routes grouped by their session, each session asked for its frame tree. The groups come in the
  order \<open>arrange\<close> gives the map; \<open>tree_of\<close> is the reply of a session and \<open>view_of\<close> the store once the reply
  has been received.
\<close>

definition by_session :: "locator_route list \<Rightarrow> (ident \<times> locator_route list) list" where
  "by_session routes =
     fold (\<lambda>r m. AList.update (lo_session_id r) (or_default [] (map_of m (lo_session_id r)) @ [r]) m) routes []"

primrec confirm_sessions ::
  "(ident \<Rightarrow> string + frame_tree) \<Rightarrow> (ident \<Rightarrow> store_view) \<Rightarrow> (ident \<times> locator_route list) list
   \<Rightarrow> frame_batch \<Rightarrow> rt_error + frame_batch" where
  "confirm_sessions tree_of view_of [] batch = Inr batch"
| "confirm_sessions tree_of view_of (g # gs) batch =
     (case tree_of (fst g) of
        Inl err \<Rightarrow> Inl (cdp_operation id ''confirm frame document identity'' Confirmation err)
      | Inr tree \<Rightarrow>
          (case index_frame_tree tree ([], fb_frame_ids batch) of (_, index, ids) \<Rightarrow>
             and_then (confirm_routes (view_of (fst g)) index (snd g) (fb_identities batch)) (\<lambda>identities.
               confirm_sessions tree_of view_of gs \<lparr>fb_frame_ids = ids, fb_identities = identities\<rparr>)))"

definition validate_locator_routes_authoritative ::
  "((ident \<times> locator_route list) list \<Rightarrow> (ident \<times> locator_route list) list) \<Rightarrow> (ident \<Rightarrow> string + frame_tree)
   \<Rightarrow> (ident \<Rightarrow> store_view) \<Rightarrow> store_view \<Rightarrow> locator_route list \<Rightarrow> rt_error + frame_batch" where
  "validate_locator_routes_authoritative arrange tree_of view_of v routes =
     (case (if sv_page_alive v then sv_terminal_route v else None) of
        Some e \<Rightarrow> Inl e
      | None \<Rightarrow> confirm_sessions tree_of view_of (arrange (by_session routes)) \<lparr>fb_frame_ids = [], fb_identities = []\<rparr>)"

definition validate_locator_route_authoritative ::
  "(ident \<Rightarrow> string + frame_tree) \<Rightarrow> (ident \<Rightarrow> store_view) \<Rightarrow> store_view \<Rightarrow> locator_route \<Rightarrow> rt_error + frame_identity" where
  "validate_locator_route_authoritative tree_of view_of v r =
     and_then (validate_locator_routes_authoritative id tree_of view_of v [r]) (\<lambda>batch.
       case map_of (fb_identities batch) (lo_frame_id r) of
         None \<Rightarrow> Inl (document_absent (lo_frame_id r))
       | Some i \<Rightarrow> Inr i)"

text \<open>Neighbours of the lineage: the child is a child of its parent, and known to it when both share a session.\<close>

definition boundary_ok :: "frame_batch \<Rightarrow> locator_route \<Rightarrow> locator_route \<Rightarrow> bool" where
  "boundary_ok batch child parent =
     (case (map_of (fb_identities batch) (lo_frame_id child), map_of (fb_identities batch) (lo_frame_id parent)) of
        (Some ci, Some par) \<Rightarrow>
          fi_parent_id ci = Some (lo_frame_id parent)
          \<and> (lo_session_id child \<noteq> lo_session_id parent \<or> lo_frame_id child \<in> set (fi_child_ids par))
      | _ \<Rightarrow> False)"

fun check_boundaries :: "frame_batch \<Rightarrow> locator_route list \<Rightarrow> rt_error + unit" where
  "check_boundaries batch (child # parent # rest) =
     (if boundary_ok batch child parent then check_boundaries batch (parent # rest)
      else Inl (confirm_error (''frame '' @ lo_frame_id child @ '' lineage changed relative to parent '' @ lo_frame_id parent)))"
| "check_boundaries batch _ = Inr ()"

definition validate_locator_lineage_authoritative ::
  "((ident \<times> locator_route list) list \<Rightarrow> (ident \<times> locator_route list) list) \<Rightarrow> (ident \<Rightarrow> string + frame_tree)
   \<Rightarrow> (ident \<Rightarrow> store_view) \<Rightarrow> store_view \<Rightarrow> locator_route list \<Rightarrow> rt_error + frame_batch" where
  "validate_locator_lineage_authoritative arrange tree_of view_of v routes =
     and_then (validate_locator_routes_authoritative arrange tree_of view_of v routes) (\<lambda>batch.
       and_then (check_boundaries batch routes) (\<lambda>_. Inr batch))"

subsection \<open>Main-world execution contexts\<close>

datatype context_wake = ContextChanged store_view | StoreCancelled

text \<open>
  The loop of \<open>main_world_context\<close> after the runtime events are enabled: \<open>None\<close> while it still waits. A
  wake-up carries the store as the next round reads it.
\<close>

primrec await_context ::
  "locator_route \<Rightarrow> context_wake list \<Rightarrow> store_view \<Rightarrow> (rt_error + main_world_context) option" where
  "await_context r [] v =
     (case validate_locator_route v r of
        Inl e \<Rightarrow> Some (Inl e)
      | Inr _ \<Rightarrow> map_option Inr (default_context (lo_session_id r) (lo_frame_id r) (sv_state v)))"
| "await_context r (w # ws) v =
     (case validate_locator_route v r of
        Inl e \<Rightarrow> Some (Inl e)
      | Inr _ \<Rightarrow>
          (case default_context (lo_session_id r) (lo_frame_id r) (sv_state v) of
             Some c \<Rightarrow> Some (Inr c)
           | None \<Rightarrow>
               (case w of
                  StoreCancelled \<Rightarrow>
                    Some (Inl (with_message ''page closed before its main-world execution context became available''
                                 (operation_error ''resolve JavaScript execution context'' Preparation)))
                | ContextChanged v' \<Rightarrow> await_context r ws v')))"

definition validate_main_world_context :: "store_view \<Rightarrow> locator_route \<Rightarrow> main_world_context \<Rightarrow> rt_error + unit" where
  "validate_main_world_context v r c =
     and_then (validate_locator_route v r) (\<lambda>_.
       let current = default_context (lo_session_id r) (lo_frame_id r) (sv_state v)
       in if (case current of None \<Rightarrow> False | Some now \<Rightarrow> mw_unique_id now = mw_unique_id c) then Inr ()
          else Inl (frame_error ''validate JavaScript execution context'' Observation (lo_frame_id r)
                      ''main-world execution context was destroyed or replaced''))"


subsection \<open>What a valid route is\<close>

lemma validate_locator_route_Inr:
  "validate_locator_route v r = Inr u \<longleftrightarrow>
     sv_page_alive v \<and> sv_terminal_route v = None \<and> ls_page_generation (sv_lifecycle v) = lo_page_generation r \<and>
     (\<exists>k. frame_at (graph_of v) (lo_frame_id r) = Some k \<and> fr_route_active k \<and>
          fr_document_epoch k = lo_document_epoch r \<and>
          map_of (st_sessions (sv_state v)) (fr_route_session_id k) = Some (lo_session_id r))"
  by (cases "sv_terminal_route v"; cases "frame_at (graph_of v) (lo_frame_id r)")
    (auto simp: validate_locator_route_def validate_page_def graph_snapshot_def is_route_active_def routed_session_def
      graph_route_session_def split: option.splits if_splits)

lemma validate_frame_Inr:
  "validate_frame v h = Inr u \<longleftrightarrow>
     sv_page_alive v \<and> sv_terminal_route v = None \<and>
     ls_page_generation (sv_lifecycle v) = fs_page_generation (fh_snapshot h) \<and>
     (\<exists>k. frame_at (graph_of v) (fh_id h) = Some k \<and> fr_route_active k \<and>
          fr_document_epoch k = fs_document_epoch (fh_snapshot h))"
  by (cases "sv_terminal_route v"; cases "frame_at (graph_of v) (fh_id h)")
    (auto simp: validate_frame_def validate_page_def graph_snapshot_def is_route_active_def split: option.splits if_splits)

lemma fresh_route_valid:
  "locator_route_of v h = Inr r \<Longrightarrow> validate_locator_route v r = Inr () \<and> lo_frame_id r = fh_id h"
  by (auto simp: locator_route_of_def and_then_Inr validate_frame_Inr validate_locator_route_Inr routed_session_def
      graph_route_session_def bind_eq_Some_conv split: option.splits)

lemma fresh_handle_valid:
  assumes "store_handle v f = Some h" "sv_terminal_route v = None" "ls_page_generation (sv_lifecycle v) = sv_generation v"
  shows "validate_frame v h = Inr () \<and> fh_id h = f"
  using assms
  by (auto simp: store_handle_def identity_snapshot_def graph_snapshot_def is_route_active_def validate_frame_Inr
      split: if_splits option.splits)

subsection \<open>Lineages\<close>

definition recorded_route :: "frame_state \<Rightarrow> u64 \<Rightarrow> locator_route \<Rightarrow> bool" where
  "recorded_route st gen r \<longleftrightarrow>
     (\<exists>k s. frame_at (st_graph st) (lo_frame_id r) = Some k \<and> fr_route_active k \<and>
        r = lineage_route gen (lo_frame_id r) k (lo_loader_id r) \<and> fr_loader_id k = Some (lo_loader_id r) \<and>
        map_of (st_sessions st) (lo_session_id r) = Some s)"

definition child_of :: "frame_graph \<Rightarrow> locator_route \<Rightarrow> locator_route \<Rightarrow> bool" where
  "child_of g c p \<longleftrightarrow> graph_parent (lo_frame_id c) g = Some (lo_frame_id p)"

definition lineage_chain :: "frame_state \<Rightarrow> u64 \<Rightarrow> ident \<Rightarrow> ident \<Rightarrow> locator_route list \<Rightarrow> bool" where
  "lineage_chain st gen f main chain \<longleftrightarrow>
     chain \<noteq> [] \<and> lo_frame_id (hd chain) = f \<and> lo_frame_id (List.last chain) = main \<and>
     distinct (map lo_frame_id chain) \<and> successively (child_of (st_graph st)) chain \<and>
     (\<forall>r \<in> set chain. recorded_route st gen r)"

lemma lineage_chain_Cons:
  assumes "lineage_chain st gen p main chain" "recorded_route st gen r" "graph_parent (lo_frame_id r) (st_graph st) = Some p"
    "lo_frame_id r \<notin> lo_frame_id ` set chain"
  shows "lineage_chain st gen (lo_frame_id r) main (r # chain)"
  using assms by (cases chain) (auto simp: lineage_chain_def child_of_def)

lemma locator_lineage_loop_chain:
  "locator_lineage_loop st gen main visited current routes = Inr out \<Longrightarrow>
   \<exists>chain. out = routes @ chain \<and> lineage_chain st gen current main chain \<and>
     lo_frame_id ` set chain \<inter> set visited = {}"
proof (induction st gen main visited current routes arbitrary: out rule: locator_lineage_loop.induct)
  case (1 st gen main visited current routes)
  from 1(2) obtain k loader s where k: "current \<notin> set visited" "frame_at (st_graph st) current = Some k" "fr_route_active k"
      "fr_loader_id k = Some loader" "map_of (st_sessions st) (fr_route_session_id k) = Some s"
    by (subst (asm) locator_lineage_loop.simps) (auto split: if_splits option.splits)
  let ?r = "lineage_route gen current k loader"
  have r: "recorded_route st gen ?r" "lo_frame_id ?r = current"
    using k by (auto simp: recorded_route_def lineage_route_def)
  show ?case
  proof (cases "current = main")
    case True
    with 1(2) k have "out = routes @ [?r]" by (subst (asm) locator_lineage_loop.simps) (simp add: Let_def)
    moreover have "lineage_chain st gen current main [?r]" using True r by (simp add: lineage_chain_def)
    ultimately show ?thesis using k(1) r(2) by auto
  next
    case False
    with 1(2) k obtain p where p: "fr_parent k = Some p"
      by (subst (asm) locator_lineage_loop.simps) (auto simp: Let_def split: option.splits)
    with 1(2) k False have rec: "locator_lineage_loop st gen main (current # visited) p (routes @ [?r]) = Inr out"
      by (subst (asm) locator_lineage_loop.simps) (simp add: Let_def)
    from 1(1)[OF k(1) k(2) _ k(4) k(5) refl False p rec] k(3) obtain chain where c: "out = (routes @ [?r]) @ chain"
        "lineage_chain st gen p main chain" "lo_frame_id ` set chain \<inter> set (current # visited) = {}"
      by blast
    have "graph_parent (lo_frame_id ?r) (st_graph st) = Some p" using k(2) p r(2) by (simp add: graph_parent_def)
    moreover have "lo_frame_id ?r \<notin> lo_frame_id ` set chain" using c(3) r(2) by auto
    ultimately have "lineage_chain st gen current main (?r # chain)"
      using lineage_chain_Cons[OF c(2) r(1)] r(2) by simp
    then show ?thesis using c(1,3) k(1) r(2) by (intro exI[of _ "?r # chain"]) auto
  qed
qed

definition sessions_keyed :: "frame_state \<Rightarrow> bool" where
  "sessions_keyed st \<longleftrightarrow> (\<forall>s t. map_of (st_sessions st) s = Some t \<longrightarrow> t = s)"

text \<open>The handles of a store are kept under the id of their session, whatever attaches and detaches.\<close>

lemma sessions_keyed_drop: "sessions_keyed st \<Longrightarrow> sessions_keyed (drop_session x st)"
  by (auto simp: sessions_keyed_def map_of_delete split: if_splits)

lemma sessions_keyed_drops: "sessions_keyed st \<Longrightarrow> sessions_keyed (fold drop_session xs st)"
  by (induction xs arbitrary: st) (simp_all add: sessions_keyed_drop)

lemma sessions_kept:
  "st_sessions (snd (begin_oopif_attach s f pf ps c st)) = st_sessions st"
  "st_sessions (snd (activate_oopif_attach s t st)) = st_sessions st"
  "st_sessions (snd (abandon_oopif_attach s t st)) = st_sessions st"
  "st_sessions (snd (acknowledge_detached s t st)) = st_sessions st"
  by (auto simp: begin_oopif_attach_def activate_oopif_attach_def abandon_oopif_attach_def acknowledge_detached_def
      Let_def split: option.splits session_attach_disposition.splits if_splits)

lemma sessions_keyed_apply: "sessions_keyed (ss_state y) \<Longrightarrow> sessions_keyed (ss_state (session_apply ev y))"
proof (cases ev)
  case (BeginAttach s f pf ps c)
  assume "sessions_keyed (ss_state y)"
  moreover have "ss_state (session_apply ev y) = snd (begin_oopif_attach s f pf ps c (ss_state y))"
    using BeginAttach by (auto split: prod.split oopif_attach_start.split)
  ultimately show ?thesis by (simp add: sessions_keyed_def sessions_kept)
next
  case (CommitAttach d f pf ps s tg t tree roots)
  assume "sessions_keyed (ss_state y)"
  moreover obtain ok g where "route_oopif f pf ps s tg (st_graph (ss_state y)) = (ok, g)" by fastforce
  ultimately show ?thesis using CommitAttach
    by (cases ok) (auto simp: commit_oopif_def Let_def sessions_keyed_def sessions_kept split: if_splits)
next
  case (DetachSession s)
  assume keyed: "sessions_keyed (ss_state y)"
  show ?thesis
  proof (cases "attached_child s (ss_state y)")
    case True
    have "sessions_keyed ((ss_state y)\<lparr>st_graph := g\<rparr>)" for g using keyed by (simp add: sessions_keyed_def)
    then show ?thesis using DetachSession by (simp add: detach_child_session_eq(2)[OF True] sessions_keyed_drops)
  qed (use DetachSession keyed in \<open>simp add: detach_child_session_noop\<close>)
qed (simp_all add: sessions_keyed_def sessions_kept acknowledge_oopif_initialization_def)

interpretation keyed_runs: event_machine session_apply "\<lambda>y. sessions_keyed (ss_state y)"
  by unfold_locales (rule sessions_keyed_apply)

lemma sessions_keyed_reached: "sessions_keyed (ss_state (fold session_apply es (init_sessions main)))"
  by (rule keyed_runs.run_inv) (simp add: sessions_keyed_def init_sessions_def)

lemma recorded_route_valid:
  assumes "recorded_route (sv_state v) gen r" "sv_page_alive v"
    "ls_page_generation (sv_lifecycle v) = gen" "sessions_keyed (sv_state v)"
  shows "validate_locator_route v r = (case sv_terminal_route v of None \<Rightarrow> Inr () | Some e \<Rightarrow> Inl e)"
proof (cases "sv_terminal_route v")
  case (Some e)
  with assms(2) show ?thesis by (simp add: validate_locator_route_def)
next
  case None
  from assms(1) obtain k s where "frame_at (graph_of v) (lo_frame_id r) = Some k" "fr_route_active k"
      "r = lineage_route gen (lo_frame_id r) k (lo_loader_id r)" "map_of (st_sessions (sv_state v)) (lo_session_id r) = Some s"
    by (auto simp: recorded_route_def)
  moreover from this have "lo_page_generation r = gen" "lo_document_epoch r = fr_document_epoch k"
      "lo_session_id r = fr_route_session_id k"
    by (metis lineage_route_def locator_route.select_convs)+
  ultimately show ?thesis using assms(2-4) None by (auto simp: validate_locator_route_Inr sessions_keyed_def)
qed

text \<open>
  C36: A frozen lineage is the chain of frames from the resolved one to the main frame: it starts with the
  resolved document, ends at the main frame, follows the parent links and repeats no frame. At the instant of
  freezing every one of its routes is valid, unless the page has a terminal route failure: freezing does not
  look at that failure, and with it each route is refused with exactly that failure. The sessions of the
  store are those of any sequence of attaches, commits and detaches.
\<close>

theorem frozen_lineage_reaches_main:
  assumes "freeze_locator_lineage v r = Inr routes"
    "st_sessions (sv_state v) = st_sessions (ss_state (fold session_apply es (init_sessions first)))"
  shows "\<exists>main. fg_main_frame_id (graph_of v) = Some main \<and>
    lineage_chain (sv_state v) (lo_page_generation r) (lo_frame_id r) main routes \<and> hd routes = r \<and>
    (\<forall>q \<in> set routes. validate_locator_route v q = (case sv_terminal_route v of None \<Rightarrow> Inr () | Some e \<Rightarrow> Inl e))"
proof -
  from assms(1) obtain main where main: "fg_main_frame_id (graph_of v) = Some main" "sv_page_alive v"
      "ls_page_generation (sv_lifecycle v) = lo_page_generation r"
      "locator_lineage_loop (sv_state v) (lo_page_generation r) main [] (lo_frame_id r) [] = Inr routes"
      "lo_document_epoch (hd routes) = lo_document_epoch r" "lo_loader_id (hd routes) = lo_loader_id r"
      "lo_session_id (hd routes) = lo_session_id r"
    by (auto simp: freeze_locator_lineage_def and_then_Inr Let_def validate_page_def split: if_splits option.splits)
  from locator_lineage_loop_chain[OF main(4)]
  have chain: "lineage_chain (sv_state v) (lo_page_generation r) (lo_frame_id r) main routes" by auto
  then have hd_in: "hd routes \<in> set routes" "lo_frame_id (hd routes) = lo_frame_id r"
    by (auto simp: lineage_chain_def)
  then have "recorded_route (sv_state v) (lo_page_generation r) (hd routes)" using chain by (auto simp: lineage_chain_def)
  then have "lo_page_generation (hd routes) = lo_page_generation r"
    unfolding recorded_route_def by (metis lineage_route_def locator_route.select_convs(1))
  with main(5-7) hd_in(2) have "hd routes = r" by (simp add: locator_route.equality)
  moreover have "sessions_keyed (sv_state v)"
    using sessions_keyed_reached[of es first] assms(2) by (simp add: sessions_keyed_def)
  then have "\<forall>q \<in> set routes. validate_locator_route v q = (case sv_terminal_route v of None \<Rightarrow> Inr () | Some e \<Rightarrow> Inl e)"
    using chain recorded_route_valid[OF _ main(2,3)] by (auto simp: lineage_chain_def)
  ultimately show ?thesis using main(1) chain by blast
qed


definition parent_rel :: "frame_graph \<Rightarrow> (ident \<times> ident) set" where
  "parent_rel g = {(p, c). graph_parent c g = Some p}"

lemma finite_parent_rel: "finite (parent_rel g)"
proof (rule finite_subset)
  show "parent_rel g \<subseteq> (\<lambda>(c, r). (the (fr_parent r), c)) ` set (fg_frames g)"
    by (force simp: parent_rel_def graph_parent_def bind_eq_Some_conv dest!: map_of_SomeD)
qed simp

lemma frame_lineage_loop_returns:
  assumes "wf (parent_rel (graph_of v))"
  shows "\<exists>res. frame_lineage_loop v f lineage = Some res"
  using assms
proof (induction f arbitrary: lineage rule: wf_induct_rule)
  case (less f)
  show ?case
  proof (cases "graph_parent f (graph_of v)")
    case None
    then show ?thesis by (subst frame_lineage_loop.simps) (simp split: option.splits)
  next
    case (Some p)
    then have "(p, f) \<in> parent_rel (graph_of v)" by (simp add: parent_rel_def)
    then show ?thesis using less Some by (subst frame_lineage_loop.simps) (simp split: option.splits)
  qed
qed

text \<open>
  C37: The loop that freezes the lineage of a frame returns for every frame whenever the parent links of
  the graph have no cycle.
\<close>

theorem frame_lineage_terminates:
  assumes "acyclic (parent_rel (graph_of v))"
  shows "\<exists>res. freeze_frame_lineage v f = Some res"
  unfolding freeze_frame_lineage_def
  by (intro frame_lineage_loop_returns finite_acyclic_wf finite_parent_rel assms)

text \<open>
  The acyclicity is needed: two frames that the browser announces as each other's parent make the loop
  run forever, while the loop of \<open>freeze_locator_lineage\<close> reports such a cycle.
\<close>

lemma frame_lineage_loop_cycle:
  assumes "frame_lineage_loop v f lineage = Some res" "f \<in> F"
    and "\<And>x. x \<in> F \<Longrightarrow> is_route_active x (graph_of v) \<and> identity_snapshot v x \<noteq> None \<and>
           (\<exists>p \<in> F. graph_parent x (graph_of v) = Some p)"
  shows False
proof -
  have "v = v \<longrightarrow> f \<in> F \<longrightarrow> False"
  proof (rule frame_lineage_loop.raw_induct[where P = "\<lambda>w x lineage res. w = v \<longrightarrow> x \<in> F \<longrightarrow> False", OF _ assms(1)])
    fix loop w x acc y
    assume IH: "\<And>w x acc y. loop w x acc = Some y \<Longrightarrow> w = v \<longrightarrow> x \<in> F \<longrightarrow> False"
      and eq: "(if \<not> is_route_active x (graph_of w) then Some None
        else case identity_snapshot w x of None \<Rightarrow> Some None
        | Some s \<Rightarrow> (case graph_parent x (graph_of w) of
             None \<Rightarrow> Some (Some (acc @ [\<lparr>fh_id = x, fh_snapshot = s\<rparr>]))
           | Some p \<Rightarrow> loop w p (acc @ [\<lparr>fh_id = x, fh_snapshot = s\<rparr>]))) = Some y"
    show "w = v \<longrightarrow> x \<in> F \<longrightarrow> False"
    proof (intro impI)
      assume x: "w = v" "x \<in> F"
      obtain p where "p \<in> F" "graph_parent x (graph_of v) = Some p" using assms(3)[OF x(2)] by blast
      then show False using eq x assms(3)[OF x(2)] IH by (auto split: option.splits)
    qed
  qed
  with assms(2) show False by simp
qed

definition cyclic_view :: store_view where
  "cyclic_view =
     \<lparr>sv_page_alive = True, sv_terminal_route = None, sv_lifecycle = new_lifecycle 1, sv_generation = 1,
      sv_state = \<lparr>st_graph = graph_attach ''b'' (Some ''a'') (graph_attach ''a'' (Some ''b'') (new_graph ''s'')),
        st_sessions = [(''s'', ''s'')], st_children = [], st_next_token = 1, st_contexts = [], st_cancelled = {}\<rparr>\<rparr>"

theorem cyclic_lineage_never_returns: "freeze_frame_lineage cyclic_view ''a'' = None"
proof (rule ccontr)
  assume "freeze_frame_lineage cyclic_view ''a'' \<noteq> None"
  then obtain res where "frame_lineage_loop cyclic_view ''a'' [] = Some res" by (auto simp: freeze_frame_lineage_def)
  then show False
  proof (rule frame_lineage_loop_cycle[where F = "{''a'', ''b''}"])
    have "\<forall>x \<in> {''a'', ''b''}. is_route_active x (graph_of cyclic_view) \<and> identity_snapshot cyclic_view x \<noteq> None \<and>
        (\<exists>p \<in> {''a'', ''b''}. graph_parent x (graph_of cyclic_view) = Some p)"
      by code_simp
    then show "\<And>x. x \<in> {''a'', ''b''} \<Longrightarrow> is_route_active x (graph_of cyclic_view) \<and> identity_snapshot cyclic_view x \<noteq> None \<and>
        (\<exists>p \<in> {''a'', ''b''}. graph_parent x (graph_of cyclic_view) = Some p)"
      by blast
  qed simp
qed


subsection \<open>Confirmed lineages\<close>

fun tree_nodes :: "frame_tree \<Rightarrow> frame_tree set" where
  "tree_nodes (FrameTree f p l cs) = insert (FrameTree f p l cs) (\<Union> (set (map tree_nodes cs)))"

definition index_within :: "frame_tree set \<Rightarrow> (ident \<times> frame_tree) list \<Rightarrow> bool" where
  "index_within T index \<longleftrightarrow> (\<forall>f u. map_of index f = Some u \<longrightarrow> u \<in> T \<and> ft_id u = f)"

lemma index_frame_tree_within:
  "index_within T index \<Longrightarrow> tree_nodes t \<subseteq> T \<Longrightarrow> index_within T (fst (snd (index_frame_tree t (index, ids))))"
proof (induction t arbitrary: index ids)
  case (FrameTree f p l cs)
  let ?t = "FrameTree f p l cs"
  have kids: "\<forall>c \<in> set cs. tree_nodes c \<subseteq> T" "?t \<in> T" using FrameTree(3) by auto
  have "index_within T (fst (snd acc)) \<Longrightarrow> set ds \<subseteq> set cs \<Longrightarrow>
      index_within T (fst (snd (fold (\<lambda>child (n, acc). case index_frame_tree child acc of (m, acc') \<Rightarrow> (n + m, acc')) ds acc)))"
    for ds :: "frame_tree list" and acc :: "nat \<times> (ident \<times> frame_tree) list \<times> ident list"
  proof (induction ds arbitrary: acc)
    case (Cons d ds)
    obtain n idx known where acc: "acc = (n, idx, known)" by (cases acc) auto
    have "index_within T (fst (snd (index_frame_tree d (idx, known))))"
      using FrameTree(1)[of d idx known] Cons(2,3) kids acc by auto
    then show ?case using Cons(1)[of "case index_frame_tree d (idx, known) of (m, acc') \<Rightarrow> (n + m, acc')"] Cons(3) acc
      by (auto split: prod.splits)
  qed simp
  moreover have "index_within T (AList.update f ?t index)" using FrameTree(2) kids(2) by (auto simp: index_within_def)
  ultimately show ?case by simp
qed

definition confirmed :: "(ident \<Rightarrow> string + frame_tree) \<Rightarrow> (ident \<Rightarrow> store_view) \<Rightarrow> locator_route \<Rightarrow> frame_identity \<Rightarrow> bool" where
  "confirmed tree_of view_of r i \<longleftrightarrow>
     validate_locator_route (view_of (lo_session_id r)) r = Inr () \<and>
     (\<exists>tree. tree_of (lo_session_id r) = Inr tree \<and>
        (\<exists>t \<in> tree_nodes tree. ft_id t = lo_frame_id r \<and> ft_loader t = lo_loader_id r \<and>
           fi_parent_id i = ft_parent t \<and> fi_child_ids i = map ft_id (ft_children t)))"

lemma confirm_routes_confirmed:
  "confirm_routes (view_of s) index rs identities = Inr out \<Longrightarrow> tree_of s = Inr tree \<Longrightarrow>
   index_within (tree_nodes tree) index \<Longrightarrow> \<forall>r \<in> set rs. lo_session_id r = s \<Longrightarrow> distinct (map lo_frame_id rs) \<Longrightarrow>
   (\<forall>r \<in> set rs. \<exists>i. map_of out (lo_frame_id r) = Some i \<and> confirmed tree_of view_of r i) \<and>
   (\<forall>k. k \<notin> lo_frame_id ` set rs \<longrightarrow> map_of out k = map_of identities k)"
proof (induction rs arbitrary: identities)
  case (Cons r rs)
  from Cons.prems(1) obtain t i where t: "map_of index (lo_frame_id r) = Some t"
      "validate_route_in_tree (view_of s) r t = Inr i"
      "confirm_routes (view_of s) index rs (AList.update (lo_frame_id r) i identities) = Inr out"
    by (auto simp: and_then_Inr split: option.splits)
  from t(1) Cons.prems(3) have node: "t \<in> tree_nodes tree" "ft_id t = lo_frame_id r" by (auto simp: index_within_def)
  have i: "confirmed tree_of view_of r i"
    using t(2) Cons.prems(2,4) node
    by (auto simp: confirmed_def validate_route_in_tree_def and_then_Inr split: if_splits)
  have rest: "(\<forall>r \<in> set rs. \<exists>i. map_of out (lo_frame_id r) = Some i \<and> confirmed tree_of view_of r i) \<and>
      (\<forall>k. k \<notin> lo_frame_id ` set rs \<longrightarrow> map_of out k = map_of (AList.update (lo_frame_id r) i identities) k)"
    using Cons.IH[OF t(3) Cons.prems(2,3)] Cons.prems(4,5) by simp
  then have "map_of out (lo_frame_id r) = Some i" using Cons.prems(5) by simp
  with rest i show ?case by auto
qed simp

lemma confirm_sessions_confirmed:
  "confirm_sessions tree_of view_of gs batch = Inr out \<Longrightarrow> distinct (map lo_frame_id (concat (map snd gs))) \<Longrightarrow>
   \<forall>(s, rs) \<in> set gs. \<forall>r \<in> set rs. lo_session_id r = s \<Longrightarrow>
   (\<forall>r \<in> set (concat (map snd gs)). \<exists>i. map_of (fb_identities out) (lo_frame_id r) = Some i \<and> confirmed tree_of view_of r i) \<and>
   (\<forall>k. k \<notin> lo_frame_id ` set (concat (map snd gs)) \<longrightarrow> map_of (fb_identities out) k = map_of (fb_identities batch) k)"
proof (induction gs arbitrary: batch)
  case (Cons g gs)
  obtain s rs where g: "g = (s, rs)" by (cases g)
  from Cons.prems(1) g obtain tree where tree: "tree_of s = Inr tree" by (auto split: sum.splits)
  obtain n index ids where idx: "index_frame_tree tree ([], fb_frame_ids batch) = (n, index, ids)"
    using prod_cases3 by blast
  from Cons.prems(1) g tree idx obtain identities where
    c: "confirm_routes (view_of s) index rs (fb_identities batch) = Inr identities"
      "confirm_sessions tree_of view_of gs \<lparr>fb_frame_ids = ids, fb_identities = identities\<rparr> = Inr out"
    by (auto simp: and_then_Inr)
  have within: "index_within (tree_nodes tree) index"
    using index_frame_tree_within[of "tree_nodes tree" "[]" tree "fb_frame_ids batch"] idx by (simp add: index_within_def)
  note here = confirm_routes_confirmed[where view_of = view_of and s = s and tree_of = tree_of, OF c(1) tree within]
  let ?K = "lo_frame_id ` set (concat (map snd gs))"
  have first: "\<forall>r \<in> set rs. \<exists>i. map_of identities (lo_frame_id r) = Some i \<and> confirmed tree_of view_of r i"
      "\<forall>k. k \<notin> lo_frame_id ` set rs \<longrightarrow> map_of identities k = map_of (fb_identities batch) k"
    using here Cons.prems(2,3) g by simp_all
  have rest: "\<forall>r \<in> set (concat (map snd gs)). \<exists>i. map_of (fb_identities out) (lo_frame_id r) = Some i \<and> confirmed tree_of view_of r i"
      "\<forall>k. k \<notin> ?K \<longrightarrow> map_of (fb_identities out) k = map_of identities k"
    using Cons.IH[OF c(2)] Cons.prems(2,3) g by simp_all
  have "\<forall>r \<in> set rs. lo_frame_id r \<notin> ?K" using Cons.prems(2) g by auto
  then have "\<forall>r \<in> set rs. \<exists>i. map_of (fb_identities out) (lo_frame_id r) = Some i \<and> confirmed tree_of view_of r i"
    using first(1) rest(2) by simp
  moreover have "\<forall>k. k \<notin> lo_frame_id ` set rs \<union> ?K \<longrightarrow> map_of (fb_identities out) k = map_of (fb_identities batch) k"
    using first(2) rest(2) by simp
  ultimately show ?case using rest(1) unfolding g by (auto simp: image_Un)
qed simp

lemma by_session_props:
  "wf_map m \<Longrightarrow> (\<forall>(s, rs) \<in> set m. \<forall>r \<in> set rs. lo_session_id r = s) \<Longrightarrow>
   (let m' = fold (\<lambda>r m. AList.update (lo_session_id r) (or_default [] (map_of m (lo_session_id r)) @ [r]) m) routes m
    in wf_map m' \<and> (\<forall>(s, rs) \<in> set m'. \<forall>r \<in> set rs. lo_session_id r = s) \<and>
       map_total mset m' = map_total mset m + mset routes)"
proof (induction routes arbitrary: m)
  case (Cons r routes)
  let ?m = "AList.update (lo_session_id r) (or_default [] (map_of m (lo_session_id r)) @ [r]) m"
  have "\<forall>(s, rs) \<in> set ?m. \<forall>q \<in> set rs. lo_session_id q = s"
    using Cons.prems(2) set_update_within[of "lo_session_id r" "or_default [] (map_of m (lo_session_id r)) @ [r]" m]
    by (cases "map_of m (lo_session_id r)") (fastforce dest: map_of_SomeD)+
  moreover have "map_total mset ?m = map_total mset m + {#r#}"
    using Cons.prems(1) map_total_update[of m mset "lo_session_id r"] map_total_delete[of m mset "lo_session_id r"]
    by (cases "map_of m (lo_session_id r)") auto
  ultimately show ?case using Cons.IH[of ?m] Cons.prems(1) by (simp add: Let_def)
qed simp


lemma check_boundaries_Inr: "check_boundaries batch routes = Inr u \<longleftrightarrow> successively (boundary_ok batch) routes"
  by (induction batch routes rule: check_boundaries.induct) auto

lemma authoritative_confirmed:
  assumes "validate_locator_routes_authoritative arrange tree_of view_of v routes = Inr batch"
    and "distinct (map lo_frame_id routes)" "\<And>m. mset (arrange m) = mset m" "r \<in> set routes"
  shows "\<exists>i. map_of (fb_identities batch) (lo_frame_id r) = Some i \<and> confirmed tree_of view_of r i"
proof -
  let ?gs = "arrange (by_session routes)"
  from assms(1) have run: "confirm_sessions tree_of view_of ?gs \<lparr>fb_frame_ids = [], fb_identities = []\<rparr> = Inr batch"
    by (auto simp: validate_locator_routes_authoritative_def split: option.splits)
  have total: "mset (concat (map snd gs)) = map_total mset gs" for gs :: "(ident \<times> locator_route list) list"
    by (induction gs) auto
  have "map_total mset ?gs = map_total mset (by_session routes)"
    unfolding map_total_def using assms(3)[of "by_session routes"]
    by (metis mset_map sum_mset_sum_list)
  then have same: "mset (concat (map snd ?gs)) = mset routes"
    using by_session_props[of "[]" routes] by (simp add: total by_session_def Let_def)
  then have "mset (map lo_frame_id (concat (map snd ?gs))) = mset (map lo_frame_id routes)"
    by (metis mset_map)
  then have "distinct (map lo_frame_id (concat (map snd ?gs)))"
    using assms(2) mset_eq_imp_distinct_iff by blast
  moreover have "set ?gs = set (by_session routes)" using assms(3) mset_eq_setD by blast
  then have "\<forall>(s, rs) \<in> set ?gs. \<forall>r \<in> set rs. lo_session_id r = s"
    using by_session_props[of "[]" routes] by (simp add: by_session_def Let_def)
  moreover have "r \<in> set (concat (map snd ?gs))" using same assms(4) mset_eq_setD by blast
  ultimately show ?thesis using confirm_sessions_confirmed[OF run] by blast
qed

definition confirmed_child :: "(ident \<Rightarrow> string + frame_tree) \<Rightarrow> (ident \<Rightarrow> store_view) \<Rightarrow> locator_route \<Rightarrow> locator_route \<Rightarrow> bool" where
  "confirmed_child tree_of view_of c p \<longleftrightarrow>
     (\<exists>i j. confirmed tree_of view_of c i \<and> confirmed tree_of view_of p j \<and> fi_parent_id i = Some (lo_frame_id p) \<and>
        (lo_session_id c = lo_session_id p \<longrightarrow> lo_frame_id c \<in> set (fi_child_ids j)))"

text \<open>
  C35: When the authoritative check of a lineage succeeds, the browser's own frame trees show every route's
  frame with the route's document, every frame as the child of the next one of the lineage, listed by its
  parent where both are carried by one session, and the frame store still accepted the route after the
  tree had arrived, whatever the order in which the sessions were asked.
\<close>

theorem confirmed_lineage_matches_browser:
  assumes "validate_locator_lineage_authoritative arrange tree_of view_of v routes = Inr batch"
    and "distinct (map lo_frame_id routes)" "\<And>m. mset (arrange m) = mset m"
  shows "successively (confirmed_child tree_of view_of) routes \<and> (\<forall>r \<in> set routes. \<exists>i. confirmed tree_of view_of r i)"
proof -
  from assms(1) have run: "validate_locator_routes_authoritative arrange tree_of view_of v routes = Inr batch"
      and chain: "successively (boundary_ok batch) routes"
    by (auto simp: validate_locator_lineage_authoritative_def and_then_Inr check_boundaries_Inr)
  note each = authoritative_confirmed[OF run assms(2,3)]
  have "successively (confirmed_child tree_of view_of) routes"
  proof (rule successively_mono[OF chain, rule_format])
    fix c p assume cp: "c \<in> set routes" "p \<in> set routes" "boundary_ok batch c p"
    obtain i j where "map_of (fb_identities batch) (lo_frame_id c) = Some i" "confirmed tree_of view_of c i"
        "map_of (fb_identities batch) (lo_frame_id p) = Some j" "confirmed tree_of view_of p j"
      using each[OF cp(1)] each[OF cp(2)] by blast
    with cp(3) show "confirmed_child tree_of view_of c p"
      unfolding confirmed_child_def by (intro exI[of _ i] exI[of _ j]) (auto simp: boundary_ok_def)
  qed
  then show ?thesis using each by blast
qed

subsection \<open>Execution contexts\<close>

lemma current_context_valid:
  "validate_locator_route v r = Inr () \<Longrightarrow> default_context (lo_session_id r) (lo_frame_id r) (sv_state v) = Some c \<Longrightarrow>
   validate_main_world_context v r c = Inr ()"
  by (simp add: validate_main_world_context_def and_then_def)

text \<open>The context that the wait returns was, at the instant it was read, the valid one of a valid route.\<close>

lemma await_context_Inr:
  "await_context r ws v = Some (Inr c) \<Longrightarrow>
   \<exists>w \<in> insert v {w. ContextChanged w \<in> set ws}. validate_locator_route w r = Inr () \<and>
     validate_main_world_context w r c = Inr ()"
proof (induction ws arbitrary: v)
  case Nil
  then show ?case by (auto intro: current_context_valid split: sum.splits)
next
  case (Cons w ws)
  show ?case
  proof (cases "default_context (lo_session_id r) (lo_frame_id r) (sv_state v)")
    case None
    with Cons.prems obtain v' where "w = ContextChanged v'" "await_context r ws v' = Some (Inr c)"
      by (auto split: sum.splits context_wake.splits)
    with Cons.IH[of v'] show ?thesis by auto
  next
    case (Some d)
    with Cons.prems show ?thesis by (auto intro: current_context_valid split: sum.splits)
  qed
qed

subsection \<open>Examples\<close>

definition example_view :: store_view where
  "example_view = cyclic_view\<lparr>sv_state := (sv_state cyclic_view)\<lparr>st_graph :=
     snd (graph_navigate ''kid'' (Some ''top'') ''L2'' (snd (graph_navigate ''top'' None ''L1'' (new_graph ''s''))))\<rparr>\<rparr>"

definition example_tree :: frame_tree where
  "example_tree = FrameTree ''top'' None ''L1'' [FrameTree ''kid'' (Some ''top'') ''L2'' []]"

definition example_kid :: locator_route where
  "example_kid = \<lparr>lo_page_generation = 1, lo_document_epoch = 0, lo_frame_id = ''kid'', lo_session_id = ''s'', lo_loader_id = ''L2''\<rparr>"

definition example_top :: locator_route where
  "example_top = \<lparr>lo_page_generation = 1, lo_document_epoch = 0, lo_frame_id = ''top'', lo_session_id = ''s'', lo_loader_id = ''L1''\<rparr>"

theorem frozen_lineage_reaches_main_witness:
  "\<exists>main. fg_main_frame_id (graph_of example_view) = Some main \<and>
    lineage_chain (sv_state example_view) 1 ''kid'' main [example_kid, example_top] \<and>
    (\<forall>q \<in> set [example_kid, example_top]. validate_locator_route example_view q = Inr ())"
proof -
  have frozen: "freeze_locator_lineage example_view example_kid = Inr [example_kid, example_top]"
    by code_simp
  have reached: "st_sessions (sv_state example_view) = st_sessions (ss_state (fold session_apply [] (init_sessions ''s'')))"
    by (simp add: init_sessions_def example_view_def cyclic_view_def)
  have "sv_terminal_route example_view = None" by code_simp
  then show ?thesis
    using frozen_lineage_reaches_main[OF frozen reached] by (simp add: example_kid_def)
qed

lemma parent_rel_map:
  "parent_rel g = {(p, c). map_of (map (\<lambda>(k, r). (k, fr_parent r)) (fg_frames g)) c = Some (Some p)}"
proof -
  have "map_of (map (\<lambda>(k, r). (k, fr_parent r)) fs) c = map_option fr_parent (map_of fs c)"
    for fs :: "(ident \<times> frame_record) list" and c
    by (induction fs) auto
  then show ?thesis by (auto simp: parent_rel_def graph_parent_def bind_eq_Some_conv)
qed

theorem frame_lineage_terminates_witness: "\<exists>res. freeze_frame_lineage example_view ''kid'' = Some res"
proof (rule frame_lineage_terminates)
  have "map (\<lambda>(k, r). (k, fr_parent r)) (fg_frames (graph_of example_view)) = [(''top'', None), (''kid'', Some ''top'')]"
    by code_simp
  then have "parent_rel (graph_of example_view) \<subseteq> {(''top'', ''kid'')}"
    using parent_rel_map[of "graph_of example_view"] by (auto split: if_splits)
  moreover have "acyclic {(''top'', ''kid'')}" by (rule acyclicI_order[where f = "\<lambda>s. if s = ''top'' then 1 else (0 :: nat)"]) auto
  ultimately show "acyclic (parent_rel (graph_of example_view))" using acyclic_subset by blast
qed

theorem confirmed_lineage_matches_browser_witness:
  "successively (confirmed_child (\<lambda>_. Inr example_tree) (\<lambda>_. example_view)) [example_kid, example_top]"
proof -
  have "\<not> isl (validate_locator_lineage_authoritative id (\<lambda>_. Inr example_tree) (\<lambda>_. example_view) example_view
      [example_kid, example_top])"
    by code_simp
  then obtain batch where "validate_locator_lineage_authoritative id (\<lambda>_. Inr example_tree) (\<lambda>_. example_view) example_view
      [example_kid, example_top] = Inr batch"
    using sum.collapse(2) by metis
  moreover have "distinct (map lo_frame_id [example_kid, example_top])" by code_simp
  moreover have "mset (id m) = mset m" for m :: "(ident \<times> locator_route list) list" by simp
  ultimately show ?thesis using confirmed_lineage_matches_browser by blast
qed

end
