(* ===== verification/Floats.thy ===== *)
theory Floats
  imports Prelude Complex_Main "HOL-Library.Log_Nat"
begin

text \<open>
  The values of an \<open>f64\<close> as the modelled code distinguishes them: a finite value is the rational it
  stands for (both zeros are 0). Comparisons follow IEEE 754: every comparison with a NaN is false.
  Arithmetic is exact arithmetic that is rounded.
\<close>

datatype f64 = Finite rat | PosInfinity | NegInfinity | NotANumber

fun f64_is_finite :: "f64 \<Rightarrow> bool" where
  "f64_is_finite (Finite _) = True"
| "f64_is_finite _ = False"

fun f64_le :: "f64 \<Rightarrow> f64 \<Rightarrow> bool" where
  "f64_le (Finite a) (Finite b) \<longleftrightarrow> a \<le> b"
| "f64_le NotANumber _ = False"
| "f64_le _ NotANumber = False"
| "f64_le NegInfinity _ = True"
| "f64_le _ PosInfinity = True"
| "f64_le _ _ = False"

fun f64_lt :: "f64 \<Rightarrow> f64 \<Rightarrow> bool" where
  "f64_lt (Finite a) (Finite b) \<longleftrightarrow> a < b"
| "f64_lt NotANumber _ = False"
| "f64_lt _ NotANumber = False"
| "f64_lt NegInfinity NegInfinity = False"
| "f64_lt PosInfinity _ = False"
| "f64_lt NegInfinity _ = True"
| "f64_lt (Finite _) PosInfinity = True"
| "f64_lt (Finite _) NegInfinity = False"

definition f64_in :: "f64 \<Rightarrow> f64 \<Rightarrow> f64 \<Rightarrow> bool" where
  "f64_in lo hi x \<longleftrightarrow> f64_le lo x \<and> f64_le x hi"

lemma f64_is_finite_iff: "f64_is_finite x \<longleftrightarrow> (\<exists>r. x = Finite r)"
  by (cases x) auto

lemma f64_in_finite: "f64_in (Finite lo) (Finite hi) x \<longleftrightarrow> (\<exists>r. x = Finite r \<and> lo \<le> r \<and> r \<le> hi)"
  by (cases x) (auto simp: f64_in_def)

lemma f64_lt_irrefl [simp]: "\<not> f64_lt x x"
  by (cases x) auto

subsection \<open>Arithmetic\<close>

text \<open>
  The exact result, rounded to 53 bits with ties to even; subnormal numbers and overflow included. The divisors of
  the modelled code are never zero, so the sign of a zero does not matter.
\<close>

definition binary_exponent :: "rat \<Rightarrow> int" where
  "binary_exponent x =
     (case quotient_of x of (n, d) \<Rightarrow>
        let e = bitlen n - bitlen d in if x < 2 powi e then e - 1 else e)"

definition round_half_even :: "rat \<Rightarrow> int" where
  "round_half_even x =
     (let f = \<lfloor>x\<rfloor>; r = x - of_int f
      in if r < 1 / 2 then f else if r > 1 / 2 then f + 1 else if even f then f else f + 1)"

definition f64_round :: "rat \<Rightarrow> f64" where
  "f64_round x =
     (if x = 0 then Finite 0
      else let u = 2 powi (max (binary_exponent \<bar>x\<bar> - 52) (- 1074)); r = of_int (round_half_even (\<bar>x\<bar> / u)) * u
           in if r \<ge> 2 powi 1024 then (if x > 0 then PosInfinity else NegInfinity) else Finite (if x > 0 then r else - r))"

fun f64_mul :: "f64 \<Rightarrow> f64 \<Rightarrow> f64" where
  "f64_mul (Finite a) (Finite b) = f64_round (a * b)"
| "f64_mul NotANumber _ = NotANumber"
| "f64_mul _ NotANumber = NotANumber"
| "f64_mul (Finite a) y = (if a = 0 then NotANumber else if (a > 0) = (y = PosInfinity) then PosInfinity else NegInfinity)"
| "f64_mul x (Finite b) = (if b = 0 then NotANumber else if (b > 0) = (x = PosInfinity) then PosInfinity else NegInfinity)"
| "f64_mul x y = (if x = y then PosInfinity else NegInfinity)"

fun f64_neg :: "f64 \<Rightarrow> f64" where
  "f64_neg (Finite a) = Finite (- a)"
| "f64_neg PosInfinity = NegInfinity"
| "f64_neg NegInfinity = PosInfinity"
| "f64_neg NotANumber = NotANumber"

fun f64_add :: "f64 \<Rightarrow> f64 \<Rightarrow> f64" where
  "f64_add (Finite a) (Finite b) = f64_round (a + b)"
| "f64_add NotANumber _ = NotANumber"
| "f64_add _ NotANumber = NotANumber"
| "f64_add (Finite a) y = y"
| "f64_add x (Finite b) = x"
| "f64_add x y = (if x = y then x else NotANumber)"

definition f64_sub :: "f64 \<Rightarrow> f64 \<Rightarrow> f64" where
  "f64_sub x y = f64_add x (f64_neg y)"

fun f64_div :: "f64 \<Rightarrow> f64 \<Rightarrow> f64" where
  "f64_div (Finite a) (Finite b) =
     (if b = 0 then (if a = 0 then NotANumber else if a > 0 then PosInfinity else NegInfinity) else f64_round (a / b))"
| "f64_div NotANumber _ = NotANumber"
| "f64_div _ NotANumber = NotANumber"
| "f64_div (Finite a) y = Finite 0"
| "f64_div x (Finite b) = (if (b \<ge> 0) = (x = PosInfinity) then PosInfinity else NegInfinity)"
| "f64_div x y = NotANumber"

fun f64_abs :: "f64 \<Rightarrow> f64" where
  "f64_abs (Finite a) = Finite \<bar>a\<bar>"
| "f64_abs NotANumber = NotANumber"
| "f64_abs _ = PosInfinity"

text \<open>\<open>f64::max\<close> and \<open>f64::min\<close> ignore a NaN beside a number.\<close>

definition f64_max :: "f64 \<Rightarrow> f64 \<Rightarrow> f64" where
  "f64_max x y = (if x = NotANumber then y else if y = NotANumber then x else if f64_le x y then y else x)"

definition f64_min :: "f64 \<Rightarrow> f64 \<Rightarrow> f64" where
  "f64_min x y = (if x = NotANumber then y else if y = NotANumber then x else if f64_le x y then x else y)"

subsection \<open>Rounding keeps what is representable\<close>

lemma bitlen_powi:
  assumes "0 < n"
  shows "2 powi (bitlen n - 1) \<le> (of_int n :: rat)" "(of_int n :: rat) < 2 powi bitlen n"
proof -
  note b = bitlen_bounds [OF assms]
  have "\<not> bitlen n \<le> 0"
  proof
    assume "bitlen n \<le> 0"
    then show False using b assms by (simp only: nat_eq_iff2 power_0 nat_0_iff [THEN iffD2]) linarith
  qed
  have "(2 :: rat) powi (bitlen n - 1) = of_int (2 ^ nat (bitlen n - 1))" "(2 :: rat) powi bitlen n = of_int (2 ^ nat (bitlen n))"
    using \<open>\<not> bitlen n \<le> 0\<close> by (simp_all add: power_int_def)
  then show "2 powi (bitlen n - 1) \<le> (of_int n :: rat)" "(of_int n :: rat) < 2 powi bitlen n"
    using b by (simp_all only: of_int_le_iff of_int_less_iff)
qed

text \<open>The exponent of a positive value.\<close>

lemma binary_exponent_bounds:
  assumes "0 < x"
  shows "2 powi binary_exponent x \<le> x" "x < 2 powi (binary_exponent x + 1)"
proof -
  obtain n d where q: "quotient_of x = (n, d)" by (cases "quotient_of x")
  have d: "0 < d" and x: "x = of_int n / of_int d" using quotient_of_denom_pos [OF q] quotient_of_div [OF q] by auto
  then have n: "0 < n" using assms by (simp add: zero_less_divide_iff)
  let ?e = "bitlen n - bitlen d"
  have two: "(2 :: rat) powi (?e - 1) = 2 powi (bitlen n - 1) / 2 powi bitlen d"
    "(2 :: rat) powi (?e + 1) = 2 powi bitlen n / 2 powi (bitlen d - 1)"
    by (simp_all add: power_int_diff [symmetric] algebra_simps)
  have "2 powi (?e - 1) \<le> x"
    unfolding two x using bitlen_powi [OF n] bitlen_powi [OF d] d n by (intro frac_le) auto
  moreover have "x < 2 powi (?e + 1)"
    unfolding two x using bitlen_powi [OF n] bitlen_powi [OF d] d n by (intro frac_less) auto
  ultimately show "2 powi binary_exponent x \<le> x" "x < 2 powi (binary_exponent x + 1)"
    by (auto simp: binary_exponent_def q Let_def)
qed

lemma binary_exponent_eq:
  assumes "2 powi e \<le> x" "x < 2 powi (e + 1)"
  shows "binary_exponent x = e"
proof -
  have "(0 :: rat) < 2 powi e" by simp
  with assms(1) have b: "2 powi binary_exponent x \<le> x" "x < 2 powi (binary_exponent x + 1)"
    using binary_exponent_bounds [of x] by linarith+
  have mono: "m < n" if "(2 :: rat) powi m < 2 powi n" for m n
    using that power_int_increasing [of n m "2 :: rat"] by (meson linorder_not_less one_le_numeral)
  have "e < binary_exponent x + 1" by (rule mono) (use b assms in linarith)
  moreover have "binary_exponent x < e + 1" by (rule mono) (use b assms in linarith)
  ultimately show ?thesis by simp
qed

lemma round_half_even_int [simp]: "round_half_even (of_int n) = n"
  by (simp add: round_half_even_def)

text \<open>The value of a rounding, from the exponent and the rounded significand.\<close>

lemma f64_round_eq:
  assumes "2 powi e \<le> x" "x < 2 powi (e + 1)" "- 1022 \<le> e" "e \<le> 1022" "round_half_even (x / 2 powi (e - 52)) = m" "m \<le> 2 ^ 53"
  shows "f64_round x = Finite (of_int m * 2 powi (e - 52))"
proof -
  have pos: "0 < x" using assms(1) by (meson less_le_trans zero_less_numeral zero_less_power_int)
  have "of_int m * 2 powi (e - 52) \<le> (2 ^ 53 :: rat) * 2 powi (e - 52)"
    using assms(6) by (intro mult_right_mono) (auto simp flip: of_int_le_iff)
  also have "\<dots> = 2 powi (53 + (e - 52))" unfolding power_int_add [OF disjI1 [OF zero_neq_numeral [symmetric]]] by simp
  also have "\<dots> = (2 :: rat) powi (e + 1)" by (rule arg_cong [of _ _ "\<lambda>k. 2 powi k"]) simp
  also have "\<dots> < 2 powi 1024" using assms(4) by (intro power_int_strict_increasing) auto
  finally have small: "\<not> 2 powi 1024 \<le> of_int m * (2 :: rat) powi (e - 52)" by (simp only: not_le)
  have "max (binary_exponent \<bar>x\<bar> - 52) (- 1074) = e - 52"
    using pos assms(3) by (simp add: binary_exponent_eq [OF assms(1,2)])
  with pos small show ?thesis
    by (simp only: f64_round_def Let_def abs_of_pos assms(5) if_False if_True less_irrefl order_less_imp_not_eq2)
qed

lemma round_half_even_near:
  assumes "of_int m - 1 / 2 < x" "x < of_int m + 1 / 2"
  shows "round_half_even x = m"
proof -
  have "m - 1 \<le> \<lfloor>x\<rfloor>" "\<lfloor>x\<rfloor> \<le> m" using assms by (simp_all add: le_floor_iff floor_le_iff)
  then consider "\<lfloor>x\<rfloor> = m" | "\<lfloor>x\<rfloor> = m - 1" by linarith
  then show ?thesis using assms by cases (simp_all add: round_half_even_def)
qed

lemma f64_round_near:
  assumes "2 powi e \<le> x" "x < 2 powi (e + 1)" "- 1022 \<le> e" "e \<le> 1022" "m \<le> 2 ^ 53"
    "of_int m - 1 / 2 < x / 2 powi (e - 52)" "x / 2 powi (e - 52) < of_int m + 1 / 2"
  shows "f64_round x = Finite (of_int m * 2 powi (e - 52))"
  using assms by (intro f64_round_eq round_half_even_near)

text \<open>Integers of up to 53 bits are represented exactly.\<close>

lemma f64_round_nat:
  assumes "n < 2 ^ 53"
  shows "f64_round (of_nat n) = Finite (of_nat n)"
proof (cases "n = 0")
  case True
  then show ?thesis by (simp add: f64_round_def)
next
  case False
  define e where "e = binary_exponent (of_nat n)"
  have b: "2 powi e \<le> (of_nat n :: rat)" "(of_nat n :: rat) < 2 powi (e + 1)"
    using binary_exponent_bounds [of "of_nat n"] False by (simp_all add: e_def)
  have "e < 53"
  proof (rule ccontr)
    assume "\<not> e < 53"
    then have "(2 :: rat) powi 53 \<le> 2 powi e" by (intro power_int_increasing) auto
    then have "(2 ^ 53 :: rat) \<le> of_nat n" using b(1) by simp
    then show False using assms by (metis of_nat_le_iff of_nat_numeral of_nat_power linorder_not_less)
  qed
  have "0 \<le> e"
  proof (rule ccontr)
    assume "\<not> 0 \<le> e"
    then have "(2 :: rat) powi (e + 1) \<le> 2 powi 0" by (intro power_int_increasing) auto
    then have "(of_nat n :: rat) < 1" using b(2) by simp
    then show False using False by simp
  qed
  have cut: "(of_nat n :: rat) / 2 powi (e - 52) = of_int (int n * 2 ^ nat (52 - e))"
    using \<open>e < 53\<close> by (simp add: power_int_diff power_int_def divide_simps nat_diff_distrib flip: power_add)
  have "f64_round (of_nat n) = Finite (of_int (int n * 2 ^ nat (52 - e)) * 2 powi (e - 52))"
  proof (rule f64_round_eq [OF b])
    show "round_half_even (of_nat n / 2 powi (e - 52)) = int n * 2 ^ nat (52 - e)" by (simp only: cut round_half_even_int)
    have "(of_int (int n * 2 ^ nat (52 - e)) :: rat) < 2 powi (e + 1) / 2 powi (e - 52)"
      unfolding cut [symmetric] using b(2) by (intro divide_strict_right_mono) auto
    also have "\<dots> = 2 ^ 53" by (simp flip: power_int_diff)
    finally have "(of_int (int n * 2 ^ nat (52 - e)) :: rat) \<le> of_int (2 ^ 53)" by simp
    then show "int n * 2 ^ nat (52 - e) \<le> 2 ^ 53" by (simp only: of_int_le_iff)
  qed (use \<open>0 \<le> e\<close> \<open>e < 53\<close> in auto)
  also have "of_int (int n * 2 ^ nat (52 - e)) * (2 :: rat) powi (e - 52) = of_nat n" unfolding cut [symmetric] by simp
  finally show ?thesis .
qed
lemma f64_round_minus: "f64_round (- x) = f64_neg (f64_round x)"
proof (cases "x = 0")
  case True
  then show ?thesis by (simp add: f64_round_def)
next
  case False
  define u :: rat where "u = 2 powi (max (binary_exponent \<bar>x\<bar> - 52) (- 1074))"
  define r where "r = of_int (round_half_even (\<bar>x\<bar> / u)) * u"
  define limit :: rat where "limit = 2 powi 1024"
  have round: "f64_round y = (if limit \<le> r then (if 0 < y then PosInfinity else NegInfinity) else Finite (if 0 < y then r else - r))"
    if "\<bar>y\<bar> = \<bar>x\<bar>" "y \<noteq> 0" for y
    using that by (simp only: f64_round_def Let_def u_def r_def limit_def if_False)
  show ?thesis using False round [of x] round [of "- x"] by auto
qed

lemma f64_round_zero [simp]: "f64_round 0 = Finite 0"
  by (simp add: f64_round_def)

lemma f64_round_numeral [simp]:
  "f64_round 1 = Finite 1" "(numeral k :: nat) < 2 ^ 53 \<Longrightarrow> f64_round (numeral k) = Finite (numeral k)"
  "f64_round (- 1) = Finite (- 1)" "(numeral k :: nat) < 2 ^ 53 \<Longrightarrow> f64_round (- numeral k) = Finite (- numeral k)"
  using f64_round_nat [of 1] f64_round_nat [of "numeral k"] by (simp_all add: f64_round_minus)

end
