(* ===== verification/Urls.thy ===== *)
theory Urls
  imports Rust_Strings
begin

text \<open>
  The parts of a parsed URL that the code reads from the \<open>url\<close> crate. Parsing itself is a parameter of
  every definition that needs it. \<open>pu_host\<close> is the host as it is printed (an IPv6 address in brackets),
  \<open>pu_port\<close> the port unless it is the default of the scheme, and \<open>pu_origin\<close> the ASCII serialization of the
  origin.
\<close>

record parsed_url =
  pu_scheme :: string
  pu_username :: string
  pu_password :: "string option"
  pu_host :: "string option"
  pu_port :: "nat option"
  pu_path :: string
  pu_query :: "string option"
  pu_fragment :: "string option"
  pu_origin :: string

type_synonym url_parser = "string \<Rightarrow> parsed_url option"

definition is_web_scheme :: "parsed_url \<Rightarrow> bool" where
  "is_web_scheme u \<longleftrightarrow> pu_scheme u = ''http'' \<or> pu_scheme u = ''https''"

text \<open>A URL with the given scheme and host and nothing else, for examples.\<close>

definition plain_url :: "string \<Rightarrow> string \<Rightarrow> parsed_url" where
  "plain_url scheme host =
     \<lparr>pu_scheme = scheme, pu_username = [], pu_password = None, pu_host = Some host, pu_port = None, pu_path = ''/'',
      pu_query = None, pu_fragment = None, pu_origin = scheme @ ''://'' @ host\<rparr>"

end
