(* ===== verification/Storage.thy ===== *)
theory Storage
  imports FrameRoutes Floats Urls "HOL-Library.Option_ord" "HOL-Library.Product_Lexorder"
begin

text \<open>
  Cookies, DOM storage and the authentication state of a session (\<open>src/src/runtime/storage.rs\<close>). The
  validation and matching functions are pure. The operations run against a shared world (operation gates,
  frame stores and whatever else the browser changes) and a port whose functions are the replies of the
  browser and of the parts of the runtime modelled elsewhere; any reply may change the shared world. Every
  mutating command that is sent is recorded in order. URLs are parsed by the \<open>url\<close> crate, a parameter.
\<close>

declare map_of_eq_Some_iff [simp del] and Some_eq_map_of_iff [simp del]

subsection \<open>Data\<close>

record cookie_partition_key =
  ckp_top_level_site :: string
  ckp_has_cross_site_ancestor :: bool

datatype same_site = SameSiteStrict | SameSiteLax | SameSiteNone

record browser_cookie =
  ck_name :: string
  ck_value :: string
  ck_url :: "string option"
  ck_domain :: "string option"
  ck_path :: "string option"
  ck_expires :: "f64 option"
  ck_http_only :: "bool option"
  ck_secure :: "bool option"
  ck_same_site :: "same_site option"
  ck_priority :: "string option"
  ck_source_scheme :: "string option"
  ck_source_port :: "int option"
  ck_partition_key :: "cookie_partition_key option"
  ck_partition_key_opaque :: "bool option"
  ck_size :: "int option"
  ck_session :: "bool option"

definition new_cookie :: "string \<Rightarrow> string \<Rightarrow> browser_cookie" where
  "new_cookie name val =
     \<lparr>ck_name = name, ck_value = val, ck_url = None, ck_domain = None, ck_path = None, ck_expires = None,
      ck_http_only = None, ck_secure = None, ck_same_site = None, ck_priority = None, ck_source_scheme = None,
      ck_source_port = None, ck_partition_key = None, ck_partition_key_opaque = None, ck_size = None, ck_session = None\<rparr>"

record cookie_deletion =
  cd_name :: string
  cd_url :: "string option"
  cd_domain :: "string option"
  cd_path :: "string option"
  cd_partition_key :: "cookie_partition_key option"

record storage_entry =
  se_key :: string
  se_value :: string

datatype storage_kind = LocalStorage | SessionStorage

record storage_id =
  si_storage_key :: string
  si_is_local :: bool

record origin_storage_state =
  os_origin :: string
  os_local_storage :: "storage_entry list"

record authentication_state =
  au_version :: "32 word"
  au_cookies :: "browser_cookie list"
  au_origins :: "origin_storage_state list"

definition authentication_state_version :: "32 word" where
  "authentication_state_version = 1"

datatype auth_import_mode = Merge | ReplaceAuthScope

text \<open>\<open>CookieParam\<close> and \<open>Cookie\<close> of the protocol; their open enumerations are the strings they print.\<close>

record cookie_param =
  cp_name :: string
  cp_value :: string
  cp_url :: "string option"
  cp_domain :: "string option"
  cp_path :: "string option"
  cp_secure :: "bool option"
  cp_http_only :: "bool option"
  cp_same_site :: "same_site option"
  cp_expires :: "f64 option"
  cp_priority :: "string option"
  cp_source_scheme :: "string option"
  cp_source_port :: "int option"
  cp_partition_key :: "cookie_partition_key option"

record cdp_cookie =
  cc_name :: string
  cc_value :: string
  cc_domain :: string
  cc_path :: string
  cc_expires :: f64
  cc_size :: int
  cc_http_only :: bool
  cc_secure :: bool
  cc_session :: bool
  cc_same_site :: "string option"
  cc_priority :: string
  cc_source_scheme :: string
  cc_source_port :: int
  cc_partition_key :: "cookie_partition_key option"
  cc_partition_key_opaque :: "bool option"

text \<open>A failed CDP call: its kind and the text it prints.\<close>

record cdp_failure =
  cdp_failure_kind :: cdp_kind
  cdp_failure_text :: string

subsection \<open>Errors\<close>

definition classify_storage_error :: "cdp_failure \<Rightarrow> storage_failure option" where
  "classify_storage_error err =
     (let message = map ascii_lower (cdp_failure_text err)
      in if str_contains ''unsupported'' message \<or> str_contains ''invalid cookie'' message
            \<or> str_contains ''partition key'' message
         then Some StorageUnsupported
         else if str_contains ''quota'' message then Some QuotaExceeded
         else if str_contains ''security'' message \<or> str_contains ''access denied'' message
            \<or> str_contains ''not allowed'' message
         then Some AccessDenied
         else None)"

definition with_storage_failure_option :: "storage_failure option \<Rightarrow> rt_error \<Rightarrow> rt_error" where
  "with_storage_failure_option f e = (case f of None \<Rightarrow> e | Some f \<Rightarrow> with_storage_failure f e)"

definition storage_observation_cdp :: "string \<Rightarrow> cdp_failure \<Rightarrow> rt_error" where
  "storage_observation_cdp op err =
     with_storage_failure_option (classify_storage_error err)
       (sensitive_cdp_operation (\<lambda>_. cdp_failure_kind err) op Observation NotStarted (cdp_failure_text err))"

definition storage_mutation_cdp :: "string \<Rightarrow> cdp_failure \<Rightarrow> rt_error" where
  "storage_mutation_cdp op err =
     with_storage_failure_option (classify_storage_error err)
       (sensitive_cdp_operation (\<lambda>_. cdp_failure_kind err) op Dispatch Unknown (cdp_failure_text err))"

definition mark_mutation_completed :: "rt_error \<Rightarrow> rt_error" where
  "mark_mutation_completed e = with_action_completion Completed e"

definition invalid_storage_input :: "string \<Rightarrow> string \<Rightarrow> rt_error" where
  "invalid_storage_input op message = with_storage_failure InvalidInput (with_message message (operation_error op Preparation))"

definition partial_mutation_error :: "rt_error \<Rightarrow> string \<Rightarrow> nat \<Rightarrow> rt_error" where
  "partial_mutation_error e op applied =
     (if applied = 0 then e
      else with_message (op @ '' failed after '' @ show_nat applied @ '' mutation batches; values are redacted'')
             (with_action_completion Unknown e))"

definition default_destructive_error :: "string \<Rightarrow> rt_error" where
  "default_destructive_error op =
     with_message ''destructive context-wide storage operations are disabled for the Default Session'' (operation_error op Preparation)"

subsection \<open>Validation\<close>

definition origin_error :: "string \<Rightarrow> storage_failure \<Rightarrow> rt_error" where
  "origin_error m f = with_storage_failure f (with_message m (operation_error ''validate storage origin'' Preparation))"

definition validate_origin :: "url_parser \<Rightarrow> string \<Rightarrow> rt_error + unit" where
  "validate_origin parse origin =
     (if origin = ''null'' then Inl (origin_error ''document has an opaque storage origin'' OpaqueOrigin)
      else case parse origin of
        None \<Rightarrow> Inl (origin_error ''storage origin is invalid'' StorageInvalidOrigin)
      | Some u \<Rightarrow>
          if \<not> is_web_scheme u \<or> pu_origin u \<noteq> trim_end_matches (CHR ''/'') origin
          then Inl (origin_error ''document has an unsupported storage origin'' StorageInvalidOrigin)
          else Inr ())"

definition bad_domain :: "string \<Rightarrow> bool" where
  "bad_domain d \<longleftrightarrow> d = [] \<or> CHR ''/'' \<in> set d \<or> has_whitespace d"

definition absolute_path :: "string \<Rightarrow> bool" where
  "absolute_path p \<longleftrightarrow> str_starts_with ''/'' p"

definition when_some :: "'a option \<Rightarrow> ('a \<Rightarrow> 'e + unit) \<Rightarrow> 'e + unit" where
  "when_some x f = (case x of None \<Rightarrow> Inr () | Some y \<Rightarrow> f y)"

definition web_url_with_host :: "url_parser \<Rightarrow> rt_error \<Rightarrow> rt_error \<Rightarrow> string \<Rightarrow> rt_error + unit" where
  "web_url_with_host parse invalid unsuitable url =
     (case parse url of
        None \<Rightarrow> Inl invalid
      | Some u \<Rightarrow> ensure (is_web_scheme u \<and> pu_host u \<noteq> None) unsuitable)"

definition partition_site_ok :: "url_parser \<Rightarrow> rt_error \<Rightarrow> cookie_partition_key \<Rightarrow> rt_error + unit" where
  "partition_site_ok parse e p =
     (case validate_origin parse (ckp_top_level_site p) of Inl _ \<Rightarrow> Inl e | Inr _ \<Rightarrow> Inr ())"

definition cookie_invalid :: "string \<Rightarrow> rt_error" where
  "cookie_invalid m = invalid_storage_input ''validate cookie'' m"

definition validate_cookie :: "url_parser \<Rightarrow> browser_cookie \<Rightarrow> rt_error + unit" where
  "validate_cookie parse c =
     and_then (ensure (\<not> (ck_name c = [] \<or> has_control (ck_name c) \<or> CHR '';'' \<in> set (ck_name c)
                            \<or> ck_url c = None \<and> ck_domain c = None))
                 (cookie_invalid ''cookie requires a valid non-empty name and either url or domain'')) (\<lambda>_.
     and_then (when_some (ck_url c)
                 (web_url_with_host parse (cookie_invalid ''cookie URL is invalid'')
                    (cookie_invalid ''cookie URL must be an HTTP(S) URL with a host''))) (\<lambda>_.
     and_then (when_some (ck_domain c) (\<lambda>d. ensure (\<not> bad_domain d) (cookie_invalid ''cookie domain is invalid''))) (\<lambda>_.
     and_then (when_some (ck_path c) (\<lambda>p. ensure (absolute_path p) (cookie_invalid ''cookie path must be absolute''))) (\<lambda>_.
     and_then (when_some (ck_expires c) (\<lambda>x. ensure (f64_is_finite x) (cookie_invalid ''cookie expiry must be finite''))) (\<lambda>_.
     and_then (when_some (ck_source_port c) (\<lambda>p. ensure (p = - 1 \<or> 1 \<le> p \<and> p \<le> 65535)
                 (cookie_invalid ''cookie source port is invalid''))) (\<lambda>_.
     and_then (when_some (ck_priority c) (\<lambda>p. ensure (p \<in> {''Low'', ''Medium'', ''High''})
                 (cookie_invalid ''cookie priority is unsupported''))) (\<lambda>_.
     and_then (when_some (ck_source_scheme c) (\<lambda>s. ensure (s \<in> {''Unset'', ''NonSecure'', ''Secure''})
                 (cookie_invalid ''cookie source scheme is unsupported''))) (\<lambda>_.
     and_then (when_some (ck_partition_key c)
                 (partition_site_ok parse (cookie_invalid ''cookie partition top-level site is invalid''))) (\<lambda>_.
     ensure (ck_partition_key_opaque c \<noteq> Some True)
       (cookie_invalid ''opaque partitioned cookies cannot be imported losslessly''))))))))))"

primrec validate_cookies :: "url_parser \<Rightarrow> browser_cookie list \<Rightarrow> rt_error + unit" where
  "validate_cookies parse [] = Inr ()"
| "validate_cookies parse (c # cs) = and_then (validate_cookie parse c) (\<lambda>_. validate_cookies parse cs)"

definition deletion_invalid :: "string \<Rightarrow> rt_error" where
  "deletion_invalid m = invalid_storage_input ''validate cookie deletion'' m"

definition validate_deletion :: "url_parser \<Rightarrow> cookie_deletion \<Rightarrow> rt_error + unit" where
  "validate_deletion parse f =
     and_then (ensure (\<not> (cd_name f = [] \<or> cd_url f = None \<and> cd_domain f = None))
                 (deletion_invalid ''cookie deletion requires a non-empty name and either url or exact domain'')) (\<lambda>_.
     and_then (when_some (cd_url f)
                 (web_url_with_host parse (deletion_invalid ''cookie deletion URL is invalid'')
                    (deletion_invalid ''cookie deletion URL must be HTTP(S)''))) (\<lambda>_.
     and_then (when_some (cd_domain f) (\<lambda>d. ensure (\<not> bad_domain d) (deletion_invalid ''cookie deletion domain is invalid''))) (\<lambda>_.
     and_then (when_some (cd_path f) (\<lambda>p. ensure (absolute_path p) (deletion_invalid ''cookie deletion path must be absolute''))) (\<lambda>_.
     when_some (cd_partition_key f)
       (partition_site_ok parse (deletion_invalid ''cookie deletion partition site is invalid''))))))"

primrec validate_origin_states :: "url_parser \<Rightarrow> string list \<Rightarrow> origin_storage_state list \<Rightarrow> rt_error + unit" where
  "validate_origin_states parse seen [] = Inr ()"
| "validate_origin_states parse seen (os # oss) =
     and_then (validate_origin parse (os_origin os)) (\<lambda>_.
     and_then (ensure (os_origin os \<notin> set seen)
                 (invalid_storage_input ''validate authentication state'' ''authentication state contains a duplicate origin'')) (\<lambda>_.
     and_then (ensure (distinct (map se_key (os_local_storage os)))
                 (invalid_storage_input ''validate authentication state'' ''authentication state contains a duplicate localStorage key'')) (\<lambda>_.
     validate_origin_states parse (os_origin os # seen) oss)))"

definition validate_state :: "url_parser \<Rightarrow> authentication_state \<Rightarrow> rt_error + unit" where
  "validate_state parse st =
     and_then (ensure (au_version st = authentication_state_version)
                 (invalid_storage_input ''validate authentication state'' ''unsupported authentication state version'')) (\<lambda>_.
     and_then (validate_cookies parse (au_cookies st)) (\<lambda>_.
     validate_origin_states parse [] (au_origins st)))"

subsection \<open>Cookies of the protocol\<close>

definition cookie_param_of :: "browser_cookie \<Rightarrow> cookie_param" where
  "cookie_param_of c =
     \<lparr>cp_name = ck_name c, cp_value = ck_value c, cp_url = ck_url c, cp_domain = ck_domain c, cp_path = ck_path c,
      cp_secure = ck_secure c, cp_http_only = ck_http_only c, cp_same_site = ck_same_site c,
      cp_expires = (if ck_session c = Some True then None else ck_expires c), cp_priority = ck_priority c,
      cp_source_scheme = ck_source_scheme c, cp_source_port = ck_source_port c, cp_partition_key = ck_partition_key c\<rparr>"

definition same_site_of :: "string \<Rightarrow> same_site option" where
  "same_site_of v =
     (if v = ''Strict'' then Some SameSiteStrict else if v = ''Lax'' then Some SameSiteLax
      else if v = ''None'' then Some SameSiteNone else None)"

definition cookie_from_cdp :: "cdp_cookie \<Rightarrow> browser_cookie" where
  "cookie_from_cdp c =
     \<lparr>ck_name = cc_name c, ck_value = cc_value c, ck_url = None, ck_domain = Some (cc_domain c), ck_path = Some (cc_path c),
      ck_expires = Some (cc_expires c), ck_http_only = Some (cc_http_only c), ck_secure = Some (cc_secure c),
      ck_same_site = Option.bind (cc_same_site c) same_site_of, ck_priority = Some (cc_priority c),
      ck_source_scheme = Some (cc_source_scheme c), ck_source_port = Some (cc_source_port c),
      ck_partition_key = cc_partition_key c, ck_partition_key_opaque = cc_partition_key_opaque c,
      ck_size = Some (cc_size c), ck_session = Some (cc_session c)\<rparr>"

definition cookie_order :: "browser_cookie \<Rightarrow> string option \<times> string option \<times> string \<times> string option" where
  "cookie_order c = (ck_domain c, ck_path c, ck_name c, map_option ckp_top_level_site (ck_partition_key c))"

definition cookie_path_matches :: "string \<Rightarrow> string \<Rightarrow> bool" where
  "cookie_path_matches cookie_path request_path \<longleftrightarrow>
     cookie_path = request_path
     \<or> (case str_strip_prefix cookie_path request_path of
          None \<Rightarrow> False
        | Some suffix \<Rightarrow> str_ends_with ''/'' cookie_path \<or> str_starts_with ''/'' suffix)"

definition host_matches :: "string \<Rightarrow> string \<Rightarrow> bool" where
  "host_matches domain host \<longleftrightarrow>
     (if str_starts_with ''.'' domain then host = tl domain \<or> str_ends_with domain host else host = domain)"

definition deletion_matches :: "url_parser \<Rightarrow> browser_cookie \<Rightarrow> cookie_deletion \<Rightarrow> bool" where
  "deletion_matches parse c f \<longleftrightarrow>
     ck_name c = cd_name f
     \<and> (cd_domain f \<noteq> None \<longrightarrow> ck_domain c = cd_domain f)
     \<and> (cd_path f \<noteq> None \<longrightarrow> ck_path c = cd_path f)
     \<and> (cd_partition_key f \<noteq> None \<longrightarrow> ck_partition_key c = cd_partition_key f)
     \<and> (case cd_url f of
          None \<Rightarrow> True
        | Some url \<Rightarrow>
            (case parse url of
               None \<Rightarrow> False
             | Some u \<Rightarrow>
                 (case ck_domain c of
                    None \<Rightarrow> False
                  | Some domain \<Rightarrow>
                      host_matches domain (or_default [] (pu_host u))
                      \<and> (case ck_path c of None \<Rightarrow> True | Some p \<Rightarrow> cookie_path_matches p (pu_path u)))))"

end
