(* ===== verification/StorageSession.thy ===== *)
theory StorageSession
  imports Storage
begin

text \<open>
  The operations of \<open>src/src/runtime/storage.rs\<close> on a session and on the storage of a frame. The shared
  world holds the operation gates, the frame store of every page and an environment; the port answers the
  commands, and each answer may change all of the shared world, so that closing, navigation and detaching
  can happen at every \<open>await\<close>. The mutating commands sent so far are kept in order.
\<close>

declare map_of_eq_Some_iff [simp del] and Some_eq_map_of_iff [simp del]

subsection \<open>World and port\<close>

datatype storage_mutation =
    SetCookies "ident option" "cookie_param list"
  | ClearCookies "ident option"
  | DeleteCookies ident string "string option" "string option" "cookie_partition_key option"
  | SetStorageItem ident storage_id string string
  | RemoveStorageItem ident storage_id string
  | ClearStorage ident storage_id

datatype session_kind = DefaultSession | IsolatedSession

record storage_session =
  ts_id :: ident
  ts_kind :: session_kind
  ts_context_id :: "ident option"
  ts_runtime_gate :: ident
  ts_gate :: ident

record page_ref =
  pg_id :: ident
  pg_owner_session :: ident
  pg_runtime_gate :: ident
  pg_gate :: ident
  pg_cdp_session :: ident

text \<open>
  \<open>sh_owner_gate\<close> is the gate of the owner of a page while its weak reference upgrades; \<open>sh_known_page\<close>
  the first page of the session's page map.
\<close>

record 'e shared =
  sh_gates :: gates
  sh_view :: "ident \<Rightarrow> store_view"
  sh_owner_gate :: "ident \<Rightarrow> ident option"
  sh_known_page :: "page_ref option"
  sh_env :: 'e

record 'e storage_world =
  sw_shared :: "'e shared"
  sw_sent :: "storage_mutation list"

record target_info_view =
  ti_target_id :: ident
  ti_type :: string
  ti_subtype :: "string option"
  ti_context_id :: "ident option"

type_synonym ('e, 'r) reply = "'e shared \<Rightarrow> 'r \<times> 'e shared"

record 'e storage_port =
  po_mutate :: "storage_mutation \<Rightarrow> ('e, cdp_failure + unit) reply"
  po_cookies :: "ident option \<Rightarrow> ('e, cdp_failure + cdp_cookie list) reply"
  po_items :: "ident \<Rightarrow> storage_id \<Rightarrow> ('e, cdp_failure + string list list) reply"
  po_storage_key :: "ident \<Rightarrow> ident \<Rightarrow> ('e, cdp_failure + string) reply"
  po_targets :: "('e, cdp_failure + target_info_view list) reply"
  po_main_frame :: "page_ref \<Rightarrow> ('e, rt_error + frame_handle) reply"
  po_frame_store :: "page_ref \<Rightarrow> ('e, rt_error + unit) reply"
  po_location_origin :: "page_ref \<Rightarrow> frame_handle \<Rightarrow> ('e, rt_error + string) reply"
  po_attach_page :: "ident \<Rightarrow> ('e, rt_error + page_ref) reply"
  po_new_page :: "string \<Rightarrow> ('e, rt_error + page_ref) reply"
  po_close_page :: "page_ref \<Rightarrow> ('e, close_report) reply"

type_synonym ('e, 'a) act = "'e storage_world \<Rightarrow> (rt_error + 'a) \<times> 'e storage_world"

definition act_bind :: "('e, 'a) act \<Rightarrow> ('a \<Rightarrow> ('e, 'b) act) \<Rightarrow> ('e, 'b) act" where
  "act_bind m f w = (case m w of (Inl e, w') \<Rightarrow> (Inl e, w') | (Inr x, w') \<Rightarrow> f x w')"

definition act_lift :: "(rt_error + 'a) \<Rightarrow> ('e, 'a) act" where
  "act_lift r w = (r, w)"

definition act_map_error :: "(rt_error \<Rightarrow> rt_error) \<Rightarrow> ('e, 'a) act \<Rightarrow> ('e, 'a) act" where
  "act_map_error h m w = (case m w of (Inl e, w') \<Rightarrow> (Inl (h e), w') | r \<Rightarrow> r)"

definition ask :: "('e, rt_error + 'a) reply \<Rightarrow> ('e, 'a) act" where
  "ask q w = (case q (sw_shared w) of (r, sh) \<Rightarrow> (r, w\<lparr>sw_shared := sh\<rparr>))"

definition ask_cdp :: "(cdp_failure \<Rightarrow> rt_error) \<Rightarrow> ('e, cdp_failure + 'a) reply \<Rightarrow> ('e, 'a) act" where
  "ask_cdp h q w =
     (case q (sw_shared w) of
        (Inl err, sh) \<Rightarrow> (Inl (h err), w\<lparr>sw_shared := sh\<rparr>)
      | (Inr x, sh) \<Rightarrow> (Inr x, w\<lparr>sw_shared := sh\<rparr>))"

definition send :: "'e storage_port \<Rightarrow> string \<Rightarrow> storage_mutation \<Rightarrow> ('e, unit) act" where
  "send port op m w = ask_cdp (storage_mutation_cdp op) (po_mutate port m) (w\<lparr>sw_sent := sw_sent w @ [m]\<rparr>)"

text \<open>An operation under permits: refused without running, or run and its permits dropped at the end.\<close>

definition under_permits :: "string \<Rightarrow> ident list \<Rightarrow> ('e, 'a) act \<Rightarrow> ('e, 'a) act" where
  "under_permits op path body w =
     (case admit_path op path (sh_gates (sw_shared w)) of
        (Some e, gs) \<Rightarrow> (Inl e, w\<lparr>sw_shared := (sw_shared w)\<lparr>sh_gates := gs\<rparr>\<rparr>)
      | (None, gs) \<Rightarrow>
          (case body (w\<lparr>sw_shared := (sw_shared w)\<lparr>sh_gates := gs\<rparr>\<rparr>) of
             (r, w') \<Rightarrow> (r, w'\<lparr>sw_shared := (sw_shared w')\<lparr>sh_gates := release_path path (sh_gates (sw_shared w'))\<rparr>\<rparr>)))"

definition session_operation :: "storage_session \<Rightarrow> string \<Rightarrow> ('e, 'a) act \<Rightarrow> ('e, 'a) act" where
  "session_operation s op body = under_permits op [ts_runtime_gate s, ts_gate s] body"

definition page_path :: "page_ref \<Rightarrow> 'e shared \<Rightarrow> ident list" where
  "page_path p sh = pg_runtime_gate p # (case sh_owner_gate sh (pg_id p) of None \<Rightarrow> [] | Some g \<Rightarrow> [g]) @ [pg_gate p]"

definition page_operation :: "page_ref \<Rightarrow> string \<Rightarrow> ('e, 'a) act \<Rightarrow> ('e, 'a) act" where
  "page_operation p op body w =
     (case sv_terminal_route (sh_view (sw_shared w) (pg_id p)) of
        Some e \<Rightarrow> (Inl e, w)
      | None \<Rightarrow> under_permits op (page_path p (sw_shared w)) body w)"

definition cookie_browser_context_id :: "storage_session \<Rightarrow> ident option" where
  "cookie_browser_context_id s = (if ts_kind s = IsolatedSession then ts_context_id s else None)"

subsection \<open>Frame storage\<close>

datatype storage_scope = PageScope page_ref | FrameScope page_ref frame_handle

record storage_handle =
  sth_scope :: storage_scope
  sth_kind :: storage_kind

definition page_local_storage :: "page_ref \<Rightarrow> storage_handle" where
  "page_local_storage p = \<lparr>sth_scope = PageScope p, sth_kind = LocalStorage\<rparr>"

fun scope_page :: "storage_scope \<Rightarrow> page_ref" where
  "scope_page (PageScope p) = p"
| "scope_page (FrameScope p _) = p"

record prepared_target =
  px_page :: page_ref
  px_route :: locator_route
  px_storage_id :: storage_id
  px_origin :: string

definition scope_frame :: "'e storage_port \<Rightarrow> storage_scope \<Rightarrow> ('e, frame_handle) act" where
  "scope_frame port sc = (case sc of PageScope p \<Rightarrow> ask (po_main_frame port p) | FrameScope _ f \<Rightarrow> act_lift (Inr f))"

definition handle_origin :: "'e storage_port \<Rightarrow> url_parser \<Rightarrow> storage_handle \<Rightarrow> ('e, string) act" where
  "handle_origin port parse h =
     act_bind (scope_frame port (sth_scope h)) (\<lambda>f.
     act_bind (ask (po_location_origin port (scope_page (sth_scope h)) f)) (\<lambda>origin.
     act_bind (act_lift (validate_origin parse origin)) (\<lambda>_.
     act_lift (Inr origin))))"

definition validate_route :: "page_ref \<Rightarrow> locator_route \<Rightarrow> ('e, unit) act" where
  "validate_route p r w = (validate_locator_route (sh_view (sw_shared w) (pg_id p)) r, w)"

definition resolve_route :: "page_ref \<Rightarrow> frame_handle \<Rightarrow> ('e, locator_route) act" where
  "resolve_route p f w = (locator_route_of (sh_view (sw_shared w) (pg_id p)) f, w)"

text \<open>\<open>prepare\<close>; the permit it takes is held while the rest of the operation \<open>k\<close> runs.\<close>

definition with_prepared ::
  "'e storage_port \<Rightarrow> url_parser \<Rightarrow> storage_handle \<Rightarrow> (prepared_target \<Rightarrow> ('e, 'a) act) \<Rightarrow> ('e, 'a) act" where
  "with_prepared port parse h k =
     (let page = scope_page (sth_scope h) in
      act_bind (scope_frame port (sth_scope h)) (\<lambda>f.
      page_operation page ''access DOM storage'' (
      act_bind (ask (po_frame_store port page)) (\<lambda>_.
      act_bind (resolve_route page f) (\<lambda>route.
      act_bind (validate_route page route) (\<lambda>_.
      act_bind (ask (po_location_origin port page f)) (\<lambda>origin.
      act_bind (validate_route page route) (\<lambda>_.
      act_bind (act_lift (validate_origin parse origin)) (\<lambda>_.
      act_bind (ask_cdp (storage_observation_cdp ''resolve frame storage key'')
                  (po_storage_key port (lo_frame_id route) (lo_session_id route))) (\<lambda>key.
      act_bind (validate_route page route) (\<lambda>_.
      k \<lparr>px_page = page, px_route = route,
         px_storage_id = \<lparr>si_storage_key = key, si_is_local = (sth_kind h = LocalStorage)\<rparr>, px_origin = origin\<rparr>)))))))))))"

definition target_validate :: "prepared_target \<Rightarrow> ('e, unit) act" where
  "target_validate t = validate_route (px_page t) (px_route t)"

fun entry_of :: "string list \<Rightarrow> storage_entry option" where
  "entry_of [k, v] = Some \<lparr>se_key = k, se_value = v\<rparr>"
| "entry_of _ = None"

definition target_list :: "'e storage_port \<Rightarrow> prepared_target \<Rightarrow> ('e, storage_entry list) act" where
  "target_list port t =
     act_bind (target_validate t) (\<lambda>_.
     act_bind (ask_cdp (storage_observation_cdp ''list DOM storage'') (po_items port (lo_session_id (px_route t)) (px_storage_id t))) (\<lambda>items.
     act_bind (target_validate t) (\<lambda>_.
     act_lift (Inr (sort_key se_key (List.map_filter entry_of items))))))"

definition target_mutate :: "'e storage_port \<Rightarrow> string \<Rightarrow> storage_mutation \<Rightarrow> prepared_target \<Rightarrow> ('e, unit) act" where
  "target_mutate port op m t =
     act_bind (target_validate t) (\<lambda>_.
     act_bind (send port op m) (\<lambda>_.
     act_map_error mark_mutation_completed (target_validate t)))"

definition target_set :: "'e storage_port \<Rightarrow> string \<Rightarrow> string \<Rightarrow> prepared_target \<Rightarrow> ('e, unit) act" where
  "target_set port key val t =
     target_mutate port ''set DOM storage item'' (SetStorageItem (lo_session_id (px_route t)) (px_storage_id t) key val) t"

definition target_remove :: "'e storage_port \<Rightarrow> string \<Rightarrow> prepared_target \<Rightarrow> ('e, unit) act" where
  "target_remove port key t =
     target_mutate port ''remove DOM storage item'' (RemoveStorageItem (lo_session_id (px_route t)) (px_storage_id t) key) t"

definition target_clear :: "'e storage_port \<Rightarrow> prepared_target \<Rightarrow> ('e, unit) act" where
  "target_clear port t =
     target_mutate port ''clear DOM storage'' (ClearStorage (lo_session_id (px_route t)) (px_storage_id t)) t"

definition handle_list :: "'e storage_port \<Rightarrow> url_parser \<Rightarrow> storage_handle \<Rightarrow> ('e, storage_entry list) act" where
  "handle_list port parse h = with_prepared port parse h (target_list port)"

definition handle_get :: "'e storage_port \<Rightarrow> url_parser \<Rightarrow> storage_handle \<Rightarrow> string \<Rightarrow> ('e, string option) act" where
  "handle_get port parse h key =
     act_bind (handle_list port parse h) (\<lambda>entries.
     act_lift (Inr (map_option se_value (find (\<lambda>x. se_key x = key) entries))))"

definition handle_set :: "'e storage_port \<Rightarrow> url_parser \<Rightarrow> storage_handle \<Rightarrow> string \<Rightarrow> string \<Rightarrow> ('e, unit) act" where
  "handle_set port parse h key val = with_prepared port parse h (target_set port key val)"

definition handle_remove :: "'e storage_port \<Rightarrow> url_parser \<Rightarrow> storage_handle \<Rightarrow> string \<Rightarrow> ('e, unit) act" where
  "handle_remove port parse h key = with_prepared port parse h (target_remove port key)"

definition handle_clear :: "'e storage_port \<Rightarrow> url_parser \<Rightarrow> storage_handle \<Rightarrow> ('e, unit) act" where
  "handle_clear port parse h = with_prepared port parse h (target_clear port)"

subsection \<open>Cookies\<close>

definition session_cookies :: "'e storage_port \<Rightarrow> storage_session \<Rightarrow> ('e, browser_cookie list) act" where
  "session_cookies port s =
     session_operation s ''list cookies'' (
       act_bind (ask_cdp (storage_observation_cdp ''list cookies'') (po_cookies port (cookie_browser_context_id s))) (\<lambda>cs.
       act_lift (Inr (sort_key cookie_order (map cookie_from_cdp cs)))))"

definition set_cookies :: "'e storage_port \<Rightarrow> url_parser \<Rightarrow> storage_session \<Rightarrow> browser_cookie list \<Rightarrow> ('e, unit) act" where
  "set_cookies port parse s cookies =
     session_operation s ''set cookies'' (
       act_bind (act_lift (validate_cookies parse cookies)) (\<lambda>_.
       send port ''set cookies'' (SetCookies (cookie_browser_context_id s) (map cookie_param_of cookies))))"

definition set_cookie :: "'e storage_port \<Rightarrow> url_parser \<Rightarrow> storage_session \<Rightarrow> browser_cookie \<Rightarrow> ('e, unit) act" where
  "set_cookie port parse s c = set_cookies port parse s [c]"

definition clear_cookies :: "'e storage_port \<Rightarrow> storage_session \<Rightarrow> ('e, unit) act" where
  "clear_cookies port s =
     (if ts_kind s = DefaultSession then act_lift (Inl (default_destructive_error ''clear all cookies''))
      else session_operation s ''clear cookies'' (send port ''clear cookies'' (ClearCookies (cookie_browser_context_id s))))"

definition delete_command :: "page_ref \<Rightarrow> browser_cookie \<Rightarrow> storage_mutation" where
  "delete_command p c = DeleteCookies (pg_cdp_session p) (ck_name c) (ck_domain c) (ck_path c) (ck_partition_key c)"

primrec delete_matching :: "'e storage_port \<Rightarrow> page_ref \<Rightarrow> nat \<Rightarrow> browser_cookie list \<Rightarrow> ('e, unit) act" where
  "delete_matching port p applied [] = act_lift (Inr ())"
| "delete_matching port p applied (c # cs) =
     act_bind (act_map_error (\<lambda>e. partial_mutation_error e ''cookie deletion'' applied)
                 (send port ''delete cookie'' (delete_command p c))) (\<lambda>_.
     delete_matching port p (Suc applied) cs)"

definition deletion_page :: "'e storage_port \<Rightarrow> storage_session \<Rightarrow> ('e, page_ref option) act" where
  "deletion_page port s w =
     (case sh_known_page (sw_shared w) of
        Some p \<Rightarrow> (Inr (Some p), w)
      | None \<Rightarrow>
          act_bind (ask_cdp (\<lambda>err. sensitive_cdp_operation (\<lambda>_. cdp_failure_kind err)
                                ''discover cookie command target'' Preparation NotStarted (cdp_failure_text err))
                      (po_targets port)) (\<lambda>targets.
            case find (\<lambda>t. ti_type t = ''page'' \<and> ti_subtype t = None \<and> ti_context_id t = cookie_browser_context_id s) targets of
              None \<Rightarrow> act_lift (Inr None)
            | Some t \<Rightarrow> act_bind (ask (po_attach_page port (ti_target_id t))) (\<lambda>p. act_lift (Inr (Some p)))) w)"

definition add_cleanup_failure :: "cleanup_failure \<Rightarrow> rt_error + unit \<Rightarrow> rt_error + unit" where
  "add_cleanup_failure f r =
     Inl (case r of
            Inr _ \<Rightarrow> with_cleanup_failure f (with_action_completion Completed
                       (operation_error ''delete cookie temporary page cleanup'' Cleanup))
          | Inl e \<Rightarrow> with_cleanup_failure f e)"

definition delete_on_temporary :: "'e storage_port \<Rightarrow> browser_cookie list \<Rightarrow> ('e, unit) act" where
  "delete_on_temporary port cookies =
     act_bind (ask (po_new_page port ''about:blank'')) (\<lambda>p w.
       (case delete_matching port p 0 cookies w of
          (r, w1) \<Rightarrow>
            (case po_close_page port p (sw_shared w1) of
               (report, sh) \<Rightarrow> (fold add_cleanup_failure (cr_failures report) r, w1\<lparr>sw_shared := sh\<rparr>))))"

definition delete_cookie :: "'e storage_port \<Rightarrow> url_parser \<Rightarrow> storage_session \<Rightarrow> cookie_deletion \<Rightarrow> ('e, unit) act" where
  "delete_cookie port parse s f =
     act_bind (act_lift (validate_deletion parse f)) (\<lambda>_.
     session_operation s ''delete cookie'' (
       act_bind (session_cookies port s) (\<lambda>cookies.
         let matching = filter (\<lambda>c. deletion_matches parse c f) cookies
         in if matching = [] then act_lift (Inr ())
            else act_bind (deletion_page port s) (\<lambda>known.
              case known of
                Some p \<Rightarrow> delete_matching port p 0 matching
              | None \<Rightarrow> delete_on_temporary port matching))))"

subsection \<open>Authentication state\<close>

definition validate_pages_owned :: "storage_session \<Rightarrow> page_ref list \<Rightarrow> rt_error + unit" where
  "validate_pages_owned s pages =
     ensure (list_all (\<lambda>p. pg_owner_session p = ts_id s) pages)
       (with_message ''an explicit page belongs to another BrowserSession''
          (operation_error ''validate authentication state pages'' Preparation))"

primrec export_pages ::
  "'e storage_port \<Rightarrow> url_parser \<Rightarrow> page_ref list \<Rightarrow> (string \<times> storage_entry list) list
   \<Rightarrow> ('e, (string \<times> storage_entry list) list) act" where
  "export_pages port parse [] by_origin = act_lift (Inr by_origin)"
| "export_pages port parse (p # ps) by_origin =
     act_bind (with_prepared port parse (page_local_storage p) (\<lambda>t.
                 act_bind (target_list port t) (\<lambda>entries. act_lift (Inr (AList.update (px_origin t) entries by_origin)))))
       (export_pages port parse ps)"

definition export_auth_state ::
  "'e storage_port \<Rightarrow> url_parser \<Rightarrow> storage_session \<Rightarrow> page_ref list \<Rightarrow> ('e, authentication_state) act" where
  "export_auth_state port parse s pages =
     session_operation s ''export authentication state'' (
       act_bind (act_lift (validate_pages_owned s pages)) (\<lambda>_.
       act_bind (session_cookies port s) (\<lambda>cookies.
       act_bind (export_pages port parse pages []) (\<lambda>by_origin.
       act_lift (Inr \<lparr>au_version = authentication_state_version, au_cookies = cookies,
                      au_origins = map (\<lambda>(origin, entries). \<lparr>os_origin = origin, os_local_storage = entries\<rparr>)
                                     (sort_key fst by_origin)\<rparr>)))))"

text \<open>The targets of an import, each prepared under its own permit; all permits end with the import.\<close>

primrec with_targets ::
  "'e storage_port \<Rightarrow> url_parser \<Rightarrow> page_ref list \<Rightarrow> (string \<times> prepared_target) list
   \<Rightarrow> ((string \<times> prepared_target) list \<Rightarrow> ('e, 'a) act) \<Rightarrow> ('e, 'a) act" where
  "with_targets port parse [] targets k = k targets"
| "with_targets port parse (p # ps) targets k =
     with_prepared port parse (page_local_storage p) (\<lambda>t.
       if px_origin t \<in> keys targets
       then act_lift (Inl (invalid_storage_input ''validate authentication state import''
                             ''multiple explicit pages resolve to the same origin''))
       else with_targets port parse ps (AList.update (px_origin t) t targets) k)"

primrec check_origins :: "(string \<times> prepared_target) list \<Rightarrow> origin_storage_state list \<Rightarrow> rt_error + unit" where
  "check_origins targets [] = Inr ()"
| "check_origins targets (os # oss) =
     and_then (ensure (os_origin os \<in> keys targets)
                 (with_message (''no explicit page was supplied for origin '' @ os_origin os)
                    (operation_error ''validate authentication state import'' Preparation))) (\<lambda>_.
     check_origins targets oss)"

primrec validate_targets :: "prepared_target list \<Rightarrow> ('e, unit) act" where
  "validate_targets [] = act_lift (Inr ())"
| "validate_targets (t # ts) = act_bind (target_validate t) (\<lambda>_. validate_targets ts)"

text \<open>
  The mutations of an import, in order; \<open>applied\<close> counts the ones that returned without an error, and the
  error of the next one is reported with that count.
\<close>

definition import_batches ::
  "'e storage_port \<Rightarrow> url_parser \<Rightarrow> storage_session \<Rightarrow> auth_import_mode \<Rightarrow> authentication_state
   \<Rightarrow> (string \<Rightarrow> prepared_target) \<Rightarrow> ('e, unit) act list" where
  "import_batches port parse s mode st target =
     (if mode = ReplaceAuthScope
      then clear_cookies port s # map (\<lambda>os. target_clear port (target (os_origin os))) (au_origins st) else [])
     @ [set_cookies port parse s (au_cookies st)]
     @ concat (map (\<lambda>os. map (\<lambda>x. target_set port (se_key x) (se_value x) (target (os_origin os))) (os_local_storage os))
                 (au_origins st))"

primrec run_batches :: "nat \<Rightarrow> ('e, unit) act list \<Rightarrow> ('e, unit) act" where
  "run_batches applied [] = act_lift (Inr ())"
| "run_batches applied (b # bs) =
     act_bind (act_map_error (\<lambda>e. partial_mutation_error e ''authentication state import'' applied) b) (\<lambda>_.
     run_batches (Suc applied) bs)"

definition import_auth_state ::
  "'e storage_port \<Rightarrow> url_parser \<Rightarrow> storage_session \<Rightarrow> authentication_state \<Rightarrow> auth_import_mode \<Rightarrow> page_ref list \<Rightarrow> ('e, unit) act" where
  "import_auth_state port parse s st mode pages =
     (if ts_kind s = DefaultSession then act_lift (Inl (default_destructive_error ''import authentication state''))
      else
        act_bind (act_lift (validate_state parse st)) (\<lambda>_.
        act_bind (act_lift (validate_pages_owned s pages)) (\<lambda>_.
        with_targets port parse pages [] (\<lambda>targets.
          act_bind (act_lift (check_origins targets (au_origins st))) (\<lambda>_.
          session_operation s ''import authentication state'' (
            act_bind (validate_targets (map snd (sort_key fst targets))) (\<lambda>_.
            run_batches 0 (import_batches port parse s mode st (\<lambda>origin. the (map_of targets origin))))))))))"

end
