(* ===== verification/StorageLaws.thy ===== *)
theory StorageLaws
  imports StorageSession
begin

text \<open>
  What the storage operations send, in which order, and what their errors say about it. \<open>traced L m Q\<close>
  holds when \<open>m\<close>, started after the mutations \<open>L\<close>, ends with a result and a list of sent mutations that
  satisfy \<open>Q\<close>, whatever the replies of the port do to the shared world.
\<close>

declare map_of_eq_Some_iff [simp del] and Some_eq_map_of_iff [simp del]

definition traced ::
  "storage_mutation list \<Rightarrow> ('e, 'a) act \<Rightarrow> (rt_error + 'a \<Rightarrow> storage_mutation list \<Rightarrow> bool) \<Rightarrow> bool" where
  "traced L m Q \<longleftrightarrow> (\<forall>w. sw_sent w = L \<longrightarrow> Q (fst (m w)) (sw_sent (snd (m w))))"

named_theorems traced_rules

lemma traced_bind [traced_rules]:
  "traced L m (\<lambda>r L'. case r of Inl e \<Rightarrow> Q (Inl e) L' | Inr x \<Rightarrow> traced L' (f x) Q) \<Longrightarrow> traced L (act_bind m f) Q"
  by (fastforce simp: traced_def act_bind_def split: prod.splits sum.splits)

lemma traced_lift [traced_rules]: "Q r L \<Longrightarrow> traced L (act_lift r) Q"
  by (simp add: traced_def act_lift_def)

lemma traced_ask [traced_rules]: "(\<And>r. Q r L) \<Longrightarrow> traced L (ask q) Q"
  by (simp add: traced_def ask_def split: prod.splits)

lemma traced_ask_cdp [traced_rules]:
  "(\<And>err. Q (Inl (h err)) L) \<Longrightarrow> (\<And>x. Q (Inr x) L) \<Longrightarrow> traced L (ask_cdp h q) Q"
  by (simp add: traced_def ask_cdp_def split: prod.splits sum.splits)

lemma traced_send [traced_rules]:
  "(\<And>err. Q (Inl (storage_mutation_cdp op err)) (L @ [m])) \<Longrightarrow> Q (Inr ()) (L @ [m]) \<Longrightarrow> traced L (send port op m) Q"
  by (simp add: traced_def send_def ask_cdp_def split: prod.splits sum.splits)

lemma traced_route [traced_rules]: "(\<And>r. Q r L) \<Longrightarrow> traced L (validate_route p lr) Q"
  by (simp add: traced_def validate_route_def)

lemma traced_resolve [traced_rules]: "(\<And>r. Q r L) \<Longrightarrow> traced L (resolve_route p f) Q"
  by (simp add: traced_def resolve_route_def)

lemma traced_target_validate [traced_rules]: "(\<And>r. Q r L) \<Longrightarrow> traced L (target_validate t) Q"
  by (simp add: target_validate_def traced_route)

lemma traced_permits [traced_rules]:
  "(\<And>e. Q (Inl e) L) \<Longrightarrow> traced L body Q \<Longrightarrow> traced L (under_permits op path body) Q"
  by (simp add: traced_def under_permits_def split: prod.splits option.splits)
    (metis fst_conv snd_conv storage_world.select_convs(2) storage_world.surjective storage_world.update_convs(1))

lemma traced_session [traced_rules]:
  "(\<And>e. Q (Inl e) L) \<Longrightarrow> traced L body Q \<Longrightarrow> traced L (session_operation s op body) Q"
  by (simp add: session_operation_def traced_permits)

lemma traced_page [traced_rules]:
  assumes "\<And>e. Q (Inl e) L" "traced L body Q"
  shows "traced L (page_operation p op body) Q"
proof -
  have "traced L (under_permits op path body) Q" for path by (rule traced_permits) (use assms in auto)
  then show ?thesis using assms(1) by (simp add: traced_def page_operation_def split: option.splits)
qed

lemma traced_map_error [traced_rules]:
  "traced L m (\<lambda>r L'. case r of Inl e \<Rightarrow> Q (Inl (h e)) L' | Inr x \<Rightarrow> Q (Inr x) L') \<Longrightarrow> traced L (act_map_error h m) Q"
  by (fastforce simp: traced_def act_map_error_def split: prod.splits sum.splits)

lemma traced_weaken: "traced L m Q \<Longrightarrow> (\<And>r L'. Q r L' \<Longrightarrow> R r L') \<Longrightarrow> traced L m R"
  by (simp add: traced_def)

lemma tracedD: "traced (sw_sent w) m Q \<Longrightarrow> m w = (r, w') \<Longrightarrow> Q r (sw_sent w')"
  by (force simp: traced_def)

lemma traced_prepared [traced_rules]:
  assumes "\<And>e. Q (Inl e) L" "\<And>t. traced L (k t) Q"
  shows "traced L (with_prepared port parse h k) Q"
  unfolding with_prepared_def scope_frame_def Let_def
  by (auto intro!: traced_rules assms split: sum.splits storage_scope.splits)


subsection \<open>Single mutations\<close>

text \<open>A step that sends \<open>m\<close>: an error says that it was not sent, or does not call the action not started.\<close>

definition mutation_result :: "storage_mutation list \<Rightarrow> storage_mutation \<Rightarrow> rt_error + unit \<Rightarrow> storage_mutation list \<Rightarrow> bool" where
  "mutation_result L m r L' \<longleftrightarrow>
     (case r of
        Inl e \<Rightarrow> L' = L \<or> L' = L @ [m] \<and> be_action_completed e \<noteq> NotStarted
      | Inr _ \<Rightarrow> L' = L @ [m])"

definition emits :: "('e, unit) act \<Rightarrow> storage_mutation \<Rightarrow> bool" where
  "emits b m \<longleftrightarrow> (\<forall>L. traced L b (mutation_result L m))"

lemma mutation_error_completion [simp]:
  "be_action_completed (storage_mutation_cdp op err) = Unknown"
  "be_action_completed (mark_mutation_completed e) = Completed"
  by (simp_all add: storage_mutation_cdp_def with_storage_failure_option_def with_storage_failure_def with_details_def
      sensitive_cdp_operation_def mark_mutation_completed_def with_action_completion_def split: option.splits)

lemma emits_send: "emits (send port op m) m"
  by (auto simp: emits_def mutation_result_def intro!: traced_rules)

lemma emits_target: "emits (target_mutate port op m t) m"
  by (auto simp: emits_def mutation_result_def target_mutate_def intro!: traced_rules split: sum.splits)

lemma emits_target_ops:
  "emits (target_set port k v t) (SetStorageItem (lo_session_id (px_route t)) (px_storage_id t) k v)"
  "emits (target_remove port k t) (RemoveStorageItem (lo_session_id (px_route t)) (px_storage_id t) k)"
  "emits (target_clear port t) (ClearStorage (lo_session_id (px_route t)) (px_storage_id t))"
  by (simp_all add: target_set_def target_remove_def target_clear_def emits_target)

lemma emits_clear_cookies:
  "ts_kind s \<noteq> DefaultSession \<Longrightarrow> emits (clear_cookies port s) (ClearCookies (cookie_browser_context_id s))"
  by (auto simp: emits_def mutation_result_def clear_cookies_def intro!: traced_rules)

lemma emits_set_cookies:
  "emits (set_cookies port parse s cs) (SetCookies (cookie_browser_context_id s) (map cookie_param_of cs))"
  by (auto simp: emits_def mutation_result_def set_cookies_def intro!: traced_rules split: sum.splits)

lemma refused_cookies_not_sent:
  assumes "validate_cookies parse cs = Inl e"
  shows "traced L (set_cookies port parse s cs) (\<lambda>r L'. isl r \<and> L' = L)"
  using assms by (auto simp: set_cookies_def intro!: traced_rules)

subsection \<open>The import\<close>

definition import_plan ::
  "storage_session \<Rightarrow> auth_import_mode \<Rightarrow> authentication_state \<Rightarrow> (string \<Rightarrow> prepared_target) \<Rightarrow> storage_mutation list" where
  "import_plan s mode st target =
     (if mode = ReplaceAuthScope
      then ClearCookies (cookie_browser_context_id s)
           # map (\<lambda>os. let t = target (os_origin os) in ClearStorage (lo_session_id (px_route t)) (px_storage_id t)) (au_origins st)
      else [])
     @ [SetCookies (cookie_browser_context_id s) (map cookie_param_of (au_cookies st))]
     @ concat (map (\<lambda>os. map (\<lambda>x. let t = target (os_origin os)
                                 in SetStorageItem (lo_session_id (px_route t)) (px_storage_id t) (se_key x) (se_value x))
                           (os_local_storage os)) (au_origins st))"

text \<open>What is sent and reported by a plan: everything, or a beginning of it with an error that admits it.\<close>

definition plan_result :: "storage_mutation list \<Rightarrow> nat \<Rightarrow> storage_mutation list \<Rightarrow> rt_error + unit \<Rightarrow> storage_mutation list \<Rightarrow> bool" where
  "plan_result L n plan r L' \<longleftrightarrow>
     (case r of
        Inr _ \<Rightarrow> L' = L @ plan
      | Inl e \<Rightarrow>
          (\<exists>k < length plan.
             (L' = L @ take k plan \<or> L' = L @ take (Suc k) plan \<and> be_action_completed e \<noteq> NotStarted)
             \<and> (n + k > 0 \<longrightarrow> be_action_completed e = Unknown
                   \<and> be_message e = ''authentication state import failed after '' @ show_nat (n + k)
                        @ '' mutation batches; values are redacted'')))"

lemma partial_mutation_error_simps:
  "be_action_completed (partial_mutation_error e op n) = (if n = 0 then be_action_completed e else Unknown)"
  "n > 0 \<Longrightarrow> be_message (partial_mutation_error e op n) = op @ '' failed after '' @ show_nat n @ '' mutation batches; values are redacted''"
  by (simp_all add: partial_mutation_error_def with_message_def with_action_completion_def)

lemma run_batches_plan:
  "list_all2 emits bs plan \<Longrightarrow> traced L (run_batches n bs) (plan_result L n plan)"
proof (induction bs arbitrary: plan n L)
  case Nil
  then show ?case by (auto simp: plan_result_def intro!: traced_rules)
next
  case (Cons b bs)
  then obtain m ms where plan: "plan = m # ms" "emits b m" "list_all2 emits bs ms" by (auto simp: list_all2_Cons1)
  have here: "traced L b (mutation_result L m)" using plan(2) by (simp add: emits_def)
  have rest: "traced (L @ [m]) (run_batches (Suc n) bs) (plan_result L n plan)"
  proof (rule traced_weaken[OF Cons.IH[OF plan(3)]])
    fix r L' assume "plan_result (L @ [m]) (Suc n) ms r L'"
    then show "plan_result L n plan r L'"
      unfolding plan_result_def plan(1) by (auto split: sum.splits intro: exI[of _ "Suc _"])
  qed
  show ?case
    unfolding run_batches.simps
  proof (rule traced_bind, rule traced_map_error, rule traced_weaken[OF here])
    fix r :: "rt_error + unit" and L' assume r: "mutation_result L m r L'"
    show "case r of
        Inl e \<Rightarrow> (case Inl (partial_mutation_error e ''authentication state import'' n) of
          Inl e \<Rightarrow> plan_result L n plan (Inl e) L' | Inr x \<Rightarrow> traced L' (run_batches (Suc n) bs) (plan_result L n plan))
      | Inr x \<Rightarrow> (case Inr x of Inl e \<Rightarrow> plan_result L n plan (Inl e) L'
          | Inr x \<Rightarrow> traced L' (run_batches (Suc n) bs) (plan_result L n plan))"
    proof (cases r)
      case (Inl e)
      with r show ?thesis
        by (auto simp: mutation_result_def plan_result_def plan(1) partial_mutation_error_simps intro!: exI[of _ 0])
    next
      case (Inr x)
      with r rest show ?thesis by (simp add: mutation_result_def)
    qed
  qed
qed

lemma import_batches_plan:
  "ts_kind s \<noteq> DefaultSession \<Longrightarrow>
   list_all2 emits (import_batches port parse s mode st target) (import_plan s mode st target)"
  unfolding import_batches_def import_plan_def Let_def
  by (intro list_all2_appendI)
    (auto simp: list_all2_map1 list_all2_map2 emits_clear_cookies emits_target_ops emits_set_cookies
      intro!: list_all2_refl concat_transfer[THEN rel_funD])


definition targets_ok :: "(string \<times> prepared_target) list \<Rightarrow> bool" where
  "targets_ok targets \<longleftrightarrow> (\<forall>origin t. map_of targets origin = Some t \<longrightarrow> px_origin t = origin)"

lemma traced_with_targets:
  assumes "\<And>e. Q (Inl e) L" "\<And>targets. targets_ok targets \<Longrightarrow> traced L (k targets) Q" "targets_ok targets"
  shows "traced L (with_targets port parse ps targets k) Q"
  using assms(3)
proof (induction ps arbitrary: targets)
  case Nil
  then show ?case using assms(2) by simp
next
  case (Cons p ps)
  have "targets_ok (AList.update (px_origin t) t targets)" for t using Cons.prems by (simp add: targets_ok_def)
  then show ?case using Cons.IH assms(1) by (auto intro!: traced_prepared traced_lift)
qed

lemma traced_validate_targets: "(\<And>r. Q r L) \<Longrightarrow> traced L (validate_targets ts) Q"
proof (induction ts arbitrary: Q)
  case Nil
  then show ?case by (auto intro: traced_rules)
next
  case (Cons t ts)
  then show ?case by (auto intro!: traced_rules split: sum.splits)
qed

lemma check_origins_Inr: "check_origins targets oss = Inr u \<longleftrightarrow> (\<forall>os \<in> set oss. os_origin os \<in> keys targets)"
  by (induction oss) (auto simp: and_then_def ensure_def)

text \<open>What an import has sent when it ends with \<open>r\<close>.\<close>

definition import_result ::
  "url_parser \<Rightarrow> storage_session \<Rightarrow> authentication_state \<Rightarrow> auth_import_mode \<Rightarrow> page_ref list
   \<Rightarrow> storage_mutation list \<Rightarrow> rt_error + unit \<Rightarrow> storage_mutation list \<Rightarrow> bool" where
  "import_result parse s st mode pages L r L' \<longleftrightarrow>
     (isl r \<and> L' = L)
     \<or> (\<exists>target. plan_result L 0 (import_plan s mode st target) r L'
          \<and> (\<forall>os \<in> set (au_origins st). px_origin (target (os_origin os)) = os_origin os)
          \<and> ts_kind s \<noteq> DefaultSession \<and> validate_state parse st = Inr ()
          \<and> (\<forall>p \<in> set pages. pg_owner_session p = ts_id s))"

lemma import_traced: "traced L (import_auth_state port parse s st mode pages) (import_result parse s st mode pages L)"
proof -
  let ?Q = "import_result parse s st mode pages L"
  have failed: "?Q (Inl e) L" for e by (simp add: import_result_def)
  have owned: "\<forall>p \<in> set pages. pg_owner_session p = ts_id s" if "validate_pages_owned s pages = Inr u" for u
    using that by (simp add: validate_pages_owned_def ensure_Inr list_all_iff)
  have body: "traced L (session_operation s ''import authentication state''
      (act_bind (validate_targets (map snd (sort_key fst targets)))
        (\<lambda>_. run_batches 0 (import_batches port parse s mode st (\<lambda>origin. the (map_of targets origin)))))) ?Q"
    if c: "check_origins targets (au_origins st) = Inr ()" and pre: "ts_kind s \<noteq> DefaultSession" "validate_state parse st = Inr ()" "validate_pages_owned s pages = Inr ()"
      and ok: "targets_ok targets" for targets
  proof -
    let ?target = "\<lambda>origin. the (map_of targets origin)"
    have origins: "\<forall>os \<in> set (au_origins st). px_origin (?target (os_origin os)) = os_origin os"
      using c ok unfolding check_origins_Inr targets_ok_def keys_iff_map_of by force
    have run: "traced L (run_batches 0 (import_batches port parse s mode st ?target)) ?Q"
      by (rule traced_weaken[OF run_batches_plan[OF import_batches_plan[OF pre(1)]]])
        (use origins pre(1,2) owned[OF pre(3)] in \<open>auto simp: import_result_def\<close>)
    show ?thesis
      by (auto intro!: traced_bind traced_lift traced_session traced_validate_targets failed run split: sum.splits)
  qed
  have empty: "targets_ok []" by (simp add: targets_ok_def)
  show ?thesis
    unfolding import_auth_state_def
    by (auto intro!: traced_bind traced_lift failed traced_with_targets body empty split: sum.splits)
qed

text \<open>
  C34: An import of an authentication state sends exactly its plan, in order: in replacing mode all cookies are
  cleared, then the local storage of every listed origin, then the cookies are set, then every entry. If it
  fails, only a beginning of the plan was sent; an error after any sent mutation never calls the action
  not started, and once a mutation was acknowledged it is reported as unknown together with the number of
  acknowledged mutations. Nothing at all is sent for a default session, an invalid state or a foreign page.
\<close>

theorem import_sends_plan_or_reports:
  assumes "import_auth_state port parse s st mode pages w = (r, w')"
  shows "import_result parse s st mode pages (sw_sent w) r (sw_sent w')"
  by (rule tracedD[OF import_traced assms])

text \<open>An error that calls the import not started means that nothing was sent.\<close>

lemma not_started_import_sent_nothing:
  assumes "import_auth_state port parse s st mode pages w = (Inl e, w')" "be_action_completed e = NotStarted"
  shows "sw_sent w' = sw_sent w"
proof -
  have "import_result parse s st mode pages (sw_sent w) (Inl e) (sw_sent w')"
    by (rule tracedD[OF import_traced assms(1)])
  then show ?thesis using assms(2) by (fastforce simp: import_result_def plan_result_def)
qed


subsection \<open>Deleting cookies\<close>

lemma traced_ask_cdp_reply:
  "(\<And>err. Q (Inl (h err)) L) \<Longrightarrow> (\<And>x sh sh'. q sh = (Inr x, sh') \<Longrightarrow> Q (Inr x) L) \<Longrightarrow> traced L (ask_cdp h q) Q"
  by (simp add: traced_def ask_cdp_def split: prod.splits sum.splits)

definition deletions_result :: "storage_mutation list \<Rightarrow> storage_mutation list \<Rightarrow> rt_error + unit \<Rightarrow> storage_mutation list \<Rightarrow> bool" where
  "deletions_result L ms r L' \<longleftrightarrow>
     (case r of
        Inr _ \<Rightarrow> L' = L @ ms
      | Inl e \<Rightarrow> (\<exists>k. L' = L @ take k ms) \<and> be_action_completed e \<noteq> NotStarted)"

lemma delete_matching_traced:
  "traced L (delete_matching port p n cs) (deletions_result L (map (delete_command p) cs))"
proof (induction cs arbitrary: n L)
  case Nil
  then show ?case by (auto simp: deletions_result_def intro!: traced_rules)
next
  case (Cons c cs)
  have rest: "traced (L @ [delete_command p c]) (delete_matching port p (Suc n) cs)
      (deletions_result L (map (delete_command p) (c # cs)))"
  proof (rule traced_weaken[OF Cons.IH])
    fix r L' assume "deletions_result (L @ [delete_command p c]) (map (delete_command p) cs) r L'"
    then show "deletions_result L (map (delete_command p) (c # cs)) r L'"
      by (auto simp: deletions_result_def split: sum.splits intro: exI[of _ "Suc _"])
  qed
  have first: "deletions_result L (map (delete_command p) (c # cs))
      (Inl (partial_mutation_error (storage_mutation_cdp op err) ''cookie deletion'' n)) (L @ [delete_command p c])" for op err
    by (auto simp: deletions_result_def partial_mutation_error_simps intro: exI[of _ "Suc 0"])
  show ?case unfolding delete_matching.simps
    by (intro traced_bind traced_map_error traced_send) (simp_all only: sum.case first rest)
qed

lemma cleanup_failures_completion:
  "deletions_result L ms r L' \<Longrightarrow> deletions_result L ms (fold add_cleanup_failure fs r) L'"
proof (induction fs arbitrary: r)
  case (Cons f fs)
  have "deletions_result L ms (add_cleanup_failure f r) L'"
    using Cons.prems
    by (auto simp: deletions_result_def add_cleanup_failure_def with_cleanup_failure_def with_action_completion_def
        split: sum.splits intro: exI[of _ "length ms"])
  then show ?case using Cons.IH by simp
qed simp

lemma delete_on_temporary_traced:
  "traced L (delete_on_temporary port cs) (\<lambda>r L'. isl r \<and> L' = L \<or> (\<exists>p. deletions_result L (map (delete_command p) cs) r L'))"
proof -
  have body: "traced L (\<lambda>w. (case delete_matching port p 0 cs w of
          (r, w1) \<Rightarrow> (case po_close_page port p (sw_shared w1) of
               (report, sh) \<Rightarrow> (fold add_cleanup_failure (cr_failures report) r, w1\<lparr>sw_shared := sh\<rparr>))))
        (deletions_result L (map (delete_command p) cs))" for p
    using delete_matching_traced[of L port p 0 cs] cleanup_failures_completion
    by (simp add: traced_def split: prod.splits) (metis fst_conv snd_conv)
  show ?thesis
    unfolding delete_on_temporary_def
    by (auto intro!: traced_bind traced_ask traced_weaken[OF body] split: sum.splits)
qed

definition cookies_read :: "'e storage_port \<Rightarrow> storage_session \<Rightarrow> browser_cookie list \<Rightarrow> bool" where
  "cookies_read port s cookies \<longleftrightarrow>
     (\<exists>cs sh sh'. po_cookies port (cookie_browser_context_id s) sh = (Inr cs, sh') \<and> cookies = sort_key cookie_order (map cookie_from_cdp cs))"

definition deletion_result ::
  "'e storage_port \<Rightarrow> url_parser \<Rightarrow> storage_session \<Rightarrow> cookie_deletion \<Rightarrow> storage_mutation list
   \<Rightarrow> rt_error + unit \<Rightarrow> storage_mutation list \<Rightarrow> bool" where
  "deletion_result port parse s f L r L' \<longleftrightarrow>
     isl r \<and> L' = L
     \<or> (\<exists>cookies p. cookies_read port s cookies \<and>
          deletions_result L (map (delete_command p) (filter (\<lambda>c. deletion_matches parse c f) cookies)) r L')"

lemma cookies_readI:
  "po_cookies port (cookie_browser_context_id s) sh = (Inr cs, sh') \<Longrightarrow>
   cookies_read port s (sort_key cookie_order (map cookie_from_cdp cs))"
  by (auto simp: cookies_read_def)

lemma session_cookies_traced:
  "(\<And>e. Q (Inl e) L) \<Longrightarrow> (\<And>cookies. cookies_read port s cookies \<Longrightarrow> Q (Inr cookies) L) \<Longrightarrow> traced L (session_cookies port s) Q"
  unfolding session_cookies_def
  by (intro traced_session traced_bind traced_ask_cdp_reply) (auto intro!: traced_lift intro: cookies_readI)

lemma deletion_page_traced: "(\<And>r. Q r L) \<Longrightarrow> traced L (deletion_page port s) Q"
  unfolding traced_def deletion_page_def
  by (auto simp: act_bind_def ask_def ask_cdp_def act_lift_def split: prod.splits sum.splits option.splits)

lemma delete_cookie_traced: "traced L (delete_cookie port parse s f) (deletion_result port parse s f L)"
proof -
  let ?Q = "deletion_result port parse s f L"
  have failed: "?Q (Inl e) L" for e by (simp add: deletion_result_def)
  have run: "traced L (delete_matching port p 0 (filter (\<lambda>c. deletion_matches parse c f) cookies)) ?Q"
      "traced L (delete_on_temporary port (filter (\<lambda>c. deletion_matches parse c f) cookies)) ?Q"
      if "cookies_read port s cookies" for cookies p
    using that
    by (auto simp: deletion_result_def intro!: traced_weaken[OF delete_matching_traced] traced_weaken[OF delete_on_temporary_traced])
  have none: "?Q (Inr ()) L" if "cookies_read port s cookies" "filter (\<lambda>c. deletion_matches parse c f) cookies = []" for cookies
    using that unfolding deletion_result_def deletions_result_def
    by (intro disjI2 exI[of _ cookies] exI conjI) simp_all
  have step: "traced L (let matching = filter (\<lambda>c. deletion_matches parse c f) cookies
         in if matching = [] then act_lift (Inr ())
            else act_bind (deletion_page port s) (\<lambda>known.
              case known of Some p \<Rightarrow> delete_matching port p 0 matching | None \<Rightarrow> delete_on_temporary port matching)) ?Q"
    if read: "cookies_read port s cookies" for cookies
  proof (cases "filter (\<lambda>c. deletion_matches parse c f) cookies = []")
    case True
    then show ?thesis using none[OF read True] by (simp add: traced_lift)
  next
    case False
    show ?thesis
      unfolding Let_def if_not_P[OF False]
      by (auto intro!: traced_bind deletion_page_traced failed run[OF read] split: sum.splits option.splits)
  qed
  show ?thesis
    unfolding delete_cookie_def
    by (auto intro!: traced_bind traced_lift traced_session session_cookies_traced failed step split: sum.splits)
qed

text \<open>
  Deleting a cookie sends nothing but the deletions of cookies that the browser listed and that match
  the filter, in the order of the list; without an error all of them were sent, and an error after a sent
  deletion never calls the action not started.
\<close>

theorem delete_cookie_only_matching:
  assumes "delete_cookie port parse s f w = (r, w')"
  shows "deletion_result port parse s f (sw_sent w) r (sw_sent w')"
  by (rule tracedD[OF delete_cookie_traced assms])

lemma deletion_matches_name: "deletion_matches parse c f \<Longrightarrow> ck_name c = cd_name f"
  by (simp add: deletion_matches_def)

subsection \<open>Exported states\<close>

lemma validate_origin_states_Inr:
  "validate_origin_states parse seen oss = Inr u \<longleftrightarrow>
     (\<forall>os \<in> set oss. validate_origin parse (os_origin os) = Inr () \<and> distinct (map se_key (os_local_storage os))) \<and>
     distinct (map os_origin oss) \<and> os_origin ` set oss \<inter> set seen = {}"
  by (induction oss arbitrary: seen) (auto simp: and_then_Inr ensure_Inr)

lemma validate_cookies_Inr: "validate_cookies parse cs = Inr u \<longleftrightarrow> (\<forall>c \<in> set cs. validate_cookie parse c = Inr ())"
  by (induction cs) (auto simp: and_then_Inr)

definition origins_ok :: "url_parser \<Rightarrow> (string \<times> storage_entry list) list \<Rightarrow> bool" where
  "origins_ok parse by_origin \<longleftrightarrow> wf_map by_origin \<and> (\<forall>origin \<in> keys by_origin. validate_origin parse origin = Inr ())"

lemma traced_prepared_valid:
  assumes "\<And>e. Q (Inl e) L" "\<And>t. validate_origin parse (px_origin t) = Inr () \<Longrightarrow> traced L (k t) Q"
  shows "traced L (with_prepared port parse h k) Q"
  unfolding with_prepared_def scope_frame_def Let_def
  by (auto intro!: traced_rules assms split: sum.splits storage_scope.splits)

lemma export_pages_traced:
  assumes "origins_ok parse by_origin"
  shows "traced L (export_pages port parse ps by_origin) (\<lambda>r L'. L' = L \<and> (\<forall>res. r = Inr res \<longrightarrow> origins_ok parse res))"
  using assms
proof (induction ps arbitrary: by_origin)
  case Nil
  then show ?case by (auto intro!: traced_lift)
next
  case (Cons p ps)
  have "origins_ok parse (AList.update (px_origin t) entries by_origin)"
    if "validate_origin parse (px_origin t) = Inr ()" for t entries
    using Cons.prems that by (auto simp: origins_ok_def)
  then show ?case
    by (auto simp: target_list_def intro!: traced_bind traced_prepared_valid traced_lift traced_target_validate traced_ask_cdp
        Cons.IH split: sum.splits)
qed

definition exported_ok :: "'e storage_port \<Rightarrow> url_parser \<Rightarrow> storage_session \<Rightarrow> authentication_state \<Rightarrow> bool" where
  "exported_ok port parse s st \<longleftrightarrow>
     au_version st = authentication_state_version \<and> cookies_read port s (au_cookies st) \<and> distinct (map os_origin (au_origins st))
     \<and> (\<forall>os \<in> set (au_origins st). validate_origin parse (os_origin os) = Inr ())"

lemma export_traced:
  "traced L (export_auth_state port parse s pages) (\<lambda>r L'. L' = L \<and> (\<forall>st. r = Inr st \<longrightarrow> exported_ok port parse s st))"
proof -
  have built: "exported_ok port parse s \<lparr>au_version = authentication_state_version, au_cookies = cookies,
      au_origins = map (\<lambda>(origin, entries). \<lparr>os_origin = origin, os_local_storage = entries\<rparr>) (sort_key fst by_origin)\<rparr>"
    if "cookies_read port s cookies" "origins_ok parse by_origin" for cookies by_origin
    using that by (auto simp: exported_ok_def origins_ok_def comp_def case_prod_beta distinct_map)
  have empty: "origins_ok parse []" by (simp add: origins_ok_def)
  show ?thesis
    unfolding export_auth_state_def
    by (auto intro!: traced_session traced_bind traced_lift session_cookies_traced traced_weaken[OF export_pages_traced[OF empty]] built
        split: sum.splits)
qed

text \<open>
  An exported state sends no mutation and is one that an import accepts, except for its cookies and
  repeated storage keys: its version is current, its origins are valid and distinct, and so validation
  succeeds exactly when each cookie the browser listed passes the cookie check and no origin lists a key twice.
\<close>

theorem exported_state_importable:
  assumes "export_auth_state port parse s pages w = (Inr st, w')"
  shows "sw_sent w' = sw_sent w \<and> cookies_read port s (au_cookies st) \<and>
    (validate_state parse st = Inr () \<longleftrightarrow>
       (\<forall>c \<in> set (au_cookies st). validate_cookie parse c = Inr ()) \<and>
       (\<forall>os \<in> set (au_origins st). distinct (map se_key (os_local_storage os))))"
proof -
  have ok: "sw_sent w' = sw_sent w" "exported_ok port parse s st"
    using tracedD[OF export_traced assms] by simp_all
  then show ?thesis
    by (auto simp: exported_ok_def validate_state_def and_then_Inr ensure_Inr validate_cookies_Inr validate_origin_states_Inr)
qed

text \<open>
  The condition on the cookies is not empty: the exported form of a cookie with an opaque partition key, or
  of a cookie without a name, is refused by every import, and with it the whole exported state.
\<close>

lemma unimportable_cookies:
  "cc_partition_key_opaque c = Some True \<or> cc_name c = [] \<Longrightarrow> validate_cookie parse (cookie_from_cdp c) \<noteq> Inr ()"
  by (auto simp: validate_cookie_def cookie_from_cdp_def and_then_Inr ensure_Inr)

subsection \<open>Cookie paths\<close>

text \<open>Path matching of RFC 6265, section 5.1.4: the path itself, or a directory of it.\<close>

lemma cookie_path_matches_iff:
  "cookie_path_matches p q \<longleftrightarrow>
     p = q \<or> (\<exists>d rest. p = d @ ''/'' \<and> q = p @ rest) \<or> (\<exists>rest. q = p @ ''/'' @ rest)"
  by (auto simp: cookie_path_matches_def str_strip_prefix_Some str_ends_with_iff str_starts_with_iff split: option.splits)
    (auto simp: str_strip_prefix_def str_starts_with_iff split: if_splits)


subsection \<open>Examples\<close>

definition example_url :: url_parser where
  "example_url u =
     (if u = ''http://a'' then Some (plain_url ''http'' ''a'') else None)"

definition example_cdp_cookie :: "string \<Rightarrow> cdp_cookie" where
  "example_cdp_cookie name =
     \<lparr>cc_name = name, cc_value = ''v'', cc_domain = ''a'', cc_path = ''/'', cc_expires = Finite 7, cc_size = 2,
      cc_http_only = False, cc_secure = True, cc_session = False, cc_same_site = Some ''Lax'', cc_priority = ''Medium'',
      cc_source_scheme = ''Secure'', cc_source_port = 443, cc_partition_key = None, cc_partition_key_opaque = None\<rparr>"

definition example_page :: page_ref where
  "example_page = \<lparr>pg_id = ''p'', pg_owner_session = ''u'', pg_runtime_gate = ''rt'', pg_gate = ''pg'', pg_cdp_session = ''s''\<rparr>"

definition example_storage_session :: storage_session where
  "example_storage_session =
     \<lparr>ts_id = ''u'', ts_kind = IsolatedSession, ts_context_id = Some ''ctx'', ts_runtime_gate = ''rt'', ts_gate = ''sg''\<rparr>"

definition example_port :: "unit storage_port" where
  "example_port =
     \<lparr>po_mutate = (\<lambda>_ sh. (Inr (), sh)), po_cookies = (\<lambda>_ sh. (Inr [example_cdp_cookie ''b'', example_cdp_cookie ''a''], sh)),
      po_items = (\<lambda>_ _ sh. (Inr [[''k2'', ''v2''], [''k1'', ''v1''], [''odd'']], sh)), po_storage_key = (\<lambda>_ _ sh. (Inr ''sk'', sh)),
      po_targets = (\<lambda>sh. (Inr [], sh)),
      po_main_frame = (\<lambda>_ sh. (Inr \<lparr>fh_id = ''top'', fh_snapshot = \<lparr>fs_page_generation = 1, fs_document_epoch = 0\<rparr>\<rparr>, sh)),
      po_frame_store = (\<lambda>_ sh. (Inr (), sh)), po_location_origin = (\<lambda>_ _ sh. (Inr ''http://a'', sh)),
      po_attach_page = (\<lambda>_ sh. (Inr example_page, sh)), po_new_page = (\<lambda>_ sh. (Inr example_page, sh)),
      po_close_page = (\<lambda>_ sh. (new_report ''page'', sh))\<rparr>"

definition example_world :: "unit storage_world" where
  "example_world =
     \<lparr>sw_shared = \<lparr>sh_gates = new_gate, sh_view = (\<lambda>_. example_view), sh_owner_gate = (\<lambda>_. Some ''sg''), sh_known_page = None, sh_env = ()\<rparr>,
      sw_sent = []\<rparr>"

definition example_auth_state :: authentication_state where
  "example_auth_state =
     \<lparr>au_version = authentication_state_version, au_cookies = [cookie_from_cdp (example_cdp_cookie ''a'')],
      au_origins = [\<lparr>os_origin = ''http://a'', os_local_storage = [\<lparr>se_key = ''k'', se_value = ''v''\<rparr>]\<rparr>]\<rparr>"

lemma example_world_sent: "sw_sent example_world = []"
  by (simp add: example_world_def)

theorem import_sends_plan_or_reports_witness:
  "\<exists>w' :: unit storage_world. import_result example_url example_storage_session example_auth_state ReplaceAuthScope [example_page] [] (Inr ()) (sw_sent w')
     \<and> length (sw_sent w') = 4"
proof -
  let ?run = "import_auth_state example_port example_url example_storage_session example_auth_state ReplaceAuthScope [example_page] example_world"
  have run: "fst ?run = Inr ()" "length (sw_sent (snd ?run)) = 4" by code_simp+
  from run(1) have "?run = (Inr (), snd ?run)" by (simp add: prod_eq_iff)
  from import_sends_plan_or_reports[OF this] run(2) show ?thesis unfolding example_world_sent by blast
qed

definition example_filter :: cookie_deletion where
  "example_filter = \<lparr>cd_name = ''a'', cd_url = None, cd_domain = Some ''a'', cd_path = None, cd_partition_key = None\<rparr>"

theorem delete_cookie_only_matching_witness:
  "\<exists>w' :: unit storage_world. deletion_result example_port example_url example_storage_session example_filter [] (Inr ()) (sw_sent w')
     \<and> sw_sent w' = [DeleteCookies ''s'' ''a'' (Some ''a'') (Some ''/'') None]"
proof -
  let ?run = "delete_cookie example_port example_url example_storage_session example_filter example_world"
  have run: "fst ?run = Inr ()" "sw_sent (snd ?run) = [DeleteCookies ''s'' ''a'' (Some ''a'') (Some ''/'') None]" by code_simp+
  from run(1) have "?run = (Inr (), snd ?run)" by (simp add: prod_eq_iff)
  from delete_cookie_only_matching[OF this] run(2) show ?thesis unfolding example_world_sent by blast
qed

theorem exported_state_importable_witness:
  "\<exists>st. map ck_name (au_cookies st) = [''a'', ''b''] \<and> map os_origin (au_origins st) = [''http://a''] \<and>
     validate_state example_url st = Inr ()"
proof -
  let ?run = "export_auth_state example_port example_url example_storage_session [example_page] example_world"
  have run: "(case fst ?run of Inl _ \<Rightarrow> False
      | Inr st \<Rightarrow> map ck_name (au_cookies st) = [''a'', ''b''] \<and> map os_origin (au_origins st) = [''http://a''] \<and>
          list_all (\<lambda>c. validate_cookie example_url c = Inr ()) (au_cookies st) \<and>
          list_all (\<lambda>os. distinct (map se_key (os_local_storage os))) (au_origins st))"
    by code_simp
  then obtain st where st: "fst ?run = Inr st" by (cases "fst ?run") auto
  then have "?run = (Inr st, snd ?run)" by (simp add: prod_eq_iff)
  from exported_state_importable[OF this] run st show ?thesis by (intro exI[of _ st]) (simp add: list_all_iff)
qed

end
