(* ===== verification/ContextOptions.thy ===== *)
theory ContextOptions
  imports Urls Floats Errors
begin

text \<open>
  The validated configuration of a browser context (\<open>src/src/runtime/context_options.rs\<close>). Every value is
  built by functions that check it; a canonical \<open>f64\<close> is a finite one (both zeros are the same value).
\<close>

subsection \<open>Numbers\<close>

definition canonical_finite :: "f64 \<Rightarrow> rat option" where
  "canonical_finite x = (case x of Finite r \<Rightarrow> Some r | _ \<Rightarrow> None)"

record viewport =
  vp_width :: "32 word"
  vp_height :: "32 word"
  vp_scale :: rat

definition viewport_new :: "32 word \<Rightarrow> 32 word \<Rightarrow> configuration_failure + viewport" where
  "viewport_new w h =
     (if w = 0 \<or> h = 0 then Inl InvalidViewport else Inr \<lparr>vp_width = w, vp_height = h, vp_scale = 1\<rparr>)"

definition filtered :: "(rat \<Rightarrow> bool) \<Rightarrow> configuration_failure \<Rightarrow> f64 \<Rightarrow> configuration_failure + rat" where
  "filtered ok e x = (case canonical_finite x of None \<Rightarrow> Inl e | Some r \<Rightarrow> if ok r then Inr r else Inl e)"

definition device_scale_factor :: "f64 \<Rightarrow> viewport \<Rightarrow> configuration_failure + viewport" where
  "device_scale_factor x v = and_then (filtered (\<lambda>r. r > 0) InvalidViewport x) (\<lambda>r. Inr (v\<lparr>vp_scale := r\<rparr>))"

record geolocation =
  gl_latitude :: rat
  gl_longitude :: rat
  gl_accuracy :: rat

definition geolocation_new :: "f64 \<Rightarrow> f64 \<Rightarrow> configuration_failure + geolocation" where
  "geolocation_new lat lon =
     and_then (filtered (\<lambda>r. - 90 \<le> r \<and> r \<le> 90) InvalidGeolocation lat) (\<lambda>la.
     and_then (filtered (\<lambda>r. - 180 \<le> r \<and> r \<le> 180) InvalidGeolocation lon) (\<lambda>lo.
     Inr \<lparr>gl_latitude = la, gl_longitude = lo, gl_accuracy = 0\<rparr>))"

definition geolocation_accuracy :: "f64 \<Rightarrow> geolocation \<Rightarrow> configuration_failure + geolocation" where
  "geolocation_accuracy x g = and_then (filtered (\<lambda>r. r \<ge> 0) InvalidGeolocation x) (\<lambda>r. Inr (g\<lparr>gl_accuracy := r\<rparr>))"

subsection \<open>Text\<close>

definition line_breaks :: "char list" where
  "line_breaks = [CHR 0x0D, CHR 0x0A, CHR 0x00]"

definition breaks_line :: "string \<Rightarrow> bool" where
  "breaks_line s \<longleftrightarrow> list_ex (\<lambda>c. c \<in> set line_breaks) s"

definition nonempty_single_line :: "string \<Rightarrow> bool" where
  "nonempty_single_line s \<longleftrightarrow> \<not> (s = [] \<or> breaks_line s)"

definition byte_of :: "char \<Rightarrow> nat" where
  "byte_of c = of_char c"

definition is_ascii_alphabetic :: "char \<Rightarrow> bool" where
  "is_ascii_alphabetic c \<longleftrightarrow> 65 \<le> byte_of c \<and> byte_of c \<le> 90 \<or> 97 \<le> byte_of c \<and> byte_of c \<le> 122"

definition is_ascii_alphanumeric :: "char \<Rightarrow> bool" where
  "is_ascii_alphanumeric c \<longleftrightarrow> is_ascii_alphabetic c \<or> 48 \<le> byte_of c \<and> byte_of c \<le> 57"

definition trim_matches :: "char list \<Rightarrow> string \<Rightarrow> string" where
  "trim_matches cs s = rev (dropWhile (\<lambda>c. c \<in> set cs) (rev (dropWhile (\<lambda>c. c \<in> set cs) s)))"

fun join_with :: "string \<Rightarrow> string list \<Rightarrow> string" where
  "join_with sep [] = []"
| "join_with sep [x] = x"
| "join_with sep (x # y # xs) = x @ sep @ join_with sep (y # xs)"

definition valid_language_tag :: "string \<Rightarrow> bool" where
  "valid_language_tag s =
     (case split_on (CHR ''-'') s of
        [] \<Rightarrow> False
      | primary # subtags \<Rightarrow>
          (2 \<le> length primary \<and> length primary \<le> 8 \<or> map ascii_lower primary \<in> {''i'', ''x''})
          \<and> list_all is_ascii_alphabetic primary
          \<and> list_all (\<lambda>t. 1 \<le> length t \<and> length t \<le> 8 \<and> list_all is_ascii_alphanumeric t) subtags)"

definition optional_blanks :: "char list" where
  "optional_blanks = [CHR '' '', CHR 0x09]"

definition normalize_accept_language :: "string \<Rightarrow> string option" where
  "normalize_accept_language s =
     (let tags = map (trim_matches optional_blanks) (split_on (CHR '','') s)
      in if list_all valid_language_tag tags then (if tags = [] then None else Some (join_with '','' tags)) else None)"

record user_agent_override =
  ua_user_agent :: string
  ua_accept_language :: "string option"
  ua_platform :: "string option"

definition user_agent_new :: "string \<Rightarrow> configuration_failure + user_agent_override" where
  "user_agent_new s =
     (if nonempty_single_line s then Inr \<lparr>ua_user_agent = s, ua_accept_language = None, ua_platform = None\<rparr>
      else Inl InvalidUserAgent)"

definition accept_language :: "string \<Rightarrow> user_agent_override \<Rightarrow> configuration_failure + user_agent_override" where
  "accept_language s u =
     (case normalize_accept_language s of
        None \<Rightarrow> Inl InvalidAcceptLanguage
      | Some l \<Rightarrow> Inr (u\<lparr>ua_accept_language := Some l\<rparr>))"

definition user_agent_platform :: "string \<Rightarrow> user_agent_override \<Rightarrow> configuration_failure + user_agent_override" where
  "user_agent_platform s u =
     (if nonempty_single_line s then Inr (u\<lparr>ua_platform := Some s\<rparr>) else Inl InvalidUserAgent)"

subsection \<open>Headers\<close>

definition header_punctuation :: string where
  "header_punctuation = ''!#$%&'' @ [CHR 0x27] @ ''*+-.^_`|~''"

definition valid_header_name :: "string \<Rightarrow> bool" where
  "valid_header_name name \<longleftrightarrow>
     name \<noteq> [] \<and> list_all (\<lambda>c. is_ascii_alphanumeric c \<or> c \<in> set header_punctuation) name"

type_synonym http_headers = "(string \<times> string) list"

fun add_headers :: "(string \<times> string) list \<Rightarrow> http_headers \<Rightarrow> configuration_failure + http_headers" where
  "add_headers [] vals = Inr vals"
| "add_headers ((name, val) # rest) vals =
     (if \<not> valid_header_name name then Inl (InvalidHeaderName name)
      else if breaks_line val then Inl (InvalidHeaderValue name)
      else if map ascii_lower name \<in> keys vals then Inl (DuplicateHeaderName (map ascii_lower name))
      else add_headers rest (AList.update (map ascii_lower name) val vals))"

definition headers_new :: "(string \<times> string) list \<Rightarrow> configuration_failure + http_headers" where
  "headers_new headers = add_headers headers []"

definition headers_get :: "string \<Rightarrow> http_headers \<Rightarrow> string option" where
  "headers_get name h = map_of h (map ascii_lower name)"

definition headers_iter :: "http_headers \<Rightarrow> (string \<times> string) list" where
  "headers_iter h = sort_key fst h"

definition is_sensitive_header :: "string \<Rightarrow> bool" where
  "is_sensitive_header name \<longleftrightarrow> name \<in> {''authorization'', ''proxy-authorization'', ''cookie'', ''set-cookie''}"

text \<open>The \<open>Debug\<close> form, as the list of its printed entries.\<close>

definition headers_debug :: "http_headers \<Rightarrow> (string \<times> string) list" where
  "headers_debug h = map (\<lambda>(name, val). (name, if is_sensitive_header name then ''<redacted>'' else val)) (headers_iter h)"

subsection \<open>Permissions and proxy\<close>

datatype permission_name =
    PermGeolocation | PermNotifications | PermMidi | PermMidiSysex | PermCamera | PermMicrophone | PermClipboardReadWrite
  | PermClipboardSanitizedWrite | PermPaymentHandler | PermBackgroundSync | PermSensors | PermAccessibilityEvents

datatype permission_setting = Allow | Block | Prompt

record permission_override =
  pm_name :: permission_name
  pm_setting :: permission_setting
  pm_origin :: "string option"

definition permission_new :: "permission_name \<Rightarrow> permission_setting \<Rightarrow> permission_override" where
  "permission_new name setting = \<lparr>pm_name = name, pm_setting = setting, pm_origin = None\<rparr>"

definition validate_permission_origin :: "url_parser \<Rightarrow> string \<Rightarrow> configuration_failure + string" where
  "validate_permission_origin parse origin =
     (case parse origin of
        None \<Rightarrow> Inl ConfigInvalidOrigin
      | Some u \<Rightarrow>
          if \<not> is_web_scheme u \<or> pu_host u = None \<or> pu_username u \<noteq> [] \<or> pu_password u \<noteq> None \<or> pu_path u \<noteq> ''/''
             \<or> pu_query u \<noteq> None \<or> pu_fragment u \<noteq> None
          then Inl ConfigInvalidOrigin else Inr (pu_origin u))"

definition permission_with_origin :: "url_parser \<Rightarrow> string \<Rightarrow> permission_override \<Rightarrow> configuration_failure + permission_override" where
  "permission_with_origin parse origin p =
     and_then (validate_permission_origin parse origin) (\<lambda>og. Inr (p\<lparr>pm_origin := Some og\<rparr>))"

record proxy_options =
  px_server :: string
  px_bypass_list :: "string list"

definition proxy_schemes :: "string list" where
  "proxy_schemes = [''http'', ''https'', ''socks4'', ''socks5'']"

definition canonical_proxy_server :: "url_parser \<Rightarrow> string \<Rightarrow> configuration_failure + string" where
  "canonical_proxy_server parse server =
     (if \<not> nonempty_single_line server then Inl InvalidProxyServer
      else case parse server of
        None \<Rightarrow> Inl InvalidProxyServer
      | Some u \<Rightarrow>
          if pu_username u \<noteq> [] \<or> pu_password u \<noteq> None then Inl ProxyUserInfoNotAllowed
          else if pu_scheme u \<notin> set proxy_schemes \<or> pu_path u \<noteq> ''/'' \<or> pu_query u \<noteq> None \<or> pu_fragment u \<noteq> None
          then Inl InvalidProxyServer
          else case pu_host u of
            None \<Rightarrow> Inl InvalidProxyServer
          | Some host \<Rightarrow>
              Inr (pu_scheme u @ ''://'' @ host @ (case pu_port u of None \<Rightarrow> [] | Some p \<Rightarrow> '':'' @ show_nat p)))"

definition proxy_new :: "url_parser \<Rightarrow> string \<Rightarrow> configuration_failure + proxy_options" where
  "proxy_new parse server =
     and_then (canonical_proxy_server parse server) (\<lambda>s. Inr \<lparr>px_server = s, px_bypass_list = []\<rparr>)"

definition bad_bypass_entry :: "string \<Rightarrow> bool" where
  "bad_bypass_entry x \<longleftrightarrow> x = [] \<or> breaks_line x \<or> CHR '','' \<in> set x \<or> CHR '';'' \<in> set x \<or> has_whitespace x"

definition proxy_bypass :: "string list \<Rightarrow> proxy_options \<Rightarrow> configuration_failure + proxy_options" where
  "proxy_bypass entries p =
     (if list_ex bad_bypass_entry entries then Inl InvalidProxyBypassEntry else Inr (p\<lparr>px_bypass_list := entries\<rparr>))"

subsection \<open>Route and context options\<close>

record target_route_options =
  to_viewport :: "viewport option"
  to_locale :: "string option"
  to_timezone :: "string option"
  to_geolocation :: "geolocation option"
  to_user_agent :: "user_agent_override option"
  to_http_headers :: http_headers

definition default_route_options :: target_route_options where
  "default_route_options =
     \<lparr>to_viewport = None, to_locale = None, to_timezone = None, to_geolocation = None, to_user_agent = None, to_http_headers = []\<rparr>"

definition valid_locale :: "string \<Rightarrow> bool" where
  "valid_locale s \<longleftrightarrow> s \<noteq> [] \<and> length s \<le> 128 \<and> list_all (\<lambda>c. is_ascii_alphanumeric c \<or> c \<in> set ''-_'') s"

definition valid_timezone :: "string \<Rightarrow> bool" where
  "valid_timezone s \<longleftrightarrow> s \<noteq> [] \<and> length s \<le> 256 \<and> list_all (\<lambda>c. is_ascii_alphanumeric c \<or> c \<in> set ''/_-+'') s"

definition with_locale :: "string \<Rightarrow> target_route_options \<Rightarrow> configuration_failure + target_route_options" where
  "with_locale s r = (if valid_locale s then Inr (r\<lparr>to_locale := Some s\<rparr>) else Inl InvalidLocale)"

definition with_timezone :: "string \<Rightarrow> target_route_options \<Rightarrow> configuration_failure + target_route_options" where
  "with_timezone s r = (if valid_timezone s then Inr (r\<lparr>to_timezone := Some s\<rparr>) else Inl InvalidTimezone)"

record context_options =
  co_target_route :: target_route_options
  co_permissions :: "permission_override list"
  co_ignore_https_errors :: bool

definition default_context_options :: context_options where
  "default_context_options =
     \<lparr>co_target_route = default_route_options, co_permissions = [], co_ignore_https_errors = False\<rparr>"

definition same_permission :: "permission_override \<Rightarrow> permission_override \<Rightarrow> bool" where
  "same_permission p q \<longleftrightarrow> pm_name p = pm_name q \<and> pm_origin p = pm_origin q"

fun put_permission :: "permission_override \<Rightarrow> permission_override list \<Rightarrow> permission_override list" where
  "put_permission p [] = [p]"
| "put_permission p (q # qs) = (if same_permission q p then p # qs else q # put_permission p qs)"

definition add_permission :: "permission_override \<Rightarrow> context_options \<Rightarrow> context_options" where
  "add_permission p c = c\<lparr>co_permissions := put_permission p (co_permissions c)\<rparr>"

definition required_capabilities :: "context_options \<Rightarrow> capability list" where
  "required_capabilities c =
     (if co_target_route c \<noteq> default_route_options then [RequestRouting] else [])
     @ (if co_permissions c \<noteq> [] then [PermissionOverrides] else [])
     @ (if co_ignore_https_errors c then [IgnoreHttpsErrors] else [])"


subsection \<open>Headers form a case-insensitive map\<close>

definition headers_ok :: "http_headers \<Rightarrow> bool" where
  "headers_ok h \<longleftrightarrow>
     wf_map h \<and> (\<forall>(name, val) \<in> set h. valid_header_name name \<and> map ascii_lower name = name \<and> \<not> breaks_line val)"

lemma ascii_lower_idem [simp]: "ascii_lower (ascii_lower c) = ascii_lower c"
  by (cases c) (simp add: ascii_lower_def split: if_splits)

lemma byte_of_ascii_lower: "byte_of (ascii_lower c) = (if 65 \<le> byte_of c \<and> byte_of c \<le> 90 then byte_of c + 32 else byte_of c)"
  by (auto simp: byte_of_def ascii_lower_def Let_def)

lemma punctuation_lower: "c \<in> set header_punctuation \<Longrightarrow> ascii_lower c = c"
proof -
  have "list_all (\<lambda>c. ascii_lower c = c) header_punctuation" by code_simp
  then show "c \<in> set header_punctuation \<Longrightarrow> ascii_lower c = c" by (simp add: list_all_iff)
qed

lemma valid_header_name_lower: "valid_header_name name \<Longrightarrow> valid_header_name (map ascii_lower name)"
proof -
  have "is_ascii_alphanumeric (ascii_lower c) \<or> ascii_lower c \<in> set header_punctuation"
    if "is_ascii_alphanumeric c \<or> c \<in> set header_punctuation" for c
    using that punctuation_lower by (auto simp: is_ascii_alphanumeric_def is_ascii_alphabetic_def byte_of_ascii_lower)
  then show "valid_header_name name \<Longrightarrow> valid_header_name (map ascii_lower name)"
    by (auto simp: valid_header_name_def list_all_iff)
qed

lemma add_headers_ok: "add_headers hs vals = Inr h \<Longrightarrow> headers_ok vals \<Longrightarrow> headers_ok h"
proof (induction hs vals rule: add_headers.induct)
  case (2 name val rest vals)
  have "headers_ok (AList.update (map ascii_lower name) val vals)" if "valid_header_name name" "\<not> breaks_line val"
    using 2(3) that set_update_within[of "map ascii_lower name" val vals] valid_header_name_lower
    by (fastforce simp: headers_ok_def comp_def)
  then show ?case using 2 by (auto split: if_splits)
qed simp

lemma headers_new_ok: "headers_new hs = Inr h \<Longrightarrow> headers_ok h"
  using add_headers_ok by (fastforce simp: headers_new_def headers_ok_def)

lemma add_headers_get:
  "add_headers hs vals = Inr h \<Longrightarrow>
   (\<forall>n v. map_of vals n = Some v \<longrightarrow> map_of h n = Some v) \<and>
   (\<forall>(n, v) \<in> set hs. map_of h (map ascii_lower n) = Some v) \<and>
   (\<forall>n v. map_of h n = Some v \<longrightarrow> map_of vals n = Some v \<or> (\<exists>m. (m, v) \<in> set hs \<and> map ascii_lower m = n))"
proof (induction hs vals rule: add_headers.induct)
  case (2 name val rest vals)
  let ?k = "map ascii_lower name"
  from 2(2) have step: "valid_header_name name" "\<not> breaks_line val" "?k \<notin> keys vals"
      "add_headers rest (AList.update ?k val vals) = Inr h"
    by (auto split: if_splits)
  from 2(1)[OF _ _ _ step(4)] step have IH:
      "\<forall>n v. map_of (AList.update ?k val vals) n = Some v \<longrightarrow> map_of h n = Some v"
      "\<forall>(n, v) \<in> set rest. map_of h (map ascii_lower n) = Some v"
      "\<forall>n v. map_of h n = Some v \<longrightarrow> map_of (AList.update ?k val vals) n = Some v \<or> (\<exists>m. (m, v) \<in> set rest \<and> map ascii_lower m = n)"
    by auto
  have "map_of h ?k = Some val" using IH(1) by simp
  moreover have "\<forall>n v. map_of vals n = Some v \<longrightarrow> map_of h n = Some v"
    using IH(1) step(3) by (metis map_of_in_keys map_of_update fun_upd_other)
  moreover have "\<forall>n v. map_of h n = Some v \<longrightarrow> map_of vals n = Some v \<or> (\<exists>m. (m, v) \<in> set ((name, val) # rest) \<and> map ascii_lower m = n)"
  proof (intro allI impI)
    fix n v assume "map_of h n = Some v"
    with IH(3) have "map_of (AList.update ?k val vals) n = Some v \<or> (\<exists>m. (m, v) \<in> set rest \<and> map ascii_lower m = n)"
      by blast
    then show "map_of vals n = Some v \<or> (\<exists>m. (m, v) \<in> set ((name, val) # rest) \<and> map ascii_lower m = n)"
      by (cases "n = ?k") auto
  qed
  ultimately show ?case using IH(2) by auto
qed simp

text \<open>
  Accepted headers form a case-insensitive map that a lookup reads back: every header that was given is
  found under its name in any case with its value, every header found was given, and no accepted value can
  break a header line.
\<close>

theorem headers_read_back:
  assumes "headers_new hs = Inr h"
  shows "((n, v) \<in> set hs \<longrightarrow> headers_get (map ascii_lower n) h = Some v \<and> headers_get n h = Some v) \<and>
    (headers_get n h = Some v \<longrightarrow> (\<exists>m. (m, v) \<in> set hs \<and> map ascii_lower m = map ascii_lower n) \<and> \<not> breaks_line v)"
proof -
  have "headers_ok h" by (rule headers_new_ok[OF assms])
  moreover have "map_of h k = Some v \<Longrightarrow> (k, v) \<in> set h" for k by (rule map_of_SomeD)
  ultimately have "\<not> breaks_line v" if "map_of h k = Some v" for k using that by (auto simp: headers_ok_def)
  then show ?thesis
    using add_headers_get[of hs "[]" h] assms by (auto simp: headers_new_def headers_get_def comp_def)
qed

subsection \<open>Accept-Language normalisation\<close>

lemma split_on_join:
  "xs \<noteq> [] \<Longrightarrow> \<forall>x \<in> set xs. c \<notin> set x \<Longrightarrow> split_on c (join_with [c] xs) = xs"
proof (induction "[c]" xs rule: join_with.induct)
  case (2 x)
  then show ?case by (simp add: split_on_free)
next
  case (3 x y xs)
  then show ?case using split_on_append[of c x "join_with [c] (y # xs)"] by simp
qed simp

lemma split_on_chars: "x \<in> set (split_on c s) \<Longrightarrow> c \<notin> set x"
proof (induction s arbitrary: x)
  case (Cons d s)
  then show ?case by (cases "split_on c s") (auto split: if_splits)
qed simp

lemma trim_matches_id: "set s \<inter> set cs = {} \<Longrightarrow> trim_matches cs s = s"
proof -
  have "dropWhile (\<lambda>c. c \<in> set cs) t = t" if "set t \<inter> set cs = {}" for t :: string
    using that by (cases t) auto
  then show "set s \<inter> set cs = {} \<Longrightarrow> trim_matches cs s = s" by (simp add: trim_matches_def)
qed

lemma join_split: "join_with [c] (split_on c s) = s"
proof (induction s)
  case (Cons d s)
  then show ?case by (cases "split_on c s" rule: list.exhaust; cases "tl (split_on c s)") auto
qed simp

lemma set_join_with: "set (join_with [c] us) \<subseteq> insert c (\<Union> (set (map set us)))"
  by (induction "[c]" us rule: join_with.induct) auto

lemma valid_language_tag_chars:
  assumes "valid_language_tag t" "d \<in> set t"
  shows "is_ascii_alphanumeric d \<or> d = CHR ''-''"
proof -
  have parts: "\<forall>u \<in> set (split_on (CHR ''-'') t). \<forall>c \<in> set u. is_ascii_alphanumeric c"
    using assms(1)
    by (auto simp: valid_language_tag_def list_all_iff is_ascii_alphanumeric_def split: list.splits)
  have "set t \<subseteq> insert (CHR ''-'') (\<Union> (set (map set (split_on (CHR ''-'') t))))"
    using set_join_with[of "CHR ''-''" "split_on (CHR ''-'') t"] unfolding join_split .
  with assms(2) parts show ?thesis by auto
qed

lemma valid_language_tag_free:
  assumes "valid_language_tag t"
  shows "CHR '','' \<notin> set t" "set t \<inter> set optional_blanks = {}"
proof -
  have none: "list_all (\<lambda>c. \<not> is_ascii_alphanumeric c \<and> c \<noteq> CHR ''-'') (CHR '','' # optional_blanks)" by code_simp
  then show "CHR '','' \<notin> set t" using valid_language_tag_chars[OF assms] by auto
  show "set t \<inter> set optional_blanks = {}"
    using valid_language_tag_chars[OF assms] none unfolding list_all_iff by auto
qed

lemma valid_tags_kept:
  assumes "list_all valid_language_tag tags"
  shows "\<forall>x \<in> set tags. CHR '','' \<notin> set x" "map (trim_matches optional_blanks) tags = tags"
proof -
  show "\<forall>x \<in> set tags. CHR '','' \<notin> set x" using assms valid_language_tag_free(1) by (simp add: list_all_iff)
  show "map (trim_matches optional_blanks) tags = tags"
    using assms valid_language_tag_free(2) trim_matches_id by (intro map_idI) (simp add: list_all_iff)
qed

lemma normalized_tags:
  assumes "normalize_accept_language s = Some t"
  obtains tags where "list_all valid_language_tag tags" "t = join_with '','' tags" "split_on (CHR '','') t = tags" "tags \<noteq> []"
proof -
  define tags where "tags = map (trim_matches optional_blanks) (split_on (CHR '','') s)"
  from assms have tags: "list_all valid_language_tag tags" "t = join_with '','' tags" "tags \<noteq> []"
    by (auto simp: normalize_accept_language_def tags_def[symmetric] Let_def split: if_splits)
  moreover have "split_on (CHR '','') t = tags"
    using split_on_join[OF tags(3) valid_tags_kept(1)[OF tags(1)]] tags(2) by simp
  ultimately show ?thesis using that by blast
qed

lemma normalize_idem: "normalize_accept_language s = Some t \<Longrightarrow> normalize_accept_language t = Some t"
  by (erule normalized_tags) (simp add: normalize_accept_language_def Let_def valid_tags_kept(2))

text \<open>
  Normalising an accepted language list is idempotent, and the result is a comma-separated list of valid
  language tags and nothing else: no weights, no blanks.
\<close>

theorem accept_language_normal_form:
  assumes "normalize_accept_language s = Some t"
  shows "normalize_accept_language t = Some t \<and> list_all valid_language_tag (split_on (CHR '','') t) \<and>
    (\<forall>c \<in> set t. is_ascii_alphanumeric c \<or> c = CHR ''-'' \<or> c = CHR '','')"
proof -
  obtain tags where tags: "list_all valid_language_tag tags" "t = join_with '','' tags" "split_on (CHR '','') t = tags"
    by (rule normalized_tags[OF assms]) blast
  have "normalize_accept_language t = Some t" by (rule normalize_idem[OF assms])
  moreover have "set t \<subseteq> insert (CHR '','') (\<Union> (set (map set tags)))" unfolding tags(2) by (rule set_join_with)
  then have "\<forall>c \<in> set t. is_ascii_alphanumeric c \<or> c = CHR ''-'' \<or> c = CHR '',''"
    using valid_language_tag_chars tags(1) by (auto simp: list_all_iff)
  ultimately show ?thesis using tags(1,3) by simp
qed


subsection \<open>What the constructors guarantee\<close>

text \<open>The values of each type that the public functions can build.\<close>

inductive viewport_built :: "viewport \<Rightarrow> bool" where
  viewport_made: "viewport_new w h = Inr v \<Longrightarrow> viewport_built v"
| viewport_scaled: "viewport_built v \<Longrightarrow> device_scale_factor x v = Inr v' \<Longrightarrow> viewport_built v'"

inductive geolocation_built :: "geolocation \<Rightarrow> bool" where
  geolocation_made: "geolocation_new lat lon = Inr g \<Longrightarrow> geolocation_built g"
| geolocation_refined: "geolocation_built g \<Longrightarrow> geolocation_accuracy x g = Inr g' \<Longrightarrow> geolocation_built g'"

inductive user_agent_built :: "user_agent_override \<Rightarrow> bool" where
  agent_made: "user_agent_new s = Inr u \<Longrightarrow> user_agent_built u"
| agent_language: "user_agent_built u \<Longrightarrow> accept_language s u = Inr u' \<Longrightarrow> user_agent_built u'"
| agent_platform: "user_agent_built u \<Longrightarrow> user_agent_platform s u = Inr u' \<Longrightarrow> user_agent_built u'"

inductive route_options_built :: "target_route_options \<Rightarrow> bool" where
  route_default: "route_options_built default_route_options"
| route_viewport: "route_options_built r \<Longrightarrow> viewport_built v \<Longrightarrow> route_options_built (r\<lparr>to_viewport := Some v\<rparr>)"
| route_locale: "route_options_built r \<Longrightarrow> with_locale s r = Inr r' \<Longrightarrow> route_options_built r'"
| route_timezone: "route_options_built r \<Longrightarrow> with_timezone s r = Inr r' \<Longrightarrow> route_options_built r'"
| route_geolocation: "route_options_built r \<Longrightarrow> geolocation_built g \<Longrightarrow> route_options_built (r\<lparr>to_geolocation := Some g\<rparr>)"
| route_agent: "route_options_built r \<Longrightarrow> user_agent_built u \<Longrightarrow> route_options_built (r\<lparr>to_user_agent := Some u\<rparr>)"
| route_headers: "route_options_built r \<Longrightarrow> headers_new hs = Inr h \<Longrightarrow> route_options_built (r\<lparr>to_http_headers := h\<rparr>)"

inductive context_options_built :: "context_options \<Rightarrow> bool" where
  context_default: "context_options_built default_context_options"
| context_route: "context_options_built c \<Longrightarrow> route_options_built r \<Longrightarrow> context_options_built (c\<lparr>co_target_route := r\<rparr>)"
| context_permission: "context_options_built c \<Longrightarrow> context_options_built (add_permission p c)"
| context_https: "context_options_built c \<Longrightarrow> context_options_built (c\<lparr>co_ignore_https_errors := b\<rparr>)"

definition all_option :: "('a \<Rightarrow> bool) \<Rightarrow> 'a option \<Rightarrow> bool" where
  "all_option P x = (case x of None \<Rightarrow> True | Some y \<Rightarrow> P y)"

lemma all_option_simps [simp]: "all_option P None" "all_option P (Some y) = P y"
  by (simp_all add: all_option_def)

definition wf_viewport :: "viewport \<Rightarrow> bool" where
  "wf_viewport v \<longleftrightarrow> vp_width v \<noteq> 0 \<and> vp_height v \<noteq> 0 \<and> vp_scale v > 0"

definition wf_geolocation :: "geolocation \<Rightarrow> bool" where
  "wf_geolocation g \<longleftrightarrow>
     - 90 \<le> gl_latitude g \<and> gl_latitude g \<le> 90 \<and> - 180 \<le> gl_longitude g \<and> gl_longitude g \<le> 180 \<and> gl_accuracy g \<ge> 0"

definition wf_user_agent :: "user_agent_override \<Rightarrow> bool" where
  "wf_user_agent u \<longleftrightarrow>
     nonempty_single_line (ua_user_agent u) \<and> all_option nonempty_single_line (ua_platform u) \<and>
     all_option (\<lambda>l. normalize_accept_language l = Some l) (ua_accept_language u)"

definition wf_route_options :: "target_route_options \<Rightarrow> bool" where
  "wf_route_options r \<longleftrightarrow>
     all_option wf_viewport (to_viewport r) \<and> all_option valid_locale (to_locale r) \<and>
     all_option valid_timezone (to_timezone r) \<and> all_option wf_geolocation (to_geolocation r) \<and>
     all_option wf_user_agent (to_user_agent r) \<and> headers_ok (to_http_headers r)"

definition permission_key :: "permission_override \<Rightarrow> permission_name \<times> string option" where
  "permission_key p = (pm_name p, pm_origin p)"

definition wf_context_options :: "context_options \<Rightarrow> bool" where
  "wf_context_options c \<longleftrightarrow> wf_route_options (co_target_route c) \<and> distinct (map permission_key (co_permissions c))"

lemma filtered_Inr: "filtered ok e x = Inr r \<longleftrightarrow> x = Finite r \<and> ok r"
  by (cases x) (auto simp: filtered_def canonical_finite_def)

lemma viewport_built_wf: "viewport_built v \<Longrightarrow> wf_viewport v"
  by (induction rule: viewport_built.induct)
    (auto simp: viewport_new_def wf_viewport_def device_scale_factor_def and_then_Inr filtered_Inr split: if_splits)

lemma geolocation_built_wf: "geolocation_built g \<Longrightarrow> wf_geolocation g"
  by (induction rule: geolocation_built.induct)
    (auto simp: geolocation_new_def wf_geolocation_def geolocation_accuracy_def and_then_Inr filtered_Inr)

lemma user_agent_built_wf: "user_agent_built u \<Longrightarrow> wf_user_agent u"
  by (induction rule: user_agent_built.induct)
    (auto simp: user_agent_new_def wf_user_agent_def accept_language_def user_agent_platform_def normalize_idem
      split: if_splits option.splits)

lemma route_options_built_wf: "route_options_built r \<Longrightarrow> wf_route_options r"
proof (induction rule: route_options_built.induct)
  case route_default
  then show ?case by (simp add: wf_route_options_def default_route_options_def headers_ok_def)
qed (auto simp: wf_route_options_def with_locale_def with_timezone_def viewport_built_wf geolocation_built_wf
    user_agent_built_wf headers_new_ok split: if_splits)

lemma keys_put_permission: "permission_key ` set (put_permission p ps) = insert (permission_key p) (permission_key ` set ps)"
  by (induction p ps rule: put_permission.induct) (auto simp: same_permission_def permission_key_def)

lemma distinct_put_permission:
  "distinct (map permission_key ps) \<Longrightarrow> distinct (map permission_key (put_permission p ps))"
proof (induction p ps rule: put_permission.induct)
  case (2 p q qs)
  show ?case
  proof (cases "same_permission q p")
    case True
    then have "permission_key q = permission_key p" by (simp add: same_permission_def permission_key_def)
    with 2(2) True show ?thesis by auto
  next
    case False
    then have "permission_key q \<noteq> permission_key p" by (simp add: same_permission_def permission_key_def)
    moreover have "permission_key ` set (put_permission p qs) = insert (permission_key p) (permission_key ` set qs)"
      by (rule keys_put_permission)
    ultimately show ?thesis using 2 False by auto
  qed
qed simp

text \<open>
  C39: Whatever the order of its builder calls, a context configuration that the public functions accept is
  well formed: a viewport with positive sides and scale, coordinates in range, a user agent, a platform and
  header values without line breaks, a normalised language list, locale and time zone of the allowed
  characters and length, header names that are lower-case tokens without repetition, and at most one setting
  per permission and origin.
\<close>

theorem built_options_well_formed: "context_options_built c \<Longrightarrow> wf_context_options c"
proof (induction rule: context_options_built.induct)
  case context_default
  then show ?case
    using route_options_built_wf[OF route_default] by (simp add: wf_context_options_def default_context_options_def)
next
  case (context_permission c p)
  then show ?case by (simp add: wf_context_options_def add_permission_def distinct_put_permission)
qed (auto simp: wf_context_options_def route_options_built_wf)

theorem built_options_well_formed_witness:
  "wf_context_options (default_context_options
     \<lparr>co_target_route := default_route_options\<lparr>to_viewport := Some \<lparr>vp_width = 800, vp_height = 600, vp_scale = 2\<rparr>\<rparr>\<rparr>)"
proof (rule built_options_well_formed)
  have "viewport_new 800 600 = Inr \<lparr>vp_width = 800, vp_height = 600, vp_scale = 1\<rparr>" by code_simp
  then have "viewport_built \<lparr>vp_width = 800, vp_height = 600, vp_scale = 1\<rparr>" by (rule viewport_made)
  moreover have "device_scale_factor (Finite 2) \<lparr>vp_width = 800, vp_height = 600, vp_scale = 1\<rparr> =
      Inr \<lparr>vp_width = 800, vp_height = 600, vp_scale = 2\<rparr>" by code_simp
  ultimately have "viewport_built \<lparr>vp_width = 800, vp_height = 600, vp_scale = 2\<rparr>" by (rule viewport_scaled)
  then show "context_options_built (default_context_options
     \<lparr>co_target_route := default_route_options\<lparr>to_viewport := Some \<lparr>vp_width = 800, vp_height = 600, vp_scale = 2\<rparr>\<rparr>\<rparr>)"
    by (intro context_route context_default route_viewport route_default)
qed

text \<open>The setting of a permission after a sequence of overrides is the one given last.\<close>

definition permission_at :: "permission_name \<times> string option \<Rightarrow> permission_override list \<Rightarrow> permission_setting option" where
  "permission_at k ps = map_option pm_setting (find (\<lambda>p. permission_key p = k) ps)"

lemma permission_at_put:
  "permission_at k (put_permission p ps) = (if permission_key p = k then Some (pm_setting p) else permission_at k ps)"
  by (induction p ps rule: put_permission.induct) (auto simp: permission_at_def same_permission_def permission_key_def)

lemma permission_at_append:
  "permission_at k (ps @ [p]) =
     (case permission_at k ps of None \<Rightarrow> if permission_key p = k then Some (pm_setting p) else None | Some x \<Rightarrow> Some x)"
  by (induction ps) (auto simp: permission_at_def)

lemma last_permission_wins:
  "permission_at k (co_permissions (fold add_permission ps c)) =
     (case permission_at k (rev ps) of None \<Rightarrow> permission_at k (co_permissions c) | Some x \<Rightarrow> Some x)"
proof (induction ps arbitrary: c)
  case (Cons p ps)
  show ?case using Cons.IH[of "add_permission p c"]
    by (auto simp: add_permission_def permission_at_put permission_at_append split: option.splits)
qed (simp add: permission_at_def)

theorem headers_read_back_witness:
  "headers_get ''X-TEST'' [(''x-test'', ''1'')] = Some ''1'' \<and> \<not> breaks_line ''1''"
proof -
  have "headers_new [(''X-Test'', ''1'')] = Inr [(''x-test'', ''1'')]" by code_simp
  moreover have "headers_get ''X-TEST'' [(''x-test'', ''1'')] = Some ''1''" by code_simp
  ultimately show ?thesis using headers_read_back[of "[(''X-Test'', ''1'')]" "[(''x-test'', ''1'')]" "''X-TEST''" "''1''"] by blast
qed

theorem accept_language_normal_form_witness:
  "normalize_accept_language ''de-DE,en'' = Some ''de-DE,en''"
proof -
  have "normalize_accept_language '' de-DE , en'' = Some ''de-DE,en''" by code_simp
  from accept_language_normal_form[OF this] show ?thesis by blast
qed

end
