(* ===== verification/Launch.thy ===== *)
theory Launch
  imports ContextOptions DaemonProtocol
begin

text \<open>
  Launching a browser process (\<open>src/src/runtime/launch.rs\<close>) and reading its endpoint file
  (\<open>parse_devtools_active_port\<close> of \<open>src/src/browser/finder.rs\<close>). Paths and arguments are byte strings; the
  file system, the process and the connection answer as inputs, and the process that is started and killed
  is recorded.
\<close>

declare map_of_eq_Some_iff [simp del] and Some_eq_map_of_iff [simp del]

subsection \<open>Lines and unsigned integers\<close>

definition strip_cr :: "string \<Rightarrow> string" where
  "strip_cr l = (if str_ends_with [CHR 0x0D] l then butlast l else l)"

text \<open>\<open>str::lines\<close>: a carriage return goes only with the line feed after it, and no line follows the last feed.\<close>

definition str_lines :: "string \<Rightarrow> string list" where
  "str_lines s =
     (let parts = split_on (CHR 0x0A) s
      in map strip_cr (butlast parts) @ (if List.last parts = [] then [] else [List.last parts]))"

datatype int_parse_error = IntEmpty | IntInvalidDigit | IntPosOverflow

definition show_int_parse_error :: "int_parse_error \<Rightarrow> string" where
  "show_int_parse_error e =
     (case e of IntEmpty \<Rightarrow> ''cannot parse integer from empty string''
      | IntInvalidDigit \<Rightarrow> ''invalid digit found in string''
      | IntPosOverflow \<Rightarrow> ''number too large to fit in target type'')"

fun digits_below :: "nat \<Rightarrow> string \<Rightarrow> nat \<Rightarrow> int_parse_error + nat" where
  "digits_below bound [] acc = Inr acc"
| "digits_below bound (c # cs) acc =
     (case digit_of c of
        None \<Rightarrow> Inl IntInvalidDigit
      | Some d \<Rightarrow> if acc * 10 + d < bound then digits_below bound cs (acc * 10 + d) else Inl IntPosOverflow)"

definition parse_unsigned :: "nat \<Rightarrow> string \<Rightarrow> int_parse_error + nat" where
  "parse_unsigned bound s =
     (if s = [] then Inl IntEmpty
      else if s = ''+'' \<or> s = ''-'' then Inl IntInvalidDigit
      else if hd s = CHR ''+'' then digits_below bound (tl s) 0
      else digits_below bound s 0)"

lemma digits_below_append:
  "digits_below b (s @ t) acc = and_then (digits_below b s acc) (digits_below b t)"
  by (induction b s acc rule: digits_below.induct) (auto simp: and_then_def split: option.splits)

lemma digits_below_show: "n < b \<Longrightarrow> digits_below b (show_nat n) 0 = Inr n"
proof (induction n rule: show_nat.induct)
  case (1 n)
  show ?case
  proof (cases "n < 10")
    case True
    then show ?thesis using 1(2) by (simp add: show_nat.simps[of n] digit_of_char)
  next
    case False
    with 1 have "digits_below b (show_nat (n div 10)) 0 = Inr (n div 10)" by simp
    with False "1.prems" show ?thesis
      by (simp add: show_nat.simps[of n] digits_below_append digit_of_char and_then_def)
  qed
qed

lemma parse_unsigned_show: "n < b \<Longrightarrow> parse_unsigned b (show_nat n) = Inr n"
proof -
  assume n: "n < b"
  have "CHR ''+'' \<notin> set (show_nat n)" "CHR ''-'' \<notin> set (show_nat n)" by (rule show_nat_avoids; simp)+
  moreover from this have "hd (show_nat n) \<noteq> CHR ''+''" using hd_in_set[OF show_nat_nonempty] by metis
  ultimately have "hd (show_nat n) \<noteq> CHR ''+''" "show_nat n \<noteq> ''+''" "show_nat n \<noteq> ''-''" by auto
  then show ?thesis by (simp add: parse_unsigned_def show_nat_nonempty digits_below_show[OF n])
qed

subsection \<open>The endpoint file\<close>

record devtools_info =
  dt_port :: nat
  dt_ws_path :: string

text \<open>\<open>content\<close> is the result of reading the file.\<close>

definition parse_devtools_active_port :: "string + string \<Rightarrow> string + devtools_info" where
  "parse_devtools_active_port content =
     (case content of
        Inl e \<Rightarrow> Inl (''cannot read DevToolsActivePort: '' @ e)
      | Inr text \<Rightarrow>
          (case str_lines text of
             [] \<Rightarrow> Inl ''DevToolsActivePort file is empty''
           | l # ls \<Rightarrow>
               (case parse_unsigned 65536 (str_trim l) of
                  Inl e \<Rightarrow> Inl (''invalid port number: '' @ show_int_parse_error e)
                | Inr port \<Rightarrow> Inr \<lparr>dt_port = port, dt_ws_path = (case ls of [] \<Rightarrow> [] | p # _ \<Rightarrow> str_trim p)\<rparr>)))"

definition debug_endpoint :: "devtools_info \<Rightarrow> string" where
  "debug_endpoint i =
     (if dt_ws_path i = [] then ''127.0.0.1:'' @ show_nat (dt_port i)
      else ''ws://127.0.0.1:'' @ show_nat (dt_port i) @ dt_ws_path i)"

subsection \<open>The command\<close>

record launch_options =
  lp_executable :: "string option"
  lp_user_data_dir :: "string option"
  lp_headless :: bool
  lp_proxy :: "proxy_options option"
  lp_args :: "string list"
  lp_timeout :: nat

definition default_launch_options :: launch_options where
  "default_launch_options =
     \<lparr>lp_executable = None, lp_user_data_dir = None, lp_headless = False, lp_proxy = None, lp_args = [], lp_timeout = 30000000000\<rparr>"

definition typed_flags :: "string list" where
  "typed_flags =
     [''--headless'', ''--no-headless'', ''--proxy-server'', ''--proxy-bypass-list'', ''--no-proxy-server'',
      ''--proxy-pac-url'', ''--proxy-auto-detect'']"

definition changes_typed_launch_truth :: "string \<Rightarrow> bool" where
  "changes_typed_launch_truth arg =
     list_ex (\<lambda>flag. utf8_lossy arg = flag \<or> str_starts_with (flag @ ''='') (utf8_lossy arg)) typed_flags"

definition validate_raw_arguments :: "launch_options \<Rightarrow> configuration_failure + unit" where
  "validate_raw_arguments opts =
     (if list_ex changes_typed_launch_truth (lp_args opts) then Inl ConflictingTypedLaunchArgument else Inr ())"

record launch_command =
  lc_executable :: string
  lc_args :: "string list"

definition proxy_arguments :: "proxy_options \<Rightarrow> string list" where
  "proxy_arguments p =
     (''--proxy-server='' @ px_server p)
     # (if px_bypass_list p = [] then [] else [''--proxy-bypass-list='' @ join_with '','' (px_bypass_list p)])"

definition typed_arguments :: "launch_options \<Rightarrow> string list" where
  "typed_arguments opts =
     (if lp_headless opts then [''--headless=new''] else []) @ (case lp_proxy opts of None \<Rightarrow> [] | Some p \<Rightarrow> proxy_arguments p)"

definition fixed_arguments :: "string \<Rightarrow> string list" where
  "fixed_arguments dir =
     [''--no-first-run'', ''--no-default-browser-check'', ''--remote-debugging-port=0'', ''--user-data-dir='' @ utf8_lossy dir,
      ''about:blank'']"

definition build_command :: "string \<Rightarrow> launch_options \<Rightarrow> string \<Rightarrow> configuration_failure + launch_command" where
  "build_command executable opts dir =
     and_then (validate_raw_arguments opts) (\<lambda>_.
     Inr \<lparr>lc_executable = executable, lc_args = lp_args opts @ typed_arguments opts @ fixed_arguments dir\<rparr>)"

subsection \<open>Waiting for the endpoint\<close>

text \<open>
  One round of the loop: whether the process has exited (its status, or the failure to ask), the port file
  (\<open>None\<close> if it does not exist), and the time after that.
\<close>

record endpoint_poll =
  ep_status :: "string + string option"
  ep_file :: "(string + devtools_info) option"
  ep_now :: nat

definition launch_error :: "string \<Rightarrow> rt_error" where
  "launch_error m = with_message m (operation_error ''launch browser'' Preparation)"

fun await_endpoint :: "nat \<Rightarrow> string \<Rightarrow> string option \<Rightarrow> endpoint_poll list \<Rightarrow> (rt_error + string) option" where
  "await_endpoint deadline file parse_error [] = None"
| "await_endpoint deadline file parse_error (p # ps) =
     (case ep_status p of
        Inl e \<Rightarrow> Some (Inl (from_io_error id e))
      | Inr (Some status) \<Rightarrow> Some (Inl (launch_error (''browser exited before publishing DevToolsActivePort: '' @ status)))
      | Inr None \<Rightarrow>
          (case ep_file p of
             Some (Inr info) \<Rightarrow> Some (Inr (debug_endpoint info))
           | f \<Rightarrow>
               let parse_error' = (case f of Some (Inl e) \<Rightarrow> Some e | _ \<Rightarrow> parse_error)
               in if ep_now p \<ge> deadline
                  then Some (Inl (launch_error (''timed out waiting for '' @ file
                         @ (case parse_error' of None \<Rightarrow> [] | Some e \<Rightarrow> ''; last parse error: '' @ e))))
                  else await_endpoint deadline file parse_error' ps))"

subsection \<open>Launching\<close>

text \<open>The replies of the environment; a failed kill tells whether its kind is \<open>InvalidInput\<close>.\<close>

record launch_env =
  le_find :: "string + string"
  le_create_dir :: "string \<Rightarrow> string option"
  le_temp_dir :: "string + string"
  le_spawn :: "launch_command \<Rightarrow> string option"
  le_start :: nat
  le_polls :: "endpoint_poll list"
  le_kill :: "(bool \<times> string) option"
  le_connect :: "bool \<Rightarrow> string \<Rightarrow> string option"

text \<open>\<open>Killed\<close> is the request to kill the child; its own failure only shows in the error.\<close>

datatype launch_effect = Spawned launch_command | Killed

record launched_browser =
  lb_profile_path :: string
  lb_temporary :: bool

definition terminate_child :: "launch_env \<Rightarrow> string option" where
  "terminate_child env = (case le_kill env of None \<Rightarrow> None | Some (invalid_input, e) \<Rightarrow> if invalid_input then None else Some e)"

definition kill_after :: "launch_env \<Rightarrow> rt_error \<Rightarrow> rt_error" where
  "kill_after env e =
     (case terminate_child env of
        None \<Rightarrow> e
      | Some m \<Rightarrow> with_cleanup_failure \<lparr>cf_resource = ''launched browser process'', cf_message = m\<rparr> e)"

definition launch_profile :: "launch_env \<Rightarrow> launch_options \<Rightarrow> rt_error + launched_browser" where
  "launch_profile env opts =
     (case lp_user_data_dir opts of
        Some path \<Rightarrow>
          (case le_create_dir env path of
             Some e \<Rightarrow> Inl (from_io_error id e)
           | None \<Rightarrow> Inr \<lparr>lb_profile_path = path, lb_temporary = False\<rparr>)
      | None \<Rightarrow>
          (case le_temp_dir env of
             Inl e \<Rightarrow> Inl (from_io_error id e)
           | Inr path \<Rightarrow> Inr \<lparr>lb_profile_path = path, lb_temporary = True\<rparr>))"

definition settle_launch ::
  "launch_env \<Rightarrow> launched_browser \<Rightarrow> launch_command \<Rightarrow> rt_error + string \<Rightarrow> (rt_error + launched_browser) \<times> launch_effect list" where
  "settle_launch env launched command endpoint =
     (case endpoint of
        Inl e \<Rightarrow> (Inl (kill_after env e), [Spawned command, Killed])
      | Inr url \<Rightarrow>
          (case le_connect env (str_starts_with ''ws://'' url) url of
             Some err \<Rightarrow> (Inl (kill_after env (from_cdp_error id err)), [Spawned command, Killed])
           | None \<Rightarrow> (Inr launched, [Spawned command])))"

text \<open>\<open>None\<close> while the endpoint is still awaited; the result comes with the effects on the process.\<close>

definition launch_spawned :: "launch_env \<Rightarrow> launch_options \<Rightarrow> launched_browser \<Rightarrow> launch_command
   \<Rightarrow> ((rt_error + launched_browser) \<times> launch_effect list) option" where
  "launch_spawned env opts launched command =
     map_option (settle_launch env launched command)
       (await_endpoint (le_start env + lp_timeout opts) (utf8_lossy (lb_profile_path launched @ ''/DevToolsActivePort'')) None (le_polls env))"

definition launch_browser :: "launch_env \<Rightarrow> launch_options \<Rightarrow> ((rt_error + launched_browser) \<times> launch_effect list) option" where
  "launch_browser env opts =
     (case validate_raw_arguments opts of
        Inl f \<Rightarrow> Some (Inl (configuration_error ''launch browser'' f), [])
      | Inr _ \<Rightarrow>
          (case (case lp_executable opts of
                   Some path \<Rightarrow> Inr path
                 | None \<Rightarrow> (case le_find env of
                     Inl e \<Rightarrow> Inl (with_message e (operation_error ''find browser executable'' Preparation))
                   | Inr path \<Rightarrow> Inr path)) of
             Inl e \<Rightarrow> Some (Inl e, [])
           | Inr executable \<Rightarrow>
               (case launch_profile env opts of
                  Inl e \<Rightarrow> Some (Inl e, [])
                | Inr launched \<Rightarrow>
                    (case build_command executable opts (lb_profile_path launched) of
                       Inl f \<Rightarrow> Some (Inl (configuration_error ''launch browser'' f), [])
                     | Inr command \<Rightarrow>
                         (case le_spawn env command of
                            Some e \<Rightarrow> Some (Inl (from_io_error id e), [])
                          | None \<Rightarrow> launch_spawned env opts launched command)))))"


subsection \<open>Effects and arguments of a launch\<close>

lemma settle_launch_effects:
  "snd (settle_launch env b c endpoint) = (if isl (fst (settle_launch env b c endpoint)) then [Spawned c, Killed] else [Spawned c])"
  by (simp add: settle_launch_def split: sum.splits option.splits)

lemma launch_spawned_effects:
  assumes "launch_spawned env opts b c = Some (r, eff)"
  shows "eff = (if isl r then [Spawned c, Killed] else [Spawned c])"
proof -
  obtain endpoint where "settle_launch env b c endpoint = (r, eff)" using assms by (auto simp: launch_spawned_def)
  then show ?thesis using settle_launch_effects[of env b c endpoint] by simp
qed

lemma build_command_Inr:
  "build_command executable opts dir = Inr c \<longleftrightarrow>
     (\<forall>a \<in> set (lp_args opts). \<not> changes_typed_launch_truth a) \<and>
     c = \<lparr>lc_executable = executable, lc_args = lp_args opts @ typed_arguments opts @ fixed_arguments dir\<rparr>"
  by (auto simp: build_command_def and_then_Inr validate_raw_arguments_def list_ex_iff)

lemma typed_flag_kept:
  "flag \<in> set typed_flags \<Longrightarrow> changes_typed_launch_truth (flag @ ''='' @ v)"
proof -
  assume flag: "flag \<in> set typed_flags"
  have "list_all (\<lambda>f. list_all (\<lambda>c. (of_char c :: nat) < 128) (f @ ''='')) typed_flags" by code_simp
  with flag have "\<forall>c \<in> set (flag @ ''=''). (of_char c :: nat) < 128" unfolding list_all_iff by blast
  then have "utf8_lossy ((flag @ ''='') @ v) = (flag @ ''='') @ utf8_lossy v" by (rule utf8_lossy_ascii_append)
  then show ?thesis using flag
    unfolding changes_typed_launch_truth_def list_ex_iff str_starts_with_iff by (metis append.assoc)
qed

lemma typed_arguments_are_typed: "a \<in> set (typed_arguments opts) \<Longrightarrow> changes_typed_launch_truth a"
  using typed_flag_kept[of "''--headless''" "''new''"] typed_flag_kept[of "''--proxy-server''"]
    typed_flag_kept[of "''--proxy-bypass-list''"]
  by (auto simp: typed_arguments_def proxy_arguments_def typed_flags_def split: if_splits option.splits)

lemma fixed_arguments_are_not: "a \<in> set (fixed_arguments dir) \<Longrightarrow> \<not> changes_typed_launch_truth a"
proof -
  have plain: "list_all (\<lambda>a. \<not> changes_typed_launch_truth a)
      [''--no-first-run'', ''--no-default-browser-check'', ''--remote-debugging-port=0'', ''about:blank'']"
    by code_simp
  have "list_all (\<lambda>c. (of_char c :: nat) < 128) ''--user-data-dir=''" by code_simp
  then have lossy: "utf8_lossy (''--user-data-dir='' @ v) = ''--user-data-dir='' @ utf8_lossy v" for v
    unfolding list_all_iff by (rule utf8_lossy_ascii_append)
  have "\<not> changes_typed_launch_truth (''--user-data-dir='' @ v)" for v
    unfolding changes_typed_launch_truth_def lossy typed_flags_def
    by (simp add: str_starts_with_def)
  then show "a \<in> set (fixed_arguments dir) \<Longrightarrow> \<not> changes_typed_launch_truth a"
    using plain by (auto simp: fixed_arguments_def)
qed

text \<open>
  C40: A launch starts at most one process. If it fails after that the process is killed, and if it fails
  before nothing was started; the arguments of the started process that spell a headless or proxy switch with two
  dashes are exactly the typed ones, whatever raw arguments were given.
\<close>

theorem launch_leaves_no_process:
  assumes "launch_browser env opts = Some (r, eff)"
  shows "eff = [] \<and> isl r \<or>
    (\<exists>c. eff = (if isl r then [Spawned c, Killed] else [Spawned c]) \<and>
       filter changes_typed_launch_truth (lc_args c) = typed_arguments opts)"
proof -
  have "filter changes_typed_launch_truth (lp_args opts @ typed_arguments opts @ fixed_arguments dir) = typed_arguments opts"
    if "\<forall>a \<in> set (lp_args opts). \<not> changes_typed_launch_truth a" for dir
    using that typed_arguments_are_typed fixed_arguments_are_not by (simp add: filter_True filter_False)
  then have args: "filter changes_typed_launch_truth (lc_args c) = typed_arguments opts"
    if "build_command executable opts dir = Inr c" for executable dir c
    using that by (simp add: build_command_Inr)
  from assms show ?thesis
    unfolding launch_browser_def
    by (auto split: sum.splits option.splits dest!: launch_spawned_effects dest: args)
      (metis sum.disc(1))+
qed

definition example_env :: launch_env where
  "example_env =
     \<lparr>le_find = Inr ''/usr/bin/chrome'', le_create_dir = (\<lambda>_. None), le_temp_dir = Inr ''/tmp/browserkit-1'', le_spawn = (\<lambda>_. None),
      le_start = 0,
      le_polls = [\<lparr>ep_status = Inr None, ep_file = None, ep_now = 1\<rparr>,
                  \<lparr>ep_status = Inr None, ep_file = Some (Inr \<lparr>dt_port = 9, dt_ws_path = ''/x''\<rparr>), ep_now = 2\<rparr>],
      le_kill = None, le_connect = (\<lambda>_ _. Some ''refused'')\<rparr>"

definition example_launch_options :: launch_options where
  "example_launch_options =
     \<lparr>lp_executable = None, lp_user_data_dir = None, lp_headless = True, lp_proxy = None, lp_args = [''--mute-audio''], lp_timeout = 5\<rparr>"

theorem launch_leaves_no_process_witness:
  "\<exists>r c. isl r \<and> launch_browser example_env example_launch_options = Some (r, [Spawned c, Killed]) \<and>
     filter changes_typed_launch_truth (lc_args c) = [''--headless=new'']"
proof -
  let ?opts = example_launch_options
  have run: "(case launch_browser example_env ?opts of None \<Rightarrow> False | Some (r, eff) \<Rightarrow> isl r \<and> length eff = 2)"
    by code_simp
  then obtain r eff where l: "launch_browser example_env ?opts = Some (r, eff)" "isl r" "length eff = 2"
    by (auto split: option.splits)
  moreover have "typed_arguments ?opts = [''--headless=new'']" by code_simp
  ultimately show ?thesis using launch_leaves_no_process[OF l(1)] by auto
qed

text \<open>
  The test is on the text after two dashes. Chromium reads switches with one dash as well and stops at a
  bare double dash, so these raw arguments pass although they can change what the typed options chose.
\<close>

lemma raw_switches_not_rejected:
  "\<not> changes_typed_launch_truth ''-proxy-server=http://other:1''" "\<not> changes_typed_launch_truth ''--''"
  by code_simp+

subsection \<open>Reading the endpoint file back\<close>

lemma strip_leading_none: "leading ws s = None \<Longrightarrow> strip_leading n ws s = s"
  by (cases n) simp_all

lemma leading_none: "s \<noteq> [] \<Longrightarrow> list_all (\<lambda>w. w \<noteq> [] \<and> hd w \<noteq> hd s) ws \<Longrightarrow> leading ws s = None"
  by (cases s) (auto simp: leading_def find_None_iff list_all_iff take_Cons' neq_Nil_conv)

lemma str_trim_visible:
  assumes "s \<noteq> []" "list_all (\<lambda>w. hd w \<noteq> hd s) whitespace_encodings" "list_all (\<lambda>w. List.last w \<noteq> List.last s) whitespace_encodings"
  shows "str_trim s = s"
proof -
  have full: "list_all (\<lambda>w. w \<noteq> []) whitespace_encodings" by code_simp
  have "leading whitespace_encodings s = None"
    using assms(2) full by (intro leading_none[OF assms(1)]) (auto simp: list_all_iff)
  moreover have "leading (map rev whitespace_encodings) (rev s) = None"
    using assms(1,3) full by (intro leading_none) (auto simp: list_all_iff hd_rev)
  ultimately show ?thesis by (simp add: str_trim_def str_trim_start_def str_trim_end_def strip_leading_none)
qed

lemma str_trim_show_nat: "str_trim (show_nat n) = show_nat n"
proof -
  have "list_all (\<lambda>w. list_all (\<lambda>d. char_of_digit d \<noteq> hd w \<and> char_of_digit d \<noteq> List.last w) [0..<10]) whitespace_encodings"
    by code_simp
  then have "c \<noteq> hd w \<and> c \<noteq> List.last w" if "c \<in> char_of_digit ` {..<10}" "w \<in> set whitespace_encodings" for c w
    using that by (auto simp: list_all_iff)
  then show ?thesis
    using set_show_nat[of n] show_nat_nonempty[of n] hd_in_set[of "show_nat n"] last_in_set[of "show_nat n"]
    by (intro str_trim_visible) (fastforce simp: list_all_iff)+
qed

text \<open>
  Reading an endpoint file gives back the port and the path that the browser wrote, for every port and
  every path without line ends and surrounding white space.
\<close>

theorem endpoint_file_read_back:
  assumes "port < 65536" "CHR 0x0A \<notin> set path" "CHR 0x0D \<notin> set path" "str_trim path = path" "path \<noteq> []"
  shows "parse_devtools_active_port (Inr (show_nat port @ [CHR 0x0A] @ path @ [CHR 0x0A])) =
    Inr \<lparr>dt_port = port, dt_ws_path = path\<rparr>"
proof -
  have nat: "CHR 0x0A \<notin> set (show_nat port)" "CHR 0x0D \<notin> set (show_nat port)" by (rule show_nat_avoids; simp)+
  have parts: "split_on (CHR 0x0A) (show_nat port @ [CHR 0x0A] @ path @ [CHR 0x0A]) = [show_nat port, path, []]"
    using split_on_append[OF nat(1)] split_on_append[OF assms(2), of "[]"] by simp
  have cr: "strip_cr l = l" if "CHR 0x0D \<notin> set l" for l
    using that by (auto simp: strip_cr_def str_ends_with_iff)
  have "str_lines (show_nat port @ [CHR 0x0A] @ path @ [CHR 0x0A]) = [show_nat port, path]"
    unfolding str_lines_def parts Let_def by (simp add: cr nat(2) assms(3))
  then show ?thesis
    using assms(4) by (simp add: parse_devtools_active_port_def str_trim_show_nat parse_unsigned_show[OF assms(1)])
qed

theorem endpoint_file_read_back_witness:
  "parse_devtools_active_port (Inr (show_nat 9222 @ [CHR 0x0A] @ ''/devtools/browser/a'' @ [CHR 0x0A])) =
    Inr \<lparr>dt_port = 9222, dt_ws_path = ''/devtools/browser/a''\<rparr>"
proof -
  have "str_trim ''/devtools/browser/a'' = ''/devtools/browser/a''" by code_simp
  then show ?thesis by (intro endpoint_file_read_back) simp_all
qed

end
