(* ===== verification/RouteConfig.thy ===== *)
theory RouteConfig
  imports ContextOptions Ownership
begin

text \<open>
  The configuration of a routed target and its rollback (\<open>src/src/runtime/route.rs\<close>). A route is configured
  by a sequence of commands; each is marked before it is sent, and the rollback reads the marks. The browser
  answers through \<open>send\<close>, which may be any function of the commands sent so far and the next one.
\<close>

declare map_of_eq_Some_iff [simp del] and Some_eq_map_of_iff [simp del]

subsection \<open>Steps and commands\<close>

datatype route_step =
    StepDeviceMetrics | StepLocale | StepTimezone | StepUserAgent | StepGeolocation | StepNetwork | StepExtraHttpHeaders
  | StepSecurity | StepIgnoreCertificateErrors

datatype route_command =
    SetDeviceMetrics "32 word" "32 word" rat bool
  | ClearDeviceMetrics
  | SetLocale "string option"
  | SetTimezone string
  | SetUserAgent string "string option" "string option"
  | SetGeolocation rat rat rat
  | ClearGeolocation
  | EnableNetwork
  | DisableNetwork
  | SetExtraHttpHeaders "(string \<times> string) list"
  | EnableSecurity
  | DisableSecurity
  | SetIgnoreCertificateErrors bool

definition has_every_route_configuration :: "context_options \<Rightarrow> bool" where
  "has_every_route_configuration c \<longleftrightarrow>
     (let r = co_target_route c
      in to_locale r \<noteq> None \<or> to_timezone r \<noteq> None \<or> to_user_agent r \<noteq> None \<or> to_geolocation r \<noteq> None
         \<or> to_http_headers r \<noteq> [] \<or> co_ignore_https_errors c)"

definition has_main_route_configuration :: "context_options \<Rightarrow> bool" where
  "has_main_route_configuration c \<longleftrightarrow> to_viewport (co_target_route c) \<noteq> None \<or> has_every_route_configuration c"

definition has_auxiliary_network_configuration :: "context_options \<Rightarrow> bool" where
  "has_auxiliary_network_configuration c \<longleftrightarrow>
     to_user_agent (co_target_route c) \<noteq> None \<or> to_http_headers (co_target_route c) \<noteq> []"

definition user_agent_command :: "user_agent_override \<Rightarrow> route_command" where
  "user_agent_command u = SetUserAgent (ua_user_agent u) (ua_accept_language u) (ua_platform u)"

definition headers_command :: "http_headers \<Rightarrow> route_command" where
  "headers_command h = SetExtraHttpHeaders (headers_iter h)"

text \<open>The commands of a configuration in the order they are sent, with their marks and names.\<close>

definition option_list :: "'a option \<Rightarrow> ('a \<Rightarrow> 'b) \<Rightarrow> 'b list" where
  "option_list x f = (case x of None \<Rightarrow> [] | Some y \<Rightarrow> [f y])"

definition route_plan :: "context_options \<Rightarrow> bool \<Rightarrow> (route_step \<times> route_command \<times> string) list" where
  "route_plan c include_viewport =
     (let r = co_target_route c in
      (if include_viewport
       then option_list (to_viewport r) (\<lambda>v. (StepDeviceMetrics, SetDeviceMetrics (vp_width v) (vp_height v) (vp_scale v) False,
              ''Emulation.setDeviceMetricsOverride'')) else [])
      @ option_list (to_locale r) (\<lambda>l. (StepLocale, SetLocale (Some l), ''Emulation.setLocaleOverride''))
      @ option_list (to_timezone r) (\<lambda>t. (StepTimezone, SetTimezone t, ''Emulation.setTimezoneOverride''))
      @ option_list (to_user_agent r) (\<lambda>u. (StepUserAgent, user_agent_command u, ''Network.setUserAgentOverride''))
      @ option_list (to_geolocation r) (\<lambda>g. (StepGeolocation,
          SetGeolocation (gl_latitude g) (gl_longitude g) (gl_accuracy g), ''Emulation.setGeolocationOverride''))
      @ (if to_http_headers r = [] then []
         else [(StepNetwork, EnableNetwork, ''Network.enable''),
               (StepExtraHttpHeaders, headers_command (to_http_headers r), ''Network.setExtraHTTPHeaders'')])
      @ (if co_ignore_https_errors c
         then [(StepSecurity, EnableSecurity, ''Security.enable''),
               (StepIgnoreCertificateErrors, SetIgnoreCertificateErrors True, ''Security.setIgnoreCertificateErrors'')]
         else []))"

definition route_configuration_error :: "string \<Rightarrow> string \<Rightarrow> rt_error" where
  "route_configuration_error op err = cdp_operation id op Dispatch err"

text \<open>The state of a run: the marks and the commands that were sent, oldest first.\<close>

record route_run =
  ru_applied :: "route_step list"
  ru_sent :: "route_command list"

type_synonym route_port = "route_command list \<Rightarrow> route_command \<Rightarrow> string option"

definition send_command :: "route_port \<Rightarrow> route_command \<Rightarrow> route_run \<Rightarrow> string option \<times> route_run" where
  "send_command send c s = (send (ru_sent s) c, s\<lparr>ru_sent := ru_sent s @ [c]\<rparr>)"

definition mark_step :: "route_step \<Rightarrow> route_run \<Rightarrow> route_run" where
  "mark_step st s = s\<lparr>ru_applied := ru_applied s @ [st]\<rparr>"

fun apply_plan ::
  "route_port \<Rightarrow> (route_step \<times> route_command \<times> string) list \<Rightarrow> route_run \<Rightarrow> (rt_error + unit) \<times> route_run" where
  "apply_plan send [] s = (Inr (), s)"
| "apply_plan send ((st, c, op) # rest) s =
     (case send_command send c (mark_step st s) of
        (Some err, s') \<Rightarrow> (Inl (route_configuration_error op err), s')
      | (None, s') \<Rightarrow> apply_plan send rest s')"

definition apply_route :: "route_port \<Rightarrow> context_options \<Rightarrow> bool \<Rightarrow> route_run \<Rightarrow> (rt_error + unit) \<times> route_run" where
  "apply_route send c include_viewport s = apply_plan send (route_plan c include_viewport) s"

text \<open>A worker route: the user agent and the headers, without marks and without rollback.\<close>

fun send_each :: "route_port \<Rightarrow> (route_command \<times> string) list \<Rightarrow> route_run \<Rightarrow> (rt_error + unit) \<times> route_run" where
  "send_each send [] s = (Inr (), s)"
| "send_each send ((c, op) # rest) s =
     (case send_command send c s of
        (Some err, s') \<Rightarrow> (Inl (route_configuration_error op err), s')
      | (None, s') \<Rightarrow> send_each send rest s')"

definition configure_auxiliary_network_route :: "route_port \<Rightarrow> context_options \<Rightarrow> route_run \<Rightarrow> (rt_error + unit) \<times> route_run" where
  "configure_auxiliary_network_route send c s =
     (let r = co_target_route c
      in send_each send
           (option_list (to_user_agent r) (\<lambda>u. (user_agent_command u, ''Network.setUserAgentOverride''))
            @ (if to_http_headers r = [] then [] else [(headers_command (to_http_headers r), ''Network.setExtraHTTPHeaders'')])) s)"

subsection \<open>Rollback\<close>

definition reset_command :: "string \<Rightarrow> route_step \<Rightarrow> route_command" where
  "reset_command baseline st =
     (case st of
        StepIgnoreCertificateErrors \<Rightarrow> SetIgnoreCertificateErrors False
      | StepSecurity \<Rightarrow> DisableSecurity
      | StepExtraHttpHeaders \<Rightarrow> SetExtraHttpHeaders []
      | StepNetwork \<Rightarrow> DisableNetwork
      | StepGeolocation \<Rightarrow> ClearGeolocation
      | StepUserAgent \<Rightarrow> SetUserAgent baseline None None
      | StepTimezone \<Rightarrow> SetTimezone []
      | StepLocale \<Rightarrow> SetLocale None
      | StepDeviceMetrics \<Rightarrow> ClearDeviceMetrics)"

primrec reset_steps :: "route_port \<Rightarrow> string \<Rightarrow> route_step list \<Rightarrow> string list \<Rightarrow> route_run \<Rightarrow> string list \<times> route_run" where
  "reset_steps send baseline [] failures s = (failures, s)"
| "reset_steps send baseline (st # sts) failures s =
     (case send_command send (reset_command baseline st) s of
        (res, s') \<Rightarrow> reset_steps send baseline sts (case res of None \<Rightarrow> failures | Some e \<Rightarrow> failures @ [e]) s')"

definition rollback_route :: "route_port \<Rightarrow> string \<Rightarrow> route_run \<Rightarrow> cleanup_result \<times> route_run" where
  "rollback_route send baseline s =
     (case reset_steps send baseline (rev (ru_applied s)) [] s of
        (failures, s') \<Rightarrow> (if failures = [] then None else Some (OOther (join_with ''; '' failures)), s'))"

definition rollback_failure :: "rt_error \<Rightarrow> cleanup_result \<Rightarrow> ident \<Rightarrow> rt_error" where
  "rollback_failure e result route =
     (case result of
        None \<Rightarrow> e
      | Some f \<Rightarrow> with_cleanup_failure \<lparr>cf_resource = ''route:'' @ route, cf_message = show_cleanup_error f\<rparr> e)"

text \<open>
  \<open>configure_main_route\<close> and \<open>configure_oopif_route\<close> once the clean-up is registered: apply, and on failure
  run the rollback that the guard owns. The flag tells whether the guard is kept.
\<close>

definition configure_route ::
  "route_port \<Rightarrow> string \<Rightarrow> context_options \<Rightarrow> bool \<Rightarrow> ident \<Rightarrow> (rt_error + unit) \<times> route_run" where
  "configure_route send baseline c include_viewport identity =
     (case apply_route send c include_viewport \<lparr>ru_applied = [], ru_sent = []\<rparr> of
        (Inr _, s) \<Rightarrow> (Inr (), s)
      | (Inl e, s) \<Rightarrow>
          (case rollback_route send baseline s of
             (result, s') \<Rightarrow> (Inl (rollback_failure e result identity), s')))"

definition configure_main_route ::
  "route_port \<Rightarrow> string \<Rightarrow> context_options \<Rightarrow> ident \<Rightarrow> (rt_error + bool) \<times> route_run" where
  "configure_main_route send baseline c target =
     (if \<not> has_main_route_configuration c then (Inr False, \<lparr>ru_applied = [], ru_sent = []\<rparr>)
      else case configure_route send baseline c True target of
        (Inr _, s) \<Rightarrow> (Inr True, s)
      | (Inl e, s) \<Rightarrow> (Inl e, s))"

subsection \<open>The registry of route configurations\<close>

text \<open>
  Retained handles by session; the clean-up of a route runs through the pending-ownership registry.
  \<open>finalize_destroyed_route\<close> is the destruction of the page target, which ends the overrides with it.
\<close>

record 'c route_registry =
  rg_pending :: "'c ownership_registry"
  rg_retained :: "(ident \<times> u64) list"

definition route_resource :: "ident \<Rightarrow> string" where
  "route_resource session = ''route:'' @ session"

definition new_route_registry :: "'c route_registry" where
  "new_route_registry = \<lparr>rg_pending = new_registry, rg_retained = []\<rparr>"

definition register_route :: "ident \<Rightarrow> 'c \<Rightarrow> 'c route_registry \<Rightarrow> u64 \<times> 'c route_registry" where
  "register_route session cleanup g =
     (case registry_register (route_resource session) cleanup (rg_pending g) of (token, p) \<Rightarrow> (token, g\<lparr>rg_pending := p\<rparr>))"

text \<open>Scheduling claims the clean-up and spawns it; the claimed clean-up is returned, to be finished later.\<close>

definition schedule_token :: "ident \<Rightarrow> u64 \<Rightarrow> 'c route_registry \<Rightarrow> 'c option \<times> 'c route_registry" where
  "schedule_token session token g =
     (case registry_claim (route_resource session) token (rg_pending g) of (c, p) \<Rightarrow> (c, g\<lparr>rg_pending := p\<rparr>))"

definition retain_route :: "ident \<Rightarrow> u64 \<Rightarrow> 'c route_registry \<Rightarrow> 'c option \<times> 'c route_registry" where
  "retain_route session token g =
     (let previous = map_of (rg_retained g) session;
          g' = g\<lparr>rg_retained := AList.update session token (rg_retained g)\<rparr>
      in case previous of None \<Rightarrow> (None, g') | Some t \<Rightarrow> schedule_token session t g')"

definition cleanup_route ::
  "('c \<Rightarrow> cleanup_result) \<Rightarrow> ident \<Rightarrow> 'c route_registry \<Rightarrow> cleanup_result option option \<times> 'c route_registry" where
  "cleanup_route run session g =
     (case map_of (rg_retained g) session of
        None \<Rightarrow> (None, g)
      | Some t \<Rightarrow>
          (case guard_cleanup run (route_resource session) t (rg_pending g) of
             (r, p) \<Rightarrow> (Some r, g\<lparr>rg_pending := p, rg_retained := AList.delete session (rg_retained g)\<rparr>)))"

definition schedule_route :: "ident \<Rightarrow> 'c route_registry \<Rightarrow> 'c option \<times> 'c route_registry" where
  "schedule_route session g =
     (let g' = g\<lparr>rg_retained := AList.delete session (rg_retained g)\<rparr>
      in case map_of (rg_retained g) session of None \<Rightarrow> (None, g') | Some t \<Rightarrow> schedule_token session t g')"

definition report_route :: "(cleanup_result \<Rightarrow> bool) \<Rightarrow> string \<times> cleanup_result \<Rightarrow> close_report \<Rightarrow> close_report" where
  "report_route gone entry report =
     (case entry of (resource, result) \<Rightarrow>
        (case result of
           None \<Rightarrow> report_closed resource report
         | Some e \<Rightarrow> if gone result then report_closed resource report else report_failed resource (show_cleanup_error e) report))"

definition finalize_destroyed_route :: "'c route_registry \<Rightarrow> close_report \<times> 'c route_registry" where
  "finalize_destroyed_route g =
     (case registry_abandon_all (rg_pending g) of
        (results, p) \<Rightarrow>
          (fold (report_route (\<lambda>r. case r of None \<Rightarrow> False | Some e \<Rightarrow> is_missing_session e \<or> is_missing_target e)) results
             (new_report ''route configurations''),
           g\<lparr>rg_pending := p, rg_retained := []\<rparr>))"

text \<open>The body of \<open>cleanup_all\<close>; \<open>None\<close> while another task still runs a clean-up.\<close>

definition cleanup_all_routes :: "('c \<Rightarrow> cleanup_result) \<Rightarrow> 'c route_registry \<Rightarrow> close_report option \<times> 'c route_registry" where
  "cleanup_all_routes run g =
     (case registry_cleanup_all run (rg_pending g) of
        (results, p) \<Rightarrow>
          (map_option (\<lambda>rs. fold (report_route (\<lambda>_. False)) rs (new_report ''route configurations'')) results,
           g\<lparr>rg_pending := p, rg_retained := []\<rparr>))"

subsection \<open>Every sent override is undone\<close>

definition step_of :: "route_command \<Rightarrow> route_step" where
  "step_of c =
     (case c of
        SetDeviceMetrics _ _ _ _ \<Rightarrow> StepDeviceMetrics | ClearDeviceMetrics \<Rightarrow> StepDeviceMetrics
      | SetLocale _ \<Rightarrow> StepLocale | SetTimezone _ \<Rightarrow> StepTimezone | SetUserAgent _ _ _ \<Rightarrow> StepUserAgent
      | SetGeolocation _ _ _ \<Rightarrow> StepGeolocation | ClearGeolocation \<Rightarrow> StepGeolocation
      | EnableNetwork \<Rightarrow> StepNetwork | DisableNetwork \<Rightarrow> StepNetwork | SetExtraHttpHeaders _ \<Rightarrow> StepExtraHttpHeaders
      | EnableSecurity \<Rightarrow> StepSecurity | DisableSecurity \<Rightarrow> StepSecurity
      | SetIgnoreCertificateErrors _ \<Rightarrow> StepIgnoreCertificateErrors)"

lemma reset_step_of [simp]: "step_of (reset_command b st) = st"
  by (cases st) (simp_all add: step_of_def reset_command_def)

lemma route_plan_marks: "(st, c, op) \<in> set (route_plan o' v) \<Longrightarrow> step_of c = st"
  by (auto simp: route_plan_def option_list_def Let_def step_of_def user_agent_command_def headers_command_def
      split: option.splits if_splits)

lemma option_list_marks [simp]:
  "map fst (option_list x (\<lambda>y. (st, f y))) = (if x = None then [] else [st])"
  by (cases x) (simp_all add: option_list_def)

lemma if_list [simp]: "distinct (if P then [] else [x])" "set (if P then [] else [x]) = (if P then {} else {x})"
  by simp_all

lemma distinct_route_plan: "distinct (map fst (route_plan o' v))"
  by (simp add: route_plan_def Let_def if_distrib[of "map fst"])

lemma apply_plan_effects:
  assumes "apply_plan send plan s = (r, s')"
  shows "\<exists>k \<le> length plan. ru_sent s' = ru_sent s @ map (fst \<circ> snd) (take k plan) \<and>
    ru_applied s' = ru_applied s @ map fst (take k plan) \<and> (\<not> isl r \<longrightarrow> k = length plan)"
  using assms
proof (induction plan arbitrary: s)
  case (Cons p rest)
  obtain st c op where p: "p = (st, c, op)" by (cases p) auto
  define s1 where "s1 = (mark_step st s)\<lparr>ru_sent := ru_sent s @ [c]\<rparr>"
  have s1: "ru_sent s1 = ru_sent s @ [c]" "ru_applied s1 = ru_applied s @ [st]" by (simp_all add: s1_def mark_step_def)
  have "send_command send c (mark_step st s) = (send (ru_sent s) c, s1)" by (simp add: s1_def send_command_def mark_step_def)
  then have step: "apply_plan send (p # rest) s =
      (case send (ru_sent s) c of Some e \<Rightarrow> (Inl (route_configuration_error op e), s1) | None \<Rightarrow> apply_plan send rest s1)"
    by (simp add: p)
  show ?case
  proof (cases "send (ru_sent s) c")
    case None
    with Cons.prems step have "apply_plan send rest s1 = (r, s')" by simp
    from Cons.IH[OF this] obtain k where "k \<le> length rest"
        "ru_sent s' = ru_sent s1 @ map (fst \<circ> snd) (take k rest)"
        "ru_applied s' = ru_applied s1 @ map fst (take k rest)" "\<not> isl r \<longrightarrow> k = length rest"
      by blast
    then show ?thesis by (intro exI[of _ "Suc k"]) (simp add: s1 p)
  next
    case (Some e)
    with Cons.prems step show ?thesis by (intro exI[of _ "Suc 0"]) (simp add: s1 p isl_def)
  qed
qed auto

lemma reset_steps_effects:
  "reset_steps send b sts fs s = (fs', s') \<Longrightarrow>
   ru_sent s' = ru_sent s @ map (reset_command b) sts \<and> ru_applied s' = ru_applied s"
proof (induction sts arbitrary: fs s)
  case (Cons st sts)
  then show ?case by (cases "send (ru_sent s) (reset_command b st)") (auto simp: send_command_def)
qed simp

text \<open>
  C38: Configuring a route sends its commands in order and stops at the first refusal; then every aspect that
  a sent command, the refused one included, may have changed is reset exactly once, in reverse order, even
  if some resets fail. A configuration that is accepted sends all of its commands and resets nothing.
\<close>

theorem failed_configuration_is_undone:
  assumes "configure_route send baseline c include_viewport identity = (r, s)"
  shows "\<exists>k. let sent = map (fst \<circ> snd) (take k (route_plan c include_viewport))
    in (if isl r then ru_sent s = sent @ map (reset_command baseline) (rev (map step_of sent)) \<and> distinct (map step_of sent)
        else ru_sent s = map (fst \<circ> snd) (route_plan c include_viewport))"
proof -
  let ?plan = "route_plan c include_viewport" and ?s0 = "\<lparr>ru_applied = [], ru_sent = []\<rparr>"
  obtain r1 s1 where a: "apply_plan send ?plan ?s0 = (r1, s1)" by fastforce
  have marks: "\<forall>(st, c, op) \<in> set ?plan. step_of c = st" using route_plan_marks by auto
  from apply_plan_effects[OF a] obtain k where k: "k \<le> length ?plan"
      "ru_sent s1 = map (fst \<circ> snd) (take k ?plan)" "ru_applied s1 = [] @ map fst (take k ?plan)" "\<not> isl r1 \<longrightarrow> k = length ?plan"
    by auto
  have steps: "map step_of (ru_sent s1) = ru_applied s1"
  proof -
    have "step_of (fst (snd p)) = fst p" if "p \<in> set (take k ?plan)" for p
      using bspec[OF marks in_set_takeD[OF that]] by (simp add: case_prod_beta)
    then show ?thesis by (simp add: k(2,3))
  qed
  have dist: "distinct (ru_applied s1)" using distinct_route_plan[of c include_viewport] by (simp add: k(3) take_map[symmetric])
  have undone: "ru_sent s = ru_sent s1 @ map (reset_command baseline) (rev (map step_of (ru_sent s1)))" if "isl r1"
    using that assms a reset_steps_effects[of send baseline "rev (ru_applied s1)" "[]" s1]
    by (auto simp: steps configure_route_def apply_route_def rollback_route_def split: prod.splits sum.splits)
  have same: "isl r = isl r1" "\<not> isl r1 \<Longrightarrow> s = s1"
    using assms a by (auto simp: configure_route_def apply_route_def split: prod.splits sum.splits)
  show ?thesis
  proof (cases "isl r1")
    case True
    then show ?thesis using k(2) undone dist same steps by (intro exI[of _ k]) (simp add: Let_def)
  next
    case False
    then show ?thesis using k(2,4) same by (intro exI[of _ k]) (simp add: Let_def)
  qed
qed

theorem failed_configuration_is_undone_witness:
  "\<exists>k. let sent = map (fst \<circ> snd) (take k (route_plan (default_context_options
        \<lparr>co_ignore_https_errors := True, co_target_route := default_route_options\<lparr>to_locale := Some ''de''\<rparr>\<rparr>) True))
    in [SetLocale (Some ''de''), EnableSecurity, DisableSecurity, SetLocale None]
       = sent @ map (reset_command ''ua'') (rev (map step_of sent)) \<and> distinct (map step_of sent)"
proof -
  let ?c = "default_context_options\<lparr>co_ignore_https_errors := True, co_target_route := default_route_options\<lparr>to_locale := Some ''de''\<rparr>\<rparr>"
  let ?run = "configure_route (\<lambda>_ c. if c = EnableSecurity then Some ''no'' else None) ''ua'' ?c True ''t''"
  have run: "isl (fst ?run)" "ru_sent (snd ?run) = [SetLocale (Some ''de''), EnableSecurity, DisableSecurity, SetLocale None]"
    by code_simp+
  from failed_configuration_is_undone[of _ _ _ _ _ "fst ?run" "snd ?run", OF prod.collapse[symmetric]] run
  show ?thesis by simp
qed

end

