(* ===== verification/TargetClose.thy ===== *)
theory TargetClose
  imports Ownership
begin

text \<open>
  Closing a target that browserkit created, with a confirmation that it is gone
  (\<open>src/src/runtime/target_close.rs\<close>). The replies of the browser and the outcome of every poll with its
  deadline are inputs; an exhausted list of polls means that the wait goes on.
\<close>

declare map_of_eq_Some_iff [simp del] and Some_eq_map_of_iff [simp del]

subsection \<open>Deadlines\<close>

text \<open>Times are nanoseconds; an instant is the time since the origin of the monotonic clock.\<close>

record close_deadline =
  cl_confirm_at :: nat
  cl_expires_at :: nat

definition millisecond :: nat where
  "millisecond = 1000000"

definition target_close_timeout :: nat where
  "target_close_timeout = 5000 * millisecond"

definition confirmation_reserve :: nat where
  "confirmation_reserve = 1000 * millisecond"

definition deadline_after :: "nat \<Rightarrow> nat \<Rightarrow> close_deadline" where
  "deadline_after now timeout =
     (let reserve = max (min confirmation_reserve (timeout div 4)) millisecond;
          expires = now + timeout
      in \<lparr>cl_confirm_at = (if reserve \<le> expires then expires - reserve else now), cl_expires_at = expires\<rparr>)"

lemma standard_deadline:
  "deadline_after now target_close_timeout
     = \<lparr>cl_confirm_at = now + 4000 * millisecond, cl_expires_at = now + 5000 * millisecond\<rparr>"
  by (simp add: deadline_after_def target_close_timeout_def confirmation_reserve_def millisecond_def Let_def)

subsection \<open>Replies\<close>

datatype 'a timed = Elapsed | Replied 'a

definition until_deadline :: "string \<Rightarrow> 'a timed \<Rightarrow> ownership_cleanup_error + 'a" where
  "until_deadline stage r = (case r of Elapsed \<Rightarrow> Inl (ODeadlineExceeded stage) | Replied x \<Rightarrow> Inr x)"

text \<open>The protocol errors the code distinguishes: a reply with a code, and everything else as its text.\<close>

datatype cdp_failure = CdpProtocol int string | CdpOther string

definition cleanup_error_of :: "cdp_failure \<Rightarrow> ownership_cleanup_error" where
  "cleanup_error_of e = (case e of CdpProtocol code message \<Rightarrow> OProtocol code message | CdpOther text \<Rightarrow> OOther text)"

definition error_is_missing_target :: "cdp_failure \<Rightarrow> bool" where
  "error_is_missing_target e =
     (case e of
        CdpProtocol code message \<Rightarrow> code = - 32000 \<and> message \<in> {''No target with given id'', ''No target with given id found''}
      | CdpOther _ \<Rightarrow> False)"

lemma missing_target_agrees: "is_missing_target (cleanup_error_of e) = error_is_missing_target e"
  by (cases e) (simp_all add: is_missing_target_def cleanup_error_of_def error_is_missing_target_def)

text \<open>One poll of the stream of destroyed targets under a deadline.\<close>

datatype destroyed_poll = TargetGone ident | BadEvent | StreamEnd | PollTimeout

datatype close_dispatch = Acknowledged bool | MissingTarget

text \<open>\<open>ce_polls\<close> are the polls of the stream, in the order the code makes them.\<close>

record close_env =
  ce_subscribe :: "(cdp_failure + unit) timed"
  ce_close :: "(cdp_failure + bool) timed"
  ce_polls :: "destroyed_poll list"
  ce_targets :: "(cdp_failure + ident list) timed"

datatype close_command = SubscribeDestroyed | CloseTarget ident | GetTargets

subsection \<open>The operation\<close>

definition confirm_target_absent :: "ident \<Rightarrow> (cdp_failure + ident list) timed \<Rightarrow> cleanup_result" where
  "confirm_target_absent target reply =
     (case until_deadline ''confirm Target.getTargets'' reply of
        Inl e \<Rightarrow> Some e
      | Inr (Inl e) \<Rightarrow> Some (cleanup_error_of e)
      | Inr (Inr targets) \<Rightarrow> if target \<in> set targets then Some (OTargetStillPresent target) else None)"

definition close_reply :: "(cdp_failure + bool) timed \<Rightarrow> ownership_cleanup_error + close_dispatch" where
  "close_reply reply =
     (case until_deadline ''dispatch Target.closeTarget'' reply of
        Inl e \<Rightarrow> Inl e
      | Inr (Inr success) \<Rightarrow> Inr (Acknowledged success)
      | Inr (Inl e) \<Rightarrow> if error_is_missing_target e then Inr MissingTarget else Inl (cleanup_error_of e))"

text \<open>
  The wait after an acknowledged closing: whether the event of this target was seen; every other end of
  the wait asks for confirmation. \<open>None\<close>: the wait goes on.
\<close>

fun await_destroyed :: "ident \<Rightarrow> destroyed_poll list \<Rightarrow> bool option" where
  "await_destroyed target [] = None"
| "await_destroyed target (TargetGone t # ps) = (if t = target then Some True else await_destroyed target ps)"
| "await_destroyed target (_ # ps) = Some False"

text \<open>
  The drain after a missing target takes only queued events; it stops at an error, at the end of the stream
  and when nothing is queued. This has the same shape.
\<close>

definition drain_destroyed :: "ident \<Rightarrow> destroyed_poll list \<Rightarrow> bool option" where
  "drain_destroyed target ps = await_destroyed target ps"

definition confirm_unless_seen :: "ident \<Rightarrow> close_env \<Rightarrow> bool \<Rightarrow> cleanup_result \<times> close_command list" where
  "confirm_unless_seen target env seen =
     (if seen then (None, []) else (confirm_target_absent target (ce_targets env), [GetTargets]))"

definition close_and_wait :: "ident \<Rightarrow> close_env \<Rightarrow> (cleanup_result \<times> close_command list) option" where
  "close_and_wait target env =
     (case until_deadline ''subscribe to Target.targetDestroyed'' (ce_subscribe env) of
        Inl e \<Rightarrow> Some (Some e, [SubscribeDestroyed])
      | Inr (Inl e) \<Rightarrow> Some (Some (cleanup_error_of e), [SubscribeDestroyed])
      | Inr (Inr _) \<Rightarrow>
          map_option (\<lambda>(result, commands). (result, [SubscribeDestroyed, CloseTarget target] @ commands))
            (case close_reply (ce_close env) of
               Inl e \<Rightarrow> Some (Some e, [])
             | Inr (Acknowledged True) \<Rightarrow> map_option (confirm_unless_seen target env) (await_destroyed target (ce_polls env))
             | Inr (Acknowledged False) \<Rightarrow> Some (confirm_unless_seen target env False)
             | Inr MissingTarget \<Rightarrow> map_option (confirm_unless_seen target env) (drain_destroyed target (ce_polls env))))"

subsection \<open>A reported success is a confirmed one\<close>

definition event_seen :: "ident \<Rightarrow> close_env \<Rightarrow> bool" where
  "event_seen target env \<longleftrightarrow>
     (\<exists>others ps. ce_polls env = map TargetGone others @ TargetGone target # ps)"

definition inventory_without :: "ident \<Rightarrow> close_env \<Rightarrow> bool" where
  "inventory_without target env \<longleftrightarrow> (\<exists>targets. ce_targets env = Replied (Inr targets) \<and> target \<notin> set targets)"

lemma await_destroyed_True:
  "await_destroyed target ps = Some True \<Longrightarrow> \<exists>others qs. ps = map TargetGone others @ TargetGone target # qs"
proof (induction target ps rule: await_destroyed.induct)
  case (2 target t ps)
  show ?case
  proof (cases "t = target")
    case True
    then show ?thesis by (intro exI[of _ "[]"] exI[of _ ps]) simp
  next
    case False
    with 2 obtain others qs where "ps = map TargetGone others @ TargetGone target # qs" by auto
    then show ?thesis by (intro exI[of _ "t # others"]) simp
  qed
qed simp_all

lemma confirm_absent_None:
  "confirm_target_absent target reply = None \<longleftrightarrow> (\<exists>targets. reply = Replied (Inr targets) \<and> target \<notin> set targets)"
  by (auto simp: confirm_target_absent_def until_deadline_def split: timed.splits sum.splits)

lemma confirm_unless_seen_None:
  "confirm_unless_seen target env seen = (None, cs) \<Longrightarrow> seen \<and> cs = [] \<or> inventory_without target env \<and> cs = [GetTargets]"
  by (auto simp: confirm_unless_seen_def inventory_without_def confirm_absent_None split: if_splits)

text \<open>
  C9: Closing a created target reports success only if the browser answered the subscription, the closing
  was sent after it and was accepted or refused because the target is missing, and then either the event of
  exactly this target arrived before anything else ended the wait or the list of targets, asked for
  afterwards, does not contain it. An acknowledgement alone is never a success.
\<close>

theorem close_success_is_confirmed:
  assumes "close_and_wait target env = Some (None, commands)"
  shows "ce_subscribe env = Replied (Inr ()) \<and>
    (\<exists>reply. ce_close env = Replied reply \<and> (case reply of Inl e \<Rightarrow> error_is_missing_target e | Inr _ \<Rightarrow> True)) \<and>
    (commands = [SubscribeDestroyed, CloseTarget target] \<and> event_seen target env \<or>
     commands = [SubscribeDestroyed, CloseTarget target, GetTargets] \<and> inventory_without target env)"
proof -
  from assms have sub: "ce_subscribe env = Replied (Inr ())"
    by (auto simp: close_and_wait_def until_deadline_def split: timed.splits sum.splits)
  obtain d where d: "close_reply (ce_close env) = Inr d"
    using assms sub by (auto simp: close_and_wait_def until_deadline_def split: sum.splits)
  then have reply: "\<exists>reply. ce_close env = Replied reply \<and> (case reply of Inl e \<Rightarrow> error_is_missing_target e | Inr _ \<Rightarrow> True)"
    by (auto simp: close_reply_def until_deadline_def split: timed.splits sum.splits if_splits)
  from assms sub d obtain seen cs where seen: "confirm_unless_seen target env seen = (None, cs)"
      "commands = [SubscribeDestroyed, CloseTarget target] @ cs" "seen \<Longrightarrow> await_destroyed target (ce_polls env) = Some True"
    by (cases d)
      (auto simp: close_and_wait_def until_deadline_def drain_destroyed_def split: bool.splits)
  with confirm_unless_seen_None[OF seen(1)] await_destroyed_True[of target "ce_polls env"] sub reply
  show ?thesis by (auto simp: event_seen_def)
qed

definition example_close_env :: close_env where
  "example_close_env =
     \<lparr>ce_subscribe = Replied (Inr ()), ce_close = Replied (Inr True), ce_polls = [TargetGone ''b'', PollTimeout],
      ce_targets = Replied (Inr [''b''])\<rparr>"

theorem close_success_is_confirmed_witness:
  "ce_subscribe example_close_env = Replied (Inr ()) \<and>
    (\<exists>reply. ce_close example_close_env = Replied reply \<and> (case reply of Inl e \<Rightarrow> error_is_missing_target e | Inr _ \<Rightarrow> True)) \<and>
    ([SubscribeDestroyed, CloseTarget ''a'', GetTargets] = [SubscribeDestroyed, CloseTarget ''a''] \<and> event_seen ''a'' example_close_env \<or>
     [SubscribeDestroyed, CloseTarget ''a'', GetTargets] = [SubscribeDestroyed, CloseTarget ''a'', GetTargets]
       \<and> inventory_without ''a'' example_close_env)"
proof -
  have "close_and_wait ''a'' example_close_env = Some (None, [SubscribeDestroyed, CloseTarget ''a'', GetTargets])"
    by code_simp
  from close_success_is_confirmed[OF this] show ?thesis .
qed

text \<open>The wait always ends when the polls contain one that is not an event of another target.\<close>

lemma await_destroyed_ends:
  "await_destroyed target ps = None \<longleftrightarrow> (\<exists>others. ps = map TargetGone others \<and> target \<notin> set others)"
proof (induction target ps rule: await_destroyed.induct)
  case (2 target t ps)
  have "(\<exists>others. TargetGone t # ps = map TargetGone others \<and> target \<notin> set others)
      \<longleftrightarrow> t \<noteq> target \<and> (\<exists>others. ps = map TargetGone others \<and> target \<notin> set others)"
    by (auto simp: Cons_eq_map_conv)
  with 2 show ?case by simp
qed (auto simp: Cons_eq_map_conv)

end
