(* ===== verification/PageClose.thy ===== *)
theory PageClose
  imports RouteConfig AuxTargets Choosers Dialogs Downloads EventHub
begin

text \<open>
  The page handle (\<open>src/src/runtime/page.rs\<close>): what it owns, its terminal route failure, and its three ways to
  close: by its caller, by its session after the context is gone, and after the browser destroyed the target.
  A close is cut where it waits for the admitted operations: \<open>begin_page_close\<close> is the part before,
  \<open>finish_page_close\<close> and its variants the part after, and any other steps may happen in between. A result
  \<open>None\<close> means that the close still waits for a clean-up that another task is running.
\<close>

declare map_of_eq_Some_iff [simp del] and Some_eq_map_of_iff [simp del]

subsection \<open>Ownership and the terminal route failure\<close>

datatype page_ownership = PageAttached | PageCreated
datatype page_close_action = DetachAction | CloseTargetAction

definition page_close_action :: "page_ownership \<Rightarrow> page_close_action" where
  "page_close_action own = (case own of PageAttached \<Rightarrow> DetachAction | PageCreated \<Rightarrow> CloseTargetAction)"

definition merge_page_ownership :: "page_ownership \<Rightarrow> page_ownership \<Rightarrow> page_ownership" where
  "merge_page_ownership current requested =
     (if current = PageCreated \<or> requested = PageCreated then PageCreated else PageAttached)"

record terminal_route =
  tr_terminal :: "browser_error_snapshot option"
  tr_cleanup_failures :: "cleanup_failure list"

definition no_terminal_route :: terminal_route where
  "no_terminal_route = \<lparr>tr_terminal = None, tr_cleanup_failures = []\<rparr>"

definition record_terminal :: "rt_error \<Rightarrow> terminal_route \<Rightarrow> bool \<times> terminal_route" where
  "record_terminal e t =
     (let t1 = t\<lparr>tr_cleanup_failures := fold (\<lambda>f fs. if f \<in> set fs then fs else fs @ [f])
                                            (be_cleanup_failures e) (tr_cleanup_failures t)\<rparr>
      in if tr_terminal t \<noteq> None then (False, t1) else (True, t1\<lparr>tr_terminal := Some (capture e)\<rparr>))"

definition terminal_error :: "terminal_route \<Rightarrow> rt_error option" where
  "terminal_error t = map_option restore (tr_terminal t)"

definition report_failures :: "cleanup_failure list \<Rightarrow> close_report \<Rightarrow> close_report" where
  "report_failures fs r = fold (\<lambda>f. report_failed (cf_resource f) (cf_message f)) fs r"

definition terminal_cleanup_report :: "ident \<Rightarrow> terminal_route \<Rightarrow> close_report" where
  "terminal_cleanup_report target t = report_failures (tr_cleanup_failures t) (new_report (''terminal-routes:'' @ target))"

subsection \<open>The page\<close>

text \<open>
  Of the frame store the parts that a close touches; of the network manager its cancellation and the routes
  it was told to remove. \<open>'c\<close> are the clean-up pending_closures, \<open>'e\<close> and \<open>'n\<close> the events of the two hubs.
\<close>

record 'c page_store =
  sp_cancelled :: bool
  sp_chooser :: chooser_world
  sp_aux :: aux_registry
  sp_auto :: "'c ownership_registry"
  sp_oopif :: "'c ownership_registry"

record network_handle =
  nh_cancelled :: bool
  nh_removed :: "ident list"

record ('c, 'e, 'n) page_state =
  pt_target :: ident
  pt_cdp_session :: ident
  pt_ownership :: page_ownership
  pt_owned :: "(string \<times> u64) option"
  pt_lifecycle :: lifecycle_snapshot
  pt_generation :: u64
  pt_gate :: operation_gate
  pt_terminal :: terminal_route
  pt_routes :: "'c route_registry"
  pt_locators :: "'c ownership_registry"
  pt_dialogs :: dialog_coordinator
  pt_actions :: action_registry
  pt_downloads :: "download_manager option"
  pt_network :: "network_handle option"
  pt_store :: "'c page_store option"
  pt_hub :: "'e event_hub"
  pt_network_hub :: "'n event_hub"
  pt_close_report :: "close_report option"

definition new_page_state ::
  "event_identity \<Rightarrow> ident \<Rightarrow> page_ownership \<Rightarrow> ident \<Rightarrow> ('c, 'e, 'n) page_state" where
  "new_page_state identity target own session =
     \<lparr>pt_target = target, pt_cdp_session = session, pt_ownership = own, pt_owned = None,
      pt_lifecycle = new_lifecycle 0, pt_generation = 0, pt_gate = new_gate (''page:'' @ target),
      pt_terminal = no_terminal_route, pt_routes = new_route_registry, pt_locators = new_registry,
      pt_dialogs = new_coordinator, pt_actions = new_action_registry, pt_downloads = None, pt_network = None,
      pt_store = None, pt_hub = new_hub identity, pt_network_hub = new_hub identity, pt_close_report = None\<rparr>"

definition page_resource :: "ident \<Rightarrow> string" where
  "page_resource target = ''page:'' @ target"

definition promote_ownership :: "page_ownership \<Rightarrow> ('c, 'e, 'n) page_state \<Rightarrow> ('c, 'e, 'n) page_state" where
  "promote_ownership requested p = p\<lparr>pt_ownership := merge_page_ownership (pt_ownership p) requested\<rparr>"

text \<open>A second registration disarms the first in the registry of the runtime.\<close>

definition retain_owned_target ::
  "string \<times> u64 \<Rightarrow> ('c, 'e, 'n) page_state \<Rightarrow> 'd ownership_registry \<Rightarrow> ('c, 'e, 'n) page_state \<times> 'd ownership_registry" where
  "retain_owned_target own p reg =
     (p\<lparr>pt_owned := Some own\<rparr>,
      case pt_owned p of None \<Rightarrow> reg | Some (resource, token) \<Rightarrow> registry_disarm resource token reg)"

definition record_terminal_route_failure :: "rt_error \<Rightarrow> ('c, 'e, 'n) page_state \<Rightarrow> ('c, 'e, 'n) page_state" where
  "record_terminal_route_failure e p =
     (case record_terminal e (pt_terminal p) of (first, t) \<Rightarrow>
        let p1 = p\<lparr>pt_terminal := t\<rparr> in if first then p1\<lparr>pt_hub := hub_close_with_error RouteFailed e (pt_hub p)\<rparr> else p1)"

text \<open>The check that follows the initialization of the frame store; the flag tells whether the store is cancelled.\<close>

definition validate_frame_store_commit :: "lifecycle_snapshot \<Rightarrow> u64 \<Rightarrow> operation_gate \<Rightarrow> (rt_error + unit) \<times> bool" where
  "validate_frame_store_commit lifecycle expected gate =
     (if validate_page expected lifecycle \<noteq> None
      then (Inl (with_message ''PageReplaced: target changed during frame initialization''
                  (operation_error ''initialize frames'' Confirmation)), True)
      else if \<not> permit_is_current gate
      then (Inl (with_message ''page is closing; frame initialization was not committed''
                  (operation_error ''initialize frames'' Confirmation)), True)
      else (Inr (), False))"

subsection \<open>Closing\<close>

definition cancel_store :: "'c page_store \<Rightarrow> 'c page_store" where
  "cancel_store s = s\<lparr>sp_cancelled := True\<rparr>"

definition begin_side_effect_close :: "('c, 'e, 'n) page_state \<Rightarrow> ('c, 'e, 'n) page_state" where
  "begin_side_effect_close p =
     p\<lparr>pt_actions := cancel_all_actions (pt_actions p),
       pt_dialogs := close_current (pt_dialogs p),
       pt_downloads := map_option (manager_begin_close PageManager) (pt_downloads p),
       pt_network := map_option (\<lambda>n. n\<lparr>nh_cancelled := True\<rparr>) (pt_network p),
       pt_store := map_option cancel_store (pt_store p),
       pt_network_hub := hub_close ScopeClosed (pt_network_hub p)\<rparr>"

text \<open>The replies of the browser to the commands of a close.\<close>

record 'c close_port =
  cp_chooser :: "ident \<Rightarrow> string + unit"
  cp_run :: "'c \<Rightarrow> cleanup_result"
  cp_detach_aux :: "detach_command \<Rightarrow> cleanup_result"
  cp_detach :: cleanup_result
  cp_close_target :: cleanup_result

text \<open>A page whose gate is already closed reports itself closed; otherwise the page work is told to stop.\<close>

definition begin_page_close :: "('c, 'e, 'n) page_state \<Rightarrow> close_report option \<times> ('c, 'e, 'n) page_state" where
  "begin_page_close p =
     (case gate_start_close (pt_gate p) of (transitioned, g) \<Rightarrow>
        if \<not> transitioned \<and> og_handle g = HClosed
        then (Some (report_closed (page_resource (pt_target p)) (new_report (page_resource (pt_target p)))), p)
        else (None, begin_side_effect_close (p\<lparr>pt_gate := g\<rparr>)))"

definition finish_downloads :: "('c, 'e, 'n) page_state \<Rightarrow> close_report \<Rightarrow> close_report \<times> ('c, 'e, 'n) page_state" where
  "finish_downloads p report =
     (case pt_downloads p of
        None \<Rightarrow> (report, p)
      | Some m \<Rightarrow>
          (report_merge report (download_close_report PageManager (pt_cdp_session p)),
           p\<lparr>pt_downloads := Some ((manager_begin_close PageManager m)\<lparr>dm_reducing := False\<rparr>)\<rparr>))"

definition report_result :: "string \<times> cleanup_result \<Rightarrow> close_report \<Rightarrow> close_report" where
  "report_result entry report =
     (case entry of (resource, result) \<Rightarrow>
        (case result of None \<Rightarrow> report_closed resource report | Some e \<Rightarrow> report_failed resource (show_cleanup_error e) report))"

definition report_failure :: "string \<times> cleanup_result \<Rightarrow> close_report \<Rightarrow> close_report" where
  "report_failure entry report =
     (case entry of (resource, result) \<Rightarrow>
        (case result of None \<Rightarrow> report | Some e \<Rightarrow> report_failed resource (show_cleanup_error e) report))"

text \<open>\<open>cleanup_auto_attached_targets\<close>: the network manager forgets the routes of the auxiliaries first.\<close>

definition cleanup_auto_attached ::
  "'c close_port \<Rightarrow> 'c page_store \<Rightarrow> network_handle option
   \<Rightarrow> (close_report option \<times> 'c page_store) \<times> network_handle option" where
  "cleanup_auto_attached port s network =
     (case aux_take_all (sp_aux s) of (auxiliaries, aux) \<Rightarrow>
        let network' = map_option (\<lambda>n. n\<lparr>nh_removed := nh_removed n @ [x. (x, routed, _) \<leftarrow> auxiliaries, routed]\<rparr>) network
        in (case registry_cleanup_all (cp_detach_aux port) (ag_pending aux) of
              (None, pending) \<Rightarrow> ((None, s\<lparr>sp_aux := aux\<lparr>ag_pending := pending\<rparr>\<rparr>), network')
            | (Some detached, pending) \<Rightarrow>
                (case registry_cleanup_all (cp_run port) (sp_auto s) of (rest, auto) \<Rightarrow>
                   ((map_option (\<lambda>rs. fold report_result (detached @ rs) (new_report ''auto-attached-targets'')) rest,
                     s\<lparr>sp_aux := aux\<lparr>ag_pending := pending\<rparr>, sp_auto := auto\<rparr>), network'))))"

text \<open>The interception of file choosers and the auto-attached targets of a store, if there is one.\<close>

definition close_store ::
  "'c close_port \<Rightarrow> ('c, 'e, 'n) page_state \<Rightarrow> close_report \<Rightarrow> close_report option \<times> ('c, 'e, 'n) page_state" where
  "close_store port p report =
     (case pt_store p of
        None \<Rightarrow> (Some report, p)
      | Some s \<Rightarrow>
          (case close_file_chooser_interception (cp_chooser port) (sp_chooser s) of (r, chooser) \<Rightarrow>
             let report1 = (case r of Inl e \<Rightarrow> report_failed (''file-chooser:'' @ pt_target p) (be_message e) report | Inr _ \<Rightarrow> report)
             in (case cleanup_auto_attached port (s\<lparr>sp_chooser := chooser\<rparr>) (pt_network p) of
                   ((attached, s'), network) \<Rightarrow>
                     (map_option (report_merge report1) attached, p\<lparr>pt_store := Some s', pt_network := network\<rparr>))))"

definition close_locators ::
  "'c close_port \<Rightarrow> ('c, 'e, 'n) page_state \<Rightarrow> close_report \<Rightarrow> close_report option \<times> ('c, 'e, 'n) page_state" where
  "close_locators port p report =
     (case registry_cleanup_all (cp_run port) (pt_locators p) of (results, reg) \<Rightarrow>
        (map_option (\<lambda>rs. fold report_failure rs report) results, p\<lparr>pt_locators := reg\<rparr>))"

definition close_routes ::
  "'c close_port \<Rightarrow> ('c, 'e, 'n) page_state \<Rightarrow> close_report \<Rightarrow> close_report option \<times> ('c, 'e, 'n) page_state" where
  "close_routes port p report =
     (case cleanup_all_routes (cp_run port) (pt_routes p) of (routes, g) \<Rightarrow>
        (map_option (report_merge report) routes, p\<lparr>pt_routes := g\<rparr>))"

text \<open>Steps in sequence; the first that has to wait ends the sequence.\<close>

definition then_close ::
  "close_report option \<times> 'p \<Rightarrow> ('p \<Rightarrow> close_report \<Rightarrow> close_report option \<times> 'p) \<Rightarrow> close_report option \<times> 'p" where
  "then_close r f = (case r of (None, p) \<Rightarrow> (None, p) | (Some report, p) \<Rightarrow> f p report)"

definition close_page_resources ::
  "'c close_port \<Rightarrow> ('c, 'e, 'n) page_state \<Rightarrow> close_report option \<times> ('c, 'e, 'n) page_state" where
  "close_page_resources port p0 =
     (let p = begin_side_effect_close p0;
          report = report_merge (new_report (page_resource (pt_target p))) (terminal_cleanup_report (pt_target p) (pt_terminal p))
      in case finish_downloads p report of (report1, p1) \<Rightarrow>
           then_close (then_close (close_store port p1 report1) (close_locators port)) (close_routes port))"

definition is_already_closed_error :: "page_close_action \<Rightarrow> ownership_cleanup_error \<Rightarrow> bool" where
  "is_already_closed_error action e =
     (case action of CloseTargetAction \<Rightarrow> is_missing_target e | DetachAction \<Rightarrow> is_missing_session e)"

text \<open>What the close sends for the target itself.\<close>

datatype target_command = DetachPage ident | RunOwnedTarget string u64 | CloseUnownedTarget ident

definition close_target ::
  "'c close_port \<Rightarrow> ('c, 'e, 'n) page_state \<Rightarrow> 'c ownership_registry
   \<Rightarrow> (cleanup_result option \<times> target_command) \<times> ('c, 'e, 'n) page_state \<times> 'c ownership_registry" where
  "close_target port p owned =
     (case page_close_action (pt_ownership p) of
        DetachAction \<Rightarrow> ((Some (cp_detach port), DetachPage (pt_cdp_session p)), p, owned)
      | CloseTargetAction \<Rightarrow>
          (case pt_owned p of
             Some (resource, token) \<Rightarrow>
               (case guard_cleanup (cp_run port) resource token owned of
                  (r, owned') \<Rightarrow> ((r, RunOwnedTarget resource token), p\<lparr>pt_owned := None\<rparr>, owned'))
           | None \<Rightarrow> ((Some (cp_close_target port), CloseUnownedTarget (pt_target p)), p, owned)))"

definition settle_target :: "('c, 'e, 'n) page_state \<Rightarrow> cleanup_result \<Rightarrow> cleanup_result" where
  "settle_target p result =
     (case result of
        Some e \<Rightarrow> if og_handle (pt_gate p) = HClosed \<or> is_already_closed_error (page_close_action (pt_ownership p)) e
                 then None else Some e
      | None \<Rightarrow> None)"

record ('c, 'e, 'n) page_closing =
  pg_report :: close_report
  pg_page :: "('c, 'e, 'n) page_state"
  pg_owned :: "'c ownership_registry"
  pg_removed :: bool
  pg_command :: "target_command option"

text \<open>The end of every close: the gate and the hub of page events.\<close>

definition seal_page :: "close_reason \<Rightarrow> ('c, 'e, 'n) page_state \<Rightarrow> ('c, 'e, 'n) page_state" where
  "seal_page reason p = p\<lparr>pt_gate := gate_finish_close (pt_gate p), pt_hub := hub_close reason (pt_hub p)\<rparr>"

text \<open>\<open>pg_removed\<close>: the page is removed from its session, and its closing published there.\<close>

definition finish_page_close ::
  "'c close_port \<Rightarrow> 'c ownership_registry \<Rightarrow> ('c, 'e, 'n) page_state \<Rightarrow> ('c, 'e, 'n) page_closing option" where
  "finish_page_close port owned p =
     (if \<not> gate_drained (pt_gate p) then None
      else case close_page_resources port p of
        (None, _) \<Rightarrow> None
      | (Some report, p1) \<Rightarrow>
          (case close_target port p1 owned of
             ((None, _), _) \<Rightarrow> None
           | ((Some result, command), p2, owned') \<Rightarrow>
               let report' = report_result (page_resource (pt_target p), settle_target p2 result) report
               in Some \<lparr>pg_report = report', pg_page = seal_page ScopeClosed p2, pg_owned = owned',
                        pg_removed = is_complete report', pg_command = Some command\<rparr>))"

text \<open>After the session disposed of the whole context: nothing is sent for the target.\<close>

definition disarm_owned ::
  "('c, 'e, 'n) page_state \<Rightarrow> 'c ownership_registry \<Rightarrow> ('c, 'e, 'n) page_state \<times> 'c ownership_registry" where
  "disarm_owned p owned =
     (case pt_owned p of
        None \<Rightarrow> (p, owned)
      | Some (resource, token) \<Rightarrow> (p\<lparr>pt_owned := None\<rparr>, registry_disarm resource token owned))"

definition finish_close_by_session ::
  "'c close_port \<Rightarrow> 'c ownership_registry \<Rightarrow> ('c, 'e, 'n) page_state \<Rightarrow> ('c, 'e, 'n) page_closing option" where
  "finish_close_by_session port owned p =
     (if \<not> gate_drained (pt_gate p) then None
      else case close_page_resources port p of
        (None, _) \<Rightarrow> None
      | (Some report, p1) \<Rightarrow>
          (case disarm_owned p1 owned of (p2, owned') \<Rightarrow>
             Some \<lparr>pg_report = report_closed (page_resource (pt_target p)) report, pg_page = seal_page ScopeClosed p2,
                   pg_owned = owned', pg_removed = True, pg_command = None\<rparr>))"

subsection \<open>After the browser destroyed the target\<close>

definition begin_destroyed_close :: "('c, 'e, 'n) page_state \<Rightarrow> ('c, 'e, 'n) page_state" where
  "begin_destroyed_close p =
     begin_side_effect_close (p\<lparr>pt_gate := snd (gate_start_close (pt_gate p)), pt_lifecycle := replace_target (pt_lifecycle p)\<rparr>)"

definition report_destroyed :: "string \<times> cleanup_result \<Rightarrow> close_report \<Rightarrow> close_report" where
  "report_destroyed entry report =
     (case entry of (resource, result) \<Rightarrow>
        (case result of
           None \<Rightarrow> report_closed resource report
         | Some e \<Rightarrow> if is_missing_session e then report_closed resource report
                    else report_failed resource (show_cleanup_error e) report))"

definition finalize_store ::
  "'c close_port \<Rightarrow> 'c page_store \<Rightarrow> close_report option \<times> 'c page_store" where
  "finalize_store port s =
     (let s1 = (cancel_store s)\<lparr>sp_chooser := with_state close_locally (sp_chooser s),
                 sp_oopif := snd (registry_abandon_all (sp_oopif s)), sp_auto := snd (registry_abandon_all (sp_auto s))\<rparr>
      in case cleanup_after_parent_destroyed (cp_detach_aux port) (sp_aux s) of (results, aux) \<Rightarrow>
           (map_option (\<lambda>rs. fold report_destroyed rs (new_report ''auto-attached-targets'')) results, s1\<lparr>sp_aux := aux\<rparr>))"

definition finalize_page_store ::
  "'c close_port \<Rightarrow> ('c, 'e, 'n) page_state \<Rightarrow> close_report \<Rightarrow> close_report option \<times> ('c, 'e, 'n) page_state" where
  "finalize_page_store port p report =
     (case pt_store p of
        None \<Rightarrow> (Some report, p)
      | Some s \<Rightarrow> (case finalize_store port s of (r, s') \<Rightarrow> (map_option (report_merge report) r, p\<lparr>pt_store := Some s'\<rparr>)))"

definition finalize_routes :: "('c, 'e, 'n) page_state \<Rightarrow> close_report \<Rightarrow> close_report option \<times> ('c, 'e, 'n) page_state" where
  "finalize_routes p report =
     (case RouteConfig.finalize_destroyed_route (pt_routes p) of (r, g) \<Rightarrow> (Some (report_merge report r), p\<lparr>pt_routes := g\<rparr>))"

definition finish_destroyed_close ::
  "'c close_port \<Rightarrow> 'c ownership_registry \<Rightarrow> ('c, 'e, 'n) page_state \<Rightarrow> ('c, 'e, 'n) page_closing option" where
  "finish_destroyed_close port owned p0 =
     (if \<not> gate_drained (pt_gate p0) then None
      else let p = begin_side_effect_close p0;
               report = report_merge (new_report (page_resource (pt_target p))) (terminal_cleanup_report (pt_target p) (pt_terminal p))
           in case finish_downloads p report of (report1, p1) \<Rightarrow>
                (case then_close (then_close (finalize_page_store port p1 report1) (close_locators port)) finalize_routes of
                   (None, _) \<Rightarrow> None
                 | (Some report2, p2) \<Rightarrow>
                     (case disarm_owned p2 owned of (p3, owned') \<Rightarrow>
                        let p4 = seal_page TargetReplaced p3
                        in Some \<lparr>pg_report = report_closed (page_resource (pt_target p)) report2,
                                 pg_page = p4\<lparr>pt_network_hub := hub_close ScopeClosed (pt_network_hub p4)\<rparr>,
                                 pg_owned = owned', pg_removed = True, pg_command = None\<rparr>)))"

subsection \<open>One close for all callers\<close>

text \<open>
  All three closes run in the coordinator of the page: the first one runs, and every later call gets its
  report. The waits between the two parts are those of the caller that runs it.
\<close>

definition coordinated ::
  "(('c, 'e, 'n) page_state \<Rightarrow> ('c, 'e, 'n) page_closing option) \<Rightarrow> 'c ownership_registry \<Rightarrow> ('c, 'e, 'n) page_state
   \<Rightarrow> ('c, 'e, 'n) page_closing option" where
  "coordinated run owned p =
     (case pt_close_report p of
        Some report \<Rightarrow> Some \<lparr>pg_report = report, pg_page = p, pg_owned = owned, pg_removed = False, pg_command = None\<rparr>
      | None \<Rightarrow> map_option (\<lambda>c. c\<lparr>pg_page := (pg_page c)\<lparr>pt_close_report := Some (pg_report c)\<rparr>\<rparr>) (run p))"

definition page_close ::
  "'c close_port \<Rightarrow> 'c ownership_registry \<Rightarrow> ('c, 'e, 'n) page_state \<Rightarrow> ('c, 'e, 'n) page_closing option" where
  "page_close port owned =
     coordinated (\<lambda>p. case begin_page_close p of
         (Some report, p1) \<Rightarrow> Some \<lparr>pg_report = report, pg_page = p1, pg_owned = owned, pg_removed = False, pg_command = None\<rparr>
       | (None, p1) \<Rightarrow> finish_page_close port owned p1) owned"

definition mark_closed_by_session ::
  "'c close_port \<Rightarrow> 'c ownership_registry \<Rightarrow> ('c, 'e, 'n) page_state \<Rightarrow> ('c, 'e, 'n) page_closing option" where
  "mark_closed_by_session port owned =
     coordinated (\<lambda>p. finish_close_by_session port owned
        (begin_side_effect_close (p\<lparr>pt_gate := snd (gate_start_close (pt_gate p))\<rparr>))) owned"

definition close_after_target_destroyed ::
  "'c close_port \<Rightarrow> 'c ownership_registry \<Rightarrow> ('c, 'e, 'n) page_state \<Rightarrow> ('c, 'e, 'n) page_closing option" where
  "close_after_target_destroyed port owned =
     coordinated (\<lambda>p. finish_destroyed_close port owned (begin_destroyed_close p)) owned"

subsection \<open>What is left after a close\<close>

definition pending_closures :: "'c ownership_registry \<Rightarrow> 'c set" where
  "pending_closures r = {cl. \<exists>(k, e) \<in> set (rg_entries r). pe_cleanup e = Some cl}"

text \<open>Every clean-up of a registry has succeeded or will, whether it is pending or was run by another task.\<close>

definition registry_clean :: "('c \<Rightarrow> cleanup_result) \<Rightarrow> 'c ownership_registry \<Rightarrow> bool" where
  "registry_clean run r \<longleftrightarrow>
     (\<forall>cl \<in> pending_closures r. run cl = None) \<and> (\<forall>(k, t, x) \<in> set (rg_completed r). x = None)"

lemma cleanup_all_empties: "registry_cleanup_all run r = (Some xs, r') \<Longrightarrow> rg_entries r' = [] \<and> rg_completed r' = []"
proof (induction run r rule: registry_cleanup_all.induct)
  case (1 run r)
  show ?case
  proof (cases "registry_claim_next r")
    case (Pair found r1)
    show ?thesis
    proof (cases found)
      case None
      with "1.prems" Pair show ?thesis
        by (subst (asm) registry_cleanup_all.simps) (auto simp: pending_count_def split: if_splits)
    next
      case (Some x)
      obtain k t cl where x: "x = (k, t, cl)" by (cases x)
      have "registry_cleanup_all run (registry_finish k t (run cl) r1) = (Some xs, r')"
        using "1.prems" Pair Some x by (subst (asm) registry_cleanup_all.simps) simp
      from "1.IH"[OF Pair[symmetric] Some[unfolded x] refl refl this] show ?thesis .
    qed
  qed
qed

lemma pending_iff_closure:
  assumes "registry_inv r" "(k, e) \<in> set (rg_entries r)"
  shows "pe_state e = PsPending \<longleftrightarrow> (\<exists>cl. pe_cleanup e = Some cl)"
  using assms by (cases "pe_state e") (auto simp: registry_inv_def list_all_iff)

lemma cleanup_all_clean:
  assumes "registry_inv r" "registry_cleanup_all run r = (Some xs, r')"
  shows "(\<forall>(k, x) \<in> set xs. x = None) \<longleftrightarrow> registry_clean run r"
proof -
  let ?found = "rg_completed r @ map (run_entry run) (filter is_pending (rg_entries r))"
  have xs: "xs = sorted_completions ?found"
    using assms cleanup_all_spec[OF assms(1), of run] by (auto simp: Let_def split: if_splits)
  have "(\<forall>(k, x) \<in> set xs. x = None) \<longleftrightarrow> (\<forall>(k, t, x) \<in> set ?found. x = None)"
    unfolding xs sorted_completions_def set_sort set_map ball_simps by (simp add: split_def)
  also have "\<dots> \<longleftrightarrow> (\<forall>(k, t, x) \<in> set (rg_completed r). x = None) \<and>
      (\<forall>(k, e) \<in> set (rg_entries r). pe_state e = PsPending \<longrightarrow> run (the (pe_cleanup e)) = None)"
    unfolding set_append set_map ball_Un ball_simps by (auto simp: run_entry_def split_def)
  also have "(\<forall>(k, e) \<in> set (rg_entries r). pe_state e = PsPending \<longrightarrow> run (the (pe_cleanup e)) = None)
      \<longleftrightarrow> (\<forall>cl \<in> pending_closures r. run cl = None)"
    using pending_iff_closure[OF assms(1)] by (fastforce simp: pending_closures_def)
  finally show ?thesis by (auto simp: registry_clean_def)
qed

lemma fold_report_result_complete:
  "is_complete (fold report_result rs r) \<longleftrightarrow> is_complete r \<and> (\<forall>(k, x) \<in> set rs. x = None)"
  by (induction rs arbitrary: r) (auto simp: report_result_def split: option.splits prod.splits)

lemma fold_report_failure_complete:
  "is_complete (fold report_failure rs r) \<longleftrightarrow> is_complete r \<and> (\<forall>(k, x) \<in> set rs. x = None)"
  by (induction rs arbitrary: r) (auto simp: report_failure_def split: option.splits prod.splits)

lemma fold_report_route_complete:
  "is_complete (fold (report_route (\<lambda>_. False)) rs r) \<longleftrightarrow> is_complete r \<and> (\<forall>(k, x) \<in> set rs. x = None)"
  by (induction rs arbitrary: r) (auto simp: report_route_def split: option.splits prod.splits)

text \<open>The registries of a page with their pending_closures, and the detach commands of its auxiliaries.\<close>

definition page_registries :: "('c, 'e, 'n) page_state \<Rightarrow> 'c ownership_registry list" where
  "page_registries p = [pt_locators p, RouteConfig.rg_pending (pt_routes p)] @ (case pt_store p of None \<Rightarrow> [] | Some s \<Rightarrow> [sp_auto s])"

definition aux_registries :: "('c, 'e, 'n) page_state \<Rightarrow> detach_command ownership_registry list" where
  "aux_registries p = (case pt_store p of None \<Rightarrow> [] | Some s \<Rightarrow> [ag_pending (sp_aux s)])"

definition page_inv :: "('c, 'e, 'n) page_state \<Rightarrow> bool" where
  "page_inv p \<longleftrightarrow> list_all registry_inv (page_registries p) \<and> list_all registry_inv (aux_registries p)"

definition interception_off :: "('c, 'e, 'n) page_state \<Rightarrow> bool" where
  "interception_off p \<longleftrightarrow> (case pt_store p of None \<Rightarrow> True | Some s \<Rightarrow> ic_active (cw_state (sp_chooser s)) = None)"

text \<open>
  What the report of a close depends on: no recorded route failure, the interception of file choosers that
  can be ended, and every pending clean-up succeeding.
\<close>

definition interception_ends :: "'c close_port \<Rightarrow> ('c, 'e, 'n) page_state \<Rightarrow> bool" where
  "interception_ends port p \<longleftrightarrow>
     (case pt_store p of
        None \<Rightarrow> True
      | Some s \<Rightarrow> \<not> isl (fst (close_file_chooser_interception (cp_chooser port) (sp_chooser s))))"

definition resources_clean :: "'c close_port \<Rightarrow> ('c, 'e, 'n) page_state \<Rightarrow> bool" where
  "resources_clean port p \<longleftrightarrow>
     tr_cleanup_failures (pt_terminal p) = [] \<and> interception_ends port p \<and>
     list_all (registry_clean (cp_run port)) (page_registries p) \<and>
     list_all (registry_clean (cp_detach_aux port)) (aux_registries p)"

text \<open>The reply to the command for the target itself, and when it counts as a success.\<close>

definition target_reply :: "'c close_port \<Rightarrow> 'c ownership_registry \<Rightarrow> ('c, 'e, 'n) page_state \<Rightarrow> cleanup_result option" where
  "target_reply port owned p =
     (case (pt_ownership p, pt_owned p) of
        (PageAttached, _) \<Rightarrow> Some (cp_detach port)
      | (PageCreated, Some (resource, token)) \<Rightarrow> fst (guard_cleanup (cp_run port) resource token owned)
      | (PageCreated, None) \<Rightarrow> Some (cp_close_target port))"

definition target_settled :: "'c close_port \<Rightarrow> 'c ownership_registry \<Rightarrow> ('c, 'e, 'n) page_state \<Rightarrow> bool" where
  "target_settled port owned p \<longleftrightarrow>
     target_reply port owned p = Some None \<or> og_handle (pt_gate p) = HClosed \<or>
     (\<exists>e. target_reply port owned p = Some (Some e) \<and>
        (if pt_ownership p = PageAttached then is_missing_session e else is_missing_target e))"

definition page_quiet :: "('c, 'e, 'n) page_state \<Rightarrow> bool" where
  "page_quiet p \<longleftrightarrow>
     list_all (\<lambda>r. rg_entries r = []) (page_registries p) \<and> list_all (\<lambda>r. rg_entries r = []) (aux_registries p) \<and>
     rg_retained (pt_routes p) = [] \<and> dc_current (pt_dialogs p) = [] \<and> ar_closing (pt_actions p) \<and>
     (case pt_downloads p of None \<Rightarrow> True | Some m \<Rightarrow> dm_cancelled m \<and> \<not> dm_reducing m) \<and>
     (case pt_network p of None \<Rightarrow> True | Some n \<Rightarrow> nh_cancelled n) \<and>
     (case pt_store p of None \<Rightarrow> True | Some s \<Rightarrow> sp_cancelled s)"

lemma begin_side_effect_close_keeps [simp]:
  "pt_target (begin_side_effect_close p) = pt_target p" "pt_cdp_session (begin_side_effect_close p) = pt_cdp_session p"
  "pt_ownership (begin_side_effect_close p) = pt_ownership p" "pt_owned (begin_side_effect_close p) = pt_owned p"
  "pt_gate (begin_side_effect_close p) = pt_gate p" "pt_terminal (begin_side_effect_close p) = pt_terminal p"
  "pt_routes (begin_side_effect_close p) = pt_routes p" "pt_locators (begin_side_effect_close p) = pt_locators p"
  "page_registries (begin_side_effect_close p) = page_registries p"
  "aux_registries (begin_side_effect_close p) = aux_registries p"
  by (auto simp: begin_side_effect_close_def page_registries_def aux_registries_def cancel_store_def split: option.splits)


lemma close_file_chooser_off:
  assumes "close_file_chooser_interception off w = (Inr u, w')"
  shows "ic_active (cw_state w') = None"
proof (cases "ic_active (cw_state w)")
  case (Some g)
  obtain first w1 where f: "fold (disable_one off) (ic_enabled (cw_state w)) (None, w) = (first, w1)" by fastforce
  have active: "ic_active (cw_state (snd (fold (disable_one off) xs acc))) = ic_active (cw_state (snd acc))" for xs acc
    by (induction xs arbitrary: acc) (auto simp: disable_one_def set_intercept_def remove_enabled_def split: prod.splits sum.splits)
  from active[of "ic_enabled (cw_state w)" "(None, w)"] f Some have "ic_active (cw_state w1) = Some g" by simp
  with assms Some f show ?thesis
    by (auto simp: close_file_chooser_interception_def end_file_chooser_interception_def interception_finish_def
        split: option.splits)
qed (use assms in \<open>simp add: close_file_chooser_interception_def\<close>)

text \<open>What closing the store changes, and what its report says.\<close>

definition store_closed ::
  "'c close_port \<Rightarrow> ('c, 'e, 'n) page_state \<Rightarrow> close_report \<Rightarrow> close_report \<Rightarrow> ('c, 'e, 'n) page_state \<Rightarrow> bool" where
  "store_closed port p report report' q \<longleftrightarrow>
     list_all (\<lambda>r. rg_entries r = []) (aux_registries q) \<and> (\<forall>s. pt_store q = Some s \<longrightarrow> rg_entries (sp_auto s) = []) \<and>
     (is_complete report' \<longleftrightarrow> is_complete report \<and> interception_ends port p \<and>
       list_all (registry_clean (cp_detach_aux port)) (aux_registries p) \<and>
       (\<forall>s. pt_store p = Some s \<longrightarrow> registry_clean (cp_run port) (sp_auto s))) \<and>
     (interception_ends port p \<longrightarrow> interception_off q) \<and>
     (\<exists>store network. q = p\<lparr>pt_store := store, pt_network := network\<rparr> \<and>
       (\<forall>n'. network = Some n' \<longrightarrow> (\<exists>n. pt_network p = Some n \<and> nh_cancelled n' = nh_cancelled n)) \<and>
       (\<forall>s'. store = Some s' \<longrightarrow> (\<exists>s. pt_store p = Some s \<and> sp_cancelled s' = sp_cancelled s)))"

lemma close_store_effect:
  assumes "close_store port p report = (Some report', q)" "page_inv p"
  shows "store_closed port p report report' q"
proof (cases "pt_store p")
  case None
  with assms(1) have "q = p" "report' = report" by (auto simp: close_store_def)
  then show ?thesis using None
    by (auto simp: store_closed_def aux_registries_def interception_off_def interception_ends_def
        intro!: exI[of _ "pt_store p"] exI[of _ "pt_network p"])
next
  case (Some s)
  obtain r chooser where ch: "close_file_chooser_interception (cp_chooser port) (sp_chooser s) = (r, chooser)" by fastforce
  obtain detached pending where aux: "registry_cleanup_all (cp_detach_aux port) (ag_pending (sp_aux s)) = (Some detached, pending)"
    using assms(1) Some ch
    by (cases "registry_cleanup_all (cp_detach_aux port) (ag_pending (sp_aux s))"; cases "fst (registry_cleanup_all (cp_detach_aux port) (ag_pending (sp_aux s)))")
      (auto simp: close_store_def cleanup_auto_attached_def aux_take_all_def Let_def)
  obtain rest auto where auto: "registry_cleanup_all (cp_run port) (sp_auto s) = (Some rest, auto)"
    using assms(1) Some ch aux
    by (cases "registry_cleanup_all (cp_run port) (sp_auto s)"; cases "fst (registry_cleanup_all (cp_run port) (sp_auto s))")
      (auto simp: close_store_def cleanup_auto_attached_def aux_take_all_def Let_def)
  define s' where "s' = s\<lparr>sp_chooser := chooser, sp_aux := (sp_aux s)\<lparr>ag_records := [], ag_pending := pending\<rparr>, sp_auto := auto\<rparr>"
  have q: "q = p\<lparr>pt_store := Some s', pt_network := pt_network q\<rparr>"
    "\<forall>n'. pt_network q = Some n' \<longrightarrow> (\<exists>n. pt_network p = Some n \<and> nh_cancelled n' = nh_cancelled n)"
    "is_complete report' \<longleftrightarrow> is_complete report \<and> \<not> isl r \<and> (\<forall>(k, x) \<in> set (detached @ rest). x = None)"
    using assms(1) Some ch aux auto
    by (auto simp: close_store_def cleanup_auto_attached_def aux_take_all_def Let_def s'_def fold_report_result_complete
        split: sum.splits)
  have store_q: "pt_store q = Some s'" using arg_cong[OF q(1), of pt_store] by simp
  have inv: "registry_inv (sp_auto s)" "registry_inv (ag_pending (sp_aux s))"
    using assms(2) Some by (simp_all add: page_inv_def page_registries_def aux_registries_def)
  have ends: "interception_ends port p \<longleftrightarrow> \<not> isl r" by (simp add: interception_ends_def Some ch)
  have "interception_ends port p \<longrightarrow> interception_off q"
    using ends ch close_file_chooser_off[of "cp_chooser port" "sp_chooser s" "projr r" chooser]
    by (cases r) (auto simp: interception_off_def store_q s'_def)
  moreover have "list_all (\<lambda>r. rg_entries r = []) (aux_registries q)" "rg_entries (sp_auto s') = []"
    using cleanup_all_empties[OF aux] cleanup_all_empties[OF auto] by (simp_all add: aux_registries_def store_q s'_def)
  moreover have "is_complete report' \<longleftrightarrow> is_complete report \<and> interception_ends port p \<and>
      registry_clean (cp_detach_aux port) (ag_pending (sp_aux s)) \<and> registry_clean (cp_run port) (sp_auto s)"
    unfolding q(3) ends cleanup_all_clean[OF inv(2) aux, symmetric] cleanup_all_clean[OF inv(1) auto, symmetric] by auto
  moreover have "sp_cancelled s' = sp_cancelled s" by (simp add: s'_def)
  ultimately show ?thesis using q(1,2) Some store_q by (auto simp: store_closed_def aux_registries_def)
qed

lemma close_locators_effect:
  assumes "close_locators port p report = (Some report', q)" "page_inv p"
  shows "\<exists>reg. q = p\<lparr>pt_locators := reg\<rparr> \<and> rg_entries reg = []"
    and "is_complete report' \<longleftrightarrow> is_complete report \<and> registry_clean (cp_run port) (pt_locators p)"
proof -
  obtain rs reg where rs: "registry_cleanup_all (cp_run port) (pt_locators p) = (Some rs, reg)"
    using assms(1) by (auto simp: close_locators_def split: prod.splits)
  have inv: "registry_inv (pt_locators p)" using assms(2) by (simp add: page_inv_def page_registries_def)
  from assms(1) rs have q: "q = p\<lparr>pt_locators := reg\<rparr>" "report' = fold report_failure rs report"
    by (auto simp: close_locators_def)
  show "\<exists>reg. q = p\<lparr>pt_locators := reg\<rparr> \<and> rg_entries reg = []" using q cleanup_all_empties[OF rs] by blast
  show "is_complete report' \<longleftrightarrow> is_complete report \<and> registry_clean (cp_run port) (pt_locators p)"
    unfolding q(2) fold_report_failure_complete cleanup_all_clean[OF inv rs] ..
qed

lemma close_routes_effect:
  assumes "close_routes port p report = (Some report', q)" "page_inv p"
  shows "\<exists>g. q = p\<lparr>pt_routes := g\<rparr> \<and> rg_entries (RouteConfig.rg_pending g) = [] \<and> rg_retained g = []"
    and "is_complete report' \<longleftrightarrow> is_complete report \<and> registry_clean (cp_run port) (RouteConfig.rg_pending (pt_routes p))"
proof -
  obtain rs reg where rs: "registry_cleanup_all (cp_run port) (RouteConfig.rg_pending (pt_routes p)) = (Some rs, reg)"
    using assms(1) by (auto simp: close_routes_def cleanup_all_routes_def split: prod.splits)
  have inv: "registry_inv (RouteConfig.rg_pending (pt_routes p))" using assms(2) by (simp add: page_inv_def page_registries_def)
  from assms(1) rs have q: "q = p\<lparr>pt_routes := (pt_routes p)\<lparr>rg_pending := reg, rg_retained := []\<rparr>\<rparr>"
      "is_complete report' \<longleftrightarrow> is_complete report \<and> (\<forall>(k, x) \<in> set rs. x = None)"
    by (auto simp: close_routes_def cleanup_all_routes_def fold_report_route_complete)
  show "\<exists>g. q = p\<lparr>pt_routes := g\<rparr> \<and> rg_entries (RouteConfig.rg_pending g) = [] \<and> rg_retained g = []"
    using q(1) cleanup_all_empties[OF rs] by (intro exI conjI) (auto intro: q(1))
  show "is_complete report' \<longleftrightarrow> is_complete report \<and> registry_clean (cp_run port) (RouteConfig.rg_pending (pt_routes p))"
    unfolding q(2) cleanup_all_clean[OF inv rs] ..
qed

lemma report_failures_complete: "is_complete (report_failures fs r) \<longleftrightarrow> is_complete r \<and> fs = []"
  by (induction fs arbitrary: r) (simp_all add: report_failures_def)

lemma finish_downloads_effect:
  assumes "finish_downloads p report = (report', q)"
  shows "is_complete report' \<longleftrightarrow> is_complete report" and "\<exists>m. q = p\<lparr>pt_downloads := m\<rparr>"
    and "case pt_downloads q of None \<Rightarrow> True | Some m \<Rightarrow> dm_cancelled m \<and> \<not> dm_reducing m"
proof -
  show "is_complete report' \<longleftrightarrow> is_complete report" and "\<exists>m. q = p\<lparr>pt_downloads := m\<rparr>"
    using assms by (auto simp: finish_downloads_def download_close_report_def intro: exI[of _ "pt_downloads p"] split: option.splits)
  show "case pt_downloads q of None \<Rightarrow> True | Some m \<Rightarrow> dm_cancelled m \<and> \<not> dm_reducing m"
    using assms by (auto simp: finish_downloads_def manager_begin_close_def close_waiters_def split: option.splits)
qed

lemma begin_side_effect_close_ends [simp]: "interception_ends port (begin_side_effect_close p) = interception_ends port p"
  by (simp add: interception_ends_def begin_side_effect_close_def cancel_store_def split: option.split)

lemma close_page_resources_effect:
  assumes "close_page_resources port p = (Some report, q)" "page_inv p"
  shows "page_quiet q \<and> pt_target q = pt_target p \<and> pt_cdp_session q = pt_cdp_session p \<and> pt_ownership q = pt_ownership p
      \<and> pt_owned q = pt_owned p \<and> pt_gate q = pt_gate p"
    and "is_complete report \<longleftrightarrow> resources_clean port p"
    and "resources_clean port p \<longrightarrow> interception_off q"
    and "hb_closed (pt_network_hub q) \<noteq> None"
proof -
  define p0 where "p0 = begin_side_effect_close p"
  define start where "start = report_merge (new_report (page_resource (pt_target p))) (terminal_cleanup_report (pt_target p) (pt_terminal p))"
  have start: "is_complete start \<longleftrightarrow> tr_cleanup_failures (pt_terminal p) = []"
    by (simp add: start_def terminal_cleanup_report_def report_failures_complete)
  obtain report1 p1 where d: "finish_downloads p0 start = (report1, p1)" by fastforce
  note d' = finish_downloads_effect[OF d]
  from assms(1) d have run: "then_close (then_close (close_store port p1 report1) (close_locators port)) (close_routes port) = (Some report, q)"
    by (simp add: close_page_resources_def p0_def start_def Let_def)
  then obtain report2 p2 report3 p3 where c: "close_store port p1 report1 = (Some report2, p2)"
      "close_locators port p2 report2 = (Some report3, p3)" "close_routes port p3 report3 = (Some report, q)"
    by (auto simp: then_close_def split: prod.splits option.splits)
  from d'(2) obtain m where p1: "p1 = p0\<lparr>pt_downloads := m\<rparr>" by blast
  have regs1: "page_registries p1 = page_registries p" "aux_registries p1 = aux_registries p"
      "interception_ends port p1 = interception_ends port p"
    using begin_side_effect_close_keeps[of p] begin_side_effect_close_ends[of port p]
    by (simp_all add: p1 p0_def page_registries_def aux_registries_def interception_ends_def)
  have inv1: "page_inv p1" using assms(2) regs1 by (simp add: page_inv_def)
  note s = close_store_effect[OF c(1) inv1]
  from s obtain store network where p2: "p2 = p1\<lparr>pt_store := store, pt_network := network\<rparr>"
      "\<And>n'. network = Some n' \<Longrightarrow> \<exists>n. pt_network p1 = Some n \<and> nh_cancelled n' = nh_cancelled n"
      "\<And>s'. store = Some s' \<Longrightarrow> \<exists>s. pt_store p1 = Some s \<and> sp_cancelled s' = sp_cancelled s"
    unfolding store_closed_def by blast
  have inv2: "page_inv p2"
    unfolding page_inv_def
  proof
    have empties: "list_all (\<lambda>r. rg_entries r = []) (aux_registries p2)" "\<forall>s. pt_store p2 = Some s \<longrightarrow> rg_entries (sp_auto s) = []"
      using s unfolding store_closed_def by (rule conjunct1, rule conjunct2[THEN conjunct1])
    from empties(1) show "list_all registry_inv (aux_registries p2)"
      by (rule list.pred_mono_strong) (simp add: registry_inv_def)
    have "registry_inv (sp_auto s)" if "pt_store p2 = Some s" for s
      using empties(2) that by (simp add: registry_inv_def)
    moreover have "registry_inv (pt_locators p2) \<and> registry_inv (RouteConfig.rg_pending (pt_routes p2))"
      using inv1 by (simp add: p2(1) page_inv_def page_registries_def)
    ultimately show "list_all registry_inv (page_registries p2)" by (simp add: page_registries_def split: option.split)
  qed
  note l = close_locators_effect[OF c(2) inv2]
  from l(1) obtain locators where p3: "p3 = p2\<lparr>pt_locators := locators\<rparr>" "rg_entries locators = []" by blast
  have inv3: "page_inv p3"
    using inv2 p3 by (simp add: page_inv_def page_registries_def aux_registries_def registry_inv_def)
  note r = close_routes_effect[OF c(3) inv3]
  from r(1) obtain g where q: "q = p3\<lparr>pt_routes := g\<rparr>" "rg_entries (RouteConfig.rg_pending g) = []" "rg_retained g = []" by blast
  have store: "pt_store q = store" "pt_store p2 = store" "aux_registries q = aux_registries p2" "interception_off q = interception_off p2"
    by (simp_all add: q(1) p3(1) p2(1) aux_registries_def interception_off_def)
  have "case network of None \<Rightarrow> True | Some n \<Rightarrow> nh_cancelled n"
    using p2(2) by (auto simp: p1 p0_def begin_side_effect_close_def split: option.splits)
  moreover have "case store of None \<Rightarrow> True | Some s \<Rightarrow> sp_cancelled s"
    using p2(3) by (auto simp: p1 p0_def begin_side_effect_close_def cancel_store_def split: option.splits)
  moreover have "\<And>s. store = Some s \<Longrightarrow> rg_entries (sp_auto s) = []" "list_all (\<lambda>r. rg_entries r = []) (aux_registries p2)"
    using s unfolding store_closed_def store(2) by blast+
  moreover have "page_registries q = [locators, RouteConfig.rg_pending g] @ (case store of None \<Rightarrow> [] | Some s \<Rightarrow> [sp_auto s])"
    by (simp add: page_registries_def q(1) p3(1) p2(1))
  moreover have "pt_network q = network" "rg_retained (pt_routes q) = []" "dc_current (pt_dialogs q) = []" "ar_closing (pt_actions q)"
      "pt_downloads q = pt_downloads p1"
    using q(3) by (simp_all add: q(1) p3(1) p2(1) p1 p0_def begin_side_effect_close_def close_current_def cancel_all_actions_def)
  ultimately have "page_quiet q"
    using q(2) p3(2) d'(3) store(1,3) by (auto simp: page_quiet_def split: option.splits)
  then show "page_quiet q \<and> pt_target q = pt_target p \<and> pt_cdp_session q = pt_cdp_session p \<and> pt_ownership q = pt_ownership p
      \<and> pt_owned q = pt_owned p \<and> pt_gate q = pt_gate p"
    by (simp add: q(1) p3(1) p2(1) p1 p0_def)
  show "hb_closed (pt_network_hub q) \<noteq> None"
    by (simp add: q(1) p3(1) p2(1) p1 p0_def begin_side_effect_close_def hub_close_def hub_close_terminal_def)
  have routes: "pt_routes p3 = pt_routes p1" "pt_locators p2 = pt_locators p1" by (simp_all add: p3(1) p2(1))
  have regs: "list_all (registry_clean (cp_run port)) (page_registries p1) \<longleftrightarrow>
      registry_clean (cp_run port) (pt_locators p1) \<and> registry_clean (cp_run port) (RouteConfig.rg_pending (pt_routes p1)) \<and>
      (\<forall>s. pt_store p1 = Some s \<longrightarrow> registry_clean (cp_run port) (sp_auto s))"
    by (cases "pt_store p1") (simp_all add: page_registries_def)
  note s' = s[unfolded store_closed_def, THEN conjunct2, THEN conjunct2]
  have report2: "is_complete report2 \<longleftrightarrow> is_complete report1 \<and> interception_ends port p1 \<and>
       list_all (registry_clean (cp_detach_aux port)) (aux_registries p1) \<and>
       (\<forall>s. pt_store p1 = Some s \<longrightarrow> registry_clean (cp_run port) (sp_auto s))"
    using s' by (rule conjunct1)
  have off: "interception_ends port p1 \<longrightarrow> interception_off p2"
    using s' by (rule conjunct2[THEN conjunct1])
  show "is_complete report \<longleftrightarrow> resources_clean port p"
    by (simp only: r(2) l(2) report2 d'(1) start routes resources_clean_def regs1[symmetric] regs conj_ac)
  show "resources_clean port p \<longrightarrow> interception_off q"
    using off by (simp add: resources_clean_def store(4) regs1(3))
qed

text \<open>The command for the target, with its reply.\<close>

lemma close_target_effect:
  assumes "close_target port p owned = ((Some result, command), q, owned')"
  shows "q = p \<or> q = p\<lparr>pt_owned := None\<rparr>" "target_reply port owned p = Some result"
    "pt_ownership p = PageAttached \<Longrightarrow> command = DetachPage (pt_cdp_session p) \<and> owned' = owned"
    "pt_ownership p = PageCreated \<Longrightarrow> pt_owned q = None \<and>
       (case pt_owned p of
          None \<Rightarrow> command = CloseUnownedTarget (pt_target p) \<and> owned' = owned
        | Some (resource, token) \<Rightarrow>
            command = RunOwnedTarget resource token \<and> owned' = snd (guard_cleanup (cp_run port) resource token owned))"
  using assms
  by (auto simp: close_target_def target_reply_def page_close_action_def split: option.splits prod.splits page_ownership.splits)

lemma settled_target_report:
  assumes "target_reply port owned p = Some result" "pt_ownership q = pt_ownership p" "pt_gate q = pt_gate p"
  shows "is_complete (report_result (resource, settle_target q result) report) \<longleftrightarrow> is_complete report \<and> target_settled port owned p"
  using assms
  by (cases result) (auto simp: report_result_def settle_target_def target_settled_def is_already_closed_error_def
      page_close_action_def split: page_ownership.splits)

text \<open>The report of a page close, exactly: also for the state before its first part, and for a page closed by its session.\<close>

lemma finish_page_close_report:
  assumes "finish_page_close port owned p = Some c" "page_inv p"
  shows "is_complete (pg_report c) \<longleftrightarrow> resources_clean port p \<and> target_settled port owned p"
proof -
  obtain report p1 where r: "close_page_resources port p = (Some report, p1)"
    using assms(1) by (auto simp: finish_page_close_def split: if_splits prod.splits option.splits)
  then obtain result command p2 owned' where t: "close_target port p1 owned = ((Some result, command), p2, owned')"
    using assms(1) by (auto simp: finish_page_close_def split: if_splits prod.splits option.splits)
  have c: "pg_report c = report_result (page_resource (pt_target p), settle_target p2 result) report"
    using assms(1) r t by (auto simp: finish_page_close_def Let_def split: if_splits)
  note e = close_page_resources_effect[OF r assms(2)]
  note te = close_target_effect[OF t]
  have same: "pt_ownership p2 = pt_ownership p1" "pt_gate p2 = pt_gate p1" using te(1) by auto
  have "target_settled port owned p1 = target_settled port owned p"
    using e(1) by (simp add: target_settled_def target_reply_def)
  then show ?thesis using settled_target_report[OF te(2) same] e(2) by (simp add: c)
qed

lemma begin_side_effect_clean:
  "page_inv (begin_side_effect_close (p\<lparr>pt_gate := g\<rparr>)) = page_inv p"
  "resources_clean port (begin_side_effect_close (p\<lparr>pt_gate := g\<rparr>)) = resources_clean port p"
  "target_reply port owned (begin_side_effect_close (p\<lparr>pt_gate := g\<rparr>)) = target_reply port owned p"
  by (simp_all add: page_inv_def resources_clean_def target_reply_def page_registries_def[of "p\<lparr>pt_gate := g\<rparr>"]
      aux_registries_def[of "p\<lparr>pt_gate := g\<rparr>"] page_registries_def[of p] aux_registries_def[of p]
      interception_ends_def[of _ "p\<lparr>pt_gate := g\<rparr>"] interception_ends_def[of _ p])

lemma start_close_closed: "og_handle (snd (gate_start_close g)) = HClosed \<longleftrightarrow> og_handle g = HClosed"
  by (cases "og_handle g") (simp_all add: gate_start_close_def)

lemma page_close_report:
  assumes "page_close port owned p = Some c" "page_inv p" "is_complete (pg_report c)"
  shows "case pt_close_report p of
           Some earlier \<Rightarrow> is_complete earlier
         | None \<Rightarrow> og_handle (pt_gate p) = HClosed \<or> (resources_clean port p \<and> target_settled port owned p)"
proof (cases "pt_close_report p")
  case (Some earlier)
  then show ?thesis using assms by (auto simp: page_close_def coordinated_def)
next
  case None
  show ?thesis
  proof (cases "og_handle (pt_gate p) = HClosed")
    case False
    let ?p = "begin_side_effect_close (p\<lparr>pt_gate := snd (gate_start_close (pt_gate p))\<rparr>)"
    have "begin_page_close p = (None, ?p)"
      using False start_close_closed[of "pt_gate p"] by (cases "gate_start_close (pt_gate p)") (simp add: begin_page_close_def)
    with assms(1) None obtain c' where c': "finish_page_close port owned ?p = Some c'" "pg_report c = pg_report c'"
      by (auto simp: page_close_def coordinated_def)
    from finish_page_close_report[OF c'(1)] assms(2,3) c'(2)
    have "resources_clean port ?p \<and> target_settled port owned ?p" by (simp add: begin_side_effect_clean)
    then show ?thesis
      using None start_close_closed[of "pt_gate p"]
      by (simp add: begin_side_effect_clean target_settled_def)
  qed (simp add: None)
qed

lemma mark_closed_report:
  assumes "mark_closed_by_session port owned p = Some c" "page_inv p" "is_complete (pg_report c)"
  shows "case pt_close_report p of Some earlier \<Rightarrow> is_complete earlier | None \<Rightarrow> resources_clean port p"
proof (cases "pt_close_report p")
  case (Some earlier)
  then show ?thesis using assms by (auto simp: mark_closed_by_session_def coordinated_def)
next
  case None
  let ?p = "begin_side_effect_close (p\<lparr>pt_gate := snd (gate_start_close (pt_gate p))\<rparr>)"
  from assms(1) None obtain c' where c': "finish_close_by_session port owned ?p = Some c'" "pg_report c = pg_report c'"
    by (auto simp: mark_closed_by_session_def coordinated_def)
  then obtain report p1 where r: "close_page_resources port ?p = (Some report, p1)"
    by (auto simp: finish_close_by_session_def split: if_splits prod.splits option.splits)
  with c' have "is_complete (pg_report c) = is_complete report"
    by (auto simp: finish_close_by_session_def split: if_splits prod.splits)
  with close_page_resources_effect(2)[OF r] assms(2,3) None show ?thesis by (simp add: begin_side_effect_clean)
qed

text \<open>The registry of owned targets only shrinks.\<close>

definition owned_shrinks :: "'c ownership_registry \<Rightarrow> 'c ownership_registry \<Rightarrow> bool" where
  "owned_shrinks r r' \<longleftrightarrow> (registry_inv r \<longrightarrow> registry_inv r' \<and> set (rg_entries r') \<subseteq> set (rg_entries r))"

lemma owned_shrinks_refl: "owned_shrinks r r"
  by (simp add: owned_shrinks_def)

lemma owned_shrinks_trans: "owned_shrinks r r' \<Longrightarrow> owned_shrinks r' r'' \<Longrightarrow> owned_shrinks r r''"
  by (auto simp: owned_shrinks_def)

lemma delete_updated: "set (AList.delete k (AList.update k v es)) \<subseteq> set es"
  by (induction es) (auto simp: AList.delete_eq split: if_splits)

lemma owned_shrinks_disarm: "owned_shrinks r (registry_disarm k t r)"
  using registry_inv_disarm[of r k t] by (auto simp: owned_shrinks_def registry_disarm_def AList.delete_eq)

lemma owned_shrinks_cleanup: "owned_shrinks r (snd (guard_cleanup run k t r))"
proof -
  have "set (rg_entries (snd (guard_cleanup run k t r))) \<subseteq> set (rg_entries r)" if "registry_inv r"
  proof (cases "registry_claim k t r")
    case (Pair found r')
    show ?thesis
    proof (cases found)
      case None
      then have "r' = r"
        using Pair that by (auto simp: registry_claim_def pending_iff_closure[OF that map_of_SomeD] split: option.splits if_splits)
      then show ?thesis using Pair None
        by (auto simp: guard_cleanup_def registry_cleanup_one_def registry_forget_completion_def split: option.splits)
    next
      case (Some cl)
      then obtain e where e: "map_of (rg_entries r) k = Some e" "pe_token e = t"
          "rg_entries r' = AList.update k (e\<lparr>pe_state := PsCleaning, pe_cleanup := None\<rparr>) (rg_entries r)"
        using Pair by (auto simp: registry_claim_def split: option.splits if_splits)
      then show ?thesis using Pair Some delete_updated[of k _ "rg_entries r"]
        by (auto simp: guard_cleanup_def registry_cleanup_one_def registry_forget_completion_def registry_finish_def
            holds_token_def)
    qed
  qed
  with registry_inv_guard_cleanup show ?thesis by (auto simp: owned_shrinks_def)
qed

lemma closes_shrink_owned:
  "page_close port owned p = Some c \<Longrightarrow> owned_shrinks owned (pg_owned c)"
  "mark_closed_by_session port owned p = Some c \<Longrightarrow> owned_shrinks owned (pg_owned c)"
proof -
  have "owned_shrinks owned (pg_owned c)" if "finish_page_close port owned p = Some c" for p c
  proof -
    note run = that
    obtain report p1 where r: "close_page_resources port p = (Some report, p1)"
      using run by (auto simp: finish_page_close_def split: if_splits prod.splits option.splits)
    obtain out p2 owned' where "close_target port p1 owned = (out, p2, owned')" by (cases "close_target port p1 owned")
    moreover from this have "pg_owned c = owned'"
      using run r by (auto simp: finish_page_close_def Let_def split: if_splits prod.splits option.splits)
    ultimately have "close_target port p1 owned = (out, p2, pg_owned c)" by simp
    then show ?thesis using owned_shrinks_cleanup[of owned "cp_run port"]
      by (auto simp: close_target_def owned_shrinks_refl split: page_close_action.splits option.splits prod.splits)
        (metis snd_conv)
  qed
  then show "page_close port owned p = Some c \<Longrightarrow> owned_shrinks owned (pg_owned c)"
    by (auto simp: page_close_def coordinated_def owned_shrinks_refl split: option.splits prod.splits)
  have "owned_shrinks owned (pg_owned c)" if "finish_close_by_session port owned p = Some c" for p c
    using that owned_shrinks_disarm[of owned]
    by (auto simp: finish_close_by_session_def disarm_owned_def owned_shrinks_refl split: if_splits prod.splits option.splits)
  then show "mark_closed_by_session port owned p = Some c \<Longrightarrow> owned_shrinks owned (pg_owned c)"
    by (auto simp: mark_closed_by_session_def coordinated_def owned_shrinks_refl split: option.splits)
qed

text \<open>
  C8: When the close of a page ends, its gate is closed, the hubs of its page and network events have ended,
  nothing is pending in any of its registries, its dialogs, actions, downloads, network observation and frame
  store are shut, and what was sent for the target is decided by who owns it: an attached page has sent only
  the detach of its own session, a created page has run the close kept for its target or sent one. The report
  is complete, and the page leaves its session, exactly if every clean-up that was pending or had been run
  succeeded, the interception of file choosers could be switched off (and is off), no earlier route failure
  left a clean-up failure, and the command for the target succeeded or found its target or session gone (or
  the gate had closed meanwhile).
\<close>

theorem closed_page_leaves_nothing:
  assumes "finish_page_close port owned p = Some c" "page_inv p"
  shows "page_quiet (pg_page c) \<and> og_handle (pt_gate (pg_page c)) = HClosed \<and> hb_closed (pt_hub (pg_page c)) \<noteq> None \<and>
    hb_closed (pt_network_hub (pg_page c)) \<noteq> None \<and>
    (pt_ownership p = PageAttached \<longrightarrow> pg_command c = Some (DetachPage (pt_cdp_session p)) \<and> pg_owned c = owned) \<and>
    (pt_ownership p = PageCreated \<longrightarrow> pt_owned (pg_page c) = None \<and>
       (case pt_owned p of
          None \<Rightarrow> pg_command c = Some (CloseUnownedTarget (pt_target p)) \<and> pg_owned c = owned
        | Some (resource, token) \<Rightarrow> pg_command c = Some (RunOwnedTarget resource token) \<and>
            pg_owned c = snd (guard_cleanup (cp_run port) resource token owned))) \<and>
    pg_removed c = is_complete (pg_report c) \<and>
    (is_complete (pg_report c) \<longleftrightarrow> resources_clean port p \<and> target_settled port owned p) \<and>
    (is_complete (pg_report c) \<longrightarrow> interception_off (pg_page c))"
proof -
  obtain report p1 where r: "close_page_resources port p = (Some report, p1)"
    using assms(1) by (auto simp: finish_page_close_def split: if_splits prod.splits option.splits)
  then obtain result command p2 owned' where t: "close_target port p1 owned = ((Some result, command), p2, owned')"
    using assms(1) by (auto simp: finish_page_close_def split: if_splits prod.splits option.splits)
  define report' where "report' = report_result (page_resource (pt_target p), settle_target p2 result) report"
  have c: "pg_report c = report'" "pg_page c = seal_page ScopeClosed p2" "pg_owned c = owned'" "pg_removed c = is_complete report'"
      "pg_command c = Some command"
    using assms(1) r t by (auto simp: finish_page_close_def report'_def Let_def split: if_splits)
  note e = close_page_resources_effect[OF r assms(2)]
  note te = close_target_effect[OF t]
  have same: "pt_network_hub p2 = pt_network_hub p1"
    using te(1) by auto
  have "page_quiet p2 = page_quiet p1" "interception_off p2 = interception_off p1"
    using te(1) by (auto simp: page_quiet_def interception_off_def page_registries_def aux_registries_def)
  moreover have "page_quiet (seal_page ScopeClosed p2) = page_quiet p2" "interception_off (seal_page ScopeClosed p2) = interception_off p2"
    by (simp_all add: seal_page_def page_quiet_def interception_off_def page_registries_def aux_registries_def)
  moreover have "og_handle (pt_gate (seal_page ScopeClosed p2)) = HClosed" "pt_owned (seal_page ScopeClosed p2) = pt_owned p2"
      "hb_closed (pt_hub (seal_page ScopeClosed p2)) \<noteq> None" "pt_network_hub (seal_page ScopeClosed p2) = pt_network_hub p2"
    by (simp_all add: seal_page_def gate_finish_close_def hub_close_def hub_close_terminal_def)
  ultimately show ?thesis using c e finish_page_close_report[OF assms] te(3,4) same by (auto split: option.splits)
qed

text \<open>A created page with a retained target and a pending locator clean-up; its target is already gone.\<close>

definition example_page :: "(nat, unit, unit) page_state" where
  "example_page =
     (let p = new_page_state (runtime_identity ''runtime-1'') ''t'' PageCreated ''s''
      in p\<lparr>pt_locators := snd (registry_register ''object'' 1 (pt_locators p)), pt_owned := Some (''page:t'', 1)\<rparr>)"

definition example_port :: "nat close_port" where
  "example_port =
     \<lparr>cp_chooser = (\<lambda>_. Inr ()), cp_run = (\<lambda>c. if c = 1 then None else Some (OProtocol (- 32000) ''No target with given id'')),
      cp_detach_aux = (\<lambda>_. None), cp_detach = None, cp_close_target = None\<rparr>"

definition example_owned :: "nat ownership_registry" where
  "example_owned = snd (registry_register ''page:t'' 2 new_registry)"

definition example_closing :: "(nat, unit, unit) page_closing" where
  "example_closing = the (finish_page_close example_port example_owned (snd (begin_page_close example_page)))"

theorem closed_page_leaves_nothing_witness:
  "page_quiet (pg_page example_closing) \<and> pg_removed example_closing \<and>
   hb_closed (pt_network_hub (pg_page example_closing)) \<noteq> None \<and>
   pg_command example_closing = Some (RunOwnedTarget ''page:t'' 1)"
proof -
  let ?p = "snd (begin_page_close example_page)"
  have "\<not> Option.is_none (finish_page_close example_port example_owned ?p)" by code_simp
  then have run: "finish_page_close example_port example_owned ?p = Some example_closing"
    by (simp add: example_closing_def Option.is_none_def)
  have inv: "page_inv ?p" by code_simp
  have "pt_ownership ?p = PageCreated" "pt_owned ?p = Some (''page:t'', 1)" "is_complete (pg_report example_closing)" by code_simp+
  with closed_page_leaves_nothing[OF run inv] show ?thesis by simp
qed

end
