(* ===== verification/SessionCore.thy ===== *)
theory SessionCore
  imports PageClose TargetClose Expectations
begin

text \<open>
  A browser session (\<open>src/src/runtime/session.rs\<close>): its pages, the ownership of what it created in the browser,
  the creation of a page as a transaction, attaching, target events, and the close. The registries of the
  runtime that a session uses are part of the state. \<open>ys_sent\<close> records the commands and clean-ups that were
  sent, oldest first.
\<close>

declare map_of_eq_Some_iff [simp del] and Some_eq_map_of_iff [simp del]

subsection \<open>State\<close>

datatype session_kind = DefaultKind | IsolatedKind
datatype session_close_action = CloseCreatedPages | DisposeContextAction

definition session_close_action :: "session_kind \<Rightarrow> session_close_action" where
  "session_close_action kind = (case kind of DefaultKind \<Rightarrow> CloseCreatedPages | IsolatedKind \<Rightarrow> DisposeContextAction)"

text \<open>The clean-up closures of the registries.\<close>

datatype remote_cleanup =
  CloseCreatedTarget ident | DetachSession ident | DisposeContext ident | ResetPermissions | RollbackRoute ident

datatype session_command =
  CmdCreateTarget string "ident option" | CmdAttach ident | CmdTargetInfo ident | CmdTargets | CmdRoute route_command
| CmdCleanup remote_cleanup

datatype session_event =
  PageTargetCreated target_fact | PageTargetChanged target_fact | PageTargetDestroyed ident
| PageOpened ident "ident option" | PageGone ident

datatype runtime_event =
  RtTargetCreated target_fact | RtTargetChanged target_fact | RtTargetDestroyed ident
| RtSessionCreated ident session_kind | RtSessionClosed ident

type_synonym session_page = "(remote_cleanup, unit, unit) page_state"
type_synonym guard = "string \<times> u64"

record session_system =
  ys_runtime :: ident
  ys_id :: ident
  ys_kind :: session_kind
  ys_context :: "ident option"
  ys_options :: context_options
  ys_pages_first :: bool
  ys_gate :: operation_gate
  ys_runtime_gate :: operation_gate
  ys_pages :: "(ident \<times> session_page) list"
  ys_pending :: "remote_cleanup ownership_registry"
  ys_owned :: "remote_cleanup ownership_registry"
  ys_contexts :: "remote_cleanup ownership_registry"
  ys_configuration :: "remote_cleanup ownership_registry"
  ys_ledger :: "cleanup_failure list"
  ys_owned_context :: "guard option"
  ys_permission :: "guard option"
  ys_targets :: "(ident \<times> target_fact) list"
  ys_slot :: manager_slot
  ys_events :: "session_event list"
  ys_events_closed :: "close_reason option"
  ys_runtime_events :: "runtime_event list"
  ys_runtime_ended :: "close_reason option"
  ys_lifecycle_cancelled :: bool
  ys_sent :: "session_command list"

text \<open>A closed hub drops what is published; the first closing decides the terminal.\<close>

definition publish_session :: "session_event \<Rightarrow> session_system \<Rightarrow> session_system" where
  "publish_session e y = (if ys_events_closed y \<noteq> None then y else y\<lparr>ys_events := ys_events y @ [e]\<rparr>)"

definition close_session_events :: "close_reason \<Rightarrow> session_system \<Rightarrow> session_system" where
  "close_session_events r y = (if ys_events_closed y \<noteq> None then y else y\<lparr>ys_events_closed := Some r\<rparr>)"

definition publish_runtime :: "runtime_event \<Rightarrow> session_system \<Rightarrow> session_system" where
  "publish_runtime e y = (if ys_runtime_ended y \<noteq> None then y else y\<lparr>ys_runtime_events := ys_runtime_events y @ [e]\<rparr>)"

definition close_runtime_events :: "close_reason \<Rightarrow> session_system \<Rightarrow> session_system" where
  "close_runtime_events r y = (if ys_runtime_ended y \<noteq> None then y else y\<lparr>ys_runtime_ended := Some r\<rparr>)"

definition send_commands :: "session_command list \<Rightarrow> session_system \<Rightarrow> session_system" where
  "send_commands cs y = y\<lparr>ys_sent := ys_sent y @ cs\<rparr>"

text \<open>Admission through the gates of the runtime and of the session, and the drop of both permits.\<close>

definition session_enter :: "string \<Rightarrow> session_system \<Rightarrow> rt_error + session_system" where
  "session_enter op y =
     and_then (gate_enter op (ys_runtime_gate y)) (\<lambda>rg.
     and_then (gate_enter op (ys_gate y)) (\<lambda>sg.
     Inr (y\<lparr>ys_runtime_gate := rg, ys_gate := sg\<rparr>)))"

definition session_leave :: "session_system \<Rightarrow> session_system" where
  "session_leave y = y\<lparr>ys_runtime_gate := gate_release (ys_runtime_gate y), ys_gate := gate_release (ys_gate y)\<rparr>"

subsection \<open>Ownership of created and attached targets\<close>

definition attachment_resource :: "ident \<Rightarrow> string" where
  "attachment_resource target = ''page-attachment:'' @ target"

definition track_in_pending :: "string \<Rightarrow> remote_cleanup \<Rightarrow> session_system \<Rightarrow> guard \<times> session_system" where
  "track_in_pending resource cleanup y =
     (case registry_register resource cleanup (ys_pending y) of (token, reg) \<Rightarrow> ((resource, token), y\<lparr>ys_pending := reg\<rparr>))"

definition track_in_owned :: "string \<Rightarrow> remote_cleanup \<Rightarrow> session_system \<Rightarrow> guard \<times> session_system" where
  "track_in_owned resource cleanup y =
     (case registry_register resource cleanup (ys_owned y) of (token, reg) \<Rightarrow> ((resource, token), y\<lparr>ys_owned := reg\<rparr>))"

definition track_created_target :: "ident \<Rightarrow> session_system \<Rightarrow> guard \<times> session_system" where
  "track_created_target target y =
     (case ys_kind y of
        DefaultKind \<Rightarrow> track_in_owned (page_resource target) (CloseCreatedTarget target) y
      | IsolatedKind \<Rightarrow> track_in_pending (page_resource target) (CloseCreatedTarget target) y)"

definition track_pending_attachment :: "ident \<Rightarrow> ident \<Rightarrow> session_system \<Rightarrow> guard \<times> session_system" where
  "track_pending_attachment target session = track_in_pending (attachment_resource target) (DetachSession session)"

definition track_oopif_initialization :: "ident \<Rightarrow> session_system \<Rightarrow> guard \<times> session_system" where
  "track_oopif_initialization session = track_in_pending (''oopif-initialization:'' @ session) (DetachSession session)"

text \<open>
  Running the clean-up of a guard; the closure that this caller claimed is recorded as sent. The result is
  \<open>None\<close> while another task runs it.
\<close>

definition claimed :: "guard \<Rightarrow> remote_cleanup ownership_registry \<Rightarrow> session_command list" where
  "claimed g reg = (case fst (registry_claim (fst g) (snd g) reg) of None \<Rightarrow> [] | Some cl \<Rightarrow> [CmdCleanup cl])"

definition cleanup_pending ::
  "(remote_cleanup \<Rightarrow> cleanup_result) \<Rightarrow> guard \<Rightarrow> session_system \<Rightarrow> cleanup_result option \<times> session_system" where
  "cleanup_pending run g y =
     (case guard_cleanup run (fst g) (snd g) (ys_pending y) of
        (r, reg) \<Rightarrow> (r, send_commands (claimed g (ys_pending y)) (y\<lparr>ys_pending := reg\<rparr>)))"

definition cleanup_owned ::
  "(remote_cleanup \<Rightarrow> cleanup_result) \<Rightarrow> guard \<Rightarrow> session_system \<Rightarrow> cleanup_result option \<times> session_system" where
  "cleanup_owned run g y =
     (case guard_cleanup run (fst g) (snd g) (ys_owned y) of
        (r, reg) \<Rightarrow> (r, send_commands (claimed g (ys_owned y)) (y\<lparr>ys_owned := reg\<rparr>)))"

definition cleanup_created ::
  "(remote_cleanup \<Rightarrow> cleanup_result) \<Rightarrow> guard \<Rightarrow> session_system \<Rightarrow> cleanup_result option \<times> session_system" where
  "cleanup_created run g y = (case ys_kind y of DefaultKind \<Rightarrow> cleanup_owned run g y | IsolatedKind \<Rightarrow> cleanup_pending run g y)"

text \<open>Dropping a guard schedules its clean-up; its result stays in the registry for the close to report.\<close>

definition schedule_in :: "(remote_cleanup \<Rightarrow> cleanup_result) \<Rightarrow> guard \<Rightarrow> remote_cleanup ownership_registry \<Rightarrow> remote_cleanup ownership_registry" where
  "schedule_in run g reg =
     (case registry_claim (fst g) (snd g) reg of
        (None, reg') \<Rightarrow> reg'
      | (Some cl, reg') \<Rightarrow> registry_finish (fst g) (snd g) (run cl) reg')"

definition schedule_pending :: "(remote_cleanup \<Rightarrow> cleanup_result) \<Rightarrow> guard \<Rightarrow> session_system \<Rightarrow> session_system" where
  "schedule_pending run g y =
     send_commands (claimed g (ys_pending y)) (y\<lparr>ys_pending := schedule_in run g (ys_pending y)\<rparr>)"

definition schedule_created :: "(remote_cleanup \<Rightarrow> cleanup_result) \<Rightarrow> guard \<Rightarrow> session_system \<Rightarrow> session_system" where
  "schedule_created run g y =
     (case ys_kind y of
        DefaultKind \<Rightarrow> send_commands (claimed g (ys_owned y)) (y\<lparr>ys_owned := schedule_in run g (ys_owned y)\<rparr>)
      | IsolatedKind \<Rightarrow> schedule_pending run g y)"

definition disarm_pending :: "guard \<Rightarrow> session_system \<Rightarrow> session_system" where
  "disarm_pending g y = y\<lparr>ys_pending := registry_disarm (fst g) (snd g) (ys_pending y)\<rparr>"

subsection \<open>Publishing a page\<close>

definition publish_page :: "ident \<Rightarrow> session_page \<Rightarrow> session_system \<Rightarrow> session_system" where
  "publish_page target p y =
     publish_session (PageOpened target (Option.bind (map_of (ys_targets y) target) tf_opener_target_id))
       (y\<lparr>ys_pages := AList.update target p (ys_pages y)\<rparr>)"

definition remove_page_and_publish_closed :: "ident \<Rightarrow> session_system \<Rightarrow> session_system" where
  "remove_page_and_publish_closed target y =
     (if map_of (ys_pages y) target = None then y
      else publish_session (PageGone target) (y\<lparr>ys_pages := AList.delete target (ys_pages y)\<rparr>))"

definition record_page_finalization :: "close_report \<Rightarrow> session_system \<Rightarrow> session_system" where
  "record_page_finalization r y = y\<lparr>ys_ledger := ys_ledger y @ cr_failures r\<rparr>"

definition page_identity :: "session_system \<Rightarrow> ident \<Rightarrow> event_identity" where
  "page_identity y target = for_page target target 0 (for_session (ys_id y) (runtime_identity (ys_runtime y)))"

definition build_page :: "ident \<Rightarrow> page_ownership \<Rightarrow> ident \<Rightarrow> session_system \<Rightarrow> session_page" where
  "build_page target own session y = new_page_state (page_identity y target) target own session"

subsection \<open>Creating a target\<close>

text \<open>
  The creation runs in a task of its own: the browser answers it, the task is lost, or the caller is gone
  when the answer arrives; then the undelivered guard is dropped, which runs the clean-up.
\<close>

datatype 'a task_reply = TaskAnswer "string + 'a" | TaskLost | CallerLeft "string + 'a"

datatype 'a outcome = Returned "rt_error + 'a" | CallerGone

definition task_lost_error :: "string \<Rightarrow> string \<Rightarrow> rt_error" where
  "task_lost_error op message = with_message message (operation_error op Dispatch)"

definition create_target_context :: "session_system \<Rightarrow> ident option" where
  "create_target_context y = (case ys_kind y of IsolatedKind \<Rightarrow> ys_context y | DefaultKind \<Rightarrow> None)"

definition create_target_owned ::
  "(remote_cleanup \<Rightarrow> cleanup_result) \<Rightarrow> ident task_reply \<Rightarrow> session_system \<Rightarrow> (ident \<times> guard) outcome \<times> session_system" where
  "create_target_owned run reply y =
     (case session_enter ''complete page target creation'' y of
        Inl e \<Rightarrow> (Returned (Inl e), y)
      | Inr y0 \<Rightarrow>
          let y1 = send_commands [CmdCreateTarget ''about:blank'' (create_target_context y0)] y0
          in (case reply of
                TaskLost \<Rightarrow> (Returned (Inl (task_lost_error ''create page target''
                              ''page target creation task ended before reporting its result'')), session_leave y1)
              | TaskAnswer (Inl err) \<Rightarrow> (Returned (Inl (from_cdp_error id err)), session_leave y1)
              | TaskAnswer (Inr target) \<Rightarrow>
                  (case track_created_target target y1 of (g, y2) \<Rightarrow> (Returned (Inr (target, g)), session_leave y2))
              | CallerLeft (Inl err) \<Rightarrow> (CallerGone, session_leave y1)
              | CallerLeft (Inr target) \<Rightarrow>
                  (case track_created_target target y1 of (g, y2) \<Rightarrow> (CallerGone, session_leave (schedule_created run g y2)))))"

subsection \<open>The creation transaction\<close>

text \<open>
  What the browser answers during the creation of a page; a stage that is not answered is one in which the
  caller drops the operation. A close of the session may start before or after the target is created.
\<close>

datatype 'a awaited = Answered 'a | Dropped

record new_page_port =
  np_close_first :: bool
  np_create :: "ident task_reply"
  np_attach :: "(string + ident) awaited"
  np_close_later :: bool
  np_store :: "(rt_error + unit) awaited"
  np_baseline :: string
  np_route :: route_port
  np_drop_in_route :: bool
  np_navigate :: "(rt_error + unit) awaited"
  np_run :: "remote_cleanup \<Rightarrow> cleanup_result"

definition close_starts :: "bool \<Rightarrow> session_system \<Rightarrow> session_system" where
  "close_starts b y = (if b then y\<lparr>ys_gate := snd (gate_start_close (ys_gate y))\<rparr> else y)"

definition session_of_page :: "session_page \<Rightarrow> ident" where
  "session_of_page p = pt_cdp_session p"

text \<open>The transaction: the guard of the target, and the installed route with the state of its run.\<close>

record creation =
  tx_target :: ident
  tx_guard :: guard
  tx_page :: "session_page option"
  tx_route :: "(u64 \<times> route_run) option"

definition note_cleanup_failure :: "string \<Rightarrow> cleanup_result \<Rightarrow> rt_error option \<times> session_system \<Rightarrow> rt_error option \<times> session_system" where
  "note_cleanup_failure resource result acc =
     (case acc of (e, y) \<Rightarrow>
        (case result of
           None \<Rightarrow> (e, y)
         | Some failure \<Rightarrow>
             let f = \<lparr>cf_resource = resource, cf_message = show_cleanup_error failure\<rparr>
             in (map_option (with_cleanup_failure f) e, y\<lparr>ys_ledger := ys_ledger y @ [f]\<rparr>)))"

text \<open>The clean-up of the installed route: the claimed closure is the rollback of the marked steps.\<close>

definition cleanup_creation_route ::
  "new_page_port \<Rightarrow> creation \<Rightarrow> session_system \<Rightarrow> (cleanup_result option \<times> session_system)" where
  "cleanup_creation_route port tx y =
     (case (tx_route tx, tx_page tx) of
        (Some (token, route_run), Some p) \<Rightarrow>
          (case rollback_route (np_route port) (np_baseline port) route_run of
             (result, after) \<Rightarrow>
               (case guard_cleanup (\<lambda>_. result) (route_resource (session_of_page p)) token (RouteConfig.rg_pending (pt_routes p)) of
                  (r, _) \<Rightarrow> (r, send_commands (map CmdRoute (drop (length (ru_sent route_run)) (ru_sent after))) y)))
      | _ \<Rightarrow> (Some None, y))"

definition creation_cleanup ::
  "new_page_port \<Rightarrow> creation \<Rightarrow> rt_error option \<Rightarrow> session_system \<Rightarrow> (rt_error option \<times> session_system) option" where
  "creation_cleanup port tx e y =
     (case cleanup_creation_route port tx y of
        (None, _) \<Rightarrow> None
      | (Some route_result, y1) \<Rightarrow>
          (case note_cleanup_failure (''route:'' @ tx_target tx) route_result (e, y1) of
             (e2, y2) \<Rightarrow>
               (case cleanup_created (np_run port) (tx_guard tx) y2 of
                  (None, _) \<Rightarrow> None
                | (Some target_result, y3) \<Rightarrow>
                    (case note_cleanup_failure (page_resource (tx_target tx)) target_result (e2, y3) of
                       (e4, y4) \<Rightarrow> Some (e4, session_leave y4)))))"

text \<open>\<open>fail\<close> and the drop of an unfinished transaction.\<close>

definition creation_fail ::
  "new_page_port \<Rightarrow> creation \<Rightarrow> rt_error \<Rightarrow> session_system \<Rightarrow> (session_page outcome \<times> session_system) option" where
  "creation_fail port tx e y =
     map_option (\<lambda>(e', y'). (Returned (Inl (or_default e e')), y')) (creation_cleanup port tx (Some e) y)"

definition creation_drop ::
  "new_page_port \<Rightarrow> creation \<Rightarrow> session_system \<Rightarrow> (session_page outcome \<times> session_system) option" where
  "creation_drop port tx y = map_option (\<lambda>(_, y'). (CallerGone, y')) (creation_cleanup port tx None y)"

definition finish_success :: "creation \<Rightarrow> session_page \<Rightarrow> session_system \<Rightarrow> session_page \<times> session_system" where
  "finish_success tx p y =
     (let p1 = (case tx_route tx of
                  None \<Rightarrow> p
                | Some (token, _) \<Rightarrow> p\<lparr>pt_routes := snd (retain_route (session_of_page p) token (pt_routes p))\<rparr>)
      in case ys_kind y of
           DefaultKind \<Rightarrow>
             (case retain_owned_target (tx_guard tx) p1 (ys_owned y) of
                (p2, owned) \<Rightarrow> (p2, session_leave (publish_page (tx_target tx) p2 (y\<lparr>ys_owned := owned\<rparr>))))
         | IsolatedKind \<Rightarrow> (p1, session_leave (publish_page (tx_target tx) p1 (disarm_pending (tx_guard tx) y))))"

text \<open>A page operation enters the gates of the runtime, the session and the page, and leaves them at its end.\<close>

definition page_admission :: "string \<Rightarrow> session_page \<Rightarrow> session_system \<Rightarrow> rt_error + unit" where
  "page_admission op p y =
     and_then (session_enter op y) (\<lambda>_. and_then (gate_enter op (pt_gate p)) (\<lambda>_. Inr ()))"

text \<open>The part after the route is configured.\<close>

definition navigate_created ::
  "new_page_port \<Rightarrow> creation \<Rightarrow> session_page \<Rightarrow> session_system \<Rightarrow> (session_page outcome \<times> session_system) option" where
  "navigate_created port tx p y =
     (case np_navigate port of
        Dropped \<Rightarrow> creation_drop port tx y
      | Answered (Inl e) \<Rightarrow> creation_fail port tx e y
      | Answered (Inr _) \<Rightarrow> (case finish_success tx p y of (p', y') \<Rightarrow> Some (Returned (Inr p'), y')))"

text \<open>\<open>prepare_main_route\<close> registers the rollback before the first command is sent.\<close>

definition configure_created ::
  "new_page_port \<Rightarrow> creation \<Rightarrow> session_page \<Rightarrow> session_system \<Rightarrow> (session_page outcome \<times> session_system) option" where
  "configure_created port tx p y =
     (if \<not> has_main_route_configuration (ys_options y) then navigate_created port tx p y
      else case register_route (session_of_page p) (RollbackRoute (session_of_page p)) (pt_routes p) of
        (token, routes) \<Rightarrow>
          (case apply_route (np_route port) (ys_options y) True \<lparr>ru_applied = [], ru_sent = []\<rparr> of
             (r, route_run) \<Rightarrow>
               let p1 = p\<lparr>pt_routes := routes\<rparr>;
                   tx1 = tx\<lparr>tx_page := Some p1, tx_route := Some (token, route_run)\<rparr>;
                   y1 = send_commands (map CmdRoute (ru_sent route_run)) y
               in if np_drop_in_route port then creation_drop port tx1 y1
                  else (case r of Inl e \<Rightarrow> creation_fail port tx1 e y1 | Inr _ \<Rightarrow> navigate_created port tx1 p1 y1)))"

definition initialize_created ::
  "new_page_port \<Rightarrow> creation \<Rightarrow> ident \<Rightarrow> session_system \<Rightarrow> (session_page outcome \<times> session_system) option" where
  "initialize_created port tx session y =
     (let p = build_page (tx_target tx) PageCreated session y;
          y1 = close_starts (np_close_later port) y
      in case page_admission ''initialize created page'' p y1 of
           Inl e \<Rightarrow> creation_fail port tx e y1
         | Inr _ \<Rightarrow>
             (case np_store port of
                Dropped \<Rightarrow> creation_drop port tx y1
              | Answered (Inl e) \<Rightarrow> creation_fail port tx e y1
              | Answered (Inr _) \<Rightarrow> configure_created port (tx\<lparr>tx_page := Some p\<rparr>) p y1))"

definition attach_created ::
  "new_page_port \<Rightarrow> creation \<Rightarrow> session_system \<Rightarrow> (session_page outcome \<times> session_system) option" where
  "attach_created port tx y =
     (let y1 = send_commands [CmdAttach (tx_target tx)] y
      in case np_attach port of
           Dropped \<Rightarrow> creation_drop port tx y1
         | Answered (Inl err) \<Rightarrow> creation_fail port tx (from_cdp_error id err) y1
         | Answered (Inr session) \<Rightarrow> initialize_created port tx session y1)"

definition new_page :: "new_page_port \<Rightarrow> session_system \<Rightarrow> (session_page outcome \<times> session_system) option" where
  "new_page port y =
     (case session_enter ''create page'' y of
        Inl e \<Rightarrow> Some (Returned (Inl e), y)
      | Inr y1 \<Rightarrow>
          (case create_target_owned (np_run port) (np_create port) (close_starts (np_close_first port) y1) of
             (CallerGone, y2) \<Rightarrow> Some (CallerGone, session_leave y2)
           | (Returned (Inl e), y2) \<Rightarrow> Some (Returned (Inl e), session_leave y2)
           | (Returned (Inr (target, g)), y2) \<Rightarrow>
               attach_created port \<lparr>tx_target = target, tx_guard = g, tx_page = None, tx_route = None\<rparr> y2))"

subsection \<open>A creation leaves a page or nothing\<close>

lemma guard_cleanup_claimed:
  assumes "registry_claim k t r = (Some cl, r')"
  shows "guard_cleanup run k t r = (Some (run cl), registry_forget_completion k t (registry_finish k t (run cl) r'))"
  using assms by (simp add: guard_cleanup_def registry_cleanup_one_def)

lemma delete_last: "k \<notin> keys m \<Longrightarrow> AList.delete k (m @ [(k, v)]) = m"
  by (induction m) auto

lemma update_last: "k \<notin> keys m \<Longrightarrow> AList.update k w (m @ [(k, v)]) = m @ [(k, w)]"
  by (induction m) auto

lemma map_of_last: "k \<notin> keys m \<Longrightarrow> map_of (m @ [(k, v)]) k = Some v"
  by (simp add: map_add_def map_of_eq_None_iff[THEN iffD2])

text \<open>A registry whose last entry is a pending clean-up of a new resource.\<close>

definition registered :: "guard \<Rightarrow> 'c \<Rightarrow> (string \<times> 'c pending_entry) list \<Rightarrow> 'c ownership_registry \<Rightarrow> bool" where
  "registered g cl es r \<longleftrightarrow> fst g \<notin> keys es \<and>
     rg_entries r = es @ [(fst g, \<lparr>pe_token = snd g, pe_state = PsPending, pe_cleanup = Some cl\<rparr>)]"

lemma registered_register:
  assumes "resource \<notin> keys (rg_entries r)" "registry_register resource cl r = (token, r')"
  shows "registered (resource, token) cl (rg_entries r) r'"
proof -
  have "k \<notin> keys m \<Longrightarrow> AList.update k v m = m @ [(k, v)]" for k :: string and v and m :: "(string \<times> 'a pending_entry) list"
    by (induction m) auto
  with assms show ?thesis by (auto simp: registered_def registry_register_def Let_def)
qed

lemma registered_claim:
  assumes "registered g cl es r"
  obtains r' where "registry_claim (fst g) (snd g) r = (Some cl, r')"
    "rg_entries (registry_finish (fst g) (snd g) x r') = es"
proof -
  from assms have r: "fst g \<notin> keys es"
      "rg_entries r = es @ [(fst g, \<lparr>pe_token = snd g, pe_state = PsPending, pe_cleanup = Some cl\<rparr>)]"
    by (simp_all add: registered_def)
  have "registry_claim (fst g) (snd g) r
      = (Some cl, r\<lparr>rg_entries := es @ [(fst g, \<lparr>pe_token = snd g, pe_state = PsCleaning, pe_cleanup = None\<rparr>)]\<rparr>)"
    by (simp add: registry_claim_def r(2) map_of_last[OF r(1)] update_last[OF r(1)] del: map_of_append)
  then show thesis
    by (rule that) (simp add: registry_finish_def holds_token_def map_of_last[OF r(1)] delete_last[OF r(1)] del: map_of_append)
qed

lemma registered_effects:
  assumes "registered g cl es r"
  shows "\<exists>r'. guard_cleanup run (fst g) (snd g) r = (Some (run cl), r') \<and> rg_entries r' = es"
    and "rg_entries (schedule_in run g r) = es" and "rg_entries (registry_disarm (fst g) (snd g) r) = es"
proof -
  obtain r1 where r1: "registry_claim (fst g) (snd g) r = (Some cl, r1)"
      "rg_entries (registry_finish (fst g) (snd g) (run cl) r1) = es"
    using registered_claim[OF assms] by metis
  then show "\<exists>r'. guard_cleanup run (fst g) (snd g) r = (Some (run cl), r') \<and> rg_entries r' = es"
    by (simp add: guard_cleanup_claimed registry_forget_completion_def)
  show "rg_entries (schedule_in run g r) = es" using r1 by (simp add: schedule_in_def)
  show "rg_entries (registry_disarm (fst g) (snd g) r) = es"
    using assms by (auto simp: registered_def registry_disarm_def holds_token_def map_of_last delete_last simp del: map_of_append)
qed

lemma registered_claimed: "registered g cl es r \<Longrightarrow> claimed g r = [CmdCleanup cl]"
  by (erule registered_claim) (simp add: claimed_def)

text \<open>
  \<open>holding t g y0 y\<close>: of what \<open>y0\<close> owned nothing is changed, and the new target \<open>t\<close> is pending under the
  guard \<open>g\<close>. \<open>resources_kept\<close>: what was owned before is owned now, and nothing else.
\<close>

definition resources_kept :: "session_system \<Rightarrow> session_system \<Rightarrow> bool" where
  "resources_kept y0 y \<longleftrightarrow>
     ys_pages y = ys_pages y0 \<and> ys_events y = ys_events y0 \<and> rg_entries (ys_pending y) = rg_entries (ys_pending y0) \<and>
     rg_entries (ys_owned y) = rg_entries (ys_owned y0) \<and> og_active (ys_gate y) = og_active (ys_gate y0) \<and>
     og_active (ys_runtime_gate y) = og_active (ys_runtime_gate y0)"

definition target_registered :: "guard \<Rightarrow> ident \<Rightarrow> session_system \<Rightarrow> session_system \<Rightarrow> bool" where
  "target_registered g t y0 y \<longleftrightarrow>
     (case ys_kind y0 of
        DefaultKind \<Rightarrow> registered g (CloseCreatedTarget t) (rg_entries (ys_owned y0)) (ys_owned y)
                      \<and> rg_entries (ys_pending y) = rg_entries (ys_pending y0)
      | IsolatedKind \<Rightarrow> registered g (CloseCreatedTarget t) (rg_entries (ys_pending y0)) (ys_pending y)
                       \<and> rg_entries (ys_owned y) = rg_entries (ys_owned y0))"

definition holding :: "ident \<Rightarrow> guard \<Rightarrow> session_system \<Rightarrow> session_system \<Rightarrow> bool" where
  "holding t g y0 y \<longleftrightarrow>
     ys_kind y = ys_kind y0 \<and> ys_pages y = ys_pages y0 \<and> ys_events y = ys_events y0 \<and> ys_ledger y = ys_ledger y0 \<and>
     og_active (ys_gate y) = Suc (og_active (ys_gate y0)) \<and>
     og_active (ys_runtime_gate y) = Suc (og_active (ys_runtime_gate y0)) \<and> target_registered g t y0 y"

lemma holding_send [simp]: "holding t g y0 (send_commands cs y) = holding t g y0 y"
  by (simp add: holding_def target_registered_def send_commands_def split: session_kind.split)

lemma gate_start_close_active [simp]: "og_active (snd (gate_start_close g)) = og_active g"
  by (simp add: gate_start_close_def split: handle_state.splits)

lemma holding_close_starts [simp]: "holding t g y0 (close_starts b y) = holding t g y0 y"
  by (simp add: holding_def target_registered_def close_starts_def split: session_kind.split)

lemma sent_simps [simp]:
  "ys_sent (send_commands cs y) = ys_sent y @ cs" "ys_sent (close_starts b y) = ys_sent y" "ys_sent (session_leave y) = ys_sent y"
  "ys_ledger (send_commands cs y) = ys_ledger y" "ys_ledger (close_starts b y) = ys_ledger y" "ys_ledger (session_leave y) = ys_ledger y"
  by (simp_all add: send_commands_def close_starts_def session_leave_def)

fun cleanups_of :: "session_command list \<Rightarrow> remote_cleanup list" where
  "cleanups_of [] = []"
| "cleanups_of (CmdCleanup cl # cs) = cl # cleanups_of cs"
| "cleanups_of (_ # cs) = cleanups_of cs"

lemma cleanups_of_append [simp]: "cleanups_of (cs @ ds) = cleanups_of cs @ cleanups_of ds"
  by (induction cs rule: cleanups_of.induct) simp_all

lemma cleanups_of_routes [simp]: "cleanups_of (map CmdRoute rs) = []"
  by (induction rs) simp_all

lemma cleanup_created_effect:
  assumes "holding t g y0 y"
  shows "\<exists>y'. cleanup_created run g y = (Some (run (CloseCreatedTarget t)), y') \<and> resources_kept y0 (session_leave y') \<and>
    ys_sent y' = ys_sent y @ [CmdCleanup (CloseCreatedTarget t)] \<and> ys_ledger y' = ys_ledger y"
proof (cases "ys_kind y0")
  case DefaultKind
  with assms have r: "registered g (CloseCreatedTarget t) (rg_entries (ys_owned y0)) (ys_owned y)"
      "rg_entries (ys_pending y) = rg_entries (ys_pending y0)" "ys_kind y = DefaultKind"
    by (simp_all add: holding_def target_registered_def)
  from registered_effects(1)[OF r(1), of run] registered_claimed[OF r(1)] r assms show ?thesis
    by (auto simp: cleanup_created_def cleanup_owned_def resources_kept_def holding_def session_leave_def send_commands_def gate_release_def)
next
  case IsolatedKind
  with assms have r: "registered g (CloseCreatedTarget t) (rg_entries (ys_pending y0)) (ys_pending y)"
      "rg_entries (ys_owned y) = rg_entries (ys_owned y0)" "ys_kind y = IsolatedKind"
    by (simp_all add: holding_def target_registered_def)
  from registered_effects(1)[OF r(1), of run] registered_claimed[OF r(1)] r assms show ?thesis
    by (auto simp: cleanup_created_def cleanup_pending_def resources_kept_def holding_def session_leave_def send_commands_def gate_release_def)
qed

text \<open>An installed route is registered in its page, so its clean-up can be claimed.\<close>

definition route_ready :: "creation \<Rightarrow> bool" where
  "route_ready tx \<longleftrightarrow>
     (case tx_route tx of
        None \<Rightarrow> True
      | Some (token, _) \<Rightarrow>
          (\<exists>p cl es. tx_page tx = Some p \<and>
             registered (route_resource (session_of_page p), token) cl es (RouteConfig.rg_pending (pt_routes p))))"

lemma creation_route_effect:
  assumes "route_ready tx"
  shows "\<exists>result rs. cleanup_creation_route port tx y = (Some result, send_commands (map CmdRoute rs) y)"
proof (cases "tx_route tx")
  case None
  then show ?thesis
    by (intro exI[of _ None] exI[of _ "[]"]) (simp add: cleanup_creation_route_def send_commands_def)
next
  case (Some tr)
  obtain token route_run where tr: "tr = (token, route_run)" by (cases tr)
  with Some assms obtain p cl es where p: "tx_page tx = Some p"
      "registered (route_resource (session_of_page p), token) cl es (RouteConfig.rg_pending (pt_routes p))"
    by (auto simp: route_ready_def)
  obtain result after where rb: "rollback_route (np_route port) (np_baseline port) route_run = (result, after)" by fastforce
  from registered_effects(1)[OF p(2), of "\<lambda>_. result"] Some tr p(1) rb show ?thesis
    by (auto simp: cleanup_creation_route_def)
qed

text \<open>Noting a failure appends it to the error and to the ledger.\<close>

definition failure_note :: "string \<Rightarrow> cleanup_result \<Rightarrow> cleanup_failure list" where
  "failure_note resource result =
     (case result of None \<Rightarrow> [] | Some f \<Rightarrow> [\<lparr>cf_resource = resource, cf_message = show_cleanup_error f\<rparr>])"

definition add_failures :: "cleanup_failure list \<Rightarrow> rt_error \<Rightarrow> rt_error" where
  "add_failures fs e = e\<lparr>be_cleanup_failures := be_cleanup_failures e @ fs\<rparr>"

lemma add_failures_simps [simp]:
  "add_failures [] e = e" "add_failures gs (add_failures fs e) = add_failures (fs @ gs) e"
  "be_cleanup_failures (add_failures fs e) = be_cleanup_failures e @ fs"
  by (simp_all add: add_failures_def)

lemma note_cleanup_failure_eq:
  "note_cleanup_failure resource result (e, y)
     = (map_option (add_failures (failure_note resource result)) e,
        y\<lparr>ys_ledger := ys_ledger y @ failure_note resource result\<rparr>)"
proof (cases result)
  case None
  then show ?thesis by (cases e) (simp_all add: note_cleanup_failure_def failure_note_def)
next
  case (Some f)
  then show ?thesis
    by (cases e) (simp_all add: note_cleanup_failure_def failure_note_def with_cleanup_failure_def add_failures_def Let_def)
qed

lemma cleanup_created_ledger:
  "cleanup_created run g (y\<lparr>ys_ledger := l\<rparr>) = (case cleanup_created run g y of (r, y') \<Rightarrow> (r, y'\<lparr>ys_ledger := l\<rparr>))"
  by (simp add: cleanup_created_def cleanup_owned_def cleanup_pending_def send_commands_def split: session_kind.split prod.split)

text \<open>The failures of the clean-up are in the ledger of the session and, if there is one, in the error.\<close>

definition cleaned_up :: "new_page_port \<Rightarrow> ident \<Rightarrow> session_system \<Rightarrow> session_system \<Rightarrow> rt_error option \<Rightarrow> rt_error option \<Rightarrow> session_system \<Rightarrow> bool" where
  "cleaned_up port t y0 y e e' y' \<longleftrightarrow>
     resources_kept y0 y' \<and> (\<exists>rs. ys_sent y' = ys_sent y @ map CmdRoute rs @ [CmdCleanup (CloseCreatedTarget t)]) \<and>
     (\<exists>fs. ys_ledger y' = ys_ledger y0 @ fs \<and> e' = map_option (add_failures fs) e \<and>
        (np_run port (CloseCreatedTarget t) \<noteq> None \<longrightarrow> page_resource t \<in> cf_resource ` set fs))"

lemma creation_cleanup_effect:
  assumes "holding t g y0 y" "tx_target tx = t" "tx_guard tx = g" "route_ready tx"
  shows "\<exists>e' y'. creation_cleanup port tx e y = Some (e', y') \<and> cleaned_up port t y0 y e e' y'"
proof -
  obtain result rs where route: "cleanup_creation_route port tx y = (Some result, send_commands (map CmdRoute rs) y)"
    using creation_route_effect[OF assms(4)] by blast
  define closing where "closing = np_run port (CloseCreatedTarget t)"
  obtain y3 where y3: "cleanup_created (np_run port) g (send_commands (map CmdRoute rs) y) = (Some closing, y3)"
      "resources_kept y0 (session_leave y3)" "ys_sent y3 = ys_sent y @ map CmdRoute rs @ [CmdCleanup (CloseCreatedTarget t)]"
    using cleanup_created_effect[of t g y0 "send_commands (map CmdRoute rs) y" "np_run port"] assms(1)
    by (auto simp: closing_def)
  define fs where "fs = failure_note (''route:'' @ t) result @ failure_note (page_resource t) closing"
  define y4 where "y4 = session_leave (y3\<lparr>ys_ledger := ys_ledger y @ fs\<rparr>)"
  have "creation_cleanup port tx e y = Some (map_option (add_failures fs) e, y4)"
    by (cases e)
      (simp_all add: creation_cleanup_def route note_cleanup_failure_eq cleanup_created_ledger assms(2,3) y3(1) fs_def y4_def)
  moreover have "resources_kept y0 y4" using y3(2) by (simp add: y4_def resources_kept_def session_leave_def)
  moreover have "ys_ledger y4 = ys_ledger y0 @ fs" "ys_sent y4 = ys_sent y3"
    using assms(1) by (simp_all add: y4_def holding_def)
  moreover have "closing \<noteq> None \<longrightarrow> page_resource t \<in> cf_resource ` set fs"
    by (auto simp: fs_def failure_note_def)
  ultimately show ?thesis using y3(3)
    by (intro exI[of _ "map_option (add_failures fs) e"] exI[of _ y4])
      (simp add: cleaned_up_def closing_def, (intro conjI exI[of _ rs] exI[of _ fs]; simp))
qed

text \<open>
  How a creation whose target \<open>t\<close> exists may end: with the published page that owns the target, without any
  clean-up; or with everything as before and the target closed exactly once, as the last command.
\<close>

definition page_published :: "ident \<Rightarrow> guard \<Rightarrow> session_page \<Rightarrow> session_system \<Rightarrow> session_system \<Rightarrow> bool" where
  "page_published t g p y0 y' \<longleftrightarrow>
     ys_pages y' = AList.update t p (ys_pages y0) \<and> pt_ownership p = PageCreated \<and> ys_ledger y' = ys_ledger y0 \<and>
     og_active (ys_gate y') = og_active (ys_gate y0) \<and> og_active (ys_runtime_gate y') = og_active (ys_runtime_gate y0) \<and>
     (case ys_kind y0 of
        DefaultKind \<Rightarrow> pt_owned p = Some g \<and> target_registered g t y0 y'
      | IsolatedKind \<Rightarrow> pt_owned p = None \<and> rg_entries (ys_pending y') = rg_entries (ys_pending y0)
                       \<and> rg_entries (ys_owned y') = rg_entries (ys_owned y0))"

definition nothing_left :: "new_page_port \<Rightarrow> ident \<Rightarrow> session_page outcome \<Rightarrow> session_system \<Rightarrow> session_system \<Rightarrow> bool" where
  "nothing_left port t out y0 y' \<longleftrightarrow>
     resources_kept y0 y' \<and>
     (\<exists>fs. ys_ledger y' = ys_ledger y0 @ fs \<and>
        (case out of Returned (Inl e) \<Rightarrow> \<exists>e0. e = add_failures fs e0 | _ \<Rightarrow> True) \<and>
        (np_run port (CloseCreatedTarget t) \<noteq> None \<longrightarrow> page_resource t \<in> cf_resource ` set fs))"

definition creation_ended ::
  "new_page_port \<Rightarrow> ident \<Rightarrow> guard \<Rightarrow> session_system \<Rightarrow> session_system \<Rightarrow> (session_page outcome \<times> session_system) option \<Rightarrow> bool" where
  "creation_ended port t g y0 y result \<longleftrightarrow>
     (\<exists>out y' cs. result = Some (out, y') \<and> ys_sent y' = ys_sent y @ cs \<and>
        (case out of
           Returned (Inr p) \<Rightarrow> cleanups_of cs = [] \<and> page_published t g p y0 y'
         | _ \<Rightarrow> cleanups_of cs = [CloseCreatedTarget t] \<and> last cs = CmdCleanup (CloseCreatedTarget t) \<and> nothing_left port t out y0 y'))"

lemma creation_ended_later:
  assumes "creation_ended port t g y0 z result" "ys_sent z = ys_sent y @ ds" "cleanups_of ds = []"
  shows "creation_ended port t g y0 y result"
proof -
  from assms(1) obtain out y' cs where r: "result = Some (out, y')" "ys_sent y' = ys_sent z @ cs"
      "case out of
         Returned (Inr p) \<Rightarrow> cleanups_of cs = [] \<and> page_published t g p y0 y'
       | _ \<Rightarrow> cleanups_of cs = [CloseCreatedTarget t] \<and> last cs = CmdCleanup (CloseCreatedTarget t) \<and> nothing_left port t out y0 y'"
    unfolding creation_ended_def by blast
  have "cs \<noteq> []" if "cleanups_of cs = [CloseCreatedTarget t]" using that by auto
  with r assms(2,3) show ?thesis
    unfolding creation_ended_def
    by (intro exI[of _ out] exI[of _ y'] exI[of _ "ds @ cs"]) (auto split: outcome.splits sum.splits)
qed

lemma creation_fail_ends:
  assumes "holding t g y0 y" "tx_target tx = t" "tx_guard tx = g" "route_ready tx"
  shows "creation_ended port t g y0 y (creation_fail port tx e y)" and "creation_ended port t g y0 y (creation_drop port tx y)"
proof -
  obtain e' y' where c: "creation_cleanup port tx (Some e) y = Some (e', y')" "cleaned_up port t y0 y (Some e) e' y'"
    using creation_cleanup_effect[OF assms] by blast
  then obtain rs fs where d: "ys_sent y' = ys_sent y @ map CmdRoute rs @ [CmdCleanup (CloseCreatedTarget t)]"
      "resources_kept y0 y'" "ys_ledger y' = ys_ledger y0 @ fs" "e' = Some (add_failures fs e)"
      "np_run port (CloseCreatedTarget t) \<noteq> None \<longrightarrow> page_resource t \<in> cf_resource ` set fs"
    by (auto simp: cleaned_up_def)
  have "nothing_left port t (Returned (Inl (add_failures fs e))) y0 y'"
    using d by (auto simp: nothing_left_def)
  then show "creation_ended port t g y0 y (creation_fail port tx e y)"
    using c(1) d unfolding creation_ended_def
    by (intro exI[of _ "Returned (Inl (add_failures fs e))"] exI[of _ y'] exI[of _ "map CmdRoute rs @ [CmdCleanup (CloseCreatedTarget t)]"])
      (simp add: creation_fail_def)
next
  obtain e' y' where c: "creation_cleanup port tx None y = Some (e', y')" "cleaned_up port t y0 y None e' y'"
    using creation_cleanup_effect[OF assms] by blast
  then obtain rs fs where d: "ys_sent y' = ys_sent y @ map CmdRoute rs @ [CmdCleanup (CloseCreatedTarget t)]"
      "resources_kept y0 y'" "ys_ledger y' = ys_ledger y0 @ fs"
      "np_run port (CloseCreatedTarget t) \<noteq> None \<longrightarrow> page_resource t \<in> cf_resource ` set fs"
    by (auto simp: cleaned_up_def)
  have "nothing_left port t CallerGone y0 y'" using d by (auto simp: nothing_left_def)
  then show "creation_ended port t g y0 y (creation_drop port tx y)"
    using c(1) d unfolding creation_ended_def
    by (intro exI[of _ CallerGone] exI[of _ y'] exI[of _ "map CmdRoute rs @ [CmdCleanup (CloseCreatedTarget t)]"])
      (simp add: creation_drop_def)
qed

lemma publish_page_simps:
  "ys_pages (publish_page t p y) = AList.update t p (ys_pages y)" "ys_ledger (publish_page t p y) = ys_ledger y"
  "ys_pending (publish_page t p y) = ys_pending y" "ys_owned (publish_page t p y) = ys_owned y"
  "ys_gate (publish_page t p y) = ys_gate y" "ys_runtime_gate (publish_page t p y) = ys_runtime_gate y"
  "ys_sent (publish_page t p y) = ys_sent y"
  by (simp_all add: publish_page_def publish_session_def)

lemma finish_success_publishes:
  assumes "holding t g y0 y" "tx_target tx = t" "tx_guard tx = g" "pt_ownership p = PageCreated" "pt_owned p = None"
    and "finish_success tx p y = (p', y')"
  shows "page_published t g p' y0 y'" and "ys_sent y' = ys_sent y"
proof -
  define p1 where "p1 = (case tx_route tx of None \<Rightarrow> p
     | Some (token, _) \<Rightarrow> p\<lparr>pt_routes := snd (retain_route (session_of_page p) token (pt_routes p))\<rparr>)"
  have p1: "pt_ownership p1 = PageCreated" "pt_owned p1 = None"
    using assms(4,5) by (simp_all add: p1_def split: option.split prod.split)
  have "page_published t g p' y0 y' \<and> ys_sent y' = ys_sent y"
  proof (cases "ys_kind y0")
    case DefaultKind
    with assms(1) have y: "ys_kind y = DefaultKind" by (simp add: holding_def)
    have "p' = p1\<lparr>pt_owned := Some g\<rparr>" "y' = session_leave (publish_page t p' y)"
      using assms(2,3,6) y p1(2) by (auto simp: finish_success_def p1_def[symmetric] retain_owned_target_def Let_def)
    then show ?thesis using assms(1) DefaultKind p1
      by (simp add: page_published_def holding_def target_registered_def session_leave_def publish_page_simps gate_release_def)
  next
    case IsolatedKind
    with assms(1) have y: "ys_kind y = IsolatedKind"
        and r: "registered g (CloseCreatedTarget t) (rg_entries (ys_pending y0)) (ys_pending y)"
      by (simp_all add: holding_def target_registered_def)
    have "p' = p1" "y' = session_leave (publish_page t p1 (disarm_pending g y))"
      using assms(2,3,6) y by (auto simp: finish_success_def p1_def[symmetric] Let_def)
    then show ?thesis using assms(1) IsolatedKind p1 registered_effects(3)[OF r]
      by (simp add: page_published_def holding_def target_registered_def session_leave_def publish_page_simps gate_release_def
          disarm_pending_def)
  qed
  then show "page_published t g p' y0 y'" "ys_sent y' = ys_sent y" by simp_all
qed

lemma navigate_created_ends:
  assumes "holding t g y0 y" "tx_target tx = t" "tx_guard tx = g" "route_ready tx" "pt_ownership p = PageCreated" "pt_owned p = None"
  shows "creation_ended port t g y0 y (navigate_created port tx p y)"
proof (cases "np_navigate port")
  case Dropped
  then show ?thesis using creation_fail_ends(2)[OF assms(1-4)] by (simp add: navigate_created_def)
next
  case (Answered r)
  show ?thesis
  proof (cases r)
    case (Inl e)
    then show ?thesis using Answered creation_fail_ends(1)[OF assms(1-4)] by (simp add: navigate_created_def)
  next
    case (Inr u)
    obtain p' y' where f: "finish_success tx p y = (p', y')" by fastforce
    from finish_success_publishes[OF assms(1-3,5,6) f] Answered Inr f show ?thesis
      unfolding creation_ended_def
      by (intro exI[of _ "Returned (Inr p')"] exI[of _ y'] exI[of _ "[]"]) (simp add: navigate_created_def)
  qed
qed

lemma configure_created_ends:
  assumes "holding t g y0 y" "tx_target tx = t" "tx_guard tx = g" "tx_route tx = None" "pt_ownership p = PageCreated"
    "pt_owned p = None" "pt_routes p = new_route_registry"
  shows "creation_ended port t g y0 y (configure_created port tx p y)"
proof (cases "has_main_route_configuration (ys_options y)")
  case False
  then show ?thesis using navigate_created_ends[OF assms(1-3) _ assms(5,6)] assms(4)
    by (simp add: configure_created_def route_ready_def)
next
  case True
  let ?session = "session_of_page p"
  obtain token routes where reg: "register_route ?session (RollbackRoute ?session) (pt_routes p) = (token, routes)" by fastforce
  obtain r route_run where run: "apply_route (np_route port) (ys_options y) True \<lparr>ru_applied = [], ru_sent = []\<rparr> = (r, route_run)"
    by fastforce
  define p1 where "p1 = p\<lparr>pt_routes := routes\<rparr>"
  define tx1 where "tx1 = tx\<lparr>tx_page := Some p1, tx_route := Some (token, route_run)\<rparr>"
  define y1 where "y1 = send_commands (map CmdRoute (ru_sent route_run)) y"
  have ready: "route_ready tx1"
  proof -
    have "registered (route_resource ?session, token) (RollbackRoute ?session) (rg_entries (RouteConfig.rg_pending (pt_routes p)))
        (RouteConfig.rg_pending routes)"
    proof (rule registered_register)
      show "route_resource ?session \<notin> keys (rg_entries (RouteConfig.rg_pending (pt_routes p)))"
        by (simp add: assms(7) new_route_registry_def new_registry_def)
      show "registry_register (route_resource ?session) (RollbackRoute ?session) (RouteConfig.rg_pending (pt_routes p))
          = (token, RouteConfig.rg_pending routes)"
        using reg by (auto simp: register_route_def split: prod.splits)
    qed
    then show ?thesis by (auto simp: route_ready_def tx1_def p1_def session_of_page_def)
  qed
  have held: "holding t g y0 y1" "tx_target tx1 = t" "tx_guard tx1 = g" "pt_ownership p1 = PageCreated" "pt_owned p1 = None"
    using assms by (simp_all add: y1_def tx1_def p1_def)
  have "creation_ended port t g y0 y1 (configure_created port tx p y)"
    using creation_fail_ends[OF held(1-3) ready] navigate_created_ends[OF held(1-3) ready held(4,5)] True reg run
    by (simp add: configure_created_def y1_def[symmetric] tx1_def[symmetric] p1_def[symmetric] Let_def split: sum.split)
  then show ?thesis by (rule creation_ended_later[of _ _ _ _ _ _ _ "map CmdRoute (ru_sent route_run)"]) (simp_all add: y1_def)
qed

lemma initialize_created_ends:
  assumes "holding t g y0 y" "tx_target tx = t" "tx_guard tx = g" "tx_route tx = None"
  shows "creation_ended port t g y0 y (initialize_created port tx session y)"
proof -
  define y1 where "y1 = close_starts (np_close_later port) y"
  have held: "holding t g y0 y1" "ys_sent y1 = ys_sent y" using assms(1) by (simp_all add: y1_def)
  have page: "pt_ownership (build_page t PageCreated session y) = PageCreated" "pt_owned (build_page t PageCreated session y) = None"
      "pt_routes (build_page t PageCreated session y) = new_route_registry"
    by (simp_all add: build_page_def new_page_state_def)
  have ready: "route_ready tx" using assms(4) by (simp add: route_ready_def)
  have "creation_ended port t g y0 y1 (initialize_created port tx session y)"
    using creation_fail_ends[OF held(1) assms(2,3) ready]
      configure_created_ends[OF held(1), of "tx\<lparr>tx_page := Some (build_page t PageCreated session y)\<rparr>", OF _ _ _ page] assms(2-4)
    by (simp add: initialize_created_def y1_def[symmetric] Let_def split: sum.split awaited.split)
  then show ?thesis by (rule creation_ended_later[of _ _ _ _ _ _ _ "[]"]) (simp_all add: held(2))
qed

lemma attach_created_ends:
  assumes "holding t g y0 y" "tx_target tx = t" "tx_guard tx = g" "tx_route tx = None"
  shows "creation_ended port t g y0 y (attach_created port tx y)"
proof -
  define y1 where "y1 = send_commands [CmdAttach t] y"
  have held: "holding t g y0 y1" using assms(1) by (simp add: y1_def)
  have ready: "route_ready tx" using assms(4) by (simp add: route_ready_def)
  have "creation_ended port t g y0 y1 (attach_created port tx y)"
    using creation_fail_ends[OF held assms(2,3) ready] initialize_created_ends[OF held assms(2-4)] assms(2)
    by (simp add: attach_created_def y1_def[symmetric] Let_def split: sum.split awaited.split)
  then show ?thesis by (rule creation_ended_later[of _ _ _ _ _ _ _ "[CmdAttach t]"]) (simp_all add: y1_def)
qed

text \<open>What the creation of a target does to the state, and what the browser called it.\<close>

definition created_target :: "new_page_port \<Rightarrow> ident option" where
  "created_target port =
     (case np_create port of TaskAnswer (Inr t) \<Rightarrow> Some t | CallerLeft (Inr t) \<Rightarrow> Some t | _ \<Rightarrow> None)"

definition fresh_target :: "ident \<Rightarrow> session_system \<Rightarrow> bool" where
  "fresh_target t y \<longleftrightarrow> page_resource t \<notin> keys (rg_entries (ys_pending y)) \<and> page_resource t \<notin> keys (rg_entries (ys_owned y))"

lemma track_created_keeps:
  assumes "track_created_target t y = (g, y')"
  shows "ys_gate y' = ys_gate y" "ys_runtime_gate y' = ys_runtime_gate y" "ys_pages y' = ys_pages y" "ys_events y' = ys_events y"
    "ys_ledger y' = ys_ledger y" "ys_kind y' = ys_kind y" "ys_sent y' = ys_sent y"
  using assms
  by (auto simp: track_created_target_def track_in_owned_def track_in_pending_def split: session_kind.splits prod.splits)

lemma track_created_registered:
  assumes "fresh_target t y" "track_created_target t y = (g, y')"
  shows "target_registered g t y y'"
proof (cases "ys_kind y")
  case DefaultKind
  obtain token reg where r: "registry_register (page_resource t) (CloseCreatedTarget t) (ys_owned y) = (token, reg)" by fastforce
  have "page_resource t \<notin> keys (rg_entries (ys_owned y))" using assms(1) by (simp add: fresh_target_def)
  from registered_register[OF this r] assms(2) r DefaultKind show ?thesis
    by (auto simp: track_created_target_def track_in_owned_def target_registered_def)
next
  case IsolatedKind
  obtain token reg where r: "registry_register (page_resource t) (CloseCreatedTarget t) (ys_pending y) = (token, reg)" by fastforce
  have "page_resource t \<notin> keys (rg_entries (ys_pending y))" using assms(1) by (simp add: fresh_target_def)
  from registered_register[OF this r] assms(2) r IsolatedKind show ?thesis
    by (auto simp: track_created_target_def track_in_pending_def target_registered_def)
qed

lemma schedule_created_effect:
  assumes "target_registered g t y0 y" "ys_kind y = ys_kind y0"
  shows "rg_entries (ys_pending (schedule_created run g y)) = rg_entries (ys_pending y0)"
    "rg_entries (ys_owned (schedule_created run g y)) = rg_entries (ys_owned y0)"
    "ys_sent (schedule_created run g y) = ys_sent y @ [CmdCleanup (CloseCreatedTarget t)]"
    "ys_gate (schedule_created run g y) = ys_gate y" "ys_runtime_gate (schedule_created run g y) = ys_runtime_gate y"
    "ys_pages (schedule_created run g y) = ys_pages y" "ys_events (schedule_created run g y) = ys_events y"
  using assms
  by (cases "ys_kind y0"; auto simp: target_registered_def schedule_created_def schedule_pending_def send_commands_def
      registered_effects(2) registered_claimed)+

text \<open>The end of a creation seen from before it: the target was never created, or \<open>creation_ended\<close>.\<close>

definition page_creation_ended ::
  "new_page_port \<Rightarrow> session_system \<Rightarrow> session_page outcome \<Rightarrow> session_system \<Rightarrow> session_command list \<Rightarrow> bool" where
  "page_creation_ended port y out y' cs \<longleftrightarrow>
     (case out of
        Returned (Inr p) \<Rightarrow>
          (\<exists>t g. created_target port = Some t \<and> cleanups_of cs = [] \<and> page_published t g p y y')
      | _ \<Rightarrow>
          resources_kept y y' \<and>
          (if cs = [] then True
           else case created_target port of
                  None \<Rightarrow> cleanups_of cs = []
                | Some t \<Rightarrow> cleanups_of cs = [CloseCreatedTarget t] \<and> last cs = CmdCleanup (CloseCreatedTarget t) \<and>
                          (np_create port = TaskAnswer (Inr t) \<longrightarrow> nothing_left port t out y y')))"

lemma session_enter_Inr:
  "session_enter op y = Inr y' \<Longrightarrow> og_active (ys_gate y') = Suc (og_active (ys_gate y)) \<and>
     og_active (ys_runtime_gate y') = Suc (og_active (ys_runtime_gate y)) \<and>
     (\<exists>rg sg. y' = y\<lparr>ys_runtime_gate := rg, ys_gate := sg\<rparr>)"
  by (auto simp: session_enter_def and_then_Inr gate_enter_def split: if_splits)

text \<open>The task that creates the target, seen from the state \<open>y0\<close> before the outer operation was admitted.\<close>

definition entered :: "session_system \<Rightarrow> session_system \<Rightarrow> bool" where
  "entered y0 y \<longleftrightarrow> og_active (ys_gate y) = Suc (og_active (ys_gate y0)) \<and>
     og_active (ys_runtime_gate y) = Suc (og_active (ys_runtime_gate y0)) \<and>
     ys_pages y = ys_pages y0 \<and> ys_events y = ys_events y0 \<and> ys_ledger y = ys_ledger y0 \<and> ys_kind y = ys_kind y0 \<and>
     ys_pending y = ys_pending y0 \<and> ys_owned y = ys_owned y0 \<and> ys_sent y = ys_sent y0"

lemma session_enter_entered: "session_enter op y = Inr y' \<Longrightarrow> entered y y'"
  by (drule session_enter_Inr) (auto simp: entered_def)

lemma entered_close_starts: "entered y0 y \<Longrightarrow> entered y0 (close_starts b y)"
  by (simp add: entered_def close_starts_def)

definition target_creation_ended ::
  "new_page_port \<Rightarrow> session_system \<Rightarrow> (ident \<times> guard) outcome \<Rightarrow> session_system \<Rightarrow> session_command list \<Rightarrow> bool" where
  "target_creation_ended port y0 out y' cs \<longleftrightarrow>
     (case out of
        Returned (Inr (t, g)) \<Rightarrow> created_target port = Some t \<and> holding t g y0 y' \<and> cleanups_of cs = [] \<and> cs \<noteq> []
      | _ \<Rightarrow> resources_kept y0 (session_leave y') \<and>
          (cs = [] \<or> (case created_target port of
             None \<Rightarrow> cleanups_of cs = []
           | Some t \<Rightarrow> cleanups_of cs = [CloseCreatedTarget t] \<and> last cs = CmdCleanup (CloseCreatedTarget t) \<and>
                      (\<exists>r. np_create port = CallerLeft r))))"

lemma create_target_effect:
  assumes "entered y0 y" and fresh: "\<forall>t. created_target port = Some t \<longrightarrow> fresh_target t y0"
    and run: "create_target_owned (np_run port) (np_create port) y = (out, y')"
  shows "\<exists>cs. ys_sent y' = ys_sent y @ cs \<and> target_creation_ended port y0 out y' cs"
proof (cases "session_enter ''complete page target creation'' y")
  case (Inl e)
  with run assms(1) show ?thesis
    by (auto simp: create_target_owned_def target_creation_ended_def resources_kept_def session_leave_def entered_def gate_release_def)
next
  case (Inr z)
  define z1 where "z1 = send_commands [CmdCreateTarget ''about:blank'' (create_target_context z)] z"
  from session_enter_entered[OF Inr] assms(1)
  have z1: "og_active (ys_gate z1) = og_active (ys_gate y0) + 2" "og_active (ys_runtime_gate z1) = og_active (ys_runtime_gate y0) + 2"
      "ys_pages z1 = ys_pages y0" "ys_events z1 = ys_events y0" "ys_ledger z1 = ys_ledger y0" "ys_kind z1 = ys_kind y0"
      "ys_pending z1 = ys_pending y0" "ys_owned z1 = ys_owned y0"
      "ys_sent z1 = ys_sent y @ [CmdCreateTarget ''about:blank'' (create_target_context z)]"
    by (simp_all add: z1_def send_commands_def entered_def)
  have kept: "resources_kept y0 (session_leave (session_leave z1))"
    using z1 by (simp add: resources_kept_def session_leave_def gate_release_def)
  have tracked: "holding t g y0 (session_leave z2) \<and> target_registered g t y0 z2 \<and> ys_kind z2 = ys_kind y0"
    if "created_target port = Some t" "track_created_target t z1 = (g, z2)" for t g z2
  proof -
    have "fresh_target t z1" using fresh that(1) z1 by (simp add: fresh_target_def)
    from track_created_registered[OF this that(2)] z1 have r: "target_registered g t y0 z2"
      by (cases "ys_kind y0") (simp_all add: target_registered_def)
    then have "target_registered g t y0 (session_leave z2)"
      by (cases "ys_kind y0") (simp_all add: target_registered_def session_leave_def)
    with r track_created_keeps[OF that(2)] z1 show ?thesis
      by (simp add: holding_def session_leave_def gate_release_def)
  qed
  show ?thesis
  proof (cases "created_target port")
    case None
    then have "y' = session_leave z1" "\<forall>t g. out \<noteq> Returned (Inr (t, g))"
      using run Inr
      by (auto simp: create_target_owned_def created_target_def z1_def[symmetric] Let_def split: task_reply.splits sum.splits)
    then show ?thesis using kept None z1
      by (auto simp: target_creation_ended_def split: outcome.splits sum.splits)
  next
    case (Some t)
    obtain g z2 where t: "track_created_target t z1 = (g, z2)" by fastforce
    note h = tracked[OF Some t] and k = track_created_keeps[OF t]
    from Some consider (answer) "np_create port = TaskAnswer (Inr t)" | (left) "np_create port = CallerLeft (Inr t)"
      by (auto simp: created_target_def split: task_reply.splits sum.splits)
    then show ?thesis
    proof cases
      case answer
      with run Inr t have "out = Returned (Inr (t, g))" "y' = session_leave z2"
        by (simp_all add: create_target_owned_def z1_def[symmetric])
      then show ?thesis using h k z1 Some by (simp add: target_creation_ended_def)
    next
      case left
      with run Inr t have "out = CallerGone" "y' = session_leave (schedule_created (np_run port) g z2)"
        by (simp_all add: create_target_owned_def z1_def[symmetric])
      then show ?thesis using h k z1 Some left schedule_created_effect[of g t y0 z2 "np_run port"]
        by (simp add: target_creation_ended_def resources_kept_def session_leave_def gate_release_def)
    qed
  qed
qed

text \<open>
  C3: For a target the browser has not named before, the creation of a page always comes to an end, and then
  either the page is published and owns its target, or everything the session owns is as before. In the
  second case no target was created, or exactly one clean-up was sent for it, after the rollback of the route
  and as the last command; a caller that stayed gets every failed clean-up in its error, and the ledger of the
  session keeps it for the close. This holds for every refusal, every lost reply, every point at which the
  caller drops the operation, and when the session starts to close in between.
\<close>

theorem page_creation_all_or_nothing:
  assumes "\<forall>t. created_target port = Some t \<longrightarrow> fresh_target t y"
  shows "\<exists>out y' cs. new_page port y = Some (out, y') \<and> ys_sent y' = ys_sent y @ cs \<and> page_creation_ended port y out y' cs"
proof (cases "session_enter ''create page'' y")
  case (Inl e)
  then show ?thesis
    by (intro exI[of _ "Returned (Inl e)"] exI[of _ y] exI[of _ "[]"]) (simp add: new_page_def page_creation_ended_def resources_kept_def)
next
  case (Inr y1)
  define y2 where "y2 = close_starts (np_close_first port) y1"
  have e: "entered y y2" unfolding y2_def by (rule entered_close_starts[OF session_enter_entered[OF Inr]])
  obtain out y3 where c: "create_target_owned (np_run port) (np_create port) y2 = (out, y3)" by fastforce
  from create_target_effect[OF e assms c] e obtain cs where cs: "ys_sent y3 = ys_sent y @ cs" "target_creation_ended port y out y3 cs"
    by (auto simp: entered_def)
  show ?thesis
  proof (cases "\<exists>t g. out = Returned (Inr (t, g))")
    case True
    then obtain t g where out: "out = Returned (Inr (t, g))" by blast
    define tx where "tx = \<lparr>tx_target = t, tx_guard = g, tx_page = None, tx_route = None\<rparr>"
    from cs out have h: "holding t g y y3" "created_target port = Some t" "cleanups_of cs = []"
      by (simp_all add: target_creation_ended_def)
    have "creation_ended port t g y y3 (attach_created port tx y3)"
      by (rule attach_created_ends[OF h(1)]) (simp_all add: tx_def)
    from creation_ended_later[OF this cs(1) h(3)] obtain out' y' ds where d: "attach_created port tx y3 = Some (out', y')"
        "ys_sent y' = ys_sent y @ ds"
        "case out' of
           Returned (Inr p) \<Rightarrow> cleanups_of ds = [] \<and> page_published t g p y y'
         | _ \<Rightarrow> cleanups_of ds = [CloseCreatedTarget t] \<and> last ds = CmdCleanup (CloseCreatedTarget t) \<and> nothing_left port t out' y y'"
      unfolding creation_ended_def by blast
    have "new_page port y = Some (out', y')"
      using Inr c out d(1) by (simp add: new_page_def y2_def[symmetric] tx_def)
    moreover have "page_creation_ended port y out' y' ds"
      using d(3) h(2) by (cases g) (auto simp: page_creation_ended_def nothing_left_def split: outcome.splits sum.splits)
    ultimately show ?thesis using d(2) by blast
  next
    case False
    define out' :: "session_page outcome" where "out' = (case out of Returned (Inl e) \<Rightarrow> Returned (Inl e) | _ \<Rightarrow> CallerGone)"
    have "new_page port y = Some (out', session_leave y3)"
      using Inr c False by (auto simp: new_page_def y2_def[symmetric] out'_def split: outcome.split sum.split)
    moreover have "page_creation_ended port y out' (session_leave y3) cs"
      using cs(2) False
      by (auto simp: page_creation_ended_def target_creation_ended_def out'_def split: outcome.splits sum.splits option.splits)
    ultimately show ?thesis using cs(1) by (intro exI[of _ out'] exI[of _ "session_leave y3"] exI[of _ cs]) simp
  qed
qed

text \<open>A default session; the locale of the new page is refused, and the target does not close in time.\<close>

definition example_system :: session_system where
  "example_system =
     \<lparr>ys_runtime = ''r'', ys_id = ''s'', ys_kind = DefaultKind, ys_context = None,
      ys_options = default_context_options\<lparr>co_target_route := default_route_options\<lparr>to_locale := Some ''de''\<rparr>\<rparr>,
      ys_pages_first = False, ys_gate = new_gate ''session'', ys_runtime_gate = new_gate ''runtime'', ys_pages = [],
      ys_pending = new_registry, ys_owned = new_registry, ys_contexts = new_registry, ys_configuration = new_registry,
      ys_ledger = [], ys_owned_context = None, ys_permission = None, ys_targets = [], ys_slot = SlotEmpty, ys_events = [],
      ys_events_closed = None, ys_runtime_events = [], ys_runtime_ended = None, ys_lifecycle_cancelled = False, ys_sent = []\<rparr>"

definition example_creation_port :: new_page_port where
  "example_creation_port =
     \<lparr>np_close_first = False, np_create = TaskAnswer (Inr ''t''), np_attach = Answered (Inr ''c''), np_close_later = False,
      np_store = Answered (Inr ()), np_baseline = ''ua'',
      np_route = (\<lambda>_ c. if c = SetLocale (Some ''de'') then Some ''no'' else None), np_drop_in_route = False,
      np_navigate = Answered (Inr ()), np_run = (\<lambda>_. Some (ODeadlineExceeded ''x''))\<rparr>"

theorem page_creation_all_or_nothing_witness:
  "\<exists>out y' cs. new_page example_creation_port example_system = Some (out, y') \<and> ys_sent y' = ys_sent example_system @ cs \<and>
     page_creation_ended example_creation_port example_system out y' cs"
proof -
  have "created_target example_creation_port = Some ''t''" by code_simp
  moreover have "fresh_target ''t'' example_system" by (simp add: fresh_target_def example_system_def new_registry_def)
  ultimately show ?thesis using page_creation_all_or_nothing[of example_creation_port example_system] by simp
qed

text \<open>The commands of that run, and what it leaves.\<close>

lemma example_creation_run:
  "map_option (\<lambda>(out, y). (ys_sent y, map cf_resource (ys_ledger y), pending_count (ys_owned y)))
     (new_page example_creation_port example_system)
   = Some ([CmdCreateTarget ''about:blank'' None, CmdAttach ''t'', CmdRoute (SetLocale (Some ''de'')), CmdRoute (SetLocale None),
            CmdCleanup (CloseCreatedTarget ''t'')], [''page:t''], 0)"
  by code_simp

end
