(* ===== verification/SessionClose.thy ===== *)
theory SessionClose
  imports SessionCore
begin

text \<open>
  Attaching existing pages, the reducer of target events, and the close of a session
  (\<open>src/src/runtime/session.rs\<close>). As for a page, a close is cut where it waits for the admitted operations.
\<close>

declare map_of_eq_Some_iff [simp del] and Some_eq_map_of_iff [simp del]

subsection \<open>Attaching\<close>

record target_info =
  ti_type :: string
  ti_subtype :: "string option"
  ti_fact :: target_fact

definition target_belongs_to_context :: "target_info \<Rightarrow> ident option \<Rightarrow> bool" where
  "target_belongs_to_context info context \<longleftrightarrow>
     ti_type info = ''page'' \<and> ti_subtype info = None \<and> tf_context_id (ti_fact info) = context"

record attach_port =
  ap_info :: "string + target_info"
  ap_attach :: "ident task_reply"
  ap_store :: "rt_error + unit"
  ap_baseline :: string
  ap_route :: route_port
  ap_run :: "remote_cleanup \<Rightarrow> cleanup_result"

definition attach_borrowed_target ::
  "attach_port \<Rightarrow> ident \<Rightarrow> session_system \<Rightarrow> (ident \<times> guard) outcome \<times> session_system" where
  "attach_borrowed_target port target y =
     (case session_enter ''complete page target attachment'' y of
        Inl e \<Rightarrow> (Returned (Inl e), y)
      | Inr y0 \<Rightarrow>
          let y1 = send_commands [CmdAttach target] y0
          in (case ap_attach port of
                TaskLost \<Rightarrow> (Returned (Inl (task_lost_error ''attach page target''
                              ''page target attachment task ended before reporting its result'')), session_leave y1)
              | TaskAnswer (Inl err) \<Rightarrow> (Returned (Inl (from_cdp_error id err)), session_leave y1)
              | TaskAnswer (Inr session) \<Rightarrow>
                  (case track_pending_attachment target session y1 of (g, y2) \<Rightarrow> (Returned (Inr (session, g)), session_leave y2))
              | CallerLeft (Inl err) \<Rightarrow> (CallerGone, session_leave y1)
              | CallerLeft (Inr session) \<Rightarrow>
                  (case track_pending_attachment target session y1 of (g, y2) \<Rightarrow>
                     (CallerGone, session_leave (schedule_pending (ap_run port) g y2)))))"

text \<open>A failed initialization detaches the session again; \<open>None\<close> while another task runs the clean-up.\<close>

definition attach_failed ::
  "attach_port \<Rightarrow> ident \<Rightarrow> guard \<Rightarrow> rt_error \<Rightarrow> session_system \<Rightarrow> (session_page outcome \<times> session_system) option" where
  "attach_failed port target g e y =
     (case cleanup_pending (ap_run port) g y of
        (None, _) \<Rightarrow> None
      | (Some result, y1) \<Rightarrow>
          Some (Returned (Inl (case result of
                   None \<Rightarrow> e
                 | Some failure \<Rightarrow> with_cleanup_failure
                     \<lparr>cf_resource = attachment_resource target, cf_message = show_cleanup_error failure\<rparr> e)), y1))"

definition retain_configured_route :: "session_page \<Rightarrow> session_page" where
  "retain_configured_route p =
     (case register_route (session_of_page p) (RollbackRoute (session_of_page p)) (pt_routes p) of
        (token, routes) \<Rightarrow> p\<lparr>pt_routes := snd (retain_route (session_of_page p) token routes)\<rparr>)"

definition attach_known_page ::
  "attach_port \<Rightarrow> ident \<Rightarrow> page_ownership \<Rightarrow> session_system \<Rightarrow> (session_page outcome \<times> session_system) option" where
  "attach_known_page port target own y =
     (case attach_borrowed_target port target y of
        (CallerGone, y1) \<Rightarrow> Some (CallerGone, y1)
      | (Returned (Inl e), y1) \<Rightarrow> Some (Returned (Inl e), y1)
      | (Returned (Inr (session, g)), y1) \<Rightarrow>
          (case ap_store port of
             Inl e \<Rightarrow> attach_failed port target g e y1
           | Inr _ \<Rightarrow>
               (case configure_main_route (ap_route port) (ap_baseline port) (ys_options y1) target of
                  (configured, route_run) \<Rightarrow>
                    let y2 = send_commands (map CmdRoute (ru_sent route_run)) y1
                    in (case configured of
                          Inl e \<Rightarrow> attach_failed port target g e y2
                        | Inr keep \<Rightarrow>
                            let p = build_page target own session y2;
                                p' = (if keep then retain_configured_route p else p)
                            in Some (Returned (Inr p'), disarm_pending g (publish_page target p' y2))))))"

definition not_a_page :: "string \<Rightarrow> rt_error" where
  "not_a_page message = with_message message (operation_error ''attach page'' Preparation)"

definition validate_attach :: "attach_port \<Rightarrow> ident \<Rightarrow> session_system \<Rightarrow> rt_error + unit" where
  "validate_attach port target y =
     (case ap_info port of
        Inl err \<Rightarrow> Inl (from_cdp_error id err)
      | Inr info \<Rightarrow>
          if ti_type info \<noteq> ''page'' \<or> ti_subtype info \<noteq> None
          then Inl (not_a_page (''target '' @ target @ '' is not a normal page''))
          else if tf_context_id (ti_fact info) \<noteq> ys_context y
          then Inl (not_a_page (''target '' @ target @ '' belongs to a different BrowserContext''))
          else Inr ())"

definition attach_page_locked ::
  "attach_port \<Rightarrow> ident \<Rightarrow> page_ownership \<Rightarrow> bool \<Rightarrow> session_system \<Rightarrow> (session_page outcome \<times> session_system) option" where
  "attach_page_locked port target own validate y =
     (case map_of (ys_pages y) target of
        Some p \<Rightarrow>
          (let p' = promote_ownership own p
           in Some (Returned (Inr p'), y\<lparr>ys_pages := AList.update target p' (ys_pages y)\<rparr>))
      | None \<Rightarrow>
          if validate
          then (case validate_attach port target y of
                  Inl e \<Rightarrow> Some (Returned (Inl e), send_commands [CmdTargetInfo target] y)
                | Inr _ \<Rightarrow> attach_known_page port target own (send_commands [CmdTargetInfo target] y))
          else attach_known_page port target own y)"

definition attach_page :: "attach_port \<Rightarrow> ident \<Rightarrow> session_system \<Rightarrow> (session_page outcome \<times> session_system) option" where
  "attach_page port target y =
     (case session_enter ''attach page'' y of
        Inl e \<Rightarrow> Some (Returned (Inl e), y)
      | Inr y1 \<Rightarrow> map_option (\<lambda>(r, y2). (r, session_leave y2)) (attach_page_locked port target PageAttached True y1))"

text \<open>The pages of the context, attached one after the other; the first failure ends the list.\<close>

fun attach_all ::
  "(ident \<Rightarrow> attach_port) \<Rightarrow> ident list \<Rightarrow> session_page list \<Rightarrow> session_system
   \<Rightarrow> (session_page list outcome \<times> session_system) option" where
  "attach_all port [] pages y = Some (Returned (Inr pages), y)"
| "attach_all port (t # ts) pages y =
     (case attach_page_locked (port t) t PageAttached True y of
        None \<Rightarrow> None
      | Some (CallerGone, y') \<Rightarrow> Some (CallerGone, y')
      | Some (Returned (Inl e), y') \<Rightarrow> Some (Returned (Inl e), y')
      | Some (Returned (Inr p), y') \<Rightarrow> attach_all port ts (pages @ [p]) y')"

definition session_pages ::
  "(ident \<Rightarrow> attach_port) \<Rightarrow> string + target_info list \<Rightarrow> session_system \<Rightarrow> (session_page list outcome \<times> session_system) option" where
  "session_pages port targets y =
     (case session_enter ''list pages'' y of
        Inl e \<Rightarrow> Some (Returned (Inl e), y)
      | Inr y1 \<Rightarrow>
          let y2 = send_commands [CmdTargets] y1
          in (case targets of
                Inl err \<Rightarrow> Some (Returned (Inl (from_cdp_error id err)), session_leave y2)
              | Inr infos \<Rightarrow>
                  map_option (\<lambda>(r, y3). (r, session_leave y3))
                    (attach_all port [tf_target_id (ti_fact i). i \<leftarrow> infos, target_belongs_to_context i (ys_context y2)] [] y2)))"

text \<open>
  A popup is attached as a created page. Its target is pending under the guard of the expectation until the
  page is attached; in a default session the runtime then owns it.
\<close>

definition attach_action_popup ::
  "attach_port \<Rightarrow> ident \<Rightarrow> guard \<Rightarrow> session_system \<Rightarrow> (session_page outcome \<times> session_system) option" where
  "attach_action_popup port target g y =
     (case session_enter ''attach action popup'' y of
        Inl e \<Rightarrow> Some (Returned (Inl e), schedule_pending (ap_run port) g y)
      | Inr y1 \<Rightarrow>
          (case attach_page_locked port target PageCreated True y1 of
             None \<Rightarrow> None
           | Some (CallerGone, y2) \<Rightarrow> Some (CallerGone, session_leave (schedule_pending (ap_run port) g y2))
           | Some (Returned (Inl e), y2) \<Rightarrow>
               (case cleanup_pending (ap_run port) g y2 of
                  (None, _) \<Rightarrow> None
                | (Some result, y3) \<Rightarrow>
                    Some (Returned (Inl (case result of
                        None \<Rightarrow> e
                      | Some failure \<Rightarrow> with_cleanup_failure
                          \<lparr>cf_resource = page_resource target, cf_message = show_cleanup_error failure\<rparr> e)), session_leave y3))
           | Some (Returned (Inr p), y2) \<Rightarrow>
               (case (if ys_kind y2 = DefaultKind
                      then (case track_in_owned (page_resource target) (CloseCreatedTarget target) y2 of
                              (og, y3) \<Rightarrow>
                                (case retain_owned_target og p (ys_owned y3) of
                                   (p', owned) \<Rightarrow> (p', y3\<lparr>ys_owned := owned, ys_pages := AList.update target p' (ys_pages y3)\<rparr>)))
                      else (p, y2)) of
                  (p', y4) \<Rightarrow> Some (Returned (Inr p'), session_leave (disarm_pending g y4)))))"

subsection \<open>Target events\<close>

datatype target_event =
  TeCreated target_info | TeChanged target_info | TeDestroyed ident | TeInvalid | TeUnexpected | TeClosed

text \<open>Writing back a page that was closed, with what it sent for its target.\<close>

definition sent_for_target :: "remote_cleanup ownership_registry \<Rightarrow> target_command option \<Rightarrow> session_command list" where
  "sent_for_target owned command =
     (case command of
        None \<Rightarrow> []
      | Some (DetachPage session) \<Rightarrow> [CmdCleanup (DetachSession session)]
      | Some (RunOwnedTarget resource token) \<Rightarrow> claimed (resource, token) owned
      | Some (CloseUnownedTarget target) \<Rightarrow> [CmdCleanup (CloseCreatedTarget target)])"

definition store_closing :: "ident \<Rightarrow> (remote_cleanup, unit, unit) page_closing \<Rightarrow> session_system \<Rightarrow> session_system" where
  "store_closing target c y =
     (let y1 = send_commands (sent_for_target (ys_owned y) (pg_command c))
                 (y\<lparr>ys_pages := AList.update target (pg_page c) (ys_pages y), ys_owned := pg_owned c\<rparr>)
      in if pg_removed c then remove_page_and_publish_closed target y1 else y1)"

text \<open>One event: the state, and whether the reducer goes on. \<open>None\<close>: the close of the page still waits.\<close>

definition reduce_target_event ::
  "(ident \<Rightarrow> remote_cleanup close_port) \<Rightarrow> target_event \<Rightarrow> session_system \<Rightarrow> (session_system \<times> bool) option" where
  "reduce_target_event port event y =
     (case event of
        TeCreated info \<Rightarrow>
          Some (if target_belongs_to_context info (ys_context y)
                then publish_runtime (RtTargetCreated (ti_fact info)) (publish_session (PageTargetCreated (ti_fact info))
                       (y\<lparr>ys_targets := AList.update (tf_target_id (ti_fact info)) (ti_fact info) (ys_targets y)\<rparr>))
                else y, True)
      | TeChanged info \<Rightarrow>
          Some (if target_belongs_to_context info (ys_context y)
                then publish_runtime (RtTargetChanged (ti_fact info)) (publish_session (PageTargetChanged (ti_fact info))
                       (y\<lparr>ys_targets := AList.update (tf_target_id (ti_fact info)) (ti_fact info) (ys_targets y)\<rparr>))
                else y, True)
      | TeDestroyed target \<Rightarrow>
          (let y1 = y\<lparr>ys_targets := AList.delete target (ys_targets y)\<rparr>
           in if map_of (ys_targets y) target = None \<and> map_of (ys_pages y) target = None then Some (y1, True)
              else
                let y2 = publish_runtime (RtTargetDestroyed target) (publish_session (PageTargetDestroyed target) y1)
                in (case map_of (ys_pages y2) target of
                      None \<Rightarrow> Some (y2, True)
                    | Some p \<Rightarrow>
                        (case close_after_target_destroyed (port target) (ys_owned y2) p of
                           None \<Rightarrow> None
                         | Some c \<Rightarrow>
                             Some (store_closing target c
                                     (if pg_removed c then record_page_finalization (pg_report c) y2 else y2), True))))
      | TeInvalid \<Rightarrow> Some (y, True)
      | TeUnexpected \<Rightarrow> Some (y, True)
      | TeClosed \<Rightarrow> Some (close_runtime_events Disconnected (close_session_events SourceClosed y), False))"

subsection \<open>Closing the session\<close>

record session_port =
  sc_run :: "remote_cleanup \<Rightarrow> cleanup_result"
  sc_page :: "ident \<Rightarrow> remote_cleanup close_port"

definition begin_session_close :: "session_system \<Rightarrow> session_system" where
  "begin_session_close y = y\<lparr>ys_gate := snd (gate_start_close (ys_gate y))\<rparr>"

definition session_side_effects :: "session_system \<Rightarrow> session_system" where
  "session_side_effects y =
     y\<lparr>ys_slot := fst (slot_begin_close (ys_slot y)),
       ys_pages := map_values begin_side_effect_close (ys_pages y)\<rparr>"

text \<open>A step of the close: the report so far and the state; \<open>None\<close> while it waits.\<close>

type_synonym close_progress = "(close_report \<times> session_system) option"

definition close_step :: "close_progress \<Rightarrow> (close_report \<Rightarrow> session_system \<Rightarrow> close_progress) \<Rightarrow> close_progress" where
  "close_step r f = (case r of None \<Rightarrow> None | Some (report, y) \<Rightarrow> f report y)"

definition each_page ::
  "(ident \<Rightarrow> session_page \<Rightarrow> close_report \<Rightarrow> session_system \<Rightarrow> close_progress) \<Rightarrow> ident list
   \<Rightarrow> close_report \<Rightarrow> session_system \<Rightarrow> close_progress" where
  "each_page f ts report y =
     foldl (\<lambda>acc t. close_step acc (\<lambda>report y.
       case map_of (ys_pages y) t of None \<Rightarrow> Some (report, y) | Some p \<Rightarrow> f t p report y)) (Some (report, y)) ts"

definition cleanup_page_routes ::
  "session_port \<Rightarrow> ident \<Rightarrow> session_page \<Rightarrow> close_report \<Rightarrow> session_system \<Rightarrow> close_progress" where
  "cleanup_page_routes port t p report y =
     (case cleanup_all_routes (cp_run (sc_page port t)) (pt_routes p) of
        (None, _) \<Rightarrow> None
      | (Some r, routes) \<Rightarrow>
          Some (report_merge report r, y\<lparr>ys_pages := AList.update t (p\<lparr>pt_routes := routes\<rparr>) (ys_pages y)\<rparr>))"

definition close_session_page ::
  "session_port \<Rightarrow> ident \<Rightarrow> session_page \<Rightarrow> close_report \<Rightarrow> session_system \<Rightarrow> close_progress" where
  "close_session_page port t p report y =
     map_option (\<lambda>c. (report_merge report (pg_report c), store_closing t c y)) (page_close (sc_page port t) (ys_owned y) p)"

definition mark_session_page ::
  "session_port \<Rightarrow> ident \<Rightarrow> session_page \<Rightarrow> close_report \<Rightarrow> session_system \<Rightarrow> close_progress" where
  "mark_session_page port t p report y =
     map_option (\<lambda>c. (report_merge report (pg_report c), store_closing t c y))
       (mark_closed_by_session (sc_page port t) (ys_owned y) p)"

definition cleanup_session_pending :: "session_port \<Rightarrow> close_report \<Rightarrow> session_system \<Rightarrow> close_progress" where
  "cleanup_session_pending port report y =
     (case registry_cleanup_all (sc_run port) (ys_pending y) of
        (None, _) \<Rightarrow> None
      | (Some results, reg) \<Rightarrow> Some (fold report_result results report, y\<lparr>ys_pending := reg\<rparr>))"

text \<open>
  The context of an isolated session. Both \<open>expect\<close> calls of the code hold for every session the runtime
  builds; where they would not, the close ends in a panic, which is \<open>None\<close> here.
\<close>

definition dispose_context :: "session_port \<Rightarrow> ident list \<Rightarrow> close_report \<Rightarrow> session_system \<Rightarrow> close_progress" where
  "dispose_context port ts report y =
     (case (ys_context y, ys_owned_context y) of
        (Some context, Some (resource, token)) \<Rightarrow>
          (case guard_cleanup (sc_run port) resource token (ys_contexts y) of
             (None, _) \<Rightarrow> None
           | (Some result, reg) \<Rightarrow>
               let y1 = send_commands (claimed (resource, token) (ys_contexts y)) (y\<lparr>ys_contexts := reg, ys_owned_context := None\<rparr>);
                   report1 = report_result (''browser-context:'' @ context, result) report
               in if result = None \<and> \<not> ys_pages_first y1 then each_page (mark_session_page port) ts report1 y1
                  else Some (report1, y1))
      | _ \<Rightarrow> None)"

definition close_session_pages :: "session_port \<Rightarrow> ident list \<Rightarrow> close_report \<Rightarrow> session_system \<Rightarrow> close_progress" where
  "close_session_pages port ts report y =
     (case session_close_action (ys_kind y) of
        CloseCreatedPages \<Rightarrow> each_page (close_session_page port) ts report y
      | DisposeContextAction \<Rightarrow>
          close_step (if ys_pages_first y then each_page (close_session_page port) ts report y else Some (report, y))
            (dispose_context port ts))"

definition cleanup_permissions :: "session_port \<Rightarrow> close_report \<Rightarrow> session_system \<Rightarrow> close_progress" where
  "cleanup_permissions port report y =
     (case ys_permission y of
        None \<Rightarrow> Some (report, y)
      | Some (resource, token) \<Rightarrow>
          (case guard_cleanup (sc_run port) resource token (ys_configuration y) of
             (None, _) \<Rightarrow> None
           | (Some result, reg) \<Rightarrow>
               Some (report_result (''permissions:default-context'', result) report,
                     send_commands (claimed (resource, token) (ys_configuration y))
                       (y\<lparr>ys_configuration := reg, ys_permission := None\<rparr>))))"

definition close_session_downloads :: "close_report \<Rightarrow> session_system \<Rightarrow> close_progress" where
  "close_session_downloads report y =
     Some (case slot_ready (ys_slot y) of
             None \<Rightarrow> report
           | Some _ \<Rightarrow> report_merge report (download_close_report (IsolatedManager None) (ys_id y)), y)"

definition seal_session :: "close_report \<Rightarrow> session_system \<Rightarrow> close_progress" where
  "seal_session report y =
     (let y1 = (if is_complete report then y\<lparr>ys_pages := []\<rparr> else y)
      in Some (report, close_session_events ScopeClosed (publish_runtime (RtSessionClosed (ys_id y))
                 (y1\<lparr>ys_lifecycle_cancelled := True, ys_gate := gate_finish_close (ys_gate y1)\<rparr>))))"

definition finish_session_close :: "session_port \<Rightarrow> session_system \<Rightarrow> close_progress" where
  "finish_session_close port y0 =
     (if \<not> gate_drained (ys_gate y0) then None
      else
        let y = (session_side_effects y0)\<lparr>ys_ledger := []\<rparr>;
            ts = map fst (ys_pages y);
            report = report_failures (ys_ledger y0) (new_report (ys_id y0))
        in close_step (close_step (close_step (close_step (close_step
             (each_page (cleanup_page_routes port) ts report y)
             (cleanup_session_pending port))
             (close_session_pages port ts))
             (cleanup_permissions port))
             close_session_downloads)
             seal_session)"

subsection \<open>What a close does in every case\<close>

text \<open>What the steps over the pages leave alone, and that a report only grows.\<close>

definition close_frame :: "close_report \<Rightarrow> session_system \<Rightarrow> close_report \<Rightarrow> session_system \<Rightarrow> bool" where
  "close_frame report y report' y' \<longleftrightarrow>
     (\<exists>fs. cr_failures report' = cr_failures report @ fs) \<and> ys_pending y' = ys_pending y \<and> ys_ledger y' = ys_ledger y \<and>
     ys_contexts y' = ys_contexts y \<and> ys_owned_context y' = ys_owned_context y \<and> ys_context y' = ys_context y \<and>
     ys_kind y' = ys_kind y \<and> ys_pages_first y' = ys_pages_first y \<and>
     ys_permission y' = ys_permission y \<and> ys_configuration y' = ys_configuration y \<and>
     owned_shrinks (ys_owned y) (ys_owned y')"

lemma close_frame_refl: "close_frame r y r y"
  by (simp add: close_frame_def owned_shrinks_refl)

lemma close_frame_trans: "close_frame r y r' y' \<Longrightarrow> close_frame r' y' r'' y'' \<Longrightarrow> close_frame r y r'' y''"
  by (auto simp: close_frame_def intro: owned_shrinks_trans)

lemma each_page_frame:
  assumes "\<And>t p r y r' y'. f t p r y = Some (r', y') \<Longrightarrow> close_frame r y r' y'"
  shows "each_page f ts r y = Some (r', y') \<Longrightarrow> close_frame r y r' y'"
proof (induction ts arbitrary: r' y' rule: rev_induct)
  case Nil
  then show ?case by (simp add: each_page_def close_frame_refl)
next
  case (snoc t ts)
  then obtain r1 y1 where prev: "each_page f ts r y = Some (r1, y1)"
    by (auto simp: each_page_def close_step_def split: option.splits)
  with snoc.prems have "(case map_of (ys_pages y1) t of None \<Rightarrow> Some (r1, y1) | Some p \<Rightarrow> f t p r1 y1) = Some (r', y')"
    by (simp add: each_page_def close_step_def)
  then have "close_frame r1 y1 r' y'" using assms by (auto simp: close_frame_refl split: option.splits)
  with snoc.IH[OF prev] show ?case by (rule close_frame_trans)
qed

lemma store_closing_frame:
  "ys_pending (store_closing t c y) = ys_pending y" "ys_ledger (store_closing t c y) = ys_ledger y"
  "ys_contexts (store_closing t c y) = ys_contexts y" "ys_owned_context (store_closing t c y) = ys_owned_context y"
  "ys_context (store_closing t c y) = ys_context y" "ys_kind (store_closing t c y) = ys_kind y"
  "ys_pages_first (store_closing t c y) = ys_pages_first y" "ys_permission (store_closing t c y) = ys_permission y"
  "ys_configuration (store_closing t c y) = ys_configuration y" "ys_owned (store_closing t c y) = pg_owned c"
  by (simp_all add: store_closing_def remove_page_and_publish_closed_def publish_session_def send_commands_def Let_def)

lemma page_steps_frame:
  "cleanup_page_routes port t p r y = Some (r', y') \<Longrightarrow> close_frame r y r' y'"
  "close_session_page port t p r y = Some (r', y') \<Longrightarrow> close_frame r y r' y'"
  "mark_session_page port t p r y = Some (r', y') \<Longrightarrow> close_frame r y r' y'"
  by (auto simp: cleanup_page_routes_def close_session_page_def mark_session_page_def close_frame_def store_closing_frame
      owned_shrinks_refl closes_shrink_owned split: prod.splits option.splits)

text \<open>A step for one page leaves the other pages alone, so each page is met as the loop found it.\<close>

lemma page_steps_others:
  assumes "u \<noteq> t"
  shows "cleanup_page_routes port t p r y = Some (r', y') \<Longrightarrow> map_of (ys_pages y') u = map_of (ys_pages y) u"
    "close_session_page port t p r y = Some (r', y') \<Longrightarrow> map_of (ys_pages y') u = map_of (ys_pages y) u"
    "mark_session_page port t p r y = Some (r', y') \<Longrightarrow> map_of (ys_pages y') u = map_of (ys_pages y) u"
  using assms
  by (auto simp: cleanup_page_routes_def close_session_page_def mark_session_page_def store_closing_def
      remove_page_and_publish_closed_def publish_session_def send_commands_def Let_def split: prod.splits option.splits)

lemma each_page_none: "foldl (\<lambda>acc t. close_step acc (g t)) None ts = None"
  by (induction ts) (simp_all add: close_step_def)

lemma each_page_Cons:
  "each_page f (t # ts) r y =
     (case map_of (ys_pages y) t of
        None \<Rightarrow> each_page f ts r y
      | Some p \<Rightarrow> close_step (f t p r y) (each_page f ts))"
  by (auto simp: each_page_def close_step_def each_page_none[unfolded close_step_def] split: option.split)

lemma each_page_met:
  assumes frame: "\<And>t p r y r' y'. f t p r y = Some (r', y') \<Longrightarrow> close_frame r y r' y'"
    and others: "\<And>t u p r y r' y'. u \<noteq> t \<Longrightarrow> f t p r y = Some (r', y') \<Longrightarrow> map_of (ys_pages y') u = map_of (ys_pages y) u"
  shows "each_page f ts r y = Some (r', y') \<Longrightarrow> t \<in> set ts \<Longrightarrow> map_of (ys_pages y) t = Some p \<Longrightarrow>
    \<exists>r1 y1 r2 y2. close_frame r y r1 y1 \<and> f t p r1 y1 = Some (r2, y2) \<and> close_frame r2 y2 r' y'"
proof (induction ts arbitrary: r y)
  case (Cons u ts)
  show ?case
  proof (cases "u = t")
    case True
    with Cons.prems obtain r2 y2 where "f t p r y = Some (r2, y2)" "each_page f ts r2 y2 = Some (r', y')"
      by (auto simp: each_page_Cons close_step_def split: option.splits)
    moreover from this have "close_frame r2 y2 r' y'" using each_page_frame[of f ts] frame by blast
    ultimately show ?thesis using True close_frame_refl by blast
  next
    case False
    show ?thesis
    proof (cases "map_of (ys_pages y) u")
      case None
      with Cons False show ?thesis by (simp add: each_page_Cons)
    next
      case (Some q)
      with Cons.prems(1) obtain ra ya where a: "f u q r y = Some (ra, ya)" "each_page f ts ra ya = Some (r', y')"
        by (auto simp: each_page_Cons close_step_def split: option.splits)
      have "map_of (ys_pages ya) t = Some p" using others[OF _ a(1), of t] False Cons.prems(3) by simp
      then obtain r1 y1 r2 y2 where "close_frame ra ya r1 y1" "f t p r1 y1 = Some (r2, y2)" "close_frame r2 y2 r' y'"
        using Cons.IH[OF a(2)] Cons.prems(2) False by auto
      with close_frame_trans[OF frame[OF a(1)]] show ?thesis by blast
    qed
  qed
qed simp

lemma page_loops_met:
  "each_page (cleanup_page_routes port) ts r y = Some (r', y') \<Longrightarrow> t \<in> set ts \<Longrightarrow> map_of (ys_pages y) t = Some p \<Longrightarrow>
    \<exists>r1 y1 r2 y2. close_frame r y r1 y1 \<and> cleanup_page_routes port t p r1 y1 = Some (r2, y2) \<and> close_frame r2 y2 r' y'"
  "each_page (close_session_page port) ts r y = Some (r', y') \<Longrightarrow> t \<in> set ts \<Longrightarrow> map_of (ys_pages y) t = Some p \<Longrightarrow>
    \<exists>r1 y1 r2 y2. close_frame r y r1 y1 \<and> close_session_page port t p r1 y1 = Some (r2, y2) \<and> close_frame r2 y2 r' y'"
  "each_page (mark_session_page port) ts r y = Some (r', y') \<Longrightarrow> t \<in> set ts \<Longrightarrow> map_of (ys_pages y) t = Some p \<Longrightarrow>
    \<exists>r1 y1 r2 y2. close_frame r y r1 y1 \<and> mark_session_page port t p r1 y1 = Some (r2, y2) \<and> close_frame r2 y2 r' y'"
  by (rule each_page_met; blast intro: page_steps_frame page_steps_others)+

text \<open>The first loop only empties route registries.\<close>

definition routes_only :: "session_system \<Rightarrow> session_system \<Rightarrow> bool" where
  "routes_only y y' \<longleftrightarrow>
     (\<forall>t p. map_of (ys_pages y) t = Some p \<longrightarrow>
        (\<exists>routes. map_of (ys_pages y') t = Some (p\<lparr>pt_routes := routes\<rparr>) \<and>
           (registry_inv (RouteConfig.rg_pending (pt_routes p)) \<longrightarrow> registry_inv (RouteConfig.rg_pending routes))))"

lemma routes_only_refl: "routes_only y y"
  by (auto simp: routes_only_def intro!: exI[of _ "pt_routes _"])

lemma routes_only_step:
  assumes "cleanup_page_routes port t p r y = Some (r', y')" "map_of (ys_pages y) t = Some p"
  shows "routes_only y y'"
proof -
  obtain results routes where c: "cleanup_all_routes (cp_run (sc_page port t)) (pt_routes p) = (Some results, routes)"
    using assms(1) by (auto simp: cleanup_page_routes_def split: prod.splits option.splits)
  then have y': "y' = y\<lparr>ys_pages := AList.update t (p\<lparr>pt_routes := routes\<rparr>) (ys_pages y)\<rparr>"
    using assms(1) by (auto simp: cleanup_page_routes_def)
  have "registry_inv (RouteConfig.rg_pending routes)"
    using c by (auto simp: cleanup_all_routes_def registry_inv_def dest: cleanup_all_empties split: prod.splits)
  note inv = this
  show ?thesis unfolding routes_only_def
  proof (intro allI impI)
    fix u q
    assume q: "map_of (ys_pages y) u = Some q"
    show "\<exists>routes. map_of (ys_pages y') u = Some (q\<lparr>pt_routes := routes\<rparr>) \<and>
        (registry_inv (RouteConfig.rg_pending (pt_routes q)) \<longrightarrow> registry_inv (RouteConfig.rg_pending routes))"
    proof (cases "u = t")
      case True
      with q assms(2) y' inv show ?thesis by (intro exI[of _ routes]) simp
    next
      case False
      with q y' show ?thesis by (intro exI[of _ "pt_routes q"]) simp
    qed
  qed
qed

lemma routes_only_trans: "routes_only y y' \<Longrightarrow> routes_only y' y'' \<Longrightarrow> routes_only y y''"
  unfolding routes_only_def by fastforce

lemma routes_only_loop: "each_page (cleanup_page_routes port) ts r y = Some (r', y') \<Longrightarrow> routes_only y y'"
proof (induction ts arbitrary: r y)
  case Nil
  then show ?case by (simp add: each_page_def routes_only_refl)
next
  case (Cons t ts)
  show ?case
  proof (cases "map_of (ys_pages y) t")
    case None
    with Cons show ?thesis by (simp add: each_page_Cons)
  next
    case (Some p)
    with Cons.prems obtain r1 y1 where "cleanup_page_routes port t p r y = Some (r1, y1)"
        "each_page (cleanup_page_routes port) ts r1 y1 = Some (r', y')"
      by (auto simp: each_page_Cons close_step_def split: option.splits)
    with Cons.IH routes_only_step[OF _ Some] routes_only_trans show ?thesis by blast
  qed
qed

lemma report_result_grows: "\<exists>fs. cr_failures (report_result e r) = cr_failures r @ fs"
  by (auto simp: report_result_def report_failed_def report_closed_def split: prod.splits option.splits)

lemma fold_report_result_grows: "\<exists>fs. cr_failures (fold report_result es r) = cr_failures r @ fs"
proof (induction es arbitrary: r)
  case (Cons e es)
  from Cons[of "report_result e r"] report_result_grows[of e r] show ?case by auto
qed simp

lemma cr_failures_report_failures: "cr_failures (report_failures fs r) = cr_failures r @ fs"
  by (induction fs arbitrary: r) (simp_all add: report_failures_def report_failed_def)

lemma complete_prefix: "cr_failures r' = cr_failures r @ fs \<Longrightarrow> is_complete r' \<Longrightarrow> is_complete r"
  by (simp add: is_complete_def)

lemma complete_frame: "close_frame r y r' y' \<Longrightarrow> is_complete r' \<Longrightarrow> is_complete r"
  by (auto simp: close_frame_def intro: complete_prefix)

text \<open>
  What a complete report of a session says of one of its pages: the report of an earlier close was complete;
  or everything of the page was cleaned up, and its target settled where pages are closed one by one, with
  the clean-up of an owned target taken from the registry of the runtime.
\<close>

definition page_report_clean :: "session_port \<Rightarrow> session_system \<Rightarrow> ident \<Rightarrow> session_page \<Rightarrow> bool" where
  "page_report_clean port y t p \<longleftrightarrow>
     (case pt_close_report p of
        Some earlier \<Rightarrow> is_complete earlier
      | None \<Rightarrow>
          og_handle (pt_gate p) = HClosed \<or>
          (resources_clean (sc_page port t) p \<and>
           (ys_kind y = DefaultKind \<or> ys_pages_first y \<longrightarrow>
              (\<exists>owned. set (rg_entries owned) \<subseteq> set (rg_entries (ys_owned y)) \<and> target_settled (sc_page port t) owned p))))"

definition page_left_clean :: "session_port \<Rightarrow> session_system \<Rightarrow> ident \<Rightarrow> session_page \<Rightarrow> bool" where
  "page_left_clean port y t p \<longleftrightarrow>
     registry_clean (cp_run (sc_page port t)) (RouteConfig.rg_pending (pt_routes p)) \<and> page_report_clean port y t p"

lemma close_loop_clean:
  assumes "each_page (close_session_page port) ts r y = Some (r', y')" "is_complete r'" "registry_inv (ys_owned y)"
    "t \<in> set ts" "map_of (ys_pages y) t = Some p" "page_inv p"
  shows "page_report_clean port y t p"
proof -
  from page_loops_met(2)[OF assms(1,4,5)]
  obtain r1 y1 r2 y2 where m: "close_frame r y r1 y1" "close_session_page port t p r1 y1 = Some (r2, y2)" "close_frame r2 y2 r' y'"
    by blast
  then obtain c where c: "page_close (sc_page port t) (ys_owned y1) p = Some c" "r2 = report_merge r1 (pg_report c)"
    by (auto simp: close_session_page_def)
  have "is_complete (pg_report c)" using complete_frame[OF m(3) assms(2)] by (simp add: c(2))
  note report = page_close_report[OF c(1) assms(6) this]
  have "set (rg_entries (ys_owned y1)) \<subseteq> set (rg_entries (ys_owned y))"
    using m(1) assms(3) by (simp add: close_frame_def owned_shrinks_def)
  with report show ?thesis by (auto simp: page_report_clean_def split: option.splits)
qed

lemma mark_loop_clean:
  assumes "each_page (mark_session_page port) ts r y = Some (r', y')" "is_complete r'"
    "t \<in> set ts" "map_of (ys_pages y) t = Some p" "page_inv p"
  shows "case pt_close_report p of Some earlier \<Rightarrow> is_complete earlier | None \<Rightarrow> resources_clean (sc_page port t) p"
proof -
  from page_loops_met(3)[OF assms(1,3,4)]
  obtain r1 y1 r2 y2 where m: "mark_session_page port t p r1 y1 = Some (r2, y2)" "close_frame r2 y2 r' y'"
    by blast
  then obtain c where c: "mark_closed_by_session (sc_page port t) (ys_owned y1) p = Some c" "r2 = report_merge r1 (pg_report c)"
    by (auto simp: mark_session_page_def)
  have "is_complete (pg_report c)" using complete_frame[OF m(2) assms(2)] by (simp add: c(2))
  from mark_closed_report[OF c(1) assms(5) this] show ?thesis .
qed

lemma route_loop_clean:
  assumes "each_page (cleanup_page_routes port) ts r y = Some (r', y')" "is_complete r'"
    "t \<in> set ts" "map_of (ys_pages y) t = Some p" "page_inv p"
  shows "registry_clean (cp_run (sc_page port t)) (RouteConfig.rg_pending (pt_routes p))"
proof -
  from page_loops_met(1)[OF assms(1,3,4)]
  obtain r1 y1 r2 y2 where m: "cleanup_page_routes port t p r1 y1 = Some (r2, y2)" "close_frame r2 y2 r' y'"
    by blast
  then obtain rs reg where rs: "registry_cleanup_all (cp_run (sc_page port t)) (RouteConfig.rg_pending (pt_routes p)) = (Some rs, reg)"
      "r2 = report_merge r1 (fold (report_route (\<lambda>_. False)) rs (new_report ''route configurations''))"
    by (auto simp: cleanup_page_routes_def cleanup_all_routes_def split: prod.splits option.splits)
  have "\<forall>(k, x) \<in> set rs. x = None"
    using complete_frame[OF m(2) assms(2)] by (simp add: rs(2) fold_report_route_complete)
  moreover have "registry_inv (RouteConfig.rg_pending (pt_routes p))"
    using assms(5) by (simp add: page_inv_def page_registries_def)
  ultimately show ?thesis using cleanup_all_clean[OF _ rs(1)] by blast
qed

text \<open>What a page was before the side effects of the close and the first loop.\<close>

lemma page_before_loops:
  assumes "registry_clean (cp_run port) (RouteConfig.rg_pending (pt_routes p))"
    "resources_clean port ((begin_side_effect_close p)\<lparr>pt_routes := routes\<rparr>)"
  shows "resources_clean port p"
proof -
  have "page_registries ((begin_side_effect_close p)\<lparr>pt_routes := routes\<rparr>) =
      [pt_locators p, RouteConfig.rg_pending routes] @ drop 2 (page_registries p)"
    using begin_side_effect_close_keeps(9)[of p] by (simp add: page_registries_def)
  moreover have "page_registries p = [pt_locators p, RouteConfig.rg_pending (pt_routes p)] @ drop 2 (page_registries p)"
    by (simp add: page_registries_def)
  moreover have "interception_ends port ((begin_side_effect_close p)\<lparr>pt_routes := routes\<rparr>) = interception_ends port p"
      "aux_registries ((begin_side_effect_close p)\<lparr>pt_routes := routes\<rparr>) = aux_registries p"
    using begin_side_effect_close_ends[of port p] begin_side_effect_close_keeps(10)[of p]
    by (simp_all add: interception_ends_def aux_registries_def)
  ultimately show ?thesis using assms
    by (simp add: resources_clean_def) (metis append_Cons append_Nil list.pred_inject(2))
qed

lemma page_inv_before_loops:
  assumes "page_inv p" "registry_inv (RouteConfig.rg_pending routes)"
  shows "page_inv ((begin_side_effect_close p)\<lparr>pt_routes := routes\<rparr>)"
  using assms begin_side_effect_close_keeps(9,10)[of p]
  by (simp add: page_inv_def page_registries_def aux_registries_def)

text \<open>The disposal of the context: what it consumes, and what a complete report says about it.\<close>

definition context_disposed :: "session_port \<Rightarrow> session_system \<Rightarrow> bool" where
  "context_disposed port y \<longleftrightarrow>
     (\<exists>g reg. ys_owned_context y = Some g \<and> guard_cleanup (sc_run port) (fst g) (snd g) (ys_contexts y) = (Some None, reg))"

definition pages_phase :: "close_report \<Rightarrow> session_system \<Rightarrow> close_report \<Rightarrow> session_system \<Rightarrow> bool" where
  "pages_phase r y r' y' \<longleftrightarrow>
     (\<exists>fs. cr_failures r' = cr_failures r @ fs) \<and> ys_pending y' = ys_pending y \<and> ys_ledger y' = ys_ledger y \<and>
     ys_permission y' = ys_permission y \<and> ys_configuration y' = ys_configuration y"

lemma frame_phase: "close_frame r y r' y' \<Longrightarrow> pages_phase r y r' y'"
  by (simp add: close_frame_def pages_phase_def)

lemma phase_trans: "pages_phase r y r' y' \<Longrightarrow> pages_phase r' y' r'' y'' \<Longrightarrow> pages_phase r y r'' y''"
  by (auto simp: pages_phase_def)

lemma dispose_context_effect:
  assumes "dispose_context port ts r y = Some (r', y')"
  shows "pages_phase r y r' y' \<and> ys_owned_context y' = None"
    and "is_complete r' \<Longrightarrow> context_disposed port y"
    and "is_complete r' \<Longrightarrow> \<not> ys_pages_first y \<Longrightarrow> t \<in> set ts \<Longrightarrow> map_of (ys_pages y) t = Some p \<Longrightarrow> page_inv p \<Longrightarrow>
      (case pt_close_report p of Some earlier \<Rightarrow> is_complete earlier | None \<Rightarrow> resources_clean (sc_page port t) p)"
proof -
  obtain ctx resource token where o: "ys_context y = Some ctx" "ys_owned_context y = Some (resource, token)"
    using assms by (auto simp: dispose_context_def split: option.splits)
  obtain result reg where g: "guard_cleanup (sc_run port) resource token (ys_contexts y) = (Some result, reg)"
    using assms o by (auto simp: dispose_context_def split: prod.splits option.splits)
  define y1 where "y1 = send_commands (claimed (resource, token) (ys_contexts y)) (y\<lparr>ys_contexts := reg, ys_owned_context := None\<rparr>)"
  define r1 where "r1 = report_result (''browser-context:'' @ ctx, result) r"
  have y1: "ys_pages y1 = ys_pages y" "ys_pages_first y1 = ys_pages_first y" "ys_owned_context y1 = None" "pages_phase r y r1 y1"
    using report_result_grows by (auto simp: y1_def r1_def send_commands_def pages_phase_def)
  have "dispose_context port ts r y = (if result = None \<and> \<not> ys_pages_first y1 then each_page (mark_session_page port) ts r1 y1
      else Some (r1, y1))"
    by (simp add: dispose_context_def o g y1_def r1_def Let_def)
  from trans[OF this[symmetric] assms] have run: "(if result = None \<and> \<not> ys_pages_first y1 then each_page (mark_session_page port) ts r1 y1
      else Some (r1, y1)) = Some (r', y')" .
  then have f: "close_frame r1 y1 r' y'"
    using each_page_frame[OF page_steps_frame(3)] by (auto simp: close_frame_refl split: if_splits)
  then show "pages_phase r y r' y' \<and> ys_owned_context y' = None"
    using phase_trans[OF y1(4) frame_phase[OF f]] y1(3) by (simp add: close_frame_def)
  have result: "result = None" if "is_complete r'"
    using complete_frame[OF f that] by (auto simp: r1_def report_result_def split: option.splits)
  from result o g show "context_disposed port y" if "is_complete r'"
    using that by (simp add: context_disposed_def)
  show "case pt_close_report p of Some earlier \<Rightarrow> is_complete earlier | None \<Rightarrow> resources_clean (sc_page port t) p"
    if "is_complete r'" "\<not> ys_pages_first y" "t \<in> set ts" "map_of (ys_pages y) t = Some p" "page_inv p"
    using mark_loop_clean[of port ts r1 y1 r' y' t p] run result that y1(1,2) by simp
qed

text \<open>The pages and the context of the session, whichever of the two it owns.\<close>

lemma close_session_pages_effect:
  assumes "close_session_pages port ts r y = Some (r', y')"
  shows "pages_phase r y r' y' \<and> (ys_kind y = IsolatedKind \<longrightarrow> ys_owned_context y' = None)"
    and "is_complete r' \<Longrightarrow> ys_kind y = IsolatedKind \<Longrightarrow> context_disposed port y"
    and "is_complete r' \<Longrightarrow> registry_inv (ys_owned y) \<Longrightarrow> t \<in> set ts \<Longrightarrow> map_of (ys_pages y) t = Some p \<Longrightarrow> page_inv p \<Longrightarrow>
      page_report_clean port y t p"
proof -
  have "(pages_phase r y r' y' \<and> (ys_kind y = IsolatedKind \<longrightarrow> ys_owned_context y' = None)) \<and>
      (is_complete r' \<and> ys_kind y = IsolatedKind \<longrightarrow> context_disposed port y) \<and>
      (is_complete r' \<and> registry_inv (ys_owned y) \<and> t \<in> set ts \<and> map_of (ys_pages y) t = Some p \<and> page_inv p \<longrightarrow>
         page_report_clean port y t p)"
  proof (cases "ys_kind y")
    case DefaultKind
    with assms have run: "each_page (close_session_page port) ts r y = Some (r', y')"
      by (simp add: close_session_pages_def session_close_action_def)
    from each_page_frame[OF page_steps_frame(2) run] DefaultKind close_loop_clean[OF run] show ?thesis
      by (auto intro: frame_phase)
  next
    case IsolatedKind
    with assms obtain r1 y1 where s: "(if ys_pages_first y then each_page (close_session_page port) ts r y else Some (r, y)) = Some (r1, y1)"
        "dispose_context port ts r1 y1 = Some (r', y')"
      by (auto simp: close_session_pages_def session_close_action_def close_step_def split: option.splits)
    then have f: "close_frame r y r1 y1"
      using each_page_frame[OF page_steps_frame(2)] by (auto simp: close_frame_refl split: if_splits)
    note d = dispose_context_effect[OF s(2)]
    have same: "context_disposed port y1 = context_disposed port y" using f by (simp add: close_frame_def context_disposed_def)
    have complete: "is_complete r1" if "is_complete r'"
      using d(1) that by (auto simp: pages_phase_def intro: complete_prefix)
    have "page_report_clean port y t p"
      if "is_complete r'" "registry_inv (ys_owned y)" "t \<in> set ts" "map_of (ys_pages y) t = Some p" "page_inv p"
    proof (cases "ys_pages_first y")
      case True
      with close_loop_clean[of port ts r y r1 y1 t p] s(1) complete that show ?thesis by simp
    next
      case False
      with s(1) have "y1 = y" by simp
      with d(3)[OF that(1) _ that(3) _ that(5)] False that(4) IsolatedKind show ?thesis
        by (auto simp: page_report_clean_def split: option.splits)
    qed
    with d(1,2) same phase_trans[OF frame_phase[OF f]] show ?thesis by blast
  qed
  then show "pages_phase r y r' y' \<and> (ys_kind y = IsolatedKind \<longrightarrow> ys_owned_context y' = None)"
    and "is_complete r' \<Longrightarrow> ys_kind y = IsolatedKind \<Longrightarrow> context_disposed port y"
    and "is_complete r' \<Longrightarrow> registry_inv (ys_owned y) \<Longrightarrow> t \<in> set ts \<Longrightarrow> map_of (ys_pages y) t = Some p \<Longrightarrow> page_inv p \<Longrightarrow>
      page_report_clean port y t p"
    by blast+
qed

lemma cleanup_permissions_effect:
  assumes "cleanup_permissions port r y = Some (r', y')"
  shows "(\<exists>fs. cr_failures r' = cr_failures r @ fs) \<and> ys_pending y' = ys_pending y \<and> ys_ledger y' = ys_ledger y \<and>
      ys_owned_context y' = ys_owned_context y \<and> ys_permission y' = None"
    and "is_complete r' \<Longrightarrow> ys_permission y = Some (resource, token) \<Longrightarrow>
      fst (guard_cleanup (sc_run port) resource token (ys_configuration y)) = Some None"
proof -
  show "(\<exists>fs. cr_failures r' = cr_failures r @ fs) \<and> ys_pending y' = ys_pending y \<and> ys_ledger y' = ys_ledger y \<and>
      ys_owned_context y' = ys_owned_context y \<and> ys_permission y' = None"
    using assms report_result_grows
    by (auto simp: cleanup_permissions_def send_commands_def split: option.splits prod.splits)
  show "fst (guard_cleanup (sc_run port) resource token (ys_configuration y)) = Some None"
    if "is_complete r'" "ys_permission y = Some (resource, token)"
    using assms that
    by (auto simp: cleanup_permissions_def report_result_def split: option.splits prod.splits)
qed


text \<open>An isolated session with one page, one pending detach, and a failure kept from a creation.\<close>

definition example_isolated :: session_system where
  "example_isolated =
     (case registry_register ''browser-context:x'' (DisposeContext ''x'') new_registry of (token, contexts) \<Rightarrow>
        example_system
          \<lparr>ys_kind := IsolatedKind, ys_context := Some ''x'', ys_contexts := contexts,
           ys_owned_context := Some (''browser-context:x'', token),
           ys_pages := [(''t'', build_page ''t'' PageAttached ''c'' example_system)],
           ys_pending := snd (registry_register ''page-attachment:u'' (DetachSession ''d'') new_registry),
           ys_ledger := [\<lparr>cf_resource = ''page:v'', cf_message = ''late''\<rparr>]\<rparr>)"

definition example_session_port :: session_port where
  "example_session_port =
     \<lparr>sc_run = (\<lambda>_. None),
      sc_page = (\<lambda>_. \<lparr>cp_chooser = (\<lambda>_. Inr ()), cp_run = (\<lambda>_. None), cp_detach_aux = (\<lambda>_. None), cp_detach = None,
                      cp_close_target = None\<rparr>)\<rparr>"

definition example_session_end :: "close_report \<times> session_system" where
  "example_session_end = the (finish_session_close example_session_port (begin_session_close example_isolated))"


subsection \<open>Attaching never closes a target\<close>

lemma registered_attachment:
  assumes "attachment_resource t \<notin> keys (rg_entries (ys_pending y))" "track_pending_attachment t s y = (g, y')"
  shows "registered g (DetachSession s) (rg_entries (ys_pending y)) (ys_pending y')" "\<exists>reg. y' = y\<lparr>ys_pending := reg\<rparr>"
proof -
  obtain token reg where r: "registry_register (attachment_resource t) (DetachSession s) (ys_pending y) = (token, reg)" by fastforce
  from registered_register[OF assms(1) r] assms(2) r
  show "registered g (DetachSession s) (rg_entries (ys_pending y)) (ys_pending y')"
    by (auto simp: track_pending_attachment_def track_in_pending_def)
  show "\<exists>reg. y' = y\<lparr>ys_pending := reg\<rparr>" using assms(2) r by (auto simp: track_pending_attachment_def track_in_pending_def)
qed

text \<open>
  What attaching a new page does: it publishes the page and keeps nothing pending, or it leaves pages and
  pending clean-ups alone and has detached the session it attached, if any. No target is ever closed.
\<close>

definition attach_ended :: "session_system \<Rightarrow> ident \<Rightarrow> page_ownership \<Rightarrow> session_page outcome \<Rightarrow> session_system \<Rightarrow> bool" where
  "attach_ended y t own out y' \<longleftrightarrow>
     rg_entries (ys_pending y') = rg_entries (ys_pending y) \<and> ys_owned y' = ys_owned y \<and>
     (\<exists>cs. ys_sent y' = ys_sent y @ cs \<and>
        (case out of
           Returned (Inr p) \<Rightarrow> ys_pages y' = AList.update t p (ys_pages y) \<and> pt_ownership p = own \<and> cleanups_of cs = []
         | _ \<Rightarrow> ys_pages y' = ys_pages y \<and> (cleanups_of cs = [] \<or> (\<exists>s. cleanups_of cs = [DetachSession s]))))"

lemma attach_failed_ends:
  assumes "registered g (DetachSession s) (rg_entries (ys_pending y0)) (ys_pending y)" "ys_owned y = ys_owned y0"
    "ys_pages y = ys_pages y0" "ys_sent y = ys_sent y0 @ cs" "cleanups_of cs = []"
  shows "\<exists>out y'. attach_failed port t g e y = Some (out, y') \<and> attach_ended y0 t own out y'"
proof -
  obtain reg where reg: "guard_cleanup (ap_run port) (fst g) (snd g) (ys_pending y) = (Some (ap_run port (DetachSession s)), reg)"
      "rg_entries reg = rg_entries (ys_pending y0)"
    using registered_effects(1)[OF assms(1)] by blast
  show ?thesis
    using reg assms registered_claimed[OF assms(1)]
    by (auto simp: attach_failed_def cleanup_pending_def attach_ended_def send_commands_def)
qed

theorem attach_page_is_undone:
  assumes "attachment_resource t \<notin> keys (rg_entries (ys_pending y))"
  shows "\<exists>out y'. attach_known_page port t own y = Some (out, y') \<and> attach_ended y t own out y'"
proof (cases "session_enter ''complete page target attachment'' y")
  case (Inl e)
  then show ?thesis by (simp add: attach_known_page_def attach_borrowed_target_def attach_ended_def)
next
  case (Inr z)
  define z1 where "z1 = send_commands [CmdAttach t] z"
  from session_enter_entered[OF Inr] have z1: "ys_pages z1 = ys_pages y" "ys_pending z1 = ys_pending y" "ys_owned z1 = ys_owned y"
      "ys_sent z1 = ys_sent y @ [CmdAttach t]"
    by (simp_all add: z1_def send_commands_def entered_def)
  have plain: "attach_ended y t own out (session_leave z1)" if "\<forall>p. out \<noteq> Returned (Inr p)" for out
    using z1 that by (auto simp: attach_ended_def session_leave_def split: outcome.split sum.split)
  show ?thesis
  proof (cases "\<exists>s. ap_attach port = TaskAnswer (Inr s) \<or> ap_attach port = CallerLeft (Inr s)")
    case False
    then show ?thesis using Inr plain
      by (auto simp: attach_known_page_def attach_borrowed_target_def z1_def[symmetric] Let_def split: task_reply.split sum.split)
  next
    case True
    then obtain s where s: "ap_attach port = TaskAnswer (Inr s) \<or> ap_attach port = CallerLeft (Inr s)" by blast
    obtain g z2 where g: "track_pending_attachment t s z1 = (g, z2)" by fastforce
    note r = registered_attachment[OF _ g, unfolded z1, OF assms]
    from r(2) obtain reg where z2: "z2 = z1\<lparr>ys_pending := reg\<rparr>" by blast
    define z3 where "z3 = session_leave z2"
    have z3: "registered g (DetachSession s) (rg_entries (ys_pending y)) (ys_pending z3)" "ys_owned z3 = ys_owned y"
        "ys_pages z3 = ys_pages y" "ys_sent z3 = ys_sent y @ [CmdAttach t]"
      using r(1) z1 by (simp_all add: z3_def z2 session_leave_def)
    show ?thesis
    proof (cases "ap_attach port = TaskAnswer (Inr s)")
      case False
      with s Inr g have "attach_known_page port t own y = Some (CallerGone, session_leave (schedule_pending (ap_run port) g z2))"
        by (simp add: attach_known_page_def attach_borrowed_target_def z1_def[symmetric])
      then show ?thesis using registered_effects(2)[OF r(1)] registered_claimed[OF r(1)] z1
        by (auto simp: attach_ended_def session_leave_def schedule_pending_def send_commands_def z2)
    next
      case True
      show ?thesis
      proof (cases "ap_store port")
        case (Inl e)
        from attach_failed_ends[OF z3(1-4)] True Inl Inr g show ?thesis
          by (simp add: attach_known_page_def attach_borrowed_target_def z1_def[symmetric] z3_def[symmetric])
      next
        case store: (Inr u)
        obtain configured route_run where c: "configure_main_route (ap_route port) (ap_baseline port) (ys_options z3) t = (configured, route_run)"
          by fastforce
        define z4 where "z4 = send_commands (map CmdRoute (ru_sent route_run)) z3"
        have z4: "registered g (DetachSession s) (rg_entries (ys_pending y)) (ys_pending z4)" "ys_owned z4 = ys_owned y"
            "ys_pages z4 = ys_pages y" "ys_sent z4 = ys_sent y @ (CmdAttach t # map CmdRoute (ru_sent route_run))"
          using z3 by (simp_all add: z4_def send_commands_def)
        have step: "attach_known_page port t own y = (case configured of
             Inl e \<Rightarrow> attach_failed port t g e z4
           | Inr keep \<Rightarrow> let p = build_page t own s z4; p' = (if keep then retain_configured_route p else p)
                        in Some (Returned (Inr p'), disarm_pending g (publish_page t p' z4)))"
          using True store Inr g c
          by (simp add: attach_known_page_def attach_borrowed_target_def z1_def[symmetric] z3_def[symmetric] z4_def[symmetric])
        show ?thesis
        proof (cases configured)
          case (Inl e)
          from attach_failed_ends[OF z4] Inl step show ?thesis by simp
        next
          case (Inr keep)
          have "pt_ownership (if keep then retain_configured_route p else p) = pt_ownership p" for p
            by (simp add: retain_configured_route_def split: prod.split)
          then show ?thesis using Inr step z4 registered_effects(3)[OF z4(1)]
            by (simp add: Let_def attach_ended_def disarm_pending_def publish_page_simps build_page_def new_page_state_def)
        qed
      qed
    qed
  qed
qed

theorem attach_page_is_undone_witness:
  "\<exists>out y'. attach_known_page \<lparr>ap_info = Inl ''x'', ap_attach = TaskAnswer (Inr ''c''), ap_store = Inr (), ap_baseline = ''ua'',
       ap_route = (\<lambda>_ _. Some ''no''), ap_run = (\<lambda>_. None)\<rparr> ''t'' PageAttached example_system = Some (out, y') \<and>
     attach_ended example_system ''t'' PageAttached out y'"
  by (rule attach_page_is_undone) (simp add: example_system_def new_registry_def)

end
