(* ===== verification/RuntimeCore.thy ===== *)
theory RuntimeCore
  imports SessionClose Launch NetworkReducer
begin

text \<open>
  The browser runtime (\<open>src/src/runtime/browser.rs\<close>) and the creation of its sessions
  (\<open>src/src/runtime/session.rs\<close>): the connection and its metadata, the slot of the default session, admission
  and preflight, permissions, the creation of contexts, and the close of everything. A session works on the
  registries of its runtime: they are lent to it for every operation and taken back after it.
\<close>

declare map_of_eq_Some_iff [simp del] and Some_eq_map_of_iff [simp del]

subsection \<open>Creation options\<close>

record default_session_options =
  do_context :: context_options
  do_network :: observation_options

record isolated_session_options =
  io_pages_first :: bool
  io_context :: context_options
  io_proxy :: "proxy_options option"
  io_network :: observation_options

datatype session_creation_options = DefaultCreation default_session_options | IsolatedCreation isolated_session_options

definition default_observation :: observation_options where
  "default_observation = \<lparr>ob_ttl = 30 * 1000 * 1000 * 1000, ob_max_bytes = 16 * 1024 * 1024\<rparr>"

definition default_session_defaults :: default_session_options where
  "default_session_defaults = \<lparr>do_context = default_context_options, do_network = default_observation\<rparr>"

definition creation_context :: "session_creation_options \<Rightarrow> context_options" where
  "creation_context c = (case c of DefaultCreation d \<Rightarrow> do_context d | IsolatedCreation i \<Rightarrow> io_context i)"

definition creation_pages_first :: "session_creation_options \<Rightarrow> bool" where
  "creation_pages_first c = (case c of DefaultCreation _ \<Rightarrow> False | IsolatedCreation i \<Rightarrow> io_pages_first i)"

subsection \<open>State\<close>

datatype default_state = NeverCreated | DefaultOpen | DefaultClosed

record default_slot =
  ds_state :: default_state
  ds_current :: "ident option"

text \<open>What a permission override sends: the descriptor with its \<open>sysex\<close> flag, the setting, origin and context.\<close>

datatype cdp_setting = Granted | Denied | CdpPrompt

record permission_command =
  pc_name :: string
  pc_sysex :: "bool option"
  pc_setting :: cdp_setting
  pc_origin :: "string option"
  pc_context :: "ident option"

datatype runtime_command =
  RcGetContexts | RcSetPermission permission_command | RcCreateContext "(string \<times> string option) option" | RcObserve
| RcDiscover | RcCleanup remote_cleanup | RcDisconnect | RcKill

text \<open>\<open>rn_alive\<close>: some handle of the session is left; the runtime holds it weakly.\<close>

record runtime_session =
  rn_system :: session_system
  rn_options :: session_creation_options
  rn_capabilities :: capability_set
  rn_close_report :: "close_report option"
  rn_alive :: bool

record runtime_system =
  rs_id :: ident
  rs_ownership :: browser_ownership
  rs_capabilities :: runtime_capabilities
  rs_launched :: "launched_browser option"
  rs_sessions :: "(ident \<times> runtime_session) list"
  rs_default :: default_slot
  rs_contexts :: "remote_cleanup ownership_registry"
  rs_configuration :: "remote_cleanup ownership_registry"
  rs_owned :: "remote_cleanup ownership_registry"
  rs_gate :: operation_gate
  rs_close_report :: "close_report option"
  rs_events :: "runtime_event list"
  rs_events_closed :: "close_reason option"
  rs_connected :: bool
  rs_sent :: "runtime_command list"

definition publish_event :: "runtime_event \<Rightarrow> runtime_system \<Rightarrow> runtime_system" where
  "publish_event e w = (if rs_events_closed w \<noteq> None then w else w\<lparr>rs_events := rs_events w @ [e]\<rparr>)"

definition close_event_source :: "close_reason \<Rightarrow> runtime_system \<Rightarrow> runtime_system" where
  "close_event_source r w = (if rs_events_closed w \<noteq> None then w else w\<lparr>rs_events_closed := Some r\<rparr>)"

definition send_runtime :: "runtime_command list \<Rightarrow> runtime_system \<Rightarrow> runtime_system" where
  "send_runtime cs w = w\<lparr>rs_sent := rs_sent w @ cs\<rparr>"

definition runtime_enter :: "string \<Rightarrow> runtime_system \<Rightarrow> rt_error + runtime_system" where
  "runtime_enter op w = and_then (gate_enter op (rs_gate w)) (\<lambda>g. Inr (w\<lparr>rs_gate := g\<rparr>))"

definition runtime_leave :: "runtime_system \<Rightarrow> runtime_system" where
  "runtime_leave w = w\<lparr>rs_gate := gate_release (rs_gate w)\<rparr>"

text \<open>The parts of the runtime a session works on.\<close>

definition lend :: "runtime_system \<Rightarrow> session_system \<Rightarrow> session_system" where
  "lend w y =
     y\<lparr>ys_owned := rs_owned w, ys_contexts := rs_contexts w, ys_configuration := rs_configuration w, ys_runtime_gate := rs_gate w,
       ys_runtime_events := rs_events w, ys_runtime_ended := rs_events_closed w\<rparr>"

definition take_back :: "ident \<Rightarrow> session_system \<Rightarrow> runtime_system \<Rightarrow> runtime_system" where
  "take_back s y w =
     w\<lparr>rs_owned := ys_owned y, rs_contexts := ys_contexts y, rs_configuration := ys_configuration y, rs_gate := ys_runtime_gate y,
       rs_events := ys_runtime_events y, rs_events_closed := ys_runtime_ended y,
       rs_sessions := AList.map_entry s (\<lambda>n. n\<lparr>rn_system := y\<rparr>) (rs_sessions w)\<rparr>"

subsection \<open>Connecting\<close>

text \<open>
  A runtime is built only with its metadata; without it the
  connection is closed, and the process of a launched browser killed.
\<close>

record version_reply =
  vr_protocol :: string
  vr_product :: string
  vr_revision :: string
  vr_user_agent :: string
  vr_js :: string

definition browser_metadata_of :: "string + version_reply \<Rightarrow> headless_mode \<Rightarrow> rt_error + browser_metadata" where
  "browser_metadata_of reply mode =
     (case reply of
        Inl e \<Rightarrow> Inl (cdp_operation id ''Browser.getVersion'' Preparation e)
      | Inr v \<Rightarrow> Inr (new_metadata (vr_protocol v) (vr_product v) (vr_revision v) (vr_user_agent v) (vr_js v) mode))"

definition new_runtime ::
  "u64 \<Rightarrow> browser_ownership \<Rightarrow> runtime_capabilities \<Rightarrow> launched_browser option \<Rightarrow> runtime_system" where
  "new_runtime sequence own caps launched =
     \<lparr>rs_id = ''runtime-'' @ show_nat (unat sequence), rs_ownership = own, rs_capabilities = caps, rs_launched = launched, rs_sessions = [],
      rs_default = \<lparr>ds_state = NeverCreated, ds_current = None\<rparr>, rs_contexts = new_registry, rs_configuration = new_registry,
      rs_owned = new_registry, rs_gate = new_gate (''runtime:'' @ show_nat (unat sequence)), rs_close_report = None, rs_events = [],
      rs_events_closed = None, rs_connected = True, rs_sent = []\<rparr>"

datatype connection_effect = Connected | Disconnected_by_us | LaunchEffect launch_effect

definition connect_runtime ::
  "u64 \<Rightarrow> string + unit \<Rightarrow> string + version_reply \<Rightarrow> (rt_error + runtime_system) \<times> connection_effect list" where
  "connect_runtime sequence connection version =
     (case connection of
        Inl e \<Rightarrow> (Inl (from_cdp_error id e), [])
      | Inr _ \<Rightarrow>
          (case browser_metadata_of version HeadlessUnknown of
             Inl e \<Rightarrow> (Inl e, [Connected, Disconnected_by_us])
           | Inr metadata \<Rightarrow>
               (Inr (new_runtime sequence Attached (derive_capabilities metadata Attached False) None), [Connected])))"

definition launch_runtime ::
  "u64 \<Rightarrow> launch_env \<Rightarrow> launch_options \<Rightarrow> string + version_reply
   \<Rightarrow> ((rt_error + runtime_system) \<times> connection_effect list) option" where
  "launch_runtime sequence env opts version =
     (case launch_browser env opts of
        None \<Rightarrow> None
      | Some (Inl e, effects) \<Rightarrow> Some (Inl e, map LaunchEffect effects)
      | Some (Inr launched, effects) \<Rightarrow>
          Some (case browser_metadata_of version (if lp_headless opts then Headless else Headed) of
                  Inl e \<Rightarrow> (Inl (kill_after env e), map LaunchEffect effects @ [Connected, Disconnected_by_us, LaunchEffect Killed])
                | Inr metadata \<Rightarrow>
                    (Inr (new_runtime sequence Launched (derive_capabilities metadata Launched (lp_proxy opts \<noteq> None)) (Some launched)),
                     map LaunchEffect effects @ [Connected])))"

text \<open>When the connection ends on its own, the event source ends.\<close>

definition connection_lost :: "runtime_system \<Rightarrow> runtime_system" where
  "connection_lost w =
     close_event_source (if og_handle (rs_gate w) = HOpen then Disconnected else ScopeClosed) (w\<lparr>rs_connected := False\<rparr>)"

definition runtime_is_closed :: "runtime_system \<Rightarrow> bool" where
  "runtime_is_closed w \<longleftrightarrow> og_handle (rs_gate w) \<noteq> HOpen \<or> \<not> rs_connected w"

text \<open>A launched browser whose version is not answered is killed; one that becomes a runtime is not.\<close>

lemma launch_browser_effects:
  assumes "launch_browser env opts = Some (r, effects)"
  shows "(\<exists>c. effects = (if isl r then [Spawned c, Killed] else [Spawned c])) \<or> effects = [] \<and> isl r"
  using assms
  by (auto simp: launch_browser_def dest!: launch_spawned_effects split: sum.splits option.splits) (metis sum.disc(1))+

lemma launch_runtime_effects:
  assumes "launch_runtime sequence env opts version = Some (r, effects)"
  shows "(LaunchEffect Killed \<in> set effects \<longleftrightarrow> isl r \<and> effects \<noteq> []) \<and> (Connected \<in> set effects \<and> isl r \<longrightarrow> Disconnected_by_us \<in> set effects)"
proof -
  from assms obtain b le where l: "launch_browser env opts = Some (b, le)" by (auto simp: launch_runtime_def split: option.splits)
  show ?thesis
  proof (cases b)
    case (Inl e)
    with assms l have "r = Inl e" "effects = map LaunchEffect le" by (simp_all add: launch_runtime_def)
    with launch_browser_effects[OF l] Inl show ?thesis by auto
  next
    case (Inr launched)
    with launch_browser_effects[OF l] obtain c where "le = [Spawned c]" by auto
    with assms l Inr show ?thesis by (auto simp: launch_runtime_def split: sum.splits)
  qed
qed

subsection \<open>The slot of the default session\<close>

definition default_slot_error :: "string \<Rightarrow> rt_error" where
  "default_slot_error m = with_message m (operation_error ''get default session'' Preparation)"

definition live_session :: "runtime_system \<Rightarrow> ident \<Rightarrow> runtime_session option" where
  "live_session w s = (case map_of (rs_sessions w) s of Some n \<Rightarrow> if rn_alive n then Some n else None | None \<Rightarrow> None)"

definition resolve_default :: "runtime_system \<Rightarrow> rt_error + ident option" where
  "resolve_default w =
     (case ds_state (rs_default w) of
        NeverCreated \<Rightarrow> Inr None
      | DefaultOpen \<Rightarrow>
          (case ds_current (rs_default w) of
             None \<Rightarrow> Inr None
           | Some s \<Rightarrow>
               (case live_session w s of
                  None \<Rightarrow> Inr None
                | Some n \<Rightarrow>
                    if og_handle (ys_gate (rn_system n)) \<noteq> HOpen then Inl (default_slot_error ''the default session is closing or closed'')
                    else Inr (Some s)))
      | DefaultClosed \<Rightarrow> Inl (default_slot_error ''the default session was explicitly closed''))"

definition register_default :: "ident \<Rightarrow> default_slot \<Rightarrow> default_slot" where
  "register_default s d = (if ds_state d \<noteq> DefaultClosed then \<lparr>ds_state = DefaultOpen, ds_current = Some s\<rparr> else d)"

definition default_slot_closed :: "default_slot \<Rightarrow> default_slot" where
  "default_slot_closed d = d\<lparr>ds_state := DefaultClosed, ds_current := None\<rparr>"

definition register_session :: "ident \<Rightarrow> runtime_session \<Rightarrow> runtime_system \<Rightarrow> runtime_system" where
  "register_session s n w =
     publish_event (RtSessionCreated s (ys_kind (rn_system n)))
       (w\<lparr>rs_sessions := AList.update s n (rs_sessions w),
          rs_default := (if ys_kind (rn_system n) = DefaultKind then register_default s (rs_default w) else rs_default w)\<rparr>)"

subsection \<open>Preflight and permissions\<close>

definition preflight_capability :: "runtime_capabilities \<Rightarrow> capability_scope \<Rightarrow> capability \<Rightarrow> string \<Rightarrow> rt_error + unit" where
  "preflight_capability caps sc c op =
     (let status = capability_status_of caps sc c
      in if cs_availability status = Unavailable then Inl (unsupported_capability op status) else Inr ())"

fun preflight_all :: "runtime_capabilities \<Rightarrow> capability_scope \<Rightarrow> capability list \<Rightarrow> string \<Rightarrow> rt_error + unit" where
  "preflight_all caps sc [] op = Inr ()"
| "preflight_all caps sc (c # cs) op = and_then (preflight_capability caps sc c op) (\<lambda>_. preflight_all caps sc cs op)"

definition preflight_context :: "runtime_capabilities \<Rightarrow> capability_scope \<Rightarrow> context_options \<Rightarrow> string \<Rightarrow> rt_error + unit" where
  "preflight_context caps sc opts op = preflight_all caps sc (required_capabilities opts) op"

definition permission_descriptor :: "permission_name \<Rightarrow> string \<times> bool option" where
  "permission_descriptor n =
     (case n of
        PermGeolocation \<Rightarrow> (''geolocation'', None)
      | PermNotifications \<Rightarrow> (''notifications'', None)
      | PermMidi \<Rightarrow> (''midi'', None)
      | PermMidiSysex \<Rightarrow> (''midi'', Some True)
      | PermCamera \<Rightarrow> (''camera'', None)
      | PermMicrophone \<Rightarrow> (''microphone'', None)
      | PermClipboardReadWrite \<Rightarrow> (''clipboard-read'', None)
      | PermClipboardSanitizedWrite \<Rightarrow> (''clipboard-sanitized-write'', None)
      | PermPaymentHandler \<Rightarrow> (''payment-handler'', None)
      | PermBackgroundSync \<Rightarrow> (''background-sync'', None)
      | PermSensors \<Rightarrow> (''sensors'', None)
      | PermAccessibilityEvents \<Rightarrow> (''accessibility-events'', None))"

definition cdp_permission_setting :: "permission_setting \<Rightarrow> cdp_setting" where
  "cdp_permission_setting s = (case s of Allow \<Rightarrow> Granted | Block \<Rightarrow> Denied | Prompt \<Rightarrow> CdpPrompt)"

definition permission_command_of :: "ident option \<Rightarrow> permission_override \<Rightarrow> permission_command" where
  "permission_command_of ctx p =
     \<lparr>pc_name = fst (permission_descriptor (pm_name p)), pc_sysex = snd (permission_descriptor (pm_name p)),
      pc_setting = cdp_permission_setting (pm_setting p), pc_origin = pm_origin p, pc_context = ctx\<rparr>"

text \<open>One command per permission; the first that fails ends it, and the caller may leave at each. None: all applied.\<close>

fun apply_permissions ::
  "(permission_command \<Rightarrow> (string + unit) awaited) \<Rightarrow> permission_command list \<Rightarrow> (rt_error + unit) awaited \<times> permission_command list" where
  "apply_permissions port [] = (Answered (Inr ()), [])"
| "apply_permissions port (c # cs) =
     (case port c of
        Dropped \<Rightarrow> (Dropped, [c])
      | Answered (Inl e) \<Rightarrow> (Answered (Inl (cdp_operation id ''Browser.setPermission'' Dispatch e)), [c])
      | Answered (Inr _) \<Rightarrow> (case apply_permissions port cs of (r, sent) \<Rightarrow> (r, c # sent)))"

subsection \<open>Creating a session\<close>

text \<open>
  What the browser answers; \<open>Dropped\<close> is a stage in which the caller leaves, and a guard that is dropped
  schedules its clean-up. \<open>ct_sequence\<close> is the global session counter.
\<close>

record creation_port =
  ct_contexts :: "(string + ident option) awaited"
  ct_create :: "ident task_reply"
  ct_permission :: "permission_command \<Rightarrow> (string + unit) awaited"
  ct_observe :: "(string + unit) awaited"
  ct_discover :: "(string + unit) awaited"
  ct_sequence :: u64
  ct_run :: "remote_cleanup \<Rightarrow> cleanup_result"

definition new_session_system ::
  "ident \<Rightarrow> session_kind \<Rightarrow> ident option \<Rightarrow> session_creation_options \<Rightarrow> u64 \<Rightarrow> session_system" where
  "new_session_system runtime kind ctx opts sequence =
     \<lparr>ys_runtime = runtime, ys_id = ''session-'' @ show_nat (unat sequence), ys_kind = kind, ys_context = ctx,
      ys_options = creation_context opts, ys_pages_first = creation_pages_first opts,
      ys_gate = new_gate (''session:'' @ show_nat (unat sequence)), ys_runtime_gate = new_gate runtime, ys_pages = [],
      ys_pending = new_registry, ys_owned = new_registry, ys_contexts = new_registry, ys_configuration = new_registry, ys_ledger = [],
      ys_owned_context = None, ys_permission = None, ys_targets = [], ys_slot = SlotEmpty, ys_events = [], ys_events_closed = None,
      ys_runtime_events = [], ys_runtime_ended = None, ys_lifecycle_cancelled = False, ys_sent = []\<rparr>"

text \<open>\<open>BrowserSession::new\<close>: the target events are observed before the discovery is switched on.\<close>

definition session_new ::
  "creation_port \<Rightarrow> session_kind \<Rightarrow> ident option \<Rightarrow> session_creation_options \<Rightarrow> capability_set \<Rightarrow> runtime_system
   \<Rightarrow> (rt_error + runtime_session) awaited \<times> runtime_system" where
  "session_new port kind ctx opts caps w =
     (let w1 = send_runtime [RcObserve] w;
          w2 = send_runtime [RcDiscover] w1
      in case ct_observe port of
           Dropped \<Rightarrow> (Dropped, w1)
         | Answered (Inl e) \<Rightarrow> (Answered (Inl (from_cdp_error id e)), w1)
         | Answered (Inr _) \<Rightarrow>
             (case ct_discover port of
                Dropped \<Rightarrow> (Dropped, w2)
              | Answered (Inl e) \<Rightarrow> (Answered (Inl (from_cdp_error id e)), w2)
              | Answered (Inr _) \<Rightarrow>
                  (Answered (Inr \<lparr>rn_system = new_session_system (rs_id w) kind ctx opts (ct_sequence port), rn_options = opts,
                                  rn_capabilities = caps, rn_close_report = None, rn_alive = True\<rparr>), w2)))"

text \<open>The two registries of the runtime that back the creation of a session.\<close>

definition track_pending_context :: "ident \<Rightarrow> runtime_system \<Rightarrow> guard \<times> runtime_system" where
  "track_pending_context ctx w =
     (case registry_register (''browser-context:'' @ ctx) (DisposeContext ctx) (rs_contexts w) of
        (token, reg) \<Rightarrow> ((''browser-context:'' @ ctx, token), w\<lparr>rs_contexts := reg\<rparr>))"

definition track_default_permission_reset :: "runtime_system \<Rightarrow> guard \<times> runtime_system" where
  "track_default_permission_reset w =
     (case registry_register ''permissions:default-context'' ResetPermissions (rs_configuration w) of
        (token, reg) \<Rightarrow> ((''permissions:default-context'', token), w\<lparr>rs_configuration := reg\<rparr>))"

datatype creation_guard = ContextGuard ident guard | PermissionGuard guard

definition guard_registry :: "creation_guard \<Rightarrow> runtime_system \<Rightarrow> guard \<times> remote_cleanup ownership_registry" where
  "guard_registry cg w = (case cg of ContextGuard _ g \<Rightarrow> (g, rs_contexts w) | PermissionGuard g \<Rightarrow> (g, rs_configuration w))"

definition put_registry :: "creation_guard \<Rightarrow> remote_cleanup ownership_registry \<Rightarrow> runtime_system \<Rightarrow> runtime_system" where
  "put_registry cg reg w = (case cg of ContextGuard _ _ \<Rightarrow> w\<lparr>rs_contexts := reg\<rparr> | PermissionGuard _ \<Rightarrow> w\<lparr>rs_configuration := reg\<rparr>)"

definition guard_resource :: "creation_guard \<Rightarrow> string" where
  "guard_resource cg = (case cg of ContextGuard ctx _ \<Rightarrow> ''browser-context:'' @ ctx | PermissionGuard _ \<Rightarrow> ''permissions:default-context'')"

definition claimed_runtime :: "guard \<Rightarrow> remote_cleanup ownership_registry \<Rightarrow> runtime_command list" where
  "claimed_runtime g reg = (case fst (registry_claim (fst g) (snd g) reg) of None \<Rightarrow> [] | Some cl \<Rightarrow> [RcCleanup cl])"

text \<open>An error after the guard: the clean-up runs, and its own failure is added to the error.\<close>

definition cleanup_creation_failure ::
  "(remote_cleanup \<Rightarrow> cleanup_result) \<Rightarrow> creation_guard option \<Rightarrow> rt_error \<Rightarrow> runtime_system \<Rightarrow> (ident outcome \<times> runtime_system) option" where
  "cleanup_creation_failure run cg e w =
     (case cg of
        None \<Rightarrow> Some (Returned (Inl e), w)
      | Some cg \<Rightarrow>
          (case guard_registry cg w of
             (g, reg) \<Rightarrow>
               (case guard_cleanup run (fst g) (snd g) reg of
                  (None, _) \<Rightarrow> None
                | (Some result, reg') \<Rightarrow>
                    Some (Returned (Inl (case result of
                              None \<Rightarrow> e
                            | Some failure \<Rightarrow> with_cleanup_failure
                                \<lparr>cf_resource = guard_resource cg, cf_message = show_cleanup_error failure\<rparr> e)),
                          send_runtime (claimed_runtime g reg) (put_registry cg reg' w)))))"

text \<open>The caller left: the drop of the guard schedules its clean-up.\<close>

definition drop_creation_guard ::
  "(remote_cleanup \<Rightarrow> cleanup_result) \<Rightarrow> creation_guard option \<Rightarrow> runtime_system \<Rightarrow> ident outcome \<times> runtime_system" where
  "drop_creation_guard run cg w =
     (CallerGone,
      case cg of
        None \<Rightarrow> w
      | Some cg \<Rightarrow> (case guard_registry cg w of
          (g, reg) \<Rightarrow> send_runtime (claimed_runtime g reg) (put_registry cg (schedule_in run g reg) w)))"

definition retained_guards :: "creation_guard option \<Rightarrow> session_system \<Rightarrow> session_system" where
  "retained_guards cg y =
     (case cg of None \<Rightarrow> y | Some (ContextGuard _ g) \<Rightarrow> y\<lparr>ys_owned_context := Some g\<rparr> | Some (PermissionGuard g) \<Rightarrow> y\<lparr>ys_permission := Some g\<rparr>)"

text \<open>The part both kinds share: permissions, the session, its registration, and the retained guard.\<close>

definition finish_session_creation ::
  "creation_port \<Rightarrow> session_kind \<Rightarrow> ident option \<Rightarrow> session_creation_options \<Rightarrow> capability_set \<Rightarrow> creation_guard option
   \<Rightarrow> runtime_system \<Rightarrow> (ident outcome \<times> runtime_system) option" where
  "finish_session_creation port kind ctx opts caps cg w =
     (case apply_permissions (ct_permission port)
             (map (permission_command_of (if kind = IsolatedKind then ctx else None)) (co_permissions (creation_context opts))) of
        (applied, sent) \<Rightarrow>
          let w1 = send_runtime (map RcSetPermission sent) w
          in (case applied of
                Dropped \<Rightarrow> Some (drop_creation_guard (ct_run port) cg w1)
              | Answered (Inl e) \<Rightarrow> cleanup_creation_failure (ct_run port) cg e w1
              | Answered (Inr _) \<Rightarrow>
                  (case session_new port kind ctx opts caps w1 of
                     (Dropped, w2) \<Rightarrow> Some (drop_creation_guard (ct_run port) cg w2)
                   | (Answered (Inl e), w2) \<Rightarrow> cleanup_creation_failure (ct_run port) cg e w2
                   | (Answered (Inr n), w2) \<Rightarrow>
                       let s = ys_id (rn_system n)
                       in Some (Returned (Inr s), register_session s (n\<lparr>rn_system := retained_guards cg (rn_system n)\<rparr>) w2))))"

definition create_default_session ::
  "creation_port \<Rightarrow> default_session_options \<Rightarrow> runtime_system \<Rightarrow> (ident outcome \<times> runtime_system) option" where
  "create_default_session port opts w =
     (let w1 = send_runtime [RcGetContexts] w
      in case ct_contexts port of
           Dropped \<Rightarrow> Some (CallerGone, w1)
         | Answered (Inl e) \<Rightarrow> Some (Returned (Inl (from_cdp_error id e)), w1)
         | Answered (Inr ctx) \<Rightarrow>
             (case (if co_permissions (do_context opts) \<noteq> []
                    then (case track_default_permission_reset w1 of (g, w2) \<Rightarrow> (Some (PermissionGuard g), w2))
                    else (None, w1)) of
                (cg, w2) \<Rightarrow>
                  finish_session_creation port DefaultKind ctx (DefaultCreation opts)
                    (for_scope (rs_capabilities w) DefaultContext) cg w2))"

text \<open>
  The lock of the creation is taken between the two halves: \<open>default_session_admitted\<close> before, with the permit
  of the runtime, and \<open>default_session_locked\<close> under the lock.
\<close>

definition default_session_admitted :: "default_session_options \<Rightarrow> runtime_system \<Rightarrow> rt_error + runtime_system" where
  "default_session_admitted opts w =
     and_then (runtime_enter ''create default session'' w) (\<lambda>w1.
     and_then (preflight_context (rs_capabilities w1) DefaultContext (do_context opts) ''create default session'') (\<lambda>_.
     Inr w1))"

definition default_session_locked ::
  "creation_port \<Rightarrow> default_session_options \<Rightarrow> runtime_system \<Rightarrow> (ident outcome \<times> runtime_system) option" where
  "default_session_locked port opts w =
     (case resolve_default w of
        Inl e \<Rightarrow> Some (Returned (Inl e), w)
      | Inr None \<Rightarrow> create_default_session port opts w
      | Inr (Some s) \<Rightarrow>
          (case live_session w s of
             Some n \<Rightarrow>
               Some (Returned (if rn_options n \<noteq> DefaultCreation opts
                               then Inl (configuration_error ''create default session'' ImmutableDefaultSessionOptions)
                               else Inr s), w)
           | None \<Rightarrow> create_default_session port opts w))"

definition default_session_with ::
  "creation_port \<Rightarrow> default_session_options \<Rightarrow> runtime_system \<Rightarrow> (ident outcome \<times> runtime_system) option" where
  "default_session_with port opts w =
     (case default_session_admitted opts w of
        Inl e \<Rightarrow> Some (Returned (Inl e), w)
      | Inr w1 \<Rightarrow> map_option (\<lambda>(r, w2). (r, runtime_leave w2)) (default_session_locked port opts w1))"

definition default_session :: "creation_port \<Rightarrow> runtime_system \<Rightarrow> (ident outcome \<times> runtime_system) option" where
  "default_session port = default_session_with port default_session_defaults"

subsection \<open>Isolated contexts\<close>

definition proxy_of_command :: "proxy_options option \<Rightarrow> (string \<times> string option) option" where
  "proxy_of_command p =
     map_option (\<lambda>q. (px_server q, if px_bypass_list q = [] then None else Some (join_with '','' (px_bypass_list q)))) p"

text \<open>The creation runs in a task with a permit of its own; an undelivered context is disposed of.\<close>

definition create_isolated_context_owned ::
  "creation_port \<Rightarrow> proxy_options option \<Rightarrow> runtime_system \<Rightarrow> (ident \<times> guard) outcome \<times> runtime_system" where
  "create_isolated_context_owned port proxy w =
     (case runtime_enter ''complete browser context creation'' w of
        Inl e \<Rightarrow> (Returned (Inl e), w)
      | Inr w0 \<Rightarrow>
          let w1 = send_runtime [RcCreateContext (proxy_of_command proxy)] w0
          in (case ct_create port of
                TaskLost \<Rightarrow> (Returned (Inl (task_lost_error ''create browser context''
                              ''browser context creation task ended before reporting its result'')), runtime_leave w1)
              | TaskAnswer (Inl e) \<Rightarrow> (Returned (Inl (from_cdp_error id e)), runtime_leave w1)
              | TaskAnswer (Inr ctx) \<Rightarrow> (case track_pending_context ctx w1 of (g, w2) \<Rightarrow> (Returned (Inr (ctx, g)), runtime_leave w2))
              | CallerLeft (Inl e) \<Rightarrow> (CallerGone, runtime_leave w1)
              | CallerLeft (Inr ctx) \<Rightarrow>
                  (case track_pending_context ctx w1 of
                     (g, w2) \<Rightarrow> (CallerGone, runtime_leave (snd (drop_creation_guard (ct_run port) (Some (ContextGuard ctx g)) w2))))))"

definition preflight_isolated :: "runtime_capabilities \<Rightarrow> isolated_session_options \<Rightarrow> rt_error + unit" where
  "preflight_isolated caps opts =
     and_then (preflight_context caps IsolatedContext (io_context opts) ''create isolated session'') (\<lambda>_.
     if io_proxy opts \<noteq> None then preflight_capability caps IsolatedContext Proxy ''create isolated session'' else Inr ())"

definition isolated_session ::
  "creation_port \<Rightarrow> isolated_session_options \<Rightarrow> runtime_system \<Rightarrow> (ident outcome \<times> runtime_system) option" where
  "isolated_session port opts w =
     (case runtime_enter ''create isolated session'' w of
        Inl e \<Rightarrow> Some (Returned (Inl e), w)
      | Inr w0 \<Rightarrow>
          (case preflight_isolated (rs_capabilities w0) opts of
             Inl e \<Rightarrow> Some (Returned (Inl e), runtime_leave w0)
           | Inr _ \<Rightarrow>
               (case create_isolated_context_owned port (io_proxy opts) w0 of
                  (CallerGone, w1) \<Rightarrow> Some (CallerGone, runtime_leave w1)
                | (Returned (Inl e), w1) \<Rightarrow> Some (Returned (Inl e), runtime_leave w1)
                | (Returned (Inr (ctx, g)), w1) \<Rightarrow>
                    map_option (\<lambda>(r, w2). (r, runtime_leave w2))
                      (finish_session_creation port IsolatedKind (Some ctx) (IsolatedCreation opts)
                         (for_scope (rs_capabilities w1) IsolatedContext) (Some (ContextGuard ctx g)) w1))))"

subsection \<open>A session is created whole or undone\<close>

fun runtime_cleanups :: "runtime_command list \<Rightarrow> remote_cleanup list" where
  "runtime_cleanups [] = []"
| "runtime_cleanups (RcCleanup cl # cs) = cl # runtime_cleanups cs"
| "runtime_cleanups (_ # cs) = runtime_cleanups cs"

lemma runtime_cleanups_append [simp]: "runtime_cleanups (cs @ ds) = runtime_cleanups cs @ runtime_cleanups ds"
  by (induction cs rule: runtime_cleanups.induct) simp_all

lemma runtime_cleanups_permissions [simp]: "runtime_cleanups (map RcSetPermission ps) = []"
  by (induction ps) simp_all

definition guard_closure :: "creation_guard option \<Rightarrow> remote_cleanup list" where
  "guard_closure cg =
     (case cg of None \<Rightarrow> [] | Some (ContextGuard ctx _) \<Rightarrow> [DisposeContext ctx] | Some (PermissionGuard _) \<Rightarrow> [ResetPermissions])"

text \<open>
  \<open>creation_held cg w0 w\<close>: of what the runtime \<open>w0\<close> knew nothing is changed, and the clean-up of the guard is
  pending. \<open>creation_undone\<close>: nothing is pending that was not before.
\<close>

definition creation_frame :: "runtime_system \<Rightarrow> runtime_system \<Rightarrow> bool" where
  "creation_frame w0 w \<longleftrightarrow> rs_id w = rs_id w0 \<and> rs_owned w = rs_owned w0 \<and> og_active (rs_gate w) = og_active (rs_gate w0)"

definition creation_undone :: "runtime_system \<Rightarrow> runtime_system \<Rightarrow> bool" where
  "creation_undone w0 w \<longleftrightarrow>
     creation_frame w0 w \<and> rs_sessions w = rs_sessions w0 \<and> rs_events w = rs_events w0 \<and> rs_default w = rs_default w0 \<and>
     rg_entries (rs_contexts w) = rg_entries (rs_contexts w0) \<and> rg_entries (rs_configuration w) = rg_entries (rs_configuration w0)"

definition guard_pending :: "creation_guard option \<Rightarrow> runtime_system \<Rightarrow> runtime_system \<Rightarrow> bool" where
  "guard_pending cg w0 w \<longleftrightarrow>
     (case cg of
        None \<Rightarrow> rg_entries (rs_contexts w) = rg_entries (rs_contexts w0) \<and> rg_entries (rs_configuration w) = rg_entries (rs_configuration w0)
      | Some (ContextGuard ctx g) \<Rightarrow>
          registered g (DisposeContext ctx) (rg_entries (rs_contexts w0)) (rs_contexts w) \<and>
          rg_entries (rs_configuration w) = rg_entries (rs_configuration w0)
      | Some (PermissionGuard g) \<Rightarrow>
          registered g ResetPermissions (rg_entries (rs_configuration w0)) (rs_configuration w) \<and>
          rg_entries (rs_contexts w) = rg_entries (rs_contexts w0))"

definition creation_held :: "creation_guard option \<Rightarrow> runtime_system \<Rightarrow> runtime_system \<Rightarrow> bool" where
  "creation_held cg w0 w \<longleftrightarrow>
     creation_frame w0 w \<and> rs_sessions w = rs_sessions w0 \<and> rs_events w = rs_events w0 \<and> rs_default w = rs_default w0 \<and> guard_pending cg w0 w"

lemma creation_send [simp]:
  "creation_frame w0 (send_runtime cs w) = creation_frame w0 w" "creation_undone w0 (send_runtime cs w) = creation_undone w0 w"
  "creation_held cg w0 (send_runtime cs w) = creation_held cg w0 w" "rs_sent (send_runtime cs w) = rs_sent w @ cs"
  by (simp_all add: creation_frame_def creation_undone_def creation_held_def guard_pending_def send_runtime_def
      split: option.split creation_guard.split)

lemma registered_claimed_runtime: "registered g cl es r \<Longrightarrow> claimed_runtime g r = [RcCleanup cl]"
  by (erule registered_claim) (simp add: claimed_runtime_def)

lemmas creation_guard_defs =
  cleanup_creation_failure_def drop_creation_guard_def guard_registry_def put_registry_def guard_closure_def
  creation_held_def creation_undone_def creation_frame_def guard_pending_def send_runtime_def

text \<open>Both ways to give up a creation run the clean-up of its guard, once.\<close>

lemma creation_given_up:
  assumes "creation_held cg w0 w"
  shows "\<exists>e' w'. cleanup_creation_failure run cg e w = Some (Returned (Inl e'), w') \<and> creation_undone w0 w' \<and>
      rs_sent w' = rs_sent w @ map RcCleanup (guard_closure cg)"
    and "\<exists>w'. drop_creation_guard run cg w = (CallerGone, w') \<and> creation_undone w0 w' \<and>
      rs_sent w' = rs_sent w @ map RcCleanup (guard_closure cg)"
proof -
  have both: "(\<exists>e' w'. cleanup_creation_failure run cg e w = Some (Returned (Inl e'), w') \<and> creation_undone w0 w' \<and>
      rs_sent w' = rs_sent w @ map RcCleanup (guard_closure cg)) \<and>
      (\<exists>w'. drop_creation_guard run cg w = (CallerGone, w') \<and> creation_undone w0 w' \<and>
      rs_sent w' = rs_sent w @ map RcCleanup (guard_closure cg))"
  proof (cases cg)
    case None
    with assms show ?thesis by (simp add: creation_guard_defs)
  next
    case (Some c)
    show ?thesis
    proof (cases c)
      case (ContextGuard ctx g)
      with Some assms have r: "registered g (DisposeContext ctx) (rg_entries (rs_contexts w0)) (rs_contexts w)"
        by (simp add: creation_held_def guard_pending_def)
      note e = registered_effects(1,2)[OF r, of run]
      from e(1) obtain reg where "guard_cleanup run (fst g) (snd g) (rs_contexts w) = (Some (run (DisposeContext ctx)), reg)"
          "rg_entries reg = rg_entries (rs_contexts w0)" by blast
      with e(2) registered_claimed_runtime[OF r] Some ContextGuard assms show ?thesis
        by (simp add: creation_guard_defs split: option.split)
    next
      case (PermissionGuard g)
      with Some assms have r: "registered g ResetPermissions (rg_entries (rs_configuration w0)) (rs_configuration w)"
        by (simp add: creation_held_def guard_pending_def)
      note e = registered_effects(1,2)[OF r, of run]
      from e(1) obtain reg where "guard_cleanup run (fst g) (snd g) (rs_configuration w) = (Some (run ResetPermissions), reg)"
          "rg_entries reg = rg_entries (rs_configuration w0)" by blast
      with e(2) registered_claimed_runtime[OF r] Some PermissionGuard assms show ?thesis
        by (simp add: creation_guard_defs split: option.split)
    qed
  qed
  then show "\<exists>e' w'. cleanup_creation_failure run cg e w = Some (Returned (Inl e'), w') \<and> creation_undone w0 w' \<and>
      rs_sent w' = rs_sent w @ map RcCleanup (guard_closure cg)"
    and "\<exists>w'. drop_creation_guard run cg w = (CallerGone, w') \<and> creation_undone w0 w' \<and>
      rs_sent w' = rs_sent w @ map RcCleanup (guard_closure cg)"
    by blast+
qed

text \<open>How a creation that holds the guard \<open>cg\<close> ends, with the commands \<open>cs\<close> it sent.\<close>

definition session_creation_ended ::
  "creation_guard option \<Rightarrow> runtime_system \<Rightarrow> ident outcome \<Rightarrow> runtime_system \<Rightarrow> runtime_command list \<Rightarrow> bool" where
  "session_creation_ended cg w0 out w' cs \<longleftrightarrow>
     (case out of
        Returned (Inr s) \<Rightarrow>
          creation_frame w0 w' \<and> guard_pending cg w0 w' \<and> runtime_cleanups cs = [] \<and>
          (\<exists>n. rs_sessions w' = AList.update s n (rs_sessions w0) \<and> rn_alive n \<and> rn_close_report n = None \<and>
             og_handle (ys_gate (rn_system n)) = HOpen \<and>
             (case cg of
                None \<Rightarrow> ys_owned_context (rn_system n) = None \<and> ys_permission (rn_system n) = None
              | Some (ContextGuard ctx g) \<Rightarrow> ys_owned_context (rn_system n) = Some g
              | Some (PermissionGuard g) \<Rightarrow> ys_permission (rn_system n) = Some g))
      | _ \<Rightarrow> creation_undone w0 w' \<and> runtime_cleanups cs = guard_closure cg)"

lemma runtime_cleanups_map [simp]: "runtime_cleanups (map RcCleanup cls) = cls"
  by (induction cls) simp_all

lemma session_new_result:
  assumes "session_new port kind ctx opts caps w = (r, w')"
  shows "\<exists>cs. w' = send_runtime cs w \<and> runtime_cleanups cs = [] \<and>
    (\<forall>n. r = Answered (Inr n) \<longrightarrow> n = \<lparr>rn_system = new_session_system (rs_id w) kind ctx opts (ct_sequence port), rn_options = opts,
       rn_capabilities = caps, rn_close_report = None, rn_alive = True\<rparr>)"
proof -
  have "w' = send_runtime [RcObserve] w \<or> w' = send_runtime [RcObserve, RcDiscover] w"
    using assms by (auto simp: session_new_def Let_def send_runtime_def split: awaited.splits sum.splits)
  moreover have "\<forall>n. r = Answered (Inr n) \<longrightarrow> n = \<lparr>rn_system = new_session_system (rs_id w) kind ctx opts (ct_sequence port), rn_options = opts,
       rn_capabilities = caps, rn_close_report = None, rn_alive = True\<rparr>"
    using assms by (auto simp: session_new_def Let_def send_runtime_def split: awaited.splits sum.splits)
  ultimately show ?thesis by auto
qed

lemma finish_session_creation_ends:
  assumes "creation_held cg w0 w"
  shows "\<exists>out w' cs. finish_session_creation port kind ctx opts caps cg w = Some (out, w') \<and> rs_sent w' = rs_sent w @ cs \<and>
    session_creation_ended cg w0 out w' cs"
proof -
  obtain applied sent where a: "apply_permissions (ct_permission port)
      (map (permission_command_of (if kind = IsolatedKind then ctx else None)) (co_permissions (creation_context opts))) = (applied, sent)"
    by fastforce
  define w1 where "w1 = send_runtime (map RcSetPermission sent) w"
  have held: "creation_held cg w0 w1" "rs_sent w1 = rs_sent w @ map RcSetPermission sent" using assms by (simp_all add: w1_def)
  obtain r w2 where n: "session_new port kind ctx opts caps w1 = (r, w2)" by fastforce
  from session_new_result[OF n] obtain cs where cs: "w2 = send_runtime cs w1" "runtime_cleanups cs = []"
      "\<And>n. r = Answered (Inr n) \<Longrightarrow> n = \<lparr>rn_system = new_session_system (rs_id w1) kind ctx opts (ct_sequence port), rn_options = opts,
       rn_capabilities = caps, rn_close_report = None, rn_alive = True\<rparr>" by blast
  have held2: "creation_held cg w0 w2" "rs_sent w2 = rs_sent w @ map RcSetPermission sent @ cs" using held cs(1) by simp_all
  note eq = finish_session_creation_def a w1_def[symmetric] Let_def n
  have up: "\<exists>out w' cs'. x = Some (out, w') \<and> rs_sent w' = rs_sent w @ cs' \<and> session_creation_ended cg w0 out w' cs'"
    if "(\<exists>e' w'. x = Some (Returned (Inl e'), w') \<and> creation_undone w0 w' \<and> rs_sent w' = rs_sent v @ map RcCleanup (guard_closure cg)) \<or>
      (\<exists>w'. x = Some (CallerGone, w') \<and> creation_undone w0 w' \<and> rs_sent w' = rs_sent v @ map RcCleanup (guard_closure cg))"
      "rs_sent v = rs_sent w @ ds" "runtime_cleanups ds = []" for x v ds
    using that by (fastforce simp: session_creation_ended_def)
  show ?thesis
  proof (cases applied)
    case Dropped
    with creation_given_up(2)[OF held(1), of "ct_run port"] show ?thesis
      by (intro up[of _ w1 "map RcSetPermission sent"]) (auto simp: eq held(2))
  next
    case (Answered x)
    show ?thesis
    proof (cases x)
      case (Inl e)
      with Answered creation_given_up(1)[OF held(1), of "ct_run port"] show ?thesis
        by (intro up[of _ w1 "map RcSetPermission sent"]) (auto simp: eq held(2))
    next
      case (Inr u)
      note ok = Answered Inr
      show ?thesis
      proof (cases r)
        case Dropped
        with ok creation_given_up(2)[OF held2(1), of "ct_run port"] show ?thesis
          by (intro up[of _ w2 "map RcSetPermission sent @ cs"]) (auto simp: eq held2(2) cs(2))
      next
        case (Answered y)
        show ?thesis
        proof (cases y)
          case (Inl e)
          with ok Answered creation_given_up(1)[OF held2(1), of "ct_run port"] show ?thesis
            by (intro up[of _ w2 "map RcSetPermission sent @ cs"]) (auto simp: eq held2(2) cs(2))
        next
          case (Inr m)
          with Answered cs(3) have m: "m = \<lparr>rn_system = new_session_system (rs_id w1) kind ctx opts (ct_sequence port), rn_options = opts,
            rn_capabilities = caps, rn_close_report = None, rn_alive = True\<rparr>" by simp
          let ?w = "register_session (ys_id (rn_system m)) (m\<lparr>rn_system := retained_guards cg (rn_system m)\<rparr>) w2"
          have "finish_session_creation port kind ctx opts caps cg w = Some (Returned (Inr (ys_id (rn_system m))), ?w)"
            using ok Answered Inr by (simp add: eq)
          moreover have "rs_sent ?w = rs_sent w @ (map RcSetPermission sent @ cs)"
            using held2(2) by (simp add: register_session_def publish_event_def)
          moreover have "session_creation_ended cg w0 (Returned (Inr (ys_id (rn_system m)))) ?w (map RcSetPermission sent @ cs)"
            using held2(1) cs(2)
            by (auto simp: session_creation_ended_def register_session_def publish_event_def creation_held_def creation_frame_def
                guard_pending_def m retained_guards_def new_session_system_def new_gate_def split: option.split creation_guard.split)
          ultimately show ?thesis by blast
        qed
      qed
    qed
  qed
qed

lemma runtime_enter_Inr:
  assumes "runtime_enter op w = Inr w1"
  shows "\<exists>g. w1 = w\<lparr>rs_gate := g\<rparr> \<and> og_active g = Suc (og_active (rs_gate w)) \<and> og_handle (rs_gate w) = HOpen"
  using assms by (auto simp: runtime_enter_def and_then_Inr gate_enter_def split: if_splits)

text \<open>Creations run inside the permit of their caller, which is given back at the end.\<close>

lemma session_creation_ended_leave:
  assumes "session_creation_ended cg (w\<lparr>rs_gate := g\<rparr>) out w' cs" "og_active g = Suc (og_active (rs_gate w))"
  shows "session_creation_ended cg w out (runtime_leave w') cs"
  using assms
  by (auto simp: session_creation_ended_def creation_undone_def creation_frame_def guard_pending_def runtime_leave_def gate_release_def
      split: outcome.splits sum.splits option.splits creation_guard.splits)

definition created_context :: "creation_port \<Rightarrow> ident option" where
  "created_context port = (case ct_create port of TaskAnswer (Inr ctx) \<Rightarrow> Some ctx | CallerLeft (Inr ctx) \<Rightarrow> Some ctx | _ \<Rightarrow> None)"

definition isolated_creation_ended ::
  "creation_port \<Rightarrow> runtime_system \<Rightarrow> ident outcome \<Rightarrow> runtime_system \<Rightarrow> runtime_command list \<Rightarrow> bool" where
  "isolated_creation_ended port w out w' cs \<longleftrightarrow>
     (if cs = [] then creation_undone w w' \<and> (\<exists>e. out = Returned (Inl e))
      else case created_context port of
        None \<Rightarrow> creation_undone w w' \<and> runtime_cleanups cs = [] \<and> (\<forall>s. out \<noteq> Returned (Inr s))
      | Some ctx \<Rightarrow> (\<exists>g. session_creation_ended (Some (ContextGuard ctx g)) w out w' cs))"

lemma track_pending_context_held:
  assumes "''browser-context:'' @ ctx \<notin> keys (rg_entries (rs_contexts w))" "track_pending_context ctx w = (g, w')"
  shows "creation_held (Some (ContextGuard ctx g)) w w' \<and> rs_sent w' = rs_sent w"
proof -
  obtain token reg where r: "registry_register (''browser-context:'' @ ctx) (DisposeContext ctx) (rs_contexts w) = (token, reg)" by fastforce
  from registered_register[OF assms(1) r] assms(2) r show ?thesis
    by (auto simp: track_pending_context_def creation_held_def creation_frame_def guard_pending_def)
qed

text \<open>The task that creates the context, seen from before the permit of its caller.\<close>

lemma create_isolated_context_ends:
  assumes "\<And>ctx. created_context port = Some ctx \<Longrightarrow> ''browser-context:'' @ ctx \<notin> keys (rg_entries (rs_contexts w))"
    "create_isolated_context_owned port proxy w = (out, w')"
  shows "\<exists>cs. rs_sent w' = rs_sent w @ cs \<and>
    (case out of
       Returned (Inr (ctx, g)) \<Rightarrow> created_context port = Some ctx \<and> creation_held (Some (ContextGuard ctx g)) w w' \<and> cs \<noteq> [] \<and> runtime_cleanups cs = []
     | Returned (Inl e) \<Rightarrow> creation_undone w w' \<and> (cs = [] \<or> created_context port = None \<and> runtime_cleanups cs = [])
     | CallerGone \<Rightarrow> creation_undone w w' \<and> cs \<noteq> [] \<and> runtime_cleanups cs = (case created_context port of None \<Rightarrow> [] | Some ctx \<Rightarrow> [DisposeContext ctx]))"
proof (cases "runtime_enter ''complete browser context creation'' w")
  case (Inl e)
  with assms(2) have "out = Returned (Inl e)" "w' = w" by (simp_all add: create_isolated_context_owned_def)
  then show ?thesis by (simp add: creation_undone_def creation_frame_def)
next
  case (Inr w0)
  from runtime_enter_Inr[OF this] obtain g0 where w0: "w0 = w\<lparr>rs_gate := g0\<rparr>" "og_active g0 = Suc (og_active (rs_gate w))" by blast
  define w1 where "w1 = send_runtime [RcCreateContext (proxy_of_command proxy)] w0"
  have leave: "creation_undone w (runtime_leave v)" if "creation_undone w0 v" for v
    using that w0 by (simp add: creation_undone_def creation_frame_def runtime_leave_def gate_release_def)
  have leave_held: "creation_held cg w (runtime_leave v)" if "creation_held cg w0 v" for cg v
    using that w0 by (auto simp: creation_held_def creation_frame_def runtime_leave_def gate_release_def guard_pending_def
        split: option.splits creation_guard.splits)
  have sent: "rs_sent (runtime_leave v) = rs_sent v" for v by (simp add: runtime_leave_def)
  have w1: "creation_undone w0 w1" "rs_sent w1 = rs_sent w @ [RcCreateContext (proxy_of_command proxy)]" "rs_contexts w1 = rs_contexts w"
    using w0(1) by (simp_all add: w1_def) (simp_all add: send_runtime_def creation_undone_def creation_frame_def)
  have held: "creation_held (Some (ContextGuard ctx g)) w0 w2 \<and> rs_sent w2 = rs_sent w1"
    if "created_context port = Some ctx" "track_pending_context ctx w1 = (g, w2)" for ctx g w2
    using track_pending_context_held[OF _ that(2)] assms(1)[OF that(1)] w1 w0(1)
    by (simp add: creation_held_def creation_undone_def creation_frame_def guard_pending_def)
  note eq = assms(2)[unfolded create_isolated_context_owned_def Inr sum.case Let_def w1_def[symmetric]]
  show ?thesis
  proof (cases "ct_create port")
    case TaskLost
    with eq have "w' = runtime_leave w1" "\<exists>e. out = Returned (Inl e)" by auto
    with TaskLost leave[OF w1(1)] sent w1(2) show ?thesis by (auto simp: created_context_def)
  next
    case (TaskAnswer x)
    show ?thesis
    proof (cases x)
      case (Inl e)
      with TaskAnswer eq have "w' = runtime_leave w1" "\<exists>e. out = Returned (Inl e)" by auto
      with TaskAnswer Inl leave[OF w1(1)] sent w1(2) show ?thesis by (auto simp: created_context_def)
    next
      case (Inr ctx)
      obtain g w2 where t: "track_pending_context ctx w1 = (g, w2)" by fastforce
      have c: "created_context port = Some ctx" using TaskAnswer Inr by (simp add: created_context_def)
      from TaskAnswer Inr eq t have "out = Returned (Inr (ctx, g))" "w' = runtime_leave w2" by simp_all
      with held[OF c t] leave_held sent w1(2) c show ?thesis by simp
    qed
  next
    case (CallerLeft x)
    show ?thesis
    proof (cases x)
      case (Inl e)
      with CallerLeft eq have "w' = runtime_leave w1" "out = CallerGone" by auto
      with CallerLeft Inl leave[OF w1(1)] sent w1(2) show ?thesis by (auto simp: created_context_def)
    next
      case (Inr ctx)
      obtain g w2 where t: "track_pending_context ctx w1 = (g, w2)" by fastforce
      have c: "created_context port = Some ctx" using CallerLeft Inr by (simp add: created_context_def)
      from held[OF c t] have h: "creation_held (Some (ContextGuard ctx g)) w0 w2" "rs_sent w2 = rs_sent w1" by simp_all
      from creation_given_up(2)[OF h(1), of "ct_run port"] obtain w3 where
        d: "drop_creation_guard (ct_run port) (Some (ContextGuard ctx g)) w2 = (CallerGone, w3)" "creation_undone w0 w3"
          "rs_sent w3 = rs_sent w2 @ [RcCleanup (DisposeContext ctx)]" by (auto simp: guard_closure_def)
      from CallerLeft Inr eq t d(1) have "out = CallerGone" "w' = runtime_leave w3" by simp_all
      with d h leave sent w1(2) c show ?thesis by simp
    qed
  qed
qed

text \<open>
  C6: Creating an isolated session either returns a session that is registered, open, and holds the only guard
  of its new context, with no clean-up run; or it ends with an error, or with a caller that left, and then the
  sessions, events, registries and permits of the runtime are as before, and the context, if the browser
  created one, has been disposed of exactly once.
\<close>

theorem isolated_session_all_or_nothing:
  assumes "\<And>ctx. created_context port = Some ctx \<Longrightarrow> ''browser-context:'' @ ctx \<notin> keys (rg_entries (rs_contexts w))"
  shows "\<exists>out w' cs. isolated_session port opts w = Some (out, w') \<and> rs_sent w' = rs_sent w @ cs \<and> isolated_creation_ended port w out w' cs"
proof (cases "runtime_enter ''create isolated session'' w")
  case (Inl e)
  then show ?thesis by (simp add: isolated_session_def isolated_creation_ended_def creation_undone_def creation_frame_def)
next
  case (Inr w0)
  from runtime_enter_Inr[OF this] obtain g0 where w0: "w0 = w\<lparr>rs_gate := g0\<rparr>" "og_active g0 = Suc (og_active (rs_gate w))" by blast
  have leave: "creation_undone w (runtime_leave v)" if "creation_undone w0 v" for v
    using that w0 by (simp add: creation_undone_def creation_frame_def runtime_leave_def gate_release_def)
  have sent: "rs_sent (runtime_leave v) = rs_sent v" for v by (simp add: runtime_leave_def)
  have refl: "creation_undone w0 w0" by (simp add: creation_undone_def creation_frame_def)
  show ?thesis
  proof (cases "preflight_isolated (rs_capabilities w0) opts")
    case (Inl e)
    with Inr leave[OF refl] w0(1) show ?thesis by (simp add: isolated_session_def isolated_creation_ended_def sent)
  next
    case pre: (Inr u)
    obtain r w1 where c: "create_isolated_context_owned port (io_proxy opts) w0 = (r, w1)" by fastforce
    from create_isolated_context_ends[OF _ c] assms w0(1) obtain cs where cs: "rs_sent w1 = rs_sent w @ cs"
      "case r of
         Returned (Inr (ctx, g)) \<Rightarrow> created_context port = Some ctx \<and> creation_held (Some (ContextGuard ctx g)) w0 w1 \<and> cs \<noteq> [] \<and> runtime_cleanups cs = []
       | Returned (Inl e) \<Rightarrow> creation_undone w0 w1 \<and> (cs = [] \<or> created_context port = None \<and> runtime_cleanups cs = [])
       | CallerGone \<Rightarrow> creation_undone w0 w1 \<and> cs \<noteq> [] \<and> runtime_cleanups cs = (case created_context port of None \<Rightarrow> [] | Some ctx \<Rightarrow> [DisposeContext ctx])"
      by auto
    note eq = isolated_session_def Inr pre c
    consider (gone) "r = CallerGone" | (failed) e where "r = Returned (Inl e)" | (made) ctx g where "r = Returned (Inr (ctx, g))"
      by (cases r) (metis sum.exhaust surj_pair)+
    then show ?thesis
    proof cases
      case gone
      with cs(2) leave have "creation_undone w (runtime_leave w1)" "cs \<noteq> []"
          "runtime_cleanups cs = (case created_context port of None \<Rightarrow> [] | Some ctx \<Rightarrow> [DisposeContext ctx])" by simp_all
      then show ?thesis using gone cs(1)
        by (auto simp: eq sent isolated_creation_ended_def session_creation_ended_def guard_closure_def split: option.split)
    next
      case failed
      with cs(2) leave have "creation_undone w (runtime_leave w1)" "cs = [] \<or> created_context port = None \<and> runtime_cleanups cs = []" by simp_all
      then show ?thesis using failed cs(1) by (auto simp: eq sent isolated_creation_ended_def)
    next
      case made
      with cs(2) have h: "created_context port = Some ctx" "creation_held (Some (ContextGuard ctx g)) w0 w1" "cs \<noteq> []" "runtime_cleanups cs = []"
        by simp_all
      from finish_session_creation_ends[OF h(2), of port IsolatedKind "Some ctx" "IsolatedCreation opts" "for_scope (rs_capabilities w1) IsolatedContext"]
      obtain out w2 ds where f: "finish_session_creation port IsolatedKind (Some ctx) (IsolatedCreation opts) (for_scope (rs_capabilities w1) IsolatedContext)
          (Some (ContextGuard ctx g)) w1 = Some (out, w2)" "rs_sent w2 = rs_sent w1 @ ds"
          "session_creation_ended (Some (ContextGuard ctx g)) w0 out w2 ds" by blast
      from f(3) h(4) have "session_creation_ended (Some (ContextGuard ctx g)) w0 out w2 (cs @ ds)"
        by (simp add: session_creation_ended_def split: outcome.splits sum.splits)
      from session_creation_ended_leave[OF this[unfolded w0(1)] w0(2)] h(1) h(3) have "isolated_creation_ended port w out (runtime_leave w2) (cs @ ds)"
        unfolding isolated_creation_ended_def by (simp del: split_paired_Ex) (rule exI)
      with f(1,2) cs(1) made show ?thesis by (simp add: eq sent)
    qed
  qed
qed

text \<open>A proxy that is refused, a permission the browser rejects, and a context that is then disposed of.\<close>

definition example_metadata :: browser_metadata where
  "example_metadata = new_metadata ''1.3'' ''Chrome'' ''r'' ''ua'' ''12.0'' Headless"

definition example_runtime :: runtime_system where
  "example_runtime = new_runtime 1 Launched (derive_capabilities example_metadata Launched False)
     (Some \<lparr>lb_profile_path = ''/tmp/p'', lb_temporary = True\<rparr>)"

definition example_permission :: permission_override where
  "example_permission = permission_new PermCamera Allow"

definition example_creation :: creation_port where
  "example_creation =
     \<lparr>ct_contexts = Answered (Inr None), ct_create = TaskAnswer (Inr ''x''), ct_permission = (\<lambda>_. Answered (Inl ''no'')),
      ct_observe = Answered (Inr ()), ct_discover = Answered (Inr ()), ct_sequence = 7, ct_run = (\<lambda>_. None)\<rparr>"

definition example_isolated_options :: isolated_session_options where
  "example_isolated_options =
     \<lparr>io_pages_first = False, io_context = add_permission example_permission default_context_options, io_proxy = None,
      io_network = \<lparr>ob_ttl = 5, ob_max_bytes = 9\<rparr>\<rparr>"

theorem isolated_session_all_or_nothing_witness:
  "\<exists>out w' cs. isolated_session example_creation example_isolated_options example_runtime = Some (out, w') \<and>
     rs_sent w' = rs_sent example_runtime @ cs \<and> isolated_creation_ended example_creation example_runtime out w' cs"
  by (rule isolated_session_all_or_nothing) (simp add: example_runtime_def new_runtime_def new_registry_def)

lemma example_isolated_run:
  "map_option (\<lambda>(out, w). (rs_sent w, pending_count (rs_contexts w), map fst (rs_sessions w)))
     (isolated_session example_creation example_isolated_options example_runtime)
   = Some ([RcCreateContext None,
            RcSetPermission \<lparr>pc_name = ''camera'', pc_sysex = None, pc_setting = Granted, pc_origin = None, pc_context = Some ''x''\<rparr>,
            RcCleanup (DisposeContext ''x'')], 0, [])"
  by code_simp

subsection \<open>Closing the runtime\<close>

record runtime_close_port =
  rp_run :: "remote_cleanup \<Rightarrow> cleanup_result"
  rp_session :: "ident \<Rightarrow> session_port"
  rp_kill :: "(bool \<times> string) option"

type_synonym runtime_progress = "(close_report \<times> runtime_system) option"

definition begin_runtime_close :: "runtime_system \<Rightarrow> runtime_system" where
  "begin_runtime_close w = w\<lparr>rs_gate := snd (gate_start_close (rs_gate w))\<rparr>"

text \<open>The close of a session runs in its own coordinator: a session that closed before reports the same again.\<close>

definition close_live_session :: "runtime_close_port \<Rightarrow> ident \<Rightarrow> runtime_session \<Rightarrow> close_report \<Rightarrow> runtime_system \<Rightarrow> runtime_progress" where
  "close_live_session port s n report w =
     (case rn_close_report n of
        Some r \<Rightarrow> Some (report_merge report r, w)
      | None \<Rightarrow>
          (case finish_session_close (rp_session port s) (begin_session_close (lend w (rn_system n))) of
             None \<Rightarrow> None
           | Some (r, y) \<Rightarrow>
               let w1 = (if ys_kind (rn_system n) = DefaultKind then w\<lparr>rs_default := default_slot_closed (rs_default w)\<rparr> else w);
                   w2 = take_back s y w1
               in Some (report_merge report r,
                        w2\<lparr>rs_sessions := AList.map_entry s (\<lambda>m. m\<lparr>rn_close_report := Some r\<rparr>) (rs_sessions w2)\<rparr>)))"

fun close_runtime_sessions :: "runtime_close_port \<Rightarrow> ident list \<Rightarrow> close_report \<Rightarrow> runtime_system \<Rightarrow> runtime_progress" where
  "close_runtime_sessions port [] report w = Some (report, w)"
| "close_runtime_sessions port (s # ss) report w =
     (case (case live_session w s of None \<Rightarrow> Some (report, w) | Some n \<Rightarrow> close_live_session port s n report w) of
        None \<Rightarrow> None
      | Some (report', w') \<Rightarrow> close_runtime_sessions port ss report' w')"

definition close_owned_targets :: "runtime_close_port \<Rightarrow> close_report \<times> runtime_system \<Rightarrow> runtime_progress" where
  "close_owned_targets port = (\<lambda>(report, w). case registry_cleanup_all (rp_run port) (rs_owned w) of
     (None, _) \<Rightarrow> None | (Some rs, reg) \<Rightarrow> Some (fold report_result rs report, w\<lparr>rs_owned := reg\<rparr>))"

definition close_configuration :: "runtime_close_port \<Rightarrow> close_report \<times> runtime_system \<Rightarrow> runtime_progress" where
  "close_configuration port = (\<lambda>(report, w). case registry_cleanup_all (rp_run port) (rs_configuration w) of
     (None, _) \<Rightarrow> None | (Some rs, reg) \<Rightarrow> Some (fold report_result rs report, w\<lparr>rs_configuration := reg\<rparr>))"

definition close_contexts :: "runtime_close_port \<Rightarrow> close_report \<times> runtime_system \<Rightarrow> runtime_progress" where
  "close_contexts port = (\<lambda>(report, w). case registry_cleanup_all (rp_run port) (rs_contexts w) of
     (None, _) \<Rightarrow> None | (Some rs, reg) \<Rightarrow> Some (fold report_result rs report, w\<lparr>rs_contexts := reg\<rparr>))"

text \<open>A process that cannot be killed because it ended already counts as closed.\<close>

definition kill_process :: "runtime_close_port \<Rightarrow> close_report \<Rightarrow> runtime_system \<Rightarrow> close_report \<times> runtime_system" where
  "kill_process port report w =
     (case rs_launched w of
        None \<Rightarrow> (report, w)
      | Some b \<Rightarrow>
          let resource = ''browser process ('' @ lb_profile_path b @ '')''
          in (case rp_kill port of
                None \<Rightarrow> report_closed resource report
              | Some (invalid_input, e) \<Rightarrow> if invalid_input then report_closed resource report else report_failed resource e report,
              send_runtime [RcKill] (w\<lparr>rs_launched := None\<rparr>)))"

definition seal_runtime :: "runtime_close_port \<Rightarrow> close_report \<times> runtime_system \<Rightarrow> close_report \<times> runtime_system" where
  "seal_runtime port = (\<lambda>(report, w).
     case kill_process port (report_closed ''cdp connection'' report) (send_runtime [RcDisconnect] (w\<lparr>rs_connected := False\<rparr>)) of
       (report', w') \<Rightarrow> (report', close_event_source ScopeClosed (w'\<lparr>rs_gate := gate_finish_close (rs_gate w')\<rparr>)))"

definition finish_runtime_close :: "runtime_close_port \<Rightarrow> runtime_system \<Rightarrow> runtime_progress" where
  "finish_runtime_close port w =
     (if \<not> gate_drained (rs_gate w) then None
      else map_option (seal_runtime port)
        (Option.bind (Option.bind (Option.bind
           (close_runtime_sessions port (map fst (rs_sessions w)) (new_report (rs_id w)) w)
           (close_owned_targets port)) (close_configuration port)) (close_contexts port)))"

definition runtime_close :: "runtime_close_port \<Rightarrow> runtime_system \<Rightarrow> runtime_progress" where
  "runtime_close port w =
     (case rs_close_report w of
        Some report \<Rightarrow> Some (report, w)
      | None \<Rightarrow> map_option (\<lambda>(report, w'). (report, w'\<lparr>rs_close_report := Some report\<rparr>))
                  (finish_runtime_close port (begin_runtime_close w)))"

subsection \<open>What the close of the runtime leaves\<close>

definition session_reported :: "ident \<Rightarrow> close_report \<Rightarrow> runtime_system \<Rightarrow> bool" where
  "session_reported s report w \<longleftrightarrow>
     (\<exists>n r. map_of (rs_sessions w) s = Some n \<and> rn_close_report n = Some r \<and> set (cr_failures r) \<subseteq> set (cr_failures report))"

definition close_progresses :: "close_report \<Rightarrow> runtime_system \<Rightarrow> close_report \<Rightarrow> runtime_system \<Rightarrow> bool" where
  "close_progresses r w r' w' \<longleftrightarrow>
     (\<exists>fs. cr_failures r' = cr_failures r @ fs) \<and> rs_launched w' = rs_launched w \<and> rs_sent w' = rs_sent w \<and>
     (\<forall>s. session_reported s r w \<longrightarrow> session_reported s r' w') \<and>
     (\<forall>s. (live_session w' s = None) = (live_session w s = None))"

lemma close_progresses_refl: "close_progresses r w r w"
  by (simp add: close_progresses_def)

lemma close_progresses_trans: "close_progresses r w r1 w1 \<Longrightarrow> close_progresses r1 w1 r2 w2 \<Longrightarrow> close_progresses r w r2 w2"
  by (auto simp: close_progresses_def)

lemma close_live_session_progress:
  assumes "live_session w s = Some n" "close_live_session port s n r w = Some (r', w')"
  shows "close_progresses r w r' w' \<and> session_reported s r' w'"
proof -
  have n: "map_of (rs_sessions w) s = Some n" "rn_alive n" using assms(1) by (auto simp: live_session_def split: option.splits if_splits)
  show ?thesis
  proof (cases "rn_close_report n")
    case (Some q)
    with assms(2) have "r' = report_merge r q" "w' = w" by (simp_all add: close_live_session_def)
    with Some n show ?thesis
      by (auto simp: close_progresses_def session_reported_def report_merge_def)
  next
    case None
    with assms(2) obtain q y where f: "finish_session_close (rp_session port s) (begin_session_close (lend w (rn_system n))) = Some (q, y)"
      by (auto simp: close_live_session_def split: option.splits)
    define w1 where "w1 = (if ys_kind (rn_system n) = DefaultKind then w\<lparr>rs_default := default_slot_closed (rs_default w)\<rparr> else w)"
    have w1: "rs_sessions w1 = rs_sessions w" "rs_launched w1 = rs_launched w" "rs_sent w1 = rs_sent w" by (simp_all add: w1_def)
    from assms(2) None f have e: "r' = report_merge r q"
      "w' = (take_back s y w1)\<lparr>rs_sessions := AList.map_entry s (\<lambda>m. m\<lparr>rn_close_report := Some q\<rparr>) (rs_sessions (take_back s y w1))\<rparr>"
      by (simp_all add: close_live_session_def w1_def Let_def)
    have m: "map_of (rs_sessions w') = (map_of (rs_sessions w))(s \<mapsto> n\<lparr>rn_system := y, rn_close_report := Some q\<rparr>)"
      using n by (simp add: e(2) take_back_def w1 AList.map_of_map_entry)
    moreover have "rs_launched w' = rs_launched w" "rs_sent w' = rs_sent w" by (simp_all add: e(2) take_back_def w1)
    ultimately show ?thesis using n
      by (auto simp: close_progresses_def session_reported_def e(1) report_merge_def live_session_def)
  qed
qed

lemma close_runtime_sessions_progress:
  "close_runtime_sessions port ss r w = Some (r', w') \<Longrightarrow>
     close_progresses r w r' w' \<and> (\<forall>s \<in> set ss. live_session w s \<noteq> None \<longrightarrow> session_reported s r' w')"
proof (induction port ss r w rule: close_runtime_sessions.induct)
  case (1 port r w)
  then show ?case by (simp add: close_progresses_refl)
next
  case (2 port s ss r w)
  let ?first = "case live_session w s of None \<Rightarrow> Some (r, w) | Some n \<Rightarrow> close_live_session port s n r w"
  obtain r1 w1 where first: "?first = Some (r1, w1)" and rest: "close_runtime_sessions port ss r1 w1 = Some (r', w')"
    using 2(2) by (cases ?first) auto
  have p: "close_progresses r w r1 w1" "live_session w s \<noteq> None \<longrightarrow> session_reported s r1 w1"
    using first close_live_session_progress[of w s _ port r r1 w1] by (auto simp: close_progresses_refl split: option.splits)
  from 2(1)[OF first refl rest] have q: "close_progresses r1 w1 r' w'"
      "\<forall>t \<in> set ss. live_session w1 t \<noteq> None \<longrightarrow> session_reported t r' w'" by blast+
  from close_progresses_trans[OF p(1) q(1)] p q show ?case by (auto simp: close_progresses_def)
qed

lemma report_result_closed: "cr_failures (report_closed x r) = cr_failures r"
  by (simp add: report_closed_def)

text \<open>One of the three registries of the runtime.\<close>

lemma registry_steps:
  "close_owned_targets port (r, w) = Some (r', w') \<Longrightarrow>
     (\<exists>fs. cr_failures r' = cr_failures r @ fs) \<and> w' = w\<lparr>rs_owned := rs_owned w'\<rparr> \<and> rg_entries (rs_owned w') = []"
  "close_configuration port (r, w) = Some (r', w') \<Longrightarrow>
     (\<exists>fs. cr_failures r' = cr_failures r @ fs) \<and> w' = w\<lparr>rs_configuration := rs_configuration w'\<rparr> \<and> rg_entries (rs_configuration w') = []"
  "close_contexts port (r, w) = Some (r', w') \<Longrightarrow>
     (\<exists>fs. cr_failures r' = cr_failures r @ fs) \<and> w' = w\<lparr>rs_contexts := rs_contexts w'\<rparr> \<and> rg_entries (rs_contexts w') = []"
  by (auto simp: close_owned_targets_def close_configuration_def close_contexts_def fold_report_result_grows
      dest: cleanup_all_empties split: prod.splits option.splits)

lemma seal_runtime_effect:
  assumes "seal_runtime port (r, w) = (r', w')"
  shows "(\<exists>fs. cr_failures r' = cr_failures r @ fs) \<and> og_handle (rs_gate w') = HClosed \<and> rs_events_closed w' \<noteq> None \<and>
    \<not> rs_connected w' \<and> rs_launched w' = None \<and> rs_sent w' = rs_sent w @ RcDisconnect # (if rs_launched w = None then [] else [RcKill]) \<and>
    rs_sessions w' = rs_sessions w \<and> rs_owned w' = rs_owned w \<and> rs_configuration w' = rs_configuration w \<and> rs_contexts w' = rs_contexts w \<and>
    (is_complete r' \<and> rs_launched w \<noteq> None \<longrightarrow> (case rp_kill port of None \<Rightarrow> True | Some (invalid_input, _) \<Rightarrow> invalid_input))"
  using assms
  by (auto simp: seal_runtime_def kill_process_def close_event_source_def send_runtime_def gate_finish_close_def report_closed_def report_failed_def
      is_complete_def Let_def split: option.splits if_splits)

text \<open>
  C5: When the close of the runtime ends, its gate is closed, its event source has ended, the connection is
  closed, no process is owned any more, and its three registries are empty. Every session that had a handle was
  closed, and the failures of its own report are in the report of the runtime; the process of a launched browser
  was sent exactly one kill, after the connection was closed. If the report is complete, every one of these
  sessions closed completely and the process is gone.
\<close>

theorem runtime_close_is_thorough:
  assumes "finish_runtime_close port w = Some (report, w')"
  shows "og_handle (rs_gate w') = HClosed \<and> rs_events_closed w' \<noteq> None \<and> \<not> rs_connected w' \<and> rs_launched w' = None \<and>
    rg_entries (rs_owned w') = [] \<and> rg_entries (rs_configuration w') = [] \<and> rg_entries (rs_contexts w') = [] \<and>
    rs_sent w' = rs_sent w @ RcDisconnect # (if rs_launched w = None then [] else [RcKill]) \<and>
    (\<forall>s. live_session w s \<noteq> None \<longrightarrow> session_reported s report w') \<and>
    (is_complete report \<longrightarrow>
       (\<forall>s n. live_session w s \<noteq> None \<and> map_of (rs_sessions w') s = Some n \<longrightarrow> (\<exists>r. rn_close_report n = Some r \<and> is_complete r)) \<and>
       (rs_launched w \<noteq> None \<longrightarrow> (case rp_kill port of None \<Rightarrow> True | Some (invalid_input, _) \<Rightarrow> invalid_input)))"
proof -
  from assms obtain r1 w1 r2 w2 r3 w3 r4 w4 where s:
      "close_runtime_sessions port (map fst (rs_sessions w)) (new_report (rs_id w)) w = Some (r1, w1)"
      "close_owned_targets port (r1, w1) = Some (r2, w2)" "close_configuration port (r2, w2) = Some (r3, w3)"
      "close_contexts port (r3, w3) = Some (r4, w4)" "seal_runtime port (r4, w4) = (report, w')"
    by (fastforce simp: finish_runtime_close_def split: if_splits bind_splits)
  from close_runtime_sessions_progress[OF s(1)]
  have p: "close_progresses (new_report (rs_id w)) w r1 w1" "\<forall>t \<in> fst ` set (rs_sessions w). live_session w t \<noteq> None \<longrightarrow> session_reported t r1 w1"
    by simp_all
  note a = registry_steps(1)[OF s(2)] and b = registry_steps(2)[OF s(3)] and c = registry_steps(3)[OF s(4)]
  note d = seal_runtime_effect[OF s(5)]
  have fields: "rs_sessions w4 = rs_sessions w1" "rs_launched w4 = rs_launched w1" "rs_sent w4 = rs_sent w1" "rs_owned w4 = rs_owned w2"
      "rs_configuration w4 = rs_configuration w3"
  proof -
    define o2 o3 o4 where "o2 = rs_owned w2" and "o3 = rs_configuration w3" and "o4 = rs_contexts w4"
    have "w2 = w1\<lparr>rs_owned := o2\<rparr>" "w3 = w2\<lparr>rs_configuration := o3\<rparr>" "w4 = w3\<lparr>rs_contexts := o4\<rparr>"
      using a b c by (simp_all add: o2_def o3_def o4_def)
    then show "rs_sessions w4 = rs_sessions w1" "rs_launched w4 = rs_launched w1" "rs_sent w4 = rs_sent w1" "rs_owned w4 = rs_owned w2"
      "rs_configuration w4 = rs_configuration w3" by simp_all
  qed
  have grows: "\<exists>fs. cr_failures report = cr_failures r1 @ fs" using a b c d by auto
  have reported: "session_reported t report w'" if "live_session w t \<noteq> None" for t
  proof -
    have "t \<in> fst ` set (rs_sessions w)" using that by (force simp: live_session_def dest: map_of_SomeD split: option.splits)
    with p(2) that have "session_reported t r1 w1" by blast
    then show ?thesis using grows d fields(1) by (auto simp: session_reported_def)
  qed
  have complete: "\<exists>r. rn_close_report n = Some r \<and> is_complete r"
    if "is_complete report" "live_session w t \<noteq> None" "map_of (rs_sessions w') t = Some n" for t n
    using reported[OF that(2)] that(1,3) by (auto simp: session_reported_def is_complete_def)
  have "rs_launched w4 = rs_launched w" "rs_sent w4 = rs_sent w" using p(1) fields by (simp_all add: close_progresses_def)
  with d a b c fields reported complete show ?thesis by simp blast
qed

definition example_close_port :: runtime_close_port where
  "example_close_port =
     \<lparr>rp_run = (\<lambda>_. None), rp_session = (\<lambda>_. example_session_port), rp_kill = Some (True, ''already exited'')\<rparr>"

definition example_running :: runtime_system where
  "example_running = snd (the (isolated_session (example_creation\<lparr>ct_permission := (\<lambda>_. Answered (Inr ()))\<rparr>)
     example_isolated_options example_runtime))"

definition example_runtime_end :: "close_report \<times> runtime_system" where
  "example_runtime_end = the (finish_runtime_close example_close_port (begin_runtime_close example_running))"

theorem runtime_close_is_thorough_witness:
  "rs_sessions example_running \<noteq> [] \<and> og_handle (rs_gate (snd example_runtime_end)) = HClosed \<and>
   rg_entries (rs_contexts (snd example_runtime_end)) = [] \<and>
   rs_sent (snd example_runtime_end) = rs_sent example_running @ [RcDisconnect, RcKill]"
proof -
  let ?w = "begin_runtime_close example_running"
  have "\<not> Option.is_none (finish_runtime_close example_close_port ?w)" by code_simp
  then have run: "finish_runtime_close example_close_port ?w = Some (fst example_runtime_end, snd example_runtime_end)"
    by (simp add: example_runtime_end_def Option.is_none_def)
  have "rs_sessions example_running \<noteq> []" "rs_launched example_running \<noteq> None" by code_simp+
  with runtime_close_is_thorough[OF run] show ?thesis by (simp add: begin_runtime_close_def)
qed

subsection \<open>One default session\<close>

lemma finish_session_creation_registers:
  assumes "finish_session_creation port kind ctx opts caps cg w = Some (Returned (Inr s), w')"
  shows "\<exists>n v. w' = register_session s n v \<and> rn_options n = opts \<and> rn_alive n \<and> ys_kind (rn_system n) = kind \<and>
    og_handle (ys_gate (rn_system n)) = HOpen \<and> rs_default v = rs_default w \<and> rs_capabilities v = rs_capabilities w \<and> rs_gate v = rs_gate w"
proof -
  obtain applied sent where a: "apply_permissions (ct_permission port)
      (map (permission_command_of (if kind = IsolatedKind then ctx else None)) (co_permissions (creation_context opts))) = (applied, sent)"
    by fastforce
  define w1 where "w1 = send_runtime (map RcSetPermission sent) w"
  obtain r w2 where n: "session_new port kind ctx opts caps w1 = (r, w2)" by fastforce
  from session_new_result[OF n] obtain cs where cs: "w2 = send_runtime cs w1"
      "\<And>n. r = Answered (Inr n) \<Longrightarrow> n = \<lparr>rn_system = new_session_system (rs_id w1) kind ctx opts (ct_sequence port), rn_options = opts,
       rn_capabilities = caps, rn_close_report = None, rn_alive = True\<rparr>" by blast
  have fail: "cleanup_creation_failure run cg e v \<noteq> Some (Returned (Inr s), w')" "drop_creation_guard run cg v \<noteq> (Returned (Inr s), w')" for run e v
    by (auto simp: cleanup_creation_failure_def drop_creation_guard_def split: option.splits prod.splits)
  note eq = assms[unfolded finish_session_creation_def a prod.case w1_def[symmetric] Let_def n]
  have "\<exists>m. r = Answered (Inr m)"
    using eq fail by (cases applied; cases r) (simp_all split: sum.splits)
  then obtain m where r: "r = Answered (Inr m)" by blast
  have "\<exists>u. applied = Answered (Inr u)"
    using eq fail by (cases applied) (simp_all split: sum.splits)
  with eq r have m: "r = Answered (Inr m)"
      "w' = register_session (ys_id (rn_system m)) (m\<lparr>rn_system := retained_guards cg (rn_system m)\<rparr>) w2" "s = ys_id (rn_system m)"
    by auto
  let ?n = "m\<lparr>rn_system := retained_guards cg (rn_system m)\<rparr>"
  have fields: "ys_kind (retained_guards cg y) = ys_kind y" "ys_gate (retained_guards cg y) = ys_gate y" for y
    by (simp_all add: retained_guards_def split: option.split creation_guard.split)
  have "rn_options ?n = opts" "rn_alive ?n" "ys_kind (rn_system ?n) = kind" "og_handle (ys_gate (rn_system ?n)) = HOpen"
    by (simp_all add: fields cs(2)[OF m(1)] new_session_system_def new_gate_def)
  moreover have "rs_default w2 = rs_default w" "rs_capabilities w2 = rs_capabilities w" "rs_gate w2 = rs_gate w"
    by (simp_all add: cs(1) w1_def send_runtime_def)
  moreover have "w' = register_session s ?n w2" using m(2,3) by simp
  ultimately show ?thesis by blast
qed

lemma create_default_session_registers:
  assumes "create_default_session port opts w = Some (Returned (Inr s), w')"
  shows "\<exists>n v. w' = register_session s n v \<and> rn_options n = DefaultCreation opts \<and> rn_alive n \<and> ys_kind (rn_system n) = DefaultKind \<and>
    og_handle (ys_gate (rn_system n)) = HOpen \<and> rs_default v = rs_default w \<and> rs_capabilities v = rs_capabilities w \<and> rs_gate v = rs_gate w"
proof -
  obtain ctx cg w2 where f: "finish_session_creation port DefaultKind ctx (DefaultCreation opts)
      (for_scope (rs_capabilities w) DefaultContext) cg w2 = Some (Returned (Inr s), w')"
    "rs_default w2 = rs_default w" "rs_capabilities w2 = rs_capabilities w" "rs_gate w2 = rs_gate w"
    using assms
    by (auto simp: create_default_session_def track_default_permission_reset_def send_runtime_def Let_def
        split: awaited.splits sum.splits if_splits prod.splits)
  from finish_session_creation_registers[OF f(1)] f(2-4) show ?thesis by auto
qed

text \<open>The default session that a call returned: current, alive, open and created with the options of the call.\<close>

definition is_default_session :: "ident \<Rightarrow> default_session_options \<Rightarrow> runtime_system \<Rightarrow> bool" where
  "is_default_session s opts w \<longleftrightarrow>
     resolve_default w = Inr (Some s) \<and> (\<exists>n. live_session w s = Some n \<and> rn_options n = DefaultCreation opts)"

lemma resolve_default_gate [simp]:
  "live_session (w\<lparr>rs_gate := g\<rparr>) = live_session w" "resolve_default (w\<lparr>rs_gate := g\<rparr>) = resolve_default w"
proof -
  show live: "live_session (w\<lparr>rs_gate := g\<rparr>) = live_session w" by (simp add: live_session_def fun_eq_iff)
  show "resolve_default (w\<lparr>rs_gate := g\<rparr>) = resolve_default w"
    by (simp add: resolve_default_def live split: default_state.split option.split)
qed

lemma default_session_locked_current:
  assumes "default_session_locked port opts w = Some (Returned (Inr s), w')"
  shows "is_default_session s opts w' \<and> rs_capabilities w' = rs_capabilities w \<and> rs_gate w' = rs_gate w"
proof -
  have created: ?thesis if "create_default_session port opts w = Some (Returned (Inr s), w')" "ds_state (rs_default w) \<noteq> DefaultClosed"
  proof -
    from create_default_session_registers[OF that(1)] obtain n v where v: "w' = register_session s n v" "rn_options n = DefaultCreation opts"
      "rn_alive n" "ys_kind (rn_system n) = DefaultKind" "og_handle (ys_gate (rn_system n)) = HOpen" "rs_default v = rs_default w"
      "rs_capabilities v = rs_capabilities w" "rs_gate v = rs_gate w" by blast
    with that(2) show ?thesis
      by (simp add: is_default_session_def register_session_def publish_event_def resolve_default_def register_default_def live_session_def
          update_conv')
  qed
  show ?thesis
  proof (cases "resolve_default w")
    case (Inl e)
    with assms show ?thesis by (simp add: default_session_locked_def)
  next
    case (Inr x)
    then have open_slot: "ds_state (rs_default w) \<noteq> DefaultClosed" by (auto simp: resolve_default_def)
    show ?thesis
    proof (cases x)
      case None
      with Inr assms open_slot created show ?thesis by (simp add: default_session_locked_def)
    next
      case (Some t)
      with Inr obtain n where "live_session w t = Some n"
        by (auto simp: resolve_default_def split: default_state.splits option.splits if_splits)
      with Inr Some assms show ?thesis by (auto simp: default_session_locked_def is_default_session_def split: if_splits)
    qed
  qed
qed

text \<open>
  C7: The default session is shared while someone holds it. A call that returns it leaves it in the slot, alive,
  open and created with the options of the call. In any later state with the same slot and an open runtime, a call
  with options that the browser can serve is decided by that session alone. While a handle of it is left and it is
  open, the answer is this session for the options it was created with, and a refusal as immutable for any
  others, without a command or a change; while it is closing the call is refused. The runtime holds it weakly: only
  when no handle is left does a call create another one. Once the slot is closed every call is refused, for good.
\<close>

theorem default_session_is_shared:
  assumes "default_session_with port opts w = Some (Returned (Inr s), w1)"
    and "rs_default w2 = rs_default w1" "og_handle (rs_gate w2) = HOpen"
    and "preflight_context (rs_capabilities w2) DefaultContext (do_context opts') ''create default session'' = Inr ()"
  shows "is_default_session s opts w1 \<and>
    default_session_with port' opts' w2 =
      (case live_session w2 s of
         None \<Rightarrow> map_option (\<lambda>(r, v). (r, runtime_leave v))
                   (create_default_session port' opts' (w2\<lparr>rs_gate := (rs_gate w2)\<lparr>og_active := og_active (rs_gate w2) + 1\<rparr>\<rparr>))
       | Some n \<Rightarrow>
           Some (Returned (if og_handle (ys_gate (rn_system n)) \<noteq> HOpen
                           then Inl (default_slot_error ''the default session is closing or closed'')
                           else if rn_options n = DefaultCreation opts' then Inr s
                           else Inl (configuration_error ''create default session'' ImmutableDefaultSessionOptions)), w2)) \<and>
    (let closed = default_slot_closed (rs_default w2)
     in default_session_with port' opts' (w2\<lparr>rs_default := closed\<rparr>) =
          Some (Returned (Inl (default_slot_error ''the default session was explicitly closed'')), w2\<lparr>rs_default := closed\<rparr>) \<and>
        register_default s' closed = closed)"
proof -
  from assms(1) obtain w0 v where lock: "default_session_locked port opts w0 = Some (Returned (Inr s), v)" and w1: "w1 = runtime_leave v"
    by (auto simp: default_session_with_def split: sum.splits)
  have "is_default_session s opts v" using default_session_locked_current[OF lock] by blast
  then have cur: "is_default_session s opts w1" by (simp add: is_default_session_def w1 runtime_leave_def)
  then have slot: "ds_state (rs_default w2) = DefaultOpen" "ds_current (rs_default w2) = Some s"
    using assms(2) by (auto simp: is_default_session_def resolve_default_def split: default_state.splits option.splits if_splits)
  define enter where "enter = (\<lambda>u::runtime_system. u\<lparr>rs_gate := (rs_gate u)\<lparr>og_active := og_active (rs_gate u) + 1\<rparr>\<rparr>)"
  have leaves: "runtime_leave (enter u) = u" for u by (simp add: enter_def runtime_leave_def gate_release_def)
  have admit: "default_session_admitted opts' u = Inr (enter u)" if "rs_gate u = rs_gate w2" "rs_capabilities u = rs_capabilities w2" for u
    using that assms(3,4) by (simp add: default_session_admitted_def runtime_enter_def gate_enter_def and_then_def enter_def)
  have keeps: "live_session (enter u) = live_session u" "resolve_default (enter u) = resolve_default u" for u
    by (simp_all add: enter_def)
  have resolved: "resolve_default w2 = (case live_session w2 s of
      None \<Rightarrow> Inr None
    | Some n \<Rightarrow> if og_handle (ys_gate (rn_system n)) \<noteq> HOpen then Inl (default_slot_error ''the default session is closing or closed'')
               else Inr (Some s))"
    by (simp add: resolve_default_def slot)
  have "default_session_with port' opts' w2 =
      (case live_session w2 s of
         None \<Rightarrow> map_option (\<lambda>(r, v). (r, runtime_leave v)) (create_default_session port' opts' (enter w2))
       | Some n \<Rightarrow>
           Some (Returned (if og_handle (ys_gate (rn_system n)) \<noteq> HOpen
                           then Inl (default_slot_error ''the default session is closing or closed'')
                           else if rn_options n = DefaultCreation opts' then Inr s
                           else Inl (configuration_error ''create default session'' ImmutableDefaultSessionOptions)), w2))"
    by (simp add: default_session_with_def admit default_session_locked_def keeps resolved leaves split: option.split)
  moreover define closed where "closed = default_slot_closed (rs_default w2)"
  have "resolve_default (w2\<lparr>rs_default := closed\<rparr>) = Inl (default_slot_error ''the default session was explicitly closed'')"
    by (simp add: resolve_default_def closed_def default_slot_closed_def)
  then have "default_session_with port' opts' (w2\<lparr>rs_default := closed\<rparr>) =
      Some (Returned (Inl (default_slot_error ''the default session was explicitly closed'')), w2\<lparr>rs_default := closed\<rparr>)"
    by (simp add: default_session_with_def admit default_session_locked_def keeps leaves)
  moreover have "register_default s' closed = closed" by (simp add: register_default_def closed_def default_slot_closed_def)
  ultimately show ?thesis using cur unfolding Let_def closed_def[symmetric] enter_def by blast
qed

text \<open>On a fresh runtime: a first call, the same call and one with other options, and one after the last handle is gone.\<close>

definition example_default_options :: default_session_options where
  "example_default_options = \<lparr>do_context = default_context_options, do_network = \<lparr>ob_ttl = 5, ob_max_bytes = 9\<rparr>\<rparr>"

definition example_shared :: runtime_system where
  "example_shared = snd (the (default_session_with example_creation example_default_options example_runtime))"

theorem default_session_is_shared_witness:
  "default_session_with example_creation example_default_options example_runtime = Some (Returned (Inr ''session-7''), example_shared) \<and>
   default_session_with example_creation example_default_options example_shared = Some (Returned (Inr ''session-7''), example_shared) \<and>
   (\<exists>e. default_session_with example_creation (example_default_options\<lparr>do_network := \<lparr>ob_ttl = 6, ob_max_bytes = 9\<rparr>\<rparr>) example_shared =
      Some (Returned (Inl e), example_shared)) \<and>
   live_session (example_shared\<lparr>rs_sessions := []\<rparr>) ''session-7'' = None"
proof -
  have "map_option fst (default_session_with example_creation example_default_options example_runtime) = Some (Returned (Inr ''session-7''))"
    by code_simp
  then have run: "default_session_with example_creation example_default_options example_runtime = Some (Returned (Inr ''session-7''), example_shared)"
    by (auto simp: example_shared_def)
  let ?other = "example_default_options\<lparr>do_network := \<lparr>ob_ttl = 6, ob_max_bytes = 9\<rparr>\<rparr>"
  have now: "og_handle (rs_gate example_shared) = HOpen"
    "preflight_context (rs_capabilities example_shared) DefaultContext (do_context example_default_options) ''create default session'' = Inr ()"
    "preflight_context (rs_capabilities example_shared) DefaultContext (do_context ?other) ''create default session'' = Inr ()"
    "map_option (\<lambda>n. (og_handle (ys_gate (rn_system n)), rn_options n)) (live_session example_shared ''session-7'') =
       Some (HOpen, DefaultCreation example_default_options)" "?other \<noteq> example_default_options"
    by code_simp+
  then obtain n where n: "live_session example_shared ''session-7'' = Some n" "og_handle (ys_gate (rn_system n)) = HOpen"
      "rn_options n = DefaultCreation example_default_options" by auto
  from default_session_is_shared[OF run refl now(1,2)] default_session_is_shared[OF run refl now(1,3)] n now(5) run
  show ?thesis by (simp add: live_session_def)
qed

end
