(* ===== verification/Artifacts.thy ===== *)
theory Artifacts
  imports Errors "HOL-Library.Word"
begin

text \<open>
  The pure part of artifacts (\<open>src/src/runtime/artifact.rs\<close>): the length of a base64 payload before it is
  decoded, and the headers of PNG, JPEG and WebP images. Payloads are lists of bytes. A slice in memory holds at
  most \<open>isize::MAX\<close> bytes, so the sums of an offset into it and a 32-bit length fit into \<open>usize\<close>; the checked
  additions of the code never fail and are plain additions here.
\<close>

unbundle bit_operations_syntax

type_synonym u8 = "8 word"
type_synonym u32 = "32 word"

subsection \<open>Base64\<close>

definition char_byte :: "char \<Rightarrow> nat" where
  "char_byte c = of_char c"

definition sextet :: "char \<Rightarrow> nat option" where
  "sextet c =
     (let b = char_byte c
      in if 65 \<le> b \<and> b \<le> 90 then Some (b - 65)
         else if 97 \<le> b \<and> b \<le> 122 then Some (b - 97 + 26)
         else if 48 \<le> b \<and> b \<le> 57 then Some (b - 48 + 52)
         else if c = CHR ''+'' then Some 62
         else if c = CHR ''/'' then Some 63
         else None)"

definition base64_padding :: "string \<Rightarrow> nat" where
  "base64_padding s =
     (if take 2 (rev s) = ''=='' then 2 else if take 1 (rev s) = ''='' then 1 else 0)"

definition canonical_tail :: "nat \<Rightarrow> string \<Rightarrow> bool" where
  "canonical_tail padding s =
     (if padding = 0 then True
      else if length s < padding + 1 then False
      else case sextet (s ! (length s - (padding + 1))) of
             None \<Rightarrow> False
           | Some v \<Rightarrow> if padding = 1 then v mod 4 = 0 else v mod 16 = 0)"

definition standard_base64_decoded_len :: "string \<Rightarrow> nat option" where
  "standard_base64_decoded_len s =
     (let padding = base64_padding s; data_len = length s - padding
      in if length s mod 4 \<noteq> 0 then None
         else if length s < padding then None
         else if list_ex (\<lambda>c. sextet c = None) (take data_len s) \<or> list_ex (\<lambda>c. c \<noteq> CHR ''='') (drop data_len s) then None
         else if \<not> canonical_tail padding s then None
         else if length s div 4 * 3 < padding then None
         else Some (length s div 4 * 3 - padding))"

text \<open>
  The standard alphabet with canonical padding, as RFC 4648 defines it and the \<open>STANDARD\<close> engine of the
  \<open>base64\<close> crate decodes it: quanta of four characters, and a last one with padding whose unused bits are 0.
\<close>

definition quantum :: "nat \<Rightarrow> nat \<Rightarrow> nat \<Rightarrow> nat \<Rightarrow> u8 list" where
  "quantum a b c d = [of_nat (a * 4 + b div 16), of_nat (b mod 16 * 16 + c div 4), of_nat (c mod 4 * 64 + d)]"

definition full_quantum :: "char \<Rightarrow> char \<Rightarrow> char \<Rightarrow> char \<Rightarrow> u8 list option" where
  "full_quantum a b c d =
     (case (sextet a, sextet b, sextet c, sextet d) of
        (Some w, Some x, Some y, Some z) \<Rightarrow> Some (quantum w x y z)
      | _ \<Rightarrow> None)"

definition last_quantum :: "char \<Rightarrow> char \<Rightarrow> char \<Rightarrow> char \<Rightarrow> u8 list option" where
  "last_quantum a b c d =
     (if d \<noteq> CHR ''='' then full_quantum a b c d
      else if c \<noteq> CHR ''='' then
        (case (sextet a, sextet b, sextet c) of
           (Some w, Some x, Some y) \<Rightarrow> if y mod 4 = 0 then Some (take 2 (quantum w x y 0)) else None
         | _ \<Rightarrow> None)
      else (case (sextet a, sextet b) of
              (Some w, Some x) \<Rightarrow> if x mod 16 = 0 then Some (take 1 (quantum w x 0 0)) else None
            | _ \<Rightarrow> None))"

fun base64_reference :: "string \<Rightarrow> u8 list option" where
  "base64_reference [] = Some []"
| "base64_reference [a] = None"
| "base64_reference [a, b] = None"
| "base64_reference [a, b, c] = None"
| "base64_reference [a, b, c, d] = last_quantum a b c d"
| "base64_reference (a # b # c # d # e # rest) =
     (case (full_quantum a b c d, base64_reference (e # rest)) of
        (Some x, Some y) \<Rightarrow> Some (x @ y)
      | _ \<Rightarrow> None)"

lemma sextet_pad [simp]: "sextet (CHR ''='') = None"
  by code_simp

lemma full_quantum_length:
  "map_option length (full_quantum a b c d) =
     (if sextet a = None \<or> sextet b = None \<or> sextet c = None \<or> sextet d = None then None else Some 3)"
  by (auto simp: full_quantum_def quantum_def split: option.split)

text \<open>A prefix of one quantum before at least one more does not touch the padding.\<close>

lemma padding_cons: "length t \<ge> 2 \<Longrightarrow> base64_padding (x # t) = base64_padding t"
  by (simp add: base64_padding_def)

lemma padding_le: "base64_padding s \<le> 2"
  by (simp add: base64_padding_def)

lemma canonical_tail_cons:
  assumes "length t \<ge> 3" "padding \<le> 2"
  shows "canonical_tail padding (x # t) = canonical_tail padding t"
proof (cases "padding = 0")
  case False
  from assms have "length (x # t) - (padding + 1) = Suc (length t - (padding + 1))" by simp
  with assms False show ?thesis by (simp add: canonical_tail_def)
qed (simp add: canonical_tail_def)

lemma decoded_len_step:
  assumes "length t mod 4 = 0" "t \<noteq> []"
  shows "standard_base64_decoded_len (a # b # c # d # t) =
    (if sextet a = None \<or> sextet b = None \<or> sextet c = None \<or> sextet d = None then None
     else map_option (\<lambda>n. 3 + n) (standard_base64_decoded_len t))"
proof -
  from assms have len: "4 \<le> length t" by (cases t rule: remdups_adj.cases) (auto simp: mod_eq_0_iff_dvd dest: dvd_imp_le)
  define s where "s = a # b # c # d # t"
  have size: "length s = length t + 4" by (simp add: s_def)
  have pad: "base64_padding s = base64_padding t" using len by (simp add: s_def padding_cons)
  have le: "base64_padding t \<le> 2" by (rule padding_le)
  have tail: "canonical_tail (base64_padding t) s = canonical_tail (base64_padding t) t"
    using len le by (simp add: s_def canonical_tail_cons)
  have shift: "length s - base64_padding t = Suc (Suc (Suc (Suc (length t - base64_padding t))))" using len le size by simp
  have cut: "take (length s - base64_padding t) s = a # b # c # d # take (length t - base64_padding t) t"
    "drop (length s - base64_padding t) s = drop (length t - base64_padding t) t"
    unfolding shift by (simp_all add: s_def)
  have number: "length s div 4 * 3 - base64_padding t = 3 + (length t div 4 * 3 - base64_padding t)"
    "\<not> length t div 4 * 3 < base64_padding t" "\<not> length s div 4 * 3 < base64_padding t" "length s mod 4 = 0"
    using len le assms(1) div_le_mono[OF len, of 4] div_add_self2[of 4 "length t"] by (simp_all add: size)
  have "\<not> length s < base64_padding t" "\<not> length t < base64_padding t" using len le size by simp_all
  with assms(1) number show ?thesis
    unfolding s_def[symmetric] standard_base64_decoded_len_def Let_def pad tail cut by (auto simp: option.case_eq_if)
qed

lemma decoded_len_last:
  "standard_base64_decoded_len [a, b, c, d] = map_option length (last_quantum a b c d)"
proof -
  have full: ?thesis if "d \<noteq> CHR ''=''"
    using that
    by (cases "sextet a"; cases "sextet b"; cases "sextet c"; cases "sextet d")
      (simp_all add: standard_base64_decoded_len_def last_quantum_def base64_padding_def canonical_tail_def full_quantum_def quantum_def)
  have one: ?thesis if "d = CHR ''=''" "c \<noteq> CHR ''=''"
    using that
    by (cases "sextet a"; cases "sextet b"; cases "sextet c")
      (simp_all add: standard_base64_decoded_len_def last_quantum_def base64_padding_def canonical_tail_def quantum_def)
  have two: ?thesis if "d = CHR ''=''" "c = CHR ''=''"
    using that
    by (cases "sextet a"; cases "sextet b")
      (simp_all add: standard_base64_decoded_len_def last_quantum_def base64_padding_def canonical_tail_def quantum_def)
  show ?thesis using full one two by blast
qed

text \<open>
  C14: The length that is computed before decoding is exactly the length of the decoded payload, and it is
  undefined exactly for the texts the decoder refuses.
\<close>

theorem base64_length_exact:
  "standard_base64_decoded_len s = map_option length (base64_reference s)"
proof (induction s rule: base64_reference.induct)
  case 1
  show ?case by (simp add: standard_base64_decoded_len_def base64_padding_def canonical_tail_def)
next
  case (5 a b c d)
  show ?case by (simp add: decoded_len_last)
next
  case (6 a b c d e rest)
  show ?case
  proof (cases "length (e # rest) mod 4 = 0")
    case True
    have len: "map_option length (full_quantum a b c d) =
        (if sextet a = None \<or> sextet b = None \<or> sextet c = None \<or> sextet d = None then None else Some 3)"
      by (rule full_quantum_length)
    show ?thesis
    proof (cases "full_quantum a b c d")
      case None
      with len have "sextet a = None \<or> sextet b = None \<or> sextet c = None \<or> sextet d = None" by (auto split: if_splits)
      with None decoded_len_step[OF True, of a b c d] show ?thesis by simp
    next
      case (Some q)
      with len have q: "sextet a \<noteq> None" "sextet b \<noteq> None" "sextet c \<noteq> None" "sextet d \<noteq> None" "length q = 3"
        by (auto split: if_splits)
      from 6 decoded_len_step[OF True, of a b c d] q Some show ?thesis
        by (auto split: option.split)
    qed
  next
    case False
    then have "length (a # b # c # d # e # rest) mod 4 \<noteq> 0" by simp presburger
    then have "standard_base64_decoded_len (a # b # c # d # e # rest) = None" by (simp only: standard_base64_decoded_len_def Let_def if_True simp_thms)
    moreover from False have "standard_base64_decoded_len (e # rest) = None" by (simp only: standard_base64_decoded_len_def Let_def if_True simp_thms)
    ultimately show ?thesis using 6 by (auto split: option.split)
  qed
qed (simp_all add: standard_base64_decoded_len_def)

subsection \<open>Bytes\<close>

text \<open>\<open>bytes.get(a..b)\<close>, \<open>bytes.get(i)\<close> and the conversions of \<open>u32\<close>.\<close>

definition slice :: "u8 list \<Rightarrow> nat \<Rightarrow> nat \<Rightarrow> u8 list option" where
  "slice bs a b = (if a \<le> b \<and> b \<le> length bs then Some (take (b - a) (drop a bs)) else None)"

definition get_byte :: "u8 list \<Rightarrow> nat \<Rightarrow> u8 option" where
  "get_byte bs i = (if i < length bs then Some (bs ! i) else None)"

definition be_word :: "u8 list \<Rightarrow> u32" where
  "be_word bs = foldl (\<lambda>a b. push_bit 8 a OR ucast b) 0 bs"

definition le_word :: "u8 list \<Rightarrow> u32" where
  "le_word bs = be_word (rev bs)"

definition be_bytes :: "u32 \<Rightarrow> u8 list" where
  "be_bytes w = [ucast (drop_bit 24 w), ucast (drop_bit 16 w), ucast (drop_bit 8 w), ucast w]"

lemma be_word_bytes [simp]: "be_word (be_bytes w) = w"
proof (rule bit_word_eqI)
  fix n assume "n < LENGTH(32)"
  then consider "n < 8" | "8 \<le> n" "n < 16" | "16 \<le> n" "n < 24" | "24 \<le> n" "n < 32" by fastforce
  then show "bit (be_word (be_bytes w)) n = bit w n"
    by cases (auto simp: be_word_def be_bytes_def bit_simps)
qed

lemma no_high_bits [simp]:
  "\<not> bit (b :: u8) (8 + n)" "\<not> bit (b :: u8) (16 + n)" "\<not> bit (b :: u8) (24 + n)" "\<not> bit (w :: u32) 32"
  by (auto dest: bit_imp_le_length)

lemma be_bytes_word: "length bs = 4 \<Longrightarrow> be_bytes (be_word bs) = bs"
proof -
  assume "length bs = 4"
  then obtain a b c d where bs: "bs = [a, b, c, d]" by (auto simp: numeral_eq_Suc length_Suc_conv)
  show ?thesis unfolding bs be_bytes_def be_word_def
    by (auto intro!: bit_word_eqI simp: bit_simps)
qed

lemma slice_append: "length xs = a \<Longrightarrow> a \<le> b \<Longrightarrow> b \<le> a + length ys \<Longrightarrow> slice (xs @ ys) a b = Some (take (b - a) ys)"
  by (simp add: slice_def)

subsection \<open>The checksum of a PNG chunk\<close>

definition crc_bit :: "u32 \<Rightarrow> u32" where
  "crc_bit crc = drop_bit 1 crc XOR (0xedb88320 AND - (crc AND 1))"

definition crc_byte :: "u32 \<Rightarrow> u8 \<Rightarrow> u32" where
  "crc_byte crc b = (crc_bit ^^ 8) (crc XOR ucast b)"

definition png_crc32 :: "u8 list \<Rightarrow> u8 list \<Rightarrow> u32" where
  "png_crc32 chunk payload = NOT (foldl crc_byte (- 1) (chunk @ payload))"

lemma crc_bit_alt: "crc_bit x = drop_bit 1 x XOR (if odd x then 0xedb88320 else 0)"
  by (simp add: crc_bit_def and_one_eq mod_2_eq_odd)

lemma xor_cancel:
  fixes x y z :: u32
  shows "x XOR z = y XOR z \<Longrightarrow> x = y" "z XOR x = z XOR y \<Longrightarrow> x = y"
proof -
  assume "x XOR z = y XOR z"
  then have "(x XOR z) XOR z = (y XOR z) XOR z" by simp
  then show "x = y" by (simp add: xor.assoc)
next
  assume "z XOR x = z XOR y"
  then have "z XOR (z XOR x) = z XOR (z XOR y)" by simp
  then show "x = y" by (simp add: xor.assoc[symmetric])
qed

lemma crc_bit_inj: "crc_bit x = crc_bit y \<Longrightarrow> x = y"
proof -
  assume eq: "crc_bit x = crc_bit y"
  have top: "bit (crc_bit z) 31 = odd z" for z :: u32
    by (auto simp: crc_bit_alt bit_simps)
  from eq have o: "odd x = odd y" by (metis top)
  with eq have "drop_bit 1 x XOR (if odd x then 0xedb88320 else 0) = drop_bit 1 y XOR (if odd x then 0xedb88320 else 0)"
    by (simp add: crc_bit_alt)
  then have "drop_bit 1 x = drop_bit 1 y" by (rule xor_cancel(1))
  then have "x div 2 = y div 2" by (simp add: drop_bit_Suc)
  with o show "x = y" by (metis bit_eq_rec)
qed

lemma crc_bits_inj: "(crc_bit ^^ n) x = (crc_bit ^^ n) y \<Longrightarrow> x = y"
  by (induction n arbitrary: x y) (auto dest: crc_bit_inj simp: funpow_Suc_right simp del: funpow.simps(2))

lemma crc_byte_inj: "crc_byte x b = crc_byte y b \<Longrightarrow> x = y" "crc_byte x b = crc_byte x c \<Longrightarrow> b = c"
proof -
  show "x = y" if "crc_byte x b = crc_byte y b"
    using crc_bits_inj[OF that[unfolded crc_byte_def]] by (rule xor_cancel(1))
  show "b = c" if "crc_byte x b = crc_byte x c"
  proof -
    have "(ucast b :: u32) = ucast c" using crc_bits_inj[OF that[unfolded crc_byte_def]] by (rule xor_cancel(2))
    then have same: "bit (ucast b :: u32) n = bit (ucast c :: u32) n" for n by simp
    show ?thesis
    proof (rule bit_word_eqI)
      fix n assume "n < LENGTH(8)"
      with same[of n] show "bit b n = bit c n" by (simp add: bit_simps)
    qed
  qed
qed

lemma crc_fold_inj: "foldl crc_byte x bs = foldl crc_byte y bs \<Longrightarrow> x = y"
  by (induction bs arbitrary: x y) (auto dest: crc_byte_inj(1))

text \<open>One changed byte always changes the checksum.\<close>

lemma crc_one_byte:
  assumes "i < length payload" "b \<noteq> payload ! i"
  shows "png_crc32 chunk (payload[i := b]) \<noteq> png_crc32 chunk payload"
proof
  assume eq: "png_crc32 chunk (payload[i := b]) = png_crc32 chunk payload"
  define x where "x = foldl crc_byte (- 1) (chunk @ take i payload)"
  have "payload = take i payload @ payload ! i # drop (Suc i) payload" using assms(1) by (rule id_take_nth_drop)
  then have "png_crc32 chunk payload = NOT (foldl crc_byte (crc_byte x (payload ! i)) (drop (Suc i) payload))"
    unfolding png_crc32_def x_def by (metis foldl_Cons foldl_append)
  moreover have "png_crc32 chunk (payload[i := b]) = NOT (foldl crc_byte (crc_byte x b) (drop (Suc i) payload))"
    unfolding png_crc32_def x_def upd_conv_take_nth_drop[OF assms(1)] by (metis foldl_Cons foldl_append)
  ultimately have "foldl crc_byte (crc_byte x b) (drop (Suc i) payload) = foldl crc_byte (crc_byte x (payload ! i)) (drop (Suc i) payload)"
    using eq by (metis bit.double_compl)
  from crc_byte_inj(2)[OF crc_fold_inj[OF this]] assms(2) show False by simp
qed

subsection \<open>PNG\<close>

record dimensions =
  dm_width :: u32
  dm_height :: u32

definition png_signature :: "u8 list" where
  "png_signature = [0x89, 0x50, 0x4e, 0x47, 0x0d, 0x0a, 0x1a, 0x0a]"

definition ihdr_type :: "u8 list" where
  "ihdr_type = [0x49, 0x48, 0x44, 0x52]"

definition valid_depth :: "u8 \<Rightarrow> u8 \<Rightarrow> bool" where
  "valid_depth color_type bit_depth =
     (if color_type = 0 then bit_depth \<in> {1, 2, 4, 8, 16}
      else if color_type \<in> {2, 4, 6} then bit_depth \<in> {8, 16}
      else if color_type = 3 then bit_depth \<in> {1, 2, 4, 8}
      else False)"

definition ihdr_dimensions :: "u8 list \<Rightarrow> dimensions option" where
  "ihdr_dimensions payload =
     (let width = be_word (take 4 payload); height = be_word (take 4 (drop 4 payload))
      in if width = 0 \<or> height = 0 \<or> \<not> valid_depth (payload ! 9) (payload ! 8) \<or> payload ! 10 \<noteq> 0 \<or> payload ! 11 \<noteq> 0
            \<or> payload ! 12 \<notin> {0, 1}
         then None else Some \<lparr>dm_width = width, dm_height = height\<rparr>)"

definition png_dimensions :: "u8 list \<Rightarrow> dimensions option" where
  "png_dimensions bytes =
     Option.bind (slice bytes 0 8) (\<lambda>signature. if signature \<noteq> png_signature then None else
     Option.bind (slice bytes 8 12) (\<lambda>len. if unat (be_word len) \<noteq> 13 then None else
     Option.bind (slice bytes 12 16) (\<lambda>kind. if kind \<noteq> ihdr_type then None else
     Option.bind (slice bytes 16 29) (\<lambda>payload.
     Option.bind (slice bytes 29 33) (\<lambda>crc.
       if png_crc32 ihdr_type payload \<noteq> be_word crc then None else ihdr_dimensions payload)))))"

text \<open>The header of a PNG image, as its specification lays it out.\<close>

definition ihdr_payload :: "u32 \<Rightarrow> u32 \<Rightarrow> u8 \<Rightarrow> u8 \<Rightarrow> u8 \<Rightarrow> u8 list" where
  "ihdr_payload width height depth color interlace = be_bytes width @ be_bytes height @ [depth, color, 0, 0, interlace]"

definition png_header :: "u32 \<Rightarrow> u32 \<Rightarrow> u8 \<Rightarrow> u8 \<Rightarrow> u8 \<Rightarrow> u8 list" where
  "png_header width height depth color interlace =
     (let payload = ihdr_payload width height depth color interlace
      in png_signature @ be_bytes 13 @ ihdr_type @ payload @ be_bytes (png_crc32 ihdr_type payload))"

lemma length_be_bytes [simp]: "length (be_bytes w) = 4"
  by (simp add: be_bytes_def)

lemma length_ihdr_payload [simp]: "length (ihdr_payload w h d c i) = 13"
  by (simp add: ihdr_payload_def)

lemma ihdr_dimensions_payload:
  "ihdr_dimensions (ihdr_payload w h d c i @ rest) =
     (if w = 0 \<or> h = 0 \<or> \<not> valid_depth c d \<or> i \<notin> {0, 1} then None else Some \<lparr>dm_width = w, dm_height = h\<rparr>)"
  by (simp add: ihdr_dimensions_def ihdr_payload_def nth_append Let_def)

text \<open>Every accepted file begins with such a header, and every such header is accepted.\<close>

lemma ihdr_payload_exhaust:
  assumes "length payload = 13" "payload ! 10 = 0" "payload ! 11 = 0"
  shows "payload = ihdr_payload (be_word (take 4 payload)) (be_word (take 4 (drop 4 payload))) (payload ! 8) (payload ! 9) (payload ! 12)"
proof -
  from assms(1) obtain a b c d e f g h j k l m n where p: "payload = [a, b, c, d, e, f, g, h, j, k, l, m, n]"
    by (auto simp: numeral_eq_Suc length_Suc_conv)
  with assms(2,3) show ?thesis
    using be_bytes_word[of "[a, b, c, d]"] be_bytes_word[of "[e, f, g, h]"] by (simp add: ihdr_payload_def)
qed

lemma png_header_of:
  assumes "png_dimensions bytes = Some d"
  shows "\<exists>depth color interlace rest. bytes = png_header (dm_width d) (dm_height d) depth color interlace @ rest \<and>
        dm_width d \<noteq> 0 \<and> dm_height d \<noteq> 0 \<and> valid_depth color depth \<and> interlace \<in> {0, 1}"
proof -
  from assms obtain payload crc len where s: "slice bytes 0 8 = Some png_signature" "slice bytes 8 12 = Some len" "unat (be_word len) = 13"
      "slice bytes 12 16 = Some ihdr_type" "slice bytes 16 29 = Some payload" "slice bytes 29 33 = Some crc"
      "png_crc32 ihdr_type payload = be_word crc" "ihdr_dimensions payload = Some d"
    by (auto simp: png_dimensions_def split: bind_splits if_splits)
  have size: "33 \<le> length bytes" using s(6) by (simp add: slice_def split: if_splits)
  have parts: "take 8 bytes = png_signature" "take 4 (drop 8 bytes) = len" "take 4 (drop 12 bytes) = ihdr_type"
      "take 13 (drop 16 bytes) = payload" "take 4 (drop 29 bytes) = crc"
    using s size by (simp_all add: slice_def split: if_splits)
  have "bytes = take 8 bytes @ take 4 (drop 8 bytes) @ take 4 (drop 12 bytes) @ take 13 (drop 16 bytes) @ take 4 (drop 29 bytes) @ drop 33 bytes"
  proof -
    have cut: "drop n bytes = take k (drop n bytes) @ drop (n + k) bytes" for n k
      by (metis append_take_drop_id drop_drop add.commute)
    show ?thesis using cut[of 0 8] cut[of 8 4] cut[of 12 4] cut[of 16 13] cut[of 29 4] by simp
  qed
  then have bytes: "bytes = png_signature @ len @ ihdr_type @ payload @ crc @ drop 33 bytes" by (simp add: parts)
  have "(of_nat (unat (be_word len)) :: u32) = of_nat 13" by (simp only: s(3))
  then have "be_word len = 13" by simp
  then have len: "len = be_bytes 13" using be_bytes_word[of len] size parts(2) by auto
  have crc: "crc = be_bytes (png_crc32 ihdr_type payload)" using be_bytes_word[of crc] size parts(5) s(7) by auto
  from s(8) have d: "dm_width d = be_word (take 4 payload)" "dm_height d = be_word (take 4 (drop 4 payload))"
      "dm_width d \<noteq> 0" "dm_height d \<noteq> 0" "valid_depth (payload ! 9) (payload ! 8)" "payload ! 10 = 0" "payload ! 11 = 0" "payload ! 12 \<in> {0, 1}"
    by (auto simp: ihdr_dimensions_def Let_def split: if_splits)
  have "length payload = 13" using parts(4) size by auto
  from ihdr_payload_exhaust[OF this d(6,7)] have "payload = ihdr_payload (dm_width d) (dm_height d) (payload ! 8) (payload ! 9) (payload ! 12)"
    by (simp add: d(1,2))
  then have "bytes = png_header (dm_width d) (dm_height d) (payload ! 8) (payload ! 9) (payload ! 12) @ drop 33 bytes"
    unfolding png_header_def Let_def using bytes len crc by simp
  with d show ?thesis by blast
qed

lemma png_header_accepted:
  assumes b: "bytes = png_header (dm_width d) (dm_height d) depth color interlace @ rest"
      "dm_width d \<noteq> 0" "dm_height d \<noteq> 0" "valid_depth color depth" "interlace \<in> {0, 1}"
  shows "png_dimensions bytes = Some d"
proof -
  define payload where "payload = ihdr_payload (dm_width d) (dm_height d) depth color interlace"
  have len: "length payload = 13" by (simp add: payload_def)
  have bytes: "bytes = png_signature @ be_bytes 13 @ ihdr_type @ payload @ be_bytes (png_crc32 ihdr_type payload) @ rest"
    using b(1) by (simp add: png_header_def payload_def Let_def)
  have sizes: "length png_signature = 8" "length ihdr_type = 4" by (simp_all add: png_signature_def ihdr_type_def)
  have "slice bytes 0 8 = Some png_signature" "slice bytes 8 12 = Some (be_bytes 13)" "slice bytes 12 16 = Some ihdr_type"
      "slice bytes 16 29 = Some payload" "slice bytes 29 33 = Some (be_bytes (png_crc32 ihdr_type payload))"
    by (simp_all add: bytes slice_def sizes len)
  moreover have "ihdr_dimensions payload = Some d"
    using ihdr_dimensions_payload[of _ _ _ _ _ "[]"] b(2-5) by (simp add: payload_def)
  ultimately show ?thesis by (simp add: png_dimensions_def)
qed

text \<open>
  A file is recognized as a PNG image of some size exactly if it begins with the signature and an IHDR
  chunk of that size, with a valid depth for its colour type, the standard methods, and the right checksum.
\<close>

theorem png_dimensions_exact:
  "png_dimensions bytes = Some d \<longleftrightarrow>
     (\<exists>depth color interlace rest. bytes = png_header (dm_width d) (dm_height d) depth color interlace @ rest \<and>
        dm_width d \<noteq> 0 \<and> dm_height d \<noteq> 0 \<and> valid_depth color depth \<and> interlace \<in> {0, 1})"
proof
  assume "png_dimensions bytes = Some d"
  then show "\<exists>depth color interlace rest. bytes = png_header (dm_width d) (dm_height d) depth color interlace @ rest \<and>
        dm_width d \<noteq> 0 \<and> dm_height d \<noteq> 0 \<and> valid_depth color depth \<and> interlace \<in> {0, 1}" by (rule png_header_of)
next
  assume "\<exists>depth color interlace rest. bytes = png_header (dm_width d) (dm_height d) depth color interlace @ rest \<and>
        dm_width d \<noteq> 0 \<and> dm_height d \<noteq> 0 \<and> valid_depth color depth \<and> interlace \<in> {0, 1}"
  then obtain depth color interlace rest where b: "bytes = png_header (dm_width d) (dm_height d) depth color interlace @ rest"
      "dm_width d \<noteq> 0" "dm_height d \<noteq> 0" "valid_depth color depth" "interlace \<in> {0, 1}" by blast
  from png_header_accepted[OF b] show "png_dimensions bytes = Some d" .
qed

lemma png_accepts:
  assumes "png_dimensions bytes = Some d"
  shows "33 \<le> length bytes" "take 16 bytes = png_signature @ be_bytes 13 @ ihdr_type"
    "png_crc32 ihdr_type (take 13 (drop 16 bytes)) = be_word (take 4 (drop 29 bytes))"
proof -
  from assms obtain depth color interlace rest where b: "bytes = png_header (dm_width d) (dm_height d) depth color interlace @ rest"
    using png_header_of by blast
  define payload where "payload = ihdr_payload (dm_width d) (dm_height d) depth color interlace"
  have "length payload = 13" "bytes = png_signature @ be_bytes 13 @ ihdr_type @ payload @ be_bytes (png_crc32 ihdr_type payload) @ rest"
    using b by (simp_all add: png_header_def payload_def Let_def)
  moreover have "length png_signature = 8" "length ihdr_type = 4" by (simp_all add: png_signature_def ihdr_type_def)
  ultimately show "33 \<le> length bytes" "take 16 bytes = png_signature @ be_bytes 13 @ ihdr_type"
    "png_crc32 ihdr_type (take 13 (drop 16 bytes)) = be_word (take 4 (drop 29 bytes))" by simp_all
qed

lemma part_of_update:
  "take k (drop n (bs[i := b])) = (if n \<le> i then (take k (drop n bs))[i - n := b] else take k (drop n bs))"
  by (simp add: drop_update_swap drop_update_cancel take_update_swap)

text \<open>
  C12: In an accepted PNG file no byte of the first 33 can be changed without the file being rejected: the
  signature, the length and the type are fixed, and the checksum notices every change of one byte.
\<close>

theorem png_corruption_detected:
  assumes "png_dimensions bytes = Some d" "i < 33" "b \<noteq> bytes ! i"
  shows "png_dimensions (bytes[i := b]) = None"
proof (rule ccontr)
  let ?new = "bytes[i := b]"
  assume "png_dimensions ?new \<noteq> None"
  then obtain e where e: "png_dimensions ?new = Some e" by blast
  note old = png_accepts[OF assms(1)] and new = png_accepts[OF e]
  consider "i < 16" | "16 \<le> i" "i < 29" | "29 \<le> i" by linarith
  then show False
  proof cases
    case 1
    have "take 16 ?new ! i = take 16 bytes ! i" by (simp only: old(2) new(2))
    with 1 old(1) assms(3) show False by simp
  next
    case 2
    define payload where "payload = take 13 (drop 16 bytes)"
    have at: "i - 16 < length payload" "payload ! (i - 16) = bytes ! i" using 2 old(1) by (simp_all add: payload_def)
    have "png_crc32 ihdr_type (payload[i - 16 := b]) = png_crc32 ihdr_type payload"
      using new(3) old(3) 2 by (simp add: part_of_update payload_def)
    with crc_one_byte[OF at(1), of b ihdr_type] at(2) assms(3) show False by simp
  next
    case 3
    define crc where "crc = take 4 (drop 29 bytes)"
    have at: "i - 29 < length crc" "crc ! (i - 29) = bytes ! i" "length crc = 4" using 3 assms(2) old(1) by (simp_all add: crc_def)
    have "take 13 (drop 16 ?new) = take 13 (drop 16 bytes)" using 3 by (simp add: part_of_update list_update_beyond)
    with new(3) old(3) 3 have "be_word (crc[i - 29 := b]) = be_word crc" by (simp add: part_of_update crc_def)
    then have "crc[i - 29 := b] = crc" using be_bytes_word[of crc] be_bytes_word[of "crc[i - 29 := b]"] at(3) by simp
    with at assms(3) show False by (metis nth_list_update_eq)
  qed
qed

theorem png_corruption_detected_witness:
  "png_dimensions ((png_header 1 1 8 6 0)[17 := 7]) = None"
proof -
  have a: "png_dimensions (png_header 1 1 8 6 0) = Some \<lparr>dm_width = 1, dm_height = 1\<rparr>"
    by (rule png_header_accepted[of _ _ 8 6 0 "[]"]) (simp_all add: valid_depth_def)
  have b: "(7 :: u8) \<noteq> png_header 1 1 8 6 0 ! 17"
    by (simp add: png_header_def png_signature_def ihdr_type_def ihdr_payload_def be_bytes_def Let_def)
  show ?thesis by (rule png_corruption_detected[OF a _ b]) simp
qed

subsection \<open>JPEG\<close>

definition is_jpeg_sof :: "u8 \<Rightarrow> bool" where
  "is_jpeg_sof m \<longleftrightarrow> 0xc0 \<le> m \<and> m \<le> 0xc3 \<or> 0xc5 \<le> m \<and> m \<le> 0xc7 \<or> 0xc9 \<le> m \<and> m \<le> 0xcb \<or> 0xcd \<le> m \<and> m \<le> 0xcf"

text \<open>The frame header from its length field on; \<open>n\<close> is that length.\<close>

definition sof_dimensions :: "u8 list \<Rightarrow> nat \<Rightarrow> dimensions option" where
  "sof_dimensions payload n =
     (if n < 8 then None
      else let components = unat (payload ! 7); height = be_word [payload ! 3, payload ! 4]; width = be_word [payload ! 5, payload ! 6]
           in if components = 0 \<or> n \<noteq> 8 + components * 3 \<or> payload ! 2 \<notin> {8, 12} then None
              else if width \<noteq> 0 \<and> height \<noteq> 0 then Some \<lparr>dm_width = width, dm_height = height\<rparr> else None)"

function skip_fill :: "u8 list \<Rightarrow> nat \<Rightarrow> nat" where
  "skip_fill bytes offset = (if get_byte bytes offset = Some 0xff then skip_fill bytes (offset + 1) else offset)"
  by pat_completeness auto
termination
  by (relation "measure (\<lambda>(bytes, offset). length bytes - offset)") (auto simp: get_byte_def split: if_splits)

declare skip_fill.simps [simp del]

lemma skip_fill_ge: "offset \<le> skip_fill bytes offset"
proof (induction bytes offset rule: skip_fill.induct)
  case (1 bytes offset)
  then show ?case by (subst skip_fill.simps) (auto dest: Suc_leD)
qed

function jpeg_scan :: "u8 list \<Rightarrow> nat \<Rightarrow> dimensions option" where
  "jpeg_scan bytes offset =
     (if offset \<ge> length bytes then None
      else if bytes ! offset \<noteq> 0xff then None
      else let at = skip_fill bytes offset
           in case get_byte bytes at of
                None \<Rightarrow> None
              | Some marker \<Rightarrow>
                  if marker = 0xd9 then None
                  else if marker = 0x01 \<or> 0xd0 \<le> marker \<and> marker \<le> 0xd7 then jpeg_scan bytes (at + 1)
                  else if marker = 0x00 \<or> marker = 0xd8 then None
                  else (case slice bytes (at + 1) (at + 3) of
                          None \<Rightarrow> None
                        | Some len \<Rightarrow>
                            let n = unat (be_word len)
                            in if n < 2 then None
                               else if at + 1 + n > length bytes then None
                               else if is_jpeg_sof marker then sof_dimensions (take n (drop (at + 1) bytes)) n
                               else if marker = 0xda then None
                               else jpeg_scan bytes (at + 1 + n)))"
  by pat_completeness auto
termination
proof (relation "measure (\<lambda>(bytes, offset). length bytes - offset)", goal_cases)
  case (2 bytes offset at marker)
  then show ?case using skip_fill_ge[of offset bytes] by (simp add: diff_less_mono2)
next
  case (3 bytes offset at marker len n)
  then show ?case using skip_fill_ge[of offset bytes] by (simp add: diff_less_mono2)
qed simp

declare jpeg_scan.simps [simp del]

definition jpeg_dimensions :: "u8 list \<Rightarrow> dimensions option" where
  "jpeg_dimensions bytes =
     (case slice bytes 0 2 of None \<Rightarrow> None | Some start \<Rightarrow> if start \<noteq> [0xff, 0xd8] then None else jpeg_scan bytes 2)"

subsection \<open>WebP\<close>

definition read_le24 :: "u8 list \<Rightarrow> u32" where
  "read_le24 bs = le_word (take 3 bs @ [0])"

definition vp8x :: "u8 list" where "vp8x = [0x56, 0x50, 0x38, 0x58]"
definition vp8 :: "u8 list" where "vp8 = [0x56, 0x50, 0x38, 0x20]"
definition vp8l :: "u8 list" where "vp8l = [0x56, 0x50, 0x38, 0x4c]"

text \<open>The additions of 1 are to values of 24 or 14 bits and cannot overflow.\<close>

definition webp_image_dimensions :: "u8 list \<Rightarrow> u8 list \<Rightarrow> dimensions option" where
  "webp_image_dimensions kind header =
     Option.bind
       (if kind = vp8x \<and> length header \<ge> 10 \<and> header ! 0 AND 0xc1 = 0 \<and> take 3 (drop 1 header) = [0, 0, 0]
        then Some \<lparr>dm_width = read_le24 (drop 4 header) + 1, dm_height = read_le24 (drop 7 header) + 1\<rparr>
        else if kind = vp8 \<and> length header \<ge> 10 \<and> take 3 (drop 3 header) = [0x9d, 0x01, 0x2a]
        then (if read_le24 header AND 1 \<noteq> 0 then None
              else Some \<lparr>dm_width = le_word [header ! 6, header ! 7] AND 0x3fff, dm_height = le_word [header ! 8, header ! 9] AND 0x3fff\<rparr>)
        else if kind = vp8l \<and> length header \<ge> 5 \<and> header ! 0 = 0x2f
        then (let bits = le_word (take 4 (drop 1 header))
              in if drop_bit 29 bits \<noteq> 0 then None
                 else Some \<lparr>dm_width = (bits AND 0x3fff) + 1, dm_height = (drop_bit 14 bits AND 0x3fff) + 1\<rparr>)
        else None)
       (\<lambda>d. if dm_width d \<noteq> 0 \<and> dm_height d \<noteq> 0 then Some d else None)"

definition required_header :: "u8 list \<Rightarrow> nat" where
  "required_header kind = (if kind = vp8x then 10 else if kind = vp8 then 10 else if kind = vp8l then 5 else 0)"

function webp_scan :: "nat \<Rightarrow> u8 list \<Rightarrow> nat \<Rightarrow> dimensions option" where
  "webp_scan declared_end bytes offset =
     (if offset + 8 > length bytes \<or> offset + 8 > declared_end then None
      else let kind = take 4 (drop offset bytes);
               len = unat (le_word (take 4 (drop (offset + 4) bytes)));
               declared_next = offset + 8 + len + len mod 2;
               required = required_header kind
           in if declared_next > declared_end then None
              else if required \<noteq> 0 then
                (if len < required then None
                 else Option.bind (slice bytes (offset + 8) (offset + 8 + required)) (webp_image_dimensions kind))
              else if declared_next > length bytes then None
              else webp_scan declared_end bytes declared_next)"
  by pat_completeness auto
termination
  by (relation "measure (\<lambda>(_, bytes, offset). length bytes - offset)") auto

declare webp_scan.simps [simp del]

definition webp_dimensions :: "u8 list \<Rightarrow> dimensions option" where
  "webp_dimensions bytes =
     (case (slice bytes 0 4, slice bytes 8 12, slice bytes 4 8) of
        (Some riff, Some webp, Some len) \<Rightarrow>
          if riff \<noteq> [0x52, 0x49, 0x46, 0x46] \<or> webp \<noteq> [0x57, 0x45, 0x42, 0x50] then None
          else let declared_end = unat (le_word len) + 8 in if declared_end < 20 then None else webp_scan declared_end bytes 12
      | _ \<Rightarrow> None)"

datatype screenshot_format = Png | Jpeg | Webp

definition image_dimensions :: "u8 list \<Rightarrow> screenshot_format \<Rightarrow> dimensions option" where
  "image_dimensions bytes format =
     (case format of Png \<Rightarrow> png_dimensions bytes | Jpeg \<Rightarrow> jpeg_dimensions bytes | Webp \<Rightarrow> webp_dimensions bytes)"

subsection \<open>Sizes are positive and bounded\<close>

lemma be_word_bit: "bit (be_word bs) n \<Longrightarrow> n < 8 * length bs"
proof (induction bs arbitrary: n rule: rev_induct)
  case (snoc b bs)
  have step: "be_word (bs @ [b]) = push_bit 8 (be_word bs) OR ucast b" by (simp add: be_word_def)
  from snoc.prems have "8 \<le> n \<and> bit (be_word bs) (n - 8) \<or> n < 8"
    unfolding step by (auto simp: bit_simps dest: bit_imp_le_length)
  with snoc.IH[of "n - 8"] show ?case by auto
qed (simp add: be_word_def)

lemma unat_be_word: "unat (be_word bs) < 2 ^ (8 * length bs)"
proof -
  have "take_bit (8 * length bs) (be_word bs) = be_word bs"
    by (rule bit_word_eqI) (auto simp: bit_simps dest: be_word_bit)
  then have "unat (be_word bs) = take_bit (8 * length bs) (unat (be_word bs))" by (metis unsigned_take_bit_eq)
  then show ?thesis by (metis take_bit_nat_less_exp)
qed

lemma be_word_two: "unat (be_word [a, b]) < 65536"
  using unat_be_word[of "[a, b]"] by simp

lemma sof_dimensions_bounds:
  assumes "sof_dimensions payload n = Some d"
  shows "dm_width d \<noteq> 0 \<and> dm_height d \<noteq> 0 \<and> unat (dm_width d) < 65536 \<and> unat (dm_height d) < 65536"
  using assms be_word_two by (auto simp: sof_dimensions_def Let_def split: if_splits)

lemma jpeg_scan_bounds:
  "jpeg_scan bytes offset = Some d \<Longrightarrow> dm_width d \<noteq> 0 \<and> dm_height d \<noteq> 0 \<and> unat (dm_width d) < 65536 \<and> unat (dm_height d) < 65536"
proof (induction bytes offset rule: jpeg_scan.induct)
  case (1 bytes offset)
  from 1(3) show ?case
    apply (subst (asm) jpeg_scan.simps)
    using 1(1,2) by (auto simp: Let_def dest: sof_dimensions_bounds split: if_splits option.splits)
qed

lemma read_le24_bound: "unat (read_le24 bs) < 2 ^ 24"
proof -
  have "be_word (0 # xs) = be_word xs" for xs by (simp add: be_word_def)
  then have "read_le24 bs = be_word (rev (take 3 bs))" by (simp add: read_le24_def le_word_def)
  moreover have "(2::nat) ^ (8 * length (rev (take 3 bs))) \<le> 2 ^ 24" by (intro power_increasing) simp_all
  ultimately show ?thesis using unat_be_word[of "rev (take 3 bs)"] by simp
qed

lemma mask_14_bound: "unat (w AND 0x3fff :: u32) < 2 ^ 14"
proof -
  have "w AND 0x3fff = take_bit 14 w" by (simp add: take_bit_eq_mask mask_eq_exp_minus_1)
  then have "unat (w AND 0x3fff) = take_bit 14 (unat w)" by (simp add: unsigned_take_bit_eq)
  then show ?thesis using take_bit_nat_less_exp[of 14 "unat w"] by simp
qed

lemma unat_plus_one_le: "unat (w :: u32) < n \<Longrightarrow> n < 2 ^ 32 \<Longrightarrow> unat (w + 1) \<le> n"
  by (simp add: unat_word_ariths)

lemma webp_image_bounds:
  assumes "webp_image_dimensions kind header = Some d"
  shows "dm_width d \<noteq> 0 \<and> dm_height d \<noteq> 0 \<and> unat (dm_width d) \<le> 2 ^ 24 \<and> unat (dm_height d) \<le> 2 ^ 24"
proof -
  have small: "unat (w AND 0x3fff :: u32) \<le> 2 ^ 24" "unat ((w AND 0x3fff :: u32) + 1) \<le> 2 ^ 24" for w
    using mask_14_bound[of w] unat_plus_one_le[OF mask_14_bound[of w]] by simp_all
  have large: "unat (read_le24 bs + 1) \<le> 2 ^ 24" for bs
    using unat_plus_one_le[OF read_le24_bound[of bs]] by simp
  show ?thesis
    using assms small large
    by (auto simp: webp_image_dimensions_def Let_def split: bind_splits if_splits)
qed

lemma webp_scan_bounds:
  "webp_scan e bytes offset = Some d \<Longrightarrow> dm_width d \<noteq> 0 \<and> dm_height d \<noteq> 0 \<and> unat (dm_width d) \<le> 2 ^ 24 \<and> unat (dm_height d) \<le> 2 ^ 24"
proof (induction e bytes offset rule: webp_scan.induct)
  case (1 e bytes offset)
  from 1(2) show ?case
    apply (subst (asm) webp_scan.simps)
    using 1(1) by (auto simp: Let_def dest: webp_image_bounds split: if_splits bind_splits)
qed

text \<open>
  The size read from an image header is never zero; a JPEG image is at most 65535 pixels wide and high, a WebP
  image at most 2 to the 24.
\<close>

theorem image_size_bounds:
  assumes "image_dimensions bytes format = Some d"
  shows "dm_width d \<noteq> 0 \<and> dm_height d \<noteq> 0 \<and>
    (format = Jpeg \<longrightarrow> unat (dm_width d) < 65536 \<and> unat (dm_height d) < 65536) \<and>
    (format = Webp \<longrightarrow> unat (dm_width d) \<le> 2 ^ 24 \<and> unat (dm_height d) \<le> 2 ^ 24)"
proof (cases format)
  case Png
  with assms png_header_of[of bytes d] show ?thesis by (auto simp: image_dimensions_def)
next
  case Jpeg
  with assms jpeg_scan_bounds[of bytes 2 d] show ?thesis
    by (auto simp: image_dimensions_def jpeg_dimensions_def split: option.splits if_splits)
next
  case Webp
  with assms webp_scan_bounds[of _ bytes 12 d] show ?thesis
    by (auto simp: image_dimensions_def webp_dimensions_def Let_def split: option.splits if_splits)
qed

theorem image_size_bounds_witness:
  "dm_width (the (image_dimensions (png_header 1 1 8 6 0) Png)) \<noteq> 0"
proof -
  have "image_dimensions (png_header 1 1 8 6 0) Png = Some \<lparr>dm_width = 1, dm_height = 1\<rparr>"
    unfolding image_dimensions_def screenshot_format.case
    by (rule png_header_accepted[of _ _ 8 6 0 "[]"]) (simp_all add: valid_depth_def)
  from image_size_bounds[OF this] this show ?thesis by simp
qed

subsection \<open>The size of a JPEG image is read back\<close>

definition be16 :: "nat \<Rightarrow> u8 list" where
  "be16 n = drop 2 (be_bytes (of_nat n))"

lemma length_be16 [simp]: "length (be16 n) = 2"
  by (simp add: be16_def)

lemma be16_pair: "\<exists>a b. be16 n = [a, b]"
  by (simp add: be16_def be_bytes_def)

lemma be_word_be16 [simp]: "n < 65536 \<Longrightarrow> unat (be_word (be16 n)) = n"
proof -
  assume n: "n < 65536"
  have "be_word (be16 n) = take_bit 16 (of_nat n)"
  proof (rule bit_word_eqI)
    fix i assume "i < LENGTH(32)"
    then consider "i < 8" | "8 \<le> i" "i < 16" | "16 \<le> i" by linarith
    then show "bit (be_word (be16 n)) i = bit (take_bit 16 (of_nat n :: u32)) i"
      by cases (auto simp: be_word_def be16_def be_bytes_def bit_simps)
  qed
  moreover have "take_bit 16 n = n" using n by (simp add: take_bit_nat_eq_self)
  moreover have "n < 2 ^ LENGTH(32)" using n by simp
  ultimately show ?thesis by (simp add: unsigned_take_bit_eq unat_of_nat)
qed

text \<open>A segment the code skips: fill bytes, a marker without a meaning for the size, its length and its payload.\<close>

definition plain_marker :: "u8 \<Rightarrow> bool" where
  "plain_marker m \<longleftrightarrow> m \<notin> {0x00, 0x01, 0xd8, 0xd9, 0xda, 0xff} \<and> \<not> (0xd0 \<le> m \<and> m \<le> 0xd7) \<and> \<not> is_jpeg_sof m"

definition jpeg_segment :: "nat \<times> u8 \<times> u8 list \<Rightarrow> u8 list" where
  "jpeg_segment = (\<lambda>(fill, m, payload). replicate (Suc fill) 0xff @ m # be16 (length payload + 2) @ payload)"

definition plain_segment :: "nat \<times> u8 \<times> u8 list \<Rightarrow> bool" where
  "plain_segment = (\<lambda>(fill, m, payload). plain_marker m \<and> length payload < 65534)"

definition jpeg_frame :: "u8 \<Rightarrow> u8 \<Rightarrow> nat \<Rightarrow> nat \<Rightarrow> u8 \<Rightarrow> u8 list \<Rightarrow> u8 list" where
  "jpeg_frame m precision height width components payload =
     [0xff, m] @ be16 (8 + length payload) @ [precision] @ be16 height @ be16 width @ [components] @ payload"

lemma skip_fill_replicate:
  "m \<noteq> 0xff \<Longrightarrow> skip_fill (pre @ replicate k 0xff @ m # rest) (length pre) = length pre + k"
proof (induction k arbitrary: pre)
  case 0
  then show ?case by (subst skip_fill.simps) (simp add: get_byte_def nth_append)
next
  case (Suc k)
  have "skip_fill (pre @ replicate (Suc k) 0xff @ m # rest) (length pre)
      = skip_fill ((pre @ [0xff]) @ replicate k 0xff @ m # rest) (length (pre @ [0xff]))"
    by (subst skip_fill.simps) (simp add: get_byte_def nth_append)
  also have "\<dots> = length (pre @ [0xff]) + k" by (rule Suc.IH[OF Suc.prems])
  finally show ?case by simp
qed

lemma jpeg_scan_segment:
  assumes "plain_segment seg"
  shows "jpeg_scan (pre @ jpeg_segment seg @ rest) (length pre) = jpeg_scan (pre @ jpeg_segment seg @ rest) (length pre + length (jpeg_segment seg))"
proof -
  obtain k m payload where seg: "seg = (k, m, payload)" by (cases seg)
  define bytes where "bytes = pre @ jpeg_segment seg @ rest"
  have shape: "bytes = (pre @ replicate (Suc k) 0xff) @ m # be16 (length payload + 2) @ payload @ rest"
    by (simp add: bytes_def seg jpeg_segment_def)
  have m: "plain_marker m" "m \<noteq> 0xff" "length payload + 2 < 65536" using assms by (auto simp: seg plain_segment_def plain_marker_def)
  have fill: "skip_fill bytes (length pre) = length pre + Suc k"
    using skip_fill_replicate[OF m(2), of pre "Suc k"] by (simp add: shape)
  have at: "get_byte bytes (length pre + Suc k) = Some m" "bytes ! length pre = 0xff" "length pre < length bytes"
    by (simp_all add: shape get_byte_def nth_append)
  have len: "slice bytes (length pre + Suc k + 1) (length pre + Suc k + 3) = Some (be16 (length payload + 2))"
    by (simp add: shape slice_def)
  have size: "length bytes = length pre + Suc k + 3 + length payload + length rest"
    "length (jpeg_segment seg) = Suc k + 3 + length payload"
    by (simp_all add: shape seg jpeg_segment_def)
  have "jpeg_scan bytes (length pre) = jpeg_scan bytes (length pre + Suc k + 1 + (length payload + 2))"
    using m at fill len size(1) by (subst jpeg_scan.simps) (auto simp: Let_def plain_marker_def)
  moreover have "length pre + Suc k + 1 + (length payload + 2) = length pre + length (jpeg_segment seg)" by (simp add: size(2))
  ultimately show ?thesis by (simp only: bytes_def[symmetric])
qed

lemma jpeg_scan_segments:
  "\<forall>seg \<in> set segs. plain_segment seg \<Longrightarrow>
     jpeg_scan (pre @ concat (map jpeg_segment segs) @ rest) (length pre)
     = jpeg_scan (pre @ concat (map jpeg_segment segs) @ rest) (length pre + length (concat (map jpeg_segment segs)))"
proof (induction segs arbitrary: pre)
  case (Cons seg segs)
  from Cons.prems jpeg_scan_segment[of seg pre "concat (map jpeg_segment segs) @ rest"]
    Cons.IH[of "pre @ jpeg_segment seg"]
  show ?case by (simp add: add.assoc)
qed simp

lemma jpeg_scan_frame:
  assumes "is_jpeg_sof m" "precision \<in> {8, 12}" "0 < height" "height < 65536" "0 < width" "width < 65536"
    "components \<noteq> 0" "length payload = unat components * 3"
  shows "jpeg_scan (pre @ jpeg_frame m precision height width components payload @ rest) (length pre)
    = Some \<lparr>dm_width = of_nat width, dm_height = of_nat height\<rparr>"
proof -
  define bytes where "bytes = pre @ jpeg_frame m precision height width components payload @ rest"
  define body where "body = [precision] @ be16 height @ be16 width @ [components] @ payload"
  have shape: "bytes = (pre @ [0xff]) @ m # be16 (8 + length payload) @ body @ rest"
    by (simp add: bytes_def jpeg_frame_def body_def)
  have m: "m \<notin> {0x00, 0x01, 0xd8, 0xd9, 0xff}" "\<not> (0xd0 \<le> m \<and> m \<le> 0xd7)"
    using assms(1) by (auto simp: is_jpeg_sof_def word_le_nat_alt)
  have small: "8 + length payload < 65536" proof -
    have "unat components < 256" using unsigned_less[of components] by simp
    with assms(8) show ?thesis by simp
  qed
  have fill: "skip_fill bytes (length pre) = length pre + 1"
    using skip_fill_replicate[of m pre 1] m(1) by (simp add: shape)
  have at: "get_byte bytes (length pre + 1) = Some m" "bytes ! length pre = 0xff" "length pre < length bytes"
    by (simp_all add: shape get_byte_def nth_append)
  have len: "slice bytes (length pre + 1 + 1) (length pre + 1 + 3) = Some (be16 (8 + length payload))"
    by (simp add: shape slice_def)
  have cut: "take (8 + length payload) (drop (length pre + 1 + 1) bytes) = be16 (8 + length payload) @ body"
  proof -
    have "drop (length pre + 1 + 1) bytes = (be16 (8 + length payload) @ body) @ rest" by (simp add: shape)
    moreover have "length (be16 (8 + length payload) @ body) = 8 + length payload" by (simp add: body_def)
    ultimately show ?thesis by (metis append_eq_conv_conj)
  qed
  obtain h1 h2 where h: "be16 height = [h1, h2]" using be16_pair by blast
  obtain w1 w2 where w: "be16 width = [w1, w2]" using be16_pair by blast
  obtain l1 l2 where l: "be16 (8 + length payload) = [l1, l2]" using be16_pair by blast
  have word: "be_word (be16 n) = of_nat n" if "n < 65536" for n
    using arg_cong[OF be_word_be16[OF that], of "of_nat :: nat \<Rightarrow> u32"] by simp
  have "be_word [h1, h2] = of_nat height" "be_word [w1, w2] = of_nat width"
    using word[OF assms(4)] word[OF assms(6)] by (simp_all add: h w)
  moreover have "(of_nat height :: u32) \<noteq> 0" "(of_nat width :: u32) \<noteq> 0"
    using assms(3-6) by (simp_all add: word_of_nat_eq_0_iff nat_dvd_not_less)
  moreover define buf where "buf = be16 (8 + length payload) @ body"
  then have "buf ! 2 = precision" "buf ! 3 = h1" "buf ! 4 = h2" "buf ! 5 = w1" "buf ! 6 = w2" "buf ! 7 = components"
    by (simp_all add: l body_def h w)
  moreover have "unat components \<noteq> 0" "8 + length payload = 8 + unat components * 3" using assms(7,8) by (simp_all add: unat_eq_0)
  ultimately have sof: "sof_dimensions (be16 (8 + length payload) @ body) (8 + length payload) = Some \<lparr>dm_width = of_nat width, dm_height = of_nat height\<rparr>"
    using assms(2) unfolding buf_def[symmetric] by (simp add: sof_dimensions_def Let_def)
  have size: "length bytes = length pre + 2 + (8 + length payload) + length rest" by (simp add: shape body_def)
  show ?thesis
    unfolding bytes_def[symmetric]
    using m at fill len small cut sof assms(1) size
    by (subst jpeg_scan.simps) (auto simp: Let_def)
qed

text \<open>
  The size of a JPEG file whose frame header follows any number of other segments, with any fill bytes before
  their markers, is read back exactly, whatever comes after the frame header.
\<close>

theorem jpeg_size_read_back:
  assumes "\<forall>seg \<in> set segs. plain_segment seg" "is_jpeg_sof m" "precision \<in> {8, 12}" "0 < height" "height < 65536"
    "0 < width" "width < 65536" "components \<noteq> 0" "length payload = unat components * 3"
  shows "jpeg_dimensions ([0xff, 0xd8] @ concat (map jpeg_segment segs) @ jpeg_frame m precision height width components payload @ rest)
    = Some \<lparr>dm_width = of_nat width, dm_height = of_nat height\<rparr>"
  using jpeg_scan_segments[OF assms(1), of "[0xff, 0xd8]" "jpeg_frame m precision height width components payload @ rest"]
    jpeg_scan_frame[OF assms(2-9), of "[0xff, 0xd8] @ concat (map jpeg_segment segs)" rest]
  by (simp add: jpeg_dimensions_def slice_def numeral_2_eq_2)

theorem jpeg_size_read_back_witness:
  "jpeg_dimensions ([0xff, 0xd8] @ concat (map jpeg_segment [(1, 0xe0, [1, 2])]) @ jpeg_frame 0xc0 8 3 4 1 [1, 0, 0] @ [7])
    = Some \<lparr>dm_width = of_nat 4, dm_height = of_nat 3\<rparr>"
  by (rule jpeg_size_read_back) (simp_all add: plain_segment_def plain_marker_def is_jpeg_sof_def word_le_nat_alt)

end
