(* ===== verification/Geometry.thy ===== *)
theory Geometry
  imports FrameRoutes Floats
begin

text \<open>
  Geometry (\<open>src/src/runtime/geometry.rs\<close>): quads of viewport coordinates, the layout of the element that owns a
  frame, the projection of a quad into its owner, the mapping through a lineage of frames to the top page, and the
  fence that confirms the samples it was computed from. The browser answers through a port; the marker types of the
  coordinate spaces carry no data and are left out.
\<close>

subsection \<open>Points, quads and bounds\<close>

definition tolerance :: f64 where "tolerance = f64_round (1 / 10000000)"
definition scale_tolerance :: f64 where "scale_tolerance = f64_round (1 / 1000000)"
definition machine_epsilon :: f64 where "machine_epsilon = Finite (1 / 4503599627370496)"

definition geometry_error :: "string \<Rightarrow> string \<Rightarrow> rt_error" where
  "geometry_error op m = with_message m (operation_error op Observation)"

definition close_to :: "f64 \<Rightarrow> f64 \<Rightarrow> bool" where
  "close_to l r = f64_le (f64_abs (f64_sub l r)) (f64_mul scale_tolerance (f64_max (f64_max (f64_abs l) (f64_abs r)) (Finite 1)))"

type_synonym point = "f64 \<times> f64"
type_synonym quad = "f64 list"

record extent =
  ex_width :: f64
  ex_height :: f64

record bounds =
  bn_x :: f64
  bn_y :: f64
  bn_width :: f64
  bn_height :: f64

definition point_new :: "string \<Rightarrow> f64 \<Rightarrow> f64 \<Rightarrow> rt_error + point" where
  "point_new op x y =
     (if \<not> f64_is_finite x \<or> \<not> f64_is_finite y then Inl (geometry_error op ''geometry point is non-finite'') else Inr (x, y))"

definition extent_new :: "string \<Rightarrow> f64 \<Rightarrow> f64 \<Rightarrow> rt_error + extent" where
  "extent_new op w h =
     (if \<not> f64_is_finite w \<or> \<not> f64_is_finite h \<or> f64_le w (Finite 0) \<or> f64_le h (Finite 0)
      then Inl (geometry_error op ''geometry aperture has non-finite or non-positive dimensions'')
      else Inr \<lparr>ex_width = w, ex_height = h\<rparr>)"

definition quad_of_slice :: "string \<Rightarrow> f64 list \<Rightarrow> rt_error + quad" where
  "quad_of_slice op cs =
     (if length cs \<noteq> 8 then Inl (geometry_error op ''geometry quad must contain four points'')
      else if \<not> list_all f64_is_finite cs then Inl (geometry_error op ''geometry quad is non-finite'')
      else Inr cs)"

definition quad_points :: "quad \<Rightarrow> point list" where
  "quad_points q = map (\<lambda>i. (q ! (2 * i), q ! (2 * i + 1))) [0, 1, 2, 3]"

definition quad_center :: "string \<Rightarrow> quad \<Rightarrow> rt_error + point" where
  "quad_center op q =
     point_new op
       (f64_div (f64_add (f64_add (f64_add (q ! 0) (q ! 2)) (q ! 4)) (q ! 6)) (Finite 4))
       (f64_div (f64_add (f64_add (f64_add (q ! 1) (q ! 3)) (q ! 5)) (q ! 7)) (Finite 4))"

definition bounds_new :: "string \<Rightarrow> f64 \<Rightarrow> f64 \<Rightarrow> f64 \<Rightarrow> f64 \<Rightarrow> rt_error + bounds" where
  "bounds_new op x y w h =
     (if \<not> list_all f64_is_finite [x, y, w, h] \<or> f64_le w (Finite 0) \<or> f64_le h (Finite 0)
      then Inl (geometry_error op ''geometry bounds are empty or non-finite'')
      else Inr \<lparr>bn_x = x, bn_y = y, bn_width = w, bn_height = h\<rparr>)"

definition least :: "f64 list \<Rightarrow> f64" where
  "least xs = foldl f64_min PosInfinity xs"

definition greatest :: "f64 list \<Rightarrow> f64" where
  "greatest xs = foldl f64_max NegInfinity xs"

definition quad_bounds :: "string \<Rightarrow> quad \<Rightarrow> rt_error + bounds" where
  "quad_bounds op q =
     (let xs = [q ! 0, q ! 2, q ! 4, q ! 6]; ys = [q ! 1, q ! 3, q ! 5, q ! 7]
      in bounds_new op (least xs) (least ys) (f64_sub (greatest xs) (least xs)) (f64_sub (greatest ys) (least ys)))"

definition ensure_axis_aligned :: "string \<Rightarrow> quad \<Rightarrow> rt_error + unit" where
  "ensure_axis_aligned op q =
     ensure (close_to (q ! 1) (q ! 3) \<and> close_to (q ! 2) (q ! 4) \<and> close_to (q ! 5) (q ! 7) \<and> close_to (q ! 6) (q ! 0))
       (geometry_error op ''geometry quad cannot be represented by an axis-aligned clip'')"

subsection \<open>The transform of a frame owner\<close>

definition destination_edge_scale :: "quad \<Rightarrow> f64" where
  "destination_edge_scale q =
     foldl f64_max (Finite 1)
       (concat (map (\<lambda>i. let n = (i + 1) mod 4
                        in [f64_abs (f64_sub (q ! (n * 2)) (q ! (i * 2))), f64_abs (f64_sub (q ! (n * 2 + 1)) (q ! (i * 2 + 1)))])
                 [0, 1, 2, 3]))"

text \<open>The cross product of the edges that meet at the corner after corner \<open>i\<close>.\<close>

definition corner_cross :: "quad \<Rightarrow> nat \<Rightarrow> f64" where
  "corner_cross q i =
     (let n = (i + 1) mod 4; f = (i + 2) mod 4;
          edge_x = f64_sub (q ! (n * 2)) (q ! (i * 2)); edge_y = f64_sub (q ! (n * 2 + 1)) (q ! (i * 2 + 1));
          next_x = f64_sub (q ! (f * 2)) (q ! (n * 2)); next_y = f64_sub (q ! (f * 2 + 1)) (q ! (n * 2 + 1))
      in f64_sub (f64_mul edge_x next_y) (f64_mul edge_y next_x))"

fun check_corners :: "string \<Rightarrow> string \<Rightarrow> f64 \<Rightarrow> f64 list \<Rightarrow> bool option \<Rightarrow> rt_error + unit" where
  "check_corners op name tol [] orientation = Inr ()"
| "check_corners op name tol (c # cs) orientation =
     (if \<not> f64_is_finite c \<or> f64_le (f64_abs c) tol then Inl (geometry_error op (name @ '' is degenerate''))
      else let positive = f64_lt (Finite 0) c
           in if orientation = Some (\<not> positive) then Inl (geometry_error op (name @ '' is non-convex''))
              else check_corners op name tol cs (Some positive))"

definition validate_convex_quad :: "string \<Rightarrow> string \<Rightarrow> quad \<Rightarrow> rt_error + unit" where
  "validate_convex_quad op name q =
     (let s = destination_edge_scale q
      in check_corners op name (f64_mul tolerance (f64_mul s s)) (map (corner_cross q) [0, 1, 2, 3]) None)"

record homography =
  hg_a :: f64
  hg_b :: f64
  hg_c :: f64
  hg_d :: f64
  hg_e :: f64
  hg_f :: f64
  hg_g :: f64
  hg_h :: f64

text \<open>
  The transform that takes the unit square to a quad. It is affine if the quad is a parallelogram; otherwise
  \<open>degenerate\<close> says which determinants are too small to divide by.
\<close>

definition square_transform :: "string \<Rightarrow> string \<Rightarrow> (f64 \<Rightarrow> bool) \<Rightarrow> quad \<Rightarrow> rt_error + homography" where
  "square_transform op message degenerate q =
     (let x0 = q ! 0; y0 = q ! 1; x1 = q ! 2; y1 = q ! 3; x2 = q ! 4; y2 = q ! 5; x3 = q ! 6; y3 = q ! 7;
          dx1 = f64_sub x1 x2; dx2 = f64_sub x3 x2; dx3 = f64_sub (f64_add (f64_sub x0 x1) x2) x3;
          dy1 = f64_sub y1 y2; dy2 = f64_sub y3 y2; dy3 = f64_sub (f64_add (f64_sub y0 y1) y2) y3;
          build = (\<lambda>g h. \<lparr>hg_a = f64_add (f64_sub x1 x0) (f64_mul g x1), hg_b = f64_add (f64_sub x3 x0) (f64_mul h x3), hg_c = x0,
                         hg_d = f64_add (f64_sub y1 y0) (f64_mul g y1), hg_e = f64_add (f64_sub y3 y0) (f64_mul h y3), hg_f = y0,
                         hg_g = g, hg_h = h\<rparr>);
          determinant = f64_sub (f64_mul dx1 dy2) (f64_mul dx2 dy1)
      in if f64_le (f64_abs dx3) machine_epsilon \<and> f64_le (f64_abs dy3) machine_epsilon then Inr (build (Finite 0) (Finite 0))
         else if \<not> f64_is_finite determinant \<or> degenerate determinant then Inl (geometry_error op message)
         else Inr (build (f64_div (f64_sub (f64_mul dx3 dy2) (f64_mul dx2 dy3)) determinant)
                         (f64_div (f64_sub (f64_mul dx1 dy3) (f64_mul dx3 dy1)) determinant)))"

definition denominator :: "homography \<Rightarrow> point \<Rightarrow> f64" where
  "denominator t p = f64_add (f64_add (f64_mul (hg_g t) (fst p)) (f64_mul (hg_h t) (snd p))) (Finite 1)"

text \<open>No denominator is near zero, and all are on the same side of it.\<close>

fun one_sided :: "f64 \<Rightarrow> f64 list \<Rightarrow> bool option \<Rightarrow> bool" where
  "one_sided tol [] side = True"
| "one_sided tol (d # ds) side =
     (if \<not> f64_is_finite d \<or> f64_le (f64_abs d) tol then False
      else let positive = f64_lt (Finite 0) d
           in side \<noteq> Some (\<not> positive) \<and> one_sided tol ds (Some positive))"

definition from_unit_square :: "string \<Rightarrow> quad \<Rightarrow> rt_error + homography" where
  "from_unit_square op q =
     and_then (validate_convex_quad op ''frame owner border box'' q) (\<lambda>_.
     and_then (square_transform op ''frame owner border transform is degenerate''
                 (\<lambda>d. let s = destination_edge_scale q in f64_le (f64_abs d) (f64_mul (f64_mul tolerance s) s)) q) (\<lambda>t.
     if one_sided tolerance (map (denominator t) [(Finite 0, Finite 0), (Finite 1, Finite 0), (Finite 1, Finite 1), (Finite 0, Finite 1)]) None
     then Inr t
     else Inl (geometry_error op ''frame owner border transform crosses the projection horizon'')))"

definition unproject :: "string \<Rightarrow> homography \<Rightarrow> point \<Rightarrow> rt_error + point" where
  "unproject op t p =
     (let x = fst p; y = snd p;
          aa = f64_sub (hg_a t) (f64_mul x (hg_g t)); ab = f64_sub (hg_b t) (f64_mul x (hg_h t));
          ba = f64_sub (hg_d t) (f64_mul y (hg_g t)); bb = f64_sub (hg_e t) (f64_mul y (hg_h t));
          determinant = f64_sub (f64_mul aa bb) (f64_mul ab ba);
          right_x = f64_sub x (hg_c t); right_y = f64_sub y (hg_f t);
          u = f64_div (f64_sub (f64_mul right_x bb) (f64_mul ab right_y)) determinant;
          v = f64_div (f64_sub (f64_mul aa right_y) (f64_mul right_x ba)) determinant
      in if \<not> f64_is_finite determinant \<or> f64_le (f64_abs determinant) machine_epsilon
         then Inl (geometry_error op ''frame owner transform crosses the projection horizon'')
         else if \<not> f64_is_finite u \<or> \<not> f64_is_finite v
         then Inl (geometry_error op ''frame owner inverse projection is non-finite'')
         else Inr (u, v))"

record layout_rect =
  lr_left :: f64
  lr_top :: f64
  lr_right :: f64
  lr_bottom :: f64

definition rect_extent :: "string \<Rightarrow> layout_rect \<Rightarrow> rt_error + extent" where
  "rect_extent op r = extent_new op (f64_sub (lr_right r) (lr_left r)) (f64_sub (lr_bottom r) (lr_top r))"

definition rect_contains :: "layout_rect \<Rightarrow> layout_rect \<Rightarrow> bool" where
  "rect_contains r s \<longleftrightarrow>
     (f64_le (lr_left r) (lr_left s) \<or> close_to (lr_left s) (lr_left r))
     \<and> (f64_le (lr_top r) (lr_top s) \<or> close_to (lr_top s) (lr_top r))
     \<and> (f64_le (lr_right s) (lr_right r) \<or> close_to (lr_right s) (lr_right r))
     \<and> (f64_le (lr_bottom s) (lr_bottom r) \<or> close_to (lr_bottom s) (lr_bottom r))"

definition f64_clamp :: "f64 \<Rightarrow> f64 \<Rightarrow> f64 \<Rightarrow> f64" where
  "f64_clamp lo hi x = (if f64_lt x lo then lo else if f64_lt hi x then hi else x)"

primrec unproject_all :: "string \<Rightarrow> homography \<Rightarrow> extent \<Rightarrow> point list \<Rightarrow> rt_error + f64 list" where
  "unproject_all op t border [] = Inr []"
| "unproject_all op t border (p # ps) =
     and_then (unproject op t p) (\<lambda>uv.
     and_then (unproject_all op t border ps) (\<lambda>rest.
       Inr (f64_mul (fst uv) (ex_width border) # f64_mul (snd uv) (ex_height border) # rest)))"

definition inverse_project_owner_rect :: "string \<Rightarrow> quad \<Rightarrow> homography \<Rightarrow> extent \<Rightarrow> string \<Rightarrow> rt_error + layout_rect" where
  "inverse_project_owner_rect op q t border name =
     and_then (validate_convex_quad op name q) (\<lambda>_.
     and_then (unproject_all op t border (quad_points q)) (\<lambda>l.
       if \<not> close_to (l ! 1) (l ! 3) \<or> \<not> close_to (l ! 2) (l ! 4) \<or> \<not> close_to (l ! 5) (l ! 7) \<or> \<not> close_to (l ! 6) (l ! 0)
       then Inl (geometry_error op (name @ '' is not an axis-aligned rectangle in border-local layout space''))
       else
         let left = f64_div (f64_add (l ! 0) (l ! 6)) (Finite 2); top = f64_div (f64_add (l ! 1) (l ! 3)) (Finite 2);
             right = f64_div (f64_add (l ! 2) (l ! 4)) (Finite 2); bottom = f64_div (f64_add (l ! 5) (l ! 7)) (Finite 2);
             w = ex_width border; h = ex_height border
         in if f64_lt left (Finite 0) \<and> \<not> close_to left (Finite 0) \<or> f64_lt top (Finite 0) \<and> \<not> close_to top (Finite 0)
               \<or> f64_lt w right \<and> \<not> close_to right w \<or> f64_lt h bottom \<and> \<not> close_to bottom h
            then Inl (geometry_error op (name @ '' is outside the canonical border box''))
            else let r = \<lparr>lr_left = f64_clamp (Finite 0) w left, lr_top = f64_clamp (Finite 0) h top,
                          lr_right = f64_clamp (Finite 0) w right, lr_bottom = f64_clamp (Finite 0) h bottom\<rparr>
                 in and_then (rect_extent op r) (\<lambda>_. Inr r)))"

record box_model =
  bm_content :: "f64 list"
  bm_padding :: "f64 list"
  bm_border :: "f64 list"
  bm_width :: int
  bm_height :: int

record owner_sample =
  os_owner :: quad
  os_padding :: quad
  os_border :: quad
  os_border_layout :: extent
  os_padding_layout :: layout_rect
  os_content_layout :: layout_rect
  os_layout :: extent

definition sample_owner_model :: "string \<Rightarrow> box_model \<Rightarrow> rt_error + owner_sample" where
  "sample_owner_model op model =
     and_then (extent_new op (f64_round (of_int (bm_width model))) (f64_round (of_int (bm_height model)))) (\<lambda>border_layout.
     and_then (quad_of_slice op (bm_content model)) (\<lambda>owner.
     and_then (quad_of_slice op (bm_padding model)) (\<lambda>padding.
     and_then (quad_of_slice op (bm_border model)) (\<lambda>border.
     and_then (from_unit_square op border) (\<lambda>t.
     and_then (inverse_project_owner_rect op padding t border_layout ''frame owner padding box'') (\<lambda>padding_layout.
     and_then (inverse_project_owner_rect op owner t border_layout ''frame owner content box'') (\<lambda>content_layout.
       if \<not> rect_contains padding_layout content_layout
       then Inl (geometry_error op ''frame owner content box is not embedded within its padding box'')
       else and_then (rect_extent op content_layout) (\<lambda>layout.
         Inr \<lparr>os_owner = owner, os_padding = padding, os_border = border, os_border_layout = border_layout,
              os_padding_layout = padding_layout, os_content_layout = content_layout, os_layout = layout\<rparr>))))))))"

subsection \<open>Viewports\<close>

record viewport_payload =
  vp_inner_width :: f64
  vp_inner_height :: f64
  vp_scroll_x :: f64
  vp_scroll_y :: f64
  vp_offset_left :: f64
  vp_offset_top :: f64
  vp_page_left :: f64
  vp_page_top :: f64
  vp_width :: f64
  vp_height :: f64
  vp_scale :: f64

record viewport_sample =
  vs_payload :: viewport_payload
  vs_aperture :: extent
  vs_context :: main_world_context

text \<open>Equality of samples compares the identity of the context and the payload only.\<close>

definition same_sample :: "viewport_sample \<Rightarrow> viewport_sample \<Rightarrow> bool" where
  "same_sample a b \<longleftrightarrow> mw_unique_id (vs_context a) = mw_unique_id (vs_context b) \<and> vs_payload a = vs_payload b"

record top_sample =
  ts_aperture :: extent
  ts_page_x :: f64
  ts_page_y :: f64
  ts_offset_x :: f64
  ts_offset_y :: f64
  ts_scale :: f64

definition validate_frame_viewport_payload ::
  "string \<Rightarrow> viewport_payload \<Rightarrow> main_world_context \<Rightarrow> rt_error + viewport_sample" where
  "validate_frame_viewport_payload op p c =
     (if \<not> list_all f64_is_finite
           [vp_inner_width p, vp_inner_height p, vp_scroll_x p, vp_scroll_y p, vp_offset_left p, vp_offset_top p,
            vp_page_left p, vp_page_top p, vp_width p, vp_height p, vp_scale p]
      then Inl (geometry_error op ''frame viewport facts were non-finite'')
      else if f64_lt scale_tolerance (f64_abs (f64_sub (vp_scale p) (Finite 1)))
      then Inl (geometry_error op ''pinch-zoomed frame geometry is unsupported'')
      else
        and_then (extent_new op (vp_inner_width p) (vp_inner_height p)) (\<lambda>aperture.
        and_then (extent_new op (vp_width p) (vp_height p)) (\<lambda>visual.
          if f64_lt (ex_width aperture) (ex_width visual) \<and> \<not> close_to (ex_width visual) (ex_width aperture)
             \<or> f64_lt (ex_height aperture) (ex_height visual) \<and> \<not> close_to (ex_height visual) (ex_height aperture)
          then Inl (geometry_error op ''frame visual viewport extends beyond its layout viewport'')
          else if f64_lt tolerance (f64_abs (vp_offset_left p)) \<or> f64_lt tolerance (f64_abs (vp_offset_top p))
          then Inl (geometry_error op ''offset visual viewports are unsupported for routed frame geometry'')
          else Inr \<lparr>vs_payload = p, vs_aperture = aperture, vs_context = c\<rparr>)))"

text \<open>The CSS visual viewport of the layout metrics.\<close>

record visual_viewport =
  vv_client_width :: f64
  vv_client_height :: f64
  vv_page_x :: f64
  vv_page_y :: f64
  vv_offset_x :: f64
  vv_offset_y :: f64
  vv_scale :: f64

definition sample_top_viewport :: "string \<Rightarrow> visual_viewport \<Rightarrow> rt_error + top_sample" where
  "sample_top_viewport op v =
     (if \<not> list_all f64_is_finite
           [vv_client_width v, vv_client_height v, vv_page_x v, vv_page_y v, vv_offset_x v, vv_offset_y v, vv_scale v]
      then Inl (geometry_error op ''top-level visual viewport is non-finite'')
      else if f64_lt scale_tolerance (f64_abs (f64_sub (vv_scale v) (Finite 1)))
      then Inl (geometry_error op ''pinch-zoomed top-level geometry is unsupported'')
      else and_then (extent_new op (vv_client_width v) (vv_client_height v)) (\<lambda>aperture.
        Inr \<lparr>ts_aperture = aperture, ts_page_x = vv_page_x v, ts_page_y = vv_page_y v,
             ts_offset_x = vv_offset_x v, ts_offset_y = vv_offset_y v, ts_scale = vv_scale v\<rparr>))"

text \<open>
  What the browser and the frame store answer while one mapping or one confirmation runs. An evaluation may raise an
  exception, return nothing, or return facts that do not have the expected fields (\<open>None\<close> inside).
\<close>

datatype facts_reply = FactsRaised | FactsMissing | FactsReturned "viewport_payload option"

record geometry_port =
  gp_lineage :: "rt_error + unit"
  gp_route :: "locator_route \<Rightarrow> rt_error + unit"
  gp_owner :: "locator_route \<Rightarrow> locator_route \<Rightarrow> string + box_model"
  gp_context :: "locator_route \<Rightarrow> rt_error + main_world_context"
  gp_context_valid :: "locator_route \<Rightarrow> main_world_context \<Rightarrow> rt_error + unit"
  gp_facts :: "locator_route \<Rightarrow> main_world_context \<Rightarrow> string + facts_reply"
  gp_metrics :: "string + visual_viewport"

definition from_browser :: "string \<Rightarrow> string + 'a \<Rightarrow> rt_error + 'a" where
  "from_browser op r = map_sum (cdp_operation id op Observation) id r"

definition read_owner :: "geometry_port \<Rightarrow> string \<Rightarrow> locator_route \<Rightarrow> locator_route \<Rightarrow> rt_error + owner_sample" where
  "read_owner port op child parent = and_then (from_browser op (gp_owner port child parent)) (sample_owner_model op)"

definition read_frame_viewport :: "geometry_port \<Rightarrow> string \<Rightarrow> locator_route \<Rightarrow> rt_error + viewport_sample" where
  "read_frame_viewport port op r =
     and_then (gp_context port r) (\<lambda>c.
     and_then (gp_context_valid port r c) (\<lambda>_.
     and_then (from_browser op (gp_facts port r c)) (\<lambda>reply.
       case reply of
         FactsRaised \<Rightarrow> Inl (geometry_error op ''reading frame viewport facts raised a JavaScript exception'')
       | FactsMissing \<Rightarrow> Inl (geometry_error op ''frame viewport facts were not returned by value'')
       | FactsReturned None \<Rightarrow> Inl (geometry_error op ''frame viewport facts were malformed'')
       | FactsReturned (Some p) \<Rightarrow>
           and_then (validate_frame_viewport_payload op p c) (\<lambda>sample.
           and_then (gp_context_valid port r (vs_context sample)) (\<lambda>_. Inr sample)))))"

definition read_top_viewport :: "geometry_port \<Rightarrow> string \<Rightarrow> rt_error + top_sample" where
  "read_top_viewport port op = and_then (from_browser op (gp_metrics port)) (sample_top_viewport op)"

subsection \<open>Containment and projection\<close>

definition ensure_source_matches_owner :: "string \<Rightarrow> viewport_sample \<Rightarrow> extent \<Rightarrow> rt_error + unit" where
  "ensure_source_matches_owner op s owner =
     ensure (close_to (ex_width (vs_aperture s)) (ex_width owner) \<and> close_to (ex_height (vs_aperture s)) (ex_height owner))
       (geometry_error op ''frame viewport dimensions do not match the owner content aperture'')"

definition ensure_quad_within_frame_viewport :: "string \<Rightarrow> quad \<Rightarrow> viewport_sample \<Rightarrow> rt_error + unit" where
  "ensure_quad_within_frame_viewport op q s =
     (let left = vp_offset_left (vs_payload s); top = vp_offset_top (vs_payload s);
          right = f64_add left (vp_width (vs_payload s)); bottom = f64_add top (vp_height (vs_payload s))
      in ensure (list_all (\<lambda>(x, y). f64_le (f64_sub left tolerance) x \<and> f64_le (f64_sub top tolerance) y
             \<and> f64_le x (f64_add right tolerance) \<and> f64_le y (f64_add bottom tolerance)) (quad_points q))
           (geometry_error op ''geometry quad is outside the frame visual aperture''))"

definition within_extent :: "extent \<Rightarrow> point \<Rightarrow> bool" where
  "within_extent ap p \<longleftrightarrow>
     f64_le (f64_neg tolerance) (fst p) \<and> f64_le (f64_neg tolerance) (snd p)
     \<and> f64_le (fst p) (f64_add (ex_width ap) tolerance) \<and> f64_le (snd p) (f64_add (ex_height ap) tolerance)"

definition ensure_quad_within_size :: "string \<Rightarrow> quad \<Rightarrow> extent \<Rightarrow> rt_error + unit" where
  "ensure_quad_within_size op q ap =
     ensure (list_all (within_extent ap) (quad_points q))
       (geometry_error op ''geometry quad is outside the top-level visual aperture'')"

text \<open>The orientation of the corners that are not straight: the last cross product, if all have one sign.\<close>

fun corner_orientation :: "f64 list \<Rightarrow> f64 \<Rightarrow> f64 option" where
  "corner_orientation [] orientation = Some orientation"
| "corner_orientation (c # cs) orientation =
     (if f64_lt tolerance (f64_abs c) then
        if orientation \<noteq> Finite 0 \<and> f64_lt (Finite 0) orientation \<noteq> f64_lt (Finite 0) c then None
        else corner_orientation cs c
      else corner_orientation cs orientation)"

definition edge_cross :: "quad \<Rightarrow> point \<Rightarrow> nat \<Rightarrow> f64" where
  "edge_cross q p i =
     (let s = quad_points q ! i; e = quad_points q ! ((i + 1) mod 4)
      in f64_sub (f64_mul (f64_sub (fst e) (fst s)) (f64_sub (snd p) (snd s)))
           (f64_mul (f64_sub (snd e) (snd s)) (f64_sub (fst p) (fst s))))"

definition ensure_quad_within_quad :: "string \<Rightarrow> quad \<Rightarrow> quad \<Rightarrow> rt_error + unit" where
  "ensure_quad_within_quad op q aperture =
     (case corner_orientation (map (corner_cross aperture) [0, 1, 2, 3]) (Finite 0) of
        None \<Rightarrow> Inl (geometry_error op ''frame owner content aperture is non-convex'')
      | Some orientation \<Rightarrow>
          if orientation = Finite 0 then Inl (geometry_error op ''frame owner content aperture is degenerate'')
          else ensure (list_all (\<lambda>p. list_all (\<lambda>i. f64_le (f64_neg tolerance) (f64_mul (edge_cross aperture p i) orientation))
                         [0, 1, 2, 3]) (quad_points q))
                 (geometry_error op ''geometry quad is outside its frame owner content aperture''))"

definition project_quad :: "string \<Rightarrow> quad \<Rightarrow> quad \<Rightarrow> extent \<Rightarrow> rt_error + quad" where
  "project_quad op q destination source =
     and_then (square_transform op ''frame owner transform is degenerate'' (\<lambda>d. f64_le (f64_abs d) machine_epsilon) destination) (\<lambda>t.
       let ps = map (\<lambda>(x, y). (f64_div x (ex_width source), f64_div y (ex_height source))) (quad_points q)
       in if \<not> one_sided machine_epsilon (map (denominator t) ps) None
          then Inl (geometry_error op ''frame owner transform crosses the projection horizon'')
          else quad_of_slice op (concat (map (\<lambda>p.
                 [f64_div (f64_add (f64_add (f64_mul (hg_a t) (fst p)) (f64_mul (hg_b t) (snd p))) (hg_c t)) (denominator t p),
                  f64_div (f64_add (f64_add (f64_mul (hg_d t) (fst p)) (f64_mul (hg_e t) (snd p))) (hg_f t)) (denominator t p)]) ps)))"

subsection \<open>Mapping through a lineage, and the fence\<close>

record boundary_sample =
  bs_child :: locator_route
  bs_parent :: locator_route
  bs_owner :: owner_sample
  bs_source :: "viewport_sample option"

record geometry_fence =
  gf_routes :: "locator_route list"
  gf_boundaries :: "boundary_sample list"
  gf_top :: "top_sample option"

text \<open>
  One boundary of a session: the quad is in the coordinates of the child's session. Frames of one session share
  them; otherwise the quad is projected into the owner.
\<close>

definition project_boundary ::
  "geometry_port \<Rightarrow> string \<Rightarrow> locator_route \<Rightarrow> owner_sample \<Rightarrow> quad \<Rightarrow> rt_error + quad \<times> viewport_sample" where
  "project_boundary port op child owner q =
     and_then (read_frame_viewport port op child) (\<lambda>viewport.
     and_then (ensure_source_matches_owner op viewport (os_layout owner)) (\<lambda>_.
     and_then (ensure_quad_within_frame_viewport op q viewport) (\<lambda>_.
     and_then (project_quad op q (os_owner owner) (vs_aperture viewport)) (\<lambda>projected.
     and_then (ensure_quad_within_quad op projected (os_owner owner)) (\<lambda>_. Inr (projected, viewport))))))"

fun map_boundaries ::
  "geometry_port \<Rightarrow> string \<Rightarrow> locator_route list \<Rightarrow> quad \<Rightarrow> rt_error + quad \<times> boundary_sample list" where
  "map_boundaries port op (child # parent # rest) q =
     and_then (read_owner port op child parent) (\<lambda>owner.
     and_then
       (if lo_session_id child = lo_session_id parent
        then and_then (ensure_quad_within_quad op q (os_owner owner)) (\<lambda>_. Inr (q, None))
        else and_then (project_boundary port op child owner q) (\<lambda>(projected, viewport). Inr (projected, Some viewport))) (\<lambda>(q', source).
     and_then (map_boundaries port op (parent # rest) q') (\<lambda>(mapped, boundaries).
       Inr (mapped, \<lparr>bs_child = child, bs_parent = parent, bs_owner = owner, bs_source = source\<rparr> # boundaries))))"
| "map_boundaries port op _ q = Inr (q, [])"

definition to_page :: "top_sample \<Rightarrow> quad \<Rightarrow> f64 list" where
  "to_page t q = concat (map (\<lambda>(x, y). [f64_add x (ts_page_x t), f64_add y (ts_page_y t)]) (quad_points q))"

definition map_session_quad_to_top_page ::
  "geometry_port \<Rightarrow> string \<Rightarrow> locator_route list \<Rightarrow> quad \<Rightarrow> rt_error + quad \<times> geometry_fence" where
  "map_session_quad_to_top_page port op routes source =
     and_then (map_boundaries port op routes source) (\<lambda>(mapped, boundaries).
     and_then (read_top_viewport port op) (\<lambda>top.
     and_then (ensure_quad_within_size op mapped (ts_aperture top)) (\<lambda>_.
     and_then (quad_of_slice op (to_page top mapped)) (\<lambda>q.
       Inr (q, \<lparr>gf_routes = routes, gf_boundaries = boundaries, gf_top = Some top\<rparr>)))))"

definition map_top_viewport_to_top_page ::
  "geometry_port \<Rightarrow> string \<Rightarrow> locator_route list \<Rightarrow> rt_error + quad \<times> geometry_fence" where
  "map_top_viewport_to_top_page port op routes =
     and_then (read_top_viewport port op) (\<lambda>top.
       let x = ts_page_x top; y = ts_page_y top; r = f64_add x (ex_width (ts_aperture top)); b = f64_add y (ex_height (ts_aperture top))
       in and_then (quad_of_slice op [x, y, r, y, r, b, x, b]) (\<lambda>q.
            Inr (q, \<lparr>gf_routes = routes, gf_boundaries = [], gf_top = Some top\<rparr>)))"

definition map_frame_owner_to_top_page ::
  "geometry_port \<Rightarrow> string \<Rightarrow> locator_route list \<Rightarrow> rt_error + quad \<times> geometry_fence" where
  "map_frame_owner_to_top_page port op routes =
     (case routes of
        [] \<Rightarrow> Inl (geometry_error op ''frame route is empty'')
      | [_] \<Rightarrow> Inl (geometry_error op ''embedded frame route has no parent'')
      | child # parent # rest \<Rightarrow>
          and_then (read_owner port op child parent) (\<lambda>owner.
          and_then (map_session_quad_to_top_page port op (parent # rest) (os_owner owner)) (\<lambda>(q, fence).
            Inr (q, fence\<lparr>gf_routes := routes,
                    gf_boundaries := \<lparr>bs_child = child, bs_parent = parent, bs_owner = owner, bs_source = None\<rparr> # gf_boundaries fence\<rparr>))))"

definition map_frame_viewport_to_top_page ::
  "geometry_port \<Rightarrow> string \<Rightarrow> locator_route list \<Rightarrow> rt_error + quad \<times> geometry_fence" where
  "map_frame_viewport_to_top_page port op routes =
     (if length routes = 1 then map_top_viewport_to_top_page port op routes else map_frame_owner_to_top_page port op routes)"

text \<open>A point of a frame in the coordinates of its session: it stops at the first frame of another session.\<close>

fun point_boundaries ::
  "geometry_port \<Rightarrow> string \<Rightarrow> locator_route list \<Rightarrow> quad \<Rightarrow> rt_error + quad \<times> boundary_sample list" where
  "point_boundaries port op (child # parent # rest) q =
     (if lo_session_id child \<noteq> lo_session_id parent then Inr (q, [])
      else
        and_then (read_owner port op child parent) (\<lambda>owner.
        and_then (project_boundary port op child owner q) (\<lambda>(q', viewport).
        and_then (point_boundaries port op (parent # rest) q') (\<lambda>(mapped, boundaries).
          Inr (mapped, \<lparr>bs_child = child, bs_parent = parent, bs_owner = owner, bs_source = Some viewport\<rparr> # boundaries)))))"
| "point_boundaries port op _ q = Inr (q, [])"

definition map_frame_point_to_session ::
  "geometry_port \<Rightarrow> string \<Rightarrow> locator_route list \<Rightarrow> point \<Rightarrow> rt_error + point \<times> geometry_fence" where
  "map_frame_point_to_session port op routes p =
     and_then (quad_of_slice op [fst p, snd p, fst p, snd p, fst p, snd p, fst p, snd p]) (\<lambda>q.
     and_then (point_boundaries port op routes q) (\<lambda>(mapped, boundaries).
     and_then (quad_center op mapped) (\<lambda>c.
       Inr (c, \<lparr>gf_routes = routes, gf_boundaries = boundaries, gf_top = None\<rparr>))))"

definition confirm_boundary :: "geometry_port \<Rightarrow> string \<Rightarrow> boundary_sample \<Rightarrow> rt_error + unit" where
  "confirm_boundary port op b =
     and_then (gp_route port (bs_child b)) (\<lambda>_.
     and_then (gp_route port (bs_parent b)) (\<lambda>_.
     and_then (read_owner port op (bs_child b) (bs_parent b)) (\<lambda>owner.
     and_then (ensure (owner = bs_owner b) (geometry_error op ''frame owner geometry changed during the operation'')) (\<lambda>_.
       case bs_source b of
         None \<Rightarrow> Inr ()
       | Some expected \<Rightarrow>
           and_then (gp_context_valid port (bs_child b) (vs_context expected)) (\<lambda>_.
           and_then (read_frame_viewport port op (bs_child b)) (\<lambda>current.
             ensure (same_sample current expected)
               (geometry_error op ''frame viewport or execution context changed during the operation'')))))))"

primrec confirm_boundaries :: "geometry_port \<Rightarrow> string \<Rightarrow> boundary_sample list \<Rightarrow> rt_error + unit" where
  "confirm_boundaries port op [] = Inr ()"
| "confirm_boundaries port op (b # bs) = and_then (confirm_boundary port op b) (\<lambda>_. confirm_boundaries port op bs)"

definition validate_fence :: "geometry_port \<Rightarrow> string \<Rightarrow> geometry_fence \<Rightarrow> rt_error + unit" where
  "validate_fence port op fence =
     and_then (gp_lineage port) (\<lambda>_.
     and_then (confirm_boundaries port op (gf_boundaries fence)) (\<lambda>_.
       case gf_top fence of
         None \<Rightarrow> Inr ()
       | Some expected \<Rightarrow>
           and_then (read_top_viewport port op) (\<lambda>current.
             ensure (current = expected) (geometry_error op ''top-level visual viewport changed during the operation''))))"

subsection \<open>The name of an operation decides only the text of its errors\<close>

lemma and_then_InrE:
  assumes "and_then r f = Inr y"
  obtains x where "r = Inr x" "f x = Inr y"
  using assms by (auto simp: and_then_Inr)

lemma extent_new_Inr:
  "extent_new op w h = Inr e \<longleftrightarrow>
     f64_is_finite w \<and> f64_is_finite h \<and> \<not> f64_le w (Finite 0) \<and> \<not> f64_le h (Finite 0) \<and> e = \<lparr>ex_width = w, ex_height = h\<rparr>"
  by (auto simp: extent_new_def)

lemma quad_of_slice_Inr: "quad_of_slice op cs = Inr q \<longleftrightarrow> length cs = 8 \<and> list_all f64_is_finite cs \<and> q = cs"
  by (auto simp: quad_of_slice_def)

declare check_corners.simps [simp del] one_sided.simps [simp del]

lemma check_corners_op: "check_corners op name tol cs s = Inr u \<Longrightarrow> check_corners op' name tol cs s = Inr u"
  by (induction op name tol cs s rule: check_corners.induct) (auto simp: check_corners.simps Let_def split: if_splits)

lemma convex_op: "validate_convex_quad op name q = Inr u \<Longrightarrow> validate_convex_quad op' name q = Inr u"
  unfolding validate_convex_quad_def Let_def by (rule check_corners_op)

lemma square_transform_op: "square_transform op m d q = Inr t \<Longrightarrow> square_transform op' m d q = Inr t"
  by (auto simp: square_transform_def Let_def split: if_splits)

lemma from_unit_square_op: "from_unit_square op q = Inr t \<Longrightarrow> from_unit_square op' q = Inr t"
  by (auto simp: from_unit_square_def and_then_Inr split: if_splits dest: convex_op square_transform_op [where op' = op'])

lemma unproject_op: "unproject op t p = Inr uv \<Longrightarrow> unproject op' t p = Inr uv"
  by (auto simp: unproject_def Let_def split: if_splits)

lemma unproject_all_op: "unproject_all op t b ps = Inr l \<Longrightarrow> unproject_all op' t b ps = Inr l"
proof (induction ps arbitrary: l)
  case Nil
  then show ?case by simp
next
  case (Cons p ps)
  from Cons.prems obtain uv rest where "unproject op t p = Inr uv" "unproject_all op t b ps = Inr rest"
    and l: "l = f64_mul (fst uv) (ex_width b) # f64_mul (snd uv) (ex_height b) # rest"
    by (auto simp: and_then_Inr)
  then have "unproject op' t p = Inr uv" "unproject_all op' t b ps = Inr rest"
    by (auto intro: unproject_op Cons.IH)
  then show ?case by (simp add: and_then_def l)
qed

lemma inverse_project_op:
  assumes "inverse_project_owner_rect op q t b name = Inr r"
  shows "inverse_project_owner_rect op' q t b name = Inr r"
proof -
  obtain u l where "validate_convex_quad op name q = Inr u" "unproject_all op t b (quad_points q) = Inr l"
    using assms unfolding inverse_project_owner_rect_def by (elim and_then_InrE)
  then have "validate_convex_quad op name q = Inr u \<and> validate_convex_quad op' name q = Inr u"
    "unproject_all op t b (quad_points q) = Inr l \<and> unproject_all op' t b (quad_points q) = Inr l"
    by (auto intro: convex_op unproject_all_op)
  then show ?thesis
    using assms
    by (simp add: inverse_project_owner_rect_def and_then_Inr rect_extent_def extent_new_Inr Let_def split: if_split_asm)
qed

lemma sample_owner_model_op:
  assumes "sample_owner_model op m = Inr s"
  shows "sample_owner_model op' m = Inr s"
  using assms unfolding sample_owner_model_def rect_extent_def and_then_Inr extent_new_Inr quad_of_slice_Inr
  by (elim exE conjE, intro exI conjI)
     (auto simp: and_then_Inr extent_new_Inr intro: from_unit_square_op inverse_project_op split: if_splits)

lemma from_browser_Inr [simp]: "from_browser op r = Inr x \<longleftrightarrow> r = Inr x"
  by (cases r) (simp_all add: from_browser_def)

lemma read_owner_op: "read_owner port op c p = Inr s \<Longrightarrow> read_owner port op' c p = Inr s"
  by (auto simp: read_owner_def and_then_Inr intro: sample_owner_model_op)

lemma viewport_payload_op:
  "validate_frame_viewport_payload op p c = Inr s \<Longrightarrow> validate_frame_viewport_payload op' p c = Inr s"
  by (simp add: validate_frame_viewport_payload_def and_then_Inr extent_new_Inr split: if_split_asm)

lemma read_frame_viewport_op:
  assumes "read_frame_viewport port op r = Inr s"
  shows "read_frame_viewport port op' r = Inr s"
  using assms viewport_payload_op [of op _ _ s op']
  by (auto simp: read_frame_viewport_def and_then_Inr split: facts_reply.splits option.splits)

lemma read_top_viewport_op: "read_top_viewport port op = Inr s \<Longrightarrow> read_top_viewport port op' = Inr s"
  by (auto simp: read_top_viewport_def and_then_Inr sample_top_viewport_def extent_new_Inr split: if_split_asm)

subsection \<open>What a confirmed fence means\<close>

lemma payload_aperture:
  "validate_frame_viewport_payload op p c = Inr s \<Longrightarrow>
     vs_payload s = p \<and> vs_aperture s = \<lparr>ex_width = vp_inner_width p, ex_height = vp_inner_height p\<rparr>"
  by (auto simp: validate_frame_viewport_payload_def and_then_Inr extent_new_Inr split: if_split_asm)

lemma viewport_aperture:
  assumes "read_frame_viewport port op r = Inr s"
  shows "vs_aperture s = \<lparr>ex_width = vp_inner_width (vs_payload s), ex_height = vp_inner_height (vs_payload s)\<rparr>"
proof -
  obtain c reply where "(case reply of
         FactsRaised \<Rightarrow> Inl (geometry_error op ''reading frame viewport facts raised a JavaScript exception'')
       | FactsMissing \<Rightarrow> Inl (geometry_error op ''frame viewport facts were not returned by value'')
       | FactsReturned None \<Rightarrow> Inl (geometry_error op ''frame viewport facts were malformed'')
       | FactsReturned (Some p) \<Rightarrow>
           and_then (validate_frame_viewport_payload op p c) (\<lambda>sample.
           and_then (gp_context_valid port r (vs_context sample)) (\<lambda>_. Inr sample))) = Inr s"
    using assms unfolding read_frame_viewport_def by (elim and_then_InrE)
  then obtain p where "validate_frame_viewport_payload op p c = Inr s"
    by (auto simp: and_then_Inr split: facts_reply.split_asm option.split_asm)
  from payload_aperture [OF this] show ?thesis by simp
qed

lemma same_sample_projects:
  assumes "project_boundary port op child owner q = Inr (q', s)" "read_frame_viewport port' op child = Inr s'" "same_sample s' s"
  shows "project_boundary port' op child owner q = Inr (q', s')"
proof -
  have s: "read_frame_viewport port op child = Inr s" using assms(1) by (auto simp: project_boundary_def and_then_Inr)
  have "vs_payload s' = vs_payload s" using assms(3) by (simp add: same_sample_def)
  then have "vs_aperture s' = vs_aperture s" using viewport_aperture [OF s] viewport_aperture [OF assms(2)] by simp
  with \<open>vs_payload s' = vs_payload s\<close> show ?thesis
    using assms(1,2)
    by (auto simp: project_boundary_def and_then_Inr ensure_source_matches_owner_def ensure_quad_within_frame_viewport_def Let_def)
qed

lemma confirm_boundary_facts:
  assumes "confirm_boundary port op' b = Inr ()"
  shows "read_owner port op (bs_child b) (bs_parent b) = Inr (bs_owner b)"
    and "bs_source b = Some s \<Longrightarrow> \<exists>s'. read_frame_viewport port op (bs_child b) = Inr s' \<and> same_sample s' s"
  using assms
  by (auto simp: confirm_boundary_def and_then_Inr ensure_Inr intro: read_owner_op read_frame_viewport_op)

text \<open>The boundaries of a mapping, with the samples that it read at them.\<close>

definition spans :: "locator_route list \<Rightarrow> boundary_sample list \<Rightarrow> bool" where
  "spans routes bs \<longleftrightarrow> map (\<lambda>b. (bs_child b, bs_parent b)) bs = zip routes (tl routes)"

lemma map_boundaries_spans: "map_boundaries port op routes q = Inr (q', bs) \<Longrightarrow> spans routes bs"
  by (induction port op routes q arbitrary: q' bs rule: map_boundaries.induct)
     (auto simp: and_then_Inr spans_def split: prod.splits)

lemma confirmed_boundaries_repeat:
  assumes "map_boundaries port op routes q = Inr (q', bs)" "confirm_boundaries port' op' bs = Inr ()"
  shows "\<exists>bs'. map_boundaries port' op routes q = Inr (q', bs')"
  using assms
proof (induction port op routes q arbitrary: q' bs rule: map_boundaries.induct)
  case (1 port op child parent rest q)
  let ?step = "\<lambda>port owner. if lo_session_id child = lo_session_id parent
        then and_then (ensure_quad_within_quad op q (os_owner owner)) (\<lambda>_. Inr (q, None))
        else and_then (project_boundary port op child owner q) (\<lambda>(projected, viewport). Inr (projected, Some viewport))"
  obtain owner q1 source bs1 where o: "read_owner port op child parent = Inr owner"
    and st: "?step port owner = Inr (q1, source)" and rest: "map_boundaries port op (parent # rest) q1 = Inr (q', bs1)"
    and bs: "bs = \<lparr>bs_child = child, bs_parent = parent, bs_owner = owner, bs_source = source\<rparr> # bs1"
    using "1.prems"(1) by (auto simp: and_then_Inr split: prod.splits)
  have c: "confirm_boundary port' op' (hd bs) = Inr ()" and cs: "confirm_boundaries port' op' bs1 = Inr ()"
    using "1.prems"(2) by (auto simp: bs and_then_Inr)
  have o': "read_owner port' op child parent = Inr owner"
    using confirm_boundary_facts(1) [OF c, of op] by (simp add: bs)
  have "\<exists>source'. ?step port' owner = Inr (q1, source')"
  proof (cases "lo_session_id child = lo_session_id parent")
    case True
    then show ?thesis using st by auto
  next
    case False
    then obtain v where v: "project_boundary port op child owner q = Inr (q1, v)" and "source = Some v"
      using st by (auto simp: and_then_Inr split: prod.splits)
    then obtain v' where "read_frame_viewport port' op child = Inr v'" "same_sample v' v"
      using confirm_boundary_facts(2) [OF c, of v op] by (auto simp: bs)
    from same_sample_projects [OF v this] show ?thesis using False by (simp add: and_then_def)
  qed
  then obtain source' where st': "?step port' owner = Inr (q1, source')" by blast
  obtain bs1' where "map_boundaries port' op (parent # rest) q1 = Inr (q', bs1')"
    using "1.IH" [OF rest cs] by blast
  then show ?case using o' st' by (simp add: and_then_def)
qed auto

lemma validate_fence_facts:
  assumes "validate_fence port op' fence = Inr ()"
  shows "confirm_boundaries port op' (gf_boundaries fence) = Inr ()" "gp_lineage port = Inr ()"
    and "gf_top fence = Some t \<Longrightarrow> read_top_viewport port op = Inr t"
  using assms by (auto simp: validate_fence_def and_then_Inr ensure_Inr intro: read_top_viewport_op split: option.splits)

lemma session_quad_repeats:
  assumes "map_session_quad_to_top_page port op routes source = Inr (q, fence)"
    "confirm_boundaries port' op' (gf_boundaries fence) = Inr ()" "\<And>t. gf_top fence = Some t \<Longrightarrow> read_top_viewport port' op = Inr t"
  shows "\<exists>fence'. map_session_quad_to_top_page port' op routes source = Inr (q, fence')"
proof -
  obtain mapped t where m: "map_boundaries port op routes source = Inr (mapped, gf_boundaries fence)"
    and t: "gf_top fence = Some t" and rest: "ensure_quad_within_size op mapped (ts_aperture t) = Inr ()"
      "quad_of_slice op (to_page t mapped) = Inr q"
    using assms(1) by (auto simp: map_session_quad_to_top_page_def and_then_Inr split: prod.splits)
  obtain bs' where "map_boundaries port' op routes source = Inr (mapped, bs')"
    using confirmed_boundaries_repeat [OF m assms(2)] by blast
  then show ?thesis
    using assms(3) [OF t] rest by (simp add: map_session_quad_to_top_page_def and_then_def)
qed

lemma session_quad_within:
  assumes "map_session_quad_to_top_page port op routes source = Inr (q, fence)"
  shows "\<exists>t mapped. gf_top fence = Some t \<and> gf_routes fence = routes \<and> spans routes (gf_boundaries fence)
    \<and> list_all (within_extent (ts_aperture t)) (quad_points mapped) \<and> q = to_page t mapped \<and> list_all f64_is_finite q"
  using assms map_boundaries_spans [of port op routes source]
  by (auto simp: map_session_quad_to_top_page_def and_then_Inr ensure_quad_within_size_def ensure_Inr quad_of_slice_Inr
      split: prod.splits)

lemma top_viewport_repeats:
  assumes "map_top_viewport_to_top_page port op routes = Inr (q, fence)"
    "\<And>t. gf_top fence = Some t \<Longrightarrow> read_top_viewport port' op = Inr t"
  shows "\<exists>fence'. map_top_viewport_to_top_page port' op routes = Inr (q, fence')" "gf_routes fence = routes"
    "gf_top fence \<noteq> None" "gf_boundaries fence = []" "list_all f64_is_finite q"
  using assms by (auto simp: map_top_viewport_to_top_page_def and_then_Inr quad_of_slice_Inr Let_def)

lemma frame_owner_repeats:
  assumes m: "map_frame_owner_to_top_page port op routes = Inr (q, fence)"
    and c: "confirm_boundaries port' op' (gf_boundaries fence) = Inr ()"
    and t: "\<And>t. gf_top fence = Some t \<Longrightarrow> read_top_viewport port' op = Inr t"
  shows "(\<exists>fence'. map_frame_owner_to_top_page port' op routes = Inr (q, fence')) \<and> gf_routes fence = routes
    \<and> gf_top fence \<noteq> None \<and> spans routes (gf_boundaries fence) \<and> list_all f64_is_finite q"
proof -
  obtain child parent rest owner inner where r: "routes = child # parent # rest"
    and o: "read_owner port op child parent = Inr owner"
    and i: "map_session_quad_to_top_page port op (parent # rest) (os_owner owner) = Inr (q, inner)"
    and f: "fence = inner\<lparr>gf_routes := routes,
      gf_boundaries := \<lparr>bs_child = child, bs_parent = parent, bs_owner = owner, bs_source = None\<rparr> # gf_boundaries inner\<rparr>"
    using m by (auto simp: map_frame_owner_to_top_page_def and_then_Inr split: list.splits prod.splits)
  have b: "confirm_boundary port' op' \<lparr>bs_child = child, bs_parent = parent, bs_owner = owner, bs_source = None\<rparr> = Inr ()"
    and c': "confirm_boundaries port' op' (gf_boundaries inner) = Inr ()"
    using c by (auto simp: f and_then_Inr)
  have o': "read_owner port' op child parent = Inr owner" using confirm_boundary_facts(1) [OF b, of op] by simp
  obtain inner' where "map_session_quad_to_top_page port' op (parent # rest) (os_owner owner) = Inr (q, inner')"
    using session_quad_repeats [OF i c'] t by (auto simp: f)
  then have "\<exists>fence'. map_frame_owner_to_top_page port' op routes = Inr (q, fence')"
    using o' by (simp add: r map_frame_owner_to_top_page_def and_then_def)
  then show ?thesis using session_quad_within [OF i] by (auto simp: f r spans_def)
qed

lemma frame_viewport_repeats:
  assumes "map_frame_viewport_to_top_page port op routes = Inr (q, fence)"
    "confirm_boundaries port' op' (gf_boundaries fence) = Inr ()" "\<And>t. gf_top fence = Some t \<Longrightarrow> read_top_viewport port' op = Inr t"
  shows "(\<exists>fence'. map_frame_viewport_to_top_page port' op routes = Inr (q, fence')) \<and> gf_routes fence = routes
    \<and> gf_top fence \<noteq> None \<and> spans routes (gf_boundaries fence) \<and> list_all f64_is_finite q"
proof (cases "length routes = 1")
  case True
  then have "spans routes []" by (cases routes) (auto simp: spans_def)
  then show ?thesis
    using assms(1) top_viewport_repeats [of port op routes q fence port'] assms(3) True
    by (auto simp: map_frame_viewport_to_top_page_def)
next
  case False
  then show ?thesis
    using assms frame_owner_repeats [of port op routes q fence port' op'] by (simp add: map_frame_viewport_to_top_page_def)
qed

text \<open>
  C13: A geometry fence that is confirmed proves the mapping current: mapping the same region again, with what the
  page says at the time of the confirmation, gives the same quad. The fence holds a sample for every boundary of
  the lineage and one of the top viewport; the quad is finite, and of a mapped region every corner was within the
  visible part of the page.
\<close>

theorem confirmed_geometry_is_current:
  assumes "validate_fence port' op' fence = Inr ()"
  shows "(map_session_quad_to_top_page port op routes source = Inr (q, fence) \<longrightarrow>
      (\<exists>fence'. map_session_quad_to_top_page port' op routes source = Inr (q, fence')) \<and> gf_routes fence = routes
      \<and> spans routes (gf_boundaries fence) \<and> list_all f64_is_finite q
      \<and> (\<exists>t mapped. gf_top fence = Some t \<and> q = to_page t mapped
           \<and> list_all (within_extent (ts_aperture t)) (quad_points mapped)))
    \<and> (map_frame_viewport_to_top_page port op routes = Inr (q, fence) \<longrightarrow>
      (\<exists>fence'. map_frame_viewport_to_top_page port' op routes = Inr (q, fence')) \<and> gf_routes fence = routes
      \<and> spans routes (gf_boundaries fence) \<and> list_all f64_is_finite q \<and> gf_top fence \<noteq> None)"
proof (intro conjI impI)
  note confirmed = validate_fence_facts(1,3) [OF assms]
  assume m: "map_session_quad_to_top_page port op routes source = Inr (q, fence)"
  show "\<exists>fence'. map_session_quad_to_top_page port' op routes source = Inr (q, fence')"
    using session_quad_repeats [OF m confirmed] .
  show "gf_routes fence = routes" "spans routes (gf_boundaries fence)" "list_all f64_is_finite q"
    "\<exists>t mapped. gf_top fence = Some t \<and> q = to_page t mapped \<and> list_all (within_extent (ts_aperture t)) (quad_points mapped)"
    using session_quad_within [OF m] by auto
next
  assume "map_frame_viewport_to_top_page port op routes = Inr (q, fence)"
  note frame = frame_viewport_repeats [OF this validate_fence_facts(1,3) [OF assms]]
  show "\<exists>fence'. map_frame_viewport_to_top_page port' op routes = Inr (q, fence')" "gf_routes fence = routes"
    "spans routes (gf_boundaries fence)" "list_all f64_is_finite q" "gf_top fence \<noteq> None"
    using frame by blast+
qed

subsection \<open>A frame in a page, computed\<close>

lemma tolerance_value [simp]: "tolerance = Finite (944473296573929 / 9444732965739290427392)"
  using f64_round_near [of "- 24" "1 / 10000000" 7555786372591432] by (simp add: tolerance_def power_int_minus)

lemma scale_tolerance_value [simp]: "scale_tolerance = Finite (4722366482869645 / 4722366482869645213696)"
  using f64_round_near [of "- 20" "1 / 1000000" 4722366482869645] by (simp add: scale_tolerance_def power_int_minus)

definition sample_route :: "string \<Rightarrow> locator_route" where
  "sample_route f = \<lparr>lo_page_generation = 1, lo_document_epoch = 1, lo_frame_id = f, lo_session_id = ''s'', lo_loader_id = ''l''\<rparr>"

definition example_rect :: "rat \<Rightarrow> rat \<Rightarrow> rat \<Rightarrow> rat \<Rightarrow> f64 list" where
  "example_rect l t r b = map Finite [l, t, r, t, r, b, l, b]"

definition example_box :: box_model where
  "example_box = \<lparr>bm_content = example_rect 2 2 6 6, bm_padding = example_rect 2 2 6 6, bm_border = example_rect 2 2 6 6,
     bm_width = 4, bm_height = 4\<rparr>"

definition example_answers :: geometry_port where
  "example_answers =
     \<lparr>gp_lineage = Inr (), gp_route = (\<lambda>_. Inr ()), gp_owner = (\<lambda>_ _. Inr example_box),
      gp_context = (\<lambda>_. Inr \<lparr>mw_id = 1, mw_unique_id = ''u''\<rparr>), gp_context_valid = (\<lambda>_ _. Inr ()),
      gp_facts = (\<lambda>_ _. Inr FactsMissing),
      gp_metrics = Inr \<lparr>vv_client_width = Finite 8, vv_client_height = Finite 8, vv_page_x = Finite 0, vv_page_y = Finite 3,
        vv_offset_x = Finite 0, vv_offset_y = Finite 0, vv_scale = Finite 1\<rparr>\<rparr>"

lemma example_scale_eq: "destination_edge_scale (example_rect 2 2 6 6) = Finite 4"
  by (simp add: destination_edge_scale_def example_rect_def f64_sub_def f64_max_def Let_def)

lemma example_crosses_eq: "map (corner_cross (example_rect 2 2 6 6)) [0, 1, 2, 3] = [Finite 16, Finite 16, Finite 16, Finite 16]"
  by (simp add: corner_cross_def example_rect_def f64_sub_def Let_def)

lemma example_convex_eq: "validate_convex_quad op name (example_rect 2 2 6 6) = Inr ()"
  unfolding validate_convex_quad_def example_crosses_eq example_scale_eq
  using f64_round_near [of "- 20" "944473296573929 / 590295810358705651712" 7555786372591432] 
  by (simp add: check_corners.simps Let_def power_int_minus)
lemma wide_tolerances:
  "f64_round (944473296573929 / 2361183241434822606848) = Finite (944473296573929 / 2361183241434822606848)"
  "f64_round (4722366482869645 / 4722366482869645213696) = Finite (4722366482869645 / 4722366482869645213696)"
  "f64_round (4722366482869645 / 1180591620717411303424) = Finite (4722366482869645 / 1180591620717411303424)"
  using f64_round_near [of "- 22" "944473296573929 / 2361183241434822606848" 7555786372591432]
    f64_round_near [of "- 20" "4722366482869645 / 4722366482869645213696" 4722366482869645]
    f64_round_near [of "- 18" "4722366482869645 / 1180591620717411303424" 4722366482869645]
  by (simp_all add: power_int_minus)

definition example_transform :: homography where
  "example_transform = \<lparr>hg_a = Finite 4, hg_b = Finite 0, hg_c = Finite 2, hg_d = Finite 0, hg_e = Finite 4, hg_f = Finite 2,
     hg_g = Finite 0, hg_h = Finite 0\<rparr>"

lemma example_transform_eq: "from_unit_square op (example_rect 2 2 6 6) = Inr example_transform"
  unfolding from_unit_square_def example_convex_eq
  by (simp add: and_then_def square_transform_def example_rect_def f64_sub_def Let_def machine_epsilon_def one_sided.simps
      denominator_def example_transform_def)

lemma example_unprojected: "inverse_project_owner_rect op (example_rect 2 2 6 6) example_transform \<lparr>ex_width = Finite 4, ex_height = Finite 4\<rparr> name
    = Inr \<lparr>lr_left = Finite 0, lr_top = Finite 0, lr_right = Finite 4, lr_bottom = Finite 4\<rparr>"
proof -
  have u: "unproject op example_transform (Finite 2, Finite 2) = Inr (Finite 0, Finite 0)"
    "unproject op example_transform (Finite 6, Finite 2) = Inr (Finite 1, Finite 0)"
    "unproject op example_transform (Finite 6, Finite 6) = Inr (Finite 1, Finite 1)"
    "unproject op example_transform (Finite 2, Finite 6) = Inr (Finite 0, Finite 1)"
    by (simp_all add: unproject_def example_transform_def f64_sub_def Let_def machine_epsilon_def)
  have p: "quad_points (example_rect 2 2 6 6) = [(Finite 2, Finite 2), (Finite 6, Finite 2), (Finite 6, Finite 6), (Finite 2, Finite 6)]"
    by (simp add: quad_points_def example_rect_def)
  have c: "close_to (Finite 0) (Finite 0)" "close_to (Finite 4) (Finite 4)"
    by (simp_all add: close_to_def f64_sub_def f64_max_def wide_tolerances)
  show ?thesis
    unfolding inverse_project_owner_rect_def example_convex_eq p
    by (simp add: and_then_def u c Let_def rect_extent_def extent_new_def f64_sub_def f64_clamp_def)
qed

definition example_owner :: owner_sample where
  "example_owner = \<lparr>os_owner = example_rect 2 2 6 6, os_padding = example_rect 2 2 6 6, os_border = example_rect 2 2 6 6,
     os_border_layout = \<lparr>ex_width = Finite 4, ex_height = Finite 4\<rparr>,
     os_padding_layout = \<lparr>lr_left = Finite 0, lr_top = Finite 0, lr_right = Finite 4, lr_bottom = Finite 4\<rparr>,
     os_content_layout = \<lparr>lr_left = Finite 0, lr_top = Finite 0, lr_right = Finite 4, lr_bottom = Finite 4\<rparr>,
     os_layout = \<lparr>ex_width = Finite 4, ex_height = Finite 4\<rparr>\<rparr>"

lemma example_owner_read: "read_owner example_answers op c p = Inr example_owner"
proof -
  have "quad_of_slice op (example_rect 2 2 6 6) = Inr (example_rect 2 2 6 6)" by (simp add: quad_of_slice_def example_rect_def)
  then show ?thesis
    by (simp add: read_owner_def example_answers_def from_browser_def and_then_def sample_owner_model_def example_box_def
        extent_new_def example_transform_eq example_unprojected rect_contains_def rect_extent_def f64_sub_def example_owner_def)
qed

lemma example_inside_eq: "ensure_quad_within_quad op (example_rect 3 3 4 4) (example_rect 2 2 6 6) = Inr ()"
proof -
  have "corner_orientation [Finite 16, Finite 16, Finite 16, Finite 16] (Finite 0) = Some (Finite 16)" by simp
  moreover have "quad_points (example_rect 2 2 6 6) = [(Finite 2, Finite 2), (Finite 6, Finite 2), (Finite 6, Finite 6), (Finite 2, Finite 6)]"
    "quad_points (example_rect 3 3 4 4) = [(Finite 3, Finite 3), (Finite 4, Finite 3), (Finite 4, Finite 4), (Finite 3, Finite 4)]"
    by (simp_all add: quad_points_def example_rect_def)
  ultimately show ?thesis
    unfolding ensure_quad_within_quad_def example_crosses_eq by (simp add: ensure_def edge_cross_def f64_sub_def Let_def)
qed

definition example_top :: top_sample where
  "example_top = \<lparr>ts_aperture = \<lparr>ex_width = Finite 8, ex_height = Finite 8\<rparr>, ts_page_x = Finite 0, ts_page_y = Finite 3,
     ts_offset_x = Finite 0, ts_offset_y = Finite 0, ts_scale = Finite 1\<rparr>"

lemma example_top_viewport_eq: "read_top_viewport example_answers op = Inr example_top"
  by (simp add: read_top_viewport_def example_answers_def from_browser_def and_then_def sample_top_viewport_def extent_new_def
      f64_sub_def example_top_def)

lemma example_mapping:
  "map_session_quad_to_top_page example_answers op [sample_route ''c'', sample_route ''m''] (example_rect 3 3 4 4)
     = Inr (example_rect 3 6 4 7,
         \<lparr>gf_routes = [sample_route ''c'', sample_route ''m''],
          gf_boundaries = [\<lparr>bs_child = sample_route ''c'', bs_parent = sample_route ''m'', bs_owner = example_owner, bs_source = None\<rparr>],
          gf_top = Some example_top\<rparr>)"
proof -
  have b: "map_boundaries example_answers op [sample_route ''c'', sample_route ''m''] (example_rect 3 3 4 4)
      = Inr (example_rect 3 3 4 4,
          [\<lparr>bs_child = sample_route ''c'', bs_parent = sample_route ''m'', bs_owner = example_owner, bs_source = None\<rparr>])"
    using example_inside_eq by (simp add: example_owner_read and_then_def sample_route_def example_owner_def)
  have p: "quad_points (example_rect 3 3 4 4) = [(Finite 3, Finite 3), (Finite 4, Finite 3), (Finite 4, Finite 4), (Finite 3, Finite 4)]"
    by (simp add: quad_points_def example_rect_def)
  have "f64_add (Finite 8) tolerance = Finite (4503599683665491 / 562949953421312)"
    using f64_round_near [of 3 "8 + 944473296573929 / 9444732965739290427392" 4503599683665491] by (simp add: power_int_minus)
  then have "ensure_quad_within_size op (example_rect 3 3 4 4) (ts_aperture example_top) = Inr ()"
    by (simp add: ensure_quad_within_size_def p within_extent_def example_top_def ensure_def del: f64_add.simps)
  moreover have "quad_of_slice op (to_page example_top (example_rect 3 3 4 4)) = Inr (example_rect 3 6 4 7)"
    unfolding to_page_def p by (simp add: example_top_def quad_of_slice_def example_rect_def)
  ultimately show ?thesis by (simp add: map_session_quad_to_top_page_def b example_top_viewport_eq and_then_def del: map_boundaries.simps)
qed

theorem confirmed_geometry_is_current_witness:
  "\<exists>q fence fence'. map_session_quad_to_top_page example_answers ''map'' [sample_route ''c'', sample_route ''m''] (example_rect 3 3 4 4)
       = Inr (q, fence) \<and> length (gf_boundaries fence) = 1
     \<and> map_session_quad_to_top_page (example_answers\<lparr>gp_facts := \<lambda>_ _. Inr FactsRaised\<rparr>) ''map''
         [sample_route ''c'', sample_route ''m''] (example_rect 3 3 4 4) = Inr (q, fence')"
proof -
  let ?later = "example_answers\<lparr>gp_facts := \<lambda>_ _. Inr FactsRaised\<rparr>"
  have o: "read_owner ?later op c p = Inr example_owner" for op c p using example_owner_read [of op c p] by (simp add: read_owner_def)
  have t: "read_top_viewport ?later op = Inr example_top" for op using example_top_viewport_eq [of op] by (simp add: read_top_viewport_def)
  note m = example_mapping [of "''map''"]
  define fence where "fence = snd (projr (map_session_quad_to_top_page example_answers ''map''
    [sample_route ''c'', sample_route ''m''] (example_rect 3 3 4 4)))"
  have f: "map_session_quad_to_top_page example_answers ''map'' [sample_route ''c'', sample_route ''m''] (example_rect 3 3 4 4)
      = Inr (example_rect 3 6 4 7, fence)" by (simp add: fence_def m)
  have p: "gp_lineage example_answers = Inr ()" "gp_route example_answers r = Inr ()" for r by (simp_all add: example_answers_def)
  have "validate_fence ?later ''confirm'' fence = Inr ()"
    by (simp only: fence_def m validate_fence_def) (simp add: confirm_boundary_def and_then_def p o t ensure_def)
  then obtain fence' where "map_session_quad_to_top_page ?later ''map'' [sample_route ''c'', sample_route ''m''] (example_rect 3 3 4 4)
      = Inr (example_rect 3 6 4 7, fence')"
    using confirmed_geometry_is_current [of ?later "''confirm''" fence example_answers "''map''" _ "example_rect 3 3 4 4"] f by blast
  moreover have "length (gf_boundaries fence) = 1" by (simp add: fence_def m)
  ultimately show ?thesis using f by blast
qed

end
