(* ===== verification/Captures.thy ===== *)
theory Captures
  imports Artifacts Capability Geometry
begin

text \<open>
  Producing and saving artifacts (\<open>src/src/runtime/artifact.rs\<close>): screenshots of a page, a locator and a frame,
  PDF and HTML, the limits on what is retained, and the atomic replacement of a file. The browser, the mapping of
  a region to the page (\<open>runtime/geometry.rs\<close>) and the file system answer through ports; the commands that were sent
  and the changes of files are recorded. The decoder of the \<open>base64\<close> crate is the argument \<open>decode\<close>.
\<close>

subsection \<open>Options, errors and limits\<close>

record screenshot_options =
  so_format :: screenshot_format
  so_quality :: "u8 option"
  so_full_page :: bool
  so_max_bytes :: nat

record pdf_options =
  pdf_background :: bool
  pdf_landscape :: bool
  pdf_max_bytes :: nat

record artifact_clip =
  cl_x :: f64
  cl_y :: f64
  cl_width :: f64
  cl_height :: f64

record artifact_bytes =
  ab_bytes :: "u8 list"
  ab_mime :: string
  ab_dimensions :: "dimensions option"
  ab_encoded :: nat
  ab_clip :: "artifact_clip option"
  ab_full_page :: bool

definition new_artifact :: "u8 list \<Rightarrow> string \<Rightarrow> dimensions option \<Rightarrow> artifact_clip option \<Rightarrow> bool \<Rightarrow> artifact_bytes" where
  "new_artifact bytes mime dims clip full =
     \<lparr>ab_bytes = bytes, ab_mime = mime, ab_dimensions = dims, ab_encoded = length bytes, ab_clip = clip, ab_full_page = full\<rparr>"

definition screenshot_mime :: "screenshot_format \<Rightarrow> string" where
  "screenshot_mime f = (case f of Png \<Rightarrow> ''image/png'' | Jpeg \<Rightarrow> ''image/jpeg'' | Webp \<Rightarrow> ''image/webp'')"

definition artifact_error :: "artifact_failure \<Rightarrow> string \<Rightarrow> rt_error" where
  "artifact_error f m = with_artifact_failure f (with_message m (operation_error ''produce artifact'' Observation))"

definition artifact_geometry_error :: "rt_error \<Rightarrow> rt_error" where
  "artifact_geometry_error e =
     with_artifact_failure
       (if str_contains ''outside'' (be_message e) \<or> str_contains ''non-positive'' (be_message e) \<or> str_contains ''degenerate'' (be_message e)
        then EmptyRegion else InvalidData) e"

definition completed :: "rt_error + 'a \<Rightarrow> rt_error + 'a" where
  "completed r = map_sum (with_action_completion Completed) id r"

definition validate_screenshot_options :: "screenshot_options \<Rightarrow> bool \<Rightarrow> rt_error + unit" where
  "validate_screenshot_options opts allow_full_page =
     (if so_max_bytes opts = 0 then Inl (artifact_error InvalidOptions ''screenshot max_bytes must be greater than zero'')
      else if so_full_page opts \<and> \<not> allow_full_page
      then Inl (artifact_error InvalidOptions ''full_page is only valid for Page screenshots'')
      else if so_format opts = Png \<and> so_quality opts \<noteq> None
      then Inl (artifact_error InvalidOptions ''quality is only valid for JPEG and WebP screenshots'')
      else if (case so_quality opts of None \<Rightarrow> False | Some q \<Rightarrow> q > 100)
      then Inl (artifact_error InvalidOptions ''screenshot quality must be between 0 and 100'')
      else Inr ())"

definition checked_clip :: "f64 \<Rightarrow> f64 \<Rightarrow> f64 \<Rightarrow> f64 \<Rightarrow> rt_error + artifact_clip" where
  "checked_clip x y width height =
     (if \<not> list_all f64_is_finite [x, y, width, height] \<or> f64_le width (Finite 0) \<or> f64_le height (Finite 0)
      then Inl (artifact_error EmptyRegion ''screenshot region is empty or non-finite'')
      else if f64_lt (Finite 268435456) (f64_mul width height)
      then Inl (artifact_error RegionTooLarge ''screenshot region exceeds 268,435,456 CSS pixels'')
      else Inr \<lparr>cl_x = x, cl_y = y, cl_width = width, cl_height = height\<rparr>)"

definition decode_bounded :: "(string \<Rightarrow> u8 list option) \<Rightarrow> string \<Rightarrow> nat \<Rightarrow> string \<Rightarrow> rt_error + u8 list" where
  "decode_bounded decode encoded max_bytes kind =
     (let early = (case standard_base64_decoded_len encoded of
                     Some n \<Rightarrow> if n > max_bytes then Some n else None | None \<Rightarrow> None)
      in case early of
           Some n \<Rightarrow> Inl (artifact_error (TooLarge max_bytes n) (kind @ '' base64 payload exceeds max_bytes''))
         | None \<Rightarrow>
             (case decode encoded of
                None \<Rightarrow> Inl (artifact_error InvalidData (''Chrome returned invalid base64 for '' @ kind))
              | Some bytes \<Rightarrow>
                  if length bytes > max_bytes
                  then Inl (artifact_error (TooLarge max_bytes (length bytes)) (kind @ '' exceeds max_bytes''))
                  else Inr bytes))"

text \<open>The fence around a capture: the document before it is still the document after it.\<close>

definition fence_document :: "string \<Rightarrow> lifecycle_snapshot \<Rightarrow> lifecycle_snapshot \<Rightarrow> rt_error + unit" where
  "fence_document op expected current =
     (case Lifecycle.validate_document expected current of
        None \<Rightarrow> Inr ()
      | Some reason \<Rightarrow> Inl (with_action_completion Completed (with_message
          (''artifact document changed during capture: ''
             @ (case reason of PageReplaced \<Rightarrow> ''PageReplaced'' | DocumentChanged \<Rightarrow> ''DocumentChanged''))
          (operation_error op Confirmation))))"

subsection \<open>Capturing\<close>

datatype capture_command =
  LayoutMetrics | ElementBox | Screenshot screenshot_format "u8 option" "artifact_clip option" | PrintPdf bool bool | ReadHtml

text \<open>A result with the commands that were sent for it.\<close>

type_synonym 'a produced = "(rt_error + 'a) \<times> capture_command list"

definition then_produce :: "rt_error + 'a \<Rightarrow> ('a \<Rightarrow> 'b produced) \<Rightarrow> 'b produced" where
  "then_produce r f = (case r of Inl e \<Rightarrow> (Inl e, []) | Inr x \<Rightarrow> f x)"

definition after_sent :: "capture_command \<Rightarrow> 'a produced \<Rightarrow> 'a produced" where
  "after_sent c r = (fst r, c # snd r)"

definition capture_screenshot ::
  "(string \<Rightarrow> u8 list option) \<Rightarrow> string + string \<Rightarrow> screenshot_options \<Rightarrow> artifact_clip option \<Rightarrow> artifact_bytes produced" where
  "capture_screenshot decode reply opts clip =
     after_sent (Screenshot (so_format opts) (so_quality opts) clip)
       (case reply of
          Inl e \<Rightarrow> (Inl (with_action_completion Unknown (cdp_operation id ''capture screenshot'' Dispatch e)), [])
        | Inr encoded \<Rightarrow>
            then_produce (completed (decode_bounded decode encoded (so_max_bytes opts) ''screenshot'')) (\<lambda>bytes.
              case image_dimensions bytes (so_format opts) of
                None \<Rightarrow> (Inl (with_action_completion Completed
                          (artifact_error InvalidData ''Chrome returned an unrecognized or mismatched screenshot header'')), [])
              | Some d \<Rightarrow> (Inr (new_artifact bytes (screenshot_mime (so_format opts)) (Some d) clip (so_full_page opts)), [])))"

record page_port =
  pp_admit :: "rt_error + unit"
  pp_before :: lifecycle_snapshot
  pp_metrics :: "string + (f64 \<times> f64 \<times> f64 \<times> f64)"
  pp_reply :: "string + string"
  pp_after :: lifecycle_snapshot

text \<open>A step that runs only if the one before succeeded; the commands of both are sent.\<close>

definition produce_then :: "'a produced \<Rightarrow> ('a \<Rightarrow> 'b produced) \<Rightarrow> 'b produced" where
  "produce_then r f = (case r of (Inl e, cs) \<Rightarrow> (Inl e, cs) | (Inr x, cs) \<Rightarrow> (fst (f x), cs @ snd (f x)))"

definition full_page_clip :: "page_port \<Rightarrow> screenshot_options \<Rightarrow> artifact_clip option produced" where
  "full_page_clip port opts =
     (if so_full_page opts
      then after_sent LayoutMetrics
        (case pp_metrics port of
           Inl e \<Rightarrow> (Inl (cdp_operation id ''read page layout for screenshot'' Observation e), [])
         | Inr (x, y, w, h) \<Rightarrow> (map_sum id Some (checked_clip x y w h), []))
      else (Inr None, []))"

definition screenshot_page ::
  "(string \<Rightarrow> u8 list option) \<Rightarrow> page_port \<Rightarrow> screenshot_options \<Rightarrow> artifact_bytes produced" where
  "screenshot_page decode port opts =
     then_produce (validate_screenshot_options opts True) (\<lambda>_.
     then_produce (pp_admit port) (\<lambda>_.
     produce_then (full_page_clip port opts) (\<lambda>clip.
     produce_then (capture_screenshot decode (pp_reply port) opts clip) (\<lambda>a.
     then_produce (fence_document ''capture page screenshot'' (pp_before port) (pp_after port)) (\<lambda>_.
       (Inr a, []))))))"

text \<open>
  The region of a locator or a frame. \<open>rq_prepare\<close> stands for the resolution of the locator with its frame
  store and route, and for the geometry of a frame; \<open>rq_box\<close> is the border of the element, asked for a locator
  only. \<open>rq_map\<close> is the mapping to the top page and \<open>rq_fence\<close> and \<open>rq_fence_after\<close> the confirmations of its
  fence, before the capture and after it (theory \<open>Geometry\<close>).
\<close>

record region_port =
  rq_admit :: "rt_error + unit"
  rq_prepare :: "rt_error + unit"
  rq_box :: "string + f64 list"
  rq_map :: "rt_error + quad"
  rq_fence :: "rt_error + unit"
  rq_reply :: "string + string"
  rq_fence_after :: "rt_error + unit"
  rq_scope_after :: "rt_error + unit"

definition geometry_step :: "rt_error + 'a \<Rightarrow> rt_error + 'a" where
  "geometry_step r = map_sum artifact_geometry_error id r"

definition capture_region ::
  "string \<Rightarrow> (string \<Rightarrow> u8 list option) \<Rightarrow> region_port \<Rightarrow> screenshot_options \<Rightarrow> artifact_bytes produced" where
  "capture_region op decode port opts =
     then_produce (geometry_step (rq_map port)) (\<lambda>mapped.
     then_produce (geometry_step (rq_fence port)) (\<lambda>_.
     then_produce (geometry_step (ensure_axis_aligned op mapped)) (\<lambda>_.
     then_produce (geometry_step (quad_bounds op mapped)) (\<lambda>b.
     then_produce (checked_clip (bn_x b) (bn_y b) (bn_width b) (bn_height b)) (\<lambda>clip.
     produce_then (capture_screenshot decode (rq_reply port) opts (Some clip)) (\<lambda>a.
     then_produce (completed (geometry_step (rq_fence_after port))) (\<lambda>_.
     then_produce (completed (rq_scope_after port)) (\<lambda>_.
       (Inr a, [])))))))))"

definition screenshot_locator ::
  "(string \<Rightarrow> u8 list option) \<Rightarrow> region_port \<Rightarrow> screenshot_options \<Rightarrow> artifact_bytes produced" where
  "screenshot_locator decode port opts =
     then_produce (validate_screenshot_options opts False) (\<lambda>_.
     then_produce (rq_admit port) (\<lambda>_.
     then_produce (rq_prepare port) (\<lambda>_.
     after_sent ElementBox
       (case rq_box port of
          Inl e \<Rightarrow> (Inl (cdp_operation id ''read element box for screenshot'' Observation e), [])
        | Inr border \<Rightarrow>
            then_produce (geometry_step (quad_of_slice ''map locator screenshot geometry'' border)) (\<lambda>_.
              capture_region ''prepare locator screenshot clip'' decode port opts)))))"

definition screenshot_frame ::
  "(string \<Rightarrow> u8 list option) \<Rightarrow> region_port \<Rightarrow> screenshot_options \<Rightarrow> artifact_bytes produced" where
  "screenshot_frame decode port opts =
     then_produce (validate_screenshot_options opts False) (\<lambda>_.
     then_produce (rq_admit port) (\<lambda>_.
     then_produce (rq_prepare port) (\<lambda>_.
     capture_region ''prepare frame screenshot clip'' decode port opts)))"

text \<open>
  An element without an area has no region, but the error of \<open>Bounds::new\<close> is not one of those that are taken for
  an empty region: the failure reported is \<open>InvalidData\<close>.
\<close>

lemma empty_bounds_are_invalid_data:
  assumes "quad_bounds op q = Inl e"
  shows "be_details (artifact_geometry_error e) = Some (ArtifactDetail InvalidData)"
proof -
  have "e = geometry_error op ''geometry bounds are empty or non-finite''"
    using assms by (auto simp: quad_bounds_def bounds_new_def Let_def split: if_splits)
  then show ?thesis
    by (simp add: artifact_geometry_error_def geometry_error_def with_message_def with_artifact_failure_def with_details_def
        str_contains_def)
qed

subsection \<open>PDF and HTML\<close>

definition pdf_signature :: "u8 list" where
  "pdf_signature = [0x25, 0x50, 0x44, 0x46, 0x2d]"

text \<open>An unavailable status without a reason would end in a panic; the table of capabilities has none.\<close>

definition pdf_supported :: "capability_status \<Rightarrow> rt_error + unit" where
  "pdf_supported status =
     (if cs_availability status = Unavailable
      then Inl (configuration_error ''print page PDF'' (UnsupportedCapability (cs_capability status) (the (cs_reason status))))
      else Inr ())"

definition print_pdf_operation :: string where
  "print_pdf_operation =
     ''print page PDF (requires a target where Chrome supports Page.printToPDF, normally headless Chrome)''"

definition print_pdf ::
  "(string \<Rightarrow> u8 list option) \<Rightarrow> capability_set \<Rightarrow> page_port \<Rightarrow> pdf_options \<Rightarrow> artifact_bytes produced" where
  "print_pdf decode capabilities port opts =
     (if pdf_max_bytes opts = 0 then (Inl (artifact_error InvalidOptions ''PDF max_bytes must be greater than zero''), [])
      else
        then_produce (pdf_supported (status_in capabilities Pdf)) (\<lambda>_.
        then_produce (pp_admit port) (\<lambda>_.
        after_sent (PrintPdf (pdf_background opts) (pdf_landscape opts))
          (case pp_reply port of
             Inl e \<Rightarrow> (Inl (with_action_completion Unknown (cdp_operation id print_pdf_operation Dispatch e)), [])
           | Inr encoded \<Rightarrow>
               then_produce (completed (decode_bounded decode encoded (pdf_max_bytes opts) ''PDF'')) (\<lambda>bytes.
               if take 5 bytes \<noteq> pdf_signature
               then (Inl (with_action_completion Completed
                       (artifact_error InvalidData ''Chrome returned an unrecognized or mismatched PDF header'')), [])
               else then_produce (fence_document ''print page PDF'' (pp_before port) (pp_after port)) (\<lambda>_.
                 (Inr (new_artifact bytes ''application/pdf'' None None True), [])))))))"

text \<open>The text of a document is retained as its UTF-8 bytes.\<close>

definition utf8_bytes :: "string \<Rightarrow> u8 list" where
  "utf8_bytes s = map (\<lambda>c. of_nat (char_byte c)) s"

definition validate_html_options :: "nat \<Rightarrow> rt_error + unit" where
  "validate_html_options max_bytes =
     (if max_bytes = 0 then Inl (artifact_error InvalidOptions ''HTML max_bytes must be greater than zero'') else Inr ())"

definition html_artifact :: "string \<Rightarrow> nat \<Rightarrow> artifact_bytes produced" where
  "html_artifact html max_bytes =
     then_produce (validate_html_options max_bytes) (\<lambda>_.
       if length html > max_bytes
       then (Inl (with_action_completion Completed
               (artifact_error (TooLarge max_bytes (length html)) ''HTML artifact exceeds max_bytes'')), [])
       else (Inr (new_artifact (utf8_bytes html) ''text/html; charset=utf-8'' None None False), []))"

text \<open>\<open>html\<close> is the result of the evaluation that reads the outer HTML; its errors are passed on.\<close>

definition page_html :: "page_port \<Rightarrow> rt_error + string \<Rightarrow> nat \<Rightarrow> artifact_bytes produced" where
  "page_html port html max_bytes =
     then_produce (validate_html_options max_bytes) (\<lambda>_.
     then_produce (pp_admit port) (\<lambda>_.
     after_sent ReadHtml
       (then_produce html (\<lambda>text.
        then_produce (fence_document ''capture page HTML'' (pp_before port) (pp_after port)) (\<lambda>_.
        html_artifact text max_bytes)))))"

definition frame_html :: "rt_error + unit \<Rightarrow> rt_error + string \<Rightarrow> rt_error + unit \<Rightarrow> nat \<Rightarrow> artifact_bytes produced" where
  "frame_html scope_before html scope_after max_bytes =
     then_produce (validate_html_options max_bytes) (\<lambda>_.
     then_produce scope_before (\<lambda>_.
     after_sent ReadHtml
       (then_produce html (\<lambda>text.
        then_produce (completed scope_after) (\<lambda>_.
        html_artifact text max_bytes)))))"

subsection \<open>What a capture promises\<close>

definition is_shot :: "capture_command \<Rightarrow> bool" where
  "is_shot c = (case c of Screenshot _ _ _ \<Rightarrow> True | _ \<Rightarrow> False)"

definition shots :: "'a produced \<Rightarrow> capture_command list" where
  "shots r = filter is_shot (snd r)"

text \<open>An artifact that a capture may deliver, and the error it may end with once the browser was asked.\<close>

definition sound_image :: "(string \<Rightarrow> u8 list option) \<Rightarrow> screenshot_options \<Rightarrow> artifact_bytes \<Rightarrow> bool" where
  "sound_image decode opts a =
     ((\<exists>encoded. decode encoded = Some (ab_bytes a)) \<and> length (ab_bytes a) \<le> so_max_bytes opts
      \<and> ab_encoded a = length (ab_bytes a) \<and> ab_mime a = screenshot_mime (so_format opts)
      \<and> ab_dimensions a \<noteq> None \<and> ab_dimensions a = image_dimensions (ab_bytes a) (so_format opts)
      \<and> ab_full_page a = so_full_page opts)"

definition shot_sound :: "(string \<Rightarrow> u8 list option) \<Rightarrow> screenshot_options \<Rightarrow> artifact_bytes produced \<Rightarrow> bool" where
  "shot_sound decode opts r =
     (case fst r of
        Inr a \<Rightarrow> sound_image decode opts a \<and> shots r = [Screenshot (so_format opts) (so_quality opts) (ab_clip a)]
      | Inl e \<Rightarrow> shots r = [] \<or> (\<exists>c. shots r = [c]) \<and> be_action_completed e \<noteq> NotStarted)"

lemma shots_simps [simp]:
  "shots (x, []) = []"
  "shots (after_sent c r) = (if is_shot c then c # shots r else shots r)"
  "fst (after_sent c r) = fst r"
  by (simp_all add: shots_def after_sent_def)

lemma is_shot_simps [simp]:
  "is_shot (Screenshot f q c)" "\<not> is_shot LayoutMetrics" "\<not> is_shot ElementBox" "\<not> is_shot ReadHtml"
  "\<not> is_shot (PrintPdf b l)"
  by (simp_all add: is_shot_def)

lemma completion_of_completed: "completed r = Inl e \<Longrightarrow> be_action_completed e = Completed"
  by (cases r) (auto simp: completed_def with_action_completion_def)

lemma fence_completion: "fence_document op d d' = Inl e \<Longrightarrow> be_action_completed e = Completed"
  by (auto simp: fence_document_def with_action_completion_def split: option.splits)

lemma decode_bounded_ok:
  "decode_bounded decode encoded n kind = Inr bytes \<Longrightarrow> decode encoded = Some bytes \<and> length bytes \<le> n"
  by (auto simp: decode_bounded_def Let_def split: option.splits if_splits)

lemma completed_ok [simp]: "completed r = Inr x \<longleftrightarrow> r = Inr x" "completed (Inr x) = Inr x"
  by (cases r) (auto simp: completed_def)

lemma shot_sound_no_shot: "shots r = [] \<Longrightarrow> fst r = Inl e \<Longrightarrow> shot_sound decode opts r"
  by (simp add: shot_sound_def)

lemma shot_sound_then:
  assumes "\<And>x. r = Inr x \<Longrightarrow> shot_sound decode opts (f x)"
  shows "shot_sound decode opts (then_produce r f)"
  using assms by (cases r) (auto simp: then_produce_def intro: shot_sound_no_shot)

lemma shot_sound_sent:
  assumes "\<not> is_shot c" and "shot_sound decode opts r"
  shows "shot_sound decode opts (after_sent c r)"
  using assms by (simp add: shot_sound_def split: sum.splits)

lemma capture_screenshot_sound: "shot_sound decode opts (capture_screenshot decode reply opts clip)"
proof (cases reply)
  case (Inl e)
  then show ?thesis
    by (simp add: capture_screenshot_def shot_sound_def with_action_completion_def)
next
  case (Inr encoded)
  show ?thesis
  proof (cases "completed (decode_bounded decode encoded (so_max_bytes opts) ''screenshot'')")
    case (Inl e)
    then show ?thesis
      using \<open>reply = Inr encoded\<close> completion_of_completed [OF Inl]
      by (simp add: capture_screenshot_def then_produce_def shot_sound_def)
  next
    case (Inr bytes)
    then show ?thesis
      using \<open>reply = Inr encoded\<close> decode_bounded_ok [of decode encoded "so_max_bytes opts" "''screenshot''" bytes]
      by (cases "image_dimensions bytes (so_format opts)")
         (auto simp: capture_screenshot_def then_produce_def shot_sound_def sound_image_def new_artifact_def
            with_action_completion_def)
  qed
qed

lemma capture_screenshot_clip: "fst (capture_screenshot decode reply opts clip) = Inr a \<Longrightarrow> ab_clip a = clip"
  by (auto simp: capture_screenshot_def then_produce_def new_artifact_def split: sum.splits option.splits)

text \<open>A check after the capture: its failure is an error that admits the capture.\<close>

lemma shot_sound_checked:
  assumes r: "shot_sound decode opts r" and g: "\<And>a. snd (g a) = []"
    and out: "\<And>a. fst (g a) = Inr a \<or> (\<exists>e. fst (g a) = Inl e \<and> be_action_completed e \<noteq> NotStarted)"
  shows "shot_sound decode opts (produce_then r g)"
proof (cases r)
  case (Pair x cs)
  show ?thesis
  proof (cases x)
    case (Inl e)
    then show ?thesis using r Pair by (simp add: produce_then_def)
  next
    case (Inr a)
    then show ?thesis
      using r Pair g [of a] out [of a] by (auto simp: produce_then_def shot_sound_def shots_def)
  qed
qed

lemma capture_region_sound: "shot_sound decode opts (capture_region op decode port opts)"
  unfolding capture_region_def
  by (intro shot_sound_then shot_sound_checked capture_screenshot_sound)
     (auto simp: then_produce_def dest!: completion_of_completed split: sum.splits)

lemma screenshot_locator_sound: "shot_sound decode opts (screenshot_locator decode port opts)"
  unfolding screenshot_locator_def
  by (intro shot_sound_then shot_sound_sent)
     (auto simp: shot_sound_no_shot intro: shot_sound_then capture_region_sound split: sum.splits)

lemma screenshot_frame_sound: "shot_sound decode opts (screenshot_frame decode port opts)"
  unfolding screenshot_frame_def by (intro shot_sound_then capture_region_sound)

lemma full_page_no_shot [simp]: "shots (full_page_clip port opts) = []"
  by (auto simp: full_page_clip_def split: sum.splits)

lemma screenshot_page_sound: "shot_sound decode opts (screenshot_page decode port opts)"
proof -
  have step: "shot_sound decode opts (produce_then c f)" if "shots c = []" and "\<And>x. shot_sound decode opts (f x)"
    for c :: "artifact_clip option produced" and f
    using that(1) that(2) [of "projr (fst c)"]
    by (cases c) (auto simp: produce_then_def shot_sound_def shots_def split: sum.splits)
  show ?thesis
    unfolding screenshot_page_def
    by (intro shot_sound_then step shot_sound_checked capture_screenshot_sound full_page_no_shot)
       (auto simp: then_produce_def dest!: fence_completion split: sum.splits)
qed

definition clip_sound :: "artifact_clip \<Rightarrow> bool" where
  "clip_sound c \<longleftrightarrow>
     list_all f64_is_finite [cl_x c, cl_y c, cl_width c, cl_height c] \<and> \<not> f64_le (cl_width c) (Finite 0)
     \<and> \<not> f64_le (cl_height c) (Finite 0) \<and> \<not> f64_lt (Finite 268435456) (f64_mul (cl_width c) (cl_height c))"

lemma checked_clip_ok: "checked_clip x y w h = Inr c \<Longrightarrow> clip_sound c"
  by (auto simp: checked_clip_def clip_sound_def split: if_splits)

lemma produce_then_ok:
  "fst (produce_then r f) = Inr y \<Longrightarrow> \<exists>x. fst r = Inr x \<and> fst (f x) = Inr y"
  by (auto simp: produce_then_def split: prod.splits sum.splits)

lemma then_produce_ok: "fst (then_produce r f) = Inr y \<Longrightarrow> \<exists>x. r = Inr x \<and> fst (f x) = Inr y"
  by (cases r) (auto simp: then_produce_def)

lemma capture_region_ok:
  assumes "fst (capture_region op decode port opts) = Inr a"
  shows "\<exists>c. ab_clip a = Some c \<and> clip_sound c \<and> rq_fence_after port = Inr () \<and> rq_scope_after port = Inr ()"
proof -
  obtain x y w h c where c: "checked_clip x y w h = Inr c"
    and "fst (produce_then (capture_screenshot decode (rq_reply port) opts (Some c)) (\<lambda>a.
       then_produce (completed (geometry_step (rq_fence_after port))) (\<lambda>_.
       then_produce (completed (rq_scope_after port)) (\<lambda>_. (Inr a, []))))) = Inr a"
    using assms unfolding capture_region_def by (blast dest: then_produce_ok)
  then have "fst (capture_screenshot decode (rq_reply port) opts (Some c)) = Inr a"
    and "rq_fence_after port = Inr ()" "rq_scope_after port = Inr ()"
    by (auto dest!: produce_then_ok then_produce_ok simp: geometry_step_def map_sum_def split: sum.splits)
  with c show ?thesis by (auto dest: checked_clip_ok capture_screenshot_clip)
qed

lemma screenshot_locator_ok:
  "fst (screenshot_locator decode port opts) = Inr a \<Longrightarrow>
     fst (capture_region ''prepare locator screenshot clip'' decode port opts) = Inr a"
  by (auto simp: screenshot_locator_def dest!: then_produce_ok split: sum.splits)

lemma screenshot_frame_ok:
  "fst (screenshot_frame decode port opts) = Inr a \<Longrightarrow>
     fst (capture_region ''prepare frame screenshot clip'' decode port opts) = Inr a"
  by (auto simp: screenshot_frame_def dest!: then_produce_ok)

lemma screenshot_page_ok:
  assumes "fst (screenshot_page decode port opts) = Inr a"
  shows "validate_document (pp_before port) (pp_after port) = None
    \<and> (case ab_clip a of None \<Rightarrow> \<not> so_full_page opts | Some c \<Rightarrow> so_full_page opts \<and> clip_sound c)"
proof -
  obtain clip where clip: "fst (full_page_clip port opts) = Inr clip"
    and a: "fst (capture_screenshot decode (pp_reply port) opts clip) = Inr a"
    and d: "fence_document ''capture page screenshot'' (pp_before port) (pp_after port) = Inr ()"
    using assms unfolding screenshot_page_def by (auto dest!: then_produce_ok produce_then_ok)
  from clip have "case clip of None \<Rightarrow> \<not> so_full_page opts | Some c \<Rightarrow> so_full_page opts \<and> clip_sound c"
    by (auto simp: full_page_clip_def map_sum_def split: if_splits sum.splits) (erule checked_clip_ok)
  then show ?thesis
    using d capture_screenshot_clip [OF a] by (auto simp: fence_document_def split: option.splits)
qed

text \<open>
  C11: A screenshot, of a page, a locator or a frame, asks the browser for at most one image, and an error after
  it was asked says that the action may have happened. A delivered image is the decoded payload within its
  limit, in the requested format, with the size of its own header; its document did not change, and the region
  it was clipped to was finite, not empty and not too large.
\<close>

theorem screenshots_admit_what_was_sent:
  assumes "run \<in> {screenshot_page decode page opts, screenshot_locator decode region opts, screenshot_frame decode region opts}"
  shows "shot_sound decode opts run \<and>
    (\<forall>a. fst run = Inr a \<longrightarrow>
       (case ab_clip a of None \<Rightarrow> \<not> so_full_page opts | Some c \<Rightarrow> clip_sound c) \<and>
       (run = screenshot_page decode page opts \<and> validate_document (pp_before page) (pp_after page) = None
        \<or> rq_fence_after region = Inr () \<and> rq_scope_after region = Inr ()))"
  using assms
  by (auto simp: screenshot_page_sound screenshot_locator_sound screenshot_frame_sound
      dest!: screenshot_page_ok screenshot_locator_ok screenshot_frame_ok capture_region_ok split: option.splits)

definition example_options :: screenshot_options where
  "example_options = \<lparr>so_format = Png, so_quality = None, so_full_page = False, so_max_bytes = 33\<rparr>"

definition example_page :: page_port where
  "example_page =
     \<lparr>pp_admit = Inr (), pp_before = new_lifecycle 1, pp_metrics = Inr (Finite 0, Finite 0, Finite 3, Finite 2),
      pp_reply = Inr ''data'', pp_after = commit_new_document (new_lifecycle 1)\<rparr>"

lemma example_decode:
  "decode_bounded (\<lambda>_. Some (png_header 3 2 8 6 0)) ''data'' 33 ''screenshot'' = Inr (png_header 3 2 8 6 0)"
  by (simp add: decode_bounded_def standard_base64_decoded_len_def base64_padding_def canonical_tail_def sextet_def
      png_header_def png_signature_def ihdr_type_def Let_def)

theorem screenshots_admit_what_was_sent_witness:
  "shot_sound (\<lambda>_. Some (png_header 3 2 8 6 0)) example_options
     (screenshot_page (\<lambda>_. Some (png_header 3 2 8 6 0)) example_page example_options)
   \<and> shots (screenshot_page (\<lambda>_. Some (png_header 3 2 8 6 0)) example_page example_options) = [Screenshot Png None None]
   \<and> (\<exists>e. fst (screenshot_page (\<lambda>_. Some (png_header 3 2 8 6 0)) example_page example_options) = Inl e)"
proof (intro conjI)
  have png: "png_dimensions (png_header 3 2 8 6 0) = Some \<lparr>dm_width = 3, dm_height = 2\<rparr>"
    by (rule png_header_accepted [of _ _ 8 6 0 "[]"]) (simp_all add: valid_depth_def)
  let ?run = "screenshot_page (\<lambda>_. Some (png_header 3 2 8 6 0)) example_page example_options"
  show "shot_sound (\<lambda>_. Some (png_header 3 2 8 6 0)) example_options ?run"
    using screenshots_admit_what_was_sent [of ?run _ example_page example_options] by blast
  note run = screenshot_page_def example_page_def example_options_def validate_screenshot_options_def then_produce_def
    full_page_clip_def capture_screenshot_def example_decode image_dimensions_def png fence_document_def
    validate_document_def commit_new_document_def new_lifecycle_def
  show "shots ?run = [Screenshot Png None None]"
    by (simp add: run produce_then_def after_sent_def shots_def u64_saturating_succ_def)
  show "\<exists>e. fst ?run = Inl e"
    by (simp add: run produce_then_def after_sent_def u64_saturating_succ_def)
qed

subsection \<open>Replacing a file atomically\<close>

text \<open>
  A path as \<open>std::path\<close> reads it on Unix: empty components and \<open>.\<close> do not count. The relative path without
  components is the current directory, which is also the parent that the code takes for a bare file name.
\<close>

record path =
  pa_rooted :: bool
  pa_parts :: "string list"

definition parse_path :: "string \<Rightarrow> path" where
  "parse_path s =
     \<lparr>pa_rooted = (take 1 s = ''/''), pa_parts = filter (\<lambda>c. c \<noteq> [] \<and> c \<noteq> ''.'') (split_on (CHR ''/'') s)\<rparr>"

definition path_file_name :: "path \<Rightarrow> string option" where
  "path_file_name p = (if pa_parts p = [] \<or> last (pa_parts p) = ''..'' then None else Some (last (pa_parts p)))"

definition path_parent :: "path \<Rightarrow> path" where
  "path_parent p = p\<lparr>pa_parts := butlast (pa_parts p)\<rparr>"

definition path_join :: "path \<Rightarrow> string \<Rightarrow> path" where
  "path_join p name = p\<lparr>pa_parts := pa_parts p @ [name]\<rparr>"

text \<open>
  The contents of the regular files. The answers of the file system are in the port: what the parent and the
  target are, the suffix of the temporary file, how many bytes a failed write left behind, and whether each call
  fails. \<open>sv_dropped\<close> says that the caller stopped waiting while the file was being prepared, and \<open>sv_removable\<close>
  that the temporary file can be removed when it is dropped.
\<close>

type_synonym file_system = "path \<Rightarrow> u8 list option"

datatype file_kind = RegularFile | DirectoryFile | SymlinkFile | OtherFile

record save_port =
  sv_join :: "string option"
  sv_parent_is_dir :: bool
  sv_target :: "file_kind option"
  sv_create :: "string + string"
  sv_write :: "string option"
  sv_written :: nat
  sv_flush :: "string option"
  sv_sync :: "string option"
  sv_dropped :: bool
  sv_persist :: "string option"
  sv_sync_parent :: "string option"
  sv_removable :: bool

record prepared_save =
  ps_temporary :: path
  ps_path :: path
  ps_parent :: path

definition temporary_path :: "path \<Rightarrow> string \<Rightarrow> path" where
  "temporary_path p suffix = path_join (path_parent p) (''.'' @ the (path_file_name p) @ ''.'' @ suffix)"

definition drop_temporary :: "save_port \<Rightarrow> path \<Rightarrow> file_system \<Rightarrow> file_system" where
  "drop_temporary port temp fs = (if sv_removable port then fs(temp := None) else fs)"

definition invalid_path :: "string \<Rightarrow> rt_error" where
  "invalid_path m = artifact_error InvalidPath m"

definition write_failed :: "string \<Rightarrow> rt_error" where
  "write_failed e = io_operation id ''write artifact temporary file'' Dispatch e"

text \<open>The prepared file, and the file systems that could be seen on the way, the latest one at the end.\<close>

definition prepare_atomic_save ::
  "save_port \<Rightarrow> file_system \<Rightarrow> path \<Rightarrow> u8 list \<Rightarrow> (rt_error + prepared_save) \<times> file_system list" where
  "prepare_atomic_save port fs p bytes =
     (if path_file_name p = None then (Inl (invalid_path ''artifact path must name a file''), [])
      else if \<not> sv_parent_is_dir port
      then (Inl (invalid_path ''artifact parent must already exist and be a directory''), [])
      else if sv_target port = Some DirectoryFile \<or> sv_target port = Some SymlinkFile
      then (Inl (invalid_path ''artifact target must be a regular file, not a directory or symbolic link''), [])
      else case sv_create port of
        Inl e \<Rightarrow> (Inl (io_operation id ''create artifact temporary file'' Preparation e), [])
      | Inr suffix \<Rightarrow>
          let temp = temporary_path p suffix; created = fs(temp \<mapsto> []); written = fs(temp \<mapsto> bytes);
              prepared = \<lparr>ps_temporary = temp, ps_path = p, ps_parent = path_parent p\<rparr>
          in case sv_write port of
               Some e \<Rightarrow>
                 let partial = fs(temp \<mapsto> take (sv_written port) bytes)
                 in (Inl (write_failed e), [created, partial, drop_temporary port temp partial])
             | None \<Rightarrow>
                 (case sv_flush port of
                    Some e \<Rightarrow> (Inl (write_failed e), [created, written, drop_temporary port temp written])
                  | None \<Rightarrow>
                      (case sv_sync port of
                         Some e \<Rightarrow> (Inl (write_failed e), [created, written, drop_temporary port temp written])
                       | None \<Rightarrow> (Inr prepared, [created, written]))))"

text \<open>The rename is the point of no return; after it only the directory is synchronized.\<close>

definition commit_atomic_save ::
  "save_port \<Rightarrow> file_system \<Rightarrow> prepared_save \<Rightarrow> (rt_error + path) \<times> file_system list" where
  "commit_atomic_save port fs prepared =
     (case sv_persist port of
        Some e \<Rightarrow>
          (Inl (with_action_completion NotStarted (io_operation id ''replace artifact file'' Dispatch e)),
           [drop_temporary port (ps_temporary prepared) fs])
      | None \<Rightarrow>
          let replaced = fs(ps_temporary prepared := None, ps_path prepared := fs (ps_temporary prepared))
          in (case sv_sync_parent port of
                Some e \<Rightarrow> Inl (with_action_completion Completed (io_operation id ''sync artifact parent'' Cleanup e))
              | None \<Rightarrow> Inr (ps_path prepared), [replaced]))"

text \<open>No result is reported to a caller that stopped waiting; the prepared file is dropped then.\<close>

definition save_atomically ::
  "save_port \<Rightarrow> file_system \<Rightarrow> path \<Rightarrow> u8 list \<Rightarrow> (rt_error + path) option \<times> file_system list" where
  "save_atomically port fs p bytes =
     (case sv_join port of
        Some e \<Rightarrow>
          (Some (Inl (with_message (''artifact save task failed: '' @ e) (operation_error ''save artifact'' Preparation))), [])
      | None \<Rightarrow>
          (case prepare_atomic_save port fs p bytes of
             (Inl e, seen) \<Rightarrow> (if sv_dropped port then None else Some (Inl e), seen)
           | (Inr prepared, seen) \<Rightarrow>
               if sv_dropped port
               then (None, seen @ [drop_temporary port (ps_temporary prepared) (last seen)])
               else (case commit_atomic_save port (last seen) prepared of
                       (r, seen') \<Rightarrow> (Some r, seen @ seen'))))"

text \<open>The save took effect: it succeeded, or its error says that the action was completed.\<close>

definition save_published :: "(rt_error + path) option \<Rightarrow> bool" where
  "save_published r =
     (case r of None \<Rightarrow> False | Some (Inr _) \<Rightarrow> True | Some (Inl e) \<Rightarrow> be_action_completed e = Completed)"

lemma temporary_differs: "path_file_name p \<noteq> None \<Longrightarrow> temporary_path p suffix \<noteq> p"
proof
  assume name: "path_file_name p \<noteq> None" and same: "temporary_path p suffix = p"
  have "last (pa_parts (temporary_path p suffix)) = ''.'' @ last (pa_parts p) @ ''.'' @ suffix"
    using name by (simp add: temporary_path_def path_join_def path_parent_def path_file_name_def split: if_splits)
  then have "last (pa_parts p) = ''.'' @ last (pa_parts p) @ ''.'' @ suffix" by (simp only: same)
  then have "length (last (pa_parts p)) = length (''.'' @ last (pa_parts p) @ ''.'' @ suffix)" by (rule arg_cong)
  then show False by simp
qed

text \<open>Every run of a save is one of these: it published the file, or it took the temporary file away again.\<close>

lemma save_runs:
  assumes "save_atomically port fs p bytes = (r, seen)"
  obtains (Nothing) "seen = []" "\<not> save_published r"
  | (Undone) suffix part where "sv_create port = Inr suffix" "path_file_name p \<noteq> None" "\<not> save_published r"
      "set seen \<subseteq> {fs(temporary_path p suffix \<mapsto> []), fs(temporary_path p suffix \<mapsto> part),
         drop_temporary port (temporary_path p suffix) (fs(temporary_path p suffix \<mapsto> part))}"
      "seen \<noteq> []" "last seen = drop_temporary port (temporary_path p suffix) (fs(temporary_path p suffix \<mapsto> part))"
  | (Replaced) suffix where "sv_create port = Inr suffix" "path_file_name p \<noteq> None" "save_published r"
      "r = Some (Inr p) \<or> (\<exists>e. r = Some (Inl e) \<and> sv_sync_parent port \<noteq> None)"
      "seen = [fs(temporary_path p suffix \<mapsto> []), fs(temporary_path p suffix \<mapsto> bytes),
         fs(temporary_path p suffix := None, p \<mapsto> bytes)]"
proof -
  note simps = save_atomically_def prepare_atomic_save_def commit_atomic_save_def save_published_def invalid_path_def
    write_failed_def artifact_error_def with_message_def with_artifact_failure_def with_details_def
    with_action_completion_def io_operation_def operation_error_def Let_def
  show thesis
  proof (cases "sv_join port = None \<and> path_file_name p \<noteq> None \<and> sv_parent_is_dir port
      \<and> \<not> (sv_target port = Some DirectoryFile \<or> sv_target port = Some SymlinkFile) \<and> (\<exists>suffix. sv_create port = Inr suffix)")
    case False
    then show thesis
      using assms by (intro Nothing) (auto simp: simps split: option.splits sum.splits if_splits)
  next
    case True
    then obtain suffix where create: "sv_create port = Inr suffix" by blast
    have name: "path_file_name p \<noteq> None" using True by blast
    consider (wr) e where "sv_write port = Some e"
      | (sync) "sv_write port = None" "sv_flush port \<noteq> None \<or> sv_sync port \<noteq> None"
      | (prepared) "sv_write port = None" "sv_flush port = None" "sv_sync port = None" by blast
    then show thesis
    proof cases
      case wr
      show thesis
        using assms True create wr
        by (intro Undone [OF create name, of "take (sv_written port) bytes"]) (auto simp: simps split: if_splits)
    next
      case sync
      show thesis
        using assms True create sync
        by (intro Undone [OF create name, of bytes]) (auto simp: simps split: if_splits option.splits)
    next
      case prepared
      show thesis
      proof (cases "sv_dropped port \<or> sv_persist port \<noteq> None")
        case True
        then show thesis
          using assms \<open>_ \<and> _ \<and> _ \<and> _ \<and> _\<close> create prepared
          by (intro Undone [OF create name, of bytes]) (auto simp: simps split: if_splits option.splits)
      next
        case False
        then show thesis
          using assms True create prepared
          by (intro Replaced [OF create name]) (auto simp: simps split: option.splits)
      qed
    qed
  qed
qed

text \<open>
  C10: Saving an artifact is atomic. At every moment the file at the path has its old contents or all of the new
  ones, and no other file is touched but the temporary one, which was not there before and is taken away again;
  the file is replaced exactly if the save succeeds or its error says that the action was completed.
\<close>

theorem save_is_atomic:
  assumes "save_atomically port fs p bytes = (r, seen)" "\<And>suffix. sv_create port = Inr suffix \<Longrightarrow> fs (temporary_path p suffix) = None"
  shows "(\<forall>s \<in> set seen. (s p = fs p \<or> s p = Some bytes) \<and>
      (\<forall>q. q \<noteq> p \<and> s q \<noteq> fs q \<longrightarrow> (\<exists>suffix. sv_create port = Inr suffix \<and> q = temporary_path p suffix)))
    \<and> last (fs # seen) p = (if save_published r then Some bytes else fs p)
    \<and> (sv_removable port \<longrightarrow> last (fs # seen) = (if save_published r then fs(p \<mapsto> bytes) else fs))"
  using assms(1)
proof (cases rule: save_runs)
  case Nothing
  then show ?thesis by simp
next
  case (Undone suffix part)
  have t: "temporary_path p suffix \<noteq> p" using temporary_differs Undone(2) by blast
  have "fs(temporary_path p suffix := None) = fs" using assms(2) [OF Undone(1)] by (simp add: fun_upd_idem_iff)
  then have "drop_temporary port (temporary_path p suffix) (fs(temporary_path p suffix \<mapsto> part))
      = (if sv_removable port then fs else fs(temporary_path p suffix \<mapsto> part))" by (simp add: drop_temporary_def)
  then show ?thesis using Undone t by (auto split: if_splits)
next
  case (Replaced suffix)
  have t: "temporary_path p suffix \<noteq> p" using temporary_differs Replaced(2) by blast
  have "fs(temporary_path p suffix := None) = fs" using assms(2) [OF Replaced(1)] by (simp add: fun_upd_idem_iff)
  then show ?thesis using Replaced t by auto
qed

definition example_port :: save_port where
  "example_port =
     \<lparr>sv_join = None, sv_parent_is_dir = True, sv_target = Some RegularFile, sv_create = Inr ''x'', sv_write = None,
      sv_written = 0, sv_flush = None, sv_sync = None, sv_dropped = False, sv_persist = None,
      sv_sync_parent = Some ''denied'', sv_removable = True\<rparr>"

definition example_files :: file_system where
  "example_files = (\<lambda>q. if q = parse_path ''out/a.png'' then Some [0] else None)"

lemma example_path: "parse_path ''out/a.png'' = \<lparr>pa_rooted = False, pa_parts = [''out'', ''a.png'']\<rparr>"
  by (simp add: parse_path_def)

theorem save_is_atomic_witness:
  "\<exists>seen. save_atomically example_port example_files (parse_path ''out/a.png'') [1, 2]
       = (Some (Inl (with_action_completion Completed (io_operation id ''sync artifact parent'' Cleanup ''denied''))), seen)
     \<and> last (example_files # seen) (parse_path ''out/a.png'') = Some [1, 2]"
proof -
  define run where "run = save_atomically example_port example_files (parse_path ''out/a.png'') [1, 2]"
  have result: "fst run = Some (Inl (with_action_completion Completed (io_operation id ''sync artifact parent'' Cleanup ''denied'')))"
    unfolding run_def example_path
    by (simp add: save_atomically_def example_port_def prepare_atomic_save_def commit_atomic_save_def Let_def path_file_name_def)
  have fresh: "example_files (temporary_path (parse_path ''out/a.png'') suffix) = None"
    if "sv_create example_port = Inr suffix" for suffix
    using that by (simp add: example_port_def example_files_def temporary_differs example_path path_file_name_def)
  have "save_atomically example_port example_files (parse_path ''out/a.png'') [1, 2] = (fst run, snd run)"
    by (simp add: run_def)
  from save_is_atomic [OF this fresh]
  have "last (example_files # snd run) (parse_path ''out/a.png'')
      = (if save_published (fst run) then Some [1, 2] else example_files (parse_path ''out/a.png''))" by blast
  then show ?thesis
    using result by (intro exI [of _ "snd run"]) (simp add: run_def prod_eq_iff save_published_def with_action_completion_def)
qed

end
