(* ===== verification/Diagnostics.thy ===== *)
theory Diagnostics
  imports Errors
begin

text \<open>
  Diagnostics of a page (\<open>src/src/runtime/diagnostic.rs\<close>): the collector of console messages and page errors with
  its budgets for events, bytes and time, and the bundle. The length of an event as compact JSON is the argument
  \<open>byte_length\<close>, the clock and the stream answer through arguments. The collected events are the ones that a greedy
  selection keeps, and everything else is accounted for as omitted.
\<close>

subsection \<open>The collector\<close>

record collector_options =
  co_max_events :: nat
  co_max_bytes :: nat
  co_max_duration :: nat

definition default_collector_options :: collector_options where
  "default_collector_options = \<lparr>co_max_events = 256, co_max_bytes = 512 * 1024, co_max_duration = 30000000000\<rparr>"

datatype ('c, 'e, 'o) diagnostic_event = ConsoleEvent 'c | PageErrorEvent 'e | OtherPageEvent 'o

datatype diagnostic_failure_kind =
  FailedPreparation | FailedObservation | FailedDispatch | FailedConfirmation | FailedCleanup | SourceClosed | CollectorStopped

record diagnostic_failure =
  df_component :: string
  df_kind :: diagnostic_failure_kind

record ('c, 'e) diagnostic_events =
  de_console :: "'c list"
  de_page_errors :: "'e list"
  de_started_at :: nat
  de_elapsed :: nat
  de_observed :: nat
  de_retained_bytes :: nat
  de_omitted_events :: nat
  de_omitted_bytes :: nat
  de_event_omissions :: nat
  de_byte_omissions :: nat
  de_time_reached :: bool
  de_failure :: "diagnostic_failure option"

definition no_events :: "nat \<Rightarrow> ('c, 'e) diagnostic_events" where
  "no_events started_at =
     \<lparr>de_console = [], de_page_errors = [], de_started_at = started_at, de_elapsed = 0, de_observed = 0,
      de_retained_bytes = 0, de_omitted_events = 0, de_omitted_bytes = 0, de_event_omissions = 0,
      de_byte_omissions = 0, de_time_reached = False, de_failure = None\<rparr>"

definition empty_events :: "nat \<Rightarrow> diagnostic_failure \<Rightarrow> ('c, 'e) diagnostic_events" where
  "empty_events started_at failure = (no_events started_at)\<lparr>de_failure := Some failure\<rparr>"

definition truncated :: "('c, 'e) diagnostic_events \<Rightarrow> bool" where
  "truncated r \<longleftrightarrow> de_omitted_events r \<noteq> 0 \<or> de_omitted_bytes r \<noteq> 0 \<or> de_time_reached r"

definition diagnostic_event_size ::
  "(('c, 'e, 'o) diagnostic_event \<Rightarrow> nat option) \<Rightarrow> ('c, 'e, 'o) diagnostic_event \<Rightarrow> nat option" where
  "diagnostic_event_size byte_length ev = (case ev of OtherPageEvent _ \<Rightarrow> None | _ \<Rightarrow> byte_length ev)"

definition retain_event :: "('c, 'e, 'o) diagnostic_event \<Rightarrow> ('c, 'e) diagnostic_events \<Rightarrow> ('c, 'e) diagnostic_events" where
  "retain_event ev r =
     (case ev of ConsoleEvent c \<Rightarrow> r\<lparr>de_console := de_console r @ [c]\<rparr>
      | PageErrorEvent e \<Rightarrow> r\<lparr>de_page_errors := de_page_errors r @ [e]\<rparr> | OtherPageEvent _ \<Rightarrow> r)"

definition collect_event ::
  "collector_options \<Rightarrow> ('c, 'e, 'o) diagnostic_event \<times> nat \<Rightarrow> ('c, 'e) diagnostic_events \<Rightarrow> ('c, 'e) diagnostic_events" where
  "collect_event opts x r =
     (let r1 = r\<lparr>de_observed := sat_add (de_observed r) 1\<rparr>;
          event_fits = sat_add (length (de_console r)) (length (de_page_errors r)) < co_max_events opts;
          total = de_retained_bytes r + snd x;
          byte_fits = (total \<le> usize_max \<and> total \<le> co_max_bytes opts)
      in if event_fits \<and> byte_fits then retain_event (fst x) (r1\<lparr>de_retained_bytes := total\<rparr>)
         else r1\<lparr>de_omitted_events := sat_add (de_omitted_events r) 1, de_omitted_bytes := sat_add (de_omitted_bytes r) (snd x),
           de_event_omissions := (if event_fits then de_event_omissions r else sat_add (de_event_omissions r) 1),
           de_byte_omissions := (if byte_fits then de_byte_omissions r else sat_add (de_byte_omissions r) 1)\<rparr>)"

text \<open>
  What a turn of the loop finds ready: the deadline, the cancellation and the stream, in this order of preference.
  Without further turns the collector is still running.
\<close>

datatype 'ev stream_item = StreamEvent 'ev | StreamFailed | StreamEnded

record 'ev collector_turn =
  tn_deadline :: bool
  tn_cancelled :: bool
  tn_item :: "'ev stream_item option"

definition events_failure :: "diagnostic_failure_kind \<Rightarrow> diagnostic_failure" where
  "events_failure k = \<lparr>df_component = ''events'', df_kind = k\<rparr>"

fun collector_loop ::
  "(('c, 'e, 'o) diagnostic_event \<Rightarrow> nat option) \<Rightarrow> collector_options \<Rightarrow> ('c, 'e, 'o) diagnostic_event collector_turn list
    \<Rightarrow> ('c, 'e) diagnostic_events \<Rightarrow> ('c, 'e) diagnostic_events option" where
  "collector_loop byte_length opts [] r = None"
| "collector_loop byte_length opts (t # ts) r =
     (if tn_deadline t then Some (r\<lparr>de_time_reached := True\<rparr>)
      else if tn_cancelled t then Some r
      else case tn_item t of
             None \<Rightarrow> collector_loop byte_length opts ts r
           | Some (StreamEvent ev) \<Rightarrow>
               (case diagnostic_event_size byte_length ev of
                  None \<Rightarrow> collector_loop byte_length opts ts r
                | Some n \<Rightarrow> collector_loop byte_length opts ts (collect_event opts (ev, n) r))
           | Some _ \<Rightarrow> Some (r\<lparr>de_failure := Some (events_failure SourceClosed)\<rparr>))"

definition collector_from_stream ::
  "(('c, 'e, 'o) diagnostic_event \<Rightarrow> nat option) \<Rightarrow> collector_options \<Rightarrow> nat \<Rightarrow> nat
    \<Rightarrow> ('c, 'e, 'o) diagnostic_event collector_turn list \<Rightarrow> ('c, 'e) diagnostic_events option" where
  "collector_from_stream byte_length opts started_at elapsed turns =
     map_option (\<lambda>r. r\<lparr>de_elapsed := elapsed\<rparr>) (collector_loop byte_length opts turns (no_events started_at))"

definition start_collector :: "collector_options \<Rightarrow> rt_error + 's \<Rightarrow> rt_error + 's" where
  "start_collector opts subscription =
     (if co_max_events opts = 0 \<or> co_max_bytes opts = 0 \<or> co_max_duration opts = 0
      then Inl (with_message ''diagnostic event, byte, and time budgets must all be greater than zero''
             (operation_error ''start diagnostic collector'' Preparation))
      else subscription)"

text \<open>\<open>joined\<close> is the end of the task of a cancelled collector; \<open>None\<close> stands for a task that panicked or was aborted.\<close>

definition finish_collector :: "nat \<Rightarrow> ('c, 'e) diagnostic_events option \<Rightarrow> ('c, 'e) diagnostic_events" where
  "finish_collector now joined = (case joined of Some r \<Rightarrow> r | None \<Rightarrow> empty_events now (events_failure CollectorStopped))"

subsection \<open>The bundle\<close>

definition failure_kind_of :: "operation_phase \<Rightarrow> diagnostic_failure_kind" where
  "failure_kind_of ph =
     (case ph of Preparation \<Rightarrow> FailedPreparation | Observation \<Rightarrow> FailedObservation | Dispatch \<Rightarrow> FailedDispatch
      | Confirmation \<Rightarrow> FailedConfirmation | Cleanup \<Rightarrow> FailedCleanup)"

definition failure_from_error :: "string \<Rightarrow> rt_error \<Rightarrow> diagnostic_failure" where
  "failure_from_error component e = \<lparr>df_component = component, df_kind = failure_kind_of (be_phase e)\<rparr>"

record 'a diagnostic_part =
  dp_value :: "'a option"
  dp_failure :: "diagnostic_failure option"

definition part_from_result :: "string \<Rightarrow> rt_error + 'a \<Rightarrow> 'a diagnostic_part" where
  "part_from_result component r =
     (case r of Inr x \<Rightarrow> \<lparr>dp_value = Some x, dp_failure = None\<rparr>
      | Inl e \<Rightarrow> \<lparr>dp_value = None, dp_failure = Some (failure_from_error component e)\<rparr>)"

definition diagnostic_parts ::
  "rt_error + 'a \<Rightarrow> (rt_error + 'b) option \<Rightarrow> 'a diagnostic_part \<times> 'b diagnostic_part option" where
  "diagnostic_parts snapshot screenshot =
     (part_from_result ''snapshot'' snapshot, map_option (part_from_result ''screenshot'') screenshot)"

text \<open>The rest of a page snapshot is \<open>'n\<close>; the identity of the page is in \<open>'i\<close>.\<close>

record 'n snapshot_of_page =
  sn_url :: string
  sn_title :: string
  sn_content :: 'n

record ('i, 'n, 'a, 'c, 'e) diagnostic_bundle =
  db_page :: 'i
  db_was_open :: bool
  db_url :: "string option"
  db_title :: "string option"
  db_snapshot :: "'n snapshot_of_page diagnostic_part"
  db_screenshot :: "'a diagnostic_part option"
  db_events :: "('c, 'e) diagnostic_events"

definition collect_bundle ::
  "rt_error + unit \<Rightarrow> 'i \<Rightarrow> bool \<Rightarrow> rt_error + 'n snapshot_of_page \<Rightarrow> bool \<Rightarrow> rt_error + 'a \<Rightarrow> ('c, 'e) diagnostic_events
    \<Rightarrow> rt_error + ('i, 'n, 'a, 'c, 'e) diagnostic_bundle" where
  "collect_bundle admitted page still_open snapshot include_screenshot screenshot events =
     (case admitted of
        Inl e \<Rightarrow> Inl e
      | Inr _ \<Rightarrow>
          let parts = diagnostic_parts snapshot (if include_screenshot then Some screenshot else None)
          in Inr \<lparr>db_page = page, db_was_open = still_open,
                  db_url = (case snapshot of Inr s \<Rightarrow> Some (sn_url s) | Inl _ \<Rightarrow> None),
                  db_title = (case snapshot of Inr s \<Rightarrow> Some (sn_title s) | Inl _ \<Rightarrow> None),
                  db_snapshot = fst parts, db_screenshot = snd parts, db_events = events\<rparr>)"

subsection \<open>The collector keeps what a greedy selection keeps\<close>

fun keep_greedily :: "nat \<Rightarrow> nat \<Rightarrow> ('a \<times> nat) list \<Rightarrow> ('a \<times> nat) list" where
  "keep_greedily n b [] = []"
| "keep_greedily n b (x # xs) =
     (if 0 < n \<and> snd x \<le> b then x # keep_greedily (n - 1) (b - snd x) xs else keep_greedily n b xs)"

definition consoles :: "(('c, 'e, 'o) diagnostic_event \<times> nat) list \<Rightarrow> 'c list" where
  "consoles xs = concat (map (\<lambda>x. case fst x of ConsoleEvent c \<Rightarrow> [c] | _ \<Rightarrow> []) xs)"

definition page_errors :: "(('c, 'e, 'o) diagnostic_event \<times> nat) list \<Rightarrow> 'e list" where
  "page_errors xs = concat (map (\<lambda>x. case fst x of PageErrorEvent e \<Rightarrow> [e] | _ \<Rightarrow> []) xs)"

definition total_size :: "('a \<times> nat) list \<Rightarrow> nat" where
  "total_size xs = sum_list (map snd xs)"

definition turn_stops :: "'ev collector_turn \<Rightarrow> bool" where
  "turn_stops t \<longleftrightarrow> tn_deadline t \<or> tn_cancelled t \<or> tn_item t = Some StreamFailed \<or> tn_item t = Some StreamEnded"

text \<open>The events of the turns before the one that stops the collector, with their sizes.\<close>

fun sized_events ::
  "(('c, 'e, 'o) diagnostic_event \<Rightarrow> nat option) \<Rightarrow> ('c, 'e, 'o) diagnostic_event collector_turn list
    \<Rightarrow> (('c, 'e, 'o) diagnostic_event \<times> nat) list" where
  "sized_events byte_length [] = []"
| "sized_events byte_length (t # ts) =
     (if turn_stops t then []
      else (case tn_item t of
              Some (StreamEvent ev) \<Rightarrow> (case diagnostic_event_size byte_length ev of None \<Rightarrow> [] | Some n \<Rightarrow> [(ev, n)])
            | _ \<Rightarrow> []) @ sized_events byte_length ts)"

lemma keep_greedily_bounds: "length (keep_greedily n b xs) \<le> n \<and> total_size (keep_greedily n b xs) \<le> b"
  by (induction n b xs rule: keep_greedily.induct) (auto simp: total_size_def)

lemma keep_greedily_snoc:
  "keep_greedily n b (xs @ [x]) =
     keep_greedily n b xs @
       (if length (keep_greedily n b xs) < n \<and> total_size (keep_greedily n b xs) + snd x \<le> b then [x] else [])"
  by (induction n b xs rule: keep_greedily.induct) (auto simp: total_size_def)

lemma keep_greedily_length: "length (keep_greedily n b xs) \<le> length xs"
  by (induction n b xs rule: keep_greedily.induct) auto

definition only_diagnostic :: "(('c, 'e, 'o) diagnostic_event \<times> nat) list \<Rightarrow> bool" where
  "only_diagnostic xs \<longleftrightarrow> (\<forall>x \<in> set xs. \<forall>y. fst x \<noteq> OtherPageEvent y)"

lemma kinds_length: "only_diagnostic xs \<Longrightarrow> length (consoles xs) + length (page_errors xs) = length xs"
  by (induction xs) (auto simp: only_diagnostic_def consoles_def page_errors_def split: diagnostic_event.splits)

lemma kinds_snoc [simp]:
  "consoles (xs @ [x]) = consoles xs @ (case fst x of ConsoleEvent c \<Rightarrow> [c] | _ \<Rightarrow> [])"
  "page_errors (xs @ [x]) = page_errors xs @ (case fst x of PageErrorEvent e \<Rightarrow> [e] | _ \<Rightarrow> [])"
  "total_size (xs @ [x]) = total_size xs + snd x"
  by (simp_all add: consoles_def page_errors_def total_size_def)

lemma keep_greedily_diagnostic: "only_diagnostic xs \<Longrightarrow> only_diagnostic (keep_greedily n b xs)"
  by (induction n b xs rule: keep_greedily.induct) (auto simp: only_diagnostic_def)

lemma other_events_have_no_size [simp]:
  "diagnostic_event_size byte_length (OtherPageEvent y) = None"
  by (simp add: diagnostic_event_size_def)

lemma sized_events_diagnostic: "only_diagnostic (sized_events byte_length turns)"
proof (induction turns)
  case Nil
  then show ?case by (simp add: only_diagnostic_def)
next
  case (Cons t ts)
  then show ?case
    by (auto simp: only_diagnostic_def split: option.splits stream_item.splits)
qed

text \<open>What the collector knows after some events, written without saturation.\<close>

definition collected ::
  "collector_options \<Rightarrow> (('c, 'e, 'o) diagnostic_event \<times> nat) list \<Rightarrow> ('c, 'e) diagnostic_events \<Rightarrow> bool" where
  "collected opts xs r \<longleftrightarrow>
     (let kept = keep_greedily (co_max_events opts) (co_max_bytes opts) xs
      in de_console r = consoles kept \<and> de_page_errors r = page_errors kept \<and> de_retained_bytes r = total_size kept
         \<and> de_observed r = length xs \<and> de_omitted_events r = length xs - length kept
         \<and> (de_omitted_bytes r \<noteq> 0 \<longrightarrow> length kept < length xs))"

lemma collected_start: "collected opts [] (no_events t)"
  by (simp add: collected_def no_events_def consoles_def page_errors_def total_size_def)

lemma collect_event_collected:
  assumes r: "collected opts xs r" and x: "only_diagnostic (xs @ [x])"
    and max: "co_max_bytes opts \<le> usize_max" "length xs < usize_max"
  shows "collected opts (xs @ [x]) (collect_event opts x r)"
proof -
  define kept where "kept = keep_greedily (co_max_events opts) (co_max_bytes opts) xs"
  have d: "only_diagnostic xs" "\<And>y. fst x \<noteq> OtherPageEvent y" using x by (auto simp: only_diagnostic_def)
  have len: "length (consoles kept) + length (page_errors kept) = length kept" "length kept \<le> length xs"
    using kinds_length [OF keep_greedily_diagnostic [OF d(1)]] keep_greedily_length by (simp_all add: kept_def)
  have sat: "sat_add (length (consoles kept)) (length (page_errors kept)) = length kept"
    "sat_add (length xs) (Suc 0) = Suc (length xs)" "sat_add (length xs - length kept) (Suc 0) = Suc (length xs - length kept)"
    using len max(2) by (simp_all add: sat_add_exact)
  have f: "de_console r = consoles kept" "de_page_errors r = page_errors kept" "de_retained_bytes r = total_size kept"
    "de_observed r = length xs" "de_omitted_events r = length xs - length kept"
    "de_omitted_bytes r \<noteq> 0 \<longrightarrow> length kept < length xs"
    using r by (simp_all add: collected_def kept_def Let_def)
  have step: "keep_greedily (co_max_events opts) (co_max_bytes opts) (xs @ [x])
      = kept @ (if length kept < co_max_events opts \<and> total_size kept + snd x \<le> co_max_bytes opts then [x] else [])"
    by (simp add: keep_greedily_snoc kept_def)
  have fits: "total_size kept + snd x \<le> usize_max" if "total_size kept + snd x \<le> co_max_bytes opts"
    using max(1) that by linarith
  show ?thesis
  proof (cases "length kept < co_max_events opts \<and> total_size kept + snd x \<le> co_max_bytes opts")
    case True
    then have "collect_event opts x r = retain_event (fst x)
        (r\<lparr>de_observed := Suc (length xs), de_retained_bytes := total_size kept + snd x\<rparr>)"
      by (simp add: collect_event_def Let_def f sat fits)
    then show ?thesis
      using True d(2) len(2) by (cases "fst x") (simp_all add: collected_def step retain_event_def f Let_def)
  next
    case False
    then show ?thesis
      using len(2) sat by (auto simp: collected_def step collect_event_def f Let_def fits)
  qed
qed

lemma collector_loop_collected:
  assumes "collector_loop byte_length opts turns r = Some s" "collected opts xs r" "only_diagnostic xs"
    "co_max_bytes opts \<le> usize_max" "length xs + length turns \<le> usize_max"
  shows "collected opts (xs @ sized_events byte_length turns) s"
  using assms
proof (induction turns arbitrary: xs r)
  case Nil
  then show ?case by simp
next
  case (Cons t ts)
  have same: "collected opts xs (r\<lparr>de_time_reached := b\<rparr>)" "collected opts xs (r\<lparr>de_failure := z\<rparr>)" for b z
    using Cons.prems(2) by (simp_all add: collected_def)
  show ?case
  proof (cases "turn_stops t")
    case True
    then show ?thesis
      using Cons.prems(1,2) same by (auto simp: turn_stops_def split: if_splits)
  next
    case False
    show ?thesis
    proof (cases "\<exists>ev n. tn_item t = Some (StreamEvent ev) \<and> diagnostic_event_size byte_length ev = Some n")
      case True
      then obtain ev n where ev: "tn_item t = Some (StreamEvent ev)" "diagnostic_event_size byte_length ev = Some n" by blast
      have only: "only_diagnostic (xs @ [(ev, n)])"
        using Cons.prems(3) ev(2) by (auto simp: only_diagnostic_def diagnostic_event_size_def)
      have "collected opts (xs @ [(ev, n)]) (collect_event opts (ev, n) r)"
        using Cons.prems(2,4,5) only by (intro collect_event_collected) simp_all
      moreover have "collector_loop byte_length opts ts (collect_event opts (ev, n) r) = Some s"
        using Cons.prems(1) False ev by (simp add: turn_stops_def)
      ultimately have "collected opts ((xs @ [(ev, n)]) @ sized_events byte_length ts) s"
        using Cons.prems(4,5) only by (intro Cons.IH) simp_all
      then show ?thesis using False ev by simp
    next
      case none: False
      have loop: "collector_loop byte_length opts ts r = Some s"
        using Cons.prems(1) False none
        by (cases "tn_item t") (auto simp: turn_stops_def split: option.splits stream_item.splits)
      have "sized_events byte_length (t # ts) = sized_events byte_length ts"
        using False none by (auto split: option.splits stream_item.splits)
      then show ?thesis using Cons.IH [OF loop Cons.prems(2-4)] Cons.prems(5) by simp
    qed
  qed
qed

text \<open>
  A collector that ends has kept exactly the events that a greedy selection within the two budgets keeps, in
  their order, and counts every other event as omitted; it is truncated exactly if one was omitted or the time
  was over. The budgets and the number of turns fit the machine.
\<close>

theorem collector_keeps_greedily:
  assumes "collector_from_stream byte_length opts started_at elapsed turns = Some r"
    "co_max_bytes opts \<le> usize_max" "length turns \<le> usize_max"
  shows "let seen = sized_events byte_length turns; kept = keep_greedily (co_max_events opts) (co_max_bytes opts) seen
    in de_console r = consoles kept \<and> de_page_errors r = page_errors kept \<and> de_retained_bytes r = total_size kept
       \<and> length kept \<le> co_max_events opts \<and> de_retained_bytes r \<le> co_max_bytes opts
       \<and> de_observed r = length seen \<and> de_omitted_events r + length kept = length seen
       \<and> (truncated r \<longleftrightarrow> length kept < length seen \<or> de_time_reached r)"
proof -
  define seen where "seen = sized_events byte_length turns"
  define kept where "kept = keep_greedily (co_max_events opts) (co_max_bytes opts) seen"
  obtain s where s: "collector_loop byte_length opts turns (no_events started_at) = Some s" "r = s\<lparr>de_elapsed := elapsed\<rparr>"
    using assms(1) by (auto simp: collector_from_stream_def)
  have "collected opts ([] @ sized_events byte_length turns) s"
    using collector_loop_collected [OF s(1) collected_start _ assms(2)] assms(3) by (simp add: only_diagnostic_def)
  then have c: "collected opts seen r" by (simp add: collected_def seen_def s(2))
  have bounds: "length kept \<le> co_max_events opts" "total_size kept \<le> co_max_bytes opts" "length kept \<le> length seen"
    using keep_greedily_bounds [of "co_max_events opts" "co_max_bytes opts" seen] keep_greedily_length [of _ _ seen]
    by (auto simp: kept_def)
  then show ?thesis
    using c by (auto simp: collected_def truncated_def Let_def seen_def [symmetric] kept_def [symmetric])
qed

theorem collector_keeps_greedily_witness:
  "\<exists>r. collector_from_stream (\<lambda>_. Some 5) \<lparr>co_max_events = 1, co_max_bytes = 9, co_max_duration = 1\<rparr> 0 3
      [\<lparr>tn_deadline = False, tn_cancelled = False, tn_item = Some (StreamEvent (ConsoleEvent ''a''))\<rparr>,
       \<lparr>tn_deadline = False, tn_cancelled = False, tn_item = Some (StreamEvent (PageErrorEvent ''b''))\<rparr>,
       \<lparr>tn_deadline = False, tn_cancelled = True, tn_item = (None :: (string, string, unit) diagnostic_event stream_item option)\<rparr>] = Some r
    \<and> de_console r = [''a''] \<and> truncated r"
proof -
  let ?opts = "\<lparr>co_max_events = 1, co_max_bytes = 9, co_max_duration = 1\<rparr>"
  let ?turns = "[\<lparr>tn_deadline = False, tn_cancelled = False, tn_item = Some (StreamEvent (ConsoleEvent ''a''))\<rparr>,
       \<lparr>tn_deadline = False, tn_cancelled = False, tn_item = Some (StreamEvent (PageErrorEvent ''b''))\<rparr>,
       \<lparr>tn_deadline = False, tn_cancelled = True, tn_item = (None :: (string, string, unit) diagnostic_event stream_item option)\<rparr>]"
  obtain r where r: "collector_from_stream (\<lambda>_. Some 5) ?opts 0 3 ?turns = Some r"
    by (simp add: collector_from_stream_def diagnostic_event_size_def)
  from collector_keeps_greedily [OF r]
  have "de_console r = [''a''] \<and> truncated r"
    by (simp add: usize_max_def turn_stops_def diagnostic_event_size_def consoles_def Let_def)
  with r show ?thesis by blast
qed

end
