(* ===== verification/Spec2Isabelle.thy ===== *)
theory Spec2Isabelle
  imports Prelude Rust_Strings Capability Errors Lifecycle Ownership FrameGraph Json FrameSessions AuxTargets EventHub NetworkLaws
    Navigation Downloads Dialogs Choosers Expectations DaemonRuns DaemonProps DaemonPersist StorageLaws Launch RouteConfig TargetClose PageClose SessionCore SessionClose RuntimeCore Artifacts
    Geometry Captures Diagnostics
begin

text \<open>
  Verification library of browserkit, a browser runtime over the Chrome DevTools Protocol (CDP), with the
  daemon and the command line built on it. All paths are relative to \<open>src/src/\<close>.

  \<^bold>\<open>The program.\<close> The runtime (\<open>runtime/\<close>) keeps, for every page, a graph of frames, the CDP sessions
  of its out-of-process children, the network requests of its documents, dialogs, downloads and file
  choosers, all driven by events of the browser. Operations are admitted by gates, and everything they
  leave in the browser is registered in a pending-ownership registry that closing drains. Facts are
  published on event hubs. The daemon (\<open>daemon/\<close>) serves requests over a socket: it groups tabs
  into sessions, watches the targets of the browsers it is connected to, and persists its sessions.

  \<^bold>\<open>How code is modelled.\<close> Every definition is a translation of the function or type the manifest maps it
  to. Structs are records, enums datatypes, \<open>HashMap\<close> an association list whose order stands for the
  unspecified iteration order, \<open>u64\<close> is \<open>64 word\<close>, \<open>usize\<close> is \<open>nat\<close> with saturation at \<open>usize_max\<close>, text
  is the list of its UTF-8 bytes, and every error path is a value. What the browser, a clock or a
  third-party crate answers is an argument; a handler that waits is split where it waits or takes the
  state after the wait as a further argument, so that other operations may come in between. Locks are
  the atomicity of a definition, or a guard of a step relation.

  \<^bold>\<open>The theories.\<close>
  \<^item> \<open>Prelude\<close>, \<open>Rust_Strings\<close>, \<open>Json\<close>: hash maps, saturating counters, the operations of \<open>str\<close> and JSON
    values, and the shared contracts: the locales \<open>latch\<close> (a cell keeps its first value),
    \<open>token_guarded\<close> (an operation acts only under the current token), \<open>event_machine\<close> and
    \<open>transition_system\<close> (an invariant over runs). Each component interprets them on its own operations.
  \<^item> \<open>Capability\<close>: \<open>runtime/capability.rs\<close>; the table of what a browser of some version can do.
  \<^item> \<open>Errors\<close>: \<open>runtime/error.rs\<close>; the error record, its constructors, redaction, snapshots, close reports.
  \<^item> \<open>Lifecycle\<close>, \<open>Ownership\<close>: \<open>runtime/lifecycle.rs\<close> with the admission functions of \<open>page.rs\<close>,
    \<open>session.rs\<close> and \<open>browser.rs\<close>; document and target versions, operation gates, the close coordinator, and the
    registry of pending clean-ups as an interleaving of claims, restorations and closes.
  \<^item> \<open>EventHub\<close>: \<open>runtime/event.rs\<close>, \<open>identity.rs\<close>; publication, subscription, terminals, protocol facts.
  \<^item> \<open>FrameGraph\<close>, \<open>FrameSessions\<close>, \<open>AuxTargets\<close>: \<open>runtime/frame.rs\<close>; the frame graph and the merge of
    protocol frame trees, the attach, activation and detach of child sessions with rerouting and execution
    contexts, the decoding of attach payloads and auxiliary targets.
  \<^item> \<open>FrameRoutes\<close>: the handles of \<open>runtime/frame.rs\<close>: locator routes, lineages, scopes, and their confirmation
    against the frame trees the browser shows.
  \<^item> \<open>Floats\<close>, \<open>Urls\<close>: the values of \<open>f64\<close>, their comparison and rounded arithmetic, and what the code reads of a
    parsed URL.
  \<^item> \<open>Storage\<close>, \<open>StorageSession\<close>, \<open>StorageLaws\<close>: \<open>runtime/storage.rs\<close>; validation and matching of cookies and
    storage, the operations of a session and of a storage handle, export and import of the authentication state.
  \<^item> \<open>ContextOptions\<close>, \<open>RouteConfig\<close>, \<open>Launch\<close>: \<open>runtime/context_options.rs\<close>, \<open>route.rs\<close>, \<open>launch.rs\<close> and the parser of
    the endpoint file in \<open>browser/finder.rs\<close>; builders of options, the commands that configure a route with their
    rollback, and the launch of a browser process.
  \<^item> \<open>TargetClose\<close>: \<open>runtime/target_close.rs\<close>; the close of a created target and its confirmation.
  \<^item> \<open>PageClose\<close>: \<open>runtime/page.rs\<close>; the state of a page, its ownership and its three ways to close.
  \<^item> \<open>SessionCore\<close>, \<open>SessionClose\<close>: \<open>runtime/session.rs\<close>; the creation of a page as a transaction, attaching, popups,
    target events, and the close of a session. The registries of the runtime that a session works on are part of
    its state.
  \<^item> \<open>RuntimeCore\<close>: \<open>runtime/browser.rs\<close> and the creation of sessions in \<open>session.rs\<close>; \<open>lend\<close> and \<open>take_back\<close> pass the
    shared registries between the runtime and the session that works on them.
  \<^item> \<open>Artifacts\<close>, \<open>Captures\<close>: \<open>runtime/artifact.rs\<close>; base64 lengths and the headers of PNG, JPEG and WebP images,
    and the production of screenshots, PDF and HTML with their limits, and the atomic save.
  \<^item> \<open>Geometry\<close>: \<open>runtime/geometry.rs\<close>; quads, the layout of frame owners, the projection through a lineage of
    frames to the top page, and the fence that confirms the samples a mapping was computed from.
  \<^item> \<open>Diagnostics\<close>: \<open>runtime/diagnostic.rs\<close>; the collector of events within its budgets, and the bundle.
  \<^item> \<open>NetworkFacts\<close>, \<open>NetworkReducer\<close>, \<open>NetworkLaws\<close>: \<open>runtime/network.rs\<close>; facts, the reducer of
    requests, redirect hops and sockets across sessions, pruning, and the idle and predicate waits.
  \<^item> \<open>Waits\<close>, \<open>Navigation\<close>: \<open>runtime/wait.rs\<close>, \<open>navigation.rs\<close> and the navigation parts of \<open>frame.rs\<close>.
  \<^item> \<open>Downloads\<close>, \<open>Dialogs\<close>, \<open>Choosers\<close>, \<open>Expectations\<close>: \<open>runtime/download.rs\<close>, \<open>dialog.rs\<close>,
    \<open>file_chooser.rs\<close>, \<open>popup.rs\<close>; their coordinators and the expectations that race an action with an event.
  \<^item> \<open>DaemonProtocol\<close>, \<open>DaemonDialogs\<close>: \<open>daemon/protocol.rs\<close>, \<open>error.rs\<close>, \<open>daemon/dialog.rs\<close>, \<open>console.rs\<close>.
  \<^item> \<open>DaemonSessions\<close>, \<open>DaemonRequests\<close>, \<open>DaemonHandlers\<close>: \<open>daemon/session.rs\<close>, \<open>state.rs\<close>,
    \<open>target_lifecycle.rs\<close>, \<open>target_close.rs\<close>, the clean-up of \<open>server.rs\<close>, and of \<open>daemon/handler/\<close> the files
    \<open>mod.rs\<close>, \<open>common.rs\<close>, \<open>connect.rs\<close>, \<open>open.rs\<close>, \<open>attach.rs\<close>, \<open>tabs.rs\<close>, \<open>session.rs\<close>, \<open>browser.rs\<close>.
    \<open>DaemonLaws\<close>, \<open>DaemonSafety\<close> and \<open>DaemonRuns\<close> prove that every operation keeps the sessions sound and the
    reservations exact, over an inductive step relation; \<open>DaemonProps\<close> proves properties of single handlers.
  \<^item> \<open>DaemonPersist\<close>: \<open>daemon/persist.rs\<close>; the schema of \<open>state.json\<close>, its validation and the restart.

  \<^bold>\<open>What the lemmas show.\<close> Invariants: every known parent of a frame knows it as a child, exact in-flight counters,
  interception of choosers only while somebody expects one or a switch-off failed, sound daemon
  sessions and exact reservations. Refinement and equivalence: streams see the history of their hub,
  dialogs are answered once, the collected session subtree is the closure of the child relation, the length of a
  base64 payload is that of a reference decoder. Error
  behaviour: what an error says about the completion of its action is true, or a finding says where it is
  not. All or nothing: a page or an isolated session is created and owned, or everything created for it is
  closed exactly once; an import of an authentication state, a route configuration and a launch are undone or
  reported. Closing: a page, a session and the runtime leave nothing registered; a complete report of a page or of a
  session means that every clean-up succeeded, and one of the runtime that its sessions and its process closed. A save replaces a file as a whole or not at all, and one changed byte of a PNG header is
  noticed. A region is captured only where a confirmed fence proves its geometry current. Round trip: the sessions of the daemon survive a restart. Liveness and termination: rerouting and
  clean-up end, idle and stability waits succeed only after a whole quiet window.

  \<^bold>\<open>Bounds and fuel.\<close> The recursive detach runs on fuel equal to the number of frames plus one, which is enough
  because every call removes a frame before it recurses. Loops over pending work are \<open>function\<close>s with a
  measure, as are the scans of JPEG and WebP files, whose offset grows. Identities and versions are 64-bit counters; where uniqueness needs that they do not wrap or
  saturate, the theorem says so. Fewer than \<open>usize::MAX\<close> opens of the daemon are in flight at a time.

  \<^bold>\<open>Granularity.\<close> A handler runs as one step between the points where it waits for its admitted operations.
  So the admissions of several gates are one step, a close runs to its end without a clean-up failure recorded
  meanwhile, and all routes of one session are confirmed against one view of the store. The runs of the daemon
  start without sessions; what a restart restores is the subject of \<open>DaemonPersist\<close>.

  \<^bold>\<open>Not modelled.\<close> Encoding and decoding of CDP commands and the tasks that only forward events; the bodies
  of network messages; scripts that run in the page; snapshots, locator resolution and actions on elements, whose
  logic is in those scripts; sockets and the
  process of the daemon; the handlers of the daemon that forward one command and format its reply; argument
  parsing; the older page and browser API.
\<close>

end
